(* ===== verification/Prelude.thy ===== *)
theory Prelude
  imports Main "HOL-Library.Word"
begin

unbundle bit_operations_syntax

text \<open>
  The vocabulary every component of the engine shares.

  \<^item> Rust's integer types as words of their width (signed ones are read with \<open>sint\<close>); \<open>usize\<close>
    as \<open>nat\<close>, with the 64-bit bound written out where the code checks it.
  \<^item> \<open>outcome\<close>: what a Rust function call ends in. \<open>Ok\<close> and \<open>Err\<close> are the two sides of
    \<open>Result\<close>; \<open>Panic\<close> is an unwinding panic (an index out of bounds, an \<open>expect\<close> on an error).
    Every slice access of the sources is translated with its bounds check, so that a theorem
    \<open>f x \<noteq> Panic\<close> says something about the code.
  \<^item> Byte slices, little-endian integers, the \<open>for _ in 0..count\<close> loop that threads an offset,
    and the two locales that state what a reader and a codec over an offset promise.
\<close>

named_theorems byte_simps \<open>rewriting of byte layouts: lengths and slices of encoded values\<close>

section \<open>Integer types\<close>

type_synonym u8 = "8 word"
type_synonym u16 = "16 word"
type_synonym u32 = "32 word"
type_synonym u64 = "64 word"
type_synonym i16 = "16 word"
type_synonym i32 = "32 word"
type_synonym i64 = "64 word"
type_synonym usize = nat
type_synonym bytes = "u8 list"

abbreviation usize_max :: nat where
  "usize_max \<equiv> 2 ^ 64 - 1"

text \<open>\<open>usize::checked_add\<close>, \<open>usize::checked_mul\<close> and the \<open>try_into\<close> conversions to narrower types.\<close>

definition usize_checked_add :: "usize \<Rightarrow> usize \<Rightarrow> usize option" where
  "usize_checked_add a b = (if a + b \<le> usize_max then Some (a + b) else None)"

definition usize_checked_mul :: "usize \<Rightarrow> usize \<Rightarrow> usize option" where
  "usize_checked_mul a b = (if a * b \<le> usize_max then Some (a * b) else None)"

definition try_u16 :: "usize \<Rightarrow> u16 option" where
  "try_u16 n = (if n < 2 ^ 16 then Some (of_nat n) else None)"

definition try_u32 :: "usize \<Rightarrow> u32 option" where
  "try_u32 n = (if n < 2 ^ 32 then Some (of_nat n) else None)"

lemma try_u16_unat: "try_u16 n = Some w \<Longrightarrow> unat w = n"
  by (auto simp: try_u16_def unat_of_nat split: if_splits)

lemma try_u32_unat: "try_u32 n = Some w \<Longrightarrow> unat w = n"
  by (auto simp: try_u32_def unat_of_nat split: if_splits)

lemma unat_u8_less: "unat (b :: u8) < 256"
  using unsigned_less[of b, where 'a = nat] by simp

lemma unat_u32_less: "unat (b :: u32) < 2 ^ 32"
  using unsigned_less[of b, where 'a = nat] by simp

lemma unat_of_nat_u16 [simp]: "n < 65536 \<Longrightarrow> unat (of_nat n :: u16) = n"
  by (simp add: unat_of_nat)

lemma unat_of_nat_u32 [simp]: "n < 4294967296 \<Longrightarrow> unat (of_nat n :: u32) = n"
  by (simp add: unat_of_nat)

section \<open>Outcomes\<close>

datatype ('e, 'a) outcome = Ok 'a | Err 'e | Panic

text \<open>The \<open>?\<close> operator: go on with the value, or leave with the error or the panic.\<close>

fun obind :: "('e, 'a) outcome \<Rightarrow> ('a \<Rightarrow> ('e, 'b) outcome) \<Rightarrow> ('e, 'b) outcome" where
  "obind (Ok x) f = f x"
| "obind (Err e) f = Err e"
| "obind Panic f = Panic"

lemma obind_cong [fundef_cong]:
  "m = n \<Longrightarrow> (\<And>x. n = Ok x \<Longrightarrow> f x = g x) \<Longrightarrow> obind m f = obind n g"
  by (cases n) auto

lemma obind_Ok_iff [simp]: "obind m f = Ok y \<longleftrightarrow> (\<exists>x. m = Ok x \<and> f x = Ok y)"
  by (cases m) auto

lemma obind_Panic_iff [simp]: "obind m f = Panic \<longleftrightarrow> m = Panic \<or> (\<exists>x. m = Ok x \<and> f x = Panic)"
  by (cases m) auto

text \<open>Safety proofs walk down a body: a run does not panic when none of its steps does.\<close>

lemma obind_not_PanicI:
  "m \<noteq> Panic \<Longrightarrow> (\<And>x. m = Ok x \<Longrightarrow> f x \<noteq> Panic) \<Longrightarrow> obind m f \<noteq> Panic"
  by (cases m) auto

lemma if_not_PanicI:
  "(b \<Longrightarrow> x \<noteq> Panic) \<Longrightarrow> (\<not> b \<Longrightarrow> y \<noteq> Panic) \<Longrightarrow> (if b then x else y) \<noteq> Panic"
  by auto

lemma prod_not_PanicI:
  "(\<And>a b. p = (a, b) \<Longrightarrow> f a b \<noteq> Panic) \<Longrightarrow> (case p of (a, b) \<Rightarrow> f a b) \<noteq> Panic"
  by (cases p) auto

lemmas not_PanicI = obind_not_PanicI if_not_PanicI prod_not_PanicI

lemma obind_assoc: "obind (obind m f) g = obind m (\<lambda>x. obind (f x) g)"
  by (cases m) auto

definition omap :: "('a \<Rightarrow> 'b) \<Rightarrow> ('e, 'a) outcome \<Rightarrow> ('e, 'b) outcome" where
  "omap f m = obind m (\<lambda>x. Ok (f x))"

text \<open>\<open>Result::map_err\<close>, \<open>Option::ok_or\<close>, \<open>Result::expect\<close>, and an early \<open>return Err(..)\<close>.\<close>

fun map_err :: "('e \<Rightarrow> 'f) \<Rightarrow> ('e, 'a) outcome \<Rightarrow> ('f, 'a) outcome" where
  "map_err f (Ok x) = Ok x"
| "map_err f (Err e) = Err (f e)"
| "map_err f Panic = Panic"

fun ok_or :: "'a option \<Rightarrow> 'e \<Rightarrow> ('e, 'a) outcome" where
  "ok_or (Some x) e = Ok x"
| "ok_or None e = Err e"

fun expect :: "('e, 'a) outcome \<Rightarrow> ('f, 'a) outcome" where
  "expect (Ok x) = Ok x"
| "expect (Err e) = Panic"
| "expect Panic = Panic"

definition fail_if :: "bool \<Rightarrow> 'e \<Rightarrow> ('e, unit) outcome" where
  "fail_if b e = (if b then Err e else Ok ())"

lemma map_err_Ok_iff [simp]: "map_err f m = Ok x \<longleftrightarrow> m = Ok x"
  by (cases m) auto

lemma map_err_Panic_iff [simp]: "map_err f m = Panic \<longleftrightarrow> m = Panic"
  by (cases m) auto

lemma ok_or_Ok_iff [simp]: "ok_or m e = Ok x \<longleftrightarrow> m = Some x"
  by (cases m) auto

lemma ok_or_not_Panic [simp]: "ok_or m e \<noteq> Panic"
  by (cases m) auto

lemma expect_Ok_iff [simp]: "expect m = Ok x \<longleftrightarrow> m = Ok x"
  by (cases m) auto

lemma fail_if_Ok_iff [simp]: "fail_if b e = Ok u \<longleftrightarrow> \<not> b"
  by (simp add: fail_if_def)

lemma fail_if_not_Panic [simp]: "fail_if b e \<noteq> Panic"
  by (simp add: fail_if_def)

lemma fail_if_False [simp]: "fail_if False e = Ok ()"
  by (simp add: fail_if_def)

lemma fail_if_True [simp]: "fail_if True e = Err e"
  by (simp add: fail_if_def)

lemma omap_Ok [simp]: "omap f (Ok x) = Ok (f x)"
  by (simp add: omap_def)

lemma omap_Panic_iff [simp]: "omap f m = Panic \<longleftrightarrow> m = Panic"
  by (simp add: omap_def)

lemma omap_Ok_iff [simp]: "omap f m = Ok y \<longleftrightarrow> (\<exists>x. m = Ok x \<and> y = f x)"
  by (auto simp: omap_def)

definition is_err :: "('e, 'a) outcome \<Rightarrow> bool" where
  "is_err m = (case m of Err _ \<Rightarrow> True | _ \<Rightarrow> False)"

text \<open>\<open>for x in xs { .. f(x)? .. }\<close> collecting the results.\<close>

fun omapM :: "('a \<Rightarrow> ('e, 'b) outcome) \<Rightarrow> 'a list \<Rightarrow> ('e, 'b list) outcome" where
  "omapM f [] = Ok []"
| "omapM f (x # xs) = obind (f x) (\<lambda>y. obind (omapM f xs) (\<lambda>ys. Ok (y # ys)))"

lemma omapM_cong [fundef_cong]:
  "xs = ys \<Longrightarrow> (\<And>x. x \<in> set ys \<Longrightarrow> f x = g x) \<Longrightarrow> omapM f xs = omapM g ys"
  by (induction ys arbitrary: xs) auto

lemma omapM_Ok_list_all2: "omapM f xs = Ok ys \<longleftrightarrow> list_all2 (\<lambda>x y. f x = Ok y) xs ys"
  by (induction xs arbitrary: ys) (auto simp: list_all2_Cons1)

lemma omapM_Ok_map: "(\<And>x. x \<in> set xs \<Longrightarrow> f x = Ok (g x)) \<Longrightarrow> omapM f xs = Ok (map g xs)"
  by (induction xs) auto

lemma omapM_not_Panic: "(\<And>x. x \<in> set xs \<Longrightarrow> f x \<noteq> Panic) \<Longrightarrow> omapM f xs \<noteq> Panic"
  by (induction xs) auto

section \<open>Byte slices\<close>

text \<open>\<open>xs[i]\<close>, \<open>xs[a..b]\<close>, and the array literal \<open>[xs[o], .., xs[o + n - 1]]\<close> handed to \<open>from_le_bytes\<close>.\<close>

definition idx :: "'a list \<Rightarrow> nat \<Rightarrow> ('e, 'a) outcome" where
  "idx xs i = (if i < length xs then Ok (xs ! i) else Panic)"

definition range_of :: "'a list \<Rightarrow> nat \<Rightarrow> nat \<Rightarrow> ('e, 'a list) outcome" where
  "range_of xs a b = (if a \<le> b \<and> b \<le> length xs then Ok (take (b - a) (drop a xs)) else Panic)"

definition array_at :: "nat \<Rightarrow> 'a list \<Rightarrow> nat \<Rightarrow> ('e, 'a list) outcome" where
  "array_at n xs i = (if i + n \<le> length xs then Ok (take n (drop i xs)) else Panic)"

lemma idx_Panic_iff [simp]: "idx xs i = Panic \<longleftrightarrow> length xs \<le> i"
  by (auto simp: idx_def)

lemma idx_Ok [simp]: "i < length xs \<Longrightarrow> idx xs i = Ok (xs ! i)"
  by (simp add: idx_def)

lemma range_of_Panic_iff [simp]: "range_of xs a b = Panic \<longleftrightarrow> \<not> (a \<le> b \<and> b \<le> length xs)"
  by (auto simp: range_of_def)

lemma range_of_Ok [simp]:
  "a \<le> b \<Longrightarrow> b \<le> length xs \<Longrightarrow> range_of xs a b = Ok (take (b - a) (drop a xs))"
  by (simp add: range_of_def)

lemma array_at_Panic_iff [simp]: "array_at n xs i = Panic \<longleftrightarrow> length xs < i + n"
  by (auto simp: array_at_def)

lemma array_at_Ok [simp]: "i + n \<le> length xs \<Longrightarrow> array_at n xs i = Ok (take n (drop i xs))"
  by (simp add: array_at_def)

lemma idx_Ok_iff [simp]: "idx xs i = Ok x \<longleftrightarrow> i < length xs \<and> x = xs ! i"
  by (auto simp: idx_def)

lemma range_of_Ok_iff [simp]:
  "range_of xs a b = Ok ys \<longleftrightarrow> a \<le> b \<and> b \<le> length xs \<and> ys = take (b - a) (drop a xs)"
  by (auto simp: range_of_def)

lemma array_at_Ok_iff [simp]:
  "array_at n xs i = Ok ys \<longleftrightarrow> i + n \<le> length xs \<and> ys = take n (drop i xs)"
  by (auto simp: array_at_def)

section \<open>Little-endian integers\<close>

text \<open>\<open>to_le_bytes\<close> of an integer of \<open>n\<close> bytes and \<open>from_le_bytes\<close>.\<close>

fun le_bytes :: "nat \<Rightarrow> 'a::len word \<Rightarrow> bytes" where
  "le_bytes 0 w = []"
| "le_bytes (Suc n) w = ucast w # le_bytes n (drop_bit 8 w)"

fun from_le :: "bytes \<Rightarrow> 'a::len word" where
  "from_le [] = 0"
| "from_le (b # bs) = ucast b OR push_bit 8 (from_le bs)"

definition u16_le :: "u16 \<Rightarrow> bytes" where "u16_le w = le_bytes 2 w"
definition u32_le :: "u32 \<Rightarrow> bytes" where "u32_le w = le_bytes 4 w"
definition u64_le :: "u64 \<Rightarrow> bytes" where "u64_le w = le_bytes 8 w"

lemma length_le_bytes [simp]: "length (le_bytes n w) = n"
  by (induction n arbitrary: w) auto

lemma length_uN_le [simp]:
  "length (u16_le a) = 2" "length (u32_le b) = 4" "length (u64_le c) = 8"
  by (simp_all add: u16_le_def u32_le_def u64_le_def)

lemma bit_from_le:
  "bit (from_le bs :: 'a::len word) k \<longleftrightarrow>
     k < LENGTH('a) \<and> k div 8 < length bs \<and> bit (bs ! (k div 8)) (k mod 8)"
proof (induction bs arbitrary: k)
  case Nil
  then show ?case by simp
next
  case (Cons b bs)
  show ?case
  proof (cases "k < 8")
    case True
    then show ?thesis
      by (auto simp: bit_or_iff bit_ucast_iff bit_push_bit_iff bit_imp_le_length)
  next
    case False
    then have "k div 8 = Suc ((k - 8) div 8)" "k mod 8 = (k - 8) mod 8"
      by (simp_all add: le_div_geq le_mod_geq)
    moreover have "\<not> bit b k"
      using False bit_imp_le_length[of b k] by auto
    ultimately show ?thesis
      using False Cons.IH[of "k - 8"]
      by (auto simp: bit_or_iff bit_ucast_iff bit_push_bit_iff)
  qed
qed

lemma nth_le_bytes: "i < n \<Longrightarrow> le_bytes n w ! i = ucast (drop_bit (8 * i) w)"
  by (induction n arbitrary: w i)
    (auto simp: nth_Cons drop_bit_drop_bit add.commute split: nat.splits)

lemma from_le_le_bytes:
  fixes w :: "'a::len word"
  assumes "LENGTH('a) \<le> 8 * n"
  shows "from_le (le_bytes n w) = w"
proof (rule bit_word_eqI)
  fix k assume k: "k < LENGTH('a)"
  then have "k div 8 < n" using assms by (simp add: less_mult_imp_div_less mult.commute)
  then show "bit (from_le (le_bytes n w) :: 'a word) k \<longleftrightarrow> bit w k"
    using k by (simp add: bit_from_le nth_le_bytes bit_ucast_iff bit_drop_bit_eq)
qed

lemma le_bytes_from_le:
  assumes "length bs = n" "8 * n \<le> LENGTH('a::len)"
  shows "le_bytes n (from_le bs :: 'a word) = bs"
proof (rule nth_equalityI)
  show "length (le_bytes n (from_le bs :: 'a word)) = length bs" using assms by simp
next
  fix i assume "i < length (le_bytes n (from_le bs :: 'a word))"
  then have i: "i < n" by simp
  show "le_bytes n (from_le bs :: 'a word) ! i = bs ! i"
  proof (rule bit_word_eqI)
    fix k :: nat assume "k < LENGTH(8)"
    then have "k < 8" by simp
    then show "bit (le_bytes n (from_le bs :: 'a word) ! i) k \<longleftrightarrow> bit (bs ! i) k"
      using i assms by (auto simp: nth_le_bytes bit_ucast_iff bit_drop_bit_eq bit_from_le)
  qed
qed

lemma from_le_uN [simp]:
  "from_le (u16_le a) = a" "from_le (u32_le b) = b" "from_le (u64_le c) = c"
  by (simp_all add: u16_le_def u32_le_def u64_le_def from_le_le_bytes)

lemma uN_le_from_le:
  "length bs = 2 \<Longrightarrow> u16_le (from_le bs) = bs"
  "length bs = 4 \<Longrightarrow> u32_le (from_le bs) = bs"
  "length bs = 8 \<Longrightarrow> u64_le (from_le bs) = bs"
  by (simp_all add: u16_le_def u32_le_def u64_le_def le_bytes_from_le)

section \<open>Loops over an offset\<close>

text \<open>
  \<^verbatim>\<open>for _ in 0..count { let x = ..; offset = ..; out.push(x); }\<close>: the reader is run \<open>count\<close> times,
  each time at the offset the run before left.
\<close>

fun read_n ::
  "(bytes \<Rightarrow> nat \<Rightarrow> ('e, 'a \<times> nat) outcome) \<Rightarrow> bytes \<Rightarrow> nat \<Rightarrow> nat \<Rightarrow> ('e, 'a list \<times> nat) outcome"
where
  "read_n rd data 0 off = Ok ([], off)"
| "read_n rd data (Suc n) off =
     obind (rd data off) (\<lambda>(x, off'). obind (read_n rd data n off') (\<lambda>(xs, off''). Ok (x # xs, off'')))"

lemma read_n_length: "read_n rd data n off = Ok (xs, off') \<Longrightarrow> length xs = n"
  by (induction n arbitrary: off xs off') (auto split: prod.splits)

lemma read_n_all:
  assumes "\<And>off x off'. rd data off = Ok (x, off') \<Longrightarrow> P x"
  shows "read_n rd data n off = Ok (xs, off') \<Longrightarrow> list_all P xs"
  by (induction n arbitrary: off xs off') (auto split: prod.splits intro: assms)

text \<open>A loop over encoded values returns what one run returns for each of them.\<close>

lemma read_n_norm:
  assumes "\<And>x pre post. P x \<Longrightarrow> length (pre @ enc x @ post) \<le> usize_max \<Longrightarrow>
      rd (pre @ enc x @ post) (length pre) = Ok (norm x, length pre + length (enc x))"
  shows "list_all P xs \<Longrightarrow> length (pre @ concat (map enc xs) @ post) \<le> usize_max \<Longrightarrow>
     read_n rd (pre @ concat (map enc xs) @ post) (length xs) (length pre) =
       Ok (map norm xs, length pre + length (concat (map enc xs)))"
proof (induction xs arbitrary: pre)
  case Nil
  then show ?case by simp
next
  case (Cons x xs)
  have "rd (pre @ enc x @ concat (map enc xs) @ post) (length pre) =
          Ok (norm x, length (pre @ enc x))"
    using Cons.prems assms[of x pre "concat (map enc xs) @ post"] by simp
  moreover have "read_n rd ((pre @ enc x) @ concat (map enc xs) @ post) (length xs) (length (pre @ enc x)) =
          Ok (map norm xs, length (pre @ enc x) + length (concat (map enc xs)))"
    using Cons.prems by (intro Cons.IH) simp_all
  ultimately show ?case by simp
qed

text \<open>\<open>dec(&data[offset..])\<close>, where \<open>dec\<close> returns its value and the number of bytes it consumed.\<close>

definition at_offset ::
  "(bytes \<Rightarrow> ('e, 'a \<times> nat) outcome) \<Rightarrow> bytes \<Rightarrow> nat \<Rightarrow> ('e, 'a \<times> nat) outcome"
where
  "at_offset dec data off =
     obind (range_of data off (length data)) (\<lambda>s. obind (dec s) (\<lambda>(x, n). Ok (x, off + n)))"

text \<open>What a reader over an offset promises: it never leaves the buffer.\<close>

locale offset_reader =
  fixes rd :: "bytes \<Rightarrow> nat \<Rightarrow> ('e, 'a \<times> nat) outcome"
  assumes rd_no_panic: "off \<le> length data \<Longrightarrow> rd data off \<noteq> Panic"
    and rd_bounds: "off \<le> length data \<Longrightarrow> rd data off = Ok (x, off') \<Longrightarrow> off \<le> off' \<and> off' \<le> length data"
begin

lemma read_n_bounds:
  "off \<le> length data \<Longrightarrow> read_n rd data n off = Ok (xs, off') \<Longrightarrow> off \<le> off' \<and> off' \<le> length data"
proof (induction n arbitrary: off xs off')
  case 0
  then show ?case by simp
next
  case (Suc n)
  from Suc.prems(2) obtain x ys o1 where
    s: "rd data off = Ok (x, o1)" "read_n rd data n o1 = Ok (ys, off')" "xs = x # ys"
    by (auto split: prod.splits)
  from rd_bounds[OF Suc.prems(1) s(1)] have "off \<le> o1" "o1 \<le> length data" by auto
  with Suc.IH[OF _ s(2)] show ?case by fastforce
qed

lemma read_n_no_panic: "off \<le> length data \<Longrightarrow> read_n rd data n off \<noteq> Panic"
proof (induction n arbitrary: off)
  case 0
  then show ?case by simp
next
  case (Suc n)
  show ?case
  proof (cases "rd data off")
    case (Ok p)
    obtain x o1 where p: "p = (x, o1)" by (cases p)
    with Ok Suc.prems rd_bounds have "o1 \<le> length data" by blast
    then have "read_n rd data n o1 \<noteq> Panic" by (rule Suc.IH)
    with Ok p show ?thesis by (simp split: prod.splits)
  qed (use rd_no_panic[OF Suc.prems] in simp_all)
qed

end

text \<open>
  What a codec over an offset promises: written anywhere in a buffer (one that fits the address
  space, as every Rust slice does), a value that satisfies the precondition of the encoder is read
  back, and the offset moves to its end.
\<close>

locale offset_codec = offset_reader rd
  for rd :: "bytes \<Rightarrow> nat \<Rightarrow> ('e, 'a \<times> nat) outcome" +
  fixes enc :: "'a \<Rightarrow> bytes" and wf :: "'a \<Rightarrow> bool"
  assumes rd_enc: "wf x \<Longrightarrow> length (pre @ enc x @ post) \<le> usize_max \<Longrightarrow>
    rd (pre @ enc x @ post) (length pre) = Ok (x, length pre + length (enc x))"
begin

lemma read_n_enc:
  "list_all wf xs \<Longrightarrow> length (pre @ concat (map enc xs) @ post) \<le> usize_max \<Longrightarrow>
     read_n rd (pre @ concat (map enc xs) @ post) (length xs) (length pre) =
       Ok (xs, length pre + length (concat (map enc xs)))"
  using read_n_norm[where norm = id and P = wf and enc = enc and rd = rd and xs = xs and pre = pre and post = post]
    rd_enc by simp

end

text \<open>
  A decoder of a prefix, the form \<open>deserialize(&data[offset..])\<close> uses: it returns the value and
  the bytes it consumed, at most those it was given and at least one. It is a codec at every offset.
\<close>

locale prefix_codec =
  fixes dec :: "bytes \<Rightarrow> ('e, 'a \<times> nat) outcome"
    and enc :: "'a \<Rightarrow> bytes" and wf :: "'a \<Rightarrow> bool"
  assumes dec_no_panic: "dec bs \<noteq> Panic"
    and dec_bounds: "dec bs = Ok (x, n) \<Longrightarrow> 0 < n \<and> n \<le> length bs"
    and dec_enc: "wf x \<Longrightarrow> dec (enc x @ post) = Ok (x, length (enc x))"
begin

lemma enc_nonempty: "wf x \<Longrightarrow> enc x \<noteq> []"
  using dec_bounds[OF dec_enc[of x "[]"]] by auto

lemma at_enc: "wf x \<Longrightarrow> at_offset dec (pre @ enc x @ post) (length pre) = Ok (x, length pre + length (enc x))"
  by (simp add: at_offset_def dec_enc)

end

sublocale prefix_codec \<subseteq> at: offset_codec "at_offset dec" enc wf
proof
  fix off data
  assume le: "off \<le> length (data :: bytes)"
  show "at_offset dec data off \<noteq> Panic"
    using le dec_no_panic by (auto simp: at_offset_def split: prod.splits)
  fix x off'
  assume "at_offset dec data off = Ok (x, off')"
  with le show "off \<le> off' \<and> off' \<le> length data"
    using dec_bounds by (fastforce simp: at_offset_def split: prod.splits)
next
  fix x pre post
  assume "wf x"
  then show "at_offset dec (pre @ enc x @ post) (length pre) = Ok (x, length pre + length (enc x))"
    by (rule at_enc)
qed

section \<open>Shared list lemmas\<close>

lemma take_drop_append [byte_simps]:
  "length a = n \<Longrightarrow> take n (drop (length pre) (pre @ a @ post)) = a"
  by simp

lemma length_concat_map_le: "(\<And>x. x \<in> set xs \<Longrightarrow> length (f x) \<le> k) \<Longrightarrow> length (concat (map f xs)) \<le> k * length xs"
  by (induction xs) (auto simp: add_mono)

lemma length_concat_map_const: "(\<And>x. x \<in> set xs \<Longrightarrow> length (f x) = k) \<Longrightarrow> length (concat (map f xs)) = k * length xs"
  by (induction xs) auto

end
