(* ===== verification/Rust_Text.thy ===== *)
theory Rust_Text
  imports Prelude
begin

text \<open>
  The part of Rust's \<open>str\<close> and formatting library that the engine calls, modelled as the standard
  library documents it. A Rust \<open>String\<close> is the HOL \<open>string\<close> of its UTF-8 bytes (a HOL \<open>char\<close> is
  one byte), so \<open>length\<close> is \<open>str::len\<close>; \<open>valid_str\<close> is the UTF-8 invariant every Rust string has.
\<close>

section \<open>Bytes and strings\<close>

definition byte_of :: "char \<Rightarrow> u8" where
  "byte_of c = of_char c"

definition char_at :: "u8 \<Rightarrow> char" where
  "char_at b = char_of (unat b)"

definition as_bytes :: "string \<Rightarrow> bytes" where
  "as_bytes s = map byte_of s"

definition of_bytes :: "bytes \<Rightarrow> string" where
  "of_bytes bs = map char_at bs"

lemma unat_byte_of: "unat (byte_of c) = of_char c"
proof -
  have "byte_of c = of_nat (of_char c)"
    by (simp add: byte_of_def of_nat_of_char)
  then show ?thesis by (simp add: unat_of_nat)
qed

lemma char_at_byte_of [simp]: "char_at (byte_of c) = c"
  by (simp add: char_at_def unat_byte_of)

lemma byte_of_char_at [simp]: "byte_of (char_at b) = b"
proof -
  have "unat (byte_of (char_at b)) = unat b mod 256"
    by (simp add: unat_byte_of char_at_def)
  also have "\<dots> = unat b"
    using unat_u8_less[of b] by simp
  finally show ?thesis by (simp add: word_unat_eq_iff)
qed

lemma of_bytes_as_bytes [simp]: "of_bytes (as_bytes s) = s"
  by (simp add: as_bytes_def of_bytes_def comp_def)

lemma as_bytes_of_bytes [simp]: "as_bytes (of_bytes bs) = bs"
  by (simp add: as_bytes_def of_bytes_def comp_def)

lemma length_as_bytes [simp]: "length (as_bytes s) = length s"
  by (simp add: as_bytes_def)

lemma length_of_bytes [simp]: "length (of_bytes bs) = length bs"
  by (simp add: of_bytes_def)

lemma as_bytes_append [simp]: "as_bytes (a @ b) = as_bytes a @ as_bytes b"
  by (simp add: as_bytes_def)

section \<open>UTF-8 validation\<close>

text \<open>
  \<open>core::str::from_utf8\<close>: the validation loop, one character per iteration. An error carries the
  index of the first byte that is not part of a valid character and, unless the input ended too
  early, how many bytes are invalid. \<open>cont b\<close> is the test \<open>b as i8 >= -64\<close> negated.
\<close>

record utf8_error =
  valid_up_to :: nat
  error_len :: "nat option"

definition cont :: "u8 \<Rightarrow> bool" where
  "cont b \<longleftrightarrow> 0x80 \<le> b \<and> b \<le> 0xBF"

definition utf8_char_width :: "u8 \<Rightarrow> nat" where
  "utf8_char_width b =
     (if b < 0x80 then 1
      else if 0xC2 \<le> b \<and> b \<le> 0xDF then 2
      else if 0xE0 \<le> b \<and> b \<le> 0xEF then 3
      else if 0xF0 \<le> b \<and> b \<le> 0xF4 then 4
      else 0)"

definition second3_ok :: "u8 \<Rightarrow> u8 \<Rightarrow> bool" where
  "second3_ok first b \<longleftrightarrow>
     (if first = 0xE0 then 0xA0 \<le> b \<and> b \<le> 0xBF
      else if first = 0xED then 0x80 \<le> b \<and> b \<le> 0x9F
      else cont b)"

definition second4_ok :: "u8 \<Rightarrow> u8 \<Rightarrow> bool" where
  "second4_ok first b \<longleftrightarrow>
     (if first = 0xF0 then 0x90 \<le> b \<and> b \<le> 0xBF
      else if first = 0xF4 then 0x80 \<le> b \<and> b \<le> 0x8F
      else cont b)"

abbreviation utf8_err :: "nat \<Rightarrow> nat option \<Rightarrow> utf8_error option" where
  "utf8_err i l \<equiv> Some \<lparr>valid_up_to = i, error_len = l\<rparr>"

fun utf8_check :: "nat \<Rightarrow> bytes \<Rightarrow> utf8_error option" where
  "utf8_check i [] = None"
| "utf8_check i (b # bs) =
     (if utf8_char_width b = 1 then utf8_check (i + 1) bs
      else if utf8_char_width b = 2 then
        (case bs of [] \<Rightarrow> utf8_err i None
         | c # bs' \<Rightarrow> if \<not> cont c then utf8_err i (Some 1) else utf8_check (i + 2) bs')
      else if utf8_char_width b = 3 then
        (case bs of [] \<Rightarrow> utf8_err i None
         | c # bs' \<Rightarrow> if \<not> second3_ok b c then utf8_err i (Some 1) else
           (case bs' of [] \<Rightarrow> utf8_err i None
            | d # bs'' \<Rightarrow> if \<not> cont d then utf8_err i (Some 2) else utf8_check (i + 3) bs''))
      else if utf8_char_width b = 4 then
        (case bs of [] \<Rightarrow> utf8_err i None
         | c # bs' \<Rightarrow> if \<not> second4_ok b c then utf8_err i (Some 1) else
           (case bs' of [] \<Rightarrow> utf8_err i None
            | d # bs'' \<Rightarrow> if \<not> cont d then utf8_err i (Some 2) else
              (case bs'' of [] \<Rightarrow> utf8_err i None
               | e # bs''' \<Rightarrow> if \<not> cont e then utf8_err i (Some 3) else utf8_check (i + 4) bs''')))
      else utf8_err i (Some 1))"

definition from_utf8 :: "bytes \<Rightarrow> (utf8_error, string) outcome" where
  "from_utf8 bs = (case utf8_check 0 bs of None \<Rightarrow> Ok (of_bytes bs) | Some e \<Rightarrow> Err e)"

definition valid_str :: "string \<Rightarrow> bool" where
  "valid_str s \<longleftrightarrow> utf8_check 0 (as_bytes s) = None"

lemma from_utf8_as_bytes [simp]: "valid_str s \<Longrightarrow> from_utf8 (as_bytes s) = Ok s"
  by (simp add: from_utf8_def valid_str_def)

lemma from_utf8_not_Panic [simp]: "from_utf8 bs \<noteq> Panic"
  by (simp add: from_utf8_def split: option.splits)

lemma from_utf8_Ok_iff: "from_utf8 bs = Ok s \<longleftrightarrow> valid_str s \<and> bs = as_bytes s"
  by (auto simp: from_utf8_def valid_str_def split: option.splits)

text \<open>ASCII strings are valid.\<close>

definition ascii :: "string \<Rightarrow> bool" where
  "ascii s \<longleftrightarrow> list_all (\<lambda>c. of_char c < (128 :: nat)) s"

lemma utf8_check_ascii: "list_all (\<lambda>c. of_char c < (128 :: nat)) s \<Longrightarrow> utf8_check i (as_bytes s) = None"
proof (induction s arbitrary: i)
  case Nil
  then show ?case by (simp add: as_bytes_def)
next
  case (Cons c s)
  then have "byte_of c < 0x80" by (simp add: word_less_nat_alt unat_byte_of)
  then have "utf8_char_width (byte_of c) = 1" by (simp add: utf8_char_width_def)
  with Cons show ?case by (simp add: as_bytes_def)
qed

lemma valid_str_ascii: "ascii s \<Longrightarrow> valid_str s"
  by (simp add: valid_str_def ascii_def utf8_check_ascii)

section \<open>Decimal formatting and parsing\<close>

text \<open>\<open>{}\<close> of an unsigned and a signed integer.\<close>

definition digit_char :: "nat \<Rightarrow> char" where
  "digit_char d = char_of (48 + d)"

fun show_nat :: "nat \<Rightarrow> string" where
  "show_nat n = (if n < 10 then [digit_char n] else show_nat (n div 10) @ [digit_char (n mod 10)])"

declare show_nat.simps [simp del]

definition show_int :: "int \<Rightarrow> string" where
  "show_int i = (if i < 0 then CHR ''-'' # show_nat (nat (- i)) else show_nat (nat i))"

text \<open>
  \<open>from_str\<close> of the integer types: an optional sign (\<open>-\<close> for signed types only), at least one
  decimal digit and nothing else, and a value in the range of the type.
\<close>

definition is_digit_char :: "char \<Rightarrow> bool" where
  "is_digit_char c \<longleftrightarrow> 48 \<le> (of_char c :: nat) \<and> (of_char c :: nat) \<le> 57"

definition digit_val :: "char \<Rightarrow> nat" where
  "digit_val c = of_char c - 48"

definition digits_val :: "string \<Rightarrow> nat" where
  "digits_val s = foldl (\<lambda>a c. 10 * a + digit_val c) 0 s"

definition parse_digits :: "string \<Rightarrow> nat option" where
  "parse_digits s = (if s \<noteq> [] \<and> list_all is_digit_char s then Some (digits_val s) else None)"

definition parse_i32 :: "string \<Rightarrow> i32 option" where
  "parse_i32 s =
     (case s of [] \<Rightarrow> None
      | c # r \<Rightarrow>
        (if c = CHR ''-'' then
           (case parse_digits r of None \<Rightarrow> None
            | Some n \<Rightarrow> if n \<le> 2 ^ 31 then Some (of_int (- int n)) else None)
         else
           (case parse_digits (if c = CHR ''+'' then r else s) of None \<Rightarrow> None
            | Some n \<Rightarrow> if n < 2 ^ 31 then Some (of_nat n) else None)))"

definition parse_usize :: "string \<Rightarrow> usize option" where
  "parse_usize s =
     (case s of [] \<Rightarrow> None
      | c # r \<Rightarrow>
        (case parse_digits (if c = CHR ''+'' then r else s) of None \<Rightarrow> None
         | Some n \<Rightarrow> if n \<le> usize_max then Some n else None))"

lemma digit_char_props: "d < 10 \<Longrightarrow> is_digit_char (digit_char d) \<and> digit_val (digit_char d) = d"
  by (simp add: digit_char_def is_digit_char_def digit_val_def)

lemma show_nat_nonempty [simp]: "show_nat n \<noteq> []"
  by (subst show_nat.simps) simp

lemma show_nat_digits: "list_all is_digit_char (show_nat n)"
proof (induction n rule: show_nat.induct)
  case (1 n)
  then show ?case by (subst show_nat.simps) (simp add: digit_char_props)
qed

lemma digits_val_snoc [simp]: "digits_val (s @ [c]) = 10 * digits_val s + digit_val c"
  by (simp add: digits_val_def)

lemma digits_val_show_nat [simp]: "digits_val (show_nat n) = n"
proof (induction n rule: show_nat.induct)
  case (1 n)
  show ?case
  proof (cases "n < 10")
    case True
    then show ?thesis by (subst show_nat.simps) (simp add: digits_val_def digit_char_props)
  next
    case False
    with 1 show ?thesis by (subst show_nat.simps) (simp add: digit_char_props)
  qed
qed

lemma parse_digits_show_nat [simp]: "parse_digits (show_nat n) = Some n"
  by (simp add: parse_digits_def show_nat_digits)

lemma show_nat_hd: "show_nat n = c # r \<Longrightarrow> is_digit_char c"
  using show_nat_digits[of n] by simp

lemma digit_not_sign: "is_digit_char c \<Longrightarrow> c \<noteq> CHR ''-'' \<and> c \<noteq> CHR ''+'' \<and> c \<noteq> CHR ''_''"
  by (auto simp: is_digit_char_def)

lemma parse_i32_show_int [simp]: "parse_i32 (show_int (sint (w :: i32))) = Some w"
proof (cases "sint w < 0")
  case True
  have "- (2 ^ 31) \<le> sint w" using sint_ge[of w] by simp
  with True have "nat (- sint w) \<le> 2 ^ 31" by simp
  with True show ?thesis
    by (simp add: parse_i32_def show_int_def del: of_int_minus)
next
  case False
  have "sint w < 2 ^ 31" using sint_lt[of w] by simp
  with False have n: "nat (sint w) < 2 ^ 31" by simp
  obtain c r where cr: "show_nat (nat (sint w)) = c # r" by (cases "show_nat (nat (sint w))") auto
  then have "c \<noteq> CHR ''-''" "c \<noteq> CHR ''+''" using show_nat_hd digit_not_sign by auto
  moreover have "(of_nat (nat (sint w)) :: i32) = w" using False by simp
  moreover have "parse_digits (c # r) = Some (nat (sint w))"
    using cr parse_digits_show_nat[of "nat (sint w)"] by simp
  ultimately show ?thesis using False n cr by (simp add: parse_i32_def show_int_def)
qed

lemma parse_usize_show_nat [simp]: "n \<le> usize_max \<Longrightarrow> parse_usize (show_nat n) = Some n"
proof -
  assume n: "n \<le> usize_max"
  obtain c r where cr: "show_nat n = c # r" by (cases "show_nat n") auto
  moreover from this have "c \<noteq> CHR ''+''" using show_nat_hd digit_not_sign by auto
  moreover have "parse_digits (c # r) = Some n" using cr parse_digits_show_nat[of n] by simp
  ultimately show ?thesis using n by (simp add: parse_usize_def)
qed

section \<open>Searching, splitting, case\<close>

fun starts_with :: "'a list \<Rightarrow> 'a list \<Rightarrow> bool" where
  "starts_with s [] = True"
| "starts_with [] (p # ps) = False"
| "starts_with (c # s) (p # ps) = (c = p \<and> starts_with s ps)"

fun contains_sub :: "string \<Rightarrow> string \<Rightarrow> bool" where
  "contains_sub [] p = (p = [])"
| "contains_sub (c # s) p = (starts_with (c # s) p \<or> contains_sub s p)"

lemma starts_with_iff: "starts_with s p \<longleftrightarrow> (\<exists>r. s = p @ r)"
  by (induction s p rule: starts_with.induct) auto

definition to_ascii_lower_char :: "char \<Rightarrow> char" where
  "to_ascii_lower_char c =
     (if 65 \<le> (of_char c :: nat) \<and> (of_char c :: nat) \<le> 90 then char_of ((of_char c :: nat) + 32) else c)"

definition to_ascii_lowercase :: "string \<Rightarrow> string" where
  "to_ascii_lowercase s = map to_ascii_lower_char s"

text \<open>\<open>split_once(c)\<close> and \<open>split(c)\<close>.\<close>

fun split_once :: "char \<Rightarrow> string \<Rightarrow> (string \<times> string) option" where
  "split_once d [] = None"
| "split_once d (c # s) =
     (if c = d then Some ([], s)
      else case split_once d s of None \<Rightarrow> None | Some (a, b) \<Rightarrow> Some (c # a, b))"

fun split_on :: "char \<Rightarrow> string \<Rightarrow> string list" where
  "split_on d [] = [[]]"
| "split_on d (c # s) =
     (if c = d then [] # split_on d s
      else case split_on d s of [] \<Rightarrow> [[c]] | p # ps \<Rightarrow> (c # p) # ps)"

lemma split_once_append: "d \<notin> set a \<Longrightarrow> split_once d (a @ d # b) = Some (a, b)"
  by (induction a) auto

lemma split_once_None: "split_once d s = None \<longleftrightarrow> d \<notin> set s"
  by (induction s) (auto split: option.splits)

fun join_with :: "string \<Rightarrow> string list \<Rightarrow> string" where
  "join_with sep [] = []"
| "join_with sep [p] = p"
| "join_with sep (p # q # ps) = p @ sep @ join_with sep (q # ps)"

lemma split_on_nonempty [simp]: "split_on d s \<noteq> []"
  by (induction s) (auto split: list.splits)

lemma split_on_no_sep: "p \<in> set (split_on d s) \<Longrightarrow> d \<notin> set p"
  by (induction s arbitrary: p) (auto split: list.splits if_splits)

lemma join_split_on: "join_with [d] (split_on d s) = s"
proof (induction s)
  case Nil
  then show ?case by simp
next
  case (Cons c s)
  obtain p ps where ps: "split_on d s = p # ps" by (cases "split_on d s") auto
  with Cons show ?case by (cases ps) auto
qed

section \<open>Hexadecimal\<close>

text \<open>\<open>{:02x}\<close> of a byte.\<close>

definition hex_digit :: "nat \<Rightarrow> char" where
  "hex_digit d = (if d < 10 then char_of (48 + d) else char_of (87 + d))"

definition hex2 :: "u8 \<Rightarrow> string" where
  "hex2 b = [hex_digit (unat b div 16), hex_digit (unat b mod 16)]"

section \<open>Debug formatting\<close>

text \<open>
  \<open>{:?}\<close> of a string and of a character below U+0100. ASCII is escaped as \<open>char::escape_debug\<close>
  does: the named escapes, \<open>\u{..}\<close> for the other control characters, quotes by context. Of the
  Latin-1 characters only the controls, the no-break space and the soft hyphen are escaped. Inside
  a string, characters beyond ASCII are copied, as they are when printable.
\<close>

definition hex_min :: "nat \<Rightarrow> string" where
  "hex_min n = (if n < 16 then [hex_digit n] else [hex_digit (n div 16), hex_digit (n mod 16)])"

definition unicode_escape :: "nat \<Rightarrow> string" where
  "unicode_escape n = [CHR 0x5C, CHR ''u'', CHR 0x7B] @ hex_min n @ [CHR 0x7D]"

definition escape_ascii :: "char \<Rightarrow> char \<Rightarrow> string" where
  "escape_ascii quote c =
     (let n = (of_char c :: nat) in
      if n = 0 then [CHR 0x5C, CHR ''0'']
      else if n = 9 then [CHR 0x5C, CHR ''t'']
      else if n = 10 then [CHR 0x5C, CHR ''n'']
      else if n = 13 then [CHR 0x5C, CHR ''r'']
      else if c = quote \<or> n = 0x5C then [CHR 0x5C, c]
      else if n < 32 \<or> n = 127 then unicode_escape n
      else [c])"

definition debug_str :: "string \<Rightarrow> string" where
  "debug_str s = [CHR 0x22] @ concat (map (escape_ascii (CHR 0x22)) s) @ [CHR 0x22]"

definition debug_byte_char :: "u8 \<Rightarrow> string" where
  "debug_byte_char b =
     (let n = unat b in
      [CHR 0x27] @
      (if n < 128 then escape_ascii (CHR 0x27) (char_of n)
       else if n \<le> 160 \<or> n = 173 then unicode_escape n
       else [char_of (192 + n div 64), char_of (128 + n mod 64)]) @
      [CHR 0x27])"

end
