(* ===== verification/Errors.thy ===== *)
theory Errors
  imports Rust_Text
begin

text \<open>
  \<open>error/mod.rs\<close>: the engine's error type, its classification, and the wire form of a structured
  error that \<open>odbc_get_structured_error\<close> hands to the Dart side.
\<close>

section \<open>Data\<close>

datatype error_category = Transient | Fatal | Validation | ConnectionLost

datatype odbc_error =
    OdbcApi string
  | InvalidHandle u32
  | EmptyConnectionString
  | EnvironmentNotInitialized
  | Structured bytes i32 string
  | PoolError string
  | InternalError string
  | ValidationError string
  | UnsupportedFeature string
  | NoMoreResults
  | MalformedPayload string
  | RollbackFailed string
  | ResourceLimitReached string
  | Cancelled
  | WorkerCrashed string
  | BulkPartialFailure usize usize string

type_synonym 'a result = "(odbc_error, 'a) outcome"

record structured_error =
  se_sqlstate :: bytes
  se_native_code :: i32
  se_message :: string

text \<open>
  The errors of the \<open>odbc_api\<close> crate, as far as the engine looks at them: the five variants that
  carry a diagnostic record, and the text of every other one. A record is its SQLSTATE, its native
  code and its displayed text.
\<close>

record odbc_record =
  rec_state :: bytes
  rec_native_error :: i32
  rec_display :: string

datatype odbc_api_error =
    Diagnostics odbc_record
  | UnsupportedOdbcApiVersion odbc_record
  | InvalidRowArraySize odbc_record
  | UnableToRepresentNull odbc_record
  | OracleOdbcDriverDoesNotSupport64Bit odbc_record
  | OtherApiError string

section \<open>Operations\<close>

definition structured_from_odbc_record :: "odbc_record \<Rightarrow> odbc_error" where
  "structured_from_odbc_record r = Structured (rec_state r) (rec_native_error r) (rec_display r)"

fun try_extract_structured :: "odbc_api_error \<Rightarrow> odbc_error option" where
  "try_extract_structured (Diagnostics r) = Some (structured_from_odbc_record r)"
| "try_extract_structured (UnsupportedOdbcApiVersion r) = Some (structured_from_odbc_record r)"
| "try_extract_structured (InvalidRowArraySize r) = Some (structured_from_odbc_record r)"
| "try_extract_structured (UnableToRepresentNull r) = Some (structured_from_odbc_record r)"
| "try_extract_structured (OracleOdbcDriverDoesNotSupport64Bit r) = Some (structured_from_odbc_record r)"
| "try_extract_structured (OtherApiError t) = None"

text \<open>\<open>err.to_string()\<close> for the last arm of \<open>From\<close> is reached only for the other variants.\<close>

fun api_error_display :: "odbc_api_error \<Rightarrow> string" where
  "api_error_display (OtherApiError t) = t"
| "api_error_display _ = []"

definition from_odbc_api :: "odbc_api_error \<Rightarrow> odbc_error" where
  "from_odbc_api e =
     (case try_extract_structured e of Some s \<Rightarrow> s | None \<Rightarrow> OdbcApi (api_error_display e))"

text \<open>The \<open>Display\<close> implementation derived from the \<open>#[error(..)]\<close> attributes.\<close>

fun error_display :: "odbc_error \<Rightarrow> string" where
  "error_display (OdbcApi m) = ''ODBC error: '' @ m"
| "error_display (InvalidHandle h) = ''Invalid handle ID: '' @ show_nat (unat h)"
| "error_display EmptyConnectionString = ''Connection string is empty''"
| "error_display EnvironmentNotInitialized = ''Environment not initialized''"
| "error_display (Structured s n m) = ''Structured error: '' @ m"
| "error_display (PoolError m) = ''Pool error: '' @ m"
| "error_display (InternalError m) = ''Internal error: '' @ m"
| "error_display (ValidationError m) = ''Validation error: '' @ m"
| "error_display (UnsupportedFeature m) = ''Unsupported feature: '' @ m"
| "error_display NoMoreResults = ''No more result sets available''"
| "error_display (MalformedPayload m) = ''Malformed payload: '' @ m"
| "error_display (RollbackFailed m) = ''Rollback failed: '' @ m"
| "error_display (ResourceLimitReached m) = ''Resource limit reached: '' @ m"
| "error_display Cancelled = ''Operation cancelled''"
| "error_display (WorkerCrashed m) = ''Worker thread crashed: '' @ m"
| "error_display (BulkPartialFailure rows failed detail) =
     ''Bulk insert partial failure: '' @ show_nat failed @ '' chunk(s) failed; '' @
     show_nat rows @ '' rows inserted before failure: '' @ detail"

fun sqlstate :: "odbc_error \<Rightarrow> bytes" where
  "sqlstate (Structured s n m) = s"
| "sqlstate _ = [0, 0, 0, 0, 0]"

fun native_code :: "odbc_error \<Rightarrow> i32" where
  "native_code (Structured s n m) = n"
| "native_code _ = 0"

fun message :: "odbc_error \<Rightarrow> string" where
  "message (Structured s n m) = m"
| "message e = error_display e"

definition to_structured :: "odbc_error \<Rightarrow> structured_error" where
  "to_structured e =
     \<lparr>se_sqlstate = sqlstate e, se_native_code = native_code e, se_message = message e\<rparr>"

fun is_retryable :: "odbc_error \<Rightarrow> bool" where
  "is_retryable (Structured s n m) = (s ! 0 = byte_of (CHR ''0'') \<and> s ! 1 = byte_of (CHR ''8''))"
| "is_retryable (PoolError m) = True"
| "is_retryable (InternalError m) = (contains_sub m ''timeout'' \<or> contains_sub m ''Timeout'')"
| "is_retryable _ = False"

fun is_connection_error :: "odbc_error \<Rightarrow> bool" where
  "is_connection_error EmptyConnectionString = True"
| "is_connection_error EnvironmentNotInitialized = True"
| "is_connection_error (Structured s n m) = (s ! 0 = byte_of (CHR ''0'') \<and> s ! 1 = byte_of (CHR ''8''))"
| "is_connection_error _ = False"

definition error_category_of :: "odbc_error \<Rightarrow> error_category" where
  "error_category_of e =
     (if (case e of ValidationError _ \<Rightarrow> True | _ \<Rightarrow> False) then Validation
      else if (case e of UnsupportedFeature _ \<Rightarrow> True | _ \<Rightarrow> False) then Fatal
      else if is_connection_error e then ConnectionLost
      else if is_retryable e then Transient
      else Fatal)"

text \<open>\<open>StructuredError::serialize\<close>; the message length is narrowed with \<open>as u32\<close>.\<close>

definition structured_serialize :: "structured_error \<Rightarrow> bytes" where
  "structured_serialize e =
     se_sqlstate e @ u32_le (se_native_code e) @
     u32_le (of_nat (length (as_bytes (se_message e)))) @ as_bytes (se_message e)"

text \<open>\<open>StructuredError::deserialize\<close> returns an \<open>Option\<close>; its \<open>None\<close> is \<open>Err ()\<close> here.\<close>

definition structured_deserialize :: "bytes \<Rightarrow> (unit, structured_error) outcome" where
  "structured_deserialize data =
     (if length data < 13 then Err ()
      else
        obind (range_of data 0 5) (\<lambda>st.
        obind (array_at 4 data 5) (\<lambda>nc.
        obind (array_at 4 data 9) (\<lambda>ml.
        let msg_len = unat (from_le ml :: u32) in
        if length data < 13 + msg_len then Err ()
        else
          obind (range_of data 13 (13 + msg_len)) (\<lambda>mb.
          obind (map_err (\<lambda>_. ()) (from_utf8 mb)) (\<lambda>m.
          Ok \<lparr>se_sqlstate = st, se_native_code = from_le nc, se_message = m\<rparr>))))))"

section \<open>Properties\<close>

text \<open>What a Rust value of the type satisfies: a five-byte SQLSTATE and a UTF-8 message.\<close>

definition wf_structured :: "structured_error \<Rightarrow> bool" where
  "wf_structured e \<longleftrightarrow>
     length (se_sqlstate e) = 5 \<and> valid_str (se_message e) \<and> length (se_message e) < 2 ^ 32"

lemma structured_serialize_length:
  "wf_structured e \<Longrightarrow> length (structured_serialize e) = 13 + length (se_message e)"
  by (simp add: structured_serialize_def wf_structured_def)

text \<open>
  A serialized structured error is read back by \<open>deserialize\<close> with its SQLSTATE, native code
  and message, also when other bytes follow it in the buffer.
\<close>

theorem structured_error_roundtrip:
  assumes "wf_structured e"
  shows "structured_deserialize (structured_serialize e @ rest) = Ok e"
proof -
  have len: "length (se_sqlstate e) = 5" and msg: "valid_str (se_message e)"
    and small: "length (se_message e) < 2 ^ 32"
    using assms by (auto simp: wf_structured_def)
  have ml: "unat (of_nat (length (se_message e)) :: u32) = length (se_message e)"
    using small by simp
  have "take 4 (drop 5 (structured_serialize e @ rest)) = u32_le (se_native_code e)"
    "take 4 (drop 9 (structured_serialize e @ rest)) = u32_le (of_nat (length (se_message e)))"
    "take 5 (structured_serialize e @ rest) = se_sqlstate e"
    "take (length (se_message e)) (drop 13 (structured_serialize e @ rest)) = as_bytes (se_message e)"
    using len by (simp_all add: structured_serialize_def)
  then show ?thesis
    using structured_serialize_length[OF assms] ml msg
    by (simp add: structured_deserialize_def Let_def)
qed

theorem structured_error_roundtrip_witness:
  "structured_deserialize (structured_serialize
      \<lparr>se_sqlstate = as_bytes ''08001'', se_native_code = - 2, se_message = ''link down''\<rparr> @ [7]) =
    Ok \<lparr>se_sqlstate = as_bytes ''08001'', se_native_code = - 2, se_message = ''link down''\<rparr>"
  by (rule structured_error_roundtrip) (simp add: wf_structured_def valid_str_ascii ascii_def)

text \<open>No input makes the decoder panic, whatever the declared message length.\<close>

lemma structured_deserialize_no_panic: "structured_deserialize data \<noteq> Panic"
  by (auto simp: structured_deserialize_def Let_def)

text \<open>
  The category of an error, case by case: a lost connection is exactly an SQLSTATE of class 08
  or a missing environment or connection string, and it hides the retry hint of the same SQLSTATE;
  a transient error is exactly a pool error or an internal error that mentions a timeout.
\<close>

theorem error_category_cases:
  assumes "length (sqlstate e) = 5"
  shows "error_category_of e =
     (case e of
        ValidationError _ \<Rightarrow> Validation
      | EmptyConnectionString \<Rightarrow> ConnectionLost
      | EnvironmentNotInitialized \<Rightarrow> ConnectionLost
      | Structured s _ _ \<Rightarrow> if take 2 s = as_bytes ''08'' then ConnectionLost else Fatal
      | PoolError _ \<Rightarrow> Transient
      | InternalError m \<Rightarrow>
          if contains_sub m ''timeout'' \<or> contains_sub m ''Timeout'' then Transient else Fatal
      | _ \<Rightarrow> Fatal)"
proof (cases e)
  case (Structured s n m)
  with assms obtain a b r where "s = a # b # r" by (cases s rule: remdups_adj.cases) auto
  with Structured show ?thesis by (simp add: error_category_of_def as_bytes_def)
qed (auto simp: error_category_of_def)

theorem error_category_cases_witness:
  "error_category_of (Structured (as_bytes ''08S01'') 0 ''gone'') = ConnectionLost
   \<and> is_retryable (Structured (as_bytes ''08S01'') 0 ''gone'')"
  using error_category_cases[of "Structured (as_bytes ''08S01'') 0 ''gone''"]
  by (simp add: as_bytes_def)

end
