(* ===== verification/Params.thy ===== *)
theory Params
  imports Errors
begin

text \<open>
  \<open>protocol/param_value.rs\<close> and \<open>protocol/bound_param.rs\<close>: the wire form of a statement
  parameter, of a list of parameters, and of the directed list (\<open>DRT1\<close>) with \<open>IN\<close>/\<open>OUT\<close>/\<open>INOUT\<close>.
\<close>

section \<open>Parameter values\<close>

definition TAG_NULL :: u8 where "TAG_NULL = 0"
definition TAG_STRING :: u8 where "TAG_STRING = 1"
definition TAG_INTEGER :: u8 where "TAG_INTEGER = 2"
definition TAG_BIGINT :: u8 where "TAG_BIGINT = 3"
definition TAG_DECIMAL :: u8 where "TAG_DECIMAL = 4"
definition TAG_BINARY :: u8 where "TAG_BINARY = 5"
definition TAG_REF_CURSOR_OUT :: u8 where "TAG_REF_CURSOR_OUT = 6"

lemmas param_tags =
  TAG_NULL_def TAG_STRING_def TAG_INTEGER_def TAG_BIGINT_def TAG_DECIMAL_def TAG_BINARY_def
  TAG_REF_CURSOR_OUT_def

definition MAX_PARAM_COUNT :: usize where "MAX_PARAM_COUNT = 4096"
definition MAX_PARAM_VALUE_PAYLOAD_LEN :: usize where
  "MAX_PARAM_VALUE_PAYLOAD_LEN = 16 * 1024 * 1024"

datatype param_value =
    PV_String string
  | PV_Integer i32
  | PV_BigInt i64
  | PV_Decimal string
  | PV_Binary bytes
  | PV_Null
  | PV_RefCursorOut

definition checked_payload_len :: "usize \<Rightarrow> string \<Rightarrow> u32 result" where
  "checked_payload_len value field =
     (if value > MAX_PARAM_VALUE_PAYLOAD_LEN then
        Err (ValidationError (field @ '' length '' @ show_nat value @ '' exceeds limit '' @
               show_nat MAX_PARAM_VALUE_PAYLOAD_LEN))
      else ok_or (try_u32 value)
             (ValidationError (field @ '' length '' @ show_nat value @ '' exceeds u32'')))"

fun try_serialize :: "param_value \<Rightarrow> bytes result" where
  "try_serialize PV_Null = Ok (TAG_NULL # u32_le 0)"
| "try_serialize (PV_String s) =
     obind (checked_payload_len (length (as_bytes s)) ''ParamValue::String'')
       (\<lambda>len. Ok (TAG_STRING # u32_le len @ as_bytes s))"
| "try_serialize (PV_Integer n) = Ok (TAG_INTEGER # u32_le 4 @ u32_le n)"
| "try_serialize (PV_BigInt n) = Ok (TAG_BIGINT # u32_le 8 @ u64_le n)"
| "try_serialize (PV_Decimal s) =
     obind (checked_payload_len (length (as_bytes s)) ''ParamValue::Decimal'')
       (\<lambda>len. Ok (TAG_DECIMAL # u32_le len @ as_bytes s))"
| "try_serialize (PV_Binary b) =
     obind (checked_payload_len (length b) ''ParamValue::Binary'')
       (\<lambda>len. Ok (TAG_BINARY # u32_le len @ b))"
| "try_serialize PV_RefCursorOut = Ok (TAG_REF_CURSOR_OUT # u32_le 0)"

definition serialize :: "param_value \<Rightarrow> ('e, bytes) outcome" where
  "serialize p = expect (try_serialize p)"

text \<open>The \<open>match tag\<close> of \<open>deserialize\<close>, on the payload of \<open>len\<close> bytes.\<close>

definition param_of_payload :: "u8 \<Rightarrow> usize \<Rightarrow> bytes \<Rightarrow> param_value result" where
  "param_of_payload tag len payload =
     (if tag = TAG_NULL then Ok PV_Null
      else if tag = TAG_STRING then
        obind (map_err (\<lambda>_. ValidationError ''Invalid UTF-8 in ParamValue::String'') (from_utf8 payload))
          (\<lambda>s. Ok (PV_String s))
      else if tag = TAG_INTEGER then
        (if len \<noteq> 4 then Err (ValidationError ''ParamValue::Integer expected 4 bytes'')
         else obind (array_at 4 payload 0) (\<lambda>b. Ok (PV_Integer (from_le b))))
      else if tag = TAG_BIGINT then
        (if len \<noteq> 8 then Err (ValidationError ''ParamValue::BigInt expected 8 bytes'')
         else obind (array_at 8 payload 0) (\<lambda>b. Ok (PV_BigInt (from_le b))))
      else if tag = TAG_DECIMAL then
        obind (map_err (\<lambda>_. ValidationError ''Invalid UTF-8 in ParamValue::Decimal'') (from_utf8 payload))
          (\<lambda>s. Ok (PV_Decimal s))
      else if tag = TAG_BINARY then Ok (PV_Binary payload)
      else if tag = TAG_REF_CURSOR_OUT then
        (if len \<noteq> 0 then Err (ValidationError ''ParamValue::RefCursorOut expected 0-byte payload'')
         else Ok PV_RefCursorOut)
      else Err (ValidationError (''Unknown ParamValue tag: '' @ show_nat (unat tag))))"

definition deserialize :: "bytes \<Rightarrow> (param_value \<times> usize) result" where
  "deserialize data =
     (if length data < 5 then Err (ValidationError ''ParamValue buffer too short'')
      else
        obind (idx data 0) (\<lambda>tag.
        obind (array_at 4 data 1) (\<lambda>lb.
        let len = unat (from_le lb :: u32) in
        if len > MAX_PARAM_VALUE_PAYLOAD_LEN then
          Err (ValidationError (''ParamValue payload length '' @ show_nat len @ '' exceeds limit '' @
                 show_nat MAX_PARAM_VALUE_PAYLOAD_LEN))
        else
          obind (ok_or (usize_checked_add 5 len) (ValidationError ''ParamValue length overflow'')) (\<lambda>consumed.
          if length data < consumed then Err (ValidationError ''ParamValue buffer truncated'')
          else
            obind (if len > 0 then range_of data 5 consumed else Ok []) (\<lambda>payload.
            obind (param_of_payload tag len payload) (\<lambda>p. Ok (p, consumed)))))))"

subsection \<open>The value codec\<close>

text \<open>What the encoder accepts: UTF-8 strings and payloads within the limit.\<close>

fun wf_param :: "param_value \<Rightarrow> bool" where
  "wf_param (PV_String s) \<longleftrightarrow> valid_str s \<and> length s \<le> MAX_PARAM_VALUE_PAYLOAD_LEN"
| "wf_param (PV_Decimal s) \<longleftrightarrow> valid_str s \<and> length s \<le> MAX_PARAM_VALUE_PAYLOAD_LEN"
| "wf_param (PV_Binary b) \<longleftrightarrow> length b \<le> MAX_PARAM_VALUE_PAYLOAD_LEN"
| "wf_param _ \<longleftrightarrow> True"

fun param_tag :: "param_value \<Rightarrow> u8" where
  "param_tag (PV_String s) = TAG_STRING"
| "param_tag (PV_Integer n) = TAG_INTEGER"
| "param_tag (PV_BigInt n) = TAG_BIGINT"
| "param_tag (PV_Decimal s) = TAG_DECIMAL"
| "param_tag (PV_Binary b) = TAG_BINARY"
| "param_tag PV_Null = TAG_NULL"
| "param_tag PV_RefCursorOut = TAG_REF_CURSOR_OUT"

fun param_payload :: "param_value \<Rightarrow> bytes" where
  "param_payload (PV_String s) = as_bytes s"
| "param_payload (PV_Integer n) = u32_le n"
| "param_payload (PV_BigInt n) = u64_le n"
| "param_payload (PV_Decimal s) = as_bytes s"
| "param_payload (PV_Binary b) = b"
| "param_payload PV_Null = []"
| "param_payload PV_RefCursorOut = []"

text \<open>The layout both directions agree on: tag, length, payload.\<close>

definition param_bytes :: "param_value \<Rightarrow> bytes" where
  "param_bytes p = param_tag p # u32_le (of_nat (length (param_payload p))) @ param_payload p"

lemma max_payload_u32: "n \<le> MAX_PARAM_VALUE_PAYLOAD_LEN \<Longrightarrow> try_u32 n = Some (of_nat n)"
  by (simp add: try_u32_def MAX_PARAM_VALUE_PAYLOAD_LEN_def)

lemma checked_payload_len_Ok:
  "n \<le> MAX_PARAM_VALUE_PAYLOAD_LEN \<Longrightarrow> checked_payload_len n f = Ok (of_nat n)"
  by (simp add: checked_payload_len_def max_payload_u32)

lemma checked_payload_len_Ok_iff:
  "checked_payload_len n f = Ok w \<longleftrightarrow> n \<le> MAX_PARAM_VALUE_PAYLOAD_LEN \<and> w = of_nat n"
  by (auto simp: checked_payload_len_def max_payload_u32)

lemma checked_payload_len_not_Panic [simp]: "checked_payload_len n f \<noteq> Panic"
  by (simp add: checked_payload_len_def)

lemma try_serialize_not_Panic: "try_serialize p \<noteq> Panic"
  by (cases p) auto

lemma try_serialize_Ok:
  "length (param_payload p) \<le> MAX_PARAM_VALUE_PAYLOAD_LEN \<Longrightarrow> try_serialize p = Ok (param_bytes p)"
  by (cases p) (simp_all add: param_bytes_def checked_payload_len_Ok)

lemma try_serialize_Ok_iff:
  "try_serialize p = Ok bs \<longleftrightarrow>
     length (param_payload p) \<le> MAX_PARAM_VALUE_PAYLOAD_LEN \<and> bs = param_bytes p"
  by (cases p)
    (auto simp: param_bytes_def checked_payload_len_Ok_iff MAX_PARAM_VALUE_PAYLOAD_LEN_def)

lemma wf_param_payload: "wf_param p \<Longrightarrow> length (param_payload p) \<le> MAX_PARAM_VALUE_PAYLOAD_LEN"
  by (cases p) (auto simp: MAX_PARAM_VALUE_PAYLOAD_LEN_def)

lemma length_param_bytes [simp]: "length (param_bytes p) = 5 + length (param_payload p)"
  by (simp add: param_bytes_def)

lemma param_of_payload_payload:
  "wf_param p \<Longrightarrow> param_of_payload (param_tag p) (length (param_payload p)) (param_payload p) = Ok p"
  by (cases p) (simp_all add: param_of_payload_def param_tags)

lemma param_of_payload_not_Panic:
  "length payload = len \<Longrightarrow> param_of_payload tag len payload \<noteq> Panic"
  by (auto simp: param_of_payload_def)

text \<open>The frame of \<open>deserialize\<close>, with its bounds checks discharged.\<close>

lemma deserialize_frame:
  assumes "length payload \<le> MAX_PARAM_VALUE_PAYLOAD_LEN"
  shows "deserialize (tag # u32_le (of_nat (length payload)) @ payload @ post) =
    obind (param_of_payload tag (length payload) payload) (\<lambda>p. Ok (p, 5 + length payload))"
proof -
  let ?data = "tag # u32_le (of_nat (length payload)) @ payload @ post"
  have len: "unat (of_nat (length payload) :: u32) = length payload"
    using assms by (simp add: MAX_PARAM_VALUE_PAYLOAD_LEN_def)
  have hdr: "take 4 (drop 1 ?data) = u32_le (of_nat (length payload))" by simp
  have body: "take (length payload) (drop 5 ?data) = payload" by simp
  have "usize_checked_add 5 (length payload) = Some (5 + length payload)"
    using assms by (simp add: usize_checked_add_def MAX_PARAM_VALUE_PAYLOAD_LEN_def)
  then show ?thesis
    using assms len hdr body by (simp add: deserialize_def Let_def)
qed

lemma deserialize_no_panic: "deserialize data \<noteq> Panic"
  by (auto simp: deserialize_def Let_def usize_checked_add_def param_of_payload_not_Panic split: if_splits)

lemma deserialize_bounds: "deserialize data = Ok (p, n) \<Longrightarrow> 5 \<le> n \<and> n \<le> length data"
  by (auto simp: deserialize_def Let_def usize_checked_add_def split: if_splits)

interpretation pv: prefix_codec deserialize param_bytes wf_param
proof
  fix bs show "deserialize bs \<noteq> Panic" by (rule deserialize_no_panic)
next
  fix bs x n assume "deserialize bs = Ok (x, n)"
  from deserialize_bounds[OF this] show "0 < n \<and> n \<le> length bs" by simp
next
  fix x post assume wf: "wf_param x"
  have "deserialize (param_bytes x @ post) =
      obind (param_of_payload (param_tag x) (length (param_payload x)) (param_payload x))
        (\<lambda>p. Ok (p, 5 + length (param_payload x)))"
    unfolding param_bytes_def
    using deserialize_frame[OF wf_param_payload[OF wf]] by simp
  also have "\<dots> = Ok (x, length (param_bytes x))"
    by (simp add: param_of_payload_payload[OF wf])
  finally show "deserialize (param_bytes x @ post) = Ok (x, length (param_bytes x))" .
qed

section \<open>Parameter lists\<close>

text \<open>The \<open>while offset < data.len()\<close> loop of \<open>deserialize_params\<close>.\<close>

function params_loop :: "bytes \<Rightarrow> usize \<Rightarrow> param_value list \<Rightarrow> param_value list result" where
  "params_loop data offset out =
     (if offset < length data then
        if length out \<ge> MAX_PARAM_COUNT then
          Err (ValidationError (''Parameter count exceeds limit '' @ show_nat MAX_PARAM_COUNT))
        else obind (at_offset deserialize data offset) (\<lambda>(p, offset'). params_loop data offset' (out @ [p]))
      else Ok out)"
  by pat_completeness auto
termination
proof (relation "measure (\<lambda>(data, offset, out). length data - offset)")
  fix data :: bytes and offset :: usize and out :: "param_value list" and x p offset'
  assume "offset < length data" and "at_offset deserialize data offset = Ok x" and "(p, offset') = x"
  then have "offset < offset'"
    by (auto simp: at_offset_def dest!: deserialize_bounds)
  then show "((data, offset', out @ [p]), data, offset, out) \<in> measure (\<lambda>(data, offset, out). length data - offset)"
    using \<open>offset < length data\<close> by simp
qed simp

declare params_loop.simps [simp del]

definition deserialize_params :: "bytes \<Rightarrow> param_value list result" where
  "deserialize_params data = params_loop data 0 []"

definition try_serialize_params :: "param_value list \<Rightarrow> bytes result" where
  "try_serialize_params params =
     (if length params > MAX_PARAM_COUNT then
        Err (ValidationError (''Parameter count '' @ show_nat (length params) @ '' exceeds limit '' @
               show_nat MAX_PARAM_COUNT))
      else obind (omapM try_serialize params) (\<lambda>bs. Ok (concat bs)))"

definition serialize_params :: "param_value list \<Rightarrow> ('e, bytes) outcome" where
  "serialize_params params = expect (try_serialize_params params)"

fun param_to_string :: "param_value \<Rightarrow> string option result" where
  "param_to_string PV_Null = Ok None"
| "param_to_string (PV_String s) = Ok (Some s)"
| "param_to_string (PV_Integer n) = Ok (Some (show_int (sint n)))"
| "param_to_string (PV_BigInt n) = Ok (Some (show_int (sint n)))"
| "param_to_string (PV_Decimal s) = Ok (Some s)"
| "param_to_string (PV_Binary b) = Ok (Some (concat (map hex2 b)))"
| "param_to_string PV_RefCursorOut =
     Err (ValidationError ''ParamValue::RefCursorOut is not convertible to string parameters'')"

definition param_values_to_strings :: "param_value list \<Rightarrow> string option list result" where
  "param_values_to_strings params = omapM param_to_string params"

definition has_null_param :: "param_value list \<Rightarrow> bool" where
  "has_null_param params = list_ex (\<lambda>p. p = PV_Null) params"

fun param_string_len :: "param_value \<Rightarrow> usize" where
  "param_string_len (PV_String s) = length s"
| "param_string_len (PV_Decimal s) = length s"
| "param_string_len (PV_Binary b) = length b * 2"
| "param_string_len PV_RefCursorOut = 0"
| "param_string_len _ = 0"

definition max_param_string_len :: "param_value list \<Rightarrow> usize" where
  "max_param_string_len params = foldl (\<lambda>max_len p. max max_len (param_string_len p)) 1 params"

definition param_count_exceeds_limit :: "param_value list \<Rightarrow> usize \<Rightarrow> bool" where
  "param_count_exceeds_limit params limit \<longleftrightarrow> length params > limit"

subsection \<open>Properties of lists\<close>

lemma params_loop_no_panic: "params_loop data offset out \<noteq> Panic"
proof (induction data offset out rule: params_loop.induct)
  case (1 data offset out)
  show ?case
  proof (cases "offset < length data \<and> length out < MAX_PARAM_COUNT")
    case True
    then have "at_offset deserialize data offset \<noteq> Panic"
      using pv.at.rd_no_panic[of offset data] by simp
    with True 1 show ?thesis by (subst params_loop.simps) (auto split: prod.splits)
  next
    case False
    then show ?thesis by (subst params_loop.simps) auto
  qed
qed

lemma params_loop_length:
  "params_loop data offset out = Ok ps \<Longrightarrow> length out \<le> MAX_PARAM_COUNT \<Longrightarrow> length ps \<le> MAX_PARAM_COUNT"
proof (induction data offset out rule: params_loop.induct)
  case (1 data offset out)
  from 1(2) show ?case
    by (subst (asm) params_loop.simps) (use 1(3) in \<open>auto split: if_splits prod.splits dest!: 1(1)\<close>)
qed

lemma params_loop_roundtrip:
  "list_all wf_param ps \<Longrightarrow> length out + length ps \<le> MAX_PARAM_COUNT \<Longrightarrow>
     params_loop (pre @ concat (map param_bytes ps)) (length pre) out = Ok (out @ ps)"
proof (induction ps arbitrary: pre out)
  case Nil
  then show ?case by (subst params_loop.simps) simp
next
  case (Cons p ps)
  have rd: "at_offset deserialize (pre @ param_bytes p @ concat (map param_bytes ps)) (length pre) =
      Ok (p, length (pre @ param_bytes p))"
    using Cons.prems pv.at_enc[of p pre] by simp
  have "params_loop ((pre @ param_bytes p) @ concat (map param_bytes ps)) (length (pre @ param_bytes p)) (out @ [p]) =
      Ok ((out @ [p]) @ ps)"
    using Cons.prems by (intro Cons.IH) auto
  with rd Cons.prems show ?case by (subst params_loop.simps) simp
qed

lemma try_serialize_params_Ok:
  assumes "list_all wf_param ps" "length ps \<le> MAX_PARAM_COUNT"
  shows "try_serialize_params ps = Ok (concat (map param_bytes ps))"
proof -
  have "omapM try_serialize ps = Ok (map param_bytes ps)"
    using assms by (intro omapM_Ok_map) (simp add: try_serialize_Ok wf_param_payload list_all_iff)
  with assms show ?thesis by (simp add: try_serialize_params_def)
qed

text \<open>
  C36. A parameter list within the protocol limits is encoded, and decoding the buffer gives the
  list back: same parameters, same order, nothing lost.
\<close>

theorem params_roundtrip:
  assumes "list_all wf_param ps" and "length ps \<le> MAX_PARAM_COUNT"
  shows "obind (try_serialize_params ps) deserialize_params = Ok ps"
  using assms params_loop_roundtrip[of ps "[]" "[]"]
  by (simp add: try_serialize_params_Ok deserialize_params_def)

theorem params_roundtrip_witness:
  "obind (try_serialize_params [PV_Integer (- 1), PV_String ''a'', PV_Null, PV_Binary [0, 255]]) deserialize_params =
     Ok [PV_Integer (- 1), PV_String ''a'', PV_Null, PV_Binary [0, 255]]"
  by (rule params_roundtrip)
    (simp_all add: valid_str_ascii ascii_def MAX_PARAM_COUNT_def MAX_PARAM_VALUE_PAYLOAD_LEN_def)

text \<open>
  The decoder is safe on any bytes whatsoever: it never panics, and a list it accepts has at
  most \<open>MAX_PARAM_COUNT\<close> entries.
\<close>

theorem deserialize_params_safe:
  "deserialize_params data \<noteq> Panic \<and>
   (case deserialize_params data of Ok ps \<Rightarrow> length ps \<le> MAX_PARAM_COUNT | _ \<Rightarrow> True)"
proof -
  have "length ps \<le> MAX_PARAM_COUNT" if "deserialize_params data = Ok ps" for ps
    using params_loop_length[of data 0 "[]" ps] that by (simp add: deserialize_params_def)
  then show ?thesis
    by (simp add: deserialize_params_def params_loop_no_panic split: outcome.splits)
qed

lemma deserialize_Ok_payload:
  assumes "deserialize data = Ok (p, n)"
  obtains payload where
    "take n data = data ! 0 # u32_le (of_nat (length payload)) @ payload"
    "length payload \<le> MAX_PARAM_VALUE_PAYLOAD_LEN"
    "param_of_payload (data ! 0) (length payload) payload = Ok p" "n = 5 + length payload" "n \<le> length data"
proof -
  define len where "len = unat (from_le (take 4 (drop 1 data)) :: u32)"
  define payload where "payload = take len (drop 5 data)"
  from assms have n: "5 \<le> length data" "len \<le> MAX_PARAM_VALUE_PAYLOAD_LEN" "n = 5 + len" "n \<le> length data"
    and p: "param_of_payload (data ! 0) len payload = Ok p"
    by (auto simp: deserialize_def Let_def len_def payload_def usize_checked_add_def split: if_splits)
  from n have pl: "length payload = len" by (simp add: payload_def)
  have "take n data = take 1 data @ take 4 (drop 1 data) @ take len (drop 5 data)"
  proof -
    have "take n data = take 1 data @ take (4 + len) (drop 1 data)"
      using take_add[of 1 "4 + len" data] n by simp
    then show ?thesis using take_add[of 4 len "drop 1 data"] by (simp add: drop_drop)
  qed
  also have "take 1 data = [data ! 0]" using n by (cases data) auto
  also have "take 4 (drop 1 data) = u32_le (of_nat len)"
    using n uN_le_from_le(2)[of "take 4 (drop 1 data)"] by (simp add: len_def)
  finally have "take n data = data ! 0 # u32_le (of_nat (length payload)) @ payload"
    by (simp add: payload_def[symmetric] pl)
  then show ?thesis using n p pl by (intro that[of payload]) simp_all
qed

text \<open>
  Decoding is canonical: a value other than \<open>Null\<close> that \<open>deserialize\<close> returns, serialized
  again, is byte for byte the input it consumed (only a \<open>Null\<close> frame may carry ignored payload).
\<close>

theorem deserialize_canonical:
  assumes "deserialize data = Ok (p, n)" and "p \<noteq> PV_Null"
  shows "try_serialize p = Ok (take n data)"
proof -
  obtain payload where t: "take n data = data ! 0 # u32_le (of_nat (length payload)) @ payload"
    and max: "length payload \<le> MAX_PARAM_VALUE_PAYLOAD_LEN"
    and p: "param_of_payload (data ! 0) (length payload) payload = Ok p"
    by (rule deserialize_Ok_payload[OF assms(1)])
  from p assms(2) have "param_tag p = data ! 0 \<and> param_payload p = payload"
    by (auto simp: param_of_payload_def from_utf8_Ok_iff uN_le_from_le split: if_splits)
  then show ?thesis
    using t max by (simp add: try_serialize_Ok param_bytes_def)
qed

theorem deserialize_canonical_witness:
  "try_serialize (PV_Integer 7) = Ok (take 9 (param_bytes (PV_Integer 7) @ [1, 2]))"
  by (rule deserialize_canonical) (simp_all add: pv.dec_enc)

section \<open>Directed parameter lists\<close>

definition DRT1 :: bytes where "DRT1 = as_bytes ''DRT1''"

datatype param_direction = DirInput | DirOutput | DirInOut

definition param_direction_from_u8 :: "u8 \<Rightarrow> param_direction option" where
  "param_direction_from_u8 b =
     (if b = 0 then Some DirInput else if b = 1 then Some DirOutput
      else if b = 2 then Some DirInOut else None)"

record bound_param =
  bp_direction :: param_direction
  bp_value :: param_value

datatype param_list = Legacy "param_value list" | Directed "bound_param list"

definition is_directed_param_buffer :: "bytes \<Rightarrow> bool" where
  "is_directed_param_buffer data \<longleftrightarrow> length data \<ge> 8 \<and> take 4 data = DRT1"

text \<open>The body of the \<open>for _ in 0..count\<close> loop.\<close>

definition read_bound_param :: "bytes \<Rightarrow> usize \<Rightarrow> (bound_param \<times> usize) result" where
  "read_bound_param data offset =
     (if offset \<ge> length data then Err (ValidationError ''DRT1 buffer truncated (direction)'')
      else
        obind (idx data offset) (\<lambda>b.
        obind (ok_or (param_direction_from_u8 b)
                 (ValidationError (''DRT1 invalid direction '' @ show_nat (unat b)))) (\<lambda>dir.
        if offset + 1 \<ge> length data then Err (ValidationError ''DRT1 buffer truncated (value)'')
        else
          obind (at_offset deserialize data (offset + 1)) (\<lambda>(value, offset').
          Ok (\<lparr>bp_direction = dir, bp_value = value\<rparr>, offset')))))"

definition deserialize_param_buffer :: "bytes \<Rightarrow> param_list result" where
  "deserialize_param_buffer data =
     (if data = [] then Ok (Legacy [])
      else if is_directed_param_buffer data then
        obind (array_at 4 data 4) (\<lambda>cb.
        let count = unat (from_le cb :: u32) in
        if count > MAX_PARAM_COUNT then
          Err (ValidationError (''DRT1 parameter count '' @ show_nat count @ '' exceeds limit '' @
                 show_nat MAX_PARAM_COUNT))
        else if count > length data - 8 then
          Err (ValidationError ''DRT1 parameter count exceeds available payload'')
        else
          obind (read_n read_bound_param data count 8) (\<lambda>(out, offset).
          if offset \<noteq> length data then Err (ValidationError ''DRT1 buffer has trailing bytes'')
          else Ok (Directed out)))
      else obind (deserialize_params data) (\<lambda>ps. Ok (Legacy ps)))"

subsection \<open>Properties of directed lists\<close>

fun direction_byte :: "param_direction \<Rightarrow> u8" where
  "direction_byte DirInput = 0"
| "direction_byte DirOutput = 1"
| "direction_byte DirInOut = 2"

definition bound_bytes :: "bound_param \<Rightarrow> bytes" where
  "bound_bytes b = direction_byte (bp_direction b) # param_bytes (bp_value b)"

definition wf_bound :: "bound_param \<Rightarrow> bool" where
  "wf_bound b \<longleftrightarrow> wf_param (bp_value b)"

text \<open>The request the Dart side builds: magic, count, then direction and value of each parameter.\<close>

definition directed_bytes :: "bound_param list \<Rightarrow> bytes" where
  "directed_bytes bs = DRT1 @ u32_le (of_nat (length bs)) @ concat (map bound_bytes bs)"

lemma length_DRT1 [simp]: "length DRT1 = 4"
  by (simp add: DRT1_def)

lemma DRT1_nonempty [simp]: "DRT1 \<noteq> []"
  using length_DRT1 by fastforce

lemma direction_from_byte [simp]: "param_direction_from_u8 (direction_byte d) = Some d"
  by (cases d) (simp_all add: param_direction_from_u8_def)

interpretation bp: offset_codec read_bound_param bound_bytes wf_bound
proof
  fix off data assume "off \<le> length (data :: bytes)"
  then show "read_bound_param data off \<noteq> Panic"
    using pv.at.rd_no_panic[of "off + 1" data]
    by (auto simp: read_bound_param_def split: prod.splits)
next
  fix off data x off' assume a: "off \<le> length (data :: bytes)" "read_bound_param data off = Ok (x, off')"
  from a(2) obtain v where "off + 1 \<le> length data" "at_offset deserialize data (off + 1) = Ok (v, off')"
    unfolding read_bound_param_def by (fastforce split: if_splits prod.splits)
  with pv.at.rd_bounds[of "off + 1" data v off'] show "off \<le> off' \<and> off' \<le> length data" by simp
next
  fix x pre post assume "wf_bound x"
  then have "at_offset deserialize ((pre @ [direction_byte (bp_direction x)]) @ param_bytes (bp_value x) @ post)
      (length (pre @ [direction_byte (bp_direction x)])) =
      Ok (bp_value x, length (pre @ [direction_byte (bp_direction x)]) + length (param_bytes (bp_value x)))"
    unfolding wf_bound_def by (rule pv.at_enc)
  then show "read_bound_param (pre @ bound_bytes x @ post) (length pre) = Ok (x, length pre + length (bound_bytes x))"
    by (simp add: read_bound_param_def bound_bytes_def)
qed

lemma directed_body_fits:
  assumes "list_all wf_bound bs" "length bs \<le> MAX_PARAM_COUNT"
  shows "8 + length (concat (map bound_bytes bs)) \<le> usize_max"
proof -
  have "length (bound_bytes b) \<le> 16777222" if "b \<in> set bs" for b
    using assms(1) that wf_param_payload[of "bp_value b"]
    by (auto simp: bound_bytes_def wf_bound_def list_all_iff MAX_PARAM_VALUE_PAYLOAD_LEN_def)
  from length_concat_map_le[OF this] have "length (concat (map bound_bytes bs)) \<le> 16777222 * length bs" .
  with assms(2) show ?thesis by (simp add: MAX_PARAM_COUNT_def)
qed

lemma length_directed_body: "length bs \<le> length (concat (map bound_bytes bs))"
  by (induction bs) (auto simp: bound_bytes_def)

lemma deserialize_directed:
  assumes "list_all wf_bound bs" and "length bs \<le> MAX_PARAM_COUNT"
  shows "deserialize_param_buffer (directed_bytes bs) = Ok (Directed bs)"
proof -
  let ?body = "concat (map bound_bytes bs)"
  have cnt: "unat (of_nat (length bs) :: u32) = length bs"
    using assms(2) by (simp add: MAX_PARAM_COUNT_def)
  have hdr: "take 4 (drop 4 (directed_bytes bs)) = u32_le (of_nat (length bs))"
    by (simp add: directed_bytes_def)
  have dir: "is_directed_param_buffer (directed_bytes bs)" "directed_bytes bs \<noteq> []"
    by (simp_all add: is_directed_param_buffer_def directed_bytes_def)
  have "read_n read_bound_param ((DRT1 @ u32_le (of_nat (length bs))) @ ?body @ []) (length bs)
      (length (DRT1 @ u32_le (of_nat (length bs)))) =
      Ok (bs, length (DRT1 @ u32_le (of_nat (length bs))) + length ?body)"
    using directed_body_fits[OF assms] by (intro bp.read_n_enc[OF assms(1)]) simp
  then have rd: "read_n read_bound_param (directed_bytes bs) (length bs) 8 = Ok (bs, 8 + length ?body)"
    by (simp add: directed_bytes_def)
  have len: "length (directed_bytes bs) = 8 + length ?body"
    by (simp add: directed_bytes_def)
  show ?thesis
    using dir hdr cnt rd len assms(2) length_directed_body[of bs]
    by (simp add: deserialize_param_buffer_def Let_def)
qed

text \<open>
  A directed request of at most \<open>MAX_PARAM_COUNT\<close> well-formed parameters is recognised as
  \<open>DRT1\<close> and decoded to exactly those parameters and directions.
\<close>

theorem directed_roundtrip:
  assumes "list_all wf_bound bs" and "length bs \<le> MAX_PARAM_COUNT"
  shows "deserialize_param_buffer (directed_bytes bs) = Ok (Directed bs)"
  using assms by (rule deserialize_directed)

theorem directed_roundtrip_witness:
  "deserialize_param_buffer (directed_bytes
      [\<lparr>bp_direction = DirInOut, bp_value = PV_Integer 3\<rparr>, \<lparr>bp_direction = DirOutput, bp_value = PV_Null\<rparr>]) =
    Ok (Directed [\<lparr>bp_direction = DirInOut, bp_value = PV_Integer 3\<rparr>, \<lparr>bp_direction = DirOutput, bp_value = PV_Null\<rparr>])"
  by (rule directed_roundtrip) (simp_all add: wf_bound_def MAX_PARAM_COUNT_def)

text \<open>
  The request decoder never panics, and a directed list it accepts has at most
  \<open>MAX_PARAM_COUNT\<close> entries however large the declared count is.
\<close>

theorem deserialize_param_buffer_safe:
  "deserialize_param_buffer data \<noteq> Panic \<and>
   (case deserialize_param_buffer data of
      Ok (Directed bs) \<Rightarrow> length bs \<le> MAX_PARAM_COUNT
    | Ok (Legacy ps) \<Rightarrow> length ps \<le> MAX_PARAM_COUNT
    | _ \<Rightarrow> True)"
proof -
  have lp: "params_loop data 0 [] \<noteq> Panic" by (rule params_loop_no_panic)
  have rn: "8 \<le> length data \<Longrightarrow> read_n read_bound_param data n 8 \<noteq> Panic" for n
    by (rule bp.read_n_no_panic)
  have nopanic: "deserialize_param_buffer data \<noteq> Panic"
    using lp rn
    by (auto simp: deserialize_param_buffer_def deserialize_params_def Let_def is_directed_param_buffer_def
        split: prod.splits if_splits)
  moreover have "length bs \<le> MAX_PARAM_COUNT" if "deserialize_param_buffer data = Ok (Directed bs)" for bs
    using that read_n_length[of read_bound_param data]
    by (fastforce simp: deserialize_param_buffer_def Let_def split: if_splits prod.splits)
  moreover have "length ps \<le> MAX_PARAM_COUNT" if "deserialize_param_buffer data = Ok (Legacy ps)" for ps
    using that params_loop_length[of data 0 "[]" ps]
    by (auto simp: deserialize_param_buffer_def deserialize_params_def Let_def split: if_splits prod.splits)
  ultimately show ?thesis by (auto split: outcome.splits param_list.splits)
qed

end
