(* ===== verification/Row_Codec.thy ===== *)
theory Row_Codec
  imports Params
begin

text \<open>
  \<open>protocol/types.rs\<close>, \<open>protocol/row_buffer.rs\<close>, \<open>protocol/encoder.rs\<close> and
  \<open>protocol/decoder.rs\<close>: the row-major result message (protocol version 1), its encoder with every
  size check, its decoder with every bound check, and the \<open>OUT1\<close> / \<open>RC1\<close> footers.
\<close>

section \<open>Column types\<close>

datatype odbc_type =
    Varchar | Integer | BigInt | Decimal | Date | Timestamp | Binary
  | NVarchar | TimestampWithTz | DatetimeOffset | Time | SmallInt | Boolean | Float
  | Double | Json | Uuid | Money | Interval

text \<open>\<open>t as u16\<close>: the discriminant.\<close>

fun odbc_type_code :: "odbc_type \<Rightarrow> u16" where
  "odbc_type_code Varchar = 1"
| "odbc_type_code Integer = 2"
| "odbc_type_code BigInt = 3"
| "odbc_type_code Decimal = 4"
| "odbc_type_code Date = 5"
| "odbc_type_code Timestamp = 6"
| "odbc_type_code Binary = 7"
| "odbc_type_code NVarchar = 8"
| "odbc_type_code TimestampWithTz = 9"
| "odbc_type_code DatetimeOffset = 10"
| "odbc_type_code Time = 11"
| "odbc_type_code SmallInt = 12"
| "odbc_type_code Boolean = 13"
| "odbc_type_code Float = 14"
| "odbc_type_code Double = 15"
| "odbc_type_code Json = 16"
| "odbc_type_code Uuid = 17"
| "odbc_type_code Money = 18"
| "odbc_type_code Interval = 19"

definition from_protocol_discriminant :: "u16 \<Rightarrow> odbc_type" where
  "from_protocol_discriminant code =
     (if code = 1 then Varchar else if code = 2 then Integer else if code = 3 then BigInt
      else if code = 4 then Decimal else if code = 5 then Date else if code = 6 then Timestamp
      else if code = 7 then Binary else if code = 8 then NVarchar else if code = 9 then TimestampWithTz
      else if code = 10 then DatetimeOffset else if code = 11 then Time else if code = 12 then SmallInt
      else if code = 13 then Boolean else if code = 14 then Float else if code = 15 then Double
      else if code = 16 then Json else if code = 17 then Uuid else if code = 18 then Money
      else if code = 19 then Interval else Varchar)"

definition from_odbc_sql_type :: "i16 \<Rightarrow> odbc_type" where
  "from_odbc_sql_type sql_type =
     (let t = sint sql_type in
      if t = 1 then Varchar else if t = 4 then Integer else if t = - 5 then BigInt
      else if t = 3 then Decimal else if t = 9 \<or> t = 91 then Date
      else if t = 11 \<or> t = 93 then Timestamp
      else if - 4 \<le> t \<and> t \<le> - 2 then Binary
      else if - 10 \<le> t \<and> t \<le> - 8 then NVarchar
      else if t = 5 then SmallInt else if t = - 6 then SmallInt else if t = - 7 then Boolean
      else if t = 7 then Float else if t = 6 \<or> t = 8 then Double
      else if t = 10 \<or> t = 92 then Time else if t = 2 then Decimal
      else if t = - 11 then Uuid else Varchar)"

text \<open>The data types the driver reports, as far as the engine tells them apart.\<close>

datatype data_type =
    DT_Integer | DT_SmallInt | DT_TinyInt | DT_Bit | DT_BigInt | DT_Numeric | DT_Decimal
  | DT_Date | DT_Timestamp | DT_Binary | DT_Varbinary | DT_LongVarbinary | DT_Other

fun sql_type_code_from_data_type :: "data_type \<Rightarrow> i16" where
  "sql_type_code_from_data_type DT_Integer = 4"
| "sql_type_code_from_data_type DT_SmallInt = 4"
| "sql_type_code_from_data_type DT_TinyInt = 4"
| "sql_type_code_from_data_type DT_Bit = 4"
| "sql_type_code_from_data_type DT_BigInt = - 5"
| "sql_type_code_from_data_type DT_Numeric = 3"
| "sql_type_code_from_data_type DT_Decimal = 3"
| "sql_type_code_from_data_type DT_Date = 9"
| "sql_type_code_from_data_type DT_Timestamp = 11"
| "sql_type_code_from_data_type DT_Binary = - 2"
| "sql_type_code_from_data_type DT_Varbinary = - 2"
| "sql_type_code_from_data_type DT_LongVarbinary = - 2"
| "sql_type_code_from_data_type DT_Other = 1"

lemma discriminant_roundtrip [simp]: "from_protocol_discriminant (odbc_type_code t) = t"
  by (cases t) (simp_all add: from_protocol_discriminant_def)

lemma odbc_type_code_range: "1 \<le> unat (odbc_type_code t) \<and> unat (odbc_type_code t) \<le> 19"
  by (cases t) simp_all

section \<open>Row buffers\<close>

type_synonym cell = "bytes option"

record column_metadata =
  cm_name :: string
  cm_odbc_type :: odbc_type

record row_buffer =
  rb_columns :: "column_metadata list"
  rb_rows :: "cell list list"

definition row_buffer_new :: row_buffer where
  "row_buffer_new = \<lparr>rb_columns = [], rb_rows = []\<rparr>"

definition add_column :: "string \<Rightarrow> odbc_type \<Rightarrow> row_buffer \<Rightarrow> row_buffer" where
  "add_column name t b = b\<lparr>rb_columns := rb_columns b @ [\<lparr>cm_name = name, cm_odbc_type = t\<rparr>]\<rparr>"

definition add_row :: "cell list \<Rightarrow> row_buffer \<Rightarrow> row_buffer" where
  "add_row row b = b\<lparr>rb_rows := rb_rows b @ [row]\<rparr>"

definition row_count :: "row_buffer \<Rightarrow> usize" where
  "row_count b = length (rb_rows b)"

definition column_count :: "row_buffer \<Rightarrow> usize" where
  "column_count b = length (rb_columns b)"

section \<open>Encoder\<close>

definition MAGIC :: u32 where "MAGIC = 0x4F444243"
definition VERSION :: u16 where "VERSION = 1"
definition OUTPUT_FOOTER_MAGIC :: bytes where "OUTPUT_FOOTER_MAGIC = as_bytes ''OUT1''"
definition REF_CURSOR_FOOTER_MAGIC :: bytes where "REF_CURSOR_FOOTER_MAGIC = as_bytes ''RC1'' @ [0]"

datatype encode_error =
    LengthTooLarge string usize string
  | PayloadSizeOverflow string
  | EncodeIo string

type_synonym 'a eresult = "(encode_error, 'a) outcome"

definition checked_u16_len :: "usize \<Rightarrow> string \<Rightarrow> u16 eresult" where
  "checked_u16_len value field = ok_or (try_u16 value) (LengthTooLarge field value ''u16'')"

definition checked_u32_len :: "usize \<Rightarrow> string \<Rightarrow> u32 eresult" where
  "checked_u32_len value field = ok_or (try_u32 value) (LengthTooLarge field value ''u32'')"

definition checked_payload_add :: "usize \<Rightarrow> usize \<Rightarrow> string \<Rightarrow> usize eresult" where
  "checked_payload_add current added context =
     ok_or (usize_checked_add current added) (PayloadSizeOverflow context)"

text \<open>The first pass: the size of the column metadata, then of the cells.\<close>

fun metadata_size :: "column_metadata list \<Rightarrow> usize \<Rightarrow> usize eresult" where
  "metadata_size [] sz = Ok sz"
| "metadata_size (col # cols) sz =
     obind (checked_u16_len (length (cm_name col)) ''column name length'') (\<lambda>_.
     obind (checked_payload_add sz 2 ''column type'') (\<lambda>sz.
     obind (checked_payload_add sz 2 ''column name length'') (\<lambda>sz.
     obind (checked_payload_add sz (length (cm_name col)) ''column name'') (\<lambda>sz.
     metadata_size cols sz))))"

fun row_size :: "cell list \<Rightarrow> usize \<Rightarrow> usize eresult" where
  "row_size [] sz = Ok sz"
| "row_size (cell # cells) sz =
     obind (checked_payload_add sz 1 ''cell null flag'') (\<lambda>sz.
     obind (case cell of None \<Rightarrow> Ok sz
            | Some data \<Rightarrow>
              obind (checked_u32_len (length data) ''cell data length'') (\<lambda>_.
              obind (checked_payload_add sz 4 ''cell data length'') (\<lambda>sz.
              checked_payload_add sz (length data) ''cell data''))) (\<lambda>sz.
     row_size cells sz))"

fun rows_size :: "cell list list \<Rightarrow> usize \<Rightarrow> usize eresult" where
  "rows_size [] sz = Ok sz"
| "rows_size (row # rows) sz = obind (row_size row sz) (rows_size rows)"

text \<open>The second pass: what is written for a column and for a cell.\<close>

definition write_column :: "column_metadata \<Rightarrow> bytes eresult" where
  "write_column col =
     obind (checked_u16_len (length (cm_name col)) ''column name length'') (\<lambda>name_len.
     Ok (u16_le (odbc_type_code (cm_odbc_type col)) @ u16_le name_len @ as_bytes (cm_name col)))"

fun write_cell :: "cell \<Rightarrow> bytes eresult" where
  "write_cell (Some data) =
     obind (checked_u32_len (length data) ''cell data length'') (\<lambda>data_len.
     Ok (0 # u32_le data_len @ data))"
| "write_cell None = Ok [1]"

text \<open>\<open>encode_to_writer\<close>, as the bytes it writes to a writer that accepts them all (a \<open>Vec\<close>).\<close>

definition encode_to_writer :: "row_buffer \<Rightarrow> bytes eresult" where
  "encode_to_writer buffer =
     obind (checked_u16_len (column_count buffer) ''column count'') (\<lambda>columns.
     obind (checked_u32_len (row_count buffer) ''row count'') (\<lambda>rows.
     obind (metadata_size (rb_columns buffer) 0) (\<lambda>meta.
     obind (rows_size (rb_rows buffer) meta) (\<lambda>sz.
     obind (checked_u32_len sz ''payload size'') (\<lambda>payload_size.
     obind (omapM write_column (rb_columns buffer)) (\<lambda>cols.
     obind (omapM (omapM write_cell) (rb_rows buffer)) (\<lambda>cells.
     Ok (u32_le MAGIC @ u16_le VERSION @ u16_le columns @ u32_le rows @ u32_le payload_size @
         concat cols @ concat (map concat cells)))))))))"

definition try_encode :: "row_buffer \<Rightarrow> bytes eresult" where
  "try_encode buffer = encode_to_writer buffer"

definition encode :: "row_buffer \<Rightarrow> ('e, bytes) outcome" where
  "encode buffer = expect (try_encode buffer)"

definition try_append_output_footer :: "bytes \<Rightarrow> param_value list \<Rightarrow> bytes eresult" where
  "try_append_output_footer base outputs =
     (if outputs = [] then Ok base
      else
        obind (checked_u32_len (length outputs) ''output parameter count'') (\<lambda>output_count.
        obind (omapM serialize outputs) (\<lambda>ps.
        Ok (base @ OUTPUT_FOOTER_MAGIC @ u32_le output_count @ concat ps))))"

definition append_output_footer :: "bytes \<Rightarrow> param_value list \<Rightarrow> ('e, bytes) outcome" where
  "append_output_footer base outputs = expect (try_append_output_footer base outputs)"

definition write_blob :: "bytes \<Rightarrow> bytes eresult" where
  "write_blob b =
     obind (checked_u32_len (length b) ''ref cursor payload length'') (\<lambda>blob_len.
     Ok (u32_le blob_len @ b))"

definition try_append_ref_cursor_footer :: "bytes \<Rightarrow> bytes list \<Rightarrow> bytes eresult" where
  "try_append_ref_cursor_footer base blobs =
     (if blobs = [] then Ok base
      else
        obind (checked_u32_len (length blobs) ''ref cursor count'') (\<lambda>blob_count.
        obind (omapM write_blob blobs) (\<lambda>bs.
        Ok (base @ REF_CURSOR_FOOTER_MAGIC @ u32_le blob_count @ concat bs))))"

definition append_ref_cursor_footer :: "bytes \<Rightarrow> bytes list \<Rightarrow> ('e, bytes) outcome" where
  "append_ref_cursor_footer base blobs = expect (try_append_ref_cursor_footer base blobs)"

section \<open>Decoder\<close>

definition HEADER_SIZE :: usize where "HEADER_SIZE = 16"
definition MAX_DECODED_COLUMNS :: usize where "MAX_DECODED_COLUMNS = 4096"
definition MAX_DECODED_ROWS :: usize where "MAX_DECODED_ROWS = 1000000"
definition MAX_DECODED_CELLS :: usize where "MAX_DECODED_CELLS = 5000000"
definition MAX_DECODED_PAYLOAD_SIZE :: usize where "MAX_DECODED_PAYLOAD_SIZE = 256 * 1024 * 1024"
definition MAX_DECODED_CELL_SIZE :: usize where "MAX_DECODED_CELL_SIZE = 64 * 1024 * 1024"

lemmas decoder_limits =
  HEADER_SIZE_def MAX_DECODED_COLUMNS_def MAX_DECODED_ROWS_def MAX_DECODED_CELLS_def
  MAX_DECODED_PAYLOAD_SIZE_def MAX_DECODED_CELL_SIZE_def

record column_info =
  ci_name :: string
  ci_odbc_type :: odbc_type

record decoded_result =
  dr_columns :: "column_info list"
  dr_rows :: "cell list list"
  dr_row_count :: usize
  dr_column_count :: usize

text \<open>\<open>{:08X}\<close> and the text of a \<open>Utf8Error\<close>, for the messages.\<close>

definition hex_upper :: "nat \<Rightarrow> char" where
  "hex_upper d = (if d < 10 then char_of (48 + d) else char_of (55 + d))"

definition hex08 :: "u32 \<Rightarrow> string" where
  "hex08 w = map (\<lambda>i. hex_upper (unat w div 16 ^ i mod 16)) [7, 6, 5, 4, 3, 2, 1, 0]"

definition utf8_error_display :: "utf8_error \<Rightarrow> string" where
  "utf8_error_display e =
     (case error_len e of
        Some n \<Rightarrow> ''invalid utf-8 sequence of '' @ show_nat n @ '' bytes from index '' @ show_nat (valid_up_to e)
      | None \<Rightarrow> ''incomplete utf-8 byte sequence from index '' @ show_nat (valid_up_to e))"

definition validate_shape :: "usize \<Rightarrow> usize \<Rightarrow> usize \<Rightarrow> unit result" where
  "validate_shape columns rows payload_size =
     obind (fail_if (columns > MAX_DECODED_COLUMNS)
       (ValidationError (''Column count '' @ show_nat columns @ '' exceeds limit '' @ show_nat MAX_DECODED_COLUMNS))) (\<lambda>_.
     obind (fail_if (rows > MAX_DECODED_ROWS)
       (ValidationError (''Row count '' @ show_nat rows @ '' exceeds limit '' @ show_nat MAX_DECODED_ROWS))) (\<lambda>_.
     obind (ok_or (usize_checked_mul columns rows) (ValidationError ''Cell count overflow'')) (\<lambda>cell_count.
     obind (fail_if (cell_count > MAX_DECODED_CELLS)
       (ValidationError (''Cell count '' @ show_nat cell_count @ '' exceeds limit '' @ show_nat MAX_DECODED_CELLS))) (\<lambda>_.
     fail_if (payload_size > MAX_DECODED_PAYLOAD_SIZE)
       (ValidationError (''Payload size '' @ show_nat payload_size @ '' exceeds limit '' @ show_nat MAX_DECODED_PAYLOAD_SIZE))))))"

text \<open>The body of the metadata loop, and of the cell loop.\<close>

definition read_column :: "bytes \<Rightarrow> usize \<Rightarrow> (column_info \<times> usize) result" where
  "read_column buffer offset =
     (if offset + 4 > length buffer then Err (ValidationError ''Buffer too small for column metadata'')
      else
        obind (array_at 2 buffer offset) (\<lambda>tb.
        obind (array_at 2 buffer (offset + 2)) (\<lambda>nb.
        let t = from_protocol_discriminant (from_le tb); name_len = unat (from_le nb :: u16) in
        if offset + 4 + name_len > length buffer then
          Err (ValidationError ''Buffer too small for column name'')
        else
          obind (range_of buffer (offset + 4) (offset + 4 + name_len)) (\<lambda>raw.
          obind (map_err (\<lambda>e. ValidationError (''Invalid UTF-8 in column name: '' @ utf8_error_display e))
                   (from_utf8 raw)) (\<lambda>name.
          Ok (\<lparr>ci_name = name, ci_odbc_type = t\<rparr>, offset + 4 + name_len))))))"

definition read_cell :: "bytes \<Rightarrow> usize \<Rightarrow> (cell \<times> usize) result" where
  "read_cell buffer offset =
     (if offset \<ge> length buffer then Err (ValidationError ''Buffer too small for row data'')
      else
        obind (idx buffer offset) (\<lambda>is_null.
        if is_null = 1 then Ok (None, offset + 1)
        else if offset + 1 + 4 > length buffer then
          Err (ValidationError ''Buffer too small for data length'')
        else
          obind (array_at 4 buffer (offset + 1)) (\<lambda>lb.
          let data_len = unat (from_le lb :: u32) in
          if data_len > MAX_DECODED_CELL_SIZE then
            Err (ValidationError (''Cell data length '' @ show_nat data_len @ '' exceeds limit '' @
                   show_nat MAX_DECODED_CELL_SIZE))
          else
            obind (ok_or (usize_checked_add (offset + 5) data_len)
                     (ValidationError ''Cell data offset overflow'')) (\<lambda>stop.
            if stop > length buffer then Err (ValidationError ''Buffer too small for cell data'')
            else
              obind (range_of buffer (offset + 5) stop) (\<lambda>data.
              Ok (Some data, stop))))))"

definition read_row :: "usize \<Rightarrow> bytes \<Rightarrow> usize \<Rightarrow> (cell list \<times> usize) result" where
  "read_row columns buffer offset = read_n read_cell buffer columns offset"

definition parse :: "bytes \<Rightarrow> decoded_result result" where
  "parse buffer =
     (if length buffer < HEADER_SIZE then
        Err (ValidationError (''Buffer too small: need at least '' @ show_nat HEADER_SIZE @
               '' bytes, got '' @ show_nat (length buffer)))
      else
        obind (array_at 4 buffer 0) (\<lambda>mb.
        let magic = from_le mb :: u32 in
        if magic \<noteq> MAGIC then
          Err (ValidationError (''Invalid magic number: expected 0x'' @ hex08 MAGIC @ '', got 0x'' @ hex08 magic))
        else
        obind (array_at 2 buffer 4) (\<lambda>vb.
        let version = from_le vb :: u16 in
        if version \<noteq> VERSION then
          Err (ValidationError (''Invalid version: expected '' @ show_nat (unat VERSION) @ '', got '' @
                 show_nat (unat version)))
        else
        obind (array_at 2 buffer 6) (\<lambda>cb.
        obind (array_at 4 buffer 8) (\<lambda>rb.
        obind (array_at 4 buffer 12) (\<lambda>pb.
        let columns = unat (from_le cb :: u16);
            rows = unat (from_le rb :: u32);
            payload_size = unat (from_le pb :: u32) in
        obind (validate_shape columns rows payload_size) (\<lambda>_.
        obind (read_n read_column buffer columns 16) (\<lambda>(cols, offset).
        obind (read_n (read_row columns) buffer rows offset) (\<lambda>(rws, offset).
        obind (ok_or (usize_checked_add HEADER_SIZE payload_size)
                 (ValidationError ''Payload size overflow'')) (\<lambda>expected_len.
        if expected_len \<noteq> length buffer then
          Err (ValidationError (''Payload size mismatch: header declares '' @ show_nat payload_size @
                 '', buffer has '' @ show_nat (length buffer - HEADER_SIZE) @ '' payload bytes''))
        else if offset \<noteq> length buffer then
          Err (ValidationError ''Buffer has trailing bytes'')
        else
          Ok \<lparr>dr_columns = cols, dr_rows = rws, dr_row_count = rows, dr_column_count = columns\<rparr>))))))))))"

section \<open>The layout\<close>

definition info_of :: "column_metadata \<Rightarrow> column_info" where
  "info_of c = \<lparr>ci_name = cm_name c, ci_odbc_type = cm_odbc_type c\<rparr>"

definition column_bytes :: "column_info \<Rightarrow> bytes" where
  "column_bytes c =
     u16_le (odbc_type_code (ci_odbc_type c)) @ u16_le (of_nat (length (ci_name c))) @ as_bytes (ci_name c)"

definition cell_bytes :: "cell \<Rightarrow> bytes" where
  "cell_bytes c = (case c of None \<Rightarrow> [1] | Some d \<Rightarrow> 0 # u32_le (of_nat (length d)) @ d)"

definition row_bytes :: "cell list \<Rightarrow> bytes" where
  "row_bytes r = concat (map cell_bytes r)"

definition payload_bytes :: "row_buffer \<Rightarrow> bytes" where
  "payload_bytes b = concat (map (column_bytes \<circ> info_of) (rb_columns b)) @ concat (map row_bytes (rb_rows b))"

definition header_bytes :: "row_buffer \<Rightarrow> bytes" where
  "header_bytes b =
     u32_le MAGIC @ u16_le VERSION @ u16_le (of_nat (column_count b)) @ u32_le (of_nat (row_count b)) @
     u32_le (of_nat (length (payload_bytes b)))"

definition wf_info :: "column_info \<Rightarrow> bool" where
  "wf_info c \<longleftrightarrow> valid_str (ci_name c) \<and> length (ci_name c) < 2 ^ 16"

definition wf_cell :: "cell \<Rightarrow> bool" where
  "wf_cell c \<longleftrightarrow> (case c of None \<Rightarrow> True | Some d \<Rightarrow> length d \<le> MAX_DECODED_CELL_SIZE)"

text \<open>A rectangular buffer within the limits of the decoder.\<close>

definition wf_buffer :: "row_buffer \<Rightarrow> bool" where
  "wf_buffer b \<longleftrightarrow>
     column_count b \<le> MAX_DECODED_COLUMNS \<and> row_count b \<le> MAX_DECODED_ROWS \<and>
     column_count b * row_count b \<le> MAX_DECODED_CELLS \<and>
     length (payload_bytes b) \<le> MAX_DECODED_PAYLOAD_SIZE \<and>
     list_all (wf_info \<circ> info_of) (rb_columns b) \<and>
     list_all (\<lambda>r. length r = column_count b \<and> list_all wf_cell r) (rb_rows b)"

lemma length_column_bytes [byte_simps]: "length (column_bytes c) = 4 + length (ci_name c)"
  by (simp add: column_bytes_def)

lemma length_cell_bytes_Some [byte_simps]: "length (cell_bytes (Some d)) = 5 + length d"
  by (simp add: cell_bytes_def)

lemma length_cell_bytes_None [byte_simps]: "length (cell_bytes None) = 1"
  by (simp add: cell_bytes_def)

lemma length_header_bytes [byte_simps]: "length (header_bytes b) = 16"
  by (simp add: header_bytes_def)

section \<open>The encoder writes the layout\<close>

lemma checked_u16_len_Ok: "n < 2 ^ 16 \<Longrightarrow> checked_u16_len n f = Ok (of_nat n)"
  by (simp add: checked_u16_len_def try_u16_def)

lemma checked_u32_len_Ok: "n < 2 ^ 32 \<Longrightarrow> checked_u32_len n f = Ok (of_nat n)"
  by (simp add: checked_u32_len_def try_u32_def)

lemma checked_payload_add_Ok: "a + b \<le> usize_max \<Longrightarrow> checked_payload_add a b f = Ok (a + b)"
  by (simp add: checked_payload_add_def usize_checked_add_def)

lemmas checked_Ok = checked_u16_len_Ok checked_u32_len_Ok checked_payload_add_Ok

lemma metadata_size_Ok:
  "list_all (\<lambda>c. length (cm_name c) < 2 ^ 16) cols \<Longrightarrow>
   s + length (concat (map (column_bytes \<circ> info_of) cols)) \<le> usize_max \<Longrightarrow>
   metadata_size cols s = Ok (s + length (concat (map (column_bytes \<circ> info_of) cols)))"
  by (induction cols arbitrary: s) (simp_all add: checked_Ok byte_simps info_of_def)

definition cell_u32 :: "cell \<Rightarrow> bool" where
  "cell_u32 c \<longleftrightarrow> (case c of None \<Rightarrow> True | Some d \<Rightarrow> length d < 2 ^ 32)"

lemma row_size_Ok:
  "list_all cell_u32 cells \<Longrightarrow>
   s + length (row_bytes cells) \<le> usize_max \<Longrightarrow> row_size cells s = Ok (s + length (row_bytes cells))"
proof (induction cells arbitrary: s)
  case Nil
  then show ?case by (simp add: row_bytes_def)
next
  case (Cons c cells)
  then show ?case
    by (cases c) (simp_all add: checked_Ok byte_simps row_bytes_def cell_u32_def)
qed

lemma rows_size_Ok:
  "list_all (list_all cell_u32) rows \<Longrightarrow>
   s + length (concat (map row_bytes rows)) \<le> usize_max \<Longrightarrow>
   rows_size rows s = Ok (s + length (concat (map row_bytes rows)))"
proof (induction rows arbitrary: s)
  case Nil
  then show ?case by simp
next
  case (Cons r rows)
  then have "row_size r s = Ok (s + length (row_bytes r))" by (intro row_size_Ok) simp_all
  moreover have "rows_size rows (s + length (row_bytes r)) =
      Ok ((s + length (row_bytes r)) + length (concat (map row_bytes rows)))"
    using Cons.prems by (intro Cons.IH) simp_all
  ultimately show ?case by simp
qed

lemma write_column_Ok:
  "length (cm_name c) < 2 ^ 16 \<Longrightarrow> write_column c = Ok (column_bytes (info_of c))"
  by (simp add: write_column_def checked_Ok column_bytes_def info_of_def)

lemma write_cell_Ok:
  "cell_u32 c \<Longrightarrow> write_cell c = Ok (cell_bytes c)"
  by (cases c) (simp_all add: checked_Ok cell_bytes_def cell_u32_def)

lemma wf_cell_u32: "wf_cell c \<Longrightarrow> cell_u32 c"
  by (cases c) (simp_all add: wf_cell_def cell_u32_def MAX_DECODED_CELL_SIZE_def)

lemma try_encode_Ok:
  assumes "wf_buffer b"
  shows "try_encode b = Ok (header_bytes b @ payload_bytes b)"
proof -
  have cc: "column_count b < 2 ^ 16" and rc: "row_count b < 2 ^ 32"
    and pl: "length (payload_bytes b) < 2 ^ 32"
    using assms by (auto simp: wf_buffer_def decoder_limits)
  have names: "list_all (\<lambda>c. length (cm_name c) < 2 ^ 16) (rb_columns b)"
    using assms by (auto simp: wf_buffer_def list_all_iff wf_info_def info_of_def)
  have cells: "list_all (list_all cell_u32) (rb_rows b)"
    using assms wf_cell_u32 by (auto simp: wf_buffer_def list_all_iff)
  have meta: "metadata_size (rb_columns b) 0 = Ok (length (concat (map (column_bytes \<circ> info_of) (rb_columns b))))"
    using metadata_size_Ok[OF names, of 0] pl by (simp add: payload_bytes_def)
  have rows: "rows_size (rb_rows b) (length (concat (map (column_bytes \<circ> info_of) (rb_columns b)))) =
      Ok (length (payload_bytes b))"
    using rows_size_Ok[OF cells] pl by (simp add: payload_bytes_def)
  have wc: "omapM write_column (rb_columns b) = Ok (map (column_bytes \<circ> info_of) (rb_columns b))"
    using names by (intro omapM_Ok_map) (simp add: write_column_Ok list_all_iff)
  have "omapM write_cell r = Ok (map cell_bytes r)" if "r \<in> set (rb_rows b)" for r
    using cells that by (intro omapM_Ok_map) (simp add: write_cell_Ok list_all_iff)
  then have wr: "omapM (omapM write_cell) (rb_rows b) = Ok (map (map cell_bytes) (rb_rows b))"
    by (rule omapM_Ok_map)
  have rowmap: "concat \<circ> map cell_bytes = row_bytes"
    by (simp add: fun_eq_iff row_bytes_def)
  show ?thesis
    using cc rc pl meta rows wc wr rowmap
    by (simp add: try_encode_def encode_to_writer_def checked_Ok header_bytes_def payload_bytes_def)
qed

section \<open>The decoder reads the layout\<close>

interpretation col: offset_codec read_column column_bytes wf_info
proof
  fix off data assume "off \<le> length (data :: bytes)"
  show "read_column data off \<noteq> Panic"
    by (auto simp: read_column_def Let_def)
next
  fix off data x off' assume "read_column data off = Ok (x, off')"
  then show "off \<le> off' \<and> off' \<le> length data"
    by (auto simp: read_column_def Let_def split: if_splits)
next
  fix x pre post assume wf: "wf_info x"
  let ?data = "pre @ column_bytes x @ post"
  have "take 2 (drop (length pre) ?data) = u16_le (odbc_type_code (ci_odbc_type x))"
    "take 2 (drop (length pre + 2) ?data) = u16_le (of_nat (length (ci_name x)))"
    "take (length (ci_name x)) (drop (length pre + 4) ?data) = as_bytes (ci_name x)"
    by (simp_all add: column_bytes_def)
  moreover have "unat (of_nat (length (ci_name x)) :: u16) = length (ci_name x)"
    using wf by (simp add: wf_info_def)
  ultimately show "read_column ?data (length pre) = Ok (x, length pre + length (column_bytes x))"
    using wf by (simp add: read_column_def Let_def wf_info_def byte_simps)
qed

interpretation cell: offset_codec read_cell cell_bytes wf_cell
proof
  fix off data assume "off \<le> length (data :: bytes)"
  show "read_cell data off \<noteq> Panic"
    by (auto simp: read_cell_def Let_def usize_checked_add_def)
next
  fix off data x off' assume "read_cell data off = Ok (x, off')"
  then show "off \<le> off' \<and> off' \<le> length data"
    by (auto simp: read_cell_def Let_def usize_checked_add_def split: if_splits)
next
  fix x pre post assume wf: "wf_cell x" and fits: "length (pre @ cell_bytes x @ post) \<le> usize_max"
  show "read_cell (pre @ cell_bytes x @ post) (length pre) = Ok (x, length pre + length (cell_bytes x))"
  proof (cases x)
    case None
    then show ?thesis by (simp add: read_cell_def cell_bytes_def)
  next
    case (Some d)
    let ?data = "pre @ cell_bytes x @ post"
    have "take 4 (drop (length pre + 1) ?data) = u32_le (of_nat (length d))"
      "take (length d) (drop (length pre + 5) ?data) = d" "?data ! length pre = 0"
      by (simp_all add: cell_bytes_def Some)
    moreover have "unat (of_nat (length d) :: u32) = length d"
      using wf Some by (simp add: wf_cell_def MAX_DECODED_CELL_SIZE_def)
    ultimately show ?thesis
      using wf fits Some
      by (simp add: read_cell_def Let_def wf_cell_def byte_simps usize_checked_add_def)
  qed
qed

text \<open>A row of the buffer's width is itself a codec at every offset.\<close>

lemma offset_codec_row:
  "offset_codec (read_row n) row_bytes (\<lambda>r. length r = n \<and> list_all wf_cell r)"
proof
  fix off data assume "off \<le> length (data :: bytes)"
  then show "read_row n data off \<noteq> Panic" unfolding read_row_def by (rule cell.read_n_no_panic)
next
  fix off data x off' assume "off \<le> length (data :: bytes)" "read_row n data off = Ok (x, off')"
  then show "off \<le> off' \<and> off' \<le> length data" unfolding read_row_def by (rule cell.read_n_bounds)
next
  fix x pre post
  assume "length x = n \<and> list_all wf_cell x" "length (pre @ row_bytes x @ post) \<le> usize_max"
  then show "read_row n (pre @ row_bytes x @ post) (length pre) = Ok (x, length pre + length (row_bytes x))"
    using cell.read_n_enc[of x pre post] by (auto simp: read_row_def row_bytes_def)
qed

lemma offset_reader_row: "offset_reader (read_row n)"
  using offset_codec_row[of n] by (simp add: offset_codec_def)

lemma validate_shape_not_Panic [simp]: "validate_shape c r p \<noteq> Panic"
  by (simp add: validate_shape_def)

lemma validate_shape_Ok_iff:
  "validate_shape c r p = Ok u \<longleftrightarrow>
     c \<le> MAX_DECODED_COLUMNS \<and> r \<le> MAX_DECODED_ROWS \<and> c * r \<le> MAX_DECODED_CELLS \<and> p \<le> MAX_DECODED_PAYLOAD_SIZE"
  by (auto simp: validate_shape_def usize_checked_mul_def decoder_limits)

lemma parse_layout:
  assumes "wf_buffer b"
  shows "parse (header_bytes b @ payload_bytes b) =
    Ok \<lparr>dr_columns = map info_of (rb_columns b), dr_rows = rb_rows b,
        dr_row_count = row_count b, dr_column_count = column_count b\<rparr>"
proof -
  let ?cols = "map info_of (rb_columns b)"
  let ?msg = "header_bytes b @ payload_bytes b"
  let ?cb = "concat (map column_bytes ?cols)" and ?rb = "concat (map row_bytes (rb_rows b))"
  have lim: "column_count b \<le> MAX_DECODED_COLUMNS" "row_count b \<le> MAX_DECODED_ROWS"
    "column_count b * row_count b \<le> MAX_DECODED_CELLS" "length (payload_bytes b) \<le> MAX_DECODED_PAYLOAD_SIZE"
    and wfc: "list_all wf_info ?cols"
    and wfr: "list_all (\<lambda>r. length r = column_count b \<and> list_all wf_cell r) (rb_rows b)"
    using assms by (auto simp: wf_buffer_def list_all_iff)
  have pay: "payload_bytes b = ?cb @ ?rb" by (simp add: payload_bytes_def)
  have len: "length ?msg = 16 + length (payload_bytes b)" by (simp add: byte_simps)
  have fits: "length ?msg \<le> usize_max" using len lim by (simp add: decoder_limits)
  have cnt: "unat (of_nat (column_count b) :: u16) = column_count b"
    "unat (of_nat (row_count b) :: u32) = row_count b"
    "unat (of_nat (length (payload_bytes b)) :: u32) = length (payload_bytes b)"
    using lim by (simp_all add: decoder_limits)
  have hdr: "take 4 ?msg = u32_le MAGIC" "take 2 (drop 4 ?msg) = u16_le VERSION"
    "take 2 (drop 6 ?msg) = u16_le (of_nat (column_count b))" "take 4 (drop 8 ?msg) = u32_le (of_nat (row_count b))"
    "take 4 (drop 12 ?msg) = u32_le (of_nat (length (payload_bytes b)))"
    by (simp_all add: header_bytes_def)
  have c: "read_n read_column ?msg (column_count b) 16 = Ok (?cols, 16 + length ?cb)"
    using col.read_n_enc[OF wfc, of "header_bytes b" ?rb] fits
    by (simp add: pay byte_simps column_count_def)
  have r: "read_n (read_row (column_count b)) ?msg (row_count b) (16 + length ?cb) =
      Ok (rb_rows b, 16 + length ?cb + length ?rb)"
    using offset_codec.read_n_enc[OF offset_codec_row wfr, of "header_bytes b @ ?cb" "[]"] fits
    by (simp add: pay byte_simps row_count_def)
  show "parse ?msg = Ok \<lparr>dr_columns = ?cols, dr_rows = rb_rows b,
        dr_row_count = row_count b, dr_column_count = column_count b\<rparr>"
    using hdr cnt c r len lim pay
    by (simp add: parse_def Let_def validate_shape_Ok_iff usize_checked_add_def decoder_limits)
qed

text \<open>
  C34. Round trip of the result message: a rectangular buffer within the decoder's limits is
  encoded, and the decoder returns its columns, types and rows unchanged.
\<close>

theorem row_message_roundtrip:
  assumes "wf_buffer b"
  shows "obind (map_err (\<lambda>_. InternalError []) (try_encode b)) parse =
    Ok \<lparr>dr_columns = map info_of (rb_columns b), dr_rows = rb_rows b,
        dr_row_count = row_count b, dr_column_count = column_count b\<rparr>"
  using assms by (simp add: try_encode_Ok parse_layout)

theorem row_message_roundtrip_witness:
  "obind (map_err (\<lambda>_. InternalError [])
      (try_encode (add_row [Some [42, 0, 0, 0], None] (add_column ''t'' Varchar (add_column ''n'' Integer row_buffer_new))))) parse =
    Ok \<lparr>dr_columns = [\<lparr>ci_name = ''n'', ci_odbc_type = Integer\<rparr>, \<lparr>ci_name = ''t'', ci_odbc_type = Varchar\<rparr>],
        dr_rows = [[Some [42, 0, 0, 0], None]], dr_row_count = 1, dr_column_count = 2\<rparr>"
proof -
  let ?b = "add_row [Some [42, 0, 0, 0], None] (add_column ''t'' Varchar (add_column ''n'' Integer row_buffer_new))"
  have "wf_buffer ?b"
    by (simp add: wf_buffer_def add_row_def add_column_def row_buffer_new_def column_count_def row_count_def
        payload_bytes_def row_bytes_def byte_simps info_of_def wf_info_def wf_cell_def valid_str_ascii ascii_def
        decoder_limits)
  from row_message_roundtrip[OF this] show ?thesis
    by (simp add: add_row_def add_column_def row_buffer_new_def column_count_def row_count_def info_of_def
        numeral_2_eq_2)
qed

lemma read_rows_no_panic:
  assumes "16 \<le> length buffer" and "read_n read_column buffer c 16 = Ok (cols, off)"
  shows "read_n (read_row n) buffer r off \<noteq> Panic"
  using col.read_n_bounds[OF assms] offset_reader.read_n_no_panic[OF offset_reader_row] by blast

lemma parse_no_panic: "parse buffer \<noteq> Panic"
  using col.read_n_no_panic[of 16 buffer] read_rows_no_panic[of buffer]
  by (auto simp: parse_def Let_def HEADER_SIZE_def split: if_splits prod.splits)

lemma read_row_length: "read_row n data off = Ok (row, off') \<Longrightarrow> length row = n"
  unfolding read_row_def by (rule read_n_length)

text \<open>The bytes a column and a cell take in a message, and what the readers consume.\<close>

definition column_size :: "column_info \<Rightarrow> nat" where
  "column_size c = 4 + length (ci_name c)"

definition cell_size :: "cell \<Rightarrow> nat" where
  "cell_size c = (case c of None \<Rightarrow> 1 | Some d \<Rightarrow> 5 + length d)"

lemma read_n_size:
  assumes "\<And>off x off'. rd data off = Ok (x, off') \<Longrightarrow> off' = off + sz x"
  shows "read_n rd data n off = Ok (xs, off') \<Longrightarrow> off' = off + sum_list (map sz xs)"
proof (induction n arbitrary: off xs off')
  case (Suc n)
  then obtain x o1 ys where "rd data off = Ok (x, o1)" "read_n rd data n o1 = Ok (ys, off')" "xs = x # ys"
    by (auto split: prod.splits)
  with Suc.IH[of o1 ys off'] assms[of off x o1] show ?case by simp
qed simp

lemma range_of_length: "range_of xs a b = Ok ys \<Longrightarrow> length ys = b - a"
  by (auto simp: range_of_def split: if_splits)

lemma read_column_Ok:
  assumes "read_column buffer off = Ok (c, off')"
  shows "off' = off + column_size c" "valid_str (ci_name c)"
  using assms
  by (auto simp: read_column_def column_size_def Let_def from_utf8_def valid_str_def dest!: range_of_length
      split: if_splits outcome.splits option.splits)

lemma read_cell_Ok:
  assumes "read_cell buffer off = Ok (c, off')"
  shows "off' = off + cell_size c" "wf_cell c"
  using assms
  by (auto simp: read_cell_def cell_size_def wf_cell_def Let_def usize_checked_add_def dest!: range_of_length
      split: if_splits)

lemma read_row_Ok:
  assumes "read_row n buffer off = Ok (row, off')"
  shows "off' = off + sum_list (map cell_size row)" "list_all wf_cell row"
  using read_n_size[OF read_cell_Ok(1) assms[unfolded read_row_def]] read_n_all[OF read_cell_Ok(2) assms[unfolded read_row_def]]
  by simp_all

lemma parse_Ok_parts:
  assumes "parse buffer = Ok r"
  obtains off where "read_n read_column buffer (dr_column_count r) 16 = Ok (dr_columns r, off)"
    "read_n (read_row (dr_column_count r)) buffer (dr_row_count r) off = Ok (dr_rows r, length buffer)"
    "validate_shape (dr_column_count r) (dr_row_count r) (length buffer - 16) = Ok ()" "16 \<le> length buffer"
proof -
  obtain cols rws o1 o2 where "read_n read_column buffer (dr_column_count r) 16 = Ok (cols, o1)"
    "read_n (read_row (dr_column_count r)) buffer (dr_row_count r) o1 = Ok (rws, o2)"
    "validate_shape (dr_column_count r) (dr_row_count r) (length buffer - 16) = Ok ()"
    "dr_columns r = cols" "dr_rows r = rws" "o2 = length buffer" "16 \<le> length buffer"
    using assms
    by (auto simp: parse_def Let_def usize_checked_add_def HEADER_SIZE_def validate_shape_Ok_iff
        split: if_splits prod.splits)
  then show thesis using that by blast
qed

lemma parse_Ok_shape:
  assumes "parse buffer = Ok r"
  shows "length (dr_columns r) = dr_column_count r" "length (dr_rows r) = dr_row_count r"
    "list_all (\<lambda>c. valid_str (ci_name c)) (dr_columns r)"
    "list_all (\<lambda>row. length row = dr_column_count r \<and> list_all wf_cell row) (dr_rows r)"
    "dr_column_count r \<le> MAX_DECODED_COLUMNS" "dr_row_count r \<le> MAX_DECODED_ROWS"
    "dr_column_count r * dr_row_count r \<le> MAX_DECODED_CELLS" "length buffer \<le> HEADER_SIZE + MAX_DECODED_PAYLOAD_SIZE"
    "length buffer = HEADER_SIZE + sum_list (map column_size (dr_columns r)) +
       sum_list (map (\<lambda>row. sum_list (map cell_size row)) (dr_rows r))"
proof -
  obtain off where c: "read_n read_column buffer (dr_column_count r) 16 = Ok (dr_columns r, off)"
    and rw: "read_n (read_row (dr_column_count r)) buffer (dr_row_count r) off = Ok (dr_rows r, length buffer)"
    and v: "validate_shape (dr_column_count r) (dr_row_count r) (length buffer - 16) = Ok ()" "16 \<le> length buffer"
    using parse_Ok_parts[OF assms] .
  show "length (dr_columns r) = dr_column_count r" using read_n_length[OF c] .
  show "length (dr_rows r) = dr_row_count r" using read_n_length[OF rw] .
  show "list_all (\<lambda>c. valid_str (ci_name c)) (dr_columns r)" by (rule read_n_all[OF read_column_Ok(2) c])
  show "list_all (\<lambda>row. length row = dr_column_count r \<and> list_all wf_cell row) (dr_rows r)"
    by (rule read_n_all[OF conjI[OF read_row_length read_row_Ok(2)] rw])
  show "dr_column_count r \<le> MAX_DECODED_COLUMNS" "dr_row_count r \<le> MAX_DECODED_ROWS"
    "dr_column_count r * dr_row_count r \<le> MAX_DECODED_CELLS" "length buffer \<le> HEADER_SIZE + MAX_DECODED_PAYLOAD_SIZE"
    using v unfolding validate_shape_Ok_iff HEADER_SIZE_def by (simp, simp, simp, linarith)
  show "length buffer = HEADER_SIZE + sum_list (map column_size (dr_columns r)) +
      sum_list (map (\<lambda>row. sum_list (map cell_size row)) (dr_rows r))"
    unfolding HEADER_SIZE_def
    using read_n_size[of read_column buffer column_size, OF _ c]
      read_n_size[of "read_row (dr_column_count r)" buffer "\<lambda>row. sum_list (map cell_size row)", OF _ rw]
      read_column_Ok(1) read_row_Ok(1) by fastforce
qed

text \<open>
  C35. The decoder is safe on every byte sequence. It never panics: no index, slice or addition leaves
  the buffer. What it accepts has the declared shape (as many columns and rows as the header says, and
  every row as long as the list of columns) with names in valid UTF-8, respects each of the decoder's
  limits (at most \<open>MAX_DECODED_COLUMNS\<close> columns, \<open>MAX_DECODED_ROWS\<close> rows, \<open>MAX_DECODED_CELLS\<close> cells,
  \<open>MAX_DECODED_PAYLOAD_SIZE\<close> bytes after the header and \<open>MAX_DECODED_CELL_SIZE\<close> bytes in a cell), and
  accounts for every byte of the message: nothing is left over.
\<close>

theorem parse_safe:
  "parse buffer \<noteq> Panic \<and>
   (case parse buffer of
      Ok r \<Rightarrow> length (dr_columns r) = dr_column_count r \<and> length (dr_rows r) = dr_row_count r \<and>
             list_all (\<lambda>c. valid_str (ci_name c)) (dr_columns r) \<and>
             list_all (\<lambda>row. length row = dr_column_count r) (dr_rows r) \<and>
             dr_column_count r \<le> MAX_DECODED_COLUMNS \<and> dr_row_count r \<le> MAX_DECODED_ROWS \<and>
             dr_column_count r * dr_row_count r \<le> MAX_DECODED_CELLS \<and>
             length buffer \<le> HEADER_SIZE + MAX_DECODED_PAYLOAD_SIZE \<and>
             list_all (list_all (\<lambda>c. case c of None \<Rightarrow> True | Some d \<Rightarrow> length d \<le> MAX_DECODED_CELL_SIZE)) (dr_rows r) \<and>
             length buffer = HEADER_SIZE + sum_list (map column_size (dr_columns r)) +
               sum_list (map (\<lambda>row. sum_list (map cell_size row)) (dr_rows r))
    | _ \<Rightarrow> True)"
proof (cases "parse buffer")
  case (Ok r)
  have "list_all (\<lambda>row. length row = dr_column_count r) (dr_rows r)"
    "list_all (list_all (\<lambda>c. case c of None \<Rightarrow> True | Some d \<Rightarrow> length d \<le> MAX_DECODED_CELL_SIZE)) (dr_rows r)"
    using parse_Ok_shape(4)[OF Ok] by (auto simp: list_all_iff wf_cell_def)
  with parse_Ok_shape[OF Ok] Ok show ?thesis by simp
qed (use parse_no_panic[of buffer] in simp_all)

section \<open>Footers\<close>

lemma serialize_Ok: "wf_param p \<Longrightarrow> serialize p = Ok (param_bytes p)"
  by (simp add: serialize_def try_serialize_Ok wf_param_payload)

lemma output_footer_layout:
  assumes "list_all wf_param ps" "ps \<noteq> []" "length ps < 2 ^ 32"
  shows "try_append_output_footer base ps =
    Ok (base @ OUTPUT_FOOTER_MAGIC @ u32_le (of_nat (length ps)) @ concat (map param_bytes ps))"
proof -
  have "omapM serialize ps = (Ok (map param_bytes ps) :: bytes list eresult)"
    using assms(1) by (intro omapM_Ok_map) (simp add: serialize_Ok list_all_iff)
  with assms show ?thesis by (simp add: try_append_output_footer_def checked_Ok)
qed

text \<open>
  The \<open>OUT1\<close> footer carries the output parameters in the request encoding: after the message,
  the magic and the count, the parameter decoder reads back exactly the values that were appended.
\<close>

theorem output_footer_roundtrip:
  assumes "list_all wf_param ps" and "ps \<noteq> []" and "length ps \<le> MAX_PARAM_COUNT"
  shows "\<exists>out. try_append_output_footer base ps = Ok out \<and> take (length base) out = base \<and>
    take 4 (drop (length base) out) = OUTPUT_FOOTER_MAGIC \<and>
    deserialize_params (drop (length base + 8) out) = Ok ps"
proof -
  have "length ps < 2 ^ 32" using assms(3) by (simp add: MAX_PARAM_COUNT_def)
  note out = output_footer_layout[OF assms(1,2) this, of base]
  have "deserialize_params (concat (map param_bytes ps)) = Ok ps"
    using params_loop_roundtrip[of ps "[]" "[]"] assms by (simp add: deserialize_params_def)
  then show ?thesis by (simp add: out OUTPUT_FOOTER_MAGIC_def)
qed

theorem output_footer_roundtrip_witness:
  "\<exists>out. try_append_output_footer [1, 2] [PV_BigInt 9] = Ok out \<and> take 2 out = [1, 2] \<and>
    take 4 (drop 2 out) = OUTPUT_FOOTER_MAGIC \<and> deserialize_params (drop 10 out) = Ok [PV_BigInt 9]"
  using output_footer_roundtrip[of "[PV_BigInt 9]" "[1, 2]"]
  by (simp add: MAX_PARAM_COUNT_def numeral_2_eq_2)

text \<open>
  \<open>try_append_output_footer\<close> is declared fallible but is not: an output value above the
  payload limit does not give an \<open>EncodeError\<close>, it panics, since the footer goes through
  \<open>ParamValue::serialize\<close> and its \<open>expect\<close> instead of \<open>try_serialize\<close>.
\<close>

theorem output_footer_oversized_panics:
  assumes "list_all wf_param ps" and "length v > MAX_PARAM_VALUE_PAYLOAD_LEN" and "length ps < 2 ^ 16"
  shows "try_serialize (PV_Binary v) \<noteq> Panic \<and> try_append_output_footer base (ps @ [PV_Binary v]) = Panic"
proof -
  have "serialize (PV_Binary v) = (Panic :: bytes eresult)"
    using assms(2) by (simp add: serialize_def checked_payload_len_def)
  moreover have "omapM serialize (ps @ [PV_Binary v]) = (Panic :: bytes list eresult)"
    using assms(1) calculation by (induction ps) (simp_all add: serialize_Ok)
  ultimately show ?thesis
    using assms(3) try_serialize_not_Panic by (simp add: try_append_output_footer_def checked_Ok)
qed

theorem output_footer_oversized_panics_witness:
  "try_append_output_footer [] [PV_Binary (replicate (16 * 1024 * 1024 + 1) 0)] = Panic"
  using output_footer_oversized_panics[of "[]" "replicate (16 * 1024 * 1024 + 1) 0" "[]"]
  by (simp add: MAX_PARAM_VALUE_PAYLOAD_LEN_def)

end
