(* ===== verification/Multi_Result.thy ===== *)
theory Multi_Result
  imports Row_Codec
begin

text \<open>
  \<open>protocol/multi_result.rs\<close>: the envelope for several result sets and row counts, version 2
  (with magic, optionally followed by an \<open>OUT1\<close> or \<open>RC1\<close> footer) and the legacy version 1.
\<close>

section \<open>Data and operations\<close>

definition TAG_RESULT_SET :: u8 where "TAG_RESULT_SET = 0"
definition TAG_ROW_COUNT :: u8 where "TAG_ROW_COUNT = 1"
definition MULTI_RESULT_MAGIC :: u32 where "MULTI_RESULT_MAGIC = 0x544C554D"
definition MULTI_RESULT_VERSION :: u16 where "MULTI_RESULT_VERSION = 2"
definition HEADER_V2_LEN :: usize where "HEADER_V2_LEN = 4 + 2 + 2 + 4"
definition MIN_ITEM_LEN :: usize where "MIN_ITEM_LEN = 1 + 4"
definition MAX_MULTI_RESULT_ITEMS :: usize where "MAX_MULTI_RESULT_ITEMS = 16384"
definition MAX_MULTI_RESULT_PAYLOAD :: usize where "MAX_MULTI_RESULT_PAYLOAD = 256 * 1024 * 1024"

lemmas multi_consts =
  TAG_RESULT_SET_def TAG_ROW_COUNT_def MULTI_RESULT_MAGIC_def MULTI_RESULT_VERSION_def HEADER_V2_LEN_def
  MIN_ITEM_LEN_def MAX_MULTI_RESULT_ITEMS_def MAX_MULTI_RESULT_PAYLOAD_def

datatype multi_result_item = MR_ResultSet bytes | MR_RowCount i64

fun encode_item :: "multi_result_item \<Rightarrow> bytes" where
  "encode_item (MR_ResultSet buf) = TAG_RESULT_SET # u32_le (of_nat (length buf)) @ buf"
| "encode_item (MR_RowCount n) = TAG_ROW_COUNT # u32_le 8 @ u64_le n"

definition encode_items :: "multi_result_item list \<Rightarrow> bytes \<Rightarrow> bytes" where
  "encode_items items out = foldl (\<lambda>out item. out @ encode_item item) out items"

definition estimate_payload_size :: "multi_result_item list \<Rightarrow> usize" where
  "estimate_payload_size items =
     sum_list (map (\<lambda>i. case i of MR_ResultSet b \<Rightarrow> 1 + 4 + length b | MR_RowCount _ \<Rightarrow> 1 + 4 + 8) items)"

definition encode_multi :: "multi_result_item list \<Rightarrow> bytes" where
  "encode_multi items =
     encode_items items
       (u32_le MULTI_RESULT_MAGIC @ u16_le MULTI_RESULT_VERSION @ u16_le 0 @ u32_le (of_nat (length items)))"

definition encode_multi_v1 :: "multi_result_item list \<Rightarrow> bytes" where
  "encode_multi_v1 items = encode_items items (u32_le (of_nat (length items)))"

definition is_known_footer :: "bytes \<Rightarrow> bool" where
  "is_known_footer data \<longleftrightarrow>
     starts_with data OUTPUT_FOOTER_MAGIC \<or> starts_with data REF_CURSOR_FOOTER_MAGIC"

definition validate_item_count :: "bytes \<Rightarrow> usize \<Rightarrow> usize \<Rightarrow> unit result" where
  "validate_item_count data offset count =
     (if count > MAX_MULTI_RESULT_ITEMS then
        Err (ValidationError (''Multi-result item count '' @ show_nat count @ '' exceeds limit '' @
               show_nat MAX_MULTI_RESULT_ITEMS))
      else
        obind (ok_or (usize_checked_mul count MIN_ITEM_LEN) (ValidationError ''Multi-result count overflow'')) (\<lambda>min_required.
        if min_required > length data - offset then
          Err (ValidationError ''Multi-result count exceeds available payload'')
        else Ok ()))"

text \<open>The body of the item loop.\<close>

definition read_item :: "bytes \<Rightarrow> usize \<Rightarrow> (multi_result_item \<times> usize) result" where
  "read_item data offset =
     (if offset \<ge> length data then Err (ValidationError ''Multi-result buffer truncated at item'')
      else
        obind (idx data offset) (\<lambda>tag.
        if offset + 1 + 4 > length data then
          Err (ValidationError ''Multi-result buffer truncated at item length'')
        else
          obind (array_at 4 data (offset + 1)) (\<lambda>lb.
          let len = unat (from_le lb :: u32) in
          if len > MAX_MULTI_RESULT_PAYLOAD then
            Err (ValidationError (''Multi-result item payload '' @ show_nat len @ '' exceeds limit '' @
                   show_nat MAX_MULTI_RESULT_PAYLOAD))
          else
            obind (ok_or (usize_checked_add (offset + 5) len)
                     (ValidationError ''Multi-result payload offset overflow'')) (\<lambda>stop.
            if stop > length data then
              Err (ValidationError ''Multi-result buffer truncated at item payload'')
            else
              obind (range_of data (offset + 5) stop) (\<lambda>payload.
              if tag = TAG_RESULT_SET then Ok (MR_ResultSet payload, stop)
              else if tag = TAG_ROW_COUNT then
                (if len \<noteq> 8 then Err (ValidationError ''RowCount item expected 8-byte payload'')
                 else obind (array_at 8 payload 0) (\<lambda>nb. Ok (MR_RowCount (from_le nb), stop)))
              else
                Err (ValidationError (''Unknown multi-result item tag: '' @ show_nat (unat tag))))))))"

definition decode_items :: "bytes \<Rightarrow> usize \<Rightarrow> usize \<Rightarrow> bool \<Rightarrow> multi_result_item list result" where
  "decode_items data offset count reject_trailing =
     obind (validate_item_count data offset count) (\<lambda>_.
     obind (read_n read_item data count offset) (\<lambda>(out, offset).
     if reject_trailing \<and> offset \<noteq> length data then
       obind (range_of data offset (length data)) (\<lambda>tail.
       if \<not> is_known_footer tail then
         Err (ValidationError ''Multi-result v2 buffer has trailing bytes'')
       else Ok out)
     else Ok out))"

definition decode_multi_v2 :: "bytes \<Rightarrow> multi_result_item list result" where
  "decode_multi_v2 data =
     (if length data < HEADER_V2_LEN then
        Err (ValidationError ''Multi-result v2 buffer too short for header'')
      else
        obind (array_at 2 data 4) (\<lambda>vb.
        let version = from_le vb :: u16 in
        if version \<noteq> MULTI_RESULT_VERSION then
          Err (ValidationError (''Unsupported multi-result version: '' @ show_nat (unat version) @
                 '' (expected '' @ show_nat (unat MULTI_RESULT_VERSION) @ '')''))
        else
          obind (array_at 4 data 8) (\<lambda>cb.
          decode_items data HEADER_V2_LEN (unat (from_le cb :: u32)) True)))"

definition decode_multi_v1 :: "bytes \<Rightarrow> multi_result_item list result" where
  "decode_multi_v1 data =
     (if length data < 4 then Err (ValidationError ''Multi-result buffer too short for count'')
      else obind (array_at 4 data 0) (\<lambda>cb. decode_items data 4 (unat (from_le cb :: u32)) False))"

definition decode_multi :: "bytes \<Rightarrow> multi_result_item list result" where
  "decode_multi data =
     (if length data \<ge> 4 \<and> (from_le (take 4 data) :: u32) = MULTI_RESULT_MAGIC
      then decode_multi_v2 data else decode_multi_v1 data)"

section \<open>Properties\<close>

fun wf_item :: "multi_result_item \<Rightarrow> bool" where
  "wf_item (MR_ResultSet b) \<longleftrightarrow> length b \<le> MAX_MULTI_RESULT_PAYLOAD"
| "wf_item (MR_RowCount n) \<longleftrightarrow> True"

lemma encode_items_concat: "encode_items items out = out @ concat (map encode_item items)"
  unfolding encode_items_def by (induction items arbitrary: out) auto

lemma length_encode_item: "5 \<le> length (encode_item i)"
  by (cases i) auto

lemma length_encoded_items: "5 * length items \<le> length (concat (map encode_item items))"
  by (induction items) (auto intro: add_mono length_encode_item)

text \<open>The capacity reserved by the encoder is exactly the number of bytes it writes.\<close>

lemma estimate_payload_size_exact:
  "length (concat (map encode_item items)) = estimate_payload_size items"
  by (induction items) (auto simp: estimate_payload_size_def split: multi_result_item.splits)

interpretation item: offset_codec read_item encode_item wf_item
proof
  fix off data assume "off \<le> length (data :: bytes)"
  show "read_item data off \<noteq> Panic"
    by (auto simp: read_item_def Let_def usize_checked_add_def)
next
  fix off data x off' assume "read_item data off = Ok (x, off')"
  then show "off \<le> off' \<and> off' \<le> length data"
    by (auto simp: read_item_def Let_def usize_checked_add_def split: if_splits)
next
  fix x pre post assume wf: "wf_item x" and fits: "length (pre @ encode_item x @ post) \<le> usize_max"
  show "read_item (pre @ encode_item x @ post) (length pre) = Ok (x, length pre + length (encode_item x))"
  proof (cases x)
    case (MR_ResultSet b)
    let ?data = "pre @ encode_item x @ post"
    have "take 4 (drop (length pre + 1) ?data) = u32_le (of_nat (length b))"
      "take (length b) (drop (length pre + 5) ?data) = b" "?data ! length pre = TAG_RESULT_SET"
      by (simp_all add: MR_ResultSet)
    moreover have "unat (of_nat (length b) :: u32) = length b"
      using wf MR_ResultSet by (simp add: MAX_MULTI_RESULT_PAYLOAD_def)
    ultimately show ?thesis
      using wf fits MR_ResultSet by (simp add: read_item_def Let_def usize_checked_add_def)
  next
    case (MR_RowCount n)
    let ?data = "pre @ encode_item x @ post"
    have "take 4 (drop (length pre + 1) ?data) = u32_le 8"
      "take 8 (drop (length pre + 5) ?data) = u64_le n" "?data ! length pre = TAG_ROW_COUNT"
      by (simp_all add: MR_RowCount)
    then show ?thesis
      using fits MR_RowCount by (simp add: read_item_def Let_def usize_checked_add_def multi_consts)
  qed
qed

lemma validate_item_count_not_Panic [simp]: "validate_item_count d off c \<noteq> Panic"
  by (auto simp: validate_item_count_def)

lemma decode_items_roundtrip:
  assumes "list_all wf_item items" "length items \<le> MAX_MULTI_RESULT_ITEMS"
    and "length (pre @ concat (map encode_item items) @ post) \<le> usize_max"
    and "tr \<Longrightarrow> post = [] \<or> is_known_footer post"
  shows "decode_items (pre @ concat (map encode_item items) @ post) (length pre) (length items) tr = Ok items"
proof -
  have "validate_item_count (pre @ concat (map encode_item items) @ post) (length pre) (length items) = Ok ()"
    using assms(2) length_encoded_items[of items]
    by (simp add: validate_item_count_def usize_checked_mul_def multi_consts)
  moreover note item.read_n_enc[OF assms(1,3)]
  ultimately show ?thesis using assms(4) by (auto simp: decode_items_def)
qed

lemma decode_items_no_panic:
  assumes "off \<le> length data"
  shows "decode_items data off n tr \<noteq> Panic"
proof (cases "read_n read_item data n off")
  case (Ok p)
  obtain xs o1 where p: "p = (xs, o1)" by (cases p)
  with Ok item.read_n_bounds[OF assms] have "o1 \<le> length data" by blast
  with Ok p show ?thesis by (simp add: decode_items_def)
qed (use item.read_n_no_panic[OF assms] in \<open>simp_all add: decode_items_def\<close>)

lemma decode_encode_multi:
  assumes "list_all wf_item items" and "length items \<le> MAX_MULTI_RESULT_ITEMS"
    and "footer = [] \<or> is_known_footer footer"
    and "length (encode_multi items @ footer) \<le> usize_max"
  shows "decode_multi (encode_multi items @ footer) = Ok items"
proof -
  let ?hdr = "u32_le MULTI_RESULT_MAGIC @ u16_le MULTI_RESULT_VERSION @ u16_le 0 @ u32_le (of_nat (length items))"
  let ?body = "concat (map encode_item items)"
  have msg: "encode_multi items @ footer = ?hdr @ ?body @ footer"
    by (simp add: encode_multi_def encode_items_concat)
  have cnt: "unat (of_nat (length items) :: u32) = length items"
    using assms(2) by (simp add: multi_consts)
  have "length (?hdr @ ?body @ footer) \<le> usize_max" using assms(4) unfolding msg .
  from decode_items_roundtrip[OF assms(1,2) this, of True] assms(3)
  have "decode_items (?hdr @ ?body @ footer) 12 (length items) True = Ok items" by simp
  then show ?thesis
    unfolding msg
    by (simp add: decode_multi_def decode_multi_v2_def Let_def HEADER_V2_LEN_def cnt)
qed

text \<open>
  Every envelope the engine emits decodes to the items it was built from, also when an
  \<open>OUT1\<close> or \<open>RC1\<close> footer follows it.
\<close>

theorem multi_result_roundtrip:
  assumes "list_all wf_item items" and "length items \<le> MAX_MULTI_RESULT_ITEMS"
    and "footer = [] \<or> is_known_footer footer"
    and "length (encode_multi items @ footer) \<le> usize_max"
  shows "decode_multi (encode_multi items @ footer) = Ok items"
  using assms by (rule decode_encode_multi)

theorem multi_result_roundtrip_witness:
  "decode_multi (encode_multi [MR_RowCount (- 1), MR_ResultSet [1, 2, 3]] @ OUTPUT_FOOTER_MAGIC @ u32_le 0) =
     Ok [MR_RowCount (- 1), MR_ResultSet [1, 2, 3]]"
  by (rule multi_result_roundtrip)
    (simp_all add: multi_consts is_known_footer_def starts_with_iff encode_multi_def encode_items_concat
      OUTPUT_FOOTER_MAGIC_def)

text \<open>
  The sniffing of the framing is unambiguous for legacy buffers: a version 1 envelope within
  the item limit is never mistaken for version 2, and decodes to its items.
\<close>

theorem multi_result_v1_compatible:
  assumes "list_all wf_item items" and "length items \<le> MAX_MULTI_RESULT_ITEMS"
    and "length (encode_multi_v1 items) \<le> usize_max"
  shows "decode_multi (encode_multi_v1 items) = Ok items"
proof -
  let ?hdr = "u32_le (of_nat (length items))" and ?body = "concat (map encode_item items)"
  have msg: "encode_multi_v1 items = ?hdr @ ?body @ []"
    by (simp add: encode_multi_v1_def encode_items_concat)
  have cnt: "unat (of_nat (length items) :: u32) = length items"
    using assms(2) by (simp add: multi_consts)
  have "of_nat (length items) \<noteq> MULTI_RESULT_MAGIC"
  proof
    assume "of_nat (length items) = MULTI_RESULT_MAGIC"
    then have "length items = unat MULTI_RESULT_MAGIC" using cnt by metis
    with assms(2) show False by (simp add: multi_consts)
  qed
  moreover have "length (?hdr @ ?body @ []) \<le> usize_max" using assms(3) unfolding msg .
  from decode_items_roundtrip[OF assms(1,2) this, of False]
  have "decode_items (?hdr @ ?body @ []) 4 (length items) False = Ok items" by simp
  ultimately show ?thesis
    unfolding msg by (simp add: decode_multi_def decode_multi_v1_def cnt)
qed

theorem multi_result_v1_compatible_witness:
  "decode_multi (encode_multi_v1 [MR_ResultSet [], MR_RowCount 5]) = Ok [MR_ResultSet [], MR_RowCount 5]"
  by (rule multi_result_v1_compatible)
    (simp_all add: multi_consts encode_multi_v1_def encode_items_concat)

text \<open>
  Decoding any bytes never panics, and an accepted envelope has at most
  \<open>MAX_MULTI_RESULT_ITEMS\<close> items, so a forged count cannot force a large allocation.
\<close>

theorem decode_multi_safe:
  "decode_multi data \<noteq> Panic \<and>
   (case decode_multi data of Ok items \<Rightarrow> length items \<le> MAX_MULTI_RESULT_ITEMS | _ \<Rightarrow> True)"
proof -
  have "decode_multi data \<noteq> Panic"
    using decode_items_no_panic[of 12 data] decode_items_no_panic[of 4 data]
    by (auto simp: decode_multi_def decode_multi_v2_def decode_multi_v1_def Let_def HEADER_V2_LEN_def)
  moreover have "length items \<le> MAX_MULTI_RESULT_ITEMS" if "decode_items data off n tr = Ok items" for off n tr items
    using that read_n_length[of read_item data]
    by (fastforce simp: decode_items_def validate_item_count_def split: if_splits prod.splits)
  ultimately show ?thesis
    by (auto simp: decode_multi_def decode_multi_v2_def decode_multi_v1_def Let_def split: outcome.splits if_splits)
qed

end
