(* ===== verification/Bulk_Insert.thy ===== *)
theory Bulk_Insert
  imports Params
begin

text \<open>
  \<open>protocol/bulk_insert.rs\<close>: the column-major payload of a bulk insert, its parser with the limits
  that bound every allocation, its serializer, and the packed null bitmaps.
\<close>

section \<open>Data\<close>

definition MAX_BULK_COLUMNS :: usize where "MAX_BULK_COLUMNS = 4096"
definition MAX_BULK_ROWS :: usize where "MAX_BULK_ROWS = 10000000"
definition MAX_BULK_CELL_LEN :: usize where "MAX_BULK_CELL_LEN = 16 * 1024 * 1024"

lemmas bulk_limits = MAX_BULK_COLUMNS_def MAX_BULK_ROWS_def MAX_BULK_CELL_LEN_def

datatype bulk_column_type = BT_I32 | BT_I64 | BT_Text | BT_Decimal | BT_Binary | BT_Timestamp

definition from_tag :: "u8 \<Rightarrow> bulk_column_type result" where
  "from_tag tag =
     (if tag = 0 then Ok BT_I32 else if tag = 1 then Ok BT_I64 else if tag = 2 then Ok BT_Text
      else if tag = 3 then Ok BT_Decimal else if tag = 4 then Ok BT_Binary
      else if tag = 5 then Ok BT_Timestamp
      else Err (ValidationError (''Unknown bulk column type tag: '' @ show_nat (unat tag))))"

fun to_tag :: "bulk_column_type \<Rightarrow> u8" where
  "to_tag BT_I32 = 0"
| "to_tag BT_I64 = 1"
| "to_tag BT_Text = 2"
| "to_tag BT_Decimal = 3"
| "to_tag BT_Binary = 4"
| "to_tag BT_Timestamp = 5"

record bulk_column_spec =
  bs_name :: string
  bs_col_type :: bulk_column_type
  bs_nullable :: bool
  bs_max_len :: usize

record bulk_timestamp =
  ts_year :: i16
  ts_month :: u16
  ts_day :: u16
  ts_hour :: u16
  ts_minute :: u16
  ts_second :: u16
  ts_fraction :: u32

datatype bulk_column_data =
    BD_I32 "i32 list" "bytes option"
  | BD_I64 "i64 list" "bytes option"
  | BD_Text "bytes list" usize "bytes option"
  | BD_Binary "bytes list" usize "bytes option"
  | BD_Timestamp "bulk_timestamp list" "bytes option"

record bulk_insert_payload =
  bp_table :: string
  bp_columns :: "bulk_column_spec list"
  bp_row_count :: u32
  bp_column_data :: "bulk_column_data list"

section \<open>Reading\<close>

definition read_u32_le :: "bytes \<Rightarrow> usize \<Rightarrow> (u32 \<times> usize) result" where
  "read_u32_le data offset =
     (if length data - offset < 4 then Err (ValidationError ''Bulk insert payload truncated (u32)'')
      else obind (array_at 4 data offset) (\<lambda>b. Ok (from_le b, offset + 4)))"

definition read_bytes :: "usize \<Rightarrow> bytes \<Rightarrow> usize \<Rightarrow> (bytes \<times> usize) result" where
  "read_bytes len data offset =
     (if length data - offset < len then Err (ValidationError ''Bulk insert payload truncated (bytes)'')
      else obind (range_of data offset (offset + len)) (\<lambda>s. Ok (s, offset + len)))"

definition null_bitmap_size :: "usize \<Rightarrow> usize" where
  "null_bitmap_size n = (n + 7) div 8"

text \<open>\<open>bitmap[row / 8] & (1u8 << (row % 8)) != 0\<close>\<close>

definition is_null :: "bytes \<Rightarrow> usize \<Rightarrow> bool" where
  "is_null bitmap row =
     (if row div 8 \<ge> length bitmap then False
      else bitmap ! (row div 8) AND push_bit (row mod 8) 1 \<noteq> 0)"

definition is_null_strict :: "bytes \<Rightarrow> usize \<Rightarrow> usize \<Rightarrow> bool result" where
  "is_null_strict bitmap row row_count =
     (if row \<ge> row_count then
        Err (MalformedPayload (''row index '' @ show_nat row @ '' out of range (row_count='' @
               show_nat row_count @ '')''))
      else if row div 8 \<ge> length bitmap then
        Err (MalformedPayload (''null bitmap truncated: byte index '' @ show_nat (row div 8) @
               '' out of range (len='' @ show_nat (length bitmap) @ '')''))
      else obind (idx bitmap (row div 8)) (\<lambda>b. Ok (b AND push_bit (row mod 8) 1 \<noteq> 0)))"

definition read_null_bitmap :: "bool \<Rightarrow> usize \<Rightarrow> bytes \<Rightarrow> usize \<Rightarrow> (bytes option \<times> usize) result" where
  "read_null_bitmap nullable row_count data offset =
     (if \<not> nullable then Ok (None, offset)
      else
        obind (read_bytes (null_bitmap_size row_count) data offset) (\<lambda>(bytes, offset).
        if length bytes \<noteq> null_bitmap_size row_count then
          Err (MalformedPayload (''null bitmap length mismatch: expected '' @
                 show_nat (null_bitmap_size row_count) @ '', got '' @ show_nat (length bytes)))
        else Ok (Some bytes, offset)))"

text \<open>The bodies of the row loops of \<open>parse_column_data\<close>.\<close>

definition read_i64 :: "bytes \<Rightarrow> usize \<Rightarrow> (i64 \<times> usize) result" where
  "read_i64 data offset =
     (if length data - offset < 8 then Err (ValidationError ''Bulk insert payload truncated (i64)'')
      else obind (array_at 8 data offset) (\<lambda>b. Ok (from_le b, offset + 8)))"

text \<open>\<open>v.iter().position(|&b| b == 0)\<close> and \<open>truncate\<close>: the cell ends at its first zero byte.\<close>

definition trim_at_nul :: "bytes \<Rightarrow> bytes" where
  "trim_at_nul v = takeWhile (\<lambda>b. b \<noteq> 0) v"

definition read_fixed :: "usize \<Rightarrow> bytes \<Rightarrow> usize \<Rightarrow> (bytes \<times> usize) result" where
  "read_fixed max_len data offset =
     obind (read_bytes max_len data offset) (\<lambda>(raw, offset). Ok (trim_at_nul raw, offset))"

definition read_timestamp :: "bytes \<Rightarrow> usize \<Rightarrow> (bulk_timestamp \<times> usize) result" where
  "read_timestamp data offset =
     (if length data - offset < 16 then
        Err (ValidationError ''Bulk insert payload truncated (timestamp)'')
      else
        obind (array_at 2 data offset) (\<lambda>y.
        obind (array_at 2 data (offset + 2)) (\<lambda>mo.
        obind (array_at 2 data (offset + 4)) (\<lambda>d.
        obind (array_at 2 data (offset + 6)) (\<lambda>h.
        obind (array_at 2 data (offset + 8)) (\<lambda>mi.
        obind (array_at 2 data (offset + 10)) (\<lambda>s.
        obind (array_at 4 data (offset + 12)) (\<lambda>f.
        Ok (\<lparr>ts_year = from_le y, ts_month = from_le mo, ts_day = from_le d, ts_hour = from_le h,
             ts_minute = from_le mi, ts_second = from_le s, ts_fraction = from_le f\<rparr>, offset + 16)))))))))"

definition parse_column_data ::
  "bytes \<Rightarrow> usize \<Rightarrow> bulk_column_spec \<Rightarrow> usize \<Rightarrow> (bulk_column_data \<times> usize) result"
where
  "parse_column_data data start spec row_count =
     obind (read_null_bitmap (bs_nullable spec) row_count data start) (\<lambda>(null_bitmap, o1).
     case bs_col_type spec of
       BT_I32 \<Rightarrow> obind (read_n read_u32_le data row_count o1)
                  (\<lambda>(values, o2). Ok (BD_I32 values null_bitmap, o2 - start))
     | BT_I64 \<Rightarrow> obind (read_n read_i64 data row_count o1)
                  (\<lambda>(values, o2). Ok (BD_I64 values null_bitmap, o2 - start))
     | BT_Text \<Rightarrow> let max_len = max (bs_max_len spec) 1 in
                  obind (read_n (read_fixed max_len) data row_count o1)
                  (\<lambda>(rows, o2). Ok (BD_Text rows max_len null_bitmap, o2 - start))
     | BT_Decimal \<Rightarrow> let max_len = max (bs_max_len spec) 1 in
                  obind (read_n (read_fixed max_len) data row_count o1)
                  (\<lambda>(rows, o2). Ok (BD_Text rows max_len null_bitmap, o2 - start))
     | BT_Binary \<Rightarrow> let max_len = max (bs_max_len spec) 1 in
                  obind (read_n (read_fixed max_len) data row_count o1)
                  (\<lambda>(rows, o2). Ok (BD_Binary rows max_len null_bitmap, o2 - start))
     | BT_Timestamp \<Rightarrow> obind (read_n read_timestamp data row_count o1)
                  (\<lambda>(values, o2). Ok (BD_Timestamp values null_bitmap, o2 - start)))"

text \<open>The body of the column specification loop, and the column data loop.\<close>

definition read_spec :: "bytes \<Rightarrow> usize \<Rightarrow> (bulk_column_spec \<times> usize) result" where
  "read_spec data o0 =
     obind (read_u32_le data o0) (\<lambda>(name_len, o1).
     obind (read_bytes (unat name_len) data o1) (\<lambda>(name_bytes, o2).
     obind (map_err (\<lambda>_. ValidationError ''Bulk insert column name invalid UTF-8'') (from_utf8 name_bytes)) (\<lambda>name.
     if length data \<le> o2 then Err (ValidationError ''Bulk insert payload truncated (column spec)'')
     else
       obind (idx data o2) (\<lambda>type_tag.
       if length data \<le> o2 + 1 then Err (ValidationError ''Bulk insert payload truncated (nullable)'')
       else
         obind (idx data (o2 + 1)) (\<lambda>nb.
         obind (read_u32_le data (o2 + 2)) (\<lambda>(ml, o3).
         let max_len = unat ml in
         if max_len > MAX_BULK_CELL_LEN then
           Err (ResourceLimitReached (''max_len '' @ show_nat max_len @ '' exceeds MAX_BULK_CELL_LEN='' @
                  show_nat MAX_BULK_CELL_LEN))
         else
           obind (from_tag type_tag) (\<lambda>col_type.
           Ok (\<lparr>bs_name = name, bs_col_type = col_type, bs_nullable = (nb \<noteq> 0), bs_max_len = max_len\<rparr>, o3))))))))"

fun parse_all_columns ::
  "bytes \<Rightarrow> usize \<Rightarrow> bulk_column_spec list \<Rightarrow> usize \<Rightarrow> (bulk_column_data list \<times> usize) result"
where
  "parse_all_columns data row_count [] off = Ok ([], off)"
| "parse_all_columns data row_count (spec # specs) off =
     obind (parse_column_data data off spec row_count) (\<lambda>(col, consumed).
     obind (parse_all_columns data row_count specs (off + consumed)) (\<lambda>(cols, off').
     Ok (col # cols, off')))"

definition parse_bulk_insert_payload :: "bytes \<Rightarrow> bulk_insert_payload result" where
  "parse_bulk_insert_payload data =
     obind (read_u32_le data 0) (\<lambda>(table_len, o1).
     obind (read_bytes (unat table_len) data o1) (\<lambda>(table_bytes, o2).
     obind (map_err (\<lambda>_. ValidationError ''Bulk insert table name invalid UTF-8'') (from_utf8 table_bytes)) (\<lambda>table.
     obind (read_u32_le data o2) (\<lambda>(cc, o3).
     let col_count = unat cc in
     if col_count > MAX_BULK_COLUMNS then
       Err (ResourceLimitReached (''column count '' @ show_nat col_count @ '' exceeds MAX_BULK_COLUMNS='' @
              show_nat MAX_BULK_COLUMNS))
     else
       obind (read_n read_spec data col_count o3) (\<lambda>(columns, o4).
       obind (read_u32_le data o4) (\<lambda>(rc, o5).
       let row_count = unat rc in
       if row_count > MAX_BULK_ROWS then
         Err (ResourceLimitReached (''row count '' @ show_nat row_count @ '' exceeds MAX_BULK_ROWS='' @
                show_nat MAX_BULK_ROWS))
       else
         obind (parse_all_columns data row_count columns o5) (\<lambda>(column_data, o6).
         if o6 \<noteq> length data then Err (ValidationError ''Bulk insert payload length mismatch'')
         else Ok \<lparr>bp_table = table, bp_columns = columns, bp_row_count = of_nat row_count,
                  bp_column_data = column_data\<rparr>)))))))"

section \<open>Writing\<close>

definition len_to_u32 :: "usize \<Rightarrow> string \<Rightarrow> u32 result" where
  "len_to_u32 n what =
     ok_or (try_u32 n)
       (MalformedPayload (what @ '' length '' @ show_nat n @ '' does not fit in u32 (max '' @
          show_nat (2 ^ 32 - 1) @ '')''))"

fun bitmap_bytes :: "bytes option \<Rightarrow> bytes" where
  "bitmap_bytes (Some bm) = bm"
| "bitmap_bytes None = []"

text \<open>\<open>row[..len]\<close> with \<open>len = row.len().min(max_len)\<close>, then zeros up to \<open>max_len\<close>.\<close>

definition pad_cell :: "usize \<Rightarrow> bytes \<Rightarrow> bytes" where
  "pad_cell max_len row =
     (let len = min (length row) max_len in take len row @ replicate (max_len - len) 0)"

definition timestamp_bytes :: "bulk_timestamp \<Rightarrow> bytes" where
  "timestamp_bytes t =
     u16_le (ts_year t) @ u16_le (ts_month t) @ u16_le (ts_day t) @ u16_le (ts_hour t) @
     u16_le (ts_minute t) @ u16_le (ts_second t) @ u32_le (ts_fraction t)"

definition serialize_column_data :: "bulk_column_data \<Rightarrow> bulk_column_type \<Rightarrow> bytes result" where
  "serialize_column_data data col_type =
     (let mismatch = Err (ValidationError ''Bulk column data does not match spec'') in
      case data of
        BD_I32 values bm \<Rightarrow>
          if col_type = BT_I32 then Ok (bitmap_bytes bm @ concat (map u32_le values)) else mismatch
      | BD_I64 values bm \<Rightarrow>
          if col_type = BT_I64 then Ok (bitmap_bytes bm @ concat (map u64_le values)) else mismatch
      | BD_Text rows max_len bm \<Rightarrow>
          if col_type = BT_Text \<or> col_type = BT_Decimal
          then Ok (bitmap_bytes bm @ concat (map (pad_cell max_len) rows)) else mismatch
      | BD_Binary rows max_len bm \<Rightarrow>
          if col_type = BT_Binary then Ok (bitmap_bytes bm @ concat (map (pad_cell max_len) rows)) else mismatch
      | BD_Timestamp values bm \<Rightarrow>
          if col_type = BT_Timestamp then Ok (bitmap_bytes bm @ concat (map timestamp_bytes values)) else mismatch)"

definition serialize_spec :: "bulk_column_spec \<Rightarrow> bytes result" where
  "serialize_spec spec =
     obind (len_to_u32 (length (as_bytes (bs_name spec))) ''column name'') (\<lambda>name_len.
     if bs_max_len spec > MAX_BULK_CELL_LEN then
       Err (ResourceLimitReached (''max_len '' @ show_nat (bs_max_len spec) @ '' exceeds MAX_BULK_CELL_LEN='' @
              show_nat MAX_BULK_CELL_LEN))
     else
       obind (len_to_u32 (bs_max_len spec) ''max_len'') (\<lambda>max_len.
       Ok (u32_le name_len @ as_bytes (bs_name spec) @
           [to_tag (bs_col_type spec), if bs_nullable spec then 1 else 0] @ u32_le max_len)))"

definition serialize_bulk_insert_payload :: "bulk_insert_payload \<Rightarrow> bytes result" where
  "serialize_bulk_insert_payload payload =
     (if length (bp_columns payload) > MAX_BULK_COLUMNS then
        Err (ResourceLimitReached (''column count '' @ show_nat (length (bp_columns payload)) @
               '' exceeds MAX_BULK_COLUMNS='' @ show_nat MAX_BULK_COLUMNS))
      else if unat (bp_row_count payload) > MAX_BULK_ROWS then
        Err (ResourceLimitReached (''row count '' @ show_nat (unat (bp_row_count payload)) @
               '' exceeds MAX_BULK_ROWS='' @ show_nat MAX_BULK_ROWS))
      else
        obind (len_to_u32 (length (as_bytes (bp_table payload))) ''table name'') (\<lambda>table_len.
        obind (len_to_u32 (length (bp_columns payload)) ''column count'') (\<lambda>col_count.
        obind (omapM serialize_spec (bp_columns payload)) (\<lambda>specs.
        obind (omapM (\<lambda>(spec, data). serialize_column_data data (bs_col_type spec))
                 (zip (bp_columns payload) (bp_column_data payload))) (\<lambda>cols.
        Ok (u32_le table_len @ as_bytes (bp_table payload) @ u32_le col_count @ concat specs @
            u32_le (bp_row_count payload) @ concat cols))))))"

section \<open>The layout of the wire and the readers of its parts\<close>

definition spec_bytes :: "bulk_column_spec \<Rightarrow> bytes" where
  "spec_bytes spec =
     u32_le (of_nat (length (bs_name spec))) @ as_bytes (bs_name spec) @
     [to_tag (bs_col_type spec), if bs_nullable spec then 1 else 0] @ u32_le (of_nat (bs_max_len spec))"

definition wf_spec :: "bulk_column_spec \<Rightarrow> bool" where
  "wf_spec spec \<longleftrightarrow> valid_str (bs_name spec) \<and> length (bs_name spec) < 2 ^ 32 \<and>
     bs_max_len spec \<le> MAX_BULK_CELL_LEN"

lemma from_tag_to_tag [simp]: "from_tag (to_tag t) = Ok t"
  by (cases t) (simp_all add: from_tag_def)

lemma from_tag_not_Panic [simp]: "from_tag t \<noteq> Panic"
  by (simp add: from_tag_def)

lemma read_u32_le_not_Panic [simp]: "read_u32_le data off \<noteq> Panic"
  by (auto simp: read_u32_le_def)

lemma read_u32_le_Ok_iff [simp]:
  "read_u32_le data off = Ok (v, off') \<longleftrightarrow>
     off + 4 \<le> length data \<and> v = from_le (take 4 (drop off data)) \<and> off' = off + 4"
  by (auto simp: read_u32_le_def)

lemma read_u32_le_Ok [simp]:
  "off + 4 \<le> length data \<Longrightarrow> read_u32_le data off = Ok (from_le (take 4 (drop off data)), off + 4)"
  by simp

lemma read_bytes_not_Panic [simp]: "off \<le> length data \<Longrightarrow> read_bytes n data off \<noteq> Panic"
  by (auto simp: read_bytes_def)

lemma read_bytes_Ok_iff [simp]:
  "read_bytes n data off = Ok (v, off') \<longleftrightarrow>
     off + n \<le> length data \<and> v = take n (drop off data) \<and> off' = off + n"
  by (auto simp: read_bytes_def)

lemma read_bytes_Ok [simp]:
  "off + n \<le> length data \<Longrightarrow> read_bytes n data off = Ok (take n (drop off data), off + n)"
  by simp

interpretation u32c: offset_codec read_u32_le u32_le "\<lambda>_. True"
  by unfold_locales auto

interpretation i64c: offset_codec read_i64 u64_le "\<lambda>_. True"
  by unfold_locales (auto simp: read_i64_def split: if_splits)

interpretation tsc: offset_codec read_timestamp timestamp_bytes "\<lambda>_. True"
proof
  fix off data assume "off \<le> length (data :: bytes)"
  show "read_timestamp data off \<noteq> Panic" by (auto simp: read_timestamp_def)
next
  fix off data x off' assume "read_timestamp data off = Ok (x, off')"
  then show "off \<le> off' \<and> off' \<le> length data" by (auto simp: read_timestamp_def split: if_splits)
next
  fix x pre post
  have "take 2 (drop (length pre) (pre @ timestamp_bytes x @ post)) = u16_le (ts_year x)"
    "take 2 (drop (length pre + 2) (pre @ timestamp_bytes x @ post)) = u16_le (ts_month x)"
    "take 2 (drop (length pre + 4) (pre @ timestamp_bytes x @ post)) = u16_le (ts_day x)"
    "take 2 (drop (length pre + 6) (pre @ timestamp_bytes x @ post)) = u16_le (ts_hour x)"
    "take 2 (drop (length pre + 8) (pre @ timestamp_bytes x @ post)) = u16_le (ts_minute x)"
    "take 2 (drop (length pre + 10) (pre @ timestamp_bytes x @ post)) = u16_le (ts_second x)"
    "take 4 (drop (length pre + 12) (pre @ timestamp_bytes x @ post)) = u32_le (ts_fraction x)"
    by (simp_all add: timestamp_bytes_def)
  moreover have "length (timestamp_bytes x) = 16" by (simp add: timestamp_bytes_def)
  ultimately show "read_timestamp (pre @ timestamp_bytes x @ post) (length pre) =
      Ok (x, length pre + length (timestamp_bytes x))"
    by (simp add: read_timestamp_def)
qed

lemma read_spec_not_Panic: "read_spec data off \<noteq> Panic"
  unfolding read_spec_def Let_def by (intro not_PanicI; (simp (no_asm); fail)?; simp)

lemma read_spec_Ok:
  assumes "read_spec data off = Ok (x, off')"
  shows "off \<le> off' \<and> off' \<le> length data" "bs_max_len x \<le> MAX_BULK_CELL_LEN" "valid_str (bs_name x)"
  using assms by (auto simp: read_spec_def Let_def from_utf8_Ok_iff split: if_splits)

lemma take_as_bytes_length: "take n xs = as_bytes s \<Longrightarrow> length s \<le> n"
  by (metis length_as_bytes length_take min.cobounded2)

lemma read_spec_wf:
  assumes "read_spec data off = Ok (x, off')"
  shows "wf_spec x"
proof -
  have "length (bs_name x) \<le> unat (from_le (take 4 (drop off data)) :: u32)"
    using assms
    by (auto simp: read_spec_def Let_def from_utf8_Ok_iff split: if_splits dest: take_as_bytes_length)
  with unat_u32_less read_spec_Ok[OF assms] show ?thesis
    by (simp add: wf_spec_def le_less_trans)
qed

interpretation spec: offset_codec read_spec spec_bytes wf_spec
proof
  fix off data show "read_spec data off \<noteq> Panic" by (rule read_spec_not_Panic)
next
  fix off data x off' assume "read_spec data off = Ok (x, off')"
  then show "off \<le> off' \<and> off' \<le> length data" by (rule read_spec_Ok)
next
  fix x pre post assume wf: "wf_spec x"
  let ?data = "pre @ spec_bytes x @ post" and ?n = "length (bs_name x)"
  have "take 4 (drop (length pre) ?data) = u32_le (of_nat ?n)"
    "take ?n (drop (length pre + 4) ?data) = as_bytes (bs_name x)"
    "?data ! (length pre + 4 + ?n) = to_tag (bs_col_type x)"
    "?data ! Suc (length pre + 4 + ?n) = (if bs_nullable x then 1 else 0)"
    "take 4 (drop (length pre + 4 + ?n + 2) ?data) = u32_le (of_nat (bs_max_len x))"
    by (simp_all add: spec_bytes_def nth_append)
  moreover have "unat (of_nat ?n :: u32) = ?n" "unat (of_nat (bs_max_len x) :: u32) = bs_max_len x"
    using wf by (simp_all add: wf_spec_def MAX_BULK_CELL_LEN_def)
  moreover have "length (spec_bytes x) = ?n + 10" by (simp add: spec_bytes_def)
  ultimately show "read_spec ?data (length pre) = Ok (x, length pre + length (spec_bytes x))"
    using wf by (simp add: read_spec_def Let_def wf_spec_def)
qed

section \<open>Cells of fixed width\<close>

text \<open>What a cell becomes on the other side: cut to the column width, and at its first zero byte.\<close>

definition norm_cell :: "usize \<Rightarrow> bytes \<Rightarrow> bytes" where
  "norm_cell n row = trim_at_nul (take n row)"

lemma length_pad_cell [simp]: "length (pad_cell n row) = n"
  by (simp add: pad_cell_def Let_def min_def)

lemma trim_pad_cell [simp]: "trim_at_nul (pad_cell n row) = norm_cell n row"
  by (auto simp: pad_cell_def norm_cell_def trim_at_nul_def Let_def min_def takeWhile_append
      intro!: takeWhile_eq_all_conv[THEN iffD2, symmetric])

lemma norm_cell_idem: "length row \<le> n \<Longrightarrow> 0 \<notin> set row \<Longrightarrow> norm_cell n row = row"
  by (auto simp: norm_cell_def trim_at_nul_def takeWhile_eq_all_conv)

lemma trim_at_nul_props: "length (trim_at_nul v) \<le> length v" "0 \<notin> set (trim_at_nul v)"
  by (auto simp: trim_at_nul_def length_takeWhile_le dest: set_takeWhileD)

lemma read_fixed_pad:
  "read_fixed n (pre @ pad_cell n row @ post) (length pre) = Ok (norm_cell n row, length pre + length (pad_cell n row))"
  by (simp add: read_fixed_def)

lemma read_fixed_loop:
  "length (pre @ concat (map (pad_cell n) rows) @ post) \<le> usize_max \<Longrightarrow>
   read_n (read_fixed n) (pre @ concat (map (pad_cell n) rows) @ post) (length rows) (length pre) =
     Ok (map (norm_cell n) rows, length pre + length (concat (map (pad_cell n) rows)))"
  by (rule read_n_norm[where P = "\<lambda>_. True"]) (simp_all add: read_fixed_pad list_all_iff)

lemma offset_reader_fixed: "offset_reader (read_fixed n)"
  by unfold_locales (auto simp: read_fixed_def)

lemma read_fixed_cell: "read_fixed n data off = Ok (c, off') \<Longrightarrow> length c \<le> n \<and> 0 \<notin> set c"
  using trim_at_nul_props[of "take n (drop off data)"] by (auto simp: read_fixed_def)

section \<open>Columns\<close>

fun col_bytes :: "bulk_column_data \<Rightarrow> bytes" where
  "col_bytes (BD_I32 vs bm) = bitmap_bytes bm @ concat (map u32_le vs)"
| "col_bytes (BD_I64 vs bm) = bitmap_bytes bm @ concat (map u64_le vs)"
| "col_bytes (BD_Text rows n bm) = bitmap_bytes bm @ concat (map (pad_cell n) rows)"
| "col_bytes (BD_Binary rows n bm) = bitmap_bytes bm @ concat (map (pad_cell n) rows)"
| "col_bytes (BD_Timestamp vs bm) = bitmap_bytes bm @ concat (map timestamp_bytes vs)"

fun norm_col :: "bulk_column_data \<Rightarrow> bulk_column_data" where
  "norm_col (BD_Text rows n bm) = BD_Text (map (norm_cell n) rows) n bm"
| "norm_col (BD_Binary rows n bm) = BD_Binary (map (norm_cell n) rows) n bm"
| "norm_col d = d"

definition wf_bitmap :: "bool \<Rightarrow> usize \<Rightarrow> bytes option \<Rightarrow> bool" where
  "wf_bitmap nullable rc bm =
     (case bm of None \<Rightarrow> \<not> nullable | Some b \<Rightarrow> nullable \<and> length b = null_bitmap_size rc)"

text \<open>The column agrees with its specification: type, width, one entry per row, and a bitmap of the right size.\<close>

fun wf_col :: "usize \<Rightarrow> bulk_column_spec \<Rightarrow> bulk_column_data \<Rightarrow> bool" where
  "wf_col rc spec (BD_I32 vs bm) \<longleftrightarrow>
     bs_col_type spec = BT_I32 \<and> length vs = rc \<and> wf_bitmap (bs_nullable spec) rc bm"
| "wf_col rc spec (BD_I64 vs bm) \<longleftrightarrow>
     bs_col_type spec = BT_I64 \<and> length vs = rc \<and> wf_bitmap (bs_nullable spec) rc bm"
| "wf_col rc spec (BD_Text rows n bm) \<longleftrightarrow>
     bs_col_type spec \<in> {BT_Text, BT_Decimal} \<and> length rows = rc \<and> n = max (bs_max_len spec) 1 \<and>
     wf_bitmap (bs_nullable spec) rc bm"
| "wf_col rc spec (BD_Binary rows n bm) \<longleftrightarrow>
     bs_col_type spec = BT_Binary \<and> length rows = rc \<and> n = max (bs_max_len spec) 1 \<and>
     wf_bitmap (bs_nullable spec) rc bm"
| "wf_col rc spec (BD_Timestamp vs bm) \<longleftrightarrow>
     bs_col_type spec = BT_Timestamp \<and> length vs = rc \<and> wf_bitmap (bs_nullable spec) rc bm"

lemma wf_col_serialize:
  "wf_col rc spec d \<Longrightarrow> serialize_column_data d (bs_col_type spec) = Ok (col_bytes d)"
  by (cases d) (auto simp: serialize_column_data_def)

lemma read_null_bitmap_layout:
  "wf_bitmap nullable rc bm \<Longrightarrow>
   read_null_bitmap nullable rc (pre @ bitmap_bytes bm @ post) (length pre) =
     Ok (bm, length (pre @ bitmap_bytes bm))"
  by (cases bm) (auto simp: read_null_bitmap_def wf_bitmap_def)

lemma parse_column_layout:
  assumes "wf_col rc spec d" and fits: "length (pre @ col_bytes d @ post) \<le> usize_max"
  shows "parse_column_data (pre @ col_bytes d @ post) (length pre) spec rc = Ok (norm_col d, length (col_bytes d))"
proof (cases d)
  case (BD_I32 vs bm)
  then show ?thesis
    using assms read_null_bitmap_layout[of "bs_nullable spec" rc bm pre "concat (map u32_le vs) @ post"]
      u32c.read_n_enc[of vs "pre @ bitmap_bytes bm" post]
    by (simp add: parse_column_data_def list_all_iff)
next
  case (BD_I64 vs bm)
  then show ?thesis
    using assms read_null_bitmap_layout[of "bs_nullable spec" rc bm pre "concat (map u64_le vs) @ post"]
      i64c.read_n_enc[of vs "pre @ bitmap_bytes bm" post]
    by (simp add: parse_column_data_def list_all_iff)
next
  case (BD_Text rows n bm)
  then show ?thesis
    using assms read_null_bitmap_layout[of "bs_nullable spec" rc bm pre "concat (map (pad_cell n) rows) @ post"]
      read_fixed_loop[of "pre @ bitmap_bytes bm" n rows post]
    by (auto simp: parse_column_data_def Let_def)
next
  case (BD_Binary rows n bm)
  then show ?thesis
    using assms read_null_bitmap_layout[of "bs_nullable spec" rc bm pre "concat (map (pad_cell n) rows) @ post"]
      read_fixed_loop[of "pre @ bitmap_bytes bm" n rows post]
    by (simp add: parse_column_data_def Let_def)
next
  case (BD_Timestamp vs bm)
  then show ?thesis
    using assms read_null_bitmap_layout[of "bs_nullable spec" rc bm pre "concat (map timestamp_bytes vs) @ post"]
      tsc.read_n_enc[of vs "pre @ bitmap_bytes bm" post]
    by (simp add: parse_column_data_def list_all_iff)
qed

lemma parse_all_columns_layout:
  "list_all2 (wf_col rc) specs ds \<Longrightarrow> length (pre @ concat (map col_bytes ds) @ post) \<le> usize_max \<Longrightarrow>
   parse_all_columns (pre @ concat (map col_bytes ds) @ post) rc specs (length pre) =
     Ok (map norm_col ds, length pre + length (concat (map col_bytes ds)))"
proof (induction specs ds arbitrary: pre rule: list_all2_induct)
  case Nil
  then show ?case by simp
next
  case (Cons spec specs d ds)
  have "parse_column_data (pre @ col_bytes d @ concat (map col_bytes ds) @ post) (length pre) spec rc =
      Ok (norm_col d, length (col_bytes d))"
    using Cons.prems by (intro parse_column_layout[OF Cons.hyps(1)]) simp
  moreover have "parse_all_columns ((pre @ col_bytes d) @ concat (map col_bytes ds) @ post) rc specs
      (length (pre @ col_bytes d)) =
      Ok (map norm_col ds, length (pre @ col_bytes d) + length (concat (map col_bytes ds)))"
    using Cons.prems by (intro Cons.IH) simp
  ultimately show ?case by simp
qed

section \<open>Payloads\<close>

definition wf_payload :: "bulk_insert_payload \<Rightarrow> bool" where
  "wf_payload p \<longleftrightarrow>
     valid_str (bp_table p) \<and> length (bp_table p) < 2 ^ 32 \<and>
     length (bp_columns p) \<le> MAX_BULK_COLUMNS \<and> list_all wf_spec (bp_columns p) \<and>
     unat (bp_row_count p) \<le> MAX_BULK_ROWS \<and>
     list_all2 (wf_col (unat (bp_row_count p))) (bp_columns p) (bp_column_data p)"

definition bulk_bytes :: "bulk_insert_payload \<Rightarrow> bytes" where
  "bulk_bytes p =
     u32_le (of_nat (length (bp_table p))) @ as_bytes (bp_table p) @
     u32_le (of_nat (length (bp_columns p))) @ concat (map spec_bytes (bp_columns p)) @
     u32_le (bp_row_count p) @ concat (map col_bytes (bp_column_data p))"

definition norm_payload :: "bulk_insert_payload \<Rightarrow> bulk_insert_payload" where
  "norm_payload p = p\<lparr>bp_column_data := map norm_col (bp_column_data p)\<rparr>"

lemma len_to_u32_Ok [simp]: "n < 2 ^ 32 \<Longrightarrow> len_to_u32 n what = Ok (of_nat n)"
  by (simp add: len_to_u32_def try_u32_def)

lemma serialize_spec_Ok: "wf_spec s \<Longrightarrow> serialize_spec s = Ok (spec_bytes s)"
  by (simp add: serialize_spec_def wf_spec_def spec_bytes_def MAX_BULK_CELL_LEN_def)

lemma omapM_columns_Ok:
  "list_all2 (wf_col rc) specs ds \<Longrightarrow>
   omapM (\<lambda>(spec, data). serialize_column_data data (bs_col_type spec)) (zip specs ds) = Ok (map col_bytes ds)"
  by (induction specs ds rule: list_all2_induct) (auto simp: wf_col_serialize)

lemma serialize_bulk_Ok:
  assumes "wf_payload p"
  shows "serialize_bulk_insert_payload p = Ok (bulk_bytes p)"
proof -
  have "omapM serialize_spec (bp_columns p) = Ok (map spec_bytes (bp_columns p))"
    using assms by (intro omapM_Ok_map) (auto simp: wf_payload_def list_all_iff serialize_spec_Ok)
  moreover have "length (bp_columns p) < 2 ^ 32"
    using assms by (simp add: wf_payload_def MAX_BULK_COLUMNS_def)
  ultimately show ?thesis
    using assms omapM_columns_Ok
    by (auto simp: wf_payload_def serialize_bulk_insert_payload_def bulk_bytes_def)
qed

lemma parse_bulk_layout:
  assumes wf: "wf_payload p" and fits: "length (bulk_bytes p) \<le> usize_max"
  shows "parse_bulk_insert_payload (bulk_bytes p) = Ok (norm_payload p)"
proof -
  let ?msg = "bulk_bytes p" and ?tn = "length (bp_table p)" and ?cn = "length (bp_columns p)"
  let ?sb = "concat (map spec_bytes (bp_columns p))" and ?cb = "concat (map col_bytes (bp_column_data p))"
  let ?h1 = "u32_le (of_nat ?tn) @ as_bytes (bp_table p) @ u32_le (of_nat ?cn)"
  let ?h2 = "?h1 @ ?sb @ u32_le (bp_row_count p)"
  have len: "length ?msg = 12 + ?tn + length ?sb + length ?cb" by (simp add: bulk_bytes_def)
  have cnt: "unat (of_nat ?tn :: u32) = ?tn" "unat (of_nat ?cn :: u32) = ?cn"
    using wf by (simp_all add: wf_payload_def MAX_BULK_COLUMNS_def)
  have hdr: "take 4 ?msg = u32_le (of_nat ?tn)" "take ?tn (drop 4 ?msg) = as_bytes (bp_table p)"
    "take 4 (drop (4 + ?tn) ?msg) = u32_le (of_nat ?cn)"
    "take 4 (drop (8 + ?tn + length ?sb) ?msg) = u32_le (bp_row_count p)"
    by (simp_all add: bulk_bytes_def)
  have sp: "read_n read_spec ?msg ?cn (8 + ?tn) = Ok (bp_columns p, 8 + ?tn + length ?sb)"
    using spec.read_n_enc[of "bp_columns p" ?h1 "u32_le (bp_row_count p) @ ?cb"] wf fits
    by (simp add: bulk_bytes_def wf_payload_def)
  have cols: "parse_all_columns ?msg (unat (bp_row_count p)) (bp_columns p) (12 + ?tn + length ?sb) =
      Ok (map norm_col (bp_column_data p), length ?msg)"
    using parse_all_columns_layout[of "unat (bp_row_count p)" "bp_columns p" "bp_column_data p" ?h2 "[]"] wf fits
    by (simp add: bulk_bytes_def wf_payload_def add.assoc)
  have r: "read_u32_le ?msg 0 = Ok (of_nat ?tn, 4)" "read_bytes ?tn ?msg 4 = Ok (as_bytes (bp_table p), 4 + ?tn)"
    "read_u32_le ?msg (4 + ?tn) = Ok (of_nat ?cn, 8 + ?tn)"
    "read_u32_le ?msg (8 + ?tn + length ?sb) = Ok (bp_row_count p, 12 + ?tn + length ?sb)"
    using hdr len by simp_all
  show ?thesis
    using wf unfolding parse_bulk_insert_payload_def
    by (simp add: r sp cols cnt wf_payload_def norm_payload_def Let_def del: read_u32_le_Ok read_bytes_Ok)
qed

text \<open>
  C37. Round trip of the bulk payload: a payload whose columns agree with their specifications is
  serialized, and parsing gives it back with every text, decimal and binary cell cut to the column
  width and at its first zero byte.
\<close>

theorem bulk_roundtrip:
  assumes "wf_payload p" and "length (bulk_bytes p) \<le> usize_max"
  shows "obind (serialize_bulk_insert_payload p) parse_bulk_insert_payload = Ok (norm_payload p)"
  using assms by (simp add: serialize_bulk_Ok parse_bulk_layout)

theorem bulk_roundtrip_witness:
  "let p = \<lparr>bp_table = ''t'',
        bp_columns = [\<lparr>bs_name = ''a'', bs_col_type = BT_I32, bs_nullable = True, bs_max_len = 0\<rparr>,
                      \<lparr>bs_name = ''b'', bs_col_type = BT_Text, bs_nullable = False, bs_max_len = 3\<rparr>],
        bp_row_count = 2,
        bp_column_data = [BD_I32 [7, - 1] (Some [2]), BD_Text [[65, 66], [67, 68, 69, 70]] 3 None]\<rparr> in
   obind (serialize_bulk_insert_payload p) parse_bulk_insert_payload =
     Ok (p\<lparr>bp_column_data := [BD_I32 [7, - 1] (Some [2]), BD_Text [[65, 66], [67, 68, 69]] 3 None]\<rparr>)"
proof -
  define p where "p = \<lparr>bp_table = ''t'',
        bp_columns = [\<lparr>bs_name = ''a'', bs_col_type = BT_I32, bs_nullable = True, bs_max_len = 0\<rparr>,
                      \<lparr>bs_name = ''b'', bs_col_type = BT_Text, bs_nullable = False, bs_max_len = 3\<rparr>],
        bp_row_count = 2,
        bp_column_data = [BD_I32 [7, - 1] (Some [2]), BD_Text [[65, 66], [67, 68, 69, 70]] 3 None]\<rparr>"
  have "wf_payload p"
    by (simp add: p_def wf_payload_def wf_spec_def bulk_limits valid_str_ascii ascii_def wf_bitmap_def
        null_bitmap_size_def)
  moreover have "length (bulk_bytes p) \<le> usize_max"
    by (simp add: p_def bulk_bytes_def spec_bytes_def)
  ultimately have "obind (serialize_bulk_insert_payload p) parse_bulk_insert_payload = Ok (norm_payload p)"
    by (rule bulk_roundtrip)
  then show ?thesis
    unfolding p_def[symmetric] Let_def
    by (simp add: norm_payload_def norm_cell_def trim_at_nul_def p_def)
qed

text \<open>
  A binary cell is not preserved: a well-formed payload with a binary cell that contains a zero
  byte is accepted by the serializer, and parsing the result gives a different payload, because the
  parser trims binary columns like text columns.
\<close>

theorem bulk_binary_truncated:
  assumes "wf_payload p" and "length (bulk_bytes p) \<le> usize_max"
    and "BD_Binary rows n bm \<in> set (bp_column_data p)" and "row \<in> set rows" and "0 \<in> set row"
  shows "\<exists>q. obind (serialize_bulk_insert_payload p) parse_bulk_insert_payload = Ok q \<and> q \<noteq> p"
proof -
  have clean: "0 \<notin> set (norm_cell n r)" for r using trim_at_nul_props(2) by (simp add: norm_cell_def)
  have "map (norm_cell n) rows \<noteq> rows"
  proof
    assume "map (norm_cell n) rows = rows"
    then have "row \<in> norm_cell n ` set rows" using assms(4) by (metis list.set_map)
    with clean assms(5) show False by blast
  qed
  then have "norm_col (BD_Binary rows n bm) \<noteq> BD_Binary rows n bm" by simp
  with assms(3) have "map norm_col (bp_column_data p) \<noteq> bp_column_data p"
    by (metis map_eq_conv map_ident)
  then have "bp_column_data (norm_payload p) \<noteq> bp_column_data p" by (simp add: norm_payload_def)
  then have "norm_payload p \<noteq> p" by metis
  with assms(1,2) show ?thesis by (simp add: serialize_bulk_Ok parse_bulk_layout)
qed

theorem bulk_binary_truncated_witness:
  "let p = \<lparr>bp_table = ''t'',
        bp_columns = [\<lparr>bs_name = ''a'', bs_col_type = BT_Binary, bs_nullable = False, bs_max_len = 3\<rparr>],
        bp_row_count = 1, bp_column_data = [BD_Binary [[1, 0, 2]] 3 None]\<rparr> in
   \<exists>q. obind (serialize_bulk_insert_payload p) parse_bulk_insert_payload = Ok q \<and> q \<noteq> p"
  unfolding Let_def
  by (rule bulk_binary_truncated[where rows = "[[1, 0, 2]]" and n = 3 and bm = None and row = "[1, 0, 2]"])
    (simp_all add: wf_payload_def wf_spec_def bulk_limits valid_str_ascii ascii_def wf_bitmap_def
      bulk_bytes_def spec_bytes_def)

section \<open>The parser on arbitrary bytes\<close>

text \<open>Every cell of an accepted column fits the width and holds no zero byte.\<close>

fun cells_trimmed :: "bulk_column_data \<Rightarrow> bool" where
  "cells_trimmed (BD_Text rows n bm) \<longleftrightarrow> list_all (\<lambda>c. length c \<le> n \<and> 0 \<notin> set c) rows"
| "cells_trimmed (BD_Binary rows n bm) \<longleftrightarrow> list_all (\<lambda>c. length c \<le> n \<and> 0 \<notin> set c) rows"
| "cells_trimmed _ \<longleftrightarrow> True"

lemma cells_trimmed_norm: "cells_trimmed d \<Longrightarrow> norm_col d = d"
  by (cases d) (auto simp: list_all_iff norm_cell_idem intro: map_idI)

lemma read_null_bitmap_safe:
  assumes "off \<le> length data"
  shows "read_null_bitmap nl rc data off \<noteq> Panic"
    and "read_null_bitmap nl rc data off = Ok (bm, o1) \<Longrightarrow> wf_bitmap nl rc bm \<and> off \<le> o1 \<and> o1 \<le> length data"
  using assms by (auto simp: read_null_bitmap_def wf_bitmap_def split: if_splits)

lemmas fixed_bounds = offset_reader.read_n_bounds[OF offset_reader_fixed]
lemmas fixed_no_panic = offset_reader.read_n_no_panic[OF offset_reader_fixed]

lemma fixed_cells:
  "read_n (read_fixed n) data rc off = Ok (rows, off') \<Longrightarrow> list_all (\<lambda>c. length c \<le> n \<and> 0 \<notin> set c) rows"
  by (rule read_n_all[where rd = "read_fixed n" and data = data]) (rule read_fixed_cell)

lemma parse_column_no_panic:
  assumes "off \<le> length data"
  shows "parse_column_data data off spec rc \<noteq> Panic"
  unfolding parse_column_data_def Let_def
proof (intro obind_not_PanicI prod_not_PanicI)
  show "read_null_bitmap (bs_nullable spec) rc data off \<noteq> Panic"
    by (rule read_null_bitmap_safe(1)[OF assms])
next
  fix p bm o1 assume "read_null_bitmap (bs_nullable spec) rc data off = Ok p" "p = (bm, o1)"
  then have "o1 \<le> length data" using read_null_bitmap_safe(2)[OF assms] by blast
  note np = u32c.read_n_no_panic[OF this] i64c.read_n_no_panic[OF this] tsc.read_n_no_panic[OF this]
    fixed_no_panic[OF this]
  show "(case bs_col_type spec of
       BT_I32 \<Rightarrow> obind (read_n read_u32_le data rc o1) (\<lambda>(values, o2). Ok (BD_I32 values bm, o2 - off))
     | BT_I64 \<Rightarrow> obind (read_n read_i64 data rc o1) (\<lambda>(values, o2). Ok (BD_I64 values bm, o2 - off))
     | BT_Text \<Rightarrow> obind (read_n (read_fixed (max (bs_max_len spec) 1)) data rc o1)
                  (\<lambda>(rows, o2). Ok (BD_Text rows (max (bs_max_len spec) 1) bm, o2 - off))
     | BT_Decimal \<Rightarrow> obind (read_n (read_fixed (max (bs_max_len spec) 1)) data rc o1)
                  (\<lambda>(rows, o2). Ok (BD_Text rows (max (bs_max_len spec) 1) bm, o2 - off))
     | BT_Binary \<Rightarrow> obind (read_n (read_fixed (max (bs_max_len spec) 1)) data rc o1)
                  (\<lambda>(rows, o2). Ok (BD_Binary rows (max (bs_max_len spec) 1) bm, o2 - off))
     | BT_Timestamp \<Rightarrow> obind (read_n read_timestamp data rc o1)
                  (\<lambda>(values, o2). Ok (BD_Timestamp values bm, o2 - off))) \<noteq> Panic"
    by (cases "bs_col_type spec") (simp_all add: np)
qed

lemma parse_column_Ok:
  assumes "off \<le> length data" and ok: "parse_column_data data off spec rc = Ok (d, k)"
  shows "wf_col rc spec d \<and> cells_trimmed d \<and> off + k \<le> length data"
proof -
  obtain bm o1 where bm: "read_null_bitmap (bs_nullable spec) rc data off = Ok (bm, o1)"
    using ok by (auto simp: parse_column_data_def)
  from read_null_bitmap_safe(2)[OF assms(1) bm] have wb: "wf_bitmap (bs_nullable spec) rc bm"
    and o1: "off \<le> o1" "o1 \<le> length data" by auto
  let ?n = "max (bs_max_len spec) 1"
  note body = ok[unfolded parse_column_data_def bm obind.simps prod.case]
  show ?thesis
  proof (cases "bs_col_type spec")
    case BT_I32
    with body obtain vs o2 where r: "read_n read_u32_le data rc o1 = Ok (vs, o2)" "d = BD_I32 vs bm" "k = o2 - off"
      by auto
    with BT_I32 wb o1 u32c.read_n_bounds[OF o1(2) r(1)] read_n_length[OF r(1)] show ?thesis by simp
  next
    case BT_I64
    with body obtain vs o2 where r: "read_n read_i64 data rc o1 = Ok (vs, o2)" "d = BD_I64 vs bm" "k = o2 - off"
      by auto
    with BT_I64 wb o1 i64c.read_n_bounds[OF o1(2) r(1)] read_n_length[OF r(1)] show ?thesis by simp
  next
    case BT_Text
    with body obtain rows o2 where r: "read_n (read_fixed ?n) data rc o1 = Ok (rows, o2)" "d = BD_Text rows ?n bm"
      "k = o2 - off" by (auto simp: Let_def)
    with BT_Text wb o1 fixed_bounds[OF o1(2) r(1)] read_n_length[OF r(1)] fixed_cells[OF r(1)] show ?thesis by simp
  next
    case BT_Decimal
    with body obtain rows o2 where r: "read_n (read_fixed ?n) data rc o1 = Ok (rows, o2)" "d = BD_Text rows ?n bm"
      "k = o2 - off" by (auto simp: Let_def)
    with BT_Decimal wb o1 fixed_bounds[OF o1(2) r(1)] read_n_length[OF r(1)] fixed_cells[OF r(1)] show ?thesis by simp
  next
    case BT_Binary
    with body obtain rows o2 where r: "read_n (read_fixed ?n) data rc o1 = Ok (rows, o2)" "d = BD_Binary rows ?n bm"
      "k = o2 - off" by (auto simp: Let_def)
    with BT_Binary wb o1 fixed_bounds[OF o1(2) r(1)] read_n_length[OF r(1)] fixed_cells[OF r(1)] show ?thesis by simp
  next
    case BT_Timestamp
    with body obtain vs o2 where r: "read_n read_timestamp data rc o1 = Ok (vs, o2)" "d = BD_Timestamp vs bm"
      "k = o2 - off" by auto
    with BT_Timestamp wb o1 tsc.read_n_bounds[OF o1(2) r(1)] read_n_length[OF r(1)] show ?thesis by simp
  qed
qed

lemma parse_all_columns_safe:
  "off \<le> length data \<Longrightarrow> parse_all_columns data rc specs off \<noteq> Panic \<and>
   (\<forall>ds k. parse_all_columns data rc specs off = Ok (ds, k) \<longrightarrow>
      list_all2 (wf_col rc) specs ds \<and> list_all cells_trimmed ds \<and> k \<le> length data)"
proof (induction specs arbitrary: off)
  case Nil
  then show ?case by simp
next
  case (Cons spec specs)
  show ?case
  proof (cases "parse_column_data data off spec rc")
    case (Ok p)
    obtain d k where p: "p = (d, k)" by (cases p)
    note col = parse_column_Ok[OF Cons.prems Ok[unfolded p]]
    with Cons.IH[of "off + k"] Ok p show ?thesis by (auto split: prod.splits)
  qed (use parse_column_no_panic[OF Cons.prems] in auto)
qed

text \<open>The three stages of the parser: table name, column specifications, columns.\<close>

lemma parse_bulk_stages:
  assumes "parse_bulk_insert_payload data = Ok p"
  shows "valid_str (bp_table p) \<and> length (bp_table p) < 2 ^ 32 \<and> length (bp_columns p) \<le> MAX_BULK_COLUMNS \<and>
    unat (bp_row_count p) \<le> MAX_BULK_ROWS \<and>
    (\<exists>o3 o4 o6. o3 \<le> length data \<and> o4 + 4 \<le> length data \<and>
       read_n read_spec data (length (bp_columns p)) o3 = Ok (bp_columns p, o4) \<and>
       parse_all_columns data (unat (bp_row_count p)) (bp_columns p) (o4 + 4) = Ok (bp_column_data p, o6))"
proof -
  obtain tl o1 tb o2 tab cc o3 cols o4 rc o5 ds o6 where
    s: "read_u32_le data 0 = Ok (tl, o1)" "read_bytes (unat tl) data o1 = Ok (tb, o2)"
      "from_utf8 tb = Ok tab" "read_u32_le data o2 = Ok (cc, o3)"
      "read_n read_spec data (unat cc) o3 = Ok (cols, o4)" "read_u32_le data o4 = Ok (rc, o5)"
      "parse_all_columns data (unat rc) cols o5 = Ok (ds, o6)"
    and lim: "\<not> unat cc > MAX_BULK_COLUMNS" "\<not> unat rc > MAX_BULK_ROWS"
    and p: "p = \<lparr>bp_table = tab, bp_columns = cols, bp_row_count = rc, bp_column_data = ds\<rparr>"
    using assms unfolding parse_bulk_insert_payload_def Let_def
    by (auto simp del: read_u32_le_Ok_iff read_u32_le_Ok read_bytes_Ok read_bytes_Ok_iff split: if_splits)
  have "length tb = unat tl" using s(2) by auto
  then have "length tab = unat tl" using s(3) by (simp add: from_utf8_Ok_iff)
  moreover have "length cols = unat cc" using s(5) by (rule read_n_length)
  moreover have "valid_str tab" using s(3) by (simp add: from_utf8_Ok_iff)
  ultimately show ?thesis using s(4-7) lim unat_u32_less[of tl] by (auto simp: p)
qed

lemma read_specs_wf:
  assumes "read_n read_spec data n off = Ok (specs, off')"
  shows "list_all wf_spec specs"
  by (rule read_n_all[OF read_spec_wf assms])

lemma parse_bulk_Ok:
  assumes "parse_bulk_insert_payload data = Ok p"
  shows "list_all2 (wf_col (unat (bp_row_count p))) (bp_columns p) (bp_column_data p)"
    "list_all cells_trimmed (bp_column_data p)"
    "list_all wf_spec (bp_columns p)"
proof -
  obtain o3 o4 o6 where s: "o4 + 4 \<le> length data"
    "read_n read_spec data (length (bp_columns p)) o3 = Ok (bp_columns p, o4)"
    "parse_all_columns data (unat (bp_row_count p)) (bp_columns p) (o4 + 4) = Ok (bp_column_data p, o6)"
    using parse_bulk_stages[OF assms] by blast
  show "list_all2 (wf_col (unat (bp_row_count p))) (bp_columns p) (bp_column_data p)"
    "list_all cells_trimmed (bp_column_data p)"
    using parse_all_columns_safe[OF s(1)] s(3) by blast+
  show "list_all wf_spec (bp_columns p)"
    using s(2) by (rule read_specs_wf)
qed

lemma parse_bulk_wf:
  "parse_bulk_insert_payload data = Ok p \<Longrightarrow> wf_payload p \<and> norm_payload p = p"
proof (intro conjI)
  assume ok: "parse_bulk_insert_payload data = Ok p"
  show "wf_payload p"
    using parse_bulk_stages[OF ok] parse_bulk_Ok[OF ok] by (simp add: wf_payload_def)
  have "map norm_col (bp_column_data p) = bp_column_data p"
    using parse_bulk_Ok(2)[OF ok] by (intro map_idI cells_trimmed_norm) (simp add: list_all_iff)
  then show "norm_payload p = p" by (simp add: norm_payload_def)
qed

lemma read_u32_le_bound: "read_u32_le data off = Ok p \<Longrightarrow> p = (v, o1) \<Longrightarrow> o1 \<le> length data"
  by auto

lemmas after_u32_not_Panic =
  read_bytes_not_Panic[OF read_u32_le_bound] spec.read_n_no_panic[OF read_u32_le_bound]
  parse_all_columns_safe[OF read_u32_le_bound, THEN conjunct1]

lemma parse_bulk_no_panic: "parse_bulk_insert_payload data \<noteq> Panic"
  unfolding parse_bulk_insert_payload_def Let_def
  by (intro not_PanicI; (simp (no_asm); fail)?; (erule (1) after_u32_not_Panic))

text \<open>
  The parser is safe on every byte sequence: it never panics, and what it accepts is within the
  limits and consistent, with one specification per column, one entry per row in every column, and
  a null bitmap of exactly the required size for exactly the nullable columns.
\<close>

theorem parse_bulk_safe:
  "parse_bulk_insert_payload data \<noteq> Panic \<and>
   (case parse_bulk_insert_payload data of Ok p \<Rightarrow> wf_payload p | _ \<Rightarrow> True)"
  using parse_bulk_no_panic parse_bulk_wf by (auto split: outcome.splits)

text \<open>
  An accepted payload is stable: it serializes, and parsing the result gives the same payload.
\<close>

theorem bulk_reparse:
  assumes "parse_bulk_insert_payload data = Ok p" and "length (bulk_bytes p) \<le> usize_max"
  shows "serialize_bulk_insert_payload p = Ok (bulk_bytes p) \<and> parse_bulk_insert_payload (bulk_bytes p) = Ok p"
  using parse_bulk_wf[OF assms(1)] parse_bulk_layout[OF _ assms(2)] serialize_bulk_Ok by auto

definition small_payload :: bulk_insert_payload where
  "small_payload = \<lparr>bp_table = ''t'',
     bp_columns = [\<lparr>bs_name = ''a'', bs_col_type = BT_I32, bs_nullable = True, bs_max_len = 0\<rparr>],
     bp_row_count = 2, bp_column_data = [BD_I32 [7, - 1] (Some [2])]\<rparr>"

theorem bulk_reparse_witness:
  "serialize_bulk_insert_payload small_payload = Ok (bulk_bytes small_payload) \<and>
   parse_bulk_insert_payload (bulk_bytes small_payload) = Ok small_payload"
proof -
  have fits: "length (bulk_bytes small_payload) \<le> usize_max"
    by (simp add: small_payload_def bulk_bytes_def spec_bytes_def)
  have "wf_payload small_payload"
    by (simp add: small_payload_def wf_payload_def wf_spec_def bulk_limits valid_str_ascii ascii_def wf_bitmap_def
        null_bitmap_size_def)
  from parse_bulk_layout[OF this fits]
  have "parse_bulk_insert_payload (bulk_bytes small_payload) = Ok small_payload"
    by (simp add: norm_payload_def small_payload_def)
  from bulk_reparse[OF this fits] show ?thesis .
qed

section \<open>Null bitmaps\<close>

text \<open>
  On a column of an accepted payload the strict and the lenient bitmap accessor agree: for every
  row of the payload the strict one succeeds with the lenient one's answer.
\<close>

theorem is_null_strict_agrees:
  assumes "wf_bitmap True row_count (Some bitmap)" and "row < row_count"
  shows "is_null_strict bitmap row row_count = Ok (is_null bitmap row)"
proof -
  have "row div 8 < length bitmap"
    using assms by (auto simp: wf_bitmap_def null_bitmap_size_def)
  with assms(2) show ?thesis by (simp add: is_null_strict_def is_null_def)
qed

theorem is_null_strict_agrees_witness:
  "is_null_strict [0, 2] 9 10 = Ok (is_null [0, 2] 9) \<and> is_null [0, 2] 9"
  using is_null_strict_agrees[of 10 "[0, 2]" 9]
  by (simp add: wf_bitmap_def null_bitmap_size_def is_null_def)

end
