(* ===== verification/Identifier.thy ===== *)
theory Identifier
  imports Errors
begin

text \<open>
  \<open>engine/identifier.rs\<close>: validation and quoting of SQL identifiers supplied by the caller. The
  properties are stated against an independent reader of quoted SQL identifiers, so that they say
  what a server sees.
\<close>

definition MAX_IDENTIFIER_LEN :: usize where "MAX_IDENTIFIER_LEN = 128"

datatype identifier_quoting = DoubleQuote | Brackets | Backtick

fun wrap :: "identifier_quoting \<Rightarrow> string \<Rightarrow> string" where
  "wrap DoubleQuote v = CHR 0x22 # v @ [CHR 0x22]"
| "wrap Brackets v = CHR ''['' # v @ [CHR '']'']"
| "wrap Backtick v = CHR 0x60 # v @ [CHR 0x60]"

definition is_ascii_alphabetic :: "u8 \<Rightarrow> bool" where
  "is_ascii_alphabetic b \<longleftrightarrow> (65 \<le> b \<and> b \<le> 90) \<or> (97 \<le> b \<and> b \<le> 122)"

definition is_ascii_alphanumeric :: "u8 \<Rightarrow> bool" where
  "is_ascii_alphanumeric b \<longleftrightarrow> is_ascii_alphabetic b \<or> (48 \<le> b \<and> b \<le> 57)"

fun check_rest :: "string \<Rightarrow> bytes \<Rightarrow> unit result" where
  "check_rest name [] = Ok ()"
| "check_rest name (b # bs) =
     (if \<not> (is_ascii_alphanumeric b \<or> b = 95) then
        Err (ValidationError (''Identifier '' @ debug_str name @ '' contains invalid character '' @ debug_byte_char b))
      else check_rest name bs)"

definition validate_identifier :: "string \<Rightarrow> unit result" where
  "validate_identifier name =
     (if name = [] then Err (ValidationError ''Identifier must not be empty'')
      else if length name > MAX_IDENTIFIER_LEN then
        Err (ValidationError (''Identifier exceeds '' @ show_nat MAX_IDENTIFIER_LEN @ '' characters''))
      else
        obind (idx (as_bytes name) 0) (\<lambda>first.
        if \<not> (is_ascii_alphabetic first \<or> first = 95) then
          Err (ValidationError (''Identifier '' @ debug_str name @ '' must start with ASCII letter or underscore''))
        else obind (range_of (as_bytes name) 1 (length name)) (check_rest name)))"

definition quote_identifier :: "string \<Rightarrow> identifier_quoting \<Rightarrow> string result" where
  "quote_identifier name style = obind (validate_identifier name) (\<lambda>_. Ok (wrap style name))"

definition quote_identifier_default :: "string \<Rightarrow> string result" where
  "quote_identifier_default name = quote_identifier name DoubleQuote"

definition quote_qualified_default :: "string \<Rightarrow> string result" where
  "quote_qualified_default qualified =
     (let parts = split_on (CHR ''.'') qualified in
      if parts = [] then Err (ValidationError ''Qualified identifier must not be empty'')
      else obind (omapM quote_identifier_default parts) (\<lambda>quoted. Ok (join_with ''.'' quoted)))"

section \<open>What is accepted\<close>

definition ident_char :: "char \<Rightarrow> bool" where
  "ident_char c \<longleftrightarrow> is_ascii_alphanumeric (byte_of c) \<or> c = CHR ''_''"

definition ident_start :: "char \<Rightarrow> bool" where
  "ident_start c \<longleftrightarrow> is_ascii_alphabetic (byte_of c) \<or> c = CHR ''_''"

definition valid_identifier :: "string \<Rightarrow> bool" where
  "valid_identifier s \<longleftrightarrow> s \<noteq> [] \<and> length s \<le> 128 \<and> ident_start (hd s) \<and> list_all ident_char s"

lemma byte_of_underscore: "byte_of c = 95 \<longleftrightarrow> c = CHR ''_''"
proof -
  have "byte_of c = 95 \<longleftrightarrow> unat (byte_of c) = 95" by (simp add: word_unat_eq_iff)
  also have "\<dots> \<longleftrightarrow> (of_char c :: nat) = of_char (CHR ''_'')" by (simp add: unat_byte_of)
  also have "\<dots> \<longleftrightarrow> c = CHR ''_''" by (simp only: of_char_eq_iff)
  finally show ?thesis .
qed

lemma check_rest_Ok_iff: "check_rest name (as_bytes s) = Ok u \<longleftrightarrow> list_all ident_char s"
  by (induction s) (auto simp: as_bytes_def ident_char_def byte_of_underscore)

lemma check_rest_not_Panic [simp]: "check_rest name bs \<noteq> Panic"
  by (induction bs) auto

lemma ident_start_char: "ident_start c \<Longrightarrow> ident_char c"
  by (auto simp: ident_start_def ident_char_def is_ascii_alphanumeric_def)

lemma validate_identifier_iff: "validate_identifier s = Ok u \<longleftrightarrow> valid_identifier s"
proof (cases s)
  case Nil
  then show ?thesis by (simp add: validate_identifier_def valid_identifier_def)
next
  case (Cons c r)
  have "as_bytes (c # r) = byte_of c # as_bytes r" by (simp add: as_bytes_def)
  then show ?thesis
    using Cons check_rest_Ok_iff[of s r] ident_start_char[of c]
    by (auto simp: validate_identifier_def valid_identifier_def MAX_IDENTIFIER_LEN_def ident_start_def
        byte_of_underscore)
qed

lemma validate_identifier_not_Panic [simp]: "validate_identifier s \<noteq> Panic"
  by (cases s) (auto simp: validate_identifier_def)

lemma quote_identifier_Ok_iff [simp]:
  "quote_identifier s st = Ok q \<longleftrightarrow> valid_identifier s \<and> q = wrap st s"
  by (auto simp: quote_identifier_def validate_identifier_iff)

lemma quote_identifier_not_Panic [simp]: "quote_identifier s st \<noteq> Panic"
  by (auto simp: quote_identifier_def)

text \<open>No accepted character is a quote, a separator or the start of a comment.\<close>

lemma ident_char_range:
  "ident_char c \<Longrightarrow> (48 \<le> (of_char c :: nat) \<and> (of_char c :: nat) \<le> 57) \<or>
     (65 \<le> (of_char c :: nat) \<and> (of_char c :: nat) \<le> 90) \<or> (of_char c :: nat) = 95 \<or>
     (97 \<le> (of_char c :: nat) \<and> (of_char c :: nat) \<le> 122)"
  by (auto simp: ident_char_def is_ascii_alphanumeric_def is_ascii_alphabetic_def word_le_nat_alt unat_byte_of)

lemma ident_char_not_special:
  assumes "ident_char c"
  shows "c \<noteq> CHR 0x22" "c \<noteq> CHR ''['' " "c \<noteq> CHR '']''" "c \<noteq> CHR 0x60" "c \<noteq> CHR 0x27" "c \<noteq> CHR ''.''"
    "c \<noteq> CHR '';''" "c \<noteq> CHR ''-''" "c \<noteq> CHR ''/''" "c \<noteq> CHR '' ''" "c \<noteq> CHR 0x5C"
  using ident_char_range[OF assms] by auto

section \<open>What a server reads\<close>

text \<open>
  The lexical rule of quoted identifiers, the same for the three styles: after the opening character
  everything up to the closing character is the name, and a doubled closing character stands for itself.
\<close>

fun open_quote :: "identifier_quoting \<Rightarrow> char" where
  "open_quote DoubleQuote = CHR 0x22"
| "open_quote Brackets = CHR ''[''"
| "open_quote Backtick = CHR 0x60"

fun close_quote :: "identifier_quoting \<Rightarrow> char" where
  "close_quote DoubleQuote = CHR 0x22"
| "close_quote Brackets = CHR '']''"
| "close_quote Backtick = CHR 0x60"

fun scan_quoted :: "char \<Rightarrow> string \<Rightarrow> (string \<times> string) option" where
  "scan_quoted q [] = None"
| "scan_quoted q [c] = (if c = q then Some ([], []) else None)"
| "scan_quoted q (c # d # s) =
     (if c = q then
        (if d = q then map_option (\<lambda>(n, r). (q # n, r)) (scan_quoted q s) else Some ([], d # s))
      else map_option (\<lambda>(n, r). (c # n, r)) (scan_quoted q (d # s)))"

definition lex_identifier :: "identifier_quoting \<Rightarrow> string \<Rightarrow> (string \<times> string) option" where
  "lex_identifier style s =
     (case s of [] \<Rightarrow> None | c # r \<Rightarrow> if c = open_quote style then scan_quoted (close_quote style) r else None)"

lemma scan_quoted_plain:
  "q \<notin> set n \<Longrightarrow> (rest = [] \<or> hd rest \<noteq> q) \<Longrightarrow> scan_quoted q (n @ q # rest) = Some (n, rest)"
proof (induction n)
  case Nil
  then show ?case by (cases rest) auto
next
  case (Cons c n)
  then obtain d r where "n @ q # rest = d # r" by (cases "n @ q # rest") auto
  with Cons show ?case by auto
qed

lemma wrap_quotes: "wrap st s = open_quote st # s @ [close_quote st]"
  by (cases st) simp_all

lemma ident_char_not_close: "ident_char c \<Longrightarrow> c \<noteq> close_quote st"
  using ident_char_not_special[of c] by (cases st) simp_all

lemma valid_identifier_no_close: "valid_identifier s \<Longrightarrow> close_quote st \<notin> set s"
  using ident_char_not_close unfolding valid_identifier_def list_all_iff by blast

lemma lex_wrap:
  "valid_identifier s \<Longrightarrow> rest = [] \<or> hd rest \<noteq> close_quote st \<Longrightarrow>
   lex_identifier st (wrap st s @ rest) = Some (s, rest)"
  by (simp add: wrap_quotes lex_identifier_def scan_quoted_plain valid_identifier_no_close)

text \<open>
  Quoting is injection-safe: whatever name the caller supplies, either it is rejected with a
  \<open>ValidationError\<close>, or the text produced is read by the server as exactly one identifier, the
  name itself, and what follows it in the statement is left untouched.
\<close>

theorem quote_identifier_safe:
  assumes "rest = [] \<or> hd rest \<noteq> close_quote style"
  shows "case quote_identifier name style of
      Ok q \<Rightarrow> valid_identifier name \<and> lex_identifier style (q @ rest) = Some (name, rest)
    | Err e \<Rightarrow> (\<exists>m. e = ValidationError m) \<and> \<not> valid_identifier name
    | Panic \<Rightarrow> False"
proof (cases "quote_identifier name style")
  case (Ok q)
  then have "valid_identifier name" "q = wrap style name" by simp_all
  with lex_wrap[OF _ assms] show ?thesis by (simp only: Ok outcome.case)
next
  case (Err e)
  have "\<exists>m. e = ValidationError m" if "check_rest name bs = Err e" for bs
    using that by (induction bs) (auto split: if_splits)
  moreover have "validate_identifier name = Err e"
    using Err by (cases "validate_identifier name") (auto simp: quote_identifier_def)
  ultimately have "\<exists>m. e = ValidationError m"
    by (cases name) (auto simp: validate_identifier_def as_bytes_def split: if_splits)
  moreover have "\<not> valid_identifier name"
    using \<open>validate_identifier name = Err e\<close> validate_identifier_iff[of name "()"] by auto
  ultimately show ?thesis using Err by simp
qed simp

theorem quote_identifier_safe_witness:
  "lex_identifier Brackets (''[sp_1]'' @ '' -- x'') = Some (''sp_1'', '' -- x'')"
  using quote_identifier_safe[of "'' -- x''" Brackets "''sp_1''"]
  by (simp add: quote_identifier_def validate_identifier_def as_bytes_def byte_of_def is_ascii_alphanumeric_def
      is_ascii_alphabetic_def MAX_IDENTIFIER_LEN_def)

section \<open>Qualified names\<close>

text \<open>A dotted sequence of quoted identifiers, as a server reads it.\<close>

fun lex_qualified :: "identifier_quoting \<Rightarrow> nat \<Rightarrow> string \<Rightarrow> (string list \<times> string) option" where
  "lex_qualified style 0 s = None"
| "lex_qualified style (Suc n) s =
     (case lex_identifier style s of
        None \<Rightarrow> None
      | Some (p, r) \<Rightarrow>
          (case r of
             c # r' \<Rightarrow>
               if c = CHR ''.'' then map_option (\<lambda>(ps, r''). (p # ps, r'')) (lex_qualified style n r')
               else Some ([p], r)
           | [] \<Rightarrow> Some ([p], [])))"

lemma lex_join:
  "parts \<noteq> [] \<Longrightarrow> list_all valid_identifier parts \<Longrightarrow> length parts \<le> n \<Longrightarrow>
   lex_qualified DoubleQuote n (join_with ''.'' (map (wrap DoubleQuote) parts)) = Some (parts, [])"
proof (induction parts arbitrary: n)
  case (Cons p ps)
  then obtain m where m: "n = Suc m" by (cases n) auto
  show ?case
  proof (cases ps)
    case Nil
    then show ?thesis using Cons.prems lex_wrap[of p "[]" DoubleQuote] m by simp
  next
    case (Cons p2 ps2)
    then have "lex_qualified DoubleQuote m (join_with ''.'' (map (wrap DoubleQuote) ps)) = Some (ps, [])"
      using Cons.prems m by (intro Cons.IH) simp_all
    moreover have "join_with ''.'' (map (wrap DoubleQuote) (p # ps)) =
        wrap DoubleQuote p @ CHR ''.'' # join_with ''.'' (map (wrap DoubleQuote) ps)"
      using Cons by simp
    moreover have "lex_identifier DoubleQuote
        (wrap DoubleQuote p @ CHR ''.'' # join_with ''.'' (map (wrap DoubleQuote) ps)) =
        Some (p, CHR ''.'' # join_with ''.'' (map (wrap DoubleQuote) ps))"
      using Cons.prems by (intro lex_wrap) simp_all
    ultimately show ?thesis by (simp add: m del: wrap.simps list.map)
  qed
qed simp

text \<open>
  A qualified name is quoted segment by segment: an accepted \<open>a.b.c\<close> is read by the server as
  the dotted path of exactly its segments, and joining them with dots gives the input back.
\<close>

theorem quote_qualified_safe:
  assumes "quote_qualified_default name = Ok q"
  shows "\<exists>parts. list_all valid_identifier parts \<and> join_with ''.'' parts = name \<and>
    lex_qualified DoubleQuote (length parts) q = Some (parts, [])"
proof -
  let ?parts = "split_on (CHR ''.'') name"
  obtain qs where qs: "list_all2 (\<lambda>x y. quote_identifier_default x = Ok y) ?parts qs" "q = join_with ''.'' qs"
    using assms by (auto simp: quote_qualified_default_def Let_def omapM_Ok_list_all2)
  from qs(1) have "list_all valid_identifier ?parts \<and> qs = map (wrap DoubleQuote) ?parts"
    by (induction rule: list_all2_induct) (auto simp: quote_identifier_default_def)
  with qs(2) lex_join[of ?parts] show ?thesis
    by (intro exI[of _ ?parts]) (simp add: join_split_on)
qed

theorem quote_qualified_safe_witness:
  "quote_qualified_default ''dbo.t1'' = Ok [CHR 0x22, CHR ''d'', CHR ''b'', CHR ''o'', CHR 0x22, CHR ''.'',
     CHR 0x22, CHR ''t'', CHR ''1'', CHR 0x22] \<and>
   (\<exists>parts. list_all valid_identifier parts \<and> join_with ''.'' parts = ''dbo.t1'' \<and>
    lex_qualified DoubleQuote (length parts) [CHR 0x22, CHR ''d'', CHR ''b'', CHR ''o'', CHR 0x22, CHR ''.'',
     CHR 0x22, CHR ''t'', CHR ''1'', CHR 0x22] = Some (parts, []))"
proof -
  have "quote_qualified_default ''dbo.t1'' = Ok [CHR 0x22, CHR ''d'', CHR ''b'', CHR ''o'', CHR 0x22, CHR ''.'',
     CHR 0x22, CHR ''t'', CHR ''1'', CHR 0x22]"
    by (simp add: quote_qualified_default_def quote_identifier_default_def quote_identifier_def
        validate_identifier_def as_bytes_def byte_of_def is_ascii_alphanumeric_def
        is_ascii_alphabetic_def MAX_IDENTIFIER_LEN_def del: quote_identifier_Ok_iff)
  with quote_qualified_safe[OF this] show ?thesis by blast
qed

end
