(* ===== verification/Engines.thy ===== *)
theory Engines
  imports Errors
begin

text \<open>
  \<open>engine/core/driver_capabilities.rs\<close>: the canonical engine identifiers, the recognition of an
  engine from a driver or product name, and the capability records. \<open>str::trim\<close> and
  \<open>str::to_lowercase\<close> depend on the Unicode tables; they are the arguments \<open>trim\<close> and \<open>lower\<close>.
\<close>

definition ENGINE_SQLSERVER :: string where "ENGINE_SQLSERVER = ''sqlserver''"
definition ENGINE_POSTGRES :: string where "ENGINE_POSTGRES = ''postgres''"
definition ENGINE_MYSQL :: string where "ENGINE_MYSQL = ''mysql''"
definition ENGINE_MARIADB :: string where "ENGINE_MARIADB = ''mariadb''"
definition ENGINE_ORACLE :: string where "ENGINE_ORACLE = ''oracle''"
definition ENGINE_SYBASE_ASE :: string where "ENGINE_SYBASE_ASE = ''sybase_ase''"
definition ENGINE_SYBASE_ASA :: string where "ENGINE_SYBASE_ASA = ''sybase_asa''"
definition ENGINE_SQLITE :: string where "ENGINE_SQLITE = ''sqlite''"
definition ENGINE_DB2 :: string where "ENGINE_DB2 = ''db2''"
definition ENGINE_SNOWFLAKE :: string where "ENGINE_SNOWFLAKE = ''snowflake''"
definition ENGINE_REDSHIFT :: string where "ENGINE_REDSHIFT = ''redshift''"
definition ENGINE_BIGQUERY :: string where "ENGINE_BIGQUERY = ''bigquery''"
definition ENGINE_MONGODB :: string where "ENGINE_MONGODB = ''mongodb''"
definition ENGINE_UNKNOWN :: string where "ENGINE_UNKNOWN = ''unknown''"

lemmas engine_ids = ENGINE_SQLSERVER_def ENGINE_POSTGRES_def ENGINE_MYSQL_def ENGINE_MARIADB_def
  ENGINE_ORACLE_def ENGINE_SYBASE_ASE_def ENGINE_SYBASE_ASA_def ENGINE_SQLITE_def ENGINE_DB2_def
  ENGINE_SNOWFLAKE_def ENGINE_REDSHIFT_def ENGINE_BIGQUERY_def ENGINE_MONGODB_def ENGINE_UNKNOWN_def

definition all_engines :: "string list" where
  "all_engines = [ENGINE_SQLSERVER, ENGINE_POSTGRES, ENGINE_MYSQL, ENGINE_MARIADB, ENGINE_ORACLE,
     ENGINE_SYBASE_ASE, ENGINE_SYBASE_ASA, ENGINE_SQLITE, ENGINE_DB2, ENGINE_SNOWFLAKE,
     ENGINE_REDSHIFT, ENGINE_BIGQUERY, ENGINE_MONGODB, ENGINE_UNKNOWN]"

record driver_capabilities =
  dc_supports_prepared_statements :: bool
  dc_supports_batch_operations :: bool
  dc_supports_streaming :: bool
  dc_max_row_array_size :: u32
  dc_driver_name :: string
  dc_driver_version :: string
  dc_engine :: string

definition canonical :: "string \<Rightarrow> string \<Rightarrow> u32 \<Rightarrow> driver_capabilities" where
  "canonical engine display max_array =
     \<lparr>dc_supports_prepared_statements = True, dc_supports_batch_operations = True,
      dc_supports_streaming = True, dc_max_row_array_size = max_array, dc_driver_name = display,
      dc_driver_version = ''Unknown'', dc_engine = engine\<rparr>"

definition default_capabilities :: driver_capabilities where
  "default_capabilities =
     \<lparr>dc_supports_prepared_statements = True, dc_supports_batch_operations = True,
      dc_supports_streaming = True, dc_max_row_array_size = 1000, dc_driver_name = ''Unknown'',
      dc_driver_version = ''Unknown'', dc_engine = ENGINE_UNKNOWN\<rparr>"

definition engine_from_name :: "string \<Rightarrow> string" where
  "engine_from_name lower =
     (if contains_sub lower ''sql anywhere'' \<or> contains_sub lower ''adaptive server anywhere'' \<or>
         (contains_sub lower ''asa'' \<and> (contains_sub lower ''sybase'' \<or> contains_sub lower ''sql anywhere''))
      then ENGINE_SYBASE_ASA
      else if contains_sub lower ''adaptive server enterprise'' \<or>
         (contains_sub lower ''ase'' \<and> (contains_sub lower ''sybase'' \<or> contains_sub lower ''adaptive''))
      then ENGINE_SYBASE_ASE
      else if contains_sub lower ''sybase'' then ENGINE_SYBASE_ASE
      else if contains_sub lower ''mariadb'' then ENGINE_MARIADB
      else if contains_sub lower ''microsoft sql server'' \<or> contains_sub lower ''sql server'' \<or>
         contains_sub lower ''mssql'' \<or> lower = ''sqlserver'' \<or> contains_sub lower ''sqlsrv32''
      then ENGINE_SQLSERVER
      else if contains_sub lower ''postgresql'' \<or> contains_sub lower ''postgres'' then ENGINE_POSTGRES
      else if contains_sub lower ''mysql'' then ENGINE_MYSQL
      else if contains_sub lower ''oracle'' then ENGINE_ORACLE
      else if contains_sub lower ''sqlite'' then ENGINE_SQLITE
      else if lower = ''db2'' \<or> contains_sub lower '' db2'' \<or> contains_sub lower ''ibm db2'' \<or>
         contains_sub lower ''db2/''
      then ENGINE_DB2
      else if contains_sub lower ''snowflake'' then ENGINE_SNOWFLAKE
      else if contains_sub lower ''redshift'' then ENGINE_REDSHIFT
      else if contains_sub lower ''bigquery'' then ENGINE_BIGQUERY
      else if contains_sub lower ''mongodb'' then ENGINE_MONGODB
      else ENGINE_UNKNOWN)"

definition capabilities_of :: "string \<Rightarrow> driver_capabilities" where
  "capabilities_of e =
     (if e = ENGINE_SQLSERVER then canonical ENGINE_SQLSERVER ''SQL Server'' 2000
      else if e = ENGINE_POSTGRES then canonical ENGINE_POSTGRES ''PostgreSQL'' 2000
      else if e = ENGINE_MYSQL then canonical ENGINE_MYSQL ''MySQL'' 1500
      else if e = ENGINE_MARIADB then canonical ENGINE_MARIADB ''MariaDB'' 1500
      else if e = ENGINE_ORACLE then canonical ENGINE_ORACLE ''Oracle'' 5000
      else if e = ENGINE_SYBASE_ASE then canonical ENGINE_SYBASE_ASE ''Adaptive Server Enterprise'' 1000
      else if e = ENGINE_SYBASE_ASA then canonical ENGINE_SYBASE_ASA ''SQL Anywhere'' 1000
      else if e = ENGINE_SQLITE then canonical ENGINE_SQLITE ''SQLite'' 1000
      else if e = ENGINE_DB2 then canonical ENGINE_DB2 ''IBM Db2'' 1000
      else if e = ENGINE_SNOWFLAKE then canonical ENGINE_SNOWFLAKE ''Snowflake'' 1000
      else if e = ENGINE_REDSHIFT then canonical ENGINE_REDSHIFT ''Amazon Redshift'' 1000
      else if e = ENGINE_BIGQUERY then canonical ENGINE_BIGQUERY ''Google BigQuery'' 1000
      else if e = ENGINE_MONGODB then canonical ENGINE_MONGODB ''MongoDB'' 1000
      else default_capabilities)"

definition from_driver_name :: "(string \<Rightarrow> string) \<Rightarrow> (string \<Rightarrow> string) \<Rightarrow> string \<Rightarrow> driver_capabilities" where
  "from_driver_name trim lower driver_name = capabilities_of (engine_from_name (lower (trim driver_name)))"

definition detect_from_connection_string ::
  "(string \<Rightarrow> string) \<Rightarrow> (string \<Rightarrow> string) \<Rightarrow> string \<Rightarrow> driver_capabilities"
where
  "detect_from_connection_string trim lower connection_string =
     (let engine = engine_from_name (lower connection_string) in
      if engine = ENGINE_UNKNOWN then default_capabilities else from_driver_name trim lower engine)"

section \<open>Properties\<close>

lemma engine_from_name_known: "engine_from_name s \<in> set all_engines"
  by (simp add: engine_from_name_def all_engines_def)

lemma capabilities_engine: "e \<in> set all_engines \<Longrightarrow> dc_engine (capabilities_of e) = e"
  by (auto simp: all_engines_def capabilities_of_def canonical_def default_capabilities_def)

lemma all_engines_recognised: "list_all (\<lambda>e. engine_from_name e = e) all_engines"
  by code_simp

lemma engine_from_id: "e \<in> set all_engines \<Longrightarrow> engine_from_name e = e"
  using all_engines_recognised by (simp add: list_all_iff)

text \<open>
  The canonical identifiers are stable: detection only ever answers one of them, each of them is
  recognised as itself, and detection from a connection string, which goes through the identifier a
  second time, ends with the engine that was recognised in the string. (\<open>trim\<close> and \<open>lower\<close> have to
  leave the lower-case identifiers alone, as the standard library does.)
\<close>

theorem detect_engine_stable:
  assumes "\<And>e. e \<in> set all_engines \<Longrightarrow> trim e = e \<and> lower e = e"
  shows "dc_engine (from_driver_name trim lower name) = engine_from_name (lower (trim name)) \<and>
    dc_engine (detect_from_connection_string trim lower conn_str) = engine_from_name (lower conn_str) \<and>
    engine_from_name (lower conn_str) \<in> set all_engines \<and>
    (\<forall>e \<in> set all_engines. dc_engine (from_driver_name trim lower e) = e)"
proof -
  have d: "dc_engine (from_driver_name trim lower s) = engine_from_name (lower (trim s))" for s
    by (simp add: from_driver_name_def capabilities_engine engine_from_name_known)
  have "dc_engine (detect_from_connection_string trim lower conn_str) = engine_from_name (lower conn_str)"
    using assms engine_from_name_known[of "lower conn_str"]
    by (simp add: detect_from_connection_string_def Let_def d engine_from_id default_capabilities_def)
  then show ?thesis using assms engine_from_name_known by (simp add: d engine_from_id)
qed

theorem detect_engine_stable_witness:
  "dc_engine (detect_from_connection_string id to_ascii_lowercase ''Driver={MariaDB ODBC};Server=mysql1'') =
     ENGINE_MARIADB"
proof -
  have "id e = e \<and> to_ascii_lowercase e = e" if "e \<in> set all_engines" for e
    using that by (auto simp: all_engines_def engine_ids to_ascii_lowercase_def to_ascii_lower_char_def)
  from detect_engine_stable[of id to_ascii_lowercase, OF this, of _ "''Driver={MariaDB ODBC};Server=mysql1''"]
  have "dc_engine (detect_from_connection_string id to_ascii_lowercase ''Driver={MariaDB ODBC};Server=mysql1'') =
     engine_from_name (to_ascii_lowercase ''Driver={MariaDB ODBC};Server=mysql1'')" by blast
  also have "to_ascii_lowercase ''Driver={MariaDB ODBC};Server=mysql1'' = ''driver={mariadb odbc};server=mysql1''"
    by code_simp
  also have "engine_from_name ''driver={mariadb odbc};server=mysql1'' = ENGINE_MARIADB"
    by code_simp
  finally show ?thesis .
qed

end
