(* ===== verification/Handles.thy ===== *)
theory Handles
  imports Engines
begin

text \<open>
  \<open>handles/mod.rs\<close> and \<open>engine/dbms_info.rs\<close>: the table of open connections with the allocation of
  its identifiers, and the introspection of a connection. The ODBC driver behind \<open>odbc_api\<close> is the
  argument \<open>drv\<close>: it decides every call from the connection's history. A connection is modelled by
  that history, so that properties can say which calls the driver saw, and in which order.
\<close>

section \<open>Connections and the driver\<close>

datatype call = Exec string | SetAutocommit bool | CommitCall | RollbackCall

text \<open>
  \<open>Arc<Mutex<CachedConnection>>\<close>: the connection string, whether the mutex is poisoned, and the
  calls made so far with their success.
\<close>

record connection =
  cn_str :: string
  cn_poisoned :: bool
  cn_log :: "(call \<times> bool) list"

text \<open>
  What fetching the next row of a cursor gives: an error, or a row, from which the text of a column is
  an error, \<open>NULL\<close> or the bytes.
\<close>

type_synonym fetched = "odbc_api_error + (nat \<Rightarrow> odbc_api_error + bytes option)"

datatype name_kind = CatalogName | SchemaName | TableName | ColumnName

record driver =
  dv_environment :: "odbc_api_error option"
  dv_connect :: "string \<Rightarrow> u32 option \<Rightarrow> odbc_api_error option"
  dv_call :: "connection \<Rightarrow> call \<Rightarrow> odbc_api_error option"
  dv_rows :: "connection \<Rightarrow> string \<Rightarrow> fetched list option"
  dv_dbms_name :: "connection \<Rightarrow> odbc_api_error + string"
  dv_max_name_len :: "connection \<Rightarrow> name_kind \<Rightarrow> odbc_api_error + u16"
  dv_current_catalog :: "connection \<Rightarrow> odbc_api_error + string"
  dv_trim :: "string \<Rightarrow> string"
  dv_lower :: "string \<Rightarrow> string"

definition conn_call :: "driver \<Rightarrow> call \<Rightarrow> connection \<Rightarrow> unit result \<times> connection" where
  "conn_call drv c conn =
     (case dv_call drv conn c of
        None \<Rightarrow> (Ok (), conn\<lparr>cn_log := cn_log conn @ [(c, True)]\<rparr>)
      | Some e \<Rightarrow> (Err (from_odbc_api e), conn\<lparr>cn_log := cn_log conn @ [(c, False)]\<rparr>))"

text \<open>The autocommit mode a history leaves: ODBC connections start with autocommit on.\<close>

fun autocommit_step :: "bool \<Rightarrow> call \<times> bool \<Rightarrow> bool" where
  "autocommit_step a (SetAutocommit b, True) = b"
| "autocommit_step a _ = a"

definition autocommit_of :: "(call \<times> bool) list \<Rightarrow> bool" where
  "autocommit_of log = foldl autocommit_step True log"

section \<open>The handle manager\<close>

definition MAX_CONN_ID_ALLOC_ATTEMPTS :: nat where "MAX_CONN_ID_ALLOC_ATTEMPTS = 1000"

record handle_manager =
  hm_env :: bool
  hm_connections :: "u32 \<rightharpoonup> connection"
  hm_next_conn_id :: u32

definition handle_manager_new :: handle_manager where
  "handle_manager_new = \<lparr>hm_env = False, hm_connections = Map.empty, hm_next_conn_id = 1\<rparr>"

definition init_environment :: "driver \<Rightarrow> handle_manager \<Rightarrow> unit result \<times> handle_manager" where
  "init_environment drv hm =
     (case dv_environment drv of
        Some e \<Rightarrow> (Err (from_odbc_api e), hm)
      | None \<Rightarrow> (Ok (), hm\<lparr>hm_env := True\<rparr>))"

text \<open>The allocation loop: the identifier it found, or 0, and the counter it leaves.\<close>

fun alloc_conn_id :: "nat \<Rightarrow> (u32 \<rightharpoonup> 'c) \<Rightarrow> u32 \<Rightarrow> u32 \<times> u32" where
  "alloc_conn_id 0 conns nxt = (0, nxt)"
| "alloc_conn_id (Suc n) conns nxt =
     (if nxt \<noteq> 0 \<and> conns nxt = None then (nxt, nxt + 1) else alloc_conn_id n conns (nxt + 1))"

definition create_connection_with_options ::
  "driver \<Rightarrow> string \<Rightarrow> u32 option \<Rightarrow> handle_manager \<Rightarrow> u32 result \<times> handle_manager"
where
  "create_connection_with_options drv conn_str login_timeout_sec hm =
     (if \<not> hm_env hm then (Err EnvironmentNotInitialized, hm)
      else
        (case dv_connect drv conn_str login_timeout_sec of
           Some e \<Rightarrow> (Err (from_odbc_api e), hm)
         | None \<Rightarrow>
             let (conn_id, nxt) = alloc_conn_id MAX_CONN_ID_ALLOC_ATTEMPTS (hm_connections hm) (hm_next_conn_id hm);
                 hm1 = hm\<lparr>hm_next_conn_id := nxt\<rparr>
             in if conn_id = 0 then
                  (Err (InternalError ''Failed to allocate connection ID after max attempts''), hm1)
                else
                  (Ok conn_id,
                   hm1\<lparr>hm_connections := (hm_connections hm1)(conn_id \<mapsto>
                      \<lparr>cn_str = conn_str, cn_poisoned = False, cn_log = []\<rparr>)\<rparr>)))"

definition create_connection :: "driver \<Rightarrow> string \<Rightarrow> handle_manager \<Rightarrow> u32 result \<times> handle_manager" where
  "create_connection drv conn_str hm = create_connection_with_options drv conn_str None hm"

definition create_connection_with_timeout ::
  "driver \<Rightarrow> string \<Rightarrow> u32 \<Rightarrow> handle_manager \<Rightarrow> u32 result \<times> handle_manager"
where
  "create_connection_with_timeout drv conn_str timeout_secs hm =
     create_connection_with_options drv conn_str (Some timeout_secs) hm"

definition get_connection :: "handle_manager \<Rightarrow> u32 \<Rightarrow> connection result" where
  "get_connection hm conn_id = ok_or (hm_connections hm conn_id) (InvalidHandle conn_id)"

definition with_connection :: "handle_manager \<Rightarrow> u32 \<Rightarrow> (connection \<Rightarrow> 'a result) \<Rightarrow> 'a result" where
  "with_connection hm conn_id f =
     obind (get_connection hm conn_id) (\<lambda>conn.
     if cn_poisoned conn then Err (InternalError ''Failed to lock connection'') else f conn)"

definition remove_connection :: "u32 \<Rightarrow> handle_manager \<Rightarrow> unit result \<times> handle_manager" where
  "remove_connection conn_id hm =
     (case hm_connections hm conn_id of
        None \<Rightarrow> (Err (InvalidHandle conn_id), hm)
      | Some _ \<Rightarrow> (Ok (), hm\<lparr>hm_connections := (hm_connections hm)(conn_id := None)\<rparr>))"

definition has_environment :: "handle_manager \<Rightarrow> bool" where
  "has_environment hm = hm_env hm"

text \<open>\<open>SharedHandleManager = Arc<Mutex<HandleManager>>\<close>\<close>

record world =
  w_poisoned :: bool
  w_handles :: handle_manager

text \<open>\<open>handles.lock()\<close>, \<open>get_connection\<close> and \<open>conn_arc.lock()\<close>, as every client takes them.\<close>

definition lock_connection :: "string \<Rightarrow> world \<Rightarrow> u32 \<Rightarrow> connection result" where
  "lock_connection handles_msg w conn_id =
     (if w_poisoned w then Err (InternalError handles_msg)
      else
        obind (get_connection (w_handles w) conn_id) (\<lambda>conn.
        if cn_poisoned conn then Err (InternalError ''Failed to lock connection'') else Ok conn))"

definition put_connection :: "u32 \<Rightarrow> connection \<Rightarrow> world \<Rightarrow> world" where
  "put_connection conn_id conn w =
     w\<lparr>w_handles := (w_handles w)\<lparr>hm_connections := (hm_connections (w_handles w))(conn_id \<mapsto> conn)\<rparr>\<rparr>"

section \<open>Introspection\<close>

record dbms_info =
  di_dbms_name :: string
  di_engine :: string
  di_max_catalog_name_len :: u32
  di_max_schema_name_len :: u32
  di_max_table_name_len :: u32
  di_max_column_name_len :: u32
  di_current_catalog :: string
  di_capabilities :: driver_capabilities

definition best_effort_len :: "odbc_api_error + u16 \<Rightarrow> u32" where
  "best_effort_len r = (case r of Inl _ \<Rightarrow> 0 | Inr n \<Rightarrow> ucast n)"

definition dbms_detect :: "driver \<Rightarrow> connection \<Rightarrow> dbms_info result" where
  "dbms_detect drv conn =
     (case dv_dbms_name drv conn of
        Inl e \<Rightarrow> Err (from_odbc_api e)
      | Inr dbms_name \<Rightarrow>
          let capabilities = (from_driver_name (dv_trim drv) (dv_lower drv) dbms_name)\<lparr>dc_driver_name := dbms_name\<rparr>
          in Ok \<lparr>di_dbms_name = dbms_name, di_engine = dc_engine capabilities,
                 di_max_catalog_name_len = best_effort_len (dv_max_name_len drv conn CatalogName),
                 di_max_schema_name_len = best_effort_len (dv_max_name_len drv conn SchemaName),
                 di_max_table_name_len = best_effort_len (dv_max_name_len drv conn TableName),
                 di_max_column_name_len = best_effort_len (dv_max_name_len drv conn ColumnName),
                 di_current_catalog = (case dv_current_catalog drv conn of Inl _ \<Rightarrow> [] | Inr c \<Rightarrow> c),
                 di_capabilities = capabilities\<rparr>)"

definition detect_for_conn_id :: "driver \<Rightarrow> world \<Rightarrow> u32 \<Rightarrow> dbms_info result" where
  "detect_for_conn_id drv w conn_id =
     obind (lock_connection ''Failed to lock handles'' w conn_id) (dbms_detect drv)"

section \<open>Allocation of identifiers\<close>

lemma alloc_conn_id_sound:
  "alloc_conn_id n conns nxt = (i, nxt') \<Longrightarrow> i \<noteq> 0 \<Longrightarrow> conns i = None \<and> nxt' = i + 1"
  by (induction n conns nxt rule: alloc_conn_id.induct) (auto split: if_splits)

lemma alloc_first_free:
  "nxt \<noteq> 0 \<Longrightarrow> conns nxt = None \<Longrightarrow> alloc_conn_id MAX_CONN_ID_ALLOC_ATTEMPTS conns nxt = (nxt, nxt + 1)"
  using alloc_conn_id.simps(2)[of 999 conns nxt] by (simp add: MAX_CONN_ID_ALLOC_ATTEMPTS_def)

lemma alloc_conn_id_complete:
  "alloc_conn_id n conns nxt = (0, nxt') \<Longrightarrow> k < n \<Longrightarrow> nxt + of_nat k = 0 \<or> conns (nxt + of_nat k) \<noteq> None"
proof (induction n conns nxt arbitrary: k rule: alloc_conn_id.induct)
  case (2 n conns nxt)
  then show ?case
  proof (cases k)
    case (Suc j)
    with 2 have "nxt + 1 + of_nat j = 0 \<or> conns (nxt + 1 + of_nat j) \<noteq> None"
      by (intro "2.IH") (auto split: if_splits)
    with Suc show ?thesis by (simp add: add.assoc)
  qed (auto split: if_splits)
qed simp

text \<open>One thousand consecutive candidates cannot all be taken while fewer than 999 connections are open.\<close>

lemma alloc_conn_id_succeeds:
  assumes "card (dom conns) < n - 1" and "n \<le> 2 ^ 32"
  shows "fst (alloc_conn_id n conns nxt) \<noteq> 0"
proof
  assume "fst (alloc_conn_id n conns nxt) = 0"
  then obtain nxt' where "alloc_conn_id n conns nxt = (0, nxt')" by (cases "alloc_conn_id n conns nxt") auto
  then have taken: "(\<lambda>k. nxt + of_nat k) ` {..<n} \<subseteq> insert 0 (dom conns)"
    using alloc_conn_id_complete by fastforce
  have "inj_on (\<lambda>k. nxt + of_nat k :: u32) {..<n}"
  proof (rule inj_onI)
    fix j k assume "j \<in> {..<n}" "k \<in> {..<n}" "nxt + of_nat j = (nxt + of_nat k :: u32)"
    then have "unat (of_nat j :: u32) = unat (of_nat k :: u32)" "j < 2 ^ 32" "k < 2 ^ 32"
      using assms(2) by auto
    then show "j = k" by (simp add: unat_of_nat take_bit_eq_mod)
  qed
  then have "card ((\<lambda>k. nxt + of_nat k :: u32) ` {..<n}) = n" by (simp add: card_image)
  moreover have "card ((\<lambda>k. nxt + of_nat k :: u32) ` {..<n}) \<le> card (insert 0 (dom conns))"
    using taken by (intro card_mono) simp_all
  moreover have "card (insert 0 (dom conns)) \<le> Suc (card (dom conns))" by (simp add: card_insert_if)
  ultimately show False using assms(1) by linarith
qed

text \<open>A driver that accepts every call and reports the given product name, for concrete runs.\<close>

definition accepting_driver :: "string \<Rightarrow> driver" where
  "accepting_driver name =
     \<lparr>dv_environment = None, dv_connect = (\<lambda>_ _. None), dv_call = (\<lambda>_ _. None),
      dv_rows = (\<lambda>_ _. None), dv_dbms_name = (\<lambda>_. Inr name), dv_max_name_len = (\<lambda>_ _. Inr 0), dv_current_catalog = (\<lambda>_. Inr []),
      dv_trim = id, dv_lower = id\<rparr>"

definition one_connection :: world where
  "one_connection = \<lparr>w_poisoned = False, w_handles = \<lparr>hm_env = True,
     hm_connections = [1 \<mapsto> \<lparr>cn_str = ''DSN=a'', cn_poisoned = False, cn_log = []\<rparr>], hm_next_conn_id = 2\<rparr>\<rparr>"

section \<open>Runs of the handle manager\<close>

text \<open>The operations that change the table, each with the driver's behaviour at that moment.\<close>

datatype handle_op = OpInit driver | OpCreate driver string "u32 option" | OpRemove u32

fun apply_op :: "handle_op \<Rightarrow> handle_manager \<Rightarrow> handle_manager" where
  "apply_op (OpInit drv) hm = snd (init_environment drv hm)"
| "apply_op (OpCreate drv conn_str t) hm = snd (create_connection_with_options drv conn_str t hm)"
| "apply_op (OpRemove i) hm = snd (remove_connection i hm)"

definition run_ops :: "handle_op list \<Rightarrow> handle_manager \<Rightarrow> handle_manager" where
  "run_ops ops hm = fold apply_op ops hm"

lemma create_cases:
  "create_connection_with_options drv s t hm = (r, hm') \<Longrightarrow>
   (\<exists>i. r = Ok i \<and> i \<noteq> 0 \<and> hm_env hm \<and> hm_connections hm i = None \<and>
      hm_connections hm' = (hm_connections hm)(i \<mapsto> \<lparr>cn_str = s, cn_poisoned = False, cn_log = []\<rparr>)) \<or>
   (\<exists>e. r = Err e \<and> hm_connections hm' = hm_connections hm)"
  using alloc_conn_id_sound[of MAX_CONN_ID_ALLOC_ATTEMPTS "hm_connections hm" "hm_next_conn_id hm"]
  by (auto simp: create_connection_with_options_def Let_def split: if_splits option.splits prod.splits)

text \<open>
  The contract of a handle table towards its clients: a handle is not 0, opening one disturbs no
  other, and only closing a handle makes it invalid.
\<close>

locale handle_table =
  fixes lookup :: "'t \<Rightarrow> u32 \<Rightarrow> 'c option" and step :: "'op \<Rightarrow> 't \<Rightarrow> 't" and closes :: "'op \<Rightarrow> u32 \<Rightarrow> bool"
    and start :: 't
  assumes start_empty: "lookup start i = None"
    and zero_invalid: "lookup t 0 = None \<Longrightarrow> lookup (step op t) 0 = None"
    and keeps: "lookup t i = Some c \<Longrightarrow> \<not> closes op i \<Longrightarrow> lookup (step op t) i = Some c"
begin

lemma run_zero_invalid: "lookup t 0 = None \<Longrightarrow> lookup (fold step ops t) 0 = None"
  by (induction ops arbitrary: t) (simp_all add: zero_invalid)

lemma run_keeps:
  "lookup t i = Some c \<Longrightarrow> list_all (\<lambda>op. \<not> closes op i) ops \<Longrightarrow> lookup (fold step ops t) i = Some c"
  by (induction ops arbitrary: t) (simp_all add: keeps)

end

fun op_closes :: "handle_op \<Rightarrow> u32 \<Rightarrow> bool" where
  "op_closes (OpRemove j) i = (j = i)"
| "op_closes _ i = False"

interpretation conns: handle_table hm_connections apply_op op_closes handle_manager_new
proof
  show "hm_connections handle_manager_new i = None" for i by (simp add: handle_manager_new_def)
next
  fix t :: handle_manager and op assume "hm_connections t 0 = None"
  then show "hm_connections (apply_op op t) 0 = None"
  proof (cases op)
    case (OpCreate drv s to)
    obtain r t' where "create_connection_with_options drv s to t = (r, t')" by fastforce
    from create_cases[OF this] this OpCreate \<open>hm_connections t 0 = None\<close> show ?thesis by auto
  qed (auto simp: init_environment_def remove_connection_def split: option.splits)
next
  fix t :: handle_manager and i c op assume "hm_connections t i = Some c" "\<not> op_closes op i"
  then show "hm_connections (apply_op op t) i = Some c"
  proof (cases op)
    case (OpCreate drv s to)
    obtain r t' where "create_connection_with_options drv s to t = (r, t')" by fastforce
    from create_cases[OF this] this OpCreate \<open>hm_connections t i = Some c\<close> show ?thesis by auto
  qed (auto simp: init_environment_def remove_connection_def split: option.splits)
qed

text \<open>
  C38. Connection identifiers are sound in every state the manager can reach: 0 is never a valid
  handle, a new connection gets a non-zero identifier that no open connection has, also after the
  32-bit counter has wrapped, and every other handle keeps its connection.
\<close>

theorem create_connection_fresh:
  assumes "hm = run_ops ops handle_manager_new"
    and "create_connection_with_options drv conn_str t hm = (Ok conn_id, hm')"
  shows "get_connection hm 0 = Err (InvalidHandle 0) \<and> conn_id \<noteq> 0 \<and>
    get_connection hm conn_id = Err (InvalidHandle conn_id) \<and>
    get_connection hm' conn_id = Ok \<lparr>cn_str = conn_str, cn_poisoned = False, cn_log = []\<rparr> \<and>
    (\<forall>j. j \<noteq> conn_id \<longrightarrow> get_connection hm' j = get_connection hm j)"
proof -
  have "hm_connections hm 0 = None"
    using conns.run_zero_invalid[OF conns.start_empty] assms(1) by (simp add: run_ops_def)
  with create_cases[OF assms(2)] show ?thesis by (auto simp: get_connection_def)
qed

theorem create_connection_fresh_witness:
  "let drv = accepting_driver [];
       hm = run_ops [OpInit drv, OpCreate drv ''DSN=a'' None] handle_manager_new
   in fst (create_connection_with_options drv ''DSN=b'' (Some 5) hm) = Ok 2 \<and>
      get_connection hm 2 = Err (InvalidHandle 2)"
proof -
  define drv where "drv = accepting_driver []"
  define hm where "hm = run_ops [OpInit drv, OpCreate drv ''DSN=a'' None] handle_manager_new"
  obtain r hm' where c: "create_connection_with_options drv ''DSN=b'' (Some 5) hm = (r, hm')" by fastforce
  have r: "r = Ok 2"
    using c by (simp add: hm_def drv_def accepting_driver_def run_ops_def handle_manager_new_def init_environment_def
        create_connection_with_options_def alloc_first_free)
  from create_connection_fresh[OF hm_def c[unfolded r]] c r show ?thesis
    unfolding drv_def[symmetric] Let_def hm_def[symmetric] by simp
qed

text \<open>
  Allocation always succeeds while fewer than 999 connections are open: when the environment is
  initialised and the driver connects, the thousand attempts of the loop are enough, wherever the
  counter stands.
\<close>

theorem create_connection_succeeds:
  assumes "hm_env hm" and "dv_connect drv conn_str t = None" and "card (dom (hm_connections hm)) < 999"
  shows "\<exists>conn_id. fst (create_connection_with_options drv conn_str t hm) = Ok conn_id"
proof -
  have "fst (alloc_conn_id MAX_CONN_ID_ALLOC_ATTEMPTS (hm_connections hm) (hm_next_conn_id hm)) \<noteq> 0"
    using assms(3) by (intro alloc_conn_id_succeeds) (simp_all add: MAX_CONN_ID_ALLOC_ATTEMPTS_def)
  with assms(1,2) show ?thesis
    by (auto simp: create_connection_with_options_def Let_def split: prod.splits)
qed

theorem create_connection_succeeds_witness:
  "\<exists>conn_id. fst (create_connection_with_options (accepting_driver []) ''DSN=b'' None
      \<lparr>hm_env = True, hm_connections = Map.empty, hm_next_conn_id = - 1\<rparr>) = Ok conn_id"
  by (rule create_connection_succeeds) (simp_all add: accepting_driver_def)

text \<open>
  A handle stays valid until it is closed: whatever other connections are opened and closed in
  between, looking it up returns the same connection; and once closed it is an \<open>InvalidHandle\<close>.
\<close>

theorem handle_valid_until_removed:
  assumes "get_connection hm i = Ok conn" and "list_all (\<lambda>op. \<not> op_closes op i) ops"
  shows "get_connection (run_ops ops hm) i = Ok conn \<and>
    get_connection (run_ops (ops @ [OpRemove i]) hm) i = Err (InvalidHandle i)"
proof -
  have "hm_connections (run_ops ops hm) i = Some conn"
    unfolding run_ops_def using assms by (intro conns.run_keeps) (simp_all add: get_connection_def)
  then show ?thesis by (simp add: get_connection_def run_ops_def remove_connection_def)
qed

theorem handle_valid_until_removed_witness:
  "let hm = \<lparr>hm_env = True, hm_connections = [1 \<mapsto> \<lparr>cn_str = ''a'', cn_poisoned = False, cn_log = []\<rparr>,
              2 \<mapsto> \<lparr>cn_str = ''b'', cn_poisoned = False, cn_log = []\<rparr>], hm_next_conn_id = 3\<rparr>
   in get_connection (run_ops [OpRemove 2, OpRemove 7] hm) 1 =
        Ok \<lparr>cn_str = ''a'', cn_poisoned = False, cn_log = []\<rparr> \<and>
      get_connection (run_ops ([OpRemove 2, OpRemove 7] @ [OpRemove 1]) hm) 1 = Err (InvalidHandle 1)"
  unfolding Let_def by (rule handle_valid_until_removed) (simp_all add: get_connection_def)

end
