(* ===== verification/Transaction.thy ===== *)
theory Transaction
  imports Handles Identifier
begin

text \<open>
  \<open>engine/transaction.rs\<close>: local transactions. A transaction is begun by vendor-aware \<open>SET\<close>
  statements and by turning autocommit off, and ends in commit, rollback or drop. The functions
  thread the connection (its history of driver calls) or the whole table of handles.
\<close>

section \<open>Options of a transaction\<close>

datatype isolation_level = ReadUncommitted | ReadCommitted | RepeatableRead | Serializable

datatype transaction_access_mode = ReadWrite | ReadOnly

definition access_mode_from_u32 :: "u32 \<Rightarrow> transaction_access_mode" where
  "access_mode_from_u32 v = (if v = 1 then ReadOnly else ReadWrite)"

fun access_mode_keyword :: "transaction_access_mode \<Rightarrow> string" where
  "access_mode_keyword ReadOnly = ''READ ONLY''"
| "access_mode_keyword ReadWrite = ''READ WRITE''"

definition is_read_only :: "transaction_access_mode \<Rightarrow> bool" where
  "is_read_only m \<longleftrightarrow> m = ReadOnly"

record lock_timeout = lt_millis :: "u32 option"

definition engine_default :: lock_timeout where
  "engine_default = \<lparr>lt_millis = None\<rparr>"

definition from_millis :: "u32 \<Rightarrow> lock_timeout" where
  "from_millis millis = (if millis = 0 then \<lparr>lt_millis = None\<rparr> else \<lparr>lt_millis = Some millis\<rparr>)"

text \<open>\<open>std::time::Duration\<close>: seconds and nanoseconds; \<open>as_millis\<close> is a \<open>u128\<close> and cannot overflow.\<close>

record duration =
  du_secs :: u64
  du_nanos :: u32

definition as_nanos :: "duration \<Rightarrow> nat" where
  "as_nanos d = unat (du_secs d) * 1000000000 + unat (du_nanos d)"

definition as_millis :: "duration \<Rightarrow> nat" where
  "as_millis d = unat (du_secs d) * 1000 + unat (du_nanos d) div 1000000"

definition from_duration :: "duration \<Rightarrow> lock_timeout" where
  "from_duration dur =
     (let raw_ms = as_millis dur in
      if raw_ms = 0 \<and> \<not> (du_secs dur = 0 \<and> du_nanos dur = 0) then \<lparr>lt_millis = Some 1\<rparr>
      else if raw_ms = 0 then engine_default
      else \<lparr>lt_millis = Some (case try_u32 raw_ms of Some m \<Rightarrow> m | None \<Rightarrow> - 1)\<rparr>)"

definition is_engine_default :: "lock_timeout \<Rightarrow> bool" where
  "is_engine_default t \<longleftrightarrow> lt_millis t = None"

text \<open>\<open>ms.div_ceil(1000).max(1)\<close>\<close>

definition millis_as_seconds_rounded_up :: "lock_timeout \<Rightarrow> u32 option" where
  "millis_as_seconds_rounded_up t =
     map_option (\<lambda>ms. max (if ms mod 1000 = 0 then ms div 1000 else ms div 1000 + 1) 1) (lt_millis t)"

definition isolation_from_u32 :: "u32 \<Rightarrow> isolation_level option" where
  "isolation_from_u32 v =
     (if v = 0 then Some ReadUncommitted else if v = 1 then Some ReadCommitted
      else if v = 2 then Some RepeatableRead else if v = 3 then Some Serializable else None)"

fun isolation_keyword :: "isolation_level \<Rightarrow> string" where
  "isolation_keyword ReadUncommitted = ''READ UNCOMMITTED''"
| "isolation_keyword ReadCommitted = ''READ COMMITTED''"
| "isolation_keyword RepeatableRead = ''REPEATABLE READ''"
| "isolation_keyword Serializable = ''SERIALIZABLE''"

fun isolation_db2_keyword :: "isolation_level \<Rightarrow> string" where
  "isolation_db2_keyword ReadUncommitted = ''UR''"
| "isolation_db2_keyword ReadCommitted = ''CS''"
| "isolation_db2_keyword RepeatableRead = ''RS''"
| "isolation_db2_keyword Serializable = ''RR''"

fun isolation_debug :: "isolation_level \<Rightarrow> string" where
  "isolation_debug ReadUncommitted = ''ReadUncommitted''"
| "isolation_debug ReadCommitted = ''ReadCommitted''"
| "isolation_debug RepeatableRead = ''RepeatableRead''"
| "isolation_debug Serializable = ''Serializable''"

datatype transaction_state = TS_None | TS_Active | TS_Committed | TS_RolledBack

fun state_debug :: "transaction_state \<Rightarrow> string" where
  "state_debug TS_None = ''None''"
| "state_debug TS_Active = ''Active''"
| "state_debug TS_Committed = ''Committed''"
| "state_debug TS_RolledBack = ''RolledBack''"

datatype savepoint_dialect = SD_Auto | SD_Sql92 | SD_SqlServer

definition dialect_from_u32 :: "u32 \<Rightarrow> savepoint_dialect" where
  "dialect_from_u32 v = (if v = 1 then SD_SqlServer else if v = 2 then SD_Sql92 else SD_Auto)"

datatype isolation_strategy = IS_Sql92 | IS_SqlitePragma | IS_Db2SetCurrent | IS_OracleRestricted | IS_Skip

definition for_engine :: "string \<Rightarrow> isolation_strategy" where
  "for_engine engine =
     (if engine = ENGINE_SQLITE then IS_SqlitePragma
      else if engine = ENGINE_DB2 then IS_Db2SetCurrent
      else if engine = ENGINE_ORACLE then IS_OracleRestricted
      else if engine = ENGINE_SNOWFLAKE then IS_Skip
      else IS_Sql92)"

definition resolve_savepoint_dialect_for_engine :: "string \<Rightarrow> savepoint_dialect" where
  "resolve_savepoint_dialect_for_engine engine =
     (if engine = ENGINE_SQLSERVER then SD_SqlServer else SD_Sql92)"

text \<open>The state is behind a mutex; \<open>None\<close> stands for a poisoned one.\<close>

record transaction =
  tx_conn_id :: u32
  tx_state :: "transaction_state option"
  tx_isolation_level :: isolation_level
  tx_savepoint_dialect :: savepoint_dialect
  tx_access_mode :: transaction_access_mode
  tx_lock_timeout :: lock_timeout

section \<open>Beginning\<close>

text \<open>\<open>step?\<close> where the step also changes a state.\<close>

fun and_then :: "unit result \<times> 's \<Rightarrow> ('s \<Rightarrow> 'a result \<times> 's) \<Rightarrow> 'a result \<times> 's" where
  "and_then (Ok u, s) k = k s"
| "and_then (Err e, s) k = (Err e, s)"
| "and_then (Panic, s) k = (Panic, s)"

definition apply_isolation ::
  "driver \<Rightarrow> string \<Rightarrow> isolation_level \<Rightarrow> connection \<Rightarrow> unit result \<times> connection"
where
  "apply_isolation drv engine_id level conn =
     (case for_engine engine_id of
        IS_Sql92 \<Rightarrow> conn_call drv (Exec (''SET TRANSACTION ISOLATION LEVEL '' @ isolation_keyword level)) conn
      | IS_SqlitePragma \<Rightarrow>
          conn_call drv (Exec (if level = ReadUncommitted then ''PRAGMA read_uncommitted = 1''
                               else ''PRAGMA read_uncommitted = 0'')) conn
      | IS_Db2SetCurrent \<Rightarrow> conn_call drv (Exec (''SET CURRENT ISOLATION = '' @ isolation_db2_keyword level)) conn
      | IS_OracleRestricted \<Rightarrow>
          (case level of
             ReadCommitted \<Rightarrow> conn_call drv (Exec ''SET TRANSACTION ISOLATION LEVEL READ COMMITTED'') conn
           | Serializable \<Rightarrow> conn_call drv (Exec ''SET TRANSACTION ISOLATION LEVEL SERIALIZABLE'') conn
           | _ \<Rightarrow>
             (Err (ValidationError (''Oracle does not support isolation level '' @ isolation_debug level @
                ''; only ReadCommitted and Serializable are supported'')), conn))
      | IS_Skip \<Rightarrow> (Ok (), conn))"

definition apply_access_mode ::
  "driver \<Rightarrow> string \<Rightarrow> transaction_access_mode \<Rightarrow> connection \<Rightarrow> unit result \<times> connection"
where
  "apply_access_mode drv engine_id access_mode conn =
     (if \<not> is_read_only access_mode then (Ok (), conn)
      else if engine_id \<in> {ENGINE_POSTGRES, ENGINE_MYSQL, ENGINE_MARIADB, ENGINE_DB2, ENGINE_ORACLE}
      then conn_call drv (Exec (''SET TRANSACTION '' @ access_mode_keyword access_mode)) conn
      else (Ok (), conn))"

definition apply_lock_timeout ::
  "driver \<Rightarrow> string \<Rightarrow> lock_timeout \<Rightarrow> connection \<Rightarrow> unit result \<times> connection"
where
  "apply_lock_timeout drv engine_id t conn =
     (if is_engine_default t then (Ok (), conn)
      else
        (case (lt_millis t, millis_as_seconds_rounded_up t) of
           (Some ms, Some secs) \<Rightarrow>
             if engine_id = ENGINE_SQLSERVER then
               conn_call drv (Exec (''SET LOCK_TIMEOUT '' @ show_nat (unat ms))) conn
             else if engine_id = ENGINE_POSTGRES then
               conn_call drv (Exec (''SET LOCAL lock_timeout = '' @ [CHR 0x27] @ show_nat (unat ms) @ ''ms'' @ [CHR 0x27])) conn
             else if engine_id \<in> {ENGINE_MYSQL, ENGINE_MARIADB} then
               conn_call drv (Exec (''SET SESSION innodb_lock_wait_timeout = '' @ show_nat (unat secs))) conn
             else if engine_id = ENGINE_DB2 then
               conn_call drv (Exec (''SET CURRENT LOCK TIMEOUT '' @ show_nat (unat secs))) conn
             else if engine_id = ENGINE_SQLITE then
               conn_call drv (Exec (''PRAGMA busy_timeout = '' @ show_nat (unat ms))) conn
             else (Ok (), conn)
         | _ \<Rightarrow> (Panic, conn)))"

definition detect_engine_and_dialect ::
  "driver \<Rightarrow> world \<Rightarrow> u32 \<Rightarrow> savepoint_dialect \<Rightarrow> string \<times> savepoint_dialect"
where
  "detect_engine_and_dialect drv w conn_id requested =
     (case requested of
        SD_Sql92 \<Rightarrow> (ENGINE_UNKNOWN, SD_Sql92)
      | SD_SqlServer \<Rightarrow> (ENGINE_SQLSERVER, SD_SqlServer)
      | SD_Auto \<Rightarrow>
          (case detect_for_conn_id drv w conn_id of
             Ok info \<Rightarrow> (di_engine info, resolve_savepoint_dialect_for_engine (di_engine info))
           | _ \<Rightarrow> (ENGINE_UNKNOWN, SD_Sql92)))"

text \<open>The four steps on the locked connection, in the order of the source.\<close>

definition begin_on_connection ::
  "driver \<Rightarrow> string \<Rightarrow> isolation_level \<Rightarrow> transaction_access_mode \<Rightarrow> lock_timeout \<Rightarrow> connection \<Rightarrow>
   unit result \<times> connection"
where
  "begin_on_connection drv engine_id level mode t conn =
     and_then (apply_isolation drv engine_id level conn) (\<lambda>conn.
     and_then (apply_access_mode drv engine_id mode conn) (\<lambda>conn.
     and_then (apply_lock_timeout drv engine_id t conn) (\<lambda>conn.
     conn_call drv (SetAutocommit False) conn)))"

definition begin_with_lock_timeout ::
  "driver \<Rightarrow> u32 \<Rightarrow> isolation_level \<Rightarrow> savepoint_dialect \<Rightarrow> transaction_access_mode \<Rightarrow> lock_timeout \<Rightarrow>
   world \<Rightarrow> transaction result \<times> world"
where
  "begin_with_lock_timeout drv conn_id level dialect mode t w =
     (let (engine_id, resolved) = detect_engine_and_dialect drv w conn_id dialect in
      case lock_connection ''Failed to lock handles'' w conn_id of
        Ok conn \<Rightarrow>
          let (r, conn') = begin_on_connection drv engine_id level mode t conn in
          (omap (\<lambda>_. \<lparr>tx_conn_id = conn_id, tx_state = Some TS_Active, tx_isolation_level = level,
                      tx_savepoint_dialect = resolved, tx_access_mode = mode, tx_lock_timeout = t\<rparr>) r,
           put_connection conn_id conn' w)
      | Err e \<Rightarrow> (Err e, w)
      | Panic \<Rightarrow> (Panic, w))"

definition begin_with_access_mode ::
  "driver \<Rightarrow> u32 \<Rightarrow> isolation_level \<Rightarrow> savepoint_dialect \<Rightarrow> transaction_access_mode \<Rightarrow>
   world \<Rightarrow> transaction result \<times> world"
where
  "begin_with_access_mode drv conn_id level dialect mode w =
     begin_with_lock_timeout drv conn_id level dialect mode engine_default w"

definition begin_with_dialect ::
  "driver \<Rightarrow> u32 \<Rightarrow> isolation_level \<Rightarrow> savepoint_dialect \<Rightarrow> world \<Rightarrow> transaction result \<times> world"
where
  "begin_with_dialect drv conn_id level dialect w =
     begin_with_access_mode drv conn_id level dialect ReadWrite w"

definition begin_txn :: "driver \<Rightarrow> u32 \<Rightarrow> isolation_level \<Rightarrow> world \<Rightarrow> transaction result \<times> world" where
  "begin_txn drv conn_id level w = begin_with_dialect drv conn_id level SD_Auto w"

section \<open>Ending\<close>

text \<open>\<open>commit()\<close> or \<open>rollback()\<close> of the driver, then always \<open>set_autocommit(true)\<close>, whose failure is only logged.\<close>

definition finish_on_connection :: "driver \<Rightarrow> call \<Rightarrow> connection \<Rightarrow> unit result \<times> connection" where
  "finish_on_connection drv c conn =
     (let (r, conn1) = conn_call drv c conn;
          (_, conn2) = conn_call drv (SetAutocommit True) conn1
      in (r, conn2))"

definition drop_transaction :: "driver \<Rightarrow> transaction \<Rightarrow> world \<Rightarrow> world" where
  "drop_transaction drv tx w =
     (if tx_state tx \<noteq> Some TS_Active then w
      else
        (case lock_connection [] w (tx_conn_id tx) of
           Ok conn \<Rightarrow> put_connection (tx_conn_id tx) (snd (finish_on_connection drv RollbackCall conn)) w
         | _ \<Rightarrow> w))"

text \<open>The bodies of \<open>commit\<close> and \<open>rollback\<close>, with the state they leave in the transaction.\<close>

definition commit_body :: "driver \<Rightarrow> transaction \<Rightarrow> world \<Rightarrow> unit result \<times> transaction \<times> world" where
  "commit_body drv tx w =
     (case tx_state tx of
        None \<Rightarrow> (Err (InternalError ''Failed to lock transaction state''), tx, w)
      | Some s \<Rightarrow>
          if s \<noteq> TS_Active then
            (Err (ValidationError (''Cannot commit: transaction state is '' @ state_debug s)), tx, w)
          else
            (case lock_connection ''Failed to lock handles for commit'' w (tx_conn_id tx) of
               Ok conn \<Rightarrow>
                 let (r, conn') = finish_on_connection drv CommitCall conn;
                     w' = put_connection (tx_conn_id tx) conn' w
                 in (case r of
                       Ok _ \<Rightarrow> (Ok (), tx\<lparr>tx_state := Some TS_Committed\<rparr>, w')
                     | Err e \<Rightarrow> (Err e, tx\<lparr>tx_state := Some TS_RolledBack\<rparr>, w')
                     | Panic \<Rightarrow> (Panic, tx, w'))
             | Err e \<Rightarrow> (Err e, tx, w)
             | Panic \<Rightarrow> (Panic, tx, w)))"

definition rollback_body :: "driver \<Rightarrow> transaction \<Rightarrow> world \<Rightarrow> unit result \<times> transaction \<times> world" where
  "rollback_body drv tx w =
     (case tx_state tx of
        None \<Rightarrow> (Err (InternalError ''Failed to lock transaction state''), tx, w)
      | Some s \<Rightarrow>
          if s \<noteq> TS_Active then
            (Err (ValidationError (''Cannot rollback: transaction state is '' @ state_debug s)), tx, w)
          else
            (case lock_connection ''Failed to lock handles for rollback'' w (tx_conn_id tx) of
               Ok conn \<Rightarrow>
                 let (r, conn') = finish_on_connection drv RollbackCall conn
                 in (r, tx\<lparr>tx_state := Some TS_RolledBack\<rparr>, put_connection (tx_conn_id tx) conn' w)
             | Err e \<Rightarrow> (Err e, tx, w)
             | Panic \<Rightarrow> (Panic, tx, w)))"

text \<open>Both consume the transaction, so \<open>Drop\<close> runs on the state they leave.\<close>

definition commit :: "driver \<Rightarrow> transaction \<Rightarrow> world \<Rightarrow> unit result \<times> world" where
  "commit drv tx w = (let (r, tx', w') = commit_body drv tx w in (r, drop_transaction drv tx' w'))"

definition rollback :: "driver \<Rightarrow> transaction \<Rightarrow> world \<Rightarrow> unit result \<times> world" where
  "rollback drv tx w = (let (r, tx', w') = rollback_body drv tx w in (r, drop_transaction drv tx' w'))"

text \<open>The closure borrows the transaction; if it panics, unwinding drops the transaction.\<close>

definition execute_with_lock_timeout ::
  "driver \<Rightarrow> u32 \<Rightarrow> isolation_level \<Rightarrow> savepoint_dialect \<Rightarrow> transaction_access_mode \<Rightarrow> lock_timeout \<Rightarrow>
   (transaction \<Rightarrow> world \<Rightarrow> 'a result \<times> world) \<Rightarrow> world \<Rightarrow> 'a result \<times> world"
where
  "execute_with_lock_timeout drv conn_id level dialect mode t f w =
     (case begin_with_lock_timeout drv conn_id level dialect mode t w of
        (Err e, w1) \<Rightarrow> (Err e, w1)
      | (Panic, w1) \<Rightarrow> (Panic, w1)
      | (Ok tx, w1) \<Rightarrow>
          (case f tx w1 of
             (Ok x, w2) \<Rightarrow> and_then (commit drv tx w2) (\<lambda>w3. (Ok x, w3))
           | (Err original, w2) \<Rightarrow> (Err original, snd (rollback drv tx w2))
           | (Panic, w2) \<Rightarrow> (Panic, drop_transaction drv tx w2)))"

definition execute_with_access_mode ::
  "driver \<Rightarrow> u32 \<Rightarrow> isolation_level \<Rightarrow> savepoint_dialect \<Rightarrow> transaction_access_mode \<Rightarrow>
   (transaction \<Rightarrow> world \<Rightarrow> 'a result \<times> world) \<Rightarrow> world \<Rightarrow> 'a result \<times> world"
where
  "execute_with_access_mode drv conn_id level dialect mode f w =
     execute_with_lock_timeout drv conn_id level dialect mode engine_default f w"

definition execute_with_dialect ::
  "driver \<Rightarrow> u32 \<Rightarrow> isolation_level \<Rightarrow> savepoint_dialect \<Rightarrow>
   (transaction \<Rightarrow> world \<Rightarrow> 'a result \<times> world) \<Rightarrow> world \<Rightarrow> 'a result \<times> world"
where
  "execute_with_dialect drv conn_id level dialect f w =
     execute_with_access_mode drv conn_id level dialect ReadWrite f w"

definition execute_txn ::
  "driver \<Rightarrow> u32 \<Rightarrow> isolation_level \<Rightarrow> (transaction \<Rightarrow> world \<Rightarrow> 'a result \<times> world) \<Rightarrow> world \<Rightarrow> 'a result \<times> world"
where
  "execute_txn drv conn_id level f w = execute_with_dialect drv conn_id level SD_Auto f w"

section \<open>Statements and savepoints\<close>

definition execute_sql :: "driver \<Rightarrow> transaction \<Rightarrow> string \<Rightarrow> world \<Rightarrow> unit result \<times> world" where
  "execute_sql drv tx sql w =
     (case lock_connection ''Failed to lock handles for execute_sql'' w (tx_conn_id tx) of
        Ok conn \<Rightarrow> let (r, conn') = conn_call drv (Exec sql) conn in (r, put_connection (tx_conn_id tx) conn' w)
      | Err e \<Rightarrow> (Err e, w)
      | Panic \<Rightarrow> (Panic, w))"

fun quoting_for :: "savepoint_dialect \<Rightarrow> identifier_quoting" where
  "quoting_for SD_SqlServer = Brackets"
| "quoting_for _ = DoubleQuote"

text \<open>\<open>let x = m?; k(x)\<close> for an \<open>m\<close> that leaves the state alone.\<close>

definition try_with :: "'a result \<Rightarrow> 's \<Rightarrow> ('a \<Rightarrow> 'b result \<times> 's) \<Rightarrow> 'b result \<times> 's" where
  "try_with m w k = (case m of Ok x \<Rightarrow> k x | Err e \<Rightarrow> (Err e, w) | Panic \<Rightarrow> (Panic, w))"

definition savepoint_create :: "driver \<Rightarrow> transaction \<Rightarrow> string \<Rightarrow> world \<Rightarrow> unit result \<times> world" where
  "savepoint_create drv tx name w =
     try_with (validate_identifier name) w (\<lambda>_.
     try_with (quote_identifier name (quoting_for (tx_savepoint_dialect tx))) w (\<lambda>qname.
     execute_sql drv tx
       (case tx_savepoint_dialect tx of
          SD_SqlServer \<Rightarrow> ''SAVE TRANSACTION '' @ qname
        | _ \<Rightarrow> ''SAVEPOINT '' @ qname) w))"

definition savepoint_rollback_to :: "driver \<Rightarrow> transaction \<Rightarrow> string \<Rightarrow> world \<Rightarrow> unit result \<times> world" where
  "savepoint_rollback_to drv tx name w =
     try_with (validate_identifier name) w (\<lambda>_.
     try_with (quote_identifier name (quoting_for (tx_savepoint_dialect tx))) w (\<lambda>qname.
     execute_sql drv tx
       (case tx_savepoint_dialect tx of
          SD_SqlServer \<Rightarrow> ''ROLLBACK TRANSACTION '' @ qname
        | _ \<Rightarrow> ''ROLLBACK TO SAVEPOINT '' @ qname) w))"

definition savepoint_release :: "driver \<Rightarrow> transaction \<Rightarrow> string \<Rightarrow> world \<Rightarrow> unit result \<times> world" where
  "savepoint_release drv tx name w =
     try_with (validate_identifier name) w (\<lambda>_.
     case tx_savepoint_dialect tx of
       SD_SqlServer \<Rightarrow> (Ok (), w)
     | _ \<Rightarrow>
         try_with (quote_identifier name DoubleQuote) w (\<lambda>qname.
         execute_sql drv tx (''RELEASE SAVEPOINT '' @ qname) w))"

definition is_active :: "transaction \<Rightarrow> bool" where
  "is_active tx = (case tx_state tx of Some s \<Rightarrow> s = TS_Active | None \<Rightarrow> False)"

text \<open>The borrowing \<open>Savepoint\<close> value: its transaction and its name.\<close>

record savepoint =
  sp_transaction :: transaction
  sp_name :: string

definition savepoint_new :: "driver \<Rightarrow> transaction \<Rightarrow> string \<Rightarrow> world \<Rightarrow> savepoint result \<times> world" where
  "savepoint_new drv tx name w =
     (let (r, w') = savepoint_create drv tx name w
      in (omap (\<lambda>_. \<lparr>sp_transaction = tx, sp_name = name\<rparr>) r, w'))"

definition rollback_to :: "driver \<Rightarrow> savepoint \<Rightarrow> world \<Rightarrow> unit result \<times> world" where
  "rollback_to drv sp w = savepoint_rollback_to drv (sp_transaction sp) (sp_name sp) w"

definition release :: "driver \<Rightarrow> savepoint \<Rightarrow> world \<Rightarrow> unit result \<times> world" where
  "release drv sp w = savepoint_release drv (sp_transaction sp) (sp_name sp) w"

section \<open>Steps on a connection\<close>

lemma conn_call_cases:
  obtains "dv_call drv conn c = None" "conn_call drv c conn = (Ok (), conn\<lparr>cn_log := cn_log conn @ [(c, True)]\<rparr>)"
  | e where "dv_call drv conn c = Some e"
      "conn_call drv c conn = (Err (from_odbc_api e), conn\<lparr>cn_log := cn_log conn @ [(c, False)]\<rparr>)"
  by (cases "dv_call drv conn c") (simp_all add: conn_call_def)

text \<open>
  What the vendor-aware setters promise to the transaction that calls them: they do not panic, and
  all they do to the connection is to add calls of the allowed kind to its history.
\<close>

locale conn_step =
  fixes f :: "connection \<Rightarrow> unit result \<times> connection" and allowed :: "call \<times> bool \<Rightarrow> bool"
  assumes no_panic: "fst (f conn) \<noteq> Panic"
    and extends: "\<exists>l. snd (f conn) = conn\<lparr>cn_log := cn_log conn @ l\<rparr> \<and> list_all allowed l"
begin

lemma lock_state: "cn_poisoned (snd (f conn)) = cn_poisoned conn" "cn_str (snd (f conn)) = cn_str conn"
  using extends[of conn] by auto

lemma autocommit_kept:
  assumes "\<And>e a. allowed e \<Longrightarrow> autocommit_step a e = a"
  shows "autocommit_of (cn_log (snd (f conn))) = autocommit_of (cn_log conn)"
proof -
  obtain l where l: "snd (f conn) = conn\<lparr>cn_log := cn_log conn @ l\<rparr>" "list_all allowed l"
    using extends by blast
  have "foldl autocommit_step a l = a" for a
    using l(2) assms by (induction l arbitrary: a) simp_all
  with l(1) show ?thesis by (simp add: autocommit_of_def)
qed

end

fun is_exec :: "call \<times> bool \<Rightarrow> bool" where
  "is_exec (Exec _, _) = True"
| "is_exec _ = False"

lemma is_exec_autocommit: "is_exec e \<Longrightarrow> autocommit_step a e = a"
  by (cases e; cases "fst e") auto

lemma conn_step_call: "allowed (c, True) \<Longrightarrow> allowed (c, False) \<Longrightarrow> conn_step (conn_call drv c) allowed"
  by unfold_locales
    (auto simp: conn_call_def split: option.splits intro: exI[of _ "[(c, True)]"] exI[of _ "[(c, False)]"])

lemma conn_step_if:
  "(b \<Longrightarrow> conn_step f A) \<Longrightarrow> (\<not> b \<Longrightarrow> conn_step g A) \<Longrightarrow> conn_step (\<lambda>conn. if b then f conn else g conn) A"
  by (cases b) simp_all

lemma conn_step_skip: "conn_step (\<lambda>conn. (Ok (), conn)) allowed"
  by unfold_locales (auto intro: exI[of _ "[]"])

lemma conn_step_fail: "conn_step (\<lambda>conn. (Err e, conn)) allowed"
  by unfold_locales (auto intro: exI[of _ "[]"])

lemma conn_step_seq:
  assumes "conn_step f A" "conn_step g A"
  shows "conn_step (\<lambda>conn. and_then (f conn) g) A"
proof
  fix conn
  obtain l where l: "snd (f conn) = conn\<lparr>cn_log := cn_log conn @ l\<rparr>" "list_all A l"
    using conn_step.extends[OF assms(1)] by blast
  obtain l' where l': "snd (g (snd (f conn))) = (snd (f conn))\<lparr>cn_log := cn_log (snd (f conn)) @ l'\<rparr>" "list_all A l'"
    using conn_step.extends[OF assms(2)] by blast
  show "fst (and_then (f conn) g) \<noteq> Panic"
    using conn_step.no_panic[OF assms(1), of conn] conn_step.no_panic[OF assms(2)]
    by (cases "f conn"; cases "fst (f conn)") auto
  show "\<exists>l. snd (and_then (f conn) g) = conn\<lparr>cn_log := cn_log conn @ l\<rparr> \<and> list_all A l"
  proof (cases "fst (f conn)")
    case (Ok u)
    then have "and_then (f conn) g = g (snd (f conn))" by (cases "f conn") auto
    with l l' show ?thesis by (auto intro!: exI[of _ "l @ l'"])
  qed (use l in \<open>cases "f conn"; auto intro!: exI[of _ l]\<close>)+
qed

lemmas exec_step = conn_step_call[of is_exec "Exec s" for s, simplified]

interpretation iso: conn_step "apply_isolation drv engine_id level" is_exec for drv engine_id level
proof -
  show "conn_step (apply_isolation drv engine_id level) is_exec"
    unfolding apply_isolation_def
    by (cases "for_engine engine_id"; cases level) (simp_all add: exec_step conn_step_skip conn_step_fail)
qed

interpretation acc: conn_step "apply_access_mode drv engine_id mode" is_exec for drv engine_id mode
proof -
  show "conn_step (apply_access_mode drv engine_id mode) is_exec"
    unfolding apply_access_mode_def by (intro conn_step_if conn_step_skip exec_step)
qed

interpretation tmo: conn_step "apply_lock_timeout drv engine_id t" is_exec for drv engine_id t
proof -
  show "conn_step (apply_lock_timeout drv engine_id t) is_exec"
    unfolding apply_lock_timeout_def is_engine_default_def millis_as_seconds_rounded_up_def
    by (cases "lt_millis t"; simp only: option.map prod.case option.case)
      (intro conn_step_if conn_step_skip exec_step; simp)+
qed

section \<open>Begin\<close>

definition begin_setup ::
  "driver \<Rightarrow> string \<Rightarrow> isolation_level \<Rightarrow> transaction_access_mode \<Rightarrow> lock_timeout \<Rightarrow> connection \<Rightarrow>
   unit result \<times> connection"
where
  "begin_setup drv engine_id level mode t conn =
     and_then (apply_isolation drv engine_id level conn) (\<lambda>conn.
     and_then (apply_access_mode drv engine_id mode conn) (apply_lock_timeout drv engine_id t))"

lemma and_then_assoc: "and_then (and_then m f) g = and_then m (\<lambda>s. and_then (f s) g)"
  by (cases "(m, f)" rule: prod.exhaust; cases m; cases "fst m") auto

lemma begin_on_connection_split:
  "begin_on_connection drv e level mode t conn =
     and_then (begin_setup drv e level mode t conn) (conn_call drv (SetAutocommit False))"
  by (simp add: begin_on_connection_def begin_setup_def and_then_assoc)

interpretation bset: conn_step "begin_setup drv e level mode t" is_exec for drv e level mode t
proof -
  show "conn_step (begin_setup drv e level mode t) is_exec"
    unfolding begin_setup_def
    by (intro conn_step_seq iso.conn_step_axioms acc.conn_step_axioms tmo.conn_step_axioms)
qed

lemma begin_on_connection_effect:
  assumes "begin_on_connection drv e level mode t conn = (r, conn')"
  shows "cn_poisoned conn' = cn_poisoned conn"
    and "r \<noteq> Panic"
    and "autocommit_of (cn_log conn') = (if r = Ok () then False else autocommit_of (cn_log conn))"
proof -
  let ?s = "begin_setup drv e level mode t conn"
  have kept: "autocommit_of (cn_log (snd ?s)) = autocommit_of (cn_log conn)"
    by (rule bset.autocommit_kept) (rule is_exec_autocommit)
  have "cn_poisoned conn' = cn_poisoned conn \<and> r \<noteq> Panic \<and>
    autocommit_of (cn_log conn') = (if r = Ok () then False else autocommit_of (cn_log conn))"
  proof (cases "fst ?s")
    case (Ok u)
    then have "begin_on_connection drv e level mode t conn = conn_call drv (SetAutocommit False) (snd ?s)"
      by (cases ?s) (auto simp: begin_on_connection_split)
    with assms bset.lock_state[of drv e level mode t conn] kept show ?thesis
      by (cases rule: conn_call_cases[of drv "snd ?s" "SetAutocommit False"])
        (auto simp: autocommit_of_def)
  next
    case (Err er)
    then have "r = Err er" "conn' = snd ?s"
      using assms by (cases ?s; auto simp: begin_on_connection_split)+
    with bset.lock_state[of drv e level mode t conn] kept show ?thesis by auto
  qed (use bset.no_panic in auto)
  then show "cn_poisoned conn' = cn_poisoned conn" "r \<noteq> Panic"
    "autocommit_of (cn_log conn') = (if r = Ok () then False else autocommit_of (cn_log conn))" by auto
qed

lemma lock_connection_put [simp]:
  "lock_connection m w i = Ok conn \<Longrightarrow> cn_poisoned conn' = cn_poisoned conn \<Longrightarrow>
   lock_connection m' (put_connection i conn' w) i = Ok conn'"
  by (auto simp: lock_connection_def put_connection_def get_connection_def split: if_splits)

lemma lock_connection_not_Panic [simp]: "lock_connection m w i \<noteq> Panic"
  by (auto simp: lock_connection_def get_connection_def)

lemma lock_connection_msg: "lock_connection m w i = Ok conn \<Longrightarrow> lock_connection m' w i = Ok conn"
  by (auto simp: lock_connection_def split: if_splits)

lemma detect_never_auto: "snd (detect_engine_and_dialect drv w i d) \<noteq> SD_Auto"
  by (auto simp: detect_engine_and_dialect_def resolve_savepoint_dialect_for_engine_def
      split: savepoint_dialect.splits outcome.splits)

text \<open>
  C6. Beginning a transaction is all or nothing for the autocommit mode: on success the transaction
  is active, its dialect is resolved, and autocommit is off; on any failure, of the driver or of a
  \<open>SET\<close> statement, the connection is still there and its autocommit mode is what it was; and when
  the connection cannot be locked nothing happens at all.
\<close>

theorem begin_all_or_nothing:
  assumes "begin_with_lock_timeout drv conn_id level dialect mode t w = (r, w')"
  shows "case lock_connection ''Failed to lock handles'' w conn_id of
      Ok conn \<Rightarrow>
        (\<exists>conn'. lock_connection ''Failed to lock handles'' w' conn_id = Ok conn' \<and>
          (case r of
             Ok tx \<Rightarrow> \<not> autocommit_of (cn_log conn') \<and> is_active tx \<and> tx_conn_id tx = conn_id \<and>
                      tx_savepoint_dialect tx \<noteq> SD_Auto
           | Err e \<Rightarrow> autocommit_of (cn_log conn') = autocommit_of (cn_log conn)
           | Panic \<Rightarrow> False))
    | Err e \<Rightarrow> r = Err e \<and> w' = w
    | Panic \<Rightarrow> False"
proof (cases "lock_connection ''Failed to lock handles'' w conn_id")
  case (Ok conn)
  obtain e d where ed: "detect_engine_and_dialect drv w conn_id dialect = (e, d)" by fastforce
  with detect_never_auto[of drv w conn_id dialect] have d: "d \<noteq> SD_Auto" by simp
  obtain r1 conn' where b: "begin_on_connection drv e level mode t conn = (r1, conn')" by fastforce
  note eff = begin_on_connection_effect[OF b]
  have r: "r = omap (\<lambda>_. \<lparr>tx_conn_id = conn_id, tx_state = Some TS_Active, tx_isolation_level = level,
      tx_savepoint_dialect = d, tx_access_mode = mode, tx_lock_timeout = t\<rparr>) r1"
    and w': "w' = put_connection conn_id conn' w"
    using assms by (simp_all add: begin_with_lock_timeout_def ed Ok b)
  have "lock_connection ''Failed to lock handles'' w' conn_id = Ok conn'"
    using lock_connection_put[OF Ok eff(1)] w' by simp
  then show ?thesis
    using eff(2,3) r d Ok by (cases r1) (auto simp: is_active_def omap_def)
next
  case (Err e)
  with assms show ?thesis by (auto simp: begin_with_lock_timeout_def split: prod.splits)
qed simp

theorem begin_all_or_nothing_witness:
  "let w' = snd (begin_with_lock_timeout (accepting_driver ''oracle'') 1 RepeatableRead SD_Auto ReadWrite engine_default
                   one_connection)
   in \<exists>conn'. lock_connection ''Failed to lock handles'' w' 1 = Ok conn' \<and> autocommit_of (cn_log conn')"
proof -
  let ?b = "begin_with_lock_timeout (accepting_driver ''oracle'') 1 RepeatableRead SD_Auto ReadWrite engine_default
              one_connection"
  obtain r w' where b: "?b = (r, w')" by fastforce
  have l: "lock_connection ''Failed to lock handles'' one_connection 1 =
      Ok \<lparr>cn_str = ''DSN=a'', cn_poisoned = False, cn_log = []\<rparr>"
    by (simp add: lock_connection_def one_connection_def get_connection_def)
  have "detect_engine_and_dialect (accepting_driver ''oracle'') one_connection 1 SD_Auto = (ENGINE_ORACLE, SD_Sql92)"
    using engine_from_id[of ENGINE_ORACLE] capabilities_engine[of ENGINE_ORACLE]
    by (simp add: detect_engine_and_dialect_def detect_for_conn_id_def l dbms_detect_def accepting_driver_def Let_def
        from_driver_name_def resolve_savepoint_dialect_for_engine_def all_engines_def engine_ids)
  then have "\<exists>e. r = Err e"
    using b by (auto simp: begin_with_lock_timeout_def l begin_on_connection_def apply_isolation_def for_engine_def
        engine_ids omap_def)
  with begin_all_or_nothing[OF b] l show ?thesis by (auto simp: b autocommit_of_def)
qed

section \<open>Commit, rollback, drop\<close>

lemma finish_on_connection_effect:
  obtains ok1 ok2 where
    "cn_log (snd (finish_on_connection drv c conn)) = cn_log conn @ [(c, ok1), (SetAutocommit True, ok2)]"
    "cn_poisoned (snd (finish_on_connection drv c conn)) = cn_poisoned conn"
    "fst (finish_on_connection drv c conn) \<noteq> Panic"
    "fst (finish_on_connection drv c conn) = Ok () \<longleftrightarrow> ok1"
  by (rule conn_call_cases[of drv conn c];
      rule conn_call_cases[of drv "snd (conn_call drv c conn)" "SetAutocommit True"])
    (auto simp: finish_on_connection_def)

lemma autocommit_of_restored: "ok2 \<Longrightarrow> autocommit_of (l @ [(c, ok1), (SetAutocommit True, ok2)])"
  by (simp add: autocommit_of_def)

lemma drop_inactive [simp]: "tx_state tx \<noteq> Some TS_Active \<Longrightarrow> drop_transaction drv tx w = w"
  by (simp add: drop_transaction_def)

lemma commit_active:
  assumes "tx_state tx = Some TS_Active" and "lock_connection m w (tx_conn_id tx) = Ok conn"
  shows "commit drv tx w =
    (fst (finish_on_connection drv CommitCall conn),
     put_connection (tx_conn_id tx) (snd (finish_on_connection drv CommitCall conn)) w)"
proof -
  have "fst (finish_on_connection drv CommitCall conn) \<noteq> Panic" by (rule finish_on_connection_effect) auto
  moreover note lock_connection_msg[OF assms(2), of "''Failed to lock handles for commit''"]
  ultimately show ?thesis
    using assms(1)
    by (cases "fst (finish_on_connection drv CommitCall conn)")
      (auto simp: commit_def commit_body_def Let_def split: prod.splits)
qed

lemma rollback_active:
  assumes "tx_state tx = Some TS_Active" and "lock_connection m w (tx_conn_id tx) = Ok conn"
  shows "rollback drv tx w =
    (fst (finish_on_connection drv RollbackCall conn),
     put_connection (tx_conn_id tx) (snd (finish_on_connection drv RollbackCall conn)) w)"
  using assms(1) lock_connection_msg[OF assms(2), of "''Failed to lock handles for rollback''"]
  by (auto simp: rollback_def rollback_body_def Let_def split: prod.splits)

lemma drop_active:
  assumes "tx_state tx = Some TS_Active" and "lock_connection m w (tx_conn_id tx) = Ok conn"
  shows "drop_transaction drv tx w =
    put_connection (tx_conn_id tx) (snd (finish_on_connection drv RollbackCall conn)) w"
  using assms(1) lock_connection_msg[OF assms(2), of "[]"] by (simp add: drop_transaction_def)

text \<open>What ending a transaction with driver call \<open>c\<close> means for the connection's history.\<close>

definition ends_with :: "call \<Rightarrow> bool \<Rightarrow> connection \<Rightarrow> connection \<Rightarrow> bool" where
  "ends_with c ok conn conn' \<longleftrightarrow>
     (\<exists>restored. cn_log conn' = cn_log conn @ [(c, ok), (SetAutocommit True, restored)] \<and>
        (restored \<longrightarrow> autocommit_of (cn_log conn')))"

lemma finish_ends_with:
  assumes "lock_connection m w i = Ok conn"
  obtains conn' ok where
    "lock_connection m (put_connection i (snd (finish_on_connection drv c conn)) w) i = Ok conn'"
    "ends_with c ok conn conn'" "fst (finish_on_connection drv c conn) = Ok () \<longleftrightarrow> ok"
proof (rule finish_on_connection_effect[of drv c conn])
  fix ok1 ok2
  assume *: "cn_log (snd (finish_on_connection drv c conn)) = cn_log conn @ [(c, ok1), (SetAutocommit True, ok2)]"
    "cn_poisoned (snd (finish_on_connection drv c conn)) = cn_poisoned conn"
    "fst (finish_on_connection drv c conn) = Ok () \<longleftrightarrow> ok1"
  have "ends_with c ok1 conn (snd (finish_on_connection drv c conn))"
    using * autocommit_of_restored[of ok2] by (auto simp: ends_with_def)
  with lock_connection_put[OF assms *(2)] *(3) that show ?thesis by blast
qed

text \<open>
  C5. Autocommit is always restored: ending an active transaction, by commit, by rollback or by
  dropping it, makes exactly two driver calls, the commit or rollback and then
  \<open>set_autocommit(true)\<close>, the second one whether or not the first succeeded; commit and rollback
  report the outcome of the first.
\<close>

theorem end_restores_autocommit:
  assumes "tx_state tx = Some TS_Active" and "lock_connection m w (tx_conn_id tx) = Ok conn"
  shows "(\<exists>conn' ok. lock_connection m (snd (commit drv tx w)) (tx_conn_id tx) = Ok conn' \<and>
            ends_with CommitCall ok conn conn' \<and> (fst (commit drv tx w) = Ok () \<longleftrightarrow> ok)) \<and>
         (\<exists>conn' ok. lock_connection m (snd (rollback drv tx w)) (tx_conn_id tx) = Ok conn' \<and>
            ends_with RollbackCall ok conn conn' \<and> (fst (rollback drv tx w) = Ok () \<longleftrightarrow> ok)) \<and>
         (\<exists>conn' ok. lock_connection m (drop_transaction drv tx w) (tx_conn_id tx) = Ok conn' \<and>
            ends_with RollbackCall ok conn conn')"
  unfolding commit_active[OF assms] rollback_active[OF assms] drop_active[OF assms] fst_conv snd_conv
  by (intro conjI; rule finish_ends_with[OF assms(2)]; blast)

theorem end_restores_autocommit_witness:
  "let tx = \<lparr>tx_conn_id = 1, tx_state = Some TS_Active, tx_isolation_level = ReadCommitted,
             tx_savepoint_dialect = SD_Sql92, tx_access_mode = ReadWrite, tx_lock_timeout = engine_default\<rparr>;
       drv = (accepting_driver [])\<lparr>dv_call := (\<lambda>_ c. if c = CommitCall then Some (OtherApiError ''down'') else None)\<rparr>
   in \<exists>conn' ok. lock_connection [] (snd (commit drv tx one_connection)) 1 = Ok conn' \<and>
        ends_with CommitCall ok \<lparr>cn_str = ''DSN=a'', cn_poisoned = False, cn_log = []\<rparr> conn' \<and>
        (fst (commit drv tx one_connection) = Ok () \<longleftrightarrow> ok)"
proof -
  define tx where "tx = \<lparr>tx_conn_id = 1, tx_state = Some TS_Active, tx_isolation_level = ReadCommitted,
             tx_savepoint_dialect = SD_Sql92, tx_access_mode = ReadWrite, tx_lock_timeout = engine_default\<rparr>"
  have "lock_connection [] one_connection (tx_conn_id tx) = Ok \<lparr>cn_str = ''DSN=a'', cn_poisoned = False, cn_log = []\<rparr>"
    by (simp add: lock_connection_def one_connection_def get_connection_def tx_def)
  from end_restores_autocommit[OF _ this] show ?thesis
    unfolding Let_def tx_def[symmetric] by (simp add: tx_def)
qed

text \<open>
  A transaction that is not active cannot be ended again: commit and rollback return an error
  and make no driver call, and neither does dropping it.
\<close>

theorem end_inactive_rejected:
  assumes "tx_state tx \<noteq> Some TS_Active"
  shows "is_err (fst (commit drv tx w)) \<and> snd (commit drv tx w) = w \<and>
    is_err (fst (rollback drv tx w)) \<and> snd (rollback drv tx w) = w \<and> drop_transaction drv tx w = w"
  using assms by (auto simp: commit_def commit_body_def rollback_def rollback_body_def is_err_def split: option.splits)

theorem end_inactive_rejected_witness:
  "let tx = \<lparr>tx_conn_id = 1, tx_state = Some TS_Committed, tx_isolation_level = ReadCommitted,
             tx_savepoint_dialect = SD_Sql92, tx_access_mode = ReadWrite, tx_lock_timeout = engine_default\<rparr>
   in is_err (fst (commit (accepting_driver []) tx one_connection)) \<and>
      snd (commit (accepting_driver []) tx one_connection) = one_connection"
  unfolding Let_def
  using end_inactive_rejected[of "\<lparr>tx_conn_id = 1, tx_state = Some TS_Committed, tx_isolation_level = ReadCommitted,
             tx_savepoint_dialect = SD_Sql92, tx_access_mode = ReadWrite, tx_lock_timeout = engine_default\<rparr>"
             "accepting_driver []" one_connection]
  by simp

section \<open>Running a closure in a transaction\<close>

lemma begin_Ok_tx:
  assumes "begin_with_lock_timeout drv conn_id level dialect mode t w = (Ok tx, w')"
  shows "tx_conn_id tx = conn_id \<and> tx_state tx = Some TS_Active"
  using assms
  by (auto simp: begin_with_lock_timeout_def Let_def split: prod.splits outcome.splits)

text \<open>
  C4. \<open>execute_with_lock_timeout\<close> ends what it began: whatever the closure did, if it left the
  connection in place, the transaction is committed exactly when the closure returned a value and
  rolled back when it failed or panicked, autocommit is restored, and the caller gets the closure's
  value only if the commit succeeded, and the closure's own error otherwise.
\<close>

theorem execute_commits_or_rolls_back:
  assumes "begin_with_lock_timeout drv conn_id level dialect mode t w = (Ok tx, w1)"
    and "f tx w1 = (r2, w2)" and "lock_connection m w2 conn_id = Ok conn2"
  shows "\<exists>r3 w3 conn3 ok. execute_with_lock_timeout drv conn_id level dialect mode t f w = (r3, w3) \<and>
    lock_connection m w3 conn_id = Ok conn3 \<and>
    (case r2 of
       Ok x \<Rightarrow> ends_with CommitCall ok conn2 conn3 \<and> (if ok then r3 = Ok x else is_err r3)
     | Err e \<Rightarrow> ends_with RollbackCall ok conn2 conn3 \<and> r3 = Err e
     | Panic \<Rightarrow> ends_with RollbackCall ok conn2 conn3 \<and> r3 = Panic)"
proof -
  from begin_Ok_tx[OF assms(1)] have id: "tx_conn_id tx = conn_id" and act: "tx_state tx = Some TS_Active" by auto
  have lock: "lock_connection m w2 (tx_conn_id tx) = Ok conn2" using assms(3) id by simp
  note ex = execute_with_lock_timeout_def[of drv conn_id level dialect mode t f w]
  show ?thesis
  proof (cases r2)
    case (Ok x)
    let ?fin = "finish_on_connection drv CommitCall conn2"
    obtain conn3 ok where c: "lock_connection m (put_connection conn_id (snd ?fin) w2) conn_id = Ok conn3"
      "ends_with CommitCall ok conn2 conn3" "fst ?fin = Ok () \<longleftrightarrow> ok"
      using finish_ends_with[OF assms(3)] by blast
    have "fst ?fin \<noteq> Panic" by (rule finish_on_connection_effect) auto
    with c assms Ok show ?thesis
      by (cases "fst ?fin") (auto simp: ex commit_active[OF act lock] id is_err_def)
  next
    case (Err e)
    let ?fin = "finish_on_connection drv RollbackCall conn2"
    obtain conn3 ok where "lock_connection m (put_connection conn_id (snd ?fin) w2) conn_id = Ok conn3"
      "ends_with RollbackCall ok conn2 conn3"
      using finish_ends_with[OF assms(3)] by blast
    with assms Err show ?thesis by (auto simp: ex rollback_active[OF act lock] id)
  next
    case Panic
    let ?fin = "finish_on_connection drv RollbackCall conn2"
    obtain conn3 ok where "lock_connection m (put_connection conn_id (snd ?fin) w2) conn_id = Ok conn3"
      "ends_with RollbackCall ok conn2 conn3"
      using finish_ends_with[OF assms(3)] by blast
    with assms Panic show ?thesis by (auto simp: ex drop_active[OF act lock] id)
  qed
qed

theorem execute_commits_or_rolls_back_witness:
  "\<exists>r3 w3 conn3 ok. execute_with_lock_timeout (accepting_driver []) 1 Serializable SD_Sql92 ReadWrite engine_default
      (\<lambda>tx w. (Err Cancelled, w)) one_connection = ((r3 :: unit result), w3) \<and>
    lock_connection [] w3 1 = Ok conn3 \<and> r3 = Err Cancelled \<and>
    ends_with RollbackCall ok
      \<lparr>cn_str = ''DSN=a'', cn_poisoned = False,
       cn_log = [(Exec ''SET TRANSACTION ISOLATION LEVEL SERIALIZABLE'', True), (SetAutocommit False, True)]\<rparr> conn3"
proof -
  let ?c = "\<lparr>cn_str = ''DSN=a'', cn_poisoned = False,
       cn_log = [(Exec ''SET TRANSACTION ISOLATION LEVEL SERIALIZABLE'', True), (SetAutocommit False, True)]\<rparr>"
  let ?tx = "\<lparr>tx_conn_id = 1, tx_state = Some TS_Active, tx_isolation_level = Serializable,
       tx_savepoint_dialect = SD_Sql92, tx_access_mode = ReadWrite, tx_lock_timeout = engine_default\<rparr>"
  have b: "begin_with_lock_timeout (accepting_driver []) 1 Serializable SD_Sql92 ReadWrite engine_default one_connection =
      (Ok ?tx, put_connection 1 ?c one_connection)"
    by (simp add: begin_with_lock_timeout_def detect_engine_and_dialect_def lock_connection_def one_connection_def
        get_connection_def begin_on_connection_def apply_isolation_def for_engine_def engine_ids conn_call_def
        accepting_driver_def apply_access_mode_def is_read_only_def apply_lock_timeout_def is_engine_default_def
        engine_default_def)
  have l: "lock_connection [] (put_connection 1 ?c one_connection) 1 = Ok ?c"
    by (simp add: lock_connection_def one_connection_def get_connection_def put_connection_def)
  from execute_commits_or_rolls_back[where f = "\<lambda>tx w. ((Err Cancelled :: unit result), w)", OF b refl l]
  show ?thesis by auto
qed

section \<open>The statements of a begin\<close>

text \<open>
  An abstract specification of the statements a begin sends, in order, or \<open>None\<close> when the combination is
  not supported. The isolation and lock timeout tables are those of the comments. The access mode table
  of the comment (\<open>documented_access_script\<close>) is not what the code does: the comment lists
  \<open>SET TRANSACTION READ WRITE\<close> for PostgreSQL, MySQL, MariaDB and DB2, and the code sends nothing for
  \<open>READ WRITE\<close> on any engine (\<open>access_script\<close>).
\<close>

definition isolation_script :: "string \<Rightarrow> isolation_level \<Rightarrow> string list option" where
  "isolation_script engine level =
     (if engine = ''snowflake'' then Some []
      else if engine = ''sqlite'' then
        Some [''PRAGMA read_uncommitted = '' @ (if level = ReadUncommitted then ''1'' else ''0'')]
      else if engine = ''db2'' then Some [''SET CURRENT ISOLATION = '' @ isolation_db2_keyword level]
      else if engine = ''oracle'' \<and> level \<notin> {ReadCommitted, Serializable} then None
      else Some [''SET TRANSACTION ISOLATION LEVEL '' @ isolation_keyword level])"

definition access_script :: "string \<Rightarrow> transaction_access_mode \<Rightarrow> string list" where
  "access_script engine mode =
     (if mode = ReadOnly \<and> engine \<in> {''postgres'', ''mysql'', ''mariadb'', ''db2'', ''oracle''}
      then [''SET TRANSACTION READ ONLY''] else [])"


definition timeout_script :: "string \<Rightarrow> lock_timeout \<Rightarrow> string list" where
  "timeout_script engine t =
     (case (lt_millis t, millis_as_seconds_rounded_up t) of
        (Some ms, Some secs) \<Rightarrow>
          if engine = ''sqlserver'' then [''SET LOCK_TIMEOUT '' @ show_nat (unat ms)]
          else if engine = ''postgres'' then
            [''SET LOCAL lock_timeout = '' @ [CHR 0x27] @ show_nat (unat ms) @ ''ms'' @ [CHR 0x27]]
          else if engine \<in> {''mysql'', ''mariadb''} then
            [''SET SESSION innodb_lock_wait_timeout = '' @ show_nat (unat secs)]
          else if engine = ''db2'' then [''SET CURRENT LOCK TIMEOUT '' @ show_nat (unat secs)]
          else if engine = ''sqlite'' then [''PRAGMA busy_timeout = '' @ show_nat (unat ms)]
          else []
      | _ \<Rightarrow> [])"

text \<open>The history after sending a list of statements to a driver that accepts them.\<close>

definition sent :: "string list \<Rightarrow> connection \<Rightarrow> connection" where
  "sent sqls conn = conn\<lparr>cn_log := cn_log conn @ map (\<lambda>s. (Exec s, True)) sqls\<rparr>"

lemma apply_isolation_script:
  assumes "\<And>conn c. dv_call drv conn c = None"
  shows "case isolation_script e level of
      Some sqls \<Rightarrow> apply_isolation drv e level conn = (Ok (), sent sqls conn)
    | None \<Rightarrow> \<exists>m. apply_isolation drv e level conn = (Err (ValidationError m), conn)"
  using assms
  by (cases level)
    (auto simp: isolation_script_def apply_isolation_def for_engine_def engine_ids sent_def conn_call_def)

lemma apply_access_script:
  assumes "\<And>conn c. dv_call drv conn c = None"
  shows "apply_access_mode drv e mode conn = (Ok (), sent (access_script e mode) conn)"
  using assms by (simp add: access_script_def apply_access_mode_def is_read_only_def engine_ids sent_def conn_call_def)


lemma apply_timeout_script:
  assumes "\<And>conn c. dv_call drv conn c = None"
  shows "apply_lock_timeout drv e t conn = (Ok (), sent (timeout_script e t) conn)"
  using assms
  by (cases "lt_millis t")
    (simp_all add: timeout_script_def apply_lock_timeout_def is_engine_default_def engine_ids sent_def conn_call_def
      millis_as_seconds_rounded_up_def)

lemma begin_on_connection_script:
  assumes "\<And>conn c. dv_call drv conn c = None"
  shows "case isolation_script e level of
      Some sqls \<Rightarrow> begin_on_connection drv e level mode t conn =
        (Ok (), conn\<lparr>cn_log := cn_log conn @
           map (\<lambda>s. (Exec s, True)) (sqls @ access_script e mode @ timeout_script e t) @ [(SetAutocommit False, True)]\<rparr>)
    | None \<Rightarrow> \<exists>m. begin_on_connection drv e level mode t conn = (Err (ValidationError m), conn)"
  using apply_isolation_script[of drv e level conn, OF assms] assms
  by (auto simp: begin_on_connection_def apply_access_script apply_timeout_script sent_def conn_call_def
      split: option.splits)



text \<open>
  On PostgreSQL the lock timeout is set outside the transaction: when \<open>SET LOCAL lock_timeout\<close>
  is executed, the connection is still in autocommit mode, so the statement is a transaction of its
  own and the setting is gone before the transaction begins.
\<close>

theorem postgres_set_local_in_autocommit:
  assumes "\<And>conn c. dv_call drv conn c = None" and "autocommit_of (cn_log conn)" and "ms \<noteq> 0"
    and "begin_on_connection drv ENGINE_POSTGRES level mode (from_millis ms) conn = (r, conn')"
  shows "\<exists>before after. cn_log conn' = before @
      [(Exec (''SET LOCAL lock_timeout = '' @ [CHR 0x27] @ show_nat (unat ms) @ ''ms'' @ [CHR 0x27]), True)] @ after \<and>
    autocommit_of before \<and> after = [(SetAutocommit False, True)]"
proof -
  define iso where "iso = [''SET TRANSACTION ISOLATION LEVEL '' @ isolation_keyword level]"
  define stm where "stm = ''SET LOCAL lock_timeout = '' @ [CHR 0x27] @ show_nat (unat ms) @ ''ms'' @ [CHR 0x27]"
  define b where "b = cn_log conn @ map (\<lambda>s. (Exec s, True)) (iso @ access_script ENGINE_POSTGRES mode)"
  have "foldl autocommit_step a (map (\<lambda>s. (Exec s, True)) sqls) = a" for a sqls
    by (induction sqls) simp_all
  then have on: "autocommit_of b" using assms(2) by (simp add: autocommit_of_def b_def)
  have "isolation_script ENGINE_POSTGRES level = Some iso"
    by (simp add: isolation_script_def engine_ids iso_def)
  moreover have "timeout_script ENGINE_POSTGRES (from_millis ms) = [stm]"
    using assms(3)
    by (simp add: timeout_script_def from_millis_def millis_as_seconds_rounded_up_def engine_ids stm_def)
  ultimately have "cn_log conn' = b @ [(Exec stm, True)] @ [(SetAutocommit False, True)]"
    using begin_on_connection_script[of drv ENGINE_POSTGRES level mode "from_millis ms" conn, OF assms(1)] assms(4)
    by (auto simp: b_def)
  with on show ?thesis unfolding stm_def by blast
qed

theorem postgres_set_local_in_autocommit_witness:
  "let conn' = snd (begin_on_connection (accepting_driver []) ENGINE_POSTGRES Serializable ReadWrite (from_millis 250)
                      \<lparr>cn_str = [], cn_poisoned = False, cn_log = []\<rparr>)
   in \<exists>before after. cn_log conn' = before @
      [(Exec (''SET LOCAL lock_timeout = '' @ [CHR 0x27] @ show_nat 250 @ ''ms'' @ [CHR 0x27]), True)] @ after \<and>
    autocommit_of before \<and> after = [(SetAutocommit False, True)]"
proof -
  let ?b = "begin_on_connection (accepting_driver []) ENGINE_POSTGRES Serializable ReadWrite (from_millis 250)
                      \<lparr>cn_str = [], cn_poisoned = False, cn_log = []\<rparr>"
  have "dv_call (accepting_driver []) conn c = None" for conn c by (simp add: accepting_driver_def)
  from postgres_set_local_in_autocommit[OF this, where ms = 250 and r = "fst ?b" and conn' = "snd ?b"
      and level = Serializable and mode = ReadWrite and conn = "\<lparr>cn_str = [], cn_poisoned = False, cn_log = []\<rparr>"]
  show ?thesis unfolding Let_def by (simp add: autocommit_of_def)
qed

section \<open>Savepoints\<close>









section \<open>Lock timeouts\<close>

lemma ceil_1000:
  fixes n :: nat
  defines "c \<equiv> n div 1000 + (if n mod 1000 = 0 then 0 else 1)"
  shows "n \<le> 1000 * c" "1000 * c < n + 1000" "0 < n \<Longrightarrow> 0 < c"
proof -
  define q r where "q = n div 1000" and "r = n mod 1000"
  then have n: "n = 1000 * q + r" and r: "r < 1000" by simp_all
  have c: "c = q + (if r = 0 then 0 else 1)" by (simp add: c_def q_def r_def)
  show "n \<le> 1000 * c" "1000 * c < n + 1000" using r by (auto simp: c n)
  then show "0 < n \<Longrightarrow> 0 < c" by (cases c) auto
qed

text \<open>
  Seconds are never less than the milliseconds asked for: the value sent to MySQL, MariaDB and
  DB2 is positive, covers the requested time, and exceeds it by less than one second.
\<close>

theorem lock_timeout_rounds_up:
  assumes "ms \<noteq> 0"
  shows "\<exists>secs. millis_as_seconds_rounded_up (from_millis ms) = Some secs \<and> 0 < unat secs \<and>
    unat ms \<le> 1000 * unat secs \<and> 1000 * unat secs < unat ms + 1000"
proof -
  let ?q = "ms div 1000"
  let ?s = "max (if ms mod 1000 = 0 then ?q else ?q + 1) 1"
  have q: "unat ?q = unat ms div 1000" and r: "unat (ms mod 1000) = unat ms mod 1000"
    by (simp_all add: unat_div unat_mod)
  have lt: "unat ms < 2 ^ 32" by (rule unat_u32_less)
  have u1: "unat (?q + 1) = unat ms div 1000 + 1"
    using lt q by (subst unat_add_lem[THEN iffD1]) auto
  have z: "ms mod 1000 = 0 \<longleftrightarrow> unat ms mod 1000 = 0"
    using r by (metis unat_0 word_unat_eq_iff)
  have pos: "0 < unat ms" using assms by (simp add: unat_gt_0)
  have s: "unat ?s = unat ms div 1000 + (if unat ms mod 1000 = 0 then 0 else 1)"
  proof (cases "ms mod 1000 = 0")
    case True
    with z have m: "unat ms mod 1000 = 0" by simp
    with pos have "1 \<le> unat ms div 1000" by auto
    then have "1 \<le> ?q" by (simp add: word_le_nat_alt q)
    then have "?s = ?q" using True by (simp add: max_absorb1)
    with m q show ?thesis by simp
  next
    case False
    have "1 \<le> ?q + 1" by (simp add: word_le_nat_alt u1)
    then have "?s = ?q + 1" using False by (simp add: max_absorb1)
    with False z u1 show ?thesis by simp
  qed
  have "0 < unat ?s" "unat ms \<le> 1000 * unat ?s" "1000 * unat ?s < unat ms + 1000"
    unfolding s using pos ceil_1000[of "unat ms"] by auto
  then show ?thesis
    using assms by (simp add: millis_as_seconds_rounded_up_def from_millis_def)
qed

theorem lock_timeout_rounds_up_witness:
  "\<exists>secs. millis_as_seconds_rounded_up (from_millis 1001) = Some secs \<and> 0 < unat secs \<and>
    1001 \<le> 1000 * unat secs \<and> 1000 * unat secs < 2001"
  using lock_timeout_rounds_up[of 1001] by simp

text \<open>
  A positive duration never becomes the engine default, and never waits longer than a
  millisecond more than asked; but of a duration of a millisecond or more the part below a
  millisecond is cut off, not rounded up as the comment of \<open>from_duration\<close> has it.
\<close>

theorem from_duration_truncates:
  "(is_engine_default (from_duration d) \<longleftrightarrow> as_nanos d = 0) \<and>
   (1000000 \<le> as_nanos d \<and> as_nanos d < 2 ^ 32 * 1000000 \<longrightarrow>
      map_option unat (lt_millis (from_duration d)) = Some (as_nanos d div 1000000)) \<and>
   map_option unat (lt_millis (from_duration \<lparr>du_secs = 0, du_nanos = 1500000\<rparr>)) = Some 1"
proof -
  have ms: "as_millis d = as_nanos d div 1000000"
    by (simp add: as_millis_def as_nanos_def)
  have zero: "(du_secs d = 0 \<and> du_nanos d = 0) \<longleftrightarrow> as_nanos d = 0"
    by (simp add: as_nanos_def unat_eq_0)
  have "is_engine_default (from_duration d) \<longleftrightarrow> as_nanos d = 0"
    using zero ms by (auto simp: from_duration_def Let_def is_engine_default_def engine_default_def)
  moreover have "map_option unat (lt_millis (from_duration d)) = Some (as_nanos d div 1000000)"
    if "1000000 \<le> as_nanos d" "as_nanos d < 2 ^ 32 * 1000000"
  proof -
    have "as_millis d \<noteq> 0" "as_millis d < 2 ^ 32"
      using that by (auto simp: ms less_mult_imp_div_less)
    then show ?thesis by (simp add: from_duration_def Let_def try_u32_def ms)
  qed
  moreover have "map_option unat (lt_millis (from_duration \<lparr>du_secs = 0, du_nanos = 1500000\<rparr>)) = Some 1"
    by (simp add: from_duration_def as_millis_def try_u32_def)
  ultimately show ?thesis by blast
qed

theorem from_duration_truncates_witness:
  "map_option unat (lt_millis (from_duration \<lparr>du_secs = 1, du_nanos = 2999999\<rparr>)) = Some 1002"
  using from_duration_truncates[of "\<lparr>du_secs = 1, du_nanos = 2999999\<rparr>"] by (simp add: as_nanos_def)

end
