(* ===== verification/Xa.thy ===== *)
theory Xa
  imports Transaction
begin

text \<open>
  \<open>engine/xa_transaction.rs\<close>: distributed transactions, for builds without the Windows-only
  \<open>xa-dtc\<close> feature (so \<open>is_mssql_mdtc\<close> is \<open>false\<close>). XIDs and their spellings, the per-engine
  statements, the type-state of a branch (\<open>XaTransaction\<close>, \<open>PreparingXa\<close>, \<open>PreparedXa\<close>) with its
  destructor, and recovery.
\<close>

section \<open>XIDs\<close>

definition XID_MAX_GTRID_LEN :: usize where "XID_MAX_GTRID_LEN = 64"
definition XID_MAX_BQUAL_LEN :: usize where "XID_MAX_BQUAL_LEN = 64"

record xid =
  xid_format_id :: i32
  xid_gtrid :: bytes
  xid_bqual :: bytes

definition xid_new :: "i32 \<Rightarrow> bytes \<Rightarrow> bytes \<Rightarrow> xid result" where
  "xid_new format_id gtrid bqual =
     (if gtrid = [] then Err (ValidationError ''Xid: gtrid must be non-empty (1..=64 bytes)'')
      else if length gtrid > XID_MAX_GTRID_LEN then
        Err (ValidationError (''Xid: gtrid is '' @ show_nat (length gtrid) @ '' bytes; X/Open limit is '' @
               show_nat XID_MAX_GTRID_LEN))
      else if length bqual > XID_MAX_BQUAL_LEN then
        Err (ValidationError (''Xid: bqual is '' @ show_nat (length bqual) @ '' bytes; X/Open limit is '' @
               show_nat XID_MAX_BQUAL_LEN))
      else Ok \<lparr>xid_format_id = format_id, xid_gtrid = gtrid, xid_bqual = bqual\<rparr>)"

definition HEX_LUT :: string where "HEX_LUT = ''0123456789abcdef''"
definition HEX_LUT_UPPER :: string where "HEX_LUT_UPPER = ''0123456789ABCDEF''"

fun hex_encode_with :: "string \<Rightarrow> bytes \<Rightarrow> string" where
  "hex_encode_with lut [] = []"
| "hex_encode_with lut (b # bs) =
     lut ! unat (drop_bit 4 b) # lut ! unat (b AND 0x0F) # hex_encode_with lut bs"

definition hex_encode :: "bytes \<Rightarrow> string" where
  "hex_encode bs = hex_encode_with HEX_LUT bs"

definition hex_encode_upper :: "bytes \<Rightarrow> string" where
  "hex_encode_upper bs = hex_encode_with HEX_LUT_UPPER bs"

definition hex_nibble :: "u8 \<Rightarrow> u8 option" where
  "hex_nibble c =
     (if 48 \<le> c \<and> c \<le> 57 then Some (c - 48)
      else if 97 \<le> c \<and> c \<le> 102 then Some (c - 97 + 10)
      else if 65 \<le> c \<and> c \<le> 70 then Some (c - 65 + 10)
      else None)"

fun hex_decode_chunks :: "bytes \<Rightarrow> bytes option" where
  "hex_decode_chunks (h # l # rest) =
     (case (hex_nibble h, hex_nibble l) of
        (Some hi, Some lo) \<Rightarrow>
          (case hex_decode_chunks rest of None \<Rightarrow> None | Some out \<Rightarrow> Some ((push_bit 4 hi OR lo) # out))
      | _ \<Rightarrow> None)"
| "hex_decode_chunks _ = Some []"

definition hex_decode :: "string \<Rightarrow> bytes option" where
  "hex_decode s = (if length s mod 2 \<noteq> 0 then None else hex_decode_chunks (as_bytes s))"

text \<open>\<open>.ok()\<close>\<close>

fun ok_option :: "'a result \<Rightarrow> 'a option" where
  "ok_option (Ok x) = Some x"
| "ok_option _ = None"

definition encode_postgres :: "xid \<Rightarrow> string" where
  "encode_postgres x =
     show_int (sint (xid_format_id x)) @ ''_'' @ hex_encode (xid_gtrid x) @ ''_'' @ hex_encode (xid_bqual x)"

definition decode_components :: "i32 \<Rightarrow> string \<Rightarrow> string \<Rightarrow> xid option" where
  "decode_components format_id gtrid_hex bqual_hex =
     (case hex_decode gtrid_hex of
        None \<Rightarrow> None
      | Some gtrid \<Rightarrow>
          (case hex_decode bqual_hex of None \<Rightarrow> None | Some bqual \<Rightarrow> ok_option (xid_new format_id gtrid bqual)))"

text \<open>\<open>splitn(3, '_')\<close>: the third part keeps any further separators.\<close>

definition decode_postgres :: "string \<Rightarrow> xid option" where
  "decode_postgres s =
     (case split_once (CHR ''_'') s of
        None \<Rightarrow> None
      | Some (format_id_str, rest) \<Rightarrow>
          (case split_once (CHR ''_'') rest of
             None \<Rightarrow> None
           | Some (gtrid_hex, bqual_hex) \<Rightarrow>
               (case parse_i32 format_id_str of
                  None \<Rightarrow> None
                | Some format_id \<Rightarrow> decode_components format_id gtrid_hex bqual_hex)))"

definition encode_mysql_components :: "xid \<Rightarrow> string \<times> string \<times> i32" where
  "encode_mysql_components x = (hex_encode (xid_gtrid x), hex_encode (xid_bqual x), xid_format_id x)"

definition decode_mysql_components :: "string \<Rightarrow> string \<Rightarrow> i32 \<Rightarrow> xid option" where
  "decode_mysql_components gtrid_hex bqual_hex format_id = decode_components format_id gtrid_hex bqual_hex"

definition encode_oracle_components :: "xid \<Rightarrow> i32 \<times> string \<times> string" where
  "encode_oracle_components x = (xid_format_id x, hex_encode_upper (xid_gtrid x), hex_encode_upper (xid_bqual x))"

definition decode_oracle_components :: "i32 \<Rightarrow> string \<Rightarrow> string \<Rightarrow> xid option" where
  "decode_oracle_components format_id gtrid_hex bqual_hex = decode_components format_id gtrid_hex bqual_hex"

section \<open>Statements\<close>

definition q1 :: string where "q1 = [CHR 0x27]"

definition oracle_xid_literal :: "xid \<Rightarrow> string" where
  "oracle_xid_literal x =
     (let (fmt, g, b) = encode_oracle_components x in
      ''SYS.DBMS_XA_XID('' @ show_int (sint fmt) @ '', HEXTORAW('' @ q1 @ g @ q1 @ ''), HEXTORAW('' @ q1 @ b @ q1 @ ''))'')"

definition oracle_xa_block :: "string \<Rightarrow> int list \<Rightarrow> string" where
  "oracle_xa_block call allow_rcs =
     ''BEGIN DECLARE rc PLS_INTEGER; BEGIN rc := '' @ call @ ''; IF rc <> 0'' @
     concat (map (\<lambda>rc. '' AND rc <> '' @ show_int rc) allow_rcs) @
     '' THEN RAISE_APPLICATION_ERROR(-20100, '' @ q1 @ ''DBMS_XA rc='' @ q1 @ '' || rc); END IF; END; END;''"

definition ORACLE_XA_RDONLY :: int where "ORACLE_XA_RDONLY = 3"
definition ORACLE_XAER_NOTA :: int where "ORACLE_XAER_NOTA = - 4"

text \<open>The two spellings of the SQL-XA family, which differ only in how an empty branch qualifier is written.\<close>

definition mysql_xa_sql :: "string \<Rightarrow> xid \<Rightarrow> string \<Rightarrow> string" where
  "mysql_xa_sql verb x suffix =
     (let (g, b, f) = encode_mysql_components x in
      if b = [] then verb @ q1 @ g @ q1 @ '', '' @ q1 @ q1 @ '', '' @ show_int (sint f) @ suffix
      else verb @ q1 @ g @ q1 @ '', '' @ q1 @ b @ q1 @ '', '' @ show_int (sint f) @ suffix)"

definition mysql_family :: "string \<Rightarrow> bool" where
  "mysql_family e \<longleftrightarrow> e \<in> {ENGINE_MYSQL, ENGINE_MARIADB, ENGINE_DB2}"

definition unsupported_sqlserver :: odbc_error where
  "unsupported_sqlserver = UnsupportedFeature
     (''XA / 2PC on SQL Server requires MSDTC enlistment via Windows COM (SQLSetConnectAttr(SQL_ATTR_ENLIST_IN_DTC, ITransaction*)). Build with `--features xa-dtc` on a Windows host with MSDTC enabled to activate the integration '' @
      [CHR 0xE2, CHR 0x80, CHR 0x94] @ '' see doc/Features/PENDING_IMPLEMENTATIONS.md '' @ [CHR 0xC2, CHR 0xA7] @
      ''1.1 for prerequisites.'')"

definition unsupported_other :: "string \<Rightarrow> odbc_error" where
  "unsupported_other engine_id = UnsupportedFeature
     (''XA / 2PC is not supported on engine '' @ debug_str engine_id @
      ''. Supported engines: postgres, mysql, mariadb, db2, oracle (via DBMS_XA). SQL Server requires MSDTC enlistment (xa-dtc feature, Phase 2 pending).'')"

type_synonym emitter = "driver \<Rightarrow> string \<Rightarrow> xid \<Rightarrow> connection \<Rightarrow> unit result \<times> connection"

definition apply_xa_start :: emitter where
  "apply_xa_start drv engine_id x conn =
     (if engine_id = ENGINE_POSTGRES then conn_call drv (Exec ''BEGIN'') conn
      else if mysql_family engine_id then conn_call drv (Exec (mysql_xa_sql ''XA START '' x [])) conn
      else if engine_id = ENGINE_SQLSERVER then (Err unsupported_sqlserver, conn)
      else if engine_id = ENGINE_ORACLE then
        conn_call drv (Exec (oracle_xa_block
          (''DBMS_XA.XA_START('' @ oracle_xid_literal x @ '', DBMS_XA.TMNOFLAGS)'') [])) conn
      else (Err (unsupported_other engine_id), conn))"

definition apply_xa_end :: emitter where
  "apply_xa_end drv engine_id x conn =
     (if engine_id = ENGINE_POSTGRES then (Ok (), conn)
      else if mysql_family engine_id then conn_call drv (Exec (mysql_xa_sql ''XA END '' x [])) conn
      else if engine_id = ENGINE_SQLSERVER then (Err unsupported_sqlserver, conn)
      else if engine_id = ENGINE_ORACLE then
        conn_call drv (Exec (oracle_xa_block
          (''DBMS_XA.XA_END('' @ oracle_xid_literal x @ '', DBMS_XA.TMSUCCESS)'') [])) conn
      else (Err (unsupported_other engine_id), conn))"

definition apply_xa_prepare :: emitter where
  "apply_xa_prepare drv engine_id x conn =
     (if engine_id = ENGINE_POSTGRES then
        conn_call drv (Exec (''PREPARE TRANSACTION '' @ q1 @ encode_postgres x @ q1)) conn
      else if mysql_family engine_id then conn_call drv (Exec (mysql_xa_sql ''XA PREPARE '' x [])) conn
      else if engine_id = ENGINE_SQLSERVER then (Err unsupported_sqlserver, conn)
      else if engine_id = ENGINE_ORACLE then
        conn_call drv (Exec (oracle_xa_block
          (''DBMS_XA.XA_PREPARE('' @ oracle_xid_literal x @ '')'') [ORACLE_XA_RDONLY])) conn
      else (Err (unsupported_other engine_id), conn))"

definition apply_xa_commit :: "bool \<Rightarrow> emitter" where
  "apply_xa_commit one_phase drv engine_id x conn =
     (if engine_id = ENGINE_POSTGRES then
        (if one_phase then conn_call drv (Exec ''COMMIT'') conn
         else conn_call drv (Exec (''COMMIT PREPARED '' @ q1 @ encode_postgres x @ q1)) conn)
      else if mysql_family engine_id then
        conn_call drv (Exec (mysql_xa_sql ''XA COMMIT '' x (if one_phase then '' ONE PHASE'' else []))) conn
      else if engine_id = ENGINE_SQLSERVER then (Err unsupported_sqlserver, conn)
      else if engine_id = ENGINE_ORACLE then
        conn_call drv (Exec (oracle_xa_block
          (''DBMS_XA.XA_COMMIT('' @ oracle_xid_literal x @ '', '' @ (if one_phase then ''TRUE'' else ''FALSE'') @ '')'')
          (if one_phase then [] else [ORACLE_XAER_NOTA]))) conn
      else (Err (unsupported_other engine_id), conn))"

definition apply_xa_rollback :: emitter where
  "apply_xa_rollback drv engine_id x conn =
     (if engine_id = ENGINE_POSTGRES then conn_call drv (Exec ''ROLLBACK'') conn
      else if mysql_family engine_id then conn_call drv (Exec (mysql_xa_sql ''XA ROLLBACK '' x [])) conn
      else if engine_id = ENGINE_SQLSERVER then (Err unsupported_sqlserver, conn)
      else if engine_id = ENGINE_ORACLE then
        (let lit = oracle_xid_literal x in
         conn_call drv (Exec
           (''BEGIN DECLARE rc PLS_INTEGER; BEGIN rc := DBMS_XA.XA_END('' @ lit @
            '', DBMS_XA.TMSUCCESS); IF rc <> 0 THEN RAISE_APPLICATION_ERROR(-20100, '' @ q1 @ ''DBMS_XA xa_end rc='' @ q1 @
            '' || rc); END IF; rc := DBMS_XA.XA_ROLLBACK('' @ lit @
            ''); IF rc <> 0 THEN RAISE_APPLICATION_ERROR(-20101, '' @ q1 @ ''DBMS_XA xa_rollback rc='' @ q1 @
            '' || rc); END IF; END; END;'')) conn)
      else (Err (unsupported_other engine_id), conn))"

definition apply_xa_rollback_prepared :: emitter where
  "apply_xa_rollback_prepared drv engine_id x conn =
     (if engine_id = ENGINE_POSTGRES then
        conn_call drv (Exec (''ROLLBACK PREPARED '' @ q1 @ encode_postgres x @ q1)) conn
      else if mysql_family engine_id then apply_xa_rollback drv engine_id x conn
      else if engine_id = ENGINE_SQLSERVER then (Err unsupported_sqlserver, conn)
      else if engine_id = ENGINE_ORACLE then
        conn_call drv (Exec (oracle_xa_block
          (''DBMS_XA.XA_ROLLBACK('' @ oracle_xid_literal x @ '')'') [ORACLE_XAER_NOTA])) conn
      else (Err (unsupported_other engine_id), conn))"

section \<open>Branches\<close>

datatype xa_state = XA_None | XA_Active | XA_Idle | XA_Prepared | XA_Committed | XA_RolledBack | XA_Failed

fun xa_state_debug :: "xa_state \<Rightarrow> string" where
  "xa_state_debug XA_None = ''None''"
| "xa_state_debug XA_Active = ''Active''"
| "xa_state_debug XA_Idle = ''Idle''"
| "xa_state_debug XA_Prepared = ''Prepared''"
| "xa_state_debug XA_Committed = ''Committed''"
| "xa_state_debug XA_RolledBack = ''RolledBack''"
| "xa_state_debug XA_Failed = ''Failed''"

text \<open>The state is behind a mutex, \<open>None\<close> when poisoned.\<close>

record xa_transaction =
  xa_conn_id :: u32
  xa_xid :: xid
  xa_engine_id :: string
  xa_st :: "xa_state option"

record preparing_xa = px_inner :: xa_transaction

text \<open>\<open>PreparedXa\<close> has the same fields but no destructor.\<close>

record prepared_xa =
  pr_conn_id :: u32
  pr_xid :: xid
  pr_engine_id :: string
  pr_st :: "xa_state option"

definition xa_state_of :: "xa_state option \<Rightarrow> xa_state" where
  "xa_state_of st = (case st of Some s \<Rightarrow> s | None \<Rightarrow> XA_Failed)"

definition set_xa_state :: "xa_state option \<Rightarrow> xa_state \<Rightarrow> xa_state option result" where
  "set_xa_state st v = (case st of None \<Rightarrow> Err (InternalError ''XA state lock poisoned'') | Some _ \<Rightarrow> Ok (Some v))"

definition assert_xa_state :: "string \<Rightarrow> xa_state option \<Rightarrow> xa_state \<Rightarrow> string \<Rightarrow> unit result" where
  "assert_xa_state owner st expected op =
     fail_if (xa_state_of st \<noteq> expected)
       (ValidationError (owner @ ''::'' @ op @ '': expected state '' @ xa_state_debug expected @ '', got '' @
          xa_state_debug (xa_state_of st)))"

definition run_on_conn :: "driver \<Rightarrow> u32 \<Rightarrow> string \<Rightarrow> xid \<Rightarrow> emitter \<Rightarrow> world \<Rightarrow> unit result \<times> world" where
  "run_on_conn drv conn_id engine_id x f w =
     (case lock_connection ''Failed to lock handles'' w conn_id of
        Ok conn \<Rightarrow> let (r, conn') = f drv engine_id x conn in (r, put_connection conn_id conn' w)
      | Err e \<Rightarrow> (Err e, w)
      | Panic \<Rightarrow> (Panic, w))"

definition try_restore_autocommit :: "driver \<Rightarrow> u32 \<Rightarrow> world \<Rightarrow> unit result \<times> world" where
  "try_restore_autocommit drv conn_id w =
     (case lock_connection ''Failed to lock handles'' w conn_id of
        Ok conn \<Rightarrow> (Ok (), put_connection conn_id (snd (conn_call drv (SetAutocommit True) conn)) w)
      | Err e \<Rightarrow> (Err e, w)
      | Panic \<Rightarrow> (Panic, w))"

abbreviation on_branch :: "driver \<Rightarrow> xa_transaction \<Rightarrow> emitter \<Rightarrow> world \<Rightarrow> unit result \<times> world" where
  "on_branch drv tx f w \<equiv> run_on_conn drv (xa_conn_id tx) (xa_engine_id tx) (xa_xid tx) f w"

definition detect_engine_id :: "driver \<Rightarrow> world \<Rightarrow> u32 \<Rightarrow> string" where
  "detect_engine_id drv w conn_id =
     (case detect_for_conn_id drv w conn_id of Ok info \<Rightarrow> di_engine info | _ \<Rightarrow> ENGINE_UNKNOWN)"

definition xa_start :: "driver \<Rightarrow> u32 \<Rightarrow> xid \<Rightarrow> world \<Rightarrow> xa_transaction result \<times> world" where
  "xa_start drv conn_id x w =
     (let engine_id = detect_engine_id drv w conn_id in
      case lock_connection ''Failed to lock handles'' w conn_id of
        Ok conn \<Rightarrow>
          let (r, conn') = and_then (conn_call drv (SetAutocommit False) conn) (apply_xa_start drv engine_id x) in
          (omap (\<lambda>_. \<lparr>xa_conn_id = conn_id, xa_xid = x, xa_engine_id = engine_id, xa_st = Some XA_Active\<rparr>) r,
           put_connection conn_id conn' w)
      | Err e \<Rightarrow> (Err e, w)
      | Panic \<Rightarrow> (Panic, w))"

definition end_then_rollback :: emitter where
  "end_then_rollback drv e x conn = apply_xa_rollback drv e x (snd (apply_xa_end drv e x conn))"

text \<open>\<open>Drop for XaTransaction\<close>\<close>

definition drop_xa :: "driver \<Rightarrow> xa_transaction \<Rightarrow> world \<Rightarrow> world" where
  "drop_xa drv tx w =
     (if xa_state_of (xa_st tx) = XA_Active \<or> xa_state_of (xa_st tx) = XA_Idle then
        snd (try_restore_autocommit drv (xa_conn_id tx) (snd (on_branch drv tx end_then_rollback w)))
      else w)"

text \<open>\<open>self.step()?\<close> in a method that owns the branch: an early return drops it.\<close>

definition step_or_drop ::
  "driver \<Rightarrow> xa_transaction \<Rightarrow> 'a result \<times> world \<Rightarrow> ('a \<Rightarrow> world \<Rightarrow> 'b result \<times> world) \<Rightarrow> 'b result \<times> world"
where
  "step_or_drop drv tx m k =
     (case m of
        (Ok x, w) \<Rightarrow> k x w
      | (Err e, w) \<Rightarrow> (Err e, drop_xa drv tx w)
      | (Panic, w) \<Rightarrow> (Panic, drop_xa drv tx w))"

definition xa_end :: "driver \<Rightarrow> xa_transaction \<Rightarrow> world \<Rightarrow> preparing_xa result \<times> world" where
  "xa_end drv tx w =
     step_or_drop drv tx (assert_xa_state ''XaTransaction'' (xa_st tx) XA_Active ''end'', w) (\<lambda>_ w.
     step_or_drop drv tx (on_branch drv tx apply_xa_end w) (\<lambda>_ w.
     step_or_drop drv tx (set_xa_state (xa_st tx) XA_Idle, w) (\<lambda>st w.
     (Ok \<lparr>px_inner = tx\<lparr>xa_st := st\<rparr>\<rparr>, w))))"

text \<open>The tail of the methods that consume the branch: record the outcome, then drop.\<close>

definition conclude ::
  "driver \<Rightarrow> xa_transaction \<Rightarrow> unit result \<Rightarrow> xa_state \<Rightarrow> world \<Rightarrow> unit result \<times> world"
where
  "conclude drv tx r success w =
     (case r of
        Ok _ \<Rightarrow>
          step_or_drop drv tx (set_xa_state (xa_st tx) success, w) (\<lambda>st w.
          (Ok (), drop_xa drv (tx\<lparr>xa_st := st\<rparr>) w))
      | Err e \<Rightarrow>
          step_or_drop drv tx (set_xa_state (xa_st tx) XA_Failed, w) (\<lambda>st w.
          (Err e, drop_xa drv (tx\<lparr>xa_st := st\<rparr>) w))
      | Panic \<Rightarrow> (Panic, drop_xa drv tx w))"

definition commit_one_phase :: "driver \<Rightarrow> xa_transaction \<Rightarrow> world \<Rightarrow> unit result \<times> world" where
  "commit_one_phase drv tx w =
     step_or_drop drv tx (assert_xa_state ''XaTransaction'' (xa_st tx) XA_Active ''commit_one_phase'', w) (\<lambda>_ w.
     step_or_drop drv tx (on_branch drv tx apply_xa_end w) (\<lambda>_ w.
     let (r, w) = on_branch drv tx (apply_xa_commit True) w;
         (_, w) = try_restore_autocommit drv (xa_conn_id tx) w
     in conclude drv tx r XA_Committed w))"

definition xa_rollback :: "driver \<Rightarrow> xa_transaction \<Rightarrow> world \<Rightarrow> unit result \<times> world" where
  "xa_rollback drv tx w =
     step_or_drop drv tx (assert_xa_state ''XaTransaction'' (xa_st tx) XA_Active ''rollback'', w) (\<lambda>_ w.
     let (_, w) = on_branch drv tx apply_xa_end w;
         (r, w) = on_branch drv tx apply_xa_rollback w;
         (_, w) = try_restore_autocommit drv (xa_conn_id tx) w
     in conclude drv tx r XA_RolledBack w)"

definition xa_prepare :: "driver \<Rightarrow> preparing_xa \<Rightarrow> world \<Rightarrow> prepared_xa result \<times> world" where
  "xa_prepare drv px w =
     (let tx = px_inner px in
      step_or_drop drv tx (assert_xa_state ''XaTransaction'' (xa_st tx) XA_Idle ''prepare'', w) (\<lambda>_ w.
      let (r, w) = on_branch drv tx apply_xa_prepare w in
      case r of
        Ok _ \<Rightarrow>
          step_or_drop drv tx (set_xa_state (xa_st tx) XA_Prepared, w) (\<lambda>st w.
          let (_, w) = try_restore_autocommit drv (xa_conn_id tx) w in
          (Ok \<lparr>pr_conn_id = xa_conn_id tx, pr_xid = xa_xid tx, pr_engine_id = xa_engine_id tx, pr_st = st\<rparr>,
           drop_xa drv (tx\<lparr>xa_st := st\<rparr>) w))
      | Err e \<Rightarrow>
          step_or_drop drv tx (set_xa_state (xa_st tx) XA_Failed, w) (\<lambda>st w.
          let (_, w) = try_restore_autocommit drv (xa_conn_id tx) w in
          (Err e, drop_xa drv (tx\<lparr>xa_st := st\<rparr>) w))
      | Panic \<Rightarrow> (Panic, drop_xa drv tx w)))"

definition preparing_rollback :: "driver \<Rightarrow> preparing_xa \<Rightarrow> world \<Rightarrow> unit result \<times> world" where
  "preparing_rollback drv px w =
     (let tx = px_inner px in
      step_or_drop drv tx (assert_xa_state ''XaTransaction'' (xa_st tx) XA_Idle ''rollback'', w) (\<lambda>_ w.
      let (r, w) = on_branch drv tx apply_xa_rollback w;
          (_, w) = try_restore_autocommit drv (xa_conn_id tx) w
      in conclude drv tx r XA_RolledBack w))"

definition prepared_finish ::
  "string \<Rightarrow> emitter \<Rightarrow> xa_state \<Rightarrow> driver \<Rightarrow> prepared_xa \<Rightarrow> world \<Rightarrow> unit result \<times> world"
where
  "prepared_finish op f success drv pr w =
     try_with (assert_xa_state ''PreparedXa'' (pr_st pr) XA_Prepared op) w (\<lambda>_.
     let (r, w) = run_on_conn drv (pr_conn_id pr) (pr_engine_id pr) (pr_xid pr) f w in
     case r of
       Ok _ \<Rightarrow> try_with (set_xa_state (pr_st pr) success) w (\<lambda>_. (Ok (), w))
     | Err e \<Rightarrow> try_with (set_xa_state (pr_st pr) XA_Failed) w (\<lambda>_. (Err e, w))
     | Panic \<Rightarrow> (Panic, w))"

definition prepared_commit :: "driver \<Rightarrow> prepared_xa \<Rightarrow> world \<Rightarrow> unit result \<times> world" where
  "prepared_commit = prepared_finish ''commit'' (apply_xa_commit False) XA_Committed"

definition prepared_rollback :: "driver \<Rightarrow> prepared_xa \<Rightarrow> world \<Rightarrow> unit result \<times> world" where
  "prepared_rollback = prepared_finish ''rollback'' apply_xa_rollback_prepared XA_RolledBack"

definition resume_prepared :: "driver \<Rightarrow> u32 \<Rightarrow> xid \<Rightarrow> world \<Rightarrow> prepared_xa result" where
  "resume_prepared drv conn_id x w =
     Ok \<lparr>pr_conn_id = conn_id, pr_xid = x, pr_engine_id = detect_engine_id drv w conn_id, pr_st = Some XA_Prepared\<rparr>"

section \<open>Recovery\<close>

text \<open>\<open>get_text\<close> into a fresh buffer: \<open>NULL\<close> leaves it empty.\<close>

definition get_text :: "(nat \<Rightarrow> odbc_api_error + bytes option) \<Rightarrow> nat \<Rightarrow> bytes option result" where
  "get_text row col = (case row col of Inl e \<Rightarrow> Err (from_odbc_api e) | Inr v \<Rightarrow> Ok v)"

definition text_or_empty :: "bytes option \<Rightarrow> bytes" where
  "text_or_empty v = (case v of None \<Rightarrow> [] | Some b \<Rightarrow> b)"

definition parse_ascii_i32 :: "driver \<Rightarrow> bytes \<Rightarrow> i32 option" where
  "parse_ascii_i32 drv bs = (case from_utf8 bs of Ok s \<Rightarrow> parse_i32 (dv_trim drv s) | _ \<Rightarrow> None)"

definition parse_ascii_usize :: "driver \<Rightarrow> bytes \<Rightarrow> usize option" where
  "parse_ascii_usize drv bs = (case from_utf8 bs of Ok s \<Rightarrow> parse_usize (dv_trim drv s) | _ \<Rightarrow> None)"

definition the_default :: "'a \<Rightarrow> 'a option \<Rightarrow> 'a" where
  "the_default d v = (case v of None \<Rightarrow> d | Some x \<Rightarrow> x)"

text \<open>The XID of one row, if the row has one: the loop bodies of the three dialects.\<close>

definition recover_row_postgres :: "(nat \<Rightarrow> odbc_api_error + bytes option) \<Rightarrow> xid option result" where
  "recover_row_postgres row =
     obind (get_text row 1) (\<lambda>v.
     Ok (case v of
           None \<Rightarrow> None
         | Some buf \<Rightarrow> (case from_utf8 buf of Ok s \<Rightarrow> decode_postgres s | _ \<Rightarrow> None)))"

text \<open>A sum of lengths beyond \<open>usize\<close> panics, at the addition or, where it wraps, at the slice.\<close>

definition recover_row_mysql :: "driver \<Rightarrow> (nat \<Rightarrow> odbc_api_error + bytes option) \<Rightarrow> xid option result" where
  "recover_row_mysql drv row =
     obind (get_text row 1) (\<lambda>c1. obind (get_text row 2) (\<lambda>c2. obind (get_text row 3) (\<lambda>c3. obind (get_text row 4) (\<lambda>c4.
     let format_id = the_default 0 (parse_ascii_i32 drv (text_or_empty c1));
         gtrid_len = the_default 0 (parse_ascii_usize drv (text_or_empty c2));
         bqual_len = the_default 0 (parse_ascii_usize drv (text_or_empty c3));
         data = text_or_empty c4
     in if gtrid_len + bqual_len > usize_max then Panic
        else if length data < gtrid_len + bqual_len then Ok None
        else
          obind (range_of data 0 gtrid_len) (\<lambda>g.
          obind (range_of data gtrid_len (gtrid_len + bqual_len)) (\<lambda>b.
          Ok (case (from_utf8 g, from_utf8 b) of
                (Ok gs, Ok bs) \<Rightarrow> decode_mysql_components gs bs format_id
              | _ \<Rightarrow> None)))))))"

definition recover_row_oracle :: "driver \<Rightarrow> (nat \<Rightarrow> odbc_api_error + bytes option) \<Rightarrow> xid option result" where
  "recover_row_oracle drv row =
     obind (get_text row 1) (\<lambda>c1. obind (get_text row 2) (\<lambda>c2. obind (get_text row 3) (\<lambda>c3.
     let format_id = the_default 0 (parse_ascii_i32 drv (text_or_empty c1));
         g = (case from_utf8 (text_or_empty c2) of Ok s \<Rightarrow> s | _ \<Rightarrow> []);
         b = (case from_utf8 (text_or_empty c3) of Ok s \<Rightarrow> s | _ \<Rightarrow> [])
     in Ok (decode_oracle_components format_id g b))))"

fun recover_rows ::
  "((nat \<Rightarrow> odbc_api_error + bytes option) \<Rightarrow> xid option result) \<Rightarrow> fetched list \<Rightarrow> xid list result"
where
  "recover_rows body [] = Ok []"
| "recover_rows body (Inl e # rows) = Err (from_odbc_api e)"
| "recover_rows body (Inr row # rows) =
     obind (body row) (\<lambda>x. obind (recover_rows body rows) (\<lambda>xs. Ok (case x of None \<Rightarrow> xs | Some y \<Rightarrow> y # xs)))"

definition recover_query ::
  "driver \<Rightarrow> string \<Rightarrow> ((nat \<Rightarrow> odbc_api_error + bytes option) \<Rightarrow> xid option result) \<Rightarrow> connection \<Rightarrow>
   xid list result \<times> connection"
where
  "recover_query drv sql body conn =
     (case conn_call drv (Exec sql) conn of
        (Ok _, conn') \<Rightarrow>
          ((case dv_rows drv conn sql of None \<Rightarrow> Ok [] | Some rows \<Rightarrow> recover_rows body rows), conn')
      | (Err e, conn') \<Rightarrow> (Err e, conn')
      | (Panic, conn') \<Rightarrow> (Panic, conn'))"

definition apply_xa_recover :: "driver \<Rightarrow> string \<Rightarrow> connection \<Rightarrow> xid list result \<times> connection" where
  "apply_xa_recover drv engine_id conn =
     (if engine_id = ENGINE_POSTGRES then
        recover_query drv ''SELECT gid FROM pg_prepared_xacts'' recover_row_postgres conn
      else if mysql_family engine_id then recover_query drv ''XA RECOVER'' (recover_row_mysql drv) conn
      else if engine_id = ENGINE_SQLSERVER then (Err unsupported_sqlserver, conn)
      else if engine_id = ENGINE_ORACLE then
        recover_query drv ''SELECT FORMATID, RAWTOHEX(GLOBALID), RAWTOHEX(BRANCHID) FROM DBA_PENDING_TRANSACTIONS''
          (recover_row_oracle drv) conn
      else (Err (unsupported_other engine_id), conn))"

definition recover_prepared_xids :: "driver \<Rightarrow> u32 \<Rightarrow> world \<Rightarrow> xid list result \<times> world" where
  "recover_prepared_xids drv conn_id w =
     (let engine_id = detect_engine_id drv w conn_id in
      case lock_connection ''Failed to lock handles'' w conn_id of
        Ok conn \<Rightarrow> let (r, conn') = apply_xa_recover drv engine_id conn in (r, put_connection conn_id conn' w)
      | Err e \<Rightarrow> (Err e, w)
      | Panic \<Rightarrow> (Panic, w))"

section \<open>Round trips of XIDs\<close>

text \<open>A table of hexadecimal digits that the decoder reads back.\<close>

locale hex_table =
  fixes lut :: string
  assumes lut_length: "length lut = 16"
    and nibble_lut: "k < 16 \<Longrightarrow> hex_nibble (byte_of (lut ! k)) = Some (of_nat k)"
begin

lemma decode_encode_with: "hex_decode_chunks (as_bytes (hex_encode_with lut bs)) = Some bs"
proof (induction bs)
  case Nil
  then show ?case by (simp add: as_bytes_def)
next
  case (Cons b bs)
  have "unat (drop_bit 4 b) = unat b div 16" by (simp add: drop_bit_eq_div unat_div)
  then have hi: "unat (drop_bit 4 b) < 16" using unat_u8_less[of b] by simp
  have "b AND 0x0F = take_bit 4 b" by (simp add: take_bit_eq_mask mask_eq_exp_minus_1)
  then have lo: "unat (b AND 0x0F) < 16"
    by (simp add: take_bit_eq_mod unat_mod)
  have "push_bit 4 (drop_bit 4 b) OR (b AND 0x0F) = b"
    unfolding \<open>b AND 0x0F = take_bit 4 b\<close>
    by (rule bit_word_eqI) (auto simp: bit_or_iff bit_take_bit_iff bit_push_bit_iff bit_drop_bit_eq)
  with Cons hi lo show ?case
    by (simp add: as_bytes_def nibble_lut)
qed

lemma length_encode_with [simp]: "length (hex_encode_with lut bs) = 2 * length bs"
  by (induction bs) auto

lemma hex_decode_encode: "hex_decode (hex_encode_with lut bs) = Some bs"
  by (simp add: hex_decode_def decode_encode_with)

lemma encode_with_chars: "set (hex_encode_with lut bs) \<subseteq> set lut"
proof (induction bs)
  case (Cons b bs)
  have "unat (drop_bit 4 b) = unat b div 16" by (simp add: drop_bit_eq_div unat_div)
  then have "unat (drop_bit 4 b) < 16" using unat_u8_less[of b] by simp
  moreover have "unat (b AND 0x0F) < 16"
  proof -
    have "b AND 0x0F = take_bit 4 b" by (simp add: take_bit_eq_mask mask_eq_exp_minus_1)
    then show ?thesis by (simp add: take_bit_eq_mod unat_mod)
  qed
  ultimately show ?case using Cons by (auto simp: lut_length)
qed simp

end

lemma nibble_tables:
  "list_all (\<lambda>k. hex_nibble (byte_of (HEX_LUT ! k)) = Some (of_nat k)) [0..<16]"
  "list_all (\<lambda>k. hex_nibble (byte_of (HEX_LUT_UPPER ! k)) = Some (of_nat k)) [0..<16]"
  by code_simp+

interpretation lower: hex_table HEX_LUT
  using nibble_tables(1) by unfold_locales (auto simp: HEX_LUT_def list_all_iff)

interpretation upper: hex_table HEX_LUT_UPPER
  using nibble_tables(2) by unfold_locales (auto simp: HEX_LUT_UPPER_def list_all_iff)

lemma hex_decode_hex_encode [simp]:
  "hex_decode (hex_encode bs) = Some bs" "hex_decode (hex_encode_upper bs) = Some bs"
  by (simp_all add: hex_encode_def hex_encode_upper_def lower.hex_decode_encode upper.hex_decode_encode)

definition wf_xid :: "xid \<Rightarrow> bool" where
  "wf_xid x \<longleftrightarrow> xid_gtrid x \<noteq> [] \<and> length (xid_gtrid x) \<le> 64 \<and> length (xid_bqual x) \<le> 64"

lemma xid_new_wf: "wf_xid x \<Longrightarrow> xid_new (xid_format_id x) (xid_gtrid x) (xid_bqual x) = Ok x"
  by (simp add: xid_new_def wf_xid_def XID_MAX_GTRID_LEN_def XID_MAX_BQUAL_LEN_def)

lemma xid_new_Ok: "xid_new f g b = Ok x \<Longrightarrow> wf_xid x"
  by (auto simp: xid_new_def wf_xid_def XID_MAX_GTRID_LEN_def XID_MAX_BQUAL_LEN_def split: if_splits)

lemma decode_components_wf: "decode_components f g b = Some y \<Longrightarrow> wf_xid y"
  unfolding decode_components_def
  by (cases "hex_decode g"; cases "hex_decode b"; cases "xid_new f (the (hex_decode g)) (the (hex_decode b))")
    (auto intro: xid_new_Ok)

lemma underscore_free:
  "CHR ''_'' \<notin> set (hex_encode bs)" "CHR ''_'' \<notin> set (show_int i)"
proof -
  show "CHR ''_'' \<notin> set (hex_encode bs)"
    using lower.encode_with_chars[of bs] by (auto simp: hex_encode_def HEX_LUT_def)
  show "CHR ''_'' \<notin> set (show_int i)"
    using show_nat_digits digit_not_sign by (auto simp: show_int_def list_all_iff)
qed

text \<open>
  XIDs survive every spelling: the PostgreSQL identifier, the MySQL components and the Oracle
  components of a valid XID decode to the same XID, and nothing else is ever decoded than valid XIDs.
\<close>

theorem xid_roundtrip:
  assumes "wf_xid x"
  shows "decode_postgres (encode_postgres x) = Some x \<and>
    (case encode_mysql_components x of (g, b, f) \<Rightarrow> decode_mysql_components g b f) = Some x \<and>
    (case encode_oracle_components x of (f, g, b) \<Rightarrow> decode_oracle_components f g b) = Some x \<and>
    (\<forall>s y. decode_postgres s = Some y \<longrightarrow> wf_xid y)"
proof -
  have c: "decode_components (xid_format_id x) (hex_encode (xid_gtrid x)) (hex_encode (xid_bqual x)) = Some x"
    "decode_components (xid_format_id x) (hex_encode_upper (xid_gtrid x)) (hex_encode_upper (xid_bqual x)) = Some x"
    using assms by (simp_all add: decode_components_def xid_new_wf)
  have "decode_postgres (encode_postgres x) = Some x"
    by (simp add: decode_postgres_def encode_postgres_def split_once_append underscore_free c)
  moreover have "wf_xid y" if "decode_postgres s = Some y" for s y
    using that by (auto simp: decode_postgres_def split: option.splits prod.splits intro: decode_components_wf)
  ultimately show ?thesis
    using c by (simp add: encode_mysql_components_def decode_mysql_components_def encode_oracle_components_def
        decode_oracle_components_def)
qed

theorem xid_roundtrip_witness:
  "decode_postgres ''-7_00ff27_'' = Some \<lparr>xid_format_id = - 7, xid_gtrid = [0, 255, 39], xid_bqual = []\<rparr>"
proof -
  have "wf_xid \<lparr>xid_format_id = - 7, xid_gtrid = [0, 255, 39], xid_bqual = []\<rparr>" by (simp add: wf_xid_def)
  from xid_roundtrip[OF this]
  have "decode_postgres (encode_postgres \<lparr>xid_format_id = - 7, xid_gtrid = [0, 255, 39], xid_bqual = []\<rparr>) =
    Some \<lparr>xid_format_id = - 7, xid_gtrid = [0, 255, 39], xid_bqual = []\<rparr>" by blast
  moreover have "encode_postgres \<lparr>xid_format_id = - 7, xid_gtrid = [0, 255, 39], xid_bqual = []\<rparr> = ''-7_00ff27_''"
    by code_simp
  ultimately show ?thesis by simp
qed

section \<open>XIDs in statements\<close>

lemma apostrophe_free:
  "CHR 0x27 \<notin> set (hex_encode bs)" "CHR 0x27 \<notin> set (hex_encode_upper bs)" "CHR 0x27 \<notin> set (show_int i)"
proof -
  show "CHR 0x27 \<notin> set (hex_encode bs)"
    using lower.encode_with_chars[of bs] by (auto simp: hex_encode_def HEX_LUT_def)
  show "CHR 0x27 \<notin> set (hex_encode_upper bs)"
    using upper.encode_with_chars[of bs] by (auto simp: hex_encode_upper_def HEX_LUT_UPPER_def)
  have "CHR 0x27 \<notin> set (show_nat n)" for n
    using show_nat_digits[of n] by (auto simp: list_all_iff is_digit_char_def)
  then show "CHR 0x27 \<notin> set (show_int i)" by (simp add: show_int_def)
qed

text \<open>
  XIDs cannot inject SQL: whatever bytes the global identifier and the branch qualifier hold,
  each component, put between apostrophes, is read by the server as one string literal, and what
  follows it in the statement is left untouched.
\<close>

theorem xid_literals_safe:
  assumes "rest = [] \<or> hd rest \<noteq> CHR 0x27"
  shows "scan_quoted (CHR 0x27) (encode_postgres x @ q1 @ rest) = Some (encode_postgres x, rest) \<and>
    (case encode_mysql_components x of (g, b, f) \<Rightarrow>
       scan_quoted (CHR 0x27) (g @ q1 @ rest) = Some (g, rest) \<and> scan_quoted (CHR 0x27) (b @ q1 @ rest) = Some (b, rest)) \<and>
    (case encode_oracle_components x of (f, g, b) \<Rightarrow>
       scan_quoted (CHR 0x27) (g @ q1 @ rest) = Some (g, rest) \<and> scan_quoted (CHR 0x27) (b @ q1 @ rest) = Some (b, rest))"
proof -
  have "CHR 0x27 \<notin> set (encode_postgres x)" by (simp add: encode_postgres_def apostrophe_free)
  then show ?thesis
    using scan_quoted_plain[OF _ assms]
    by (simp add: encode_mysql_components_def encode_oracle_components_def apostrophe_free q1_def)
qed

theorem xid_literals_safe_witness:
  "scan_quoted (CHR 0x27) (encode_postgres \<lparr>xid_format_id = 0, xid_gtrid = [0x27], xid_bqual = [0x3B]\<rparr> @ q1 @ '';'') =
     Some (encode_postgres \<lparr>xid_format_id = 0, xid_gtrid = [0x27], xid_bqual = [0x3B]\<rparr>, '';'')"
  using xid_literals_safe[of "'';''" "\<lparr>xid_format_id = 0, xid_gtrid = [0x27], xid_bqual = [0x3B]\<rparr>"] by simp

section \<open>The statements, engine by engine\<close>

text \<open>Abstract specification of the engine matrix: the statement of each role, or \<open>None\<close>.\<close>

definition prepare_sql :: "string \<Rightarrow> xid \<Rightarrow> string option" where
  "prepare_sql e x =
     (if e = ENGINE_POSTGRES then Some (''PREPARE TRANSACTION '' @ q1 @ encode_postgres x @ q1)
      else if mysql_family e then Some (mysql_xa_sql ''XA PREPARE '' x [])
      else if e = ENGINE_ORACLE then
        Some (oracle_xa_block (''DBMS_XA.XA_PREPARE('' @ oracle_xid_literal x @ '')'') [ORACLE_XA_RDONLY])
      else None)"

definition commit_sql :: "bool \<Rightarrow> string \<Rightarrow> xid \<Rightarrow> string option" where
  "commit_sql one_phase e x =
     (if e = ENGINE_POSTGRES then
        Some (if one_phase then ''COMMIT'' else ''COMMIT PREPARED '' @ q1 @ encode_postgres x @ q1)
      else if mysql_family e then Some (mysql_xa_sql ''XA COMMIT '' x (if one_phase then '' ONE PHASE'' else []))
      else if e = ENGINE_ORACLE then
        Some (oracle_xa_block
          (''DBMS_XA.XA_COMMIT('' @ oracle_xid_literal x @ '', '' @ (if one_phase then ''TRUE'' else ''FALSE'') @ '')'')
          (if one_phase then [] else [ORACLE_XAER_NOTA]))
      else None)"

lemma engines_distinct:
  "ENGINE_POSTGRES \<noteq> ENGINE_SQLSERVER" "ENGINE_ORACLE \<noteq> ENGINE_SQLSERVER" "ENGINE_ORACLE \<noteq> ENGINE_POSTGRES"
  "ENGINE_SQLSERVER \<noteq> ENGINE_POSTGRES" "ENGINE_SQLSERVER \<noteq> ENGINE_ORACLE" "ENGINE_POSTGRES \<noteq> ENGINE_ORACLE"
  "\<not> mysql_family ENGINE_POSTGRES" "\<not> mysql_family ENGINE_SQLSERVER" "\<not> mysql_family ENGINE_ORACLE"
  by (simp_all add: mysql_family_def engine_ids)

lemma apply_xa_prepare_sql:
  "prepare_sql e x = Some s \<Longrightarrow> apply_xa_prepare drv e x conn = conn_call drv (Exec s) conn"
  by (auto simp: prepare_sql_def apply_xa_prepare_def engines_distinct split: if_splits)

lemma apply_xa_commit_sql:
  "commit_sql p e x = Some s \<Longrightarrow> apply_xa_commit p drv e x conn = conn_call drv (Exec s) conn"
  by (auto simp: commit_sql_def apply_xa_commit_def engines_distinct split: if_splits)

text \<open>Every call of the engine that is not the phase 2 commit of this XID.\<close>

definition not_phase2 :: "string \<Rightarrow> xid \<Rightarrow> call \<times> bool \<Rightarrow> bool" where
  "not_phase2 e x c \<longleftrightarrow> (\<forall>s. commit_sql False e x = Some s \<longrightarrow> fst c \<noteq> Exec s)"

lemma not_phase2_autocommit [simp]: "not_phase2 e x (SetAutocommit b, ok)"
  by (simp add: not_phase2_def)

lemmas not_phase2_step = conn_step_call[of "not_phase2 e x" "Exec s" for e x s]

lemma mysql_xa_sql_verb:
  "mysql_xa_sql verb x suffix = verb @ q1 @ hex_encode (xid_gtrid x) @ q1 @ '', '' @ q1 @ hex_encode (xid_bqual x) @ q1 @
     '', '' @ show_int (sint (xid_format_id x)) @ suffix"
  by (simp add: mysql_xa_sql_def encode_mysql_components_def)

lemma conn_step_xa_start: "conn_step (apply_xa_start drv e x) (not_phase2 e x)"
  unfolding apply_xa_start_def Let_def
  by (intro conn_step_if conn_step_skip conn_step_fail not_phase2_step;
      simp add: not_phase2_def commit_sql_def engines_distinct mysql_xa_sql_verb oracle_xa_block_def)

lemma conn_step_xa_end: "conn_step (apply_xa_end drv e x) (not_phase2 e x)"
  unfolding apply_xa_end_def Let_def
  by (intro conn_step_if conn_step_skip conn_step_fail not_phase2_step;
      simp add: not_phase2_def commit_sql_def engines_distinct mysql_xa_sql_verb oracle_xa_block_def)

lemma conn_step_xa_prepare: "conn_step (apply_xa_prepare drv e x) (not_phase2 e x)"
  unfolding apply_xa_prepare_def Let_def
  by (intro conn_step_if conn_step_skip conn_step_fail not_phase2_step;
      simp add: not_phase2_def commit_sql_def engines_distinct mysql_xa_sql_verb oracle_xa_block_def)

lemma conn_step_xa_one_phase: "conn_step (apply_xa_commit True drv e x) (not_phase2 e x)"
  unfolding apply_xa_commit_def Let_def
  by (intro conn_step_if conn_step_skip conn_step_fail not_phase2_step;
      simp add: not_phase2_def commit_sql_def engines_distinct mysql_xa_sql_verb oracle_xa_block_def)

lemma conn_step_xa_rollback: "conn_step (apply_xa_rollback drv e x) (not_phase2 e x)"
  unfolding apply_xa_rollback_def Let_def
  by (intro conn_step_if conn_step_skip conn_step_fail not_phase2_step;
      simp add: not_phase2_def commit_sql_def engines_distinct mysql_xa_sql_verb oracle_xa_block_def)

lemma conn_step_xa_rollback_prepared: "conn_step (apply_xa_rollback_prepared drv e x) (not_phase2 e x)"
  unfolding apply_xa_rollback_prepared_def
  by (intro conn_step_if conn_step_skip conn_step_fail not_phase2_step conn_step_xa_rollback;
      simp add: not_phase2_def commit_sql_def engines_distinct oracle_xa_block_def)

lemmas conn_step_emitters = conn_step_xa_start conn_step_xa_end conn_step_xa_prepare conn_step_xa_one_phase
  conn_step_xa_rollback conn_step_xa_rollback_prepared

section \<open>Histories\<close>

definition log_of :: "world \<Rightarrow> u32 \<Rightarrow> (call \<times> bool) list option" where
  "log_of w i = map_option cn_log (hm_connections (w_handles w) i)"

text \<open>From \<open>w\<close> to \<open>w'\<close> connection \<open>i\<close> stays open, and only calls allowed by \<open>A\<close> are added to its history.\<close>

definition log_grows :: "(call \<times> bool \<Rightarrow> bool) \<Rightarrow> u32 \<Rightarrow> world \<Rightarrow> world \<Rightarrow> bool" where
  "log_grows A i w w' \<longleftrightarrow> (\<exists>l. log_of w' i = map_option (\<lambda>L. L @ l) (log_of w i) \<and> list_all A l)"

lemma log_grows_refl [simp]: "log_grows A i w w"
  by (auto simp: log_grows_def option.map_ident intro!: exI[of _ "[]"])

lemma log_grows_trans: "log_grows A i w w' \<Longrightarrow> log_grows A i w' w'' \<Longrightarrow> log_grows A i w w''"
proof -
  assume "log_grows A i w w'" "log_grows A i w' w''"
  then obtain l l' where "log_of w' i = map_option (\<lambda>L. L @ l) (log_of w i)" "list_all A l"
    "log_of w'' i = map_option (\<lambda>L. L @ l') (log_of w' i)" "list_all A l'"
    by (auto simp: log_grows_def)
  then show ?thesis
    unfolding log_grows_def by (intro exI[of _ "l @ l'"]) (simp add: option.map_comp comp_def)
qed

lemma lock_connection_log: "lock_connection m w i = Ok conn \<Longrightarrow> log_of w i = Some (cn_log conn)"
  by (auto simp: lock_connection_def get_connection_def log_of_def split: if_splits)

lemma log_of_put [simp]: "log_of (put_connection i conn w) i = Some (cn_log conn)"
  by (simp add: log_of_def put_connection_def)

lemma run_on_conn_grows:
  assumes "conn_step (f drv e x) A"
  shows "log_grows A i w (snd (run_on_conn drv i e x f w))"
proof (cases "lock_connection ''Failed to lock handles'' w i")
  case (Ok conn)
  obtain l where "snd (f drv e x conn) = conn\<lparr>cn_log := cn_log conn @ l\<rparr>" "list_all A l"
    using conn_step.extends[OF assms] by blast
  with Ok show ?thesis
    by (auto simp: run_on_conn_def log_grows_def lock_connection_log split: prod.splits intro!: exI[of _ l])
qed (simp_all add: run_on_conn_def)

lemma run_on_conn_no_panic: "conn_step (f drv e x) A \<Longrightarrow> fst (run_on_conn drv i e x f w) \<noteq> Panic"
  using conn_step.no_panic[of "f drv e x" A]
  by (auto simp: run_on_conn_def split: outcome.splits prod.splits) (metis fst_conv)

lemma restore_grows: "A (SetAutocommit True, True) \<Longrightarrow> A (SetAutocommit True, False) \<Longrightarrow>
   log_grows A i w (snd (try_restore_autocommit drv i w))"
proof (cases "lock_connection ''Failed to lock handles'' w i")
  case (Ok conn)
  assume "A (SetAutocommit True, True)" "A (SetAutocommit True, False)"
  then obtain l where "snd (conn_call drv (SetAutocommit True) conn) = conn\<lparr>cn_log := cn_log conn @ l\<rparr>" "list_all A l"
    using conn_step.extends[OF conn_step_call[of A "SetAutocommit True" drv]] by blast
  with Ok show ?thesis
    by (auto simp: try_restore_autocommit_def log_grows_def lock_connection_log intro!: exI[of _ l])
qed (simp_all add: try_restore_autocommit_def)

lemma conn_step_end_then_rollback: "conn_step (end_then_rollback drv e x) (not_phase2 e x)"
proof
  fix conn
  obtain l where l: "snd (apply_xa_end drv e x conn) = conn\<lparr>cn_log := cn_log conn @ l\<rparr>" "list_all (not_phase2 e x) l"
    using conn_step.extends[OF conn_step_xa_end] by blast
  obtain l' where l': "snd (apply_xa_rollback drv e x (snd (apply_xa_end drv e x conn))) =
      (snd (apply_xa_end drv e x conn))\<lparr>cn_log := cn_log (snd (apply_xa_end drv e x conn)) @ l'\<rparr>"
      "list_all (not_phase2 e x) l'"
    using conn_step.extends[OF conn_step_xa_rollback] by blast
  show "fst (end_then_rollback drv e x conn) \<noteq> Panic"
    using conn_step.no_panic[OF conn_step_xa_rollback] by (simp add: end_then_rollback_def)
  show "\<exists>l. snd (end_then_rollback drv e x conn) = conn\<lparr>cn_log := cn_log conn @ l\<rparr> \<and> list_all (not_phase2 e x) l"
    using l l' by (auto simp: end_then_rollback_def intro!: exI[of _ "l @ l'"])
qed

abbreviation branch_grows :: "xa_transaction \<Rightarrow> world \<Rightarrow> world \<Rightarrow> bool" where
  "branch_grows tx \<equiv> log_grows (not_phase2 (xa_engine_id tx) (xa_xid tx)) (xa_conn_id tx)"

lemma drop_xa_grows: "branch_grows tx w (drop_xa drv tx w)"
  unfolding drop_xa_def
  by (simp add: log_grows_trans[OF run_on_conn_grows[of end_then_rollback, OF conn_step_end_then_rollback] restore_grows])

text \<open>A method of the branch only adds calls other than the phase 2 commit if its steps do.\<close>

lemma step_or_drop_grows:
  assumes "\<And>r w1. m = (r, w1) \<Longrightarrow> branch_grows tx w w1" and "\<And>x w1. m = (Ok x, w1) \<Longrightarrow> branch_grows tx w (snd (k x w1))"
  shows "branch_grows tx w (snd (step_or_drop drv tx m k))"
proof -
  obtain r w1 where m: "m = (r, w1)" by (cases m)
  have "branch_grows tx w (drop_xa drv tx w1)"
    using assms(1) m by (auto intro: log_grows_trans drop_xa_grows)
  with assms(2) m show ?thesis by (cases r) (simp_all add: step_or_drop_def)
qed

lemma conclude_grows: "branch_grows tx w w1 \<Longrightarrow> branch_grows tx w (snd (conclude drv tx r s w1))"
proof -
  assume g: "branch_grows tx w w1"
  have d: "branch_grows tx w (drop_xa drv (tx\<lparr>xa_st := st\<rparr>) w1)" for st
    using log_grows_trans[OF g] drop_xa_grows[of "tx\<lparr>xa_st := st\<rparr>" w1 drv] by simp
  have d2: "branch_grows tx w (drop_xa drv tx w1)" using log_grows_trans[OF g drop_xa_grows] .
  show ?thesis
    using g d d2 by (cases r) (auto simp: conclude_def intro!: step_or_drop_grows)
qed

lemma on_branch_grows:
  assumes "on_branch drv tx f w = (r, w')"
    and "conn_step (f drv (xa_engine_id tx) (xa_xid tx)) (not_phase2 (xa_engine_id tx) (xa_xid tx))"
    and "branch_grows tx w0 w"
  shows "branch_grows tx w0 w'"
  using log_grows_trans[OF assms(3) run_on_conn_grows[of f, OF assms(2)]] assms(1) by simp

lemma restore_grows_branch:
  assumes "try_restore_autocommit drv (xa_conn_id tx) w = (r, w')" and "branch_grows tx w0 w"
  shows "branch_grows tx w0 w'"
  using log_grows_trans[OF assms(2) restore_grows[of "not_phase2 (xa_engine_id tx) (xa_xid tx)" _ _ drv]] assms(1)
  by simp

lemmas branch_grows_rules =
  on_branch_grows[of _ _ apply_xa_end, OF _ conn_step_xa_end]
  on_branch_grows[of _ _ apply_xa_prepare, OF _ conn_step_xa_prepare]
  on_branch_grows[of _ _ "apply_xa_commit True", OF _ conn_step_xa_one_phase]
  on_branch_grows[of _ _ apply_xa_rollback, OF _ conn_step_xa_rollback]
  restore_grows_branch

lemma xa_end_grows: "branch_grows tx w (snd (xa_end drv tx w))"
  unfolding xa_end_def by (intro step_or_drop_grows; auto elim: branch_grows_rules)

lemma commit_one_phase_grows: "branch_grows tx w (snd (commit_one_phase drv tx w))"
  unfolding commit_one_phase_def Let_def
  by (intro step_or_drop_grows; auto split: prod.splits intro!: conclude_grows elim!: branch_grows_rules)

lemma xa_rollback_grows: "branch_grows tx w (snd (xa_rollback drv tx w))"
  unfolding xa_rollback_def Let_def
  by (intro step_or_drop_grows; auto split: prod.splits intro!: conclude_grows elim!: branch_grows_rules)

lemma preparing_rollback_grows: "branch_grows (px_inner px) w (snd (preparing_rollback drv px w))"
  unfolding preparing_rollback_def Let_def
  by (intro step_or_drop_grows; auto split: prod.splits intro!: conclude_grows elim!: branch_grows_rules)

section \<open>Prepare\<close>

lemma assert_xa_state_Ok_iff:
  "assert_xa_state owner st s op = Ok u \<longleftrightarrow> xa_state_of st = s"
  by (simp add: assert_xa_state_def)

lemma prepare_unsupported: "prepare_sql e x = None \<Longrightarrow> \<exists>er. apply_xa_prepare drv e x conn = (Err er, conn)"
  by (auto simp: prepare_sql_def apply_xa_prepare_def split: if_splits)

lemma xa_prepare_locked:
  assumes "xa_st (px_inner px) = Some XA_Idle" and "prepare_sql (xa_engine_id (px_inner px)) (xa_xid (px_inner px)) = Some s"
    and "lock_connection m w (xa_conn_id (px_inner px)) = Ok conn"
  obtains ok restored where
    "log_of (snd (xa_prepare drv px w)) (xa_conn_id (px_inner px)) =
       Some (cn_log conn @ [(Exec s, ok), (SetAutocommit True, restored)])"
    "case fst (xa_prepare drv px w) of
       Ok pr \<Rightarrow> ok \<and> pr = \<lparr>pr_conn_id = xa_conn_id (px_inner px), pr_xid = xa_xid (px_inner px),
                          pr_engine_id = xa_engine_id (px_inner px), pr_st = Some XA_Prepared\<rparr>
     | Err e \<Rightarrow> \<not> ok
     | Panic \<Rightarrow> False"
proof -
  let ?tx = "px_inner px" and ?i = "xa_conn_id (px_inner px)"
  have lock: "lock_connection ''Failed to lock handles'' w ?i = Ok conn" by (rule lock_connection_msg[OF assms(3)])
  define c1 where "c1 = snd (conn_call drv (Exec s) conn)"
  define c2 where "c2 = snd (conn_call drv (SetAutocommit True) c1)"
  have p1: "cn_poisoned c1 = cn_poisoned conn" by (simp add: c1_def conn_call_def split: option.splits)
  have run: "on_branch drv ?tx apply_xa_prepare w = (fst (conn_call drv (Exec s) conn), put_connection ?i c1 w)"
    by (simp add: run_on_conn_def lock apply_xa_prepare_sql[OF assms(2)] c1_def split: prod.splits)
  have rst: "try_restore_autocommit drv ?i (put_connection ?i c1 w) = (Ok (), put_connection ?i c2 (put_connection ?i c1 w))"
    by (simp add: try_restore_autocommit_def lock_connection_put[OF lock p1] c2_def)
  have drop: "drop_xa drv (?tx\<lparr>xa_st := Some st\<rparr>) v = v" if "st \<in> {XA_Prepared, XA_Failed}" for st v
    using that by (auto simp: drop_xa_def xa_state_of_def)
  obtain restored where c2: "cn_log c2 = cn_log c1 @ [(SetAutocommit True, restored)]"
    by (cases "dv_call drv c1 (SetAutocommit True)") (auto simp: c2_def conn_call_def)
  show ?thesis
  proof (cases "dv_call drv conn (Exec s)")
    case None
    then have "cn_log c1 = cn_log conn @ [(Exec s, True)]" "fst (conn_call drv (Exec s) conn) = Ok ()"
      by (simp_all add: c1_def conn_call_def)
    with assms(1) run rst drop c2 show ?thesis
      by (intro that[of True restored])
        (simp_all add: xa_prepare_def Let_def step_or_drop_def assert_xa_state_def xa_state_of_def set_xa_state_def)
  next
    case (Some er)
    then have "cn_log c1 = cn_log conn @ [(Exec s, False)]" "fst (conn_call drv (Exec s) conn) = Err (from_odbc_api er)"
      by (simp_all add: c1_def conn_call_def)
    with assms(1) run rst drop c2 show ?thesis
      by (intro that[of False restored])
        (simp_all add: xa_prepare_def Let_def step_or_drop_def assert_xa_state_def xa_state_of_def set_xa_state_def)
  qed
qed

text \<open>
  C2. Phase 1 is decided by the engine alone: preparing an ended branch sends exactly the prepare
  statement of its XID and restores autocommit. The branch becomes a \<open>PreparedXa\<close> of the same XID
  exactly when the statement succeeded, and in neither case does the destructor of the consumed
  branch send a rollback after it.
\<close>

theorem prepare_outcome:
  assumes "xa_st (px_inner px) = Some XA_Idle" and "prepare_sql (xa_engine_id (px_inner px)) (xa_xid (px_inner px)) = Some s"
    and "lock_connection m w (xa_conn_id (px_inner px)) = Ok conn"
  shows "\<exists>ok restored. log_of (snd (xa_prepare drv px w)) (xa_conn_id (px_inner px)) =
       Some (cn_log conn @ [(Exec s, ok), (SetAutocommit True, restored)]) \<and>
    (case fst (xa_prepare drv px w) of
       Ok pr \<Rightarrow> ok \<and> pr = \<lparr>pr_conn_id = xa_conn_id (px_inner px), pr_xid = xa_xid (px_inner px),
                          pr_engine_id = xa_engine_id (px_inner px), pr_st = Some XA_Prepared\<rparr>
     | Err e \<Rightarrow> \<not> ok
     | Panic \<Rightarrow> False)"
  by (rule xa_prepare_locked[OF assms, of drv]) blast

theorem prepare_outcome_witness:
  "let px = \<lparr>px_inner = \<lparr>xa_conn_id = 1, xa_xid = \<lparr>xid_format_id = 0, xid_gtrid = [1], xid_bqual = []\<rparr>,
              xa_engine_id = ENGINE_POSTGRES, xa_st = Some XA_Idle\<rparr>\<rparr>
   in \<exists>ok restored. log_of (snd (xa_prepare (accepting_driver []) px one_connection)) 1 =
        Some [(Exec (''PREPARE TRANSACTION '' @ q1 @ ''0_01_'' @ q1), ok), (SetAutocommit True, restored)]"
proof -
  let ?x = "\<lparr>xid_format_id = 0, xid_gtrid = [1], xid_bqual = []\<rparr>"
  let ?px = "\<lparr>px_inner = \<lparr>xa_conn_id = 1, xa_xid = ?x, xa_engine_id = ENGINE_POSTGRES, xa_st = Some XA_Idle\<rparr>\<rparr>"
  have e: "encode_postgres ?x = ''0_01_''" by code_simp
  have "prepare_sql (xa_engine_id (px_inner ?px)) (xa_xid (px_inner ?px)) = Some (''PREPARE TRANSACTION '' @ q1 @ ''0_01_'' @ q1)"
    by (simp add: prepare_sql_def e)
  moreover have "lock_connection [] one_connection (xa_conn_id (px_inner ?px)) =
      Ok \<lparr>cn_str = ''DSN=a'', cn_poisoned = False, cn_log = []\<rparr>"
    by (simp add: lock_connection_def one_connection_def get_connection_def)
  ultimately show ?thesis
    unfolding Let_def using prepare_outcome[of ?px] by fastforce
qed

section \<open>The protocol\<close>

text \<open>
  The type-state of a branch: which handle the client holds. Every step is one method call, or the
  destructor, or other work on the connection between two calls (any calls except the phase 2 commit
  of this XID). The driver may answer differently at every step.
\<close>

datatype xa_handle =
    XH_Active xa_transaction
  | XH_Preparing preparing_xa
  | XH_Prepared prepared_xa
  | XH_Closed

inductive xa_step :: "u32 \<Rightarrow> string \<Rightarrow> xid \<Rightarrow> xa_handle \<times> world \<Rightarrow> xa_handle \<times> world \<Rightarrow> bool"
  for i :: u32 and e :: string and x :: xid
where
  end_ok: "xa_end drv tx w = (Ok px, w') \<Longrightarrow> xa_step i e x (XH_Active tx, w) (XH_Preparing px, w')"
| end_err: "xa_end drv tx w = (Err er, w') \<Longrightarrow> xa_step i e x (XH_Active tx, w) (XH_Closed, w')"
| one_phase: "commit_one_phase drv tx w = (r, w') \<Longrightarrow> xa_step i e x (XH_Active tx, w) (XH_Closed, w')"
| rollback: "xa_rollback drv tx w = (r, w') \<Longrightarrow> xa_step i e x (XH_Active tx, w) (XH_Closed, w')"
| drop_active: "xa_step i e x (XH_Active tx, w) (XH_Closed, drop_xa drv tx w)"
| prepare_ok: "xa_prepare drv px w = (Ok pr, w') \<Longrightarrow> xa_step i e x (XH_Preparing px, w) (XH_Prepared pr, w')"
| prepare_err: "xa_prepare drv px w = (Err er, w') \<Longrightarrow> xa_step i e x (XH_Preparing px, w) (XH_Closed, w')"
| rollback_idle: "preparing_rollback drv px w = (r, w') \<Longrightarrow> xa_step i e x (XH_Preparing px, w) (XH_Closed, w')"
| drop_preparing: "xa_step i e x (XH_Preparing px, w) (XH_Closed, drop_xa drv (px_inner px) w)"
| commit_prepared: "prepared_commit drv pr w = (r, w') \<Longrightarrow> xa_step i e x (XH_Prepared pr, w) (XH_Closed, w')"
| rollback_prepared: "prepared_rollback drv pr w = (r, w') \<Longrightarrow> xa_step i e x (XH_Prepared pr, w) (XH_Closed, w')"
| forget: "xa_step i e x (XH_Prepared pr, w) (XH_Closed, w)"
| work: "log_grows (not_phase2 e x) i w w' \<Longrightarrow> xa_step i e x (h, w) (h, w')"

inductive_cases xa_stepE: "xa_step i e x (h, w) (h', w')"

text \<open>
  The discipline of two-phase commit on a history: the phase 2 commit statement is only ever sent
  after the prepare statement has succeeded.
\<close>

fun commit_after_prepare :: "string \<Rightarrow> string \<Rightarrow> bool \<Rightarrow> (call \<times> bool) list \<Rightarrow> bool" where
  "commit_after_prepare p c seen [] = True"
| "commit_after_prepare p c seen ((call, ok) # l) =
     ((call = Exec c \<longrightarrow> seen) \<and> commit_after_prepare p c (seen \<or> (Exec p = call \<and> ok)) l)"

lemma commit_after_prepare_mono: "commit_after_prepare p c seen l \<Longrightarrow> commit_after_prepare p c True l"
  by (induction l arbitrary: seen) auto

lemma commit_after_prepare_append:
  "commit_after_prepare p c seen (l @ l') \<longleftrightarrow>
     commit_after_prepare p c seen l \<and> commit_after_prepare p c (seen \<or> (Exec p, True) \<in> set l) l'"
  by (induction l arbitrary: seen) (auto simp: disj_ac)

lemma not_phase2_commit_after:
  "list_all (not_phase2 e x) l \<Longrightarrow> commit_sql False e x = Some c \<Longrightarrow> commit_after_prepare p c seen l"
  by (induction l arbitrary: seen) (auto simp: not_phase2_def)

text \<open>The invariant of the protocol.\<close>

fun handle_inv :: "u32 \<Rightarrow> string \<Rightarrow> xid \<Rightarrow> string \<Rightarrow> xa_handle \<Rightarrow> (call \<times> bool) list \<Rightarrow> bool" where
  "handle_inv i e x p (XH_Active tx) L \<longleftrightarrow> xa_conn_id tx = i \<and> xa_engine_id tx = e \<and> xa_xid tx = x"
| "handle_inv i e x p (XH_Preparing px) L \<longleftrightarrow>
     xa_conn_id (px_inner px) = i \<and> xa_engine_id (px_inner px) = e \<and> xa_xid (px_inner px) = x"
| "handle_inv i e x p (XH_Prepared pr) L \<longleftrightarrow>
     pr_conn_id pr = i \<and> pr_engine_id pr = e \<and> pr_xid pr = x \<and> (Exec p, True) \<in> set L"
| "handle_inv i e x p XH_Closed L \<longleftrightarrow> True"

definition protocol_inv :: "u32 \<Rightarrow> string \<Rightarrow> xid \<Rightarrow> string \<Rightarrow> string \<Rightarrow> xa_handle \<times> world \<Rightarrow> bool" where
  "protocol_inv i e x p c s \<longleftrightarrow>
     (\<exists>L. log_of (snd s) i = Some L \<and> commit_after_prepare p c False L \<and> handle_inv i e x p (fst s) L)"

lemma protocol_inv_grows:
  assumes "protocol_inv i e x p c (h, w)" and "log_grows (not_phase2 e x) i w w'" and "commit_sql False e x = Some c"
    and "\<And>L l. handle_inv i e x p h L \<Longrightarrow> handle_inv i e x p h' (L @ l)"
  shows "protocol_inv i e x p c (h', w')"
proof -
  obtain L where L: "log_of w i = Some L" "commit_after_prepare p c False L" "handle_inv i e x p h L"
    using assms(1) by (auto simp: protocol_inv_def)
  obtain l where l: "log_of w' i = Some (L @ l)" "list_all (not_phase2 e x) l"
    using assms(2) L(1) by (auto simp: log_grows_def)
  have "commit_after_prepare p c False (L @ l)"
    unfolding commit_after_prepare_append using L(2) not_phase2_commit_after[OF l(2) assms(3)] by blast
  with l(1) assms(4)[OF L(3)] show ?thesis by (auto simp: protocol_inv_def)
qed

lemma handle_inv_mono: "handle_inv i e x p h L \<Longrightarrow> handle_inv i e x p h (L @ l)"
  by (cases h) auto

lemma xa_end_Ok_inner: "xa_end drv tx w = (Ok px, w') \<Longrightarrow> \<exists>st. px_inner px = tx\<lparr>xa_st := st\<rparr>"
  by (auto simp: xa_end_def step_or_drop_def split: prod.splits outcome.splits)

lemma xa_prepare_Ok:
  assumes "xa_prepare drv px w = (Ok pr, w')" and "prepare_sql (xa_engine_id (px_inner px)) (xa_xid (px_inner px)) = Some p"
  shows "\<exists>L restored. log_of w (xa_conn_id (px_inner px)) = Some L \<and>
      log_of w' (xa_conn_id (px_inner px)) = Some (L @ [(Exec p, True), (SetAutocommit True, restored)])"
    and "pr_conn_id pr = xa_conn_id (px_inner px)" "pr_engine_id pr = xa_engine_id (px_inner px)"
    "pr_xid pr = xa_xid (px_inner px)"
proof -
  let ?tx = "px_inner px" and ?i = "xa_conn_id (px_inner px)"
  have "xa_state_of (xa_st ?tx) = XA_Idle"
    using assms(1)
    by (auto simp: xa_prepare_def Let_def step_or_drop_def assert_xa_state_Ok_iff split: outcome.splits prod.splits)
  then have st: "xa_st ?tx = Some XA_Idle" by (cases "xa_st ?tx") (auto simp: xa_state_of_def)
  have "\<exists>conn. lock_connection ''Failed to lock handles'' w ?i = Ok conn"
  proof (cases "lock_connection ''Failed to lock handles'' w ?i")
    case (Err er)
    with assms(1) st show ?thesis
      by (auto simp: xa_prepare_def Let_def step_or_drop_def run_on_conn_def assert_xa_state_def xa_state_of_def
          set_xa_state_def split: prod.splits)
  qed auto
  then obtain conn where lock: "lock_connection ''Failed to lock handles'' w ?i = Ok conn" by blast
  show "\<exists>L restored. log_of w ?i = Some L \<and> log_of w' ?i = Some (L @ [(Exec p, True), (SetAutocommit True, restored)])"
    and "pr_conn_id pr = ?i" "pr_engine_id pr = xa_engine_id ?tx" "pr_xid pr = xa_xid ?tx"
    using assms(1) lock_connection_log[OF lock]
    by (rule_tac xa_prepare_locked[OF st assms(2) lock, of drv]; auto)+
qed

lemma xa_prepare_err_grows:
  assumes "xa_prepare drv px w = (Err er, w')"
  shows "branch_grows (px_inner px) w w'"
proof -
  have "branch_grows (px_inner px) w (snd (xa_prepare drv px w))"
    unfolding xa_prepare_def Let_def
  proof (intro step_or_drop_grows, goal_cases)
    case (2 u w1)
    obtain r w2 where r: "on_branch drv (px_inner px) apply_xa_prepare w1 = (r, w2)" by fastforce
    have g: "branch_grows (px_inner px) w w2" using 2 branch_grows_rules(2)[OF r] by simp
    obtain r3 w3 where r3: "try_restore_autocommit drv (xa_conn_id (px_inner px)) w2 = (r3, w3)" by fastforce
    have g3: "branch_grows (px_inner px) w w3" using restore_grows_branch[OF r3 g] .
    have d: "branch_grows (px_inner px) w (drop_xa drv ((px_inner px)\<lparr>xa_st := st\<rparr>) w3)" for st
      using log_grows_trans[OF g3] drop_xa_grows[of "(px_inner px)\<lparr>xa_st := st\<rparr>" w3 drv] by simp
    have d2: "branch_grows (px_inner px) w (drop_xa drv (px_inner px) w2)"
      using log_grows_trans[OF g drop_xa_grows] .
    show ?case
      using g d d2 by (cases r) (auto simp: r r3 intro!: step_or_drop_grows)
  qed auto
  with assms show ?thesis by simp
qed

lemma prepared_commit_log:
  assumes "prepared_commit drv pr w = (r, w')" and "commit_sql False (pr_engine_id pr) (pr_xid pr) = Some c"
  shows "log_of w' (pr_conn_id pr) = log_of w (pr_conn_id pr) \<or>
    (\<exists>L ok. log_of w (pr_conn_id pr) = Some L \<and> log_of w' (pr_conn_id pr) = Some (L @ [(Exec c, ok)]))"
proof (cases "lock_connection ''Failed to lock handles'' w (pr_conn_id pr)")
  case (Ok conn)
  have "log_of w' (pr_conn_id pr) = log_of w (pr_conn_id pr) \<or>
      w' = put_connection (pr_conn_id pr) (snd (conn_call drv (Exec c) conn)) w"
    using assms(1) Ok
    by (auto simp: prepared_commit_def prepared_finish_def try_with_def run_on_conn_def apply_xa_commit_sql[OF assms(2)]
        Let_def split: outcome.splits prod.splits)
  then show ?thesis
    using lock_connection_log[OF Ok] by (cases "dv_call drv conn (Exec c)") (auto simp: conn_call_def)
next
  case (Err er)
  then have "w' = w"
    using assms(1)
    by (auto simp: prepared_commit_def prepared_finish_def try_with_def run_on_conn_def Let_def
        split: outcome.splits prod.splits)
  then show ?thesis by simp
qed simp

lemma prepared_rollback_grows:
  "log_grows (not_phase2 (pr_engine_id pr) (pr_xid pr)) (pr_conn_id pr) w (snd (prepared_rollback drv pr w))"
proof -
  have "snd (prepared_rollback drv pr w) = w \<or> snd (prepared_rollback drv pr w) =
      snd (run_on_conn drv (pr_conn_id pr) (pr_engine_id pr) (pr_xid pr) apply_xa_rollback_prepared w)"
    by (auto simp: prepared_rollback_def prepared_finish_def try_with_def Let_def split: outcome.splits prod.splits)
  then show ?thesis
    using run_on_conn_grows[of apply_xa_rollback_prepared, OF conn_step_xa_rollback_prepared] by auto
qed

lemma active_to_closed:
  assumes "protocol_inv i e x p c (XH_Active tx, w)" and "commit_sql False e x = Some c" and "branch_grows tx w w'"
  shows "protocol_inv i e x p c (XH_Closed, w')"
proof -
  from assms(1) have "xa_conn_id tx = i" "xa_engine_id tx = e" "xa_xid tx = x" by (auto simp: protocol_inv_def)
  with assms show ?thesis by (intro protocol_inv_grows[OF assms(1)]) auto
qed

lemma preparing_to_closed:
  assumes "protocol_inv i e x p c (XH_Preparing px, w)" and "commit_sql False e x = Some c"
    and "branch_grows (px_inner px) w w'"
  shows "protocol_inv i e x p c (XH_Closed, w')"
proof -
  from assms(1) have "xa_conn_id (px_inner px) = i" "xa_engine_id (px_inner px) = e" "xa_xid (px_inner px) = x"
    by (auto simp: protocol_inv_def)
  with assms show ?thesis by (intro protocol_inv_grows[OF assms(1)]) auto
qed

lemma end_keeps_inv:
  assumes "protocol_inv i e x p c (XH_Active tx, w)" and "commit_sql False e x = Some c"
    and "xa_end drv tx w = (Ok px, w')"
  shows "protocol_inv i e x p c (XH_Preparing px, w')"
proof -
  from assms(1) have ids: "xa_conn_id tx = i" "xa_engine_id tx = e" "xa_xid tx = x" by (auto simp: protocol_inv_def)
  with xa_end_Ok_inner[OF assms(3)] have "handle_inv i e x p (XH_Preparing px) L" for L by auto
  then show ?thesis
    using xa_end_grows[of tx w drv] assms ids by (intro protocol_inv_grows[OF assms(1)]) auto
qed

lemma prepare_keeps_inv:
  assumes "protocol_inv i e x p c (XH_Preparing px, w)" and "prepare_sql e x = Some p" and "p \<noteq> c"
    and "xa_prepare drv px w = (Ok pr, w')"
  shows "protocol_inv i e x p c (XH_Prepared pr, w')"
proof -
  from assms(1) have ids: "xa_conn_id (px_inner px) = i" "xa_engine_id (px_inner px) = e" "xa_xid (px_inner px) = x"
    by (auto simp: protocol_inv_def)
  with xa_prepare_Ok[OF assms(4)] assms(2) obtain L restored where
    "log_of w i = Some L" "log_of w' i = Some (L @ [(Exec p, True), (SetAutocommit True, restored)])"
    "pr_conn_id pr = i" "pr_engine_id pr = e" "pr_xid pr = x" by auto
  with assms(1,3) show ?thesis by (auto simp: protocol_inv_def commit_after_prepare_append)
qed

lemma prepared_to_closed:
  assumes "protocol_inv i e x p c (XH_Prepared pr, w)" and "commit_sql False e x = Some c"
  shows "prepared_commit drv pr w = (r, w') \<Longrightarrow> protocol_inv i e x p c (XH_Closed, w')"
    and "prepared_rollback drv pr w = (r, w') \<Longrightarrow> protocol_inv i e x p c (XH_Closed, w')"
    and "protocol_inv i e x p c (XH_Closed, w)"
proof -
  obtain L where L: "log_of w i = Some L" "commit_after_prepare p c False L" "(Exec p, True) \<in> set L"
    and ids: "pr_conn_id pr = i" "pr_engine_id pr = e" "pr_xid pr = x"
    using assms(1) by (auto simp: protocol_inv_def)
  show "protocol_inv i e x p c (XH_Closed, w')" if "prepared_commit drv pr w = (r, w')"
    using prepared_commit_log[OF that] assms(2) ids L by (auto simp: protocol_inv_def commit_after_prepare_append)
  show "protocol_inv i e x p c (XH_Closed, w')" if "prepared_rollback drv pr w = (r, w')"
    using prepared_rollback_grows[of pr w drv] that ids assms(2)
    by (intro protocol_inv_grows[OF assms(1)]) auto
  show "protocol_inv i e x p c (XH_Closed, w)" using L by (simp add: protocol_inv_def)
qed

lemma protocol_inv_step:
  assumes "prepare_sql e x = Some p" and com: "commit_sql False e x = Some c" and "p \<noteq> c"
  shows "xa_step i e x s s' \<Longrightarrow> protocol_inv i e x p c s \<Longrightarrow> protocol_inv i e x p c s'"
proof (induction rule: xa_step.induct)
  case (end_ok drv tx w px w')
  from end_keeps_inv[OF end_ok(2) com end_ok(1)] show ?case .
next
  case (end_err drv tx w er w')
  from active_to_closed[OF end_err(2) com] xa_end_grows[of tx w drv] end_err(1) show ?case by simp
next
  case (one_phase drv tx w r w')
  from active_to_closed[OF one_phase(2) com] commit_one_phase_grows[of tx w drv] one_phase(1) show ?case by simp
next
  case (rollback drv tx w r w')
  from active_to_closed[OF rollback(2) com] xa_rollback_grows[of tx w drv] rollback(1) show ?case by simp
next
  case (drop_active tx w drv)
  from active_to_closed[OF drop_active com drop_xa_grows] show ?case .
next
  case (prepare_ok drv px w pr w')
  from prepare_keeps_inv[OF prepare_ok(2) assms(1,3) prepare_ok(1)] show ?case .
next
  case (prepare_err drv px w er w')
  from preparing_to_closed[OF prepare_err(2) com xa_prepare_err_grows[OF prepare_err(1)]] show ?case .
next
  case (rollback_idle drv px w r w')
  from preparing_to_closed[OF rollback_idle(2) com] preparing_rollback_grows[of px w drv] rollback_idle(1)
  show ?case by simp
next
  case (drop_preparing px w drv)
  from preparing_to_closed[OF drop_preparing com drop_xa_grows] show ?case .
next
  case (commit_prepared drv pr w r w')
  from prepared_to_closed(1)[OF commit_prepared(2) com commit_prepared(1)] show ?case .
next
  case (rollback_prepared drv pr w r w')
  from prepared_to_closed(2)[OF rollback_prepared(2) com rollback_prepared(1)] show ?case .
next
  case (forget pr w)
  from prepared_to_closed(3)[OF forget com] show ?case .
next
  case (work w w' h)
  from protocol_inv_grows[OF work(2) work(1) com handle_inv_mono] show ?case .
qed

lemma prepare_commit_differ:
  "prepare_sql e x = Some p \<Longrightarrow> commit_sql False e x = Some c \<Longrightarrow> p \<noteq> c"
  by (auto simp: prepare_sql_def commit_sql_def mysql_xa_sql_verb oracle_xa_block_def split: if_splits)

lemma xa_start_inv:
  assumes "xa_start drv i x w0 = (Ok tx, w1)" and "log_of w0 i = Some L0"
    and "list_all (not_phase2 (xa_engine_id tx) x) L0"
    and "commit_sql False (xa_engine_id tx) x = Some c"
  shows "protocol_inv i (xa_engine_id tx) x p c (XH_Active tx, w1)"
proof -
  let ?e = "detect_engine_id drv w0 i"
  obtain conn where lock: "lock_connection ''Failed to lock handles'' w0 i = Ok conn"
    using assms(1) by (auto simp: xa_start_def Let_def split: outcome.splits prod.splits)
  have tx: "xa_engine_id tx = ?e" "xa_conn_id tx = i" "xa_xid tx = x"
    using assms(1) by (auto simp: xa_start_def lock Let_def split: prod.splits)
  have step: "conn_step (\<lambda>conn. and_then (conn_call drv (SetAutocommit False) conn) (apply_xa_start drv ?e x)) (not_phase2 ?e x)"
    by (intro conn_step_seq conn_step_call conn_step_xa_start) simp_all
  obtain l where l: "snd (and_then (conn_call drv (SetAutocommit False) conn) (apply_xa_start drv ?e x)) =
      conn\<lparr>cn_log := cn_log conn @ l\<rparr>" "list_all (not_phase2 ?e x) l"
    using conn_step.extends[OF step] by blast
  have "log_of w1 i = Some (L0 @ l)"
    using assms(1,2) l(1) lock_connection_log[OF lock] by (auto simp: xa_start_def lock Let_def split: prod.splits)
  moreover have "commit_after_prepare p c False (L0 @ l)"
    using assms(3,4) l(2) tx(1) by (intro not_phase2_commit_after[of ?e x]) auto
  ultimately show ?thesis using tx by (auto simp: protocol_inv_def)
qed

text \<open>
  C1. The two-phase commit discipline: in every run of a branch from its start, through any sequence
  of method calls, drops and other work, and whatever the driver answers, the phase 2 commit
  statement of the XID is only sent after its prepare statement has succeeded.
\<close>

theorem two_phase_discipline:
  assumes "xa_start drv i x w0 = (Ok tx, w1)" and "log_of w0 i = Some L0"
    and "list_all (not_phase2 (xa_engine_id tx) x) L0"
    and "(xa_step i (xa_engine_id tx) x)\<^sup>*\<^sup>* (XH_Active tx, w1) (h, w)"
    and "prepare_sql (xa_engine_id tx) x = Some p" and "commit_sql False (xa_engine_id tx) x = Some c"
  shows "\<exists>L. log_of w i = Some L \<and> commit_after_prepare p c False L"
proof -
  note differ = prepare_commit_differ[OF assms(5,6)]
  have "protocol_inv i (xa_engine_id tx) x p c (h, w)"
    using assms(4)
  proof (induction rule: rtranclp_induct)
    case base
    then show ?case by (rule xa_start_inv[OF assms(1-3,6)])
  next
    case (step s s')
    then show ?case using protocol_inv_step[OF assms(5,6) differ] by blast
  qed
  then show ?thesis by (auto simp: protocol_inv_def)
qed

section \<open>A complete run\<close>




lemma conn_call_accepted: "dv_call drv conn c = None \<Longrightarrow>
   conn_call drv c conn = (Ok (), conn\<lparr>cn_log := cn_log conn @ [(c, True)]\<rparr>)"
  by (simp add: conn_call_def)

lemma put_put [simp]: "put_connection i c2 (put_connection i c1 w) = put_connection i c2 w"
  by (simp add: put_connection_def)



text \<open>A concrete setting: one PostgreSQL connection and a driver that accepts every call.\<close>

lemma one_connection_lock:
  "lock_connection m one_connection 1 = Ok \<lparr>cn_str = ''DSN=a'', cn_poisoned = False, cn_log = []\<rparr>"
  by (simp add: lock_connection_def one_connection_def get_connection_def)

lemma detect_accepting: "e \<in> set all_engines \<Longrightarrow> detect_engine_id (accepting_driver e) one_connection 1 = e"
  by (simp add: detect_engine_id_def detect_for_conn_id_def one_connection_lock dbms_detect_def accepting_driver_def
      Let_def from_driver_name_def engine_from_id capabilities_engine)

lemma accepting_calls: "dv_call (accepting_driver n) conn c = None"
  by (simp add: accepting_driver_def)

definition xid_7 :: xid where
  "xid_7 = \<lparr>xid_format_id = 7, xid_gtrid = [1], xid_bqual = []\<rparr>"

lemma encode_xid_7: "encode_postgres xid_7 = ''7_01_''"
  by code_simp


theorem two_phase_discipline_witness:
  "\<exists>tx w1 L. xa_start (accepting_driver ENGINE_POSTGRES) 1 xid_7 one_connection = (Ok tx, w1) \<and>
    log_of (drop_xa (accepting_driver ENGINE_POSTGRES) tx w1) 1 = Some L \<and>
    commit_after_prepare (''PREPARE TRANSACTION '' @ q1 @ ''7_01_'' @ q1) (''COMMIT PREPARED '' @ q1 @ ''7_01_'' @ q1) False L"
proof -
  let ?d = "accepting_driver ENGINE_POSTGRES"
  have e: "detect_engine_id ?d one_connection 1 = ENGINE_POSTGRES"
    by (rule detect_accepting) (simp add: all_engines_def)
  obtain tx w1 where s: "xa_start ?d 1 xid_7 one_connection = (Ok tx, w1)" and te: "xa_engine_id tx = ENGINE_POSTGRES"
    by (simp add: xa_start_def one_connection_lock e conn_call_accepted[OF accepting_calls] apply_xa_start_def)
  have "(xa_step 1 (xa_engine_id tx) xid_7)\<^sup>*\<^sup>* (XH_Active tx, w1) (XH_Closed, drop_xa ?d tx w1)"
    by (intro r_into_rtranclp xa_step.drop_active)
  moreover have "log_of one_connection 1 = Some []" by (simp add: log_of_def one_connection_def)
  moreover have "prepare_sql (xa_engine_id tx) xid_7 = Some (''PREPARE TRANSACTION '' @ q1 @ ''7_01_'' @ q1)"
    and "commit_sql False (xa_engine_id tx) xid_7 = Some (''COMMIT PREPARED '' @ q1 @ ''7_01_'' @ q1)"
    by (simp_all add: prepare_sql_def commit_sql_def encode_xid_7 te)
  ultimately show ?thesis using two_phase_discipline[OF s] s by fastforce
qed

section \<open>Starting on an unsupported engine\<close>

text \<open>
  A failed start leaves the connection in manual-commit mode: on an engine without XA support
  \<open>XaTransaction::start\<close> has already turned autocommit off when it finds out, returns the error,
  and does not turn it on again, so later statements on the connection are never committed.
\<close>

theorem xa_start_unsupported_leaves_autocommit_off:
  assumes "dv_call drv conn (SetAutocommit False) = None" and "lock_connection m w i = Ok conn"
    and "prepare_sql (detect_engine_id drv w i) x = None"
  shows "\<exists>e conn'. fst (xa_start drv i x w) = Err (UnsupportedFeature e) \<and>
    lock_connection m (snd (xa_start drv i x w)) i = Ok conn' \<and> \<not> autocommit_of (cn_log conn')"
proof -
  let ?e = "detect_engine_id drv w i" and ?c = "conn\<lparr>cn_log := cn_log conn @ [(SetAutocommit False, True)]\<rparr>"
  have "\<exists>er. apply_xa_start drv ?e x ?c = (Err (UnsupportedFeature er), ?c)"
    using assms(3)
    by (auto simp: prepare_sql_def apply_xa_start_def unsupported_sqlserver_def unsupported_other_def split: if_splits)
  moreover have "lock_connection m (put_connection i ?c w) i = Ok ?c" using assms(2) by simp
  moreover have "\<not> autocommit_of (cn_log ?c)" by (simp add: autocommit_of_def)
  ultimately show ?thesis
    using lock_connection_msg[OF assms(2), of "''Failed to lock handles''"]
    by (auto simp: xa_start_def conn_call_accepted[OF assms(1)] omap_def)
qed

theorem xa_start_unsupported_leaves_autocommit_off_witness:
  "\<exists>e conn'. fst (xa_start (accepting_driver ENGINE_SQLSERVER) 1 xid_7 one_connection) = Err (UnsupportedFeature e) \<and>
    lock_connection [] (snd (xa_start (accepting_driver ENGINE_SQLSERVER) 1 xid_7 one_connection)) 1 = Ok conn' \<and>
    \<not> autocommit_of (cn_log conn')"
proof (rule xa_start_unsupported_leaves_autocommit_off[OF accepting_calls one_connection_lock])
  have "detect_engine_id (accepting_driver ENGINE_SQLSERVER) one_connection 1 = ENGINE_SQLSERVER"
    by (rule detect_accepting) (simp add: all_engines_def)
  then show "prepare_sql (detect_engine_id (accepting_driver ENGINE_SQLSERVER) one_connection 1) xid_7 = None"
    by (simp add: prepare_sql_def engines_distinct)
qed

section \<open>Recovery finds the prepared branches\<close>

text \<open>
  How the engines report a branch prepared by this code, as documented: PostgreSQL returns the
  identifier, the MySQL family the format identifier, the two lengths and the concatenated
  components, Oracle the format identifier and the components in upper-case hexadecimal.
\<close>

definition row_of :: "bytes list \<Rightarrow> fetched" where
  "row_of cols = Inr (\<lambda>k. if 1 \<le> k \<and> k \<le> length cols then Inr (Some (cols ! (k - 1))) else Inr None)"

definition postgres_row :: "xid \<Rightarrow> fetched" where
  "postgres_row x = row_of [as_bytes (encode_postgres x)]"

definition mysql_row :: "xid \<Rightarrow> fetched" where
  "mysql_row x = (case encode_mysql_components x of (g, b, f) \<Rightarrow>
     row_of [as_bytes (show_int (sint f)), as_bytes (show_nat (length g)), as_bytes (show_nat (length b)), as_bytes (g @ b)])"

definition oracle_row :: "xid \<Rightarrow> fetched" where
  "oracle_row x = (case encode_oracle_components x of (f, g, b) \<Rightarrow>
     row_of [as_bytes (show_int (sint f)), as_bytes g, as_bytes b])"

lemma ascii_simps [simp]:
  "ascii (hex_encode bs)" "ascii (hex_encode_upper bs)" "ascii (show_nat n)" "ascii (show_int i)" "ascii (encode_postgres x)"
proof -
  have "\<forall>c \<in> set HEX_LUT. of_char c < (128 :: nat)" "\<forall>c \<in> set HEX_LUT_UPPER. of_char c < (128 :: nat)"
    by (simp_all add: HEX_LUT_def HEX_LUT_UPPER_def)
  then show h: "ascii (hex_encode bs)" "ascii (hex_encode_upper bs)" for bs
    using lower.encode_with_chars upper.encode_with_chars
    unfolding ascii_def list_all_iff hex_encode_def hex_encode_upper_def by blast+
  show n: "ascii (show_nat n)" for n
    using show_nat_digits[of n] by (auto simp: ascii_def list_all_iff is_digit_char_def)
  then show i: "ascii (show_int i)" for i
    by (simp add: show_int_def) (simp add: ascii_def)
  from h i show "ascii (encode_postgres x)" by (simp add: encode_postgres_def ascii_def)
qed

lemma recover_rows_map:
  "(\<And>x. x \<in> set xs \<Longrightarrow> \<exists>r. mk x = Inr r \<and> body r = Ok (Some x)) \<Longrightarrow> recover_rows body (map mk xs) = Ok xs"
proof (induction xs)
  case (Cons x xs)
  from Cons.prems[of x] obtain r where "mk x = Inr r" "body r = Ok (Some x)" by auto
  with Cons show ?case by simp
qed simp

lemma decode_components_hex:
  "wf_xid x \<Longrightarrow> decode_components (xid_format_id x) (hex_encode (xid_gtrid x)) (hex_encode (xid_bqual x)) = Some x"
  "wf_xid x \<Longrightarrow> decode_components (xid_format_id x) (hex_encode_upper (xid_gtrid x)) (hex_encode_upper (xid_bqual x)) = Some x"
  by (simp_all add: decode_components_def xid_new_wf)

lemma decode_encode_postgres: "wf_xid x \<Longrightarrow> decode_postgres (encode_postgres x) = Some x"
  by (simp add: decode_postgres_def encode_postgres_def split_once_append underscore_free decode_components_hex)

lemma recover_postgres_row: "wf_xid x \<Longrightarrow> \<exists>r. postgres_row x = Inr r \<and> recover_row_postgres r = Ok (Some x)"
  by (simp add: postgres_row_def row_of_def recover_row_postgres_def get_text_def valid_str_ascii decode_encode_postgres)

lemma recover_mysql_row:
  assumes "wf_xid x" and "\<And>s. list_all is_digit_char s \<Longrightarrow> dv_trim drv s = s \<and> dv_trim drv (CHR ''-'' # s) = CHR ''-'' # s"
  shows "\<exists>r. mysql_row x = Inr r \<and> recover_row_mysql drv r = Ok (Some x)"
proof -
  let ?g = "hex_encode (xid_gtrid x)" and ?b = "hex_encode (xid_bqual x)"
  have trim: "dv_trim drv (show_nat n) = show_nat n" "dv_trim drv (show_int k) = show_int k" for n k
    using assms(2)[OF show_nat_digits] by (auto simp: show_int_def)
  have len: "length ?g \<le> 128" "length ?b \<le> 128"
    using assms(1) by (simp_all add: wf_xid_def hex_encode_def)
  then have us: "parse_usize (show_nat (length ?g)) = Some (length ?g)" "parse_usize (show_nat (length ?b)) = Some (length ?b)"
    by simp_all
  show ?thesis
    using len us decode_components_hex(1)[OF assms(1)]
    by (simp add: mysql_row_def encode_mysql_components_def row_of_def recover_row_mysql_def get_text_def text_or_empty_def
        parse_ascii_i32_def parse_ascii_usize_def valid_str_ascii trim the_default_def decode_mysql_components_def)
qed

lemma recover_oracle_row:
  assumes "wf_xid x" and "\<And>s. list_all is_digit_char s \<Longrightarrow> dv_trim drv s = s \<and> dv_trim drv (CHR ''-'' # s) = CHR ''-'' # s"
  shows "\<exists>r. oracle_row x = Inr r \<and> recover_row_oracle drv r = Ok (Some x)"
proof -
  have trim: "dv_trim drv (show_int k) = show_int k" for k
    using assms(2)[OF show_nat_digits] by (auto simp: show_int_def)
  show ?thesis
    using decode_components_hex(2)[OF assms(1)]
    by (simp add: oracle_row_def encode_oracle_components_def row_of_def recover_row_oracle_def get_text_def
        text_or_empty_def parse_ascii_i32_def valid_str_ascii trim the_default_def decode_oracle_components_def)
qed

text \<open>
  Recovery is complete: when the engine reports the branches this code prepared, in the row format
  of its dialect, recovery returns exactly their XIDs, in order, so each of them can be resumed.
  (\<open>trim\<close> has to leave decimal numbers alone, as \<open>str::trim\<close> does.)
\<close>

theorem recover_finds_prepared:
  assumes "list_all wf_xid xs"
    and "\<And>s. list_all is_digit_char s \<Longrightarrow> dv_trim drv s = s \<and> dv_trim drv (CHR ''-'' # s) = CHR ''-'' # s"
  shows "recover_rows recover_row_postgres (map postgres_row xs) = Ok xs \<and>
    recover_rows (recover_row_mysql drv) (map mysql_row xs) = Ok xs \<and>
    recover_rows (recover_row_oracle drv) (map oracle_row xs) = Ok xs"
proof (intro conjI; rule recover_rows_map)
  fix x assume "x \<in> set xs"
  then have wf: "wf_xid x" using assms(1) by (simp add: list_all_iff)
  from recover_postgres_row[OF wf] recover_mysql_row[of x drv, OF wf assms(2)] recover_oracle_row[of x drv, OF wf assms(2)]
  show "\<exists>r. postgres_row x = Inr r \<and> recover_row_postgres r = Ok (Some x)"
    "\<exists>r. mysql_row x = Inr r \<and> recover_row_mysql drv r = Ok (Some x)"
    "\<exists>r. oracle_row x = Inr r \<and> recover_row_oracle drv r = Ok (Some x)" by auto
qed

theorem recover_finds_prepared_witness:
  "recover_rows (recover_row_mysql (accepting_driver [])) (map mysql_row [xid_7, xid_7\<lparr>xid_bqual := [255]\<rparr>]) =
     Ok [xid_7, xid_7\<lparr>xid_bqual := [255]\<rparr>]"
proof -
  have "list_all wf_xid [xid_7, xid_7\<lparr>xid_bqual := [255]\<rparr>]" by (simp add: xid_7_def wf_xid_def)
  moreover have "dv_trim (accepting_driver []) s = s" for s by (simp add: accepting_driver_def)
  ultimately show ?thesis
    using recover_finds_prepared[of "[xid_7, xid_7\<lparr>xid_bqual := [255]\<rparr>]" "accepting_driver []"] by blast
qed

end
