(* ===== verification/Cells.thy ===== *)
theory Cells
  imports Row_Codec
begin

text \<open>
  \<open>engine/cell_reader.rs\<close>: how a cell of an ODBC cursor becomes the bytes of a row buffer. Text is
  fetched as UTF-16 and transcoded to UTF-8 by the engine (\<open>String::from_utf16_lossy\<close>), integers are
  parsed from their text. The row of the cursor is a parameter: what \<open>get_wide_text\<close> and
  \<open>get_binary\<close> deliver for each column.
\<close>

section \<open>UTF-16 and UTF-8\<close>

definition REPLACEMENT :: nat where "REPLACEMENT = 0xFFFD"

definition is_surrogate :: "u16 \<Rightarrow> bool" where
  "is_surrogate u \<longleftrightarrow> 0xD800 \<le> u \<and> u \<le> 0xDFFF"

definition is_low_surrogate :: "u16 \<Rightarrow> bool" where
  "is_low_surrogate u \<longleftrightarrow> 0xDC00 \<le> u \<and> u \<le> 0xDFFF"

text \<open>\<open>String::from_utf16_lossy\<close>, as the list of code points: unpaired surrogates are replaced.\<close>

fun from_utf16_lossy :: "u16 list \<Rightarrow> nat list" where
  "from_utf16_lossy [] = []"
| "from_utf16_lossy (u # us) =
     (if \<not> is_surrogate u then unat u # from_utf16_lossy us
      else if is_low_surrogate u then REPLACEMENT # from_utf16_lossy us
      else
        (case us of
           [] \<Rightarrow> [REPLACEMENT]
         | v # vs \<Rightarrow>
             if is_low_surrogate v
             then (0x10000 + (unat u - 0xD800) * 1024 + (unat v - 0xDC00)) # from_utf16_lossy vs
             else REPLACEMENT # from_utf16_lossy us))"

text \<open>\<open>char::encode_utf8\<close>\<close>

definition encode_utf8 :: "nat \<Rightarrow> bytes" where
  "encode_utf8 c =
     (if c < 0x80 then [of_nat c]
      else if c < 0x800 then [of_nat (0xC0 + c div 64), of_nat (0x80 + c mod 64)]
      else if c < 0x10000 then
        [of_nat (0xE0 + c div 4096), of_nat (0x80 + c div 64 mod 64), of_nat (0x80 + c mod 64)]
      else
        [of_nat (0xF0 + c div 262144), of_nat (0x80 + c div 4096 mod 64),
         of_nat (0x80 + c div 64 mod 64), of_nat (0x80 + c mod 64)])"

definition string_of_chars :: "nat list \<Rightarrow> string" where
  "string_of_chars cs = of_bytes (concat (map encode_utf8 cs))"

text \<open>\<open>char::is_whitespace\<close> (the Unicode property \<open>White_Space\<close>) and \<open>str::trim\<close>.\<close>

definition is_whitespace :: "nat \<Rightarrow> bool" where
  "is_whitespace c \<longleftrightarrow>
     (9 \<le> c \<and> c \<le> 13) \<or> c = 0x20 \<or> c = 0x85 \<or> c = 0xA0 \<or> c = 0x1680 \<or> (0x2000 \<le> c \<and> c \<le> 0x200A) \<or>
     c = 0x2028 \<or> c = 0x2029 \<or> c = 0x202F \<or> c = 0x205F \<or> c = 0x3000"

definition trim_chars :: "nat list \<Rightarrow> nat list" where
  "trim_chars cs = rev (dropWhile is_whitespace (rev (dropWhile is_whitespace cs)))"

text \<open>\<open>from_str\<close> of \<open>i64\<close>\<close>

definition parse_i64 :: "string \<Rightarrow> i64 option" where
  "parse_i64 s =
     (case s of [] \<Rightarrow> None
      | c # r \<Rightarrow>
        (if c = CHR ''-'' then
           (case parse_digits r of None \<Rightarrow> None
            | Some n \<Rightarrow> if n \<le> 2 ^ 63 then Some (of_int (- int n)) else None)
         else
           (case parse_digits (if c = CHR ''+'' then r else s) of None \<Rightarrow> None
            | Some n \<Rightarrow> if n < 2 ^ 63 then Some (of_nat n) else None)))"

section \<open>Reading a cell\<close>

record cursor_row =
  cr_wide_text :: "u16 \<Rightarrow> odbc_api_error + u16 list option"
  cr_binary :: "u16 \<Rightarrow> odbc_api_error + bytes option"

definition read_wide_text :: "cursor_row \<Rightarrow> u16 \<Rightarrow> u16 list option result" where
  "read_wide_text row col =
     (case cr_wide_text row col of Inl e \<Rightarrow> Err (from_odbc_api e) | Inr v \<Rightarrow> Ok v)"

definition wide_text_to_utf8_bytes :: "u16 list \<Rightarrow> bytes" where
  "wide_text_to_utf8_bytes w = concat (map encode_utf8 (from_utf16_lossy w))"

definition read_text :: "cursor_row \<Rightarrow> u16 \<Rightarrow> cell result" where
  "read_text row col = omap (map_option wide_text_to_utf8_bytes) (read_wide_text row col)"

definition read_binary :: "cursor_row \<Rightarrow> u16 \<Rightarrow> cell result" where
  "read_binary row col =
     (case cr_binary row col of Inl e \<Rightarrow> Err (from_odbc_api e) | Inr v \<Rightarrow> Ok v)"

definition read_i32_as_le_bytes :: "cursor_row \<Rightarrow> u16 \<Rightarrow> cell result" where
  "read_i32_as_le_bytes row col =
     obind (read_wide_text row col) (\<lambda>w.
     case w of
       None \<Rightarrow> Ok None
     | Some wide \<Rightarrow>
         let s = from_utf16_lossy wide in
         (case parse_i32 (string_of_chars (trim_chars s)) of
            Some value \<Rightarrow> Ok (Some (u32_le value))
          | None \<Rightarrow> Ok (Some (concat (map encode_utf8 s)))))"

definition read_i64_as_le_bytes :: "cursor_row \<Rightarrow> u16 \<Rightarrow> cell result" where
  "read_i64_as_le_bytes row col =
     obind (read_wide_text row col) (\<lambda>w.
     case w of
       None \<Rightarrow> Ok None
     | Some wide \<Rightarrow>
         let s = from_utf16_lossy wide in
         (case parse_i64 (string_of_chars (trim_chars s)) of
            Some value \<Rightarrow> Ok (Some (u64_le value))
          | None \<Rightarrow> Ok (Some (concat (map encode_utf8 s)))))"

definition read_cell_bytes :: "cursor_row \<Rightarrow> u16 \<Rightarrow> odbc_type \<Rightarrow> cell result" where
  "read_cell_bytes row col t =
     (case t of
        Binary \<Rightarrow> read_binary row col
      | Integer \<Rightarrow> read_i32_as_le_bytes row col
      | BigInt \<Rightarrow> read_i64_as_le_bytes row col
      | _ \<Rightarrow> read_text row col)"

section \<open>The transcoding is valid UTF-8\<close>

definition scalar :: "nat \<Rightarrow> bool" where
  "scalar c \<longleftrightarrow> c < 0x110000 \<and> \<not> (0xD800 \<le> c \<and> c \<le> 0xDFFF)"

lemma from_utf16_lossy_scalar: "list_all scalar (from_utf16_lossy us)"
proof (induction us rule: from_utf16_lossy.induct)
  case 1
  then show ?case by simp
next
  case (2 u us)
  have bound: "unat u < 0x10000" for u :: u16 using unsigned_less[of u, where 'a = nat] by simp
  have plain: "\<not> is_surrogate u \<Longrightarrow> scalar (unat u)"
    using bound[of u] by (auto simp: is_surrogate_def scalar_def word_le_nat_alt)
  have pair: "scalar (0x10000 + (unat u - 0xD800) * 1024 + (unat v - 0xDC00))"
    if "is_surrogate u" "\<not> is_low_surrogate u" "is_low_surrogate v" for v
  proof -
    have "unat u - 0xD800 \<le> 1023" "unat v - 0xDC00 \<le> 1023"
      using that bound[of u] by (auto simp: is_surrogate_def is_low_surrogate_def word_le_nat_alt)
    then show ?thesis by (simp add: scalar_def)
  qed
  show ?case
    using 2 plain pair by (auto simp: scalar_def REPLACEMENT_def split: list.splits)
qed

lemma of_nat_u8_le: "n < 256 \<Longrightarrow> (of_nat n :: u8) \<le> k \<longleftrightarrow> n \<le> unat k"
  by (simp add: word_le_nat_alt unat_of_nat)

lemma of_nat_u8_ge: "n < 256 \<Longrightarrow> k \<le> (of_nat n :: u8) \<longleftrightarrow> unat k \<le> n"
  by (simp add: word_le_nat_alt unat_of_nat)

lemma of_nat_u8_less: "n < 256 \<Longrightarrow> (of_nat n :: u8) < k \<longleftrightarrow> n < unat k"
  by (simp add: word_less_nat_alt unat_of_nat)

lemma of_nat_u8_eq: "n < 256 \<Longrightarrow> (of_nat n :: u8) = k \<longleftrightarrow> n = unat k"
  by (auto simp: unat_of_nat)

lemmas of_nat_u8 = of_nat_u8_le of_nat_u8_ge of_nat_u8_less of_nat_u8_eq

lemma cont_of_nat: "n < 64 \<Longrightarrow> cont (of_nat (128 + n))"
  unfolding cont_def using of_nat_u8_ge[where n = "128 + n" and k = "0x80"] of_nat_u8_le[where n = "128 + n" and k = "0xBF"]
  by (simp del: of_nat_add)

lemma utf8_width_of_nat:
  "n < 256 \<Longrightarrow> utf8_char_width (of_nat n) =
     (if n < 0x80 then 1 else if 0xC2 \<le> n \<and> n \<le> 0xDF then 2
      else if 0xE0 \<le> n \<and> n \<le> 0xEF then 3 else if 0xF0 \<le> n \<and> n \<le> 0xF4 then 4 else 0)"
  by (simp add: utf8_char_width_def of_nat_u8)

lemma second3_of_nat:
  "n < 256 \<Longrightarrow> m < 64 \<Longrightarrow> (n = 0xE0 \<Longrightarrow> 32 \<le> m) \<Longrightarrow> (n = 0xED \<Longrightarrow> m < 32) \<Longrightarrow>
   second3_ok (of_nat n) (of_nat (128 + m))"
  using cont_of_nat[of m] of_nat_u8_ge[where n = "128 + m" and k = "0xA0"] of_nat_u8_le[where n = "128 + m" and k = "0xBF"]
    of_nat_u8_ge[where n = "128 + m" and k = "0x80"] of_nat_u8_le[where n = "128 + m" and k = "0x9F"]
  by (auto simp: second3_ok_def of_nat_u8_eq simp del: of_nat_add)

lemma second4_of_nat:
  "n < 256 \<Longrightarrow> m < 64 \<Longrightarrow> (n = 0xF0 \<Longrightarrow> 16 \<le> m) \<Longrightarrow> (n = 0xF4 \<Longrightarrow> m < 16) \<Longrightarrow>
   second4_ok (of_nat n) (of_nat (128 + m))"
  using cont_of_nat[of m] of_nat_u8_ge[where n = "128 + m" and k = "0x90"] of_nat_u8_le[where n = "128 + m" and k = "0xBF"]
    of_nat_u8_ge[where n = "128 + m" and k = "0x80"] of_nat_u8_le[where n = "128 + m" and k = "0x8F"]
  by (auto simp: second4_ok_def of_nat_u8_eq simp del: of_nat_add)

text \<open>One encoded character is one step of the validation loop.\<close>

lemma utf8_check_encode:
  assumes "scalar c"
  shows "utf8_check i (encode_utf8 c @ bs) = utf8_check (i + length (encode_utf8 c)) bs"
proof -
  have len: "i + 3 = Suc (Suc (Suc i))" "i + 4 = Suc (Suc (Suc (Suc i)))" by simp_all
  consider (1) "c < 0x80" | (2) "0x80 \<le> c" "c < 0x800" | (3) "0x800 \<le> c" "c < 0x10000" | (4) "0x10000 \<le> c"
    by linarith
  then show ?thesis
  proof cases
    case 1
    then show ?thesis using utf8_width_of_nat[of c] by (simp add: encode_utf8_def)
  next
    case 2
    have a: "0xC0 + c div 64 < 256" "0xC2 \<le> 0xC0 + c div 64" "0xC0 + c div 64 \<le> 0xDF" using 2 by auto
    have "utf8_char_width (of_nat (0xC0 + c div 64)) = 2" using utf8_width_of_nat[OF a(1)] a by simp
    then show ?thesis using 2 cont_of_nat[of "c mod 64"] by (simp add: encode_utf8_def del: of_nat_add)
  next
    case 3
    have a: "0xE0 + c div 4096 < 256" "0xE0 \<le> 0xE0 + c div 4096" "0xE0 + c div 4096 \<le> 0xEF" using 3 by auto
    have m: "c div 64 mod 64 = c div 64 - 64 * (c div 4096)"
      by (simp add: div_mult2_eq[of c 64 64, simplified] modulo_nat_def mult.commute)
    have "second3_ok (of_nat (0xE0 + c div 4096)) (of_nat (128 + c div 64 mod 64))"
    proof (rule second3_of_nat[OF a(1)])
      show "0xE0 + c div 4096 = 0xE0 \<Longrightarrow> 32 \<le> c div 64 mod 64" using 3 m by simp
      assume "0xE0 + c div 4096 = 0xED"
      then have "c div 4096 = 13" by simp
      moreover from this have "c < 0xE000" by simp
      with assms have "c < 0xD800" by (simp add: scalar_def)
      ultimately show "c div 64 mod 64 < 32" using m by simp
    qed simp
    moreover have "utf8_char_width (of_nat (0xE0 + c div 4096)) = 3" using utf8_width_of_nat[OF a(1)] a by simp
    ultimately show ?thesis
      using 3 cont_of_nat[of "c mod 64"] by (simp add: encode_utf8_def len del: of_nat_add)
  next
    case 4
    have c: "c < 0x110000" using assms by (simp add: scalar_def)
    have a: "0xF0 + c div 262144 < 256" "0xF0 \<le> 0xF0 + c div 262144" "0xF0 + c div 262144 \<le> 0xF4" using c by auto
    have m: "c div 4096 mod 64 = c div 4096 - 64 * (c div 262144)"
      by (simp add: div_mult2_eq[of c 4096 64, simplified] modulo_nat_def mult.commute)
    have "second4_ok (of_nat (0xF0 + c div 262144)) (of_nat (128 + c div 4096 mod 64))"
    proof (rule second4_of_nat[OF a(1)])
      show "0xF0 + c div 262144 = 0xF0 \<Longrightarrow> 16 \<le> c div 4096 mod 64" using 4 m by simp
      assume "0xF0 + c div 262144 = 0xF4"
      then show "c div 4096 mod 64 < 16" using c m by simp
    qed simp
    moreover have "utf8_char_width (of_nat (0xF0 + c div 262144)) = 4" using utf8_width_of_nat[OF a(1)] a by simp
    ultimately show ?thesis
      using 4 cont_of_nat[of "c mod 64"] cont_of_nat[of "c div 64 mod 64"] by (simp add: encode_utf8_def len del: of_nat_add)
  qed
qed

lemma utf8_check_chars: "list_all scalar cs \<Longrightarrow> utf8_check i (concat (map encode_utf8 cs)) = None"
  by (induction cs arbitrary: i) (simp_all add: utf8_check_encode)

lemma wide_text_valid: "valid_str (of_bytes (wide_text_to_utf8_bytes w))"
  using utf8_check_chars[OF from_utf16_lossy_scalar] by (simp add: valid_str_def wide_text_to_utf8_bytes_def)

section \<open>ASCII text and decimal integers\<close>

text \<open>The UTF-16 units of an ASCII text.\<close>

definition wide_of_ascii :: "string \<Rightarrow> u16 list" where
  "wide_of_ascii s = map (\<lambda>c. of_nat (of_char c)) s"

lemma from_utf16_ascii: "ascii s \<Longrightarrow> from_utf16_lossy (wide_of_ascii s) = map of_char s"
  by (induction s)
    (auto simp: ascii_def wide_of_ascii_def is_surrogate_def word_le_nat_alt unat_of_nat)

lemma encode_ascii: "ascii s \<Longrightarrow> concat (map encode_utf8 (map of_char s)) = as_bytes s"
  by (induction s) (auto simp: ascii_def encode_utf8_def as_bytes_def byte_of_def of_nat_of_char)

lemma wide_ascii_bytes: "ascii s \<Longrightarrow> wide_text_to_utf8_bytes (wide_of_ascii s) = as_bytes s"
  using encode_ascii by (simp add: wide_text_to_utf8_bytes_def from_utf16_ascii)

lemma show_nat_ascii: "ascii (show_nat n)"
  using show_nat_digits[of n] by (auto simp: ascii_def is_digit_char_def list_all_iff)

lemma show_int_ascii: "ascii (show_int i)"
  using show_nat_ascii by (simp add: show_int_def ascii_def)

lemma dropWhile_all_not: "list_all (\<lambda>x. \<not> P x) xs \<Longrightarrow> dropWhile P xs = xs"
  by (induction xs) auto

lemma show_int_not_space: "list_all (\<lambda>c. \<not> is_whitespace (of_char c)) (show_int i)"
  using show_nat_digits[of "nat i"] show_nat_digits[of "nat (- i)"]
  by (auto simp: show_int_def is_digit_char_def is_whitespace_def list_all_iff)

lemma trim_show_int: "trim_chars (map of_char (show_int i)) = map of_char (show_int i)"
proof -
  have "list_all (\<lambda>c. \<not> is_whitespace c) (map of_char (show_int i))"
    using show_int_not_space[of i] by (simp add: list_all_iff)
  then show ?thesis
    by (simp add: trim_chars_def dropWhile_all_not list_all_rev)
qed

lemma string_of_show_int: "string_of_chars (map of_char (show_int i)) = show_int i"
  using encode_ascii[OF show_int_ascii[of i]] by (simp add: string_of_chars_def)

lemma parse_i64_show_int [simp]: "parse_i64 (show_int (sint (w :: i64))) = Some w"
proof (cases "sint w < 0")
  case True
  have "- (2 ^ 63) \<le> sint w" using sint_ge[of w] by simp
  with True have "nat (- sint w) \<le> 2 ^ 63" by simp
  with True show ?thesis
    by (simp add: parse_i64_def show_int_def del: of_int_minus)
next
  case False
  have "sint w < 2 ^ 63" using sint_lt[of w] by simp
  with False have n: "nat (sint w) < 2 ^ 63" by simp
  obtain c r where cr: "show_nat (nat (sint w)) = c # r" by (cases "show_nat (nat (sint w))") auto
  then have "c \<noteq> CHR ''-''" "c \<noteq> CHR ''+''" using show_nat_hd digit_not_sign by auto
  moreover have "(of_nat (nat (sint w)) :: i64) = w" using False by simp
  moreover have "parse_digits (c # r) = Some (nat (sint w))"
    using cr parse_digits_show_nat[of "nat (sint w)"] by simp
  ultimately show ?thesis using False n cr by (simp add: parse_i64_def show_int_def)
qed

lemma read_i32_decimal:
  "cr_wide_text row col = Inr (Some (wide_of_ascii (show_int (sint v)))) \<Longrightarrow>
   read_i32_as_le_bytes row col = Ok (Some (u32_le v))"
  by (simp add: read_i32_as_le_bytes_def read_wide_text_def from_utf16_ascii show_int_ascii trim_show_int
      string_of_show_int)

lemma read_i64_decimal:
  "cr_wide_text row col = Inr (Some (wide_of_ascii (show_int (sint v)))) \<Longrightarrow>
   read_i64_as_le_bytes row col = Ok (Some (u64_le v))"
  by (simp add: read_i64_as_le_bytes_def read_wide_text_def from_utf16_ascii show_int_ascii trim_show_int
      string_of_show_int)

lemma read_text_wide:
  "t \<notin> {Binary, Integer, BigInt} \<Longrightarrow> cr_wide_text row col = Inr (Some w) \<Longrightarrow>
   read_cell_bytes row col t = Ok (Some (wide_text_to_utf8_bytes w))"
  by (cases t) (simp_all add: read_cell_bytes_def read_text_def read_wide_text_def)

lemma read_cell_not_Panic: "read_cell_bytes row col t \<noteq> Panic"
  by (cases t) (auto simp: read_cell_bytes_def read_text_def read_binary_def read_i32_as_le_bytes_def
      read_i64_as_le_bytes_def read_wide_text_def Let_def split: sum.splits option.splits)

text \<open>
  What a cell becomes: a text column is always valid UTF-8, whatever UTF-16 the driver delivers
  (lone surrogates included), and ASCII text is unchanged; an integer column whose text is the decimal
  form of a 32-bit or 64-bit value becomes exactly that value's little-endian bytes.
\<close>

theorem read_cell_spec:
  "(\<forall>wide t. cr_wide_text row col = Inr (Some wide) \<and> t \<notin> {Binary, Integer, BigInt} \<longrightarrow>
      (\<exists>bs. read_cell_bytes row col t = Ok (Some bs) \<and> valid_str (of_bytes bs) \<and>
         (\<forall>s. ascii s \<and> wide = wide_of_ascii s \<longrightarrow> bs = as_bytes s))) \<and>
   (\<forall>v. cr_wide_text row col = Inr (Some (wide_of_ascii (show_int (sint v)))) \<longrightarrow>
      read_cell_bytes row col Integer = Ok (Some (u32_le v))) \<and>
   (\<forall>v. cr_wide_text row col = Inr (Some (wide_of_ascii (show_int (sint v)))) \<longrightarrow>
      read_cell_bytes row col BigInt = Ok (Some (u64_le v)))"
proof (intro conjI allI impI)
  fix wide t
  assume a: "cr_wide_text row col = Inr (Some wide) \<and> t \<notin> {Binary, Integer, BigInt}"
  then have "read_cell_bytes row col t = Ok (Some (wide_text_to_utf8_bytes wide))" by (blast intro: read_text_wide)
  then show "\<exists>bs. read_cell_bytes row col t = Ok (Some bs) \<and> valid_str (of_bytes bs) \<and>
         (\<forall>s. ascii s \<and> wide = wide_of_ascii s \<longrightarrow> bs = as_bytes s)"
    using wide_text_valid wide_ascii_bytes by blast
qed (simp_all add: read_cell_bytes_def read_i32_decimal read_i64_decimal)

theorem read_cell_spec_witness:
  "let row = \<lparr>cr_wide_text = (\<lambda>_. Inr (Some [45, 49, 50])), cr_binary = (\<lambda>_. Inr None)\<rparr>
   in read_cell_bytes row 1 Integer = Ok (Some (u32_le (- 12)))"
proof -
  let ?row = "\<lparr>cr_wide_text = (\<lambda>_. Inr (Some [45, 49, 50])), cr_binary = (\<lambda>_. Inr None)\<rparr>"
  have "cr_wide_text ?row 1 = Inr (Some (wide_of_ascii (show_int (sint (- 12 :: i32)))))" by code_simp
  with read_cell_spec[of ?row 1] show ?thesis unfolding Let_def by blast
qed

end
