(* ===== verification/Columnar.thy ===== *)
theory Columnar
  imports Row_Codec
begin

text \<open>
  \<open>protocol/compression.rs\<close>, \<open>protocol/columnar.rs\<close>, \<open>protocol/columnar_encoder.rs\<close>,
  \<open>protocol/converter.rs\<close> and \<open>ffi/columnar_decompress.rs\<close>: the column-major result message (protocol
  version 2) with its optional compression, and the client's parser of it in
  \<open>lib/infrastructure/native/protocol/binary_protocol.dart\<close>. The compressors are the external crates
  \<open>zstd\<close> and \<open>lz4\<close>: a parameter, of which the theorems assume that decompression inverts compression.
\<close>

section \<open>Compression\<close>

datatype compression_type = CT_None | CT_Zstd | CT_Lz4

definition compression_type_from_u8 :: "u8 \<Rightarrow> compression_type" where
  "compression_type_from_u8 v = (if v = 1 then CT_Zstd else if v = 2 then CT_Lz4 else CT_None)"

fun compression_type_code :: "compression_type \<Rightarrow> u8" where
  "compression_type_code CT_None = 0"
| "compression_type_code CT_Zstd = 1"
| "compression_type_code CT_Lz4 = 2"

text \<open>
  What the crates answer, errors by their text: \<open>zstd::encode_all\<close>; building, writing and finishing an
  \<open>lz4::Encoder\<close>; opening a decoder, and the bytes it then delivers, followed by an error or the end.
\<close>

type_synonym reader = "bytes \<times> string option"

record compressors =
  zstd_encode_all :: "bytes \<Rightarrow> int \<Rightarrow> string + bytes"
  zstd_decoder :: "bytes \<Rightarrow> string + reader"
  lz4_build :: "int \<Rightarrow> string option"
  lz4_write_all :: "bytes \<Rightarrow> string option"
  lz4_finish :: "bytes \<Rightarrow> bytes \<times> string option"
  lz4_decoder :: "bytes \<Rightarrow> string + reader"

definition zstd_compress :: "compressors \<Rightarrow> int \<Rightarrow> bytes \<Rightarrow> bytes result" where
  "zstd_compress cz level data =
     (case zstd_encode_all cz data level of
        Inl e \<Rightarrow> Err (InternalError (''Zstd compression failed: '' @ e))
      | Inr c \<Rightarrow> Ok c)"

definition compress_cow :: "compressors \<Rightarrow> bytes \<Rightarrow> compression_type \<Rightarrow> bytes result" where
  "compress_cow cz data ct =
     (case ct of
        CT_None \<Rightarrow> Ok data
      | CT_Zstd \<Rightarrow> zstd_compress cz 3 data
      | CT_Lz4 \<Rightarrow>
          (case lz4_build cz 4 of
             Some e \<Rightarrow> Err (InternalError (''Lz4 encoder creation failed: '' @ e))
           | None \<Rightarrow>
               (case lz4_write_all cz data of
                  Some e \<Rightarrow> Err (InternalError (''Lz4 write failed: '' @ e))
                | None \<Rightarrow>
                    (case lz4_finish cz data of
                       (c, Some e) \<Rightarrow> Err (InternalError (''Lz4 finish failed: '' @ e))
                     | (c, None) \<Rightarrow> Ok c))))"

definition compress :: "compressors \<Rightarrow> bytes \<Rightarrow> compression_type \<Rightarrow> bytes result" where
  "compress cz data ct = compress_cow cz data ct"

definition COMPRESSION_THRESHOLD_BYTES :: usize where "COMPRESSION_THRESHOLD_BYTES = 1000000"
definition DEFAULT_MAX_DECOMPRESSED_LEN :: usize where "DEFAULT_MAX_DECOMPRESSED_LEN = 256 * 1024 * 1024"

datatype compression_strategy = CS_None | CS_Zstd int | CS_Lz4

definition auto_select :: "usize \<Rightarrow> compression_strategy" where
  "auto_select payload_size = (if payload_size > COMPRESSION_THRESHOLD_BYTES then CS_Zstd 3 else CS_None)"

definition strategy_compress_cow :: "compressors \<Rightarrow> compression_strategy \<Rightarrow> bytes \<Rightarrow> bytes result" where
  "strategy_compress_cow cz s data =
     (case s of
        CS_None \<Rightarrow> Ok data
      | CS_Zstd level \<Rightarrow> zstd_compress cz level data
      | CS_Lz4 \<Rightarrow> compress cz data CT_Lz4)"

definition strategy_compress :: "compressors \<Rightarrow> compression_strategy \<Rightarrow> bytes \<Rightarrow> bytes result" where
  "strategy_compress cz s data = strategy_compress_cow cz s data"

definition compress_owned :: "compressors \<Rightarrow> compression_strategy \<Rightarrow> bytes \<Rightarrow> bytes result" where
  "compress_owned cz s data =
     (case s of
        CS_None \<Rightarrow> Ok data
      | CS_Zstd level \<Rightarrow> zstd_compress cz level data
      | CS_Lz4 \<Rightarrow> compress cz data CT_Lz4)"

text \<open>\<open>RowBufferEncoder::try_encode_with_compression\<close> and its panicking wrapper.\<close>

definition try_encode_with_compression :: "compressors \<Rightarrow> row_buffer \<Rightarrow> bytes eresult" where
  "try_encode_with_compression cz buffer =
     obind (try_encode buffer) (\<lambda>raw.
     case compress_owned cz (auto_select (length raw)) raw of
       Ok compressed \<Rightarrow> Ok compressed
     | Err _ \<Rightarrow> try_encode buffer
     | Panic \<Rightarrow> Panic)"

definition encode_with_compression :: "compressors \<Rightarrow> row_buffer \<Rightarrow> ('e, bytes) outcome" where
  "encode_with_compression cz buffer = expect (try_encode_with_compression cz buffer)"

definition decompression_limit_error :: "usize \<Rightarrow> usize \<Rightarrow> odbc_error" where
  "decompression_limit_error actual limit =
     ResourceLimitReached (''Decompressed payload length '' @ show_nat actual @ '' exceeds limit '' @ show_nat limit)"

text \<open>
  \<open>reader.take(limit).read_to_end(..)\<close>: a reader that delivers at least \<open>limit\<close> bytes is stopped there,
  before any later error.
\<close>

definition read_limited :: "reader \<Rightarrow> usize \<Rightarrow> bytes result" where
  "read_limited r max_len =
     obind (ok_or (usize_checked_add max_len 1) (ResourceLimitReached ''Decompression limit overflow'')) (\<lambda>limit.
     obind (case snd r of
              Some e \<Rightarrow>
                if length (fst r) < limit then Err (InternalError (''Decompression read failed: '' @ e))
                else Ok (take limit (fst r))
            | None \<Rightarrow> Ok (take limit (fst r))) (\<lambda>decompressed.
     if length decompressed > max_len then Err (decompression_limit_error (length decompressed) max_len)
     else Ok decompressed))"

definition decompress_cow_with_limit :: "compressors \<Rightarrow> bytes \<Rightarrow> compression_type \<Rightarrow> usize \<Rightarrow> bytes result" where
  "decompress_cow_with_limit cz data ct max_len =
     (case ct of
        CT_None \<Rightarrow>
          if length data > max_len then Err (decompression_limit_error (length data) max_len) else Ok data
      | CT_Zstd \<Rightarrow>
          (case zstd_decoder cz data of
             Inl e \<Rightarrow> Err (InternalError (''Zstd decoder creation failed: '' @ e))
           | Inr r \<Rightarrow> read_limited r max_len)
      | CT_Lz4 \<Rightarrow>
          (case lz4_decoder cz data of
             Inl e \<Rightarrow> Err (InternalError (''Lz4 decoder creation failed: '' @ e))
           | Inr r \<Rightarrow> read_limited r max_len))"

definition decompress_with_limit :: "compressors \<Rightarrow> bytes \<Rightarrow> compression_type \<Rightarrow> usize \<Rightarrow> bytes result" where
  "decompress_with_limit cz data ct max_len = decompress_cow_with_limit cz data ct max_len"

definition decompress :: "compressors \<Rightarrow> bytes \<Rightarrow> compression_type \<Rightarrow> bytes result" where
  "decompress cz data ct = decompress_with_limit cz data ct DEFAULT_MAX_DECOMPRESSED_LEN"

section \<open>The column-major buffer\<close>

record column_metadata_v2 =
  cm2_name :: string
  cm2_odbc_type :: odbc_type

datatype column_data =
    CD_Varchar "cell list"
  | CD_Integer "i32 option list"
  | CD_BigInt "i64 option list"
  | CD_Binary "cell list"

record column_block =
  cb_metadata :: column_metadata_v2
  cb_data :: column_data
  cb_compressed :: bool
  cb_compression_type :: compression_type

record row_buffer_v2 =
  v2_columns :: "column_block list"
  v2_row_count :: usize
  v2_flags :: u16

definition row_buffer_v2_new :: row_buffer_v2 where
  "row_buffer_v2_new = \<lparr>v2_columns = [], v2_row_count = 0, v2_flags = 0\<rparr>"

definition add_column_v2 :: "column_metadata_v2 \<Rightarrow> column_data \<Rightarrow> row_buffer_v2 \<Rightarrow> row_buffer_v2" where
  "add_column_v2 m d b =
     b\<lparr>v2_columns := v2_columns b @
         [\<lparr>cb_metadata = m, cb_data = d, cb_compressed = False, cb_compression_type = CT_None\<rparr>]\<rparr>"

definition set_row_count :: "usize \<Rightarrow> row_buffer_v2 \<Rightarrow> row_buffer_v2" where
  "set_row_count n b = b\<lparr>v2_row_count := n\<rparr>"

definition column_count_v2 :: "row_buffer_v2 \<Rightarrow> usize" where
  "column_count_v2 b = length (v2_columns b)"

section \<open>From rows to columns\<close>

text \<open>\<open>row.get(col_idx)\<close>: short rows have no cell.\<close>

definition cell_at :: "nat \<Rightarrow> cell list \<Rightarrow> cell option" where
  "cell_at i row = (if i < length row then Some (row ! i) else None)"

definition word_cell :: "nat \<Rightarrow> nat \<Rightarrow> cell list \<Rightarrow> 'a::len word option" where
  "word_cell n i row =
     (case cell_at i row of
        Some (Some bs) \<Rightarrow> if length bs = n then Some (from_le bs) else None
      | _ \<Rightarrow> None)"

definition convert_column :: "row_buffer \<Rightarrow> nat \<Rightarrow> column_metadata \<Rightarrow> column_data" where
  "convert_column buffer i m =
     (case cm_odbc_type m of
        Integer \<Rightarrow> CD_Integer (map (word_cell 4 i) (rb_rows buffer))
      | BigInt \<Rightarrow> CD_BigInt (map (word_cell 8 i) (rb_rows buffer))
      | _ \<Rightarrow> CD_Varchar (map (\<lambda>row. case cell_at i row of Some c \<Rightarrow> c | None \<Rightarrow> None) (rb_rows buffer)))"

definition row_buffer_to_columnar :: "row_buffer \<Rightarrow> row_buffer_v2" where
  "row_buffer_to_columnar buffer =
     (let v2 = set_row_count (row_count buffer) row_buffer_v2_new in
      if column_count buffer = 0 then v2
      else
        foldl (\<lambda>v2 (i, m). add_column_v2 \<lparr>cm2_name = cm_name m, cm2_odbc_type = cm_odbc_type m\<rparr>
                             (convert_column buffer i m) v2)
          v2 (enumerate 0 (rb_columns buffer)))"

section \<open>Encoder\<close>

definition VERSION_V2 :: u16 where "VERSION_V2 = 2"

definition checked_u16 :: "usize \<Rightarrow> string \<Rightarrow> u16 result" where
  "checked_u16 value field =
     ok_or (try_u16 value) (ResourceLimitReached (field @ '' '' @ show_nat value @ '' exceeds u16 wire limit''))"

definition checked_u32 :: "usize \<Rightarrow> string \<Rightarrow> u32 result" where
  "checked_u32 value field =
     ok_or (try_u32 value) (ResourceLimitReached (field @ '' '' @ show_nat value @ '' exceeds u32 wire limit''))"

definition checked_add :: "usize \<Rightarrow> usize \<Rightarrow> string \<Rightarrow> usize result" where
  "checked_add current added context =
     ok_or (usize_checked_add current added)
       (ResourceLimitReached (''Columnar payload size overflow while adding '' @ context))"

text \<open>The size estimates, which also reject what the wire format cannot hold.\<close>

fun estimate_cells :: "cell list \<Rightarrow> usize \<Rightarrow> usize result" where
  "estimate_cells [] sz = Ok sz"
| "estimate_cells (c # cs) sz =
     obind (checked_add sz 1 ''cell null flag'') (\<lambda>sz.
     obind (case c of None \<Rightarrow> Ok sz
            | Some bytes \<Rightarrow>
                obind (checked_u32 (length bytes) ''cell length'') (\<lambda>_.
                obind (checked_add sz 4 ''cell length'') (\<lambda>sz.
                checked_add sz (length bytes) ''cell payload''))) (estimate_cells cs))"

fun estimate_words :: "usize \<Rightarrow> string \<Rightarrow> 'a option list \<Rightarrow> usize \<Rightarrow> usize result" where
  "estimate_words n what [] sz = Ok sz"
| "estimate_words n what (c # cs) sz =
     obind (checked_add sz 1 ''cell null flag'') (\<lambda>sz.
     obind (if c \<noteq> None then checked_add sz n what else Ok sz) (estimate_words n what cs))"

definition estimate_column_payload_size :: "column_block \<Rightarrow> usize result" where
  "estimate_column_payload_size b =
     (case cb_data b of
        CD_Varchar cs \<Rightarrow> estimate_cells cs 0
      | CD_Binary cs \<Rightarrow> estimate_cells cs 0
      | CD_Integer cs \<Rightarrow> estimate_words 4 ''integer cell'' cs 0
      | CD_BigInt cs \<Rightarrow> estimate_words 8 ''bigint cell'' cs 0)"

fun estimate_blocks :: "column_block list \<Rightarrow> usize \<Rightarrow> usize result" where
  "estimate_blocks [] sz = Ok sz"
| "estimate_blocks (b # bs) sz =
     obind (checked_add sz 2 ''column type'') (\<lambda>sz.
     obind (checked_add sz 2 ''column name length'') (\<lambda>sz.
     obind (checked_add sz (length (cm2_name (cb_metadata b))) ''column name'') (\<lambda>sz.
     obind (checked_add sz 1 ''compression flag'') (\<lambda>sz.
     obind (checked_add sz 1 ''compression algorithm'') (\<lambda>sz.
     obind (checked_add sz 4 ''column payload length'') (\<lambda>sz.
     obind (estimate_column_payload_size b) (\<lambda>p.
     obind (checked_add sz p ''column payload'') (estimate_blocks bs))))))))"

definition estimate_encoded_size :: "row_buffer_v2 \<Rightarrow> usize result" where
  "estimate_encoded_size buffer = estimate_blocks (v2_columns buffer) 19"

definition raw_cell :: "string \<Rightarrow> cell \<Rightarrow> bytes result" where
  "raw_cell what c =
     (case c of
        Some bytes \<Rightarrow> obind (checked_u32 (length bytes) what) (\<lambda>n. Ok (0 # u32_le n @ bytes))
      | None \<Rightarrow> Ok [1])"

definition raw_word :: "('a \<Rightarrow> bytes) \<Rightarrow> 'a option \<Rightarrow> bytes" where
  "raw_word f c = (case c of Some v \<Rightarrow> 0 # f v | None \<Rightarrow> [1])"

definition raw_data :: "column_data \<Rightarrow> bytes result" where
  "raw_data d =
     (case d of
        CD_Varchar cs \<Rightarrow> omap concat (omapM (raw_cell ''varchar cell length'') cs)
      | CD_Integer cs \<Rightarrow> Ok (concat (map (raw_word u32_le) cs))
      | CD_BigInt cs \<Rightarrow> Ok (concat (map (raw_word u64_le) cs))
      | CD_Binary cs \<Rightarrow> omap concat (omapM (raw_cell ''binary cell length'') cs))"

definition compress_block :: "compressors \<Rightarrow> bool \<Rightarrow> bytes \<Rightarrow> bytes \<times> compression_type" where
  "compress_block cz use_compression raw =
     (if use_compression \<and> length raw > 100 then
        (case compress cz raw CT_Zstd of
           Ok compressed \<Rightarrow> if length compressed < length raw then (compressed, CT_Zstd) else (raw, CT_None)
         | _ \<Rightarrow> (raw, CT_None))
      else (raw, CT_None))"

definition encode_column_block :: "compressors \<Rightarrow> bool \<Rightarrow> column_block \<Rightarrow> bytes result" where
  "encode_column_block cz use_compression b =
     obind (checked_u16 (length (cm2_name (cb_metadata b))) ''column name length'') (\<lambda>name_len.
     obind (estimate_column_payload_size b) (\<lambda>_.
     obind (raw_data (cb_data b)) (\<lambda>raw.
     let (data, ct) = compress_block cz use_compression raw in
     obind (checked_u32 (length data) ''column payload length'') (\<lambda>n.
     Ok (u16_le (odbc_type_code (cm2_odbc_type (cb_metadata b))) @ u16_le name_len @ as_bytes (cm2_name (cb_metadata b)) @
         (if ct \<noteq> CT_None then [1] else [0]) @ (if ct \<noteq> CT_None then [compression_type_code ct] else []) @
         u32_le n @ data)))))"

definition columnar_encode :: "compressors \<Rightarrow> row_buffer_v2 \<Rightarrow> bool \<Rightarrow> bytes result" where
  "columnar_encode cz buffer use_compression =
     obind (estimate_encoded_size buffer) (\<lambda>_.
     obind (checked_u16 (column_count_v2 buffer) ''column count'') (\<lambda>columns.
     obind (checked_u32 (v2_row_count buffer) ''row count'') (\<lambda>rows.
     obind (omapM (encode_column_block cz use_compression) (v2_columns buffer)) (\<lambda>blocks.
     obind (checked_u32 (length (concat blocks)) ''payload size'') (\<lambda>payload_size.
     Ok (u32_le MAGIC @ u16_le VERSION_V2 @ u16_le (v2_flags buffer) @ u16_le columns @ u32_le rows @
         [if use_compression then 1 else 0] @ u32_le payload_size @ concat blocks))))))"

definition encode_for_bulk :: "compressors \<Rightarrow> row_buffer \<Rightarrow> bytes result" where
  "encode_for_bulk cz buffer = columnar_encode cz (row_buffer_to_columnar buffer) True"

section \<open>Decompression for the client\<close>

text \<open>
  \<open>DECOMPRESS_ALLOCATIONS\<close>: which addresses were handed out, with the length and capacity of their
  vector, and, for the theorems, the vectors that were freed. Address and capacity come from the allocator.
\<close>

record decompress_state =
  da_poisoned :: bool
  da_table :: "nat \<rightharpoonup> nat \<times> nat"
  da_freed :: "(nat \<times> nat \<times> nat) list"

definition MAX_COLUMNAR_DECOMPRESSED_LEN :: usize where "MAX_COLUMNAR_DECOMPRESSED_LEN = 256 * 1024 * 1024"

definition odbc_columnar_decompress ::
  "compressors \<Rightarrow> bool \<Rightarrow> u8 \<Rightarrow> bytes \<Rightarrow> (bytes \<Rightarrow> nat \<times> nat) \<Rightarrow> decompress_state \<Rightarrow>
   int \<times> (nat \<times> bytes) option \<times> decompress_state"
where
  "odbc_columnar_decompress cz any_null algorithm data allocate st =
     (if any_null then (- 1, None, st)
      else if compression_type_from_u8 algorithm = CT_None then (- 3, None, st)
      else
        (case decompress_with_limit cz data (compression_type_from_u8 algorithm) MAX_COLUMNAR_DECOMPRESSED_LEN of
           Ok v \<Rightarrow>
             let (p, cap) = allocate v in
             if length v > 2 ^ 32 - 1 \<or> cap > 2 ^ 32 - 1 then (- 8, None, st)
             else if da_poisoned st then (- 5, None, st)
             else (0, Some (p, v), st\<lparr>da_table := (da_table st)(p \<mapsto> (length v, cap))\<rparr>)
         | Err _ \<Rightarrow> (- 3, None, st)
         | Panic \<Rightarrow> (- 4, None, st)))"

definition odbc_columnar_decompress_free :: "nat \<Rightarrow> u32 \<Rightarrow> u32 \<Rightarrow> decompress_state \<Rightarrow> decompress_state" where
  "odbc_columnar_decompress_free p len cap st =
     (if p = 0 \<or> da_poisoned st then st
      else
        (case da_table st p of
           None \<Rightarrow> st
         | Some (actual_len, actual_cap) \<Rightarrow>
             st\<lparr>da_table := (da_table st)(p := None), da_freed := (p, actual_len, actual_cap) # da_freed st\<rparr>))"

section \<open>The client's parser\<close>

text \<open>
  \<open>_parseColumnarRaw\<close> of the Dart client: the cells of a column, by its type. A \<open>FormatException\<close> is an
  error; \<open>_convertData\<close>, which turns the bytes of a text cell into a Dart value, is left out.
\<close>

definition parse_word_cell :: "nat \<Rightarrow> string \<Rightarrow> bytes \<Rightarrow> nat \<Rightarrow> (string, 'a::len word option \<times> nat) outcome" where
  "parse_word_cell n what raw p =
     (if p \<ge> length raw then Err ''Columnar v2: row cells truncated''
      else
        obind (idx raw p) (\<lambda>flag.
        if flag = 1 then Ok (None, p + 1)
        else if p + 1 + n > length raw then Err what
        else obind (array_at n raw (p + 1)) (\<lambda>bs. Ok (Some (from_le bs), p + 1 + n))))"

definition parse_text_cell :: "bytes \<Rightarrow> nat \<Rightarrow> (string, cell \<times> nat) outcome" where
  "parse_text_cell raw p =
     (if p \<ge> length raw then Err ''Columnar v2: row cells truncated''
      else
        obind (idx raw p) (\<lambda>flag.
        if flag = 1 then Ok (None, p + 1)
        else if p + 1 + 4 > length raw then Err ''Columnar v2: varchar len truncated''
        else
          obind (array_at 4 raw (p + 1)) (\<lambda>lb.
          let bl = unat (from_le lb :: u32) in
          if p + 5 + bl > length raw then Err ''Columnar v2: varchar data truncated''
          else obind (range_of raw (p + 5) (p + 5 + bl)) (\<lambda>d. Ok (Some d, p + 5 + bl)))))"

definition parse_columnar_raw :: "odbc_type \<Rightarrow> bytes \<Rightarrow> nat \<Rightarrow> (string, column_data) outcome" where
  "parse_columnar_raw t raw rows =
     (let finish = (\<lambda>c p. if p \<noteq> length raw then Err ''Columnar v2: raw not fully consumed'' else Ok c) in
      case t of
        Integer \<Rightarrow>
          obind (read_n (parse_word_cell 4 ''Columnar v2: int cell truncated'') raw rows 0) (\<lambda>(cs, p).
            finish (CD_Integer cs) p)
      | BigInt \<Rightarrow>
          obind (read_n (parse_word_cell 8 ''Columnar v2: bigint cell truncated'') raw rows 0) (\<lambda>(cs, p).
            finish (CD_BigInt cs) p)
      | _ \<Rightarrow> obind (read_n parse_text_cell raw rows 0) (\<lambda>(cs, p). finish (CD_Varchar cs) p))"

text \<open>
  The column loop of \<open>_parseColumnarV2\<close>, over the bytes up to the end of the payload. A column is its
  type, the code units of its name and its cells; \<open>native_decompress\<close> stands for
  \<open>columnarDecompressWithNative\<close>. The name is built by \<open>String.fromCharCodes\<close> from the UTF-8 bytes, each byte
  becoming one UTF-16 code unit, so it is the column's name only when that is ASCII
  (\<open>utf16_units_bytes_iff\<close>).
\<close>

type_synonym parsed_column = "odbc_type \<times> nat list \<times> column_data"

definition parse_columnar_block ::
  "(u8 \<Rightarrow> bytes \<Rightarrow> bytes option) \<Rightarrow> nat \<Rightarrow> bytes \<Rightarrow> nat \<Rightarrow> (string, parsed_column \<times> nat) outcome"
where
  "parse_columnar_block native_decompress rows data off =
     (if off + 4 > length data then Err ''Columnar v2: metadata truncated''
      else
        obind (array_at 2 data off) (\<lambda>tb.
        obind (array_at 2 data (off + 2)) (\<lambda>nb.
        let t = from_protocol_discriminant (from_le tb); name_len = unat (from_le nb :: u16) in
        if off + 4 + name_len > length data then Err ''Columnar v2: name truncated''
        else
          obind (range_of data (off + 4) (off + 4 + name_len)) (\<lambda>name.
          let off = off + 4 + name_len in
          if off \<ge> length data then Err ''Columnar v2: missing column payload''
          else
            obind (idx data off) (\<lambda>is_compressed.
            obind
              (if is_compressed \<noteq> 0 then
                 if off + 1 + 1 + 4 > length data then Err ''Columnar v2: compressed header truncated''
                 else
                   obind (idx data (off + 1)) (\<lambda>algorithm.
                   obind (array_at 4 data (off + 2)) (\<lambda>lb.
                   let n = unat (from_le lb :: u32) in
                   if off + 6 + n > length data then Err ''Columnar v2: compressed data truncated''
                   else
                     obind (range_of data (off + 6) (off + 6 + n)) (\<lambda>comp.
                     obind (ok_or (native_decompress algorithm comp) ''Columnar v2: native decompress failed'') (\<lambda>raw.
                     Ok (raw, off + 6 + n)))))
               else
                 if off + 1 + 4 > length data then Err ''Columnar v2: raw size truncated''
                 else
                   obind (array_at 4 data (off + 1)) (\<lambda>lb.
                   let n = unat (from_le lb :: u32) in
                   if off + 5 + n > length data then Err ''Columnar v2: raw data truncated''
                   else obind (range_of data (off + 5) (off + 5 + n)) (\<lambda>raw. Ok (raw, off + 5 + n))))
              (\<lambda>(raw, off'). obind (parse_columnar_raw t raw rows) (\<lambda>cells. Ok ((t, map unat name, cells), off'))))))))"

definition parse_columnar_v2 ::
  "(u8 \<Rightarrow> bytes \<Rightarrow> bytes option) \<Rightarrow> bytes \<Rightarrow> (string, parsed_column list \<times> nat) outcome"
where
  "parse_columnar_v2 native_decompress data =
     (if length data < 19 then Err ''Columnar v2: buffer too small''
      else
        obind (array_at 2 data 8) (\<lambda>cb.
        obind (array_at 4 data 10) (\<lambda>rb.
        obind (array_at 4 data 15) (\<lambda>pb.
        let columns = unat (from_le cb :: u16); rows = unat (from_le rb :: u32); pay = unat (from_le pb :: u32) in
        if length data < 19 + pay then Err ''Columnar v2: truncated payload''
        else if columns = 0 then Ok ([], 0)
        else
          obind (read_n (parse_columnar_block native_decompress rows) (take (19 + pay) data) columns 19) (\<lambda>(cols, off).
          if off \<noteq> 19 + pay then Err ''Columnar v2: extra bytes in column payload'' else Ok (cols, rows))))))"

text \<open>\<open>columnarDecompressWithNative\<close> over the exported function.\<close>

definition native_decompress ::
  "compressors \<Rightarrow> (bytes \<Rightarrow> nat \<times> nat) \<Rightarrow> decompress_state \<Rightarrow> u8 \<Rightarrow> bytes \<Rightarrow> bytes option"
where
  "native_decompress cz allocate st algorithm payload =
     (if length payload > 0x7fffffff then None
      else
        (case odbc_columnar_decompress cz False algorithm payload allocate st of
           (code, out, _) \<Rightarrow>
             if code \<noteq> 0 then None
             else (case out of Some (p, v) \<Rightarrow> if p = 0 then None else Some v | None \<Rightarrow> None)))"

section \<open>Compression is lossless and decompression bounded\<close>

text \<open>What the crates document: decoding what was encoded gives it back.\<close>

definition lossless :: "compressors \<Rightarrow> bool" where
  "lossless cz \<longleftrightarrow>
     (\<forall>d l c. zstd_encode_all cz d l = Inr c \<longrightarrow> zstd_decoder cz c = Inr (d, None)) \<and>
     (\<forall>d. lz4_build cz 4 = None \<and> lz4_write_all cz d = None \<and> snd (lz4_finish cz d) = None \<longrightarrow>
        lz4_decoder cz (fst (lz4_finish cz d)) = Inr (d, None))"

lemma read_limited_full: "length d \<le> n \<Longrightarrow> n < usize_max \<Longrightarrow> read_limited (d, None) n = Ok d"
  by (simp add: read_limited_def usize_checked_add_def)

lemma read_limited_bound: "read_limited r n = Ok d \<Longrightarrow> length d \<le> n"
  by (auto simp: read_limited_def split: if_splits)

lemma read_limited_not_Panic: "read_limited r n \<noteq> Panic"
  by (auto simp: read_limited_def split: option.splits)

lemma decompress_compress:
  assumes "lossless cz" and "compress cz d ct = Ok c" and "length d \<le> n" and "n < usize_max"
  shows "decompress_with_limit cz c ct n = Ok d"
proof (cases ct)
  case CT_None
  with assms show ?thesis by (simp add: decompress_with_limit_def decompress_cow_with_limit_def compress_def compress_cow_def)
next
  case CT_Zstd
  with assms(2) have "zstd_encode_all cz d 3 = Inr c"
    by (simp add: compress_def compress_cow_def zstd_compress_def split: sum.splits)
  then have "zstd_decoder cz c = Inr (d, None)" using assms(1) by (auto simp: lossless_def)
  with CT_Zstd assms(3,4) show ?thesis
    by (simp add: decompress_with_limit_def decompress_cow_with_limit_def read_limited_full)
next
  case CT_Lz4
  with assms(2) have "lz4_build cz 4 = None \<and> lz4_write_all cz d = None \<and> lz4_finish cz d = (c, None)"
    by (auto simp: compress_def compress_cow_def split: option.splits prod.splits)
  then have "lz4_decoder cz c = Inr (d, None)" using assms(1) unfolding lossless_def by fastforce
  with CT_Lz4 assms(3,4) show ?thesis
    by (simp add: decompress_with_limit_def decompress_cow_with_limit_def read_limited_full)
qed

lemma decompress_bound: "decompress_with_limit cz c ct n = Ok d \<Longrightarrow> length d \<le> n"
  by (cases ct) (auto simp: decompress_with_limit_def decompress_cow_with_limit_def read_limited_bound
      split: if_splits sum.splits)

lemma decompress_not_Panic: "decompress_with_limit cz c ct n \<noteq> Panic"
  by (cases ct) (auto simp: decompress_with_limit_def decompress_cow_with_limit_def read_limited_not_Panic
      split: if_splits sum.splits)


section \<open>The client reads the cells the encoder writes\<close>

lemma checked_u16_Ok_iff: "checked_u16 n f = Ok w \<longleftrightarrow> n < 2 ^ 16 \<and> w = of_nat n"
  by (auto simp: checked_u16_def try_u16_def)

lemma checked_u32_Ok_iff: "checked_u32 n f = Ok w \<longleftrightarrow> n < 2 ^ 32 \<and> w = of_nat n"
  by (auto simp: checked_u32_def try_u32_def)

lemma parse_word_cell_safe:
  "parse_word_cell n what raw p \<noteq> Panic"
  "parse_word_cell n what raw p = Ok (x, p') \<Longrightarrow> p \<le> p' \<and> p' \<le> length raw"
  by (auto simp: parse_word_cell_def split: if_splits)

lemma parse_word_cell_enc:
  assumes "\<And>v. length (f v) = n" and "\<And>v. from_le (f v) = v"
  shows "parse_word_cell n what (pre @ raw_word f x @ post) (length pre) = Ok (x, length pre + length (raw_word f x))"
proof (cases x)
  case None
  then show ?thesis by (simp add: parse_word_cell_def raw_word_def)
next
  case (Some v)
  have "take n (drop (Suc (length pre)) (pre @ (0 # f v) @ post)) = f v" by (simp add: assms(1))
  with Some assms show ?thesis by (simp add: parse_word_cell_def raw_word_def)
qed

interpretation int_cell: offset_codec "parse_word_cell 4 what" "raw_word u32_le" "\<lambda>_. True" for what
  by unfold_locales (auto simp: parse_word_cell_enc parse_word_cell_safe dest: parse_word_cell_safe(2))

interpretation bigint_cell: offset_codec "parse_word_cell 8 what" "raw_word u64_le" "\<lambda>_. True" for what
  by unfold_locales (auto simp: parse_word_cell_enc parse_word_cell_safe dest: parse_word_cell_safe(2))

definition short_cell :: "cell \<Rightarrow> bool" where
  "short_cell c \<longleftrightarrow> (case c of None \<Rightarrow> True | Some d \<Rightarrow> length d < 2 ^ 32)"

lemma parse_text_cell_enc:
  assumes "short_cell x"
  shows "parse_text_cell (pre @ cell_bytes x @ post) (length pre) = Ok (x, length pre + length (cell_bytes x))"
proof (cases x)
  case None
  then show ?thesis by (simp add: parse_text_cell_def cell_bytes_def)
next
  case (Some d)
  let ?raw = "pre @ (0 # u32_le (of_nat (length d)) @ d) @ post"
  have "take 4 (drop (Suc (length pre)) ?raw) = u32_le (of_nat (length d))"
    "take (length d) (drop (length pre + 5) ?raw) = d" by simp_all
  moreover have "unat (of_nat (length d) :: u32) = length d" using assms Some by (simp add: short_cell_def)
  ultimately show ?thesis using Some by (simp add: parse_text_cell_def cell_bytes_def Let_def)
qed

interpretation text_cell: offset_codec parse_text_cell cell_bytes short_cell
proof
  fix off data assume "off \<le> length (data :: bytes)"
  show "parse_text_cell data off \<noteq> Panic" by (auto simp: parse_text_cell_def Let_def)
next
  fix off data x off' assume "parse_text_cell data off = Ok (x, off')"
  then show "off \<le> off' \<and> off' \<le> length data" by (auto simp: parse_text_cell_def Let_def split: if_splits)
qed (rule parse_text_cell_enc)

lemma raw_cell_Ok_iff: "raw_cell what c = Ok bs \<longleftrightarrow> short_cell c \<and> bs = cell_bytes c"
  by (auto simp: raw_cell_def short_cell_def cell_bytes_def checked_u32_Ok_iff split: option.splits)

lemma raw_cells_Ok:
  "omapM (raw_cell what) cs = Ok bss \<Longrightarrow> list_all short_cell cs \<and> bss = map cell_bytes cs"
  by (induction cs arbitrary: bss) (auto simp: raw_cell_Ok_iff)

section \<open>The client reads the columns the encoder writes\<close>

fun data_cells :: "column_data \<Rightarrow> cell list" where
  "data_cells (CD_Varchar cs) = cs"
| "data_cells (CD_Integer cs) = map (map_option u32_le) cs"
| "data_cells (CD_BigInt cs) = map (map_option u64_le) cs"
| "data_cells (CD_Binary cs) = cs"

text \<open>The representation the type of the column calls for; the client has no separate binary one.\<close>

definition data_matches :: "odbc_type \<Rightarrow> column_data \<Rightarrow> bool" where
  "data_matches t d \<longleftrightarrow>
     (case d of CD_Integer _ \<Rightarrow> t = Integer | CD_BigInt _ \<Rightarrow> t = BigInt | _ \<Rightarrow> t \<noteq> Integer \<and> t \<noteq> BigInt)"

fun client_data :: "column_data \<Rightarrow> column_data" where
  "client_data (CD_Binary cs) = CD_Varchar cs"
| "client_data d = d"

definition client_column :: "column_block \<Rightarrow> parsed_column" where
  "client_column b =
     (cm2_odbc_type (cb_metadata b), map unat (as_bytes (cm2_name (cb_metadata b))), client_data (cb_data b))"

lemma parse_columnar_raw_text:
  "t \<noteq> Integer \<Longrightarrow> t \<noteq> BigInt \<Longrightarrow>
   parse_columnar_raw t raw rows =
     obind (read_n parse_text_cell raw rows 0) (\<lambda>(cs, p).
       if p \<noteq> length raw then Err ''Columnar v2: raw not fully consumed'' else Ok (CD_Varchar cs))"
  by (cases t) (simp_all add: parse_columnar_raw_def)

lemma parse_columnar_raw_enc:
  assumes "raw_data d = Ok raw" and "data_matches t d" and "length (data_cells d) = rows"
    and "length raw \<le> usize_max"
  shows "parse_columnar_raw t raw rows = Ok (client_data d)"
proof (cases d)
  case (CD_Integer cs)
  with assms int_cell.read_n_enc[of cs "[]" "[]" "''Columnar v2: int cell truncated''"] show ?thesis
    by (simp add: raw_data_def data_matches_def parse_columnar_raw_def list.pred_True)
next
  case (CD_BigInt cs)
  with assms bigint_cell.read_n_enc[of cs "[]" "[]" "''Columnar v2: bigint cell truncated''"] show ?thesis
    by (simp add: raw_data_def data_matches_def parse_columnar_raw_def list.pred_True)
next
  case (CD_Varchar cs)
  with assms(1) have "list_all short_cell cs" "raw = concat (map cell_bytes cs)"
    by (auto simp: raw_data_def dest!: raw_cells_Ok)
  with CD_Varchar assms text_cell.read_n_enc[of cs "[]" "[]"] show ?thesis
    by (simp add: data_matches_def parse_columnar_raw_text)
next
  case (CD_Binary cs)
  with assms(1) have "list_all short_cell cs" "raw = concat (map cell_bytes cs)"
    by (auto simp: raw_data_def dest!: raw_cells_Ok)
  with CD_Binary assms text_cell.read_n_enc[of cs "[]" "[]"] show ?thesis
    by (simp add: data_matches_def parse_columnar_raw_text)
qed

text \<open>A block, by its parts: what the two branches of the encoder write, and that the client gets the payload back.\<close>

lemma compress_block_cases:
  "compress_block cz uc raw = (data, ct) \<Longrightarrow>
     ct = CT_None \<and> data = raw \<or> ct = CT_Zstd \<and> compress cz raw CT_Zstd = Ok data \<and> length data < length raw"
  by (auto simp: compress_block_def split: if_splits outcome.splits)

definition block_bytes :: "column_metadata_v2 \<Rightarrow> compression_type \<Rightarrow> bytes \<Rightarrow> bytes" where
  "block_bytes m ct data =
     u16_le (odbc_type_code (cm2_odbc_type m)) @ u16_le (of_nat (length (cm2_name m))) @ as_bytes (cm2_name m) @
     (if ct = CT_None then [0] else [1, compression_type_code ct]) @ u32_le (of_nat (length data)) @ data"

lemma encode_column_block_Ok:
  assumes "encode_column_block cz uc b = Ok bs"
  obtains raw data ct where "raw_data (cb_data b) = Ok raw" "compress_block cz uc raw = (data, ct)"
    "length (cm2_name (cb_metadata b)) < 2 ^ 16" "length data < 2 ^ 32" "bs = block_bytes (cb_metadata b) ct data"
proof -
  from assms obtain raw where raw: "raw_data (cb_data b) = Ok raw" by (auto simp: encode_column_block_def)
  obtain data ct where "compress_block cz uc raw = (data, ct)" by fastforce
  with assms raw that show thesis
    by (auto simp: encode_column_block_def block_bytes_def checked_u16_Ok_iff checked_u32_Ok_iff)
qed

definition inflate :: "(u8 \<Rightarrow> bytes \<Rightarrow> bytes option) \<Rightarrow> compression_type \<Rightarrow> bytes \<Rightarrow> bytes option" where
  "inflate nd ct data = (if ct = CT_None then Some data else nd (compression_type_code ct) data)"

lemma parse_columnar_block_bytes:
  assumes "length (cm2_name m) < 2 ^ 16" and "length data < 2 ^ 32" and "inflate nd ct data = Some raw"
    and "parse_columnar_raw (cm2_odbc_type m) raw rows = Ok d"
  shows "parse_columnar_block nd rows (pre @ block_bytes m ct data @ post) (length pre) =
           Ok ((cm2_odbc_type m, map unat (as_bytes (cm2_name m)), d), length pre + length (block_bytes m ct data))"
proof -
  let ?l = "length (cm2_name m)" and ?o = "length pre"
  let ?all = "pre @ block_bytes m ct data @ post"
  let ?ty = "u16_le (odbc_type_code (cm2_odbc_type m))"
  have n: "unat (of_nat ?l :: u16) = ?l" "unat (of_nat (length data) :: u32) = length data"
    using assms(1,2) by simp_all
  have head: "take 2 (drop ?o ?all) = ?ty" "take 2 (drop (?o + 2) ?all) = u16_le (of_nat ?l)"
    "take ?l (drop (?o + 4) ?all) = as_bytes (cm2_name m)"
    by (simp_all add: block_bytes_def)
  show ?thesis
  proof (cases "ct = CT_None")
    case True
    then have "?all ! (?o + 4 + ?l) = 0" "take 4 (drop (?o + 5 + ?l) ?all) = u32_le (of_nat (length data))"
      "take (length data) (drop (?o + 9 + ?l) ?all) = data" "length ?all = ?o + 9 + ?l + length data + length post"
      by (simp_all add: block_bytes_def nth_append)
    with True n head assms(3,4) show ?thesis
      by (simp add: parse_columnar_block_def Let_def inflate_def algebra_simps block_bytes_def)
  next
    case False
    then have "?all ! (?o + 4 + ?l) = 1" "?all ! (?o + 5 + ?l) = compression_type_code ct"
      "take 4 (drop (?o + 6 + ?l) ?all) = u32_le (of_nat (length data))"
      "take (length data) (drop (?o + 10 + ?l) ?all) = data" "length ?all = ?o + 10 + ?l + length data + length post"
      by (simp_all add: block_bytes_def nth_append)
    with False n head assms(3,4) show ?thesis
      by (simp add: parse_columnar_block_def Let_def inflate_def algebra_simps block_bytes_def)
  qed
qed


section \<open>Round trip of the message\<close>

text \<open>The exported function hands back what the encoder compressed, when the raw column is within its limit.\<close>

lemma native_decompress_inverse:
  assumes "lossless cz" and "compress cz raw CT_Zstd = Ok data" and "length raw \<le> MAX_COLUMNAR_DECOMPRESSED_LEN"
    and "length data \<le> length raw" and "\<not> da_poisoned st" and "\<And>v. fst (allocate v) \<noteq> 0 \<and> snd (allocate v) < 2 ^ 32"
  shows "native_decompress cz allocate st (compression_type_code CT_Zstd) data = Some raw"
proof -
  have "decompress_with_limit cz data CT_Zstd MAX_COLUMNAR_DECOMPRESSED_LEN = Ok raw"
    using assms(1-3) by (rule decompress_compress) (simp add: MAX_COLUMNAR_DECOMPRESSED_LEN_def)
  moreover obtain p cap where "allocate raw = (p, cap)" by fastforce
  moreover have "p \<noteq> 0" "cap < 2 ^ 32" using assms(6)[of raw] calculation(2) by simp_all
  moreover have "length data \<le> 0x7fffffff" using assms(3,4) by (simp add: MAX_COLUMNAR_DECOMPRESSED_LEN_def)
  moreover have "length raw < 2 ^ 32" using assms(3) by (simp add: MAX_COLUMNAR_DECOMPRESSED_LEN_def)
  ultimately show ?thesis
    using assms(5) by (simp add: native_decompress_def odbc_columnar_decompress_def compression_type_from_u8_def)
qed

text \<open>What a buffer must satisfy for its message to be readable: full columns of the type's representation, of a size the client may decompress.\<close>

definition wf_block :: "usize \<Rightarrow> column_block \<Rightarrow> bool" where
  "wf_block rows b \<longleftrightarrow>
     length (data_cells (cb_data b)) = rows \<and> data_matches (cm2_odbc_type (cb_metadata b)) (cb_data b) \<and>
     (case raw_data (cb_data b) of Ok raw \<Rightarrow> length raw \<le> MAX_COLUMNAR_DECOMPRESSED_LEN | _ \<Rightarrow> True)"

definition wf_v2 :: "row_buffer_v2 \<Rightarrow> bool" where
  "wf_v2 b \<longleftrightarrow> v2_columns b \<noteq> [] \<and> list_all (wf_block (v2_row_count b)) (v2_columns b)"

definition block_of :: "compressors \<Rightarrow> bool \<Rightarrow> column_block \<Rightarrow> bytes" where
  "block_of cz uc b = (case encode_column_block cz uc b of Ok bs \<Rightarrow> bs | _ \<Rightarrow> [])"

lemma encoded_blocks:
  "omapM (encode_column_block cz uc) bs = Ok blocks \<Longrightarrow>
     blocks = map (block_of cz uc) bs \<and> list_all (\<lambda>b. encode_column_block cz uc b = Ok (block_of cz uc b)) bs"
  by (induction bs arbitrary: blocks) (auto simp: block_of_def)

lemma parse_encoded_block:
  assumes "lossless cz" and "\<not> da_poisoned st" and alloc: "\<And>v. fst (allocate v) \<noteq> 0 \<and> snd (allocate v) < 2 ^ 32"
    and enc: "encode_column_block cz uc b = Ok bs" and "wf_block rows b"
  shows "parse_columnar_block (native_decompress cz allocate st) rows (pre @ bs @ post) (length pre) =
           Ok (client_column b, length pre + length bs)"
  using enc
proof (rule encode_column_block_Ok)
  fix raw data ct
  assume raw: "raw_data (cb_data b) = Ok raw" and ct: "compress_block cz uc raw = (data, ct)"
    and len: "length (cm2_name (cb_metadata b)) < 2 ^ 16" "length data < 2 ^ 32"
    and bs: "bs = block_bytes (cb_metadata b) ct data"
  have size: "length raw \<le> MAX_COLUMNAR_DECOMPRESSED_LEN" and full: "length (data_cells (cb_data b)) = rows"
    and kind: "data_matches (cm2_odbc_type (cb_metadata b)) (cb_data b)"
    using assms(5) raw by (simp_all add: wf_block_def)
  have "inflate (native_decompress cz allocate st) ct data = Some raw"
    using compress_block_cases[OF ct] native_decompress_inverse[OF assms(1) _ size _ assms(2) alloc]
    by (auto simp: inflate_def)
  moreover have "parse_columnar_raw (cm2_odbc_type (cb_metadata b)) raw rows = Ok (client_data (cb_data b))"
    using raw kind full by (rule parse_columnar_raw_enc) (use size in \<open>simp add: MAX_COLUMNAR_DECOMPRESSED_LEN_def\<close>)
  ultimately show ?thesis
    unfolding bs client_column_def by (intro parse_columnar_block_bytes len)
qed

text \<open>
  The Dart client reads from a columnar message exactly the columns the engine encoded (types, names
  as code units, every cell) and the row count, whether columns were compressed or not, provided the
  compressor is lossless, the columns are full and of the representation of their type, and none is
  larger than what the decompression entry point accepts.
\<close>

lemma columnar_parse_encode:
  assumes "lossless cz" and "\<not> da_poisoned st" and "\<And>v. fst (allocate v) \<noteq> 0 \<and> snd (allocate v) < 2 ^ 32"
    and "wf_v2 b" and "columnar_encode cz b use_compression = Ok msg"
  shows "parse_columnar_v2 (native_decompress cz allocate st) msg =
           Ok (map client_column (v2_columns b), v2_row_count b)"
proof -
  let ?cols = "v2_columns b" and ?enc = "block_of cz use_compression"
  let ?body = "concat (map ?enc ?cols)"
  let ?hdr = "u32_le MAGIC @ u16_le VERSION_V2 @ u16_le (v2_flags b) @ u16_le (of_nat (length ?cols)) @
     u32_le (of_nat (v2_row_count b)) @ [if use_compression then 1 else 0] @ u32_le (of_nat (length ?body))"
  from assms(5) have enc: "list_all (\<lambda>c. encode_column_block cz use_compression c = Ok (?enc c)) ?cols"
    and msg: "msg = ?hdr @ ?body" and bounds: "length ?cols < 2 ^ 16" "v2_row_count b < 2 ^ 32" "length ?body < 2 ^ 32"
    by (auto simp: columnar_encode_def checked_u16_Ok_iff checked_u32_Ok_iff column_count_v2_def dest!: encoded_blocks)
  have "read_n (parse_columnar_block (native_decompress cz allocate st) (v2_row_count b)) (?hdr @ ?body @ []) (length ?cols) (length ?hdr)
          = Ok (map client_column ?cols, length ?hdr + length ?body)"
    using assms(4) enc bounds
    by (intro read_n_norm[where P = "\<lambda>c. wf_block (v2_row_count b) c \<and> encode_column_block cz use_compression c = Ok (?enc c)"]
        parse_encoded_block[OF assms(1-3)]) (auto simp: wf_v2_def list_all_iff)
  then show ?thesis
    using assms(4) bounds unfolding msg by (simp add: parse_columnar_v2_def Let_def wf_v2_def)
qed


section \<open>The estimate, and when the encoder succeeds\<close>

lemma checked_add_Ok: "a + b \<le> usize_max \<Longrightarrow> checked_add a b f = Ok (a + b)"
  by (simp add: checked_add_def usize_checked_add_def)

lemma checked_u16_Ok: "n < 2 ^ 16 \<Longrightarrow> checked_u16 n f = Ok (of_nat n)"
  by (simp add: checked_u16_Ok_iff)

lemma checked_u32_Ok: "n < 2 ^ 32 \<Longrightarrow> checked_u32 n f = Ok (of_nat n)"
  by (simp add: checked_u32_Ok_iff)

lemma estimate_cells_Ok:
  "list_all short_cell cs \<Longrightarrow> sz + length (concat (map cell_bytes cs)) \<le> usize_max \<Longrightarrow>
     estimate_cells cs sz = Ok (sz + length (concat (map cell_bytes cs)))"
  by (induction cs arbitrary: sz)
    (auto simp: checked_add_Ok checked_u32_Ok short_cell_def cell_bytes_def split: option.splits)

lemma estimate_words_Ok:
  assumes "\<And>v. length (f v) = n"
  shows "sz + length (concat (map (raw_word f) cs)) \<le> usize_max \<Longrightarrow>
     estimate_words n what cs sz = Ok (sz + length (concat (map (raw_word f) cs)))"
  by (induction cs arbitrary: sz) (auto simp: checked_add_Ok raw_word_def assms split: option.splits)

text \<open>The estimate of a column is the exact length of its uncompressed payload.\<close>

lemma estimate_column_exact:
  assumes "raw_data (cb_data b) = Ok raw" and "length raw \<le> usize_max"
  shows "estimate_column_payload_size b = Ok (length raw)"
proof (cases "cb_data b")
  case (CD_Varchar cs)
  with assms estimate_cells_Ok[of cs 0] show ?thesis
    by (auto simp: estimate_column_payload_size_def raw_data_def dest!: raw_cells_Ok)
next
  case (CD_Binary cs)
  with assms estimate_cells_Ok[of cs 0] show ?thesis
    by (auto simp: estimate_column_payload_size_def raw_data_def dest!: raw_cells_Ok)
next
  case (CD_Integer cs)
  with assms estimate_words_Ok[of u32_le 4 0 cs] show ?thesis
    by (auto simp: estimate_column_payload_size_def raw_data_def)
next
  case (CD_BigInt cs)
  with assms estimate_words_Ok[of u64_le 8 0 cs] show ?thesis
    by (auto simp: estimate_column_payload_size_def raw_data_def)
qed

definition raw_length :: "column_block \<Rightarrow> nat" where
  "raw_length b = (case raw_data (cb_data b) of Ok raw \<Rightarrow> length raw | _ \<Rightarrow> 0)"

definition block_size :: "column_block \<Rightarrow> nat" where
  "block_size b = 10 + length (cm2_name (cb_metadata b)) + raw_length b"

definition encodable_block :: "column_block \<Rightarrow> bool" where
  "encodable_block b \<longleftrightarrow> length (cm2_name (cb_metadata b)) < 2 ^ 16 \<and> (\<exists>raw. raw_data (cb_data b) = Ok raw)"

lemma estimate_blocks_Ok:
  "list_all encodable_block bs \<Longrightarrow> sz + (\<Sum>b\<leftarrow>bs. block_size b) \<le> usize_max \<Longrightarrow>
     estimate_blocks bs sz = Ok (sz + (\<Sum>b\<leftarrow>bs. block_size b))"
proof (induction bs arbitrary: sz)
  case Nil
  then show ?case by simp
next
  case (Cons b bs)
  from Cons.prems obtain raw where raw: "raw_data (cb_data b) = Ok raw" by (auto simp: encodable_block_def)
  with Cons.prems(2) have "estimate_column_payload_size b = Ok (length raw)"
    by (intro estimate_column_exact) (simp_all add: block_size_def raw_length_def)
  with Cons.prems Cons.IH[of "sz + block_size b"] raw show ?case
    by (simp add: checked_add_Ok block_size_def raw_length_def algebra_simps)
qed

lemma compress_block_length: "compress_block cz uc raw = (data, ct) \<Longrightarrow> length data \<le> length raw"
  by (auto dest!: compress_block_cases)

lemma encode_column_block_total:
  assumes "encodable_block b" and "block_size b < 2 ^ 32"
  shows "\<exists>bs. encode_column_block cz uc b = Ok bs \<and> length bs \<le> block_size b"
proof -
  from assms(1) obtain raw where raw: "raw_data (cb_data b) = Ok raw"
    and name: "length (cm2_name (cb_metadata b)) < 2 ^ 16" by (auto simp: encodable_block_def)
  obtain data ct where ct: "compress_block cz uc raw = (data, ct)" by fastforce
  have len: "length data \<le> length raw" "length raw < 2 ^ 32"
    using compress_block_length[OF ct] assms(2) raw by (simp_all add: block_size_def raw_length_def)
  then have "estimate_column_payload_size b = Ok (length raw)" using raw by (intro estimate_column_exact) simp_all
  with raw ct name len show ?thesis
    by (simp add: encode_column_block_def checked_u16_Ok checked_u32_Ok block_size_def raw_length_def)
qed

lemma encode_blocks_total:
  assumes "list_all encodable_block bs" and "(\<Sum>b\<leftarrow>bs. block_size b) < 2 ^ 32"
  shows "\<exists>blocks. omapM (encode_column_block cz uc) bs = Ok blocks \<and>
           length (concat blocks) \<le> (\<Sum>b\<leftarrow>bs. block_size b)"
  using assms
proof (induction bs)
  case Nil
  then show ?case by simp
next
  case (Cons b bs)
  then obtain blocks where "omapM (encode_column_block cz uc) bs = Ok blocks"
    "length (concat blocks) \<le> (\<Sum>b\<leftarrow>bs. block_size b)" by auto
  moreover obtain x where "encode_column_block cz uc b = Ok x" "length x \<le> block_size b"
    using encode_column_block_total[of b] Cons.prems by auto
  ultimately show ?case by (auto intro: add_mono)
qed

definition encodable_v2 :: "row_buffer_v2 \<Rightarrow> bool" where
  "encodable_v2 b \<longleftrightarrow>
     column_count_v2 b < 2 ^ 16 \<and> v2_row_count b < 2 ^ 32 \<and> list_all encodable_block (v2_columns b) \<and>
     (\<Sum>c\<leftarrow>v2_columns b. block_size c) < 2 ^ 32"

text \<open>
  The encoder accepts every buffer whose counts, names, cells and total fit their wire fields, and
  the message is never longer than the size it reserved: a column is only stored compressed when that is smaller.
\<close>

lemma columnar_encode_total:
  assumes "encodable_v2 b"
  shows "\<exists>msg sz. columnar_encode cz b use_compression = Ok msg \<and> estimate_encoded_size b = Ok sz \<and> length msg \<le> sz"
proof -
  let ?total = "(\<Sum>c\<leftarrow>v2_columns b. block_size c)"
  have blocks: "list_all encodable_block (v2_columns b)" "?total < 2 ^ 32" using assms by (auto simp: encodable_v2_def)
  have est: "estimate_encoded_size b = Ok (19 + ?total)"
    unfolding estimate_encoded_size_def using blocks by (intro estimate_blocks_Ok) simp_all
  from encode_blocks_total[OF blocks] obtain bs where
    bs: "omapM (encode_column_block cz use_compression) (v2_columns b) = Ok bs" "length (concat bs) \<le> ?total" by blast
  with est assms blocks show ?thesis
    by (simp add: columnar_encode_def checked_u16_Ok checked_u32_Ok encodable_v2_def)
qed


section \<open>The converter\<close>

definition converted_block :: "row_buffer \<Rightarrow> nat \<times> column_metadata \<Rightarrow> column_block" where
  "converted_block b p =
     \<lparr>cb_metadata = \<lparr>cm2_name = cm_name (snd p), cm2_odbc_type = cm_odbc_type (snd p)\<rparr>,
      cb_data = convert_column b (fst p) (snd p), cb_compressed = False, cb_compression_type = CT_None\<rparr>"

lemma fold_add_columns:
  "v2_columns (foldl (\<lambda>v (i, m). add_column_v2 \<lparr>cm2_name = cm_name m, cm2_odbc_type = cm_odbc_type m\<rparr>
       (convert_column b i m) v) v2 ps) = v2_columns v2 @ map (converted_block b) ps"
  "v2_row_count (foldl (\<lambda>v (i, m). add_column_v2 \<lparr>cm2_name = cm_name m, cm2_odbc_type = cm_odbc_type m\<rparr>
       (convert_column b i m) v) v2 ps) = v2_row_count v2"
  by (induction ps arbitrary: v2) (auto simp: add_column_v2_def converted_block_def)

lemma row_buffer_to_columnar_columns:
  "v2_columns (row_buffer_to_columnar b) = map (converted_block b) (enumerate 0 (rb_columns b))"
  "v2_row_count (row_buffer_to_columnar b) = row_count b"
  by (auto simp: row_buffer_to_columnar_def Let_def fold_add_columns set_row_count_def row_buffer_v2_new_def
      column_count_def)

text \<open>Rows as the cell readers produce them: integer columns hold four bytes, big integers eight.\<close>

fun typed_cell :: "odbc_type \<Rightarrow> cell \<Rightarrow> bool" where
  "typed_cell Integer (Some d) \<longleftrightarrow> length d = 4"
| "typed_cell BigInt (Some d) \<longleftrightarrow> length d = 8"
| "typed_cell _ _ \<longleftrightarrow> True"

definition typed_buffer :: "row_buffer \<Rightarrow> bool" where
  "typed_buffer b \<longleftrightarrow> list_all (\<lambda>row. list_all2 (\<lambda>c cell. typed_cell (cm_odbc_type c) cell) (rb_columns b) row) (rb_rows b)"

definition column_cells :: "row_buffer \<Rightarrow> nat \<Rightarrow> cell list" where
  "column_cells b i = map (\<lambda>row. row ! i) (rb_rows b)"

lemma typed_bufferD:
  assumes "typed_buffer b" and "row \<in> set (rb_rows b)" and "i < length (rb_columns b)"
  shows "i < length row" and "typed_cell (cm_odbc_type (rb_columns b ! i)) (row ! i)"
  using assms by (auto simp: typed_buffer_def list_all_iff list_all2_conv_all_nth)

lemma word_cell_typed:
  "i < length row \<Longrightarrow> typed_cell Integer (row ! i) \<Longrightarrow> word_cell 4 i row = map_option from_le (row ! i)"
  "i < length row \<Longrightarrow> typed_cell BigInt (row ! i) \<Longrightarrow> word_cell 8 i row = map_option from_le (row ! i)"
  by (cases "row ! i"; simp add: word_cell_def cell_at_def)+

lemma typed_cell_le:
  "typed_cell Integer c \<Longrightarrow> map_option u32_le (map_option from_le c) = c"
  "typed_cell BigInt c \<Longrightarrow> map_option u64_le (map_option from_le c) = c"
  by (cases c; simp add: uN_le_from_le)+

lemma convert_column_typed:
  assumes "typed_buffer b" and "i < length (rb_columns b)"
  shows "convert_column b i (rb_columns b ! i) =
     (case cm_odbc_type (rb_columns b ! i) of
        Integer \<Rightarrow> CD_Integer (map (map_option from_le) (column_cells b i))
      | BigInt \<Rightarrow> CD_BigInt (map (map_option from_le) (column_cells b i))
      | _ \<Rightarrow> CD_Varchar (column_cells b i))"
  using typed_bufferD[OF assms(1) _ assms(2)]
  by (cases "cm_odbc_type (rb_columns b ! i)")
    (auto simp: convert_column_def column_cells_def cell_at_def intro!: word_cell_typed)

lemma convert_column_cells:
  assumes "typed_buffer b" and "i < length (rb_columns b)"
  shows "data_cells (convert_column b i (rb_columns b ! i)) = column_cells b i"
proof -
  have "typed_cell (cm_odbc_type (rb_columns b ! i)) x" if "x \<in> set (column_cells b i)" for x
    using that typed_bufferD[OF assms(1) _ assms(2)] by (auto simp: column_cells_def)
  then show ?thesis
    unfolding convert_column_typed[OF assms]
    by (cases "cm_odbc_type (rb_columns b ! i)")
      (auto simp del: option.map_comp simp: typed_cell_le intro!: map_idI)
qed

lemma convert_column_matches:
  "data_matches (cm_odbc_type m) (convert_column b i m)"
  "client_data (convert_column b i m) = convert_column b i m"
  by (cases "cm_odbc_type m"; simp add: convert_column_def data_matches_def)+


lemma enumerate_nth: "enumerate 0 xs = map (\<lambda>i. (i, xs ! i)) [0..<length xs]"
  by (rule nth_equalityI) (auto simp: nth_enumerate_eq)

lemma sum_list_row: "length row = n \<Longrightarrow> (\<Sum>c\<leftarrow>row. f c) = (\<Sum>i<n. f (row ! i) :: nat)"
  by (simp add: sum_list_sum_nth atLeast0LessThan)

text \<open>A column of the columnar message is no longer than its cells in the row-major one.\<close>

lemma raw_word_length:
  "typed_cell Integer c \<Longrightarrow> length (raw_word u32_le (map_option f c)) \<le> length (cell_bytes c)"
  "typed_cell BigInt c \<Longrightarrow> length (raw_word u64_le (map_option g c)) \<le> length (cell_bytes c)"
  by (cases c; simp add: raw_word_def cell_bytes_def)+

lemma wf_cell_short: "wf_cell c \<Longrightarrow> short_cell c"
  by (cases c) (simp_all add: wf_cell_def short_cell_def MAX_DECODED_CELL_SIZE_def)

lemma raw_cells_total: "list_all short_cell cs \<Longrightarrow> omapM (raw_cell what) cs = Ok (map cell_bytes cs)"
  by (intro omapM_Ok_map) (simp add: raw_cell_Ok_iff list_all_iff)

lemma convert_column_raw:
  assumes "typed_buffer b" and "wf_buffer b" and "i < length (rb_columns b)"
  shows "\<exists>raw. raw_data (convert_column b i (rb_columns b ! i)) = Ok raw \<and>
           length raw \<le> (\<Sum>row\<leftarrow>rb_rows b. length (cell_bytes (row ! i)))"
proof -
  have typed: "typed_cell (cm_odbc_type (rb_columns b ! i)) c" and short: "short_cell c" if "c \<in> set (column_cells b i)" for c
    using that assms(2) typed_bufferD[OF assms(1) _ assms(3)]
    by (auto simp: column_cells_def wf_buffer_def list_all_iff column_count_def intro!: wf_cell_short)
  have sum: "(\<Sum>row\<leftarrow>rb_rows b. length (cell_bytes (row ! i))) = (\<Sum>c\<leftarrow>column_cells b i. length (cell_bytes c))"
    by (simp add: column_cells_def o_def)
  have "list_all short_cell (column_cells b i)" using short by (simp add: list_all_iff)
  then show ?thesis
    unfolding sum convert_column_typed[OF assms(1,3)] using typed
    by (cases "cm_odbc_type (rb_columns b ! i)")
      (auto simp: raw_data_def raw_cells_total length_concat o_def intro!: sum_list_mono raw_word_length)
qed

lemma cells_sum:
  assumes "wf_buffer b"
  shows "(\<Sum>i<length (rb_columns b). \<Sum>row\<leftarrow>rb_rows b. length (cell_bytes (row ! i))) =
           length (concat (map row_bytes (rb_rows b)))"
proof -
  have "(\<Sum>row\<leftarrow>rows. \<Sum>i<n. length (cell_bytes (row ! i))) = length (concat (map row_bytes rows))"
    if "list_all (\<lambda>r. length r = n) rows" for rows n
    using that by (induction rows) (auto simp: row_bytes_def length_concat o_def sum_list_row[OF refl, symmetric, where f = "\<lambda>c. length (cell_bytes c)"])
  moreover have "list_all (\<lambda>r. length r = length (rb_columns b)) (rb_rows b)"
    using assms by (auto simp: wf_buffer_def list_all_iff column_count_def)
  moreover have "(\<Sum>i<n. \<Sum>row\<leftarrow>rows. g row i) = (\<Sum>row\<leftarrow>rows. \<Sum>i<n. g row i)"
    for n and rows :: "cell list list" and g :: "cell list \<Rightarrow> nat \<Rightarrow> nat"
    by (induction rows) (simp_all add: sum.distrib)
  ultimately show ?thesis by simp
qed


lemma converted_sizes:
  assumes "typed_buffer b" and "wf_buffer b"
  shows "(\<Sum>c\<leftarrow>v2_columns (row_buffer_to_columnar b). block_size c) \<le> 6 * column_count b + length (payload_bytes b)"
proof -
  let ?n = "length (rb_columns b)" and ?blk = "\<lambda>i. converted_block b (i, rb_columns b ! i)"
  have "block_size (?blk i) \<le> 10 + length (cm_name (rb_columns b ! i)) + (\<Sum>row\<leftarrow>rb_rows b. length (cell_bytes (row ! i)))"
    if "i < ?n" for i
    using convert_column_raw[OF assms that] by (auto simp: block_size_def converted_block_def raw_length_def)
  then have "(\<Sum>i<?n. block_size (?blk i)) \<le>
      (\<Sum>i<?n. 10 + length (cm_name (rb_columns b ! i)) + (\<Sum>row\<leftarrow>rb_rows b. length (cell_bytes (row ! i))))"
    by (intro sum_mono) simp
  also have "\<dots> = 6 * ?n + (\<Sum>i<?n. 4 + length (cm_name (rb_columns b ! i))) + length (concat (map row_bytes (rb_rows b)))"
    by (simp add: sum.distrib cells_sum[OF assms(2)])
  also have "(\<Sum>i<?n. 4 + length (cm_name (rb_columns b ! i))) = length (concat (map (column_bytes \<circ> info_of) (rb_columns b)))"
    using sum_list_row[of "rb_columns b" ?n "\<lambda>c. 4 + length (cm_name c)"]
    by (simp add: length_concat o_def info_of_def length_column_bytes)
  finally have "(\<Sum>i<?n. block_size (?blk i)) \<le> 6 * column_count b + length (payload_bytes b)"
    by (simp add: payload_bytes_def column_count_def)
  moreover have "(\<Sum>c\<leftarrow>v2_columns (row_buffer_to_columnar b). block_size c) = (\<Sum>i<?n. block_size (?blk i))"
    by (simp add: row_buffer_to_columnar_columns enumerate_nth o_def interv_sum_list_conv_sum_set_nat atLeast0LessThan)
  ultimately show ?thesis by simp
qed

lemma converted_well_formed:
  assumes "typed_buffer b" and "wf_buffer b" and "rb_columns b \<noteq> []"
  shows "wf_v2 (row_buffer_to_columnar b)" and "encodable_v2 (row_buffer_to_columnar b)"
proof -
  have blk: "wf_block (row_count b) c" "encodable_block c" if c: "c \<in> set (v2_columns (row_buffer_to_columnar b))" for c
  proof -
    from c obtain i where i: "i < length (rb_columns b)" and ci: "c = converted_block b (i, rb_columns b ! i)"
      by (auto simp: row_buffer_to_columnar_columns enumerate_nth)
    from convert_column_raw[OF assms(1,2) i] obtain raw where
      raw: "raw_data (convert_column b i (rb_columns b ! i)) = Ok raw" by blast
    have "block_size c \<le> (\<Sum>c\<leftarrow>v2_columns (row_buffer_to_columnar b). block_size c)"
      using c by (intro member_le_sum_list) auto
    have "length raw \<le> (\<Sum>row\<leftarrow>rb_rows b. length (cell_bytes (row ! i)))"
      using convert_column_raw[OF assms(1,2) i] raw by auto
    also have "\<dots> \<le> (\<Sum>i<length (rb_columns b). \<Sum>row\<leftarrow>rb_rows b. length (cell_bytes (row ! i)))"
      using i by (intro member_le_sum) auto
    also have "\<dots> \<le> length (payload_bytes b)" by (simp add: cells_sum[OF assms(2)] payload_bytes_def)
    finally have "length raw \<le> MAX_COLUMNAR_DECOMPRESSED_LEN"
      using assms(2) by (simp add: wf_buffer_def MAX_COLUMNAR_DECOMPRESSED_LEN_def MAX_DECODED_PAYLOAD_SIZE_def)
    with raw i convert_column_cells[OF assms(1) i] convert_column_matches(1)[of "rb_columns b ! i" b i]
    show "wf_block (row_count b) c"
      by (simp add: ci converted_block_def wf_block_def column_cells_def row_count_def)
    have "wf_info (info_of (rb_columns b ! i))" using assms(2) i by (simp add: wf_buffer_def list_all_length)
    with raw show "encodable_block c"
      by (simp add: ci converted_block_def encodable_block_def wf_info_def info_of_def)
  qed
  show "wf_v2 (row_buffer_to_columnar b)"
    using assms(3) blk by (auto simp: wf_v2_def list_all_iff row_buffer_to_columnar_columns enumerate_nth)
  show "encodable_v2 (row_buffer_to_columnar b)"
    using converted_sizes[OF assms(1,2)] assms(2) blk
    by (auto simp: encodable_v2_def list_all_iff row_buffer_to_columnar_columns column_count_v2_def wf_buffer_def
        column_count_def decoder_limits)
qed

text \<open>
  The UTF-16 code units of a text given in UTF-8, which is the Dart string the text denotes. A sequence
  that is cut short does not occur in valid UTF-8.
\<close>

fun utf16_units :: "bytes \<Rightarrow> nat list" where
  "utf16_units [] = []"
| "utf16_units (a # bs) =
     (if a < 128 then unat a # utf16_units bs
      else if a < 224 then
        (case bs of
           b # r \<Rightarrow> (unat a mod 32 * 64 + unat b mod 64) # utf16_units r
         | _ \<Rightarrow> [])
      else if a < 240 then
        (case bs of
           b # c # r \<Rightarrow> (unat a mod 16 * 4096 + unat b mod 64 * 64 + unat c mod 64) # utf16_units r
         | _ \<Rightarrow> [])
      else
        (case bs of
           b # c # d # r \<Rightarrow>
             let p = unat a mod 8 * 262144 + unat b mod 64 * 4096 + unat c mod 64 * 64 + unat d mod 64 - 65536 in
             (55296 + p div 1024) # (56320 + p mod 1024) # utf16_units r
         | _ \<Rightarrow> []))"

lemma utf16_units_length:
  "length (utf16_units bs) \<le> length bs \<and> (length (utf16_units bs) = length bs \<longrightarrow> list_all (\<lambda>b. b < 128) bs)"
proof (induction bs rule: length_induct)
  case (1 bs)
  show ?case
  proof (cases bs)
    case (Cons a r)
    have IH: "length (utf16_units q) \<le> length q \<and> (length (utf16_units q) = length q \<longrightarrow> list_all (\<lambda>b. b < 128) q)"
      if "length q \<le> length r" for q
      using "1.IH" that Cons by simp
    consider "a < 128" | "\<not> a < 128" "a < 224" | "\<not> a < 128" "\<not> a < 224" "a < 240" | "\<not> a < 128" "\<not> a < 224" "\<not> a < 240"
      by blast
    then show ?thesis
    proof cases
      case 1
      with IH[of r] Cons show ?thesis by simp
    next
      case 2
      with IH[of "tl r"] Cons show ?thesis by (cases r) simp_all
    next
      case 3
      with IH[of "drop 2 r"] Cons show ?thesis by (cases r; cases "tl r") simp_all
    next
      case 4
      with IH[of "drop 3 r"] Cons show ?thesis by (cases r; cases "tl r"; cases "drop 2 r") (simp_all add: Let_def)
    qed
  qed simp
qed

lemma utf16_units_ascii: "list_all (\<lambda>b. b < 128) bs \<Longrightarrow> utf16_units bs = map unat bs"
  by (induction bs) simp_all

lemma utf16_units_bytes_iff: "map unat (as_bytes s) = utf16_units (as_bytes s) \<longleftrightarrow> ascii s"
proof -
  have "ascii s \<longleftrightarrow> list_all (\<lambda>b. b < 128) (as_bytes s)"
    by (simp add: ascii_def as_bytes_def list_all_iff word_less_nat_alt unat_byte_of)
  with utf16_units_length[of "as_bytes s"] utf16_units_ascii[of "as_bytes s"] show ?thesis
    by (metis length_map)
qed

text \<open>
  C32. A bulk result (rows converted to columns, compressed column by column) always encodes, in no more
  than the reserved size, and the client gets back every column with its type, and in it every cell of the
  rows, for every rectangular buffer within the limits of the row decoder whose integer cells have their
  width. The names arrive as the bytes of their UTF-8 text, one code unit per byte: the Dart string the
  client builds is the column's name exactly when the name is ASCII, and garbled otherwise. Assumed: the
  compressor is lossless, the table of allocations is usable and an allocation has an address and fits
  in 32 bits.
\<close>

theorem bulk_result_roundtrip:
  assumes "lossless cz" and "\<not> da_poisoned st" and "\<And>v. fst (allocate v) \<noteq> 0 \<and> snd (allocate v) < 2 ^ 32"
    and "typed_buffer b" and "wf_buffer b" and "rb_columns b \<noteq> []"
  shows "\<exists>msg cols sz. encode_for_bulk cz b = Ok msg \<and>
           estimate_encoded_size (row_buffer_to_columnar b) = Ok sz \<and> length msg \<le> sz \<and>
           parse_columnar_v2 (native_decompress cz allocate st) msg = Ok (cols, row_count b) \<and>
           map fst cols = map cm_odbc_type (rb_columns b) \<and>
           map (fst \<circ> snd) cols = map (map unat \<circ> as_bytes \<circ> cm_name) (rb_columns b) \<and>
           (\<forall>i<column_count b. fst (snd (cols ! i)) = utf16_units (as_bytes (cm_name (rb_columns b ! i))) \<longleftrightarrow>
              ascii (cm_name (rb_columns b ! i))) \<and>
           map (data_cells \<circ> snd \<circ> snd) cols = map (column_cells b) [0..<column_count b]"
proof -
  let ?v2 = "row_buffer_to_columnar b"
  let ?cols = "map client_column (v2_columns ?v2)"
  note wf = converted_well_formed[OF assms(4-6)]
  from columnar_encode_total[OF wf(2)] obtain msg sz where
    msg: "columnar_encode cz ?v2 True = Ok msg" "estimate_encoded_size ?v2 = Ok sz" "length msg \<le> sz" by blast
  have cols: "?cols = map (\<lambda>i. client_column (converted_block b (i, rb_columns b ! i))) [0..<length (rb_columns b)]"
    by (simp add: row_buffer_to_columnar_columns enumerate_nth)
  have "map fst ?cols = map cm_odbc_type (rb_columns b)"
    and names: "map (fst \<circ> snd) ?cols = map (map unat \<circ> as_bytes \<circ> cm_name) (rb_columns b)"
    unfolding cols by (rule nth_equalityI; simp add: client_column_def converted_block_def)+
  moreover have "\<forall>i<column_count b. fst (snd (?cols ! i)) = utf16_units (as_bytes (cm_name (rb_columns b ! i))) \<longleftrightarrow>
      ascii (cm_name (rb_columns b ! i))"
    using utf16_units_bytes_iff by (simp add: cols client_column_def converted_block_def column_count_def)
  moreover have "map (data_cells \<circ> snd \<circ> snd) ?cols = map (column_cells b) [0..<column_count b]"
    unfolding cols by (rule nth_equalityI)
      (simp_all add: client_column_def converted_block_def column_count_def convert_column_matches
        convert_column_cells[OF assms(4)])
  ultimately show ?thesis
    using columnar_parse_encode[OF assms(1-3) wf(1) msg(1)] msg
    by (simp add: encode_for_bulk_def row_buffer_to_columnar_columns(2))
qed


text \<open>A compressor that satisfies the assumption: a constant input becomes its length and byte, any other is stored.\<close>

definition rle_encode :: "bytes \<Rightarrow> bytes" where
  "rle_encode d =
     (case d of
        [] \<Rightarrow> [0]
      | b # _ \<Rightarrow> if d = replicate (length d) b \<and> length d < 2 ^ 32 then 1 # b # u32_le (of_nat (length d)) else 0 # d)"

definition rle_decode :: "bytes \<Rightarrow> bytes" where
  "rle_decode c =
     (case c of [] \<Rightarrow> [] | f # r \<Rightarrow> if f = 1 then replicate (unat (from_le (tl r) :: u32)) (hd r) else r)"

definition rle :: compressors where
  "rle = \<lparr>zstd_encode_all = (\<lambda>d _. Inr (rle_encode d)), zstd_decoder = (\<lambda>c. Inr (rle_decode c, None)),
     lz4_build = (\<lambda>_. None), lz4_write_all = (\<lambda>_. None), lz4_finish = (\<lambda>d. (rle_encode d, None)),
     lz4_decoder = (\<lambda>c. Inr (rle_decode c, None))\<rparr>"

lemma rle_decode_encode: "rle_decode (rle_encode d) = d"
  by (cases d) (auto simp: rle_encode_def rle_decode_def simp del: of_nat_Suc)

lemma rle_lossless: "lossless rle"
  by (simp add: lossless_def rle_def rle_decode_encode)

definition example_result :: row_buffer where
  "example_result =
     \<lparr>rb_columns = [\<lparr>cm_name = ''id'', cm_odbc_type = Integer\<rparr>, \<lparr>cm_name = ''t'', cm_odbc_type = Varchar\<rparr>],
      rb_rows = [[Some [7, 0, 0, 0], None], [None, Some [104, 105]]]\<rparr>"

lemma example_result_ok: "typed_buffer example_result" "wf_buffer example_result" "rb_columns example_result \<noteq> []"
  by (simp_all add: example_result_def typed_buffer_def wf_buffer_def column_count_def row_count_def payload_bytes_def
      row_bytes_def byte_simps info_of_def wf_info_def wf_cell_def valid_str_ascii ascii_def decoder_limits)

theorem bulk_result_roundtrip_witness:
  "\<exists>msg cols sz. encode_for_bulk rle example_result = Ok msg \<and>
     estimate_encoded_size (row_buffer_to_columnar example_result) = Ok sz \<and> length msg \<le> sz \<and>
     parse_columnar_v2 (native_decompress rle (\<lambda>v. (8, 16)) \<lparr>da_poisoned = False, da_table = Map.empty, da_freed = []\<rparr>) msg =
       Ok (cols, 2) \<and>
     map fst cols = [Integer, Varchar] \<and> map (fst \<circ> snd) cols = [[105, 100], [116]] \<and>
     fst (snd (cols ! 0)) = utf16_units (as_bytes ''id'') \<and>
     map (data_cells \<circ> snd \<circ> snd) cols = [[Some [7, 0, 0, 0], None], [None, Some [104, 105]]]"
proof -
  have "row_count example_result = 2" "column_count example_result = 2"
    by (simp_all add: example_result_def row_count_def column_count_def)
  moreover have "map cm_odbc_type (rb_columns example_result) = [Integer, Varchar]"
    "map (map unat \<circ> as_bytes \<circ> cm_name) (rb_columns example_result) = [[105, 100], [116]]"
    "map (column_cells example_result) [0..<2] = [[Some [7, 0, 0, 0], None], [None, Some [104, 105]]]"
    "cm_name (rb_columns example_result ! 0) = ''id''" "ascii ''id''"
    by (simp_all add: example_result_def column_cells_def as_bytes_def unat_byte_of upt_rec ascii_def)
  ultimately show ?thesis
    using bulk_result_roundtrip[of rle "\<lparr>da_poisoned = False, da_table = Map.empty, da_freed = []\<rparr>" "\<lambda>v. (8, 16)"
        example_result, OF rle_lossless _ _ example_result_ok] by (auto simp: less_2_cases_iff)
qed

section \<open>The decompression entry point\<close>

text \<open>
  A call of \<open>odbc_columnar_decompress\<close> that fails leaves the allocation table as it was. One that
  succeeds hands out at most 256 MiB; freeing the address returns the vector with the length and capacity
  it really has, whatever the caller passes, and a second free of the same address does nothing.
\<close>

theorem decompress_then_free:
  assumes "odbc_columnar_decompress cz any_null algorithm data allocate st = (code, out, st')"
  shows "(code \<noteq> 0 \<and> out = None \<and> st' = st) \<or>
     (\<exists>v. code = 0 \<and> out = Some (fst (allocate v), v) \<and> length v \<le> MAX_COLUMNAR_DECOMPRESSED_LEN \<and>
        (fst (allocate v) \<noteq> 0 \<longrightarrow>
         (let st2 = odbc_columnar_decompress_free (fst (allocate v)) len cap st' in
            da_freed st2 = (fst (allocate v), length v, snd (allocate v)) # da_freed st \<and>
            da_table st2 = (da_table st)(fst (allocate v) := None) \<and>
            odbc_columnar_decompress_free (fst (allocate v)) len2 cap2 st2 = st2)))"
proof (cases "code = 0")
  case False
  with assms show ?thesis
    by (auto simp: odbc_columnar_decompress_def split: if_splits outcome.splits prod.splits)
next
  case True
  with assms obtain v where v: "decompress_with_limit cz data (compression_type_from_u8 algorithm) MAX_COLUMNAR_DECOMPRESSED_LEN = Ok v"
    and out: "out = Some (fst (allocate v), v)" "\<not> da_poisoned st"
    and st': "st' = st\<lparr>da_table := (da_table st)(fst (allocate v) \<mapsto> (length v, snd (allocate v)))\<rparr>"
    by (auto simp: odbc_columnar_decompress_def split: if_splits outcome.splits prod.splits)
  show ?thesis
    using True decompress_bound[OF v] out st'
    by (intro disjI2 exI[of _ v]) (auto simp: odbc_columnar_decompress_free_def Let_def)
qed

theorem decompress_then_free_witness:
  "odbc_columnar_decompress rle False 1 (rle_encode [5, 5, 5]) (\<lambda>v. (8, 16))
      \<lparr>da_poisoned = False, da_table = Map.empty, da_freed = []\<rparr> =
    (0, Some (8, [5, 5, 5]), \<lparr>da_poisoned = False, da_table = [8 \<mapsto> (3, 16)], da_freed = []\<rparr>) \<and>
   da_freed (odbc_columnar_decompress_free 8 99 99
      \<lparr>da_poisoned = False, da_table = [8 \<mapsto> (3, 16)], da_freed = []\<rparr>) = [(8, 3, 16)]"
proof -
  let ?st = "\<lparr>da_poisoned = False, da_table = Map.empty, da_freed = []\<rparr>"
  have run: "odbc_columnar_decompress rle False 1 (rle_encode [5, 5, 5]) (\<lambda>v. (8, 16)) ?st =
    (0, Some (8, [5, 5, 5]), \<lparr>da_poisoned = False, da_table = [8 \<mapsto> (3, 16)], da_freed = []\<rparr>)"
    by (simp add: odbc_columnar_decompress_def compression_type_from_u8_def decompress_with_limit_def
        decompress_cow_with_limit_def rle_def rle_decode_encode read_limited_full MAX_COLUMNAR_DECOMPRESSED_LEN_def
        numeral_3_eq_3)
  from decompress_then_free[OF run, of 99 99 0 0] run show ?thesis by (simp add: Let_def)
qed

text \<open>The encoder compresses columns the entry point then refuses to expand.\<close>

lemma oversized_column_unreadable:
  assumes "lossless cz" and "compress cz raw CT_Zstd = Ok data"
    and "MAX_COLUMNAR_DECOMPRESSED_LEN < length raw"
  shows "native_decompress cz allocate st (compression_type_code CT_Zstd) data = None"
proof -
  have "zstd_decoder cz data = Inr (raw, None)"
    using assms(1,2) by (auto simp: lossless_def compress_def compress_cow_def zstd_compress_def split: sum.splits)
  then show ?thesis
    using assms(3) by (simp add: native_decompress_def odbc_columnar_decompress_def compression_type_from_u8_def
        decompress_with_limit_def decompress_cow_with_limit_def read_limited_def usize_checked_add_def
        MAX_COLUMNAR_DECOMPRESSED_LEN_def)
qed

text \<open>
  A text cell in an integer column that happens to have four bytes is read as a number, and one of
  another length becomes \<open>NULL\<close>: the conversion keeps an integer column only when every cell has its width.
\<close>

lemma converter_integer_cells:
  assumes "cm_odbc_type m = Integer" and "row \<in> set (rb_rows b)" and "i < length row" and "row ! i = Some d"
  shows "(if length d = 4 then Some (from_le d) else None) \<in>
           set (case convert_column b i m of CD_Integer cs \<Rightarrow> cs | _ \<Rightarrow> [])"
  using assms by (force simp: convert_column_def word_cell_def cell_at_def image_iff intro!: bexI[of _ row])

end
