(* ===== verification/Query.thy ===== *)
theory Query
  imports Cells Columnar Multi_Result
begin

text \<open>
  \<open>engine/core/execution_engine.rs\<close>, \<open>engine/core/pipeline.rs\<close>, \<open>engine/query.rs\<close>,
  \<open>engine/sqlserver_json.rs\<close> and the execution part of \<open>handles/cached_connection.rs\<close>: from a statement to the message of its
  results. The driver behind \<open>odbc_api\<close> is a parameter: what preparing and executing answer, the cursor
  with its metadata and rows, and the answers of \<open>SQLMoreResults\<close>, each with its error values. The
  prepared-statement cache, metrics, tracing and logging of these functions do not affect the result
  and are left out.
\<close>

section \<open>The driver\<close>

type_synonym 'a api = "odbc_api_error + 'a"

definition api :: "'a api \<Rightarrow> 'a result" where
  "api r = (case r of Inl e \<Rightarrow> Err (from_odbc_api e) | Inr x \<Rightarrow> Ok x)"

text \<open>A cursor: its metadata, the rows \<open>next_row\<close> delivers, and the error (if any) it then ends with.\<close>

record cursor =
  cu_num_result_cols :: "i16 api"
  cu_col_name :: "u16 \<Rightarrow> string api"
  cu_col_data_type :: "u16 \<Rightarrow> data_type api"
  cu_rows :: "cursor_row list"
  cu_end :: "odbc_api_error option"

text \<open>One answer of \<open>SQLMoreResults\<close>; after a success, the column count, the cursor and the row count of the new result.\<close>

datatype advance =
    Adv_NoData
  | Adv_Success "i16 api" cursor "i64 api"
  | Adv_Error odbc_api_error
  | Adv_NeedData
  | Adv_StillExecuting

text \<open>The run of a statement; when the listed answers are used up there is no more data.\<close>

record stmt_run =
  sr_execute :: "cursor option api"
  sr_row_count :: "usize option api"
  sr_more :: "advance list"

section \<open>From a cursor to a row buffer\<close>

definition read_columns :: "(i16 \<Rightarrow> odbc_type) \<Rightarrow> cursor \<Rightarrow> column_metadata list result" where
  "read_columns map_type cu =
     obind (api (cu_num_result_cols cu)) (\<lambda>cols_i16.
     obind (if sint cols_i16 < 0 then Err (InternalError ''Invalid column count'') else Ok (unat cols_i16)) (\<lambda>cols.
     omapM (\<lambda>col_idx.
       obind (api (cu_col_name cu (of_nat col_idx))) (\<lambda>col_name.
       obind (api (cu_col_data_type cu (of_nat col_idx))) (\<lambda>col_type.
       Ok \<lparr>cm_name = col_name, cm_odbc_type = map_type (sql_type_code_from_data_type col_type)\<rparr>)))
       [1..<Suc cols]))"

definition read_row_cells :: "odbc_type list \<Rightarrow> cursor_row \<Rightarrow> cell list result" where
  "read_row_cells types row =
     omapM (\<lambda>(col_idx, t).
       obind (ok_or (try_u16 (col_idx + 1)) (InternalError ''Invalid column number'')) (\<lambda>col_number.
       read_cell_bytes row col_number t)) (enumerate 0 types)"

text \<open>\<^verbatim>\<open>while let Some(mut row) = cursor.next_row()? { .. }\<close>\<close>

fun read_rows :: "odbc_type list \<Rightarrow> cursor_row list \<Rightarrow> odbc_api_error option \<Rightarrow> row_buffer \<Rightarrow> row_buffer result" where
  "read_rows types [] e b = (case e of None \<Rightarrow> Ok b | Some e \<Rightarrow> Err (from_odbc_api e))"
| "read_rows types (row # rows) e b =
     obind (read_row_cells types row) (\<lambda>row_data. read_rows types rows e (add_row row_data b))"

definition fill_row_buffer :: "(i16 \<Rightarrow> odbc_type) \<Rightarrow> cursor \<Rightarrow> row_buffer result" where
  "fill_row_buffer map_type cu =
     obind (read_columns map_type cu) (\<lambda>cols.
     read_rows (map cm_odbc_type cols) (cu_rows cu) (cu_end cu)
       (foldl (\<lambda>b c. add_column (cm_name c) (cm_odbc_type c) b) row_buffer_new cols))"

subsection \<open>FOR JSON\<close>

definition SQLSERVER_FOR_JSON_COLUMN_NAME :: string where
  "SQLSERVER_FOR_JSON_COLUMN_NAME = ''JSON_F52E2B61-18A1-11D1-B105-00805F49916B''"

definition is_for_json_result :: "row_buffer \<Rightarrow> bool" where
  "is_for_json_result b \<longleftrightarrow>
     column_count b = 1 \<and>
     (case rb_columns b of
        c # _ \<Rightarrow> to_ascii_lowercase (cm_name c) = to_ascii_lowercase SQLSERVER_FOR_JSON_COLUMN_NAME
      | [] \<Rightarrow> False)"

fun json_loop :: "cell list list \<Rightarrow> bool \<Rightarrow> bytes \<Rightarrow> bool \<times> bytes" where
  "json_loop [] all_null acc = (all_null, acc)"
| "json_loop (row # rows) all_null acc =
     (case row of
        Some chunk # _ \<Rightarrow> json_loop rows False (acc @ chunk)
      | _ \<Rightarrow> json_loop rows all_null acc)"

definition coalesce_for_json_rows :: "row_buffer \<Rightarrow> row_buffer" where
  "coalesce_for_json_rows b =
     (if \<not> is_for_json_result b then b
      else if rb_rows b = [] then b
      else
        (let (all_null, concatenated) = json_loop (rb_rows b) True [] in
         b\<lparr>rb_rows := [[if all_null then None else Some concatenated]],
           rb_columns := (case rb_columns b of c # cs \<Rightarrow> c\<lparr>cm_odbc_type := Json\<rparr> # cs | [] \<Rightarrow> [])\<rparr>))"

section \<open>The execution engine\<close>

record plugin =
  pl_name :: string
  pl_optimize_query :: "string \<Rightarrow> string"
  pl_map_type :: "i16 \<Rightarrow> odbc_type"

record execution_engine =
  use_columnar :: bool
  use_compression :: bool
  active_plugin :: "plugin option"

definition engine_new :: execution_engine where
  "engine_new = \<lparr>use_columnar = False, use_compression = False, active_plugin = None\<rparr>"

definition with_columnar :: "bool \<Rightarrow> execution_engine" where
  "with_columnar compression = \<lparr>use_columnar = True, use_compression = compression, active_plugin = None\<rparr>"

definition optimize_query :: "execution_engine \<Rightarrow> string \<Rightarrow> string" where
  "optimize_query eng sql = (case active_plugin eng of Some p \<Rightarrow> pl_optimize_query p sql | None \<Rightarrow> sql)"

definition engine_map_type :: "execution_engine \<Rightarrow> i16 \<Rightarrow> odbc_type" where
  "engine_map_type eng code =
     (case active_plugin eng of Some p \<Rightarrow> pl_map_type p code | None \<Rightarrow> from_odbc_sql_type code)"

text \<open>The end of every path: columnar, or row-major with the panicking encoder.\<close>

definition encode_body :: "compressors \<Rightarrow> execution_engine \<Rightarrow> row_buffer \<Rightarrow> bytes result" where
  "encode_body cz eng b =
     (if use_columnar eng then columnar_encode cz (row_buffer_to_columnar b) (use_compression eng) else encode b)"

definition encode_cursor :: "compressors \<Rightarrow> execution_engine \<Rightarrow> cursor \<Rightarrow> bytes result" where
  "encode_cursor cz eng cu =
     obind (fill_row_buffer (engine_map_type eng) cu) (\<lambda>b. encode_body cz eng (coalesce_for_json_rows b))"

definition encode_cursor_v1 :: "execution_engine \<Rightarrow> cursor \<Rightarrow> bytes result" where
  "encode_cursor_v1 eng cu =
     obind (fill_row_buffer (engine_map_type eng) cu) (\<lambda>b. encode (coalesce_for_json_rows b))"

text \<open>What follows \<open>execute\<close> in the single-result paths: no cursor leaves the buffer empty.\<close>

definition result_buffer :: "(i16 \<Rightarrow> odbc_type) \<Rightarrow> cursor option \<Rightarrow> row_buffer result" where
  "result_buffer map_type c = (case c of Some cu \<Rightarrow> fill_row_buffer map_type cu | None \<Rightarrow> Ok row_buffer_new)"

text \<open>\<open>conn.prepare(sql)\<close>, then \<open>stmt.execute(params)\<close> with input strings.\<close>

type_synonym prepared = "string option list \<Rightarrow> stmt_run"

definition execute_query_inner ::
  "compressors \<Rightarrow> execution_engine \<Rightarrow> (string \<Rightarrow> prepared api) \<Rightarrow> string \<Rightarrow> bytes result"
where
  "execute_query_inner cz eng prepare sql =
     obind (api (prepare (optimize_query eng sql))) (\<lambda>stmt.
     obind (api (sr_execute (stmt []))) (\<lambda>c.
     obind (result_buffer (engine_map_type eng) c) (\<lambda>b.
     encode_body cz eng (coalesce_for_json_rows b))))"

definition execute_stmt_to_buffer :: "prepared \<Rightarrow> bytes result" where
  "execute_stmt_to_buffer stmt =
     obind (api (sr_execute (stmt []))) (\<lambda>c. obind (result_buffer from_odbc_sql_type c) encode)"

definition execute_query_no_params :: "(string \<Rightarrow> prepared api) \<Rightarrow> string \<Rightarrow> bytes result" where
  "execute_query_no_params prepare sql = obind (api (prepare sql)) execute_stmt_to_buffer"

definition execute_query_cached :: "execution_engine \<Rightarrow> (string \<Rightarrow> prepared api) \<Rightarrow> string \<Rightarrow> bytes result" where
  "execute_query_cached eng prepare sql = execute_query_no_params prepare (optimize_query eng sql)"

definition execute_query_with_params_inner ::
  "compressors \<Rightarrow> execution_engine \<Rightarrow> (string \<Rightarrow> string option list \<Rightarrow> usize option \<Rightarrow> cursor option api) \<Rightarrow>
   string \<Rightarrow> param_value list \<Rightarrow> usize option \<Rightarrow> bytes result"
where
  "execute_query_with_params_inner cz eng execute sql params timeout_sec =
     obind (param_values_to_strings params) (\<lambda>strings.
     obind (if length strings \<le> 5 then api (execute sql strings timeout_sec)
            else Err (ValidationError (''At most 5 parameters supported, got '' @ show_nat (length strings) @
                   ''. For more parameters or proper NULL handling, use bulk insert operations or direct prepared statements.''))) (\<lambda>c.
     obind (result_buffer (engine_map_type eng) c) (\<lambda>b.
     encode_body cz eng (coalesce_for_json_rows b))))"

subsection \<open>Several results\<close>

definition is_no_more_results :: "odbc_error \<Rightarrow> bool" where
  "is_no_more_results e \<longleftrightarrow> sqlstate e = as_bytes ''02000''"

fun drive_more_results ::
  "compressors \<Rightarrow> execution_engine \<Rightarrow> advance list \<Rightarrow> multi_result_item list \<Rightarrow> multi_result_item list result"
where
  "drive_more_results cz eng [] items = Ok items"
| "drive_more_results cz eng (a # advs) items =
     (case a of
        Adv_NoData \<Rightarrow> Ok items
      | Adv_Error e \<Rightarrow> if is_no_more_results (from_odbc_api e) then Ok items else Err (from_odbc_api e)
      | Adv_NeedData \<Rightarrow> Err (OdbcApi ''Unexpected SQLMoreResults state: NeedData'')
      | Adv_StillExecuting \<Rightarrow> Err (OdbcApi ''Unexpected SQLMoreResults state: StillExecuting'')
      | Adv_Success cols cu rc \<Rightarrow>
          obind (api cols) (\<lambda>n.
          if sint n > 0 then
            obind (encode_cursor cz eng cu) (\<lambda>enc. drive_more_results cz eng advs (items @ [MR_ResultSet enc]))
          else obind (api rc) (\<lambda>rc. drive_more_results cz eng advs (items @ [MR_RowCount rc]))))"

text \<open>\<open>row_count()?.map(|n| n as i64).unwrap_or(0)\<close>\<close>

definition initial_row_count :: "stmt_run \<Rightarrow> i64 result" where
  "initial_row_count run = omap (\<lambda>n. case n of Some n \<Rightarrow> of_nat n | None \<Rightarrow> 0) (api (sr_row_count run))"

definition collect_results :: "compressors \<Rightarrow> execution_engine \<Rightarrow> stmt_run \<Rightarrow> multi_result_item list result" where
  "collect_results cz eng run =
     obind (api (sr_execute run)) (\<lambda>c.
     obind (case c of
              Some cu \<Rightarrow> omap MR_ResultSet (encode_cursor cz eng cu)
            | None \<Rightarrow> omap MR_RowCount (initial_row_count run)) (\<lambda>first.
     drive_more_results cz eng (sr_more run) [first]))"

definition execute_multi_result_inner ::
  "compressors \<Rightarrow> execution_engine \<Rightarrow> (string \<Rightarrow> prepared api) \<Rightarrow> string \<Rightarrow> bytes result"
where
  "execute_multi_result_inner cz eng prepare sql =
     obind (api (prepare sql)) (\<lambda>stmt. omap encode_multi (collect_results cz eng (stmt [])))"

definition execute_multi_result_with_params_inner ::
  "compressors \<Rightarrow> execution_engine \<Rightarrow> (string \<Rightarrow> prepared api) \<Rightarrow> string \<Rightarrow> param_value list \<Rightarrow> bytes result"
where
  "execute_multi_result_with_params_inner cz eng prepare sql params =
     obind (param_values_to_strings params) (\<lambda>strings.
     obind (api (prepare sql)) (\<lambda>stmt.
     if length strings \<le> 5 then omap encode_multi (collect_results cz eng (stmt strings))
     else Err (ValidationError (''At most 5 parameters supported in execute_multi_result_with_params, got '' @
            show_nat (length strings)))))"

section \<open>The pipeline\<close>

text \<open>The characters of a string: the decoding of valid UTF-8.\<close>

fun chars :: "bytes \<Rightarrow> nat list" where
  "chars [] = []"
| "chars (b # bs) =
     (if utf8_char_width b = 2 then
        (case bs of c # r \<Rightarrow> ((unat b - 0xC0) * 64 + (unat c - 0x80)) # chars r | [] \<Rightarrow> [REPLACEMENT])
      else if utf8_char_width b = 3 then
        (case bs of c # d # r \<Rightarrow> ((unat b - 0xE0) * 4096 + (unat c - 0x80) * 64 + (unat d - 0x80)) # chars r
         | _ \<Rightarrow> [REPLACEMENT])
      else if utf8_char_width b = 4 then
        (case bs of c # d # e # r \<Rightarrow>
             ((unat b - 0xF0) * 262144 + (unat c - 0x80) * 4096 + (unat d - 0x80) * 64 + (unat e - 0x80)) # chars r
         | _ \<Rightarrow> [REPLACEMENT])
      else unat b # chars bs)"

text \<open>\<open>str::trim\<close> and \<open>str::trim_end\<close>\<close>

definition str_trim :: "string \<Rightarrow> string" where
  "str_trim t = of_bytes (concat (map encode_utf8 (trim_chars (chars (as_bytes t)))))"

definition str_trim_end :: "string \<Rightarrow> string" where
  "str_trim_end t = of_bytes (concat (map encode_utf8 (rev (dropWhile is_whitespace (rev (chars (as_bytes t)))))))"

definition is_blank :: "string \<Rightarrow> bool" where
  "is_blank s \<longleftrightarrow> trim_chars (chars (as_bytes s)) = []"

definition parse_sql :: "string \<Rightarrow> string result" where
  "parse_sql sql = (if is_blank sql then Err (ValidationError ''SQL query cannot be empty'') else Ok sql)"

record odbc_conn =
  oc_prepare :: "string \<Rightarrow> prepared api"
  oc_execute :: "string \<Rightarrow> string option list \<Rightarrow> usize option \<Rightarrow> cursor option api"

definition execute_direct :: "compressors \<Rightarrow> execution_engine \<Rightarrow> odbc_conn \<Rightarrow> string \<Rightarrow> bytes result" where
  "execute_direct cz eng conn sql =
     obind (parse_sql sql) (\<lambda>plan. execute_query_inner cz eng (oc_prepare conn) plan)"

definition execute_direct_cached :: "execution_engine \<Rightarrow> odbc_conn \<Rightarrow> string \<Rightarrow> bytes result" where
  "execute_direct_cached eng conn sql =
     obind (parse_sql sql) (\<lambda>_. execute_query_cached eng (oc_prepare conn) sql)"

definition execute_with_params_and_timeout ::
  "compressors \<Rightarrow> execution_engine \<Rightarrow> odbc_conn \<Rightarrow> string \<Rightarrow> param_value list \<Rightarrow> usize option \<Rightarrow> bytes result"
where
  "execute_with_params_and_timeout cz eng conn sql params timeout_sec =
     obind (parse_sql sql) (\<lambda>_. execute_query_with_params_inner cz eng (oc_execute conn) sql params timeout_sec)"

definition execute_with_params ::
  "compressors \<Rightarrow> execution_engine \<Rightarrow> odbc_conn \<Rightarrow> string \<Rightarrow> param_value list \<Rightarrow> bytes result"
where
  "execute_with_params cz eng conn sql params =
     obind (parse_sql sql) (\<lambda>_. execute_query_with_params_inner cz eng (oc_execute conn) sql params None)"

definition execute_multi :: "compressors \<Rightarrow> execution_engine \<Rightarrow> odbc_conn \<Rightarrow> string \<Rightarrow> bytes result" where
  "execute_multi cz eng conn sql =
     obind (parse_sql sql) (\<lambda>_. execute_multi_result_inner cz eng (oc_prepare conn) sql)"

definition execute_multi_with_params ::
  "compressors \<Rightarrow> execution_engine \<Rightarrow> odbc_conn \<Rightarrow> string \<Rightarrow> param_value list \<Rightarrow> bytes result"
where
  "execute_multi_with_params cz eng conn sql params =
     obind (parse_sql sql) (\<lambda>_. execute_multi_result_with_params_inner cz eng (oc_prepare conn) sql params)"

section \<open>A filled buffer is rectangular\<close>

lemma api_simps [simp]: "api (Inr x) = Ok x" "api (Inl e) = Err (from_odbc_api e)"
  by (simp_all add: api_def)

lemma api_Ok_iff [simp]: "api r = Ok x \<longleftrightarrow> r = Inr x"
  by (cases r) simp_all

lemma api_not_Panic [simp]: "api r \<noteq> Panic"
  by (cases r) simp_all

lemma omapM_length: "omapM f xs = Ok ys \<Longrightarrow> length ys = length xs"
  by (simp add: omapM_Ok_list_all2 list_all2_lengthD)

lemma add_columns_fold:
  "foldl (\<lambda>b c. add_column (cm_name c) (cm_odbc_type c) b) b cols = b\<lparr>rb_columns := rb_columns b @ cols\<rparr>"
  by (induction cols arbitrary: b) (simp_all add: add_column_def)

lemma read_rows_spec:
  "read_rows types rows e b = Ok b' \<longleftrightarrow>
     e = None \<and> (\<exists>cells. list_all2 (\<lambda>row cs. read_row_cells types row = Ok cs) rows cells \<and>
       b' = b\<lparr>rb_rows := rb_rows b @ cells\<rparr>)"
proof (induction rows arbitrary: b)
  case Nil
  then show ?case by (cases e) auto
next
  case (Cons row rows)
  then show ?case by (auto simp: list_all2_Cons1 add_row_def)
qed

lemma fill_row_buffer_spec:
  "fill_row_buffer map_type cu = Ok b \<longleftrightarrow>
     cu_end cu = None \<and> read_columns map_type cu = Ok (rb_columns b) \<and>
     list_all2 (\<lambda>row cs. read_row_cells (map cm_odbc_type (rb_columns b)) row = Ok cs) (cu_rows cu) (rb_rows b)"
  by (cases b) (auto simp: fill_row_buffer_def read_rows_spec add_columns_fold row_buffer_new_def)

lemma read_row_cells_length: "read_row_cells types row = Ok cs \<Longrightarrow> length cs = length types"
  by (auto simp: read_row_cells_def dest: omapM_length)

lemma fill_row_buffer_rectangular:
  assumes "fill_row_buffer map_type cu = Ok b"
  shows "list_all (\<lambda>r. length r = column_count b) (rb_rows b)" and "row_count b = length (cu_rows cu)"
  using assms read_row_cells_length
  by (fastforce simp: fill_row_buffer_spec list_all_iff column_count_def row_count_def list_all2_conv_all_nth
      in_set_conv_nth)+

lemma read_row_cells_not_Panic: "read_row_cells types row \<noteq> Panic"
  by (auto simp: read_row_cells_def read_cell_not_Panic intro!: omapM_not_Panic)

lemma fill_row_buffer_not_Panic: "fill_row_buffer map_type cu \<noteq> Panic"
proof -
  have "read_rows types rows e b \<noteq> Panic" for types rows e b
    by (induction rows arbitrary: b) (auto simp: read_row_cells_not_Panic split: option.splits)
  moreover have "read_columns map_type cu \<noteq> Panic"
    by (auto simp: read_columns_def intro!: omapM_not_Panic)
  ultimately show ?thesis by (auto simp: fill_row_buffer_def)
qed

section \<open>FOR JSON results\<close>

definition json_chunks :: "cell list list \<Rightarrow> bytes list" where
  "json_chunks rows = concat (map (\<lambda>row. case row of Some c # _ \<Rightarrow> [c] | _ \<Rightarrow> []) rows)"

lemma json_loop_chunks: "json_loop rows n acc = (n \<and> json_chunks rows = [], acc @ concat (json_chunks rows))"
  by (induction rows n acc rule: json_loop.induct) (auto simp: json_chunks_def split: list.splits option.splits)

lemma coalesce_shape:
  "list_all (\<lambda>r. length r = column_count b) (rb_rows b) \<Longrightarrow>
     column_count (coalesce_for_json_rows b) = column_count b \<and>
     list_all (\<lambda>r. length r = column_count b) (rb_rows (coalesce_for_json_rows b))"
  by (auto simp: coalesce_for_json_rows_def is_for_json_result_def column_count_def split: list.splits prod.splits)

lemma is_for_json_coalesce [simp]: "is_for_json_result (coalesce_for_json_rows b) \<longleftrightarrow> is_for_json_result b"
  by (auto simp: coalesce_for_json_rows_def is_for_json_result_def column_count_def split: list.splits prod.splits)

text \<open>
  Coalescing a SQL Server \<open>FOR JSON\<close> result: a result of any other shape, or without rows, is left
  as it is; otherwise one row remains, whose cell is the concatenation of the non-NULL chunks in fetch
  order (NULL when there is none), typed as JSON, and coalescing again changes nothing.
\<close>

theorem coalesce_for_json_spec:
  "coalesce_for_json_rows b =
     (if is_for_json_result b \<and> rb_rows b \<noteq> []
      then b\<lparr>rb_rows := [[if json_chunks (rb_rows b) = [] then None else Some (concat (json_chunks (rb_rows b)))]],
             rb_columns := map (\<lambda>c. c\<lparr>cm_odbc_type := Json\<rparr>) (rb_columns b)\<rparr>
      else b) \<and>
   coalesce_for_json_rows (coalesce_for_json_rows b) = coalesce_for_json_rows b"
proof -
  have one: "coalesce_for_json_rows b =
     (if is_for_json_result b \<and> rb_rows b \<noteq> []
      then b\<lparr>rb_rows := [[if json_chunks (rb_rows b) = [] then None else Some (concat (json_chunks (rb_rows b)))]],
             rb_columns := map (\<lambda>c. c\<lparr>cm_odbc_type := Json\<rparr>) (rb_columns b)\<rparr>
      else b)" for b
    by (auto simp: coalesce_for_json_rows_def json_loop_chunks is_for_json_result_def column_count_def
        split: list.splits)
  have "coalesce_for_json_rows (coalesce_for_json_rows b) = coalesce_for_json_rows b"
  proof (cases "is_for_json_result b \<and> rb_rows b \<noteq> []")
    case False
    then show ?thesis by (auto simp: coalesce_for_json_rows_def)
  next
    case True
    then have "is_for_json_result (coalesce_for_json_rows b)" by simp
    moreover have "rb_rows (coalesce_for_json_rows b) \<noteq> []" using True one[of b] by simp
    ultimately show ?thesis using True
        one[of "coalesce_for_json_rows b"] one[of b] by (simp add: json_chunks_def o_def)
  qed
  with one show ?thesis by blast
qed

section \<open>A query, end to end\<close>

text \<open>What the decoder asks of a buffer apart from its shape: counts, sizes and column names.\<close>

definition within_limits :: "row_buffer \<Rightarrow> bool" where
  "within_limits b \<longleftrightarrow>
     column_count b \<le> MAX_DECODED_COLUMNS \<and> row_count b \<le> MAX_DECODED_ROWS \<and>
     column_count b * row_count b \<le> MAX_DECODED_CELLS \<and> length (payload_bytes b) \<le> MAX_DECODED_PAYLOAD_SIZE \<and>
     list_all (wf_info \<circ> info_of) (rb_columns b) \<and> list_all (list_all wf_cell) (rb_rows b)"

definition decoded_of :: "row_buffer \<Rightarrow> decoded_result" where
  "decoded_of b =
     \<lparr>dr_columns = map info_of (rb_columns b), dr_rows = rb_rows b, dr_row_count = row_count b, dr_column_count = column_count b\<rparr>"

lemma filled_wf:
  assumes "fill_row_buffer map_type cu = Ok b" and "within_limits (coalesce_for_json_rows b)"
  shows "wf_buffer (coalesce_for_json_rows b)"
  using coalesce_shape[OF fill_row_buffer_rectangular(1)[OF assms(1)]] assms(2)
  by (auto simp: wf_buffer_def within_limits_def list_all_iff)

lemma encode_parse:
  assumes "wf_buffer b"
  shows "encode b = Ok (header_bytes b @ payload_bytes b)" and "parse (header_bytes b @ payload_bytes b) = Ok (decoded_of b)"
  using try_encode_Ok[OF assms] parse_layout[OF assms] by (simp_all add: encode_def decoded_of_def)

text \<open>A table of SQL values, the cursor a driver gives for it, and the cells the client is to receive.\<close>

datatype sql_value = SV_Null | SV_Int i32 | SV_Big i64 | SV_Text string

fun value_wide :: "sql_value \<Rightarrow> u16 list option" where
  "value_wide SV_Null = None"
| "value_wide (SV_Int n) = Some (wide_of_ascii (show_int (sint n)))"
| "value_wide (SV_Big n) = Some (wide_of_ascii (show_int (sint n)))"
| "value_wide (SV_Text s) = Some (wide_of_ascii s)"

fun value_cell :: "sql_value \<Rightarrow> cell" where
  "value_cell SV_Null = None"
| "value_cell (SV_Int n) = Some (u32_le n)"
| "value_cell (SV_Big n) = Some (u64_le n)"
| "value_cell (SV_Text s) = Some (as_bytes s)"

definition column_type :: "data_type \<Rightarrow> odbc_type" where
  "column_type t = from_odbc_sql_type (sql_type_code_from_data_type t)"

fun value_fits :: "odbc_type \<Rightarrow> sql_value \<Rightarrow> bool" where
  "value_fits t SV_Null \<longleftrightarrow> t \<noteq> Binary"
| "value_fits t (SV_Int _) \<longleftrightarrow> t = Integer"
| "value_fits t (SV_Big _) \<longleftrightarrow> t = BigInt"
| "value_fits t (SV_Text s) \<longleftrightarrow> t \<notin> {Integer, BigInt, Binary} \<and> ascii s"

definition table_row :: "sql_value list \<Rightarrow> cursor_row" where
  "table_row r = \<lparr>cr_wide_text = (\<lambda>i. Inr (value_wide (r ! (unat i - 1)))), cr_binary = (\<lambda>_. Inr None)\<rparr>"

definition table_cursor :: "(string \<times> data_type) list \<Rightarrow> sql_value list list \<Rightarrow> cursor" where
  "table_cursor cols rows =
     \<lparr>cu_num_result_cols = Inr (of_nat (length cols)), cu_col_name = (\<lambda>i. Inr (fst (cols ! (unat i - 1)))),
      cu_col_data_type = (\<lambda>i. Inr (snd (cols ! (unat i - 1)))), cu_rows = map table_row rows, cu_end = None\<rparr>"

definition table_ok :: "(string \<times> data_type) list \<Rightarrow> sql_value list list \<Rightarrow> bool" where
  "table_ok cols rows \<longleftrightarrow> list_all (list_all2 (\<lambda>c v. value_fits (column_type (snd c)) v) cols) rows"

definition table_buffer :: "(string \<times> data_type) list \<Rightarrow> sql_value list list \<Rightarrow> row_buffer" where
  "table_buffer cols rows =
     \<lparr>rb_columns = map (\<lambda>c. \<lparr>cm_name = fst c, cm_odbc_type = column_type (snd c)\<rparr>) cols,
      rb_rows = map (map value_cell) rows\<rparr>"

lemma read_value:
  assumes "value_fits t v" and "cr_wide_text row col = Inr (value_wide v)"
  shows "read_cell_bytes row col t = Ok (value_cell v)"
proof (cases v)
  case SV_Null
  with assms show ?thesis
    by (cases t) (simp_all add: read_cell_bytes_def read_text_def read_i32_as_le_bytes_def read_i64_as_le_bytes_def
        read_wide_text_def)
next
  case (SV_Text s)
  with assms show ?thesis using read_text_wide[of t row col "wide_of_ascii s"] by (simp add: wide_ascii_bytes)
qed (use assms in \<open>simp_all add: read_cell_bytes_def read_i32_decimal read_i64_decimal\<close>)

lemma read_table_row:
  assumes "list_all2 (\<lambda>c v. value_fits (column_type (snd c)) v) cols r" and "length cols < 2 ^ 15"
  shows "read_row_cells (map (column_type \<circ> snd) cols) (table_row r) = Ok (map value_cell r)"
proof -
  have "read_cell_bytes (table_row r) (of_nat (i + 1)) (column_type (snd (cols ! i))) = Ok (value_cell (r ! i))"
    if "i < length cols" for i
  proof (rule read_value)
    show "value_fits (column_type (snd (cols ! i))) (r ! i)" using assms(1) that by (simp add: list_all2_conv_all_nth)
    have "unat (of_nat (i + 1) :: u16) = i + 1" using that assms(2) by (intro unat_of_nat_u16) simp
    then show "cr_wide_text (table_row r) (of_nat (i + 1)) = Inr (value_wide (r ! i))" by (simp add: table_row_def)
  qed
  then show ?thesis
    using assms by (auto simp: read_row_cells_def omapM_Ok_list_all2 list_all2_conv_all_nth enumerate_nth try_u16_def
        simp del: of_nat_Suc)
qed

lemma read_table_columns:
  assumes "length cols < 2 ^ 15"
  shows "read_columns from_odbc_sql_type (table_cursor cols rows) = Ok (rb_columns (table_buffer cols rows))"
proof -
  let ?n = "of_nat (length cols) :: i16"
  have n: "unat ?n = length cols" using assms by simp
  have "\<not> sint ?n < 0" using assms by (simp add: signed_of_nat signed_take_bit_int_eq_self)
  moreover have "unat (of_nat (Suc i) :: u16) - 1 = i" if "i < length cols" for i
    using that assms by (simp del: of_nat_Suc)
  ultimately show ?thesis
    using n by (auto simp: read_columns_def table_cursor_def table_buffer_def omapM_Ok_list_all2 list_all2_conv_all_nth
        column_type_def simp del: of_nat_Suc upt_Suc)
qed

lemma fill_table:
  assumes "table_ok cols rows" and "length cols < 2 ^ 15"
  shows "fill_row_buffer from_odbc_sql_type (table_cursor cols rows) = Ok (table_buffer cols rows)"
proof -
  have "list_all2 (\<lambda>row cs. read_row_cells (map (column_type \<circ> snd) cols) row = Ok cs)
          (map table_row rows) (map (map value_cell) rows)"
    using assms read_table_row by (auto simp: list.rel_map table_ok_def list_all_iff intro!: list.rel_refl_strong)
  then show ?thesis
    using read_table_columns[OF assms(2), of rows] by (simp add: fill_row_buffer_spec table_cursor_def table_buffer_def o_def)
qed

lemma coalesce_other: "\<not> is_for_json_result b \<Longrightarrow> coalesce_for_json_rows b = b"
  by (simp add: coalesce_for_json_rows_def)

lemma engine_new_simps [simp]:
  "optimize_query engine_new sql = sql" "engine_map_type engine_new = from_odbc_sql_type"
  "use_columnar engine_new = False" "encode_body cz engine_new b = encode b"
  by (simp_all add: optimize_query_def engine_map_type_def engine_new_def encode_body_def fun_eq_iff)

text \<open>
  The buffer a table becomes on the paths that coalesce: the table itself, unless its single column has the
  name SQL Server gives to \<open>FOR JSON\<close> output; then, when there are rows, one row with the concatenated text.
\<close>

definition delivered :: "(string \<times> data_type) list \<Rightarrow> sql_value list list \<Rightarrow> row_buffer" where
  "delivered cols rows = coalesce_for_json_rows (table_buffer cols rows)"

lemma delivered_other: "\<not> is_for_json_result (table_buffer cols rows) \<Longrightarrow> delivered cols rows = table_buffer cols rows"
  by (simp add: delivered_def coalesce_other)

lemma delivered_columns: "column_count (delivered cols rows) = length cols"
  by (auto simp: delivered_def coalesce_for_json_rows_def table_buffer_def column_count_def is_for_json_result_def
      split: list.splits prod.splits)

lemma table_buffer_wf:
  assumes "table_ok cols rows" and "within_limits (table_buffer cols rows)"
  shows "wf_buffer (table_buffer cols rows)"
proof -
  have "length cols < 2 ^ 15"
    using assms(2) by (simp add: within_limits_def table_buffer_def column_count_def MAX_DECODED_COLUMNS_def)
  from fill_row_buffer_rectangular(1)[OF fill_table[OF assms(1) this]] assms(2) show ?thesis
    by (auto simp: wf_buffer_def within_limits_def list_all_iff)
qed

lemma delivered_wf:
  assumes "table_ok cols rows" and "within_limits (delivered cols rows)"
  shows "wf_buffer (delivered cols rows)" and "length cols < 2 ^ 15"
    and "fill_row_buffer from_odbc_sql_type (table_cursor cols rows) = Ok (table_buffer cols rows)"
proof -
  show n: "length cols < 2 ^ 15"
    using assms(2) by (simp add: within_limits_def delivered_columns MAX_DECODED_COLUMNS_def)
  from fill_table[OF assms(1) n] show f: "fill_row_buffer from_odbc_sql_type (table_cursor cols rows) = Ok (table_buffer cols rows)" .
  show "wf_buffer (delivered cols rows)" using filled_wf[OF f] assms(2) by (simp add: delivered_def)
qed

lemma decoded_of_inject: "decoded_of a = decoded_of b \<longleftrightarrow> a = b"
proof
  assume eq: "decoded_of a = decoded_of b"
  have "inj info_of" by (rule injI) (metis column_info.select_convs column_metadata.equality info_of_def old.unit.exhaust)
  moreover have "map info_of (rb_columns a) = map info_of (rb_columns b)" using eq by (simp add: decoded_of_def)
  ultimately have "rb_columns a = rb_columns b" by (metis inj_map_eq_map)
  with eq show "a = b" by (simp add: decoded_of_def)
qed simp

lemma message_inject:
  "wf_buffer a \<Longrightarrow> wf_buffer b \<Longrightarrow> header_bytes a @ payload_bytes a = header_bytes b @ payload_bytes b \<longleftrightarrow> a = b"
  using encode_parse(2)[of a] encode_parse(2)[of b] decoded_of_inject[of a b] by (metis outcome.inject(1))

lemma decoded_delivered:
  "decoded_of (delivered cols rows) =
     (if is_for_json_result (table_buffer cols rows) \<and> rows \<noteq> [] then
        \<lparr>dr_columns = map (\<lambda>c. \<lparr>ci_name = fst c, ci_odbc_type = Json\<rparr>) cols,
         dr_rows = [[if json_chunks (map (map value_cell) rows) = [] then None
                     else Some (concat (json_chunks (map (map value_cell) rows)))]],
         dr_row_count = 1, dr_column_count = length cols\<rparr>
      else
        \<lparr>dr_columns = map (\<lambda>c. \<lparr>ci_name = fst c, ci_odbc_type = column_type (snd c)\<rparr>) cols,
         dr_rows = map (map value_cell) rows, dr_row_count = length rows, dr_column_count = length cols\<rparr>)"
  unfolding delivered_def conjunct1[OF coalesce_for_json_spec]
  by (simp add: decoded_of_def table_buffer_def row_count_def column_count_def info_of_def)

text \<open>
  C23. A query, end to end, for the engine the library runs: the driver delivers a table of nulls,
  integers (as decimal text) and ASCII text, within the limits of the decoder (columns, rows, cells, sizes;
  also after joining \<open>FOR JSON\<close> chunks). On the connection's cached path the message decodes to exactly the
  columns and rows of the table, integers as little-endian words. On the direct path it decodes to the same,
  except for a non-empty SQL Server \<open>FOR JSON\<close> result (one column of that name), which is
  delivered as one row holding the concatenation of its non-null chunks, typed as JSON. The two messages are
  equal exactly when joining leaves the table as it is, and always when the result is not \<open>FOR JSON\<close>; the
  cached path delivers a \<open>FOR JSON\<close> text in its chunks.
\<close>

theorem select_end_to_end:
  assumes "\<not> is_blank sql" and "oc_prepare conn sql = Inr stmt"
    and "sr_execute (stmt []) = Inr (Some (table_cursor cols rows))"
    and "table_ok cols rows" and "within_limits (table_buffer cols rows)" and "within_limits (delivered cols rows)"
  shows "\<exists>msg cached. execute_direct cz engine_new conn sql = Ok msg \<and> execute_direct_cached engine_new conn sql = Ok cached \<and>
     parse cached = Ok \<lparr>dr_columns = map (\<lambda>c. \<lparr>ci_name = fst c, ci_odbc_type = column_type (snd c)\<rparr>) cols,
       dr_rows = map (map value_cell) rows, dr_row_count = length rows, dr_column_count = length cols\<rparr> \<and>
     parse msg =
       (if is_for_json_result (table_buffer cols rows) \<and> rows \<noteq> [] then
          Ok \<lparr>dr_columns = map (\<lambda>c. \<lparr>ci_name = fst c, ci_odbc_type = Json\<rparr>) cols,
            dr_rows = [[if json_chunks (map (map value_cell) rows) = [] then None
                        else Some (concat (json_chunks (map (map value_cell) rows)))]],
            dr_row_count = 1, dr_column_count = length cols\<rparr>
        else parse cached) \<and>
     (msg = cached \<longleftrightarrow> delivered cols rows = table_buffer cols rows) \<and>
     (\<not> is_for_json_result (table_buffer cols rows) \<longrightarrow> msg = cached)"
proof -
  let ?b = "table_buffer cols rows" and ?c = "delivered cols rows"
  note wf = delivered_wf[OF assms(4,6)] and wfb = table_buffer_wf[OF assms(4,5)]
  have run: "execute_direct cz engine_new conn sql = Ok (header_bytes ?c @ payload_bytes ?c)"
    "execute_direct_cached engine_new conn sql = Ok (header_bytes ?b @ payload_bytes ?b)"
    using assms(1-3) wf(3) by (simp_all add: encode_parse(1)[OF wf(1)] encode_parse(1)[OF wfb] delivered_def[symmetric]
        execute_direct_def execute_direct_cached_def parse_sql_def execute_query_inner_def
        execute_query_cached_def execute_query_no_params_def execute_stmt_to_buffer_def result_buffer_def)
  have b: "decoded_of ?b = \<lparr>dr_columns = map (\<lambda>c. \<lparr>ci_name = fst c, ci_odbc_type = column_type (snd c)\<rparr>) cols,
       dr_rows = map (map value_cell) rows, dr_row_count = length rows, dr_column_count = length cols\<rparr>"
    by (simp add: decoded_of_def table_buffer_def row_count_def column_count_def info_of_def)
  have eq: "header_bytes ?c @ payload_bytes ?c = header_bytes ?b @ payload_bytes ?b \<longleftrightarrow> ?c = ?b"
    by (rule message_inject[OF wf(1) wfb])
  note pb = encode_parse(2)[OF wfb, unfolded b] and pc = encode_parse(2)[OF wf(1), unfolded decoded_delivered]
  show ?thesis
  proof (intro exI conjI)
    show "parse (header_bytes ?c @ payload_bytes ?c) =
       (if is_for_json_result (table_buffer cols rows) \<and> rows \<noteq> [] then
          Ok \<lparr>dr_columns = map (\<lambda>c. \<lparr>ci_name = fst c, ci_odbc_type = Json\<rparr>) cols,
            dr_rows = [[if json_chunks (map (map value_cell) rows) = [] then None
                        else Some (concat (json_chunks (map (map value_cell) rows)))]],
            dr_row_count = 1, dr_column_count = length cols\<rparr>
        else parse (header_bytes ?b @ payload_bytes ?b))"
      unfolding pb pc by (rule if_distrib)
    show "\<not> is_for_json_result (table_buffer cols rows) \<longrightarrow>
        header_bytes ?c @ payload_bytes ?c = header_bytes ?b @ payload_bytes ?b"
      using eq delivered_other by simp
  qed (fact run pb eq)+
qed

definition example_conn :: "cursor option api \<Rightarrow> advance list \<Rightarrow> odbc_conn" where
  "example_conn c advs =
     \<lparr>oc_prepare = (\<lambda>_. Inr (\<lambda>_. \<lparr>sr_execute = c, sr_row_count = Inr (Some 3), sr_more = advs\<rparr>)),
      oc_execute = (\<lambda>_ _ _. c)\<rparr>"

definition example_cols :: "(string \<times> data_type) list" where
  "example_cols = [(''id'', DT_Integer), (''note'', DT_Other)]"

definition example_rows :: "sql_value list list" where
  "example_rows = [[SV_Int 7, SV_Null], [SV_Null, SV_Text ''hi'']]"

lemma chars_ascii: "ascii s \<Longrightarrow> chars (as_bytes s) = map of_char s"
  by (induction s) (auto simp: ascii_def as_bytes_def utf8_char_width_def word_less_nat_alt unat_byte_of)

lemma trim_chars_eq_Nil: "trim_chars cs = [] \<longleftrightarrow> list_all is_whitespace cs"
  by (induction cs) (auto simp: trim_chars_def dropWhile_eq_Nil_conv list_all_iff dest: set_dropWhileD)

lemma is_blank_ascii: "ascii s \<Longrightarrow> is_blank s \<longleftrightarrow> list_all (\<lambda>c. is_whitespace (of_char c)) s"
  by (simp add: is_blank_def chars_ascii trim_chars_eq_Nil list.pred_map o_def)

lemma example_table_ok:
  "table_ok example_cols example_rows" "within_limits (table_buffer example_cols example_rows)"
  "within_limits (delivered example_cols example_rows)" "\<not> is_blank ''SELECT''"
  "delivered example_cols example_rows = table_buffer example_cols example_rows"
proof -
  show "table_ok example_cols example_rows"
    by (simp add: table_ok_def example_cols_def example_rows_def column_type_def from_odbc_sql_type_def ascii_def)
  have "\<not> is_for_json_result (table_buffer example_cols example_rows)"
    by (simp add: is_for_json_result_def table_buffer_def example_cols_def column_count_def)
  then show same: "delivered example_cols example_rows = table_buffer example_cols example_rows" by (rule delivered_other)
  show "\<not> is_blank ''SELECT''" by (simp add: is_blank_ascii ascii_def is_whitespace_def)
  show "within_limits (table_buffer example_cols example_rows)" "within_limits (delivered example_cols example_rows)"
    unfolding same by (simp_all add: within_limits_def table_buffer_def example_cols_def example_rows_def column_count_def row_count_def
        payload_bytes_def row_bytes_def byte_simps info_of_def wf_info_def wf_cell_def valid_str_ascii ascii_def
        decoder_limits)
qed

theorem select_end_to_end_witness:
  "\<exists>msg. execute_direct rle engine_new (example_conn (Inr (Some (table_cursor example_cols example_rows))) []) ''SELECT'' = Ok msg \<and>
     parse msg = Ok \<lparr>dr_columns = [\<lparr>ci_name = ''id'', ci_odbc_type = Integer\<rparr>, \<lparr>ci_name = ''note'', ci_odbc_type = Varchar\<rparr>],
       dr_rows = [[Some (u32_le 7), None], [None, Some (as_bytes ''hi'')]], dr_row_count = 2, dr_column_count = 2\<rparr>"
proof -
  have "map (\<lambda>c. \<lparr>ci_name = fst c, ci_odbc_type = column_type (snd c)\<rparr>) example_cols =
      [\<lparr>ci_name = ''id'', ci_odbc_type = Integer\<rparr>, \<lparr>ci_name = ''note'', ci_odbc_type = Varchar\<rparr>]"
    "map (map value_cell) example_rows = [[Some (u32_le 7), None], [None, Some (as_bytes ''hi'')]]"
    "length example_rows = 2" "length example_cols = 2"
    by (simp_all add: example_cols_def example_rows_def column_type_def from_odbc_sql_type_def)
  moreover have "oc_prepare (example_conn (Inr (Some (table_cursor example_cols example_rows))) []) ''SELECT'' =
      Inr (\<lambda>_. \<lparr>sr_execute = Inr (Some (table_cursor example_cols example_rows)), sr_row_count = Inr (Some 3), sr_more = []\<rparr>)"
    by (simp add: example_conn_def)
  note select_end_to_end[OF example_table_ok(4) this _ example_table_ok(1-3), of rle]
  ultimately show ?thesis using example_table_ok(5) by auto
qed

section \<open>A batch of results, end to end\<close>

lemma encode_item_bound: "wf_item i \<Longrightarrow> length (encode_item i) \<le> MAX_MULTI_RESULT_PAYLOAD + 5"
  by (cases i) (simp_all add: MAX_MULTI_RESULT_PAYLOAD_def)

lemma encode_multi_fits:
  assumes "list_all wf_item items" and "length items \<le> MAX_MULTI_RESULT_ITEMS"
  shows "length (encode_multi items) \<le> 2 ^ 43"
proof -
  have "length (concat (map encode_item items)) \<le> (MAX_MULTI_RESULT_PAYLOAD + 5) * length items"
    using assms(1) by (intro length_concat_map_le encode_item_bound) (simp add: list_all_iff)
  with assms(2) show ?thesis by (simp add: encode_multi_def encode_items_concat multi_consts)
qed

text \<open>A batch as the server produces it: tables and update counts in any order, and how a driver reports it.\<close>

datatype batch_result = BR_Rows "(string \<times> data_type) list" "sql_value list list" | BR_Count nat

fun batch_advance :: "batch_result \<Rightarrow> advance" where
  "batch_advance (BR_Rows cols rows) = Adv_Success (Inr (of_nat (length cols))) (table_cursor cols rows) (Inr 0)"
| "batch_advance (BR_Count n) = Adv_Success (Inr 0) (table_cursor [] []) (Inr (of_nat n))"

fun batch_run :: "batch_result \<Rightarrow> advance list \<Rightarrow> stmt_run" where
  "batch_run (BR_Rows cols rows) advs =
     \<lparr>sr_execute = Inr (Some (table_cursor cols rows)), sr_row_count = Inr None, sr_more = advs\<rparr>"
| "batch_run (BR_Count n) advs = \<lparr>sr_execute = Inr None, sr_row_count = Inr (Some n), sr_more = advs\<rparr>"

text \<open>How the driver may report the end.\<close>

fun batch_end :: "advance list \<Rightarrow> bool" where
  "batch_end [] \<longleftrightarrow> True"
| "batch_end (Adv_NoData # _) \<longleftrightarrow> True"
| "batch_end (Adv_Error e # _) \<longleftrightarrow> is_no_more_results (from_odbc_api e)"
| "batch_end _ \<longleftrightarrow> False"

text \<open>
  The batches the theorems are about: tables with columns whose cells are null, integer or ASCII text, which fit
  the limits of the row decoder and of an item once \<open>FOR JSON\<close> chunks are joined.
\<close>

fun batch_ok :: "batch_result \<Rightarrow> bool" where
  "batch_ok (BR_Rows cols rows) \<longleftrightarrow>
     cols \<noteq> [] \<and> table_ok cols rows \<and> within_limits (delivered cols rows) \<and>
     length (payload_bytes (delivered cols rows)) + 16 \<le> MAX_MULTI_RESULT_PAYLOAD"
| "batch_ok (BR_Count n) \<longleftrightarrow> True"

fun batch_item :: "batch_result \<Rightarrow> multi_result_item" where
  "batch_item (BR_Rows cols rows) =
     MR_ResultSet (header_bytes (delivered cols rows) @ payload_bytes (delivered cols rows))"
| "batch_item (BR_Count n) = MR_RowCount (of_nat n)"

fun item_matches :: "batch_result \<Rightarrow> multi_result_item \<Rightarrow> bool" where
  "item_matches (BR_Rows cols rows) (MR_ResultSet msg) \<longleftrightarrow> parse msg = Ok (decoded_of (delivered cols rows))"
| "item_matches (BR_Count n) (MR_RowCount m) \<longleftrightarrow> m = of_nat n"
| "item_matches _ _ \<longleftrightarrow> False"

lemma encode_table:
  assumes "batch_ok (BR_Rows cols rows)"
  shows "omap MR_ResultSet (encode_cursor cz engine_new (table_cursor cols rows)) = Ok (batch_item (BR_Rows cols rows))"
  using assms delivered_wf[of cols rows] by (simp add: encode_cursor_def delivered_def[symmetric] encode_parse(1))

lemma batch_item_ok:
  "batch_ok r \<Longrightarrow> wf_item (batch_item r)" "batch_ok r \<Longrightarrow> item_matches r (batch_item r)"
  by (cases r; simp add: length_header_bytes delivered_wf encode_parse(2))+

lemma drive_batch:
  "list_all batch_ok rs \<Longrightarrow> batch_end tail \<Longrightarrow>
   drive_more_results cz engine_new (map batch_advance rs @ tail) items = Ok (items @ map batch_item rs)"
proof (induction rs arbitrary: items)
  case Nil
  then show ?case by (cases tail rule: batch_end.cases) simp_all
next
  case (Cons r rs)
  show ?case
  proof (cases r)
    case (BR_Rows cols rows)
    with Cons.prems have ok: "batch_ok (BR_Rows cols rows)" by simp
    then have "length cols < 2 ^ 15" "cols \<noteq> []" using delivered_wf(2)[of cols rows] by auto
    then have "0 < sint (of_nat (length cols) :: i16)" by (simp add: signed_of_nat signed_take_bit_int_eq_self)
    with encode_table[OF ok, of cz] Cons BR_Rows show ?thesis by auto
  next
    case (BR_Count n)
    with Cons show ?thesis by simp
  qed
qed

text \<open>
  C22. A batch of statements, end to end: for a batch of at most 16384 results (the decoder refuses more), each
  an update count or a table of nulls, integers and ASCII text within the limits of the row decoder and of an
  item, whatever the order of result sets and counts (a count first, a count between result sets), and however the
  driver reports the end, the envelope decodes to one item per result in order. Each count is unchanged as a
  64-bit integer; each result set parses to its table, except that a non-empty SQL Server \<open>FOR JSON\<close> result
  parses to the one row of its joined text (\<open>delivered\<close>).
\<close>

theorem batch_end_to_end:
  assumes "\<not> is_blank sql" and "oc_prepare conn sql = Inr stmt"
    and "stmt [] = batch_run r (map batch_advance rs @ tail)" and "batch_end tail"
    and "list_all batch_ok (r # rs)" and "length (r # rs) \<le> MAX_MULTI_RESULT_ITEMS"
  shows "\<exists>msg items. execute_multi cz engine_new conn sql = Ok msg \<and> decode_multi msg = Ok items \<and>
           list_all2 item_matches (r # rs) items"
proof -
  let ?items = "map batch_item (r # rs)"
  have "collect_results cz engine_new (stmt []) = Ok ?items"
    using assms(3-5) drive_batch[of rs tail cz "[batch_item r]"] encode_table[of _ _ cz]
    by (cases r) (auto simp: collect_results_def initial_row_count_def)
  moreover have wf: "list_all wf_item ?items" using assms(5) by (simp add: list_all_iff batch_item_ok)
  moreover have "length ?items \<le> MAX_MULTI_RESULT_ITEMS" using assms(6) by simp
  moreover have "decode_multi (encode_multi ?items @ []) = Ok ?items"
    using encode_multi_fits[of ?items] wf assms(6) by (intro decode_encode_multi) simp_all
  moreover have "list_all2 item_matches (r # rs) ?items"
    using assms(5) by (simp only: list.rel_map) (auto simp: list_all_iff batch_item_ok intro!: list.rel_refl_strong)
  ultimately show ?thesis
    using assms(1,2) by (simp add: execute_multi_def parse_sql_def execute_multi_result_inner_def)
qed

theorem batch_end_to_end_witness:
  "\<exists>msg items. execute_multi rle engine_new (example_conn (Inr None) [batch_advance (BR_Rows example_cols example_rows)]) ''SELECT'' = Ok msg \<and>
     decode_multi msg = Ok items \<and> list_all2 item_matches [BR_Count 3, BR_Rows example_cols example_rows] items"
proof -
  let ?stmt = "\<lambda>_ :: string option list. \<lparr>sr_execute = Inr None, sr_row_count = Inr (Some 3),
    sr_more = [batch_advance (BR_Rows example_cols example_rows)]\<rparr>"
  have "oc_prepare (example_conn (Inr None) [batch_advance (BR_Rows example_cols example_rows)]) ''SELECT'' = Inr ?stmt"
    by (simp add: example_conn_def)
  moreover have "list_all batch_ok [BR_Count 3, BR_Rows example_cols example_rows]"
    using example_table_ok by (simp add: within_limits_def) (simp add: example_cols_def example_rows_def table_buffer_def
        payload_bytes_def row_bytes_def byte_simps info_of_def MAX_MULTI_RESULT_PAYLOAD_def)
  ultimately show ?thesis
    using batch_end_to_end[OF example_table_ok(4), of _ ?stmt "BR_Count 3" "[BR_Rows example_cols example_rows]" "[]"]
    by (simp add: MAX_MULTI_RESULT_ITEMS_def)
qed

section \<open>The cached path does not coalesce\<close>

text \<open>
  The two paths of a plain query, the pipeline's and the connection's cached one, give the same
  message exactly when coalescing leaves the result alone: \<open>execute_stmt_to_buffer\<close> does not coalesce
  \<open>FOR JSON\<close> rows, so a chunked JSON text reaches the client in pieces on that path.
\<close>

theorem cached_path_agrees_iff:
  assumes "\<not> is_blank sql" and "oc_prepare conn sql = Inr stmt" and "sr_execute (stmt []) = Inr (Some cu)"
    and "fill_row_buffer from_odbc_sql_type cu = Ok b" and "within_limits b" and "within_limits (coalesce_for_json_rows b)"
  shows "execute_direct_cached engine_new conn sql = execute_direct cz engine_new conn sql \<longleftrightarrow> coalesce_for_json_rows b = b"
proof -
  let ?c = "coalesce_for_json_rows b"
  have wf: "wf_buffer b" "wf_buffer ?c"
    using assms(5) fill_row_buffer_rectangular(1)[OF assms(4)] filled_wf[OF assms(4,6)]
    by (auto simp: wf_buffer_def within_limits_def list_all_iff)
  have "execute_direct_cached engine_new conn sql = Ok (header_bytes b @ payload_bytes b)"
    "execute_direct cz engine_new conn sql = Ok (header_bytes ?c @ payload_bytes ?c)"
    using assms(1-4) by (simp_all add: encode_parse(1)[OF wf(1)] encode_parse(1)[OF wf(2)] execute_direct_def
        execute_direct_cached_def parse_sql_def execute_query_inner_def execute_query_cached_def
        execute_query_no_params_def execute_stmt_to_buffer_def result_buffer_def)
  moreover have "header_bytes b @ payload_bytes b = header_bytes ?c @ payload_bytes ?c \<longleftrightarrow> ?c = b"
    using message_inject[OF wf] by auto
  ultimately show ?thesis by simp
qed

theorem cached_path_agrees_iff_witness:
  "execute_direct_cached engine_new (example_conn (Inr (Some (table_cursor [(SQLSERVER_FOR_JSON_COLUMN_NAME, DT_Other)]
     [[SV_Text ''[1,''], [SV_Text ''2]'']]))) []) ''SELECT'' \<noteq>
   execute_direct rle engine_new (example_conn (Inr (Some (table_cursor [(SQLSERVER_FOR_JSON_COLUMN_NAME, DT_Other)]
     [[SV_Text ''[1,''], [SV_Text ''2]'']]))) []) ''SELECT''"
proof -
  let ?cols = "[(SQLSERVER_FOR_JSON_COLUMN_NAME, DT_Other)]" and ?rows = "[[SV_Text ''[1,''], [SV_Text ''2]'']]"
  let ?b = "table_buffer ?cols ?rows"
  let ?c = "\<lparr>rb_columns = [\<lparr>cm_name = SQLSERVER_FOR_JSON_COLUMN_NAME, cm_odbc_type = Json\<rparr>], rb_rows = [[Some (as_bytes ''[1,2]'')]]\<rparr>"
  have json: "coalesce_for_json_rows ?b = ?c"
    by (simp add: coalesce_for_json_rows_def is_for_json_result_def table_buffer_def column_count_def as_bytes_def)
  have "ascii SQLSERVER_FOR_JSON_COLUMN_NAME" "length SQLSERVER_FOR_JSON_COLUMN_NAME = 41"
    by (simp_all add: SQLSERVER_FOR_JSON_COLUMN_NAME_def ascii_def)
  then have lim: "within_limits ?b" "within_limits ?c"
    by (simp_all add: within_limits_def table_buffer_def column_count_def row_count_def payload_bytes_def row_bytes_def
        byte_simps info_of_def wf_info_def wf_cell_def valid_str_ascii decoder_limits)
  have fill: "fill_row_buffer from_odbc_sql_type (table_cursor ?cols ?rows) = Ok ?b"
    by (intro fill_table) (simp_all add: table_ok_def column_type_def from_odbc_sql_type_def ascii_def)
  have prep: "oc_prepare (example_conn (Inr (Some (table_cursor ?cols ?rows))) []) ''SELECT'' =
      Inr (\<lambda>_. \<lparr>sr_execute = Inr (Some (table_cursor ?cols ?rows)), sr_row_count = Inr (Some 3), sr_more = []\<rparr>)"
    by (simp add: example_conn_def)
  have "coalesce_for_json_rows ?b \<noteq> ?b" by (simp add: json) (simp add: table_buffer_def)
  with cached_path_agrees_iff[OF example_table_ok(4) prep _ fill, of rle] lim json show ?thesis by simp
qed

end
