(* ===== verification/Calls.thy ===== *)
theory Calls
  imports Query
begin

text \<open>
  \<open>engine/core/output_aware_params.rs\<close>, \<open>engine/core/ref_cursor_oracle.rs\<close>, the directed paths of
  \<open>engine/core/execution_engine.rs\<close> and the request dispatch of \<open>engine/query.rs\<close>: procedure calls with
  output parameters, Oracle reference cursors, and the choice of the path by the parameter buffer.
\<close>

section \<open>Output parameters\<close>

text \<open>
  The bind storage of \<open>output_aware_params.rs\<close> (the variant for platforms other than Windows). A text
  buffer is its bytes and the length indicator, \<open>None\<close> for \<open>NULL\<close>; the driver writes both.
\<close>

record text_box =
  tb_buffer :: bytes
  tb_indicator :: "usize option"

datatype param_slot =
    PS_InText text_box
  | PS_OutI32 "i32 option"
  | PS_OutI64 "i64 option"
  | PS_InOutI32 "i32 option"
  | PS_InOutI64 "i64 option"
  | PS_OutText text_box
  | PS_InOutText text_box

definition OUT_TEXT_MAX_CODE_UNITS :: usize where "OUT_TEXT_MAX_CODE_UNITS = 8000"

text \<open>\<open>as_bytes()\<close> of a receive buffer: the indicated bytes, at most the buffer without its terminating zero.\<close>

definition text_box_bytes :: "text_box \<Rightarrow> bytes option" where
  "text_box_bytes t = map_option (\<lambda>n. take (min n (length (tb_buffer t) - 1)) (tb_buffer t)) (tb_indicator t)"

definition in_text_from_param_value :: "param_value \<Rightarrow> text_box result" where
  "in_text_from_param_value v =
     omap (\<lambda>t. case t of
         None \<Rightarrow> \<lparr>tb_buffer = [], tb_indicator = None\<rparr>
       | Some s \<Rightarrow> \<lparr>tb_buffer = as_bytes s, tb_indicator = Some (length s)\<rparr>) (param_to_string v)"

definition out_text_shell :: text_box where
  "out_text_shell =
     \<lparr>tb_buffer = replicate (OUT_TEXT_MAX_CODE_UNITS + 1) 0, tb_indicator = Some (OUT_TEXT_MAX_CODE_UNITS + 1)\<rparr>"

definition validation_directed :: "string \<Rightarrow> odbc_error" where
  "validation_directed msg = ValidationError (''DIRECTED_PARAM|'' @ msg)"

definition inout_text_from_str :: "string \<Rightarrow> text_box result" where
  "inout_text_from_str s =
     (if length s > OUT_TEXT_MAX_CODE_UNITS then
        Err (validation_directed (''inout_string_too_long: INOUT exceeds '' @ show_nat OUT_TEXT_MAX_CODE_UNITS @ '' bytes''))
      else
        Ok \<lparr>tb_buffer = as_bytes s @ replicate (OUT_TEXT_MAX_CODE_UNITS + 1 - length s) 0,
            tb_indicator = Some (length s)\<rparr>)"

definition decimal_payload :: "string \<Rightarrow> string result" where
  "decimal_payload d =
     (if d = [] then
        Err (validation_directed ''decimal_inout_out_requires_non_empty: use a non-empty ParamValue::Decimal for OUT/INOUT or use String'')
      else Ok d)"

fun slot_of :: "param_direction \<Rightarrow> param_value \<Rightarrow> param_slot result" where
  "slot_of DirInput PV_RefCursorOut =
     Err (validation_directed ''ref_cursor_out_invalid_direction: ParamValue::RefCursorOut is only valid for ParamDirection::output'')"
| "slot_of DirInput v = omap PS_InText (in_text_from_param_value v)"
| "slot_of _ PV_RefCursorOut =
     Err (validation_directed (''ref_cursor_out_bind_not_enabled: ParamValue::RefCursorOut in bound_to_slots; use the Oracle ref-cursor path (strip + more_results) or filter markers first (TYPE_MAPPING '' @ [CHR 0xC2, CHR 0xA7] @ ''3.1.1).''))"
| "slot_of DirOutput PV_Null = Ok (PS_OutI32 None)"
| "slot_of DirOutput (PV_Integer _) = Ok (PS_OutI32 None)"
| "slot_of DirOutput (PV_BigInt _) = Ok (PS_OutI64 None)"
| "slot_of DirOutput (PV_String _) = Ok (PS_OutText out_text_shell)"
| "slot_of DirOutput (PV_Decimal d) = obind (decimal_payload d) (\<lambda>_. Ok (PS_OutText out_text_shell))"
| "slot_of DirInOut (PV_Integer n) = Ok (PS_InOutI32 (Some n))"
| "slot_of DirInOut (PV_BigInt n) = Ok (PS_InOutI64 (Some n))"
| "slot_of DirInOut (PV_String s) = omap PS_InOutText (inout_text_from_str s)"
| "slot_of DirInOut (PV_Decimal d) = obind (decimal_payload d) (\<lambda>d. omap PS_InOutText (inout_text_from_str d))"
| "slot_of DirInOut PV_Null =
     Err (validation_directed ''inout_null: INOUT with ParamValue::Null is not supported; pass Integer, BigInt, String, or non-empty Decimal'')"
| "slot_of _ (PV_Binary _) =
     Err (validation_directed (''binary_out_inout_not_implemented: OUT/INOUT for binary columns is not implemented; use Integer, BigInt, String, or Decimal (see TYPE_MAPPING '' @ [CHR 0xC2, CHR 0xA7] @ ''3.1)''))"

definition bound_to_slots :: "bound_param list \<Rightarrow> param_slot list result" where
  "bound_to_slots bound = omapM (\<lambda>bp. slot_of (bp_direction bp) (bp_value bp)) bound"

text \<open>\<open>String::from_utf8_lossy\<close>: each maximal invalid prefix becomes one replacement character.\<close>

lemma utf8_check_error_len: "utf8_check i bs = Some e \<Longrightarrow> error_len e \<noteq> Some 0"
proof (induction "length bs" arbitrary: i bs rule: less_induct)
  case less
  show ?case
  proof (cases bs)
    case Nil
    with less.prems show ?thesis by simp
  next
    case (Cons b r)
    have IH: "utf8_check j r' \<noteq> Some e" if "length r' < length bs" "error_len e = Some 0" for j r'
      using less.hyps that by blast
    from less.prems show ?thesis
      unfolding Cons utf8_check.simps(2)[of i b r]
      by (auto simp del: utf8_check.simps simp: IH Cons split: if_splits list.splits)
  qed
qed

function from_utf8_lossy :: "bytes \<Rightarrow> bytes" where
  "from_utf8_lossy bs =
     (case utf8_check 0 bs of
        None \<Rightarrow> bs
      | Some e \<Rightarrow>
          take (valid_up_to e) bs @ encode_utf8 REPLACEMENT @
          (case error_len e of None \<Rightarrow> [] | Some n \<Rightarrow> from_utf8_lossy (drop (valid_up_to e + n) bs)))"
  by pat_completeness auto

termination
proof (relation "measure length")
  fix bs e n
  assume "utf8_check 0 bs = Some e" and "error_len e = Some n"
  moreover from this have "bs \<noteq> []" "n \<noteq> 0" using utf8_check_error_len[of 0 bs e] by auto
  ultimately show "(drop (valid_up_to e + n) bs, bs) \<in> measure length" by simp
qed simp

declare from_utf8_lossy.simps [simp del]

definition textbox_to_output_param :: "text_box \<Rightarrow> param_value" where
  "textbox_to_output_param t =
     (case text_box_bytes t of None \<Rightarrow> PV_Null | Some bs \<Rightarrow> PV_String (of_bytes (from_utf8_lossy bs)))"

fun slot_output :: "param_slot \<Rightarrow> param_value list" where
  "slot_output (PS_InText _) = []"
| "slot_output (PS_OutI32 n) = [case n of Some v \<Rightarrow> PV_Integer v | None \<Rightarrow> PV_Null]"
| "slot_output (PS_InOutI32 n) = [case n of Some v \<Rightarrow> PV_Integer v | None \<Rightarrow> PV_Null]"
| "slot_output (PS_OutI64 n) = [case n of Some v \<Rightarrow> PV_BigInt v | None \<Rightarrow> PV_Null]"
| "slot_output (PS_InOutI64 n) = [case n of Some v \<Rightarrow> PV_BigInt v | None \<Rightarrow> PV_Null]"
| "slot_output (PS_OutText t) = [textbox_to_output_param t]"
| "slot_output (PS_InOutText t) = [textbox_to_output_param t]"

definition output_footer_values :: "param_slot list \<Rightarrow> param_value list" where
  "output_footer_values slots = concat (map slot_output slots)"

section \<open>Oracle reference cursors\<close>

definition bound_has_ref_cursor :: "bound_param list \<Rightarrow> bool" where
  "bound_has_ref_cursor bound = list_ex (\<lambda>b. bp_value b = PV_RefCursorOut) bound"

definition filter_non_ref_cursor_params :: "bound_param list \<Rightarrow> bound_param list" where
  "filter_non_ref_cursor_params bound = filter (\<lambda>b. bp_value b \<noteq> PV_RefCursorOut) bound"

definition count_placeholders :: "string \<Rightarrow> usize" where
  "count_placeholders sql = length (filter (\<lambda>c. c = CHR ''?'') sql)"

text \<open>The loop over the parameters; \<open>split_once\<close> at the next placeholder stands for \<open>rest.find('?')\<close>.\<close>

fun strip_loop :: "bound_param list \<Rightarrow> nat \<Rightarrow> string \<Rightarrow> string \<Rightarrow> string result" where
  "strip_loop [] i out rest = Ok (out @ rest)"
| "strip_loop (bp # bps) i out rest =
     (case split_once CHR ''?'' rest of
        None \<Rightarrow> Err (validation_directed (''ref_cursor_oracle_internal: missing '' @ [CHR 39] @ ''?'' @ [CHR 39] @
                  '' for bound parameter '' @ show_nat i))
      | Some (before, after) \<Rightarrow>
          let is_ref = (bp_value bp = PV_RefCursorOut);
              out = out @ (if before \<noteq> [] \<and> is_ref \<and> last before = CHR '','' then butlast before else before) in
          if bp_direction bp = DirInput \<and> is_ref then
            Err (validation_directed ''ref_cursor_out_invalid_direction: ParamValue::RefCursorOut is only valid for ParamDirection::output (or in/out on Oracle)'')
          else
            strip_loop bps (Suc i) (if is_ref then out else out @ ''?'')
              (if is_ref \<and> starts_with after '','' then tl after else after))"

definition strip_ref_cursor_placeholders :: "string \<Rightarrow> bound_param list \<Rightarrow> string result" where
  "strip_ref_cursor_placeholders sql bound =
     (let nq = count_placeholders sql in
      if nq \<noteq> length bound then
        Err (validation_directed (''ref_cursor_oracle_sql_param_count: SQL has '' @ show_nat nq @ '' '' @ [CHR 39] @ ''?'' @
               [CHR 39] @ '' but bound list has '' @ show_nat (length bound) @ '' params''))
      else strip_loop bound 0 [] sql)"

section \<open>Directed parameters\<close>

text \<open>
  The statement handle of the directed paths: preparing or preallocating it, its timeout, executing it
  with bound slots, and what the slots hold once the results are drained.
\<close>

record slot_driver =
  sd_preallocate :: "unit api"
  sd_prepare :: "string \<Rightarrow> unit api"
  sd_set_timeout :: "usize \<Rightarrow> unit api"
  sd_execute :: "string \<Rightarrow> param_slot list \<Rightarrow> stmt_run"
  sd_outputs :: "string \<Rightarrow> param_slot list \<Rightarrow> param_slot list"

definition set_timeout :: "slot_driver \<Rightarrow> usize option \<Rightarrow> unit result" where
  "set_timeout sd timeout_sec = (case timeout_sec of Some s \<Rightarrow> api (sd_set_timeout sd s) | None \<Rightarrow> Ok ())"

text \<open>The buffer of the first result, and its row count when there is no cursor.\<close>

definition first_result :: "execution_engine \<Rightarrow> stmt_run \<Rightarrow> (row_buffer \<times> i64 option) result" where
  "first_result eng run =
     obind (api (sr_execute run)) (\<lambda>c.
     obind (result_buffer (engine_map_type eng) c) (\<lambda>b.
     obind (case c of None \<Rightarrow> omap Some (initial_row_count run) | Some _ \<Rightarrow> Ok None) (\<lambda>rc.
     Ok (b, rc))))"

definition bound_message ::
  "compressors \<Rightarrow> execution_engine \<Rightarrow> row_buffer \<Rightarrow> i64 option \<Rightarrow> multi_result_item list \<Rightarrow> param_value list \<Rightarrow> bytes result"
where
  "bound_message cz eng b initial_rc drain out_vals =
     (if drain = [] then obind (encode_body cz eng b) (\<lambda>body. append_output_footer body out_vals)
      else
        obind (case initial_rc of
                 Some rc \<Rightarrow> Ok (MR_RowCount rc)
               | None \<Rightarrow> omap MR_ResultSet (encode_body cz eng b)) (\<lambda>first_item.
        append_output_footer (encode_multi (first_item # drain)) out_vals))"

definition execute_bound_slots ::
  "compressors \<Rightarrow> execution_engine \<Rightarrow> slot_driver \<Rightarrow> string \<Rightarrow> bound_param list \<Rightarrow> usize option \<Rightarrow> bytes result"
where
  "execute_bound_slots cz eng sd sql bound timeout_sec =
     obind (bound_to_slots bound) (\<lambda>slots.
     obind (api (sd_preallocate sd)) (\<lambda>_.
     obind (set_timeout sd timeout_sec) (\<lambda>_.
     obind (first_result eng (sd_execute sd sql slots)) (\<lambda>(b, initial_rc).
     obind (drive_more_results cz eng (sr_more (sd_execute sd sql slots)) []) (\<lambda>drain.
     bound_message cz eng (coalesce_for_json_rows b) initial_rc drain
       (output_footer_values (sd_outputs sd sql slots)))))))"

definition is_oracle_plugin_active :: "execution_engine \<Rightarrow> bool" where
  "is_oracle_plugin_active eng = (case active_plugin eng of Some p \<Rightarrow> pl_name p = ''oracle'' | None \<Rightarrow> False)"

fun drive_more_ref_cursor_blobs :: "execution_engine \<Rightarrow> advance list \<Rightarrow> bytes list \<Rightarrow> bytes list result" where
  "drive_more_ref_cursor_blobs eng [] out = Ok out"
| "drive_more_ref_cursor_blobs eng (a # advs) out =
     (case a of
        Adv_NoData \<Rightarrow> Ok out
      | Adv_Error e \<Rightarrow> if is_no_more_results (from_odbc_api e) then Ok out else Err (from_odbc_api e)
      | Adv_NeedData \<Rightarrow> Err (OdbcApi ''Unexpected SQLMoreResults state: NeedData (ref cursor)'')
      | Adv_StillExecuting \<Rightarrow> Err (OdbcApi ''Unexpected SQLMoreResults state: StillExecuting (ref cursor)'')
      | Adv_Success cols cu rc \<Rightarrow>
          obind (api cols) (\<lambda>n.
          if sint n > 0 then
            obind (encode_cursor_v1 eng cu) (\<lambda>enc. drive_more_ref_cursor_blobs eng advs (out @ [enc]))
          else obind (api rc) (\<lambda>_. drive_more_ref_cursor_blobs eng advs out)))"

definition execute_oracle_ref_cursor_path ::
  "compressors \<Rightarrow> execution_engine \<Rightarrow> slot_driver \<Rightarrow> string \<Rightarrow> bound_param list \<Rightarrow> usize option \<Rightarrow> bytes result"
where
  "execute_oracle_ref_cursor_path cz eng sd sql bound timeout_sec =
     (let ref_count = length (filter (\<lambda>b. bp_value b = PV_RefCursorOut) bound) in
      obind (strip_ref_cursor_placeholders sql bound) (\<lambda>stripped.
      obind (bound_to_slots (filter_non_ref_cursor_params bound)) (\<lambda>slots.
      obind (api (sd_prepare sd stripped)) (\<lambda>_.
      obind (set_timeout sd timeout_sec) (\<lambda>_.
      obind (api (sr_execute (sd_execute sd stripped slots))) (\<lambda>first.
      obind (case first of Some c \<Rightarrow> omap (\<lambda>enc. [enc]) (encode_cursor_v1 eng c) | None \<Rightarrow> Ok []) (\<lambda>blobs.
      obind (drive_more_ref_cursor_blobs eng (sr_more (sd_execute sd stripped slots)) blobs) (\<lambda>ref_blobs.
      if length ref_blobs \<noteq> ref_count then
        Err (ValidationError (''DIRECTED_PARAM|ref_cursor_oracle_resultset_count: expected '' @ show_nat ref_count @
               '' SYS_REFCURSOR result set(s) from the Oracle driver, found '' @ show_nat (length ref_blobs)))
      else
        obind (encode_body cz eng (coalesce_for_json_rows row_buffer_new)) (\<lambda>main_body.
        obind (append_output_footer main_body (output_footer_values (sd_outputs sd stripped slots))) (\<lambda>body.
        append_ref_cursor_footer body ref_blobs))))))))))"

definition execute_query_with_bound_params_and_timeout ::
  "compressors \<Rightarrow> execution_engine \<Rightarrow> slot_driver \<Rightarrow> string \<Rightarrow> bound_param list \<Rightarrow> usize option \<Rightarrow> bytes result"
where
  "execute_query_with_bound_params_and_timeout cz eng sd sql bound timeout_sec =
     (if bound_has_ref_cursor bound then
        if \<not> is_oracle_plugin_active eng then
          Err (ValidationError ''DIRECTED_PARAM|ref_cursor_out_oracle_only: ParamValue::RefCursorOut is only supported with the Oracle ODBC driver; see doc/notes/REF_CURSOR_ORACLE_ROADMAP.md'')
        else execute_oracle_ref_cursor_path cz eng sd sql bound timeout_sec
      else execute_bound_slots cz eng sd sql bound timeout_sec)"

section \<open>The request dispatch\<close>

definition execute_with_bound_params_and_timeout ::
  "compressors \<Rightarrow> execution_engine \<Rightarrow> slot_driver \<Rightarrow> string \<Rightarrow> bound_param list \<Rightarrow> usize option \<Rightarrow> bytes result"
where
  "execute_with_bound_params_and_timeout cz eng sd sql bound timeout_sec =
     obind (parse_sql sql) (\<lambda>_. execute_query_with_bound_params_and_timeout cz eng sd sql bound timeout_sec)"

definition dispatch_param_buffer ::
  "compressors \<Rightarrow> execution_engine \<Rightarrow> odbc_conn \<Rightarrow> slot_driver \<Rightarrow> string \<Rightarrow> bytes \<Rightarrow> usize option \<Rightarrow> bytes result"
where
  "dispatch_param_buffer cz eng conn sd sql request timeout_sec =
     obind (deserialize_param_buffer request) (\<lambda>l.
     case l of
       Legacy p \<Rightarrow> execute_with_params_and_timeout cz eng conn sql p timeout_sec
     | Directed b \<Rightarrow>
         if list_all (\<lambda>x. bp_direction x = DirInput) b
         then execute_with_params_and_timeout cz eng conn sql (map bp_value b) timeout_sec
         else execute_with_bound_params_and_timeout cz eng sd sql b timeout_sec)"


section \<open>Lossy UTF-8 decoding yields UTF-8\<close>

text \<open>A prefix the validation passes whatever follows, and a text whose first character is in error.\<close>

definition utf8_prefix :: "bytes \<Rightarrow> bool" where
  "utf8_prefix c \<longleftrightarrow> (\<forall>i t. utf8_check i (c @ t) = utf8_check (i + length c) t)"

definition utf8_stuck :: "bytes \<Rightarrow> bool" where
  "utf8_stuck bs \<longleftrightarrow> (\<forall>i. \<exists>l. utf8_check i bs = utf8_err i l)"

lemma utf8_prefix_append: "utf8_prefix a \<Longrightarrow> utf8_prefix b \<Longrightarrow> utf8_prefix (a @ b)"
  by (simp add: utf8_prefix_def add.assoc)

lemma utf8_prefix_valid: "utf8_prefix a \<Longrightarrow> utf8_check i a = None"
  unfolding utf8_prefix_def using append_Nil2 by (metis utf8_check.simps(1))

lemma utf8_step:
  assumes "bs \<noteq> []"
  shows "(\<exists>c r. bs = c @ r \<and> c \<noteq> [] \<and> utf8_prefix c) \<or> utf8_stuck bs"
proof -
  obtain x r where bs: "bs = x # r" using assms by (cases bs) auto
  consider "utf8_char_width x = 1" | "utf8_char_width x = 2" | "utf8_char_width x = 3" | "utf8_char_width x = 4"
    | "utf8_char_width x \<notin> {1, 2, 3, 4}" by auto
  then show ?thesis
  proof cases
    case 1
    then have "utf8_prefix [x]" by (simp add: utf8_prefix_def)
    then show ?thesis unfolding bs by (metis append_Cons append_Nil list.discI)
  next
    case 2
    show ?thesis
    proof (cases "\<exists>c r'. r = c # r' \<and> cont c")
      case True
      then obtain c r' where r: "r = c # r'" "cont c" by blast
      then have "utf8_prefix [x, c]" using 2 by (simp add: utf8_prefix_def)
      with r show ?thesis unfolding bs by (metis append_Cons append_Nil list.discI)
    qed (use 2 in \<open>auto simp: utf8_stuck_def bs split: list.splits\<close>)
  next
    case 3
    show ?thesis
    proof (cases "\<exists>c d r'. r = c # d # r' \<and> second3_ok x c \<and> cont d")
      case True
      then obtain c d r' where r: "r = c # d # r'" "second3_ok x c" "cont d" by blast
      then have "utf8_prefix [x, c, d]" using 3 by (simp add: utf8_prefix_def numeral_3_eq_3)
      with r show ?thesis unfolding bs by (metis append_Cons append_Nil list.discI)
    qed (use 3 in \<open>auto simp: utf8_stuck_def bs split: list.splits\<close>)
  next
    case 4
    show ?thesis
    proof (cases "\<exists>c d e r'. r = c # d # e # r' \<and> second4_ok x c \<and> cont d \<and> cont e")
      case True
      then obtain c d e r' where r: "r = c # d # e # r'" "second4_ok x c" "cont d" "cont e" by blast
      then have "utf8_prefix [x, c, d, e]" using 4 by (simp add: utf8_prefix_def eval_nat_numeral)
      with r show ?thesis unfolding bs by (metis append_Cons append_Nil list.discI)
    qed (use 4 in \<open>auto simp: utf8_stuck_def bs split: list.splits\<close>)
  next
    case 5
    then show ?thesis by (auto simp: utf8_stuck_def bs)
  qed
qed

lemma utf8_split: "\<exists>pre rest. bs = pre @ rest \<and> utf8_prefix pre \<and> (rest = [] \<or> utf8_stuck rest)"
proof (induction "length bs" arbitrary: bs rule: less_induct)
  case less
  show ?case
  proof (cases "bs = [] \<or> utf8_stuck bs")
    case True
    then show ?thesis by (intro exI[of _ "[]"] exI[of _ bs]) (auto simp: utf8_prefix_def)
  next
    case False
    then obtain c r where c: "bs = c @ r" "c \<noteq> []" "utf8_prefix c" using utf8_step by blast
    then obtain pre rest where "r = pre @ rest" "utf8_prefix pre" "rest = [] \<or> utf8_stuck rest"
      using less[of r] by auto
    with c show ?thesis by (intro exI[of _ "c @ pre"] exI[of _ rest]) (simp add: utf8_prefix_append)
  qed
qed

lemma utf8_error_prefix:
  assumes "utf8_check 0 bs = Some e"
  shows "utf8_prefix (take (valid_up_to e) bs)" and "valid_up_to e < length bs"
proof -
  obtain pre rest where s: "bs = pre @ rest" "utf8_prefix pre" "rest = [] \<or> utf8_stuck rest" using utf8_split by blast
  have "utf8_check 0 bs = utf8_check (length pre) rest" using s(1,2) by (simp add: utf8_prefix_def)
  with assms s(3) have "rest \<noteq> []" "valid_up_to e = length pre" by (auto simp: utf8_stuck_def) (metis option.inject utf8_error.select_convs(1))+
  with s show "utf8_prefix (take (valid_up_to e) bs)" "valid_up_to e < length bs" by auto
qed

lemma from_utf8_lossy_valid: "utf8_check i (from_utf8_lossy bs) = None"
proof (induction bs arbitrary: i rule: from_utf8_lossy.induct)
  case (1 bs)
  have repl: "utf8_check j (encode_utf8 REPLACEMENT @ t) = utf8_check (j + length (encode_utf8 REPLACEMENT)) t" for j t
    by (rule utf8_check_encode) (simp add: scalar_def REPLACEMENT_def)
  show ?case
  proof (cases "utf8_check 0 bs")
    case None
    obtain pre rest where s: "bs = pre @ rest" "utf8_prefix pre" "rest = [] \<or> utf8_stuck rest" using utf8_split by blast
    moreover have "utf8_check 0 bs = utf8_check (length pre) rest" using s(1,2) by (simp add: utf8_prefix_def)
    ultimately have "rest = []" using None by (auto simp: utf8_stuck_def dest: spec[of _ "length pre"])
    moreover have "from_utf8_lossy bs = bs" using None by (simp add: from_utf8_lossy.simps[of bs])
    ultimately show ?thesis using s(1,2) by (simp add: utf8_prefix_valid)
  next
    case (Some e)
    note pre = utf8_error_prefix(1)[OF Some]
    show ?thesis
    proof (cases "error_len e")
      case None
      then show ?thesis using Some pre repl[where t = "[]"]
        by (simp add: from_utf8_lossy.simps[of bs] utf8_prefix_def)
    next
      case (Some n)
      with \<open>utf8_check 0 bs = Some e\<close> 1 pre repl show ?thesis
        by (simp add: from_utf8_lossy.simps[of bs] utf8_prefix_def)
    qed
  qed
qed

lemma length_from_utf8_lossy: "length (from_utf8_lossy bs) \<le> 3 * length bs"
proof (induction bs rule: from_utf8_lossy.induct)
  case (1 bs)
  show ?case
  proof (cases "utf8_check 0 bs")
    case None
    then show ?thesis by (simp add: from_utf8_lossy.simps[of bs])
  next
    case (Some e)
    have len: "valid_up_to e < length bs" "length (encode_utf8 REPLACEMENT) = 3"
      using utf8_error_prefix(2)[OF Some] by (simp_all add: encode_utf8_def REPLACEMENT_def)
    show ?thesis
    proof (cases "error_len e")
      case None
      with Some len show ?thesis by (simp add: from_utf8_lossy.simps[of bs])
    next
      case (Some n)
      moreover have "n \<noteq> 0" using utf8_check_error_len[OF \<open>utf8_check 0 bs = Some e\<close>] Some by auto
      moreover note 1[OF \<open>utf8_check 0 bs = Some e\<close> Some]
      ultimately show ?thesis
        using \<open>utf8_check 0 bs = Some e\<close> len by (simp add: from_utf8_lossy.simps[of bs])
    qed
  qed
qed

section \<open>Output parameters are well formed\<close>

text \<open>What the driver may do to a bound slot: write its value, within the buffer it was given.\<close>

fun same_slot :: "param_slot \<Rightarrow> param_slot \<Rightarrow> bool" where
  "same_slot (PS_InText t) (PS_InText t') \<longleftrightarrow> True"
| "same_slot (PS_OutI32 _) (PS_OutI32 _) \<longleftrightarrow> True"
| "same_slot (PS_OutI64 _) (PS_OutI64 _) \<longleftrightarrow> True"
| "same_slot (PS_InOutI32 _) (PS_InOutI32 _) \<longleftrightarrow> True"
| "same_slot (PS_InOutI64 _) (PS_InOutI64 _) \<longleftrightarrow> True"
| "same_slot (PS_OutText t) (PS_OutText t') \<longleftrightarrow> length (tb_buffer t') = length (tb_buffer t)"
| "same_slot (PS_InOutText t) (PS_InOutText t') \<longleftrightarrow> length (tb_buffer t') = length (tb_buffer t)"
| "same_slot _ _ \<longleftrightarrow> False"

lemma textbox_wf:
  assumes "length (tb_buffer t) = OUT_TEXT_MAX_CODE_UNITS + 1"
  shows "wf_param (textbox_to_output_param t)"
proof (cases "text_box_bytes t")
  case None
  then show ?thesis by (simp add: textbox_to_output_param_def)
next
  case (Some bs)
  then have "length bs \<le> 8001" using assms by (auto simp: text_box_bytes_def OUT_TEXT_MAX_CODE_UNITS_def)
  with length_from_utf8_lossy[of bs] have "length (from_utf8_lossy bs) \<le> 24003" by linarith
  with Some show ?thesis
    by (simp add: textbox_to_output_param_def valid_str_def from_utf8_lossy_valid MAX_PARAM_VALUE_PAYLOAD_LEN_def)
qed

lemma slot_output_wf:
  assumes "slot_of d v = Ok s" and "same_slot s s'"
  shows "list_all wf_param (slot_output s') \<and> length (slot_output s') = (if d = DirInput then 0 else 1)"
  using assms
  by (cases "(d, v)" rule: slot_of.cases)
    (auto elim!: same_slot.elims simp: out_text_shell_def inout_text_from_str_def textbox_wf decimal_payload_def
      split: option.splits if_splits)

lemma outputs_wf:
  assumes "bound_to_slots bound = Ok slots" and "list_all2 same_slot slots slots'"
  shows "list_all wf_param (output_footer_values slots')"
    and "length (output_footer_values slots') = length (filter (\<lambda>b. bp_direction b \<noteq> DirInput) bound)"
proof -
  have "list_all wf_param (output_footer_values slots') \<and>
      length (output_footer_values slots') = length (filter (\<lambda>b. bp_direction b \<noteq> DirInput) bound)"
    using assms
  proof (induction bound arbitrary: slots slots')
    case Nil
    then show ?case by (simp add: bound_to_slots_def output_footer_values_def)
  next
    case (Cons b bound)
    from Cons.prems(1) obtain s ss where
      s: "slot_of (bp_direction b) (bp_value b) = Ok s" "bound_to_slots bound = Ok ss" "slots = s # ss"
      by (auto simp: bound_to_slots_def)
    with Cons.prems(2) obtain s' ss' where s': "slots' = s' # ss'" "same_slot s s'" "list_all2 same_slot ss ss'"
      by (auto simp: list_all2_Cons1)
    from Cons.IH[OF s(2) s'(3)] slot_output_wf[OF s(1) s'(2)] s'(1) show ?case
      by (simp add: output_footer_values_def)
  qed
  then show "list_all wf_param (output_footer_values slots')"
    "length (output_footer_values slots') = length (filter (\<lambda>b. bp_direction b \<noteq> DirInput) bound)" by simp_all
qed

section \<open>A procedure call, end to end\<close>

definition output_footer :: "param_value list \<Rightarrow> bytes" where
  "output_footer outs = OUTPUT_FOOTER_MAGIC @ u32_le (of_nat (length outs)) @ concat (map param_bytes outs)"

lemma append_footer:
  assumes "list_all wf_param outs" and "outs \<noteq> []" and "length outs \<le> MAX_PARAM_COUNT"
  shows "append_output_footer body outs = Ok (body @ output_footer outs)"
  using assms output_footer_layout[of outs body]
  by (simp add: append_output_footer_def output_footer_def MAX_PARAM_COUNT_def)

lemma output_footer_bound:
  assumes "list_all wf_param outs" and "length outs \<le> MAX_PARAM_COUNT"
  shows "length (output_footer outs) \<le> 2 ^ 37"
proof -
  have "length (concat (map param_bytes outs)) \<le> 16777221 * length outs"
    using assms(1) wf_param_payload
    by (intro length_concat_map_le) (fastforce simp: list_all_iff MAX_PARAM_VALUE_PAYLOAD_LEN_def)
  with assms(2) show ?thesis by (simp add: output_footer_def OUTPUT_FOOTER_MAGIC_def MAX_PARAM_COUNT_def)
qed

lemma wf_row_buffer_new: "wf_buffer row_buffer_new"
  by (simp add: wf_buffer_def row_buffer_new_def column_count_def row_count_def payload_bytes_def decoder_limits)

text \<open>The first result of a call: the table, or an empty buffer and the count.\<close>

fun first_buffer :: "batch_result \<Rightarrow> row_buffer" where
  "first_buffer (BR_Rows cols rows) = delivered cols rows"
| "first_buffer (BR_Count n) = row_buffer_new"

fun fetched_buffer :: "batch_result \<Rightarrow> row_buffer" where
  "fetched_buffer (BR_Rows cols rows) = table_buffer cols rows"
| "fetched_buffer (BR_Count n) = row_buffer_new"

lemma first_buffer_ok:
  assumes "batch_ok r"
  shows "first_result engine_new (batch_run r advs) =
           Ok (fetched_buffer r, case r of BR_Rows _ _ \<Rightarrow> None | BR_Count n \<Rightarrow> Some (of_nat n))"
    and "wf_buffer (first_buffer r)" and "coalesce_for_json_rows (fetched_buffer r) = first_buffer r"
  using assms delivered_wf wf_row_buffer_new
  by (cases r; force simp: first_result_def result_buffer_def initial_row_count_def coalesce_other delivered_def
      is_for_json_result_def row_buffer_new_def column_count_def)+

lemma bound_message_batch:
  assumes "batch_ok r" and "list_all wf_param outs" and "outs \<noteq> []" and "length outs \<le> MAX_PARAM_COUNT"
  shows "bound_message cz engine_new (first_buffer r) (case r of BR_Rows _ _ \<Rightarrow> None | BR_Count n \<Rightarrow> Some (of_nat n))
           (map batch_item rs) outs =
         Ok ((if rs = [] then header_bytes (first_buffer r) @ payload_bytes (first_buffer r)
              else encode_multi (map batch_item (r # rs))) @ output_footer outs)"
  using append_footer[OF assms(2-4)] encode_parse(1)[OF first_buffer_ok(2)[OF assms(1)]]
  by (cases r) (auto simp: bound_message_def)

text \<open>
  C21. A procedure call with output parameters, end to end. The call has valid parameters, at least one of them
  \<open>OUT\<close> or \<open>INOUT\<close> and none a ref cursor; the driver accepts the buffers and the timeout, returns each slot with
  its type, and reports at most 16384 results, each an update count or a table of nulls, integers and ASCII
  text within the limits of the row decoder and of an item. Then the engine binds the parameters, drains every
  result, and the message is the results followed by the output values, one for each \<open>OUT\<close> and \<open>INOUT\<close>
  parameter; the parameter decoder reads the values behind the results, and the encoder does not panic on
  them. Several results are an envelope that decodes to one item per result in order, a count unchanged as a
  64-bit integer and a result set to its table (\<open>FOR JSON\<close> chunks joined, \<open>delivered\<close>). A single table is a row
  message that decodes to it. A single update count is sent as a row message without columns and rows, so the
  count itself does not reach the client.
\<close>

theorem call_end_to_end:
  assumes "\<not> is_blank sql" and "list_all wf_bound bound" and "length bound \<le> MAX_PARAM_COUNT"
    and "\<not> list_all (\<lambda>b. bp_direction b = DirInput) bound" and "\<not> bound_has_ref_cursor bound"
    and "bound_to_slots bound = Ok slots" and "sd_preallocate sd = Inr ()" and "sd_set_timeout sd = (\<lambda>_. Inr ())"
    and "sd_execute sd sql slots = batch_run r (map batch_advance rs @ tail)" and "batch_end tail"
    and "list_all batch_ok (r # rs)" and "length (r # rs) \<le> MAX_MULTI_RESULT_ITEMS"
    and "list_all2 same_slot slots (sd_outputs sd sql slots)"
  shows "\<exists>body outs. dispatch_param_buffer cz engine_new conn sd sql (directed_bytes bound) timeout = Ok (body @ output_footer outs) \<and>
     outs = output_footer_values (sd_outputs sd sql slots) \<and>
     length outs = length (filter (\<lambda>b. bp_direction b \<noteq> DirInput) bound) \<and>
     deserialize_params (drop (length body + 8) (body @ output_footer outs)) = Ok outs \<and>
     (if rs = [] then
        parse body = Ok (decoded_of (case r of BR_Rows cols rows \<Rightarrow> delivered cols rows | BR_Count _ \<Rightarrow> row_buffer_new))
      else \<exists>items. decode_multi (body @ output_footer outs) = Ok items \<and> list_all2 item_matches (r # rs) items)"
proof -
  let ?outs = "output_footer_values (sd_outputs sd sql slots)" and ?items = "map batch_item (r # rs)"
  let ?body = "if rs = [] then header_bytes (first_buffer r) @ payload_bytes (first_buffer r) else encode_multi ?items"
  note outs = outputs_wf[OF assms(6,13)]
  have "filter (\<lambda>b. bp_direction b \<noteq> DirInput) bound \<noteq> []" using assms(4) by (auto simp: list_all_iff filter_empty_conv)
  then have ne: "?outs \<noteq> []" using outs(2) by auto
  have le: "length ?outs \<le> MAX_PARAM_COUNT"
    using outs(2) order_trans[OF length_filter_le assms(3)] by simp
  have r: "batch_ok r" "list_all batch_ok rs" using assms(11) by simp_all
  have "sr_more (batch_run r (map batch_advance rs @ tail)) = map batch_advance rs @ tail" by (cases r) simp_all
  then have msg: "dispatch_param_buffer cz engine_new conn sd sql (directed_bytes bound) timeout = Ok (?body @ output_footer ?outs)"
    using assms(1,4-9) deserialize_directed[OF assms(2,3)] first_buffer_ok[OF r(1)] drive_batch[OF r(2) assms(10), of cz "[]"]
      bound_message_batch[OF r(1) outs(1) ne le, of cz rs]
    by (simp add: dispatch_param_buffer_def execute_with_bound_params_and_timeout_def parse_sql_def set_timeout_def
        execute_query_with_bound_params_and_timeout_def execute_bound_slots_def split: option.splits)
  have "deserialize_params (concat (map param_bytes ?outs)) = Ok ?outs"
    using params_loop_roundtrip[of ?outs "[]" "[]"] outs(1) le by (simp add: deserialize_params_def)
  then have dec: "deserialize_params (drop (length ?body + 8) (?body @ output_footer ?outs)) = Ok ?outs"
    by (simp add: output_footer_def OUTPUT_FOOTER_MAGIC_def)
  have wf: "list_all wf_item ?items" using assms(11) by (simp add: list_all_iff batch_item_ok)
  have "decode_multi (encode_multi ?items @ output_footer ?outs) = Ok ?items"
    using encode_multi_fits[OF wf] output_footer_bound[OF outs(1) le] wf assms(12)
    by (intro decode_encode_multi) (auto simp: is_known_footer_def starts_with_iff output_footer_def)
  moreover have "list_all2 item_matches (r # rs) ?items"
    using assms(11) by (simp only: list.rel_map) (auto simp: list_all_iff batch_item_ok intro!: list.rel_refl_strong)
  moreover have "parse (header_bytes (first_buffer r) @ payload_bytes (first_buffer r)) = Ok (decoded_of (first_buffer r))"
    by (rule encode_parse(2)[OF first_buffer_ok(2)[OF r(1)]])
  moreover have "first_buffer r = (case r of BR_Rows cols rows \<Rightarrow> delivered cols rows | BR_Count _ \<Rightarrow> row_buffer_new)"
    by (cases r) simp_all
  ultimately show ?thesis
    by (intro exI[of _ ?body] exI[of _ ?outs] conjI msg refl outs(2) dec) auto
qed

definition example_driver :: "batch_result \<Rightarrow> batch_result list \<Rightarrow> slot_driver" where
  "example_driver r rs =
     \<lparr>sd_preallocate = Inr (), sd_prepare = (\<lambda>_. Inr ()), sd_set_timeout = (\<lambda>_. Inr ()),
      sd_execute = (\<lambda>_ _. batch_run r (map batch_advance rs)), sd_outputs = (\<lambda>_ _. [PS_OutI32 (Some 42)])\<rparr>"

theorem call_end_to_end_witness:
  "\<exists>body outs items. dispatch_param_buffer rle engine_new (example_conn (Inr None) []) (example_driver (BR_Count 3) [BR_Rows example_cols example_rows])
       ''SELECT'' (directed_bytes [\<lparr>bp_direction = DirOutput, bp_value = PV_Null\<rparr>]) (Some 5) = Ok (body @ output_footer outs) \<and>
     outs = [PV_Integer 42] \<and> deserialize_params (drop (length body + 8) (body @ output_footer outs)) = Ok outs \<and>
     decode_multi (body @ output_footer outs) = Ok items \<and>
     list_all2 item_matches [BR_Count 3, BR_Rows example_cols example_rows] items"
proof -
  let ?rs = "[BR_Rows example_cols example_rows]" and ?b = "[\<lparr>bp_direction = DirOutput, bp_value = PV_Null\<rparr>]"
  let ?sd = "example_driver (BR_Count 3) ?rs"
  have "bound_to_slots ?b = Ok [PS_OutI32 None]" by (simp add: bound_to_slots_def)
  moreover have "sd_preallocate ?sd = Inr ()" "sd_set_timeout ?sd = (\<lambda>_. Inr ())"
    "sd_execute ?sd ''SELECT'' [PS_OutI32 None] = batch_run (BR_Count 3) (map batch_advance ?rs @ [])"
    "list_all2 same_slot [PS_OutI32 None] (sd_outputs ?sd ''SELECT'' [PS_OutI32 None])"
    "output_footer_values (sd_outputs ?sd ''SELECT'' [PS_OutI32 None]) = [PV_Integer 42]"
    by (simp_all add: example_driver_def output_footer_values_def)
  moreover have "list_all batch_ok (BR_Count 3 # ?rs)"
    using example_table_ok by (simp add: within_limits_def) (simp add: example_cols_def example_rows_def table_buffer_def
        payload_bytes_def row_bytes_def byte_simps info_of_def MAX_MULTI_RESULT_PAYLOAD_def)
  ultimately show ?thesis
    using call_end_to_end[OF example_table_ok(4), of ?b "[PS_OutI32 None]" ?sd "BR_Count 3" ?rs "[]" rle "example_conn (Inr None) []" "Some 5"]
    by (simp add: wf_bound_def MAX_PARAM_COUNT_def bound_has_ref_cursor_def MAX_MULTI_RESULT_ITEMS_def)
qed

section \<open>Requests without outputs\<close>

lemma legacy_not_directed:
  "\<not> is_directed_param_buffer (concat (map param_bytes ps))"
proof (cases ps)
  case (Cons p qs)
  have "param_tag p \<noteq> byte_of CHR ''D''"
    by (cases p) (simp_all add: byte_of_def TAG_NULL_def TAG_STRING_def TAG_INTEGER_def TAG_BIGINT_def TAG_DECIMAL_def
        TAG_BINARY_def TAG_REF_CURSOR_OUT_def)
  then show ?thesis by (simp add: is_directed_param_buffer_def Cons param_bytes_def DRT1_def as_bytes_def)
qed (simp add: is_directed_param_buffer_def)

text \<open>
  A directed request whose parameters are all inputs is executed exactly as the legacy request with
  the same values: same statement text, same strings bound, same result or error.
\<close>

theorem directed_inputs_as_legacy:
  assumes "list_all wf_param ps" and "length ps \<le> MAX_PARAM_COUNT"
  shows "dispatch_param_buffer cz eng conn sd sql (directed_bytes (map (\<lambda>p. \<lparr>bp_direction = DirInput, bp_value = p\<rparr>) ps)) timeout =
         dispatch_param_buffer cz eng conn sd sql (concat (map param_bytes ps)) timeout"
proof -
  let ?bs = "map (\<lambda>p. \<lparr>bp_direction = DirInput, bp_value = p\<rparr>) ps"
  have "deserialize_param_buffer (directed_bytes ?bs) = Ok (Directed ?bs)"
    using assms by (intro deserialize_directed) (auto simp: list_all_iff wf_bound_def)
  moreover have "deserialize_param_buffer (concat (map param_bytes ps)) = Ok (Legacy ps)"
    using params_loop_roundtrip[of ps "[]" "[]"] assms legacy_not_directed[of ps]
    by (cases ps) (auto simp: deserialize_param_buffer_def deserialize_params_def param_bytes_def)
  ultimately show ?thesis by (simp add: dispatch_param_buffer_def o_def list_all_iff)
qed

theorem directed_inputs_as_legacy_witness:
  "dispatch_param_buffer rle engine_new (example_conn (Inr None) []) (example_driver (BR_Count 3) []) ''SELECT''
     (directed_bytes [\<lparr>bp_direction = DirInput, bp_value = PV_Integer 7\<rparr>]) None =
   dispatch_param_buffer rle engine_new (example_conn (Inr None) []) (example_driver (BR_Count 3) []) ''SELECT''
     (param_bytes (PV_Integer 7)) None"
  using directed_inputs_as_legacy[of "[PV_Integer 7]"] by (simp add: MAX_PARAM_COUNT_def)

section \<open>Stripping reference cursors\<close>

lemma split_once_Some: "split_once d s = Some (a, b) \<Longrightarrow> s = a @ d # b \<and> d \<notin> set a"
  by (induction s arbitrary: a) (auto split: if_splits option.splits)

lemma count_placeholders_simps [simp]:
  "count_placeholders [] = 0" "count_placeholders (c # s) = (if c = CHR ''?'' then 1 else 0) + count_placeholders s"
  "count_placeholders (s @ t) = count_placeholders s + count_placeholders t"
  by (simp_all add: count_placeholders_def)

lemma count_placeholders_none: "CHR ''?'' \<notin> set s \<Longrightarrow> count_placeholders s = 0"
  by (auto simp: count_placeholders_def filter_empty_conv)

lemma count_placeholders_pos: "CHR ''?'' \<in> set s \<longleftrightarrow> count_placeholders s \<noteq> 0"
  by (auto simp: count_placeholders_def filter_empty_conv)

lemma strip_loop_count:
  assumes "count_placeholders rest = length bound" and "list_all (\<lambda>b. bp_value b = PV_RefCursorOut \<longrightarrow> bp_direction b \<noteq> DirInput) bound"
  shows "\<exists>s. strip_loop bound i out rest = Ok s \<and>
           count_placeholders s = count_placeholders out + length (filter_non_ref_cursor_params bound)"
  using assms
proof (induction bound arbitrary: i out rest)
  case Nil
  then show ?case by (simp add: filter_non_ref_cursor_params_def)
next
  case (Cons b bound)
  from Cons.prems(1) have "CHR ''?'' \<in> set rest" by (simp add: count_placeholders_pos)
  then obtain before after where sp: "split_once CHR ''?'' rest = Some (before, after)"
    using split_once_None[of "CHR ''?''" rest] by fastforce
  note s = split_once_Some[OF sp]
  have q: "count_placeholders before = 0" "count_placeholders (butlast before) = 0"
    using s by (auto intro!: count_placeholders_none dest: in_set_butlastD)
  let ?ref = "bp_value b = PV_RefCursorOut"
  define out' where "out' = out @ (if before \<noteq> [] \<and> ?ref \<and> last before = CHR '','' then butlast before else before) @
      (if ?ref then [] else ''?'')"
  define rest' where "rest' = (if ?ref \<and> starts_with after '','' then tl after else after)"
  have step: "strip_loop (b # bound) i out rest = strip_loop bound (Suc i) out' rest'"
    using sp Cons.prems(2) by (simp add: Let_def out'_def rest'_def)
  have "count_placeholders after = length bound" using Cons.prems(1) s q by auto
  moreover have "count_placeholders (tl after) = count_placeholders after" if "starts_with after '',''"
    using that by (cases after) auto
  ultimately have "count_placeholders rest' = length bound" by (simp add: rest'_def)
  moreover have "count_placeholders out' = count_placeholders out + (if ?ref then 0 else 1)" using q by (simp add: out'_def)
  ultimately show ?case
    unfolding step using Cons.IH[of rest' "Suc i" out'] Cons.prems(2) by (auto simp: filter_non_ref_cursor_params_def)
qed

text \<open>
  Removing the reference cursors from the text of a call succeeds when the placeholders match the
  parameters and no reference cursor is an input, and leaves exactly one placeholder for each remaining parameter.
\<close>

theorem strip_ref_cursor_count:
  assumes "count_placeholders sql = length bound"
    and "list_all (\<lambda>b. bp_value b = PV_RefCursorOut \<longrightarrow> bp_direction b \<noteq> DirInput) bound"
  shows "\<exists>s. strip_ref_cursor_placeholders sql bound = Ok s \<and>
           count_placeholders s = length (filter_non_ref_cursor_params bound)"
  using strip_loop_count[OF assms, of 0 "[]"] assms(1) by (simp add: strip_ref_cursor_placeholders_def)

theorem strip_ref_cursor_count_witness:
  "\<exists>s. strip_ref_cursor_placeholders ''{call p(?,?)}'' [\<lparr>bp_direction = DirInput, bp_value = PV_Null\<rparr>,
      \<lparr>bp_direction = DirOutput, bp_value = PV_RefCursorOut\<rparr>] = Ok s \<and> count_placeholders s = 1"
  using strip_ref_cursor_count[of "''{call p(?,?)}''" "[\<lparr>bp_direction = DirInput, bp_value = PV_Null\<rparr>,
      \<lparr>bp_direction = DirOutput, bp_value = PV_RefCursorOut\<rparr>]"]
  by (simp add: filter_non_ref_cursor_params_def)

text \<open>A reference cursor between two other parameters: both separators are removed, and the call is malformed.\<close>

lemma strip_ref_cursor_middle:
  "strip_ref_cursor_placeholders ''{call p(?,?,?)}'' [\<lparr>bp_direction = DirInput, bp_value = PV_Null\<rparr>,
      \<lparr>bp_direction = DirOutput, bp_value = PV_RefCursorOut\<rparr>, \<lparr>bp_direction = DirInput, bp_value = PV_Null\<rparr>] =
   Ok ''{call p(??)}''"
  by (simp add: strip_ref_cursor_placeholders_def)

end
