(* ===== verification/Spill.thy ===== *)
theory Spill
  imports Row_Codec
begin

text \<open>
  \<open>engine/core/disk_spill.rs\<close> and the buffer pool of \<open>engine/core/memory_engine.rs\<close>: the byte stream that
  moves to a temporary file once it outgrows its threshold. Files are modelled with their handles: a
  \<open>BufWriter\<close> has a position in its file and a buffer, two handles on one path see each other's writes,
  and creating an existing file truncates it. Every input/output operation takes its outcome from a
  script, so the theorems cover failures anywhere.
\<close>

section \<open>Files\<close>

text \<open>
  \<open>dk_faults\<close> lists the outcomes of the coming operations: \<open>None\<close> is success, as is the end of the
  list; \<open>Some (n, e)\<close> is a failure with text \<open>e\<close>, for a write after \<open>n\<close> bytes. \<open>dk_clock\<close> lists the
  milliseconds the clock shows.
\<close>

record disk =
  dk_files :: "string \<rightharpoonup> bytes"
  dk_faults :: "(nat \<times> string) option list"
  dk_clock :: "nat list"

definition io :: "disk \<Rightarrow> (nat \<times> string) option \<times> disk" where
  "io d = (case dk_faults d of [] \<Rightarrow> (None, d) | f # fs \<Rightarrow> (f, d\<lparr>dk_faults := fs\<rparr>))"

definition now_millis :: "disk \<Rightarrow> nat \<times> disk" where
  "now_millis d = (case dk_clock d of [] \<Rightarrow> (0, d) | t # ts \<Rightarrow> (t, d\<lparr>dk_clock := ts\<rparr>))"

text \<open>Writing at a position: a gap is filled with zeros, later bytes stay. A removed file swallows writes.\<close>

definition put_at :: "nat \<Rightarrow> bytes \<Rightarrow> bytes \<Rightarrow> bytes" where
  "put_at pos bs c = take pos (c @ replicate (pos - length c) 0) @ bs @ drop (pos + length bs) c"

definition file_put :: "string \<Rightarrow> nat \<Rightarrow> bytes \<Rightarrow> disk \<Rightarrow> disk" where
  "file_put p pos bs d =
     (case dk_files d p of
        Some c \<Rightarrow> d\<lparr>dk_files := (dk_files d)(p \<mapsto> put_at pos bs c)\<rparr>
      | None \<Rightarrow> d)"

definition create_file :: "string \<Rightarrow> disk \<Rightarrow> string option \<times> disk" where
  "create_file p d =
     (case io d of
        (None, d) \<Rightarrow> (None, d\<lparr>dk_files := (dk_files d)(p \<mapsto> [])\<rparr>)
      | (Some (n, e), d) \<Rightarrow> (Some e, d))"

definition read_file :: "string \<Rightarrow> disk \<Rightarrow> (string + bytes) \<times> disk" where
  "read_file p d =
     (case io d of
        (None, d) \<Rightarrow> (case dk_files d p of Some c \<Rightarrow> (Inr c, d) | None \<Rightarrow> (Inl ''No such file or directory (os error 2)'', d))
      | (Some (n, e), d) \<Rightarrow> (Inl e, d))"

definition remove_file :: "string \<Rightarrow> disk \<Rightarrow> disk" where
  "remove_file p d = (case io d of (None, d) \<Rightarrow> d\<lparr>dk_files := (dk_files d)(p := None)\<rparr> | (Some _, d) \<Rightarrow> d)"

text \<open>\<open>std::io::BufWriter\<close> with its default capacity.\<close>

record buf_writer =
  bw_path :: string
  bw_pos :: nat
  bw_buf :: bytes

definition BUF_CAPACITY :: nat where "BUF_CAPACITY = 8192"

definition bw_new :: "string \<Rightarrow> buf_writer" where
  "bw_new p = \<lparr>bw_path = p, bw_pos = 0, bw_buf = []\<rparr>"

definition bw_flush :: "buf_writer \<Rightarrow> disk \<Rightarrow> string option \<times> buf_writer \<times> disk" where
  "bw_flush w d =
     (if bw_buf w = [] then (None, w, d)
      else
        (case io d of
           (None, d) \<Rightarrow>
             (None, w\<lparr>bw_pos := bw_pos w + length (bw_buf w), bw_buf := []\<rparr>, file_put (bw_path w) (bw_pos w) (bw_buf w) d)
         | (Some (n, e), d) \<Rightarrow>
             let part = take n (bw_buf w) in
             (Some e, w\<lparr>bw_pos := bw_pos w + length part, bw_buf := drop n (bw_buf w)\<rparr>,
              file_put (bw_path w) (bw_pos w) part d)))"

text \<open>The unbuffered write of a block that is at least as large as the buffer.\<close>

definition bw_write_through :: "bytes \<Rightarrow> buf_writer \<Rightarrow> disk \<Rightarrow> string option \<times> buf_writer \<times> disk" where
  "bw_write_through bs w d =
     (case io d of
        (None, d) \<Rightarrow> (None, w\<lparr>bw_pos := bw_pos w + length bs\<rparr>, file_put (bw_path w) (bw_pos w) bs d)
      | (Some (n, e), d) \<Rightarrow>
          (Some e, w\<lparr>bw_pos := bw_pos w + length (take n bs)\<rparr>, file_put (bw_path w) (bw_pos w) (take n bs) d))"

definition bw_write_all :: "bytes \<Rightarrow> buf_writer \<Rightarrow> disk \<Rightarrow> string option \<times> buf_writer \<times> disk" where
  "bw_write_all bs w d =
     (let spare = BUF_CAPACITY - length (bw_buf w) in
      if length bs < spare then (None, w\<lparr>bw_buf := bw_buf w @ bs\<rparr>, d)
      else
        (case (if length bs > spare then bw_flush w d else (None, w, d)) of
           (Some e, w, d) \<Rightarrow> (Some e, w, d)
         | (None, w, d) \<Rightarrow>
             if length bs \<ge> BUF_CAPACITY then bw_write_through bs w d
             else (None, w\<lparr>bw_buf := bw_buf w @ bs\<rparr>, d)))"

text \<open>Dropping a writer flushes it and ignores the outcome.\<close>

definition bw_drop :: "buf_writer option \<Rightarrow> disk \<Rightarrow> disk" where
  "bw_drop w d = (case w of Some w \<Rightarrow> snd (snd (bw_flush w d)) | None \<Rightarrow> d)"

section \<open>The spill stream\<close>

record spill_stream =
  sp_threshold :: usize
  sp_dir :: string
  sp_path :: "string option"
  sp_file :: "buf_writer option"
  sp_mem :: bytes

definition DEFAULT_THRESHOLD_MB :: usize where "DEFAULT_THRESHOLD_MB = 100"
definition WRITE_CHUNK_SIZE :: usize where "WRITE_CHUNK_SIZE = 64 * 1024"

text \<open>
  The product of \<open>DiskSpillStream::new\<close> is a plain \<open>usize\<close> multiplication: in the release profile, which this
  is, it wraps for \<open>threshold_mb \<ge> 2 ^ 44\<close> (a debug build panics there).
\<close>

definition spill_new :: "string \<Rightarrow> usize \<Rightarrow> spill_stream" where
  "spill_new temp_dir threshold_mb =
     \<lparr>sp_threshold = max threshold_mb 1 * 1024 * 1024 mod 2 ^ 64, sp_dir = temp_dir, sp_path = None, sp_file = None, sp_mem = []\<rparr>"

definition threshold_mb :: "spill_stream \<Rightarrow> usize" where
  "threshold_mb s = sp_threshold s div (1024 * 1024)"

definition spill_name :: "nat \<Rightarrow> string" where
  "spill_name millis = ''odbc_spill_'' @ show_nat millis @ ''.bin''"

definition spill_to_disk :: "spill_stream \<Rightarrow> disk \<Rightarrow> unit result \<times> spill_stream \<times> disk" where
  "spill_to_disk s d =
     (let (millis, d) = now_millis d; path = sp_dir s @ ''/'' @ spill_name millis in
      case create_file path d of
        (Some e, d) \<Rightarrow> (Err (InternalError (''spill create: '' @ e)), s, d)
      | (None, d) \<Rightarrow>
          (case bw_write_all (sp_mem s) (bw_new path) d of
             (Some e, w, d) \<Rightarrow> (Err (InternalError (''spill write: '' @ e)), s, bw_drop (Some w) d)
           | (None, w, d) \<Rightarrow> (Ok (), s\<lparr>sp_mem := [], sp_file := Some w, sp_path := Some path\<rparr>, d)))"

text \<open>\<open>self.file.as_mut().ok_or_else(..)?.write_all(chunk)\<close>\<close>

definition spill_write :: "bytes \<Rightarrow> spill_stream \<Rightarrow> disk \<Rightarrow> unit result \<times> spill_stream \<times> disk" where
  "spill_write chunk s d =
     (case sp_file s of
        None \<Rightarrow> (Err (InternalError ''spill file missing''), s, d)
      | Some w \<Rightarrow>
          (case bw_write_all chunk w d of
             (Some e, w, d) \<Rightarrow> (Err (InternalError (''spill write: '' @ e)), s\<lparr>sp_file := Some w\<rparr>, d)
           | (None, w, d) \<Rightarrow> (Ok (), s\<lparr>sp_file := Some w\<rparr>, d)))"

definition write_chunk :: "bytes \<Rightarrow> spill_stream \<Rightarrow> disk \<Rightarrow> unit result \<times> spill_stream \<times> disk" where
  "write_chunk chunk s d =
     (if sp_file s \<noteq> None then spill_write chunk s d
      else if length (sp_mem s) + length chunk > sp_threshold s \<and> sp_mem s \<noteq> [] then
        (case spill_to_disk s d of
           (Ok _, s, d) \<Rightarrow> spill_write chunk s d
         | (e, s, d) \<Rightarrow> (e, s, d))
      else (Ok (), s\<lparr>sp_mem := sp_mem s @ chunk\<rparr>, d))"

datatype spill_read_source = SRS_File string | SRS_Memory bytes

text \<open>The flush both ways of reading start with; on success the writer is closed and the path taken.\<close>

definition spill_close :: "spill_stream \<Rightarrow> disk \<Rightarrow> string option result \<times> spill_stream \<times> disk" where
  "spill_close s d =
     (case (case sp_file s of Some w \<Rightarrow> (case bw_flush w d of (e, w, d) \<Rightarrow> (e, Some w, d)) | None \<Rightarrow> (None, None, d)) of
        (Some e, w, d) \<Rightarrow> (Err (InternalError (''spill flush: '' @ e)), s\<lparr>sp_file := w\<rparr>, d)
      | (None, w, d) \<Rightarrow> (Ok (sp_path s), s\<lparr>sp_file := None, sp_path := None\<rparr>, bw_drop w d))"

definition read_back :: "spill_stream \<Rightarrow> disk \<Rightarrow> bytes result \<times> spill_stream \<times> disk" where
  "read_back s d =
     (case spill_close s d of
        (Ok (Some p), s, d) \<Rightarrow>
          (case read_file p d of
             (Inl e, d) \<Rightarrow> (Err (InternalError (''spill read: '' @ e)), s, d)
           | (Inr bs, d) \<Rightarrow> (Ok bs, s, remove_file p d))
      | (Ok None, s, d) \<Rightarrow> (Ok (sp_mem s), s\<lparr>sp_mem := []\<rparr>, d)
      | (Err e, s, d) \<Rightarrow> (Err e, s, d)
      | (Panic, s, d) \<Rightarrow> (Panic, s, d))"

definition finish_for_streaming_read :: "spill_stream \<Rightarrow> disk \<Rightarrow> spill_read_source result \<times> spill_stream \<times> disk" where
  "finish_for_streaming_read s d =
     (case spill_close s d of
        (Ok (Some p), s, d) \<Rightarrow> (Ok (SRS_File p), s, d)
      | (Ok None, s, d) \<Rightarrow> (Ok (SRS_Memory (sp_mem s)), s\<lparr>sp_mem := []\<rparr>, d)
      | (Err e, s, d) \<Rightarrow> (Err e, s, d)
      | (Panic, s, d) \<Rightarrow> (Panic, s, d))"

definition spill_drop :: "spill_stream \<Rightarrow> disk \<Rightarrow> disk" where
  "spill_drop s d =
     (let d = bw_drop (sp_file s) d in
      case sp_path s of Some p \<Rightarrow> remove_file p d | None \<Rightarrow> d)"

section \<open>The writer adapter\<close>

text \<open>\<open>DiskSpillWriter\<close>: its buffer, over a spill stream. An error of \<open>write_chunk\<close> is wrapped by \<open>io::Error::other\<close>.\<close>

function writer_loop :: "bytes \<Rightarrow> spill_stream \<Rightarrow> disk \<Rightarrow> unit result \<times> bytes \<times> spill_stream \<times> disk" where
  "writer_loop buffer s d =
     (if length buffer \<ge> WRITE_CHUNK_SIZE then
        (case write_chunk (take WRITE_CHUNK_SIZE buffer) s d of
           (Ok _, s, d) \<Rightarrow> writer_loop (drop WRITE_CHUNK_SIZE buffer) s d
         | (e, s, d) \<Rightarrow> (e, drop WRITE_CHUNK_SIZE buffer, s, d))
      else (Ok (), buffer, s, d))"
  by pat_completeness auto

termination
  by (relation "measure (\<lambda>(buffer, s, d). length buffer)") (auto simp: WRITE_CHUNK_SIZE_def)

declare writer_loop.simps [simp del]

definition writer_write :: "bytes \<Rightarrow> bytes \<Rightarrow> spill_stream \<Rightarrow> disk \<Rightarrow> unit result \<times> bytes \<times> spill_stream \<times> disk" where
  "writer_write bs buffer s d = writer_loop (buffer @ bs) s d"

definition writer_flush :: "bytes \<Rightarrow> spill_stream \<Rightarrow> disk \<Rightarrow> unit result \<times> bytes \<times> spill_stream \<times> disk" where
  "writer_flush buffer s d =
     (if buffer \<noteq> [] then (case write_chunk buffer s d of (r, s, d) \<Rightarrow> (r, [], s, d)) else (Ok (), buffer, s, d))"

section \<open>The buffer pool\<close>

record buffer_pool =
  bp_buffers :: "bytes list"
  bp_buffer_size :: usize
  bp_max_buffers :: usize

definition pool_acquire :: "buffer_pool \<Rightarrow> bytes \<times> buffer_pool" where
  "pool_acquire p =
     (case bp_buffers p of
        b # bs \<Rightarrow> (b, p\<lparr>bp_buffers := bs\<rparr>)
      | [] \<Rightarrow> (replicate (bp_buffer_size p) 0, p))"

definition pool_release :: "bytes \<Rightarrow> buffer_pool \<Rightarrow> buffer_pool" where
  "pool_release b p =
     (if length (bp_buffers p) < bp_max_buffers p
      then p\<lparr>bp_buffers := bp_buffers p @ [replicate (bp_buffer_size p) 0]\<rparr> else p)"

section \<open>A sink of bytes\<close>

text \<open>What a writer promises its client: an accepted write appends exactly those bytes.\<close>

fun write_pieces :: "(bytes \<Rightarrow> 's \<Rightarrow> unit result \<times> 's) \<Rightarrow> bytes list \<Rightarrow> 's \<Rightarrow> unit result \<times> 's" where
  "write_pieces wr [] s = (Ok (), s)"
| "write_pieces wr (p # ps) s = (case wr p s of (Ok _, s) \<Rightarrow> write_pieces wr ps s | (e, s) \<Rightarrow> (e, s))"

locale byte_sink =
  fixes wr :: "bytes \<Rightarrow> 's \<Rightarrow> unit result \<times> 's" and content :: "'s \<Rightarrow> bytes" and inv :: "'s \<Rightarrow> bool"
  assumes wr_ok: "inv s \<Longrightarrow> wr bs s = (Ok (), s') \<Longrightarrow> inv s' \<and> content s' = content s @ bs"
begin

lemma pieces_ok:
  "inv s \<Longrightarrow> write_pieces wr ps s = (Ok (), s') \<Longrightarrow> inv s' \<and> content s' = content s @ concat ps"
  by (induction ps arbitrary: s) (auto dest: wr_ok split: prod.splits outcome.splits)

end

text \<open>And one that, while nothing fails, accepts everything.\<close>

locale reliable_sink = byte_sink wr content inv
  for wr :: "bytes \<Rightarrow> 's \<Rightarrow> unit result \<times> 's" and content :: "'s \<Rightarrow> bytes" and inv :: "'s \<Rightarrow> bool" +
  fixes calm :: "'s \<Rightarrow> bool"
  assumes wr_calm: "inv s \<Longrightarrow> calm s \<Longrightarrow> \<exists>s'. wr bs s = (Ok (), s') \<and> calm s'"
begin

lemma pieces_calm:
  "inv s \<Longrightarrow> calm s \<Longrightarrow> \<exists>s'. write_pieces wr ps s = (Ok (), s') \<and> inv s' \<and> calm s' \<and> content s' = content s @ concat ps"
proof (induction ps arbitrary: s)
  case Nil
  then show ?case by simp
next
  case (Cons p ps)
  then obtain s1 where s1: "wr p s = (Ok (), s1)" "calm s1" using wr_calm by blast
  with Cons.prems(1) have "inv s1" "content s1 = content s @ p" using wr_ok by auto
  with Cons.IH[of s1] s1 show ?case by auto
qed

end

section \<open>Open files\<close>

lemma io_files: "io d = (f, d') \<Longrightarrow> dk_files d' = dk_files d"
  by (auto simp: io_def split: list.splits)

lemma io_calm: "dk_faults d = [] \<Longrightarrow> io d = (None, d)"
  by (simp add: io_def)

lemma put_at_end [simp]: "put_at (length c) bs c = c @ bs"
  by (simp add: put_at_def)

definition open_writer :: "disk \<Rightarrow> buf_writer \<Rightarrow> bool" where
  "open_writer d w \<longleftrightarrow> (\<exists>c. dk_files d (bw_path w) = Some c \<and> length c = bw_pos w) \<and> length (bw_buf w) \<le> BUF_CAPACITY"

definition written :: "disk \<Rightarrow> buf_writer \<Rightarrow> bytes" where
  "written d w = (case dk_files d (bw_path w) of Some c \<Rightarrow> c | None \<Rightarrow> []) @ bw_buf w"

lemma file_put_end:
  "dk_files d p = Some c \<Longrightarrow> dk_files (file_put p (length c) bs d) = (dk_files d)(p \<mapsto> c @ bs)"
  by (simp add: file_put_def)

text \<open>Moving the first bytes of the buffer to the end of the file.\<close>

lemma move_to_file:
  assumes "open_writer d w" and "dk_files d1 = dk_files d"
  shows "open_writer (file_put (bw_path w) (bw_pos w) (take n (bw_buf w)) d1)
           (w\<lparr>bw_pos := bw_pos w + length (take n (bw_buf w)), bw_buf := drop n (bw_buf w)\<rparr>) \<and>
         written (file_put (bw_path w) (bw_pos w) (take n (bw_buf w)) d1)
           (w\<lparr>bw_pos := bw_pos w + length (take n (bw_buf w)), bw_buf := drop n (bw_buf w)\<rparr>) = written d w"
proof -
  obtain c where c: "dk_files d (bw_path w) = Some c" "length c = bw_pos w"
    using assms(1) by (auto simp: open_writer_def)
  with assms(2) have "dk_files (file_put (bw_path w) (bw_pos w) (take n (bw_buf w)) d1) =
      (dk_files d)(bw_path w \<mapsto> c @ take n (bw_buf w))"
    using file_put_end[of d1 "bw_path w" c "take n (bw_buf w)"] by simp
  with assms(1) c show ?thesis by (simp add: open_writer_def written_def)
qed

lemma bw_flush_keeps:
  assumes "open_writer d w" and "bw_flush w d = (r, w', d')"
  shows "open_writer d' w' \<and> written d' w' = written d w \<and> bw_path w' = bw_path w \<and> (r = None \<longrightarrow> bw_buf w' = [])"
proof (cases "bw_buf w = []")
  case True
  with assms show ?thesis by (auto simp: bw_flush_def)
next
  case False
  obtain f d1 where f: "io d = (f, d1)" by fastforce
  note m = move_to_file[OF assms(1) io_files[OF f]]
  show ?thesis
  proof (cases f)
    case None
    with assms(2) False f m[of "length (bw_buf w)"] show ?thesis by (auto simp: bw_flush_def)
  next
    case (Some ne)
    obtain n e where "ne = (n, e)" by fastforce
    with Some assms(2) False f m[of n] show ?thesis by (auto simp: bw_flush_def Let_def)
  qed
qed

lemma bw_write_through_ok:
  assumes "open_writer d w" and "bw_buf w = []" and "bw_write_through bs w d = (None, w', d')"
  shows "open_writer d' w' \<and> written d' w' = written d w @ bs \<and> bw_path w' = bw_path w"
proof -
  obtain f d1 where f: "io d = (f, d1)" by fastforce
  with assms(3) have fn: "f = None" and w': "w' = w\<lparr>bw_pos := bw_pos w + length bs\<rparr>"
    and d': "d' = file_put (bw_path w) (bw_pos w) bs d1"
    by (auto simp: bw_write_through_def split: option.splits prod.splits)
  obtain c where c: "dk_files d (bw_path w) = Some c" "length c = bw_pos w"
    using assms(1) by (auto simp: open_writer_def)
  with io_files[OF f] d' have "dk_files d' = (dk_files d)(bw_path w \<mapsto> c @ bs)"
    using file_put_end[of d1 "bw_path w" c bs] by simp
  with assms(2) c w' show ?thesis by (simp add: open_writer_def written_def)
qed

lemma bw_write_all_ok:
  assumes "open_writer d w" and "bw_write_all bs w d = (None, w', d')"
  shows "open_writer d' w' \<and> written d' w' = written d w @ bs \<and> bw_path w' = bw_path w"
proof -
  let ?spare = "BUF_CAPACITY - length (bw_buf w)"
  consider (small) "length bs < ?spare" | (fits) "length bs = ?spare" | (large) "length bs > ?spare" by linarith
  then show ?thesis
  proof cases
    case small
    with assms show ?thesis by (auto simp: bw_write_all_def open_writer_def written_def Let_def)
  next
    case fits
    show ?thesis
    proof (cases "BUF_CAPACITY \<le> length bs")
      case True
      with fits have "length (bw_buf w) = 0" unfolding BUF_CAPACITY_def by arith
      then have "bw_buf w = []" by simp
      with assms fits True bw_write_through_ok[OF assms(1)] show ?thesis by (auto simp: bw_write_all_def Let_def)
    next
      case False
      with assms fits show ?thesis by (auto simp: bw_write_all_def open_writer_def written_def Let_def)
    qed
  next
    case large
    obtain r w1 d1 where f: "bw_flush w d = (r, w1, d1)" by (cases "bw_flush w d") auto
    with assms(2) large have r: "r = None" by (auto simp: bw_write_all_def Let_def split: option.splits)
    from bw_flush_keeps[OF assms(1) f] r
    have k: "open_writer d1 w1" "written d1 w1 = written d w" "bw_path w1 = bw_path w" "bw_buf w1 = []" by auto
    show ?thesis
    proof (cases "BUF_CAPACITY \<le> length bs")
      case True
      with assms(2) large f r have "bw_write_through bs w1 d1 = (None, w', d')" by (simp add: bw_write_all_def Let_def)
      from bw_write_through_ok[OF k(1,4) this] k show ?thesis by auto
    next
      case False
      with assms(2) large f r k show ?thesis by (auto simp: bw_write_all_def open_writer_def written_def Let_def)
    qed
  qed
qed

section \<open>The spill stream keeps what it is given\<close>

definition spill_inv :: "spill_stream \<times> disk \<Rightarrow> bool" where
  "spill_inv sd \<longleftrightarrow>
     (case sd of (s, d) \<Rightarrow>
        (case sp_file s of
           None \<Rightarrow> sp_path s = None
         | Some w \<Rightarrow> sp_path s = Some (bw_path w) \<and> sp_mem s = [] \<and> open_writer d w))"

definition spill_content :: "spill_stream \<times> disk \<Rightarrow> bytes" where
  "spill_content sd = (case sd of (s, d) \<Rightarrow> (case sp_file s of None \<Rightarrow> sp_mem s | Some w \<Rightarrow> written d w))"

lemma spill_write_ok:
  assumes "spill_inv (s, d)" and "spill_write bs s d = (Ok (), s', d')"
  shows "spill_inv (s', d') \<and> spill_content (s', d') = spill_content (s, d) @ bs"
proof -
  from assms(2) obtain w w' where w: "sp_file s = Some w" "bw_write_all bs w d = (None, w', d')"
    and s': "s' = s\<lparr>sp_file := Some w'\<rparr>"
    by (auto simp: spill_write_def split: option.splits prod.splits)
  with assms(1) have "open_writer d w" by (simp add: spill_inv_def)
  from bw_write_all_ok[OF this w(2)] w s' assms(1) show ?thesis by (simp add: spill_inv_def spill_content_def)
qed

lemma spill_to_disk_ok:
  assumes "spill_inv (s, d)" and "sp_file s = None" and "spill_to_disk s d = (Ok (), s', d')"
  shows "spill_inv (s', d') \<and> spill_content (s', d') = sp_mem s"
proof -
  obtain t d0 where t: "now_millis d = (t, d0)" by fastforce
  let ?p = "sp_dir s @ ''/'' @ spill_name t"
  obtain r d1 where c: "create_file ?p d0 = (r, d1)" by fastforce
  with assms(3) t obtain w where w: "r = None" "bw_write_all (sp_mem s) (bw_new ?p) d1 = (None, w, d')"
    and s': "s' = s\<lparr>sp_mem := [], sp_file := Some w, sp_path := Some ?p\<rparr>"
    by (auto simp: spill_to_disk_def Let_def split: option.splits prod.splits)
  from c w(1) have "dk_files d1 ?p = Some []" by (auto simp: create_file_def split: prod.splits option.splits)
  then have "open_writer d1 (bw_new ?p)" "written d1 (bw_new ?p) = []"
    by (simp_all add: open_writer_def written_def bw_new_def)
  with bw_write_all_ok[OF _ w(2)] s' show ?thesis by (simp add: spill_inv_def spill_content_def bw_new_def)
qed

lemma write_chunk_ok:
  assumes "spill_inv (s, d)" and "write_chunk bs s d = (Ok (), s', d')"
  shows "spill_inv (s', d') \<and> spill_content (s', d') = spill_content (s, d) @ bs"
proof (cases "sp_file s = None")
  case False
  with assms spill_write_ok show ?thesis by (auto simp: write_chunk_def)
next
  case True
  show ?thesis
  proof (cases "length (sp_mem s) + length bs > sp_threshold s \<and> sp_mem s \<noteq> []")
    case False
    with True assms show ?thesis by (auto simp: write_chunk_def spill_inv_def spill_content_def)
  next
    case over: True
    obtain r s1 d1 where t: "spill_to_disk s d = (r, s1, d1)" by (cases "spill_to_disk s d") auto
    with True over assms(2) have r: "r = Ok ()" and w: "spill_write bs s1 d1 = (Ok (), s', d')"
      by (auto simp: write_chunk_def split: outcome.splits)
    note s1 = spill_to_disk_ok[OF assms(1) True t[unfolded r]]
    with spill_write_ok[OF _ w] True show ?thesis by (simp add: spill_content_def)
  qed
qed

interpretation spill: byte_sink "\<lambda>bs (s, d). write_chunk bs s d" spill_content spill_inv
  by unfold_locales (use write_chunk_ok in fastforce)

text \<open>Closing the stream leaves all of it in the file, or in memory.\<close>

lemma spill_close_ok:
  assumes "spill_inv (s, d)" and "spill_close s d = (Ok p, s', d')"
  shows "sp_file s' = None \<and> sp_path s' = None \<and>
     (case p of Some q \<Rightarrow> dk_files d' q = Some (spill_content (s, d)) | None \<Rightarrow> sp_mem s' = spill_content (s, d))"
proof (cases "sp_file s")
  case None
  with assms show ?thesis by (auto simp: spill_close_def spill_inv_def spill_content_def bw_drop_def)
next
  case (Some w)
  obtain r w1 d1 where f: "bw_flush w d = (r, w1, d1)" by (cases "bw_flush w d") auto
  with Some assms have r: "r = None" and inv: "open_writer d w" "sp_path s = Some (bw_path w)"
    by (auto simp: spill_close_def spill_inv_def split: option.splits)
  from bw_flush_keeps[OF inv(1) f] r
  have k: "open_writer d1 w1" "written d1 w1 = written d w" "bw_path w1 = bw_path w" "bw_buf w1 = []" by auto
  then have "dk_files d1 (bw_path w) = Some (written d w)" by (auto simp: open_writer_def written_def)
  moreover have "d' = d1" "p = Some (bw_path w)" "s' = s\<lparr>sp_file := None, sp_path := None\<rparr>"
    using Some assms(2) f r k inv(2) by (auto simp: spill_close_def bw_drop_def bw_flush_def)
  ultimately show ?thesis using Some by (simp add: spill_content_def)
qed

lemma read_back_ok:
  assumes "spill_inv (s, d)" and "read_back s d = (Ok bs, s', d')"
  shows "bs = spill_content (s, d) \<and> sp_file s' = None \<and> sp_path s' = None"
proof -
  obtain r s1 d1 where c: "spill_close s d = (r, s1, d1)" by (cases "spill_close s d") auto
  with assms(2) obtain p where r: "r = Ok p" by (cases r) (auto simp: read_back_def)
  note k = spill_close_ok[OF assms(1) c[unfolded r]]
  show ?thesis
  proof (cases p)
    case None
    with assms(2) c r k show ?thesis by (auto simp: read_back_def)
  next
    case (Some q)
    with assms(2) c r k show ?thesis
      by (auto simp: read_back_def read_file_def split: prod.splits sum.splits option.splits dest: io_files)
  qed
qed

section \<open>Without failures\<close>

lemma calm_io: "dk_faults (file_put p n bs d) = dk_faults d"
  by (simp add: file_put_def split: option.splits)

lemma bw_flush_calm: "dk_faults d = [] \<Longrightarrow> \<exists>w' d'. bw_flush w d = (None, w', d') \<and> dk_faults d' = [] \<and> bw_buf w' = []"
  by (simp add: bw_flush_def io_calm calm_io)

lemma bw_write_all_calm: "dk_faults d = [] \<Longrightarrow> \<exists>w' d'. bw_write_all bs w d = (None, w', d') \<and> dk_faults d' = []"
  using bw_flush_calm[of d w] by (auto simp: bw_write_all_def Let_def bw_write_through_def io_calm calm_io)

lemma spill_to_disk_calm:
  assumes "dk_faults d = []"
  shows "\<exists>s' d'. spill_to_disk s d = (Ok (), s', d') \<and> dk_faults d' = [] \<and> sp_file s' \<noteq> None"
proof -
  obtain t d0 where t: "now_millis d = (t, d0)" by fastforce
  then have "dk_faults d0 = []" using assms by (auto simp: now_millis_def split: list.splits)
  then obtain d1 where "create_file (sp_dir s @ ''/'' @ spill_name t) d0 = (None, d1)" "dk_faults d1 = []"
    by (simp add: create_file_def io_calm)
  with t bw_write_all_calm[of d1 "sp_mem s" "bw_new (sp_dir s @ ''/'' @ spill_name t)"] show ?thesis
    by (auto simp: spill_to_disk_def)
qed

lemma write_chunk_calm:
  assumes "dk_faults d = []"
  shows "\<exists>s' d'. write_chunk bs s d = (Ok (), s', d') \<and> dk_faults d' = []"
proof -
  have wr: "\<exists>s' d'. spill_write bs s d = (Ok (), s', d') \<and> dk_faults d' = []"
    if "dk_faults d = []" "sp_file s \<noteq> None" for s d
    using that bw_write_all_calm[of d bs "the (sp_file s)"] by (auto simp: spill_write_def)
  show ?thesis
  proof (cases "sp_file s = None \<and> length (sp_mem s) + length bs > sp_threshold s \<and> sp_mem s \<noteq> []")
    case True
    obtain s1 d1 where "spill_to_disk s d = (Ok (), s1, d1)" "dk_faults d1 = []" "sp_file s1 \<noteq> None"
      using spill_to_disk_calm[OF assms, of s] by blast
    with True wr[of d1 s1] show ?thesis by (simp add: write_chunk_def)
  next
    case False
    then show ?thesis using assms wr[of d s] by (auto simp: write_chunk_def)
  qed
qed

interpretation spill: reliable_sink "\<lambda>bs (s, d). write_chunk bs s d" spill_content spill_inv "\<lambda>(s, d). dk_faults d = []"
  by unfold_locales (use write_chunk_calm in \<open>auto, blast?\<close>)

lemma spill_close_calm:
  assumes "dk_faults d = []"
  obtains s1 d1 where "spill_close s d = (Ok (sp_path s), s1, d1)" "dk_faults d1 = []"
proof (cases "sp_file s")
  case None
  then show ?thesis using that assms by (simp add: spill_close_def bw_drop_def)
next
  case (Some w)
  obtain w' d' where "bw_flush w d = (None, w', d')" "dk_faults d' = []" "bw_buf w' = []"
    using bw_flush_calm[OF assms] by blast
  with Some show ?thesis using that by (simp add: spill_close_def bw_drop_def bw_flush_def[of w'])
qed

lemma read_back_calm:
  assumes "spill_inv (s, d)" and "dk_faults d = []"
  shows "\<exists>s' d'. read_back s d = (Ok (spill_content (s, d)), s', d') \<and>
           (case sp_path s of Some p \<Rightarrow> dk_files d' p = None | None \<Rightarrow> True)"
proof -
  obtain s1 d1 where c: "spill_close s d = (Ok (sp_path s), s1, d1)" "dk_faults d1 = []"
    using spill_close_calm[OF assms(2)] by blast
  note k = spill_close_ok[OF assms(1) c(1)]
  then show ?thesis
    using c by (cases "sp_path s") (simp_all add: read_back_def read_file_def remove_file_def io_calm)
qed

section \<open>The writer adapter is a sink\<close>

type_synonym writer_state = "bytes \<times> spill_stream \<times> disk"

definition writer_inv :: "writer_state \<Rightarrow> bool" where
  "writer_inv st \<longleftrightarrow> spill_inv (snd st)"

definition writer_content :: "writer_state \<Rightarrow> bytes" where
  "writer_content st = spill_content (snd st) @ fst st"

lemma writer_loop_ok:
  "spill_inv (s, d) \<Longrightarrow> writer_loop buffer s d = (Ok (), buffer', s', d') \<Longrightarrow>
     spill_inv (s', d') \<and> spill_content (s', d') @ buffer' = spill_content (s, d) @ buffer \<and> length buffer' < WRITE_CHUNK_SIZE"
proof (induction buffer s d rule: writer_loop.induct)
  case (1 buffer s d)
  show ?case
  proof (cases "WRITE_CHUNK_SIZE \<le> length buffer")
    case False
    with "1.prems" show ?thesis by (subst (asm) writer_loop.simps) auto
  next
    case True
    obtain r s1 d1 where w: "write_chunk (take WRITE_CHUNK_SIZE buffer) s d = (r, s1, d1)"
      by (cases "write_chunk (take WRITE_CHUNK_SIZE buffer) s d") auto
    with True "1.prems"(2) have r: "r = Ok ()" and rec: "writer_loop (drop WRITE_CHUNK_SIZE buffer) s1 d1 = (Ok (), buffer', s', d')"
      by (subst (asm) writer_loop.simps; auto split: outcome.splits)+
    note s1 = write_chunk_ok[OF "1.prems"(1) w[unfolded r]]
    have "spill_inv (s', d') \<and> spill_content (s', d') @ buffer' = spill_content (s1, d1) @ drop WRITE_CHUNK_SIZE buffer \<and>
        length buffer' < WRITE_CHUNK_SIZE"
      using "1.IH"[OF True w[symmetric] r refl] s1 rec by auto
    with s1 show ?thesis by simp
  qed
qed

lemma writer_loop_calm:
  "dk_faults d = [] \<Longrightarrow> \<exists>buffer' s' d'. writer_loop buffer s d = (Ok (), buffer', s', d') \<and> dk_faults d' = []"
proof (induction buffer s d rule: writer_loop.induct)
  case (1 buffer s d)
  obtain s1 d1 where w: "write_chunk (take WRITE_CHUNK_SIZE buffer) s d = (Ok (), s1, d1)" "dk_faults d1 = []"
    using write_chunk_calm[OF "1.prems"] by blast
  show ?case
  proof (cases "WRITE_CHUNK_SIZE \<le> length buffer")
    case True
    have "\<exists>buffer' s' d'. writer_loop (drop WRITE_CHUNK_SIZE buffer) s1 d1 = (Ok (), buffer', s', d') \<and> dk_faults d' = []"
      using "1.IH"[OF True w(1)[symmetric] refl refl] w(2) by auto
    with True w(1) show ?thesis by (subst writer_loop.simps) simp
  qed (subst writer_loop.simps, use "1.prems" in simp)
qed

interpretation writer: reliable_sink "\<lambda>bs (b, s, d). writer_write bs b s d" writer_content writer_inv "\<lambda>(b, s, d). dk_faults d = []"
proof
  fix st bs st' assume a: "writer_inv st" "(\<lambda>(b, s, d). writer_write bs b s d) st = (Ok (), st')"
  obtain b s d b' s' d' where st: "st = (b, s, d)" "st' = (b', s', d')" using prod_cases3 by metis
  have "spill_inv (s, d)" "writer_loop (b @ bs) s d = (Ok (), b', s', d')"
    using a by (simp_all add: st writer_inv_def writer_write_def)
  from writer_loop_ok[OF this] show "writer_inv st' \<and> writer_content st' = writer_content st @ bs"
    by (simp add: st writer_inv_def writer_content_def)
next
  fix st :: writer_state and bs assume a: "(\<lambda>(b, s, d). dk_faults d = []) st"
  obtain b s d where st: "st = (b, s, d)" by (rule prod_cases3)
  from a writer_loop_calm[of d "b @ bs" s]
  show "\<exists>st'. (\<lambda>(b, s, d). writer_write bs b s d) st = (Ok (), st') \<and> (\<lambda>(b, s, d). dk_faults d = []) st'"
    by (auto simp: st writer_write_def)
qed

lemma writer_flush_ok:
  assumes "spill_inv (s, d)" and "writer_flush b s d = (Ok (), b', s', d')"
  shows "spill_inv (s', d') \<and> spill_content (s', d') = spill_content (s, d) @ b"
  using assms write_chunk_ok[OF assms(1)] by (auto simp: writer_flush_def split: if_splits prod.splits)

text \<open>Writing pieces through the adapter, flushing it, and reading the stream back.\<close>

definition spill_roundtrip :: "string \<Rightarrow> usize \<Rightarrow> bytes list \<Rightarrow> disk \<Rightarrow> bytes result \<times> spill_stream \<times> disk" where
  "spill_roundtrip dir mb pieces d =
     (case write_pieces (\<lambda>bs (b, s, d). writer_write bs b s d) pieces ([], spill_new dir mb, d) of
        (Ok _, b, s, d) \<Rightarrow>
          (case writer_flush b s d of
             (Ok _, b, s, d) \<Rightarrow> read_back s d
           | (Err e, b, s, d) \<Rightarrow> (Err e, s, d)
           | (Panic, b, s, d) \<Rightarrow> (Panic, s, d))
      | (Err e, b, s, d) \<Rightarrow> (Err e, s, d)
      | (Panic, b, s, d) \<Rightarrow> (Panic, s, d))"

lemma spill_new_inv [simp]: "spill_inv (spill_new dir mb, d)" "spill_content (spill_new dir mb, d) = []"
  by (simp_all add: spill_inv_def spill_content_def spill_new_def)

text \<open>
  C39. The spill stream returns what was written: however the data is cut into pieces, whether it stays in
  memory or moves to a file, and whichever operation fails, a run that reports success has read back the
  concatenation of the pieces; and without failures every run succeeds.
\<close>

theorem spill_reads_back:
  "(\<forall>bs s' d'. spill_roundtrip dir mb pieces d = (Ok bs, s', d') \<longrightarrow> bs = concat pieces) \<and>
   (dk_faults d = [] \<longrightarrow> (\<exists>s' d'. spill_roundtrip dir mb pieces d = (Ok (concat pieces), s', d')))"
proof (intro conjI allI impI)
  let ?wr = "\<lambda>bs (b, s, d). writer_write bs b s d"
  have init: "writer_inv ([], spill_new dir mb, d)" "writer_content ([], spill_new dir mb, d) = []"
    by (simp_all add: writer_inv_def writer_content_def)
  fix bs s' d' assume run: "spill_roundtrip dir mb pieces d = (Ok bs, s', d')"
  obtain r b s1 d1 where w: "write_pieces ?wr pieces ([], spill_new dir mb, d) = (r, b, s1, d1)"
    by (cases "write_pieces ?wr pieces ([], spill_new dir mb, d)") auto
  with run have r: "r = Ok ()" by (cases r) (auto simp: spill_roundtrip_def)
  from writer.pieces_ok[OF init(1) w[unfolded r]] init(2)
  have i1: "spill_inv (s1, d1)" "spill_content (s1, d1) @ b = concat pieces"
    by (simp_all add: writer_inv_def writer_content_def)
  obtain q b2 s2 d2 where f: "writer_flush b s1 d1 = (q, b2, s2, d2)" by (cases "writer_flush b s1 d1") auto
  with run w r have q: "q = Ok ()" and rb: "read_back s2 d2 = (Ok bs, s', d')"
    by (cases q; simp add: spill_roundtrip_def)+
  from writer_flush_ok[OF i1(1) f[unfolded q]] read_back_ok[OF _ rb] i1(2) show "bs = concat pieces" by simp
next
  let ?wr = "\<lambda>bs (b, s, d). writer_write bs b s d"
  assume "dk_faults d = []"
  then obtain b s1 d1 where w: "write_pieces ?wr pieces ([], spill_new dir mb, d) = (Ok (), b, s1, d1)"
    and i1: "spill_inv (s1, d1)" "spill_content (s1, d1) @ b = concat pieces" "dk_faults d1 = []"
    using writer.pieces_calm[of "([], spill_new dir mb, d)" pieces] by (auto simp: writer_inv_def writer_content_def)
  obtain b2 s2 d2 where f: "writer_flush b s1 d1 = (Ok (), b2, s2, d2)" "dk_faults d2 = []"
    using write_chunk_calm[OF i1(3), of b s1] i1(3) that by (cases "b = []") (auto simp: writer_flush_def)
  with writer_flush_ok[OF i1(1) f(1)] read_back_calm[of s2 d2] i1(2)
  show "\<exists>s' d'. spill_roundtrip dir mb pieces d = (Ok (concat pieces), s', d')"
    by (auto simp: spill_roundtrip_def w)
qed

definition calm_disk :: "nat list \<Rightarrow> disk" where
  "calm_disk clock = \<lparr>dk_files = Map.empty, dk_faults = [], dk_clock = clock\<rparr>"

theorem spill_reads_back_witness:
  "\<exists>s' d'. spill_roundtrip ''/tmp'' 1 [[1, 2], [], [3]] (calm_disk []) = (Ok [1, 2, 3], s', d')"
  using spill_reads_back[of "''/tmp''" 1 "[[1, 2], [], [3]]" "calm_disk []"] by (simp add: calm_disk_def)

section \<open>Memory\<close>

text \<open>
  A chunk that arrives while the memory buffer is empty is always kept, so the buffer is bounded by the
  larger of the threshold and one chunk.
\<close>

definition spill_small :: "spill_stream \<Rightarrow> bool" where
  "spill_small s \<longleftrightarrow> length (sp_mem s) \<le> max (sp_threshold s) WRITE_CHUNK_SIZE"

lemma spill_write_mem: "spill_write bs s d = (r, s', d') \<Longrightarrow> sp_mem s' = sp_mem s \<and> sp_threshold s' = sp_threshold s"
  by (auto simp: spill_write_def split: option.splits prod.splits)

lemma spill_to_disk_mem:
  "spill_to_disk s d = (r, s', d') \<Longrightarrow> length (sp_mem s') \<le> length (sp_mem s) \<and> sp_threshold s' = sp_threshold s"
  by (auto simp: spill_to_disk_def Let_def split: option.splits prod.splits)

lemma write_chunk_small:
  assumes "spill_small s" and "length bs \<le> WRITE_CHUNK_SIZE" and "write_chunk bs s d = (r, s', d')"
  shows "spill_small s' \<and> sp_threshold s' = sp_threshold s"
proof (cases "sp_file s = None \<and> length (sp_mem s) + length bs > sp_threshold s \<and> sp_mem s \<noteq> []")
  case True
  obtain q s1 d1 where t: "spill_to_disk s d = (q, s1, d1)" by (cases "spill_to_disk s d") auto
  note m = spill_to_disk_mem[OF t]
  from True t assms(3) consider "s' = s1" | "spill_write bs s1 d1 = (r, s', d')"
    by (cases q) (auto simp: write_chunk_def)
  then show ?thesis using m assms(1) spill_write_mem by cases (fastforce simp: spill_small_def)+
next
  case False
  show ?thesis
  proof (cases "sp_file s = None")
    case True
    with False assms show ?thesis by (auto simp: write_chunk_def spill_small_def)
  next
    case spilled: False
    with assms(3) have "spill_write bs s d = (r, s', d')" by (auto simp: write_chunk_def)
    from spill_write_mem[OF this] assms(1) show ?thesis by (simp add: spill_small_def)
  qed
qed

lemma writer_loop_small:
  "spill_small s \<Longrightarrow> writer_loop buffer s d = (r, buffer', s', d') \<Longrightarrow>
     spill_small s' \<and> sp_threshold s' = sp_threshold s"
proof (induction buffer s d rule: writer_loop.induct)
  case (1 buffer s d)
  show ?case
  proof (cases "WRITE_CHUNK_SIZE \<le> length buffer")
    case False
    with "1.prems" show ?thesis by (subst (asm) writer_loop.simps) auto
  next
    case True
    obtain q s1 d1 where w: "write_chunk (take WRITE_CHUNK_SIZE buffer) s d = (q, s1, d1)"
      by (cases "write_chunk (take WRITE_CHUNK_SIZE buffer) s d") auto
    have s1: "spill_small s1 \<and> sp_threshold s1 = sp_threshold s"
      using write_chunk_small[OF "1.prems"(1) _ w] by simp
    show ?thesis
    proof (cases "q = Ok ()")
      case ok: True
      with True "1.prems"(2) w have "writer_loop (drop WRITE_CHUNK_SIZE buffer) s1 d1 = (r, buffer', s', d')"
        by (subst (asm) writer_loop.simps) simp
      with "1.IH"[OF True w[symmetric] ok refl] s1 show ?thesis by auto
    next
      case False
      with True "1.prems"(2) w have "s' = s1"
        by (subst (asm) writer_loop.simps) (cases q; auto)
      with s1 show ?thesis by simp
    qed
  qed
qed

lemma write_pieces_small:
  "spill_small s \<Longrightarrow> write_pieces (\<lambda>bs (b, s, d). writer_write bs b s d) ps (b, s, d) = (r, b', s', d') \<Longrightarrow>
     spill_small s' \<and> sp_threshold s' = sp_threshold s"
proof (induction ps arbitrary: b s d)
  case (Cons p ps)
  obtain q b1 s1 d1 where w: "writer_write p b s d = (q, b1, s1, d1)" by (cases "writer_write p b s d") auto
  have s1: "spill_small s1 \<and> sp_threshold s1 = sp_threshold s"
    using writer_loop_small[OF Cons.prems(1) w[unfolded writer_write_def]] .
  with Cons.prems(2) w Cons.IH[of s1 b1 d1] show ?case by (cases q) auto
qed simp

lemma writer_loop_buffer: "writer_loop buffer s d = (Ok (), buffer', s', d') \<Longrightarrow> length buffer' < WRITE_CHUNK_SIZE"
proof (induction buffer s d rule: writer_loop.induct)
  case (1 buffer s d)
  show ?case
  proof (cases "WRITE_CHUNK_SIZE \<le> length buffer")
    case False
    with "1.prems" show ?thesis by (subst (asm) writer_loop.simps) auto
  next
    case True
    obtain q s1 d1 where w: "write_chunk (take WRITE_CHUNK_SIZE buffer) s d = (q, s1, d1)"
      by (cases "write_chunk (take WRITE_CHUNK_SIZE buffer) s d") auto
    with True "1.prems" have q: "q = Ok ()" "writer_loop (drop WRITE_CHUNK_SIZE buffer) s1 d1 = (Ok (), buffer', s', d')"
      by (subst (asm) writer_loop.simps; auto split: outcome.splits)+
    with "1.IH"[OF True w[symmetric] q(1) refl] show ?thesis by auto
  qed
qed

lemma write_pieces_buffer:
  "length b < WRITE_CHUNK_SIZE \<Longrightarrow> write_pieces (\<lambda>bs (b, s, d). writer_write bs b s d) ps (b, s, d) = (Ok (), b', s', d') \<Longrightarrow>
     length b' < WRITE_CHUNK_SIZE"
proof (induction ps arbitrary: b s d)
  case (Cons p ps)
  obtain q b1 s1 d1 where w: "writer_write p b s d = (q, b1, s1, d1)" by (cases "writer_write p b s d") auto
  with Cons.prems(2) have "q = Ok ()" by (cases q) auto
  with w Cons.prems(2) Cons.IH[of b1 s1 d1] writer_loop_buffer[of "b @ p" s d b1 s1 d1] show ?case
    by (simp add: writer_write_def)
qed simp

lemma spill_new_small: "spill_small (spill_new dir mb)"
  by (simp add: spill_small_def spill_new_def)

lemma spill_new_threshold:
  assumes "mb < 2 ^ 44"
  shows "sp_threshold (spill_new dir mb) = max mb 1 * 1024 * 1024"
    "max (sp_threshold (spill_new dir mb)) WRITE_CHUNK_SIZE = max mb 1 * 1024 * 1024"
proof -
  have "max mb 1 * 1024 * 1024 < 2 ^ 64" using assms by (simp add: max_def)
  then show t: "sp_threshold (spill_new dir mb) = max mb 1 * 1024 * 1024" by (simp add: spill_new_def)
  then show "max (sp_threshold (spill_new dir mb)) WRITE_CHUNK_SIZE = max mb 1 * 1024 * 1024"
    by (simp add: WRITE_CHUNK_SIZE_def max_def)
qed

text \<open>
  C40. Bounded memory. Whatever pieces are written through the adapter, and whatever operation fails, the
  memory buffer of the stream (\<open>memory_buffer\<close>) never exceeds the larger of its threshold and one 64 KiB
  chunk; after writes that all succeeded the adapter itself holds less than one chunk, and the bound
  still holds after the final flush, whether that succeeds or fails. The threshold is the configured
  number of megabytes for every setting below 2^44 MB, and then it bounds the buffer alone; from 2^44 on
  the multiplication of \<open>DiskSpillStream::new\<close> wraps (\<open>spill_threshold_wraps\<close> below).
\<close>

theorem spill_memory_bound:
  assumes "write_pieces (\<lambda>bs (b, s, d). writer_write bs b s d) pieces ([], spill_new dir mb, d) = (r, b', s', d')"
  shows "length (sp_mem s') \<le> max (sp_threshold (spill_new dir mb)) WRITE_CHUNK_SIZE \<and>
    (mb < 2 ^ 44 \<longrightarrow> length (sp_mem s') \<le> max mb 1 * 1024 * 1024) \<and>
    (r = Ok () \<longrightarrow> length b' < WRITE_CHUNK_SIZE \<and>
       (\<forall>q b2 s2 d2. writer_flush b' s' d' = (q, b2, s2, d2) \<longrightarrow>
          length (sp_mem s2) \<le> max (sp_threshold (spill_new dir mb)) WRITE_CHUNK_SIZE \<and>
          (mb < 2 ^ 44 \<longrightarrow> length (sp_mem s2) \<le> max mb 1 * 1024 * 1024)))"
proof -
  have s': "spill_small s'" "sp_threshold s' = sp_threshold (spill_new dir mb)"
    using write_pieces_small[OF spill_new_small assms] by simp_all
  have b': "length b' < WRITE_CHUNK_SIZE" if "r = Ok ()"
    using write_pieces_buffer[of "[]"] assms that by (simp add: WRITE_CHUNK_SIZE_def)
  have s2: "spill_small s2 \<and> sp_threshold s2 = sp_threshold s'"
    if "r = Ok ()" "writer_flush b' s' d' = (q, b2, s2, d2)" for q b2 s2 d2
    using that(2) write_chunk_small[OF s'(1), of b' d'] b'[OF that(1)] s'(1)
    by (auto simp: writer_flush_def split: if_splits prod.splits)
  show ?thesis
    using s' b' s2 spill_new_threshold(2)[of mb dir] unfolding spill_small_def by metis
qed

text \<open>One full chunk and two bytes more: the chunk is in the memory buffer, the two bytes are in the adapter until the flush.\<close>

theorem spill_memory_bound_witness:
  "\<exists>s. write_pieces (\<lambda>bs (b, s, d). writer_write bs b s d) [replicate 65536 7, [1, 2]] ([], spill_new ''/tmp'' 1, calm_disk []) =
       (Ok (), [1, 2], s, calm_disk []) \<and> length (sp_mem s) = 65536 \<and> length (sp_mem s) \<le> max 1 1 * 1024 * 1024 \<and>
     (\<exists>s2. writer_flush [1, 2] s (calm_disk []) = (Ok (), [], s2, calm_disk []) \<and> length (sp_mem s2) = 65538 \<and>
       length (sp_mem s2) \<le> max 1 1 * 1024 * 1024)"
proof -
  let ?s = "(spill_new ''/tmp'' 1)\<lparr>sp_mem := replicate 65536 7\<rparr>"
  have run: "write_pieces (\<lambda>bs (b, s, d). writer_write bs b s d) [replicate 65536 7, [1, 2]]
      ([], spill_new ''/tmp'' 1, calm_disk []) = (Ok (), [1, 2], ?s, calm_disk [])"
    by (simp add: writer_write_def writer_loop.simps WRITE_CHUNK_SIZE_def write_chunk_def spill_new_def)
  have flush: "writer_flush [1, 2] ?s (calm_disk []) = (Ok (), [], ?s\<lparr>sp_mem := replicate 65536 7 @ [1, 2]\<rparr>, calm_disk [])"
    by (simp add: writer_flush_def write_chunk_def spill_new_def)
  from spill_memory_bound[OF run] run flush show ?thesis by auto
qed

text \<open>
  With \<open>ODBC_STREAM_SPILL_THRESHOLD_MB\<close> set to 2^44 the threshold wraps to zero: the first chunk is kept in
  memory, above the threshold, and the second one already moves the stream to a file.
\<close>

theorem spill_threshold_wraps:
  "sp_threshold (spill_new dir (2 ^ 44)) = 0 \<and>
   write_chunk (replicate 65536 x) (spill_new dir (2 ^ 44)) d =
     (Ok (), (spill_new dir (2 ^ 44))\<lparr>sp_mem := replicate 65536 x\<rparr>, d)"
  by (simp add: spill_new_def write_chunk_def)

section \<open>Shared names and leaked files\<close>

lemma spill_large_to_disk:
  assumes "dk_faults d = []" and "dk_clock d = t # ts" and "BUF_CAPACITY \<le> length (sp_mem s)"
  shows "spill_to_disk s d =
    (let p = sp_dir s @ ''/'' @ spill_name t in
     (Ok (), s\<lparr>sp_mem := [], sp_file := Some \<lparr>bw_path = p, bw_pos = length (sp_mem s), bw_buf = []\<rparr>, sp_path := Some p\<rparr>,
      d\<lparr>dk_clock := ts, dk_files := (dk_files d)(p \<mapsto> sp_mem s)\<rparr>))"
  using assms
  by (simp add: spill_to_disk_def now_millis_def create_file_def io_calm bw_write_all_def bw_new_def Let_def
      bw_write_through_def bw_flush_def file_put_def put_at_def)

text \<open>
  Two streams that spill in the same millisecond use the same file: the second truncates it, so
  reading the first back yields the data of the second, and reading the second back fails. The file is
  named by the clock alone.
\<close>

theorem spill_name_collision:
  assumes "dk_faults d = []" and "dk_clock d = t # t # ts" and "sp_dir a = sp_dir b"
    and "BUF_CAPACITY \<le> length (sp_mem a)" and "BUF_CAPACITY \<le> length (sp_mem b)"
  shows "\<exists>a1 d1 b1 d2 a2 d3 b2 d4. spill_to_disk a d = (Ok (), a1, d1) \<and> spill_to_disk b d1 = (Ok (), b1, d2) \<and>
     read_back a1 d2 = (Ok (sp_mem b), a2, d3) \<and>
     read_back b1 d3 = (Err (InternalError ''spill read: No such file or directory (os error 2)''), b2, d4)"
  using assms
  by (simp add: spill_large_to_disk Let_def read_back_def spill_close_def bw_flush_def bw_drop_def read_file_def
      remove_file_def io_def)

theorem spill_name_collision_witness:
  "let a = (spill_new ''/tmp'' 1)\<lparr>sp_mem := replicate 9000 1\<rparr>; b = (spill_new ''/tmp'' 1)\<lparr>sp_mem := replicate 9000 2\<rparr> in
   \<exists>a1 d1 b1 d2 a2 d3. spill_to_disk a (calm_disk [7, 7]) = (Ok (), a1, d1) \<and> spill_to_disk b d1 = (Ok (), b1, d2) \<and>
     read_back a1 d2 = (Ok (replicate 9000 2), a2, d3)"
  using spill_name_collision[of "calm_disk [7, 7]" 7 "[]" "(spill_new ''/tmp'' 1)\<lparr>sp_mem := replicate 9000 1\<rparr>"
      "(spill_new ''/tmp'' 1)\<lparr>sp_mem := replicate 9000 2\<rparr>"]
  by (auto simp: calm_disk_def spill_new_def BUF_CAPACITY_def Let_def)

text \<open>A write that fails while spilling leaves the file behind: its path was not recorded yet, so the drop does not remove it.\<close>

lemma spill_leaks_file:
  assumes "dk_faults d = [None, Some (n, e)]" and "dk_clock d = t # ts" and "BUF_CAPACITY \<le> length (sp_mem s)"
    and "sp_file s = None" and "sp_path s = None"
  shows "\<exists>s' d'. spill_to_disk s d = (Err (InternalError (''spill write: '' @ e)), s', d') \<and>
     dk_files (spill_drop s' d') (sp_dir s @ ''/'' @ spill_name t) \<noteq> None"
  using assms
  by (simp add: spill_to_disk_def now_millis_def create_file_def io_def bw_write_all_def bw_new_def Let_def
      bw_write_through_def bw_flush_def file_put_def spill_drop_def bw_drop_def)

end
