(* ===== verification/Streaming.thy ===== *)
theory Streaming
  imports Query Spill
begin

text \<open>
  \<open>engine/streaming.rs\<close>: results delivered in chunks. A stream is a byte buffer in memory, a spilled file,
  or the sequence of batches a worker thread sends through a channel. The channel is the list of the
  messages the worker sends; its end is the worker's disconnection. Cancellation is a flag the worker
  samples once per iteration, a parameter. Spawning and joining the thread are not modelled.
\<close>

section \<open>Streams in memory and on disk\<close>

record streaming_state =
  st_data :: bytes
  st_offset :: usize
  st_chunk_size :: usize

definition mem_fetch_next_chunk :: "streaming_state \<Rightarrow> bytes option result \<times> streaming_state" where
  "mem_fetch_next_chunk s =
     (if st_offset s \<ge> length (st_data s) then (Ok None, s)
      else
        let stop = min (st_offset s + st_chunk_size s) (length (st_data s)) in
        (omap Some (range_of (st_data s) (st_offset s) stop), s\<lparr>st_offset := stop\<rparr>))"

definition mem_has_more :: "streaming_state \<Rightarrow> bool" where
  "mem_has_more s \<longleftrightarrow> st_offset s < length (st_data s)"

record file_backed =
  fb_path :: string
  fb_offset :: usize
  fb_chunk_size :: usize
  fb_total_len :: usize

text \<open>Opening, seeking and reading exactly the wanted bytes, in this order; each may fail.\<close>

definition read_exact_at :: "string \<Rightarrow> nat \<Rightarrow> nat \<Rightarrow> disk \<Rightarrow> bytes result \<times> disk" where
  "read_exact_at p pos n d =
     (case io d of
        (Some (_, e), d) \<Rightarrow> (Err (InternalError (''spill file read: '' @ e)), d)
      | (None, d) \<Rightarrow>
          (case dk_files d p of
             None \<Rightarrow> (Err (InternalError ''spill file read: No such file or directory (os error 2)''), d)
           | Some c \<Rightarrow>
               (case io d of
                  (Some (_, e), d) \<Rightarrow> (Err (InternalError (''spill file seek: '' @ e)), d)
                | (None, d) \<Rightarrow>
                    (case io d of
                       (Some (_, e), d) \<Rightarrow> (Err (InternalError (''spill file read_exact: '' @ e)), d)
                     | (None, d) \<Rightarrow>
                         if pos + n \<le> length c then (Ok (take n (drop pos c)), d)
                         else (Err (InternalError ''spill file read_exact: failed to fill whole buffer''), d)))))"

definition file_fetch_next_chunk :: "file_backed \<times> disk \<Rightarrow> bytes option result \<times> file_backed \<times> disk" where
  "file_fetch_next_chunk fd =
     (case fd of (f, d) \<Rightarrow>
        if fb_offset f \<ge> fb_total_len f then (Ok None, f, d)
        else
          let to_read = min (fb_chunk_size f) (fb_total_len f - fb_offset f) in
          (case read_exact_at (fb_path f) (fb_offset f) to_read d of
             (Ok bs, d) \<Rightarrow> (Ok (if to_read = 0 then None else Some bs), f\<lparr>fb_offset := fb_offset f + to_read\<rparr>, d)
           | (Err e, d) \<Rightarrow> (Err e, f, d)
           | (Panic, d) \<Rightarrow> (Panic, f, d)))"

definition file_has_more :: "file_backed \<Rightarrow> bool" where
  "file_has_more f \<longleftrightarrow> fb_offset f < fb_total_len f"

definition file_backed_drop :: "file_backed \<times> disk \<Rightarrow> disk" where
  "file_backed_drop fd = remove_file (fb_path (fst fd)) (snd fd)"

datatype stream_state = InMemory streaming_state | FileBacked file_backed

definition stream_fetch_next_chunk :: "stream_state \<times> disk \<Rightarrow> bytes option result \<times> stream_state \<times> disk" where
  "stream_fetch_next_chunk sd =
     (case sd of
        (InMemory s, d) \<Rightarrow> (case mem_fetch_next_chunk s of (r, s) \<Rightarrow> (r, InMemory s, d))
      | (FileBacked f, d) \<Rightarrow> (case file_fetch_next_chunk (f, d) of (r, f, d) \<Rightarrow> (r, FileBacked f, d)))"

definition stream_has_more :: "stream_state \<Rightarrow> bool" where
  "stream_has_more s = (case s of InMemory m \<Rightarrow> mem_has_more m | FileBacked f \<Rightarrow> file_has_more f)"

section \<open>Streams fed by a worker\<close>

datatype batched_message = BM_Batch bytes | BM_Done | BM_Cancelled | BM_Error string

text \<open>The fields of \<open>BatchedStreamingState\<close> and \<open>AsyncStreamingState\<close>; \<open>ws_inbox\<close> is what \<open>recv\<close> still delivers.\<close>

record worker_stream =
  ws_inbox :: "batched_message list"
  ws_current_batch :: "bytes option"
  ws_offset :: usize
  ws_chunk_size :: usize
  ws_done :: bool
  ws_stream_error :: "string option"
  ws_cancelled :: bool
  ws_cancel_requested :: bool

definition current_batch_len :: "worker_stream \<Rightarrow> usize" where
  "current_batch_len s = (case ws_current_batch s of Some b \<Rightarrow> length b | None \<Rightarrow> 0)"

definition request_cancel :: "worker_stream \<Rightarrow> worker_stream" where
  "request_cancel s = s\<lparr>ws_cancel_requested := True\<rparr>"

text \<open>The second half of a fetch: the next slice of the batch, or all of it.\<close>

definition slice_batch :: "string \<Rightarrow> worker_stream \<Rightarrow> bytes option result \<times> worker_stream" where
  "slice_batch label s =
     (if ws_offset s = 0 \<and> ws_chunk_size s \<ge> current_batch_len s
      then (Ok (ws_current_batch s), s\<lparr>ws_current_batch := None\<rparr>)
      else
        (case ws_current_batch s of
           None \<Rightarrow> (Err (InternalError (label @ '' state corrupted: no batch available after receiver processing'')), s)
         | Some b \<Rightarrow>
             let stop = min (min (ws_offset s + ws_chunk_size s) usize_max) (length b) in
             (omap Some (range_of b (ws_offset s) stop), s\<lparr>ws_offset := stop\<rparr>)))"

text \<open>
  \<open>fetch_next_chunk\<close> of both states, which differ in their texts only: \<open>label\<close> of the corrupted state,
  \<open>who\<close> of the disconnection.
\<close>

definition worker_fetch :: "string \<Rightarrow> string \<Rightarrow> worker_stream \<Rightarrow> bytes option result \<times> worker_stream" where
  "worker_fetch label who s =
     (case ws_stream_error s of
        Some msg \<Rightarrow> (Err (InternalError msg), s)
      | None \<Rightarrow>
          if ws_done s then (Ok None, s)
          else if ws_current_batch s = None \<or> ws_offset s \<ge> current_batch_len s then
            (case ws_inbox s of
               BM_Batch b # ms \<Rightarrow> slice_batch label (s\<lparr>ws_inbox := ms, ws_current_batch := Some b, ws_offset := 0\<rparr>)
             | BM_Done # ms \<Rightarrow> (Ok None, s\<lparr>ws_inbox := ms, ws_done := True\<rparr>)
             | BM_Cancelled # ms \<Rightarrow> (Ok None, s\<lparr>ws_inbox := ms, ws_done := True, ws_cancelled := True\<rparr>)
             | BM_Error m # ms \<Rightarrow> (Err (InternalError m), s\<lparr>ws_inbox := ms, ws_stream_error := Some m\<rparr>)
             | [] \<Rightarrow>
                 let msg = who @ '' disconnected unexpectedly: receiving on a closed channel'' in
                 (Err (WorkerCrashed msg), s\<lparr>ws_done := True, ws_stream_error := Some msg\<rparr>))
          else slice_batch label s)"

definition batched_fetch_next_chunk :: "worker_stream \<Rightarrow> bytes option result \<times> worker_stream" where
  "batched_fetch_next_chunk = worker_fetch ''Streaming'' ''Stream worker''"

definition async_fetch_next_chunk :: "worker_stream \<Rightarrow> bytes option result \<times> worker_stream" where
  "async_fetch_next_chunk = worker_fetch ''Async stream'' ''Async stream worker''"

definition worker_has_more :: "worker_stream \<Rightarrow> bool" where
  "worker_has_more s \<longleftrightarrow> \<not> ws_done s"

text \<open>\<open>try_recv\<close>: \<open>arrived\<close> says whether the next message is already in the channel.\<close>

definition pull_next_message_nonblocking :: "bool \<Rightarrow> worker_stream \<Rightarrow> worker_stream" where
  "pull_next_message_nonblocking arrived s =
     (if ws_done s \<or> ws_stream_error s \<noteq> None then s
      else if ws_current_batch s \<noteq> None \<and> ws_offset s < current_batch_len s then s
      else
        (case ws_inbox s of
           [] \<Rightarrow> s\<lparr>ws_done := True\<rparr>
         | m # ms \<Rightarrow>
             if \<not> arrived then s
             else
               (case m of
                  BM_Batch b \<Rightarrow> s\<lparr>ws_inbox := ms, ws_current_batch := Some b, ws_offset := 0\<rparr>
                | BM_Done \<Rightarrow> s\<lparr>ws_inbox := ms, ws_done := True\<rparr>
                | BM_Cancelled \<Rightarrow> s\<lparr>ws_inbox := ms, ws_done := True, ws_cancelled := True\<rparr>
                | BM_Error e \<Rightarrow> s\<lparr>ws_inbox := ms, ws_stream_error := Some e\<rparr>)))"

datatype async_stream_status = AS_Pending | AS_Ready | AS_Done | AS_Cancelled | AS_Error

definition poll_status :: "bool \<Rightarrow> worker_stream \<Rightarrow> async_stream_status \<times> worker_stream" where
  "poll_status arrived s =
     (let s = pull_next_message_nonblocking arrived s in
      (if ws_stream_error s \<noteq> None then AS_Error
       else if ws_cancelled s then AS_Cancelled
       else if ws_done s then AS_Done
       else if ws_current_batch s \<noteq> None \<and> ws_offset s < current_batch_len s then AS_Ready
       else AS_Pending, s))"

section \<open>Producing the streams\<close>

definition show_encode_error :: "encode_error \<Rightarrow> string" where
  "show_encode_error e =
     (case e of
        LengthTooLarge field value ty \<Rightarrow> field @ '' value '' @ show_nat value @ '' exceeds '' @ ty
      | PayloadSizeOverflow context \<Rightarrow> ''payload size overflow while adding '' @ context
      | EncodeIo t \<Rightarrow> ''writer error: '' @ t)"

definition encode_row_buffer :: "row_buffer \<Rightarrow> bytes result" where
  "encode_row_buffer b =
     map_err (\<lambda>e. ResourceLimitReached (''result encoding failed: '' @ show_encode_error e)) (try_encode b)"

definition no_data :: "'a result" where
  "no_data = Err (InternalError ''No data returned'')"

definition execute_streaming :: "usize \<Rightarrow> (string \<Rightarrow> prepared api) \<Rightarrow> string \<Rightarrow> streaming_state result" where
  "execute_streaming chunk_size prepare sql =
     obind (api (prepare sql)) (\<lambda>stmt.
     obind (api (sr_execute (stmt []))) (\<lambda>c.
     case c of
       None \<Rightarrow> no_data
     | Some cu \<Rightarrow>
         obind (fill_row_buffer from_odbc_sql_type cu) (\<lambda>b.
         obind (encode_row_buffer (coalesce_for_json_rows b)) (\<lambda>encoded.
         Ok \<lparr>st_data = encoded, st_offset = 0, st_chunk_size = chunk_size\<rparr>))))"

text \<open>The writes of \<open>encode_to_writer\<close>, piece by piece.\<close>

definition cell_pieces :: "cell \<Rightarrow> bytes list" where
  "cell_pieces c = (case c of Some d \<Rightarrow> [[0], u32_le (of_nat (length d)), d] | None \<Rightarrow> [[1]])"

definition encode_pieces :: "row_buffer \<Rightarrow> bytes list" where
  "encode_pieces b =
     [u32_le MAGIC, u16_le VERSION, u16_le (of_nat (column_count b)), u32_le (of_nat (row_count b)),
      u32_le (of_nat (length (payload_bytes b)))] @
     concat (map (\<lambda>c. [u16_le (odbc_type_code (cm_odbc_type c)), u16_le (of_nat (length (cm_name c))), as_bytes (cm_name c)])
       (rb_columns b)) @
     concat (map (\<lambda>row. concat (map cell_pieces row)) (rb_rows b))"

text \<open>The sizes are checked before the first write; a failed write ends the encoding with its error.\<close>

definition encode_to_spill :: "row_buffer \<Rightarrow> writer_state \<Rightarrow> unit result \<times> writer_state" where
  "encode_to_spill b st =
     (case try_encode b of
        Err e \<Rightarrow> (Err (InternalError (''encode to spill: '' @ show_encode_error e)), st)
      | Panic \<Rightarrow> (Panic, st)
      | Ok _ \<Rightarrow>
          (case write_pieces (\<lambda>bs (b, s, d). writer_write bs b s d) (encode_pieces b) st of
             (r, st) \<Rightarrow> (map_err (\<lambda>e. InternalError (''encode to spill: writer error: '' @ error_display e)) r, st)))"

definition spill_stream_of :: "string \<Rightarrow> usize \<Rightarrow> usize \<Rightarrow> row_buffer \<Rightarrow> disk \<Rightarrow> stream_state result \<times> disk" where
  "spill_stream_of temp_dir chunk_size threshold b d =
     (case encode_to_spill b ([], spill_new temp_dir threshold, d) of
        (Err e, _, s, d) \<Rightarrow> (Err e, spill_drop s d)
      | (Panic, _, s, d) \<Rightarrow> (Panic, spill_drop s d)
      | (Ok _, buffer, s, d) \<Rightarrow>
          (case writer_flush buffer s d of
             (Err e, _, s, d) \<Rightarrow> (Err (InternalError (''spill flush: '' @ error_display e)), spill_drop s d)
           | (Panic, _, s, d) \<Rightarrow> (Panic, spill_drop s d)
           | (Ok _, _, s, d) \<Rightarrow>
               (case finish_for_streaming_read s d of
                  (Err e, s, d) \<Rightarrow> (Err e, spill_drop s d)
                | (Panic, s, d) \<Rightarrow> (Panic, spill_drop s d)
                | (Ok (SRS_Memory bs), s, d) \<Rightarrow>
                    (Ok (InMemory \<lparr>st_data = bs, st_offset = 0, st_chunk_size = chunk_size\<rparr>), spill_drop s d)
                | (Ok (SRS_File p), s, d) \<Rightarrow>
                    (case io d of (f, d) \<Rightarrow>
                       let total = (case f of None \<Rightarrow> (case dk_files d p of Some c \<Rightarrow> length c | None \<Rightarrow> 0) | Some _ \<Rightarrow> 0) in
                       (Ok (FileBacked \<lparr>fb_path = p, fb_offset = 0, fb_chunk_size = chunk_size, fb_total_len = total\<rparr>),
                        spill_drop s d)))))"

definition execute_streaming_with_spill ::
  "string \<Rightarrow> usize \<Rightarrow> (string \<Rightarrow> prepared api) \<Rightarrow> string \<Rightarrow> usize option \<Rightarrow> disk \<Rightarrow> stream_state result \<times> disk"
where
  "execute_streaming_with_spill temp_dir chunk_size prepare sql spill_threshold_mb d =
     (case obind (api (prepare sql)) (\<lambda>stmt. obind (api (sr_execute (stmt []))) (\<lambda>c.
             case c of None \<Rightarrow> no_data | Some cu \<Rightarrow> omap coalesce_for_json_rows (fill_row_buffer from_odbc_sql_type cu))) of
        Err e \<Rightarrow> (Err e, d)
      | Panic \<Rightarrow> (Panic, d)
      | Ok b \<Rightarrow>
          (case spill_threshold_mb of
             Some t \<Rightarrow>
               if t > 0 then spill_stream_of temp_dir chunk_size t b d
               else (omap (\<lambda>e. InMemory \<lparr>st_data = e, st_offset = 0, st_chunk_size = chunk_size\<rparr>) (encode_row_buffer b), d)
           | None \<Rightarrow> (omap (\<lambda>e. InMemory \<lparr>st_data = e, st_offset = 0, st_chunk_size = chunk_size\<rparr>) (encode_row_buffer b), d)))"

section \<open>The batching worker\<close>

text \<open>The inner loop: up to \<open>n\<close> rows, or what is left, or the error the cursor ends with.\<close>

fun take_rows ::
  "odbc_type list \<Rightarrow> nat \<Rightarrow> cursor_row list \<Rightarrow> odbc_api_error option \<Rightarrow> cell list list \<Rightarrow> (cell list list \<times> cursor_row list) result"
where
  "take_rows types 0 rows e acc = Ok (acc, rows)"
| "take_rows types (Suc n) [] e acc = (case e of None \<Rightarrow> Ok (acc, []) | Some e \<Rightarrow> Err (from_odbc_api e))"
| "take_rows types (Suc n) (row # rows) e acc =
     obind (read_row_cells types row) (\<lambda>cs. take_rows types n rows e (acc @ [cs]))"

lemma take_rows_length:
  "take_rows types n rows e acc = Ok (taken, rest) \<Longrightarrow> length taken + length rest = length acc + length rows"
  by (induction types n rows e acc rule: take_rows.induct) (auto split: option.splits)

text \<open>
  The outer loop: the batches handed to \<open>on_batch\<close> and how it ends. \<open>cancel i\<close> is the flag as the
  worker sees it in iteration \<open>i\<close>. The callback accepts every batch (the client has not gone away).
\<close>

function batch_loop ::
  "column_metadata list \<Rightarrow> nat \<Rightarrow> odbc_api_error option \<Rightarrow> (nat \<Rightarrow> bool) \<Rightarrow> nat \<Rightarrow> bool \<Rightarrow> cursor_row list \<Rightarrow> bytes list \<times> unit result"
where
  "batch_loop cols n e cancel i first rows =
     (if cancel i then ([], Err (InternalError ''Stream cancelled''))
      else
        (case take_rows (map cm_odbc_type cols) n rows e [] of
           Err x \<Rightarrow> ([], Err x)
         | Panic \<Rightarrow> ([], Panic)
         | Ok (taken, rest) \<Rightarrow>
             if taken = [] then
               if first then
                 (case encode_row_buffer \<lparr>rb_columns = cols, rb_rows = []\<rparr> of
                    Ok b \<Rightarrow> ([b], Ok ())
                  | Err x \<Rightarrow> ([], Err x)
                  | Panic \<Rightarrow> ([], Panic))
               else ([], Ok ())
             else
               (case encode_row_buffer \<lparr>rb_columns = cols, rb_rows = taken\<rparr> of
                  Ok b \<Rightarrow> (case batch_loop cols n e cancel (Suc i) False rest of (bs, r) \<Rightarrow> (b # bs, r))
                | Err x \<Rightarrow> ([], Err x)
                | Panic \<Rightarrow> ([], Panic))))"
  by pat_completeness auto

termination
  by (relation "measure (\<lambda>(cols, n, e, cancel, i, first, rows). length rows)")
    (auto dest!: take_rows_length simp: neq_Nil_conv)

declare batch_loop.simps [simp del]

definition execute_streaming_batched ::
  "(string \<Rightarrow> prepared api) \<Rightarrow> string \<Rightarrow> usize \<Rightarrow> (nat \<Rightarrow> bool) \<Rightarrow> bytes list \<times> unit result"
where
  "execute_streaming_batched prepare sql fetch_size cancel =
     (case obind (api (prepare sql)) (\<lambda>stmt. api (sr_execute (stmt []))) of
        Err e \<Rightarrow> ([], Err e)
      | Panic \<Rightarrow> ([], Panic)
      | Ok None \<Rightarrow> ([], Ok ())
      | Ok (Some cu) \<Rightarrow>
          (case read_columns from_odbc_sql_type cu of
             Err e \<Rightarrow> ([], Err e)
           | Panic \<Rightarrow> ([], Panic)
           | Ok cols \<Rightarrow> batch_loop cols (max fetch_size 1) (cu_end cu) cancel 0 True (cu_rows cu)))"

text \<open>What the worker thread sends: the batches, then how it ended. A panic closes the channel.\<close>

definition worker_outcome :: "unit result \<Rightarrow> batched_message list" where
  "worker_outcome r =
     (case r of
        Ok _ \<Rightarrow> [BM_Done]
      | Err e \<Rightarrow> if contains_sub (error_display e) ''cancelled'' then [BM_Cancelled] else [BM_Error (error_display e)]
      | Panic \<Rightarrow> [])"

definition stream_of_messages :: "usize \<Rightarrow> batched_message list \<Rightarrow> worker_stream" where
  "stream_of_messages chunk_size ms =
     \<lparr>ws_inbox = ms, ws_current_batch = None, ws_offset = 0, ws_chunk_size = max chunk_size 1, ws_done = False,
      ws_stream_error = None, ws_cancelled = False, ws_cancel_requested = False\<rparr>"

text \<open>
  \<open>start_batched_stream\<close> and \<open>start_async_stream\<close>: the connection is looked up first; \<open>lock_ok\<close> says whether the
  worker could lock it.
\<close>

definition start_worker_stream ::
  "bool \<Rightarrow> (u32 \<Rightarrow> odbc_error + (string \<Rightarrow> prepared api)) option \<Rightarrow> u32 \<Rightarrow> string \<Rightarrow> usize \<Rightarrow> usize \<Rightarrow> (nat \<Rightarrow> bool) \<Rightarrow> worker_stream result"
where
  "start_worker_stream lock_ok handles conn_id sql fetch_size chunk_size cancel =
     (case handles of
        None \<Rightarrow> Err (InternalError ''Failed to lock HandleManager'')
      | Some get \<Rightarrow>
          (case get conn_id of
             Inl e \<Rightarrow> Err (InternalError (''Invalid connection: '' @ error_display e))
           | Inr prepare \<Rightarrow>
               Ok (stream_of_messages chunk_size
                 (if \<not> lock_ok then [BM_Error ''Failed to lock connection'']
                  else
                    (case execute_streaming_batched prepare sql (max fetch_size 1) cancel of
                       (batches, r) \<Rightarrow> map BM_Batch batches @ worker_outcome r)))))"

section \<open>Several results as a stream\<close>

definition MULTI_STREAM_ITEM_TAG_RESULT_SET :: u8 where "MULTI_STREAM_ITEM_TAG_RESULT_SET = 0"
definition MULTI_STREAM_ITEM_TAG_ROW_COUNT :: u8 where "MULTI_STREAM_ITEM_TAG_ROW_COUNT = 1"

definition frame_item :: "u8 \<Rightarrow> bytes \<Rightarrow> bytes result" where
  "frame_item tag payload =
     obind (ok_or (try_u32 (length payload))
       (ResourceLimitReached (''multi-result stream item payload exceeds u32: '' @ show_nat (length payload)))) (\<lambda>payload_len.
     obind (ok_or (usize_checked_add (length payload) 5) (ResourceLimitReached ''stream item size overflow'')) (\<lambda>_.
     Ok (tag # u32_le payload_len @ payload)))"

definition encode_cursor_to_buffer :: "cursor \<Rightarrow> bytes result" where
  "encode_cursor_to_buffer cu =
     obind (fill_row_buffer from_odbc_sql_type cu) (\<lambda>b. encode_row_buffer (coalesce_for_json_rows b))"

definition result_frame :: "cursor \<Rightarrow> bytes result" where
  "result_frame cu = obind (encode_cursor_to_buffer cu) (frame_item MULTI_STREAM_ITEM_TAG_RESULT_SET)"

definition count_frame :: "i64 \<Rightarrow> bytes result" where
  "count_frame rc = frame_item MULTI_STREAM_ITEM_TAG_ROW_COUNT (u64_le rc)"

text \<open>The loop over \<open>SQLMoreResults\<close>: the frames handed to \<open>on_item\<close> and how it ends.\<close>

fun multi_stream_loop :: "(nat \<Rightarrow> bool) \<Rightarrow> nat \<Rightarrow> advance list \<Rightarrow> bytes list \<times> unit result" where
  "multi_stream_loop cancel i [] = (if cancel i then ([], Err Cancelled) else ([], Ok ()))"
| "multi_stream_loop cancel i (a # advs) =
     (if cancel i then ([], Err Cancelled)
      else
        (case a of
           Adv_NoData \<Rightarrow> ([], Ok ())
         | Adv_Error e \<Rightarrow>
             if sqlstate (from_odbc_api e) = as_bytes ''02000'' then ([], Ok ()) else ([], Err (from_odbc_api e))
         | Adv_NeedData \<Rightarrow> ([], Err (OdbcApi ''Unexpected SQLMoreResults state in streaming worker''))
         | Adv_StillExecuting \<Rightarrow> ([], Err (OdbcApi ''Unexpected SQLMoreResults state in streaming worker''))
         | Adv_Success cols cu rc \<Rightarrow>
             (case obind (api cols) (\<lambda>n. if sint n > 0 then result_frame cu else obind (api rc) count_frame) of
                Ok f \<Rightarrow> (case multi_stream_loop cancel (Suc i) advs of (fs, r) \<Rightarrow> (f # fs, r))
              | Err e \<Rightarrow> ([], Err e)
              | Panic \<Rightarrow> ([], Panic))))"

text \<open>\<open>cancel 0\<close> is the check before the first cursor is read.\<close>

definition drive_multi_result_stream ::
  "(string \<Rightarrow> prepared api) \<Rightarrow> string \<Rightarrow> (nat \<Rightarrow> bool) \<Rightarrow> bytes list \<times> unit result"
where
  "drive_multi_result_stream prepare sql cancel =
     (case api (prepare sql) of
        Err e \<Rightarrow> ([], Err e)
      | Panic \<Rightarrow> ([], Panic)
      | Ok stmt \<Rightarrow>
          (case obind (api (sr_execute (stmt []))) (\<lambda>c.
              case c of
                Some cu \<Rightarrow> if cancel 0 then Err Cancelled else result_frame cu
              | None \<Rightarrow> obind (initial_row_count (stmt [])) count_frame) of
             Ok f \<Rightarrow> (case multi_stream_loop cancel 1 (sr_more (stmt [])) of (fs, r) \<Rightarrow> (f # fs, r))
           | Err e \<Rightarrow> ([], Err e)
           | Panic \<Rightarrow> ([], Panic)))"

definition multi_worker_outcome :: "unit result \<Rightarrow> batched_message list" where
  "multi_worker_outcome r =
     (case r of
        Ok _ \<Rightarrow> [BM_Done]
      | Err e \<Rightarrow> if e = Cancelled then [BM_Cancelled] else [BM_Error (error_display e)]
      | Panic \<Rightarrow> [])"

definition spawn_multi_stream_worker ::
  "bool \<Rightarrow> (u32 \<Rightarrow> odbc_error + (string \<Rightarrow> prepared api)) option \<Rightarrow> u32 \<Rightarrow> string \<Rightarrow> usize \<Rightarrow> (nat \<Rightarrow> bool) \<Rightarrow> worker_stream result"
where
  "spawn_multi_stream_worker lock_ok handles conn_id sql chunk_size cancel =
     (case handles of
        None \<Rightarrow> Err (InternalError ''Failed to lock HandleManager'')
      | Some get \<Rightarrow>
          (case get conn_id of
             Inl e \<Rightarrow> Err (InternalError (''Invalid connection: '' @ error_display e))
           | Inr prepare \<Rightarrow>
               Ok (stream_of_messages chunk_size
                 (if \<not> lock_ok then [BM_Error ''Failed to lock connection'']
                  else
                    (case drive_multi_result_stream prepare sql cancel of
                       (frames, r) \<Rightarrow> map BM_Batch frames @ multi_worker_outcome r)))))"

section \<open>Draining a stream\<close>

text \<open>The client's loop: fetch until there is no chunk, collecting them. \<open>None\<close> is running out of fuel.\<close>

fun drain :: "('s \<Rightarrow> bytes option result \<times> 's) \<Rightarrow> nat \<Rightarrow> 's \<Rightarrow> (bytes list \<times> unit result) option" where
  "drain fetch 0 s = None"
| "drain fetch (Suc n) s =
     (case fetch s of
        (Ok (Some c), s') \<Rightarrow> map_option (\<lambda>(cs, r). (c # cs, r)) (drain fetch n s')
      | (Ok None, s') \<Rightarrow> Some ([], Ok ())
      | (Err e, s') \<Rightarrow> Some ([], Err e)
      | (Panic, s') \<Rightarrow> Some ([], Panic))"

text \<open>
  What every stream promises its client: while bytes remain, a fetch returns the next of them, at least
  one and at most the chunk size; then it reports how the stream ended.
\<close>

locale chunk_stream =
  fixes fetch :: "'s \<Rightarrow> bytes option result \<times> 's" and remaining :: "'s \<Rightarrow> bytes" and ending :: "'s \<Rightarrow> unit result"
    and inv :: "'s \<Rightarrow> bool" and limit :: nat
  assumes fetch_some: "inv s \<Longrightarrow> remaining s \<noteq> [] \<Longrightarrow>
      \<exists>c s'. fetch s = (Ok (Some c), s') \<and> c \<noteq> [] \<and> length c \<le> limit \<and> remaining s = c @ remaining s' \<and>
        ending s' = ending s \<and> inv s'"
    and fetch_end: "inv s \<Longrightarrow> remaining s = [] \<Longrightarrow>
      \<exists>s'. fetch s = (case ending s of Ok _ \<Rightarrow> Ok None | Err e \<Rightarrow> Err e | Panic \<Rightarrow> Panic, s')"
begin

lemma drain_complete:
  "inv s \<Longrightarrow> length (remaining s) < fuel \<Longrightarrow>
     \<exists>cs. drain fetch fuel s = Some (cs, ending s) \<and> concat cs = remaining s \<and>
       list_all (\<lambda>c. c \<noteq> [] \<and> length c \<le> limit) cs"
proof (induction fuel arbitrary: s)
  case 0
  then show ?case by simp
next
  case (Suc fuel)
  show ?case
  proof (cases "remaining s = []")
    case True
    then obtain s' where "fetch s = (case ending s of Ok _ \<Rightarrow> Ok None | Err e \<Rightarrow> Err e | Panic \<Rightarrow> Panic, s')"
      using fetch_end[OF Suc.prems(1)] by blast
    with True show ?thesis by (cases "ending s") simp_all
  next
    case False
    then obtain c s' where c: "fetch s = (Ok (Some c), s')" "c \<noteq> []" "length c \<le> limit"
      "remaining s = c @ remaining s'" "ending s' = ending s" "inv s'"
      using fetch_some[OF Suc.prems(1)] by blast
    moreover have "length (remaining s') < fuel" using c(2,4) Suc.prems(2) by (cases c) auto
    ultimately show ?thesis using Suc.IH[of s'] by auto
  qed
qed

end

subsection \<open>In memory\<close>

definition mem_inv :: "nat \<Rightarrow> streaming_state \<Rightarrow> bool" where
  "mem_inv n s \<longleftrightarrow> 0 < n \<and> st_chunk_size s = n"

definition mem_remaining :: "streaming_state \<Rightarrow> bytes" where
  "mem_remaining s = drop (st_offset s) (st_data s)"

lemma drop_split_at: "m \<le> n \<Longrightarrow> n \<le> length xs \<Longrightarrow> drop m xs = take (n - m) (drop m xs) @ drop n xs"
  by (metis append_take_drop_id drop_drop le_add_diff_inverse2)

interpretation mem: chunk_stream mem_fetch_next_chunk mem_remaining "\<lambda>_. Ok ()" "mem_inv n" n for n
proof
  fix s assume a: "mem_inv n s" "mem_remaining s \<noteq> []"
  let ?stop = "min (st_offset s + n) (length (st_data s))"
  from a have lt: "st_offset s < length (st_data s)" "0 < n" "st_chunk_size s = n"
    by (auto simp: mem_inv_def mem_remaining_def)
  then show "\<exists>c s'. mem_fetch_next_chunk s = (Ok (Some c), s') \<and> c \<noteq> [] \<and> length c \<le> n \<and>
      mem_remaining s = c @ mem_remaining s' \<and> Ok () = Ok () \<and> mem_inv n s'"
    using drop_split_at[of "st_offset s" ?stop "st_data s"]
    by (intro exI[of _ "take (?stop - st_offset s) (drop (st_offset s) (st_data s))"] exI[of _ "s\<lparr>st_offset := ?stop\<rparr>"])
      (auto simp: mem_fetch_next_chunk_def mem_remaining_def mem_inv_def Let_def)
next
  fix s assume "mem_inv n s" "mem_remaining s = []"
  then show "\<exists>s'. mem_fetch_next_chunk s = (case Ok () of Ok _ \<Rightarrow> Ok None | Err e \<Rightarrow> Err e | Panic \<Rightarrow> Panic, s')"
    by (auto simp: mem_fetch_next_chunk_def mem_remaining_def)
qed

subsection \<open>On disk\<close>

definition file_inv :: "nat \<Rightarrow> file_backed \<times> disk \<Rightarrow> bool" where
  "file_inv n fd \<longleftrightarrow>
     0 < n \<and> fb_chunk_size (fst fd) = n \<and> dk_faults (snd fd) = [] \<and>
     (case dk_files (snd fd) (fb_path (fst fd)) of Some c \<Rightarrow> fb_total_len (fst fd) = length c | None \<Rightarrow> False)"

definition file_remaining :: "file_backed \<times> disk \<Rightarrow> bytes" where
  "file_remaining fd =
     (case dk_files (snd fd) (fb_path (fst fd)) of Some c \<Rightarrow> drop (fb_offset (fst fd)) c | None \<Rightarrow> [])"

interpretation on_disk: chunk_stream file_fetch_next_chunk file_remaining "\<lambda>_. Ok ()" "file_inv n" n for n
proof
  fix fd assume a: "file_inv n fd" "file_remaining fd \<noteq> []"
  obtain f d where fd: "fd = (f, d)" by fastforce
  from a obtain c where c: "dk_files d (fb_path f) = Some c" "fb_total_len f = length c" "fb_offset f < length c"
    "0 < n" "fb_chunk_size f = n" "dk_faults d = []"
    by (auto simp: fd file_inv_def file_remaining_def split: option.splits)
  let ?k = "min n (length c - fb_offset f)"
  show "\<exists>b s'. file_fetch_next_chunk fd = (Ok (Some b), s') \<and> b \<noteq> [] \<and> length b \<le> n \<and>
      file_remaining fd = b @ file_remaining s' \<and> Ok () = Ok () \<and> file_inv n s'"
    using c drop_split_at[of "fb_offset f" "fb_offset f + ?k" c]
    by (intro exI[of _ "take ?k (drop (fb_offset f) c)"] exI[of _ "(f\<lparr>fb_offset := fb_offset f + ?k\<rparr>, d)"])
      (auto simp: fd file_fetch_next_chunk_def read_exact_at_def io_calm file_remaining_def file_inv_def Let_def)
next
  fix fd assume "file_inv n fd" "file_remaining fd = []"
  then show "\<exists>s'. file_fetch_next_chunk fd = (case Ok () of Ok _ \<Rightarrow> Ok None | Err e \<Rightarrow> Err e | Panic \<Rightarrow> Panic, s')"
    by (auto simp: file_fetch_next_chunk_def file_remaining_def file_inv_def split: prod.splits option.splits)
qed

subsection \<open>From a worker\<close>

fun inbox_bytes :: "batched_message list \<Rightarrow> bytes" where
  "inbox_bytes (BM_Batch b # ms) = b @ inbox_bytes ms"
| "inbox_bytes _ = []"

fun inbox_ending :: "string \<Rightarrow> batched_message list \<Rightarrow> unit result" where
  "inbox_ending who (BM_Batch b # ms) = inbox_ending who ms"
| "inbox_ending who (BM_Done # ms) = Ok ()"
| "inbox_ending who (BM_Cancelled # ms) = Ok ()"
| "inbox_ending who (BM_Error m # ms) = Err (InternalError m)"
| "inbox_ending who [] = Err (WorkerCrashed (who @ '' disconnected unexpectedly: receiving on a closed channel''))"

definition worker_remaining :: "worker_stream \<Rightarrow> bytes" where
  "worker_remaining s =
     (if ws_done s \<or> ws_stream_error s \<noteq> None then []
      else (case ws_current_batch s of Some b \<Rightarrow> drop (ws_offset s) b | None \<Rightarrow> []) @ inbox_bytes (ws_inbox s))"

definition worker_ending :: "string \<Rightarrow> worker_stream \<Rightarrow> unit result" where
  "worker_ending who s =
     (case ws_stream_error s of
        Some m \<Rightarrow> Err (InternalError m)
      | None \<Rightarrow> if ws_done s then Ok () else inbox_ending who (ws_inbox s))"

definition ok_batch :: "bytes \<Rightarrow> bool" where
  "ok_batch b \<longleftrightarrow> b \<noteq> [] \<and> length b \<le> usize_max"

definition worker_inv :: "nat \<Rightarrow> worker_stream \<Rightarrow> bool" where
  "worker_inv n s \<longleftrightarrow>
     0 < n \<and> ws_chunk_size s = n \<and> (\<forall>b. BM_Batch b \<in> set (ws_inbox s) \<longrightarrow> ok_batch b) \<and>
     (case ws_current_batch s of Some b \<Rightarrow> ok_batch b | None \<Rightarrow> True)"

lemma slice_batch_spec:
  assumes "ws_current_batch s = Some b" and "ws_offset s < length b" and "worker_inv n s"
    and "\<not> ws_done s" and "ws_stream_error s = None"
  shows "\<exists>c s'. slice_batch label s = (Ok (Some c), s') \<and> c \<noteq> [] \<and> length c \<le> n \<and>
     worker_remaining s = c @ worker_remaining s' \<and> worker_ending who s' = worker_ending who s \<and> worker_inv n s'"
proof (cases "ws_offset s = 0 \<and> n \<ge> length b")
  case True
  with assms show ?thesis
    by (auto simp: slice_batch_def current_batch_len_def worker_remaining_def worker_ending_def worker_inv_def ok_batch_def)
next
  case False
  let ?stop = "min (min (ws_offset s + n) usize_max) (length b)"
  have b: "length b \<le> usize_max" "0 < n" "ws_chunk_size s = n" using assms(1,3) by (auto simp: worker_inv_def ok_batch_def)
  then have stop: "ws_offset s < ?stop" "?stop \<le> length b" "?stop - ws_offset s \<le> n" using assms(2) by auto
  have "drop (ws_offset s) b = take (?stop - ws_offset s) (drop (ws_offset s) b) @ drop ?stop b"
    using stop by (intro drop_split_at) auto
  moreover have "slice_batch label s = (Ok (Some (take (?stop - ws_offset s) (drop (ws_offset s) b))), s\<lparr>ws_offset := ?stop\<rparr>)"
    using False assms(1) b stop by (auto simp: slice_batch_def current_batch_len_def Let_def)
  moreover have "worker_inv n (s\<lparr>ws_offset := ?stop\<rparr>)" using assms(3) by (simp add: worker_inv_def)
  ultimately show ?thesis
    using assms stop by (auto simp: worker_remaining_def worker_ending_def)
qed

lemma worker_fetch_waiting:
  assumes "ws_stream_error s = None" and "\<not> ws_done s" and "ws_current_batch s = None \<or> ws_offset s \<ge> current_batch_len s"
  shows "worker_remaining s = inbox_bytes (ws_inbox s)" and "worker_ending who s = inbox_ending who (ws_inbox s)"
    and "ws_inbox s = BM_Batch b # ms \<Longrightarrow>
      worker_fetch label who s = slice_batch label (s\<lparr>ws_inbox := ms, ws_current_batch := Some b, ws_offset := 0\<rparr>)"
  using assms by (auto simp: worker_remaining_def worker_ending_def worker_fetch_def current_batch_len_def split: option.splits)

lemma worker_fetch_some:
  assumes "worker_inv n s" and "worker_remaining s \<noteq> []"
  shows "\<exists>c s'. worker_fetch label who s = (Ok (Some c), s') \<and> c \<noteq> [] \<and> length c \<le> n \<and>
     worker_remaining s = c @ worker_remaining s' \<and> worker_ending who s' = worker_ending who s \<and> worker_inv n s'"
proof -
  have live: "\<not> ws_done s" "ws_stream_error s = None" using assms(2) by (auto simp: worker_remaining_def split: if_splits)
  show ?thesis
  proof (cases "ws_current_batch s = None \<or> ws_offset s \<ge> current_batch_len s")
    case False
    then obtain b where "ws_current_batch s = Some b" "ws_offset s < length b" by (auto simp: current_batch_len_def)
    with slice_batch_spec[OF this assms(1) live, of label who] False live show ?thesis
      by (simp add: worker_fetch_def)
  next
    case True
    note w = worker_fetch_waiting[OF live(2,1) True]
    from assms(2) w(1) obtain b ms where inbox: "ws_inbox s = BM_Batch b # ms"
      by (cases "ws_inbox s" rule: inbox_bytes.cases) auto
    let ?s = "s\<lparr>ws_inbox := ms, ws_current_batch := Some b, ws_offset := 0\<rparr>"
    have "worker_inv n ?s" "0 < length b" using assms(1) inbox by (auto simp: worker_inv_def ok_batch_def)
    moreover have "worker_remaining ?s = worker_remaining s" "worker_ending who ?s = worker_ending who s"
      using w(1,2) inbox live by (simp_all add: worker_remaining_def worker_ending_def)
    ultimately show ?thesis
      using slice_batch_spec[of ?s b n label who] live w(3)[OF inbox] by simp
  qed
qed

lemma worker_fetch_end:
  assumes "worker_inv n s" and "worker_remaining s = []"
  shows "\<exists>s'. worker_fetch label who s =
    (case worker_ending who s of Ok _ \<Rightarrow> Ok None | Err e \<Rightarrow> Err e | Panic \<Rightarrow> Panic, s')"
proof (cases "ws_stream_error s = None \<and> \<not> ws_done s")
  case False
  then show ?thesis by (auto simp: worker_fetch_def worker_ending_def split: option.splits)
next
  case True
  then have wait: "ws_current_batch s = None \<or> ws_offset s \<ge> current_batch_len s"
    using assms(2) by (auto simp: worker_remaining_def current_batch_len_def split: option.splits)
  note w = worker_fetch_waiting[OF _ _ wait]
  show ?thesis
    using True assms wait w(1) w(2)[of who]
    by (cases "ws_inbox s" rule: inbox_bytes.cases)
      (auto simp: worker_fetch_def worker_inv_def ok_batch_def Let_def split: list.splits batched_message.splits)
qed

interpretation batched: chunk_stream batched_fetch_next_chunk worker_remaining "worker_ending ''Stream worker''" "worker_inv n" n for n
  unfolding batched_fetch_next_chunk_def by unfold_locales (blast intro: worker_fetch_some, rule worker_fetch_end)

interpretation async: chunk_stream async_fetch_next_chunk worker_remaining "worker_ending ''Async stream worker''" "worker_inv n" n for n
  unfolding async_fetch_next_chunk_def by unfold_locales (blast intro: worker_fetch_some, rule worker_fetch_end)

section \<open>Polling\<close>

lemma async_fetch_some:
  "worker_inv n s \<Longrightarrow> worker_remaining s \<noteq> [] \<Longrightarrow> \<exists>c s'. async_fetch_next_chunk s = (Ok (Some c), s')"
  by (drule (1) worker_fetch_some) (fastforce simp: async_fetch_next_chunk_def)

text \<open>A poll that takes a batch out of the channel does what the fetch would have started with.\<close>

lemma poll_takes_batch:
  assumes "worker_inv n s" and "ws_cancelled s \<longrightarrow> ws_done s" and idle: "ws_stream_error s = None" "\<not> ws_done s"
    "ws_current_batch s = None \<or> ws_offset s \<ge> current_batch_len s" and inbox: "ws_inbox s = BM_Batch b # ms"
  shows "\<exists>s'. poll_status True s = (AS_Ready, s') \<and> async_fetch_next_chunk s' = async_fetch_next_chunk s \<and>
           (\<exists>c s''. async_fetch_next_chunk s = (Ok (Some c), s''))"
proof -
  let ?s = "s\<lparr>ws_inbox := ms, ws_current_batch := Some b, ws_offset := 0\<rparr>"
  have b: "0 < length b" using assms(1) inbox by (auto simp: worker_inv_def ok_batch_def)
  then have "worker_remaining s \<noteq> []" using worker_fetch_waiting(1)[OF idle] inbox by auto
  moreover have "poll_status True s = (AS_Ready, ?s)"
    using idle b assms(2) inbox by (auto simp: poll_status_def pull_next_message_nonblocking_def current_batch_len_def)
  moreover have "async_fetch_next_chunk ?s = async_fetch_next_chunk s"
    using idle b inbox worker_fetch_waiting(3)[OF idle]
    by (simp add: async_fetch_next_chunk_def worker_fetch_def[of _ _ ?s] current_batch_len_def)
  ultimately show ?thesis using async_fetch_some[OF assms(1)] by blast
qed

text \<open>
  Polling an asynchronous stream does not disturb it: as long as the worker's channel is not closed
  with the outcome unread, a poll (whether or not a message has arrived) followed by a fetch gives exactly
  the chunk or the end, and leaves exactly the state, that the fetch alone would; and the status tells the
  truth about the next fetch.
\<close>

theorem poll_transparent:
  assumes "worker_inv n s" and "ws_cancelled s \<longrightarrow> ws_done s" and "ws_inbox s \<noteq> [] \<or> ws_done s \<or> ws_stream_error s \<noteq> None"
  shows "async_fetch_next_chunk (snd (poll_status arrived s)) = async_fetch_next_chunk s \<and>
     (case fst (poll_status arrived s) of
        AS_Ready \<Rightarrow> (\<exists>c s'. async_fetch_next_chunk s = (Ok (Some c), s'))
      | AS_Done \<Rightarrow> fst (async_fetch_next_chunk s) = Ok None
      | AS_Cancelled \<Rightarrow> fst (async_fetch_next_chunk s) = Ok None
      | AS_Error \<Rightarrow> is_err (fst (async_fetch_next_chunk s))
      | AS_Pending \<Rightarrow> \<not> arrived)"
proof -
  consider (ended) "ws_done s \<or> ws_stream_error s \<noteq> None"
    | (ready) "\<not> ws_done s" "ws_stream_error s = None" "ws_current_batch s \<noteq> None \<and> ws_offset s < current_batch_len s"
    | (waiting) m ms where "\<not> ws_done s" "ws_stream_error s = None" "ws_inbox s = m # ms"
        "ws_current_batch s = None \<or> ws_offset s \<ge> current_batch_len s"
    using assms(3) by (cases "ws_inbox s") fastforce+
  then show ?thesis
  proof cases
    case ended
    then show ?thesis
      using assms(2) by (auto simp: poll_status_def pull_next_message_nonblocking_def Let_def async_fetch_next_chunk_def
          worker_fetch_def is_err_def split: option.splits)
  next
    case ready
    then have "worker_remaining s \<noteq> []" by (auto simp: worker_remaining_def current_batch_len_def)
    with ready assms(2) async_fetch_some[OF assms(1)] show ?thesis
      by (auto simp: poll_status_def pull_next_message_nonblocking_def Let_def)
  next
    case waiting
    have wait: "\<not> (ws_current_batch s \<noteq> None \<and> ws_offset s < current_batch_len s)" using waiting(4) by auto
    show ?thesis
    proof (cases "\<exists>b. arrived \<and> m = BM_Batch b")
      case True
      with poll_takes_batch[OF assms(1,2) waiting(2,1,4)] waiting(3) show ?thesis by fastforce
    next
      case False
      with waiting wait assms(2) show ?thesis
        by (cases m; cases arrived) (auto simp: poll_status_def pull_next_message_nonblocking_def
            Let_def async_fetch_next_chunk_def worker_fetch_def is_err_def)
    qed
  qed
qed

theorem poll_transparent_witness:
  "async_fetch_next_chunk (snd (poll_status True (stream_of_messages 2 [BM_Batch [1, 2, 3], BM_Done]))) =
   async_fetch_next_chunk (stream_of_messages 2 [BM_Batch [1, 2, 3], BM_Done])"
  using poll_transparent[of 2 "stream_of_messages 2 [BM_Batch [1, 2, 3], BM_Done]" True]
  by (simp add: worker_inv_def ok_batch_def stream_of_messages_def)

text \<open>
  A crashed worker is hidden by a poll: when the channel is closed and nothing was delivered as the
  end, a fetch reports the crash, but a poll before it reports a clean end and makes the fetch report one too.
\<close>

theorem poll_hides_crash:
  assumes "ws_inbox s = []" and "\<not> ws_done s" and "ws_stream_error s = None" and "\<not> ws_cancelled s"
    and "ws_current_batch s = None \<or> ws_offset s \<ge> current_batch_len s"
  shows "(\<exists>m. fst (async_fetch_next_chunk s) = Err (WorkerCrashed m)) \<and>
     fst (poll_status arrived s) = AS_Done \<and> fst (async_fetch_next_chunk (snd (poll_status arrived s))) = Ok None"
  using assms by (auto simp: async_fetch_next_chunk_def worker_fetch_def poll_status_def
      pull_next_message_nonblocking_def Let_def current_batch_len_def)

theorem poll_hides_crash_witness:
  "fst (poll_status True (stream_of_messages 2 [])) = AS_Done \<and>
   fst (async_fetch_next_chunk (stream_of_messages 2 [])) \<noteq> Ok None"
  using poll_hides_crash[of "stream_of_messages 2 []" True] by (auto simp: stream_of_messages_def)

section \<open>A batched stream, end to end\<close>

text \<open>The rows in groups of at most \<open>n\<close>.\<close>

function groups :: "nat \<Rightarrow> 'a list \<Rightarrow> 'a list list" where
  "groups n xs = (if xs = [] \<or> n = 0 then [] else take n xs # groups n (drop n xs))"
  by pat_completeness auto

termination
  by (relation "measure (\<lambda>(n, xs). length xs)") auto

declare groups.simps [simp del]

lemma concat_groups: "0 < n \<Longrightarrow> concat (groups n xs) = xs"
  by (induction n xs rule: groups.induct) (subst groups.simps, auto)

lemma groups_length: "g \<in> set (groups n xs) \<Longrightarrow> length g \<le> n"
  by (induction n xs rule: groups.induct) (subst (asm) groups.simps, auto split: if_splits)

lemma take_rows_table:
  assumes "table_ok cols rows" and "length cols < 2 ^ 15"
  shows "take_rows (map (column_type \<circ> snd) cols) n (map table_row rows) None acc =
     Ok (acc @ map (map value_cell) (take n rows), map table_row (drop n rows))"
  using assms(1)
proof (induction n arbitrary: rows acc)
  case 0
  then show ?case by simp
next
  case (Suc n)
  then show ?case
    using read_table_row[OF _ assms(2), unfolded o_def] by (cases rows) (auto simp: table_ok_def o_def)
qed

lemma encode_row_buffer_Ok: "wf_buffer b \<Longrightarrow> encode_row_buffer b = Ok (header_bytes b @ payload_bytes b)"
  by (simp add: encode_row_buffer_def try_encode_Ok)

definition batch_message :: "(string \<times> data_type) list \<Rightarrow> sql_value list list \<Rightarrow> bytes" where
  "batch_message cols rows = header_bytes (table_buffer cols rows) @ payload_bytes (table_buffer cols rows)"

lemma table_ok_parts: "table_ok cols (a @ b) \<longleftrightarrow> table_ok cols a \<and> table_ok cols b"
  by (auto simp: table_ok_def)

lemma table_wf:
  assumes "table_ok cols rows" and "within_limits (table_buffer cols rows)"
  shows "wf_buffer (table_buffer cols rows)"
proof -
  have "length r = length cols" if "r \<in> set rows" for r
    using assms(1) that by (auto simp: table_ok_def list_all_iff dest!: list_all2_lengthD)
  with assms(2) show ?thesis
    by (auto simp: wf_buffer_def within_limits_def table_buffer_def column_count_def list_all_iff)
qed

lemma batch_loop_table:
  assumes "table_ok cols rows" and "length cols < 2 ^ 15" and "0 < n" and "\<And>i. \<not> cancel i"
    and "list_all (\<lambda>g. within_limits (table_buffer cols g)) (groups n rows)"
  shows "batch_loop (rb_columns (table_buffer cols [])) n None cancel i False (map table_row rows) =
     (map (batch_message cols) (groups n rows), Ok ())"
  using assms(1,3,5)
proof (induction n rows arbitrary: i rule: groups.induct)
  case (1 k rows)
  let ?cols = "rb_columns (table_buffer cols [])"
  have types: "map cm_odbc_type ?cols = map (column_type \<circ> snd) cols" by (simp add: table_buffer_def)
  note taken = take_rows_table[OF "1.prems"(1) assms(2), of k "[]", folded types]
  show ?case
  proof (cases "rows = []")
    case True
    then show ?thesis using taken assms(4) by (subst batch_loop.simps, subst groups.simps) simp
  next
    case False
    have grp: "groups k rows = take k rows # groups k (drop k rows)" using False "1.prems"(2) by (subst groups.simps) simp
    have ok: "table_ok cols (take k rows)" "table_ok cols (drop k rows)"
      using "1.prems"(1) table_ok_parts[of cols "take k rows" "drop k rows"] by simp_all
    have "wf_buffer (table_buffer cols (take k rows))" using table_wf[OF ok(1)] "1.prems"(3) grp by simp
    then have "encode_row_buffer \<lparr>rb_columns = ?cols, rb_rows = map (map value_cell) (take k rows)\<rparr> =
        Ok (batch_message cols (take k rows))"
      by (simp add: encode_row_buffer_Ok batch_message_def table_buffer_def)
    moreover have "batch_loop ?cols k None cancel (Suc i) False (map table_row (drop k rows)) =
        (map (batch_message cols) (groups k (drop k rows)), Ok ())"
      using 1 False ok(2) grp by simp
    ultimately show ?thesis
      using taken assms(4) False "1.prems"(2) grp by (subst batch_loop.simps) simp
  qed
qed

text \<open>An empty result is one batch without rows.\<close>

definition stream_groups :: "nat \<Rightarrow> sql_value list list \<Rightarrow> sql_value list list list" where
  "stream_groups n rows = (if rows = [] then [[]] else groups n rows)"

lemma batch_loop_first:
  assumes "table_ok cols rows" and "length cols < 2 ^ 15" and "0 < n" and "\<And>i. \<not> cancel i"
    and "list_all (\<lambda>g. within_limits (table_buffer cols g)) (stream_groups n rows)"
  shows "batch_loop (rb_columns (table_buffer cols [])) n None cancel 0 True (map table_row rows) =
     (map (batch_message cols) (stream_groups n rows), Ok ())"
proof (cases "rows = []")
  case True
  have types: "map cm_odbc_type (rb_columns (table_buffer cols [])) = map (column_type \<circ> snd) cols"
    by (simp add: table_buffer_def)
  have "wf_buffer (table_buffer cols [])" using True assms(1,5) table_wf[of cols "[]"] by (simp add: stream_groups_def)
  then have "encode_row_buffer \<lparr>rb_columns = rb_columns (table_buffer cols []), rb_rows = []\<rparr> = Ok (batch_message cols [])"
    by (simp add: encode_row_buffer_Ok batch_message_def table_buffer_def)
  with True take_rows_table[OF assms(1,2), of n "[]", folded types] assms(4) show ?thesis
    by (subst batch_loop.simps) (simp add: stream_groups_def)
next
  case False
  have "batch_loop cs n None cancel 0 True (map table_row rows) = batch_loop cs n None cancel 0 False (map table_row rows)"
    if "map cm_odbc_type cs = map (column_type \<circ> snd) cols" for cs
    using take_rows_table[OF assms(1,2), of n "[]"] that False assms(3)
    by (subst (1 2) batch_loop.simps) simp
  then show ?thesis
    using batch_loop_table[OF assms(1-3), where cancel = cancel and i = 0] assms(4,5) False by (simp add: stream_groups_def table_buffer_def)
qed

lemma inbox_batches:
  "inbox_bytes (map BM_Batch bs @ [BM_Done]) = concat bs" "inbox_ending who (map BM_Batch bs @ [BM_Done]) = Ok ()"
  by (induction bs) simp_all

lemma batch_message_ok: "within_limits (table_buffer cols g) \<Longrightarrow> ok_batch (batch_message cols g)"
  by (auto simp: ok_batch_def batch_message_def length_header_bytes within_limits_def decoder_limits
      simp flip: length_greater_0_conv)

text \<open>
  C24. A batched stream, end to end: draining it with enough fetches yields chunks of at most the chunk
  size whose concatenation is the sequence of batch messages; each batch is a complete result message of
  at most the fetch size in rows, and the rows of the batches are, in order, the rows of the table.
\<close>

theorem batched_stream_end_to_end:
  assumes "prepare sql = Inr stmt" and "sr_execute (stmt []) = Inr (Some (table_cursor cols rows))"
    and "table_ok cols rows" and "length cols < 2 ^ 15" and "handles conn_id = Inr prepare"
    and "list_all (\<lambda>g. within_limits (table_buffer cols g)) (stream_groups (max fetch_size 1) rows)"
  shows "\<exists>s batches groups. start_worker_stream True (Some handles) conn_id sql fetch_size chunk_size (\<lambda>_. False) = Ok s \<and>
     concat groups = rows \<and> list_all (\<lambda>g. length g \<le> max fetch_size 1) groups \<and>
     list_all2 (\<lambda>m g. parse m = Ok (decoded_of (table_buffer cols g))) batches groups \<and>
     (\<forall>fuel > length (concat batches). \<exists>chunks. drain batched_fetch_next_chunk fuel s = Some (chunks, Ok ()) \<and>
        concat chunks = concat batches \<and> list_all (\<lambda>c. c \<noteq> [] \<and> length c \<le> max chunk_size 1) chunks)"
proof -
  let ?n = "max fetch_size 1"
  let ?gs = "stream_groups ?n rows"
  let ?bs = "map (batch_message cols) ?gs"
  let ?s = "stream_of_messages chunk_size (map BM_Batch ?bs @ [BM_Done])"
  have loop: "batch_loop (rb_columns (table_buffer cols [])) ?n None (\<lambda>_. False) 0 True (map table_row rows) = (?bs, Ok ())"
    using assms(3,4,6) by (intro batch_loop_first) simp_all
  have "rb_columns (table_buffer cols rows) = rb_columns (table_buffer cols [])" by (simp add: table_buffer_def)
  with loop read_table_columns[OF assms(4), of rows] assms(1,2,5)
  have start: "start_worker_stream True (Some handles) conn_id sql fetch_size chunk_size (\<lambda>_. False) = Ok ?s"
    by (simp add: start_worker_stream_def execute_streaming_batched_def table_cursor_def worker_outcome_def)
  have gs: "concat ?gs = rows" "list_all (\<lambda>g. length g \<le> ?n) ?gs"
    using groups_length[of _ ?n rows] by (auto simp: stream_groups_def concat_groups list_all_iff)
  have ok: "table_ok cols g" "within_limits (table_buffer cols g)" if "g \<in> set ?gs" for g
    using assms(3,6) gs(1) that unfolding table_ok_def list_all_iff by (metis in_set_conv_decomp concat_append concat.simps(2) Un_iff set_append)+
  have parse: "list_all2 (\<lambda>m g. parse m = Ok (decoded_of (table_buffer cols g))) ?bs ?gs"
    by (simp only: list.rel_map)
      (auto simp: batch_message_def intro!: list.rel_refl_strong encode_parse(2) table_wf ok)
  have inv: "worker_inv (max chunk_size 1) ?s"
    using ok batch_message_ok by (auto simp: worker_inv_def stream_of_messages_def)
  have rem: "worker_remaining ?s = concat ?bs" "worker_ending ''Stream worker'' ?s = Ok ()"
    by (simp_all only: worker_remaining_def worker_ending_def stream_of_messages_def worker_stream.simps inbox_batches) simp_all
  have "\<exists>chunks. drain batched_fetch_next_chunk fuel ?s = Some (chunks, Ok ()) \<and> concat chunks = concat ?bs \<and>
      list_all (\<lambda>c. c \<noteq> [] \<and> length c \<le> max chunk_size 1) chunks" if "fuel > length (concat ?bs)" for fuel
    using batched.drain_complete[OF inv, of fuel] that rem by simp
  with start gs parse show ?thesis by blast
qed

theorem batched_stream_end_to_end_witness:
  "\<exists>s batches groups. start_worker_stream True (Some (\<lambda>_. Inr (oc_prepare (example_conn (Inr (Some (table_cursor example_cols example_rows))) []))))
       1 ''SELECT'' 1 16 (\<lambda>_. False) = Ok s \<and> concat groups = example_rows \<and>
     list_all2 (\<lambda>m g. parse m = Ok (decoded_of (table_buffer example_cols g))) batches groups \<and>
     (\<exists>chunks. drain batched_fetch_next_chunk (Suc (length (concat batches))) s = Some (chunks, Ok ()) \<and> concat chunks = concat batches)"
proof -
  let ?p = "oc_prepare (example_conn (Inr (Some (table_cursor example_cols example_rows))) [])"
  let ?st = "\<lambda>_ :: string option list. \<lparr>sr_execute = Inr (Some (table_cursor example_cols example_rows)), sr_row_count = Inr (Some 3), sr_more = []\<rparr>"
  have "?p ''SELECT'' = Inr ?st" by (simp add: example_conn_def)
  moreover have "stream_groups (max 1 1) example_rows = [[[SV_Int 7, SV_Null]], [[SV_Null, SV_Text ''hi'']]]"
    by (simp add: stream_groups_def example_rows_def groups.simps)
  moreover have "list_all (\<lambda>g. within_limits (table_buffer example_cols g)) [[[SV_Int 7, SV_Null]], [[SV_Null, SV_Text ''hi'']]]"
    by (simp add: within_limits_def table_buffer_def example_cols_def column_count_def row_count_def
        payload_bytes_def row_bytes_def byte_simps info_of_def wf_info_def wf_cell_def valid_str_ascii ascii_def decoder_limits)
  moreover have "length example_cols < 2 ^ 15" by (simp add: example_cols_def)
  ultimately show ?thesis
    using batched_stream_end_to_end[of ?p "''SELECT''" ?st example_cols example_rows "\<lambda>_. Inr ?p" 1 1 16] example_table_ok(1)
    by fastforce
qed

section \<open>A spilled stream, end to end\<close>

lemma cell_pieces_concat: "concat (cell_pieces c) = cell_bytes c"
  by (simp add: cell_pieces_def cell_bytes_def split: option.splits)

lemma encode_pieces_concat: "concat (encode_pieces b) = header_bytes b @ payload_bytes b"
proof -
  have "concat (concat (map cell_pieces row)) = row_bytes row" for row
    by (induction row) (simp_all add: row_bytes_def cell_pieces_concat)
  then have "concat (concat (map (\<lambda>row. concat (map cell_pieces row)) rows)) = concat (map row_bytes rows)" for rows
    by (induction rows) simp_all
  moreover have "concat (concat (map (\<lambda>c. [u16_le (odbc_type_code (cm_odbc_type c)), u16_le (of_nat (length (cm_name c))),
      as_bytes (cm_name c)]) cols)) = concat (map (column_bytes \<circ> info_of) cols)" for cols
    by (induction cols) (simp_all add: column_bytes_def info_of_def)
  ultimately show ?thesis by (simp add: encode_pieces_def header_bytes_def payload_bytes_def)
qed

definition stream_inv :: "nat \<Rightarrow> stream_state \<times> disk \<Rightarrow> bool" where
  "stream_inv n sd = (case sd of (InMemory s, d) \<Rightarrow> mem_inv n s | (FileBacked f, d) \<Rightarrow> file_inv n (f, d))"

definition stream_remaining :: "stream_state \<times> disk \<Rightarrow> bytes" where
  "stream_remaining sd = (case sd of (InMemory s, d) \<Rightarrow> mem_remaining s | (FileBacked f, d) \<Rightarrow> file_remaining (f, d))"

interpretation stream: chunk_stream stream_fetch_next_chunk stream_remaining "\<lambda>_. Ok ()" "stream_inv n" n for n
proof
  fix sd assume a: "stream_inv n sd" "stream_remaining sd \<noteq> []"
  obtain st d where sd: "sd = (st, d)" by fastforce
  show "\<exists>c s'. stream_fetch_next_chunk sd = (Ok (Some c), s') \<and> c \<noteq> [] \<and> length c \<le> n \<and>
      stream_remaining sd = c @ stream_remaining s' \<and> Ok () = Ok () \<and> stream_inv n s'"
  proof (cases st)
    case (InMemory s)
    with a sd mem.fetch_some[of n s] show ?thesis
      by (force simp: stream_inv_def stream_remaining_def stream_fetch_next_chunk_def)
  next
    case (FileBacked f)
    with a sd on_disk.fetch_some[of n "(f, d)"] obtain c f' d' where
      "file_fetch_next_chunk (f, d) = (Ok (Some c), f', d')" "c \<noteq> []" "length c \<le> n"
      "file_remaining (f, d) = c @ file_remaining (f', d')" "file_inv n (f', d')"
      by (auto simp: stream_inv_def stream_remaining_def)
    with sd FileBacked show ?thesis
      by (intro exI[of _ c] exI[of _ "(FileBacked f', d')"])
        (simp add: stream_inv_def stream_remaining_def stream_fetch_next_chunk_def)
  qed
next
  fix sd assume a: "stream_inv n sd" "stream_remaining sd = []"
  obtain st d where sd: "sd = (st, d)" by fastforce
  show "\<exists>s'. stream_fetch_next_chunk sd = (case Ok () of Ok _ \<Rightarrow> Ok None | Err e \<Rightarrow> Err e | Panic \<Rightarrow> Panic, s')"
  proof (cases st)
    case (InMemory s)
    with a sd mem.fetch_end[of n s] show ?thesis
      by (force simp: stream_inv_def stream_remaining_def stream_fetch_next_chunk_def)
  next
    case (FileBacked f)
    with a sd on_disk.fetch_end[of n "(f, d)"] show ?thesis
      by (force simp: stream_inv_def stream_remaining_def stream_fetch_next_chunk_def)
  qed
qed

lemma finish_calm:
  assumes "spill_inv (s, d)" and "dk_faults d = []"
  obtains src s' d' where "finish_for_streaming_read s d = (Ok src, s', d')" "dk_faults d' = []"
    "sp_file s' = None" "sp_path s' = None"
    "case src of SRS_Memory bs \<Rightarrow> bs = spill_content (s, d) | SRS_File p \<Rightarrow> dk_files d' p = Some (spill_content (s, d))"
proof -
  obtain s1 d1 where c: "spill_close s d = (Ok (sp_path s), s1, d1)" "dk_faults d1 = []"
    using spill_close_calm[OF assms(2)] by blast
  from spill_close_ok[OF assms(1) c(1)] c that show thesis
    by (cases "sp_path s") (auto simp: finish_for_streaming_read_def)
qed

lemma spill_stream_of_calm:
  assumes "wf_buffer b" and "dk_faults d = []" and "0 < chunk_size"
  shows "\<exists>st d'. spill_stream_of dir chunk_size t b d = (Ok st, d') \<and> stream_inv chunk_size (st, d') \<and>
     stream_remaining (st, d') = header_bytes b @ payload_bytes b"
proof -
  let ?wr = "\<lambda>bs (b, s, d). writer_write bs b s d" and ?msg = "header_bytes b @ payload_bytes b"
  obtain buf s1 d1 where w: "write_pieces ?wr (encode_pieces b) ([], spill_new dir t, d) = (Ok (), buf, s1, d1)"
    and i1: "spill_inv (s1, d1)" "spill_content (s1, d1) @ buf = ?msg" "dk_faults d1 = []"
    using writer.pieces_calm[of "([], spill_new dir t, d)" "encode_pieces b"] assms(2)
    by (auto simp: writer_inv_def writer_content_def encode_pieces_concat)
  have enc: "encode_to_spill b ([], spill_new dir t, d) = (Ok (), buf, s1, d1)"
    using w by (simp add: encode_to_spill_def try_encode_Ok[OF assms(1)])
  obtain b2 s2 d2 where f: "writer_flush buf s1 d1 = (Ok (), b2, s2, d2)" "dk_faults d2 = []"
    using write_chunk_calm[OF i1(3), of buf s1] i1(3) that by (cases "buf = []") (auto simp: writer_flush_def)
  have i2: "spill_inv (s2, d2)" "spill_content (s2, d2) = ?msg"
    using writer_flush_ok[OF i1(1) f(1)] i1(2) by simp_all
  obtain src s3 d3 where fin: "finish_for_streaming_read s2 d2 = (Ok src, s3, d3)" "dk_faults d3 = []"
    "sp_file s3 = None" "sp_path s3 = None"
    "case src of SRS_Memory bs \<Rightarrow> bs = ?msg | SRS_File p \<Rightarrow> dk_files d3 p = Some ?msg"
    using finish_calm[OF i2(1) f(2)] i2(2) by metis
  have drop: "spill_drop s3 d3 = d3" using fin(3,4) by (simp add: spill_drop_def bw_drop_def)
  show ?thesis
    using enc f(1) fin drop assms(3)
    by (cases src) (auto simp: spill_stream_of_def io_calm stream_inv_def stream_remaining_def mem_inv_def
        mem_remaining_def file_inv_def file_remaining_def)
qed

text \<open>
  C25. A buffered stream, end to end, with or without spilling: on a working disk the result of a
  statement, a table of nulls, integers and ASCII text within the limits of the row decoder, is delivered in
  chunks of at most the chunk size whose concatenation is one result message, whether it stayed in memory or went
  through a temporary file. The message decodes to the table, or, for a non-empty SQL Server \<open>FOR JSON\<close> result,
  to the one row of its joined text (\<open>delivered\<close>, which is the table itself for any other result).
\<close>

theorem spilled_stream_end_to_end:
  assumes "prepare sql = Inr stmt" and "sr_execute (stmt []) = Inr (Some (table_cursor cols rows))"
    and "table_ok cols rows" and "within_limits (delivered cols rows)" and "dk_faults d = []" and "0 < chunk_size"
  shows "\<exists>st d' msg. execute_streaming_with_spill dir chunk_size prepare sql threshold d = (Ok st, d') \<and>
     parse msg = Ok (decoded_of (delivered cols rows)) \<and>
     (\<not> is_for_json_result (table_buffer cols rows) \<longrightarrow> parse msg = Ok (decoded_of (table_buffer cols rows))) \<and>
     (\<forall>fuel > length msg. \<exists>chunks. drain stream_fetch_next_chunk fuel (st, d') = Some (chunks, Ok ()) \<and>
        concat chunks = msg \<and> list_all (\<lambda>c. c \<noteq> [] \<and> length c \<le> chunk_size) chunks)"
proof -
  let ?b = "delivered cols rows"
  let ?msg = "header_bytes ?b @ payload_bytes ?b"
  let ?mem = "(Ok (InMemory \<lparr>st_data = ?msg, st_offset = 0, st_chunk_size = chunk_size\<rparr>), d) :: stream_state result \<times> disk"
  note tb = delivered_wf[OF assms(3,4)]
  have "stream_inv chunk_size (InMemory \<lparr>st_data = ?msg, st_offset = 0, st_chunk_size = chunk_size\<rparr>, d)"
    "stream_remaining (InMemory \<lparr>st_data = ?msg, st_offset = 0, st_chunk_size = chunk_size\<rparr>, d) = ?msg"
    using assms(6) by (simp_all add: stream_inv_def stream_remaining_def mem_inv_def mem_remaining_def)
  moreover have "execute_streaming_with_spill dir chunk_size prepare sql threshold d =
      (case threshold of Some t \<Rightarrow> if t > 0 then spill_stream_of dir chunk_size t ?b d else ?mem | None \<Rightarrow> ?mem)"
    using assms(1,2) tb(3) encode_row_buffer_Ok[OF tb(1)]
    by (simp add: execute_streaming_with_spill_def delivered_def[symmetric] split: option.splits)
  ultimately obtain st d' where run: "execute_streaming_with_spill dir chunk_size prepare sql threshold d = (Ok st, d')"
    and inv: "stream_inv chunk_size (st, d')" "stream_remaining (st, d') = ?msg"
    using spill_stream_of_calm[OF tb(1) assms(5,6), of dir] by (cases threshold) (auto split: if_splits, fastforce)
  have dr: "\<forall>fuel > length ?msg. \<exists>chunks. drain stream_fetch_next_chunk fuel (st, d') = Some (chunks, Ok ()) \<and>
      concat chunks = ?msg \<and> list_all (\<lambda>c. c \<noteq> [] \<and> length c \<le> chunk_size) chunks"
    using stream.drain_complete[OF inv(1)] inv(2) by simp
  have js: "\<not> is_for_json_result (table_buffer cols rows) \<longrightarrow> parse ?msg = Ok (decoded_of (table_buffer cols rows))"
    using encode_parse(2)[OF tb(1)] delivered_other[of cols rows] by (intro impI) simp
  show ?thesis by (intro exI conjI) (fact run encode_parse(2)[OF tb(1)] js dr)+
qed

theorem spilled_stream_end_to_end_witness:
  "\<exists>st d' msg. execute_streaming_with_spill ''/tmp'' 8 (oc_prepare (example_conn (Inr (Some (table_cursor example_cols example_rows))) []))
       ''SELECT'' (Some 1) (calm_disk [5]) = (Ok st, d') \<and> parse msg = Ok (decoded_of (table_buffer example_cols example_rows)) \<and>
     (\<exists>chunks. drain stream_fetch_next_chunk (Suc (length msg)) (st, d') = Some (chunks, Ok ()) \<and> concat chunks = msg)"
proof -
  let ?p = "oc_prepare (example_conn (Inr (Some (table_cursor example_cols example_rows))) [])"
  let ?st = "\<lambda>_ :: string option list. \<lparr>sr_execute = Inr (Some (table_cursor example_cols example_rows)), sr_row_count = Inr (Some 3), sr_more = []\<rparr>"
  have "?p ''SELECT'' = Inr ?st" by (simp add: example_conn_def)
  with spilled_stream_end_to_end[of ?p "''SELECT''" ?st example_cols example_rows "calm_disk [5]" 8 "''/tmp''" "Some 1"]
    example_table_ok(1,3,5)
  show ?thesis by (fastforce simp: calm_disk_def)
qed

section \<open>Frames and the envelope\<close>

lemma result_frame_of_item:
  assumes "encode_cursor cz engine_new cu = Ok enc" and "wf_item (MR_ResultSet enc)"
  shows "result_frame cu = Ok (encode_item (MR_ResultSet enc))"
proof -
  from assms(1) obtain b where b: "fill_row_buffer from_odbc_sql_type cu = Ok b" "encode (coalesce_for_json_rows b) = (Ok enc :: bytes result)"
    by (auto simp: encode_cursor_def)
  then have "encode_row_buffer (coalesce_for_json_rows b) = Ok enc"
    by (cases "try_encode (coalesce_for_json_rows b)") (auto simp: encode_def encode_row_buffer_def)
  moreover have "length enc < 2 ^ 32" using assms(2) by (simp add: MAX_MULTI_RESULT_PAYLOAD_def)
  ultimately show ?thesis
    using b(1) by (simp add: result_frame_def encode_cursor_to_buffer_def frame_item_def try_u32_def usize_checked_add_def
        MULTI_STREAM_ITEM_TAG_RESULT_SET_def TAG_RESULT_SET_def)
qed

lemma count_frame_of_item: "count_frame rc = Ok (encode_item (MR_RowCount rc))"
  by (simp add: count_frame_def frame_item_def try_u32_def usize_checked_add_def MULTI_STREAM_ITEM_TAG_ROW_COUNT_def TAG_ROW_COUNT_def)

lemma multi_stream_loop_items:
  "drive_more_results cz engine_new advs items = Ok all \<Longrightarrow> list_all wf_item all \<Longrightarrow>
   \<exists>rest. all = items @ rest \<and> multi_stream_loop (\<lambda>_. False) i advs = (map encode_item rest, Ok ())"
proof (induction advs arbitrary: items i)
  case Nil
  then show ?case by simp
next
  case (Cons a advs)
  show ?case
  proof (cases a)
    case (Adv_Success cols cu rc)
    with Cons.prems(1) obtain n where n: "cols = Inr n" by auto
    show ?thesis
    proof (cases "0 < sint n")
      case True
      with Cons.prems(1) Adv_Success n obtain enc where enc: "encode_cursor cz engine_new cu = Ok enc"
        "drive_more_results cz engine_new advs (items @ [MR_ResultSet enc]) = Ok all" by auto
      from Cons.IH[OF enc(2) Cons.prems(2), of "Suc i"] obtain rest where
        rest: "all = items @ MR_ResultSet enc # rest" "multi_stream_loop (\<lambda>_. False) (Suc i) advs = (map encode_item rest, Ok ())" by auto
      with Cons.prems(2) result_frame_of_item[OF enc(1)] Adv_Success n True show ?thesis by auto
    next
      case False
      with Cons.prems(1) Adv_Success n obtain k where k: "rc = Inr k"
        "drive_more_results cz engine_new advs (items @ [MR_RowCount k]) = Ok all" by auto
      from Cons.IH[OF k(2) Cons.prems(2), of "Suc i"] obtain rest where
        "all = items @ MR_RowCount k # rest" "multi_stream_loop (\<lambda>_. False) (Suc i) advs = (map encode_item rest, Ok ())" by auto
      with Adv_Success n False k(1) show ?thesis by (auto simp: count_frame_of_item)
    qed
  qed (use Cons.prems in \<open>auto simp: is_no_more_results_def split: if_splits\<close>)
qed

text \<open>
  C26. The streamed form of a batch is the materialised one: whenever \<open>execute_multi_result\<close> produces an
  envelope of items within the limits, the streaming worker, left uncancelled, sends exactly one frame
  per item, and the frames one after the other are the body of that envelope.
\<close>

theorem multi_stream_equals_envelope:
  assumes "prepare sql = Inr stmt" and "collect_results cz engine_new (stmt []) = Ok items" and "list_all wf_item items"
  shows "drive_multi_result_stream prepare sql (\<lambda>_. False) = (map encode_item items, Ok ()) \<and>
     execute_multi_result_inner cz engine_new prepare sql = Ok (encode_multi items) \<and>
     drop 12 (encode_multi items) = concat (fst (drive_multi_result_stream prepare sql (\<lambda>_. False)))"
proof -
  from assms(2) obtain c where c: "sr_execute (stmt []) = Inr c" by (auto simp: collect_results_def)
  have "drive_multi_result_stream prepare sql (\<lambda>_. False) = (map encode_item items, Ok ())"
  proof (cases c)
    case None
    with assms(2) c obtain rc where rc: "initial_row_count (stmt []) = Ok rc"
      "drive_more_results cz engine_new (sr_more (stmt [])) [MR_RowCount rc] = Ok items"
      by (auto simp: collect_results_def)
    from multi_stream_loop_items[OF rc(2) assms(3), of 1] obtain rest where
      "items = MR_RowCount rc # rest" "multi_stream_loop (\<lambda>_. False) 1 (sr_more (stmt [])) = (map encode_item rest, Ok ())" by auto
    with assms(1) c None rc(1) show ?thesis by (simp add: drive_multi_result_stream_def count_frame_of_item)
  next
    case (Some cu)
    with assms(2) c obtain enc where enc: "encode_cursor cz engine_new cu = Ok enc"
      "drive_more_results cz engine_new (sr_more (stmt [])) [MR_ResultSet enc] = Ok items"
      by (auto simp: collect_results_def)
    from multi_stream_loop_items[OF enc(2) assms(3), of 1] obtain rest where
      "items = MR_ResultSet enc # rest" "multi_stream_loop (\<lambda>_. False) 1 (sr_more (stmt [])) = (map encode_item rest, Ok ())" by auto
    with assms(1,3) c Some result_frame_of_item[OF enc(1)] show ?thesis by (simp add: drive_multi_result_stream_def)
  qed
  with assms(1,2) show ?thesis
    by (simp add: execute_multi_result_inner_def encode_multi_def encode_items_concat)
qed

theorem multi_stream_equals_envelope_witness:
  "drive_multi_result_stream (oc_prepare (example_conn (Inr None) [Adv_Success (Inr 0) (table_cursor [] []) (Inr 5)])) ''SELECT'' (\<lambda>_. False) =
     (map encode_item [MR_RowCount 3, MR_RowCount 5], Ok ())"
  using multi_stream_equals_envelope[of "oc_prepare (example_conn (Inr None) [Adv_Success (Inr 0) (table_cursor [] []) (Inr 5)])" "''SELECT''"
      "\<lambda>_. \<lparr>sr_execute = Inr None, sr_row_count = Inr (Some 3), sr_more = [Adv_Success (Inr 0) (table_cursor [] []) (Inr 5)]\<rparr>"
      rle "[MR_RowCount 3, MR_RowCount 5]"]
  by (simp add: example_conn_def collect_results_def initial_row_count_def)

text \<open>
  The batching worker tells cancellation from failure by the word \<open>cancelled\<close> in the message: a server
  error that contains it ends the stream as if the client had cancelled, and the fetch reports no error.
\<close>

lemma error_taken_for_cancellation:
  "worker_outcome (Err (OdbcApi ''Operation cancelled by server'')) = [BM_Cancelled] \<and>
   fst (batched_fetch_next_chunk (stream_of_messages 8 (worker_outcome (Err (OdbcApi ''Operation cancelled by server''))))) = Ok None"
  by (simp add: worker_outcome_def batched_fetch_next_chunk_def worker_fetch_def stream_of_messages_def)

end
