(* ===== verification/Session.thy ===== *)
theory Session
  imports Xa Streaming "HOL-Library.AList"
begin

text \<open>
  \<open>ffi/mod.rs\<close>, first part: the global state behind the C interface (its tables of connections,
  transactions, XA branches, statements, streams, asynchronous requests and pending results), the errors
  a client can ask for, and the entry points for the environment, connections, transactions, savepoints
  and XA branches; with \<open>engine/connection.rs\<close>, \<open>engine/environment.rs\<close> and \<open>engine/statement.rs\<close> behind them.

  A \<open>HashMap\<close> is the list of its entries in iteration order. An entry point returns its code and the
  state it leaves; text arguments are the bytes of a C string, \<open>None\<close> for a null pointer. A panic is caught at
  the boundary and becomes a code; when it strikes under the global lock, the lock is poisoned. The
  counters of the metrics, the audit log and the metadata cache are left out.
\<close>

section \<open>The tables\<close>

type_synonym ('k, 'v) table = "('k \<times> 'v) list"

definition drop_keys :: "'k list \<Rightarrow> ('k, 'v) table \<Rightarrow> ('k, 'v) table" where
  "drop_keys ks t = filter (\<lambda>(k, _). k \<notin> set ks) t"

definition keys_where :: "('v \<Rightarrow> bool) \<Rightarrow> ('k, 'v) table \<Rightarrow> 'k list" where
  "keys_where P t = map fst (filter (\<lambda>(_, v). P v) t)"

record odbc_connection = ocn_conn_id :: u32

record connection_error =
  ce_simple_message :: string
  ce_structured :: "structured_error option"

record statement_handle =
  sh_conn_id :: u32
  sh_sql :: string
  sh_timeout_ms :: u32
  sh_max_buffer_size :: "u32 option"
  sh_fetch_size :: "u32 option"
  sh_async_fetch :: bool

definition statement_new :: "u32 \<Rightarrow> string \<Rightarrow> u32 \<Rightarrow> statement_handle" where
  "statement_new conn_id sql timeout_ms =
     \<lparr>sh_conn_id = conn_id, sh_sql = sql, sh_timeout_ms = timeout_ms, sh_max_buffer_size = None,
      sh_fetch_size = None, sh_async_fetch = False\<rparr>"

definition statement_timeout_sec :: "statement_handle \<Rightarrow> usize option" where
  "statement_timeout_sec st =
     (if sh_timeout_ms st = 0 then None else Some (unat (max (sh_timeout_ms st div 1000) 1)))"

datatype stream_kind = SK_Buffer stream_state | SK_Batched worker_stream | SK_AsyncBatched worker_stream

record pending_stream_chunk =
  pc_data :: bytes
  pc_has_more :: bool

datatype pending_result_key =
    PK_ExecQuery u32 u64
  | PK_ExecQueryParams u32 u64 u64
  | PK_ExecQueryMulti u32 u64
  | PK_Execute u32 u64 u32 u32

record pending_result_buffer =
  pb_data :: bytes
  pb_created_at :: nat

text \<open>
  An asynchronous request. The outcome is behind a mutex, \<open>None\<close> when it is poisoned. The handle of the
  task only serves to abort it, which may keep the worker from finishing.
\<close>

datatype async_request_outcome = AR_Pending | AR_Ready "bytes result" | AR_Cancelled | AR_Consumed

record async_request_slot =
  ar_conn_id :: u32
  ar_cancelled :: bool
  ar_outcome :: "async_request_outcome option"

record async_request_manager =
  am_next_request_id :: u32
  am_requests :: "(u32, async_request_slot) table"

text \<open>
  \<open>gs_env\<close> is the poison flag of the environment's mutex once there is one; \<open>gs_world\<close> the handle manager
  that the environment and every connection share; \<open>gs_disk\<close> the files of spilled streams.
  A pooled connection is its pool.
\<close>

record global_state =
  gs_poisoned :: bool
  gs_env :: "bool option"
  gs_world :: world
  gs_disk :: disk
  gs_connections :: "(u32, odbc_connection) table"
  gs_transactions :: "(u32, transaction) table"
  gs_xa_active :: "(u32, xa_transaction) table"
  gs_xa_preparing :: "(u32, preparing_xa) table"
  gs_xa_prepared :: "(u32, prepared_xa) table"
  gs_statements :: "(u32, statement_handle) table"
  gs_streams :: "(u32, stream_kind) table"
  gs_stream_connections :: "(u32, u32) table"
  gs_pending_chunks :: "(u32, pending_stream_chunk) table"
  gs_pending_results :: "(pending_result_key, pending_result_buffer) table"
  gs_pooled :: "(u32, u32) table"
  gs_next_stream_id :: u32
  gs_next_txn_id :: u32
  gs_next_xa_id :: u32
  gs_next_stmt_id :: u32
  gs_last_error :: "string option"
  gs_last_structured_error :: "structured_error option"
  gs_connection_errors :: "(u32, connection_error) table"
  gs_async :: async_request_manager

definition async_manager_new :: async_request_manager where
  "async_manager_new = \<lparr>am_next_request_id = 1, am_requests = []\<rparr>"

text \<open>\<open>get_global_state\<close>: the state of a fresh process, on a given disk.\<close>

definition fresh_state :: "disk \<Rightarrow> global_state" where
  "fresh_state d =
     \<lparr>gs_poisoned = False, gs_env = None, gs_world = \<lparr>w_poisoned = False, w_handles = handle_manager_new\<rparr>, gs_disk = d,
      gs_connections = [], gs_transactions = [], gs_xa_active = [], gs_xa_preparing = [], gs_xa_prepared = [],
      gs_statements = [], gs_streams = [], gs_stream_connections = [], gs_pending_chunks = [], gs_pending_results = [],
      gs_pooled = [], gs_next_stream_id = 1, gs_next_txn_id = 1, gs_next_xa_id = 1, gs_next_stmt_id = 1,
      gs_last_error = None, gs_last_structured_error = None, gs_connection_errors = [], gs_async = async_manager_new\<rparr>"

definition MAX_ID_ALLOC_ATTEMPTS :: nat where "MAX_ID_ALLOC_ATTEMPTS = 1000"

text \<open>A panic caught by \<open>ffi_guard_int\<close>, with the global lock held or not.\<close>

definition FFI_PANIC :: int where "FFI_PANIC = - 4"

definition panicked :: "bool \<Rightarrow> global_state \<Rightarrow> int \<times> global_state" where
  "panicked locked s = (FFI_PANIC, if locked then s\<lparr>gs_poisoned := True\<rparr> else s)"

text \<open>\<open>CStr::from_ptr(p).to_str()\<close>\<close>

definition c_str :: "bytes \<Rightarrow> string option" where
  "c_str bs = (case from_utf8 bs of Ok s \<Rightarrow> Some s | _ \<Rightarrow> None)"

section \<open>Errors\<close>

definition set_connection_error :: "u32 \<Rightarrow> string \<Rightarrow> global_state \<Rightarrow> global_state" where
  "set_connection_error conn_id e s =
     s\<lparr>gs_connection_errors := AList.update conn_id \<lparr>ce_simple_message = e, ce_structured = None\<rparr> (gs_connection_errors s),
       gs_last_error := Some e, gs_last_structured_error := None\<rparr>"

definition set_connection_structured_error :: "u32 \<Rightarrow> structured_error \<Rightarrow> global_state \<Rightarrow> global_state" where
  "set_connection_structured_error conn_id e s =
     s\<lparr>gs_connection_errors :=
         AList.update conn_id \<lparr>ce_simple_message = se_message e, ce_structured = Some e\<rparr> (gs_connection_errors s),
       gs_last_error := Some (se_message e), gs_last_structured_error := Some e\<rparr>"

definition set_error :: "string \<Rightarrow> global_state \<Rightarrow> global_state" where
  "set_error e s = s\<lparr>gs_last_error := Some e, gs_last_structured_error := None\<rparr>"

definition set_structured_error :: "structured_error \<Rightarrow> global_state \<Rightarrow> global_state" where
  "set_structured_error e s = s\<lparr>gs_last_error := Some (se_message e), gs_last_structured_error := Some e\<rparr>"

definition get_connection_error :: "global_state \<Rightarrow> u32 option \<Rightarrow> string" where
  "get_connection_error s conn_id =
     (case (case conn_id of Some i \<Rightarrow> map_of (gs_connection_errors s) i | None \<Rightarrow> None) of
        Some e \<Rightarrow> ce_simple_message e
      | None \<Rightarrow> (case gs_last_error s of Some e \<Rightarrow> e | None \<Rightarrow> ''No error''))"

definition get_connection_structured_error :: "global_state \<Rightarrow> u32 option \<Rightarrow> structured_error option" where
  "get_connection_structured_error s conn_id =
     (case conn_id of
        Some i \<Rightarrow> (case map_of (gs_connection_errors s) i of Some e \<Rightarrow> ce_structured e | None \<Rightarrow> None)
      | None \<Rightarrow> gs_last_structured_error s)"

text \<open>
  What an entry point writes to its output buffer: \<open>None\<close> when it writes nothing, otherwise the bytes, whose
  number goes to \<open>out_written\<close>. The C string of \<open>odbc_get_error\<close> is truncated to the buffer and terminated.
\<close>

definition odbc_get_error :: "bool \<Rightarrow> u32 \<Rightarrow> global_state \<Rightarrow> int \<times> bytes option" where
  "odbc_get_error null buffer_len s =
     (if null \<or> buffer_len = 0 \<or> gs_poisoned s then (- 1, None)
      else
        let msg = as_bytes (get_connection_error s None);
            n = min (of_nat (length msg)) (buffer_len - 1)
        in (sint (ucast n :: i32), Some (take (unat n) msg @ [0])))"

definition write_structured :: "u32 \<Rightarrow> structured_error option \<Rightarrow> int \<times> bytes option" where
  "write_structured buffer_len e =
     (case e of
        None \<Rightarrow> (1, Some [])
      | Some e \<Rightarrow>
          let data = structured_serialize e in
          if length data > unat buffer_len then (- 2, Some []) else (0, Some data))"

definition odbc_get_structured_error :: "bool \<Rightarrow> u32 \<Rightarrow> global_state \<Rightarrow> int \<times> bytes option" where
  "odbc_get_structured_error null buffer_len s =
     (if null then (- 1, None)
      else if gs_poisoned s then (- 1, Some [])
      else write_structured buffer_len (get_connection_structured_error s None))"

definition odbc_get_structured_error_for_connection :: "bool \<Rightarrow> u32 \<Rightarrow> u32 \<Rightarrow> global_state \<Rightarrow> int \<times> bytes option" where
  "odbc_get_structured_error_for_connection null conn_id buffer_len s =
     (if null then (- 1, None)
      else if gs_poisoned s then (- 1, Some [])
      else
        write_structured buffer_len
          (get_connection_structured_error s (if conn_id = 0 then None else Some conn_id)))"

section \<open>The environment and connections\<close>

definition odbc_init :: "driver \<Rightarrow> global_state \<Rightarrow> int \<times> global_state" where
  "odbc_init drv s =
     (if gs_poisoned s then (- 1, s)
      else if gs_env s \<noteq> None then (0, s)
      else
        (case init_environment drv handle_manager_new of
           (Ok _, hm) \<Rightarrow> (0, s\<lparr>gs_env := Some False, gs_world := \<lparr>w_poisoned = False, w_handles = hm\<rparr>\<rparr>)
         | (Err e, _) \<Rightarrow> (1, set_error (''odbc_init failed: '' @ error_display e) s)
         | (Panic, _) \<Rightarrow> panicked True s))"

text \<open>The brace counter saturates at both ends of \<open>u32\<close>.\<close>

fun brace_depth :: "nat \<Rightarrow> string \<Rightarrow> nat" where
  "brace_depth d [] = d"
| "brace_depth d (c # cs) =
     brace_depth (if c = CHR 0x7B then min (d + 1) (2 ^ 32 - 1) else if c = CHR 0x7D then d - 1 else d) cs"

definition validate_connection_string_format :: "string \<Rightarrow> string option" where
  "validate_connection_string_format t =
     (if t = [] then Some ''Connection string is empty''
      else if CHR 0x00 \<in> set t then Some ''Connection string contains null byte''
      else if brace_depth 0 t \<noteq> 0 then Some ''Unbalanced braces in connection string''
      else
        let parts = filter (\<lambda>p. p \<noteq> []) (map str_trim (split_on (CHR 0x3B) t)) in
        if parts = [] then Some ''No key=value pairs found''
        else if list_ex (\<lambda>p. case split_once (CHR 0x3D) p of Some (k, _) \<Rightarrow> str_trim k \<noteq> [] | None \<Rightarrow> False) parts then None
        else Some ''No valid key=value pairs (need DSN= or Driver= etc.)'')"

text \<open>The code, and what is written to the error buffer when there is one (with its terminator).\<close>

definition odbc_validate_connection_string :: "bytes option \<Rightarrow> u32 option \<Rightarrow> int \<times> bytes option" where
  "odbc_validate_connection_string p error_buffer =
     (case p of
        None \<Rightarrow> (- 1, None)
      | Some bs \<Rightarrow>
          (case c_str bs of
             None \<Rightarrow>
               (- 1, case error_buffer of
                       Some n \<Rightarrow> if n > 0 then Some (take (unat n - 1) (as_bytes ''Invalid UTF-8'') @ [0]) else None
                     | None \<Rightarrow> None)
           | Some t \<Rightarrow>
               (case validate_connection_string_format (str_trim t) of
                  None \<Rightarrow> (0, None)
                | Some msg \<Rightarrow>
                    (- 1, case error_buffer of
                            Some n \<Rightarrow> if unat n < length msg + 1 then None else Some (as_bytes msg @ [0])
                          | None \<Rightarrow> None))))"

text \<open>\<open>OdbcConnection::connect\<close> and \<open>connect_with_timeout\<close>\<close>

definition connection_connect :: "driver \<Rightarrow> string \<Rightarrow> u32 option \<Rightarrow> world \<Rightarrow> odbc_connection result \<times> world" where
  "connection_connect drv conn_str login_timeout w =
     (if conn_str = [] then (Err EmptyConnectionString, w)
      else if w_poisoned w then (Err (InternalError ''Failed to lock handles mutex''), w)
      else
        (case (case login_timeout of
                 None \<Rightarrow> create_connection drv conn_str (w_handles w)
               | Some t \<Rightarrow> create_connection_with_timeout drv conn_str t (w_handles w)) of
           (r, hm) \<Rightarrow> (omap (\<lambda>i. \<lparr>ocn_conn_id = i\<rparr>) r, w\<lparr>w_handles := hm\<rparr>)))"

definition connection_disconnect :: "odbc_connection \<Rightarrow> world \<Rightarrow> unit result \<times> world" where
  "connection_disconnect c w =
     (if w_poisoned w then (Err (InternalError ''Failed to lock handles mutex''), w)
      else (case remove_connection (ocn_conn_id c) (w_handles w) of (r, hm) \<Rightarrow> (r, w\<lparr>w_handles := hm\<rparr>)))"

definition connect_inner :: "string \<Rightarrow> driver \<Rightarrow> bytes option \<Rightarrow> u32 option \<Rightarrow> global_state \<Rightarrow> u32 \<times> global_state" where
  "connect_inner what drv p login_timeout s =
     (case Option.bind p c_str of
        None \<Rightarrow> (0, s)
      | Some t \<Rightarrow>
          if gs_poisoned s then (0, s)
          else
            (case gs_env s of
               None \<Rightarrow> (0, set_error ''Environment not initialized'' s)
             | Some True \<Rightarrow> (0, set_error ''Failed to lock environment mutex'' s)
             | Some False \<Rightarrow>
                 (case connection_connect drv t login_timeout (gs_world s) of
                    (Ok c, w) \<Rightarrow>
                      (ocn_conn_id c,
                       s\<lparr>gs_world := w, gs_connections := AList.update (ocn_conn_id c) c (gs_connections s)\<rparr>)
                  | (Err e, w) \<Rightarrow> (0, set_error (what @ '' failed: '' @ error_display e) (s\<lparr>gs_world := w\<rparr>))
                  | (Panic, w) \<Rightarrow> (0, s\<lparr>gs_world := w, gs_poisoned := True\<rparr>))))"

definition odbc_connect :: "driver \<Rightarrow> bytes option \<Rightarrow> global_state \<Rightarrow> u32 \<times> global_state" where
  "odbc_connect drv p s = connect_inner ''odbc_connect'' drv p None s"

definition odbc_connect_with_timeout :: "driver \<Rightarrow> bytes option \<Rightarrow> u32 \<Rightarrow> global_state \<Rightarrow> u32 \<times> global_state" where
  "odbc_connect_with_timeout drv p timeout_ms s =
     connect_inner ''odbc_connect_with_timeout'' drv p (Some (if timeout_ms = 0 then 1 else max (timeout_ms div 1000) 1)) s"

section \<open>Disconnecting\<close>

text \<open>\<open>StreamKind::cancel\<close>, and dropping a stream: a file-backed one removes its file.\<close>

fun stream_cancel :: "stream_kind \<Rightarrow> stream_kind" where
  "stream_cancel (SK_Batched w) = SK_Batched (request_cancel w)"
| "stream_cancel (SK_AsyncBatched w) = SK_AsyncBatched (request_cancel w)"
| "stream_cancel (SK_Buffer b) = SK_Buffer b"

fun drop_stream :: "stream_kind \<Rightarrow> disk \<Rightarrow> disk" where
  "drop_stream (SK_Buffer (FileBacked f)) d = file_backed_drop (f, d)"
| "drop_stream _ d = d"

definition rollback_entry :: "driver \<Rightarrow> u32 \<Rightarrow> global_state \<Rightarrow> global_state" where
  "rollback_entry drv txn_id s =
     (case map_of (gs_transactions s) txn_id of
        Some tx \<Rightarrow>
          s\<lparr>gs_transactions := AList.delete txn_id (gs_transactions s), gs_world := snd (rollback drv tx (gs_world s))\<rparr>
      | None \<Rightarrow> s)"

definition drop_stream_entry :: "u32 \<Rightarrow> global_state \<Rightarrow> global_state" where
  "drop_stream_entry stream_id s =
     (let s = (case map_of (gs_streams s) stream_id of
                 Some k \<Rightarrow> s\<lparr>gs_streams := AList.delete stream_id (gs_streams s), gs_disk := drop_stream (stream_cancel k) (gs_disk s)\<rparr>
               | None \<Rightarrow> s)
      in s\<lparr>gs_stream_connections := AList.delete stream_id (gs_stream_connections s),
           gs_pending_chunks := AList.delete stream_id (gs_pending_chunks s)\<rparr>)"

definition free_for_connection :: "u32 \<Rightarrow> async_request_manager \<Rightarrow> async_request_manager" where
  "free_for_connection conn_id m =
     m\<lparr>am_requests := drop_keys (keys_where (\<lambda>slot. ar_conn_id slot = conn_id) (am_requests m)) (am_requests m)\<rparr>"

fun key_belongs :: "u32 \<Rightarrow> u32 list \<Rightarrow> pending_result_key \<Rightarrow> bool" where
  "key_belongs conn_id stmts (PK_ExecQuery c _) = (c = conn_id)"
| "key_belongs conn_id stmts (PK_ExecQueryParams c _ _) = (c = conn_id)"
| "key_belongs conn_id stmts (PK_ExecQueryMulti c _) = (c = conn_id)"
| "key_belongs conn_id stmts (PK_Execute st _ _ _) = (st \<in> set stmts)"

text \<open>Everything that goes before the connection itself is closed.\<close>

definition release_connection :: "driver \<Rightarrow> u32 \<Rightarrow> global_state \<Rightarrow> global_state" where
  "release_connection drv conn_id s =
     (let s = fold (rollback_entry drv) (keys_where (\<lambda>tx. tx_conn_id tx = conn_id) (gs_transactions s)) s;
          stmts = keys_where (\<lambda>st. sh_conn_id st = conn_id) (gs_statements s);
          s = s\<lparr>gs_statements := drop_keys stmts (gs_statements s)\<rparr>;
          s = fold drop_stream_entry (keys_where (\<lambda>c. c = conn_id) (gs_stream_connections s)) s
      in s\<lparr>gs_async := free_for_connection conn_id (gs_async s),
           gs_pending_results := filter (\<lambda>(k, _). \<not> key_belongs conn_id stmts k) (gs_pending_results s)\<rparr>)"

definition odbc_disconnect :: "driver \<Rightarrow> u32 \<Rightarrow> global_state \<Rightarrow> int \<times> global_state" where
  "odbc_disconnect drv conn_id s =
     (if gs_poisoned s then (- 1, s)
      else
        (case map_of (gs_connections s) conn_id of
           None \<Rightarrow> (1, set_connection_error conn_id (''Invalid connection ID: '' @ show_nat (unat conn_id)) s)
         | Some c \<Rightarrow>
             let s = release_connection drv conn_id (s\<lparr>gs_connections := AList.delete conn_id (gs_connections s)\<rparr>) in
             (case connection_disconnect c (gs_world s) of
                (Ok _, w) \<Rightarrow>
                  (0, s\<lparr>gs_world := w, gs_connection_errors := AList.delete conn_id (gs_connection_errors s)\<rparr>)
              | (Err e, w) \<Rightarrow>
                  (1, set_connection_error conn_id (''odbc_disconnect failed: '' @ error_display e) (s\<lparr>gs_world := w\<rparr>))
              | (Panic, w) \<Rightarrow> panicked True (s\<lparr>gs_world := w\<rparr>))))"

section \<open>Transactions\<close>

text \<open>
  \<open>odbc_transaction_begin_v3\<close> takes the global lock twice: \<open>begin_check\<close> validates under the first, the
  transaction is begun without the lock, \<open>begin_insert\<close> registers the outcome under the second.
  \<open>Inl\<close> is the early return.
\<close>

definition begin_check :: "u32 \<Rightarrow> u32 \<Rightarrow> global_state \<Rightarrow> (u32 + isolation_level) \<times> global_state" where
  "begin_check conn_id isolation s =
     (if gs_poisoned s then (Inl 0, s)
      else
        (case isolation_from_u32 isolation of
           None \<Rightarrow> (Inl 0, set_error ''Invalid isolation level'' s)
         | Some level \<Rightarrow>
             if map_of (gs_connections s) conn_id = None then
               (Inl 0, set_connection_error conn_id (''Invalid connection ID: '' @ show_nat (unat conn_id)) s)
             else if list_ex (\<lambda>(_, t). tx_conn_id t = conn_id) (gs_transactions s) then
               (Inl 0, set_error ''Connection already has an active transaction'' s)
             else (Inr level, s)))"

definition begin_insert :: "driver \<Rightarrow> u32 \<Rightarrow> transaction result \<Rightarrow> global_state \<Rightarrow> u32 \<times> global_state" where
  "begin_insert drv conn_id r s =
     (case r of
        Ok tx \<Rightarrow>
          if gs_poisoned s then (0, s\<lparr>gs_world := drop_transaction drv tx (gs_world s)\<rparr>)
          else
            (case alloc_conn_id MAX_ID_ALLOC_ATTEMPTS (map_of (gs_transactions s)) (gs_next_txn_id s) of
               (i, nxt) \<Rightarrow>
                 if i = 0 then
                   (0, (set_connection_error conn_id ''Failed to allocate transaction ID'' (s\<lparr>gs_next_txn_id := nxt\<rparr>))
                         \<lparr>gs_world := drop_transaction drv tx (gs_world s)\<rparr>)
                 else (i, s\<lparr>gs_next_txn_id := nxt, gs_transactions := AList.update i tx (gs_transactions s)\<rparr>))
      | Err e \<Rightarrow>
          if gs_poisoned s then (0, s)
          else (0, set_connection_error conn_id (''Failed to begin transaction: '' @ error_display e) s)
      | Panic \<Rightarrow> (0, s))"

definition begin_unlocked ::
  "driver \<Rightarrow> u32 \<Rightarrow> isolation_level \<Rightarrow> u32 \<Rightarrow> u32 \<Rightarrow> u32 \<Rightarrow> global_state \<Rightarrow> transaction result \<times> global_state"
where
  "begin_unlocked drv conn_id level dialect access lock_timeout_ms s =
     (case begin_with_lock_timeout drv conn_id level (dialect_from_u32 dialect) (access_mode_from_u32 access)
             (from_millis lock_timeout_ms) (gs_world s) of
        (r, w) \<Rightarrow> (r, s\<lparr>gs_world := w\<rparr>))"

definition odbc_transaction_begin_v3 ::
  "driver \<Rightarrow> u32 \<Rightarrow> u32 \<Rightarrow> u32 \<Rightarrow> u32 \<Rightarrow> u32 \<Rightarrow> global_state \<Rightarrow> u32 \<times> global_state"
where
  "odbc_transaction_begin_v3 drv conn_id isolation dialect access lock_timeout_ms s =
     (case begin_check conn_id isolation s of
        (Inl code, s) \<Rightarrow> (code, s)
      | (Inr level, s) \<Rightarrow>
          (case begin_unlocked drv conn_id level dialect access lock_timeout_ms s of (r, s) \<Rightarrow> begin_insert drv conn_id r s))"

definition odbc_transaction_begin_v2 :: "driver \<Rightarrow> u32 \<Rightarrow> u32 \<Rightarrow> u32 \<Rightarrow> u32 \<Rightarrow> global_state \<Rightarrow> u32 \<times> global_state" where
  "odbc_transaction_begin_v2 drv conn_id isolation dialect access s =
     odbc_transaction_begin_v3 drv conn_id isolation dialect access 0 s"

definition odbc_transaction_begin :: "driver \<Rightarrow> u32 \<Rightarrow> u32 \<Rightarrow> u32 \<Rightarrow> global_state \<Rightarrow> u32 \<times> global_state" where
  "odbc_transaction_begin drv conn_id isolation dialect s =
     odbc_transaction_begin_v2 drv conn_id isolation dialect 0 s"

text \<open>Both ways of ending take the transaction out of the table first and release the lock.\<close>

definition end_transaction ::
  "string \<Rightarrow> (transaction \<Rightarrow> world \<Rightarrow> unit result \<times> world) \<Rightarrow> u32 \<Rightarrow> global_state \<Rightarrow> int \<times> global_state"
where
  "end_transaction what finish txn_id s =
     (if gs_poisoned s then (- 1, s)
      else
        (case map_of (gs_transactions s) txn_id of
           None \<Rightarrow> (1, set_error (''Invalid transaction ID: '' @ show_nat (unat txn_id)) s)
         | Some tx \<Rightarrow>
             (case finish tx (gs_world s) of
                (r, w) \<Rightarrow>
                  let s = s\<lparr>gs_transactions := AList.delete txn_id (gs_transactions s), gs_world := w\<rparr> in
                  (case r of
                     Ok _ \<Rightarrow> (0, s)
                   | Err e \<Rightarrow> (1, set_connection_error (tx_conn_id tx) (what @ '' failed: '' @ error_display e) s)
                   | Panic \<Rightarrow> panicked False s))))"

definition odbc_transaction_commit :: "driver \<Rightarrow> u32 \<Rightarrow> global_state \<Rightarrow> int \<times> global_state" where
  "odbc_transaction_commit drv = end_transaction ''Commit'' (commit drv)"

definition odbc_transaction_rollback :: "driver \<Rightarrow> u32 \<Rightarrow> global_state \<Rightarrow> int \<times> global_state" where
  "odbc_transaction_rollback drv = end_transaction ''Rollback'' (rollback drv)"

definition savepoint_dispatch ::
  "u32 \<Rightarrow> bytes option \<Rightarrow> string \<Rightarrow> (transaction \<Rightarrow> string \<Rightarrow> world \<Rightarrow> unit result \<times> world) \<Rightarrow> global_state \<Rightarrow>
   int \<times> global_state"
where
  "savepoint_dispatch txn_id name what action s =
     (case Option.bind name c_str of
        None \<Rightarrow> (1, s)
      | Some n \<Rightarrow>
          if gs_poisoned s then (- 1, s)
          else
            (case map_of (gs_transactions s) txn_id of
               None \<Rightarrow> (1, set_error (''Invalid transaction ID: '' @ show_nat (unat txn_id)) s)
             | Some tx \<Rightarrow>
                 (case action tx n (gs_world s) of
                    (r, w) \<Rightarrow>
                      let s = s\<lparr>gs_world := w\<rparr> in
                      (case r of
                         Ok _ \<Rightarrow> (0, s)
                       | Err e \<Rightarrow>
                           (1, set_connection_error (tx_conn_id tx) (''Savepoint '' @ what @ '' failed: '' @ error_display e) s)
                       | Panic \<Rightarrow> panicked True s))))"

definition odbc_savepoint_create :: "driver \<Rightarrow> u32 \<Rightarrow> bytes option \<Rightarrow> global_state \<Rightarrow> int \<times> global_state" where
  "odbc_savepoint_create drv txn_id name = savepoint_dispatch txn_id name ''create'' (savepoint_create drv)"

definition odbc_savepoint_rollback :: "driver \<Rightarrow> u32 \<Rightarrow> bytes option \<Rightarrow> global_state \<Rightarrow> int \<times> global_state" where
  "odbc_savepoint_rollback drv txn_id name = savepoint_dispatch txn_id name ''rollback'' (savepoint_rollback_to drv)"

definition odbc_savepoint_release :: "driver \<Rightarrow> u32 \<Rightarrow> bytes option \<Rightarrow> global_state \<Rightarrow> int \<times> global_state" where
  "odbc_savepoint_release drv txn_id name = savepoint_dispatch txn_id name ''release'' (savepoint_release drv)"

section \<open>XA branches\<close>

text \<open>A buffer is the bytes behind a pointer, \<open>None\<close> for a null pointer, with the length the caller passes.\<close>

definition xa_read_buffer :: "bytes option \<Rightarrow> u32 \<Rightarrow> bytes option" where
  "xa_read_buffer p len = (case p of None \<Rightarrow> if len = 0 then Some [] else None | Some bs \<Rightarrow> Some (take (unat len) bs))"

definition xa_taken :: "global_state \<Rightarrow> u32 \<Rightarrow> unit option" where
  "xa_taken s i =
     (if map_of (gs_xa_active s) i = None \<and> map_of (gs_xa_preparing s) i = None \<and> map_of (gs_xa_prepared s) i = None
      then None else Some ())"

definition xa_alloc_id :: "global_state \<Rightarrow> u32 option \<times> global_state" where
  "xa_alloc_id s =
     (case alloc_conn_id MAX_ID_ALLOC_ATTEMPTS (xa_taken s) (gs_next_xa_id s) of
        (i, nxt) \<Rightarrow> (if i = 0 then None else Some i, s\<lparr>gs_next_xa_id := nxt\<rparr>))"

text \<open>The checks \<open>odbc_xa_start\<close> and \<open>odbc_xa_resume_prepared\<close> share: the XID, or the state with the error.\<close>

definition xa_checked ::
  "string \<Rightarrow> u32 \<Rightarrow> i32 \<Rightarrow> bytes option \<Rightarrow> u32 \<Rightarrow> bytes option \<Rightarrow> u32 \<Rightarrow> global_state \<Rightarrow> global_state + xid"
where
  "xa_checked who conn_id format_id gtrid gtrid_len bqual bqual_len s =
     (case xa_read_buffer gtrid gtrid_len of
        None \<Rightarrow> Inl (set_connection_error conn_id (who @ '': gtrid_ptr is null but gtrid_len > 0'') s)
      | Some g \<Rightarrow>
          (case xa_read_buffer bqual bqual_len of
             None \<Rightarrow> Inl (set_connection_error conn_id (who @ '': bqual_ptr is null but bqual_len > 0'') s)
           | Some b \<Rightarrow>
               (case xid_new format_id g b of
                  Ok x \<Rightarrow>
                    if map_of (gs_connections s) conn_id = None then
                      Inl (set_connection_error conn_id (''Invalid connection ID: '' @ show_nat (unat conn_id)) s)
                    else Inr x
                | Err e \<Rightarrow> Inl (set_connection_error conn_id (who @ '': '' @ error_display e) s)
                | Panic \<Rightarrow> Inl (s\<lparr>gs_poisoned := True\<rparr>))))"

definition odbc_xa_start ::
  "driver \<Rightarrow> u32 \<Rightarrow> i32 \<Rightarrow> bytes option \<Rightarrow> u32 \<Rightarrow> bytes option \<Rightarrow> u32 \<Rightarrow> global_state \<Rightarrow> u32 \<times> global_state"
where
  "odbc_xa_start drv conn_id format_id gtrid gtrid_len bqual bqual_len s =
     (if gs_poisoned s then (0, s)
      else
        (case xa_checked ''odbc_xa_start'' conn_id format_id gtrid gtrid_len bqual bqual_len s of
           Inl s \<Rightarrow> (0, s)
         | Inr x \<Rightarrow>
             (case xa_start drv conn_id x (gs_world s) of
                (Err e, w) \<Rightarrow>
                  (0, set_connection_error conn_id (''odbc_xa_start: '' @ error_display e) (s\<lparr>gs_world := w\<rparr>))
              | (Panic, w) \<Rightarrow> (0, s\<lparr>gs_world := w, gs_poisoned := True\<rparr>)
              | (Ok xa, w) \<Rightarrow>
                  (case xa_alloc_id (s\<lparr>gs_world := w\<rparr>) of
                     (None, s) \<Rightarrow>
                       (0, (set_connection_error conn_id ''Failed to allocate XA ID'' s)\<lparr>gs_world := drop_xa drv xa w\<rparr>)
                   | (Some i, s) \<Rightarrow> (i, s\<lparr>gs_xa_active := AList.update i xa (gs_xa_active s)\<rparr>)))))"

text \<open>A missing identifier and the tail of a step that only reports.\<close>

definition xa_invalid :: "string \<Rightarrow> u32 \<Rightarrow> global_state \<Rightarrow> int \<times> global_state" where
  "xa_invalid what xa_id s = (1, set_error (''Invalid XA ID ('' @ what @ ''): '' @ show_nat (unat xa_id)) s)"

definition xa_report :: "string \<Rightarrow> 'a result \<Rightarrow> global_state \<Rightarrow> int \<times> global_state" where
  "xa_report what r s =
     (case r of
        Ok _ \<Rightarrow> (0, s)
      | Err e \<Rightarrow> (1, set_error (what @ '' failed: '' @ error_display e) s)
      | Panic \<Rightarrow> panicked True s)"

definition odbc_xa_end :: "driver \<Rightarrow> u32 \<Rightarrow> global_state \<Rightarrow> int \<times> global_state" where
  "odbc_xa_end drv xa_id s =
     (if gs_poisoned s then (- 1, s)
      else
        (case map_of (gs_xa_active s) xa_id of
           None \<Rightarrow> xa_invalid ''Active'' xa_id s
         | Some xa \<Rightarrow>
             (case xa_end drv xa (gs_world s) of
                (r, w) \<Rightarrow>
                  let s = s\<lparr>gs_xa_active := AList.delete xa_id (gs_xa_active s), gs_world := w\<rparr> in
                  xa_report ''xa_end'' r
                    (case r of Ok px \<Rightarrow> s\<lparr>gs_xa_preparing := AList.update xa_id px (gs_xa_preparing s)\<rparr> | _ \<Rightarrow> s))))"

definition odbc_xa_prepare :: "driver \<Rightarrow> u32 \<Rightarrow> global_state \<Rightarrow> int \<times> global_state" where
  "odbc_xa_prepare drv xa_id s =
     (if gs_poisoned s then (- 1, s)
      else
        (case map_of (gs_xa_preparing s) xa_id of
           None \<Rightarrow> xa_invalid ''Idle, awaiting prepare'' xa_id s
         | Some px \<Rightarrow>
             (case xa_prepare drv px (gs_world s) of
                (r, w) \<Rightarrow>
                  let s = s\<lparr>gs_xa_preparing := AList.delete xa_id (gs_xa_preparing s), gs_world := w\<rparr> in
                  xa_report ''xa_prepare'' r
                    (case r of Ok pr \<Rightarrow> s\<lparr>gs_xa_prepared := AList.update xa_id pr (gs_xa_prepared s)\<rparr> | _ \<Rightarrow> s))))"

definition finish_prepared ::
  "string \<Rightarrow> (prepared_xa \<Rightarrow> world \<Rightarrow> unit result \<times> world) \<Rightarrow> u32 \<Rightarrow> global_state \<Rightarrow> int \<times> global_state"
where
  "finish_prepared what finish xa_id s =
     (if gs_poisoned s then (- 1, s)
      else
        (case map_of (gs_xa_prepared s) xa_id of
           None \<Rightarrow> xa_invalid ''Prepared'' xa_id s
         | Some pr \<Rightarrow>
             (case finish pr (gs_world s) of
                (r, w) \<Rightarrow> xa_report what r (s\<lparr>gs_xa_prepared := AList.delete xa_id (gs_xa_prepared s), gs_world := w\<rparr>))))"

definition odbc_xa_commit_prepared :: "driver \<Rightarrow> u32 \<Rightarrow> global_state \<Rightarrow> int \<times> global_state" where
  "odbc_xa_commit_prepared drv = finish_prepared ''xa_commit_prepared'' (prepared_commit drv)"

definition odbc_xa_rollback_prepared :: "driver \<Rightarrow> u32 \<Rightarrow> global_state \<Rightarrow> int \<times> global_state" where
  "odbc_xa_rollback_prepared drv = finish_prepared ''xa_rollback_prepared'' (prepared_rollback drv)"

definition finish_active ::
  "string \<Rightarrow> (xa_transaction \<Rightarrow> world \<Rightarrow> unit result \<times> world) \<Rightarrow> u32 \<Rightarrow> global_state \<Rightarrow> int \<times> global_state"
where
  "finish_active what finish xa_id s =
     (if gs_poisoned s then (- 1, s)
      else
        (case map_of (gs_xa_active s) xa_id of
           None \<Rightarrow> xa_invalid ''Active'' xa_id s
         | Some xa \<Rightarrow>
             (case finish xa (gs_world s) of
                (r, w) \<Rightarrow> xa_report what r (s\<lparr>gs_xa_active := AList.delete xa_id (gs_xa_active s), gs_world := w\<rparr>))))"

definition odbc_xa_commit_one_phase :: "driver \<Rightarrow> u32 \<Rightarrow> global_state \<Rightarrow> int \<times> global_state" where
  "odbc_xa_commit_one_phase drv = finish_active ''xa_commit_one_phase'' (commit_one_phase drv)"

definition odbc_xa_rollback_active :: "driver \<Rightarrow> u32 \<Rightarrow> global_state \<Rightarrow> int \<times> global_state" where
  "odbc_xa_rollback_active drv = finish_active ''xa_rollback_active'' (xa_rollback drv)"

text \<open>The list \<open>odbc_xa_recover_count\<close> found is cached for the thread; here it is passed in and out.\<close>

definition odbc_xa_recover_count :: "driver \<Rightarrow> u32 \<Rightarrow> xid list \<Rightarrow> global_state \<Rightarrow> int \<times> xid list \<times> global_state" where
  "odbc_xa_recover_count drv conn_id cache s =
     (if gs_poisoned s then (- 1, cache, s)
      else if map_of (gs_connections s) conn_id = None then
        (- 1, cache, set_connection_error conn_id (''Invalid connection ID: '' @ show_nat (unat conn_id)) s)
      else
        (case recover_prepared_xids drv conn_id (gs_world s) of
           (Ok xids, w) \<Rightarrow> (sint (of_nat (length xids) :: i32), xids, s\<lparr>gs_world := w\<rparr>)
         | (Err e, w) \<Rightarrow>
             (- 1, cache, set_connection_error conn_id (''xa_recover_count failed: '' @ error_display e) (s\<lparr>gs_world := w\<rparr>))
         | (Panic, w) \<Rightarrow> (FFI_PANIC, cache, s\<lparr>gs_world := w\<rparr>)))"

text \<open>
  Code, the three scalars once they are written (format, both lengths), and the two buffers once they are.
\<close>

definition odbc_xa_recover_get ::
  "bool \<Rightarrow> u32 \<Rightarrow> u32 \<Rightarrow> u32 \<Rightarrow> xid list \<Rightarrow> int \<times> (i32 \<times> u32 \<times> u32) option \<times> (bytes \<times> bytes) option"
where
  "odbc_xa_recover_get any_null index gtrid_buf_len bqual_buf_len cache =
     (if any_null \<or> unat index \<ge> length cache then (1, None, None)
      else
        let x = cache ! unat index;
            sizes = (xid_format_id x, of_nat (length (xid_gtrid x)), of_nat (length (xid_bqual x)))
        in if length (xid_gtrid x) > unat gtrid_buf_len \<or> length (xid_bqual x) > unat bqual_buf_len then (1, Some sizes, None)
           else (0, Some sizes, Some (xid_gtrid x, xid_bqual x)))"

definition odbc_xa_resume_prepared ::
  "driver \<Rightarrow> u32 \<Rightarrow> i32 \<Rightarrow> bytes option \<Rightarrow> u32 \<Rightarrow> bytes option \<Rightarrow> u32 \<Rightarrow> global_state \<Rightarrow> u32 \<times> global_state"
where
  "odbc_xa_resume_prepared drv conn_id format_id gtrid gtrid_len bqual bqual_len s =
     (if gs_poisoned s then (0, s)
      else
        (case xa_checked ''odbc_xa_resume_prepared'' conn_id format_id gtrid gtrid_len bqual bqual_len s of
           Inl s \<Rightarrow> (0, s)
         | Inr x \<Rightarrow>
             (case resume_prepared drv conn_id x (gs_world s) of
                Err e \<Rightarrow> (0, set_connection_error conn_id (''odbc_xa_resume_prepared: '' @ error_display e) s)
              | Panic \<Rightarrow> (0, s\<lparr>gs_poisoned := True\<rparr>)
              | Ok pr \<Rightarrow>
                  (case xa_alloc_id s of
                     (None, s) \<Rightarrow> (0, set_connection_error conn_id ''Failed to allocate XA ID'' s)
                   | (Some i, s) \<Rightarrow> (i, s\<lparr>gs_xa_prepared := AList.update i pr (gs_xa_prepared s)\<rparr>)))))"

end
