(* ===== verification/Requests.thy ===== *)
theory Requests
  imports Session Calls
begin

text \<open>
  \<open>ffi/mod.rs\<close>, second part: the entry points that run statements (directly, with parameters, as a batch,
  prepared, asynchronously or as a stream) and hand their results to the client's buffer, with the results
  that did not fit and are kept for a retry.

  The databases are the record \<open>backend\<close>: what \<open>odbc_api\<close> answers on each connection, the compressors, the
  hash of the standard library, and the environment variable and directory for spilling. Times are
  nanoseconds. Statements are executed on the connection without a trace in its history, which is about
  transactions.
\<close>

section \<open>Backends and connections\<close>

record backend =
  be_conn :: "u32 \<Rightarrow> odbc_conn"
  be_slots :: "u32 \<Rightarrow> slot_driver"
  be_compressors :: compressors
  be_hash :: "bytes \<Rightarrow> u64"
  be_temp_dir :: string
  be_spill_threshold :: "usize option"

text \<open>What keeps a registered connection from being used: the three failures every entry point reports.\<close>

definition conn_problem :: "u32 \<Rightarrow> global_state \<Rightarrow> string option" where
  "conn_problem conn_id s =
     (if w_poisoned (gs_world s) then Some ''Failed to lock handles mutex''
      else
        (case get_connection (w_handles (gs_world s)) conn_id of
           Ok c \<Rightarrow> if cn_poisoned c then Some ''Failed to lock connection'' else None
         | Err e \<Rightarrow> Some (''Failed to get connection: '' @ error_display e)
         | Panic \<Rightarrow> None))"

text \<open>A panic while the connection's mutex is held poisons it.\<close>

definition poison_connection :: "u32 \<Rightarrow> global_state \<Rightarrow> global_state" where
  "poison_connection conn_id s =
     (case hm_connections (w_handles (gs_world s)) conn_id of
        Some c \<Rightarrow> s\<lparr>gs_world := put_connection conn_id (c\<lparr>cn_poisoned := True\<rparr>) (gs_world s)\<rparr>
      | None \<Rightarrow> s)"

definition invalid_connection :: "u32 \<Rightarrow> string" where
  "invalid_connection conn_id = ''Invalid connection ID: '' @ show_nat (unat conn_id)"

section \<open>Results that wait for a larger buffer\<close>

definition PENDING_RESULT_TTL :: nat where "PENDING_RESULT_TTL = 2 * 10 ^ 9"

definition too_small :: "nat \<Rightarrow> u32 \<Rightarrow> string" where
  "too_small need got = ''Buffer too small: need '' @ show_nat need @ '' bytes, got '' @ show_nat (unat got)"

definition report :: "u32 option \<Rightarrow> string \<Rightarrow> global_state \<Rightarrow> global_state" where
  "report conn_id msg s = (case conn_id of Some i \<Rightarrow> set_connection_error i msg s | None \<Rightarrow> set_error msg s)"

definition try_write_pending_result ::
  "nat \<Rightarrow> pending_result_key \<Rightarrow> u32 \<Rightarrow> u32 option \<Rightarrow> global_state \<Rightarrow> (int \<times> bytes option) option \<times> global_state"
where
  "try_write_pending_result now key buffer_len conn_id s =
     (case map_of (gs_pending_results s) key of
        None \<Rightarrow> (None, s)
      | Some e \<Rightarrow>
          let s = s\<lparr>gs_pending_results := AList.delete key (gs_pending_results s)\<rparr> in
          if now - pb_created_at e > PENDING_RESULT_TTL then
            (Some (- 1, Some []),
             report conn_id ''Pending result expired; retry the query with a larger initial buffer'' s)
          else if length (pb_data e) > unat buffer_len then
            (Some (- 2, Some []),
             report conn_id (too_small (length (pb_data e)) buffer_len)
               (s\<lparr>gs_pending_results := AList.update key e (gs_pending_results s)\<rparr>))
          else (Some (0, Some (pb_data e)), s))"

definition stash_pending_result :: "nat \<Rightarrow> pending_result_key \<Rightarrow> bytes \<Rightarrow> global_state \<Rightarrow> global_state" where
  "stash_pending_result now key data s =
     s\<lparr>gs_pending_results := AList.update key \<lparr>pb_data = data, pb_created_at = now\<rparr> (gs_pending_results s)\<rparr>"

text \<open>
  How every entry point ends: the result, the retry or the error. \<open>zero\<close> is \<open>Some []\<close> where \<open>out_written\<close> is
  cleared on failure and \<open>None\<close> where it is left alone; \<open>panic\<close> is the state a panic leaves.
\<close>

definition deliver ::
  "nat \<Rightarrow> pending_result_key \<Rightarrow> u32 \<Rightarrow> u32 \<Rightarrow> bytes option \<Rightarrow> global_state \<Rightarrow> bytes result \<Rightarrow> global_state \<Rightarrow>
   int \<times> bytes option \<times> global_state"
where
  "deliver now key conn_id buffer_len zero panic r s =
     (case r of
        Ok data \<Rightarrow>
          if length data > unat buffer_len then
            (- 2, zero,
             set_connection_error conn_id (too_small (length data) buffer_len) (stash_pending_result now key data s))
          else (0, Some data, s)
      | Err e \<Rightarrow> (- 1, zero, set_connection_structured_error conn_id (to_structured e) s)
      | Panic \<Rightarrow> (FFI_PANIC, None, panic))"

text \<open>The answer of the pending table, when it has one, ends the call.\<close>

definition unless_pending ::
  "nat \<Rightarrow> pending_result_key \<Rightarrow> u32 \<Rightarrow> u32 \<Rightarrow> (global_state \<Rightarrow> int \<times> bytes option \<times> global_state) \<Rightarrow> global_state \<Rightarrow>
   int \<times> bytes option \<times> global_state"
where
  "unless_pending now key buffer_len conn_id run s =
     (case try_write_pending_result now key buffer_len (Some conn_id) s of
        (Some (code, out), s) \<Rightarrow> (code, out, s)
      | (None, s) \<Rightarrow> run s)"

section \<open>Running statements\<close>

text \<open>The times are those of the lookup of a pending result and of its stashing.\<close>

definition odbc_exec_query ::
  "backend \<Rightarrow> nat \<Rightarrow> nat \<Rightarrow> bool \<Rightarrow> u32 \<Rightarrow> bytes option \<Rightarrow> u32 \<Rightarrow> global_state \<Rightarrow> int \<times> bytes option \<times> global_state"
where
  "odbc_exec_query be now later null conn_id sql buf_len s =
     (case sql of
        None \<Rightarrow> (- 1, None, s)
      | Some bs \<Rightarrow>
          if null then (- 1, None, s)
          else
            (case c_str bs of
               None \<Rightarrow> (- 1, Some [], s)
             | Some q \<Rightarrow>
                 if gs_poisoned s then (- 1, Some [], s)
                 else
                   let key = PK_ExecQuery conn_id (be_hash be (as_bytes q)) in
                   unless_pending now key buf_len conn_id (\<lambda>s.
                     if map_of (gs_connections s) conn_id \<noteq> None then
                       (case conn_problem conn_id s of
                          Some m \<Rightarrow> (- 1, Some [], set_error m s)
                        | None \<Rightarrow>
                            deliver later key conn_id buf_len (Some []) (poison_connection conn_id s)
                              (execute_direct_cached engine_new (be_conn be conn_id) q) s)
                     else
                       (case map_of (gs_pooled s) conn_id of
                          Some pool \<Rightarrow>
                            let taken = s\<lparr>gs_pooled := AList.delete conn_id (gs_pooled s)\<rparr> in
                            deliver later key conn_id buf_len (Some []) taken
                              (execute_direct (be_compressors be) engine_new (be_conn be conn_id) q)
                              (taken\<lparr>gs_pooled := AList.update conn_id pool (gs_pooled taken)\<rparr>)
                        | None \<Rightarrow> (- 1, Some [], set_connection_error conn_id (invalid_connection conn_id) s))) s))"

text \<open>A parameter buffer that is null or empty counts as no parameters.\<close>

definition given_params :: "bytes option \<Rightarrow> bytes" where
  "given_params p = (case p of Some bs \<Rightarrow> bs | None \<Rightarrow> [])"

definition params_hash :: "backend \<Rightarrow> bytes \<Rightarrow> u64" where
  "params_hash be ps = (if ps = [] then 0 else be_hash be ps)"

definition odbc_exec_query_params ::
  "backend \<Rightarrow> nat \<Rightarrow> nat \<Rightarrow> bool \<Rightarrow> u32 \<Rightarrow> bytes option \<Rightarrow> bytes option \<Rightarrow> u32 \<Rightarrow> global_state \<Rightarrow>
   int \<times> bytes option \<times> global_state"
where
  "odbc_exec_query_params be now later null conn_id sql params buf_len s =
     (case (if null then None else Option.bind sql c_str) of
        None \<Rightarrow> (- 1, None, s)
      | Some q \<Rightarrow>
          if gs_poisoned s then (- 1, None, s)
          else if map_of (gs_connections s) conn_id = None then
            (- 1, None, set_connection_error conn_id (invalid_connection conn_id) s)
          else
            (case conn_problem conn_id s of
               Some m \<Rightarrow> (- 1, None, set_connection_error conn_id m s)
             | None \<Rightarrow>
                 let ps = given_params params;
                     key = PK_ExecQueryParams conn_id (be_hash be (as_bytes q)) (params_hash be ps)
                 in unless_pending now key buf_len conn_id (\<lambda>s.
                      let panic = poison_connection conn_id (s\<lparr>gs_poisoned := True\<rparr>) in
                      if ps = [] then
                        deliver later key conn_id buf_len None panic
                          (execute_direct_cached engine_new (be_conn be conn_id) q) s
                      else
                        (case dispatch_param_buffer (be_compressors be) engine_new (be_conn be conn_id)
                                (be_slots be conn_id) q ps None of
                           Err e \<Rightarrow> (- 1, None, set_connection_error conn_id (error_display e) s)
                         | r \<Rightarrow> deliver later key conn_id buf_len None panic r s)) s))"

text \<open>Both batch entry points and \<open>odbc_execute\<close> run on a registered or a pooled connection, under the global lock.\<close>

definition run_locked ::
  "nat \<Rightarrow> pending_result_key \<Rightarrow> u32 \<Rightarrow> u32 \<Rightarrow> bytes option \<Rightarrow> string \<Rightarrow> bytes result \<Rightarrow> global_state \<Rightarrow>
   int \<times> bytes option \<times> global_state"
where
  "run_locked later key conn_id buf_len zero missing r s =
     (if map_of (gs_connections s) conn_id \<noteq> None then
        (case conn_problem conn_id s of
           Some m \<Rightarrow> (- 1, None, set_connection_error conn_id m s)
         | None \<Rightarrow>
             deliver later key conn_id buf_len zero (poison_connection conn_id (s\<lparr>gs_poisoned := True\<rparr>)) r s)
      else if map_of (gs_pooled s) conn_id \<noteq> None then
        deliver later key conn_id buf_len zero (s\<lparr>gs_poisoned := True\<rparr>) r s
      else (- 1, None, set_connection_error conn_id missing s))"

definition odbc_exec_query_multi ::
  "backend \<Rightarrow> nat \<Rightarrow> nat \<Rightarrow> bool \<Rightarrow> u32 \<Rightarrow> bytes option \<Rightarrow> u32 \<Rightarrow> global_state \<Rightarrow> int \<times> bytes option \<times> global_state"
where
  "odbc_exec_query_multi be now later null conn_id sql buf_len s =
     (case (if null then None else Option.bind sql c_str) of
        None \<Rightarrow> (- 1, None, s)
      | Some q \<Rightarrow>
          if gs_poisoned s then (- 1, None, s)
          else
            let key = PK_ExecQueryMulti conn_id (be_hash be (as_bytes q)) in
            unless_pending now key buf_len conn_id
              (run_locked later key conn_id buf_len None (invalid_connection conn_id)
                 (execute_multi (be_compressors be) engine_new (be_conn be conn_id) q)) s)"

text \<open>The parameters of a batch are decoded before the lock is taken; outputs are refused.\<close>

definition batch_params :: "bytes \<Rightarrow> (string, param_value list) outcome" where
  "batch_params ps =
     (if ps = [] then Ok []
      else
        (case deserialize_param_buffer ps of
           Ok (Legacy p) \<Rightarrow> Ok p
         | Ok (Directed b) \<Rightarrow>
             if list_ex (\<lambda>x. bp_direction x \<noteq> DirInput) b
             then Err ''odbc_exec_query_multi_params: OUTPUT/INOUT not supported (use odbc_exec_query with DRT1)''
             else Ok (map bp_value b)
         | Err e \<Rightarrow> Err (''Invalid params: '' @ error_display e)
         | Panic \<Rightarrow> Panic))"

definition odbc_exec_query_multi_params ::
  "backend \<Rightarrow> nat \<Rightarrow> nat \<Rightarrow> bool \<Rightarrow> u32 \<Rightarrow> bytes option \<Rightarrow> bytes option \<Rightarrow> u32 \<Rightarrow> global_state \<Rightarrow>
   int \<times> bytes option \<times> global_state"
where
  "odbc_exec_query_multi_params be now later null conn_id sql params buf_len s =
     (case (if null then None else Option.bind sql c_str) of
        None \<Rightarrow> (- 1, None, s)
      | Some q \<Rightarrow>
          if gs_poisoned s then (- 1, None, s)
          else
            let ps = given_params params in
            (case batch_params ps of
               Err m \<Rightarrow> (- 1, None, set_connection_error conn_id m s)
             | Panic \<Rightarrow> (FFI_PANIC, None, s)
             | Ok vs \<Rightarrow>
                 let key = PK_ExecQueryParams conn_id (be_hash be (as_bytes q)) (params_hash be ps) in
                 unless_pending now key buf_len conn_id
                   (run_locked later key conn_id buf_len (Some []) (invalid_connection conn_id)
                      (execute_multi_with_params (be_compressors be) engine_new (be_conn be conn_id) q vs)) s))"

section \<open>Prepared statements\<close>

definition odbc_prepare :: "u32 \<Rightarrow> bytes option \<Rightarrow> u32 \<Rightarrow> global_state \<Rightarrow> u32 \<times> global_state" where
  "odbc_prepare conn_id sql timeout_ms s =
     (case Option.bind sql c_str of
        None \<Rightarrow> (0, s)
      | Some q \<Rightarrow>
          if gs_poisoned s then (0, s)
          else if map_of (gs_connections s) conn_id = None \<and> map_of (gs_pooled s) conn_id = None then
            (0, set_connection_error conn_id (invalid_connection conn_id) s)
          else
            (case alloc_conn_id MAX_ID_ALLOC_ATTEMPTS (map_of (gs_statements s)) (gs_next_stmt_id s) of
               (i, nxt) \<Rightarrow>
                 let s = s\<lparr>gs_next_stmt_id := nxt\<rparr> in
                 if i = 0 then (0, set_connection_error conn_id ''Failed to allocate statement ID'' s)
                 else (i, s\<lparr>gs_statements := AList.update i (statement_new conn_id q timeout_ms) (gs_statements s)\<rparr>)))"

definition odbc_execute ::
  "backend \<Rightarrow> nat \<Rightarrow> nat \<Rightarrow> bool \<Rightarrow> u32 \<Rightarrow> bytes option \<Rightarrow> u32 \<Rightarrow> u32 \<Rightarrow> u32 \<Rightarrow> global_state \<Rightarrow>
   int \<times> bytes option \<times> global_state"
where
  "odbc_execute be now later null stmt_id params timeout_override_ms fetch_size buf_len s =
     (if null \<or> gs_poisoned s then (- 1, None, s)
      else
        (case map_of (gs_statements s) stmt_id of
           None \<Rightarrow> (- 1, None, set_error (''Invalid statement ID: '' @ show_nat (unat stmt_id)) s)
         | Some st \<Rightarrow>
             let ps = given_params params;
                 conn_id = sh_conn_id st;
                 key = PK_Execute stmt_id (params_hash be ps) timeout_override_ms fetch_size;
                 timeout_sec = (if timeout_override_ms > 0 then Some (max (unat timeout_override_ms div 1000) 1)
                                else statement_timeout_sec st)
             in unless_pending now key buf_len conn_id
                  (run_locked later key conn_id buf_len None
                     (''Connection '' @ show_nat (unat conn_id) @ '' no longer valid'')
                     (dispatch_param_buffer (be_compressors be) engine_new (be_conn be conn_id) (be_slots be conn_id)
                        (sh_sql st) ps timeout_sec)) s))"

definition CANCEL_UNSUPPORTED_NATIVE_CODE :: i32 where "CANCEL_UNSUPPORTED_NATIVE_CODE = 5001"

definition odbc_cancel :: "u32 \<Rightarrow> global_state \<Rightarrow> int \<times> global_state" where
  "odbc_cancel stmt_id s =
     (if gs_poisoned s then (- 1, s)
      else if map_of (gs_statements s) stmt_id \<noteq> None then
        (1, set_structured_error
              \<lparr>se_sqlstate = as_bytes ''0A000'', se_native_code = CANCEL_UNSUPPORTED_NATIVE_CODE,
               se_message = ''Unsupported feature: Statement cancellation requires background execution. Use query timeout (login_timeout or statement timeout) instead. See project tracker for implementation status.''\<rparr> s)
      else (1, set_error (''Invalid statement ID: '' @ show_nat (unat stmt_id)) s))"

fun is_execute_key :: "pending_result_key \<Rightarrow> bool" where
  "is_execute_key (PK_Execute _ _ _ _) = True"
| "is_execute_key _ = False"

fun is_execute_key_of :: "u32 \<Rightarrow> pending_result_key \<Rightarrow> bool" where
  "is_execute_key_of stmt_id (PK_Execute i _ _ _) = (i = stmt_id)"
| "is_execute_key_of _ _ = False"

definition odbc_close_statement :: "u32 \<Rightarrow> global_state \<Rightarrow> int \<times> global_state" where
  "odbc_close_statement stmt_id s =
     (if gs_poisoned s then (- 1, s)
      else if map_of (gs_statements s) stmt_id \<noteq> None then
        (0, s\<lparr>gs_statements := AList.delete stmt_id (gs_statements s),
              gs_pending_results := filter (\<lambda>(k, _). \<not> is_execute_key_of stmt_id k) (gs_pending_results s)\<rparr>)
      else (1, set_error (''Invalid statement ID: '' @ show_nat (unat stmt_id)) s))"

definition odbc_clear_all_statements :: "global_state \<Rightarrow> int \<times> global_state" where
  "odbc_clear_all_statements s =
     (if gs_poisoned s then (- 1, s)
      else
        (0, s\<lparr>gs_statements := [], gs_pending_results := filter (\<lambda>(k, _). \<not> is_execute_key k) (gs_pending_results s)\<rparr>))"

section \<open>Asynchronous requests\<close>

definition MAX_ASYNC_REQUESTS :: nat where "MAX_ASYNC_REQUESTS = 64"

definition slot_new :: "u32 \<Rightarrow> async_request_slot" where
  "slot_new conn_id = \<lparr>ar_conn_id = conn_id, ar_cancelled = False, ar_outcome = Some AR_Pending\<rparr>"

fun slot_poll_status :: "async_request_outcome option \<Rightarrow> int" where
  "slot_poll_status None = - 1"
| "slot_poll_status (Some AR_Pending) = 0"
| "slot_poll_status (Some (AR_Ready r)) = (case r of Ok _ \<Rightarrow> 1 | _ \<Rightarrow> - 1)"
| "slot_poll_status (Some AR_Cancelled) = - 2"
| "slot_poll_status (Some AR_Consumed) = - 1"

definition allocate_request_id :: "async_request_manager \<Rightarrow> u32 option \<times> async_request_manager" where
  "allocate_request_id m =
     (if length (am_requests m) \<ge> MAX_ASYNC_REQUESTS then (None, m)
      else
        (case alloc_conn_id MAX_ID_ALLOC_ATTEMPTS (map_of (am_requests m)) (am_next_request_id m) of
           (i, nxt) \<Rightarrow> (if i = 0 then None else Some i, m\<lparr>am_next_request_id := nxt\<rparr>)))"

text \<open>\<open>spawned\<close> says whether the runtime accepted the task.\<close>

definition start_request :: "bool \<Rightarrow> u32 \<Rightarrow> async_request_manager \<Rightarrow> u32 option \<times> async_request_manager" where
  "start_request spawned conn_id m =
     (case allocate_request_id m of
        (None, m) \<Rightarrow> (None, m)
      | (Some i, m) \<Rightarrow>
          if spawned then (Some i, m\<lparr>am_requests := AList.update i (slot_new conn_id) (am_requests m)\<rparr>) else (None, m))"

text \<open>The task: the query, and then the two accesses to the slot, between which the client may run.\<close>

definition run_async_query :: "backend \<Rightarrow> u32 \<Rightarrow> string \<Rightarrow> world \<Rightarrow> bytes result" where
  "run_async_query be conn_id sql w =
     (case obind (lock_connection ''Failed to lock handles mutex'' w conn_id)
             (\<lambda>_. execute_direct_cached engine_new (be_conn be conn_id) sql) of
        Panic \<Rightarrow> Err (InternalError ''Async request task panicked'')
      | r \<Rightarrow> r)"

definition task_load :: "u32 \<Rightarrow> async_request_manager \<Rightarrow> bool" where
  "task_load request_id m = (case map_of (am_requests m) request_id of Some slot \<Rightarrow> ar_cancelled slot | None \<Rightarrow> False)"

definition task_store :: "u32 \<Rightarrow> bool \<Rightarrow> bytes result \<Rightarrow> async_request_manager \<Rightarrow> async_request_manager" where
  "task_store request_id cancelled r m =
     (case map_of (am_requests m) request_id of
        Some slot \<Rightarrow>
          if ar_outcome slot = None then m
          else m\<lparr>am_requests := AList.update request_id
                   (slot\<lparr>ar_outcome := Some (if cancelled then AR_Cancelled else AR_Ready r)\<rparr>) (am_requests m)\<rparr>
      | None \<Rightarrow> m)"

definition async_poll :: "u32 \<Rightarrow> async_request_manager \<Rightarrow> int option" where
  "async_poll request_id m = map_option (\<lambda>slot. slot_poll_status (ar_outcome slot)) (map_of (am_requests m) request_id)"

definition async_cancel :: "u32 \<Rightarrow> async_request_manager \<Rightarrow> bool \<times> async_request_manager" where
  "async_cancel request_id m =
     (case map_of (am_requests m) request_id of
        None \<Rightarrow> (False, m)
      | Some slot \<Rightarrow>
          (True, m\<lparr>am_requests := AList.update request_id
             (slot\<lparr>ar_cancelled := True,
                   ar_outcome := (if ar_outcome slot = Some AR_Pending then Some AR_Cancelled else ar_outcome slot)\<rparr>)
             (am_requests m)\<rparr>))"

definition async_take_result ::
  "u32 \<Rightarrow> async_request_manager \<Rightarrow> (u32 \<times> bytes result) option \<times> async_request_manager"
where
  "async_take_result request_id m =
     (case map_of (am_requests m) request_id of
        None \<Rightarrow> (None, m)
      | Some slot \<Rightarrow>
          let consumed = m\<lparr>am_requests := AList.update request_id (slot\<lparr>ar_outcome := Some AR_Consumed\<rparr>) (am_requests m)\<rparr> in
          (case ar_outcome slot of
             None \<Rightarrow> (Some (ar_conn_id slot, Err (InternalError ''Async request outcome lock poisoned'')), m)
           | Some (AR_Ready r) \<Rightarrow> (Some (ar_conn_id slot, r), consumed)
           | Some AR_Cancelled \<Rightarrow> (Some (ar_conn_id slot, Err (InternalError ''Async request cancelled'')), consumed)
           | Some AR_Pending \<Rightarrow> (None, m)
           | Some AR_Consumed \<Rightarrow>
               (Some (ar_conn_id slot, Err (InternalError ''Async request result already consumed'')), consumed)))"

definition async_restore_result :: "u32 \<Rightarrow> bytes result \<Rightarrow> async_request_manager \<Rightarrow> async_request_manager" where
  "async_restore_result request_id r m =
     (case map_of (am_requests m) request_id of
        Some slot \<Rightarrow>
          if ar_outcome slot = None then m
          else m\<lparr>am_requests := AList.update request_id (slot\<lparr>ar_outcome := Some (AR_Ready r)\<rparr>) (am_requests m)\<rparr>
      | None \<Rightarrow> m)"

definition async_free :: "u32 \<Rightarrow> async_request_manager \<Rightarrow> bool \<times> async_request_manager" where
  "async_free request_id m =
     (if map_of (am_requests m) request_id = None then (False, m)
      else (True, m\<lparr>am_requests := AList.delete request_id (am_requests m)\<rparr>))"

definition odbc_execute_async :: "bool \<Rightarrow> u32 \<Rightarrow> bytes option \<Rightarrow> global_state \<Rightarrow> u32 \<times> global_state" where
  "odbc_execute_async spawned conn_id sql s =
     (case Option.bind sql c_str of
        None \<Rightarrow> (0, s)
      | Some q \<Rightarrow>
          if gs_poisoned s then (0, s)
          else if map_of (gs_connections s) conn_id = None then
            (0, set_connection_error conn_id (invalid_connection conn_id) s)
          else
            (case start_request spawned conn_id (gs_async s) of
               (r, m) \<Rightarrow> (case r of Some i \<Rightarrow> i | None \<Rightarrow> 0, s\<lparr>gs_async := m\<rparr>)))"

definition odbc_async_poll :: "bool \<Rightarrow> u32 \<Rightarrow> global_state \<Rightarrow> int \<times> int option" where
  "odbc_async_poll null request_id s =
     (if null \<or> gs_poisoned s then (- 1, None)
      else (case async_poll request_id (gs_async s) of Some st \<Rightarrow> (0, Some st) | None \<Rightarrow> (- 1, None)))"

definition odbc_async_get_result :: "bool \<Rightarrow> u32 \<Rightarrow> u32 \<Rightarrow> global_state \<Rightarrow> int \<times> bytes option \<times> global_state" where
  "odbc_async_get_result null request_id buffer_len s =
     (if null then (- 1, None, s)
      else if gs_poisoned s then (- 1, Some [], s)
      else
        (case async_take_result request_id (gs_async s) of
           (None, m) \<Rightarrow> (- 1, Some [], s\<lparr>gs_async := m\<rparr>)
         | (Some (conn_id, r), m) \<Rightarrow>
             (case r of
                Ok data \<Rightarrow>
                  if length data > unat buffer_len then
                    (- 2, Some [], s\<lparr>gs_async := async_restore_result request_id (Ok data) m\<rparr>)
                  else (0, Some data, s\<lparr>gs_async := m\<rparr>)
              | Err e \<Rightarrow> (- 1, Some [], set_connection_structured_error conn_id (to_structured e) (s\<lparr>gs_async := m\<rparr>))
              | Panic \<Rightarrow> (FFI_PANIC, None, s\<lparr>gs_async := m, gs_poisoned := True\<rparr>))))"

definition odbc_async_cancel :: "u32 \<Rightarrow> global_state \<Rightarrow> int \<times> global_state" where
  "odbc_async_cancel request_id s =
     (if gs_poisoned s then (- 1, s)
      else (case async_cancel request_id (gs_async s) of (ok, m) \<Rightarrow> (if ok then 0 else - 1, s\<lparr>gs_async := m\<rparr>)))"

definition odbc_async_free :: "u32 \<Rightarrow> global_state \<Rightarrow> int \<times> global_state" where
  "odbc_async_free request_id s =
     (if gs_poisoned s then (- 1, s)
      else (case async_free request_id (gs_async s) of (ok, m) \<Rightarrow> (if ok then 0 else - 1, s\<lparr>gs_async := m\<rparr>)))"

section \<open>Streams\<close>

definition DEFAULT_FETCH_SIZE :: u32 where "DEFAULT_FETCH_SIZE = 100"
definition DEFAULT_CHUNK_SIZE :: u32 where "DEFAULT_CHUNK_SIZE = 1024"

definition or_default :: "u32 \<Rightarrow> u32 \<Rightarrow> usize" where
  "or_default dflt n = unat (if n > 0 then n else dflt)"

fun kind_fetch :: "stream_kind \<Rightarrow> disk \<Rightarrow> bytes option result \<times> stream_kind \<times> disk" where
  "kind_fetch (SK_Buffer b) d = (case stream_fetch_next_chunk (b, d) of (r, b, d) \<Rightarrow> (r, SK_Buffer b, d))"
| "kind_fetch (SK_Batched w) d = (case batched_fetch_next_chunk w of (r, w) \<Rightarrow> (r, SK_Batched w, d))"
| "kind_fetch (SK_AsyncBatched w) d = (case async_fetch_next_chunk w of (r, w) \<Rightarrow> (r, SK_AsyncBatched w, d))"

fun kind_has_more :: "stream_kind \<Rightarrow> bool" where
  "kind_has_more (SK_Buffer b) = stream_has_more b"
| "kind_has_more (SK_Batched w) = worker_has_more w"
| "kind_has_more (SK_AsyncBatched w) = worker_has_more w"

fun async_status_code :: "async_stream_status \<Rightarrow> int" where
  "async_status_code AS_Pending = 0"
| "async_status_code AS_Ready = 1"
| "async_status_code AS_Done = 2"
| "async_status_code AS_Cancelled = - 2"
| "async_status_code AS_Error = - 1"

fun kind_poll_status :: "bool \<Rightarrow> stream_kind \<Rightarrow> int \<times> stream_kind" where
  "kind_poll_status arrived (SK_AsyncBatched w) = (case poll_status arrived w of (st, w) \<Rightarrow> (async_status_code st, SK_AsyncBatched w))"
| "kind_poll_status arrived (SK_Buffer b) = (if stream_has_more b then 1 else 2, SK_Buffer b)"
| "kind_poll_status arrived (SK_Batched w) = (if worker_has_more w then 1 else 2, SK_Batched w)"

definition allocate_stream_id :: "u32 \<Rightarrow> global_state \<Rightarrow> u32 \<times> global_state" where
  "allocate_stream_id conn_id s =
     (case alloc_conn_id MAX_ID_ALLOC_ATTEMPTS (map_of (gs_streams s)) (gs_next_stream_id s) of
        (i, nxt) \<Rightarrow>
          let s = s\<lparr>gs_next_stream_id := nxt\<rparr> in
          (i, if i = 0 then set_connection_error conn_id ''Failed to allocate stream ID'' s else s))"

text \<open>Registering a stream that was started, under the second lock; one without an identifier is dropped.\<close>

definition register_stream :: "string \<Rightarrow> u32 \<Rightarrow> stream_kind result \<Rightarrow> global_state \<Rightarrow> u32 \<times> global_state" where
  "register_stream what conn_id r s =
     (case r of
        Ok k \<Rightarrow>
          (case allocate_stream_id conn_id s of
             (i, s) \<Rightarrow>
               if i = 0 then (0, s\<lparr>gs_disk := drop_stream k (gs_disk s)\<rparr>)
               else
                 (i, s\<lparr>gs_streams := AList.update i k (gs_streams s),
                       gs_stream_connections := AList.update i conn_id (gs_stream_connections s)\<rparr>))
      | Err e \<Rightarrow> (0, set_connection_error conn_id (what @ '' failed: '' @ error_display e) s)
      | Panic \<Rightarrow> (0, s))"

definition odbc_stream_start :: "backend \<Rightarrow> u32 \<Rightarrow> bytes option \<Rightarrow> u32 \<Rightarrow> global_state \<Rightarrow> u32 \<times> global_state" where
  "odbc_stream_start be conn_id sql chunk_size s =
     (case Option.bind sql c_str of
        None \<Rightarrow> (0, s)
      | Some q \<Rightarrow>
          if gs_poisoned s then (0, s)
          else if map_of (gs_connections s) conn_id = None then
            (0, set_connection_error conn_id (invalid_connection conn_id) s)
          else
            (case conn_problem conn_id s of
               Some m \<Rightarrow> (0, set_error m s)
             | None \<Rightarrow>
                 let chunk = or_default DEFAULT_CHUNK_SIZE chunk_size; prepare = oc_prepare (be_conn be conn_id) in
                 (case (case be_spill_threshold be of
                          Some t \<Rightarrow>
                            if t > 0 then execute_streaming_with_spill (be_temp_dir be) chunk prepare q (Some t) (gs_disk s)
                            else (omap InMemory (execute_streaming chunk prepare q), gs_disk s)
                        | None \<Rightarrow> (omap InMemory (execute_streaming chunk prepare q), gs_disk s)) of
                    (Panic, d) \<Rightarrow> (0, poison_connection conn_id (s\<lparr>gs_disk := d, gs_poisoned := True\<rparr>))
                  | (r, d) \<Rightarrow> register_stream ''odbc_stream_start'' conn_id (omap SK_Buffer r) (s\<lparr>gs_disk := d\<rparr>))))"

text \<open>What the workers see of the handle manager, and whether they can lock the connection.\<close>

definition worker_handles :: "backend \<Rightarrow> world \<Rightarrow> (u32 \<Rightarrow> odbc_error + (string \<Rightarrow> prepared api)) option" where
  "worker_handles be w =
     (if w_poisoned w then None
      else Some (\<lambda>i. case get_connection (w_handles w) i of
                        Ok _ \<Rightarrow> Inr (oc_prepare (be_conn be i)) | Err e \<Rightarrow> Inl e | Panic \<Rightarrow> Inl (InvalidHandle i)))"

definition worker_lock_ok :: "u32 \<Rightarrow> world \<Rightarrow> bool" where
  "worker_lock_ok conn_id w = (case hm_connections (w_handles w) conn_id of Some c \<Rightarrow> \<not> cn_poisoned c | None \<Rightarrow> False)"

text \<open>
  The four entry points that start a worker: they differ in the name, in the worker, in the kind of the
  stream, and in whether an invalid connection is reported for the connection or globally.
\<close>

definition start_with_worker ::
  "string \<Rightarrow> bool \<Rightarrow> (worker_stream \<Rightarrow> stream_kind) \<Rightarrow> (string \<Rightarrow> worker_stream result) \<Rightarrow> u32 \<Rightarrow> bytes option \<Rightarrow> global_state \<Rightarrow>
   u32 \<times> global_state"
where
  "start_with_worker what per_connection kind spawn conn_id sql s =
     (case Option.bind sql c_str of
        None \<Rightarrow> (0, s)
      | Some q \<Rightarrow>
          if gs_poisoned s then (0, s)
          else if map_of (gs_connections s) conn_id = None then
            (0, report (if per_connection then Some conn_id else None) (invalid_connection conn_id) s)
          else register_stream what conn_id (omap kind (spawn q)) s)"

text \<open>\<open>cancel\<close> tells at which of its checks the worker sees the cancellation flag.\<close>

definition odbc_stream_start_batched ::
  "backend \<Rightarrow> (nat \<Rightarrow> bool) \<Rightarrow> u32 \<Rightarrow> bytes option \<Rightarrow> u32 \<Rightarrow> u32 \<Rightarrow> global_state \<Rightarrow> u32 \<times> global_state"
where
  "odbc_stream_start_batched be cancel conn_id sql fetch_size chunk_size s =
     start_with_worker ''odbc_stream_start_batched'' True SK_Batched
       (\<lambda>q. start_worker_stream (worker_lock_ok conn_id (gs_world s)) (worker_handles be (gs_world s)) conn_id q
              (or_default DEFAULT_FETCH_SIZE fetch_size) (or_default DEFAULT_CHUNK_SIZE chunk_size) cancel) conn_id sql s"

definition odbc_stream_start_async ::
  "backend \<Rightarrow> (nat \<Rightarrow> bool) \<Rightarrow> u32 \<Rightarrow> bytes option \<Rightarrow> u32 \<Rightarrow> u32 \<Rightarrow> global_state \<Rightarrow> u32 \<times> global_state"
where
  "odbc_stream_start_async be cancel conn_id sql fetch_size chunk_size s =
     start_with_worker ''odbc_stream_start_async'' False SK_AsyncBatched
       (\<lambda>q. start_worker_stream (worker_lock_ok conn_id (gs_world s)) (worker_handles be (gs_world s)) conn_id q
              (or_default DEFAULT_FETCH_SIZE fetch_size) (or_default DEFAULT_CHUNK_SIZE chunk_size) cancel) conn_id sql s"

definition odbc_stream_multi_start_batched ::
  "backend \<Rightarrow> (nat \<Rightarrow> bool) \<Rightarrow> u32 \<Rightarrow> bytes option \<Rightarrow> u32 \<Rightarrow> global_state \<Rightarrow> u32 \<times> global_state"
where
  "odbc_stream_multi_start_batched be cancel conn_id sql chunk_size s =
     start_with_worker ''odbc_stream_multi_start_batched'' True SK_Batched
       (\<lambda>q. spawn_multi_stream_worker (worker_lock_ok conn_id (gs_world s)) (worker_handles be (gs_world s)) conn_id q
              (or_default DEFAULT_CHUNK_SIZE chunk_size) cancel) conn_id sql s"

definition odbc_stream_multi_start_async ::
  "backend \<Rightarrow> (nat \<Rightarrow> bool) \<Rightarrow> u32 \<Rightarrow> bytes option \<Rightarrow> u32 \<Rightarrow> global_state \<Rightarrow> u32 \<times> global_state"
where
  "odbc_stream_multi_start_async be cancel conn_id sql chunk_size s =
     start_with_worker ''odbc_stream_multi_start_async'' False SK_AsyncBatched
       (\<lambda>q. spawn_multi_stream_worker (worker_lock_ok conn_id (gs_world s)) (worker_handles be (gs_world s)) conn_id q
              (or_default DEFAULT_CHUNK_SIZE chunk_size) cancel) conn_id sql s"

definition odbc_stream_poll_async :: "bool \<Rightarrow> bool \<Rightarrow> u32 \<Rightarrow> global_state \<Rightarrow> int \<times> int option \<times> global_state" where
  "odbc_stream_poll_async arrived null stream_id s =
     (if null \<or> gs_poisoned s then (- 1, None, s)
      else
        (case map_of (gs_streams s) stream_id of
           None \<Rightarrow> (- 1, None, set_error (''Invalid stream ID: '' @ show_nat (unat stream_id)) s)
         | Some k \<Rightarrow>
             (case kind_poll_status arrived k of
                (st, k) \<Rightarrow> (0, Some st, s\<lparr>gs_streams := AList.update stream_id k (gs_streams s)\<rparr>))))"

text \<open>The code, and the bytes with the flag \<open>has_more\<close> when they are written.\<close>

definition odbc_stream_fetch :: "bool \<Rightarrow> u32 \<Rightarrow> u32 \<Rightarrow> global_state \<Rightarrow> int \<times> (bytes \<times> bool) option \<times> global_state" where
  "odbc_stream_fetch null stream_id buf_len s =
     (if null \<or> gs_poisoned s then (- 1, None, s)
      else
        let conn_id = map_of (gs_stream_connections s) stream_id in
        (case map_of (gs_pending_chunks s) stream_id of
           Some p \<Rightarrow>
             if length (pc_data p) > unat buf_len then (- 2, None, report conn_id (too_small (length (pc_data p)) buf_len) s)
             else
               (0, Some (pc_data p, pc_has_more p),
                s\<lparr>gs_pending_chunks := AList.delete stream_id (gs_pending_chunks s)\<rparr>)
         | None \<Rightarrow>
             (case map_of (gs_streams s) stream_id of
                None \<Rightarrow> (- 1, None, set_error (''Invalid stream ID: '' @ show_nat (unat stream_id)) s)
              | Some k \<Rightarrow>
                  (case kind_fetch k (gs_disk s) of
                     (r, k, d) \<Rightarrow>
                       let s = s\<lparr>gs_streams := AList.update stream_id k (gs_streams s), gs_disk := d\<rparr> in
                       (case r of
                          Ok (Some data) \<Rightarrow>
                            if length data > unat buf_len then
                              (- 2, None,
                               report conn_id (too_small (length data) buf_len)
                                 (s\<lparr>gs_pending_chunks := AList.update stream_id
                                      \<lparr>pc_data = data, pc_has_more = kind_has_more k\<rparr> (gs_pending_chunks s)\<rparr>))
                            else (0, Some (data, kind_has_more k), s)
                        | Ok None \<Rightarrow> (0, Some ([], False), s)
                        | Err e \<Rightarrow> (- 1, None, report conn_id (''odbc_stream_fetch failed: '' @ error_display e) s)
                        | Panic \<Rightarrow> (FFI_PANIC, None, s\<lparr>gs_streams := AList.delete stream_id (gs_streams s)\<rparr>))))))"

definition odbc_stream_cancel :: "u32 \<Rightarrow> global_state \<Rightarrow> int \<times> global_state" where
  "odbc_stream_cancel stream_id s =
     (if gs_poisoned s then (- 1, s)
      else
        (case map_of (gs_streams s) stream_id of
           Some k \<Rightarrow> (0, s\<lparr>gs_streams := AList.update stream_id (stream_cancel k) (gs_streams s)\<rparr>)
         | None \<Rightarrow> (1, set_error (''Invalid stream ID: '' @ show_nat (unat stream_id)) s)))"

definition odbc_stream_close :: "u32 \<Rightarrow> global_state \<Rightarrow> int \<times> global_state" where
  "odbc_stream_close stream_id s =
     (if gs_poisoned s then (- 1, s)
      else
        (case map_of (gs_streams s) stream_id of
           Some k \<Rightarrow>
             (0, s\<lparr>gs_streams := AList.delete stream_id (gs_streams s),
                   gs_stream_connections := AList.delete stream_id (gs_stream_connections s),
                   gs_pending_chunks := AList.delete stream_id (gs_pending_chunks s),
                   gs_disk := drop_stream k (gs_disk s)\<rparr>)
         | None \<Rightarrow> (1, set_error (''Invalid stream ID: '' @ show_nat (unat stream_id)) s)))"

end
