(* ===== verification/Session_Laws.thy ===== *)
theory Session_Laws
  imports Requests
begin

text \<open>
  What the C interface promises its client: errors reach the connection they belong to, a result that did
  not fit is kept and delivered once, streams lose nothing whatever the buffer sizes, asynchronous
  requests are answered once, disconnecting releases what belongs to the connection, and the tables stay
  consistent on every sequence of calls.
\<close>

named_theorems table_simps

lemma map_of_table [table_simps]:
  "map_of (AList.update k v t) = (map_of t)(k \<mapsto> v)" "map_of (AList.delete k t) = (map_of t)(k := None)"
  by (simp_all add: update_conv' delete_conv')

lemma map_of_filter_keys [table_simps]: "map_of (filter (\<lambda>(k, _). P k) t) = map_of t |` {k. P k}"
proof
  fix x show "map_of (filter (\<lambda>(k, _). P k) t) x = (map_of t |` {k. P k}) x"
    by (induction t) (auto simp: restrict_map_def)
qed

lemma map_of_drop_keys [table_simps]: "map_of (drop_keys ks t) = map_of t |` (- set ks)"
  by (simp add: drop_keys_def map_of_filter_keys Compl_eq)

section \<open>Errors\<close>

lemma error_setters [simp]:
  "gs_poisoned (set_connection_error i m s) = gs_poisoned s" "gs_poisoned (set_error m s) = gs_poisoned s"
  "gs_poisoned (set_connection_structured_error i e s) = gs_poisoned s" "gs_poisoned (report c m s) = gs_poisoned s"
  "gs_env (set_connection_error i m s) = gs_env s" "gs_env (set_error m s) = gs_env s"
  "gs_env (set_connection_structured_error i e s) = gs_env s" "gs_env (report c m s) = gs_env s"
  "gs_world (set_connection_error i m s) = gs_world s" "gs_world (set_error m s) = gs_world s"
  "gs_world (set_connection_structured_error i e s) = gs_world s" "gs_world (report c m s) = gs_world s"
  "gs_disk (set_connection_error i m s) = gs_disk s" "gs_disk (set_error m s) = gs_disk s"
  "gs_disk (set_connection_structured_error i e s) = gs_disk s" "gs_disk (report c m s) = gs_disk s"
  "gs_connections (set_connection_error i m s) = gs_connections s" "gs_connections (set_error m s) = gs_connections s"
  "gs_connections (set_connection_structured_error i e s) = gs_connections s" "gs_connections (report c m s) = gs_connections s"
  "gs_transactions (set_connection_error i m s) = gs_transactions s" "gs_transactions (set_error m s) = gs_transactions s"
  "gs_transactions (set_connection_structured_error i e s) = gs_transactions s" "gs_transactions (report c m s) = gs_transactions s"
  "gs_xa_active (set_connection_error i m s) = gs_xa_active s" "gs_xa_active (set_error m s) = gs_xa_active s"
  "gs_xa_preparing (set_connection_error i m s) = gs_xa_preparing s" "gs_xa_preparing (set_error m s) = gs_xa_preparing s"
  "gs_xa_prepared (set_connection_error i m s) = gs_xa_prepared s" "gs_xa_prepared (set_error m s) = gs_xa_prepared s"
  "gs_xa_active (set_connection_structured_error i e s) = gs_xa_active s" "gs_xa_active (report c m s) = gs_xa_active s"
  "gs_xa_preparing (set_connection_structured_error i e s) = gs_xa_preparing s" "gs_xa_preparing (report c m s) = gs_xa_preparing s"
  "gs_xa_prepared (set_connection_structured_error i e s) = gs_xa_prepared s" "gs_xa_prepared (report c m s) = gs_xa_prepared s"
  "gs_statements (set_connection_error i m s) = gs_statements s" "gs_statements (set_error m s) = gs_statements s"
  "gs_statements (set_connection_structured_error i e s) = gs_statements s" "gs_statements (report c m s) = gs_statements s"
  "gs_streams (set_connection_error i m s) = gs_streams s" "gs_streams (set_error m s) = gs_streams s"
  "gs_streams (set_connection_structured_error i e s) = gs_streams s" "gs_streams (report c m s) = gs_streams s"
  "gs_stream_connections (set_connection_error i m s) = gs_stream_connections s"
  "gs_stream_connections (set_error m s) = gs_stream_connections s"
  "gs_stream_connections (set_connection_structured_error i e s) = gs_stream_connections s"
  "gs_stream_connections (report c m s) = gs_stream_connections s"
  "gs_pending_chunks (set_connection_error i m s) = gs_pending_chunks s" "gs_pending_chunks (set_error m s) = gs_pending_chunks s"
  "gs_pending_chunks (set_connection_structured_error i e s) = gs_pending_chunks s"
  "gs_pending_chunks (report c m s) = gs_pending_chunks s"
  "gs_pending_results (set_connection_error i m s) = gs_pending_results s" "gs_pending_results (set_error m s) = gs_pending_results s"
  "gs_pending_results (set_connection_structured_error i e s) = gs_pending_results s"
  "gs_pending_results (report c m s) = gs_pending_results s"
  "gs_pooled (set_connection_error i m s) = gs_pooled s" "gs_pooled (set_error m s) = gs_pooled s"
  "gs_pooled (set_connection_structured_error i e s) = gs_pooled s" "gs_pooled (report c m s) = gs_pooled s"
  "gs_async (set_connection_error i m s) = gs_async s" "gs_async (set_error m s) = gs_async s"
  "gs_async (set_connection_structured_error i e s) = gs_async s" "gs_async (report c m s) = gs_async s"
  by (simp_all add: set_connection_error_def set_error_def set_connection_structured_error_def report_def split: option.splits)

lemma structured_error_simps [simp]:
  "get_connection_structured_error (set_connection_structured_error i e s) (Some j) =
     (if j = i then Some e else get_connection_structured_error s (Some j))"
  "get_connection_structured_error (set_connection_error i m s) (Some j) =
     (if j = i then None else get_connection_structured_error s (Some j))"
  "get_connection_structured_error (set_error m s) (Some j) = get_connection_structured_error s (Some j)"
  by (simp_all add: get_connection_structured_error_def set_connection_structured_error_def set_connection_error_def
      set_error_def table_simps)

section \<open>Streams through the interface\<close>

definition kind_inv :: "nat \<Rightarrow> stream_kind \<times> disk \<Rightarrow> bool" where
  "kind_inv n kd =
     (case kd of
        (SK_Buffer b, d) \<Rightarrow> stream_inv n (b, d)
      | (SK_Batched w, _) \<Rightarrow> worker_inv n w
      | (SK_AsyncBatched w, _) \<Rightarrow> worker_inv n w)"

definition kind_remaining :: "stream_kind \<times> disk \<Rightarrow> bytes" where
  "kind_remaining kd =
     (case kd of
        (SK_Buffer b, d) \<Rightarrow> stream_remaining (b, d)
      | (SK_Batched w, _) \<Rightarrow> worker_remaining w
      | (SK_AsyncBatched w, _) \<Rightarrow> worker_remaining w)"

definition kind_ending :: "stream_kind \<times> disk \<Rightarrow> unit result" where
  "kind_ending kd =
     (case fst kd of
        SK_Buffer _ \<Rightarrow> Ok ()
      | SK_Batched w \<Rightarrow> worker_ending ''Stream worker'' w
      | SK_AsyncBatched w \<Rightarrow> worker_ending ''Async stream worker'' w)"

interpretation kind: chunk_stream "\<lambda>(k, d). kind_fetch k d" kind_remaining kind_ending "kind_inv n" n for n
proof
  fix kd assume a: "kind_inv n kd" "kind_remaining kd \<noteq> []"
  obtain k d where kd: "kd = (k, d)" by fastforce
  show "\<exists>c s'. (case kd of (k, d) \<Rightarrow> kind_fetch k d) = (Ok (Some c), s') \<and> c \<noteq> [] \<and> length c \<le> n \<and>
      kind_remaining kd = c @ kind_remaining s' \<and> kind_ending s' = kind_ending kd \<and> kind_inv n s'"
  proof (cases k)
    case (SK_Buffer b)
    with a stream.fetch_some[of n "(b, d)"] obtain c b' d' where
      "stream_fetch_next_chunk (b, d) = (Ok (Some c), b', d')" "c \<noteq> []" "length c \<le> n"
      "stream_remaining (b, d) = c @ stream_remaining (b', d')" "stream_inv n (b', d')"
      by (auto simp: kd kind_inv_def kind_remaining_def)
    then show ?thesis
      by (intro exI[of _ c] exI[of _ "(SK_Buffer b', d')"])
        (simp add: kd SK_Buffer kind_inv_def kind_remaining_def kind_ending_def)
  next
    case (SK_Batched w)
    with a batched.fetch_some[of n w] obtain c w' where
      "batched_fetch_next_chunk w = (Ok (Some c), w')" "c \<noteq> []" "length c \<le> n" "worker_inv n w'"
      "worker_remaining w = c @ worker_remaining w'" "worker_ending ''Stream worker'' w' = worker_ending ''Stream worker'' w"
      by (auto simp: kd kind_inv_def kind_remaining_def)
    then show ?thesis
      by (intro exI[of _ c] exI[of _ "(SK_Batched w', d)"])
        (simp add: kd SK_Batched kind_inv_def kind_remaining_def kind_ending_def)
  next
    case (SK_AsyncBatched w)
    with a async.fetch_some[of n w] obtain c w' where
      "async_fetch_next_chunk w = (Ok (Some c), w')" "c \<noteq> []" "length c \<le> n" "worker_inv n w'"
      "worker_remaining w = c @ worker_remaining w'"
      "worker_ending ''Async stream worker'' w' = worker_ending ''Async stream worker'' w"
      by (auto simp: kd kind_inv_def kind_remaining_def)
    then show ?thesis
      by (intro exI[of _ c] exI[of _ "(SK_AsyncBatched w', d)"])
        (simp add: kd SK_AsyncBatched kind_inv_def kind_remaining_def kind_ending_def)
  qed
next
  fix kd assume a: "kind_inv n kd" "kind_remaining kd = []"
  obtain k d where kd: "kd = (k, d)" by fastforce
  show "\<exists>s'. (case kd of (k, d) \<Rightarrow> kind_fetch k d) =
      (case kind_ending kd of Ok _ \<Rightarrow> Ok None | Err e \<Rightarrow> Err e | Panic \<Rightarrow> Panic, s')"
    using a stream.fetch_end[of n] batched.fetch_end[of n] async.fetch_end[of n]
    by (cases k) (fastforce simp: kd kind_inv_def kind_remaining_def kind_ending_def)+
qed

text \<open>
  A client that calls \<open>odbc_stream_fetch\<close> with buffers of the given sizes, trying again when told that the
  buffer is too small: the bytes it received, and the state unless the stream has ended.
\<close>

fun client_run :: "u32 \<Rightarrow> u32 list \<Rightarrow> global_state \<Rightarrow> bytes \<times> global_state option" where
  "client_run i [] s = ([], Some s)"
| "client_run i (n # ns) s =
     (case odbc_stream_fetch False i n s of
        (code, out, s') \<Rightarrow>
          if code = - 2 then client_run i ns s'
          else
            (case out of
               Some (data, _) \<Rightarrow>
                 if data = [] then ([], None) else (case client_run i ns s' of (rest, e) \<Rightarrow> (data @ rest, e))
             | None \<Rightarrow> ([], None)))"

text \<open>What a stream still owes its client: the chunk that waits for a larger buffer, and what was not fetched.\<close>

definition stream_left :: "u32 \<Rightarrow> global_state \<Rightarrow> bytes" where
  "stream_left i s =
     (case map_of (gs_pending_chunks s) i of Some p \<Rightarrow> pc_data p | None \<Rightarrow> []) @
     (case map_of (gs_streams s) i of Some k \<Rightarrow> kind_remaining (k, gs_disk s) | None \<Rightarrow> [])"

definition stream_ready :: "nat \<Rightarrow> u32 \<Rightarrow> global_state \<Rightarrow> bool" where
  "stream_ready n i s \<longleftrightarrow>
     \<not> gs_poisoned s \<and> (case map_of (gs_streams s) i of Some k \<Rightarrow> kind_inv n (k, gs_disk s) | None \<Rightarrow> False) \<and>
     (case map_of (gs_pending_chunks s) i of Some p \<Rightarrow> pc_data p \<noteq> [] \<and> length (pc_data p) \<le> n | None \<Rightarrow> True)"

text \<open>One call: more bytes, a retry that changes nothing, or the end.\<close>

lemma stream_fetch_cases:
  assumes "stream_ready n i s"
  obtains (data) c m s' where "odbc_stream_fetch False i b s = (0, Some (c, m), s')" "c \<noteq> []"
      "stream_left i s = c @ stream_left i s'" "stream_ready n i s'"
    | (retry) s' where "odbc_stream_fetch False i b s = (- 2, None, s')" "stream_left i s' = stream_left i s"
      "stream_ready n i s'" "unat b < n"
    | (ended) code out s' where "odbc_stream_fetch False i b s = (code, out, s')" "stream_left i s = []"
      "code \<noteq> - 2" "out = None \<or> (\<exists>m. out = Some ([], m))"
proof (cases "map_of (gs_pending_chunks s) i")
  case (Some p)
  show ?thesis
  proof (cases "length (pc_data p) > unat b")
    case True
    with Some assms show ?thesis
      by (intro retry[of "report (map_of (gs_stream_connections s) i) (too_small (length (pc_data p)) b) s"])
        (auto simp: odbc_stream_fetch_def stream_ready_def stream_left_def Let_def split: option.splits)
  next
    case False
    with Some assms show ?thesis
      by (intro data[of "pc_data p" "pc_has_more p" "s\<lparr>gs_pending_chunks := AList.delete i (gs_pending_chunks s)\<rparr>"])
        (auto simp: odbc_stream_fetch_def stream_ready_def stream_left_def Let_def table_simps split: option.splits)
  qed
next
  case None
  with assms obtain k where k: "map_of (gs_streams s) i = Some k" "kind_inv n (k, gs_disk s)" "\<not> gs_poisoned s"
    by (auto simp: stream_ready_def split: option.splits)
  have left: "stream_left i s = kind_remaining (k, gs_disk s)" using None k by (simp add: stream_left_def)
  show ?thesis
  proof (cases "kind_remaining (k, gs_disk s) = []")
    case True
    from kind.fetch_end[OF k(2) this] obtain k' d' where
      f: "kind_fetch k (gs_disk s) = (case kind_ending (k, gs_disk s) of Ok _ \<Rightarrow> Ok None | Err e \<Rightarrow> Err e | Panic \<Rightarrow> Panic, k', d')"
      by auto
    obtain code out s' where r: "odbc_stream_fetch False i b s = (code, out, s')" by (metis surj_pair)
    show ?thesis
      using f r None k
      by (intro ended[OF r]) (auto simp: left True odbc_stream_fetch_def Let_def FFI_PANIC_def split: outcome.splits)
  next
    case False
    from kind.fetch_some[OF k(2) this] obtain c k' d' where
      f: "kind_fetch k (gs_disk s) = (Ok (Some c), k', d')" "c \<noteq> []" "length c \<le> n"
         "kind_remaining (k, gs_disk s) = c @ kind_remaining (k', d')" "kind_inv n (k', d')"
      by auto
    let ?s = "s\<lparr>gs_streams := AList.update i k' (gs_streams s), gs_disk := d'\<rparr>"
    let ?p = "\<lparr>pc_data = c, pc_has_more = kind_has_more k'\<rparr>"
    show ?thesis
    proof (cases "length c > unat b")
      case True
      with f k None show ?thesis
        by (intro retry[of "report (map_of (gs_stream_connections s) i) (too_small (length c) b)
               (?s\<lparr>gs_pending_chunks := AList.update i ?p (gs_pending_chunks ?s)\<rparr>)"])
          (auto simp: odbc_stream_fetch_def stream_ready_def stream_left_def Let_def table_simps)
    next
      case small: False
      with f k None show ?thesis
        by (intro data[of c "kind_has_more k'" ?s])
          (auto simp: odbc_stream_fetch_def stream_ready_def stream_left_def Let_def table_simps)
    qed
  qed
qed

text \<open>
  C8. Nothing is lost, repeated or reordered between a stream and its client, whatever sizes its buffers
  have: the bytes received so far followed by what the stream still owes (a chunk that waits for a larger
  buffer included) are the content of the stream, and when the client has seen the end it has received
  all of it. With buffers of at least the chunk size the client does see the end, after at most one call
  more than there are bytes.
\<close>

theorem stream_delivery:
  assumes "stream_ready n i s"
  shows "(case client_run i sizes s of
            (received, Some s') \<Rightarrow> stream_left i s = received @ stream_left i s' \<and> stream_ready n i s'
          | (received, None) \<Rightarrow> received = stream_left i s) \<and>
     (list_all (\<lambda>b. n \<le> unat b) sizes \<and> length (stream_left i s) < length sizes \<longrightarrow>
        client_run i sizes s = (stream_left i s, None))"
  using assms
proof (induction sizes arbitrary: s)
  case Nil
  then show ?case by simp
next
  case (Cons b sizes)
  from Cons.prems show ?case
  proof (cases rule: stream_fetch_cases[where b = b])
    case (data c m s')
    have "length (stream_left i s) < length (b # sizes) \<Longrightarrow> length (stream_left i s') < length sizes"
      using data(2,3) by (cases c) auto
    moreover obtain rest e where "client_run i sizes s' = (rest, e)" by fastforce
    moreover from this have "client_run i (b # sizes) s = (c @ rest, e)" using data(1,2) by simp
    ultimately show ?thesis using Cons.IH[OF data(4)] data(3) by (cases e) auto
  next
    case (retry s')
    with Cons.IH[of s'] show ?thesis by auto
  next
    case (ended code out s')
    then show ?thesis by auto
  qed
qed

definition example_stream :: global_state where
  "example_stream =
     (fresh_state (calm_disk []))\<lparr>gs_streams := [(1, SK_Buffer (InMemory \<lparr>st_data = [1, 2, 3], st_offset = 0, st_chunk_size = 2\<rparr>))],
        gs_stream_connections := [(1, 9)]\<rparr>"

theorem stream_delivery_witness:
  "client_run 1 [2, 5, 5, 5] example_stream = ([1, 2, 3], None) \<and>
   fst (odbc_stream_fetch False 1 1 example_stream) = - 2"
proof -
  have "stream_ready 2 1 example_stream" "stream_left 1 example_stream = [1, 2, 3]"
    by (simp_all add: example_stream_def fresh_state_def stream_ready_def stream_left_def kind_inv_def kind_remaining_def
        stream_inv_def stream_remaining_def mem_inv_def mem_remaining_def)
  moreover have "fst (odbc_stream_fetch False 1 1 example_stream) = - 2"
    by (simp add: example_stream_def fresh_state_def odbc_stream_fetch_def stream_fetch_next_chunk_def
        mem_fetch_next_chunk_def Let_def)
  ultimately show ?thesis using stream_delivery[of 2 1 example_stream "[2, 5, 5, 5]"] by simp
qed

section \<open>Results that did not fit\<close>

text \<open>The five entry points that run a statement, as requests.\<close>

datatype exec_request =
    ExecQuery u32 bytes
  | ExecParams u32 bytes "bytes option"
  | ExecMulti u32 bytes
  | ExecMultiParams u32 bytes "bytes option"
  | ExecStmt u32 "bytes option" u32 u32

fun exec_run :: "backend \<Rightarrow> nat \<Rightarrow> nat \<Rightarrow> exec_request \<Rightarrow> u32 \<Rightarrow> global_state \<Rightarrow> int \<times> bytes option \<times> global_state" where
  "exec_run be now later (ExecQuery c q) n s = odbc_exec_query be now later False c (Some q) n s"
| "exec_run be now later (ExecParams c q ps) n s = odbc_exec_query_params be now later False c (Some q) ps n s"
| "exec_run be now later (ExecMulti c q) n s = odbc_exec_query_multi be now later False c (Some q) n s"
| "exec_run be now later (ExecMultiParams c q ps) n s = odbc_exec_query_multi_params be now later False c (Some q) ps n s"
| "exec_run be now later (ExecStmt i ps t f) n s = odbc_execute be now later False i ps t f n s"

text \<open>The key of the request's pending result.\<close>

fun exec_key :: "(bytes \<Rightarrow> u64) \<Rightarrow> exec_request \<Rightarrow> pending_result_key" where
  "exec_key h (ExecQuery c q) = PK_ExecQuery c (h q)"
| "exec_key h (ExecParams c q ps) =
     PK_ExecQueryParams c (h q) (if given_params ps = [] then 0 else h (given_params ps))"
| "exec_key h (ExecMulti c q) = PK_ExecQueryMulti c (h q)"
| "exec_key h (ExecMultiParams c q ps) =
     PK_ExecQueryParams c (h q) (if given_params ps = [] then 0 else h (given_params ps))"
| "exec_key h (ExecStmt i ps t f) = PK_Execute i (if given_params ps = [] then 0 else h (given_params ps)) t f"

lemma c_str_bytes: "c_str bs = Some q \<Longrightarrow> as_bytes q = bs"
  by (auto simp: c_str_def from_utf8_Ok_iff split: outcome.splits)

text \<open>What a call that stashes its result leaves alone.\<close>

definition exec_frame :: "global_state \<Rightarrow> global_state \<Rightarrow> bool" where
  "exec_frame s s' \<longleftrightarrow>
     gs_poisoned s' = gs_poisoned s \<and> gs_world s' = gs_world s \<and> gs_connections s' = gs_connections s \<and>
     gs_statements s' = gs_statements s"

definition stored :: "pending_result_key \<Rightarrow> u32 \<Rightarrow> global_state \<Rightarrow> bool" where
  "stored key n s \<longleftrightarrow> (\<exists>e. map_of (gs_pending_results s) key = Some e \<and> unat n < length (pb_data e))"

lemma exec_frame_problem: "conn_problem c s' = conn_problem c s" if "exec_frame s s'"
  using that by (simp add: exec_frame_def conn_problem_def)

lemma deliver_too_small: "deliver now key c n zero panic r s = (- 2, out, s') \<Longrightarrow> exec_frame s s' \<and> stored key n s'"
  by (auto simp: deliver_def stash_pending_result_def table_simps FFI_PANIC_def exec_frame_def stored_def
      split: outcome.splits if_splits)

lemma unless_pending_too_small:
  assumes "unless_pending now key n c run s = (- 2, out, s')"
    and "\<And>out s'. run s = (- 2, out, s') \<Longrightarrow> exec_frame s s' \<and> stored key n s'"
  shows "exec_frame s s' \<and> stored key n s'"
  using assms by (auto simp: unless_pending_def try_write_pending_result_def Let_def table_simps exec_frame_def stored_def
      split: option.splits if_splits prod.splits)

lemma unless_pending_hit:
  assumes "map_of (gs_pending_results s) key = Some e" and "now - pb_created_at e \<le> PENDING_RESULT_TTL"
    and "length (pb_data e) \<le> unat n"
  shows "unless_pending now key n c run s =
           (0, Some (pb_data e), s\<lparr>gs_pending_results := AList.delete key (gs_pending_results s)\<rparr>)"
  using assms by (simp add: unless_pending_def try_write_pending_result_def Let_def)

lemma run_locked_too_small:
  "run_locked later key c n zero missing r s = (- 2, out, s') \<Longrightarrow> exec_frame s s' \<and> stored key n s'"
  by (auto simp: run_locked_def dest: deliver_too_small split: if_splits option.splits)

lemmas exec_defs = odbc_exec_query_def odbc_exec_query_params_def odbc_exec_query_multi_def
  odbc_exec_query_multi_params_def odbc_execute_def

lemma exec_too_small:
  assumes "exec_run be now later req n s = (- 2, out, s')"
  shows "exec_frame s s' \<and> stored (exec_key (be_hash be) req) n s'"
proof (cases req)
  case (ExecQuery c q)
  have "deliver l k c n z p r (s0\<lparr>gs_pooled := t\<rparr>) = (- 2, out, s1) \<Longrightarrow> exec_frame s0 s1 \<and> stored k n s1" for l k z p r s0 t out s1
    by (drule deliver_too_small) (simp add: exec_frame_def)
  with ExecQuery assms show ?thesis
    by (auto simp: exec_defs Let_def c_str_bytes split: option.splits if_splits
        elim!: unless_pending_too_small dest: deliver_too_small)
next
  case (ExecParams c q ps)
  with assms show ?thesis
    by (auto simp: exec_defs Let_def c_str_bytes params_hash_def bind_eq_Some_conv split: option.splits if_splits
        elim!: unless_pending_too_small dest: deliver_too_small split: outcome.splits)
qed (use assms in \<open>auto simp: exec_defs Let_def c_str_bytes params_hash_def bind_eq_Some_conv FFI_PANIC_def
       split: option.splits if_splits outcome.splits elim!: unless_pending_too_small dest: run_locked_too_small\<close>)

text \<open>The result of the statement a request runs.\<close>

fun exec_result :: "backend \<Rightarrow> global_state \<Rightarrow> exec_request \<Rightarrow> bytes result" where
  "exec_result be s (ExecQuery c q) =
     (if map_of (gs_connections s) c \<noteq> None then execute_direct_cached engine_new (be_conn be c) (of_bytes q)
      else execute_direct (be_compressors be) engine_new (be_conn be c) (of_bytes q))"
| "exec_result be s (ExecParams c q ps) =
     (if given_params ps = [] then execute_direct_cached engine_new (be_conn be c) (of_bytes q)
      else dispatch_param_buffer (be_compressors be) engine_new (be_conn be c) (be_slots be c) (of_bytes q) (given_params ps) None)"
| "exec_result be s (ExecMulti c q) = execute_multi (be_compressors be) engine_new (be_conn be c) (of_bytes q)"
| "exec_result be s (ExecMultiParams c q ps) =
     (case batch_params (given_params ps) of
        Ok vs \<Rightarrow> execute_multi_with_params (be_compressors be) engine_new (be_conn be c) (of_bytes q) vs
      | _ \<Rightarrow> Panic)"
| "exec_result be s (ExecStmt i ps t f) =
     (case map_of (gs_statements s) i of
        Some st \<Rightarrow>
          dispatch_param_buffer (be_compressors be) engine_new (be_conn be (sh_conn_id st)) (be_slots be (sh_conn_id st))
            (sh_sql st) (given_params ps) (if t > 0 then Some (max (unat t div 1000) 1) else statement_timeout_sec st)
      | None \<Rightarrow> Panic)"

lemma c_str_of_bytes: "c_str bs = Some q \<Longrightarrow> q = of_bytes bs"
  by (auto simp: c_str_def from_utf8_Ok_iff split: outcome.splits)

lemma unless_pending_miss:
  "map_of (gs_pending_results s) key = None \<Longrightarrow> unless_pending now key n c run s = run s"
  by (simp add: unless_pending_def try_write_pending_result_def)

lemma deliver_stashes:
  "deliver later key c n zero panic r s = (- 2, out, s') \<Longrightarrow>
     \<exists>data. r = Ok data \<and> map_of (gs_pending_results s') key = Some \<lparr>pb_data = data, pb_created_at = later\<rparr>"
  by (auto simp: deliver_def stash_pending_result_def table_simps FFI_PANIC_def split: outcome.splits if_splits)

lemma run_locked_stashes:
  "run_locked later key c n zero missing r s = (- 2, out, s') \<Longrightarrow>
     \<exists>data. r = Ok data \<and> map_of (gs_pending_results s') key = Some \<lparr>pb_data = data, pb_created_at = later\<rparr>"
  by (auto simp: run_locked_def dest: deliver_stashes split: if_splits option.splits)

lemma exec_stashes:
  assumes "exec_run be now later req n s = (- 2, out, s')" and "map_of (gs_pending_results s) (exec_key (be_hash be) req) = None"
  shows "\<exists>data. exec_result be s req = Ok data \<and>
     map_of (gs_pending_results s') (exec_key (be_hash be) req) = Some \<lparr>pb_data = data, pb_created_at = later\<rparr>"
proof (cases req)
  case (ExecQuery c q)
  with assms obtain x where x: "c_str q = Some x" "\<not> gs_poisoned s"
    by (auto simp: exec_defs split: option.splits if_splits)
  with assms ExecQuery show ?thesis
    by (auto simp: exec_defs Let_def c_str_bytes c_str_of_bytes[OF x(1)] unless_pending_miss split: option.splits if_splits
        dest!: deliver_stashes)
next
  case (ExecParams c q ps)
  with assms obtain x where x: "c_str q = Some x" "\<not> gs_poisoned s" "map_of (gs_connections s) c \<noteq> None" "conn_problem c s = None"
    by (auto simp: exec_defs split: option.splits if_splits)
  with assms ExecParams show ?thesis
    by (auto simp: exec_defs Let_def c_str_bytes c_str_of_bytes[OF x(1)] unless_pending_miss params_hash_def
        split: if_splits outcome.splits dest!: deliver_stashes)
next
  case (ExecMulti c q)
  with assms obtain x where x: "c_str q = Some x" "\<not> gs_poisoned s"
    by (auto simp: exec_defs split: option.splits if_splits)
  with assms ExecMulti show ?thesis
    by (auto simp: exec_defs Let_def c_str_bytes c_str_of_bytes[OF x(1)] unless_pending_miss dest!: run_locked_stashes)
next
  case (ExecMultiParams c q ps)
  with assms obtain x vs where x: "c_str q = Some x" "\<not> gs_poisoned s" "batch_params (given_params ps) = Ok vs"
    by (auto simp: exec_defs Let_def FFI_PANIC_def split: option.splits if_splits outcome.splits)
  with assms ExecMultiParams show ?thesis
    by (auto simp: exec_defs Let_def c_str_bytes c_str_of_bytes[OF x(1)] unless_pending_miss params_hash_def
        dest!: run_locked_stashes)
next
  case (ExecStmt i ps t f)
  with assms obtain st where "\<not> gs_poisoned s" "map_of (gs_statements s) i = Some st"
    by (auto simp: exec_defs split: option.splits if_splits)
  with assms ExecStmt show ?thesis
    by (auto simp: exec_defs Let_def unless_pending_miss params_hash_def dest!: run_locked_stashes)
qed

lemma exec_reaches_table:
  assumes "exec_run be now later req n s = (- 2, out, s1)" and "be_hash be' = be_hash be" and "exec_frame s s'"
  shows "\<exists>c run. exec_run be' now' later' req n' s' = unless_pending now' (exec_key (be_hash be) req) n' c run s'"
proof -
  have tables: "gs_poisoned s' = gs_poisoned s" "gs_connections s' = gs_connections s" "gs_statements s' = gs_statements s"
    using assms(3) by (simp_all add: exec_frame_def)
  note same = tables exec_frame_problem[OF assms(3)]
  show ?thesis
  proof (cases req)
    case (ExecQuery c q)
    with assms(1) obtain x where "c_str q = Some x" "\<not> gs_poisoned s"
      by (auto simp: exec_defs split: option.splits if_splits)
    then show ?thesis using ExecQuery by (auto simp: exec_defs same assms(2) c_str_bytes Let_def)
  next
    case (ExecParams c q ps)
    with assms(1) obtain x y where "c_str q = Some x" "\<not> gs_poisoned s" "map_of (gs_connections s) c = Some y" "conn_problem c s = None"
      by (auto simp: exec_defs split: option.splits if_splits)
    then show ?thesis using ExecParams by (simp add: exec_defs same assms(2) c_str_bytes Let_def params_hash_def) blast
  next
    case (ExecMulti c q)
    with assms(1) obtain x where "c_str q = Some x" "\<not> gs_poisoned s"
      by (auto simp: exec_defs split: option.splits if_splits)
    then show ?thesis using ExecMulti by (auto simp: exec_defs same assms(2) c_str_bytes Let_def)
  next
    case (ExecMultiParams c q ps)
    with assms(1) obtain x vs where "c_str q = Some x" "\<not> gs_poisoned s" "batch_params (given_params ps) = Ok vs"
      by (auto simp: exec_defs Let_def FFI_PANIC_def split: option.splits if_splits outcome.splits)
    then show ?thesis using ExecMultiParams by (simp add: exec_defs same assms(2) c_str_bytes Let_def params_hash_def) blast
  next
    case (ExecStmt i ps t f)
    with assms(1) obtain st where "\<not> gs_poisoned s" "map_of (gs_statements s) i = Some st"
      by (auto simp: exec_defs split: option.splits if_splits)
    then show ?thesis using ExecStmt by (simp add: exec_defs same assms(2) Let_def params_hash_def) blast
  qed
qed

lemma exec_retry:
  assumes "exec_run be now later req n s = (- 2, out, s')" and "be_hash be' = be_hash be"
    and "map_of (gs_pending_results s') (exec_key (be_hash be) req) = Some e"
    and "now' - pb_created_at e \<le> PENDING_RESULT_TTL" and "length (pb_data e) \<le> unat n'"
  shows "exec_run be' now' later' req n' s' =
     (0, Some (pb_data e), s'\<lparr>gs_pending_results := AList.delete (exec_key (be_hash be) req) (gs_pending_results s')\<rparr>)"
  using exec_reaches_table[OF assms(1,2) conjunct1[OF exec_too_small[OF assms(1)]], of now' later' n'] unless_pending_hit[OF assms(3-5)]
  by auto

text \<open>
  C9. A result that does not fit the client's buffer is neither lost nor computed twice: whichever entry
  point ran the statement, the bytes that did not fit are exactly the statement's result (unless the call
  itself was a retry), and repeating the call within two seconds with a buffer large enough delivers
  exactly those bytes, whatever the database would answer now, and forgets them.
\<close>

theorem retry_delivers_result:
  assumes "exec_run be now later req n s = (- 2, out, s')"
  shows "\<exists>e. map_of (gs_pending_results s') (exec_key (be_hash be) req) = Some e \<and> unat n < length (pb_data e) \<and>
     (map_of (gs_pending_results s) (exec_key (be_hash be) req) = None \<longrightarrow>
        exec_result be s req = Ok (pb_data e) \<and> pb_created_at e = later) \<and>
     (\<forall>be' now' later' n'. be_hash be' = be_hash be \<and> now' - pb_created_at e \<le> PENDING_RESULT_TTL \<and>
        length (pb_data e) \<le> unat n' \<longrightarrow>
        exec_run be' now' later' req n' s' =
          (0, Some (pb_data e), s'\<lparr>gs_pending_results := AList.delete (exec_key (be_hash be) req) (gs_pending_results s')\<rparr>))"
proof -
  obtain e where e: "map_of (gs_pending_results s') (exec_key (be_hash be) req) = Some e" "unat n < length (pb_data e)"
    using exec_too_small[OF assms] by (auto simp: stored_def)
  with exec_stashes[OF assms] exec_retry[OF assms _ e(1)] show ?thesis by auto
qed

text \<open>A session with one connection, on a database that answers every statement with no result set.\<close>

definition example_session :: global_state where
  "example_session =
     (fresh_state (calm_disk []))\<lparr>gs_env := Some False, gs_world := one_connection, gs_connections := [(1, \<lparr>ocn_conn_id = 1\<rparr>)]\<rparr>"

definition example_backend :: backend where
  "example_backend =
     \<lparr>be_conn = (\<lambda>_. example_conn (Inr None) []), be_slots = (\<lambda>_. example_driver (BR_Count 3) []), be_compressors = rle,
      be_hash = (\<lambda>bs. of_nat (length bs)), be_temp_dir = ''/tmp'', be_spill_threshold = None\<rparr>"

definition example_message :: bytes where
  "example_message = header_bytes \<lparr>rb_columns = [], rb_rows = []\<rparr>"

lemma example_message_length [simp]: "length example_message = 16"
  by (simp add: example_message_def header_bytes_def)

lemma example_result: "execute_direct_cached engine_new (example_conn (Inr None) []) ''SELECT'' = Ok example_message"
proof -
  have "try_encode \<lparr>rb_columns = [], rb_rows = []\<rparr> = Ok example_message"
    by (subst try_encode_Ok) (simp_all add: wf_buffer_def column_count_def row_count_def payload_bytes_def example_message_def decoder_limits)
  then show ?thesis
    by (simp add: execute_direct_cached_def execute_query_cached_def execute_query_no_params_def execute_stmt_to_buffer_def
        example_conn_def api_def parse_sql_def example_table_ok(4) optimize_query_def result_buffer_def row_buffer_new_def encode_def)
qed

lemma c_str_ascii: "ascii t \<Longrightarrow> c_str (as_bytes t) = Some t"
  by (simp add: c_str_def valid_str_ascii)

lemma example_conn_problem: "conn_problem 1 example_session = None"
  by (simp add: conn_problem_def example_session_def one_connection_def get_connection_def)

lemma exec_query_runs:
  assumes "c_str q = Some t" and "\<not> gs_poisoned s" and "map_of (gs_connections s) c = Some k" and "conn_problem c s = None"
    and "map_of (gs_pending_results s) (PK_ExecQuery c (be_hash be q)) = None"
  shows "exec_run be now later (ExecQuery c q) n s =
     deliver later (PK_ExecQuery c (be_hash be q)) c n (Some []) (poison_connection c s)
       (execute_direct_cached engine_new (be_conn be c) t) s"
  using assms by (simp add: odbc_exec_query_def Let_def unless_pending_miss c_str_bytes)

theorem retry_delivers_result_witness:
  "\<exists>s'. exec_run example_backend 0 5 (ExecQuery 1 (as_bytes ''SELECT'')) 4 example_session = (- 2, Some [], s') \<and>
     fst (exec_run example_backend 6 7 (ExecQuery 1 (as_bytes ''SELECT'')) 20 s') = 0 \<and>
     fst (snd (exec_run example_backend 6 7 (ExecQuery 1 (as_bytes ''SELECT'')) 20 s')) = Some example_message"
proof -
  let ?req = "ExecQuery 1 (as_bytes ''SELECT'')"
  have none: "map_of (gs_pending_results example_session) k = None" for k by (simp add: example_session_def fresh_state_def)
  have "c_str (as_bytes ''SELECT'') = Some ''SELECT''" by (rule c_str_ascii) (simp add: ascii_def)
  from exec_query_runs[OF this _ _ example_conn_problem, of "\<lparr>ocn_conn_id = 1\<rparr>" example_backend 0 5 4] example_result none
  obtain s' where run: "exec_run example_backend 0 5 ?req 4 example_session = (- 2, Some [], s')"
    by (simp add: example_session_def fresh_state_def example_backend_def deliver_def)
  from retry_delivers_result[OF this] obtain e :: pending_result_buffer where
    new: "map_of (gs_pending_results example_session) (exec_key (be_hash example_backend) ?req) = None \<longrightarrow>
      exec_result example_backend example_session ?req = Ok (pb_data e) \<and> pb_created_at e = 5" and
    again: "\<forall>be' now' later' n'. be_hash be' = be_hash example_backend \<and> now' - pb_created_at e \<le> PENDING_RESULT_TTL \<and>
        length (pb_data e) \<le> unat n' \<longrightarrow> exec_run be' now' later' ?req n' s' =
          (0, Some (pb_data e), s'\<lparr>gs_pending_results := AList.delete (exec_key (be_hash example_backend) ?req) (gs_pending_results s')\<rparr>)"
    by (elim exE conjE) (rule that; assumption)
  note e = mp[OF new none]
  from e have "pb_data e = example_message"
    using example_result by (simp add: example_session_def fresh_state_def example_backend_def)
  with again[rule_format, of example_backend 6 20 7] e run show ?thesis by (simp add: PENDING_RESULT_TTL_def)
qed

text \<open>
  The parameters of a batch and of a single statement share their pending entry: when the row message
  of \<open>odbc_exec_query_params\<close> did not fit, the batch entry point called with the same text and parameters
  answers with that row message, without running the batch, whose result has another format.
\<close>

theorem batch_gets_row_message:
  assumes "exec_run be now later (ExecParams c q ps) n s = (- 2, out, s')" and "batch_params (given_params ps) = Ok vs"
    and "map_of (gs_pending_results s) (exec_key (be_hash be) (ExecParams c q ps)) = None"
  shows "\<exists>data. exec_result be s (ExecParams c q ps) = Ok data \<and>
     (\<forall>n' now'. now' - later \<le> PENDING_RESULT_TTL \<and> length data \<le> unat n' \<longrightarrow>
        (\<exists>s''. exec_run be now' later' (ExecMultiParams c q ps) n' s' = (0, Some data, s'')))"
proof -
  obtain data where data: "exec_result be s (ExecParams c q ps) = Ok data"
    "map_of (gs_pending_results s') (exec_key (be_hash be) (ExecParams c q ps)) = Some \<lparr>pb_data = data, pb_created_at = later\<rparr>"
    using exec_stashes[OF assms(1,3)] by blast
  have frame: "gs_poisoned s' = gs_poisoned s" using exec_too_small[OF assms(1)] by (simp add: exec_frame_def)
  from assms(1) obtain t where t: "c_str q = Some t" "\<not> gs_poisoned s"
    by (auto simp: exec_defs split: option.splits if_splits)
  have "exec_run be now' later' (ExecMultiParams c q ps) n' s' =
      (0, Some data, s'\<lparr>gs_pending_results := AList.delete (exec_key (be_hash be) (ExecParams c q ps)) (gs_pending_results s')\<rparr>)"
    if "now' - later \<le> PENDING_RESULT_TTL" "length data \<le> unat n'" for n' now'
    using unless_pending_hit[OF data(2), of now' n'] that t frame assms(2)
    by (simp add: odbc_exec_query_multi_params_def Let_def params_hash_def c_str_bytes)
  with data(1) show ?thesis by blast
qed

text \<open>The brace counter cannot go below zero, so a stray closing brace passes the check for balance.\<close>

lemma unbalanced_brace_accepted: "brace_depth 0 (CHR 0x7D # t) = brace_depth 0 t"
  by simp

section \<open>Error reports\<close>

lemma foreign_report:
  "d \<noteq> Some c \<Longrightarrow> get_connection_structured_error (report d m s) (Some c) = get_connection_structured_error s (Some c)"
  by (cases d) (simp_all add: report_def)

lemma foreign_reports:
  "list_all (\<lambda>(d, _). d \<noteq> Some c) rs \<Longrightarrow>
     get_connection_structured_error (fold (\<lambda>(d, m). report d m) rs s) (Some c) = get_connection_structured_error s (Some c) \<and>
     gs_poisoned (fold (\<lambda>(d, m). report d m) rs s) = gs_poisoned s"
  by (induction rs arbitrary: s) (simp_all add: foreign_report split: prod.splits)

text \<open>
  The connection a request runs on, when its arguments get that far: the text is a C string in UTF-8, the
  statement exists. The connection is there to run it when it is registered and usable, or, except for
  \<open>odbc_exec_query_params\<close>, when it is pooled.
\<close>

fun exec_conn :: "global_state \<Rightarrow> exec_request \<Rightarrow> u32 option" where
  "exec_conn s (ExecQuery c q) = (if c_str q = None then None else Some c)"
| "exec_conn s (ExecParams c q ps) = (if c_str q = None then None else Some c)"
| "exec_conn s (ExecMulti c q) = (if c_str q = None then None else Some c)"
| "exec_conn s (ExecMultiParams c q ps) = (if c_str q = None then None else Some c)"
| "exec_conn s (ExecStmt i ps t f) = map_option sh_conn_id (map_of (gs_statements s) i)"

fun pool_allowed :: "exec_request \<Rightarrow> bool" where
  "pool_allowed (ExecParams c q ps) = False"
| "pool_allowed _ = True"

definition conn_ready :: "global_state \<Rightarrow> exec_request \<Rightarrow> u32 \<Rightarrow> bool" where
  "conn_ready s req c \<longleftrightarrow>
     (if map_of (gs_connections s) c \<noteq> None then conn_problem c s = None
      else map_of (gs_pooled s) c \<noteq> None \<and> pool_allowed req)"

text \<open>\<open>odbc_exec_query_params\<close> with parameters records the message of an error alone.\<close>

fun message_only :: "exec_request \<Rightarrow> bool" where
  "message_only (ExecParams c q ps) = (given_params ps \<noteq> [])"
| "message_only _ = False"

lemma run_locked_fails:
  assumes "conn_ready s req c" and "pool_allowed req"
  shows "run_locked later key c n zero missing (Err e) s = (- 1, zero, set_connection_structured_error c (to_structured e) s)"
  using assms by (auto simp: run_locked_def conn_ready_def deliver_def split: if_splits)

lemma exec_query_fails:
  assumes "c_str q = Some t" and "conn_ready s (ExecQuery c q) c"
    and "\<not> gs_poisoned s" and "map_of (gs_pending_results s) (exec_key (be_hash be) (ExecQuery c q)) = None"
    and "exec_result be s (ExecQuery c q) = Err e"
  shows "\<exists>p. exec_run be now later (ExecQuery c q) n s = (- 1, Some [], set_connection_structured_error c (to_structured e) (s\<lparr>gs_pooled := p\<rparr>))"
proof (cases "map_of (gs_connections s) c")
  case None
  with assms(2) obtain k where k: "map_of (gs_pooled s) c = Some k" by (auto simp: conn_ready_def)
  with None assms show ?thesis
    by (intro exI[of _ "AList.update c k (AList.delete c (gs_pooled s))"])
      (simp add: odbc_exec_query_def Let_def c_str_bytes c_str_of_bytes[OF assms(1)] unless_pending_miss deliver_def)
next
  case (Some k)
  with assms show ?thesis
    by (intro exI[of _ "gs_pooled s"])
      (simp add: odbc_exec_query_def Let_def c_str_bytes c_str_of_bytes[OF assms(1)] unless_pending_miss conn_ready_def deliver_def)
qed

lemma exec_params_fails:
  assumes "c_str q = Some t" and "conn_ready s (ExecParams c q ps) c"
    and "\<not> gs_poisoned s" and "map_of (gs_pending_results s) (exec_key (be_hash be) (ExecParams c q ps)) = None"
    and "exec_result be s (ExecParams c q ps) = Err e"
  shows "exec_run be now later (ExecParams c q ps) n s = (- 1, None,
    (if given_params ps \<noteq> [] then set_connection_error c (error_display e) else set_connection_structured_error c (to_structured e)) s)"
proof -
  obtain k where "map_of (gs_connections s) c = Some k" "conn_problem c s = None"
    using assms(2) by (auto simp: conn_ready_def split: if_splits)
  with assms show ?thesis
    by (cases "given_params ps = []")
      (simp_all add: odbc_exec_query_params_def Let_def c_str_bytes c_str_of_bytes[OF assms(1)] unless_pending_miss
        params_hash_def deliver_def)
qed

lemma exec_multi_fails:
  assumes "c_str q = Some t" and "conn_ready s (ExecMulti c q) c"
    and "\<not> gs_poisoned s" and "map_of (gs_pending_results s) (exec_key (be_hash be) (ExecMulti c q)) = None"
    and "exec_result be s (ExecMulti c q) = Err e"
  shows "exec_run be now later (ExecMulti c q) n s = (- 1, None, set_connection_structured_error c (to_structured e) s)"
  using assms run_locked_fails[OF assms(2)]
  by (simp add: odbc_exec_query_multi_def Let_def c_str_bytes c_str_of_bytes[OF assms(1)] unless_pending_miss)

lemma exec_multi_params_fails:
  assumes "c_str q = Some t" and "conn_ready s (ExecMultiParams c q ps) c"
    and "\<not> gs_poisoned s" and "map_of (gs_pending_results s) (exec_key (be_hash be) (ExecMultiParams c q ps)) = None"
    and "exec_result be s (ExecMultiParams c q ps) = Err e"
  shows "exec_run be now later (ExecMultiParams c q ps) n s = (- 1, Some [], set_connection_structured_error c (to_structured e) s)"
proof -
  obtain vs where "batch_params (given_params ps) = Ok vs" using assms(5) by (auto split: outcome.splits)
  with assms run_locked_fails[OF assms(2)] show ?thesis
    by (simp add: odbc_exec_query_multi_params_def Let_def c_str_bytes c_str_of_bytes[OF assms(1)] unless_pending_miss
        params_hash_def)
qed

lemma exec_stmt_fails:
  assumes "exec_conn s (ExecStmt i ps t f) = Some c" and "conn_ready s (ExecStmt i ps t f) c"
    and "\<not> gs_poisoned s" and "map_of (gs_pending_results s) (exec_key (be_hash be) (ExecStmt i ps t f)) = None"
    and "exec_result be s (ExecStmt i ps t f) = Err e"
  shows "exec_run be now later (ExecStmt i ps t f) n s = (- 1, None, set_connection_structured_error c (to_structured e) s)"
proof -
  obtain st where "map_of (gs_statements s) i = Some st" "sh_conn_id st = c" using assms(1) by auto
  with assms run_locked_fails[OF assms(2)] show ?thesis
    by (simp add: odbc_execute_def Let_def unless_pending_miss params_hash_def)
qed

lemma exec_fails:
  assumes "\<not> gs_poisoned s" and "exec_conn s req = Some c" and "conn_ready s req c"
    and "map_of (gs_pending_results s) (exec_key (be_hash be) req) = None" and "exec_result be s req = Err e"
  shows "\<exists>out p. exec_run be now later req n s = (- 1, out,
     (if message_only req then set_connection_error c (error_display e)
      else set_connection_structured_error c (to_structured e)) (s\<lparr>gs_pooled := p\<rparr>))"
proof (cases req)
  case (ExecQuery d q)
  with assms(2) obtain t where t: "c_str q = Some t" and req: "req = ExecQuery c q" by (auto split: if_splits)
  from exec_query_fails[OF t assms(3,1,4,5)[unfolded req], of now later n] show ?thesis
    unfolding req by (auto simp del: exec_run.simps)
next
  case (ExecParams d q ps)
  with assms(2) obtain t where t: "c_str q = Some t" and req: "req = ExecParams c q ps" by (auto split: if_splits)
  from exec_params_fails[OF t assms(3,1,4,5)[unfolded req], of now later n] show ?thesis
    unfolding req by (intro exI[of _ "None"] exI[of _ "gs_pooled s"]) (simp del: exec_run.simps)
next
  case (ExecMulti d q)
  with assms(2) obtain t where t: "c_str q = Some t" and req: "req = ExecMulti c q" by (auto split: if_splits)
  from exec_multi_fails[OF t assms(3,1,4,5)[unfolded req], of now later n] show ?thesis
    unfolding req by (intro exI[of _ "None"] exI[of _ "gs_pooled s"]) (simp del: exec_run.simps)
next
  case (ExecMultiParams d q ps)
  with assms(2) obtain t where t: "c_str q = Some t" and req: "req = ExecMultiParams c q ps" by (auto split: if_splits)
  from exec_multi_params_fails[OF t assms(3,1,4,5)[unfolded req], of now later n] show ?thesis
    unfolding req by (intro exI[of _ "Some []"] exI[of _ "gs_pooled s"]) (simp del: exec_run.simps)
next
  case (ExecStmt i ps t f)
  from exec_stmt_fails[OF assms(2,3,1,4,5)[unfolded ExecStmt], of now later n] show ?thesis
    unfolding ExecStmt by (intro exI[of _ "None"] exI[of _ "gs_pooled s"]) (simp del: exec_run.simps)
qed

text \<open>
  C12. An error of a statement run through any of the five entry points that run a statement
  (\<open>odbc_exec_query\<close>, \<open>odbc_exec_query_params\<close>, \<open>odbc_exec_query_multi\<close>, \<open>odbc_exec_query_multi_params\<close>,
  \<open>odbc_execute\<close>), when the statement really runs: the lock is not poisoned, the arguments are readable, the
  connection is usable (or pooled, where the entry point allows that) and no earlier result is pending
  under the request's key. The call answers \<open>- 1\<close> and the errors of other connections stay the ones before
  the call. Except for \<open>odbc_exec_query_params\<close> called with parameters, however many errors other connections
  report in between, asking for the connection's error gives bytes that read back as its SQLSTATE, native
  code and message. \<open>odbc_exec_query_params\<close> called with parameters records the message only: it is the text
  \<open>odbc_get_error\<close> has at once, and the query for the structured error answers that there is none, so
  SQLSTATE and native code are lost.
\<close>

theorem error_reaches_client:
  assumes "\<not> gs_poisoned s" and "exec_conn s req = Some c" and "conn_ready s req c" and "c \<noteq> 0"
    and "map_of (gs_pending_results s) (exec_key (be_hash be) req) = None"
    and "exec_result be s req = Err e" and "wf_structured (to_structured e)"
  shows "\<exists>out s'. exec_run be now later req n s = (- 1, out, s') \<and>
     (\<not> message_only req \<longrightarrow>
       (\<forall>rs m. list_all (\<lambda>(d, _). d \<noteq> Some c) rs \<and> 13 + length (se_message (to_structured e)) \<le> unat m \<longrightarrow>
          (\<exists>bs. odbc_get_structured_error_for_connection False c m (fold (\<lambda>(d, msg). report d msg) rs s') = (0, Some bs) \<and>
             structured_deserialize bs = Ok (to_structured e)))) \<and>
     (message_only req \<longrightarrow> get_connection_error s' None = error_display e \<and>
       (\<forall>rs m. list_all (\<lambda>(d, _). d \<noteq> Some c) rs \<longrightarrow>
          odbc_get_structured_error_for_connection False c m (fold (\<lambda>(d, msg). report d msg) rs s') = (1, Some []))) \<and>
     (\<forall>d m. d \<noteq> c \<and> d \<noteq> 0 \<longrightarrow>
        odbc_get_structured_error_for_connection False d m s' = odbc_get_structured_error_for_connection False d m s)"
proof -
  obtain out p where run: "exec_run be now later req n s = (- 1, out,
     (if message_only req then set_connection_error c (error_display e)
      else set_connection_structured_error c (to_structured e)) (s\<lparr>gs_pooled := p\<rparr>))"
    using exec_fails[OF assms(1,2,3,5,6)] by blast
  define s' where "s' = (if message_only req then set_connection_error c (error_display e)
      else set_connection_structured_error c (to_structured e)) (s\<lparr>gs_pooled := p\<rparr>)"
  have own: "get_connection_structured_error s' (Some c) = (if message_only req then None else Some (to_structured e))"
    and calm: "\<not> gs_poisoned s'"
    using assms(1) by (simp_all add: s'_def set_connection_error_def set_connection_structured_error_def
        get_connection_structured_error_def table_simps)
  have "odbc_get_structured_error_for_connection False c m (fold (\<lambda>(d, msg). report d msg) rs s') =
      write_structured m (if message_only req then None else Some (to_structured e))"
    if "list_all (\<lambda>(d, _). d \<noteq> Some c) rs" for rs m
    using foreign_reports[OF that, of s'] own calm assms(4)
    by (simp add: odbc_get_structured_error_for_connection_def)
  moreover have "structured_deserialize (structured_serialize (to_structured e)) = Ok (to_structured e)"
    using structured_error_roundtrip[OF assms(7), of "[]"] by simp
  moreover have "odbc_get_structured_error_for_connection False d m s' = odbc_get_structured_error_for_connection False d m s"
    if "d \<noteq> c" "d \<noteq> 0" for d m
    using that by (simp add: odbc_get_structured_error_for_connection_def get_connection_structured_error_def s'_def
        set_connection_error_def set_connection_structured_error_def table_simps)
  moreover have "message_only req \<longrightarrow> get_connection_error s' None = error_display e"
    by (simp add: s'_def get_connection_error_def set_connection_error_def)
  ultimately show ?thesis
    using run unfolding s'_def[symmetric]
    by (intro exI[of _ out] exI[of _ s'])
      (simp add: write_structured_def structured_serialize_length[OF assms(7)] Let_def)
qed

lemma select_text: "c_str (as_bytes ''SELECT'') = Some ''SELECT''"
  by (rule c_str_ascii) (simp add: ascii_def)

theorem error_reaches_client_witness:
  "\<exists>out s'. exec_run (example_backend\<lparr>be_conn := \<lambda>_. example_conn (Inl (OtherApiError ''gone'')) []\<rparr>) 0 0
       (ExecQuery 1 (as_bytes ''SELECT'')) 9 example_session = (- 1, out, s') \<and>
     (\<exists>bs. odbc_get_structured_error_for_connection False 1 90 (fold (\<lambda>(d, msg). report d msg) [(Some 2, ''other''), (None, ''more'')] s') =
       (0, Some bs) \<and> structured_deserialize bs = Ok (to_structured (OdbcApi ''gone'')))"
proof -
  let ?be = "example_backend\<lparr>be_conn := \<lambda>_. example_conn (Inl (OtherApiError ''gone'')) []\<rparr>"
  let ?req = "ExecQuery 1 (as_bytes ''SELECT'')"
  have ok: "\<not> gs_poisoned example_session" "map_of (gs_connections example_session) 1 = Some \<lparr>ocn_conn_id = 1\<rparr>"
    "map_of (gs_pending_results example_session) k = None" for k
    by (simp_all add: example_session_def fresh_state_def)
  have conn: "exec_conn example_session ?req = Some 1" "conn_ready example_session ?req 1"
    using select_text example_conn_problem ok(2) by (simp_all add: conn_ready_def)
  have err: "exec_result ?be example_session ?req = Err (OdbcApi ''gone'')"
    using ok(2)
    by (simp add: execute_direct_cached_def execute_query_cached_def execute_query_no_params_def execute_stmt_to_buffer_def
        example_conn_def api_def parse_sql_def example_table_ok(4) optimize_query_def from_odbc_api_def)
  have "wf_structured (to_structured (OdbcApi ''gone''))"
    by (simp add: wf_structured_def to_structured_def valid_str_ascii ascii_def)
  note error_reaches_client[OF ok(1) conn _ ok(3) err this, of 0 0 9]
  then obtain out s' where s': "exec_run ?be 0 0 ?req 9 example_session = (- 1, out, s')"
    "\<And>rs m. list_all (\<lambda>(d, _). d \<noteq> Some 1) rs \<and> 13 + length (se_message (to_structured (OdbcApi ''gone''))) \<le> unat m \<Longrightarrow>
        \<exists>bs. odbc_get_structured_error_for_connection False 1 m (fold (\<lambda>(d, msg). report d msg) rs s') = (0, Some bs) \<and>
           structured_deserialize bs = Ok (to_structured (OdbcApi ''gone''))"
    by auto
  from s'(2)[of "[(Some 2, ''other''), (None, ''more'')]" 90] s'(1) show ?thesis by (auto simp: to_structured_def)
qed

theorem batch_gets_row_message_witness:
  "\<exists>s' s''. exec_run example_backend 0 5 (ExecParams 1 (as_bytes ''SELECT'') None) 4 example_session = (- 2, None, s') \<and>
     exec_run example_backend 6 7 (ExecMultiParams 1 (as_bytes ''SELECT'') None) 20 s' = (0, Some example_message, s'')"
proof -
  let ?req = "ExecParams 1 (as_bytes ''SELECT'') None"
  have none: "map_of (gs_pending_results example_session) k = None" for k by (simp add: example_session_def fresh_state_def)
  have "map_of (gs_connections example_session) 1 \<noteq> None" "\<not> gs_poisoned example_session"
    "execute_direct_cached engine_new (be_conn example_backend 1) ''SELECT'' = Ok example_message"
    using example_result by (simp_all add: example_session_def fresh_state_def example_backend_def)
  then obtain s' where run: "exec_run example_backend 0 5 ?req 4 example_session = (- 2, None, s')"
    using select_text example_conn_problem none
    by (simp add: odbc_exec_query_params_def Let_def unless_pending_miss given_params_def deliver_def)
  have "exec_result example_backend example_session ?req = Ok example_message"
    using example_result by (simp add: given_params_def example_backend_def)
  moreover have "batch_params (given_params None) = Ok []" by (simp add: batch_params_def given_params_def)
  ultimately show ?thesis
    using batch_gets_row_message[OF run _ none, of _ 7] run by (auto simp: PENDING_RESULT_TTL_def)
qed

section \<open>Asynchronous requests\<close>

text \<open>The answers of consecutive \<open>odbc_async_get_result\<close> calls with the given buffer sizes.\<close>

fun async_results :: "u32 \<Rightarrow> u32 list \<Rightarrow> global_state \<Rightarrow> (int \<times> bytes option) list" where
  "async_results i [] s = []"
| "async_results i (n # ns) s =
     (case odbc_async_get_result False i n s of (code, out, s') \<Rightarrow> (code, out) # async_results i ns s')"

lemma async_consumed:
  "\<not> gs_poisoned s \<Longrightarrow> map_of (am_requests (gs_async s)) i = Some slot \<Longrightarrow> ar_outcome slot = Some AR_Consumed \<Longrightarrow>
     async_results i ns s = map (\<lambda>_. (- 1, Some [])) ns"
proof (induction ns arbitrary: s slot)
  case (Cons n ns)
  obtain s' where "odbc_async_get_result False i n s = (- 1, Some [], s')" "\<not> gs_poisoned s'"
    "map_of (am_requests (gs_async s')) i = Some slot"
    using Cons.prems by (auto simp: odbc_async_get_result_def async_take_result_def Let_def table_simps)
  with Cons show ?case by simp
qed simp

text \<open>
  C13. The result of an asynchronous request is delivered exactly once: every attempt with a buffer that is
  too small answers \<open>- 2\<close> and keeps it, the first attempt with room gets exactly the bytes, and every
  later one fails.
\<close>

theorem async_result_once:
  assumes "\<not> gs_poisoned s" and "map_of (am_requests (gs_async s)) i = Some slot"
    and "ar_outcome slot = Some (AR_Ready (Ok data))"
  shows "async_results i ns s =
     (let fits = \<lambda>n. length data \<le> unat n in
      map (\<lambda>_. (- 2, Some [])) (takeWhile (\<lambda>n. \<not> fits n) ns) @
      (case dropWhile (\<lambda>n. \<not> fits n) ns of
         [] \<Rightarrow> []
       | _ # rest \<Rightarrow> (0, Some data) # map (\<lambda>_. (- 1, Some [])) rest))"
  using assms
proof (induction ns arbitrary: s slot)
  case (Cons n ns)
  let ?m = "\<lambda>o'. (gs_async s)\<lparr>am_requests := AList.update i (slot\<lparr>ar_outcome := Some o'\<rparr>) (am_requests (gs_async s))\<rparr>"
  show ?case
  proof (cases "length data \<le> unat n")
    case True
    have "odbc_async_get_result False i n s = (0, Some data, s\<lparr>gs_async := ?m AR_Consumed\<rparr>)"
      using Cons.prems True by (simp add: odbc_async_get_result_def async_take_result_def Let_def)
    moreover have "async_results i ns (s\<lparr>gs_async := ?m AR_Consumed\<rparr>) = map (\<lambda>_. (- 1, Some [])) ns"
      using Cons.prems by (intro async_consumed) (auto simp: table_simps)
    ultimately show ?thesis using True by simp
  next
    case False
    obtain s' where "odbc_async_get_result False i n s = (- 2, Some [], s')" "\<not> gs_poisoned s'"
      "map_of (am_requests (gs_async s')) i = Some slot"
      using Cons.prems False
      by (auto simp: odbc_async_get_result_def async_take_result_def async_restore_result_def Let_def table_simps)
    with Cons False show ?thesis by simp
  qed
qed simp

definition example_request :: "async_request_outcome \<Rightarrow> global_state" where
  "example_request r =
     (fresh_state (calm_disk []))\<lparr>gs_async := \<lparr>am_next_request_id = 8,
        am_requests = [(7, \<lparr>ar_conn_id = 1, ar_cancelled = False, ar_outcome = Some r\<rparr>)]\<rparr>\<rparr>"

theorem async_result_once_witness:
  "async_results 7 [1, 0, 3, 3] (example_request (AR_Ready (Ok [4, 5]))) =
     [(- 2, Some []), (- 2, Some []), (0, Some [4, 5]), (- 1, Some [])]"
  using async_result_once[of "example_request (AR_Ready (Ok [4, 5]))" 7
      "\<lparr>ar_conn_id = 1, ar_cancelled = False, ar_outcome = Some (AR_Ready (Ok [4, 5]))\<rparr>" "[4, 5]" "[1, 0, 3, 3]"]
  by (simp add: example_request_def fresh_state_def Let_def)

text \<open>
  Cancelling a request that is still running: it is at once reported as cancelled, and stays so when
  its task has not yet looked at the flag. A task that had already looked stores its result over the
  cancellation, and the request is then reported as ready.
\<close>

theorem async_cancel_race:
  assumes "map_of (am_requests m) i = Some slot" and "ar_outcome slot = Some AR_Pending" and "\<not> ar_cancelled slot"
  shows "\<exists>m'. async_cancel i m = (True, m') \<and> async_poll i m' = Some (- 2) \<and>
     async_poll i (task_store i (task_load i m') r m') = Some (- 2) \<and>
     async_poll i (task_store i (task_load i m) (Ok data) m') = Some 1"
  using assms by (simp add: async_cancel_def async_poll_def task_store_def task_load_def table_simps)

theorem async_cancel_race_witness:
  "\<exists>m'. async_cancel 7 (gs_async (example_request AR_Pending)) = (True, m') \<and> async_poll 7 m' = Some (- 2) \<and>
     async_poll 7 (task_store 7 (task_load 7 m') (Ok [1]) m') = Some (- 2) \<and>
     async_poll 7 (task_store 7 (task_load 7 (gs_async (example_request AR_Pending))) (Ok [1]) m') = Some 1"
  by (rule async_cancel_race[where slot = "\<lparr>ar_conn_id = 1, ar_cancelled = False, ar_outcome = Some AR_Pending\<rparr>"])
    (simp_all add: example_request_def)

end
