(* ===== verification/Session_Tables.thy ===== *)
theory Session_Tables
  imports Session_Laws
begin

text \<open>
  The tables of the library's global state: what disconnecting releases, and the consistency of the tables
  over every sequence of calls.
\<close>

section \<open>Disconnecting\<close>

definition keep_where :: "('v \<Rightarrow> bool) \<Rightarrow> ('k \<rightharpoonup> 'v) \<Rightarrow> ('k \<rightharpoonup> 'v)" where
  "keep_where P m = (\<lambda>k. case m k of Some v \<Rightarrow> if P v then Some v else None | None \<Rightarrow> None)"

lemma keep_where_None: "m k = None \<Longrightarrow> keep_where P m k = None"
  by (simp add: keep_where_def)

lemma keep_where_Some: "keep_where P m k = Some v \<longleftrightarrow> m k = Some v \<and> P v"
  by (auto simp: keep_where_def split: option.splits)

text \<open>A hash map has each key once.\<close>

definition tables_ok :: "global_state \<Rightarrow> bool" where
  "tables_ok s \<longleftrightarrow>
     distinct (map fst (gs_transactions s)) \<and> distinct (map fst (gs_statements s)) \<and>
     distinct (map fst (gs_stream_connections s)) \<and> distinct (map fst (am_requests (gs_async s)))"

lemma keys_where_iff:
  "distinct (map fst t) \<Longrightarrow> k \<in> set (keys_where P t) \<longleftrightarrow> (\<exists>v. map_of t k = Some v \<and> P v)"
  by (force simp: keys_where_def)

lemma drop_keys_where:
  assumes "distinct (map fst t)"
  shows "map_of t |` (- set (keys_where P t)) = keep_where (\<lambda>v. \<not> P v) (map_of t)"
proof
  fix k show "(map_of t |` (- set (keys_where P t))) k = keep_where (\<lambda>v. \<not> P v) (map_of t) k"
    using keys_where_iff[OF assms, of k P] by (cases "map_of t k") (auto simp: restrict_map_def keep_where_def)
qed

lemma rollback_entry_tables [simp]:
  "map_of (gs_transactions (rollback_entry drv i s)) = (map_of (gs_transactions s))(i := None)"
  "gs_statements (rollback_entry drv i s) = gs_statements s" "gs_streams (rollback_entry drv i s) = gs_streams s"
  "gs_stream_connections (rollback_entry drv i s) = gs_stream_connections s"
  "gs_pending_chunks (rollback_entry drv i s) = gs_pending_chunks s"
  "gs_pending_results (rollback_entry drv i s) = gs_pending_results s" "gs_async (rollback_entry drv i s) = gs_async s"
  "gs_connections (rollback_entry drv i s) = gs_connections s" "gs_poisoned (rollback_entry drv i s) = gs_poisoned s"
  "gs_pooled (rollback_entry drv i s) = gs_pooled s"
  "gs_xa_active (rollback_entry drv i s) = gs_xa_active s" "gs_xa_preparing (rollback_entry drv i s) = gs_xa_preparing s"
  "gs_xa_prepared (rollback_entry drv i s) = gs_xa_prepared s"
  by (auto simp: rollback_entry_def table_simps split: option.splits)

lemma rollback_entries_tables [simp]:
  "map_of (gs_transactions (fold (rollback_entry drv) ks s)) = map_of (gs_transactions s) |` (- set ks)"
  "gs_statements (fold (rollback_entry drv) ks s) = gs_statements s" "gs_streams (fold (rollback_entry drv) ks s) = gs_streams s"
  "gs_stream_connections (fold (rollback_entry drv) ks s) = gs_stream_connections s"
  "gs_pending_chunks (fold (rollback_entry drv) ks s) = gs_pending_chunks s"
  "gs_pending_results (fold (rollback_entry drv) ks s) = gs_pending_results s" "gs_async (fold (rollback_entry drv) ks s) = gs_async s"
  "gs_connections (fold (rollback_entry drv) ks s) = gs_connections s" "gs_poisoned (fold (rollback_entry drv) ks s) = gs_poisoned s"
  "gs_pooled (fold (rollback_entry drv) ks s) = gs_pooled s"
  "gs_xa_active (fold (rollback_entry drv) ks s) = gs_xa_active s" "gs_xa_preparing (fold (rollback_entry drv) ks s) = gs_xa_preparing s"
  "gs_xa_prepared (fold (rollback_entry drv) ks s) = gs_xa_prepared s"
  by (induction ks arbitrary: s) (auto simp: restrict_map_def fun_eq_iff)

lemma drop_stream_entry_tables [simp]:
  "map_of (gs_streams (drop_stream_entry i s)) = (map_of (gs_streams s))(i := None)"
  "map_of (gs_stream_connections (drop_stream_entry i s)) = (map_of (gs_stream_connections s))(i := None)"
  "map_of (gs_pending_chunks (drop_stream_entry i s)) = (map_of (gs_pending_chunks s))(i := None)"
  "gs_statements (drop_stream_entry i s) = gs_statements s" "gs_transactions (drop_stream_entry i s) = gs_transactions s"
  "gs_pending_results (drop_stream_entry i s) = gs_pending_results s" "gs_async (drop_stream_entry i s) = gs_async s"
  "gs_connections (drop_stream_entry i s) = gs_connections s" "gs_poisoned (drop_stream_entry i s) = gs_poisoned s"
  "gs_pooled (drop_stream_entry i s) = gs_pooled s"
  "gs_xa_active (drop_stream_entry i s) = gs_xa_active s" "gs_xa_preparing (drop_stream_entry i s) = gs_xa_preparing s"
  "gs_xa_prepared (drop_stream_entry i s) = gs_xa_prepared s"
  by (auto simp: drop_stream_entry_def Let_def table_simps fun_eq_iff split: option.splits)

lemma drop_stream_entries_tables [simp]:
  "map_of (gs_streams (fold drop_stream_entry ks s)) = map_of (gs_streams s) |` (- set ks)"
  "map_of (gs_stream_connections (fold drop_stream_entry ks s)) = map_of (gs_stream_connections s) |` (- set ks)"
  "map_of (gs_pending_chunks (fold drop_stream_entry ks s)) = map_of (gs_pending_chunks s) |` (- set ks)"
  "gs_statements (fold drop_stream_entry ks s) = gs_statements s" "gs_transactions (fold drop_stream_entry ks s) = gs_transactions s"
  "gs_pending_results (fold drop_stream_entry ks s) = gs_pending_results s" "gs_async (fold drop_stream_entry ks s) = gs_async s"
  "gs_connections (fold drop_stream_entry ks s) = gs_connections s" "gs_poisoned (fold drop_stream_entry ks s) = gs_poisoned s"
  "gs_pooled (fold drop_stream_entry ks s) = gs_pooled s"
  "gs_xa_active (fold drop_stream_entry ks s) = gs_xa_active s" "gs_xa_preparing (fold drop_stream_entry ks s) = gs_xa_preparing s"
  "gs_xa_prepared (fold drop_stream_entry ks s) = gs_xa_prepared s"
  by (induction ks arbitrary: s) (auto simp: restrict_map_def fun_eq_iff)

lemma release_connection_tables:
  assumes "tables_ok s"
  shows "map_of (gs_transactions (release_connection drv c s)) = keep_where (\<lambda>t. tx_conn_id t \<noteq> c) (map_of (gs_transactions s))"
    "map_of (gs_statements (release_connection drv c s)) = keep_where (\<lambda>t. sh_conn_id t \<noteq> c) (map_of (gs_statements s))"
    "map_of (gs_stream_connections (release_connection drv c s)) = keep_where (\<lambda>d. d \<noteq> c) (map_of (gs_stream_connections s))"
    "map_of (gs_streams (release_connection drv c s)) = map_of (gs_streams s) |` {i. map_of (gs_stream_connections s) i \<noteq> Some c}"
    "map_of (gs_pending_chunks (release_connection drv c s)) = map_of (gs_pending_chunks s) |` {i. map_of (gs_stream_connections s) i \<noteq> Some c}"
    "map_of (am_requests (gs_async (release_connection drv c s))) = keep_where (\<lambda>r. ar_conn_id r \<noteq> c) (map_of (am_requests (gs_async s)))"
    "map_of (gs_pending_results (release_connection drv c s)) = map_of (gs_pending_results s) |`
       {k. \<not> key_belongs c (keys_where (\<lambda>st. sh_conn_id st = c) (gs_statements s)) k}"
    "gs_connections (release_connection drv c s) = gs_connections s" "gs_poisoned (release_connection drv c s) = gs_poisoned s"
    "gs_pooled (release_connection drv c s) = gs_pooled s"
    "gs_xa_active (release_connection drv c s) = gs_xa_active s" "gs_xa_preparing (release_connection drv c s) = gs_xa_preparing s"
    "gs_xa_prepared (release_connection drv c s) = gs_xa_prepared s"
proof -
  have ids: "- set (keys_where (\<lambda>d. d = c) (gs_stream_connections s)) = {i. map_of (gs_stream_connections s) i \<noteq> Some c}"
    using assms keys_where_iff[of "gs_stream_connections s" _ "\<lambda>d. d = c"] by (auto simp: tables_ok_def)
  show "map_of (gs_transactions (release_connection drv c s)) = keep_where (\<lambda>t. tx_conn_id t \<noteq> c) (map_of (gs_transactions s))"
    "map_of (gs_stream_connections (release_connection drv c s)) = keep_where (\<lambda>d. d \<noteq> c) (map_of (gs_stream_connections s))"
    "map_of (gs_statements (release_connection drv c s)) = keep_where (\<lambda>t. sh_conn_id t \<noteq> c) (map_of (gs_statements s))"
    "map_of (am_requests (gs_async (release_connection drv c s))) = keep_where (\<lambda>r. ar_conn_id r \<noteq> c) (map_of (am_requests (gs_async s)))"
    using assms by (simp_all add: release_connection_def Let_def tables_ok_def drop_keys_where table_simps free_for_connection_def)
  show "map_of (gs_streams (release_connection drv c s)) = map_of (gs_streams s) |` {i. map_of (gs_stream_connections s) i \<noteq> Some c}"
    "map_of (gs_pending_chunks (release_connection drv c s)) = map_of (gs_pending_chunks s) |` {i. map_of (gs_stream_connections s) i \<noteq> Some c}"
    by (simp_all add: release_connection_def Let_def ids)
qed (simp_all add: release_connection_def Let_def table_simps)

lemma distinct_keys_filter: "distinct (map fst t) \<Longrightarrow> distinct (map fst (filter P t))"
  by (simp add: distinct_map_filter)

lemma fold_keeps: "(\<And>x s. P s \<Longrightarrow> P (f x s)) \<Longrightarrow> P s \<Longrightarrow> P (fold f xs s)"
  by (induction xs arbitrary: s) simp_all

lemma release_connection_distinct:
  assumes "tables_ok s" shows "tables_ok (release_connection drv c s)"
proof -
  have tx: "tables_ok (rollback_entry drv i s)" if "tables_ok s" for i s
    using that by (auto simp: tables_ok_def rollback_entry_def distinct_delete split: option.splits)
  have st: "tables_ok (drop_stream_entry i s)" if "tables_ok s" for i s
    using that by (auto simp: tables_ok_def drop_stream_entry_def Let_def distinct_delete split: option.splits)
  let ?s = "fold (rollback_entry drv) (keys_where (\<lambda>tx. tx_conn_id tx = c) (gs_transactions s)) s"
  have "tables_ok ?s" using tx assms by (rule fold_keeps)
  then have "tables_ok (?s\<lparr>gs_statements := drop_keys ks (gs_statements ?s)\<rparr>)" for ks
    by (simp add: tables_ok_def drop_keys_def distinct_keys_filter)
  note fold_keeps[of tables_ok drop_stream_entry, OF st this]
  then show ?thesis
    by (simp add: release_connection_def Let_def free_for_connection_def tables_ok_def drop_keys_def distinct_keys_filter)
qed

text \<open>
  C11. Disconnecting releases exactly what belongs to the connection: its transactions, statements, streams
  with the chunks that wait, asynchronous requests and kept results are gone, also when closing the
  connection itself fails, and every entry of another connection is as it was. The XA branches of the
  connection stay in their tables.
\<close>

theorem disconnect_purges:
  assumes "tables_ok s" and "\<not> gs_poisoned s" and "map_of (gs_connections s) c \<noteq> None"
    and "odbc_disconnect drv c s = (code, s')"
  shows "map_of (gs_connections s') = (map_of (gs_connections s))(c := None) \<and>
     map_of (gs_transactions s') = keep_where (\<lambda>t. tx_conn_id t \<noteq> c) (map_of (gs_transactions s)) \<and>
     map_of (gs_statements s') = keep_where (\<lambda>t. sh_conn_id t \<noteq> c) (map_of (gs_statements s)) \<and>
     map_of (gs_streams s') = map_of (gs_streams s) |` {i. map_of (gs_stream_connections s) i \<noteq> Some c} \<and>
     map_of (gs_pending_chunks s') = map_of (gs_pending_chunks s) |` {i. map_of (gs_stream_connections s) i \<noteq> Some c} \<and>
     map_of (am_requests (gs_async s')) = keep_where (\<lambda>r. ar_conn_id r \<noteq> c) (map_of (am_requests (gs_async s))) \<and>
     map_of (gs_pending_results s') = map_of (gs_pending_results s) |`
       {k. \<not> key_belongs c (keys_where (\<lambda>st. sh_conn_id st = c) (gs_statements s)) k} \<and>
     gs_xa_active s' = gs_xa_active s \<and> gs_xa_preparing s' = gs_xa_preparing s \<and> gs_xa_prepared s' = gs_xa_prepared s"
proof -
  obtain k where k: "map_of (gs_connections s) c = Some k" using assms(3) by blast
  let ?s = "s\<lparr>gs_connections := AList.delete c (gs_connections s)\<rparr>"
  let ?r = "release_connection drv c ?s"
  have "tables_ok ?s" using assms(1) by (simp add: tables_ok_def)
  note tables = release_connection_tables[OF this, of drv c]
  have same: "gs_connections s' = gs_connections ?r" "gs_transactions s' = gs_transactions ?r" "gs_statements s' = gs_statements ?r"
    "gs_streams s' = gs_streams ?r" "gs_pending_chunks s' = gs_pending_chunks ?r" "gs_async s' = gs_async ?r"
    "gs_pending_results s' = gs_pending_results ?r" "gs_xa_active s' = gs_xa_active ?r" "gs_xa_preparing s' = gs_xa_preparing ?r"
    "gs_xa_prepared s' = gs_xa_prepared ?r"
    using assms(2,4) k by (auto simp: odbc_disconnect_def Let_def panicked_def split: prod.splits outcome.splits)
  show ?thesis by (simp add: same tables table_simps)
qed

definition busy_session :: global_state where
  "busy_session =
     example_session\<lparr>gs_statements := [(3, statement_new 1 ''SELECT'' 0), (4, statement_new 2 ''SELECT'' 0)],
       gs_streams := [(5, SK_Buffer (InMemory \<lparr>st_data = [1], st_offset = 0, st_chunk_size = 2\<rparr>))],
       gs_stream_connections := [(5, 1)], gs_pending_results := [(PK_Execute 3 0 0 0, \<lparr>pb_data = [1], pb_created_at = 0\<rparr>)]\<rparr>"

theorem disconnect_purges_witness:
  "case odbc_disconnect (accepting_driver []) 1 busy_session of (code, s') \<Rightarrow>
     map_of (gs_statements s') 3 = None \<and> map_of (gs_statements s') 4 = Some (statement_new 2 ''SELECT'' 0) \<and>
     map_of (gs_streams s') 5 = None \<and> map_of (gs_pending_results s') (PK_Execute 3 0 0 0) = None"
proof -
  obtain code s' where run: "odbc_disconnect (accepting_driver []) 1 busy_session = (code, s')" by fastforce
  have busy: "tables_ok busy_session" "\<not> gs_poisoned busy_session" "map_of (gs_connections busy_session) 1 \<noteq> None"
    by (simp_all add: busy_session_def example_session_def fresh_state_def tables_ok_def async_manager_new_def)
  from disconnect_purges[OF busy run] show ?thesis unfolding run
    by (elim conjE) (simp add: run busy_session_def statement_new_def keep_where_def keys_where_def restrict_map_def)
qed

section \<open>Consistency of the tables\<close>

text \<open>Transactions: on a registered connection, and one per connection.\<close>

definition tx_ok :: "(u32 \<rightharpoonup> odbc_connection) \<Rightarrow> (u32 \<rightharpoonup> transaction) \<Rightarrow> bool" where
  "tx_ok conns txs \<longleftrightarrow>
     txs 0 = None \<and> (\<forall>i t. txs i = Some t \<longrightarrow> conns (tx_conn_id t) \<noteq> None) \<and>
     (\<forall>i j t u. txs i = Some t \<and> txs j = Some u \<and> tx_conn_id t = tx_conn_id u \<longrightarrow> i = j)"

text \<open>Streams: each has its connection, which is registered; a waiting chunk has its stream.\<close>

definition streams_ok ::
  "(u32 \<rightharpoonup> odbc_connection) \<Rightarrow> (u32 \<rightharpoonup> stream_kind) \<Rightarrow> (u32 \<rightharpoonup> u32) \<Rightarrow> (u32 \<rightharpoonup> pending_stream_chunk) \<Rightarrow> bool"
where
  "streams_ok conns streams owners chunks \<longleftrightarrow>
     streams 0 = None \<and> (\<forall>i. chunks i \<noteq> None \<longrightarrow> streams i \<noteq> None) \<and> (\<forall>i. streams i \<noteq> None \<longrightarrow> owners i \<noteq> None) \<and>
     (\<forall>i c. owners i = Some c \<longrightarrow> conns c \<noteq> None)"

text \<open>
  The result of a prepared statement is kept only while the statement exists, apart from the statements in \<open>L\<close>: those
  that a call of the pool removed while leaving their results behind.
\<close>

definition pending_ok ::
  "u32 set \<Rightarrow> (u32 \<rightharpoonup> statement_handle) \<Rightarrow> (pending_result_key \<rightharpoonup> pending_result_buffer) \<Rightarrow> bool"
where
  "pending_ok L stmts pending \<longleftrightarrow>
     stmts 0 = None \<and> (\<forall>i p t f. pending (PK_Execute i p t f) \<noteq> None \<longrightarrow> stmts i \<noteq> None \<or> i \<in> L)"

definition requests_ok :: "(u32 \<rightharpoonup> odbc_connection) \<Rightarrow> (u32 \<rightharpoonup> async_request_slot) \<Rightarrow> bool" where
  "requests_ok conns reqs \<longleftrightarrow> reqs 0 = None \<and> (\<forall>i r. reqs i = Some r \<longrightarrow> conns (ar_conn_id r) \<noteq> None)"

text \<open>An XA identifier is in at most one of the three tables.\<close>

definition xa_ok :: "(u32 \<rightharpoonup> xa_transaction) \<Rightarrow> (u32 \<rightharpoonup> preparing_xa) \<Rightarrow> (u32 \<rightharpoonup> prepared_xa) \<Rightarrow> bool" where
  "xa_ok active preparing prepared \<longleftrightarrow>
     active 0 = None \<and> preparing 0 = None \<and> prepared 0 = None \<and>
     (\<forall>i. active i \<noteq> None \<longrightarrow> preparing i = None \<and> prepared i = None) \<and> (\<forall>i. preparing i \<noteq> None \<longrightarrow> prepared i = None)"

definition session_ok :: "u32 set \<Rightarrow> global_state \<Rightarrow> bool" where
  "session_ok L s \<longleftrightarrow>
     tables_ok s \<and> tx_ok (map_of (gs_connections s)) (map_of (gs_transactions s)) \<and>
     streams_ok (map_of (gs_connections s)) (map_of (gs_streams s)) (map_of (gs_stream_connections s)) (map_of (gs_pending_chunks s)) \<and>
     pending_ok L (map_of (gs_statements s)) (map_of (gs_pending_results s)) \<and>
     requests_ok (map_of (gs_connections s)) (map_of (am_requests (gs_async s))) \<and>
     xa_ok (map_of (gs_xa_active s)) (map_of (gs_xa_preparing s)) (map_of (gs_xa_prepared s))"

text \<open>
  The entry points on connections, transactions, statements, streams and asynchronous requests, each as one step.
  The entry points of the pool, the catalog and the bulk inserts are added in \<open>Engine_Runs\<close>.
\<close>

inductive ffi_step :: "global_state \<Rightarrow> global_state \<Rightarrow> bool" where
  init: "ffi_step s (snd (odbc_init drv s))"
| connect: "ffi_step s (snd (odbc_connect drv p s))"
| connect_timeout: "ffi_step s (snd (odbc_connect_with_timeout drv p t s))"
| disconnect: "ffi_step s (snd (odbc_disconnect drv c s))"
| begin_v1: "ffi_step s (snd (odbc_transaction_begin drv c il d s))"
| begin_v2: "ffi_step s (snd (odbc_transaction_begin_v2 drv c il d a s))"
| begin_v3: "ffi_step s (snd (odbc_transaction_begin_v3 drv c il d a l s))"
| commit: "ffi_step s (snd (odbc_transaction_commit drv i s))"
| rollback: "ffi_step s (snd (odbc_transaction_rollback drv i s))"
| savepoint_create: "ffi_step s (snd (odbc_savepoint_create drv i p s))"
| savepoint_rollback: "ffi_step s (snd (odbc_savepoint_rollback drv i p s))"
| savepoint_release: "ffi_step s (snd (odbc_savepoint_release drv i p s))"
| xa_start: "ffi_step s (snd (odbc_xa_start drv c f g gl b bl s))"
| xa_end: "ffi_step s (snd (odbc_xa_end drv x s))"
| xa_prepare: "ffi_step s (snd (odbc_xa_prepare drv x s))"
| xa_commit_prepared: "ffi_step s (snd (odbc_xa_commit_prepared drv x s))"
| xa_rollback_prepared: "ffi_step s (snd (odbc_xa_rollback_prepared drv x s))"
| xa_commit_one_phase: "ffi_step s (snd (odbc_xa_commit_one_phase drv x s))"
| xa_rollback_active: "ffi_step s (snd (odbc_xa_rollback_active drv x s))"
| xa_recover: "ffi_step s (snd (snd (odbc_xa_recover_count drv c cache s)))"
| xa_resume: "ffi_step s (snd (odbc_xa_resume_prepared drv c f g gl b bl s))"
| exec: "ffi_step s (snd (snd (exec_run be now later req n s)))"
| prepare: "ffi_step s (snd (odbc_prepare c p t s))"
| cancel: "ffi_step s (snd (odbc_cancel i s))"
| close_statement: "ffi_step s (snd (odbc_close_statement i s))"
| clear_statements: "ffi_step s (snd (odbc_clear_all_statements s))"
| execute_async: "ffi_step s (snd (odbc_execute_async sp c p s))"
| async_task: "ffi_step s (s\<lparr>gs_async := task_store i b r (gs_async s)\<rparr>)"
| async_get_result: "ffi_step s (snd (snd (odbc_async_get_result nl i n s)))"
| async_cancel: "ffi_step s (snd (odbc_async_cancel i s))"
| async_free: "ffi_step s (snd (odbc_async_free i s))"
| stream_start: "ffi_step s (snd (odbc_stream_start be c p n s))"
| stream_start_batched: "ffi_step s (snd (odbc_stream_start_batched be cn c p fs n s))"
| stream_start_async: "ffi_step s (snd (odbc_stream_start_async be cn c p fs n s))"
| stream_multi_start_batched: "ffi_step s (snd (odbc_stream_multi_start_batched be cn c p n s))"
| stream_multi_start_async: "ffi_step s (snd (odbc_stream_multi_start_async be cn c p n s))"
| stream_poll: "ffi_step s (snd (snd (odbc_stream_poll_async ar nl i s)))"
| stream_fetch: "ffi_step s (snd (snd (odbc_stream_fetch nl i n s)))"
| stream_cancel: "ffi_step s (snd (odbc_stream_cancel i s))"
| stream_close: "ffi_step s (snd (odbc_stream_close i s))"

lemma tx_ok_rules:
  "tx_ok conns txs \<Longrightarrow> tx_ok conns (txs(i := None))"
  "tx_ok conns txs \<Longrightarrow> tx_ok (conns(c \<mapsto> k)) txs"
  "tx_ok conns txs \<Longrightarrow> i \<noteq> 0 \<Longrightarrow> conns (tx_conn_id t) \<noteq> None \<Longrightarrow>
     (\<And>j u. txs j = Some u \<Longrightarrow> tx_conn_id u \<noteq> tx_conn_id t) \<Longrightarrow> tx_ok conns (txs(i \<mapsto> t))"
  "tx_ok conns txs \<Longrightarrow> tx_ok (conns(c := None)) (keep_where (\<lambda>t. tx_conn_id t \<noteq> c) txs)"
  by (auto simp: tx_ok_def keep_where_Some keep_where_None split: if_splits) blast

lemma streams_ok_rules:
  "streams_ok conns streams owners chunks \<Longrightarrow> streams_ok (conns(c \<mapsto> cn)) streams owners chunks"
  "streams_ok conns streams owners chunks \<Longrightarrow> streams i \<noteq> None \<Longrightarrow> streams_ok conns (streams(i \<mapsto> k)) owners chunks"
  "streams_ok conns streams owners chunks \<Longrightarrow> streams i \<noteq> None \<Longrightarrow> streams_ok conns streams owners (chunks(i \<mapsto> p))"
  "streams_ok conns streams owners chunks \<Longrightarrow> streams_ok conns streams owners (chunks(i := None))"
  "streams_ok conns streams owners chunks \<Longrightarrow> chunks i = None \<Longrightarrow> streams_ok conns (streams(i := None)) owners chunks"
  "streams_ok conns streams owners chunks \<Longrightarrow> streams_ok conns (streams(i := None)) (owners(i := None)) (chunks(i := None))"
  "streams_ok conns streams owners chunks \<Longrightarrow> i \<noteq> 0 \<Longrightarrow> conns c \<noteq> None \<Longrightarrow> streams_ok conns (streams(i \<mapsto> k)) (owners(i \<mapsto> c)) chunks"
  "streams_ok conns streams owners chunks \<Longrightarrow>
     streams_ok (conns(c := None)) (streams |` {i. owners i \<noteq> Some c}) (keep_where (\<lambda>d. d \<noteq> c) owners) (chunks |` {i. owners i \<noteq> Some c})"
  by (auto simp: streams_ok_def restrict_map_def keep_where_def split: if_splits option.splits)

lemma pending_ok_rules:
  "pending_ok L stmts pending \<Longrightarrow> pending_ok L stmts (pending(k := None))"
  "pending_ok L stmts pending \<Longrightarrow> (\<And>i p t f. k = PK_Execute i p t f \<Longrightarrow> stmts i \<noteq> None) \<Longrightarrow> pending_ok L stmts (pending(k \<mapsto> e))"
  "pending_ok L stmts pending \<Longrightarrow> i \<noteq> 0 \<Longrightarrow> pending_ok L (stmts(i \<mapsto> st)) pending"
  "pending_ok L stmts pending \<Longrightarrow> pending_ok L (stmts(i := None)) (pending |` {k. \<not> is_execute_key_of i k})"
  "pending_ok L Map.empty (pending |` {k. \<not> is_execute_key k})"
  by (auto simp: pending_ok_def restrict_map_def split: if_splits) blast+

lemma pending_ok_replace:
  "pending_ok L stmts pending \<Longrightarrow> pending k \<noteq> None \<Longrightarrow> pending_ok L stmts (pending(k \<mapsto> e))"
  unfolding pending_ok_def by (metis fun_upd_apply)

lemma pending_ok_purge:
  assumes "pending_ok L stmts pending" and "\<And>i. i \<in> set gone \<longleftrightarrow> (\<exists>st. stmts i = Some st \<and> sh_conn_id st = c)"
  shows "pending_ok L (keep_where (\<lambda>st. sh_conn_id st \<noteq> c) stmts) (pending |` {k. \<not> key_belongs c gone k})"
  unfolding pending_ok_def
proof (intro conjI allI impI)
  fix i p t f assume "(pending |` {k. \<not> key_belongs c gone k}) (PK_Execute i p t f) \<noteq> None"
  then have "pending (PK_Execute i p t f) \<noteq> None" "i \<notin> set gone" by (auto simp: restrict_map_def split: if_splits)
  moreover have "stmts i \<noteq> None \<or> i \<in> L" using assms(1) calculation(1) unfolding pending_ok_def by blast
  ultimately show "keep_where (\<lambda>st. sh_conn_id st \<noteq> c) stmts i \<noteq> None \<or> i \<in> L"
    using assms(2)[of i] by (auto simp: keep_where_def)
qed (use assms(1) in \<open>simp add: pending_ok_def keep_where_None\<close>)

lemma requests_ok_rules:
  "requests_ok conns reqs \<Longrightarrow> requests_ok (conns(c \<mapsto> k)) reqs"
  "requests_ok conns reqs \<Longrightarrow> requests_ok conns (reqs(i := None))"
  "requests_ok conns reqs \<Longrightarrow> i \<noteq> 0 \<Longrightarrow> conns (ar_conn_id r) \<noteq> None \<Longrightarrow> requests_ok conns (reqs(i \<mapsto> r))"
  "requests_ok conns reqs \<Longrightarrow> reqs i = Some r' \<Longrightarrow> ar_conn_id r = ar_conn_id r' \<Longrightarrow> requests_ok conns (reqs(i \<mapsto> r))"
  "requests_ok conns reqs \<Longrightarrow> requests_ok (conns(c := None)) (keep_where (\<lambda>r. ar_conn_id r \<noteq> c) reqs)"
  by (auto simp: requests_ok_def keep_where_Some keep_where_None split: if_splits)

lemma xa_ok_rules:
  "xa_ok a p q \<Longrightarrow> i \<noteq> 0 \<Longrightarrow> p i = None \<Longrightarrow> q i = None \<Longrightarrow> xa_ok (a(i \<mapsto> x)) p q"
  "xa_ok a p q \<Longrightarrow> i \<noteq> 0 \<Longrightarrow> a i = None \<Longrightarrow> p i = None \<Longrightarrow> xa_ok a p (q(i \<mapsto> z))"
  "xa_ok a p q \<Longrightarrow> xa_ok (a(i := None)) p q" "xa_ok a p q \<Longrightarrow> xa_ok a (p(i := None)) q" "xa_ok a p q \<Longrightarrow> xa_ok a p (q(i := None))"
  "xa_ok a p q \<Longrightarrow> a i \<noteq> None \<Longrightarrow> xa_ok (a(i := None)) (p(i \<mapsto> y)) q"
  "xa_ok a p q \<Longrightarrow> p i \<noteq> None \<Longrightarrow> xa_ok a (p(i := None)) (q(i \<mapsto> z))"
  by (auto simp: xa_ok_def split: if_splits)


lemmas table_rules = tx_ok_rules streams_ok_rules pending_ok_rules requests_ok_rules xa_ok_rules

lemma session_ok_irrelevant [simp]:
  "session_ok L (set_connection_error i m s) = session_ok L s" "session_ok L (set_error m s) = session_ok L s"
  "session_ok L (set_connection_structured_error i e s) = session_ok L s" "session_ok L (report oc m s) = session_ok L s"
  "session_ok L (set_structured_error e s) = session_ok L s" "session_ok L (poison_connection c s) = session_ok L s"
  "session_ok L (s\<lparr>gs_poisoned := p\<rparr>) = session_ok L s" "session_ok L (s\<lparr>gs_world := w\<rparr>) = session_ok L s"
  "session_ok L (s\<lparr>gs_env := e'\<rparr>) = session_ok L s" "session_ok L (s\<lparr>gs_disk := d\<rparr>) = session_ok L s"
  "session_ok L (s\<lparr>gs_pooled := pl\<rparr>) = session_ok L s" "session_ok L (s\<lparr>gs_next_txn_id := n\<rparr>) = session_ok L s"
  "session_ok L (s\<lparr>gs_next_xa_id := n\<rparr>) = session_ok L s" "session_ok L (s\<lparr>gs_next_stmt_id := n\<rparr>) = session_ok L s"
  "session_ok L (s\<lparr>gs_next_stream_id := n\<rparr>) = session_ok L s" "session_ok L (s\<lparr>gs_connection_errors := ce\<rparr>) = session_ok L s"
  by (simp_all add: session_ok_def tables_ok_def set_structured_error_def poison_connection_def split: option.splits)


lemma begin_result_conn:
  "begin_with_lock_timeout drv c level dialect mode t w = (Ok tx, w') \<Longrightarrow> tx_conn_id tx = c"
  by (auto simp: begin_with_lock_timeout_def Let_def split: prod.splits outcome.splits)

lemma begin_ok:
  assumes "session_ok L s" shows "session_ok L (snd (odbc_transaction_begin_v3 drv c il d a l s))"
proof (cases "begin_check c il s")
  case (Pair r s1)
  show ?thesis
  proof (cases r)
    case (Inl code)
    with Pair assms show ?thesis
      by (auto simp: odbc_transaction_begin_v3_def begin_check_def split: if_splits option.splits)
  next
    case (Inr level)
    with Pair have s1: "s1 = s" "map_of (gs_connections s) c \<noteq> None" "\<not> list_ex (\<lambda>(_, t). tx_conn_id t = c) (gs_transactions s)"
      by (auto simp: begin_check_def split: if_splits option.splits)
    obtain q w where q: "begin_with_lock_timeout drv c level (dialect_from_u32 d) (access_mode_from_u32 a) (from_millis l) (gs_world s) = (q, w)"
      by fastforce
    have "session_ok L (snd (begin_insert drv c q (s\<lparr>gs_world := w\<rparr>)))"
    proof (cases q)
      case (Ok tx)
      with q have "tx_conn_id tx = c" using begin_result_conn by blast
      with assms s1(2,3) Ok show ?thesis
        by (auto simp: begin_insert_def split: prod.splits)
          (auto simp: list_ex_iff session_ok_def table_simps tables_ok_def distinct_update distinct_delete intro!: table_rules)
    qed (use assms in \<open>auto simp: begin_insert_def\<close>)
    with Pair Inr s1(1) q show ?thesis by (simp add: odbc_transaction_begin_v3_def begin_unlocked_def)
  qed
qed

lemma end_transaction_ok: "session_ok L s \<Longrightarrow> session_ok L (snd (end_transaction what finish i s))"
  by (auto simp: end_transaction_def Let_def panicked_def split: option.splits prod.splits outcome.splits)
    (auto simp: session_ok_def table_simps tables_ok_def distinct_update distinct_delete intro!: table_rules)

lemma savepoint_dispatch_ok: "session_ok L s \<Longrightarrow> session_ok L (snd (savepoint_dispatch i p what action s))"
  by (auto simp: savepoint_dispatch_def Let_def panicked_def split: option.splits prod.splits outcome.splits)

lemma connect_inner_ok: "session_ok L s \<Longrightarrow> session_ok L (snd (connect_inner what drv p t s))"
  by (auto simp: connect_inner_def split: option.splits bool.splits prod.splits outcome.splits)
    (auto simp: session_ok_def table_simps tables_ok_def distinct_update distinct_delete intro!: table_rules)

lemma disconnect_ok:
  assumes "session_ok L s" shows "session_ok L (snd (odbc_disconnect drv c s))"
proof (cases "map_of (gs_connections s) c")
  case (Some k)
  let ?s = "s\<lparr>gs_connections := AList.delete c (gs_connections s)\<rparr>"
  have ok: "tables_ok ?s" using assms by (simp add: session_ok_def tables_ok_def)
  note tables = release_connection_tables[OF ok, of drv c]
  have "tables_ok (release_connection drv c ?s)" using ok by (rule release_connection_distinct)
  moreover have "i \<in> set (keys_where (\<lambda>st. sh_conn_id st = c) (gs_statements s)) \<longleftrightarrow>
      (\<exists>st. map_of (gs_statements s) i = Some st \<and> sh_conn_id st = c)" for i
    using ok by (simp add: keys_where_iff tables_ok_def)
  ultimately have "session_ok L (release_connection drv c ?s)"
    using assms by (auto simp: session_ok_def tables table_simps intro!: table_rules pending_ok_purge)
  with Some assms show ?thesis
    by (auto simp: odbc_disconnect_def Let_def panicked_def split: prod.splits outcome.splits)
qed (use assms in \<open>auto simp: odbc_disconnect_def\<close>)

lemma xa_checked_ok: "session_ok L s \<Longrightarrow> xa_checked who c f g gl b bl s = Inl s' \<Longrightarrow> session_ok L s'"
  by (auto simp: xa_checked_def split: option.splits outcome.splits if_splits)

lemma xa_alloc_id_ok:
  "session_ok L s \<Longrightarrow> xa_alloc_id s = (Some i, s') \<Longrightarrow>
     session_ok L (s'\<lparr>gs_xa_active := AList.update i xa (gs_xa_active s')\<rparr>) \<and>
     session_ok L (s'\<lparr>gs_xa_prepared := AList.update i pr (gs_xa_prepared s')\<rparr>)"
  "session_ok L s \<Longrightarrow> xa_alloc_id s = (None, s') \<Longrightarrow> session_ok L s'"
proof -
  assume "session_ok L s" "xa_alloc_id s = (Some i, s')"
  then show "session_ok L (s'\<lparr>gs_xa_active := AList.update i xa (gs_xa_active s')\<rparr>) \<and>
     session_ok L (s'\<lparr>gs_xa_prepared := AList.update i pr (gs_xa_prepared s')\<rparr>)"
    by (auto simp: xa_alloc_id_def split: prod.splits if_splits dest!: alloc_conn_id_sound)
      (auto simp: session_ok_def tables_ok_def table_simps xa_taken_def split: if_splits intro!: table_rules)
qed (auto simp: xa_alloc_id_def split: prod.splits if_splits)

lemma xa_start_ok:
  assumes "session_ok L s" shows "session_ok L (snd (odbc_xa_start drv c f g gl b bl s))"
proof (cases "xa_checked ''odbc_xa_start'' c f g gl b bl s")
  case (Inl s')
  with xa_checked_ok[OF assms Inl] assms show ?thesis by (simp add: odbc_xa_start_def)
next
  case (Inr x)
  obtain r w where r: "xa_start drv c x (gs_world s) = (r, w)" by fastforce
  obtain i s' where i: "xa_alloc_id (s\<lparr>gs_world := w\<rparr>) = (i, s')" by fastforce
  with assms have "\<And>j xa. i = Some j \<Longrightarrow> session_ok L (s'\<lparr>gs_xa_active := AList.update j xa (gs_xa_active s')\<rparr>)"
    "i = None \<Longrightarrow> session_ok L s'"
    using xa_alloc_id_ok[of L "s\<lparr>gs_world := w\<rparr>"] by auto
  with Inr r i assms show ?thesis by (cases r; cases i) (simp_all add: odbc_xa_start_def)
qed

lemma xa_resume_ok:
  assumes "session_ok L s" shows "session_ok L (snd (odbc_xa_resume_prepared drv c f g gl b bl s))"
proof (cases "xa_checked ''odbc_xa_resume_prepared'' c f g gl b bl s")
  case (Inl s')
  with xa_checked_ok[OF assms Inl] assms show ?thesis by (simp add: odbc_xa_resume_prepared_def)
next
  case (Inr x)
  obtain i s' where i: "xa_alloc_id s = (i, s')" by fastforce
  with assms have "\<And>j pr. i = Some j \<Longrightarrow> session_ok L (s'\<lparr>gs_xa_prepared := AList.update j pr (gs_xa_prepared s')\<rparr>)"
    "i = None \<Longrightarrow> session_ok L s'"
    using xa_alloc_id_ok[of L s] by auto
  with Inr i assms show ?thesis
    by (cases "resume_prepared drv c x (gs_world s)"; cases i) (simp_all add: odbc_xa_resume_prepared_def)
qed

lemma xa_report_ok [simp]: "session_ok L (snd (xa_report what r s)) = session_ok L s"
  by (auto simp: xa_report_def panicked_def split: outcome.splits)

lemma xa_steps_ok:
  assumes "session_ok L s"
  shows "session_ok L (snd (odbc_xa_end drv x s))" "session_ok L (snd (odbc_xa_prepare drv x s))"
    "session_ok L (snd (finish_prepared what fp x s))" "session_ok L (snd (finish_active what fa x s))"
  using assms
  by (auto simp: odbc_xa_end_def odbc_xa_prepare_def finish_prepared_def finish_active_def xa_invalid_def Let_def
      split: prod.splits option.splits outcome.splits)
    (simp_all add: session_ok_def tables_ok_def table_simps table_rules)

text \<open>Statements: what is kept under the key of a prepared statement has its statement.\<close>

definition key_ok :: "pending_result_key \<Rightarrow> global_state \<Rightarrow> bool" where
  "key_ok k s \<longleftrightarrow> (\<forall>i p t f. k = PK_Execute i p t f \<longrightarrow> map_of (gs_statements s) i \<noteq> None)"

lemma stash_ok: "session_ok L s \<Longrightarrow> key_ok k s \<Longrightarrow> session_ok L (stash_pending_result now k data s)"
  by (auto simp: stash_pending_result_def session_ok_def tables_ok_def table_simps key_ok_def intro!: table_rules)

lemma deliver_ok:
  "session_ok L s \<Longrightarrow> key_ok k s \<Longrightarrow> session_ok L panic \<Longrightarrow> session_ok L (snd (snd (deliver now k c n zero panic r s)))"
  by (cases r) (simp_all add: deliver_def stash_ok)

lemma forget_ok: "session_ok L s \<Longrightarrow> session_ok L (s\<lparr>gs_pending_results := AList.delete k (gs_pending_results s)\<rparr>)"
  by (simp add: session_ok_def tables_ok_def table_simps table_rules)

lemma rekeep_ok:
  "session_ok L s \<Longrightarrow> map_of (gs_pending_results s) k \<noteq> None \<Longrightarrow>
     session_ok L (s\<lparr>gs_pending_results := AList.update k e (AList.delete k (gs_pending_results s))\<rparr>)"
  by (simp add: session_ok_def tables_ok_def table_simps pending_ok_replace)

lemma unless_pending_ok:
  "session_ok L s \<Longrightarrow> session_ok L (snd (snd (run s))) \<Longrightarrow> session_ok L (snd (snd (unless_pending now k n c run s)))"
  by (auto simp: unless_pending_def try_write_pending_result_def Let_def forget_ok rekeep_ok split: option.splits)

lemma run_locked_ok: "session_ok L s \<Longrightarrow> key_ok k s \<Longrightarrow> session_ok L (snd (snd (run_locked later k c n zero missing r s)))"
  by (auto simp: run_locked_def deliver_ok split: option.splits)

lemma key_ok_plain [simp]: "key_ok (PK_ExecQuery a b) s" "key_ok (PK_ExecQueryParams a b d) s" "key_ok (PK_ExecQueryMulti a b) s"
  "key_ok (PK_Execute i p t f) s \<longleftrightarrow> map_of (gs_statements s) i \<noteq> None" "key_ok k (s\<lparr>gs_pooled := pl\<rparr>) = key_ok k s"
  by (auto simp: key_ok_def)

lemma exec_ok:
  assumes "session_ok L s" shows "session_ok L (snd (snd (exec_run be now later req n s)))"
proof (cases req)
  case (ExecQuery c q)
  with assms show ?thesis
    by (auto simp: odbc_exec_query_def Let_def intro!: unless_pending_ok deliver_ok split: option.splits)
next
  case (ExecParams c q ps)
  with assms show ?thesis
    by (auto simp: odbc_exec_query_params_def Let_def intro!: unless_pending_ok deliver_ok split: option.splits outcome.splits)
next
  case (ExecMulti c q)
  with assms show ?thesis
    by (auto simp: odbc_exec_query_multi_def Let_def intro!: unless_pending_ok run_locked_ok split: option.splits)
next
  case (ExecMultiParams c q ps)
  with assms show ?thesis
    by (auto simp: odbc_exec_query_multi_params_def Let_def intro!: unless_pending_ok run_locked_ok split: option.splits outcome.splits)
next
  case (ExecStmt i ps t f)
  with assms show ?thesis
    by (auto simp: odbc_execute_def Let_def intro!: unless_pending_ok run_locked_ok split: option.splits)
qed

lemma statement_steps_ok:
  assumes "session_ok L s"
  shows "session_ok L (snd (odbc_prepare c p t s))" "session_ok L (snd (odbc_cancel i s))" "session_ok L (snd (odbc_close_statement i s))"
    "session_ok L (snd (odbc_clear_all_statements s))"
  using assms
  by (auto simp: odbc_prepare_def odbc_cancel_def odbc_close_statement_def odbc_clear_all_statements_def Let_def
      split: option.splits prod.splits)
    (auto simp: session_ok_def tables_ok_def table_simps distinct_update distinct_delete intro!: table_rules)

text \<open>Asynchronous requests.\<close>

lemma requests_step:
  assumes "session_ok L s" and "distinct (map fst (am_requests m))" and "requests_ok (map_of (gs_connections s)) (map_of (am_requests m))"
  shows "session_ok L (s\<lparr>gs_async := m\<rparr>)"
  using assms by (simp add: session_ok_def tables_ok_def)

lemma start_request_ok:
  assumes "session_ok L s" and "map_of (gs_connections s) c \<noteq> None"
  shows "session_ok L (s\<lparr>gs_async := snd (start_request sp c (gs_async s))\<rparr>)"
proof (rule requests_step)
  have old: "distinct (map fst (am_requests (gs_async s)))" "requests_ok (map_of (gs_connections s)) (map_of (am_requests (gs_async s)))"
    using assms(1) by (simp_all add: session_ok_def tables_ok_def)
  show "distinct (map fst (am_requests (snd (start_request sp c (gs_async s)))))"
    using old by (auto simp: start_request_def allocate_request_id_def distinct_update split: prod.splits option.splits if_splits)
  show "requests_ok (map_of (gs_connections s)) (map_of (am_requests (snd (start_request sp c (gs_async s)))))"
    using old(2) assms(2)
    by (auto simp: start_request_def allocate_request_id_def slot_new_def table_simps split: prod.splits option.splits if_splits
        intro!: requests_ok_rules(3))
qed (rule assms(1))

lemma async_steps_ok:
  assumes "session_ok L s"
  shows "session_ok L (snd (odbc_execute_async sp c p s))" "session_ok L (s\<lparr>gs_async := task_store i b r (gs_async s)\<rparr>)"
    "session_ok L (snd (odbc_async_cancel i s))" "session_ok L (snd (odbc_async_free i s))"
proof -
  show "session_ok L (snd (odbc_execute_async sp c p s))"
    using assms start_request_ok[OF assms, of c sp] by (auto simp: odbc_execute_async_def split: option.splits prod.splits)
  have old: "distinct (map fst (am_requests (gs_async s)))" "requests_ok (map_of (gs_connections s)) (map_of (am_requests (gs_async s)))"
    using assms by (simp_all add: session_ok_def tables_ok_def)
  show "session_ok L (s\<lparr>gs_async := task_store i b r (gs_async s)\<rparr>)"
    using old by (intro requests_step[OF assms])
      (auto simp: task_store_def table_simps distinct_update split: option.splits intro!: requests_ok_rules(4))
  show "session_ok L (snd (odbc_async_cancel i s))" "session_ok L (snd (odbc_async_free i s))"
    using assms old
    by (auto simp: odbc_async_cancel_def async_cancel_def odbc_async_free_def async_free_def split: option.splits)
      (auto simp: table_simps distinct_update distinct_delete intro!: requests_step requests_ok_rules(2,4))
qed

lemma async_get_result_ok:
  assumes "session_ok L s" shows "session_ok L (snd (snd (odbc_async_get_result nl i n s)))"
proof -
  have old: "distinct (map fst (am_requests (gs_async s)))" "requests_ok (map_of (gs_connections s)) (map_of (am_requests (gs_async s)))"
    using assms by (simp_all add: session_ok_def tables_ok_def)
  obtain r m where m: "async_take_result i (gs_async s) = (r, m)" by fastforce
  then have new: "distinct (map fst (am_requests m))" "requests_ok (map_of (gs_connections s)) (map_of (am_requests m))"
    using old by (auto simp: async_take_result_def Let_def table_simps distinct_update split: option.splits async_request_outcome.splits
        intro!: requests_ok_rules(4))
  then have "distinct (map fst (am_requests (async_restore_result i d m)))"
    "requests_ok (map_of (gs_connections s)) (map_of (am_requests (async_restore_result i d m)))" for d
    by (auto simp: async_restore_result_def table_simps distinct_update split: option.splits intro!: requests_ok_rules(4))
  with new m assms show ?thesis
    by (auto simp: odbc_async_get_result_def intro!: requests_step split: option.splits prod.splits outcome.splits)
qed

text \<open>Streams.\<close>

lemma register_stream_ok:
  "session_ok L s \<Longrightarrow> map_of (gs_connections s) c \<noteq> None \<Longrightarrow> session_ok L (snd (register_stream what c r s))"
  by (auto simp: register_stream_def allocate_stream_id_def Let_def split: outcome.splits prod.splits)
    (simp_all add: session_ok_def tables_ok_def table_simps distinct_update table_rules)

lemma stream_steps_ok:
  assumes "session_ok L s"
  shows "session_ok L (snd (start_with_worker what pc k sp c p s))" "session_ok L (snd (odbc_stream_start be c p n s))"
    "session_ok L (snd (odbc_stream_cancel i s))" "session_ok L (snd (odbc_stream_close i s))"
    "session_ok L (snd (snd (odbc_stream_poll_async ar nl i s)))"
proof -
  show "session_ok L (snd (start_with_worker what pc k sp c p s))" "session_ok L (snd (odbc_stream_start be c p n s))"
    using assms
    by (auto simp: start_with_worker_def odbc_stream_start_def Let_def register_stream_ok split: option.splits prod.splits outcome.splits)
  show "session_ok L (snd (odbc_stream_cancel i s))" "session_ok L (snd (odbc_stream_close i s))"
    "session_ok L (snd (snd (odbc_stream_poll_async ar nl i s)))"
    using assms
    by (auto simp: odbc_stream_cancel_def odbc_stream_close_def odbc_stream_poll_async_def split: option.splits prod.splits)
      (auto simp: session_ok_def tables_ok_def table_simps distinct_delete intro!: table_rules)
qed

lemma stream_fetch_ok:
  assumes "session_ok L s" shows "session_ok L (snd (snd (odbc_stream_fetch nl i n s)))"
  using assms
  by (auto simp: odbc_stream_fetch_def Let_def split: option.splits prod.splits outcome.splits)
    (auto simp: session_ok_def tables_ok_def table_simps intro!: table_rules)

lemma ffi_step_ok: "ffi_step s s' \<Longrightarrow> session_ok L s \<Longrightarrow> session_ok L s'"
proof (induction rule: ffi_step.induct)
  case (init s drv)
  then show ?case by (auto simp: odbc_init_def panicked_def split: prod.splits outcome.splits)
next
  case (xa_recover s drv c cache)
  then show ?case by (auto simp: odbc_xa_recover_count_def split: prod.splits outcome.splits)
qed (simp_all add: odbc_connect_def odbc_connect_with_timeout_def connect_inner_ok disconnect_ok odbc_transaction_begin_def
    odbc_transaction_begin_v2_def begin_ok odbc_transaction_commit_def odbc_transaction_rollback_def end_transaction_ok
    odbc_savepoint_create_def odbc_savepoint_rollback_def odbc_savepoint_release_def savepoint_dispatch_ok xa_start_ok xa_resume_ok
    xa_steps_ok odbc_xa_commit_prepared_def odbc_xa_rollback_prepared_def odbc_xa_commit_one_phase_def odbc_xa_rollback_active_def
    exec_ok statement_steps_ok async_steps_ok async_get_result_ok stream_steps_ok stream_fetch_ok odbc_stream_start_batched_def
    odbc_stream_start_async_def odbc_stream_multi_start_batched_def odbc_stream_multi_start_async_def)

lemma session_ok_fresh: "session_ok L (fresh_state d)"
  by (simp add: session_ok_def fresh_state_def async_manager_new_def tables_ok_def tx_ok_def streams_ok_def pending_ok_def
      requests_ok_def xa_ok_def)

text \<open>
  The calls of two threads are not one after the other: \<open>odbc_transaction_begin_v3\<close> releases the lock
  between its check and the registration, so that two threads that have both passed the check both begin
  and both get an identifier, and the connection ends with two transactions.
\<close>

theorem begin_race:
  assumes "begin_check c il s = (Inr level, s)"
    and "begin_unlocked drv c level d a l s = (Ok t1, s1)" and "begin_unlocked drv c level d a l s1 = (Ok t2, s2)"
    and "begin_insert drv c (Ok t1) s2 = (i, s3)" and "begin_insert drv c (Ok t2) s3 = (j, s4)" and "i \<noteq> 0" and "j \<noteq> 0"
  shows "i \<noteq> j \<and> map_of (gs_transactions s4) i = Some t1 \<and> map_of (gs_transactions s4) j = Some t2 \<and>
     tx_conn_id t1 = c \<and> tx_conn_id t2 = c \<and> \<not> session_ok L s4"
proof -
  have conns: "tx_conn_id t1 = c" "tx_conn_id t2 = c"
    using assms(2,3) by (auto simp: begin_unlocked_def split: prod.splits intro: begin_result_conn)
  have s3: "map_of (gs_transactions s3) i = Some t1"
    using assms(4,6) by (auto simp: begin_insert_def table_simps split: prod.splits if_splits)
  obtain nxt where "alloc_conn_id MAX_ID_ALLOC_ATTEMPTS (map_of (gs_transactions s3)) (gs_next_txn_id s3) = (j, nxt)"
    and s4: "s4 = s3\<lparr>gs_next_txn_id := nxt, gs_transactions := AList.update j t2 (gs_transactions s3)\<rparr>"
    using assms(5,7) by (auto simp: begin_insert_def split: prod.splits if_splits)
  with s3 assms(7) have "i \<noteq> j" using alloc_conn_id_sound by fastforce
  moreover from this s3 s4 have both: "map_of (gs_transactions s4) i = Some t1" "map_of (gs_transactions s4) j = Some t2"
    by (simp_all add: table_simps)
  moreover have "i = j" if "session_ok L s4" using that both conns unfolding session_ok_def tx_ok_def by blast
  ultimately show ?thesis using conns by blast
qed

lemma accepting_begin:
  assumes "lock_connection ''Failed to lock handles'' (gs_world s) 1 = Ok conn"
  shows "\<exists>t conn'. begin_unlocked (accepting_driver n) 1 ReadCommitted 2 0 0 s = (Ok t, s\<lparr>gs_world := put_connection 1 conn' (gs_world s)\<rparr>) \<and>
     cn_poisoned conn' = cn_poisoned conn"
  using assms
  by (simp add: begin_unlocked_def begin_with_lock_timeout_def dialect_from_u32_def detect_engine_and_dialect_def begin_on_connection_def
      apply_isolation_def for_engine_def engine_ids conn_call_def accepting_driver_def apply_access_mode_def access_mode_from_u32_def
      apply_lock_timeout_def from_millis_def is_engine_default_def is_read_only_def)
    (rule exI, rule conjI[OF refl], simp)

lemma begin_insert_first:
  assumes "\<not> gs_poisoned s" and "gs_next_txn_id s \<noteq> 0" and "map_of (gs_transactions s) (gs_next_txn_id s) = None"
  shows "begin_insert drv c (Ok t) s =
     (gs_next_txn_id s, s\<lparr>gs_next_txn_id := gs_next_txn_id s + 1, gs_transactions := AList.update (gs_next_txn_id s) t (gs_transactions s)\<rparr>)"
  using assms alloc_first_free[of "gs_next_txn_id s" "map_of (gs_transactions s)"]
  by (simp add: begin_insert_def MAX_ID_ALLOC_ATTEMPTS_def MAX_CONN_ID_ALLOC_ATTEMPTS_def)

theorem begin_race_witness:
  "\<exists>r1 s1 r2 s2 i s3 j s4. begin_unlocked (accepting_driver []) 1 ReadCommitted 2 0 0 example_session = (r1, s1) \<and>
     begin_unlocked (accepting_driver []) 1 ReadCommitted 2 0 0 s1 = (r2, s2) \<and>
     begin_insert (accepting_driver []) 1 r1 s2 = (i, s3) \<and> begin_insert (accepting_driver []) 1 r2 s3 = (j, s4) \<and>
     i \<noteq> j \<and> map_of (gs_transactions s4) i \<noteq> None \<and> map_of (gs_transactions s4) j \<noteq> None \<and> \<not> session_ok {} s4"
proof -
  let ?drv = "accepting_driver []"
  obtain t1 conn1 where u1: "begin_unlocked ?drv 1 ReadCommitted 2 0 0 example_session =
      (Ok t1, example_session\<lparr>gs_world := put_connection 1 conn1 (gs_world example_session)\<rparr>)" "\<not> cn_poisoned conn1"
    using accepting_begin[of example_session "\<lparr>cn_str = ''DSN=a'', cn_poisoned = False, cn_log = []\<rparr>" "[]"]
    by (auto simp: example_session_def one_connection_def lock_connection_def get_connection_def)
  let ?s1 = "example_session\<lparr>gs_world := put_connection 1 conn1 (gs_world example_session)\<rparr>"
  have "lock_connection ''Failed to lock handles'' (gs_world ?s1) 1 = Ok conn1"
    using u1(2) by (simp add: lock_connection_def get_connection_def put_connection_def example_session_def one_connection_def)
  then obtain t2 conn2 where u2: "begin_unlocked ?drv 1 ReadCommitted 2 0 0 ?s1 = (Ok t2, ?s1\<lparr>gs_world := put_connection 1 conn2 (gs_world ?s1)\<rparr>)"
    using accepting_begin[of ?s1 conn1 "[]"] by blast
  let ?s2 = "?s1\<lparr>gs_world := put_connection 1 conn2 (gs_world ?s1)\<rparr>"
  have free: "gs_transactions ?s2 = []" "gs_next_txn_id ?s2 = 1" "\<not> gs_poisoned ?s2"
    by (simp_all add: example_session_def fresh_state_def)
  let ?s3 = "?s2\<lparr>gs_next_txn_id := 2, gs_transactions := [(1, t1)]\<rparr>"
  have b1: "begin_insert ?drv 1 (Ok t1) ?s2 = (1, ?s3)" using free begin_insert_first[of ?s2 ?drv 1 t1] by simp
  obtain s4 where b2: "begin_insert ?drv 1 (Ok t2) ?s3 = (2, s4)" using free begin_insert_first[of ?s3 ?drv 1 t2] by simp
  have "begin_check 1 1 example_session = (Inr ReadCommitted, example_session)"
    by (simp add: begin_check_def isolation_from_u32_def example_session_def fresh_state_def)
  from begin_race[OF this u1(1) u2 b1 b2] u1(1) u2 b1 b2 show ?thesis by auto
qed

end
