(* ===== verification/Plugin_Sql.thy ===== *)
theory Plugin_Sql
  imports Query Engines Identifier
begin

text \<open>
  The SQL the driver plugins build (\<open>plugins/*.rs\<close>, \<open>plugins/capabilities/*.rs\<close>): for each of the nine
  databases its capabilities and type mapping, the row limit added to queries, single-statement upserts,
  \<open>RETURNING\<close> clauses and the statements that set up a session. The Unicode upper-casing of the standard
  library is the parameter \<open>upper\<close>.
\<close>

section \<open>Text\<close>

text \<open>\<open>str::find\<close>, \<open>str::rfind\<close>: byte positions.\<close>

fun find_sub :: "string \<Rightarrow> string \<Rightarrow> nat option" where
  "find_sub p [] = (if p = [] then Some 0 else None)"
| "find_sub p (c # s) = (if starts_with (c # s) p then Some 0 else map_option Suc (find_sub p s))"

fun rfind_sub :: "string \<Rightarrow> string \<Rightarrow> nat option" where
  "rfind_sub p [] = (if p = [] then Some 0 else None)"
| "rfind_sub p (c # s) =
     (case rfind_sub p s of Some i \<Rightarrow> Some (Suc i) | None \<Rightarrow> if starts_with (c # s) p then Some 0 else None)"

definition insert_str :: "nat \<Rightarrow> string \<Rightarrow> string \<Rightarrow> string" where
  "insert_str pos t s = take pos s @ t @ drop pos s"

definition trim_end_matches :: "char \<Rightarrow> string \<Rightarrow> string" where
  "trim_end_matches c s = rev (dropWhile (\<lambda>x. x = c) (rev s))"

definition to_ascii_upper_char :: "char \<Rightarrow> char" where
  "to_ascii_upper_char c =
     (if 97 \<le> (of_char c :: nat) \<and> (of_char c :: nat) \<le> 122 then char_of ((of_char c :: nat) - 32) else c)"

definition to_ascii_uppercase :: "string \<Rightarrow> string" where
  "to_ascii_uppercase s = map to_ascii_upper_char s"

text \<open>\<open>str::replace\<close> of one character, and a name or value between quotes of a literal.\<close>

definition replace_char :: "char \<Rightarrow> string \<Rightarrow> string \<Rightarrow> string" where
  "replace_char c t s = concat (map (\<lambda>x. if x = c then t else [x]) s)"

definition escape_quotes :: "string \<Rightarrow> string" where
  "escape_quotes s = replace_char (CHR 0x27) [CHR 0x27, CHR 0x27] s"

definition literal :: "string \<Rightarrow> string" where
  "literal s = [CHR 0x27] @ escape_quotes s @ [CHR 0x27]"

section \<open>Shared helpers\<close>

record plugin_capabilities =
  pc_supports_prepared_statements :: bool
  pc_supports_batch_operations :: bool
  pc_supports_streaming :: bool
  pc_supports_array_fetch :: bool
  pc_max_row_array_size :: u32
  pc_driver_name :: string
  pc_driver_version :: string

datatype optimization_rule =
    UsePreparedStatements
  | UseBatchOperations
  | UseArrayFetch u32
  | RewriteQuery string string
  | EnableStreaming

datatype dml_verb = Insert | Update | Delete

record session_options =
  so_application_name :: "string option"
  so_timezone :: "string option"
  so_charset :: "string option"
  so_schema :: "string option"
  so_extra_sql :: "string list"

definition quote_columns :: "string list \<Rightarrow> string result" where
  "quote_columns columns =
     (if columns = [] then Err (ValidationError ''Upsert requires at least one column'')
      else obind (omapM quote_identifier_default columns) (\<lambda>out. Ok (join_with '', '' out)))"

definition effective_update_columns :: "string list \<Rightarrow> string list \<Rightarrow> string list option \<Rightarrow> string list" where
  "effective_update_columns columns conflict_columns update_columns =
     (case update_columns of
        Some explicit \<Rightarrow> explicit
      | None \<Rightarrow> filter (\<lambda>c. c \<notin> set conflict_columns) columns)"

text \<open>\<open>for c in .. { f(c)?; }\<close>\<close>

fun check_all :: "('a \<Rightarrow> unit result) \<Rightarrow> 'a list \<Rightarrow> unit result" where
  "check_all f [] = Ok ()"
| "check_all f (x # xs) = obind (f x) (\<lambda>_. check_all f xs)"

definition validate_upsert_inputs :: "string \<Rightarrow> string list \<Rightarrow> string list \<Rightarrow> string list option \<Rightarrow> unit result" where
  "validate_upsert_inputs table columns conflict_columns update_columns =
     (if is_blank table then Err (ValidationError ''Upsert table must not be empty'')
      else
        obind (check_all validate_identifier (split_on (CHR ''.'') table)) (\<lambda>_.
        if columns = [] then Err (ValidationError ''Upsert requires at least one column'')
        else if conflict_columns = [] then Err (ValidationError ''Upsert requires at least one conflict column'')
        else
          obind (check_all validate_identifier (columns @ conflict_columns)) (\<lambda>_.
          obind (case update_columns of Some update \<Rightarrow> check_all validate_identifier update | None \<Rightarrow> Ok ()) (\<lambda>_.
          check_all (\<lambda>cc.
            if cc \<notin> set columns then
              Err (ValidationError (''Conflict column '' @ debug_str cc @ '' must also appear in `columns`''))
            else Ok ()) conflict_columns))))"

definition placeholder_list :: "nat \<Rightarrow> string" where
  "placeholder_list n = join_with '', '' (replicate n ''?'')"

definition quote_returning_columns :: "string list \<Rightarrow> string result" where
  "quote_returning_columns columns =
     (if columns = [] then Err (ValidationError ''RETURNING requires at least one column'')
      else
        obind (omapM (\<lambda>c. obind (validate_identifier c) (\<lambda>_. quote_identifier_default c)) columns)
          (\<lambda>out. Ok (join_with '', '' out)))"

text \<open>The idiom \<open>.map(|c| Ok(format!(..quoted c..))).collect::<Result<Vec<_>>>()?.join(sep)\<close>.\<close>

definition quoted_join :: "identifier_quoting \<Rightarrow> (string \<Rightarrow> string) \<Rightarrow> string \<Rightarrow> string list \<Rightarrow> string result" where
  "quoted_join style f sep cs =
     obind (omapM (\<lambda>c. obind (quote_identifier c style) (\<lambda>q. Ok (f q))) cs) (\<lambda>out. Ok (join_with sep out))"

text \<open>The assignment lists of the builders.\<close>

definition both_sides :: "string \<Rightarrow> string" where "both_sides q = ''t.'' @ q @ '' = s.'' @ q"

text \<open>The type codes five of the plugins share.\<close>

definition basic_map_type :: "i16 \<Rightarrow> odbc_type" where
  "basic_map_type odbc_type =
     (let t = sint odbc_type in
      if t = 1 then Varchar else if t = 4 then Integer else if t = - 5 then BigInt else if t = 3 then Decimal
      else if t = 9 then Date else if t = 11 then Timestamp else if t = - 2 then Binary else Varchar)"

text \<open>A limit goes before the last semicolon, or to the end of a query without filter and order.\<close>

definition add_limit :: "(string \<Rightarrow> bool) \<Rightarrow> string \<Rightarrow> string \<Rightarrow> string" where
  "add_limit open_ended limit sql =
     (case rfind_sub '';'' sql of
        Some pos \<Rightarrow> insert_str pos limit sql
      | None \<Rightarrow> if open_ended sql then sql @ limit else sql)"

text \<open>The name of a column type as the plugins compare it.\<close>

definition type_key :: "string \<Rightarrow> string" where
  "type_key name = to_ascii_lowercase (str_trim name)"

definition schema_statement :: "identifier_quoting \<Rightarrow> string \<Rightarrow> string option \<Rightarrow> string list" where
  "schema_statement style text schema =
     (case schema of
        Some s \<Rightarrow> (case quote_identifier s style of Ok q \<Rightarrow> [text @ q] | _ \<Rightarrow> [])
      | None \<Rightarrow> [])"

definition literal_statement :: "string \<Rightarrow> string \<Rightarrow> string option \<Rightarrow> string list" where
  "literal_statement before after v = (case v of Some s \<Rightarrow> [before @ literal s @ after] | None \<Rightarrow> [])"

section \<open>SQL Server\<close>

definition quote_cols_brackets :: "string list \<Rightarrow> string result" where
  "quote_cols_brackets columns =
     obind (omapM (\<lambda>c. quote_identifier c Brackets) columns) (\<lambda>out. Ok (join_with '', '' out))"

definition quote_table_brackets :: "string \<Rightarrow> string result" where
  "quote_table_brackets table =
     obind (omapM (\<lambda>seg. obind (validate_identifier seg) (\<lambda>_. quote_identifier seg Brackets)) (split_on (CHR ''.'') table))
       (\<lambda>parts. Ok (join_with ''.'' parts))"

definition sqlserver_capabilities :: plugin_capabilities where
  "sqlserver_capabilities =
     \<lparr>pc_supports_prepared_statements = True, pc_supports_batch_operations = True, pc_supports_streaming = True,
      pc_supports_array_fetch = True, pc_max_row_array_size = 1000, pc_driver_name = ''SQL Server'', pc_driver_version = ''Unknown''\<rparr>"

definition sqlserver_optimize_query :: "string \<Rightarrow> string" where
  "sqlserver_optimize_query sql =
     (if contains_sub sql ''SELECT *'' \<and> \<not> contains_sub sql ''TOP'' then
        (case find_sub ''SELECT *'' sql of
           Some pos \<Rightarrow> take pos sql @ ''SELECT TOP 1000 *'' @ drop (pos + 8) sql
         | None \<Rightarrow> sql)
      else sql)"

definition sqlserver_optimization_rules :: "optimization_rule list" where
  "sqlserver_optimization_rules = [UsePreparedStatements, UseBatchOperations, UseArrayFetch 1000, EnableStreaming]"

definition sqlserver_build_upsert_sql :: "string \<Rightarrow> string list \<Rightarrow> string list \<Rightarrow> string list option \<Rightarrow> string result" where
  "sqlserver_build_upsert_sql table columns conflict_columns update_columns =
     obind (validate_upsert_inputs table columns conflict_columns update_columns) (\<lambda>_.
     obind (quote_table_brackets table) (\<lambda>qtable.
     obind (quote_cols_brackets columns) (\<lambda>qcols.
     obind (quoted_join Brackets (\<lambda>q. ''? AS '' @ q) '', '' columns) (\<lambda>alias_list.
     obind (quoted_join Brackets both_sides '' AND '' conflict_columns) (\<lambda>on_clause.
     let updates = effective_update_columns columns conflict_columns update_columns in
     obind (if updates = [] then Ok [] else quoted_join Brackets both_sides '', '' updates) (\<lambda>set_clause.
     obind (quoted_join Brackets (\<lambda>q. ''s.'' @ q) '', '' columns) (\<lambda>insert_vals.
     let when_matched = (if set_clause = [] then [] else '' WHEN MATCHED THEN UPDATE SET '' @ set_clause) in
     Ok (''MERGE INTO '' @ qtable @ '' AS t USING (SELECT '' @ alias_list @ '') AS s ON '' @ on_clause @ when_matched @
         '' WHEN NOT MATCHED THEN INSERT ('' @ qcols @ '') VALUES ('' @ insert_vals @ '');''))))))))"

text \<open>Where the \<open>OUTPUT\<close> clause goes.\<close>

definition sqlserver_append_returning_clause :: "string \<Rightarrow> dml_verb \<Rightarrow> string list \<Rightarrow> string result" where
  "sqlserver_append_returning_clause sql verb columns =
     (let prefix = (case verb of Insert \<Rightarrow> ''INSERTED'' | Delete \<Rightarrow> ''DELETED'' | Update \<Rightarrow> ''INSERTED'') in
      obind (quoted_join Brackets (\<lambda>q. prefix @ ''.'' @ q) '', '' columns) (\<lambda>cols.
      let trimmed = str_trim_end (trim_end_matches (CHR '';'') sql);
          upper = to_ascii_uppercase trimmed;
          at = (\<lambda>pos. take pos trimmed @ '' OUTPUT '' @ cols @ drop pos trimmed)
      in
      case rfind_sub '' VALUES'' upper of
        Some pos \<Rightarrow> Ok (at pos)
      | None \<Rightarrow>
      (case rfind_sub '' SELECT'' upper of
        Some pos \<Rightarrow> Ok (at pos)
      | None \<Rightarrow>
      (case find_sub '' SET'' upper of
        Some set_pos \<Rightarrow>
          (case find_sub '' WHERE'' (drop set_pos upper) of
             Some where_pos \<Rightarrow> Ok (at (set_pos + where_pos))
           | None \<Rightarrow> Ok (trimmed @ '' OUTPUT '' @ cols))
      | None \<Rightarrow>
          if starts_with upper ''DELETE'' then
            (case find_sub '' WHERE'' upper of
               Some where_pos \<Rightarrow> Ok (at where_pos)
             | None \<Rightarrow> Ok (trimmed @ '' OUTPUT '' @ cols))
          else Ok (trimmed @ '' OUTPUT '' @ cols)))))"

definition sqlserver_map_type_extended :: "i16 \<Rightarrow> string option \<Rightarrow> odbc_type" where
  "sqlserver_map_type_extended sql_type type_name =
     (case type_name of
        Some name \<Rightarrow>
          let lower = type_key name in
          if lower \<in> {''nvarchar'', ''nchar'', ''ntext''} then NVarchar
          else if lower = ''datetimeoffset'' then DatetimeOffset
          else if lower = ''uniqueidentifier'' then Uuid
          else if lower \<in> {''money'', ''smallmoney''} then Money
          else if lower = ''bit'' then Boolean
          else if lower \<in> {''smallint'', ''tinyint''} then SmallInt
          else if lower = ''real'' then Float
          else if lower = ''float'' then Double
          else if lower \<in> {''varbinary'', ''binary'', ''image''} then Binary
          else if lower = ''json'' then Json
          else if lower = ''time'' then Time
          else basic_map_type sql_type
      | None \<Rightarrow> basic_map_type sql_type)"

definition sqlserver_initialization_sql :: "session_options \<Rightarrow> string list" where
  "sqlserver_initialization_sql opts = [''SET ARITHABORT ON'', ''SET CONCAT_NULL_YIELDS_NULL ON''] @ so_extra_sql opts"

section \<open>PostgreSQL\<close>

definition postgres_capabilities :: plugin_capabilities where
  "postgres_capabilities =
     \<lparr>pc_supports_prepared_statements = True, pc_supports_batch_operations = True, pc_supports_streaming = True,
      pc_supports_array_fetch = True, pc_max_row_array_size = 1000, pc_driver_name = ''PostgreSQL'', pc_driver_version = ''Unknown''\<rparr>"

definition postgres_optimize_query :: "string \<Rightarrow> string" where
  "postgres_optimize_query sql =
     (if contains_sub sql ''SELECT'' \<and> \<not> contains_sub sql ''LIMIT'' then
        add_limit (\<lambda>s. \<not> contains_sub s ''WHERE'' \<and> \<not> contains_sub s ''ORDER BY'') '' LIMIT 1000'' sql
      else sql)"

definition postgres_optimization_rules :: "optimization_rule list" where
  "postgres_optimization_rules = [UsePreparedStatements, UseBatchOperations, UseArrayFetch 1000, EnableStreaming]"

definition postgres_build_upsert_sql :: "string \<Rightarrow> string list \<Rightarrow> string list \<Rightarrow> string list option \<Rightarrow> string result" where
  "postgres_build_upsert_sql table columns conflict_columns update_columns =
     obind (validate_upsert_inputs table columns conflict_columns update_columns) (\<lambda>_.
     obind (quote_qualified_default table) (\<lambda>qtable.
     obind (quote_columns columns) (\<lambda>qcols.
     obind (quote_columns conflict_columns) (\<lambda>qconflict.
     let updates = effective_update_columns columns conflict_columns update_columns;
         placeholders = placeholder_list (length columns);
         insert = ''INSERT INTO '' @ qtable @ '' ('' @ qcols @ '') VALUES ('' @ placeholders @ '') ON CONFLICT ('' @ qconflict
     in
     if updates = [] then Ok (insert @ '') DO NOTHING'')
     else
       obind (quoted_join DoubleQuote (\<lambda>q. q @ '' = EXCLUDED.'' @ q) '', '' updates) (\<lambda>set_clause.
       Ok (insert @ '') DO UPDATE SET '' @ set_clause))))))"

definition postgres_append_returning_clause :: "string \<Rightarrow> dml_verb \<Rightarrow> string list \<Rightarrow> string result" where
  "postgres_append_returning_clause sql verb columns =
     obind (quote_returning_columns columns) (\<lambda>proj. Ok (trim_end_matches (CHR '';'') sql @ '' RETURNING '' @ proj))"

definition postgres_map_type_extended :: "i16 \<Rightarrow> string option \<Rightarrow> odbc_type" where
  "postgres_map_type_extended sql_type type_name =
     (case type_name of
        Some name \<Rightarrow>
          let lower = type_key name in
          if lower \<in> {''json'', ''jsonb''} then Json
          else if lower = ''uuid'' then Uuid
          else if lower \<in> {''timestamptz'', ''timestamp with time zone''} then TimestampWithTz
          else if lower \<in> {''bool'', ''boolean''} then Boolean
          else if lower \<in> {''int2'', ''smallint''} then SmallInt
          else if lower \<in> {''float4'', ''real''} then Float
          else if lower \<in> {''float8'', ''double precision''} then Double
          else if lower = ''bytea'' then Binary
          else if lower = ''interval'' then Interval
          else if lower \<in> {''time'', ''timetz''} then Time
          else basic_map_type sql_type
      | None \<Rightarrow> basic_map_type sql_type)"

definition postgres_initialization_sql :: "session_options \<Rightarrow> string list" where
  "postgres_initialization_sql opts =
     literal_statement ''SET application_name = '' [] (so_application_name opts) @
     literal_statement ''SET TIME ZONE '' [] (so_timezone opts) @
     schema_statement DoubleQuote ''SET search_path TO '' (so_schema opts) @ so_extra_sql opts"

section \<open>MySQL\<close>

definition mysql_capabilities :: plugin_capabilities where
  "mysql_capabilities =
     \<lparr>pc_supports_prepared_statements = True, pc_supports_batch_operations = True, pc_supports_streaming = True,
      pc_supports_array_fetch = True, pc_max_row_array_size = 1000, pc_driver_name = ''MySQL'', pc_driver_version = ''Unknown''\<rparr>"

definition mysql_optimize_query :: "string \<Rightarrow> string" where
  "mysql_optimize_query sql =
     (if contains_sub sql ''SELECT'' \<and> \<not> contains_sub sql ''LIMIT'' then
        add_limit (\<lambda>s. \<not> contains_sub s ''WHERE'' \<and> \<not> contains_sub s ''ORDER BY'') '' LIMIT 1000'' sql
      else sql)"

definition mysql_optimization_rules :: "optimization_rule list" where
  "mysql_optimization_rules = [UsePreparedStatements, UseBatchOperations, UseArrayFetch 1000, EnableStreaming]"

definition mysql_build_upsert_sql :: "string \<Rightarrow> string list \<Rightarrow> string list \<Rightarrow> string list option \<Rightarrow> string result" where
  "mysql_build_upsert_sql table columns conflict_columns update_columns =
     obind (validate_upsert_inputs table columns conflict_columns update_columns) (\<lambda>_.
     obind (quote_qualified_default table) (\<lambda>qtable.
     obind (quote_columns columns) (\<lambda>qcols.
     let updates = effective_update_columns columns conflict_columns update_columns;
         placeholders = placeholder_list (length columns)
     in
     if updates = [] then
       Err (ValidationError ''MySQL ON DUPLICATE KEY UPDATE requires at least one column to update'')
     else
       obind (quoted_join Backtick (\<lambda>q. q @ '' = VALUES('' @ q @ '')'') '', '' updates) (\<lambda>set_clause.
       Ok (''INSERT INTO '' @ qtable @ '' ('' @ qcols @ '') VALUES ('' @ placeholders @ '') ON DUPLICATE KEY UPDATE '' @ set_clause)))))"

definition mysql_append_returning_clause :: "string \<Rightarrow> dml_verb \<Rightarrow> string list \<Rightarrow> string result" where
  "mysql_append_returning_clause sql verb columns =
     Err (UnsupportedFeature ''MySQL does not support RETURNING; use SELECT LAST_INSERT_ID() instead'')"

definition mysql_map_type_extended :: "i16 \<Rightarrow> string option \<Rightarrow> odbc_type" where
  "mysql_map_type_extended sql_type type_name =
     (case type_name of
        Some name \<Rightarrow>
          let lower = type_key name in
          if lower = ''json'' then Json
          else if lower \<in> {''tinyint(1)'', ''boolean'', ''bool''} then Boolean
          else if lower \<in> {''smallint'', ''smallint unsigned''} then SmallInt
          else if lower = ''float'' then Float
          else if lower \<in> {''double'', ''double precision'', ''real''} then Double
          else if lower \<in> {''blob'', ''tinyblob'', ''mediumblob'', ''longblob'', ''varbinary''} then Binary
          else if lower = ''time'' then Time
          else basic_map_type sql_type
      | None \<Rightarrow> basic_map_type sql_type)"

definition mysql_initialization_sql :: "session_options \<Rightarrow> string list" where
  "mysql_initialization_sql opts =
     [''SET NAMES '' @ replace_char (CHR 0x27) [] (case so_charset opts of Some c \<Rightarrow> c | None \<Rightarrow> ''utf8mb4'')] @
     literal_statement ''SET time_zone = '' [] (so_timezone opts) @
     schema_statement Backtick ''USE '' (so_schema opts) @ so_extra_sql opts"

section \<open>MariaDB\<close>

definition mariadb_capabilities :: plugin_capabilities where
  "mariadb_capabilities =
     \<lparr>pc_supports_prepared_statements = True, pc_supports_batch_operations = True, pc_supports_streaming = True,
      pc_supports_array_fetch = True, pc_max_row_array_size = 1500, pc_driver_name = ''MariaDB'', pc_driver_version = ''Unknown''\<rparr>"

definition mariadb_optimize_query :: "(string \<Rightarrow> string) \<Rightarrow> string \<Rightarrow> string" where
  "mariadb_optimize_query upper sql =
     (if contains_sub sql ''SELECT'' \<and> \<not> contains_sub (upper sql) '' LIMIT'' then
        add_limit (\<lambda>s. \<not> contains_sub (upper s) '' WHERE'' \<and> \<not> contains_sub (upper s) '' ORDER BY'') '' LIMIT 1000'' sql
      else sql)"

definition mariadb_optimization_rules :: "optimization_rule list" where
  "mariadb_optimization_rules = [UsePreparedStatements, UseBatchOperations, UseArrayFetch 1500, EnableStreaming]"

definition mariadb_build_upsert_sql :: "string \<Rightarrow> string list \<Rightarrow> string list \<Rightarrow> string list option \<Rightarrow> string result" where
  "mariadb_build_upsert_sql table columns conflict_columns update_columns =
     obind (validate_upsert_inputs table columns conflict_columns update_columns) (\<lambda>_.
     obind (quote_qualified_default table) (\<lambda>qtable.
     obind (quote_columns columns) (\<lambda>qcols.
     let updates = effective_update_columns columns conflict_columns update_columns;
         placeholders = placeholder_list (length columns)
     in
     obind (if updates = [] then Ok ''id = id''
            else quoted_join Backtick (\<lambda>q. q @ '' = VALUES('' @ q @ '')'') '', '' updates) (\<lambda>set_clause.
     Ok (''INSERT INTO '' @ qtable @ '' ('' @ qcols @ '') VALUES ('' @ placeholders @ '') ON DUPLICATE KEY UPDATE '' @ set_clause)))))"

definition mariadb_append_returning_clause :: "string \<Rightarrow> dml_verb \<Rightarrow> string list \<Rightarrow> string result" where
  "mariadb_append_returning_clause sql verb columns =
     obind (quote_returning_columns columns) (\<lambda>proj. Ok (trim_end_matches (CHR '';'') sql @ '' RETURNING '' @ proj))"

definition mariadb_map_type_extended :: "i16 \<Rightarrow> string option \<Rightarrow> odbc_type" where
  "mariadb_map_type_extended sql_type type_name =
     (case type_name of
        Some name \<Rightarrow>
          let lower = type_key name in
          if lower = ''json'' then Json
          else if lower \<in> {''tinyint(1)'', ''boolean'', ''bool''} then Boolean
          else if lower = ''uuid'' then Uuid
          else if lower \<in> {''double'', ''double precision'', ''real''} then Double
          else if lower \<in> {''blob'', ''tinyblob'', ''mediumblob'', ''longblob'', ''varbinary''} then Binary
          else from_odbc_sql_type sql_type
      | None \<Rightarrow> from_odbc_sql_type sql_type)"

definition mariadb_initialization_sql :: "session_options \<Rightarrow> string list" where
  "mariadb_initialization_sql opts =
     [''SET NAMES '' @ replace_char (CHR 0x27) [] (case so_charset opts of Some c \<Rightarrow> c | None \<Rightarrow> ''utf8mb4'')] @
     literal_statement ''SET time_zone = '' [] (so_timezone opts) @
     schema_statement Backtick ''USE '' (so_schema opts) @ so_extra_sql opts"

section \<open>Oracle\<close>

definition oracle_capabilities :: plugin_capabilities where
  "oracle_capabilities =
     \<lparr>pc_supports_prepared_statements = True, pc_supports_batch_operations = True, pc_supports_streaming = True,
      pc_supports_array_fetch = True, pc_max_row_array_size = 5000, pc_driver_name = ''Oracle'', pc_driver_version = ''Unknown''\<rparr>"

definition oracle_map_type :: "i16 \<Rightarrow> odbc_type" where
  "oracle_map_type odbc_type =
     (let t = sint odbc_type in
      if t = 1 then Varchar else if t = 2 \<or> t = 4 then Integer else if t = - 5 then BigInt else if t = 3 then Decimal
      else if t = 9 then Date else if t = 11 then Timestamp else if t = - 2 then Binary else Varchar)"

definition oracle_optimize_query :: "string \<Rightarrow> string" where
  "oracle_optimize_query sql =
     (if contains_sub sql ''SELECT'' \<and> \<not> contains_sub sql ''ROWNUM'' \<and> \<not> contains_sub sql ''FETCH'' then
        add_limit (\<lambda>s. \<not> contains_sub s ''WHERE'' \<and> \<not> contains_sub s ''ORDER BY'') '' FETCH FIRST 1000 ROWS ONLY'' sql
      else sql)"

definition oracle_optimization_rules :: "optimization_rule list" where
  "oracle_optimization_rules = [UsePreparedStatements, UseBatchOperations, UseArrayFetch 5000, EnableStreaming]"

definition oracle_build_upsert_sql :: "string \<Rightarrow> string list \<Rightarrow> string list \<Rightarrow> string list option \<Rightarrow> string result" where
  "oracle_build_upsert_sql table columns conflict_columns update_columns =
     obind (validate_upsert_inputs table columns conflict_columns update_columns) (\<lambda>_.
     obind (quote_qualified_default table) (\<lambda>qtable.
     obind (quoted_join DoubleQuote (\<lambda>q. ''? '' @ q) '', '' columns) (\<lambda>source.
     obind (quoted_join DoubleQuote both_sides '' AND '' conflict_columns) (\<lambda>on_clause.
     let updates = effective_update_columns columns conflict_columns update_columns in
     obind (if updates = [] then Ok []
            else obind (quoted_join DoubleQuote both_sides '', '' updates) (\<lambda>set. Ok ('' WHEN MATCHED THEN UPDATE SET '' @ set)))
       (\<lambda>when_matched.
     obind (quoted_join DoubleQuote (\<lambda>q. q) '', '' columns) (\<lambda>insert_cols.
     obind (quoted_join DoubleQuote (\<lambda>q. ''s.'' @ q) '', '' columns) (\<lambda>insert_vals.
     Ok (''MERGE INTO '' @ qtable @ '' t USING (SELECT '' @ source @ '' FROM dual) s ON ('' @ on_clause @ '')'' @ when_matched @
         '' WHEN NOT MATCHED THEN INSERT ('' @ insert_cols @ '') VALUES ('' @ insert_vals @ '')''))))))))"

definition oracle_append_returning_clause :: "string \<Rightarrow> dml_verb \<Rightarrow> string list \<Rightarrow> string result" where
  "oracle_append_returning_clause sql verb columns =
     obind (quote_returning_columns columns) (\<lambda>proj.
     let into_vars = join_with '', '' (map (\<lambda>i. '':ret_'' @ show_nat i) [0..<length columns]) in
     Ok (trim_end_matches (CHR '';'') sql @ '' RETURNING '' @ proj @ '' INTO '' @ into_vars))"

definition oracle_map_type_extended :: "i16 \<Rightarrow> string option \<Rightarrow> odbc_type" where
  "oracle_map_type_extended sql_type type_name =
     (case type_name of
        Some name \<Rightarrow>
          let lower = type_key name in
          if lower \<in> {''timestamp with time zone'', ''timestamp with local time zone''} then TimestampWithTz
          else if lower \<in> {''interval day to second'', ''interval year to month''} then Interval
          else if lower \<in> {''raw'', ''long raw'', ''blob''} then Binary
          else if lower \<in> {''clob'', ''nclob''} then Varchar
          else if lower \<in> {''nvarchar2'', ''nchar''} then NVarchar
          else if lower = ''binary_float'' then Float
          else if lower = ''binary_double'' then Double
          else oracle_map_type sql_type
      | None \<Rightarrow> oracle_map_type sql_type)"

definition oracle_initialization_sql :: "session_options \<Rightarrow> string list" where
  "oracle_initialization_sql opts =
     [''ALTER SESSION SET NLS_DATE_FORMAT='' @ literal ''YYYY-MM-DD HH24:MI:SS'', ''ALTER SESSION SET NLS_TIMESTAMP_FORMAT='' @ literal ''YYYY-MM-DD HH24:MI:SS.FF'',
      ''ALTER SESSION SET NLS_NUMERIC_CHARACTERS='' @ literal ''.,''] @
     literal_statement ''ALTER SESSION SET TIME_ZONE='' [] (so_timezone opts) @
     schema_statement DoubleQuote ''ALTER SESSION SET CURRENT_SCHEMA = '' (so_schema opts) @ so_extra_sql opts"

section \<open>Sybase\<close>

definition sybase_capabilities :: plugin_capabilities where
  "sybase_capabilities =
     \<lparr>pc_supports_prepared_statements = True, pc_supports_batch_operations = True, pc_supports_streaming = True,
      pc_supports_array_fetch = True, pc_max_row_array_size = 500, pc_driver_name = ''Sybase'', pc_driver_version = ''Unknown''\<rparr>"

definition sybase_optimization_rules :: "optimization_rule list" where
  "sybase_optimization_rules = [UsePreparedStatements, UseBatchOperations, UseArrayFetch 500, EnableStreaming]"

definition sybase_build_upsert_sql :: "string \<Rightarrow> string list \<Rightarrow> string list \<Rightarrow> string list option \<Rightarrow> string result" where
  "sybase_build_upsert_sql table columns conflict_columns update_columns =
     Err (UnsupportedFeature
       ''Generic Sybase plugin does not implement UPSERT; use SybaseAsaPlugin (MERGE-capable) when targeting SQL Anywhere'')"

definition sybase_append_returning_clause :: "string \<Rightarrow> dml_verb \<Rightarrow> string list \<Rightarrow> string result" where
  "sybase_append_returning_clause sql verb columns =
     Err (UnsupportedFeature ''Sybase does not support RETURNING; use SELECT @@IDENTITY (ASE) instead'')"

definition sybase_map_type_extended :: "i16 \<Rightarrow> string option \<Rightarrow> odbc_type" where
  "sybase_map_type_extended sql_type type_name =
     (case type_name of
        Some name \<Rightarrow>
          let lower = type_key name in
          if lower \<in> {''money'', ''smallmoney''} then Money
          else if lower = ''bit'' then Boolean
          else if lower \<in> {''tinyint'', ''smallint''} then SmallInt
          else if lower = ''real'' then Float
          else if lower \<in> {''float'', ''double precision''} then Double
          else if lower \<in> {''image'', ''varbinary'', ''binary''} then Binary
          else if lower \<in> {''nvarchar'', ''nchar'', ''univarchar'', ''unichar''} then NVarchar
          else if lower = ''time'' then Time
          else basic_map_type sql_type
      | None \<Rightarrow> basic_map_type sql_type)"

definition sybase_initialization_sql :: "session_options \<Rightarrow> string list" where
  "sybase_initialization_sql opts = [''SET QUOTED_IDENTIFIER ON'', ''SET CHAINED OFF''] @ so_extra_sql opts"

section \<open>SQLite\<close>

definition sqlite_capabilities :: plugin_capabilities where
  "sqlite_capabilities =
     \<lparr>pc_supports_prepared_statements = True, pc_supports_batch_operations = True, pc_supports_streaming = True,
      pc_supports_array_fetch = True, pc_max_row_array_size = 1000, pc_driver_name = ''SQLite'', pc_driver_version = ''Unknown''\<rparr>"

definition sqlite_optimization_rules :: "optimization_rule list" where
  "sqlite_optimization_rules = [UsePreparedStatements, UseBatchOperations, UseArrayFetch 1000]"

definition sqlite_build_upsert_sql :: "string \<Rightarrow> string list \<Rightarrow> string list \<Rightarrow> string list option \<Rightarrow> string result" where
  "sqlite_build_upsert_sql table columns conflict_columns update_columns =
     obind (validate_upsert_inputs table columns conflict_columns update_columns) (\<lambda>_.
     obind (quote_qualified_default table) (\<lambda>qtable.
     obind (quote_columns columns) (\<lambda>qcols.
     obind (quote_columns conflict_columns) (\<lambda>qconflict.
     let updates = effective_update_columns columns conflict_columns update_columns;
         placeholders = placeholder_list (length columns);
         insert = ''INSERT INTO '' @ qtable @ '' ('' @ qcols @ '') VALUES ('' @ placeholders @ '') ON CONFLICT ('' @ qconflict
     in
     if updates = [] then Ok (insert @ '') DO NOTHING'')
     else
       obind (quoted_join DoubleQuote (\<lambda>q. q @ '' = excluded.'' @ q) '', '' updates) (\<lambda>set_clause.
       Ok (insert @ '') DO UPDATE SET '' @ set_clause))))))"

definition sqlite_append_returning_clause :: "string \<Rightarrow> dml_verb \<Rightarrow> string list \<Rightarrow> string result" where
  "sqlite_append_returning_clause sql verb columns =
     obind (quote_returning_columns columns) (\<lambda>proj. Ok (trim_end_matches (CHR '';'') sql @ '' RETURNING '' @ proj))"

definition sqlite_map_type_extended :: "i16 \<Rightarrow> string option \<Rightarrow> odbc_type" where
  "sqlite_map_type_extended sql_type type_name =
     (case type_name of
        Some name \<Rightarrow>
          let lower = type_key name in
          if contains_sub lower ''int'' then Integer
          else if contains_sub lower ''char'' \<or> contains_sub lower ''text'' \<or> contains_sub lower ''clob'' then Varchar
          else if contains_sub lower ''blob'' then Binary
          else if contains_sub lower ''real'' \<or> contains_sub lower ''floa'' \<or> contains_sub lower ''doub'' then Double
          else if lower \<in> {''boolean'', ''bool''} then Boolean
          else Decimal
      | None \<Rightarrow> from_odbc_sql_type sql_type)"

definition sqlite_initialization_sql :: "session_options \<Rightarrow> string list" where
  "sqlite_initialization_sql opts =
     [''PRAGMA foreign_keys = ON'', ''PRAGMA journal_mode = WAL'', ''PRAGMA synchronous = NORMAL''] @ so_extra_sql opts"

section \<open>Db2\<close>

definition db2_capabilities :: plugin_capabilities where
  "db2_capabilities =
     \<lparr>pc_supports_prepared_statements = True, pc_supports_batch_operations = True, pc_supports_streaming = True,
      pc_supports_array_fetch = True, pc_max_row_array_size = 2000, pc_driver_name = ''IBM Db2'', pc_driver_version = ''Unknown''\<rparr>"

definition db2_optimize_query :: "(string \<Rightarrow> string) \<Rightarrow> string \<Rightarrow> string" where
  "db2_optimize_query upper sql =
     (if contains_sub sql ''SELECT'' \<and> \<not> contains_sub (upper sql) ''FETCH FIRST'' then
        add_limit (\<lambda>s. \<not> contains_sub (upper s) '' WHERE'' \<and> \<not> contains_sub (upper s) '' ORDER BY'') '' FETCH FIRST 1000 ROWS ONLY'' sql
      else sql)"

definition db2_optimization_rules :: "optimization_rule list" where
  "db2_optimization_rules = [UsePreparedStatements, UseBatchOperations, UseArrayFetch 2000, EnableStreaming]"

definition db2_build_upsert_sql :: "string \<Rightarrow> string list \<Rightarrow> string list \<Rightarrow> string list option \<Rightarrow> string result" where
  "db2_build_upsert_sql table columns conflict_columns update_columns =
     obind (validate_upsert_inputs table columns conflict_columns update_columns) (\<lambda>_.
     obind (quote_qualified_default table) (\<lambda>qtable.
     let placeholders = placeholder_list (length columns) in
     obind (quoted_join DoubleQuote (\<lambda>q. q) '', '' columns) (\<lambda>alias_cols.
     obind (quoted_join DoubleQuote both_sides '' AND '' conflict_columns) (\<lambda>on_clause.
     let updates = effective_update_columns columns conflict_columns update_columns in
     obind (if updates = [] then Ok []
            else obind (quoted_join DoubleQuote (\<lambda>q. q @ '' = s.'' @ q) '', '' updates)
                   (\<lambda>set. Ok ('' WHEN MATCHED THEN UPDATE SET '' @ set)))
       (\<lambda>when_matched.
     obind (quoted_join DoubleQuote (\<lambda>q. ''s.'' @ q) '', '' columns) (\<lambda>insert_vals.
     Ok (''MERGE INTO '' @ qtable @ '' t USING (VALUES ('' @ placeholders @ '')) AS s('' @ alias_cols @ '') ON '' @ on_clause @ when_matched @
         '' WHEN NOT MATCHED THEN INSERT ('' @ alias_cols @ '') VALUES ('' @ insert_vals @ '')'')))))))"

definition db2_append_returning_clause :: "string \<Rightarrow> dml_verb \<Rightarrow> string list \<Rightarrow> string result" where
  "db2_append_returning_clause sql verb columns =
     (if verb \<noteq> Insert \<and> verb \<noteq> Update then
        Err (UnsupportedFeature ''Db2 FROM FINAL TABLE works for INSERT and UPDATE only'')
      else
        obind (quoted_join DoubleQuote (\<lambda>q. q) '', '' columns) (\<lambda>proj.
        Ok (''SELECT '' @ proj @ '' FROM FINAL TABLE ('' @ trim_end_matches (CHR '';'') sql @ '')'')))"

definition db2_map_type_extended :: "i16 \<Rightarrow> string option \<Rightarrow> odbc_type" where
  "db2_map_type_extended sql_type type_name =
     (case type_name of
        Some name \<Rightarrow>
          let lower = type_key name in
          if lower \<in> {''graphic'', ''vargraphic'', ''long vargraphic''} then NVarchar
          else if lower \<in> {''clob'', ''dbclob''} then Varchar
          else if lower = ''blob'' then Binary
          else if lower = ''xml'' then Json
          else if lower = ''real'' then Float
          else if lower \<in> {''double'', ''double precision''} then Double
          else if lower = ''smallint'' then SmallInt
          else from_odbc_sql_type sql_type
      | None \<Rightarrow> from_odbc_sql_type sql_type)"

definition db2_initialization_sql :: "session_options \<Rightarrow> string list" where
  "db2_initialization_sql opts =
     schema_statement DoubleQuote ''SET CURRENT SCHEMA = '' (so_schema opts) @
     literal_statement ''CALL SYSPROC.WLM_SET_CLIENT_INFO('' '', NULL, NULL, NULL, NULL)'' (so_application_name opts) @
     so_extra_sql opts"

section \<open>Snowflake\<close>

definition snowflake_capabilities :: plugin_capabilities where
  "snowflake_capabilities =
     \<lparr>pc_supports_prepared_statements = True, pc_supports_batch_operations = True, pc_supports_streaming = True,
      pc_supports_array_fetch = True, pc_max_row_array_size = 10000, pc_driver_name = ''Snowflake'', pc_driver_version = ''Unknown''\<rparr>"

definition snowflake_optimize_query :: "(string \<Rightarrow> string) \<Rightarrow> string \<Rightarrow> string" where
  "snowflake_optimize_query upper sql =
     (if contains_sub sql ''SELECT'' \<and> \<not> contains_sub (upper sql) '' LIMIT'' then
        add_limit (\<lambda>s. \<not> contains_sub (upper s) '' WHERE'' \<and> \<not> contains_sub (upper s) '' ORDER BY'') '' LIMIT 1000'' sql
      else sql)"

definition snowflake_optimization_rules :: "optimization_rule list" where
  "snowflake_optimization_rules = [UsePreparedStatements, UseBatchOperations, UseArrayFetch 10000, EnableStreaming]"

definition snowflake_build_upsert_sql :: "string \<Rightarrow> string list \<Rightarrow> string list \<Rightarrow> string list option \<Rightarrow> string result" where
  "snowflake_build_upsert_sql table columns conflict_columns update_columns =
     obind (validate_upsert_inputs table columns conflict_columns update_columns) (\<lambda>_.
     obind (quote_qualified_default table) (\<lambda>qtable.
     obind (quoted_join DoubleQuote (\<lambda>q. ''? AS '' @ q) '', '' columns) (\<lambda>source.
     obind (quoted_join DoubleQuote both_sides '' AND '' conflict_columns) (\<lambda>on_clause.
     let updates = effective_update_columns columns conflict_columns update_columns in
     obind (if updates = [] then Ok []
            else obind (quoted_join DoubleQuote both_sides '', '' updates) (\<lambda>set. Ok ('' WHEN MATCHED THEN UPDATE SET '' @ set)))
       (\<lambda>when_matched.
     obind (quoted_join DoubleQuote (\<lambda>q. q) '', '' columns) (\<lambda>insert_cols.
     obind (quoted_join DoubleQuote (\<lambda>q. ''s.'' @ q) '', '' columns) (\<lambda>insert_vals.
     Ok (''MERGE INTO '' @ qtable @ '' t USING (SELECT '' @ source @ '') s ON '' @ on_clause @ when_matched @
         '' WHEN NOT MATCHED THEN INSERT ('' @ insert_cols @ '') VALUES ('' @ insert_vals @ '')''))))))))"

definition snowflake_append_returning_clause :: "string \<Rightarrow> dml_verb \<Rightarrow> string list \<Rightarrow> string result" where
  "snowflake_append_returning_clause sql verb columns =
     obind (quote_returning_columns columns) (\<lambda>proj. Ok (trim_end_matches (CHR '';'') sql @ '' RETURNING '' @ proj))"

definition snowflake_map_type_extended :: "i16 \<Rightarrow> string option \<Rightarrow> odbc_type" where
  "snowflake_map_type_extended sql_type type_name =
     (case type_name of
        Some name \<Rightarrow>
          let lower = type_key name in
          if lower \<in> {''variant'', ''object'', ''array''} then Json
          else if lower \<in> {''timestamp_tz'', ''timestamp_ltz''} then TimestampWithTz
          else if lower = ''timestamp_ntz'' then Timestamp
          else if lower = ''boolean'' then Boolean
          else if lower \<in> {''binary'', ''varbinary''} then Binary
          else if lower \<in> {''real'', ''float'', ''float4''} then Float
          else if lower \<in> {''double'', ''float8'', ''float64''} then Double
          else if lower \<in> {''geography'', ''geometry''} then Json
          else from_odbc_sql_type sql_type
      | None \<Rightarrow> from_odbc_sql_type sql_type)"

definition snowflake_initialization_sql :: "session_options \<Rightarrow> string list" where
  "snowflake_initialization_sql opts =
     literal_statement ''ALTER SESSION SET TIMEZONE = '' [] (so_timezone opts) @
     schema_statement DoubleQuote ''USE SCHEMA '' (so_schema opts) @
     literal_statement ''ALTER SESSION SET QUERY_TAG = '' [] (so_application_name opts) @ so_extra_sql opts"

end
