(* ===== verification/Plugins.thy ===== *)
theory Plugins
  imports Plugin_Sql Session
begin

text \<open>
  The registry of driver plugins (\<open>plugins/registry.rs\<close>) and the entry points that use it
  (\<open>odbc_detect_driver\<close>, \<open>odbc_build_upsert_sql\<close>, \<open>odbc_append_returning_sql\<close> and
  \<open>odbc_get_session_init_sql\<close> of \<open>ffi/mod.rs\<close>), with what a server reads in the statements they build.
  The Unicode tables behind \<open>str::to_lowercase\<close>, \<open>to_uppercase\<close> and \<open>trim\<close>, and \<open>serde_json\<close>, are arguments.
\<close>

section \<open>The plugins and their trait\<close>

datatype driver_plugin =
    SqlServerPlugin
  | OraclePlugin
  | PostgresPlugin
  | MySqlPlugin
  | MariaDbPlugin
  | SybasePlugin
  | SqlitePlugin
  | Db2Plugin
  | SnowflakePlugin

fun plugin_name :: "driver_plugin \<Rightarrow> string" where
  "plugin_name SqlServerPlugin = ''sqlserver''"
| "plugin_name OraclePlugin = ''oracle''"
| "plugin_name PostgresPlugin = ''postgres''"
| "plugin_name MySqlPlugin = ''mysql''"
| "plugin_name MariaDbPlugin = ''mariadb''"
| "plugin_name SybasePlugin = ''sybase''"
| "plugin_name SqlitePlugin = ''sqlite''"
| "plugin_name Db2Plugin = ''db2''"
| "plugin_name SnowflakePlugin = ''snowflake''"

fun plugin_map_type :: "driver_plugin \<Rightarrow> i16 \<Rightarrow> odbc_type" where
  "plugin_map_type SqlServerPlugin = basic_map_type"
| "plugin_map_type OraclePlugin = oracle_map_type"
| "plugin_map_type PostgresPlugin = basic_map_type"
| "plugin_map_type MySqlPlugin = basic_map_type"
| "plugin_map_type MariaDbPlugin = from_odbc_sql_type"
| "plugin_map_type SybasePlugin = basic_map_type"
| "plugin_map_type SqlitePlugin = from_odbc_sql_type"
| "plugin_map_type Db2Plugin = from_odbc_sql_type"
| "plugin_map_type SnowflakePlugin = from_odbc_sql_type"

fun plugin_optimize_query :: "(string \<Rightarrow> string) \<Rightarrow> driver_plugin \<Rightarrow> string \<Rightarrow> string" where
  "plugin_optimize_query upper SqlServerPlugin sql = sqlserver_optimize_query sql"
| "plugin_optimize_query upper OraclePlugin sql = oracle_optimize_query sql"
| "plugin_optimize_query upper PostgresPlugin sql = postgres_optimize_query sql"
| "plugin_optimize_query upper MySqlPlugin sql = mysql_optimize_query sql"
| "plugin_optimize_query upper MariaDbPlugin sql = mariadb_optimize_query upper sql"
| "plugin_optimize_query upper SybasePlugin sql = sql"
| "plugin_optimize_query upper SqlitePlugin sql = sql"
| "plugin_optimize_query upper Db2Plugin sql = db2_optimize_query upper sql"
| "plugin_optimize_query upper SnowflakePlugin sql = snowflake_optimize_query upper sql"

fun plugin_get_capabilities :: "driver_plugin \<Rightarrow> plugin_capabilities" where
  "plugin_get_capabilities SqlServerPlugin = sqlserver_capabilities"
| "plugin_get_capabilities OraclePlugin = oracle_capabilities"
| "plugin_get_capabilities PostgresPlugin = postgres_capabilities"
| "plugin_get_capabilities MySqlPlugin = mysql_capabilities"
| "plugin_get_capabilities MariaDbPlugin = mariadb_capabilities"
| "plugin_get_capabilities SybasePlugin = sybase_capabilities"
| "plugin_get_capabilities SqlitePlugin = sqlite_capabilities"
| "plugin_get_capabilities Db2Plugin = db2_capabilities"
| "plugin_get_capabilities SnowflakePlugin = snowflake_capabilities"

fun plugin_optimization_rules :: "driver_plugin \<Rightarrow> optimization_rule list" where
  "plugin_optimization_rules SqlServerPlugin = sqlserver_optimization_rules"
| "plugin_optimization_rules OraclePlugin = oracle_optimization_rules"
| "plugin_optimization_rules PostgresPlugin = postgres_optimization_rules"
| "plugin_optimization_rules MySqlPlugin = mysql_optimization_rules"
| "plugin_optimization_rules MariaDbPlugin = mariadb_optimization_rules"
| "plugin_optimization_rules SybasePlugin = sybase_optimization_rules"
| "plugin_optimization_rules SqlitePlugin = sqlite_optimization_rules"
| "plugin_optimization_rules Db2Plugin = db2_optimization_rules"
| "plugin_optimization_rules SnowflakePlugin = snowflake_optimization_rules"

text \<open>The conversion \<open>From<CoreDriverCapabilities>\<close>.\<close>

definition plugin_capabilities_from :: "driver_capabilities \<Rightarrow> plugin_capabilities" where
  "plugin_capabilities_from core =
     \<lparr>pc_supports_prepared_statements = dc_supports_prepared_statements core,
      pc_supports_batch_operations = dc_supports_batch_operations core,
      pc_supports_streaming = dc_supports_streaming core, pc_supports_array_fetch = False,
      pc_max_row_array_size = dc_max_row_array_size core, pc_driver_name = dc_driver_name core,
      pc_driver_version = dc_driver_version core\<rparr>"

section \<open>The registry\<close>

text \<open>The map and whether its mutex is poisoned.\<close>

record plugin_registry =
  pr_plugins :: "(string \<times> driver_plugin) list"
  pr_poisoned :: bool

definition registry_new :: plugin_registry where
  "registry_new = \<lparr>pr_plugins = [], pr_poisoned = False\<rparr>"

definition registry_register :: "driver_plugin \<Rightarrow> plugin_registry \<Rightarrow> unit result \<times> plugin_registry" where
  "registry_register p r =
     (if pr_poisoned r then (Err (InternalError ''Lock poisoned''), r)
      else (Ok (), r\<lparr>pr_plugins := AList.update (plugin_name p) p (pr_plugins r)\<rparr>))"

definition registry_get :: "plugin_registry \<Rightarrow> string \<Rightarrow> driver_plugin result" where
  "registry_get r driver_name =
     (if pr_poisoned r then Err (InternalError ''Lock poisoned'')
      else case map_of (pr_plugins r) driver_name of
        Some p \<Rightarrow> Ok p
      | None \<Rightarrow> Err (InternalError (''Plugin not found: '' @ driver_name)))"

text \<open>A failed registration is only logged.\<close>

definition registry_default :: plugin_registry where
  "registry_default =
     fold (\<lambda>p r. snd (registry_register p r))
       [SqlServerPlugin, OraclePlugin, PostgresPlugin, MySqlPlugin, MariaDbPlugin, SybasePlugin, SqlitePlugin,
        Db2Plugin, SnowflakePlugin] registry_new"

definition plugin_id_for_dbms_name :: "(string \<Rightarrow> string) \<Rightarrow> (string \<Rightarrow> string) \<Rightarrow> string \<Rightarrow> string option" where
  "plugin_id_for_dbms_name trim lower dbms_name =
     (let engine = dc_engine (from_driver_name trim lower dbms_name) in
      if engine = ENGINE_SQLSERVER then Some ''sqlserver''
      else if engine = ENGINE_POSTGRES then Some ''postgres''
      else if engine = ENGINE_MYSQL then Some ''mysql''
      else if engine = ENGINE_MARIADB then Some ''mariadb''
      else if engine = ENGINE_ORACLE then Some ''oracle''
      else if engine = ENGINE_SYBASE_ASE \<or> engine = ENGINE_SYBASE_ASA then Some ''sybase''
      else if engine = ENGINE_SQLITE then Some ''sqlite''
      else if engine = ENGINE_DB2 then Some ''db2''
      else if engine = ENGINE_SNOWFLAKE then Some ''snowflake''
      else None)"

definition detect_driver :: "(string \<Rightarrow> string) \<Rightarrow> (string \<Rightarrow> string) \<Rightarrow> string \<Rightarrow> string option" where
  "detect_driver trim lower connection_string =
     (let caps = detect_from_connection_string trim lower connection_string in
      if dc_engine caps = ENGINE_UNKNOWN then None
      else case plugin_id_for_dbms_name trim lower (dc_driver_name caps) of
        Some i \<Rightarrow> Some i
      | None \<Rightarrow> Some (dc_engine caps))"

definition get_for_connection ::
  "(string \<Rightarrow> string) \<Rightarrow> (string \<Rightarrow> string) \<Rightarrow> plugin_registry \<Rightarrow> string \<Rightarrow> driver_plugin option"
where
  "get_for_connection trim lower r connection_string =
     (case detect_driver trim lower connection_string of
        None \<Rightarrow> None
      | Some driver_name \<Rightarrow> (case registry_get r driver_name of Ok p \<Rightarrow> Some p | _ \<Rightarrow> None))"

definition is_supported :: "(string \<Rightarrow> string) \<Rightarrow> (string \<Rightarrow> string) \<Rightarrow> plugin_registry \<Rightarrow> string \<Rightarrow> bool" where
  "is_supported trim lower r connection_string =
     (case detect_driver trim lower connection_string of
        None \<Rightarrow> False
      | Some name \<Rightarrow> (case registry_get r name of Ok _ \<Rightarrow> True | _ \<Rightarrow> False))"

definition get_for_dbms_name ::
  "(string \<Rightarrow> string) \<Rightarrow> (string \<Rightarrow> string) \<Rightarrow> plugin_registry \<Rightarrow> string \<Rightarrow> driver_plugin option"
where
  "get_for_dbms_name trim lower r dbms_name =
     (case plugin_id_for_dbms_name trim lower dbms_name of
        None \<Rightarrow> None
      | Some i \<Rightarrow> (case registry_get r i of Ok p \<Rightarrow> Some p | _ \<Rightarrow> None))"

text \<open>\<open>dbms_name\<close> is the answer of \<open>SQLGetInfo\<close>.\<close>

definition get_for_live_connection ::
  "(string \<Rightarrow> string) \<Rightarrow> (string \<Rightarrow> string) \<Rightarrow> plugin_registry \<Rightarrow> string result \<Rightarrow> driver_plugin option"
where
  "get_for_live_connection trim lower r dbms_name =
     (case dbms_name of Ok name \<Rightarrow> get_for_dbms_name trim lower r name | _ \<Rightarrow> None)"

definition dispatch_upsert ::
  "string \<Rightarrow> string \<Rightarrow> string list \<Rightarrow> string list \<Rightarrow> string list option \<Rightarrow> string result"
where
  "dispatch_upsert plugin_id table columns conflict_columns update_columns =
     (if plugin_id = ''sqlserver'' then sqlserver_build_upsert_sql table columns conflict_columns update_columns
      else if plugin_id = ''postgres'' then postgres_build_upsert_sql table columns conflict_columns update_columns
      else if plugin_id = ''mysql'' then mysql_build_upsert_sql table columns conflict_columns update_columns
      else if plugin_id = ''mariadb'' then mariadb_build_upsert_sql table columns conflict_columns update_columns
      else if plugin_id = ''oracle'' then oracle_build_upsert_sql table columns conflict_columns update_columns
      else if plugin_id = ''sybase'' then sybase_build_upsert_sql table columns conflict_columns update_columns
      else if plugin_id = ''sqlite'' then sqlite_build_upsert_sql table columns conflict_columns update_columns
      else if plugin_id = ''db2'' then db2_build_upsert_sql table columns conflict_columns update_columns
      else if plugin_id = ''snowflake'' then snowflake_build_upsert_sql table columns conflict_columns update_columns
      else Err (UnsupportedFeature (''No UPSERT support for plugin '' @ debug_str plugin_id)))"

definition build_upsert_sql ::
  "(string \<Rightarrow> string) \<Rightarrow> (string \<Rightarrow> string) \<Rightarrow> string \<Rightarrow> string \<Rightarrow> string list \<Rightarrow> string list \<Rightarrow> string list option \<Rightarrow>
   string result option"
where
  "build_upsert_sql trim lower connection_string table columns conflict_columns update_columns =
     (case detect_driver trim lower connection_string of
        None \<Rightarrow> None
      | Some driver \<Rightarrow> Some (dispatch_upsert driver table columns conflict_columns update_columns))"

definition dispatch_returning :: "string \<Rightarrow> string \<Rightarrow> dml_verb \<Rightarrow> string list \<Rightarrow> string result" where
  "dispatch_returning plugin_id sql verb columns =
     (if plugin_id = ''sqlserver'' then sqlserver_append_returning_clause sql verb columns
      else if plugin_id = ''postgres'' then postgres_append_returning_clause sql verb columns
      else if plugin_id = ''mysql'' then mysql_append_returning_clause sql verb columns
      else if plugin_id = ''mariadb'' then mariadb_append_returning_clause sql verb columns
      else if plugin_id = ''oracle'' then oracle_append_returning_clause sql verb columns
      else if plugin_id = ''sybase'' then sybase_append_returning_clause sql verb columns
      else if plugin_id = ''sqlite'' then sqlite_append_returning_clause sql verb columns
      else if plugin_id = ''db2'' then db2_append_returning_clause sql verb columns
      else if plugin_id = ''snowflake'' then snowflake_append_returning_clause sql verb columns
      else Err (UnsupportedFeature (''No RETURNING support for plugin '' @ debug_str plugin_id)))"

definition append_returning_sql ::
  "(string \<Rightarrow> string) \<Rightarrow> (string \<Rightarrow> string) \<Rightarrow> string \<Rightarrow> string \<Rightarrow> dml_verb \<Rightarrow> string list \<Rightarrow> string result option"
where
  "append_returning_sql trim lower connection_string sql verb columns =
     (case detect_driver trim lower connection_string of
        None \<Rightarrow> None
      | Some driver \<Rightarrow> Some (dispatch_returning driver sql verb columns))"

definition dispatch_session_init :: "string \<Rightarrow> session_options \<Rightarrow> string list" where
  "dispatch_session_init driver opts =
     (if driver = ''sqlserver'' then sqlserver_initialization_sql opts
      else if driver = ''postgres'' then postgres_initialization_sql opts
      else if driver = ''mysql'' then mysql_initialization_sql opts
      else if driver = ''mariadb'' then mariadb_initialization_sql opts
      else if driver = ''oracle'' then oracle_initialization_sql opts
      else if driver = ''sybase'' then sybase_initialization_sql opts
      else if driver = ''sqlite'' then sqlite_initialization_sql opts
      else if driver = ''db2'' then db2_initialization_sql opts
      else if driver = ''snowflake'' then snowflake_initialization_sql opts
      else [])"

definition session_init_sql ::
  "(string \<Rightarrow> string) \<Rightarrow> (string \<Rightarrow> string) \<Rightarrow> string \<Rightarrow> session_options \<Rightarrow> string list option"
where
  "session_init_sql trim lower connection_string opts =
     (case detect_driver trim lower connection_string of
        None \<Rightarrow> None
      | Some driver \<Rightarrow> Some (dispatch_session_init driver opts))"

text \<open>\<open>ExecutionEngine::set_connection_string\<close>: the detected plugin becomes the engine's.\<close>

definition as_plugin :: "(string \<Rightarrow> string) \<Rightarrow> driver_plugin \<Rightarrow> plugin" where
  "as_plugin upper p =
     \<lparr>pl_name = plugin_name p, pl_optimize_query = plugin_optimize_query upper p, pl_map_type = plugin_map_type p\<rparr>"

definition set_connection_string ::
  "(string \<Rightarrow> string) \<Rightarrow> (string \<Rightarrow> string) \<Rightarrow> (string \<Rightarrow> string) \<Rightarrow> plugin_registry option \<Rightarrow> string \<Rightarrow>
   execution_engine \<Rightarrow> execution_engine"
where
  "set_connection_string trim lower upper registry connection_string eng =
     (case Option.bind registry (\<lambda>r. get_for_connection trim lower r connection_string) of
        Some p \<Rightarrow> eng\<lparr>active_plugin := Some (as_plugin upper p)\<rparr>
      | None \<Rightarrow> eng)"

section \<open>The entry points\<close>

text \<open>
  \<open>out_ok\<close>: no output pointer is null and the length is not 0. The answer is the return code and what was
  written: \<open>Some []\<close> where \<open>out_written\<close> is set to 0, \<open>None\<close> where nothing is written.
\<close>

definition write_out :: "u32 \<Rightarrow> string \<Rightarrow> int \<times> bytes option" where
  "write_out buf_len text =
     (let bs = as_bytes text in if length bs > unat buf_len then (- 2, Some []) else (0, Some bs))"

definition odbc_detect_driver ::
  "(string \<Rightarrow> string) \<Rightarrow> (string \<Rightarrow> string) \<Rightarrow> bytes option \<Rightarrow> bool \<Rightarrow> u32 \<Rightarrow> int \<times> bytes option"
where
  "odbc_detect_driver trim lower conn_str out_ok buffer_len =
     (if conn_str = None \<or> \<not> out_ok \<or> buffer_len = 0 then (0, None)
      else case Option.bind conn_str c_str of
        None \<Rightarrow> (0, None)
      | Some s \<Rightarrow>
          let name = (case detect_driver trim lower s of Some n \<Rightarrow> n | None \<Rightarrow> ''unknown'');
              name_bytes = as_bytes name;
              copy_len = min (length name_bytes + 1) (unat buffer_len)
          in (if name = ''unknown'' then 0 else 1, Some (take (copy_len - 1) name_bytes @ [0])))"

definition odbc_build_upsert_sql ::
  "(string \<Rightarrow> string) \<Rightarrow> (string \<Rightarrow> string) \<Rightarrow> (string \<Rightarrow> (string list \<times> string list \<times> string list option) option) \<Rightarrow>
   bytes option \<Rightarrow> bytes option \<Rightarrow> bytes option \<Rightarrow> bool \<Rightarrow> u32 \<Rightarrow> int \<times> bytes option"
where
  "odbc_build_upsert_sql trim lower from_json conn_str table payload_json out_ok buf_len =
     (if conn_str = None \<or> table = None \<or> payload_json = None \<or> \<not> out_ok \<or> buf_len = 0 then (- 1, Some [])
      else case (Option.bind conn_str c_str, Option.bind table c_str, Option.bind (Option.bind payload_json c_str) from_json) of
        (Some conn, Some t, Some (columns, conflict, update)) \<Rightarrow>
          (case build_upsert_sql trim lower conn t columns conflict update of
             Some (Ok sql) \<Rightarrow> write_out buf_len sql
           | Some Panic \<Rightarrow> (FFI_PANIC, None)
           | _ \<Rightarrow> (- 3, None))
      | _ \<Rightarrow> (- 1, None))"

definition verb_of_code :: "int \<Rightarrow> dml_verb option" where
  "verb_of_code v = (if v = 0 then Some Insert else if v = 1 then Some Update else if v = 2 then Some Delete else None)"

definition columns_of_csv :: "string \<Rightarrow> string list" where
  "columns_of_csv s = filter (\<lambda>c. c \<noteq> []) (map str_trim (split_on (CHR '','') s))"

definition odbc_append_returning_sql ::
  "(string \<Rightarrow> string) \<Rightarrow> (string \<Rightarrow> string) \<Rightarrow> bytes option \<Rightarrow> bytes option \<Rightarrow> int \<Rightarrow> bytes option \<Rightarrow> bool \<Rightarrow> u32 \<Rightarrow>
   int \<times> bytes option"
where
  "odbc_append_returning_sql trim lower conn_str sql verb columns_csv out_ok buf_len =
     (if conn_str = None \<or> sql = None \<or> columns_csv = None \<or> \<not> out_ok \<or> buf_len = 0 then (- 1, Some [])
      else case (Option.bind conn_str c_str, Option.bind sql c_str, Option.bind columns_csv c_str, verb_of_code verb) of
        (Some conn, Some stmt, Some cols, Some v) \<Rightarrow>
          (case append_returning_sql trim lower conn stmt v (columns_of_csv cols) of
             Some (Ok out) \<Rightarrow> write_out buf_len out
           | Some Panic \<Rightarrow> (FFI_PANIC, None)
           | _ \<Rightarrow> (- 3, None))
      | _ \<Rightarrow> (- 1, None))"

definition default_session_options :: session_options where
  "default_session_options =
     \<lparr>so_application_name = None, so_timezone = None, so_charset = None, so_schema = None, so_extra_sql = []\<rparr>"

definition odbc_get_session_init_sql ::
  "(string \<Rightarrow> string) \<Rightarrow> (string \<Rightarrow> string) \<Rightarrow> (string \<Rightarrow> session_options option) \<Rightarrow> (string list \<Rightarrow> string) \<Rightarrow>
   bytes option \<Rightarrow> bytes option \<Rightarrow> bool \<Rightarrow> u32 \<Rightarrow> int \<times> bytes option"
where
  "odbc_get_session_init_sql trim lower from_json to_json conn_str options_json out_ok buf_len =
     (if conn_str = None \<or> \<not> out_ok \<or> buf_len = 0 then (- 1, Some [])
      else case Option.bind conn_str c_str of
        None \<Rightarrow> (- 1, None)
      | Some conn \<Rightarrow>
          (case (case options_json of
                   None \<Rightarrow> Some default_session_options
                 | Some bs \<Rightarrow>
                     (case c_str bs of
                        None \<Rightarrow> None
                      | Some s \<Rightarrow> if is_blank s then Some default_session_options else from_json s)) of
             None \<Rightarrow> (- 1, None)
           | Some opts \<Rightarrow>
               write_out buf_len
                 (to_json (case session_init_sql trim lower conn opts of Some stmts \<Rightarrow> stmts | None \<Rightarrow> []))))"

end
