(* ===== verification/Plugin_Laws.thy ===== *)
theory Plugin_Laws
  imports Plugins
begin

text \<open>
  What the statements of the plugins mean to a server: a tokenizer of SQL text that knows how each database quotes
  identifiers and string literals in its default settings but not this program, and the properties of the upsert,
  \<open>RETURNING\<close> and session statements stated over its reading.
\<close>

declare wrap.simps [simp del]

section \<open>A tokenizer\<close>

datatype sql_token = Sym char | Name identifier_quoting string | Lit string

text \<open>
  The quoting rules of the servers, by plugin name. Double quotes delimit a name, except on MySQL and MariaDB, where
  they delimit a string literal (unless \<open>ANSI_QUOTES\<close> is set); brackets are for SQL Server, Sybase and SQLite,
  backticks for MySQL, MariaDB and SQLite. In a literal a backslash is an escape on MySQL, MariaDB and Snowflake.
\<close>

fun quotes_names :: "string \<Rightarrow> identifier_quoting \<Rightarrow> bool" where
  "quotes_names pid DoubleQuote = (pid \<notin> {''mysql'', ''mariadb''})"
| "quotes_names pid Brackets = (pid \<in> {''sqlserver'', ''sybase'', ''sqlite''})"
| "quotes_names pid Backtick = (pid \<in> {''mysql'', ''mariadb'', ''sqlite''})"

definition backslash_escapes :: "string \<Rightarrow> bool" where
  "backslash_escapes pid \<longleftrightarrow> pid \<in> {''mysql'', ''mariadb'', ''snowflake''}"

definition quote_style :: "string \<Rightarrow> char \<Rightarrow> identifier_quoting option" where
  "quote_style pid c =
     (if c = CHR 0x22 \<and> quotes_names pid DoubleQuote then Some DoubleQuote
      else if c = CHR ''['' \<and> quotes_names pid Brackets then Some Brackets
      else if c = CHR 0x60 \<and> quotes_names pid Backtick then Some Backtick else None)"

definition opens_literal :: "string \<Rightarrow> char \<Rightarrow> bool" where
  "opens_literal pid c \<longleftrightarrow> c = CHR 0x27 \<or> c = CHR 0x22 \<and> \<not> quotes_names pid DoubleQuote"

text \<open>The rest of a literal with backslash escapes: its source text up to the closing quote, and what follows.\<close>

fun scan_escaped :: "char \<Rightarrow> string \<Rightarrow> (string \<times> string) option" where
  "scan_escaped q [] = None"
| "scan_escaped q [c] = (if c = q then Some ([], []) else None)"
| "scan_escaped q (c # d # s) =
     (if c = q then
        (if d = q then map_option (\<lambda>(n, r). (q # n, r)) (scan_escaped q s) else Some ([], d # s))
      else if c = CHR 0x5C then map_option (\<lambda>(n, r). (c # d # n, r)) (scan_escaped q s)
      else map_option (\<lambda>(n, r). (c # n, r)) (scan_escaped q (d # s)))"

definition scan_literal_text :: "string \<Rightarrow> char \<Rightarrow> string \<Rightarrow> (string \<times> string) option" where
  "scan_literal_text pid q s = (if backslash_escapes pid then scan_escaped q s else scan_quoted q s)"

lemma scan_quoted_shorter: "scan_quoted q s = Some (n, r) \<Longrightarrow> length r < length s"
  by (induction q s arbitrary: n r rule: scan_quoted.induct) (auto split: if_splits)

lemma scan_escaped_shorter: "scan_escaped q s = Some (n, r) \<Longrightarrow> length r < length s"
  by (induction q s arbitrary: n r rule: scan_escaped.induct) (auto split: if_splits)

lemma scan_literal_text_shorter: "scan_literal_text pid q s = Some (n, r) \<Longrightarrow> length r < length s"
  by (auto simp: scan_literal_text_def dest: scan_quoted_shorter scan_escaped_shorter split: if_splits)

lemma scan_escaped_plain:
  "q \<notin> set n \<Longrightarrow> CHR 0x5C \<notin> set n \<Longrightarrow> (rest = [] \<or> hd rest \<noteq> q) \<Longrightarrow> scan_escaped q (n @ q # rest) = Some (n, rest)"
proof (induction n)
  case Nil
  then show ?case by (cases rest) auto
next
  case (Cons c n)
  then show ?case by (cases "n @ q # rest") auto
qed

function lex_sql :: "string \<Rightarrow> string \<Rightarrow> sql_token list option" where
  "lex_sql pid [] = Some []"
| "lex_sql pid (c # s) =
     (case quote_style pid c of
        Some st \<Rightarrow>
          (case scan_quoted (close_quote st) s of
             Some (n, r) \<Rightarrow> map_option (\<lambda>ts. Name st n # ts) (lex_sql pid r)
           | None \<Rightarrow> None)
      | None \<Rightarrow>
          if opens_literal pid c then
            (case scan_literal_text pid c s of
               Some (v, r) \<Rightarrow> map_option (\<lambda>ts. Lit v # ts) (lex_sql pid r)
             | None \<Rightarrow> None)
          else map_option (\<lambda>ts. Sym c # ts) (lex_sql pid s))"
  by pat_completeness auto
termination
  by (relation "measure (\<lambda>(pid, s). length s)") (auto dest: scan_quoted_shorter scan_literal_text_shorter)

fun render_token :: "sql_token \<Rightarrow> string" where
  "render_token (Sym c) = [c]"
| "render_token (Name st n) = wrap st n"
| "render_token (Lit v) = literal v"

definition render :: "sql_token list \<Rightarrow> string" where
  "render ts = concat (map render_token ts)"

definition syms :: "string \<Rightarrow> sql_token list" where
  "syms s = map Sym s"

fun tjoin :: "string \<Rightarrow> sql_token list list \<Rightarrow> sql_token list" where
  "tjoin sep [] = []"
| "tjoin sep [p] = p"
| "tjoin sep (p # q # ps) = p @ syms sep @ tjoin sep (q # ps)"

text \<open>
  Token lists that a tokenizer reads back: every symbol is outside the quotes, every name is valid, and two names
  are never next to each other. The first argument and the result say whether the last token was a name.
\<close>

definition plain :: "char \<Rightarrow> bool" where
  "plain c \<longleftrightarrow> c \<notin> {CHR 0x22, CHR ''['', CHR '']'', CHR 0x60, CHR 0x27}"

fun readable :: "bool \<Rightarrow> sql_token list \<Rightarrow> bool option" where
  "readable b [] = Some b"
| "readable b (Sym c # ts) = (if plain c then readable False ts else None)"
| "readable b (Name st n # ts) = (if b \<or> \<not> valid_identifier n then None else readable True ts)"
| "readable b (Lit v # ts) = None"

lemma render_simps [simp]:
  "render [] = []" "render (t # ts) = render_token t @ render ts" "render (xs @ ys) = render xs @ render ys"
  "render (syms s) = s"
  by (simp_all add: render_def syms_def comp_def)

lemma render_tjoin: "render (tjoin sep (map g cs)) = join_with sep (map (\<lambda>c. render (g c)) cs)"
  by (induction cs rule: induct_list012) simp_all

lemma readable_append: "readable b (xs @ ys) = Option.bind (readable b xs) (\<lambda>b'. readable b' ys)"
  by (induction b xs rule: readable.induct) auto

lemma readable_syms: "readable b (syms s) = (if list_all plain s then Some (b \<and> s = []) else None)"
  by (induction s arbitrary: b) (auto simp: syms_def)

lemma readable_tjoin:
  assumes "cs \<noteq> []" "list_all plain sep" "sep \<noteq> []" "\<And>c. c \<in> set cs \<Longrightarrow> readable False (g c) = Some b"
  shows "readable False (tjoin sep (map g cs)) = Some b"
  using assms(1,4)
proof (induction cs rule: induct_list012)
  case (3 c d cs)
  then show ?case using assms(2,3) by (simp add: readable_append readable_syms)
qed simp_all

lemma plain_styles: "plain c \<Longrightarrow> quote_style pid c = None \<and> \<not> opens_literal pid c \<and> c \<noteq> close_quote st"
  by (cases st) (auto simp: plain_def quote_style_def opens_literal_def)

lemma quote_style_open [simp]: "quotes_names pid st \<Longrightarrow> quote_style pid (open_quote st) = Some st"
  by (cases st) (auto simp: quote_style_def)

text \<open>How a server reads a token: a name in double quotes is a literal where double quotes do not quote names.\<close>

fun seen :: "string \<Rightarrow> sql_token \<Rightarrow> sql_token" where
  "seen pid (Name st n) = (if quotes_names pid st then Name st n else Lit n)"
| "seen pid (Sym c) = Sym c"
| "seen pid (Lit v) = Lit v"

fun style_known :: "string \<Rightarrow> sql_token \<Rightarrow> bool" where
  "style_known pid (Name st n) = (quotes_names pid st \<or> st = DoubleQuote)"
| "style_known pid _ = True"

lemma valid_identifier_no_backslash: "valid_identifier n \<Longrightarrow> CHR 0x5C \<notin> set n"
proof
  assume v: "valid_identifier n" and b: "CHR 0x5C \<in> set n"
  have "\<not> ident_start (CHR 0x5C)" "\<not> ident_char (CHR 0x5C)"
    by (simp_all add: ident_start_def ident_char_def is_ascii_alphanumeric_def is_ascii_alphabetic_def byte_of_def)
  with v b show False by (cases n) (auto simp: valid_identifier_def list_all_iff)
qed

lemma lex_render:
  "readable b ts = Some b' \<Longrightarrow> list_all (style_known pid) ts \<Longrightarrow>
   lex_sql pid (render ts) = Some (map (seen pid) ts) \<and> (b \<longrightarrow> render ts = [] \<or> (\<forall>st. hd (render ts) \<noteq> close_quote st))"
proof (induction b ts rule: readable.induct)
  case (2 b c ts)
  then show ?case using plain_styles[of c pid] by (auto split: if_splits)
next
  case (3 b st n ts)
  then have v: "valid_identifier n" and nb: "\<not> b" and r: "readable True ts = Some b'"
    by (auto split: if_splits)
  from "3.IH" v nb r "3.prems"(2) have ih: "lex_sql pid (render ts) = Some (map (seen pid) ts)"
    "render ts = [] \<or> hd (render ts) \<noteq> close_quote st" by auto
  have q: "scan_quoted (close_quote st) (n @ close_quote st # render ts) = Some (n, render ts)"
    by (rule scan_quoted_plain[OF valid_identifier_no_close[OF v] ih(2)])
  have e: "scan_escaped (close_quote st) (n @ close_quote st # render ts) = Some (n, render ts)"
    by (rule scan_escaped_plain[OF valid_identifier_no_close[OF v] valid_identifier_no_backslash[OF v] ih(2)])
  show ?case
  proof (cases "quotes_names pid st")
    case True
    with ih(1) nb q show ?thesis by (simp add: wrap_quotes)
  next
    case False
    with "3.prems"(2) have "st = DoubleQuote" by simp
    with False ih(1) nb q e show ?thesis
      by (simp add: wrap_quotes quote_style_def opens_literal_def scan_literal_text_def)
  qed
qed simp_all

lemma readable_no_lit: "readable b ts = Some b' \<Longrightarrow> Lit v \<notin> set ts"
  by (induction b ts rule: readable.induct) (auto split: if_splits)

section \<open>The helpers of the builders\<close>

lemma check_all_Ok: "check_all f xs = Ok u \<longleftrightarrow> list_all (\<lambda>x. f x = Ok ()) xs"
  by (induction xs) auto

lemma check_all_not_Panic: "(\<And>x. x \<in> set xs \<Longrightarrow> f x \<noteq> Panic) \<Longrightarrow> check_all f xs \<noteq> Panic"
  by (induction xs) auto

lemma quoted_join_Ok:
  "quoted_join st f sep cs = Ok q \<longleftrightarrow>
     list_all valid_identifier cs \<and> q = join_with sep (map (\<lambda>c. f (wrap st c)) cs)"
proof -
  have "omapM (\<lambda>c. obind (quote_identifier c st) (\<lambda>q. Ok (f q))) cs = Ok out \<longleftrightarrow>
      list_all valid_identifier cs \<and> out = map (\<lambda>c. f (wrap st c)) cs" for out
    by (induction cs arbitrary: out) auto
  then show ?thesis by (auto simp: quoted_join_def)
qed

lemma quoted_join_not_Panic [simp]: "quoted_join st f sep cs \<noteq> Panic"
  unfolding quoted_join_def by (intro not_PanicI omapM_not_Panic) simp_all

section \<open>The upsert statements\<close>

text \<open>The statement each plugin means, as a server should read it.\<close>

definition names :: "identifier_quoting \<Rightarrow> string list \<Rightarrow> sql_token list" where
  "names st cs = tjoin '', '' (map (\<lambda>c. [Name st c]) cs)"

definition path :: "identifier_quoting \<Rightarrow> string list \<Rightarrow> sql_token list" where
  "path st segs = tjoin ''.'' (map (\<lambda>c. [Name st c]) segs)"

definition each :: "string \<Rightarrow> identifier_quoting \<Rightarrow> string \<Rightarrow> string list \<Rightarrow> sql_token list" where
  "each sep st before cs = tjoin sep (map (\<lambda>c. syms before @ [Name st c]) cs)"

definition assignments :: "string \<Rightarrow> identifier_quoting \<Rightarrow> string \<Rightarrow> string \<Rightarrow> string \<Rightarrow> string list \<Rightarrow> sql_token list" where
  "assignments sep st before between after cs =
     tjoin sep (map (\<lambda>c. syms before @ [Name st c] @ syms between @ [Name st c] @ syms after) cs)"

definition marks :: "string list \<Rightarrow> sql_token list" where
  "marks cs = tjoin '', '' (map (\<lambda>c. syms ''?'') cs)"

definition on_conflict :: "string \<Rightarrow> string list \<Rightarrow> string list \<Rightarrow> string list \<Rightarrow> string list \<Rightarrow> sql_token list" where
  "on_conflict excluded segs columns conflict updates =
     syms ''INSERT INTO '' @ path DoubleQuote segs @ syms '' ('' @ names DoubleQuote columns @ syms '') VALUES ('' @
     marks columns @ syms '') ON CONFLICT ('' @ names DoubleQuote conflict @
     (if updates = [] then syms '') DO NOTHING''
      else syms '') DO UPDATE SET '' @ assignments '', '' DoubleQuote [] excluded [] updates)"

definition on_duplicate_key :: "string list \<Rightarrow> string list \<Rightarrow> string list \<Rightarrow> sql_token list" where
  "on_duplicate_key segs columns updates =
     syms ''INSERT INTO '' @ path DoubleQuote segs @ syms '' ('' @ names DoubleQuote columns @ syms '') VALUES ('' @
     marks columns @ syms '') ON DUPLICATE KEY UPDATE '' @
     (if updates = [] then syms ''id = id'' else assignments '', '' Backtick [] '' = VALUES('' '')'' updates)"

definition merge_into ::
  "identifier_quoting \<Rightarrow> sql_token list \<Rightarrow> sql_token list \<Rightarrow> string \<Rightarrow> string \<Rightarrow> string list \<Rightarrow> string list \<Rightarrow> string list \<Rightarrow>
   string list \<Rightarrow> sql_token list"
where
  "merge_into st source closing target finish segs columns conflict updates =
     syms ''MERGE INTO '' @ path st segs @ source @ assignments '' AND '' st ''t.'' '' = s.'' [] conflict @ closing @
     (if updates = [] then []
      else syms '' WHEN MATCHED THEN UPDATE SET '' @ assignments '', '' st target '' = s.'' [] updates) @
     syms '' WHEN NOT MATCHED THEN INSERT ('' @ names st columns @ syms '') VALUES ('' @ each '', '' st ''s.'' columns @
     syms finish"

definition upsert_tokens ::
  "string \<Rightarrow> string list \<Rightarrow> string list \<Rightarrow> string list \<Rightarrow> string list \<Rightarrow> sql_token list"
where
  "upsert_tokens pid segs columns conflict updates =
     (if pid = ''sqlserver'' then
        merge_into Brackets (syms '' AS t USING (SELECT '' @ each '', '' Brackets ''? AS '' columns @ syms '') AS s ON '')
          [] ''t.'' '');'' segs columns conflict updates
      else if pid = ''postgres'' then on_conflict '' = EXCLUDED.'' segs columns conflict updates
      else if pid = ''sqlite'' then on_conflict '' = excluded.'' segs columns conflict updates
      else if pid = ''mysql'' \<or> pid = ''mariadb'' then on_duplicate_key segs columns updates
      else if pid = ''oracle'' then
        merge_into DoubleQuote (syms '' t USING (SELECT '' @ each '', '' DoubleQuote ''? '' columns @ syms '' FROM dual) s ON ('')
          (syms '')'') ''t.'' '')'' segs columns conflict updates
      else if pid = ''db2'' then
        merge_into DoubleQuote (syms '' t USING (VALUES ('' @ marks columns @ syms '')) AS s('' @ names DoubleQuote columns @ syms '') ON '')
          [] [] '')'' segs columns conflict updates
      else
        merge_into DoubleQuote (syms '' t USING (SELECT '' @ each '', '' DoubleQuote ''? AS '' columns @ syms '') s ON '')
          [] ''t.'' '')'' segs columns conflict updates)"

text \<open>The requests that are accepted.\<close>

definition upsert_valid :: "string \<Rightarrow> string list \<Rightarrow> string list \<Rightarrow> string list option \<Rightarrow> bool" where
  "upsert_valid table columns conflict update \<longleftrightarrow>
     list_all valid_identifier (split_on (CHR ''.'') table) \<and>
     columns \<noteq> [] \<and> conflict \<noteq> [] \<and> list_all valid_identifier columns \<and> set conflict \<subseteq> set columns \<and>
     (case update of None \<Rightarrow> True | Some u \<Rightarrow> list_all valid_identifier u)"

lemma set_join_with: "set (join_with sep ps) \<subseteq> \<Union> (set ` set ps) \<union> set sep"
  by (induction sep ps rule: join_with.induct) auto

lemma ident_char_not_blank: "ident_char c \<Longrightarrow> (of_char c :: nat) < 128 \<and> \<not> is_whitespace (of_char c)"
  using ident_char_range[of c] by (auto simp: is_whitespace_def)

lemma valid_table_not_blank:
  assumes "list_all valid_identifier (split_on (CHR ''.'') table)"
  shows "\<not> is_blank table"
proof -
  let ?segs = "split_on (CHR ''.'') table"
  have "set table \<subseteq> \<Union> (set ` set ?segs) \<union> {CHR ''.''}"
    using set_join_with[of "''.''" ?segs] by (simp add: join_split_on)
  moreover have "ident_char c" if "c \<in> set p" "p \<in> set ?segs" for c p
    using assms that by (auto simp: list_all_iff valid_identifier_def)
  ultimately have c: "(of_char c :: nat) < 128 \<and> \<not> is_whitespace (of_char c)" if "c \<in> set table" for c
    using that ident_char_not_blank by (fastforce simp: is_whitespace_def)
  moreover have "table \<noteq> []" using assms by (auto simp: valid_identifier_def)
  ultimately show ?thesis by (cases table) (auto simp: is_blank_ascii ascii_def list_all_iff)
qed

lemma validate_upsert_inputs_Ok:
  "validate_upsert_inputs table columns conflict update = Ok u \<longleftrightarrow> upsert_valid table columns conflict update"
  using valid_table_not_blank[of table]
  by (auto simp: validate_upsert_inputs_def upsert_valid_def check_all_Ok validate_identifier_iff list_all_iff
      split: option.splits if_splits)

lemma updates_valid:
  "upsert_valid table columns conflict update \<Longrightarrow>
   list_all valid_identifier (effective_update_columns columns conflict update)"
  by (auto simp: upsert_valid_def effective_update_columns_def list_all_iff split: option.splits)

lemma conflict_valid: "upsert_valid table columns conflict update \<Longrightarrow> list_all valid_identifier conflict"
  by (auto simp: upsert_valid_def list_all_iff)

lemma quote_columns_Ok:
  "quote_columns cs = Ok q \<longleftrightarrow> cs \<noteq> [] \<and> list_all valid_identifier cs \<and> q = render (names DoubleQuote cs)"
proof -
  have "omapM quote_identifier_default cs = Ok out \<longleftrightarrow> list_all valid_identifier cs \<and> out = map (wrap DoubleQuote) cs" for out
    by (induction cs arbitrary: out) (auto simp: quote_identifier_default_def)
  then show ?thesis by (auto simp: quote_columns_def names_def render_tjoin)
qed

lemma quote_qualified_Ok:
  "quote_qualified_default t = Ok q \<longleftrightarrow>
     list_all valid_identifier (split_on (CHR ''.'') t) \<and> q = render (path DoubleQuote (split_on (CHR ''.'') t))"
proof -
  have "omapM quote_identifier_default cs = Ok out \<longleftrightarrow> list_all valid_identifier cs \<and> out = map (wrap DoubleQuote) cs" for cs out
    by (induction cs arbitrary: out) (auto simp: quote_identifier_default_def)
  then show ?thesis by (auto simp: quote_qualified_default_def path_def render_tjoin Let_def)
qed

lemma quote_table_brackets_Ok:
  "quote_table_brackets t = Ok q \<longleftrightarrow>
     list_all valid_identifier (split_on (CHR ''.'') t) \<and> q = render (path Brackets (split_on (CHR ''.'') t))"
proof -
  have "omapM (\<lambda>seg. obind (validate_identifier seg) (\<lambda>_. quote_identifier seg Brackets)) cs = Ok out \<longleftrightarrow>
      list_all valid_identifier cs \<and> out = map (wrap Brackets) cs" for cs out
    by (induction cs arbitrary: out) (auto simp: validate_identifier_iff)
  then show ?thesis by (auto simp: quote_table_brackets_def path_def render_tjoin)
qed

lemma quote_cols_brackets_Ok:
  "quote_cols_brackets cs = Ok q \<longleftrightarrow> list_all valid_identifier cs \<and> q = render (names Brackets cs)"
proof -
  have "omapM (\<lambda>c. quote_identifier c Brackets) cs = Ok out \<longleftrightarrow> list_all valid_identifier cs \<and> out = map (wrap Brackets) cs" for out
    by (induction cs arbitrary: out) auto
  then show ?thesis by (auto simp: quote_cols_brackets_def names_def render_tjoin)
qed

lemma render_marks: "render (marks cs) = placeholder_list (length cs)"
  unfolding marks_def render_tjoin by (simp add: placeholder_list_def map_replicate_const)

lemma quoted_join_names: "quoted_join st (\<lambda>q. q) '', '' cs = Ok q \<longleftrightarrow> list_all valid_identifier cs \<and> q = render (names st cs)"
  by (simp add: quoted_join_Ok names_def render_tjoin)

lemma quoted_join_each:
  "quoted_join st (\<lambda>q. before @ q) sep cs = Ok q \<longleftrightarrow> list_all valid_identifier cs \<and> q = render (each sep st before cs)"
  by (simp add: quoted_join_Ok each_def render_tjoin)

lemma quoted_join_assignments:
  "quoted_join st (\<lambda>q. before @ q @ between @ q @ after) sep cs = Ok q \<longleftrightarrow>
     list_all valid_identifier cs \<and> q = render (assignments sep st before between after cs)"
  by (simp add: quoted_join_Ok assignments_def render_tjoin)

lemma quoted_join_both_sides:
  "quoted_join st both_sides sep cs = Ok q \<longleftrightarrow>
     list_all valid_identifier cs \<and> q = render (assignments sep st ''t.'' '' = s.'' [] cs)"
  by (simp add: quoted_join_Ok assignments_def render_tjoin both_sides_def)

lemmas quoted_join_plain = quoted_join_assignments[of _ "[]" _ "[]", simplified]

lemma assignments_nonempty: "cs \<noteq> [] \<Longrightarrow> render (assignments sep st before between after cs) \<noteq> []"
  by (cases cs rule: remdups_adj.cases) (simp_all add: assignments_def wrap_quotes)

text \<open>On valid names the helpers succeed; as rewrite rules.\<close>

lemma builder_eqs:
  "upsert_valid table columns conflict update \<Longrightarrow> validate_upsert_inputs table columns conflict update = Ok ()"
  "list_all valid_identifier (split_on (CHR ''.'') table) \<Longrightarrow>
     quote_qualified_default table = Ok (render (path DoubleQuote (split_on (CHR ''.'') table)))"
  "list_all valid_identifier (split_on (CHR ''.'') table) \<Longrightarrow>
     quote_table_brackets table = Ok (render (path Brackets (split_on (CHR ''.'') table)))"
  "list_all valid_identifier cs \<Longrightarrow> cs \<noteq> [] \<Longrightarrow> quote_columns cs = Ok (render (names DoubleQuote cs))"
  "list_all valid_identifier cs \<Longrightarrow> quote_cols_brackets cs = Ok (render (names Brackets cs))"
  "list_all valid_identifier cs \<Longrightarrow> quoted_join st (\<lambda>q. q) '', '' cs = Ok (render (names st cs))"
  "list_all valid_identifier cs \<Longrightarrow> quoted_join st both_sides sep cs = Ok (render (assignments sep st ''t.'' '' = s.'' [] cs))"
  by (simp_all add: validate_upsert_inputs_Ok quote_qualified_Ok quote_columns_Ok quote_table_brackets_Ok quote_cols_brackets_Ok
    quoted_join_names quoted_join_both_sides)

lemma each_eqs:
  assumes "list_all valid_identifier cs"
  shows "quoted_join st (\<lambda>q. ''? AS '' @ q) '', '' cs = Ok (render (each '', '' st ''? AS '' cs))"
    "quoted_join st (\<lambda>q. ''? '' @ q) '', '' cs = Ok (render (each '', '' st ''? '' cs))"
    "quoted_join st (\<lambda>q. ''s.'' @ q) '', '' cs = Ok (render (each '', '' st ''s.'' cs))"
  using assms by (simp_all only: quoted_join_each)

lemma assignment_eqs:
  assumes "list_all valid_identifier cs"
  shows "quoted_join st (\<lambda>q. q @ '' = EXCLUDED.'' @ q) '', '' cs = Ok (render (assignments '', '' st [] '' = EXCLUDED.'' [] cs))"
    "quoted_join st (\<lambda>q. q @ '' = excluded.'' @ q) '', '' cs = Ok (render (assignments '', '' st [] '' = excluded.'' [] cs))"
    "quoted_join st (\<lambda>q. q @ '' = s.'' @ q) '', '' cs = Ok (render (assignments '', '' st [] '' = s.'' [] cs))"
    "quoted_join st (\<lambda>q. q @ '' = VALUES('' @ q @ '')'') '', '' cs = Ok (render (assignments '', '' st [] '' = VALUES('' '')'' cs))"
  using assms quoted_join_assignments[of st "[]" "'' = VALUES(''" "'')''" "'', ''" cs]
  by (simp_all only: quoted_join_plain append_Nil)

lemmas builder_simps = builder_eqs each_eqs assignment_eqs render_marks Let_def obind.simps render_simps append_Nil append_assoc

text \<open>What the builders accept, and that they write what is meant.\<close>

definition upsert_accepted :: "string \<Rightarrow> string \<Rightarrow> string list \<Rightarrow> string list \<Rightarrow> string list option \<Rightarrow> bool" where
  "upsert_accepted pid table columns conflict update \<longleftrightarrow>
     pid \<in> {''sqlserver'', ''postgres'', ''mysql'', ''mariadb'', ''oracle'', ''sqlite'', ''db2'', ''snowflake''} \<and>
     upsert_valid table columns conflict update \<and>
     (pid = ''mysql'' \<longrightarrow> effective_update_columns columns conflict update \<noteq> [])"

lemma upsert_validD:
  assumes "upsert_valid table columns conflict update"
  shows "list_all valid_identifier (split_on (CHR ''.'') table)" "columns \<noteq> []" "conflict \<noteq> []"
    "list_all valid_identifier columns"
  using assms by (simp_all add: upsert_valid_def)

lemma sqlserver_upsert_Ok:
  "upsert_valid table columns conflict update \<Longrightarrow>
   sqlserver_build_upsert_sql table columns conflict update =
     Ok (render (upsert_tokens ''sqlserver'' (split_on (CHR ''.'') table) columns conflict (effective_update_columns columns conflict update)))"
  using updates_valid[of table columns conflict update] conflict_valid[of table columns conflict update]
  by (simp add: sqlserver_build_upsert_sql_def upsert_tokens_def merge_into_def builder_simps upsert_validD assignments_nonempty
      del: append_Cons obind_Ok_iff)

lemma postgres_upsert_Ok:
  "upsert_valid table columns conflict update \<Longrightarrow>
   postgres_build_upsert_sql table columns conflict update =
     Ok (render (upsert_tokens ''postgres'' (split_on (CHR ''.'') table) columns conflict (effective_update_columns columns conflict update)))"
  using updates_valid[of table columns conflict update] conflict_valid[of table columns conflict update]
  by (simp add: postgres_build_upsert_sql_def upsert_tokens_def on_conflict_def builder_simps upsert_validD assignments_nonempty
      del: append_Cons obind_Ok_iff)

lemma mysql_upsert_Ok:
  "upsert_valid table columns conflict update \<Longrightarrow> effective_update_columns columns conflict update \<noteq> [] \<Longrightarrow>
   mysql_build_upsert_sql table columns conflict update =
     Ok (render (upsert_tokens ''mysql'' (split_on (CHR ''.'') table) columns conflict (effective_update_columns columns conflict update)))"
  using updates_valid[of table columns conflict update] conflict_valid[of table columns conflict update]
  by (simp add: mysql_build_upsert_sql_def upsert_tokens_def on_duplicate_key_def builder_simps upsert_validD assignments_nonempty
      del: append_Cons obind_Ok_iff)

lemma mariadb_upsert_Ok:
  "upsert_valid table columns conflict update \<Longrightarrow>
   mariadb_build_upsert_sql table columns conflict update =
     Ok (render (upsert_tokens ''mariadb'' (split_on (CHR ''.'') table) columns conflict (effective_update_columns columns conflict update)))"
  using updates_valid[of table columns conflict update] conflict_valid[of table columns conflict update]
  by (simp add: mariadb_build_upsert_sql_def upsert_tokens_def on_duplicate_key_def builder_simps upsert_validD assignments_nonempty
      del: append_Cons obind_Ok_iff)

lemma oracle_upsert_Ok:
  "upsert_valid table columns conflict update \<Longrightarrow>
   oracle_build_upsert_sql table columns conflict update =
     Ok (render (upsert_tokens ''oracle'' (split_on (CHR ''.'') table) columns conflict (effective_update_columns columns conflict update)))"
  using updates_valid[of table columns conflict update] conflict_valid[of table columns conflict update]
  by (simp add: oracle_build_upsert_sql_def upsert_tokens_def merge_into_def builder_simps upsert_validD assignments_nonempty
      del: append_Cons obind_Ok_iff)

lemma sqlite_upsert_Ok:
  "upsert_valid table columns conflict update \<Longrightarrow>
   sqlite_build_upsert_sql table columns conflict update =
     Ok (render (upsert_tokens ''sqlite'' (split_on (CHR ''.'') table) columns conflict (effective_update_columns columns conflict update)))"
  using updates_valid[of table columns conflict update] conflict_valid[of table columns conflict update]
  by (simp add: sqlite_build_upsert_sql_def upsert_tokens_def on_conflict_def builder_simps upsert_validD assignments_nonempty
      del: append_Cons obind_Ok_iff)

lemma db2_upsert_Ok:
  "upsert_valid table columns conflict update \<Longrightarrow>
   db2_build_upsert_sql table columns conflict update =
     Ok (render (upsert_tokens ''db2'' (split_on (CHR ''.'') table) columns conflict (effective_update_columns columns conflict update)))"
  using updates_valid[of table columns conflict update] conflict_valid[of table columns conflict update]
  by (simp add: db2_build_upsert_sql_def upsert_tokens_def merge_into_def builder_simps upsert_validD assignments_nonempty
      del: append_Cons obind_Ok_iff)

lemma snowflake_upsert_Ok:
  "upsert_valid table columns conflict update \<Longrightarrow>
   snowflake_build_upsert_sql table columns conflict update =
     Ok (render (upsert_tokens ''snowflake'' (split_on (CHR ''.'') table) columns conflict (effective_update_columns columns conflict update)))"
  using updates_valid[of table columns conflict update] conflict_valid[of table columns conflict update]
  by (simp add: snowflake_build_upsert_sql_def upsert_tokens_def merge_into_def builder_simps upsert_validD assignments_nonempty
      del: append_Cons obind_Ok_iff)

lemma dispatch_upsert_Ok:
  "upsert_accepted pid table columns conflict update \<Longrightarrow>
   dispatch_upsert pid table columns conflict update =
    Ok (render (upsert_tokens pid (split_on (CHR ''.'') table) columns conflict (effective_update_columns columns conflict update)))"
  by (auto simp: upsert_accepted_def dispatch_upsert_def sqlserver_upsert_Ok postgres_upsert_Ok mysql_upsert_Ok mariadb_upsert_Ok
    oracle_upsert_Ok sqlite_upsert_Ok db2_upsert_Ok snowflake_upsert_Ok simp del: render_simps)

lemma validate_upsert_inputs_Err:
  "\<not> upsert_valid table columns conflict update \<Longrightarrow> \<exists>e. validate_upsert_inputs table columns conflict update = Err e"
proof -
  assume n: "\<not> upsert_valid table columns conflict update"
  have "validate_upsert_inputs table columns conflict update \<noteq> Panic"
    unfolding validate_upsert_inputs_def
    by (intro not_PanicI) (auto intro!: check_all_not_Panic split: option.splits if_splits)
  moreover have "validate_upsert_inputs table columns conflict update \<noteq> Ok ()"
    using n by (simp add: validate_upsert_inputs_Ok)
  ultimately show ?thesis by (cases "validate_upsert_inputs table columns conflict update") auto
qed

lemma dispatch_upsert_Err:
  assumes "\<not> upsert_accepted pid table columns conflict update"
  shows "\<exists>e. dispatch_upsert pid table columns conflict update = Err e"
proof (cases "upsert_valid table columns conflict update")
  case False
  from validate_upsert_inputs_Err[OF this] obtain e where
    "validate_upsert_inputs table columns conflict update = Err e" by blast
  then show ?thesis
    by (simp add: dispatch_upsert_def sqlserver_build_upsert_sql_def postgres_build_upsert_sql_def mysql_build_upsert_sql_def
      mariadb_build_upsert_sql_def oracle_build_upsert_sql_def sybase_build_upsert_sql_def sqlite_build_upsert_sql_def
      db2_build_upsert_sql_def snowflake_build_upsert_sql_def)
next
  case True
  then show ?thesis using assms
    by (auto simp: upsert_accepted_def dispatch_upsert_def mysql_build_upsert_sql_def sybase_build_upsert_sql_def
        builder_simps upsert_validD)
qed

section \<open>What the server reads\<close>

lemma readable_names:
  assumes "cs \<noteq> []" "list_all valid_identifier cs"
  shows "readable False (names st cs) = Some True" "readable False (path st cs) = Some True"
  unfolding names_def path_def
  by (rule readable_tjoin; use assms in \<open>simp add: list_all_iff plain_def\<close>)+

lemma readable_marks: "cs \<noteq> [] \<Longrightarrow> readable False (marks cs) = Some False"
  unfolding marks_def by (rule readable_tjoin; simp add: readable_syms plain_def)

lemma readable_each:
  assumes "cs \<noteq> []" "list_all valid_identifier cs" "list_all plain before" "list_all plain sep" "sep \<noteq> []"
  shows "readable False (each sep st before cs) = Some True"
  unfolding each_def
  by (rule readable_tjoin; use assms in \<open>simp add: list_all_iff readable_append readable_syms\<close>)

lemma readable_assignments:
  assumes "cs \<noteq> []" "list_all valid_identifier cs" "list_all plain before" "list_all plain between" "list_all plain after"
    "list_all plain sep" "sep \<noteq> []" "between \<noteq> []"
  shows "readable False (assignments sep st before between after cs) = Some (after = [])"
  unfolding assignments_def
  by (rule readable_tjoin; use assms in \<open>simp add: list_all_iff readable_append readable_syms\<close>)

lemmas readable_lists = readable_names readable_marks readable_each readable_assignments

lemma readable_upsert:
  assumes "upsert_accepted pid table columns conflict update"
  defines "updates \<equiv> effective_update_columns columns conflict update"
  shows "readable False (upsert_tokens pid (split_on (CHR ''.'') table) columns conflict updates) \<noteq> None"
proof -
  have u: "upsert_valid table columns conflict update" using assms(1) by (simp add: upsert_accepted_def)
  have v: "list_all valid_identifier updates" unfolding updates_def by (rule updates_valid[OF u])
  show ?thesis
    using upsert_validD[OF u] conflict_valid[OF u] v
    by (simp add: upsert_tokens_def merge_into_def on_conflict_def on_duplicate_key_def readable_append readable_syms
        readable_lists plain_def del: not_None_eq)
qed

definition token_names :: "sql_token list \<Rightarrow> string set" where
  "token_names ts = {n. \<exists>st. Name st n \<in> set ts}"

definition placeholders :: "sql_token list \<Rightarrow> nat" where
  "placeholders ts = length (filter (\<lambda>t. t = Sym (CHR ''?'')) ts)"

fun shape :: "sql_token \<Rightarrow> sql_token" where
  "shape (Sym c) = Sym c"
| "shape (Name st n) = Name st []"
| "shape (Lit v) = Lit []"

lemma token_names_simps [simp]:
  "token_names [] = {}" "token_names (xs @ ys) = token_names xs \<union> token_names ys" "token_names (syms s) = {}"
  "token_names (Name st n # ts) = insert n (token_names ts)" "token_names (Lit v # ts) = token_names ts"
  by (auto simp: token_names_def syms_def)

lemma token_names_tjoin: "token_names (tjoin sep (map g cs)) = (\<Union>c\<in>set cs. token_names (g c))"
  by (induction cs rule: induct_list012) auto

lemma token_names_lists [simp]:
  "token_names (names st cs) = set cs" "token_names (path st cs) = set cs" "token_names (marks cs) = {}"
  "token_names (each sep st before cs) = set cs" "token_names (assignments sep st before between after cs) = set cs"
  by (simp_all add: names_def path_def marks_def each_def assignments_def token_names_tjoin)

lemma token_names_upsert:
  assumes "set conflict \<subseteq> set columns"
  shows "token_names (upsert_tokens pid segs columns conflict updates) = set segs \<union> set columns \<union> set updates"
proof -
  have m: "token_names (merge_into st source closing target finish segs columns conflict updates) =
      set segs \<union> set columns \<union> set updates"
    if "token_names source \<subseteq> set columns" "token_names closing = {}" for st source closing target finish
    using assms that unfolding merge_into_def by (cases updates) auto
  have c: "token_names (on_conflict e segs columns conflict updates) = set segs \<union> set columns \<union> set updates" for e
    using assms unfolding on_conflict_def by (cases updates) auto
  have d: "token_names (on_duplicate_key segs columns updates) = set segs \<union> set columns \<union> set updates"
    unfolding on_duplicate_key_def by (cases updates) auto
  show ?thesis by (simp add: upsert_tokens_def m c d)
qed

text \<open>The quoting styles of a statement, and how its names are seen.\<close>

definition token_styles :: "sql_token list \<Rightarrow> identifier_quoting set" where
  "token_styles ts = {st. \<exists>n. Name st n \<in> set ts}"

lemma token_styles_simps [simp]:
  "token_styles [] = {}" "token_styles (xs @ ys) = token_styles xs \<union> token_styles ys" "token_styles (syms s) = {}"
  "token_styles (Name st n # ts) = insert st (token_styles ts)"
  by (auto simp: token_styles_def syms_def)

lemma token_styles_tjoin: "token_styles (tjoin sep (map g cs)) = (\<Union>c\<in>set cs. token_styles (g c))"
  by (induction cs rule: induct_list012) auto

lemma token_styles_marks [simp]: "token_styles (marks cs) = {}"
  by (simp add: marks_def token_styles_tjoin)

lemma token_styles_lists:
  "x \<in> token_styles (names st cs) \<Longrightarrow> x = st" "x \<in> token_styles (path st cs) \<Longrightarrow> x = st"
  "x \<in> token_styles (each sep st before cs) \<Longrightarrow> x = st"
  "x \<in> token_styles (assignments sep st before between after cs) \<Longrightarrow> x = st"
  by (auto simp: names_def path_def each_def assignments_def token_styles_tjoin split: if_splits)

lemma token_styles_upsert:
  "token_styles (upsert_tokens pid segs columns conflict updates) \<subseteq>
     (if pid = ''sqlserver'' then {Brackets} else if pid = ''mysql'' \<or> pid = ''mariadb'' then {DoubleQuote, Backtick}
      else {DoubleQuote})"
proof -
  have m: "token_styles (merge_into st source closing target finish segs columns conflict updates) \<subseteq> {st}"
    if "token_styles source \<subseteq> {st}" "token_styles closing = {}" for st source closing target finish
    using that by (auto simp: merge_into_def dest: token_styles_lists)
  have c: "token_styles (on_conflict e segs columns conflict updates) \<subseteq> {DoubleQuote}" for e
    by (auto simp: on_conflict_def dest: token_styles_lists)
  have d: "token_styles (on_duplicate_key segs columns updates) \<subseteq> {DoubleQuote, Backtick}"
    by (auto simp: on_duplicate_key_def dest: token_styles_lists)
  have s: "token_styles (syms a @ each '', '' st b columns @ syms e) \<subseteq> {st}" for a st b e
    by (auto dest: token_styles_lists)
  have v: "token_styles (syms '' t USING (VALUES ('' @ marks columns @ syms '')) AS s('' @ names DoubleQuote columns @ syms '') ON '')
      \<subseteq> {DoubleQuote}"
    by (auto dest: token_styles_lists)
  have n: "token_styles [] = {}" "token_styles (syms a) = {}" for a by simp_all
  show ?thesis unfolding upsert_tokens_def using m[OF s n(1)] m[OF s n(2)] m[OF v n(1)] c d by auto
qed

definition token_literals :: "sql_token list \<Rightarrow> string set" where
  "token_literals ts = {v. Lit v \<in> set ts}"

lemma seen_Name: "seen pid t = Name st n \<longleftrightarrow> t = Name st n \<and> quotes_names pid st"
  by (cases t) auto

lemma seen_Lit: "seen pid t = Lit n \<longleftrightarrow> t = Lit n \<or> (\<exists>st. t = Name st n \<and> \<not> quotes_names pid st)"
  by (cases t) auto

lemma seen_names:
  "token_literals ts = {} \<Longrightarrow> token_names (map (seen pid) ts) \<union> token_literals (map (seen pid) ts) = token_names ts"
  by (auto simp: token_names_def token_literals_def image_iff seen_Name seen_Lit
      eq_commute[of "Name _ _" "seen _ _"] eq_commute[of "Lit _" "seen _ _"])

lemma seen_id: "\<forall>st\<in>token_styles ts. quotes_names pid st \<Longrightarrow> map (seen pid) ts = ts"
proof (induction ts)
  case (Cons t ts)
  then show ?case by (cases t) (auto simp: token_styles_def)
qed simp

lemma style_known_all: "\<forall>st\<in>token_styles ts. quotes_names pid st \<or> st = DoubleQuote \<Longrightarrow> list_all (style_known pid) ts"
proof (induction ts)
  case (Cons t ts)
  then show ?case by (cases t) (auto simp: token_styles_def)
qed simp

lemma seen_Sym: "seen pid t = Sym x \<longleftrightarrow> t = Sym x"
  by (cases t) auto

lemma shape_seen: "shape (seen pid t) = shape (seen pid (shape t))"
  by (cases t) auto

lemma seen_shapes: "map shape xs = map shape ys \<Longrightarrow> map shape (map (seen pid) xs) = map shape (map (seen pid) ys)"
proof (induction xs ys rule: list_induct2')
  case (4 x xs y ys)
  then show ?case using shape_seen[of pid x] shape_seen[of pid y] by simp
qed simp_all

lemma seen_placeholders: "placeholders (map (seen pid) ts) = placeholders ts"
  by (simp add: placeholders_def filter_map comp_def seen_Sym)

lemma seen_symbols: "Sym x \<in> set (butlast (map (seen pid) ts)) \<longleftrightarrow> Sym x \<in> set (butlast ts)"
  unfolding map_butlast[symmetric] by (auto simp: seen_Sym image_iff eq_commute[of "Sym x"])

lemma upsert_styles:
  "list_all (style_known pid) (upsert_tokens pid segs columns conflict updates)"
  "pid \<notin> {''mysql'', ''mariadb''} \<Longrightarrow>
     map (seen pid) (upsert_tokens pid segs columns conflict updates) = upsert_tokens pid segs columns conflict updates"
proof -
  let ?ts = "upsert_tokens pid segs columns conflict updates"
  consider "pid = ''sqlserver''" "token_styles ?ts \<subseteq> {Brackets}"
    | "pid \<in> {''mysql'', ''mariadb''}" "token_styles ?ts \<subseteq> {DoubleQuote, Backtick}"
    | "pid \<notin> {''mysql'', ''mariadb''}" "token_styles ?ts \<subseteq> {DoubleQuote}"
    using token_styles_upsert[of pid segs columns conflict updates] by (simp split: if_splits)
  then have "(\<forall>st\<in>token_styles ?ts. quotes_names pid st \<or> st = DoubleQuote) \<and>
      (pid \<notin> {''mysql'', ''mariadb''} \<longrightarrow> (\<forall>st\<in>token_styles ?ts. quotes_names pid st))"
    by cases (force, force, force)
  then show "list_all (style_known pid) ?ts" "pid \<notin> {''mysql'', ''mariadb''} \<Longrightarrow> map (seen pid) ?ts = ?ts"
    using style_known_all[of ?ts pid] seen_id[of ?ts pid] by simp_all
qed

lemma placeholders_simps [simp]:
  "placeholders [] = 0" "placeholders (xs @ ys) = placeholders xs + placeholders ys"
  "placeholders (Name st n # ts) = placeholders ts"
  "placeholders (syms s) = length (filter (\<lambda>c. c = CHR ''?'') s)"
  by (simp_all add: placeholders_def syms_def filter_map comp_def)

lemma placeholders_tjoin:
  "CHR ''?'' \<notin> set sep \<Longrightarrow> (\<And>c. c \<in> set cs \<Longrightarrow> placeholders (g c) = k) \<Longrightarrow>
   placeholders (tjoin sep (map g cs)) = length cs * k"
proof (induction cs rule: induct_list012)
  case (3 c d cs)
  have "filter (\<lambda>c. c = CHR ''?'') sep = []" using "3.prems"(1) by (auto simp: filter_empty_conv)
  then show ?case using "3.IH"(2) "3.prems" by simp
qed simp_all

lemma placeholders_lists [simp]:
  "placeholders (names st cs) = 0" "placeholders (path st cs) = 0" "placeholders (marks cs) = length cs"
  using placeholders_tjoin[of _ cs "\<lambda>c. [Name st c]" 0] placeholders_tjoin[of "'', ''" cs "\<lambda>c. syms ''?''" 1]
  by (simp_all add: names_def path_def marks_def)

lemma placeholders_each [simp]:
  "CHR ''?'' \<notin> set sep \<Longrightarrow> placeholders (each sep st before cs) = length cs * placeholders (syms before)"
  unfolding each_def by (rule placeholders_tjoin) simp_all

lemma placeholders_assignments [simp]:
  "CHR ''?'' \<notin> set sep \<Longrightarrow> placeholders (syms (before @ between @ after)) = 0 \<Longrightarrow>
   placeholders (assignments sep st before between after cs) = 0"
  using placeholders_tjoin[of sep cs "\<lambda>c. syms before @ [Name st c] @ syms between @ [Name st c] @ syms after" 0]
  by (simp add: assignments_def)

lemma placeholders_upsert:
  "placeholders (upsert_tokens pid segs columns conflict updates) = length columns"
  by (simp add: upsert_tokens_def merge_into_def on_conflict_def on_duplicate_key_def)

text \<open>The text between the names depends only on how many of them there are.\<close>

lemma shape_simps [simp]: "map shape (syms s) = syms s"
  by (simp add: syms_def)

lemma shape_tjoin:
  "(\<And>c. map shape (g c) = t) \<Longrightarrow> map shape (tjoin sep (map g cs)) = tjoin sep (replicate (length cs) t)"
  by (induction cs rule: induct_list012) simp_all

lemma shape_lists:
  "map shape (names st cs) = tjoin '', '' (replicate (length cs) [Name st []])"
  "map shape (path st cs) = tjoin ''.'' (replicate (length cs) [Name st []])"
  "map shape (marks cs) = tjoin '', '' (replicate (length cs) (syms ''?''))"
  "map shape (each sep st before cs) = tjoin sep (replicate (length cs) (syms before @ [Name st []]))"
  "map shape (assignments sep st before between after cs) =
     tjoin sep (replicate (length cs) (syms before @ [Name st []] @ syms between @ [Name st []] @ syms after))"
  unfolding names_def path_def marks_def each_def assignments_def by (rule shape_tjoin; simp)+

lemma shape_upsert:
  assumes "length segs' = length segs" "length columns' = length columns" "length conflict' = length conflict"
    "length updates' = length updates"
  shows "map shape (upsert_tokens pid segs' columns' conflict' updates') = map shape (upsert_tokens pid segs columns conflict updates)"
proof -
  have "updates' = [] \<longleftrightarrow> updates = []" using assms(4) by auto
  then show ?thesis
    using assms(1-3) by (simp add: upsert_tokens_def merge_into_def on_conflict_def on_duplicate_key_def shape_lists assms(4))
qed

text \<open>The symbols of a statement.\<close>

lemma Sym_tjoin: "Sym x \<in> set (tjoin sep (map g cs)) \<Longrightarrow> x \<in> set sep \<or> (\<exists>c\<in>set cs. Sym x \<in> set (g c))"
  by (induction cs rule: induct_list012) (auto simp: syms_def)

lemma Sym_syms [simp]: "Sym x \<in> set (syms s) \<longleftrightarrow> x \<in> set s"
  by (auto simp: syms_def)

lemma Sym_lists:
  "Sym x \<in> set (names st cs) \<Longrightarrow> x \<in> set '', ''"
  "Sym x \<in> set (path st cs) \<Longrightarrow> x \<in> set ''.''"
  "Sym x \<in> set (marks cs) \<Longrightarrow> x \<in> set '', ?''"
  "Sym x \<in> set (each sep st before cs) \<Longrightarrow> x \<in> set (sep @ before)"
  "Sym x \<in> set (assignments sep st before between after cs) \<Longrightarrow> x \<in> set (sep @ before @ between @ after)"
  unfolding names_def path_def marks_def each_def assignments_def by (drule Sym_tjoin; auto)+

lemma Sym_absent:
  assumes "x \<in> {CHR '';'', CHR ''-'', CHR ''/'', CHR ''#''}"
  shows "Sym x \<notin> set (names st cs)" "Sym x \<notin> set (path st cs)" "Sym x \<notin> set (marks cs)"
    "x \<notin> set (sep @ before) \<Longrightarrow> Sym x \<notin> set (each sep st before cs)"
    "x \<notin> set (sep @ before @ between @ after) \<Longrightarrow> Sym x \<notin> set (assignments sep st before between after cs)"
  using assms by (auto dest: Sym_lists)

lemma merge_into_finish: "merge_into st source closing target '');'' segs columns conflict updates =
    merge_into st source closing target '')'' segs columns conflict updates @ [Sym (CHR '';'')]"
  by (simp add: merge_into_def syms_def)

lemma upsert_symbols:
  assumes x: "x \<in> {CHR '';'', CHR ''-'', CHR ''/'', CHR ''#''}"
  shows "Sym x \<notin> set (butlast (upsert_tokens pid segs columns conflict updates))"
proof -
  have m: "Sym x \<notin> set (merge_into st source closing target '')'' segs columns conflict updates)"
    if "Sym x \<notin> set source" "Sym x \<notin> set closing" "target = [] \<or> target = ''t.''" for st source closing target
    using that x by (auto simp: merge_into_def dest!: Sym_lists)
  have c: "Sym x \<notin> set (on_conflict e segs columns conflict updates)" if "e = '' = EXCLUDED.'' \<or> e = '' = excluded.''" for e
    using that x by (auto simp: on_conflict_def dest!: Sym_lists)
  have d: "Sym x \<notin> set (on_duplicate_key segs columns updates)"
    using x by (auto simp: on_duplicate_key_def dest!: Sym_lists)
  have s: "Sym x \<notin> set (syms '' AS t USING (SELECT '' @ each '', '' Brackets ''? AS '' columns @ syms '') AS s ON '')"
    "Sym x \<notin> set (syms '' t USING (SELECT '' @ each '', '' DoubleQuote ''? '' columns @ syms '' FROM dual) s ON ('')"
    "Sym x \<notin> set (syms '' t USING (VALUES ('' @ marks columns @ syms '')) AS s('' @ names DoubleQuote columns @ syms '') ON '')"
    "Sym x \<notin> set (syms '' t USING (SELECT '' @ each '', '' DoubleQuote ''? AS '' columns @ syms '') s ON '')"
    "Sym x \<notin> set (syms '')'')"
    using x by (auto dest!: Sym_lists)
  show ?thesis
  proof (cases "pid = ''sqlserver''")
    case True
    then show ?thesis unfolding upsert_tokens_def merge_into_finish using m s by simp
  next
    case False
    then have "Sym x \<notin> set (upsert_tokens pid segs columns conflict updates)"
      unfolding upsert_tokens_def using m s c d by simp
    then show ?thesis by (meson in_set_butlastD)
  qed
qed

text \<open>
  C27. Upserts cannot be injected into, on any of the eight databases that have them. A request with an invalid name
  (of the table's segments, the columns, the conflict columns or the columns to update) is an error, never a panic,
  and so is one without columns or with a conflict column outside the columns. Otherwise the server, with the quoting
  rules of its default settings, reads the statement as tokens in which the requested names, all valid identifiers,
  are the only quoted texts, with one placeholder per column, no start of a comment and no end of a statement before
  its end; and the text around the names depends on their number only: two accepted requests of the same shape give
  the same statement up to the names. On the six databases other than MySQL and MariaDB all quoted texts are read as
  names. On MySQL and MariaDB the ones in double quotes are read as string literals (so the default mode rejects the
  statement, \<open>mysql_upsert_mixes_quotes\<close>), and an accepted MariaDB request with nothing to update has the
  fixed assignment \<open>id = id\<close>, which is not a requested name.
\<close>

theorem upsert_injection_safe:
  "case dispatch_upsert pid table columns conflict update of
      Ok sql \<Rightarrow> upsert_accepted pid table columns conflict update \<and>
        (\<exists>ts. lex_sql pid sql = Some ts \<and>
          token_names ts \<union> token_literals ts =
            set (split_on (CHR ''.'') table) \<union> set columns \<union> set (effective_update_columns columns conflict update) \<and>
          (pid \<notin> {''mysql'', ''mariadb''} \<longrightarrow> token_literals ts = {}) \<and>
          (\<forall>n \<in> token_names ts \<union> token_literals ts. valid_identifier n) \<and>
          placeholders ts = length columns \<and>
          (\<forall>x \<in> {CHR '';'', CHR ''-'', CHR ''/'', CHR ''#''}. Sym x \<notin> set (butlast ts)) \<and>
          (\<forall>table' columns' conflict' update' sql'.
             dispatch_upsert pid table' columns' conflict' update' = Ok sql' \<longrightarrow>
             length (split_on (CHR ''.'') table') = length (split_on (CHR ''.'') table) \<longrightarrow>
             length columns' = length columns \<longrightarrow> length conflict' = length conflict \<longrightarrow>
             length (effective_update_columns columns' conflict' update') = length (effective_update_columns columns conflict update) \<longrightarrow>
             (\<exists>ts'. lex_sql pid sql' = Some ts' \<and> map shape ts' = map shape ts)))
    | Err e \<Rightarrow> \<not> upsert_accepted pid table columns conflict update
    | Panic \<Rightarrow> False"
proof (cases "upsert_accepted pid table columns conflict update")
  case False
  with dispatch_upsert_Err[OF this] show ?thesis by auto
next
  case True
  let ?toks = "\<lambda>t cs cf u. upsert_tokens pid (split_on (CHR ''.'') t) cs cf (effective_update_columns cs cf u)"
  let ?ts = "?toks table columns conflict update"
  have lex: "lex_sql pid (render (?toks t cs cf u)) = Some (map (seen pid) (?toks t cs cf u))"
    if "upsert_accepted pid t cs cf u" for t cs cf u
    using readable_upsert[OF that] lex_render upsert_styles(1) by blast
  have other: "\<exists>ts'. lex_sql pid sql' = Some ts' \<and> map shape ts' = map shape (map (seen pid) ?ts)"
    if d: "dispatch_upsert pid t cs cf u = Ok sql'" and
      l: "length (split_on (CHR ''.'') t) = length (split_on (CHR ''.'') table)" "length cs = length columns"
      "length cf = length conflict" "length (effective_update_columns cs cf u) = length (effective_update_columns columns conflict update)" for t cs cf u sql'
  proof -
    have a: "upsert_accepted pid t cs cf u" using d dispatch_upsert_Err by fastforce
    then have "sql' = render (?toks t cs cf u)" using d dispatch_upsert_Ok by simp
    with lex[OF a] seen_shapes[OF shape_upsert[OF l]] show ?thesis by blast
  qed
  have u: "upsert_valid table columns conflict update" using True by (simp add: upsert_accepted_def)
  then have "set conflict \<subseteq> set columns" by (simp add: upsert_valid_def)
  then have n: "token_names ?ts = set (split_on (CHR ''.'') table) \<union> set columns \<union> set (effective_update_columns columns conflict update)"
    by (rule token_names_upsert)
  have lit: "token_literals ?ts = {}"
    using readable_upsert[OF True] readable_no_lit by (fastforce simp: token_literals_def)
  note all = seen_names[OF lit, of pid, unfolded n]
  have v: "\<forall>n \<in> token_names (map (seen pid) ?ts) \<union> token_literals (map (seen pid) ?ts). valid_identifier n"
    unfolding all using upsert_validD[OF u] updates_valid[OF u] by (auto simp: list_all_iff)
  have six: "pid \<notin> {''mysql'', ''mariadb''} \<longrightarrow> token_literals (map (seen pid) ?ts) = {}"
    using lit upsert_styles(2) by metis
  show ?thesis
    unfolding dispatch_upsert_Ok[OF True] outcome.case
    using True lex[OF True] all six v seen_placeholders placeholders_upsert seen_symbols upsert_symbols other
    by (intro conjI exI[of _ "map (seen pid) ?ts"]) (blast | simp)+
qed

theorem upsert_injection_safe_witness:
  "\<exists>sql ts. dispatch_upsert ''postgres'' ''s.t'' [''id'', ''v''] [''id''] None = Ok sql \<and> lex_sql ''postgres'' sql = Some ts \<and>
     token_names ts = {''s'', ''t'', ''id'', ''v''} \<and> token_literals ts = {} \<and> placeholders ts = 2"
proof -
  have a: "upsert_accepted ''postgres'' ''s.t'' [''id'', ''v''] [''id''] None"
    by (simp add: upsert_accepted_def upsert_valid_def valid_identifier_def ident_start_def ident_char_def
        is_ascii_alphanumeric_def is_ascii_alphabetic_def byte_of_def)
  obtain sql where sql: "dispatch_upsert ''postgres'' ''s.t'' [''id'', ''v''] [''id''] None = Ok sql"
    using dispatch_upsert_Ok[OF a] by blast
  from upsert_injection_safe[of "''postgres''" "''s.t''" "[''id'', ''v'']" "[''id'']" None]
  obtain ts where "lex_sql ''postgres'' sql = Some ts" "placeholders ts = 2" "token_literals ts = {}"
    "token_names ts = set (split_on (CHR ''.'') ''s.t'') \<union> set [''id'', ''v''] \<union>
       set (effective_update_columns [''id'', ''v''] [''id''] None)"
    unfolding sql outcome.case by (elim conjE exE) (rule that; simp)
  with sql show ?thesis by (auto simp: effective_update_columns_def)
qed

section \<open>Session statements\<close>

lemma scan_literal:
  "rest = [] \<or> hd rest \<noteq> CHR 0x27 \<Longrightarrow> scan_quoted (CHR 0x27) (escape_quotes v @ CHR 0x27 # rest) = Some (v, rest)"
proof (induction v)
  case Nil
  then show ?case by (cases rest) (auto simp: escape_quotes_def replace_char_def)
next
  case (Cons c v)
  show ?case
  proof (cases "c = CHR 0x27")
    case True
    then show ?thesis using Cons by (simp add: escape_quotes_def replace_char_def)
  next
    case False
    obtain d r where d: "escape_quotes v @ CHR 0x27 # rest = d # r" by (cases "escape_quotes v @ CHR 0x27 # rest") auto
    have "escape_quotes (c # v) = c # escape_quotes v" using False by (simp add: escape_quotes_def replace_char_def)
    with False d Cons show ?thesis by simp
  qed
qed

lemma lex_plain: "list_all plain s \<Longrightarrow> lex_sql pid (s @ t) = map_option (\<lambda>ts. syms s @ ts) (lex_sql pid t)"
  by (cases "lex_sql pid t"; induction s) (auto simp: syms_def plain_styles)

lemma lex_literal_statement:
  assumes "\<not> backslash_escapes pid" "list_all plain before" "list_all plain after"
  shows "lex_sql pid (before @ literal v @ after) = Some (syms before @ Lit v # syms after)"
proof -
  have "lex_sql pid after = Some (syms after)" using lex_plain[OF assms(3), of pid "[]"] by simp
  moreover have "after = [] \<or> hd after \<noteq> CHR 0x27" using assms(3) by (cases after) (auto simp: plain_def)
  ultimately have "lex_sql pid (literal v @ after) = Some (Lit v # syms after)"
    using scan_literal[of after v] assms(1)
    by (simp add: literal_def quote_style_def opens_literal_def scan_literal_text_def)
  then show ?thesis using lex_plain[OF assms(2)] by simp
qed

lemma lex_schema_statement:
  assumes "quotes_names pid st" "list_all plain before" "valid_identifier n"
  shows "lex_sql pid (before @ wrap st n) = Some (syms before @ [Name st n])"
proof -
  have "readable False (syms before @ [Name st n]) = Some True" using assms(2,3) by (simp add: readable_append readable_syms)
  moreover have "list_all (style_known pid) (syms before)" "map (seen pid) (syms before) = syms before"
    by (simp_all add: syms_def list_all_iff)
  ultimately show ?thesis using lex_render[of False "syms before @ [Name st n]" True pid] assms(1) by simp
qed

text \<open>A statement whose only variable parts are a literal with a wanted value and a valid name.\<close>

definition reads_as :: "string \<Rightarrow> string set \<Rightarrow> string set \<Rightarrow> string \<Rightarrow> bool" where
  "reads_as pid vals nms s \<longleftrightarrow>
     (\<exists>ts. lex_sql pid s = Some ts \<and> (\<forall>v. Lit v \<in> set ts \<longrightarrow> v \<in> vals) \<and> token_names ts \<subseteq> nms \<and>
        Sym (CHR '';'') \<notin> set ts)"

lemma Lit_syms [simp]: "Lit v \<notin> set (syms s)"
  by (auto simp: syms_def)

lemma reads_as_plain: "list_all plain s \<Longrightarrow> CHR '';'' \<notin> set s \<Longrightarrow> reads_as pid vals nms s"
  using lex_plain[of s pid "[]"] by (auto simp: reads_as_def)

lemma reads_as_literal:
  "\<not> backslash_escapes pid \<Longrightarrow> list_all plain before \<Longrightarrow> list_all plain after \<Longrightarrow> CHR '';'' \<notin> set (before @ after) \<Longrightarrow>
   v \<in> vals \<Longrightarrow> reads_as pid vals nms (before @ literal v @ after)"
  unfolding reads_as_def
  by (intro exI[of _ "syms before @ Lit v # syms after"]) (auto simp: lex_literal_statement)

lemma reads_as_literal_statement:
  "\<not> backslash_escapes pid \<Longrightarrow> list_all plain before \<Longrightarrow> list_all plain after \<Longrightarrow> CHR '';'' \<notin> set (before @ after) \<Longrightarrow>
   set_option v \<subseteq> vals \<Longrightarrow> s \<in> set (literal_statement before after v) \<Longrightarrow> reads_as pid vals nms s"
  by (auto simp: literal_statement_def intro: reads_as_literal split: option.splits)

lemma reads_as_schema_statement:
  assumes "quotes_names pid st" "list_all plain before" "CHR '';'' \<notin> set before" "s \<in> set (schema_statement st before schema)"
    "set_option schema \<inter> Collect valid_identifier \<subseteq> nms"
  shows "reads_as pid vals nms s"
proof -
  obtain n q where n: "schema = Some n" "quote_identifier n st = Ok q" "s = before @ q"
    using assms(4)
    by (cases schema; cases "quote_identifier (the schema) st") (auto simp: schema_statement_def simp del: quote_identifier_Ok_iff)
  then have "valid_identifier n" "s = before @ wrap st n" by simp_all
  then show ?thesis using assms(1-3,5) n(1) lex_schema_statement[of pid st before n] by (auto simp: reads_as_def)
qed

text \<open>The values and names that the statements for some options may contain.\<close>

definition session_values :: "session_options \<Rightarrow> string set" where
  "session_values opts = set_option (so_application_name opts) \<union> set_option (so_timezone opts) \<union>
     {''YYYY-MM-DD HH24:MI:SS'', ''YYYY-MM-DD HH24:MI:SS.FF'', ''.,''}"

definition session_names :: "session_options \<Rightarrow> string set" where
  "session_names opts = set_option (so_schema opts) \<inter> Collect valid_identifier"

abbreviation init_ok :: "string \<Rightarrow> session_options \<Rightarrow> string list \<Rightarrow> bool" where
  "init_ok pid opts \<equiv> list_all (reads_as pid (session_values opts) (session_names opts))"

lemma session_literal:
  assumes "\<not> backslash_escapes pid" "list_all plain before" "list_all plain after" "CHR '';'' \<notin> set before" "CHR '';'' \<notin> set after"
  shows "init_ok pid opts (literal_statement before after (so_application_name opts))"
    "init_ok pid opts (literal_statement before after (so_timezone opts))"
proof -
  have "init_ok pid opts (literal_statement before after v)" if "set_option v \<subseteq> session_values opts" for v
    unfolding list_all_iff using reads_as_literal_statement[OF assms(1,2,3) _ that] assms(4,5) by simp
  then show "init_ok pid opts (literal_statement before after (so_application_name opts))"
    "init_ok pid opts (literal_statement before after (so_timezone opts))" by (auto simp: session_values_def)
qed

lemma session_schema:
  "quotes_names pid st \<Longrightarrow> list_all plain before \<Longrightarrow> CHR '';'' \<notin> set before \<Longrightarrow>
   init_ok pid opts (schema_statement st before (so_schema opts))"
  unfolding list_all_iff[of "reads_as _ _ _"] by (intro ballI reads_as_schema_statement) (auto simp: session_names_def)

lemma session_fixed:
  "\<not> backslash_escapes pid \<Longrightarrow> list_all plain before \<Longrightarrow> CHR '';'' \<notin> set before \<Longrightarrow> v \<in> session_values opts \<Longrightarrow>
   reads_as pid (session_values opts) (session_names opts) (before @ literal v)"
  using reads_as_literal[of pid before "[]" v "session_values opts" "session_names opts"] by simp

lemma oracle_init_ok:
  "init_ok ''oracle'' opts [''ALTER SESSION SET NLS_DATE_FORMAT='' @ literal ''YYYY-MM-DD HH24:MI:SS'',
     ''ALTER SESSION SET NLS_TIMESTAMP_FORMAT='' @ literal ''YYYY-MM-DD HH24:MI:SS.FF'',
     ''ALTER SESSION SET NLS_NUMERIC_CHARACTERS='' @ literal ''.,'']"
  unfolding list.pred_inject by (intro conjI session_fixed; simp add: plain_def session_values_def backslash_escapes_def)

lemma sqlserver_session:
  "\<exists>stmts. dispatch_session_init ''sqlserver'' opts = stmts @ so_extra_sql opts \<and> init_ok ''sqlserver'' opts stmts"
  by (rule exI[of _ "[''SET ARITHABORT ON'', ''SET CONCAT_NULL_YIELDS_NULL ON'']"])
    (simp add: dispatch_session_init_def sqlserver_initialization_sql_def reads_as_plain plain_def)

lemma sybase_session:
  "\<exists>stmts. dispatch_session_init ''sybase'' opts = stmts @ so_extra_sql opts \<and> init_ok ''sybase'' opts stmts"
  by (rule exI[of _ "[''SET QUOTED_IDENTIFIER ON'', ''SET CHAINED OFF'']"])
    (simp add: dispatch_session_init_def sybase_initialization_sql_def reads_as_plain plain_def)

lemma sqlite_session:
  "\<exists>stmts. dispatch_session_init ''sqlite'' opts = stmts @ so_extra_sql opts \<and> init_ok ''sqlite'' opts stmts"
  by (rule exI[of _ "[''PRAGMA foreign_keys = ON'', ''PRAGMA journal_mode = WAL'', ''PRAGMA synchronous = NORMAL'']"])
    (simp add: dispatch_session_init_def sqlite_initialization_sql_def reads_as_plain plain_def)

lemma postgres_session:
  "\<exists>stmts. dispatch_session_init ''postgres'' opts = stmts @ so_extra_sql opts \<and> init_ok ''postgres'' opts stmts"
  by (rule exI[of _ "literal_statement ''SET application_name = '' [] (so_application_name opts) @ literal_statement ''SET TIME ZONE '' [] (so_timezone opts) @
      schema_statement DoubleQuote ''SET search_path TO '' (so_schema opts)"])
    (simp add: dispatch_session_init_def postgres_initialization_sql_def session_literal session_schema plain_def backslash_escapes_def)

lemma db2_session:
  "\<exists>stmts. dispatch_session_init ''db2'' opts = stmts @ so_extra_sql opts \<and> init_ok ''db2'' opts stmts"
  by (rule exI[of _ "schema_statement DoubleQuote ''SET CURRENT SCHEMA = '' (so_schema opts) @
      literal_statement ''CALL SYSPROC.WLM_SET_CLIENT_INFO('' '', NULL, NULL, NULL, NULL)'' (so_application_name opts)"])
    (simp add: dispatch_session_init_def db2_initialization_sql_def session_literal session_schema plain_def backslash_escapes_def)

lemma oracle_session:
  "\<exists>stmts. dispatch_session_init ''oracle'' opts = stmts @ so_extra_sql opts \<and> init_ok ''oracle'' opts stmts"
proof -
  have "init_ok ''oracle'' opts (literal_statement ''ALTER SESSION SET TIME_ZONE='' [] (so_timezone opts) @
      schema_statement DoubleQuote ''ALTER SESSION SET CURRENT_SCHEMA = '' (so_schema opts))"
    by (simp add: session_literal session_schema plain_def backslash_escapes_def)
  then show ?thesis
    using oracle_init_ok[of opts] unfolding dispatch_session_init_def oracle_initialization_sql_def
    by (simp add: append_assoc[symmetric] del: append_Cons list.pred_inject append_assoc)
qed

text \<open>
  C28. Setting up a session cannot be injected into on SQL Server, PostgreSQL, Oracle, Sybase, SQLite and DB2, each
  with the quoting rules of its default settings (for PostgreSQL \<open>standard_conforming_strings\<close>, so that a backslash is
  an ordinary character): whatever the options contain, the statements generated for them (the caller's own
  \<open>extra_sql\<close> comes last, unchanged) are each read as one statement whose literals are option values or the fixed
  Oracle formats, and whose only name is the schema, which is left out when it is not a valid identifier. It does not
  hold on MySQL, MariaDB (\<open>charset_injection\<close>) and Snowflake (\<open>snowflake_backslash_injection\<close>), whose literals have
  backslash escapes that the plugins do not quote.
\<close>

theorem session_init_injection_safe:
  assumes "pid \<in> {''sqlserver'', ''postgres'', ''oracle'', ''sybase'', ''sqlite'', ''db2''}"
  shows "\<exists>stmts. dispatch_session_init pid opts = stmts @ so_extra_sql opts \<and>
    list_all (reads_as pid (session_values opts) (session_names opts)) stmts"
  using assms sqlserver_session[of opts] postgres_session[of opts] oracle_session[of opts] sybase_session[of opts]
    sqlite_session[of opts] db2_session[of opts] by blast

theorem session_init_injection_safe_witness:
  "\<exists>stmts. dispatch_session_init ''db2'' (default_session_options\<lparr>so_application_name := Some [CHR ''a'', CHR 0x27]\<rparr>) = stmts @ [] \<and>
    list_all (reads_as ''db2'' (session_values (default_session_options\<lparr>so_application_name := Some [CHR ''a'', CHR 0x27]\<rparr>))
      (session_names (default_session_options\<lparr>so_application_name := Some [CHR ''a'', CHR 0x27]\<rparr>))) stmts"
  using session_init_injection_safe[of "''db2''" "default_session_options\<lparr>so_application_name := Some [CHR ''a'', CHR 0x27]\<rparr>"]
  by (simp add: default_session_options_def)

text \<open>
  On Snowflake a value that starts with a backslash and a quote closes its own literal: the plugin doubles the quote,
  the server takes the first of the two as escaped and the second as the end of the literal. The rest of the value,
  whatever it is, is then SQL text. This holds for the application name and for the time zone.
\<close>

theorem snowflake_backslash_injection:
  assumes "u \<noteq> []" and "hd u \<noteq> CHR 0x27" and "w = CHR 0x5C # CHR 0x27 # u"
  shows "(so_application_name opts = Some w \<longrightarrow>
       ''ALTER SESSION SET QUERY_TAG = '' @ literal w \<in> set (dispatch_session_init ''snowflake'' opts)) \<and>
     (so_timezone opts = Some w \<longrightarrow>
       ''ALTER SESSION SET TIMEZONE = '' @ literal w \<in> set (dispatch_session_init ''snowflake'' opts)) \<and>
     (\<exists>body. literal w = CHR 0x27 # body \<and>
        scan_literal_text ''snowflake'' (CHR 0x27) body = Some ([CHR 0x5C, CHR 0x27], escape_quotes u @ [CHR 0x27]))"
proof -
  have e: "escape_quotes w = CHR 0x5C # CHR 0x27 # CHR 0x27 # escape_quotes u"
    by (simp add: assms(3) escape_quotes_def replace_char_def)
  obtain d r where "escape_quotes u = d # r" "d \<noteq> CHR 0x27"
    using assms(1,2) that by (cases u) (auto simp: escape_quotes_def replace_char_def)
  then have "scan_escaped (CHR 0x27) (escape_quotes w @ [CHR 0x27]) = Some ([CHR 0x5C, CHR 0x27], escape_quotes u @ [CHR 0x27])"
    by (simp add: e)
  then show ?thesis
    by (auto simp: dispatch_session_init_def snowflake_initialization_sql_def literal_statement_def literal_def
        scan_literal_text_def backslash_escapes_def)
qed

theorem snowflake_backslash_injection_witness:
  "\<exists>body. literal (CHR 0x5C # CHR 0x27 # ''; DROP TABLE t --'') = CHR 0x27 # body \<and>
     scan_literal_text ''snowflake'' (CHR 0x27) body =
       Some ([CHR 0x5C, CHR 0x27], escape_quotes ''; DROP TABLE t --'' @ [CHR 0x27])"
  using snowflake_backslash_injection[of "''; DROP TABLE t --''" "CHR 0x5C # CHR 0x27 # ''; DROP TABLE t --''"] by simp

text \<open>
  On MySQL and MariaDB the character set is written into \<open>SET NAMES\<close> bare: any text without a single quote gets
  into the statement unchanged, a second statement for instance.
\<close>

theorem charset_injection:
  assumes "pid = ''mysql'' \<or> pid = ''mariadb''" and "so_charset opts = Some c" and "CHR 0x27 \<notin> set c"
  shows "\<exists>rest. dispatch_session_init pid opts = (''SET NAMES '' @ c) # rest"
proof -
  have "replace_char (CHR 0x27) [] c = c" using assms(3) by (induction c) (auto simp: replace_char_def)
  then show ?thesis
    using assms(1,2) by (auto simp: dispatch_session_init_def mysql_initialization_sql_def mariadb_initialization_sql_def)
qed

theorem charset_injection_witness:
  "\<exists>rest. dispatch_session_init ''mysql'' (default_session_options\<lparr>so_charset := Some ''utf8; DROP TABLE t''\<rparr>) =
     (''SET NAMES '' @ ''utf8; DROP TABLE t'') # rest"
  using charset_injection[of "''mysql''" "default_session_options\<lparr>so_charset := Some ''utf8; DROP TABLE t''\<rparr>" "''utf8; DROP TABLE t''"]
  by (simp add: default_session_options_def)

text \<open>
  A MySQL upsert quotes the same column in two ways: between double quotes in the column list, which MySQL reads as a
  string literal in its default mode, and between backticks in the list of updates, which it reads as a name.
\<close>

theorem mysql_upsert_mixes_quotes:
  assumes "upsert_accepted ''mysql'' table columns conflict update" and "c \<in> set columns"
    and "u \<in> set (effective_update_columns columns conflict update)"
  shows "\<exists>sql ts. dispatch_upsert ''mysql'' table columns conflict update = Ok sql \<and> lex_sql ''mysql'' sql = Some ts \<and>
    Lit c \<in> set ts \<and> Name Backtick u \<in> set ts"
proof -
  let ?ts = "upsert_tokens ''mysql'' (split_on (CHR ''.'') table) columns conflict (effective_update_columns columns conflict update)"
  have m: "x \<in> set (g c) \<Longrightarrow> c \<in> set cs \<Longrightarrow> x \<in> set (tjoin sep (map g cs))" for x g c cs sep
    by (induction cs rule: induct_list012) auto
  have "Name DoubleQuote c \<in> set (names DoubleQuote columns)" unfolding names_def by (rule m[OF _ assms(2)]) simp
  moreover have "Name Backtick u \<in> set (assignments '', '' Backtick [] '' = VALUES('' '')'' (effective_update_columns columns conflict update))"
    unfolding assignments_def by (rule m[OF _ assms(3)]) simp
  ultimately have "Name DoubleQuote c \<in> set ?ts" "Name Backtick u \<in> set ?ts"
    using assms(3) by (auto simp: upsert_tokens_def on_duplicate_key_def)
  then have "seen ''mysql'' (Name DoubleQuote c) \<in> set (map (seen ''mysql'') ?ts)"
    "seen ''mysql'' (Name Backtick u) \<in> set (map (seen ''mysql'') ?ts)" unfolding set_map by (blast intro: imageI)+
  moreover have "lex_sql ''mysql'' (render ?ts) = Some (map (seen ''mysql'') ?ts)"
    using readable_upsert[OF assms(1)] lex_render upsert_styles(1) by blast
  ultimately show ?thesis using dispatch_upsert_Ok[OF assms(1)] by simp
qed

section \<open>Finding the plugin\<close>

text \<open>The plugin of each engine that has one.\<close>

definition engine_plugin :: "string \<Rightarrow> driver_plugin option" where
  "engine_plugin e = map_of
     [(ENGINE_SQLSERVER, SqlServerPlugin), (ENGINE_POSTGRES, PostgresPlugin), (ENGINE_MYSQL, MySqlPlugin),
      (ENGINE_MARIADB, MariaDbPlugin), (ENGINE_ORACLE, OraclePlugin), (ENGINE_SYBASE_ASE, SybasePlugin),
      (ENGINE_SYBASE_ASA, SybasePlugin), (ENGINE_SQLITE, SqlitePlugin), (ENGINE_DB2, Db2Plugin),
      (ENGINE_SNOWFLAKE, SnowflakePlugin)] e"

definition display_names :: "string list" where
  "display_names = map (\<lambda>e. dc_driver_name (capabilities_of e)) all_engines"

lemma display_names_recognised:
  "list_all (\<lambda>e. engine_from_name (to_ascii_lowercase (dc_driver_name (capabilities_of e))) = e) all_engines"
proof -
  have "map (\<lambda>e. to_ascii_lowercase (dc_driver_name (capabilities_of e))) all_engines =
      [''sql server'', ''postgresql'', ''mysql'', ''mariadb'', ''oracle'', ''adaptive server enterprise'', ''sql anywhere'',
       ''sqlite'', ''ibm db2'', ''snowflake'', ''amazon redshift'', ''google bigquery'', ''mongodb'', ''unknown'']"
    by code_simp
  moreover have "map engine_from_name
      [''sql server'', ''postgresql'', ''mysql'', ''mariadb'', ''oracle'', ''adaptive server enterprise'', ''sql anywhere'',
       ''sqlite'', ''ibm db2'', ''snowflake'', ''amazon redshift'', ''google bigquery'', ''mongodb'', ''unknown''] = all_engines"
    by code_simp
  ultimately have "map (\<lambda>e. engine_from_name (to_ascii_lowercase (dc_driver_name (capabilities_of e)))) all_engines = map (\<lambda>e. e) all_engines"
    by (metis (no_types, lifting) list.map_comp comp_def list.map_ident map_eq_conv)
  then show ?thesis by (simp only: map_eq_conv list_all_iff)
qed

lemma all_engines_lower: "list_all (\<lambda>e. to_ascii_lowercase e = e) all_engines"
  by code_simp

lemma capabilities_unknown: "capabilities_of ENGINE_UNKNOWN = default_capabilities"
  by (simp add: capabilities_of_def engine_ids)

lemma registry_default_get:
  "registry_get registry_default n =
     (case map_of (map (\<lambda>p. (plugin_name p, p)) [SqlServerPlugin, OraclePlugin, PostgresPlugin, MySqlPlugin, MariaDbPlugin, SybasePlugin,
        SqlitePlugin, Db2Plugin, SnowflakePlugin]) n of
        Some p \<Rightarrow> Ok p | None \<Rightarrow> Err (InternalError (''Plugin not found: '' @ n)))"
  by (simp add: registry_get_def registry_default_def registry_register_def registry_new_def)

lemma plugin_id_engine:
  assumes "trim (dc_driver_name (capabilities_of e)) = dc_driver_name (capabilities_of e)"
    "lower (dc_driver_name (capabilities_of e)) = to_ascii_lowercase (dc_driver_name (capabilities_of e))" "e \<in> set all_engines"
  shows "plugin_id_for_dbms_name trim lower (dc_driver_name (capabilities_of e)) = map_option plugin_name (engine_plugin e)"
proof -
  have "engine_from_name (lower (trim (dc_driver_name (capabilities_of e)))) = e"
    using assms display_names_recognised by (simp add: list_all_iff)
  then have "dc_engine (from_driver_name trim lower (dc_driver_name (capabilities_of e))) = e"
    using assms(3) by (simp add: from_driver_name_def capabilities_engine)
  then show ?thesis using assms(3) by (simp add: plugin_id_for_dbms_name_def Let_def engine_plugin_def)
qed

lemma engine_plugin_get:
  "e \<in> set all_engines \<Longrightarrow> registry_get registry_default (case engine_plugin e of Some p \<Rightarrow> plugin_name p | None \<Rightarrow> e) =
     (case engine_plugin e of Some p \<Rightarrow> Ok p | None \<Rightarrow> Err (InternalError (''Plugin not found: '' @ e)))"
  by (auto simp: all_engines_def registry_default_get engine_plugin_def engine_ids)

text \<open>
  The plugin for a connection string is that of the engine recognised in it, although the detection goes on through the
  engine's display name: exactly the connections to the ten engines with a plugin are supported, both Sybase
  engines share one, and Redshift, BigQuery and MongoDB are detected but have none. (\<open>trim\<close> and \<open>lower\<close> act on the
  ASCII names of the engines as the standard library does.)
\<close>

theorem plugin_for_connection:
  assumes "\<And>n. n \<in> set all_engines \<union> set display_names \<Longrightarrow> trim n = n \<and> lower n = to_ascii_lowercase n"
  shows "get_for_connection trim lower registry_default conn_str = engine_plugin (engine_from_name (lower conn_str)) \<and>
    is_supported trim lower registry_default conn_str = (engine_plugin (engine_from_name (lower conn_str)) \<noteq> None) \<and>
    detect_driver trim lower conn_str =
      (if engine_from_name (lower conn_str) = ENGINE_UNKNOWN then None
       else case engine_plugin (engine_from_name (lower conn_str)) of
         Some p \<Rightarrow> Some (plugin_name p)
       | None \<Rightarrow> Some (engine_from_name (lower conn_str)))"
proof -
  let ?e = "engine_from_name (lower conn_str)"
  have e: "?e \<in> set all_engines" by (rule engine_from_name_known)
  have t: "trim ?e = ?e \<and> lower ?e = ?e"
    using assms[of ?e] e all_engines_lower by (auto simp: list_all_iff)
  have caps: "detect_from_connection_string trim lower conn_str = capabilities_of ?e"
    using t engine_from_id[OF e]
    by (simp add: detect_from_connection_string_def Let_def from_driver_name_def capabilities_unknown)
  have d: "dc_driver_name (capabilities_of ?e) \<in> set display_names" using e by (simp add: display_names_def)
  have i: "plugin_id_for_dbms_name trim lower (dc_driver_name (capabilities_of ?e)) = map_option plugin_name (engine_plugin ?e)"
    by (rule plugin_id_engine) (use assms d e in auto)
  have det: "detect_driver trim lower conn_str = (if ?e = ENGINE_UNKNOWN then None
       else case engine_plugin ?e of Some p \<Rightarrow> Some (plugin_name p) | None \<Rightarrow> Some ?e)"
    by (cases "engine_plugin ?e") (simp_all add: detect_driver_def caps capabilities_engine[OF e] i)
  have u: "engine_plugin ENGINE_UNKNOWN = None" by (simp add: engine_plugin_def engine_ids)
  show ?thesis
    using engine_plugin_get[OF e] u det
    by (cases "engine_plugin ?e") (auto simp: get_for_connection_def is_supported_def)
qed

theorem plugin_for_connection_witness:
  "get_for_connection id to_ascii_lowercase registry_default ''Driver={Snowflake}'' = Some SnowflakePlugin"
proof -
  have "to_ascii_lowercase ''Driver={Snowflake}'' = ''driver={snowflake}''" by code_simp
  moreover have "engine_from_name ''driver={snowflake}'' = ENGINE_SNOWFLAKE" by code_simp
  moreover have "engine_plugin ENGINE_SNOWFLAKE = Some SnowflakePlugin" by (simp add: engine_plugin_def engine_ids)
  ultimately show ?thesis using plugin_for_connection[of id to_ascii_lowercase "''Driver={Snowflake}''"] by simp
qed

end
