(* ===== verification/Plugin_Catalog.thy ===== *)
theory Plugin_Catalog
  imports Plugins
begin

text \<open>
  The catalog queries of the driver plugins (\<open>plugins/capabilities/catalog_provider.rs\<close> and the
  \<open>CatalogProvider\<close> implementations in \<open>plugins/*.rs\<close>): for each database the text and the parameters of the queries
  that list tables, columns, primary keys, foreign keys and indexes, with the defaults over
  \<open>INFORMATION_SCHEMA\<close> that some of them keep.
\<close>

record catalog_query =
  cq_sql :: string
  cq_params :: "param_value list"

text \<open>\<open>CatalogQuery::new\<close>; \<open>no_params\<close> is the empty list.\<close>

definition catalog_new :: "string \<Rightarrow> param_value list \<Rightarrow> catalog_query" where
  "catalog_new sql params = \<lparr>cq_sql = sql, cq_params = params\<rparr>"

text \<open>The pattern \<open>Some(s) if !s.trim().is_empty()\<close>, with the trimmed name it binds.\<close>

definition given_schema :: "string option \<Rightarrow> string option" where
  "given_schema schema = (case schema of Some s \<Rightarrow> if str_trim s = [] then None else Some (str_trim s) | None \<Rightarrow> None)"

section \<open>The defaults\<close>

definition default_list_tables :: "string option \<Rightarrow> string option \<Rightarrow> catalog_query result" where
  "default_list_tables catalog schema =
     (let cat = (case catalog of Some c \<Rightarrow> str_trim c | None \<Rightarrow> []); sch = (case schema of Some c \<Rightarrow> str_trim c | None \<Rightarrow> []) in
      if cat = [] \<and> sch = [] then
        Ok (catalog_new (''SELECT TABLE_CATALOG, TABLE_SCHEMA, TABLE_NAME, TABLE_TYPE FROM INFORMATION_SCHEMA.TABLES WHERE '' @
        ''TABLE_TYPE IN ('BASE TABLE','VIEW') ORDER BY TABLE_CATALOG, TABLE_SCHEMA, TABLE_NAME'') [])
      else if sch = [] then
        Ok (catalog_new (''SELECT TABLE_CATALOG, TABLE_SCHEMA, TABLE_NAME, TABLE_TYPE FROM INFORMATION_SCHEMA.TABLES WHERE '' @
        ''TABLE_TYPE IN ('BASE TABLE','VIEW') AND TABLE_CATALOG = ? ORDER BY TABLE_SCHEMA, TABLE_NAME'') [PV_String cat])
      else if cat = [] then
        Ok (catalog_new (''SELECT TABLE_CATALOG, TABLE_SCHEMA, TABLE_NAME, TABLE_TYPE FROM INFORMATION_SCHEMA.TABLES WHERE '' @
        ''TABLE_TYPE IN ('BASE TABLE','VIEW') AND TABLE_SCHEMA = ? ORDER BY TABLE_NAME'') [PV_String sch])
      else
        Ok (catalog_new (''SELECT TABLE_CATALOG, TABLE_SCHEMA, TABLE_NAME, TABLE_TYPE FROM INFORMATION_SCHEMA.TABLES WHERE '' @
        ''TABLE_TYPE IN ('BASE TABLE','VIEW') AND TABLE_CATALOG = ? AND TABLE_SCHEMA = ? ORDER BY '' @
        ''TABLE_NAME'') [PV_String cat, PV_String sch]))"

definition default_list_columns :: "string \<Rightarrow> string option \<Rightarrow> catalog_query result" where
  "default_list_columns table schema =
     (if str_trim table = [] then Err (ValidationError ''Table name cannot be empty'')
      else (case given_schema schema of
        Some s \<Rightarrow>
          Ok (catalog_new (''SELECT TABLE_CATALOG, TABLE_SCHEMA, TABLE_NAME, COLUMN_NAME, ORDINAL_POSITION, DATA_TYPE, '' @
        ''IS_NULLABLE, COLUMN_DEFAULT FROM INFORMATION_SCHEMA.COLUMNS WHERE TABLE_NAME = ? AND '' @
        ''TABLE_SCHEMA = ? ORDER BY ORDINAL_POSITION'') [PV_String (str_trim table), PV_String s])
      | None \<Rightarrow>
          Ok (catalog_new (''SELECT TABLE_CATALOG, TABLE_SCHEMA, TABLE_NAME, COLUMN_NAME, ORDINAL_POSITION, DATA_TYPE, '' @
        ''IS_NULLABLE, COLUMN_DEFAULT FROM INFORMATION_SCHEMA.COLUMNS WHERE TABLE_NAME = ? ORDER BY '' @
        ''ORDINAL_POSITION'') [PV_String (str_trim table)])))"

section \<open>SQL Server\<close>

definition sqlserver_list_primary_keys_sql :: "string \<Rightarrow> string option \<Rightarrow> catalog_query result" where
  "sqlserver_list_primary_keys_sql table schema =
     Ok (catalog_new (''SELECT s.name AS TABLE_SCHEMA, t.name AS TABLE_NAME, c.name AS COLUMN_NAME, ic.key_ordinal AS '' @
        ''POSITION FROM sys.indexes i JOIN sys.tables t ON i.object_id = t.object_id JOIN sys.schemas s '' @
        ''ON t.schema_id = s.schema_id JOIN sys.index_columns ic ON i.object_id = ic.object_id AND '' @
        ''i.index_id = ic.index_id JOIN sys.columns c ON ic.object_id = c.object_id AND ic.column_id = '' @
        ''c.column_id WHERE i.is_primary_key = 1 AND t.name = ? ORDER BY ic.key_ordinal'') [PV_String table])"

definition sqlserver_list_foreign_keys_sql :: "string \<Rightarrow> string option \<Rightarrow> catalog_query result" where
  "sqlserver_list_foreign_keys_sql table schema =
     Ok (catalog_new (''SELECT sch.name AS TABLE_SCHEMA, t.name AS TABLE_NAME, fc.name AS COLUMN_NAME, rsch.name AS '' @
        ''REFERENCED_SCHEMA, rt.name AS REFERENCED_TABLE, rc.name AS REFERENCED_COLUMN, '' @
        ''fkc.constraint_column_id AS POSITION FROM sys.foreign_keys fk JOIN sys.foreign_key_columns fkc '' @
        ''ON fk.object_id = fkc.constraint_object_id JOIN sys.tables t ON fk.parent_object_id = '' @
        ''t.object_id JOIN sys.schemas sch ON t.schema_id = sch.schema_id JOIN sys.columns fc ON '' @
        ''fkc.parent_object_id = fc.object_id AND fkc.parent_column_id = fc.column_id JOIN sys.tables rt '' @
        ''ON fk.referenced_object_id = rt.object_id JOIN sys.schemas rsch ON rt.schema_id = '' @
        ''rsch.schema_id JOIN sys.columns rc ON fkc.referenced_object_id = rc.object_id AND '' @
        ''fkc.referenced_column_id = rc.column_id WHERE t.name = ? ORDER BY fkc.constraint_column_id'') [PV_String table])"

definition sqlserver_list_indexes_sql :: "string \<Rightarrow> string option \<Rightarrow> catalog_query result" where
  "sqlserver_list_indexes_sql table schema =
     Ok (catalog_new (''SELECT s.name AS TABLE_SCHEMA, t.name AS TABLE_NAME, i.name AS INDEX_NAME, c.name AS '' @
        ''COLUMN_NAME, ic.key_ordinal AS COLUMN_POSITION, CASE WHEN i.is_unique = 1 THEN 'UNIQUE' ELSE '' @
        [CHR 0x27] @ ''NON-UNIQUE' END AS DESCEND FROM sys.indexes i JOIN sys.tables t ON i.object_id = t.object_id '' @
        ''JOIN sys.schemas s ON t.schema_id = s.schema_id JOIN sys.index_columns ic ON i.object_id = '' @
        ''ic.object_id AND i.index_id = ic.index_id JOIN sys.columns c ON ic.object_id = c.object_id AND '' @
        ''ic.column_id = c.column_id WHERE t.name = ? AND i.type > 0 ORDER BY i.name, ic.key_ordinal'') [PV_String table])"

section \<open>PostgreSQL\<close>

definition postgres_list_primary_keys_sql :: "string \<Rightarrow> string option \<Rightarrow> catalog_query result" where
  "postgres_list_primary_keys_sql table schema =
     Ok (catalog_new (''SELECT tc.table_schema AS TABLE_SCHEMA, tc.table_name AS TABLE_NAME, kcu.column_name AS '' @
        ''COLUMN_NAME, kcu.ordinal_position AS POSITION FROM information_schema.table_constraints tc JOIN '' @
        ''information_schema.key_column_usage kcu ON tc.constraint_name = kcu.constraint_name WHERE '' @
        ''tc.constraint_type = 'PRIMARY KEY' AND tc.table_name = ? ORDER BY kcu.ordinal_position'') [PV_String table])"

definition postgres_list_foreign_keys_sql :: "string \<Rightarrow> string option \<Rightarrow> catalog_query result" where
  "postgres_list_foreign_keys_sql table schema =
     Ok (catalog_new (''SELECT tc.table_schema AS TABLE_SCHEMA, tc.table_name AS TABLE_NAME, kcu.column_name AS '' @
        ''COLUMN_NAME, ccu.table_schema AS REFERENCED_SCHEMA, ccu.table_name AS REFERENCED_TABLE, '' @
        ''ccu.column_name AS REFERENCED_COLUMN, kcu.ordinal_position AS POSITION FROM '' @
        ''information_schema.table_constraints tc JOIN information_schema.key_column_usage kcu ON '' @
        ''tc.constraint_name = kcu.constraint_name JOIN information_schema.constraint_column_usage ccu ON '' @
        ''ccu.constraint_name = tc.constraint_name WHERE tc.constraint_type = 'FOREIGN KEY' AND '' @
        ''tc.table_name = ? ORDER BY kcu.ordinal_position'') [PV_String table])"

definition postgres_list_indexes_sql :: "string \<Rightarrow> string option \<Rightarrow> catalog_query result" where
  "postgres_list_indexes_sql table schema =
     Ok (catalog_new (''SELECT schemaname AS TABLE_SCHEMA, tablename AS TABLE_NAME, indexname AS INDEX_NAME, NULL AS '' @
        ''COLUMN_NAME, 0 AS COLUMN_POSITION, indexdef AS DESCEND FROM pg_indexes WHERE tablename = ?'') [PV_String table])"

section \<open>MySQL\<close>

definition mysql_list_primary_keys_sql :: "string \<Rightarrow> string option \<Rightarrow> catalog_query result" where
  "mysql_list_primary_keys_sql table schema =
     Ok (catalog_new (''SELECT TABLE_SCHEMA, TABLE_NAME, COLUMN_NAME, ORDINAL_POSITION AS POSITION FROM '' @
        ''INFORMATION_SCHEMA.KEY_COLUMN_USAGE WHERE CONSTRAINT_NAME = 'PRIMARY' AND TABLE_NAME = ? ORDER '' @
        ''BY ORDINAL_POSITION'') [PV_String table])"

definition mysql_list_foreign_keys_sql :: "string \<Rightarrow> string option \<Rightarrow> catalog_query result" where
  "mysql_list_foreign_keys_sql table schema =
     Ok (catalog_new (''SELECT TABLE_SCHEMA, TABLE_NAME, COLUMN_NAME, REFERENCED_TABLE_SCHEMA AS REFERENCED_SCHEMA, '' @
        ''REFERENCED_TABLE_NAME AS REFERENCED_TABLE, REFERENCED_COLUMN_NAME AS REFERENCED_COLUMN, '' @
        ''ORDINAL_POSITION AS POSITION FROM INFORMATION_SCHEMA.KEY_COLUMN_USAGE WHERE '' @
        ''REFERENCED_TABLE_NAME IS NOT NULL AND TABLE_NAME = ? ORDER BY ORDINAL_POSITION'') [PV_String table])"

definition mysql_list_indexes_sql :: "string \<Rightarrow> string option \<Rightarrow> catalog_query result" where
  "mysql_list_indexes_sql table schema =
     Ok (catalog_new (''SELECT TABLE_SCHEMA, TABLE_NAME, INDEX_NAME, COLUMN_NAME, SEQ_IN_INDEX AS COLUMN_POSITION, CASE '' @
        ''WHEN NON_UNIQUE = 0 THEN 'UNIQUE' ELSE 'NON-UNIQUE' END AS DESCEND FROM '' @
        ''INFORMATION_SCHEMA.STATISTICS WHERE TABLE_NAME = ? ORDER BY INDEX_NAME, SEQ_IN_INDEX'') [PV_String table])"

section \<open>MariaDB\<close>

definition mariadb_list_primary_keys_sql :: "string \<Rightarrow> string option \<Rightarrow> catalog_query result" where
  "mariadb_list_primary_keys_sql table schema =
     Ok (catalog_new (''SELECT TABLE_SCHEMA, TABLE_NAME, COLUMN_NAME, ORDINAL_POSITION AS POSITION FROM '' @
        ''INFORMATION_SCHEMA.KEY_COLUMN_USAGE WHERE CONSTRAINT_NAME = 'PRIMARY' AND TABLE_NAME = ? ORDER '' @
        ''BY ORDINAL_POSITION'') [PV_String table])"

definition mariadb_list_foreign_keys_sql :: "string \<Rightarrow> string option \<Rightarrow> catalog_query result" where
  "mariadb_list_foreign_keys_sql table schema =
     Ok (catalog_new (''SELECT TABLE_SCHEMA, TABLE_NAME, COLUMN_NAME, REFERENCED_TABLE_SCHEMA AS REFERENCED_SCHEMA, '' @
        ''REFERENCED_TABLE_NAME AS REFERENCED_TABLE, REFERENCED_COLUMN_NAME AS REFERENCED_COLUMN, '' @
        ''ORDINAL_POSITION AS POSITION FROM INFORMATION_SCHEMA.KEY_COLUMN_USAGE WHERE '' @
        ''REFERENCED_TABLE_NAME IS NOT NULL AND TABLE_NAME = ? ORDER BY ORDINAL_POSITION'') [PV_String table])"

definition mariadb_list_indexes_sql :: "string \<Rightarrow> string option \<Rightarrow> catalog_query result" where
  "mariadb_list_indexes_sql table schema =
     Ok (catalog_new (''SELECT TABLE_SCHEMA, TABLE_NAME, INDEX_NAME, COLUMN_NAME, SEQ_IN_INDEX AS COLUMN_POSITION, CASE '' @
        ''WHEN NON_UNIQUE = 0 THEN 'UNIQUE' ELSE 'NON-UNIQUE' END AS DESCEND FROM '' @
        ''INFORMATION_SCHEMA.STATISTICS WHERE TABLE_NAME = ? ORDER BY INDEX_NAME, SEQ_IN_INDEX'') [PV_String table])"

section \<open>Oracle\<close>

definition oracle_list_tables_sql :: "string option \<Rightarrow> string option \<Rightarrow> catalog_query result" where
  "oracle_list_tables_sql catalog schema =
     (case given_schema schema of
        Some s \<Rightarrow>
          Ok (catalog_new (''SELECT NULL AS TABLE_CATALOG, OWNER AS TABLE_SCHEMA, TABLE_NAME, 'BASE TABLE' AS TABLE_TYPE '' @
        ''FROM ALL_TABLES WHERE OWNER = ? ORDER BY TABLE_NAME'') [PV_String s])
      | None \<Rightarrow>
          Ok (catalog_new (''SELECT NULL AS TABLE_CATALOG, USER AS TABLE_SCHEMA, TABLE_NAME, 'BASE TABLE' AS TABLE_TYPE FROM '' @
        ''USER_TABLES ORDER BY TABLE_NAME'') []))"

definition oracle_list_columns_sql :: "string \<Rightarrow> string option \<Rightarrow> catalog_query result" where
  "oracle_list_columns_sql table schema =
     (if str_trim table = [] then Err (ValidationError ''Table name cannot be empty'')
      else (case given_schema schema of
        Some s \<Rightarrow>
          Ok (catalog_new (''SELECT NULL AS TABLE_CATALOG, OWNER AS TABLE_SCHEMA, TABLE_NAME, COLUMN_NAME, COLUMN_ID AS '' @
        ''ORDINAL_POSITION, DATA_TYPE, NULLABLE AS IS_NULLABLE, DATA_DEFAULT AS COLUMN_DEFAULT FROM '' @
        ''ALL_TAB_COLUMNS WHERE TABLE_NAME = ? AND OWNER = ? ORDER BY COLUMN_ID'') [PV_String (str_trim table), PV_String s])
      | None \<Rightarrow>
          Ok (catalog_new (''SELECT NULL AS TABLE_CATALOG, USER AS TABLE_SCHEMA, TABLE_NAME, COLUMN_NAME, COLUMN_ID AS '' @
        ''ORDINAL_POSITION, DATA_TYPE, NULLABLE AS IS_NULLABLE, DATA_DEFAULT AS COLUMN_DEFAULT FROM '' @
        ''USER_TAB_COLUMNS WHERE TABLE_NAME = ? ORDER BY COLUMN_ID'') [PV_String (str_trim table)])))"

definition oracle_list_primary_keys_sql :: "string \<Rightarrow> string option \<Rightarrow> catalog_query result" where
  "oracle_list_primary_keys_sql table schema =
     (case given_schema schema of
        Some s \<Rightarrow>
          Ok (catalog_new (''SELECT cc.OWNER AS TABLE_SCHEMA, cc.TABLE_NAME, cc.COLUMN_NAME, cc.POSITION FROM '' @
        ''ALL_CONSTRAINTS c JOIN ALL_CONS_COLUMNS cc ON c.OWNER = cc.OWNER AND c.CONSTRAINT_NAME = '' @
        ''cc.CONSTRAINT_NAME WHERE c.CONSTRAINT_TYPE = 'P' AND c.TABLE_NAME = ? AND c.OWNER = ? ORDER BY '' @
        ''cc.POSITION'') [PV_String (str_trim table), PV_String s])
      | None \<Rightarrow>
          Ok (catalog_new (''SELECT USER AS TABLE_SCHEMA, cc.TABLE_NAME, cc.COLUMN_NAME, cc.POSITION FROM USER_CONSTRAINTS c '' @
        ''JOIN USER_CONS_COLUMNS cc ON c.CONSTRAINT_NAME = cc.CONSTRAINT_NAME WHERE c.CONSTRAINT_TYPE = '' @
        [CHR 0x27] @ ''P' AND c.TABLE_NAME = ? ORDER BY cc.POSITION'') [PV_String (str_trim table)]))"

definition oracle_list_foreign_keys_sql :: "string \<Rightarrow> string option \<Rightarrow> catalog_query result" where
  "oracle_list_foreign_keys_sql table schema =
     Ok (catalog_new (''SELECT a.OWNER AS TABLE_SCHEMA, a.TABLE_NAME, a.COLUMN_NAME, c_pk.OWNER AS REFERENCED_SCHEMA, '' @
        ''c_pk.TABLE_NAME AS REFERENCED_TABLE, b.COLUMN_NAME AS REFERENCED_COLUMN, a.POSITION FROM '' @
        ''ALL_CONS_COLUMNS a JOIN ALL_CONSTRAINTS c ON a.OWNER = c.OWNER AND a.CONSTRAINT_NAME = '' @
        ''c.CONSTRAINT_NAME JOIN ALL_CONSTRAINTS c_pk ON c.R_OWNER = c_pk.OWNER AND c.R_CONSTRAINT_NAME = '' @
        ''c_pk.CONSTRAINT_NAME JOIN ALL_CONS_COLUMNS b ON c_pk.OWNER = b.OWNER AND c_pk.CONSTRAINT_NAME = '' @
        ''b.CONSTRAINT_NAME AND a.POSITION = b.POSITION WHERE c.CONSTRAINT_TYPE = 'R' AND a.TABLE_NAME = '' @
        ''? ORDER BY a.POSITION'') [PV_String table])"

definition oracle_list_indexes_sql :: "string \<Rightarrow> string option \<Rightarrow> catalog_query result" where
  "oracle_list_indexes_sql table schema =
     (case given_schema schema of
        Some s \<Rightarrow>
          Ok (catalog_new (''SELECT INDEX_OWNER AS TABLE_SCHEMA, TABLE_NAME, INDEX_NAME, COLUMN_NAME, COLUMN_POSITION, '' @
        ''DESCEND FROM ALL_IND_COLUMNS WHERE TABLE_NAME = ? AND INDEX_OWNER = ? ORDER BY INDEX_NAME, '' @
        ''COLUMN_POSITION'') [PV_String (str_trim table), PV_String s])
      | None \<Rightarrow>
          Ok (catalog_new (''SELECT USER AS TABLE_SCHEMA, TABLE_NAME, INDEX_NAME, COLUMN_NAME, COLUMN_POSITION, DESCEND FROM '' @
        ''USER_IND_COLUMNS WHERE TABLE_NAME = ? ORDER BY INDEX_NAME, COLUMN_POSITION'') [PV_String (str_trim table)]))"

section \<open>Sybase\<close>

definition sybase_list_tables_sql :: "string option \<Rightarrow> string option \<Rightarrow> catalog_query result" where
  "sybase_list_tables_sql catalog schema =
     Ok (catalog_new (''SELECT db_name() AS TABLE_CATALOG, user_name(uid) AS TABLE_SCHEMA, name AS TABLE_NAME, CASE '' @
        ''type WHEN 'U' THEN 'BASE TABLE' WHEN 'V' THEN 'VIEW' ELSE type END AS TABLE_TYPE FROM '' @
        ''sysobjects WHERE type IN ('U','V') ORDER BY name'') [])"

definition sybase_list_columns_sql :: "string \<Rightarrow> string option \<Rightarrow> catalog_query result" where
  "sybase_list_columns_sql table schema =
     Ok (catalog_new (''SELECT db_name() AS TABLE_CATALOG, user_name(o.uid) AS TABLE_SCHEMA, o.name AS TABLE_NAME, '' @
        ''c.name AS COLUMN_NAME, c.colid AS ORDINAL_POSITION, type_name(c.usertype) AS DATA_TYPE, CASE '' @
        ''WHEN (c.status & 8) = 0 THEN 'NO' ELSE 'YES' END AS IS_NULLABLE, NULL AS COLUMN_DEFAULT FROM '' @
        ''sysobjects o JOIN syscolumns c ON o.id = c.id WHERE o.name = ? AND o.type = 'U' ORDER BY c.colid'') [PV_String (str_trim table)])"

definition sybase_list_primary_keys_sql :: "string \<Rightarrow> string option \<Rightarrow> catalog_query result" where
  "sybase_list_primary_keys_sql table schema =
     Ok (catalog_new (''SELECT user_name(o.uid) AS TABLE_SCHEMA, o.name AS TABLE_NAME, c.name AS COLUMN_NAME, ik.colid '' @
        ''AS POSITION FROM sysobjects o JOIN sysindexes i ON o.id = i.id AND i.status & 2048 = 2048 JOIN '' @
        ''sysindexkeys ik ON i.id = ik.id AND i.indid = ik.indid JOIN syscolumns c ON ik.id = c.id AND '' @
        ''ik.colid = c.colid WHERE o.name = ? ORDER BY ik.colid'') [PV_String table])"

definition sybase_list_foreign_keys_sql :: "string \<Rightarrow> string option \<Rightarrow> catalog_query result" where
  "sybase_list_foreign_keys_sql table schema =
     Ok (catalog_new (''SELECT user_name(o.uid) AS TABLE_SCHEMA, o.name AS TABLE_NAME, fc.name AS COLUMN_NAME, '' @
        ''user_name(po.uid) AS REFERENCED_SCHEMA, po.name AS REFERENCED_TABLE, pc.name AS '' @
        ''REFERENCED_COLUMN, 1 AS POSITION FROM sysreferences r JOIN sysobjects o ON r.tableid = o.id '' @
        ''JOIN sysobjects po ON r.reftabid = po.id JOIN syscolumns fc ON r.tableid = fc.id AND r.fokey1 = '' @
        ''fc.colid JOIN syscolumns pc ON r.reftabid = pc.id AND r.refkey1 = pc.colid WHERE o.name = ?'') [PV_String table])"

definition sybase_list_indexes_sql :: "string \<Rightarrow> string option \<Rightarrow> catalog_query result" where
  "sybase_list_indexes_sql table schema =
     Ok (catalog_new (''SELECT user_name(o.uid) AS TABLE_SCHEMA, o.name AS TABLE_NAME, i.name AS INDEX_NAME, c.name AS '' @
        ''COLUMN_NAME, ik.colid AS COLUMN_POSITION, CASE WHEN i.status & 2 = 2 THEN 'UNIQUE' ELSE '' @
        [CHR 0x27] @ ''NON-UNIQUE' END AS DESCEND FROM sysobjects o JOIN sysindexes i ON o.id = i.id JOIN '' @
        ''sysindexkeys ik ON i.id = ik.id AND i.indid = ik.indid JOIN syscolumns c ON ik.id = c.id AND '' @
        ''ik.colid = c.colid WHERE o.name = ? AND i.indid > 0 ORDER BY i.name, ik.colid'') [PV_String table])"

section \<open>SQLite\<close>

definition sqlite_list_tables_sql :: "string option \<Rightarrow> string option \<Rightarrow> catalog_query result" where
  "sqlite_list_tables_sql catalog schema =
     Ok (catalog_new (''SELECT NULL AS TABLE_CATALOG, NULL AS TABLE_SCHEMA, name AS TABLE_NAME, UPPER(type) AS '' @
        ''TABLE_TYPE FROM sqlite_master WHERE type IN ('table','view') ORDER BY name'') [])"

definition sqlite_list_columns_sql :: "string \<Rightarrow> string option \<Rightarrow> catalog_query result" where
  "sqlite_list_columns_sql table schema =
     (if str_trim table = [] then Err (ValidationError ''Table name cannot be empty'')
      else Ok (catalog_new (''SELECT NULL AS TABLE_CATALOG, NULL AS TABLE_SCHEMA, ? AS TABLE_NAME, name AS COLUMN_NAME, cid + '' @
        ''1 AS ORDINAL_POSITION, type AS DATA_TYPE, CASE WHEN [notnull] = 0 THEN 'YES' ELSE 'NO' END AS '' @
        ''IS_NULLABLE, dflt_value AS COLUMN_DEFAULT FROM pragma_table_info(?) ORDER BY cid'') [PV_String (str_trim table), PV_String (str_trim table)]))"

definition sqlite_list_primary_keys_sql :: "string \<Rightarrow> string option \<Rightarrow> catalog_query result" where
  "sqlite_list_primary_keys_sql table schema =
     Ok (catalog_new (''SELECT NULL AS TABLE_SCHEMA, ? AS TABLE_NAME, name AS COLUMN_NAME, pk AS POSITION FROM '' @
        ''pragma_table_info(?) WHERE pk > 0 ORDER BY pk'') [PV_String (str_trim table), PV_String (str_trim table)])"

definition sqlite_list_foreign_keys_sql :: "string \<Rightarrow> string option \<Rightarrow> catalog_query result" where
  "sqlite_list_foreign_keys_sql table schema =
     Ok (catalog_new (''SELECT NULL AS TABLE_SCHEMA, ? AS TABLE_NAME, [from] AS COLUMN_NAME, NULL AS REFERENCED_SCHEMA, '' @
        ''[table] AS REFERENCED_TABLE, [to] AS REFERENCED_COLUMN, seq AS POSITION FROM '' @
        ''pragma_foreign_key_list(?) ORDER BY id, seq'') [PV_String (str_trim table), PV_String (str_trim table)])"

definition sqlite_list_indexes_sql :: "string \<Rightarrow> string option \<Rightarrow> catalog_query result" where
  "sqlite_list_indexes_sql table schema =
     Ok (catalog_new (''SELECT NULL AS TABLE_SCHEMA, ? AS TABLE_NAME, name AS INDEX_NAME, NULL AS COLUMN_NAME, seq AS '' @
        ''COLUMN_POSITION, CASE WHEN [unique] = 1 THEN 'UNIQUE' ELSE 'NON-UNIQUE' END AS DESCEND FROM '' @
        ''pragma_index_list(?) ORDER BY seq'') [PV_String (str_trim table), PV_String (str_trim table)])"

section \<open>Db2\<close>

definition db2_list_tables_sql :: "string option \<Rightarrow> string option \<Rightarrow> catalog_query result" where
  "db2_list_tables_sql catalog schema =
     (case given_schema schema of
        Some s \<Rightarrow>
          Ok (catalog_new (''SELECT NULL AS TABLE_CATALOG, TABSCHEMA AS TABLE_SCHEMA, TABNAME AS TABLE_NAME, CASE TYPE WHEN '' @
        [CHR 0x27] @ ''T' THEN 'BASE TABLE' WHEN 'V' THEN 'VIEW' ELSE 'OTHER' END AS TABLE_TYPE FROM SYSCAT.TABLES '' @
        ''WHERE TABSCHEMA = UPPER(?) ORDER BY TABNAME'') [PV_String s])
      | None \<Rightarrow>
          Ok (catalog_new (''SELECT NULL AS TABLE_CATALOG, TABSCHEMA AS TABLE_SCHEMA, TABNAME AS TABLE_NAME, CASE TYPE WHEN '' @
        [CHR 0x27] @ ''T' THEN 'BASE TABLE' WHEN 'V' THEN 'VIEW' ELSE 'OTHER' END AS TABLE_TYPE FROM SYSCAT.TABLES '' @
        ''WHERE TABSCHEMA NOT LIKE 'SYS%' ORDER BY TABSCHEMA, TABNAME'') []))"

definition db2_list_columns_sql :: "string \<Rightarrow> string option \<Rightarrow> catalog_query result" where
  "db2_list_columns_sql table schema =
     (case given_schema schema of
        Some s \<Rightarrow>
          Ok (catalog_new (''SELECT NULL AS TABLE_CATALOG, TABSCHEMA AS TABLE_SCHEMA, TABNAME AS TABLE_NAME, COLNAME AS '' @
        ''COLUMN_NAME, COLNO + 1 AS ORDINAL_POSITION, TYPENAME AS DATA_TYPE, NULLS AS IS_NULLABLE, '' @
        ''DEFAULT AS COLUMN_DEFAULT FROM SYSCAT.COLUMNS WHERE TABNAME = UPPER(?) AND TABSCHEMA = UPPER(?) '' @
        ''ORDER BY COLNO'') [PV_String (str_trim table), PV_String s])
      | None \<Rightarrow>
          Ok (catalog_new (''SELECT NULL AS TABLE_CATALOG, TABSCHEMA AS TABLE_SCHEMA, TABNAME AS TABLE_NAME, COLNAME AS '' @
        ''COLUMN_NAME, COLNO + 1 AS ORDINAL_POSITION, TYPENAME AS DATA_TYPE, NULLS AS IS_NULLABLE, '' @
        ''DEFAULT AS COLUMN_DEFAULT FROM SYSCAT.COLUMNS WHERE TABNAME = UPPER(?) ORDER BY COLNO'') [PV_String (str_trim table)]))"

definition db2_list_primary_keys_sql :: "string \<Rightarrow> string option \<Rightarrow> catalog_query result" where
  "db2_list_primary_keys_sql table schema =
     Ok (catalog_new (''SELECT TABSCHEMA AS TABLE_SCHEMA, TABNAME AS TABLE_NAME, COLNAME AS COLUMN_NAME, COLSEQ AS '' @
        ''POSITION FROM SYSCAT.KEYCOLUSE WHERE CONSTNAME IN (SELECT CONSTNAME FROM SYSCAT.TABCONST WHERE '' @
        ''TYPE='P' AND TABNAME=UPPER(?)) ORDER BY COLSEQ'') [PV_String table])"

definition db2_list_foreign_keys_sql :: "string \<Rightarrow> string option \<Rightarrow> catalog_query result" where
  "db2_list_foreign_keys_sql table schema =
     Ok (catalog_new (''SELECT r.TABSCHEMA AS TABLE_SCHEMA, r.TABNAME AS TABLE_NAME, k.COLNAME AS COLUMN_NAME, '' @
        ''r.REFTABSCHEMA AS REFERENCED_SCHEMA, r.REFTABNAME AS REFERENCED_TABLE, pk.COLNAME AS '' @
        ''REFERENCED_COLUMN, k.COLSEQ AS POSITION FROM SYSCAT.REFERENCES r JOIN SYSCAT.KEYCOLUSE k ON '' @
        ''r.CONSTNAME = k.CONSTNAME AND r.TABNAME = k.TABNAME JOIN SYSCAT.KEYCOLUSE pk ON r.REFKEYNAME = '' @
        ''pk.CONSTNAME AND k.COLSEQ = pk.COLSEQ WHERE r.TABNAME = UPPER(?) ORDER BY k.COLSEQ'') [PV_String table])"

definition db2_list_indexes_sql :: "string \<Rightarrow> string option \<Rightarrow> catalog_query result" where
  "db2_list_indexes_sql table schema =
     Ok (catalog_new (''SELECT i.TABSCHEMA AS TABLE_SCHEMA, i.TABNAME AS TABLE_NAME, i.INDNAME AS INDEX_NAME, c.COLNAME '' @
        ''AS COLUMN_NAME, c.COLSEQ AS COLUMN_POSITION, CASE i.UNIQUERULE WHEN 'U' THEN 'UNIQUE' ELSE '' @
        [CHR 0x27] @ ''NON-UNIQUE' END AS DESCEND FROM SYSCAT.INDEXES i JOIN SYSCAT.INDEXCOLUSE c ON i.INDNAME = '' @
        ''c.INDNAME WHERE i.TABNAME = UPPER(?) ORDER BY i.INDNAME, c.COLSEQ'') [PV_String table])"

section \<open>Snowflake\<close>

definition snowflake_list_primary_keys_sql :: "string \<Rightarrow> string option \<Rightarrow> catalog_query result" where
  "snowflake_list_primary_keys_sql table schema =
     Ok (catalog_new (''SELECT table_schema AS TABLE_SCHEMA, table_name AS TABLE_NAME, column_name AS COLUMN_NAME, '' @
        ''key_sequence AS POSITION FROM INFORMATION_SCHEMA.TABLE_CONSTRAINTS tc JOIN '' @
        ''INFORMATION_SCHEMA.KEY_COLUMN_USAGE kcu ON tc.constraint_name = kcu.constraint_name WHERE '' @
        ''tc.constraint_type = 'PRIMARY KEY' AND tc.table_name = ? ORDER BY key_sequence'') [PV_String table])"

definition snowflake_list_foreign_keys_sql :: "string \<Rightarrow> string option \<Rightarrow> catalog_query result" where
  "snowflake_list_foreign_keys_sql table schema =
     Ok (catalog_new (''SELECT table_schema AS TABLE_SCHEMA, table_name AS TABLE_NAME, column_name AS COLUMN_NAME, NULL '' @
        ''AS REFERENCED_SCHEMA, NULL AS REFERENCED_TABLE, NULL AS REFERENCED_COLUMN, key_sequence AS '' @
        ''POSITION FROM INFORMATION_SCHEMA.KEY_COLUMN_USAGE WHERE table_name = ? ORDER BY key_sequence'') [PV_String table])"

definition snowflake_list_indexes_sql :: "string \<Rightarrow> string option \<Rightarrow> catalog_query result" where
  "snowflake_list_indexes_sql table schema =
     Ok (catalog_new (''SELECT NULL AS TABLE_SCHEMA, NULL AS TABLE_NAME, NULL AS INDEX_NAME, NULL AS COLUMN_NAME, 0 AS '' @
        ''COLUMN_POSITION, '' @ [CHR 0x27, CHR 0x27] @ '' AS DESCEND WHERE 1 = 0'') [])"

section \<open>The trait\<close>

fun list_tables_sql :: "driver_plugin \<Rightarrow> string option \<Rightarrow> string option \<Rightarrow> catalog_query result" where
  "list_tables_sql SqlServerPlugin = default_list_tables"
| "list_tables_sql OraclePlugin = oracle_list_tables_sql"
| "list_tables_sql PostgresPlugin = default_list_tables"
| "list_tables_sql MySqlPlugin = default_list_tables"
| "list_tables_sql MariaDbPlugin = default_list_tables"
| "list_tables_sql SybasePlugin = sybase_list_tables_sql"
| "list_tables_sql SqlitePlugin = sqlite_list_tables_sql"
| "list_tables_sql Db2Plugin = db2_list_tables_sql"
| "list_tables_sql SnowflakePlugin = default_list_tables"

fun list_columns_sql :: "driver_plugin \<Rightarrow> string \<Rightarrow> string option \<Rightarrow> catalog_query result" where
  "list_columns_sql SqlServerPlugin = default_list_columns"
| "list_columns_sql OraclePlugin = oracle_list_columns_sql"
| "list_columns_sql PostgresPlugin = default_list_columns"
| "list_columns_sql MySqlPlugin = default_list_columns"
| "list_columns_sql MariaDbPlugin = default_list_columns"
| "list_columns_sql SybasePlugin = sybase_list_columns_sql"
| "list_columns_sql SqlitePlugin = sqlite_list_columns_sql"
| "list_columns_sql Db2Plugin = db2_list_columns_sql"
| "list_columns_sql SnowflakePlugin = default_list_columns"

fun list_primary_keys_sql :: "driver_plugin \<Rightarrow> string \<Rightarrow> string option \<Rightarrow> catalog_query result" where
  "list_primary_keys_sql SqlServerPlugin = sqlserver_list_primary_keys_sql"
| "list_primary_keys_sql OraclePlugin = oracle_list_primary_keys_sql"
| "list_primary_keys_sql PostgresPlugin = postgres_list_primary_keys_sql"
| "list_primary_keys_sql MySqlPlugin = mysql_list_primary_keys_sql"
| "list_primary_keys_sql MariaDbPlugin = mariadb_list_primary_keys_sql"
| "list_primary_keys_sql SybasePlugin = sybase_list_primary_keys_sql"
| "list_primary_keys_sql SqlitePlugin = sqlite_list_primary_keys_sql"
| "list_primary_keys_sql Db2Plugin = db2_list_primary_keys_sql"
| "list_primary_keys_sql SnowflakePlugin = snowflake_list_primary_keys_sql"

fun list_foreign_keys_sql :: "driver_plugin \<Rightarrow> string \<Rightarrow> string option \<Rightarrow> catalog_query result" where
  "list_foreign_keys_sql SqlServerPlugin = sqlserver_list_foreign_keys_sql"
| "list_foreign_keys_sql OraclePlugin = oracle_list_foreign_keys_sql"
| "list_foreign_keys_sql PostgresPlugin = postgres_list_foreign_keys_sql"
| "list_foreign_keys_sql MySqlPlugin = mysql_list_foreign_keys_sql"
| "list_foreign_keys_sql MariaDbPlugin = mariadb_list_foreign_keys_sql"
| "list_foreign_keys_sql SybasePlugin = sybase_list_foreign_keys_sql"
| "list_foreign_keys_sql SqlitePlugin = sqlite_list_foreign_keys_sql"
| "list_foreign_keys_sql Db2Plugin = db2_list_foreign_keys_sql"
| "list_foreign_keys_sql SnowflakePlugin = snowflake_list_foreign_keys_sql"

fun list_indexes_sql :: "driver_plugin \<Rightarrow> string \<Rightarrow> string option \<Rightarrow> catalog_query result" where
  "list_indexes_sql SqlServerPlugin = sqlserver_list_indexes_sql"
| "list_indexes_sql OraclePlugin = oracle_list_indexes_sql"
| "list_indexes_sql PostgresPlugin = postgres_list_indexes_sql"
| "list_indexes_sql MySqlPlugin = mysql_list_indexes_sql"
| "list_indexes_sql MariaDbPlugin = mariadb_list_indexes_sql"
| "list_indexes_sql SybasePlugin = sybase_list_indexes_sql"
| "list_indexes_sql SqlitePlugin = sqlite_list_indexes_sql"
| "list_indexes_sql Db2Plugin = db2_list_indexes_sql"
| "list_indexes_sql SnowflakePlugin = snowflake_list_indexes_sql"

end
