(* ===== verification/Caches.thy ===== *)
theory Caches
  imports Session
begin

text \<open>
  The two caches of the engine: table metadata and catalog answers with a time to live
  (\<open>engine/core/metadata_cache.rs\<close>), and the texts of the prepared statements with their counters
  (\<open>engine/core/prepared_cache.rs\<close>), with the entry points of \<open>ffi/mod.rs\<close> that manage them. Both are built on
  the cache of the \<open>lru\<close> crate: its operations are an argument, and the locale \<open>lru\<close> states what its
  documentation promises of them. Times are nanoseconds.
\<close>

section \<open>The cache of the \<open>lru\<close> crate\<close>

record ('k, 'v, 'c) lru_api =
  lru_new :: "nat \<Rightarrow> 'c"
  lru_get :: "'k \<Rightarrow> 'c \<Rightarrow> 'v option \<times> 'c"
  lru_put :: "'k \<Rightarrow> 'v \<Rightarrow> 'c \<Rightarrow> 'c"
  lru_pop :: "'k \<Rightarrow> 'c \<Rightarrow> 'c"
  lru_contains :: "'k \<Rightarrow> 'c \<Rightarrow> bool"
  lru_clear :: "'c \<Rightarrow> 'c"
  lru_len :: "'c \<Rightarrow> nat"

text \<open>
  The documented behaviour, over the entries from the most to the least recently used: \<open>get\<close> and \<open>put\<close> move an entry
  to the front, \<open>contains\<close> does not, and \<open>put\<close> drops the last entry when the capacity is exceeded.
\<close>

locale lru =
  fixes api :: "('k, 'v, 'c) lru_api" and entries :: "'c \<Rightarrow> ('k \<times> 'v) list" and cap :: "'c \<Rightarrow> nat"
  assumes new: "0 < n \<Longrightarrow> entries (lru_new api n) = [] \<and> cap (lru_new api n) = n"
    and get: "fst (lru_get api k c) = map_of (entries c) k \<and> cap (snd (lru_get api k c)) = cap c \<and>
      entries (snd (lru_get api k c)) =
        (case map_of (entries c) k of Some v \<Rightarrow> (k, v) # AList.delete k (entries c) | None \<Rightarrow> entries c)"
    and put: "entries (lru_put api k v c) = take (cap c) ((k, v) # AList.delete k (entries c)) \<and> cap (lru_put api k v c) = cap c"
    and pop: "entries (lru_pop api k c) = AList.delete k (entries c) \<and> cap (lru_pop api k c) = cap c"
    and contains: "lru_contains api k c \<longleftrightarrow> map_of (entries c) k \<noteq> None"
    and clear: "entries (lru_clear api c) = [] \<and> cap (lru_clear api c) = cap c"
    and len: "lru_len api c = length (entries c)"

text \<open>An implementation that meets it: a capacity and the list of entries.\<close>

definition list_lru :: "('k, 'v, nat \<times> ('k \<times> 'v) list) lru_api" where
  "list_lru =
     \<lparr>lru_new = (\<lambda>n. (n, [])),
      lru_get = (\<lambda>k (n, es). case map_of es k of Some v \<Rightarrow> (Some v, (n, (k, v) # AList.delete k es)) | None \<Rightarrow> (None, (n, es))),
      lru_put = (\<lambda>k v (n, es). (n, take n ((k, v) # AList.delete k es))),
      lru_pop = (\<lambda>k (n, es). (n, AList.delete k es)),
      lru_contains = (\<lambda>k (n, es). map_of es k \<noteq> None),
      lru_clear = (\<lambda>(n, es). (n, [])),
      lru_len = (\<lambda>(n, es). length es)\<rparr>"

interpretation list_lru: lru list_lru snd fst
  by unfold_locales (auto simp: list_lru_def split: prod.splits option.splits)

section \<open>The metadata cache\<close>

record cached_column =
  cmd_name :: string
  cmd_odbc_type :: i16
  cmd_nullable :: bool

record table_schema =
  ts_table_name :: string
  ts_columns :: "cached_column list"
  ts_cached_at :: nat

record cached_payload =
  cp_data :: bytes
  cp_cached_at :: nat

record metadata_cache_stats =
  mst_max_size :: usize
  mst_ttl_secs :: nat
  mst_schema_entries :: usize
  mst_payload_entries :: usize

record ('s, 'p) metadata_cache =
  mc_schemas :: 's
  mc_schemas_poisoned :: bool
  mc_payloads :: 'p
  mc_payloads_poisoned :: bool
  mc_ttl :: nat
  mc_max_size :: usize

type_synonym 's schema_lru = "(string, table_schema, 's) lru_api"
type_synonym 'p payload_lru = "(string, cached_payload, 'p) lru_api"

definition metadata_cache_new :: "'s schema_lru \<Rightarrow> 'p payload_lru \<Rightarrow> usize \<Rightarrow> nat \<Rightarrow> ('s, 'p) metadata_cache" where
  "metadata_cache_new sl pl max_size ttl =
     \<lparr>mc_schemas = lru_new sl (max max_size 1), mc_schemas_poisoned = False, mc_payloads = lru_new pl (max max_size 1),
      mc_payloads_poisoned = False, mc_ttl = ttl, mc_max_size = max max_size 1\<rparr>"

definition get_schema :: "'s schema_lru \<Rightarrow> nat \<Rightarrow> string \<Rightarrow> ('s, 'p) metadata_cache \<Rightarrow> table_schema option \<times> ('s, 'p) metadata_cache" where
  "get_schema sl now table m =
     (if mc_schemas_poisoned m then (None, m)
      else case lru_get sl table (mc_schemas m) of
        (None, c) \<Rightarrow> (None, m\<lparr>mc_schemas := c\<rparr>)
      | (Some schema, c) \<Rightarrow>
          if now - ts_cached_at schema > mc_ttl m then (None, m\<lparr>mc_schemas := lru_pop sl table c\<rparr>)
          else (Some schema, m\<lparr>mc_schemas := c\<rparr>))"

definition cache_schema :: "'s schema_lru \<Rightarrow> string \<Rightarrow> table_schema \<Rightarrow> ('s, 'p) metadata_cache \<Rightarrow> ('s, 'p) metadata_cache" where
  "cache_schema sl table schema m =
     (if mc_schemas_poisoned m then m else m\<lparr>mc_schemas := lru_put sl table schema (mc_schemas m)\<rparr>)"

definition get_payload :: "'p payload_lru \<Rightarrow> nat \<Rightarrow> string \<Rightarrow> ('s, 'p) metadata_cache \<Rightarrow> bytes option \<times> ('s, 'p) metadata_cache" where
  "get_payload pl now key m =
     (if mc_payloads_poisoned m then (None, m)
      else case lru_get pl key (mc_payloads m) of
        (None, c) \<Rightarrow> (None, m\<lparr>mc_payloads := c\<rparr>)
      | (Some payload, c) \<Rightarrow>
          if now - cp_cached_at payload > mc_ttl m then (None, m\<lparr>mc_payloads := lru_pop pl key c\<rparr>)
          else (Some (cp_data payload), m\<lparr>mc_payloads := c\<rparr>))"

definition cache_payload :: "'p payload_lru \<Rightarrow> nat \<Rightarrow> string \<Rightarrow> bytes \<Rightarrow> ('s, 'p) metadata_cache \<Rightarrow> ('s, 'p) metadata_cache" where
  "cache_payload pl now key data m =
     (if mc_payloads_poisoned m then m
      else m\<lparr>mc_payloads := lru_put pl key \<lparr>cp_data = data, cp_cached_at = now\<rparr> (mc_payloads m)\<rparr>)"

definition metadata_cache_clear :: "'s schema_lru \<Rightarrow> 'p payload_lru \<Rightarrow> ('s, 'p) metadata_cache \<Rightarrow> ('s, 'p) metadata_cache" where
  "metadata_cache_clear sl pl m =
     m\<lparr>mc_schemas := (if mc_schemas_poisoned m then mc_schemas m else lru_clear sl (mc_schemas m)),
       mc_payloads := (if mc_payloads_poisoned m then mc_payloads m else lru_clear pl (mc_payloads m))\<rparr>"

definition metadata_cache_statistics :: "'s schema_lru \<Rightarrow> 'p payload_lru \<Rightarrow> ('s, 'p) metadata_cache \<Rightarrow> metadata_cache_stats" where
  "metadata_cache_statistics sl pl m =
     \<lparr>mst_max_size = mc_max_size m, mst_ttl_secs = mc_ttl m div 10 ^ 9,
      mst_schema_entries = (if mc_schemas_poisoned m then 0 else lru_len sl (mc_schemas m)),
      mst_payload_entries = (if mc_payloads_poisoned m then 0 else lru_len pl (mc_payloads m))\<rparr>"

text \<open>The entry points. \<open>to_json\<close> is \<open>serde_json\<close>.\<close>

definition odbc_metadata_cache_enable ::
  "'s schema_lru \<Rightarrow> 'p payload_lru \<Rightarrow> u32 \<Rightarrow> u32 \<Rightarrow> global_state \<Rightarrow> ('s, 'p) metadata_cache \<Rightarrow> int \<times> ('s, 'p) metadata_cache"
where
  "odbc_metadata_cache_enable sl pl max_size ttl_secs s m =
     (if gs_poisoned s then (- 1, m) else (0, metadata_cache_new sl pl (unat max_size) (unat ttl_secs * 10 ^ 9)))"

definition odbc_metadata_cache_stats ::
  "'s schema_lru \<Rightarrow> 'p payload_lru \<Rightarrow> (metadata_cache_stats \<Rightarrow> bytes) \<Rightarrow> bool \<Rightarrow> u32 \<Rightarrow> global_state \<Rightarrow> ('s, 'p) metadata_cache \<Rightarrow>
   int \<times> bytes option"
where
  "odbc_metadata_cache_stats sl pl to_json null buffer_len s m =
     (if null then (- 1, None)
      else if buffer_len = 0 then (- 1, Some [])
      else if gs_poisoned s then (- 1, Some [])
      else
        let data = to_json (metadata_cache_statistics sl pl m) in
        if length data > unat buffer_len then (- 2, Some []) else (0, Some data))"

definition odbc_metadata_cache_clear ::
  "'s schema_lru \<Rightarrow> 'p payload_lru \<Rightarrow> global_state \<Rightarrow> ('s, 'p) metadata_cache \<Rightarrow> int \<times> ('s, 'p) metadata_cache"
where
  "odbc_metadata_cache_clear sl pl s m = (if gs_poisoned s then (- 1, m) else (0, metadata_cache_clear sl pl m))"

section \<open>The prepared-statement cache\<close>

record 'c prepared_cache =
  prc_cache :: 'c
  prc_poisoned :: bool
  prc_max_size :: usize
  prc_hits :: u64
  prc_misses :: u64
  prc_prepares :: u64
  prc_executions :: u64

record prepared_metrics =
  pm_cache_size :: usize
  pm_cache_max_size :: usize
  pm_cache_hits :: u64
  pm_cache_misses :: u64
  pm_total_prepares :: u64
  pm_total_executions :: u64
  pm_avg_executions_per_stmt :: u64
  pm_memory_usage_bytes :: usize

type_synonym 'c text_lru = "(string, unit, 'c) lru_api"

definition prepared_cache_new :: "'c text_lru \<Rightarrow> usize \<Rightarrow> 'c prepared_cache" where
  "prepared_cache_new tx max_size =
     \<lparr>prc_cache = lru_new tx (if max_size = 0 then 100 else max_size), prc_poisoned = False, prc_max_size = max_size,
      prc_hits = 0, prc_misses = 0, prc_prepares = 0, prc_executions = 0\<rparr>"

definition get_or_insert :: "'c text_lru \<Rightarrow> string \<Rightarrow> 'c prepared_cache \<Rightarrow> bool \<times> 'c prepared_cache" where
  "get_or_insert tx sql p =
     (if prc_poisoned p then (False, p)
      else if lru_contains tx sql (prc_cache p) then (True, p\<lparr>prc_hits := prc_hits p + 1\<rparr>)
      else (False, p\<lparr>prc_misses := prc_misses p + 1, prc_prepares := prc_prepares p + 1,
                     prc_cache := lru_put tx sql () (prc_cache p)\<rparr>))"

definition record_execution :: "'c prepared_cache \<Rightarrow> 'c prepared_cache" where
  "record_execution p = p\<lparr>prc_executions := prc_executions p + 1\<rparr>"

definition prepared_cache_len :: "'c text_lru \<Rightarrow> 'c prepared_cache \<Rightarrow> usize" where
  "prepared_cache_len tx p = (if prc_poisoned p then 0 else lru_len tx (prc_cache p))"

definition prepared_cache_clear :: "'c text_lru \<Rightarrow> 'c prepared_cache \<Rightarrow> 'c prepared_cache" where
  "prepared_cache_clear tx p = (if prc_poisoned p then p else p\<lparr>prc_cache := lru_clear tx (prc_cache p)\<rparr>)"

text \<open>\<open>ratio\<close> is the division of two counters as \<open>f64\<close>, as bits; 0 is the bit pattern of \<open>0.0\<close>.\<close>

definition get_metrics :: "'c text_lru \<Rightarrow> (u64 \<Rightarrow> u64 \<Rightarrow> u64) \<Rightarrow> 'c prepared_cache \<Rightarrow> prepared_metrics" where
  "get_metrics tx ratio p =
     \<lparr>pm_cache_size = prepared_cache_len tx p, pm_cache_max_size = prc_max_size p, pm_cache_hits = prc_hits p,
      pm_cache_misses = prc_misses p, pm_total_prepares = prc_prepares p, pm_total_executions = prc_executions p,
      pm_avg_executions_per_stmt = (if prc_prepares p = 0 then 0 else ratio (prc_executions p) (prc_prepares p)),
      pm_memory_usage_bytes = prepared_cache_len tx p * 64\<rparr>"

text \<open>The metrics object has a cache or not.\<close>

definition odbc_get_cache_metrics ::
  "'c text_lru \<Rightarrow> (u64 \<Rightarrow> u64 \<Rightarrow> u64) \<Rightarrow> bool \<Rightarrow> u32 \<Rightarrow> global_state \<Rightarrow> 'c prepared_cache option \<Rightarrow> int \<times> bytes option"
where
  "odbc_get_cache_metrics tx ratio null buffer_len s cache =
     (if null then (- 1, None)
      else if buffer_len < 64 then (- 2, None)
      else if gs_poisoned s then (- 1, None)
      else case map_option (get_metrics tx ratio) cache of
        None \<Rightarrow> (0, Some (replicate 64 0))
      | Some m \<Rightarrow>
          (0, Some (u64_le (of_nat (pm_cache_size m) :: u64) @ u64_le (of_nat (pm_cache_max_size m) :: u64) @
             u64_le (pm_cache_hits m) @ u64_le (pm_cache_misses m) @ u64_le (pm_total_prepares m) @
             u64_le (pm_total_executions m) @ u64_le (of_nat (pm_memory_usage_bytes m) :: u64) @
             u64_le (pm_avg_executions_per_stmt m))))"

definition odbc_clear_statement_cache ::
  "'c text_lru \<Rightarrow> global_state \<Rightarrow> 'c prepared_cache option \<Rightarrow> int \<times> 'c prepared_cache option"
where
  "odbc_clear_statement_cache tx s cache =
     (if gs_poisoned s then (- 1, cache) else (0, map_option (prepared_cache_clear tx) cache))"

section \<open>What the metadata cache remembers\<close>

text \<open>Runs of the cache, and what a cache that forgets nothing would hold after them.\<close>

datatype cache_op =
    Put_Payload nat string bytes
  | Get_Payload nat string
  | Put_Schema string table_schema
  | Get_Schema nat string
  | Clear_Cache

fun cache_step :: "'s schema_lru \<Rightarrow> 'p payload_lru \<Rightarrow> cache_op \<Rightarrow> ('s, 'p) metadata_cache \<Rightarrow> ('s, 'p) metadata_cache" where
  "cache_step sl pl (Put_Payload now key data) m = cache_payload pl now key data m"
| "cache_step sl pl (Get_Payload now key) m = snd (get_payload pl now key m)"
| "cache_step sl pl (Put_Schema table schema) m = cache_schema sl table schema m"
| "cache_step sl pl (Get_Schema now table) m = snd (get_schema sl now table m)"
| "cache_step sl pl Clear_Cache m = metadata_cache_clear sl pl m"

fun remembered :: "cache_op \<Rightarrow> (string \<rightharpoonup> bytes \<times> nat) \<Rightarrow> (string \<rightharpoonup> bytes \<times> nat)" where
  "remembered (Put_Payload now key data) a = a(key \<mapsto> (data, now))"
| "remembered Clear_Cache a = Map.empty"
| "remembered op a = a"

lemma map_of_take: "map_of (take n xs) k = Some v \<Longrightarrow> map_of xs k = Some v"
proof (induction xs arbitrary: n)
  case (Cons x xs)
  then show ?case by (cases n) (auto split: if_splits)
qed simp

lemma map_of_delete: "map_of (AList.delete k xs) k' = Some v \<longleftrightarrow> k' \<noteq> k \<and> map_of xs k' = Some v"
  by (cases "k' = k") (simp_all add: AList.delete_conv')

context lru
begin

text \<open>The entries agree with a map, and there are at most \<open>cap\<close> of them.\<close>

definition backed_by :: "('k \<rightharpoonup> 'v) \<Rightarrow> 'c \<Rightarrow> bool" where
  "backed_by a c \<longleftrightarrow> length (entries c) \<le> cap c \<and> (\<forall>k v. map_of (entries c) k = Some v \<longrightarrow> a k = Some v)"

lemma backed_new: "0 < n \<Longrightarrow> backed_by a (lru_new api n)"
  by (simp add: backed_by_def new)

lemma backed_clear: "backed_by a (lru_clear api c)"
  by (simp add: backed_by_def clear)

lemma backed_pop: "backed_by a c \<Longrightarrow> backed_by a (lru_pop api k c)"
  using le_trans[OF length_delete_le[of k "entries c"]] by (auto simp: backed_by_def pop map_of_delete)

lemma backed_put: "backed_by a c \<Longrightarrow> backed_by (a(k \<mapsto> v)) (lru_put api k v c)"
  by (auto simp: backed_by_def put map_of_delete dest!: map_of_take split: if_splits)

lemma length_move_front: "map_of es k = Some v \<Longrightarrow> Suc (length (AList.delete k es)) \<le> length es"
  by (induction es) (auto split: if_splits simp: le_SucI length_delete_le)

lemma backed_get: "backed_by a c \<Longrightarrow> backed_by a (snd (lru_get api k c))"
  using length_move_front[of "entries c" k]
  by (auto simp: backed_by_def get map_of_delete split: option.splits if_splits)

lemma get_after_put: "0 < cap c \<Longrightarrow> fst (lru_get api k (lru_put api k v c)) = Some v"
  by (cases "cap c") (simp_all add: get put)

lemma cap_get: "cap (snd (lru_get api k c)) = cap c"
  by (simp add: get)

lemma get_backed: "backed_by a c \<Longrightarrow> fst (lru_get api k c) = Some v \<Longrightarrow> a k = Some v"
  by (simp add: backed_by_def get)

lemma len_backed: "backed_by a c \<Longrightarrow> lru_len api c \<le> cap c"
  by (simp add: backed_by_def len)

end

lemmas lru_cap = lru.new lru.get lru.put lru.pop lru.clear

text \<open>The payload half of the cache against the map of everything remembered.\<close>

definition payload_map :: "(string \<rightharpoonup> bytes \<times> nat) \<Rightarrow> string \<rightharpoonup> cached_payload" where
  "payload_map a k = map_option (\<lambda>(d, t). \<lparr>cp_data = d, cp_cached_at = t\<rparr>) (a k)"

definition cache_rel ::
  "'p payload_lru \<Rightarrow> ('p \<Rightarrow> (string \<times> cached_payload) list) \<Rightarrow> ('p \<Rightarrow> nat) \<Rightarrow> usize \<Rightarrow> nat \<Rightarrow> (string \<rightharpoonup> bytes \<times> nat) \<Rightarrow>
   ('s, 'p) metadata_cache \<Rightarrow> bool"
where
  "cache_rel pl ents cap n ttl a m \<longleftrightarrow>
     lru.backed_by ents cap (payload_map a) (mc_payloads m) \<and> cap (mc_payloads m) = n \<and> mc_ttl m = ttl \<and> \<not> mc_payloads_poisoned m"

lemma cache_rel_new:
  assumes "lru pl ents cap"
  shows "cache_rel pl ents cap (max n 1) ttl Map.empty (metadata_cache_new sl pl n ttl)"
  using lru.backed_new[OF assms] lru.new[OF assms] by (auto simp: cache_rel_def metadata_cache_new_def)

lemma cache_rel_step:
  assumes l: "lru pl ents cap" and r: "cache_rel pl ents cap n ttl a m"
  shows "cache_rel pl ents cap n ttl (remembered op a) (cache_step sl pl op m)"
proof (cases op)
  case (Put_Payload now key data)
  have "payload_map (a(key \<mapsto> (data, now))) = (payload_map a)(key \<mapsto> \<lparr>cp_data = data, cp_cached_at = now\<rparr>)"
    by (auto simp: payload_map_def)
  then show ?thesis
    using r Put_Payload lru.backed_put[OF l, of "payload_map a" "mc_payloads m"] lru.put[OF l]
    by (simp add: cache_rel_def cache_payload_def)
next
  case (Get_Payload now key)
  have g: "lru.backed_by ents cap (payload_map a) (snd (lru_get pl key (mc_payloads m)))"
    using r lru.backed_get[OF l] by (simp add: cache_rel_def)
  then show ?thesis
    using r Get_Payload lru.get[OF l, of key "mc_payloads m"] lru.backed_pop[OF l g] lru.pop[OF l]
    by (auto simp: cache_rel_def get_payload_def split: prod.splits option.splits)
next
  case (Put_Schema table schema)
  then show ?thesis using r by (simp add: cache_rel_def cache_schema_def)
next
  case (Get_Schema now table)
  then show ?thesis using r by (auto simp: cache_rel_def get_schema_def split: prod.splits option.splits)
next
  case Clear_Cache
  then show ?thesis using r lru.backed_clear[OF l] lru.clear[OF l] by (simp add: cache_rel_def metadata_cache_clear_def)
qed

lemma cache_rel_run:
  assumes "lru pl ents cap" "cache_rel pl ents cap n ttl a m"
  shows "cache_rel pl ents cap n ttl (fold remembered ops a) (fold (cache_step sl pl) ops m)"
  using assms by (induction ops arbitrary: a m) (auto intro: cache_rel_step)

lemma cache_rel_get:
  assumes l: "lru pl ents cap" and r: "cache_rel pl ents cap n ttl a m" and g: "fst (get_payload pl now key m) = Some d"
  shows "\<exists>t. a key = Some (d, t) \<and> now - t \<le> ttl"
proof -
  obtain v where v: "fst (lru_get pl key (mc_payloads m)) = Some v" "d = cp_data v" "now - cp_cached_at v \<le> mc_ttl m"
    using g by (auto simp: get_payload_def split: if_splits prod.splits option.splits)
  have "payload_map a key = Some v" using lru.get_backed[OF l _ v(1)] r by (simp add: cache_rel_def)
  with v r show ?thesis by (auto simp: payload_map_def cache_rel_def)
qed

lemma cache_rel_put_get:
  assumes l: "lru pl ents cap" and r: "cache_rel pl ents cap n ttl a m" and "0 < n" and "later - now \<le> ttl"
  shows "fst (get_payload pl later key (cache_payload pl now key d m)) = Some d"
  using lru.get_after_put[OF l, of "mc_payloads m" key "\<lparr>cp_data = d, cp_cached_at = now\<rparr>"] r assms(3,4)
  by (auto simp: cache_rel_def get_payload_def cache_payload_def split: prod.splits option.splits)

text \<open>
  C30. The metadata cache is a bounded, expiring view of what was stored: after any run of it, whatever was evicted, an answer
  is the last payload stored under that key since the last clear, and is not older than the time to live; there are never more
  entries than its size; and what was just stored is found until it expires.
\<close>

theorem metadata_cache_refines:
  assumes "lru pl ents cap"
  shows "let m = fold (cache_step sl pl) ops (metadata_cache_new sl pl max_size ttl) in
    (\<forall>now key d. fst (get_payload pl now key m) = Some d \<longrightarrow>
      (\<exists>t. fold remembered ops Map.empty key = Some (d, t) \<and> now - t \<le> ttl)) \<and>
    mst_payload_entries (metadata_cache_statistics sl pl m) \<le> max max_size 1 \<and>
    (\<forall>now later key d. later - now \<le> ttl \<longrightarrow> fst (get_payload pl later key (cache_payload pl now key d m)) = Some d)"
proof -
  let ?m = "fold (cache_step sl pl) ops (metadata_cache_new sl pl max_size ttl)"
  have r: "cache_rel pl ents cap (max max_size 1) ttl (fold remembered ops Map.empty) ?m"
    by (rule cache_rel_run[OF assms(1) cache_rel_new[OF assms(1)]])
  have "lru_len pl (mc_payloads ?m) \<le> max max_size 1"
    using lru.len_backed[OF assms(1)] r unfolding cache_rel_def by fastforce
  with r show ?thesis
    using cache_rel_get[OF assms(1) r] cache_rel_put_get[OF assms(1) r]
    unfolding Let_def by (auto simp: metadata_cache_statistics_def)
qed

theorem metadata_cache_refines_witness:
  "fst (get_payload list_lru 7 ''1:t'' (cache_payload list_lru 3 ''1:t'' [9] (fold (cache_step list_lru list_lru)
     [Put_Payload 1 ''1:t'' [5], Put_Payload 2 ''1:u'' [6]] (metadata_cache_new list_lru list_lru 1 10)))) = Some [9]"
proof -
  let ?m = "fold (cache_step list_lru list_lru) [Put_Payload 1 ''1:t'' [5], Put_Payload 2 ''1:u'' [6]] (metadata_cache_new list_lru list_lru 1 10)"
  have "\<forall>now later key d. later - now \<le> 10 \<longrightarrow> fst (get_payload list_lru later key (cache_payload list_lru now key d ?m)) = Some d"
    using metadata_cache_refines[OF list_lru.lru_axioms, of list_lru "[Put_Payload 1 ''1:t'' [5], Put_Payload 2 ''1:u'' [6]]" 1 10]
    unfolding Let_def by blast
  then have "(7 :: nat) - 3 \<le> 10 \<longrightarrow> fst (get_payload list_lru 7 ''1:t'' (cache_payload list_lru 3 ''1:t'' [9] ?m)) = Some [9]" by blast
  then show ?thesis by (rule mp) simp
qed

text \<open>
  The cache of prepared statements is not kept in order of use: \<open>get_or_insert\<close> looks a statement up with
  \<open>contains\<close>, which does not move it to the front. A statement that has just been used is the next one to go, if it was
  prepared first.
\<close>

theorem prepared_cache_evicts_used:
  assumes "lru tx ents cap" and "cap (prc_cache p) = 2" and "ents (prc_cache p) = [(b, ()), (a, ())]" and "a \<noteq> b" and "c \<noteq> a" and "c \<noteq> b"
    and "\<not> prc_poisoned p"
  shows "fst (get_or_insert tx a p) = True \<and>
    fst (get_or_insert tx a (snd (get_or_insert tx c (snd (get_or_insert tx a p))))) = False"
  using assms lru.contains[OF assms(1)] lru.put[OF assms(1)] by (auto simp: get_or_insert_def)

end
