(* ===== verification/Catalog.thy ===== *)
theory Catalog
  imports Plugin_Catalog Plugin_Laws Caches Requests
begin

text \<open>
  Catalog requests: the choice of the dialect and the queries for databases without a plugin
  (\<open>engine/catalog.rs\<close>), and the entry points \<open>odbc_catalog_*\<close> of \<open>ffi/mod.rs\<close>. The name a server
  reports (\<open>SQLGetInfo\<close>) is the argument \<open>dbms\<close>; \<open>trim\<close> and \<open>lower\<close> are the functions of the standard library.
\<close>

section \<open>Queries for other databases\<close>

definition fallback_tables :: "string option \<Rightarrow> string option \<Rightarrow> catalog_query" where
  "fallback_tables catalog schema =
     (let cat = (case catalog of Some c \<Rightarrow> str_trim c | None \<Rightarrow> []); sch = (case schema of Some c \<Rightarrow> str_trim c | None \<Rightarrow> []) in
      if cat = [] \<and> sch = [] then
        catalog_new (''SELECT TABLE_CATALOG, TABLE_SCHEMA, TABLE_NAME, TABLE_TYPE FROM INFORMATION_SCHEMA.TABLES WHERE '' @
        ''TABLE_TYPE IN ('BASE TABLE','VIEW') ORDER BY TABLE_CATALOG, TABLE_SCHEMA, TABLE_NAME'') []
      else if cat \<noteq> [] \<and> sch = [] then
        catalog_new (''SELECT TABLE_CATALOG, TABLE_SCHEMA, TABLE_NAME, TABLE_TYPE FROM INFORMATION_SCHEMA.TABLES WHERE '' @
        ''TABLE_TYPE IN ('BASE TABLE','VIEW') AND TABLE_CATALOG = ? ORDER BY TABLE_SCHEMA, TABLE_NAME'') [PV_String cat]
      else if cat = [] \<and> sch \<noteq> [] then
        catalog_new (''SELECT TABLE_CATALOG, TABLE_SCHEMA, TABLE_NAME, TABLE_TYPE FROM INFORMATION_SCHEMA.TABLES WHERE '' @
        ''TABLE_TYPE IN ('BASE TABLE','VIEW') AND TABLE_SCHEMA = ? ORDER BY TABLE_NAME'') [PV_String sch]
      else
        catalog_new (''SELECT TABLE_CATALOG, TABLE_SCHEMA, TABLE_NAME, TABLE_TYPE FROM INFORMATION_SCHEMA.TABLES WHERE '' @
        ''TABLE_TYPE IN ('BASE TABLE','VIEW') AND TABLE_CATALOG = ? AND TABLE_SCHEMA = ? ORDER BY '' @
        ''TABLE_NAME'') [PV_String cat, PV_String sch])"

definition fallback_columns :: "string \<Rightarrow> string option \<Rightarrow> catalog_query" where
  "fallback_columns table schema =
     (case schema of
        Some sch \<Rightarrow>
          catalog_new (''SELECT TABLE_CATALOG, TABLE_SCHEMA, TABLE_NAME, COLUMN_NAME, ORDINAL_POSITION, DATA_TYPE, '' @
        ''IS_NULLABLE FROM INFORMATION_SCHEMA.COLUMNS WHERE TABLE_SCHEMA = ? AND TABLE_NAME = ? ORDER BY '' @
        ''ORDINAL_POSITION'') [PV_String sch, PV_String table]
      | None \<Rightarrow>
          catalog_new (''SELECT TABLE_CATALOG, TABLE_SCHEMA, TABLE_NAME, COLUMN_NAME, ORDINAL_POSITION, DATA_TYPE, '' @
        ''IS_NULLABLE FROM INFORMATION_SCHEMA.COLUMNS WHERE TABLE_NAME = ? ORDER BY TABLE_SCHEMA, '' @
        ''ORDINAL_POSITION'') [PV_String table])"

definition fallback_primary_keys :: "string \<Rightarrow> string option \<Rightarrow> catalog_query" where
  "fallback_primary_keys table schema =
     (case schema of
        Some sch \<Rightarrow>
          catalog_new (''SELECT kcu.TABLE_NAME, kcu.COLUMN_NAME, kcu.ORDINAL_POSITION, tc.CONSTRAINT_NAME FROM '' @
        ''INFORMATION_SCHEMA.TABLE_CONSTRAINTS tc JOIN INFORMATION_SCHEMA.KEY_COLUMN_USAGE kcu ON '' @
        ''tc.CONSTRAINT_NAME = kcu.CONSTRAINT_NAME AND tc.TABLE_SCHEMA = kcu.TABLE_SCHEMA AND '' @
        ''tc.TABLE_NAME = kcu.TABLE_NAME WHERE tc.CONSTRAINT_TYPE = 'PRIMARY KEY' AND tc.TABLE_SCHEMA = ? '' @
        ''AND tc.TABLE_NAME = ? ORDER BY kcu.ORDINAL_POSITION'') [PV_String sch, PV_String table]
      | None \<Rightarrow>
          catalog_new (''SELECT kcu.TABLE_NAME, kcu.COLUMN_NAME, kcu.ORDINAL_POSITION, tc.CONSTRAINT_NAME FROM '' @
        ''INFORMATION_SCHEMA.TABLE_CONSTRAINTS tc JOIN INFORMATION_SCHEMA.KEY_COLUMN_USAGE kcu ON '' @
        ''tc.CONSTRAINT_NAME = kcu.CONSTRAINT_NAME AND tc.TABLE_SCHEMA = kcu.TABLE_SCHEMA AND '' @
        ''tc.TABLE_NAME = kcu.TABLE_NAME WHERE tc.CONSTRAINT_TYPE = 'PRIMARY KEY' AND tc.TABLE_NAME = ? '' @
        ''ORDER BY kcu.ORDINAL_POSITION'') [PV_String table])"

definition fallback_foreign_keys :: "string \<Rightarrow> string option \<Rightarrow> catalog_query" where
  "fallback_foreign_keys table schema =
     (case schema of
        Some sch \<Rightarrow>
          catalog_new (''SELECT rc.CONSTRAINT_NAME, kcu1.TABLE_NAME AS FROM_TABLE, kcu1.COLUMN_NAME AS FROM_COLUMN, '' @
        ''kcu2.TABLE_NAME AS TO_TABLE, kcu2.COLUMN_NAME AS TO_COLUMN, rc.UPDATE_RULE, rc.DELETE_RULE FROM '' @
        ''INFORMATION_SCHEMA.REFERENTIAL_CONSTRAINTS rc JOIN INFORMATION_SCHEMA.KEY_COLUMN_USAGE kcu1 ON '' @
        ''rc.CONSTRAINT_NAME = kcu1.CONSTRAINT_NAME AND rc.CONSTRAINT_SCHEMA = kcu1.CONSTRAINT_SCHEMA '' @
        ''JOIN INFORMATION_SCHEMA.KEY_COLUMN_USAGE kcu2 ON rc.UNIQUE_CONSTRAINT_NAME = '' @
        ''kcu2.CONSTRAINT_NAME AND rc.UNIQUE_CONSTRAINT_SCHEMA = kcu2.CONSTRAINT_SCHEMA AND '' @
        ''kcu1.ORDINAL_POSITION = kcu2.ORDINAL_POSITION WHERE kcu1.TABLE_SCHEMA = ? AND kcu1.TABLE_NAME = '' @
        ''? ORDER BY rc.CONSTRAINT_NAME, kcu1.ORDINAL_POSITION'') [PV_String sch, PV_String table]
      | None \<Rightarrow>
          catalog_new (''SELECT rc.CONSTRAINT_NAME, kcu1.TABLE_NAME AS FROM_TABLE, kcu1.COLUMN_NAME AS FROM_COLUMN, '' @
        ''kcu2.TABLE_NAME AS TO_TABLE, kcu2.COLUMN_NAME AS TO_COLUMN, rc.UPDATE_RULE, rc.DELETE_RULE FROM '' @
        ''INFORMATION_SCHEMA.REFERENTIAL_CONSTRAINTS rc JOIN INFORMATION_SCHEMA.KEY_COLUMN_USAGE kcu1 ON '' @
        ''rc.CONSTRAINT_NAME = kcu1.CONSTRAINT_NAME AND rc.CONSTRAINT_SCHEMA = kcu1.CONSTRAINT_SCHEMA '' @
        ''JOIN INFORMATION_SCHEMA.KEY_COLUMN_USAGE kcu2 ON rc.UNIQUE_CONSTRAINT_NAME = '' @
        ''kcu2.CONSTRAINT_NAME AND rc.UNIQUE_CONSTRAINT_SCHEMA = kcu2.CONSTRAINT_SCHEMA AND '' @
        ''kcu1.ORDINAL_POSITION = kcu2.ORDINAL_POSITION WHERE kcu1.TABLE_NAME = ? ORDER BY '' @
        ''rc.CONSTRAINT_NAME, kcu1.ORDINAL_POSITION'') [PV_String table])"

definition fallback_indexes :: "string \<Rightarrow> string option \<Rightarrow> catalog_query" where
  "fallback_indexes table schema =
     (case schema of
        Some sch \<Rightarrow>
          catalog_new (''SELECT tc.CONSTRAINT_NAME AS INDEX_NAME, kcu.TABLE_NAME, kcu.COLUMN_NAME, CASE WHEN '' @
        ''tc.CONSTRAINT_TYPE = 'UNIQUE' THEN 1 ELSE 0 END AS IS_UNIQUE, CASE WHEN tc.CONSTRAINT_TYPE = '' @
        [CHR 0x27] @ ''PRIMARY KEY' THEN 1 ELSE 0 END AS IS_PRIMARY, kcu.ORDINAL_POSITION FROM '' @
        ''INFORMATION_SCHEMA.TABLE_CONSTRAINTS tc JOIN INFORMATION_SCHEMA.KEY_COLUMN_USAGE kcu ON '' @
        ''tc.CONSTRAINT_NAME = kcu.CONSTRAINT_NAME AND tc.TABLE_SCHEMA = kcu.TABLE_SCHEMA AND '' @
        ''tc.TABLE_NAME = kcu.TABLE_NAME WHERE (tc.CONSTRAINT_TYPE = 'PRIMARY KEY' OR tc.CONSTRAINT_TYPE '' @
        ''= 'UNIQUE') AND tc.TABLE_SCHEMA = ? AND tc.TABLE_NAME = ? ORDER BY tc.CONSTRAINT_NAME, '' @
        ''kcu.ORDINAL_POSITION'') [PV_String sch, PV_String table]
      | None \<Rightarrow>
          catalog_new (''SELECT tc.CONSTRAINT_NAME AS INDEX_NAME, kcu.TABLE_NAME, kcu.COLUMN_NAME, CASE WHEN '' @
        ''tc.CONSTRAINT_TYPE = 'UNIQUE' THEN 1 ELSE 0 END AS IS_UNIQUE, CASE WHEN tc.CONSTRAINT_TYPE = '' @
        [CHR 0x27] @ ''PRIMARY KEY' THEN 1 ELSE 0 END AS IS_PRIMARY, kcu.ORDINAL_POSITION FROM '' @
        ''INFORMATION_SCHEMA.TABLE_CONSTRAINTS tc JOIN INFORMATION_SCHEMA.KEY_COLUMN_USAGE kcu ON '' @
        ''tc.CONSTRAINT_NAME = kcu.CONSTRAINT_NAME AND tc.TABLE_SCHEMA = kcu.TABLE_SCHEMA AND '' @
        ''tc.TABLE_NAME = kcu.TABLE_NAME WHERE (tc.CONSTRAINT_TYPE = 'PRIMARY KEY' OR tc.CONSTRAINT_TYPE '' @
        ''= 'UNIQUE') AND tc.TABLE_NAME = ? ORDER BY tc.CONSTRAINT_NAME, kcu.ORDINAL_POSITION'') [PV_String table])"

definition TYPE_INFO_SQL :: string where
  "TYPE_INFO_SQL = ''SELECT DISTINCT DATA_TYPE AS type_name FROM INFORMATION_SCHEMA.COLUMNS ORDER BY type_name''"

section \<open>The engine's side\<close>

definition dispatch_catalog ::
  "(string \<Rightarrow> string) \<Rightarrow> (string \<Rightarrow> string) \<Rightarrow> string option \<Rightarrow> (driver_plugin \<Rightarrow> catalog_query result) \<Rightarrow> catalog_query result option"
where
  "dispatch_catalog trim lower dbms live_query =
     (case dbms of
        None \<Rightarrow> None
      | Some dbms_name \<Rightarrow>
          let caps = from_driver_name trim lower dbms_name in
          (case plugin_id_for_dbms_name trim lower (dc_driver_name caps) of
             None \<Rightarrow> None
           | Some i \<Rightarrow>
               if i = ''sqlserver'' then Some (live_query SqlServerPlugin)
               else if i = ''postgres'' then Some (live_query PostgresPlugin)
               else if i = ''mysql'' then Some (live_query MySqlPlugin)
               else if i = ''mariadb'' then Some (live_query MariaDbPlugin)
               else if i = ''oracle'' then Some (live_query OraclePlugin)
               else if i = ''sybase'' then Some (live_query SybasePlugin)
               else if i = ''sqlite'' then Some (live_query SqlitePlugin)
               else if i = ''db2'' then Some (live_query Db2Plugin)
               else if i = ''snowflake'' then Some (live_query SnowflakePlugin)
               else None))"

definition execute_catalog_query :: "compressors \<Rightarrow> odbc_conn \<Rightarrow> catalog_query \<Rightarrow> bytes result" where
  "execute_catalog_query cz conn q =
     (if cq_params q = [] then execute_direct cz engine_new conn (cq_sql q)
      else execute_with_params cz engine_new conn (cq_sql q) (cq_params q))"

text \<open>A live connection: how it runs statements and the name its server reports.\<close>

record catalog_conn =
  cc_conn :: odbc_conn
  cc_dbms :: "string option"

definition list_tables ::
  "(string \<Rightarrow> string) \<Rightarrow> (string \<Rightarrow> string) \<Rightarrow> compressors \<Rightarrow> catalog_conn \<Rightarrow> string option \<Rightarrow> string option \<Rightarrow> bytes result"
where
  "list_tables trim lower cz c catalog schema =
     (case dispatch_catalog trim lower (cc_dbms c) (\<lambda>p. list_tables_sql p catalog schema) of
        Some q \<Rightarrow> obind q (execute_catalog_query cz (cc_conn c))
      | None \<Rightarrow> execute_catalog_query cz (cc_conn c) (fallback_tables catalog schema))"

definition validate_and_parse_table :: "string \<Rightarrow> (string option \<times> string) result" where
  "validate_and_parse_table table =
     (let t = str_trim table in
      if t = [] then Err (ValidationError ''Table name cannot be empty'')
      else case rfind_sub ''.'' t of
        Some dot \<Rightarrow>
          let s = str_trim (take dot t); n = str_trim (drop (dot + 1) t) in
          if n = [] then Err (ValidationError ''Invalid table name (empty after schema)'') else Ok (Some s, n)
      | None \<Rightarrow> Ok (None, t))"

text \<open>The four requests about a table share their body.\<close>

definition table_request ::
  "(string \<Rightarrow> string) \<Rightarrow> (string \<Rightarrow> string) \<Rightarrow> compressors \<Rightarrow> catalog_conn \<Rightarrow>
   (driver_plugin \<Rightarrow> string \<Rightarrow> string option \<Rightarrow> catalog_query result) \<Rightarrow> (string \<Rightarrow> string option \<Rightarrow> catalog_query) \<Rightarrow> string \<Rightarrow> bytes result"
where
  "table_request trim lower cz c live fallback table =
     obind (validate_and_parse_table table) (\<lambda>(schema, table_name).
     case dispatch_catalog trim lower (cc_dbms c) (\<lambda>p. live p table_name schema) of
       Some q \<Rightarrow> obind q (execute_catalog_query cz (cc_conn c))
     | None \<Rightarrow>
         let q = fallback table_name schema in execute_with_params cz engine_new (cc_conn c) (cq_sql q) (cq_params q))"

definition list_columns :: "(string \<Rightarrow> string) \<Rightarrow> (string \<Rightarrow> string) \<Rightarrow> compressors \<Rightarrow> catalog_conn \<Rightarrow> string \<Rightarrow> bytes result" where
  "list_columns trim lower cz c = table_request trim lower cz c list_columns_sql fallback_columns"

definition list_primary_keys :: "(string \<Rightarrow> string) \<Rightarrow> (string \<Rightarrow> string) \<Rightarrow> compressors \<Rightarrow> catalog_conn \<Rightarrow> string \<Rightarrow> bytes result" where
  "list_primary_keys trim lower cz c = table_request trim lower cz c list_primary_keys_sql fallback_primary_keys"

definition list_foreign_keys :: "(string \<Rightarrow> string) \<Rightarrow> (string \<Rightarrow> string) \<Rightarrow> compressors \<Rightarrow> catalog_conn \<Rightarrow> string \<Rightarrow> bytes result" where
  "list_foreign_keys trim lower cz c = table_request trim lower cz c list_foreign_keys_sql fallback_foreign_keys"

definition list_indexes :: "(string \<Rightarrow> string) \<Rightarrow> (string \<Rightarrow> string) \<Rightarrow> compressors \<Rightarrow> catalog_conn \<Rightarrow> string \<Rightarrow> bytes result" where
  "list_indexes trim lower cz c = table_request trim lower cz c list_indexes_sql fallback_indexes"

definition get_type_info :: "compressors \<Rightarrow> catalog_conn \<Rightarrow> bytes result" where
  "get_type_info cz c = execute_direct cz engine_new (cc_conn c) TYPE_INFO_SQL"

section \<open>The entry points\<close>

text \<open>
  What every entry point does with a connection: find it, run the request with the global lock and the connection's lock
  held (a panic poisons both), and write the answer or report the error. Nothing is written on an error.
\<close>

definition catalog_answer :: "u32 \<Rightarrow> u32 \<Rightarrow> bytes result \<Rightarrow> global_state \<Rightarrow> int \<times> bytes option \<times> global_state" where
  "catalog_answer conn_id buffer_len r s =
     (case r of
        Ok data \<Rightarrow>
          if length data > unat buffer_len then (- 2, None, set_connection_error conn_id (too_small (length data) buffer_len) s)
          else (0, Some data, s)
      | Err e \<Rightarrow> (- 1, None, set_connection_structured_error conn_id (to_structured e) s)
      | Panic \<Rightarrow> (FFI_PANIC, None, (poison_connection conn_id s)\<lparr>gs_poisoned := True\<rparr>))"

definition catalog_call :: "u32 \<Rightarrow> u32 \<Rightarrow> bytes result \<Rightarrow> global_state \<Rightarrow> int \<times> bytes option \<times> global_state" where
  "catalog_call conn_id buffer_len r s =
     (case conn_problem conn_id s of
        Some m \<Rightarrow> (- 1, None, set_connection_error conn_id m s)
      | None \<Rightarrow> catalog_answer conn_id buffer_len r s)"

definition ptr_to_opt_str :: "bytes option \<Rightarrow> string option" where
  "ptr_to_opt_str p =
     (case Option.bind p c_str of Some s \<Rightarrow> if str_trim s = [] then None else Some (str_trim s) | None \<Rightarrow> None)"

record catalog_env =
  ce_trim :: "string \<Rightarrow> string"
  ce_lower :: "string \<Rightarrow> string"
  ce_compressors :: compressors
  ce_conn :: "u32 \<Rightarrow> catalog_conn"

definition odbc_catalog_tables ::
  "catalog_env \<Rightarrow> bool \<Rightarrow> u32 \<Rightarrow> bytes option \<Rightarrow> bytes option \<Rightarrow> u32 \<Rightarrow> global_state \<Rightarrow> int \<times> bytes option \<times> global_state"
where
  "odbc_catalog_tables env null conn_id catalog schema buffer_len s =
     (if null then (- 1, None, s)
      else if gs_poisoned s then (- 1, None, s)
      else if map_of (gs_connections s) conn_id = None then (- 1, None, set_connection_error conn_id (invalid_connection conn_id) s)
      else
        catalog_call conn_id buffer_len
          (list_tables (ce_trim env) (ce_lower env) (ce_compressors env) (ce_conn env conn_id)
            (ptr_to_opt_str catalog) (ptr_to_opt_str schema)) s)"

text \<open>
  The columns of a table go through the metadata cache, which keeps the answer also when it does not fit the buffer.
\<close>

definition columns_key :: "u32 \<Rightarrow> string \<Rightarrow> string" where
  "columns_key conn_id table = show_nat (unat conn_id) @ '':'' @ table"

definition odbc_catalog_columns ::
  "catalog_env \<Rightarrow> 'p payload_lru \<Rightarrow> nat \<Rightarrow> nat \<Rightarrow> bool \<Rightarrow> u32 \<Rightarrow> bytes option \<Rightarrow> u32 \<Rightarrow> global_state \<Rightarrow> ('s, 'p) metadata_cache \<Rightarrow>
   int \<times> bytes option \<times> global_state \<times> ('s, 'p) metadata_cache"
where
  "odbc_catalog_columns env pl now later null conn_id table buffer_len s m =
     (case (if null then None else Option.bind table c_str) of
        None \<Rightarrow> (- 1, None, s, m)
      | Some t \<Rightarrow>
          if gs_poisoned s then (- 1, None, s, m)
          else if map_of (gs_connections s) conn_id = None then
            (- 1, None, set_connection_error conn_id (invalid_connection conn_id) s, m)
          else
            (case get_payload pl now (columns_key conn_id t) m of
               (Some cached, m') \<Rightarrow>
                 if length cached > unat buffer_len then
                   (- 2, None, set_connection_error conn_id (too_small (length cached) buffer_len) s, m')
                 else (0, Some cached, s, m')
             | (None, m') \<Rightarrow>
                 (case conn_problem conn_id s of
                    Some msg \<Rightarrow> (- 1, None, set_connection_error conn_id msg s, m')
                  | None \<Rightarrow>
                      let r = list_columns (ce_trim env) (ce_lower env) (ce_compressors env) (ce_conn env conn_id) t;
                          m'' = (case r of Ok data \<Rightarrow> cache_payload pl later (columns_key conn_id t) data m' | _ \<Rightarrow> m');
                          (rc, out, s') = catalog_answer conn_id buffer_len r s
                      in (rc, out, s', m''))))"

definition odbc_catalog_type_info ::
  "catalog_env \<Rightarrow> bool \<Rightarrow> u32 \<Rightarrow> u32 \<Rightarrow> global_state \<Rightarrow> int \<times> bytes option \<times> global_state"
where
  "odbc_catalog_type_info env null conn_id buffer_len s =
     (if null then (- 1, None, s)
      else if gs_poisoned s then (- 1, None, s)
      else if map_of (gs_connections s) conn_id = None then (- 1, None, set_connection_error conn_id (invalid_connection conn_id) s)
      else catalog_call conn_id buffer_len (get_type_info (ce_compressors env) (ce_conn env conn_id)) s)"

text \<open>The keys and indexes of a table: the name is read after the connection was found.\<close>

definition table_entry ::
  "(string \<Rightarrow> bytes result) \<Rightarrow> bool \<Rightarrow> u32 \<Rightarrow> bytes option \<Rightarrow> u32 \<Rightarrow> global_state \<Rightarrow> int \<times> bytes option \<times> global_state"
where
  "table_entry run null conn_id table buffer_len s =
     (case table of
        None \<Rightarrow> (- 1, None, s)
      | Some bs \<Rightarrow>
          if null \<or> gs_poisoned s then (- 1, None, s)
          else if map_of (gs_connections s) conn_id = None then (- 1, None, set_connection_error conn_id (invalid_connection conn_id) s)
          else
            (case c_str bs of
               None \<Rightarrow> (- 1, None, set_connection_error conn_id ''Invalid table name (UTF-8)'' s)
             | Some t \<Rightarrow> catalog_call conn_id buffer_len (run t) s))"

definition odbc_catalog_primary_keys ::
  "catalog_env \<Rightarrow> bool \<Rightarrow> u32 \<Rightarrow> bytes option \<Rightarrow> u32 \<Rightarrow> global_state \<Rightarrow> int \<times> bytes option \<times> global_state"
where
  "odbc_catalog_primary_keys env null conn_id =
     table_entry (list_primary_keys (ce_trim env) (ce_lower env) (ce_compressors env) (ce_conn env conn_id)) null conn_id"

definition odbc_catalog_foreign_keys ::
  "catalog_env \<Rightarrow> bool \<Rightarrow> u32 \<Rightarrow> bytes option \<Rightarrow> u32 \<Rightarrow> global_state \<Rightarrow> int \<times> bytes option \<times> global_state"
where
  "odbc_catalog_foreign_keys env null conn_id =
     table_entry (list_foreign_keys (ce_trim env) (ce_lower env) (ce_compressors env) (ce_conn env conn_id)) null conn_id"

definition odbc_catalog_indexes ::
  "catalog_env \<Rightarrow> bool \<Rightarrow> u32 \<Rightarrow> bytes option \<Rightarrow> u32 \<Rightarrow> global_state \<Rightarrow> int \<times> bytes option \<times> global_state"
where
  "odbc_catalog_indexes env null conn_id =
     table_entry (list_indexes (ce_trim env) (ce_lower env) (ce_compressors env) (ce_conn env conn_id)) null conn_id"

end
