(* ===== verification/Catalog_Laws.thy ===== *)
theory Catalog_Laws
  imports Catalog Session_Laws
begin

text \<open>
  Properties of the catalog requests: the text of a query never contains a name the caller supplied, an answer that did not fit
  the client's buffer is kept, and which requests ignore the schema they are asked about.
\<close>

section \<open>Texts and parameters\<close>

definition question_marks :: "string \<Rightarrow> nat" where
  "question_marks s = length (filter (\<lambda>c. c = CHR ''?'') s)"

lemma question_marks_simps [simp]:
  "question_marks [] = 0" "question_marks (xs @ ys) = question_marks xs + question_marks ys"
  "question_marks (c # s) = (if c = CHR ''?'' then Suc (question_marks s) else question_marks s)"
  by (simp_all add: question_marks_def)

text \<open>One value per placeholder, every value a name as it was given.\<close>

definition bound_query :: "string set \<Rightarrow> catalog_query result \<Rightarrow> bool" where
  "bound_query vals r \<longleftrightarrow>
     (case r of
        Ok q \<Rightarrow> question_marks (cq_sql q) = length (cq_params q) \<and> set (cq_params q) \<subseteq> PV_String ` vals
      | Err e \<Rightarrow> True
      | Panic \<Rightarrow> False)"

lemma bound_query_simps [simp]:
  "bound_query vals (Ok (catalog_new sql ps)) \<longleftrightarrow> question_marks sql = length ps \<and> set ps \<subseteq> PV_String ` vals"
  "bound_query vals (Err e)"
  by (simp_all add: bound_query_def catalog_new_def)

definition table_values :: "string \<Rightarrow> string option \<Rightarrow> string set" where
  "table_values table schema = {table, str_trim table} \<union> set_option (given_schema schema)"

lemma table_values_simps [simp]:
  "table \<in> table_values table schema" "str_trim table \<in> table_values table schema"
  "given_schema schema = Some s \<Longrightarrow> s \<in> table_values table schema"
  by (auto simp: table_values_def)

text \<open>Two answers with the same text, as far as there are two.\<close>

definition same_text :: "catalog_query result \<Rightarrow> catalog_query result \<Rightarrow> bool" where
  "same_text r r' \<longleftrightarrow> (case (r, r') of (Ok q, Ok q') \<Rightarrow> cq_sql q = cq_sql q' | _ \<Rightarrow> True)"

lemma same_text_simps [simp]:
  "same_text (Ok (catalog_new sql ps)) (Ok (catalog_new sql ps'))" "same_text (Err e) r" "same_text r (Err e)"
  by (simp_all add: same_text_def catalog_new_def split: outcome.split)

text \<open>Keeps the simplifier out of the texts.\<close>

lemma catalog_new_weak_cong: "ps = ps' \<Longrightarrow> catalog_new sql ps = catalog_new sql ps'"
  by simp

lemmas catalog_sql_defs =
  sqlserver_list_primary_keys_sql_def sqlserver_list_foreign_keys_sql_def sqlserver_list_indexes_sql_def
  postgres_list_primary_keys_sql_def postgres_list_foreign_keys_sql_def postgres_list_indexes_sql_def
  mysql_list_primary_keys_sql_def mysql_list_foreign_keys_sql_def mysql_list_indexes_sql_def mariadb_list_primary_keys_sql_def
  mariadb_list_foreign_keys_sql_def mariadb_list_indexes_sql_def oracle_list_tables_sql_def oracle_list_columns_sql_def
  oracle_list_primary_keys_sql_def oracle_list_foreign_keys_sql_def oracle_list_indexes_sql_def sybase_list_tables_sql_def
  sybase_list_columns_sql_def sybase_list_primary_keys_sql_def sybase_list_foreign_keys_sql_def sybase_list_indexes_sql_def
  sqlite_list_tables_sql_def sqlite_list_columns_sql_def sqlite_list_primary_keys_sql_def sqlite_list_foreign_keys_sql_def
  sqlite_list_indexes_sql_def db2_list_tables_sql_def db2_list_columns_sql_def db2_list_primary_keys_sql_def
  db2_list_foreign_keys_sql_def db2_list_indexes_sql_def snowflake_list_primary_keys_sql_def snowflake_list_foreign_keys_sql_def
  snowflake_list_indexes_sql_def default_list_tables_def default_list_columns_def

lemma list_columns_bound: "bound_query (table_values table schema) (list_columns_sql p table schema)"
  by (cases p; cases "given_schema schema"; simp add: catalog_sql_defs del: append_Cons cong: catalog_new_weak_cong)

lemma list_columns_text:
  "(given_schema schema = None \<longleftrightarrow> given_schema schema' = None) \<Longrightarrow> same_text (list_columns_sql p table schema) (list_columns_sql p table' schema')"
  by (cases p; cases "given_schema schema"; cases "given_schema schema'"; simp add: catalog_sql_defs cong: catalog_new_weak_cong)

lemma list_primary_keys_bound: "bound_query (table_values table schema) (list_primary_keys_sql p table schema)"
  by (cases p; cases "given_schema schema"; simp add: catalog_sql_defs del: append_Cons cong: catalog_new_weak_cong)

lemma list_primary_keys_text:
  "(given_schema schema = None \<longleftrightarrow> given_schema schema' = None) \<Longrightarrow> same_text (list_primary_keys_sql p table schema) (list_primary_keys_sql p table' schema')"
  by (cases p; cases "given_schema schema"; cases "given_schema schema'"; simp add: catalog_sql_defs cong: catalog_new_weak_cong)

lemma list_foreign_keys_bound: "bound_query (table_values table schema) (list_foreign_keys_sql p table schema)"
  by (cases p; cases "given_schema schema"; simp add: catalog_sql_defs del: append_Cons cong: catalog_new_weak_cong)

lemma list_foreign_keys_text:
  "(given_schema schema = None \<longleftrightarrow> given_schema schema' = None) \<Longrightarrow> same_text (list_foreign_keys_sql p table schema) (list_foreign_keys_sql p table' schema')"
  by (cases p; cases "given_schema schema"; cases "given_schema schema'"; simp add: catalog_sql_defs cong: catalog_new_weak_cong)

lemma list_indexes_bound: "bound_query (table_values table schema) (list_indexes_sql p table schema)"
  by (cases p; cases "given_schema schema"; simp add: catalog_sql_defs del: append_Cons cong: catalog_new_weak_cong)

lemma list_indexes_text:
  "(given_schema schema = None \<longleftrightarrow> given_schema schema' = None) \<Longrightarrow> same_text (list_indexes_sql p table schema) (list_indexes_sql p table' schema')"
  by (cases p; cases "given_schema schema"; cases "given_schema schema'"; simp add: catalog_sql_defs cong: catalog_new_weak_cong)

definition schema_values :: "string option \<Rightarrow> string option \<Rightarrow> string set" where
  "schema_values catalog schema = str_trim ` (set_option catalog \<union> set_option schema)"

lemma default_tables_bound: "bound_query (schema_values catalog schema) (default_list_tables catalog schema)"
proof -
  have "str_trim c \<in> schema_values catalog schema" if "catalog = Some c \<or> schema = Some c" for c
    using that by (auto simp: schema_values_def)
  then show ?thesis
    unfolding default_list_tables_def Let_def by (cases catalog; cases schema; simp del: append_Cons cong: catalog_new_weak_cong)
qed

lemma given_schema_value: "given_schema schema = Some s \<Longrightarrow> s \<in> schema_values catalog schema"
  by (auto simp: given_schema_def schema_values_def split: option.splits if_splits)

lemma list_tables_bound: "bound_query (schema_values catalog schema) (list_tables_sql p catalog schema)"
  by (cases p; cases "given_schema schema";
      simp add: default_tables_bound given_schema_value oracle_list_tables_sql_def sybase_list_tables_sql_def sqlite_list_tables_sql_def
        db2_list_tables_sql_def del: append_Cons cong: catalog_new_weak_cong)

lemma fallback_bound:
  "bound_query ({table} \<union> set_option schema) (Ok (fallback_columns table schema))"
  "bound_query ({table} \<union> set_option schema) (Ok (fallback_primary_keys table schema))"
  "bound_query ({table} \<union> set_option schema) (Ok (fallback_foreign_keys table schema))"
  "bound_query ({table} \<union> set_option schema) (Ok (fallback_indexes table schema))"
  unfolding fallback_columns_def fallback_primary_keys_def fallback_foreign_keys_def fallback_indexes_def
  by (cases schema; simp del: append_Cons cong: catalog_new_weak_cong)+

lemma fallback_tables_bound: "bound_query (schema_values catalog schema) (Ok (fallback_tables catalog schema))"
proof -
  have "str_trim c \<in> schema_values catalog schema" if "catalog = Some c \<or> schema = Some c" for c
    using that by (auto simp: schema_values_def)
  then show ?thesis
    unfolding fallback_tables_def Let_def
    by (cases catalog; cases schema; simp del: append_Cons cong: catalog_new_weak_cong)
qed

text \<open>
  C29. Catalog requests cannot be injected into: on every database, with or without a plugin, the names a client supplies for the
  catalog, the schema and the table only ever become parameters, one for each placeholder of the query, and the text of a query
  about a table is the same for all names (there is one with a schema and one without).
\<close>

theorem catalog_queries_bound:
  "bound_query (schema_values catalog schema) (list_tables_sql p catalog schema) \<and>
   bound_query (schema_values catalog schema) (Ok (fallback_tables catalog schema)) \<and>
   (\<forall>live \<in> {list_columns_sql, list_primary_keys_sql, list_foreign_keys_sql, list_indexes_sql}.
      bound_query (table_values table schema) (live p table schema) \<and>
      ((given_schema schema = None \<longleftrightarrow> given_schema schema' = None) \<longrightarrow> same_text (live p table schema) (live p table' schema'))) \<and>
   (\<forall>fallback \<in> {fallback_columns, fallback_primary_keys, fallback_foreign_keys, fallback_indexes}.
      bound_query ({table} \<union> set_option schema) (Ok (fallback table schema)))"
  by (simp add: list_columns_bound list_primary_keys_bound list_foreign_keys_bound list_indexes_bound list_columns_text
    list_primary_keys_text list_foreign_keys_text list_indexes_text list_tables_bound fallback_tables_bound
    fallback_bound[unfolded insert_is_Un[symmetric]] insert_is_Un[symmetric])

theorem catalog_queries_bound_witness:
  "bound_query (table_values ''t; DROP'' None) (list_columns_sql OraclePlugin ''t; DROP'' None) \<and>
   same_text (list_columns_sql OraclePlugin ''t; DROP'' None) (list_columns_sql OraclePlugin ''u'' None)"
  using catalog_queries_bound[of None None OraclePlugin "''t; DROP''" None "''u''"] by (intro conjI; blast)

section \<open>An answer that does not fit\<close>

lemma set_connection_error_keeps [simp]:
  "gs_poisoned (set_connection_error i e s) = gs_poisoned s" "gs_connections (set_connection_error i e s) = gs_connections s"
  by (simp_all add: set_connection_error_def)

lemma get_payload_fields:
  assumes "lru pl ents cap"
  shows "cap (mc_payloads (snd (get_payload pl now k m))) = cap (mc_payloads m)" "mc_ttl (snd (get_payload pl now k m)) = mc_ttl m"
    "mc_payloads_poisoned (snd (get_payload pl now k m)) = mc_payloads_poisoned m"
  using lru.get[OF assms, of k "mc_payloads m"] lru.pop[OF assms]
  by (auto simp: get_payload_def split: prod.splits option.splits)

lemma get_after_cache:
  assumes "lru pl ents cap" "0 < cap (mc_payloads m)" "\<not> mc_payloads_poisoned m" "later - now \<le> mc_ttl m"
  shows "fst (get_payload pl later k (cache_payload pl now k d m)) = Some d"
  using lru.get_after_put[OF assms(1,2), of k "\<lparr>cp_data = d, cp_cached_at = now\<rparr>"] assms(3,4)
  by (auto simp: get_payload_def cache_payload_def split: prod.splits option.splits)

text \<open>
  C31. The columns of a table are asked for once: when the answer does not fit the client's buffer the call returns - 2, and a
  second call with a buffer that is large enough, made before the entry expires, is served from the cache, whatever the
  database does by then.
\<close>

theorem columns_retry_from_cache:
  assumes l: "lru pl ents cap" and "0 < cap (mc_payloads m)" and np: "\<not> mc_payloads_poisoned m"
    and t: "c_str bs = Some t" and "\<not> gs_poisoned s" and "map_of (gs_connections s) conn_id \<noteq> None"
    and "conn_problem conn_id s = None" and miss: "fst (get_payload pl now (columns_key conn_id t) m) = None"
    and r: "list_columns (ce_trim env) (ce_lower env) (ce_compressors env) (ce_conn env conn_id) t = Ok data"
    and "unat small < length data" and "length data \<le> unat large" and "retry - later \<le> mc_ttl m"
  shows "\<exists>s' m'. odbc_catalog_columns env pl now later False conn_id (Some bs) small s m = (- 2, None, s', m') \<and>
    (\<exists>m''. odbc_catalog_columns env' pl retry later' False conn_id (Some bs) large s' m' = (0, Some data, s', m''))"
proof -
  let ?k = "columns_key conn_id t"
  obtain m1 where p: "get_payload pl now ?k m = (None, m1)" using miss by (metis prod.collapse)
  let ?m2 = "cache_payload pl later ?k data m1"
  let ?s = "set_connection_error conn_id (too_small (length data) small) s"
  have "fst (get_payload pl retry ?k ?m2) = Some data"
    using assms(2,12) np get_payload_fields[OF l, of now ?k m] p by (intro get_after_cache[OF l]) simp_all
  then obtain m2 where "get_payload pl retry ?k ?m2 = (Some data, m2)" by (metis prod.collapse)
  then have "odbc_catalog_columns env' pl retry later' False conn_id (Some bs) large ?s ?m2 = (0, Some data, ?s, m2)"
    using assms(4-6,11) by (simp add: odbc_catalog_columns_def)
  moreover have "odbc_catalog_columns env pl now later False conn_id (Some bs) small s m = (- 2, None, ?s, ?m2)"
    using assms(4-7,10) p r by (simp add: odbc_catalog_columns_def catalog_answer_def)
  ultimately show ?thesis by blast
qed

definition example_catalog :: catalog_env where
  "example_catalog =
     \<lparr>ce_trim = id, ce_lower = to_ascii_lowercase, ce_compressors = rle,
      ce_conn = (\<lambda>_. \<lparr>cc_conn = example_conn (Inr None) [], cc_dbms = None\<rparr>)\<rparr>"

lemma str_trim_ascii:
  assumes "ascii s" "list_all (\<lambda>c. \<not> is_whitespace (of_char c)) s"
  shows "str_trim s = s"
proof -
  have "trim_chars (map of_char s) = map of_char s"
    using assms(2) by (simp add: trim_chars_def dropWhile_all_not list_all_rev list.pred_map o_def)
  then show ?thesis using assms(1) encode_ascii[OF assms(1)] by (simp add: str_trim_def chars_ascii)
qed

lemma example_columns:
  "list_columns id to_ascii_lowercase rle \<lparr>cc_conn = example_conn (Inr None) [], cc_dbms = None\<rparr> ''t'' = Ok example_message"
proof -
  have "try_encode \<lparr>rb_columns = [], rb_rows = []\<rparr> = Ok example_message"
    by (subst try_encode_Ok) (simp_all add: wf_buffer_def column_count_def row_count_def payload_bytes_def example_message_def decoder_limits)
  then have e: "encode \<lparr>rb_columns = [], rb_rows = []\<rparr> = Ok example_message" by (simp add: encode_def)
  have b: "\<not> is_blank (cq_sql (fallback_columns ''t'' None))"
    by (simp add: fallback_columns_def catalog_new_def is_blank_ascii ascii_def is_whitespace_def)
  have ps: "param_values_to_strings (cq_params (fallback_columns ''t'' None)) = Ok [Some ''t'']"
    by (simp add: fallback_columns_def catalog_new_def param_values_to_strings_def)
  show ?thesis
    using b ps
    by (simp add: list_columns_def table_request_def validate_and_parse_table_def str_trim_ascii ascii_def is_whitespace_def Let_def dispatch_catalog_def
      execute_with_params_def parse_sql_def execute_query_with_params_inner_def example_conn_def result_buffer_def row_buffer_new_def
      coalesce_for_json_rows_def is_for_json_result_def encode_body_def engine_new_def e)
qed

theorem columns_retry_from_cache_witness:
  "\<exists>s' m' m''. odbc_catalog_columns example_catalog list_lru 0 1 False 1 (Some (as_bytes ''t'')) 4 example_session
      (metadata_cache_new list_lru list_lru 3 10) = (- 2, None, s', m') \<and>
    odbc_catalog_columns example_catalog list_lru 2 2 False 1 (Some (as_bytes ''t'')) 20 s' m' = (0, Some example_message, s', m'')"
proof -
  have c: "c_str (as_bytes ''t'') = Some ''t''" by code_simp
  have "fst (get_payload list_lru 0 (columns_key 1 ''t'') (metadata_cache_new list_lru list_lru 3 10)) = None"
    by (simp add: get_payload_def metadata_cache_new_def list_lru_def)
  note columns_retry_from_cache[OF list_lru.lru_axioms _ _ c _ _ example_conn_problem this, of example_catalog example_message 4 20 2 1 example_catalog 2]
  then show ?thesis
    using example_columns by (simp add: metadata_cache_new_def list_lru_def example_session_def fresh_state_def example_catalog_def)
qed

section \<open>The schema\<close>

lemma plugin_id_cases:
  "plugin_id_for_dbms_name trim lower n = Some i \<Longrightarrow>
   i \<in> {''sqlserver'', ''postgres'', ''mysql'', ''mariadb'', ''oracle'', ''sybase'', ''sqlite'', ''db2'', ''snowflake''}"
  by (simp add: plugin_id_for_dbms_name_def Let_def split: if_splits)

lemma foreign_keys_no_schema: "p \<noteq> SqlitePlugin \<Longrightarrow> list_foreign_keys_sql p table schema = list_foreign_keys_sql p table schema'"
  by (cases p) (simp_all add: catalog_sql_defs cong: catalog_new_weak_cong)

text \<open>
  The schema of a table is ignored by the foreign keys of every plugin: on a server that is recognised, the
  foreign keys of \<open>a.t\<close> and of \<open>b.t\<close> are the same request, which finds the keys of all tables of that name. (The
  primary keys and indexes of all plugins but Oracle's ignore it as well.)
\<close>

theorem foreign_keys_ignore_schema:
  assumes "validate_and_parse_table x = Ok (s1, n)" and "validate_and_parse_table y = Ok (s2, n)" and "cc_dbms c = Some name"
    and "plugin_id_for_dbms_name trim lower (dc_driver_name (from_driver_name trim lower name)) = Some i"
  shows "list_foreign_keys trim lower cz c x = list_foreign_keys trim lower cz c y"
proof -
  have "list_foreign_keys_sql p n s1 = list_foreign_keys_sql p n s2" for p
    using foreign_keys_no_schema[of p n s1 s2] by (cases "p = SqlitePlugin") (simp_all add: sqlite_list_foreign_keys_sql_def cong: catalog_new_weak_cong)
  then have "dispatch_catalog trim lower (cc_dbms c) (\<lambda>p. list_foreign_keys_sql p n s1) =
      dispatch_catalog trim lower (cc_dbms c) (\<lambda>p. list_foreign_keys_sql p n s2)" by presburger
  moreover have "dispatch_catalog trim lower (cc_dbms c) (\<lambda>p. list_foreign_keys_sql p n s2) \<noteq> None"
    using plugin_id_cases[OF assms(4)] assms(3,4) by (auto simp: dispatch_catalog_def Let_def simp del: list_foreign_keys_sql.simps)
  ultimately show ?thesis using assms(1,2) by (auto simp: list_foreign_keys_def table_request_def simp del: not_None_eq split: option.splits)
qed

theorem foreign_keys_ignore_schema_witness:
  "list_foreign_keys id to_ascii_lowercase rle \<lparr>cc_conn = example_conn (Inr None) [], cc_dbms = Some ''PostgreSQL''\<rparr> ''a.t'' =
   list_foreign_keys id to_ascii_lowercase rle \<lparr>cc_conn = example_conn (Inr None) [], cc_dbms = Some ''PostgreSQL''\<rparr> ''b.t''"
proof -
  have "validate_and_parse_table ''a.t'' = Ok (Some ''a'', ''t'')" "validate_and_parse_table ''b.t'' = Ok (Some ''b'', ''t'')"
    by (simp_all add: validate_and_parse_table_def str_trim_ascii ascii_def is_whitespace_def Let_def)
  moreover have "to_ascii_lowercase ''PostgreSQL'' = ''postgresql''" "engine_from_name ''postgresql'' = ENGINE_POSTGRES" by code_simp+
  then have "plugin_id_for_dbms_name id to_ascii_lowercase (dc_driver_name (from_driver_name id to_ascii_lowercase ''PostgreSQL'')) = Some ''postgres''"
    by (simp add: plugin_id_for_dbms_name_def from_driver_name_def capabilities_of_def canonical_def engine_ids)
  ultimately show ?thesis
    using foreign_keys_ignore_schema[of "''a.t''" "Some ''a''" "''t''" "''b.t''" "Some ''b''"
        "\<lparr>cc_conn = example_conn (Inr None) [], cc_dbms = Some ''PostgreSQL''\<rparr>" "''PostgreSQL''" id to_ascii_lowercase "''postgres''" rle]
    by simp
qed

end
