(* ===== verification/Array_Binding.thy ===== *)
theory Array_Binding
  imports Bulk_Insert Identifier "HOL-Library.Multiset"
begin

text \<open>
  \<open>engine/core/array_binding.rs\<close>: bulk inserts with arrays of parameters. A connection of \<open>odbc_api\<close> is the
  record \<open>bulk_conn\<close>: preparing the statement, the column buffers of the inserter \<open>'i\<close> with the typed views the
  code asks for, and executing a batch on the database \<open>'db\<close>. The locale \<open>column_inserter\<close> states what the crate
  documents of its buffers, \<open>bulk_table\<close> what a server does with a batch; an inserter and a server made of lists
  interpret both.
\<close>

section \<open>Buffers of the inserter\<close>

datatype scalar = Scalar_I32 | Scalar_I64 | Scalar_Timestamp

datatype buffer_desc = Buf_Scalar scalar bool | Buf_Text usize | Buf_Binary usize

datatype sql_cell = SC_I32 i32 | SC_I64 i64 | SC_Text bytes | SC_Binary bytes | SC_Timestamp bulk_timestamp

type_synonym sql_row = "sql_cell option list"

text \<open>
  \<open>bc_as_slice\<close> and its siblings say whether \<open>column_mut(i).as_slice()\<close> is \<open>Some\<close>; \<open>bc_copy_slice\<close> is
  \<open>col[..n].copy_from_slice(vs)\<close>; \<open>bc_raw_values\<close> writes the values and the indicators of \<open>raw_values()\<close>, where
  \<open>True\<close> is \<open>NULL_DATA\<close>; \<open>bc_set_cell\<close> is \<open>set_cell\<close> of either view.
\<close>

record ('i, 'db) bulk_conn =
  bc_prepare :: "string \<Rightarrow> unit result"
  bc_into_inserter :: "string \<Rightarrow> usize \<Rightarrow> buffer_desc list \<Rightarrow> 'i result"
  bc_set_num_rows :: "usize \<Rightarrow> 'i \<Rightarrow> 'i result"
  bc_as_slice :: "scalar \<Rightarrow> usize \<Rightarrow> 'i \<Rightarrow> bool"
  bc_copy_slice :: "usize \<Rightarrow> sql_cell list \<Rightarrow> 'i \<Rightarrow> 'i result"
  bc_as_nullable_slice :: "scalar \<Rightarrow> usize \<Rightarrow> 'i \<Rightarrow> bool"
  bc_raw_values :: "usize \<Rightarrow> (sql_cell \<times> bool) list \<Rightarrow> 'i \<Rightarrow> 'i result"
  bc_as_text_view :: "usize \<Rightarrow> 'i \<Rightarrow> bool"
  bc_as_bin_view :: "usize \<Rightarrow> 'i \<Rightarrow> bool"
  bc_set_cell :: "usize \<Rightarrow> usize \<Rightarrow> bytes option \<Rightarrow> 'i \<Rightarrow> 'i result"
  bc_execute :: "'i \<Rightarrow> 'db \<Rightarrow> unit result \<times> 'db"
  bc_set_autocommit :: "bool \<Rightarrow> 'db \<Rightarrow> unit result \<times> 'db"
  bc_commit :: "'db \<Rightarrow> unit result \<times> 'db"
  bc_rollback :: "'db \<Rightarrow> unit result \<times> 'db"

section \<open>Filling the buffers\<close>

definition quote_column_list :: "string list \<Rightarrow> string result" where
  "quote_column_list columns =
     obind (omapM quote_identifier_default columns) (\<lambda>quoted. Ok (join_with '', '' quoted))"

definition DEFAULT_PARAMSET_SIZE :: usize where "DEFAULT_PARAMSET_SIZE = 1000"

definition validate_i32_bulk_data :: "string list \<Rightarrow> i32 list list \<Rightarrow> unit result" where
  "validate_i32_bulk_data columns data =
     (if length data \<noteq> length columns then Err (ValidationError ''data length must match columns length'')
      else case data of
        [] \<Rightarrow> Ok ()
      | col0 # rest \<Rightarrow>
          if \<exists>col \<in> set rest. length col \<noteq> length col0 then Err (ValidationError ''all columns must have same row count'')
          else Ok ())"

definition spec_to_buffer_desc :: "bulk_column_spec \<Rightarrow> buffer_desc" where
  "spec_to_buffer_desc spec =
     (let nullable = bs_nullable spec; max_len = max (bs_max_len spec) 1 in
      case bs_col_type spec of
        BT_I32 \<Rightarrow> Buf_Scalar Scalar_I32 nullable
      | BT_I64 \<Rightarrow> Buf_Scalar Scalar_I64 nullable
      | BT_Text \<Rightarrow> Buf_Text max_len
      | BT_Decimal \<Rightarrow> Buf_Text max_len
      | BT_Binary \<Rightarrow> Buf_Binary max_len
      | BT_Timestamp \<Rightarrow> Buf_Scalar Scalar_Timestamp nullable)"

text \<open>The three numeric arms of \<open>fill_column\<close>: they differ in the type and the name in the error.\<close>

definition fill_scalar ::
  "('i, 'db) bulk_conn \<Rightarrow> scalar \<Rightarrow> string \<Rightarrow> usize \<Rightarrow> sql_cell list \<Rightarrow> bytes option \<Rightarrow> usize \<Rightarrow> usize \<Rightarrow> 'i \<Rightarrow> 'i result"
where
  "fill_scalar conn t name buf_idx values null_bitmap chunk_start chunk_len inserter =
     (case null_bitmap of
        Some bm \<Rightarrow>
          if \<not> bc_as_nullable_slice conn t buf_idx inserter then Err (InternalError (name @ '' nullable column expected''))
          else
            obind (range_of values chunk_start (chunk_start + chunk_len)) (\<lambda>vs.
            bc_raw_values conn buf_idx
              (map (\<lambda>(i, v). (v, is_null bm (chunk_start + i))) (enumerate 0 vs)) inserter)
      | None \<Rightarrow>
          if \<not> bc_as_slice conn t buf_idx inserter then Err (InternalError (name @ '' column expected''))
          else
            obind (range_of values chunk_start (chunk_start + chunk_len)) (\<lambda>vs.
            bc_copy_slice conn buf_idx vs inserter))"

text \<open>The loop of the text and the binary arm.\<close>

fun fill_cells ::
  "('i, 'db) bulk_conn \<Rightarrow> usize \<Rightarrow> bytes list \<Rightarrow> bytes option \<Rightarrow> usize \<Rightarrow> usize list \<Rightarrow> 'i \<Rightarrow> 'i result"
where
  "fill_cells conn buf_idx rows null_bitmap chunk_start [] inserter = Ok inserter"
| "fill_cells conn buf_idx rows null_bitmap chunk_start (i # is) inserter =
     (let r = chunk_start + i in
      obind (if (case null_bitmap of Some bm \<Rightarrow> is_null bm r | None \<Rightarrow> False) then Ok None
             else omap Some (idx rows r)) (\<lambda>cell.
      obind (bc_set_cell conn buf_idx i cell inserter)
        (fill_cells conn buf_idx rows null_bitmap chunk_start is)))"

definition fill_column ::
  "('i, 'db) bulk_conn \<Rightarrow> usize \<Rightarrow> bulk_column_spec \<Rightarrow> bulk_column_data \<Rightarrow> usize \<Rightarrow> usize \<Rightarrow> 'i \<Rightarrow> 'i result"
where
  "fill_column conn buf_idx spec data chunk_start chunk_len inserter =
     (case (data, bs_col_type spec) of
        (BD_I32 values bm, BT_I32) \<Rightarrow>
          fill_scalar conn Scalar_I32 ''I32'' buf_idx (map SC_I32 values) bm chunk_start chunk_len inserter
      | (BD_I64 values bm, BT_I64) \<Rightarrow>
          fill_scalar conn Scalar_I64 ''I64'' buf_idx (map SC_I64 values) bm chunk_start chunk_len inserter
      | (BD_Text rows _ bm, BT_Text) \<Rightarrow>
          if \<not> bc_as_text_view conn buf_idx inserter then Err (InternalError ''Text column expected'')
          else fill_cells conn buf_idx rows bm chunk_start [0..<chunk_len] inserter
      | (BD_Text rows _ bm, BT_Decimal) \<Rightarrow>
          if \<not> bc_as_text_view conn buf_idx inserter then Err (InternalError ''Text column expected'')
          else fill_cells conn buf_idx rows bm chunk_start [0..<chunk_len] inserter
      | (BD_Binary rows _ bm, BT_Binary) \<Rightarrow>
          if \<not> bc_as_bin_view conn buf_idx inserter then Err (InternalError ''Binary column expected'')
          else fill_cells conn buf_idx rows bm chunk_start [0..<chunk_len] inserter
      | (BD_Timestamp values bm, BT_Timestamp) \<Rightarrow>
          fill_scalar conn Scalar_Timestamp ''Timestamp'' buf_idx (map SC_Timestamp values) bm chunk_start chunk_len inserter
      | _ \<Rightarrow> Err (ValidationError ''Column data does not match spec''))"

fun fill_columns ::
  "('i, 'db) bulk_conn \<Rightarrow> (usize \<times> bulk_column_spec \<times> bulk_column_data) list \<Rightarrow> usize \<Rightarrow> usize \<Rightarrow> 'i \<Rightarrow> 'i result"
where
  "fill_columns conn [] chunk_start chunk_len inserter = Ok inserter"
| "fill_columns conn ((buf_idx, spec, data) # cols) chunk_start chunk_len inserter =
     obind (fill_column conn buf_idx spec data chunk_start chunk_len inserter)
       (fill_columns conn cols chunk_start chunk_len)"

section \<open>The insert loop\<close>

text \<open>\<open>(0..n).step_by(k)\<close>, which panics for step zero.\<close>

definition step_by :: "usize \<Rightarrow> usize \<Rightarrow> usize list result" where
  "step_by n k = (if k = 0 then Panic else Ok (map (\<lambda>j. j * k) [0..<(n + k - 1) div k]))"

text \<open>What the loop runs on: the rows, the capacity, and how the buffers are filled for a chunk.\<close>

record ('i, 'db) insert_job =
  jb_conn :: "('i, 'db) bulk_conn"
  jb_rows :: usize
  jb_capacity :: usize
  jb_fill :: "usize \<Rightarrow> usize \<Rightarrow> 'i \<Rightarrow> 'i result"
  jb_inserter :: 'i

definition insert_chunk :: "('i, 'db) insert_job \<Rightarrow> usize \<Rightarrow> 'db \<Rightarrow> (usize \<times> ('i, 'db) insert_job) result \<times> 'db" where
  "insert_chunk job chunk_start db =
     (let stop = min (chunk_start + jb_capacity job) (jb_rows job); chunk_len = stop - chunk_start in
      case obind (bc_set_num_rows (jb_conn job) chunk_len (jb_inserter job)) (jb_fill job chunk_start chunk_len) of
        Ok inserter \<Rightarrow>
          (case bc_execute (jb_conn job) inserter db of
             (Ok _, db) \<Rightarrow> (Ok (chunk_len, job\<lparr>jb_inserter := inserter\<rparr>), db)
           | (Err e, db) \<Rightarrow> (Err e, db)
           | (Panic, db) \<Rightarrow> (Panic, db))
      | Err e \<Rightarrow> (Err e, db)
      | Panic \<Rightarrow> (Panic, db))"

fun insert_chunks :: "('i, 'db) insert_job \<Rightarrow> usize list \<Rightarrow> usize \<Rightarrow> 'db \<Rightarrow> usize result \<times> 'db" where
  "insert_chunks job [] inserted db = (Ok inserted, db)"
| "insert_chunks job (chunk_start # starts) inserted db =
     (case insert_chunk job chunk_start db of
        (Ok (n, job), db) \<Rightarrow> insert_chunks job starts (inserted + n) db
      | (Err e, db) \<Rightarrow> (Err e, db)
      | (Panic, db) \<Rightarrow> (Panic, db))"

text \<open>
  What precedes the loop, common to the three inserts: \<open>prepare\<close>, \<open>into_column_inserter\<close>, and the starts of the
  chunks. A job without rows never gets here.
\<close>

definition open_job ::
  "('i, 'db) bulk_conn \<Rightarrow> usize \<Rightarrow> usize \<Rightarrow> string \<Rightarrow> buffer_desc list \<Rightarrow> (usize \<Rightarrow> usize \<Rightarrow> 'i \<Rightarrow> 'i result) \<Rightarrow>
   (('i, 'db) insert_job \<times> usize list) result"
where
  "open_job conn paramset_size n_rows sql descs fill =
     (let capacity = min paramset_size n_rows in
      obind (bc_prepare conn sql) (\<lambda>_.
      obind (bc_into_inserter conn sql capacity descs) (\<lambda>inserter.
      obind (step_by n_rows capacity) (\<lambda>starts.
      Ok (\<lparr>jb_conn = conn, jb_rows = n_rows, jb_capacity = capacity, jb_fill = fill, jb_inserter = inserter\<rparr>, starts)))))"

definition run_job :: "(('i, 'db) insert_job \<times> usize list) option result \<Rightarrow> 'db \<Rightarrow> usize result \<times> 'db" where
  "run_job opened db =
     (case opened of
        Ok None \<Rightarrow> (Ok 0, db)
      | Ok (Some (job, starts)) \<Rightarrow> insert_chunks job starts 0 db
      | Err e \<Rightarrow> (Err e, db)
      | Panic \<Rightarrow> (Panic, db))"

definition insert_sql :: "string \<Rightarrow> string \<Rightarrow> usize \<Rightarrow> string" where
  "insert_sql qtable col_list n_cols =
     ''INSERT INTO '' @ qtable @ '' ('' @ col_list @ '') VALUES ('' @ join_with '', '' (replicate n_cols ''?'') @ '')''"

definition open_generic ::
  "('i, 'db) bulk_conn \<Rightarrow> usize \<Rightarrow> bulk_insert_payload \<Rightarrow> (('i, 'db) insert_job \<times> usize list) option result"
where
  "open_generic conn paramset_size payload =
     (let n_rows = unat (bp_row_count payload); n_cols = length (bp_columns payload) in
      if n_rows = 0 then Ok None
      else if length (bp_column_data payload) \<noteq> n_cols then
        Err (ValidationError ''column_data length must match columns length'')
      else
        obind (quote_column_list (map bs_name (bp_columns payload))) (\<lambda>col_list.
        obind (quote_qualified_default (bp_table payload)) (\<lambda>qtable.
        omap Some (open_job conn paramset_size n_rows (insert_sql qtable col_list n_cols)
          (map spec_to_buffer_desc (bp_columns payload))
          (fill_columns conn (enumerate 0 (zip (bp_columns payload) (bp_column_data payload))))))))"

definition bulk_insert_generic :: "usize \<Rightarrow> ('i, 'db) bulk_conn \<Rightarrow> bulk_insert_payload \<Rightarrow> 'db \<Rightarrow> usize result \<times> 'db" where
  "bulk_insert_generic paramset_size conn payload = run_job (open_generic conn paramset_size payload)"

definition array_binding_new :: "usize \<Rightarrow> usize" where
  "array_binding_new paramset_size = max paramset_size 1"

text \<open>The two inserts with fixed column types.\<close>

fun fill_i32 :: "('i, 'db) bulk_conn \<Rightarrow> (usize \<times> i32 list) list \<Rightarrow> usize \<Rightarrow> usize \<Rightarrow> 'i \<Rightarrow> 'i result" where
  "fill_i32 conn [] chunk_start chunk_len inserter = Ok inserter"
| "fill_i32 conn ((buf_idx, col_data) # cols) chunk_start chunk_len inserter =
     (if \<not> bc_as_slice conn Scalar_I32 buf_idx inserter then Err (InternalError ''I32 column expected'')
      else
        obind (range_of (map SC_I32 col_data) chunk_start (chunk_start + chunk_len)) (\<lambda>vs.
        obind (bc_copy_slice conn buf_idx vs inserter) (fill_i32 conn cols chunk_start chunk_len)))"

definition open_i32 ::
  "('i, 'db) bulk_conn \<Rightarrow> usize \<Rightarrow> string \<Rightarrow> string list \<Rightarrow> i32 list list \<Rightarrow> (('i, 'db) insert_job \<times> usize list) option result"
where
  "open_i32 conn paramset_size table columns data =
     obind (validate_i32_bulk_data columns data) (\<lambda>_.
     case data of
       [] \<Rightarrow> Ok None
     | col0 # _ \<Rightarrow>
         if col0 = [] then Ok None
         else
           obind (quote_column_list columns) (\<lambda>col_list.
           obind (quote_qualified_default table) (\<lambda>qtable.
           omap Some (open_job conn paramset_size (length col0) (insert_sql qtable col_list (length columns))
             (replicate (length columns) (Buf_Scalar Scalar_I32 False)) (fill_i32 conn (enumerate 0 data))))))"

definition bulk_insert_i32 ::
  "usize \<Rightarrow> ('i, 'db) bulk_conn \<Rightarrow> string \<Rightarrow> string list \<Rightarrow> i32 list list \<Rightarrow> 'db \<Rightarrow> usize result \<times> 'db"
where
  "bulk_insert_i32 paramset_size conn table columns data = run_job (open_i32 conn paramset_size table columns data)"

definition fill_i32_text ::
  "('i, 'db) bulk_conn \<Rightarrow> i32 list \<Rightarrow> string list \<Rightarrow> usize \<Rightarrow> usize \<Rightarrow> 'i \<Rightarrow> 'i result"
where
  "fill_i32_text conn ids names chunk_start chunk_len inserter =
     (if \<not> bc_as_slice conn Scalar_I32 0 inserter then Err (InternalError ''I32 column expected'')
      else
        obind (range_of (map SC_I32 ids) chunk_start (chunk_start + chunk_len)) (\<lambda>vs.
        obind (bc_copy_slice conn 0 vs inserter) (\<lambda>inserter.
        if \<not> bc_as_text_view conn 1 inserter then Err (InternalError ''Text column expected'')
        else fill_cells conn 1 (map as_bytes names) None chunk_start [0..<chunk_len] inserter)))"

definition bulk_insert_i32_text ::
  "usize \<Rightarrow> ('i, 'db) bulk_conn \<Rightarrow> string \<Rightarrow> string list \<Rightarrow> i32 list \<Rightarrow> string list \<Rightarrow> usize \<Rightarrow> 'db \<Rightarrow> usize result \<times> 'db"
where
  "bulk_insert_i32_text paramset_size conn table columns ids names max_str_len =
     run_job
       (if length ids \<noteq> length names then Err (ValidationError ''ids and names must have same length'')
        else if ids = [] then Ok None
        else
          obind (quote_qualified_default table) (\<lambda>qtable.
          obind (obind (idx columns 0) quote_identifier_default) (\<lambda>qcol0.
          obind (obind (idx columns 1) quote_identifier_default) (\<lambda>qcol1.
          omap Some (open_job conn paramset_size (length ids) (insert_sql qtable (qcol0 @ '', '' @ qcol1) 2)
            [Buf_Scalar Scalar_I32 False, Buf_Text (max max_str_len 1)] (fill_i32_text conn ids names))))))"

section \<open>What is inserted\<close>

lemma obind_Err_iff: "obind m f = Err e \<longleftrightarrow> m = Err e \<or> (\<exists>x. m = Ok x \<and> f x = Err e)"
  by (cases m) auto

lemma quote_all_not_Panic [simp]: "omapM quote_identifier_default xs \<noteq> Panic"
  by (rule omapM_not_Panic) (simp add: quote_identifier_default_def)

text \<open>The rows of a payload, read off its columns: the specification of every insert.\<close>

definition null_at :: "bytes option \<Rightarrow> usize \<Rightarrow> bool" where
  "null_at null_bitmap r = (case null_bitmap of Some bm \<Rightarrow> is_null bm r | None \<Rightarrow> False)"

definition nullable_cell :: "bytes option \<Rightarrow> ('a \<Rightarrow> sql_cell) \<Rightarrow> 'a list \<Rightarrow> usize \<Rightarrow> sql_cell option" where
  "nullable_cell bm f vs r = (if null_at bm r then None else Some (f (vs ! r)))"

fun cell_of :: "bulk_column_data \<Rightarrow> usize \<Rightarrow> sql_cell option" where
  "cell_of (BD_I32 vs bm) r = nullable_cell bm SC_I32 vs r"
| "cell_of (BD_I64 vs bm) r = nullable_cell bm SC_I64 vs r"
| "cell_of (BD_Text rows _ bm) r = nullable_cell bm SC_Text rows r"
| "cell_of (BD_Binary rows _ bm) r = nullable_cell bm SC_Binary rows r"
| "cell_of (BD_Timestamp vs bm) r = nullable_cell bm SC_Timestamp vs r"

definition payload_row :: "bulk_insert_payload \<Rightarrow> usize \<Rightarrow> sql_row" where
  "payload_row p r = map (\<lambda>d. cell_of d r) (bp_column_data p)"

definition payload_rows :: "bulk_insert_payload \<Rightarrow> sql_row list" where
  "payload_rows p = map (payload_row p) [0..<unat (bp_row_count p)]"

text \<open>A payload is well typed when each column agrees with its specification and its cells fit their width.\<close>

fun cells_fit :: "bulk_column_data \<Rightarrow> bool" where
  "cells_fit (BD_Text rows n _) = list_all (\<lambda>c. length c \<le> n) rows"
| "cells_fit (BD_Binary rows n _) = list_all (\<lambda>c. length c \<le> n) rows"
| "cells_fit _ = True"

definition payload_typed :: "bulk_insert_payload \<Rightarrow> bool" where
  "payload_typed p \<longleftrightarrow>
     list_all2 (wf_col (unat (bp_row_count p))) (bp_columns p) (bp_column_data p) \<and> list_all cells_fit (bp_column_data p)"

lemma norm_cell_fits: "norm_cell n c = c \<Longrightarrow> length c \<le> n"
  using trim_at_nul_props(1)[of "take n c"] by (metis length_take min.bounded_iff norm_cell_def)

lemma norm_col_fits: "norm_col d = d \<Longrightarrow> cells_fit d"
  by (cases d) (auto simp: list_all_iff map_idI map_eq_conv[of _ _ id, simplified] intro: norm_cell_fits)

lemma parse_bulk_typed: "parse_bulk_insert_payload data = Ok p \<Longrightarrow> payload_typed p"
proof -
  assume "parse_bulk_insert_payload data = Ok p"
  from parse_bulk_wf[OF this] have "wf_payload p" "map norm_col (bp_column_data p) = bp_column_data p"
    by (auto simp: norm_payload_def dest: arg_cong[of _ _ bp_column_data])
  then show ?thesis
    by (auto simp: payload_typed_def wf_payload_def list_all_iff map_idI map_eq_conv[of _ _ id, simplified] intro: norm_col_fits)
qed

section \<open>The contract of the inserter\<close>

record 'i inserter_view =
  iv_descs :: "'i \<Rightarrow> buffer_desc list"
  iv_rows :: "'i \<Rightarrow> usize"
  iv_capacity :: "'i \<Rightarrow> usize"
  iv_cell :: "'i \<Rightarrow> usize \<Rightarrow> usize \<Rightarrow> sql_cell option"

definition written ::
  "'i inserter_view \<Rightarrow> 'i \<Rightarrow> 'i \<Rightarrow> usize \<Rightarrow> usize set \<Rightarrow> (usize \<Rightarrow> sql_cell option) \<Rightarrow> bool"
where
  "written v i i' k R f \<longleftrightarrow>
     iv_descs v i' = iv_descs v i \<and> iv_capacity v i' = iv_capacity v i \<and> iv_rows v i' = iv_rows v i \<and>
     (\<forall>c r. iv_cell v i' c r = (if c = k \<and> r \<in> R then f r else iv_cell v i c r))"

definition batch_rows :: "'i inserter_view \<Rightarrow> 'i \<Rightarrow> sql_row list" where
  "batch_rows v i = map (\<lambda>r. map (\<lambda>c. iv_cell v i c r) [0..<length (iv_descs v i)]) [0..<iv_rows v i]"

fun has_scalar :: "scalar \<Rightarrow> sql_cell \<Rightarrow> bool" where
  "has_scalar Scalar_I32 (SC_I32 _) = True"
| "has_scalar Scalar_I64 (SC_I64 _) = True"
| "has_scalar Scalar_Timestamp (SC_Timestamp _) = True"
| "has_scalar _ _ = False"

fun cell_fits :: "buffer_desc \<Rightarrow> bytes option \<Rightarrow> bool" where
  "cell_fits (Buf_Text n) c = (case c of Some b \<Rightarrow> length b \<le> n | None \<Rightarrow> True)"
| "cell_fits (Buf_Binary n) c = (case c of Some b \<Rightarrow> length b \<le> n | None \<Rightarrow> True)"
| "cell_fits (Buf_Scalar _ _) c = False"

fun as_cell :: "buffer_desc \<Rightarrow> bytes \<Rightarrow> sql_cell" where
  "as_cell (Buf_Binary _) b = SC_Binary b"
| "as_cell _ b = SC_Text b"

lemma as_cell_fun [simp]: "as_cell (Buf_Text n) = SC_Text" "as_cell (Buf_Binary n) = SC_Binary"
  by (simp_all add: fun_eq_iff)

locale column_inserter =
  fixes conn :: "('i, 'db) bulk_conn" and v :: "'i inserter_view"
  assumes prepare_not_Panic: "bc_prepare conn sql \<noteq> Panic"
    and new_not_Panic: "bc_into_inserter conn sql n ds \<noteq> Panic"
    and new_view: "bc_into_inserter conn sql n ds = Ok i \<Longrightarrow> iv_descs v i = ds \<and> iv_capacity v i = n"
    and set_num_rows: "n \<le> iv_capacity v i \<Longrightarrow>
      \<exists>i'. bc_set_num_rows conn n i = Ok i' \<and> iv_descs v i' = iv_descs v i \<and>
        iv_capacity v i' = iv_capacity v i \<and> iv_rows v i' = n"
    and as_slice: "k < length (iv_descs v i) \<Longrightarrow> bc_as_slice conn t k i \<longleftrightarrow> iv_descs v i ! k = Buf_Scalar t False"
    and as_nullable_slice:
      "k < length (iv_descs v i) \<Longrightarrow> bc_as_nullable_slice conn t k i \<longleftrightarrow> iv_descs v i ! k = Buf_Scalar t True"
    and as_text_view: "k < length (iv_descs v i) \<Longrightarrow> bc_as_text_view conn k i \<longleftrightarrow> (\<exists>n. iv_descs v i ! k = Buf_Text n)"
    and as_bin_view: "k < length (iv_descs v i) \<Longrightarrow> bc_as_bin_view conn k i \<longleftrightarrow> (\<exists>n. iv_descs v i ! k = Buf_Binary n)"
    and copy_slice: "k < length (iv_descs v i) \<Longrightarrow> iv_descs v i ! k = Buf_Scalar t False \<Longrightarrow>
      list_all (has_scalar t) vs \<Longrightarrow> length vs \<le> iv_rows v i \<Longrightarrow>
      \<exists>i'. bc_copy_slice conn k vs i = Ok i' \<and> written v i i' k {..<length vs} (\<lambda>r. Some (vs ! r))"
    and raw_values: "k < length (iv_descs v i) \<Longrightarrow> iv_descs v i ! k = Buf_Scalar t True \<Longrightarrow>
      list_all (\<lambda>(c, _). has_scalar t c) ws \<Longrightarrow> length ws \<le> iv_rows v i \<Longrightarrow>
      \<exists>i'. bc_raw_values conn k ws i = Ok i' \<and>
        written v i i' k {..<length ws} (\<lambda>r. if snd (ws ! r) then None else Some (fst (ws ! r)))"
    and set_cell: "k < length (iv_descs v i) \<Longrightarrow> r < iv_rows v i \<Longrightarrow> cell_fits (iv_descs v i ! k) c \<Longrightarrow>
      \<exists>i'. bc_set_cell conn k r c i = Ok i' \<and> written v i i' k {r} (\<lambda>_. map_option (as_cell (iv_descs v i ! k)) c)"
begin

lemma fill_scalar_ok:
  assumes k: "k < length (iv_descs v i)" "iv_descs v i ! k = Buf_Scalar t nullable"
    and bm: "bm = None \<longleftrightarrow> \<not> nullable"
    and vs: "list_all (has_scalar t) vs" "start + len \<le> length vs" "iv_rows v i = len"
  shows "\<exists>i'. fill_scalar conn t name k vs bm start len i = Ok i' \<and>
    written v i i' k {..<len} (\<lambda>r. if null_at bm (start + r) then None else Some (vs ! (start + r)))"
proof -
  let ?w = "take len (drop start vs)"
  have len: "length ?w = len" using vs by simp
  have typed: "list_all (has_scalar t) ?w" using vs(1) by (auto simp: list_all_iff dest: in_set_takeD in_set_dropD)
  show ?thesis
  proof (cases bm)
    case None
    with copy_slice[of k i t ?w] k bm typed len vs obtain i' where i': "bc_copy_slice conn k ?w i = Ok i'"
      "written v i i' k {..<length ?w} (\<lambda>r. Some (?w ! r))" by auto
    then have "written v i i' k {..<len} (\<lambda>r. if null_at bm (start + r) then None else Some (vs ! (start + r)))"
      using None len vs(2) by (auto simp: written_def null_at_def nth_append)
    with None i'(1) k bm as_slice[of k i t] vs(2) show ?thesis by (auto simp: fill_scalar_def)
  next
    case (Some b)
    let ?e = "map (\<lambda>(j, c). (c, is_null b (start + j))) (enumerate 0 ?w)"
    have e: "length ?e = len" using len by simp
    have nth: "?e ! r = (vs ! (start + r), is_null b (start + r))" if "r < len" for r
      using that len vs(2) by (simp add: nth_enumerate_eq)
    have "list_all (\<lambda>(c, _). has_scalar t c) ?e"
      using vs(1,2) by (auto simp: list_all_iff in_set_enumerate_eq)
    with raw_values[of k i t ?e] k Some bm e vs obtain i' where i': "bc_raw_values conn k ?e i = Ok i'"
      "written v i i' k {..<length ?e} (\<lambda>r. if snd (?e ! r) then None else Some (fst (?e ! r)))" by auto
    have "written v i i' k {..<len} (\<lambda>r. if null_at bm (start + r) then None else Some (vs ! (start + r)))"
      using i'(2) nth unfolding written_def e Some by (simp add: null_at_def)
    with Some i'(1) k bm as_nullable_slice[of k i t] vs(2) show ?thesis by (auto simp: fill_scalar_def)
  qed
qed

lemma fill_cells_ok:
  assumes k: "k < length (iv_descs v i)" "iv_descs v i ! k = d"
    and fit: "\<And>c. c \<in> set rows \<Longrightarrow> cell_fits d (Some c)" "cell_fits d None"
    and rows: "m + length is \<le> iv_rows v i" "start + m + length is \<le> length rows" "is = [m..<m + length is]"
  shows "\<exists>i'. fill_cells conn k rows bm start is i = Ok i' \<and>
    written v i i' k {m..<m + length is} (\<lambda>r. nullable_cell bm (as_cell d) rows (start + r))"
  using k rows
proof (induction "is" arbitrary: i m)
  case Nil
  then show ?case by (auto simp: written_def)
next
  case (Cons j js)
  then have j: "j = m" "js = [Suc m..<Suc m + length js]"
    by (simp_all add: upt_conv_Cons del: upt_Suc)
  let ?c = "if null_at bm (start + m) then None else Some (rows ! (start + m))"
  have "cell_fits (iv_descs v i ! k) ?c" using Cons.prems fit by auto
  then obtain i1 where i1: "bc_set_cell conn k m ?c i = Ok i1"
    "written v i i1 k {m} (\<lambda>_. map_option (as_cell d) ?c)"
    using set_cell[of k i m ?c] Cons.prems by auto
  have "\<exists>i'. fill_cells conn k rows bm start js i1 = Ok i' \<and>
      written v i1 i' k {Suc m..<Suc m + length js} (\<lambda>r. nullable_cell bm (as_cell d) rows (start + r))"
    by (rule Cons.IH) (use Cons.prems i1(2) j(2) in \<open>auto simp: written_def\<close>)
  then obtain i2 where i2: "fill_cells conn k rows bm start js i1 = Ok i2"
    "written v i1 i2 k {Suc m..<Suc m + length js} (\<lambda>r. nullable_cell bm (as_cell d) rows (start + r))" by blast
  have "written v i i2 k {m..<m + length (j # js)} (\<lambda>r. nullable_cell bm (as_cell d) rows (start + r))"
    using i1(2) i2(2) unfolding written_def by (auto simp: nullable_cell_def not_le less_Suc_eq_le)
  moreover have "fill_cells conn k rows bm start (j # js) i = Ok i2"
    using i1(1) i2(1) Cons.prems(4) j(1) by (cases "null_at bm (start + m)") (simp_all add: null_at_def Let_def)
  ultimately show ?case by blast
qed

lemma fill_column_ok:
  assumes k: "k < length (iv_descs v i)" "iv_descs v i ! k = spec_to_buffer_desc spec"
    and d: "wf_col rc spec d" "cells_fit d" and rows: "start + len \<le> rc" "iv_rows v i = len"
  shows "\<exists>i'. fill_column conn k spec d start len i = Ok i' \<and> written v i i' k {..<len} (\<lambda>r. cell_of d (start + r))"
proof -
  have scalar: "\<exists>i'. fill_scalar conn t name k (map f vs) bm start len i = Ok i' \<and>
      written v i i' k {..<len} (\<lambda>r. nullable_cell bm f vs (start + r))"
    if "spec_to_buffer_desc spec = Buf_Scalar t (bs_nullable spec)" "wf_bitmap (bs_nullable spec) rc bm"
      "length vs = rc" "\<And>x. has_scalar t (f x)" for t name f bm and vs :: "'z list"
    using fill_scalar_ok[of k i t "bs_nullable spec" bm "map f vs" start len name] that k rows
    by (auto simp: wf_bitmap_def list_all_iff written_def nullable_cell_def split: option.splits)
  have cells: "\<exists>i'. fill_cells conn k vs bm start [0..<len] i = Ok i' \<and>
      written v i i' k {..<len} (\<lambda>r. nullable_cell bm (as_cell (spec_to_buffer_desc spec)) vs (start + r))"
    if "\<And>c. c \<in> set vs \<Longrightarrow> cell_fits (spec_to_buffer_desc spec) (Some c)" "cell_fits (spec_to_buffer_desc spec) None"
      "length vs = rc" for vs bm
    using fill_cells_ok[of k i "spec_to_buffer_desc spec" vs 0 "[0..<len]" start bm] that k rows
    by (simp add: atLeast0LessThan)
  show ?thesis
  proof (cases d)
    case (BD_I32 vs bm)
    with d k scalar[of Scalar_I32 bm vs SC_I32] show ?thesis by (auto simp: fill_column_def spec_to_buffer_desc_def Let_def)
  next
    case (BD_I64 vs bm)
    with d k scalar[of Scalar_I64 bm vs SC_I64] show ?thesis by (auto simp: fill_column_def spec_to_buffer_desc_def Let_def)
  next
    case (BD_Timestamp vs bm)
    with d k scalar[of Scalar_Timestamp bm vs SC_Timestamp] show ?thesis
      by (auto simp: fill_column_def spec_to_buffer_desc_def Let_def)
  next
    case (BD_Text vs n bm)
    with d k cells[of vs bm] as_text_view[of k i] show ?thesis
      by (auto simp: fill_column_def spec_to_buffer_desc_def Let_def list_all_iff)
  next
    case (BD_Binary vs n bm)
    with d k cells[of vs bm] as_bin_view[of k i] show ?thesis
      by (auto simp: fill_column_def spec_to_buffer_desc_def Let_def list_all_iff)
  qed
qed

lemma fill_columns_ok:
  assumes "list_all2 (wf_col rc) specs ds" "list_all cells_fit ds" "start + len \<le> rc" "iv_rows v i = len"
    and "drop k (iv_descs v i) = map spec_to_buffer_desc specs"
  shows "\<exists>i'. fill_columns conn (enumerate k (zip specs ds)) start len i = Ok i' \<and>
     iv_descs v i' = iv_descs v i \<and> iv_capacity v i' = iv_capacity v i \<and> iv_rows v i' = len \<and>
     (\<forall>c r. r < len \<longrightarrow> iv_cell v i' c r =
        (if k \<le> c \<and> c < k + length ds then cell_of (ds ! (c - k)) (start + r) else iv_cell v i c r))"
  using assms
proof (induction specs ds arbitrary: k i rule: list_all2_induct)
  case Nil
  then show ?case by auto
next
  case (Cons spec specs d ds)
  have k1: "k < length (iv_descs v i)" using arg_cong[OF Cons.prems(4), of length] by simp
  have k2: "iv_descs v i ! k = spec_to_buffer_desc spec" using Cons_nth_drop_Suc[OF k1] Cons.prems(4) by simp
  obtain i1 where i1: "fill_column conn k spec d start len i = Ok i1" "written v i i1 k {..<len} (\<lambda>r. cell_of d (start + r))"
    using fill_column_ok[OF k1 k2 Cons.hyps(1)] Cons.prems by auto
  have tail: "drop (Suc k) (iv_descs v i1) = map spec_to_buffer_desc specs"
    using i1(2) Cons.prems(4) by (simp add: written_def drop_Suc drop_tl)
  obtain i2 where i2: "fill_columns conn (enumerate (Suc k) (zip specs ds)) start len i1 = Ok i2"
    "iv_descs v i2 = iv_descs v i1" "iv_capacity v i2 = iv_capacity v i1" "iv_rows v i2 = len"
    "\<forall>c r. r < len \<longrightarrow> iv_cell v i2 c r =
        (if Suc k \<le> c \<and> c < Suc k + length ds then cell_of (ds ! (c - Suc k)) (start + r) else iv_cell v i1 c r)"
    using Cons.IH[of i1 "Suc k"] Cons.prems i1(2) tail by (auto simp: written_def)
  show ?case
  proof (intro exI[of _ i2] conjI allI impI)
    show "fill_columns conn (enumerate k (zip (spec # specs) (d # ds))) start len i = Ok i2" using i1 i2 by simp
    fix c r assume r: "r < len"
    show "iv_cell v i2 c r = (if k \<le> c \<and> c < k + length (d # ds) then cell_of ((d # ds) ! (c - k)) (start + r) else iv_cell v i c r)"
    proof (cases "c = k")
      case True
      then show ?thesis using i2(5) i1(2) r by (simp add: written_def)
    next
      case False
      then show ?thesis using i2(5) i1(2) r by (auto simp: written_def nth_Cons' Suc_le_eq)
    qed
  qed (use i1 i2 in \<open>simp_all add: written_def\<close>)
qed

end

section \<open>The contract of the server\<close>

text \<open>The starts of the chunks from one of them on.\<close>

definition starts_from :: "usize \<Rightarrow> usize \<Rightarrow> usize \<Rightarrow> usize list" where
  "starts_from n k a = map (\<lambda>j. j * k) [a..<(n + k - 1) div k]"

lemma step_by_Ok: "k > 0 \<Longrightarrow> step_by n k = Ok (starts_from n k 0)"
  by (simp add: step_by_def starts_from_def)

lemma less_ceil_iff: "k > 0 \<Longrightarrow> a < (n + k - 1) div k \<longleftrightarrow> a * k < (n :: nat)"
  using less_eq_div_iff_mult_less_eq[of k "Suc a" "n + k - 1"] by (auto simp: Suc_le_eq)

lemma starts_from_rec:
  "k > 0 \<Longrightarrow> starts_from n k a = (if a * k < n then a * k # starts_from n k (Suc a) else [])"
  by (auto simp: starts_from_def less_ceil_iff[symmetric] upt_conv_Cons simp del: upt_Suc)

text \<open>
  A successful batch adds its rows to the table; a failed one may have added some of them, since each row of an
  array is a statement of its own. \<open>job_ok\<close> is what the loop needs of its job: for a chunk within the rows the
  buffers hold exactly those rows.
\<close>

definition job_ok :: "'i inserter_view \<Rightarrow> (usize \<Rightarrow> sql_row) \<Rightarrow> ('i, 'db) insert_job \<Rightarrow> bool" where
  "job_ok v row job \<longleftrightarrow> jb_capacity job > 0 \<and> iv_capacity v (jb_inserter job) = jb_capacity job \<and>
     (\<forall>start len i. start + len \<le> jb_rows job \<and> len \<le> jb_capacity job \<and> iv_rows v i = len \<and>
        iv_capacity v i = jb_capacity job \<and> iv_descs v i = iv_descs v (jb_inserter job) \<longrightarrow>
        (\<exists>i'. jb_fill job start len i = Ok i' \<and> iv_descs v i' = iv_descs v i \<and> iv_capacity v i' = iv_capacity v i \<and>
          batch_rows v i' = map row [start..<start + len]))"

locale bulk_table = column_inserter +
  fixes table :: "'db \<Rightarrow> sql_row multiset"
  assumes execute_Ok: "bc_execute conn i db = (Ok u, db') \<Longrightarrow> table db' = table db + mset (batch_rows v i)"
    and execute_Err: "bc_execute conn i db = (Err e, db') \<Longrightarrow> \<exists>B. B \<subseteq># mset (batch_rows v i) \<and> table db' = table db + B"
    and execute_not_Panic: "fst (bc_execute conn i db) \<noteq> Panic"
begin

text \<open>One round of the loop: the end of the chunk, what is inserted, and the three ways it can end.\<close>

lemma insert_chunk_ok:
  assumes job: "job_ok v row job" "jb_conn job = conn" and start: "start < jb_rows job"
  defines "stop \<equiv> min (start + jb_capacity job) (jb_rows job)"
  shows "case insert_chunk job start db of
      (Ok (n, job'), db') \<Rightarrow> n = stop - start \<and> job_ok v row job' \<and> jb_conn job' = conn \<and> jb_rows job' = jb_rows job \<and>
        jb_capacity job' = jb_capacity job \<and> table db' = table db + mset (map row [start..<stop])
    | (Err e, db') \<Rightarrow> (\<exists>i. fst (bc_execute conn i db) = Err e) \<and> (\<exists>B. B \<subseteq># mset (map row [start..<stop]) \<and> table db' = table db + B)
    | (Panic, _) \<Rightarrow> False"
proof -
  have len: "stop - start \<le> jb_capacity job" "start + (stop - start) \<le> jb_rows job" "start + (stop - start) = stop"
    using start by (auto simp: stop_def)
  obtain i1 where i1: "bc_set_num_rows conn (stop - start) (jb_inserter job) = Ok i1"
    "iv_descs v i1 = iv_descs v (jb_inserter job)" "iv_capacity v i1 = jb_capacity job" "iv_rows v i1 = stop - start"
    using set_num_rows[of "stop - start" "jb_inserter job"] job len by (auto simp: job_ok_def)
  obtain i2 where i2: "jb_fill job start (stop - start) i1 = Ok i2" "iv_descs v i2 = iv_descs v i1"
    "iv_capacity v i2 = iv_capacity v i1" "batch_rows v i2 = map row [start..<stop]"
    using job(1) len i1 unfolding job_ok_def by metis
  have next_job: "job_ok v row (job\<lparr>jb_inserter := i2\<rparr>)" using job(1) i1 i2 by (auto simp: job_ok_def)
  obtain u db' where ex: "bc_execute conn i2 db = (u, db')" by fastforce
  show ?thesis
  proof (cases u)
    case (Ok x)
    with ex execute_Ok[of i2 db x db'] i1(1) i2 job(2) next_job show ?thesis
      by (simp add: insert_chunk_def stop_def[symmetric] Let_def)
  next
    case (Err e)
    with ex execute_Err[of i2 db e db'] i1(1) i2 job(2) show ?thesis
      by (auto simp: insert_chunk_def stop_def[symmetric] Let_def intro!: exI[of _ i2])
  next
    case Panic
    then show ?thesis using ex execute_not_Panic[of i2 db] by simp
  qed
qed

lemma insert_chunks_ok:
  assumes "job_ok v row job" "jb_conn job = conn" "starts = starts_from (jb_rows job) (jb_capacity job) a"
    and "a * jb_capacity job \<le> jb_rows job \<or> starts = []"
  shows "case insert_chunks job starts t db of
      (Ok x, db') \<Rightarrow> x = t + (jb_rows job - a * jb_capacity job) \<and>
        table db' = table db + mset (map row [a * jb_capacity job..<jb_rows job])
    | (Err e, db') \<Rightarrow> (\<exists>i d. fst (bc_execute conn i d) = Err e) \<and>
        (\<exists>B. B \<subseteq># mset (map row [a * jb_capacity job..<jb_rows job]) \<and> table db' = table db + B)
    | (Panic, _) \<Rightarrow> False"
  using assms
proof (induction starts arbitrary: job t db a)
  case Nil
  then show ?case by (simp add: starts_from_rec job_ok_def split: if_splits)
next
  case (Cons s ss)
  let ?n = "jb_rows job" and ?k = "jb_capacity job"
  have k: "?k > 0" using Cons.prems(1) by (simp add: job_ok_def)
  with Cons.prems(3) have s: "s = a * ?k" "s < ?n" "ss = starts_from ?n ?k (Suc a)"
    by (auto simp: starts_from_rec[of ?k ?n a] split: if_splits)
  let ?stop = "min (s + ?k) ?n"
  have split: "[s..<?n] = [s..<?stop] @ [?stop..<?n]" using upt_add_eq_append[of s ?stop "?n - ?stop"] s(2) by simp
  have stop: "[?stop..<?n] = [Suc a * ?k..<?n]" by (auto simp: s(1) min_def add.commute)
  have msplit: "mset (map row [s..<?n]) = mset (map row [s..<?stop]) + mset (map row [Suc a * ?k..<?n])"
    unfolding split stop by (simp only: map_append mset_append)
  note chunk = insert_chunk_ok[OF Cons.prems(1,2) s(2), of db]
  obtain r db1 where r: "insert_chunk job s db = (r, db1)" by fastforce
  show ?case
  proof (cases r)
    case (Ok p)
    obtain n job1 where p: "p = (n, job1)" by (cases p)
    from chunk r Ok p have c: "n = ?stop - s" "job_ok v row job1" "jb_conn job1 = conn" "jb_rows job1 = ?n"
      "jb_capacity job1 = ?k" "table db1 = table db + mset (map row [s..<?stop])" by auto
    have "Suc a * ?k \<le> ?n \<or> ss = []" using starts_from_rec[OF k, of ?n "Suc a"] s(3) by auto
    note IH = Cons.IH[OF c(2,3), of "Suc a" "t + n" db1, unfolded c(4,5), OF s(3) this]
    have n: "n + (?n - Suc a * ?k) = ?n - s" using c(1) s by auto
    obtain r2 db2 where r2: "insert_chunks job1 ss (t + n) db1 = (r2, db2)" by fastforce
    show ?thesis
    proof (cases r2)
      case (Ok x)
      with IH r2 have "x = t + (?n - s)" "table db2 = table db + mset (map row [s..<?n])"
        unfolding msplit c(6) using n c(6) by auto
      then show ?thesis unfolding s(1)[symmetric] by (simp add: r \<open>r = Ok p\<close> p r2 Ok)
    next
      case (Err e)
      with IH r2 obtain B i d where B: "B \<subseteq># mset (map row [Suc a * ?k..<?n])" "table db2 = table db1 + B"
        "fst (bc_execute conn i d) = Err e" by auto
      have "mset (map row [s..<?stop]) + B \<subseteq># mset (map row [s..<?n])"
        unfolding msplit using B(1) by (rule subset_mset.add_left_mono)
      with B(2,3) c(6) show ?thesis
        unfolding s(1)[symmetric] by (auto simp: r \<open>r = Ok p\<close> p r2 Err intro!: exI[of _ "mset (map row [s..<?stop]) + B"])
    next
      case Panic
      with IH r2 show ?thesis by simp
    qed
  next
    case (Err e)
    with chunk r obtain B i where B: "B \<subseteq># mset (map row [s..<?stop])" "table db1 = table db + B"
      "fst (bc_execute conn i db) = Err e" by auto
    have "mset (map row [s..<?stop]) \<subseteq># mset (map row [s..<?n])" unfolding msplit by (rule mset_subset_eq_add_left)
    with B show ?thesis unfolding s(1)[symmetric] by (auto simp: r Err intro: subset_mset.order_trans)
  next
    case Panic
    with chunk r show ?thesis by simp
  qed
qed

lemma open_generic_job:
  assumes "payload_typed p" "open_generic conn ps p = Ok (Some (job, starts))" "ps > 0"
  shows "job_ok v (payload_row p) job \<and> jb_conn job = conn \<and> jb_rows job = unat (bp_row_count p) \<and>
    jb_capacity job = min ps (unat (bp_row_count p)) \<and> starts = starts_from (jb_rows job) (jb_capacity job) 0"
proof -
  let ?n = "unat (bp_row_count p)" and ?specs = "bp_columns p" and ?ds = "bp_column_data p"
  let ?fill = "fill_columns conn (enumerate 0 (zip ?specs ?ds))"
  from assms(2) obtain sql i where i: "?n > 0" "bc_into_inserter conn sql (min ps ?n) (map spec_to_buffer_desc ?specs) = Ok i"
    "step_by ?n (min ps ?n) = Ok starts"
    "job = \<lparr>jb_conn = conn, jb_rows = ?n, jb_capacity = min ps ?n, jb_fill = ?fill, jb_inserter = i\<rparr>"
    by (auto simp: open_generic_def open_job_def Let_def split: if_splits)
  have view: "iv_descs v i = map spec_to_buffer_desc ?specs" "iv_capacity v i = min ps ?n" using new_view i(2) by blast+
  have fill: "\<exists>i'. jb_fill job start len j = Ok i' \<and> iv_descs v i' = iv_descs v j \<and> iv_capacity v i' = iv_capacity v j \<and>
      batch_rows v i' = map (payload_row p) [start..<start + len]"
    if j: "start + len \<le> jb_rows job" "iv_rows v j = len" "iv_descs v j = iv_descs v (jb_inserter job)" for start len j
  proof -
    have l: "length ?specs = length ?ds" using assms(1) by (auto simp: payload_typed_def dest: list_all2_lengthD)
    obtain i' where i': "?fill start len j = Ok i'" "iv_descs v i' = iv_descs v j" "iv_capacity v i' = iv_capacity v j"
      "iv_rows v i' = len" "\<forall>c r. r < len \<longrightarrow> iv_cell v i' c r = (if c < length ?ds then cell_of (?ds ! c) (start + r) else iv_cell v j c r)"
      using fill_columns_ok[of ?n ?specs ?ds start len j 0] assms(1) j view i(4) by (auto simp: payload_typed_def)
    have "batch_rows v i' = map (payload_row p) [start..<start + len]"
      using i' j view i(4) l by (intro nth_equalityI) (auto simp: batch_rows_def payload_row_def intro!: nth_equalityI)
    with i' show ?thesis by (auto simp: i(4))
  qed
  have "jb_capacity job > 0" "iv_capacity v (jb_inserter job) = jb_capacity job" using i view assms(3) by auto
  then have "job_ok v (payload_row p) job" unfolding job_ok_def using fill by blast
  then show ?thesis using i assms(3) by (auto simp: step_by_Ok)
qed

lemma open_generic_Err:
  assumes "payload_typed p" "open_generic conn ps p = Err e"
  shows "(\<exists>n. validate_identifier n = Err e) \<or> (\<exists>sql. bc_prepare conn sql = Err e) \<or>
    (\<exists>sql n ds. bc_into_inserter conn sql n ds = Err e)"
proof -
  have quoted: "\<exists>n. validate_identifier n = Err e" if "omapM quote_identifier_default xs = Err e" for xs
    using that by (induction xs) (auto simp: quote_identifier_default_def quote_identifier_def obind_Err_iff)
  show ?thesis
    using assms quoted
    by (auto simp: payload_typed_def open_generic_def open_job_def Let_def obind_Err_iff omap_def step_by_def quote_column_list_def
        quote_qualified_default_def split: if_splits dest: list_all2_lengthD)
qed

lemma open_generic_not_Panic: "ps > 0 \<Longrightarrow> open_generic conn ps p \<noteq> Panic"
  using prepare_not_Panic new_not_Panic
  by (auto simp: open_generic_def open_job_def Let_def quote_column_list_def quote_qualified_default_def
      step_by_def split: if_splits)

lemma bulk_insert_ok:
  assumes "payload_typed p" "ps > 0"
  shows "case bulk_insert_generic ps conn p db of
      (Ok n, db') \<Rightarrow> n = unat (bp_row_count p) \<and> table db' = table db + mset (payload_rows p)
    | (Err e, db') \<Rightarrow> ((\<exists>n. validate_identifier n = Err e) \<or> (\<exists>sql. bc_prepare conn sql = Err e) \<or>
          (\<exists>sql n ds. bc_into_inserter conn sql n ds = Err e) \<or> (\<exists>i d. fst (bc_execute conn i d) = Err e)) \<and>
        (\<exists>B. B \<subseteq># mset (payload_rows p) \<and> table db' = table db + B)
    | (Panic, _) \<Rightarrow> False"
proof (cases "open_generic conn ps p")
  case (Ok job)
  show ?thesis
  proof (cases job)
    case None
    with Ok have "unat (bp_row_count p) = 0" by (auto simp: open_generic_def Let_def split: if_splits)
    with Ok None show ?thesis by (simp add: bulk_insert_generic_def run_job_def payload_rows_def)
  next
    case (Some js)
    obtain jb starts where js: "js = (jb, starts)" by (cases js)
    note j = open_generic_job[OF assms(1) Ok[unfolded Some js] assms(2)]
    from insert_chunks_ok[of "payload_row p" jb starts 0 0 db] j Ok Some js show ?thesis
      by (auto simp: bulk_insert_generic_def run_job_def payload_rows_def split: prod.splits outcome.splits)
  qed
next
  case (Err e)
  have "\<exists>B. B \<subseteq># mset (payload_rows p) \<and> table db = table db + B" by (intro exI[of _ "{#}"]) simp
  with Err open_generic_Err[OF assms(1) Err] show ?thesis by (auto simp: bulk_insert_generic_def run_job_def)
next
  case Panic
  with open_generic_not_Panic assms(2) show ?thesis by blast
qed

end

section \<open>An inserter and a server made of lists\<close>

text \<open>
  The buffers are a table of cells, the server a list of rows that accepts the rows of a batch one by one until
  it meets one it refuses. Both contracts hold of them.
\<close>

record list_inserter =
  li_descs :: "buffer_desc list"
  li_capacity :: usize
  li_rows :: usize
  li_cell :: "usize \<Rightarrow> usize \<Rightarrow> sql_cell option"

definition list_view :: "list_inserter inserter_view" where
  "list_view = \<lparr>iv_descs = li_descs, iv_rows = li_rows, iv_capacity = li_capacity, iv_cell = li_cell\<rparr>"

definition list_put :: "usize \<Rightarrow> (usize \<times> sql_cell option) list \<Rightarrow> list_inserter \<Rightarrow> list_inserter result" where
  "list_put k cells i =
     (if k < length (li_descs i) \<and> list_all (\<lambda>(r, _). r < li_rows i) cells then
        Ok (i\<lparr>li_cell := \<lambda>c r. if c = k then (case map_of cells r of Some x \<Rightarrow> x | None \<Rightarrow> li_cell i c r) else li_cell i c r\<rparr>)
      else Panic)"

definition has_desc :: "(buffer_desc \<Rightarrow> bool) \<Rightarrow> usize \<Rightarrow> list_inserter \<Rightarrow> bool" where
  "has_desc P k i \<longleftrightarrow> k < length (li_descs i) \<and> P (li_descs i ! k)"

definition list_conn :: "(sql_row \<Rightarrow> bool) \<Rightarrow> (list_inserter, sql_row list) bulk_conn" where
  "list_conn accepts =
     \<lparr>bc_prepare = \<lambda>_. Ok (),
      bc_into_inserter = \<lambda>_ n ds. Ok \<lparr>li_descs = ds, li_capacity = n, li_rows = 0, li_cell = \<lambda>_ _. None\<rparr>,
      bc_set_num_rows = \<lambda>n i. if n \<le> li_capacity i then Ok (i\<lparr>li_rows := n\<rparr>) else Panic,
      bc_as_slice = \<lambda>t. has_desc (\<lambda>d. d = Buf_Scalar t False),
      bc_copy_slice = \<lambda>k vs. list_put k (enumerate 0 (map Some vs)),
      bc_as_nullable_slice = \<lambda>t. has_desc (\<lambda>d. d = Buf_Scalar t True),
      bc_raw_values = \<lambda>k vs. list_put k (enumerate 0 (map (\<lambda>(c, null). if null then None else Some c) vs)),
      bc_as_text_view = has_desc (\<lambda>d. case d of Buf_Text _ \<Rightarrow> True | _ \<Rightarrow> False),
      bc_as_bin_view = has_desc (\<lambda>d. case d of Buf_Binary _ \<Rightarrow> True | _ \<Rightarrow> False),
      bc_set_cell = \<lambda>k r c i.
        if has_desc (\<lambda>d. cell_fits d c) k i then list_put k [(r, map_option (as_cell (li_descs i ! k)) c)] i else Panic,
      bc_execute = \<lambda>i db.
        (if list_all accepts (batch_rows list_view i) then Ok () else Err (OdbcApi ''row refused''),
         db @ takeWhile accepts (batch_rows list_view i)),
      bc_set_autocommit = \<lambda>_ db. (Ok (), db),
      bc_commit = \<lambda>db. (Ok (), db),
      bc_rollback = \<lambda>db. (Ok (), db)\<rparr>"

lemma map_of_enumerate: "map_of (enumerate 0 xs) r = (if r < length xs then Some (xs ! r) else None)"
proof -
  have "distinct (map fst (enumerate 0 xs))" by simp
  from map_of_eq_Some_iff[OF this, of r] show ?thesis
    by (auto simp: in_set_enumerate_eq map_of_eq_None_iff image_iff)
qed

lemma list_put_written:
  assumes "k < length (li_descs i)" "list_all (\<lambda>(r, _). r < li_rows i) cells"
    and "\<And>r. map_of cells r = (if r \<in> R then Some (f r) else None)"
  shows "\<exists>i'. list_put k cells i = Ok i' \<and> written list_view i i' k R f"
  using assms by (auto simp: list_put_def written_def list_view_def)

interpretation list_table: bulk_table "list_conn accepts" list_view mset
proof unfold_locales
  fix k i t and vs :: "sql_cell list"
  assume "k < length (iv_descs list_view i)" "length vs \<le> iv_rows list_view i"
  then show "\<exists>i'. bc_copy_slice (list_conn accepts) k vs i = Ok i' \<and> written list_view i i' k {..<length vs} (\<lambda>r. Some (vs ! r))"
    unfolding list_conn_def bulk_conn.simps
    by (intro list_put_written) (auto simp: list_view_def map_of_enumerate list_all_iff in_set_enumerate_eq)
next
  fix k i t and vs :: "(sql_cell \<times> bool) list"
  assume "k < length (iv_descs list_view i)" "length vs \<le> iv_rows list_view i"
  then show "\<exists>i'. bc_raw_values (list_conn accepts) k vs i = Ok i' \<and>
      written list_view i i' k {..<length vs} (\<lambda>r. if snd (vs ! r) then None else Some (fst (vs ! r)))"
    unfolding list_conn_def bulk_conn.simps
    by (intro list_put_written) (auto simp: list_view_def map_of_enumerate list_all_iff in_set_enumerate_eq split: prod.splits)
next
  fix k i r c
  assume "k < length (iv_descs list_view i)" "r < iv_rows list_view i" "cell_fits (iv_descs list_view i ! k) c"
  then show "\<exists>i'. bc_set_cell (list_conn accepts) k r c i = Ok i' \<and>
      written list_view i i' k {r} (\<lambda>_. map_option (as_cell (iv_descs list_view i ! k)) c)"
    using list_put_written[of k i "[(r, map_option (as_cell (li_descs i ! k)) c)]" "{r}" "\<lambda>_. map_option (as_cell (li_descs i ! k)) c"]
    by (auto simp: list_conn_def has_desc_def list_view_def)
next
  fix i db u db'
  assume "bc_execute (list_conn accepts) i db = (Ok u, db')"
  then show "mset db' = mset db + mset (batch_rows list_view i)"
    by (auto simp: list_conn_def list_all_iff takeWhile_eq_all_conv[THEN iffD2] split: if_splits)
next
  fix i db e db'
  assume "bc_execute (list_conn accepts) i db = (Err e, db')"
  then show "\<exists>B. B \<subseteq># mset (batch_rows list_view i) \<and> mset db' = mset db + B"
    by (auto simp: list_conn_def split: if_splits intro!: exI[of _ "mset (takeWhile accepts (batch_rows list_view i))"])
      (metis mset_append mset_subset_eq_add_left takeWhile_dropWhile_id)
qed (auto simp: list_conn_def list_view_def has_desc_def split: buffer_desc.splits)

section \<open>Properties\<close>

text \<open>
  C16. Well-typed payloads do not get stuck. What the parser accepts is well typed, and on every connection whose buffers and
  server keep their contracts the insert of a well-typed payload never panics and never meets a column that does
  not match its buffer: it fails only with an invalid name or an error of the driver, having inserted at most rows of the
  payload, and otherwise reports the number of rows and has inserted exactly them.
\<close>

theorem bulk_insert_typed:
  assumes "parse_bulk_insert_payload data = Ok p" and "bulk_table conn v table"
  shows "payload_typed p \<and>
    (case bulk_insert_generic (array_binding_new paramset_size) conn p db of
      (Ok n, db') \<Rightarrow> n = unat (bp_row_count p) \<and> table db' = table db + mset (payload_rows p)
    | (Err e, db') \<Rightarrow> ((\<exists>n. validate_identifier n = Err e) \<or> (\<exists>sql. bc_prepare conn sql = Err e) \<or>
          (\<exists>sql n ds. bc_into_inserter conn sql n ds = Err e) \<or> (\<exists>i d. fst (bc_execute conn i d) = Err e)) \<and>
        (\<exists>B. B \<subseteq># mset (payload_rows p) \<and> table db' = table db + B)
    | (Panic, _) \<Rightarrow> False)"
  using parse_bulk_typed[OF assms(1)] bulk_table.bulk_insert_ok[OF assms(2) parse_bulk_typed[OF assms(1)], of "array_binding_new paramset_size" db]
  by (simp add: array_binding_new_def)

lemma small_payload_parses: "parse_bulk_insert_payload (bulk_bytes small_payload) = Ok small_payload"
proof -
  have "length (bulk_bytes small_payload) \<le> usize_max" by (simp add: small_payload_def bulk_bytes_def spec_bytes_def)
  moreover have "wf_payload small_payload"
    by (simp add: small_payload_def wf_payload_def wf_spec_def bulk_limits valid_str_ascii ascii_def wf_bitmap_def null_bitmap_size_def)
  ultimately have "parse_bulk_insert_payload (bulk_bytes small_payload) = Ok (norm_payload small_payload)" by (simp add: parse_bulk_layout)
  then show ?thesis by (simp add: norm_payload_def small_payload_def)
qed

theorem bulk_insert_typed_witness:
  "parse_bulk_insert_payload (bulk_bytes small_payload) = Ok small_payload \<and>
   fst (bulk_insert_generic (array_binding_new 1) (list_conn (\<lambda>_. True)) small_payload []) = Ok 2 \<and>
   mset (snd (bulk_insert_generic (array_binding_new 1) (list_conn (\<lambda>_. True)) small_payload [])) =
     {#[Some (SC_I32 7)], [None]#}"
proof -
  have rows: "payload_rows small_payload = [[Some (SC_I32 7)], [None]]"
    by (simp add: payload_rows_def payload_row_def small_payload_def nullable_cell_def null_at_def is_null_def upt_rec)
  have "fst (bulk_insert_generic (array_binding_new 1) (list_conn (\<lambda>_. True)) small_payload []) = Ok 2" by code_simp
  then obtain db' where "bulk_insert_generic (array_binding_new 1) (list_conn (\<lambda>_. True)) small_payload [] = (Ok 2, db')"
    by (metis prod.collapse)
  then show ?thesis
    using bulk_insert_typed[OF small_payload_parses list_table.bulk_table_axioms[of "\<lambda>_. True"], where paramset_size = 1 and db = "[]"] rows small_payload_parses
    by (simp add: add_mset_commute)
qed

text \<open>The inserts with fixed types are the generic one on the payload with the same columns.\<close>

definition i32_spec :: "string \<Rightarrow> bulk_column_spec" where
  "i32_spec name = \<lparr>bs_name = name, bs_col_type = BT_I32, bs_nullable = False, bs_max_len = 0\<rparr>"

definition i32_payload :: "string \<Rightarrow> string list \<Rightarrow> i32 list list \<Rightarrow> bulk_insert_payload" where
  "i32_payload table columns data =
     \<lparr>bp_table = table, bp_columns = map i32_spec columns,
      bp_row_count = (case data of [] \<Rightarrow> 0 | col # _ \<Rightarrow> of_nat (length col)), bp_column_data = map (\<lambda>c. BD_I32 c None) data\<rparr>"

lemma fill_i32_generic:
  "length columns = length data \<Longrightarrow>
   fill_i32 conn (enumerate k data) start len i =
     fill_columns conn (enumerate k (zip (map i32_spec columns) (map (\<lambda>c. BD_I32 c None) data))) start len i"
proof (induction columns data arbitrary: k i rule: list_induct2)
  case (Cons c cs d ds)
  show ?case
    by (simp add: Cons.IH fill_column_def fill_scalar_def i32_spec_def obind_assoc cong: obind_cong)
qed simp

text \<open>
  The typed insert of 32-bit integers is the generic insert: when the columns have the same number of rows (fewer than
  \<open>2\<^sup>3\<^sup>2\<close>) both send the same calls and give the same answer on every connection and database; otherwise it refuses
  the data without touching the database.
\<close>

theorem i32_insert_is_generic:
  assumes "\<forall>col \<in> set data. length col < 2 ^ 32"
  shows "bulk_insert_i32 paramset_size conn table columns data db =
    (if length data = length columns \<and> (\<forall>col \<in> set data. length col = length (hd data)) then
       bulk_insert_generic paramset_size conn (i32_payload table columns data) db
     else (Err (ValidationError (if length data \<noteq> length columns then ''data length must match columns length''
             else ''all columns must have same row count'')), db))"
proof (cases data)
  case Nil
  then show ?thesis
    by (auto simp: bulk_insert_i32_def bulk_insert_generic_def open_i32_def open_generic_def validate_i32_bulk_data_def i32_payload_def run_job_def)
next
  case (Cons col0 rest)
  have n: "unat (of_nat (length col0) :: u32) = length col0" using assms Cons by (simp add: unat_of_nat)
  have names: "map (bs_name \<circ> i32_spec) columns = columns" "map (spec_to_buffer_desc \<circ> i32_spec) columns = replicate (length columns) (Buf_Scalar Scalar_I32 False)"
    by (auto simp: i32_spec_def spec_to_buffer_desc_def comp_def map_replicate_const)
  show ?thesis
  proof (cases "length data = length columns \<and> (\<forall>col \<in> set data. length col = length (hd data))")
    case True
    have "fill_i32 conn (enumerate 0 data) =
        fill_columns conn (enumerate 0 (zip (map i32_spec columns) (map (\<lambda>c. BD_I32 c None) data)))"
      using True by (intro ext) (subst fill_i32_generic[of columns]; simp)
    with True Cons n names show ?thesis
      by (simp add: bulk_insert_i32_def bulk_insert_generic_def open_i32_def open_generic_def validate_i32_bulk_data_def i32_payload_def Let_def)
  next
    case False
    with Cons show ?thesis
      by (auto simp: bulk_insert_i32_def open_i32_def validate_i32_bulk_data_def run_job_def)
  qed
qed

theorem i32_insert_is_generic_witness:
  "bulk_insert_i32 2 (list_conn (\<lambda>_. True)) ''t'' [''a'', ''b''] [[1, 2, 3], [4, 5, 6]] [] =
     bulk_insert_generic 2 (list_conn (\<lambda>_. True)) (i32_payload ''t'' [''a'', ''b''] [[1, 2, 3], [4, 5, 6]]) [] \<and>
   bulk_insert_i32 2 (list_conn (\<lambda>_. True)) ''t'' [''a'', ''b''] [[1, 2, 3], [4]] [] =
     (Err (ValidationError ''all columns must have same row count''), [])"
  using i32_insert_is_generic[of "[[1, 2, 3], [4, 5, 6]]" 2 "list_conn (\<lambda>_. True)" "''t''" "[''a'', ''b'']" "[]"]
    i32_insert_is_generic[of "[[1, 2, 3], [4]]" 2 "list_conn (\<lambda>_. True)" "''t''" "[''a'', ''b'']" "[]"]
  by simp

end
