(* ===== verification/Pool.thy ===== *)
theory Pool
  imports Requests
begin

text \<open>
  \<open>pool/mod.rs\<close> and the entry points \<open>odbc_pool_*\<close> of \<open>ffi/mod.rs\<close>. The crate \<open>r2d2\<close> is a parameter: \<open>pb_build\<close> is
  what its builder answers (it panics on a size of zero), and each call of \<open>Pool::get\<close> and \<open>Pool::state\<close> takes its
  answer as an argument. What the hooks of the connection manager do to a connection is written out.
\<close>

section \<open>Options in the connection string\<close>

definition is_pool_checkout_option :: "string \<Rightarrow> bool" where
  "is_pool_checkout_option key \<longleftrightarrow>
     key \<in> {''pooltestoncheckout'', ''testoncheckout'', ''pool_test_on_checkout'', ''pool_test_on_check_out'',
            ''test_on_checkout'', ''test_on_check_out''}"

definition is_pool_health_check_option :: "string \<Rightarrow> bool" where
  "is_pool_health_check_option key \<longleftrightarrow>
     key \<in> {''poolhealthcheckquery'', ''healthcheckquery'', ''pool_health_check_query'', ''health_check_query''}"

definition parse_bool_flag :: "string \<Rightarrow> bool option" where
  "parse_bool_flag value =
     (let v = to_ascii_lowercase (str_trim value) in
      if v \<in> {''1'', ''true'', ''yes'', ''on''} then Some True
      else if v \<in> {''0'', ''false'', ''no'', ''off''} then Some False
      else None)"

text \<open>The loop over the characters: the depth is a \<open>u32\<close> with saturating steps, \<open>part\<close> the part read so far.\<close>

definition MAX_DEPTH :: nat where "MAX_DEPTH = 2 ^ 32 - 1"

fun split_parts :: "nat \<Rightarrow> string \<Rightarrow> string \<Rightarrow> string list" where
  "split_parts depth part [] = [part]"
| "split_parts depth part (ch # rest) =
     (if ch = CHR 0x7B then split_parts (min (depth + 1) MAX_DEPTH) (part @ [ch]) rest
      else if ch = CHR 0x7D then split_parts (depth - 1) (part @ [ch]) rest
      else if ch = CHR '';'' \<and> depth = 0 then part # split_parts depth [] rest
      else split_parts depth (part @ [ch]) rest)"

definition split_connection_string_parts :: "string \<Rightarrow> string list" where
  "split_connection_string_parts connection_string = split_parts 0 [] connection_string"

definition is_brace :: "char \<Rightarrow> bool" where
  "is_brace c \<longleftrightarrow> c = CHR 0x7B \<or> c = CHR 0x7D"

definition trim_braces :: "string \<Rightarrow> string" where
  "trim_braces s = rev (dropWhile is_brace (rev (dropWhile is_brace s)))"

text \<open>What one part adds: it is kept, trimmed, or sets an option, or is dropped.\<close>

record pool_parts =
  pp_sanitized :: "string list"
  pp_override :: "bool option"
  pp_health_query :: "string option"

definition option_value :: "string \<Rightarrow> string" where
  "option_value raw_value = trim_braces (str_trim raw_value)"

definition option_key :: "string \<Rightarrow> string" where
  "option_key key = to_ascii_lowercase (str_trim key)"

definition take_part :: "string \<Rightarrow> pool_parts \<Rightarrow> pool_parts" where
  "take_part part a =
     (let trimmed = str_trim part; kept = a\<lparr>pp_sanitized := pp_sanitized a @ [trimmed]\<rparr> in
      if trimmed = [] then a
      else case split_once (CHR ''='') part of
        None \<Rightarrow> kept
      | Some (key, raw_value) \<Rightarrow>
          if is_pool_checkout_option (option_key key) then
            (case parse_bool_flag (option_value raw_value) of Some b \<Rightarrow> a\<lparr>pp_override := Some b\<rparr> | None \<Rightarrow> a)
          else if is_pool_health_check_option (option_key key) then
            (if option_value raw_value \<noteq> [] then a\<lparr>pp_health_query := Some (option_value raw_value)\<rparr> else a)
          else kept)"

definition parse_pool_options_from_connection_string :: "string \<Rightarrow> string \<times> bool option \<times> string option" where
  "parse_pool_options_from_connection_string connection_string =
     (let a = fold take_part (split_connection_string_parts connection_string)
                \<lparr>pp_sanitized = [], pp_override = None, pp_health_query = None\<rparr>;
          sanitized = join_with '';'' (pp_sanitized a);
          trimmed = str_trim_end connection_string
      in (if trimmed \<noteq> [] \<and> last trimmed = CHR '';'' \<and> sanitized \<noteq> [] then sanitized @ '';'' else sanitized,
          pp_override a, pp_health_query a))"

section \<open>Configuration\<close>

text \<open>The environment of the process is a map from variables to values.\<close>

definition read_checkout_validation_from_env :: "(string \<Rightarrow> string option) \<Rightarrow> bool option" where
  "read_checkout_validation_from_env var = Option.bind (var ''ODBC_POOL_TEST_ON_CHECKOUT'') parse_bool_flag"

definition resolve_checkout_validation :: "bool option \<Rightarrow> bool option \<Rightarrow> bool" where
  "resolve_checkout_validation conn_override env_override =
     (case conn_override of Some b \<Rightarrow> b | None \<Rightarrow> (case env_override of Some b \<Rightarrow> b | None \<Rightarrow> True))"

definition read_health_check_query_from_env :: "(string \<Rightarrow> string option) \<Rightarrow> string option" where
  "read_health_check_query_from_env var =
     (case var ''ODBC_POOL_HEALTH_CHECK_QUERY'' of Some s \<Rightarrow> if str_trim s = [] then None else Some s | None \<Rightarrow> None)"

definition resolve_health_check_query :: "string option \<Rightarrow> string option \<Rightarrow> string" where
  "resolve_health_check_query conn_override env_override =
     (case (case conn_override of Some q \<Rightarrow> Some q | None \<Rightarrow> env_override) of
        Some s \<Rightarrow> if str_trim s = [] then ''SELECT 1'' else str_trim s
      | None \<Rightarrow> ''SELECT 1'')"

record pool_config =
  pg_sanitized_connection_string :: string
  pg_test_on_check_out :: bool
  pg_health_check_query :: string

definition from_connection_string :: "(string \<Rightarrow> string option) \<Rightarrow> string \<Rightarrow> pool_config" where
  "from_connection_string var connection_string =
     (case parse_pool_options_from_connection_string connection_string of
        (sanitized, conn_override, health_check_query) \<Rightarrow>
          \<lparr>pg_sanitized_connection_string = sanitized,
           pg_test_on_check_out = resolve_checkout_validation conn_override (read_checkout_validation_from_env var),
           pg_health_check_query = resolve_health_check_query health_check_query (read_health_check_query_from_env var)\<rparr>)"

section \<open>The connection manager\<close>

record odbc_connection_manager =
  om_connection_string :: string
  om_health_check_query :: string

definition manager_connect :: "driver \<Rightarrow> odbc_connection_manager \<Rightarrow> connection result" where
  "manager_connect drv m =
     (case dv_connect drv (om_connection_string m) None of
        Some e \<Rightarrow> Err (from_odbc_api e)
      | None \<Rightarrow> Ok \<lparr>cn_str = om_connection_string m, cn_poisoned = False, cn_log = []\<rparr>)"

definition is_valid :: "driver \<Rightarrow> odbc_connection_manager \<Rightarrow> connection \<Rightarrow> unit result \<times> connection" where
  "is_valid drv m conn =
     (case conn_call drv (SetAutocommit True) conn of
        (Ok _, conn) \<Rightarrow> conn_call drv (Exec (om_health_check_query m)) conn
      | failed \<Rightarrow> failed)"

definition has_broken :: "driver \<Rightarrow> odbc_connection_manager \<Rightarrow> connection \<Rightarrow> bool \<times> connection" where
  "has_broken drv m conn = (case is_valid drv m conn of (r, conn) \<Rightarrow> (r \<noteq> Ok (), conn))"

text \<open>\<open>PoolAutocommitCustomizer::on_acquire\<close>, and what \<open>odbc_pool_release_connection\<close> does before the connection goes back.\<close>

definition on_acquire :: "driver \<Rightarrow> connection \<Rightarrow> unit result \<times> connection" where
  "on_acquire drv conn = conn_call drv (SetAutocommit True) (snd (conn_call drv RollbackCall conn))"

definition before_return :: "driver \<Rightarrow> connection \<Rightarrow> connection" where
  "before_return drv conn = snd (conn_call drv (SetAutocommit True) (snd (conn_call drv RollbackCall conn)))"

section \<open>Pools\<close>

record pool_options =
  po_idle_timeout :: "nat option"
  po_max_lifetime :: "nat option"
  po_connection_timeout :: "nat option"

definition default_pool_options :: pool_options where
  "default_pool_options = \<lparr>po_idle_timeout = None, po_max_lifetime = None, po_connection_timeout = None\<rparr>"

text \<open>What the builder of \<open>r2d2\<close> is told; \<open>None\<close> leaves its default. Durations are in milliseconds.\<close>

record r2d2_settings =
  rs_max_size :: u32
  rs_connection_timeout :: nat
  rs_test_on_check_out :: bool
  rs_idle_timeout :: "nat option"
  rs_max_lifetime :: "nat option"

record connection_pool =
  cp_manager :: odbc_connection_manager
  cp_settings :: r2d2_settings
  cp_connection_string :: string
  cp_max_size :: u32
  cp_test_on_check_out :: bool

text \<open>The environment of ODBC is created once for all pools: \<open>Some\<close> is the error it gave.\<close>

record pool_backend =
  pb_environment :: "string option"
  pb_var :: "string \<Rightarrow> string option"
  pb_build :: "odbc_connection_manager \<Rightarrow> r2d2_settings \<Rightarrow> (string, unit) outcome"

definition manager_new :: "pool_backend \<Rightarrow> string \<Rightarrow> string \<Rightarrow> odbc_connection_manager result" where
  "manager_new pb connection_string health_check_query =
     (case pb_environment pb of
        Some e \<Rightarrow> Err (PoolError (''Failed to create ODBC environment for pool: '' @ e))
      | None \<Rightarrow> Ok \<lparr>om_connection_string = connection_string, om_health_check_query = health_check_query\<rparr>)"

definition new_with_options :: "pool_backend \<Rightarrow> string \<Rightarrow> u32 \<Rightarrow> pool_options \<Rightarrow> connection_pool result" where
  "new_with_options pb connection_string max_size options =
     (let config = from_connection_string (pb_var pb) connection_string in
      obind (manager_new pb (pg_sanitized_connection_string config) (pg_health_check_query config)) (\<lambda>manager.
      let settings =
            \<lparr>rs_max_size = max_size,
             rs_connection_timeout = (case po_connection_timeout options of Some d \<Rightarrow> d | None \<Rightarrow> 30000),
             rs_test_on_check_out = pg_test_on_check_out config,
             rs_idle_timeout = po_idle_timeout options, rs_max_lifetime = po_max_lifetime options\<rparr>
      in
      obind (map_err (\<lambda>e. PoolError (''Pool creation failed: '' @ e)) (pb_build pb manager settings)) (\<lambda>_.
      Ok \<lparr>cp_manager = manager, cp_settings = settings, cp_connection_string = pg_sanitized_connection_string config,
          cp_max_size = max_size, cp_test_on_check_out = pg_test_on_check_out config\<rparr>)))"

definition pool_new :: "pool_backend \<Rightarrow> string \<Rightarrow> u32 \<Rightarrow> connection_pool result" where
  "pool_new pb connection_string max_size = new_with_options pb connection_string max_size default_pool_options"

definition pool_get :: "(string, connection) outcome \<Rightarrow> connection result" where
  "pool_get answer = map_err (\<lambda>e. PoolError (''Failed to get connection from pool: '' @ e)) answer"

text \<open>The identity of a pool: the last non-empty server, port and user of the connection string.\<close>

definition pool_component :: "(string \<Rightarrow> string) \<Rightarrow> string \<Rightarrow> string \<times> string \<times> string \<Rightarrow> string \<times> string \<times> string" where
  "pool_component lower part found =
     (case found of (server, port, uid) \<Rightarrow>
        (case split_once (CHR ''='') (str_trim part) of
           None \<Rightarrow> (server, port, uid)
         | Some (k, v) \<Rightarrow>
             let k = lower (str_trim k); v = option_value v in
             if k \<in> {''server'', ''host'', ''hostname''} then (if v \<noteq> [] then v else server, port, uid)
             else if k = ''port'' then (server, if v \<noteq> [] then v else port, uid)
             else if k \<in> {''uid'', ''user'', ''username''} then (server, port, if v \<noteq> [] then v else uid)
             else (server, port, uid)))"

definition extract_pool_components :: "(string \<Rightarrow> string) \<Rightarrow> string \<Rightarrow> string" where
  "extract_pool_components lower conn_str =
     (case fold (pool_component lower) (split_on (CHR '';'') conn_str) ([], [], []) of
        (server, port, uid) \<Rightarrow>
          if server = [] \<and> port = [] \<and> uid = [] then conn_str
          else server @ '':'' @ port @ '':'' @ uid)"

definition get_pool_id :: "(string \<Rightarrow> string) \<Rightarrow> connection_pool \<Rightarrow> string" where
  "get_pool_id lower pool = extract_pool_components lower (cp_connection_string pool)"

section \<open>Entry points\<close>

text \<open>
  The fields of \<open>GlobalState\<close> that only pools use. \<open>pooled_connections\<close> maps an identifier to its pool and its wrapper:
  the pool is in \<open>gs_pooled\<close>, the connection of the wrapper in \<open>pt_wrappers\<close>. \<open>pt_returned\<close> is the history of the
  connections given back to \<open>r2d2\<close>, with their pool.
\<close>

record pool_tables =
  pt_pools :: "(u32, connection_pool) table"
  pt_wrappers :: "(u32, connection) table"
  pt_free_ids :: "(u32, u32 list) table"
  pt_next_pool_id :: u32
  pt_next_conn_id :: u32
  pt_returned :: "(u32 \<times> connection) list"

definition pool_tables_new :: pool_tables where
  "pool_tables_new =
     \<lparr>pt_pools = [], pt_wrappers = [], pt_free_ids = [], pt_next_pool_id = 1, pt_next_conn_id = 1000000, pt_returned = []\<rparr>"

definition pool_create_inner ::
  "pool_backend \<Rightarrow> string \<Rightarrow> u32 \<Rightarrow> pool_options \<Rightarrow> global_state \<times> pool_tables \<Rightarrow> u32 \<times> global_state \<times> pool_tables"
where
  "pool_create_inner pb conn_str max_size options st =
     (case st of (s, t) \<Rightarrow>
        (case new_with_options pb conn_str max_size options of
           Panic \<Rightarrow> (0, s, t)
         | Err e \<Rightarrow> (0, if gs_poisoned s then s else set_error (''odbc_pool_create failed: '' @ error_display e) s, t)
         | Ok pool \<Rightarrow>
             if gs_poisoned s then (0, s, t)
             else
               (case alloc_conn_id MAX_ID_ALLOC_ATTEMPTS (map_of (pt_pools t)) (pt_next_pool_id t) of
                  (i, nxt) \<Rightarrow>
                    let t = t\<lparr>pt_next_pool_id := nxt\<rparr> in
                    if i = 0 then (0, set_error ''Failed to allocate pool ID'' s, t)
                    else (i, s, t\<lparr>pt_pools := AList.update i pool (pt_pools t)\<rparr>))))"

definition odbc_pool_create ::
  "pool_backend \<Rightarrow> bytes option \<Rightarrow> u32 \<Rightarrow> global_state \<times> pool_tables \<Rightarrow> u32 \<times> global_state \<times> pool_tables"
where
  "odbc_pool_create pb conn_str max_size st =
     (case Option.bind conn_str c_str of
        None \<Rightarrow> (0, fst st, snd st)
      | Some cs \<Rightarrow> pool_create_inner pb cs max_size default_pool_options st)"

text \<open>\<open>from_str\<close> is \<open>serde_json::from_str\<close> at the type \<open>OptsJson\<close>, the three durations in milliseconds.\<close>

definition odbc_pool_create_with_options ::
  "pool_backend \<Rightarrow> (string \<Rightarrow> pool_options option) \<Rightarrow> bytes option \<Rightarrow> u32 \<Rightarrow> bytes option \<Rightarrow> global_state \<times> pool_tables \<Rightarrow>
   u32 \<times> global_state \<times> pool_tables"
where
  "odbc_pool_create_with_options pb from_str conn_str max_size options_json st =
     (case Option.bind conn_str c_str of
        None \<Rightarrow> (0, fst st, snd st)
      | Some cs \<Rightarrow>
          (case (case options_json of
                   None \<Rightarrow> Some default_pool_options
                 | Some bs \<Rightarrow> Option.bind (c_str bs) (\<lambda>j. if str_trim j = [] then Some default_pool_options else from_str j)) of
             None \<Rightarrow> (0, fst st, snd st)
           | Some opts \<Rightarrow> pool_create_inner pb cs max_size opts st))"

text \<open>
  \<open>odbc_pool_get_connection\<close> looks the pool up, gives up the lock while \<open>r2d2\<close> may block, and takes it again to
  install the connection: two steps between which other calls may run.
\<close>

definition pool_lookup :: "u32 \<Rightarrow> global_state \<times> pool_tables \<Rightarrow> connection_pool option \<times> global_state \<times> pool_tables" where
  "pool_lookup pool_id st =
     (case st of (s, t) \<Rightarrow>
        if gs_poisoned s then (None, s, t)
        else case map_of (pt_pools t) pool_id of
          Some p \<Rightarrow> (Some p, s, t)
        | None \<Rightarrow> (None, set_error (''Invalid pool ID: '' @ show_nat (unat pool_id)) s, t))"

definition free_ids_of :: "pool_tables \<Rightarrow> u32 \<Rightarrow> u32 list" where
  "free_ids_of t pool_id = (case map_of (pt_free_ids t) pool_id of Some ids \<Rightarrow> ids | None \<Rightarrow> [])"

text \<open>The identifier: the last one released to this pool, or a fresh one.\<close>

definition pooled_conn_id :: "u32 \<Rightarrow> global_state \<Rightarrow> pool_tables \<Rightarrow> u32 option \<times> pool_tables" where
  "pooled_conn_id pool_id s t =
     (let ids = free_ids_of t pool_id in
      if ids \<noteq> [] then (Some (last ids), t\<lparr>pt_free_ids := AList.update pool_id (butlast ids) (pt_free_ids t)\<rparr>)
      else
        (case alloc_conn_id MAX_ID_ALLOC_ATTEMPTS (map_of (gs_pooled s)) (pt_next_conn_id t) of
           (i, nxt) \<Rightarrow> (if i = 0 then None else Some i, t\<lparr>pt_next_conn_id := nxt\<rparr>)))"

definition pool_install ::
  "u32 \<Rightarrow> (string, connection) outcome \<Rightarrow> global_state \<times> pool_tables \<Rightarrow> u32 \<times> global_state \<times> pool_tables"
where
  "pool_install pool_id answer st =
     (case st of (s, t) \<Rightarrow>
        if gs_poisoned s then (0, s, t)
        else case pool_get answer of
          Panic \<Rightarrow> (0, s, t)
        | Err e \<Rightarrow> (0, set_error (''Failed to get connection from pool: '' @ error_display e) s, t)
        | Ok conn \<Rightarrow>
            (case pooled_conn_id pool_id s t of
               (None, t) \<Rightarrow> (0, set_error ''Failed to allocate pooled connection ID'' s, t)
             | (Some i, t) \<Rightarrow>
                 (i, s\<lparr>gs_pooled := AList.update i pool_id (gs_pooled s)\<rparr>,
                  t\<lparr>pt_wrappers := AList.update i conn (pt_wrappers t)\<rparr>)))"

definition odbc_pool_get_connection ::
  "u32 \<Rightarrow> (connection_pool \<Rightarrow> (string, connection) outcome) \<Rightarrow> global_state \<times> pool_tables \<Rightarrow> u32 \<times> global_state \<times> pool_tables"
where
  "odbc_pool_get_connection pool_id answer st =
     (case pool_lookup pool_id st of
        (None, st) \<Rightarrow> (0, st)
      | (Some p, st) \<Rightarrow> pool_install pool_id (answer p) st)"

definition drop_wrapper :: "driver \<Rightarrow> u32 \<Rightarrow> u32 \<Rightarrow> pool_tables \<Rightarrow> pool_tables" where
  "drop_wrapper drv pool_id i t =
     (case map_of (pt_wrappers t) i of
        Some conn \<Rightarrow>
          t\<lparr>pt_wrappers := AList.delete i (pt_wrappers t), pt_returned := pt_returned t @ [(pool_id, before_return drv conn)]\<rparr>
      | None \<Rightarrow> t)"

definition statements_of_others :: "u32 \<Rightarrow> (u32, statement_handle) table \<Rightarrow> (u32, statement_handle) table" where
  "statements_of_others conn_id = filter (\<lambda>(_, stmt). sh_conn_id stmt \<noteq> conn_id)"

definition odbc_pool_release_connection ::
  "driver \<Rightarrow> u32 \<Rightarrow> global_state \<times> pool_tables \<Rightarrow> int \<times> global_state \<times> pool_tables"
where
  "odbc_pool_release_connection drv connection_id st =
     (case st of (s, t) \<Rightarrow>
        if gs_poisoned s then (- 1, s, t)
        else case map_of (gs_pooled s) connection_id of
          Some pool_id \<Rightarrow>
            let t = drop_wrapper drv pool_id connection_id t in
            (0, s\<lparr>gs_pooled := AList.delete connection_id (gs_pooled s),
                  gs_statements := statements_of_others connection_id (gs_statements s)\<rparr>,
             t\<lparr>pt_free_ids := AList.update pool_id (free_ids_of t pool_id @ [connection_id]) (pt_free_ids t)\<rparr>)
        | None \<Rightarrow> (1, set_error (''Invalid pooled connection ID: '' @ show_nat (unat connection_id)) s, t))"

definition odbc_pool_health_check :: "u32 \<Rightarrow> (connection_pool \<Rightarrow> bool) \<Rightarrow> global_state \<times> pool_tables \<Rightarrow> int" where
  "odbc_pool_health_check pool_id get_ok st =
     (case st of (s, t) \<Rightarrow>
        if gs_poisoned s then 0
        else case map_of (pt_pools t) pool_id of
          Some p \<Rightarrow> if get_ok p then 1 else 0
        | None \<Rightarrow> 0)"

definition active_count :: "u32 \<Rightarrow> global_state \<Rightarrow> nat" where
  "active_count pool_id s = length (filter (\<lambda>(_, pid). pid = pool_id) (gs_pooled s))"

definition odbc_pool_get_state :: "u32 \<Rightarrow> bool \<Rightarrow> global_state \<times> pool_tables \<Rightarrow> int \<times> (u32 \<times> u32) option" where
  "odbc_pool_get_state pool_id null st =
     (case st of (s, t) \<Rightarrow>
        if null \<or> gs_poisoned s then (- 1, None)
        else case map_of (pt_pools t) pool_id of
          None \<Rightarrow> (- 1, None)
        | Some p \<Rightarrow>
            let active = of_nat (active_count pool_id s) :: u32
            in (0, Some (cp_max_size p, of_nat (unat (cp_max_size p) - unat active))))"

text \<open>The state \<open>r2d2\<close> reports: connections and idle connections.\<close>

definition pool_state_json :: "u32 \<Rightarrow> u32 \<Rightarrow> u32 \<Rightarrow> string" where
  "pool_state_json open_conns idle max_size =
     (let field = (\<lambda>name v. [CHR 0x22] @ name @ [CHR 0x22] @ '':'' @ show_nat v) in
      [CHR 0x7B] @
      join_with '','' [field ''total_connections'' (unat open_conns), field ''idle_connections'' (unat idle),
        field ''active_connections'' (unat open_conns - unat idle), field ''max_size'' (unat max_size), field ''wait_count'' 0,
        field ''wait_time_ms'' 0, field ''max_wait_time_ms'' 0, field ''avg_wait_time_ms'' 0] @
      [CHR 0x7D])"

definition odbc_pool_get_state_json ::
  "u32 \<Rightarrow> bool \<Rightarrow> (connection_pool \<Rightarrow> u32 \<times> u32) \<Rightarrow> u32 \<Rightarrow> global_state \<times> pool_tables \<Rightarrow> int \<times> bytes option"
where
  "odbc_pool_get_state_json pool_id null state buffer_len st =
     (case st of (s, t) \<Rightarrow>
        if null \<or> gs_poisoned s then (- 1, None)
        else case map_of (pt_pools t) pool_id of
          None \<Rightarrow> (- 1, Some [])
        | Some p \<Rightarrow>
            (case state p of (open_conns, idle) \<Rightarrow>
               let json = as_bytes (pool_state_json open_conns idle (cp_max_size p)) in
               if unat buffer_len < length json + 1 then (- 2, Some []) else (0, Some json)))"

definition odbc_pool_set_size ::
  "pool_backend \<Rightarrow> u32 \<Rightarrow> u32 \<Rightarrow> global_state \<times> pool_tables \<Rightarrow> int \<times> global_state \<times> pool_tables"
where
  "odbc_pool_set_size pb pool_id new_max_size st =
     (case st of (s, t) \<Rightarrow>
        if new_max_size = 0 \<or> gs_poisoned s then (- 1, s, t)
        else case map_of (pt_pools t) pool_id of
          None \<Rightarrow> (- 1, set_error (''Invalid pool ID: '' @ show_nat (unat pool_id)) s, t)
        | Some p \<Rightarrow>
            if pool_id \<in> snd ` set (gs_pooled s) then
              (- 1, set_error ''Cannot resize pool while connections are checked out'' s, t)
            else
              let t = t\<lparr>pt_pools := AList.delete pool_id (pt_pools t)\<rparr> in
              (case pool_new pb (cp_connection_string p) new_max_size of
                 Ok pool \<Rightarrow> (0, s, t\<lparr>pt_pools := AList.update pool_id pool (pt_pools t)\<rparr>)
               | Err e \<Rightarrow> (- 1, set_error (''odbc_pool_set_size failed: '' @ error_display e) s, t)
               | Panic \<Rightarrow> (FFI_PANIC, s\<lparr>gs_poisoned := True\<rparr>, t)))"

definition close_checked_out :: "driver \<Rightarrow> u32 \<Rightarrow> u32 \<Rightarrow> global_state \<times> pool_tables \<Rightarrow> global_state \<times> pool_tables" where
  "close_checked_out drv pool_id cid st =
     (case st of (s, t) \<Rightarrow>
        (s\<lparr>gs_statements := statements_of_others cid (gs_statements s), gs_pooled := AList.delete cid (gs_pooled s)\<rparr>,
         drop_wrapper drv pool_id cid t))"

definition odbc_pool_close :: "driver \<Rightarrow> u32 \<Rightarrow> global_state \<times> pool_tables \<Rightarrow> int \<times> global_state \<times> pool_tables" where
  "odbc_pool_close drv pool_id st =
     (case st of (s, t) \<Rightarrow>
        if gs_poisoned s then (- 1, s, t)
        else if map_of (pt_pools t) pool_id = None then
          (1, set_error (''Invalid pool ID: '' @ show_nat (unat pool_id)) s, t)
        else
          let conn_ids = map fst (filter (\<lambda>(_, pid). pid = pool_id) (gs_pooled s));
              (s, t) = fold (close_checked_out drv pool_id) conn_ids (s, t)
          in (0, s, t\<lparr>pt_free_ids := AList.delete pool_id (pt_free_ids t), pt_pools := AList.delete pool_id (pt_pools t)\<rparr>))"

end
