(* ===== verification/Pool_Laws.thy ===== *)
theory Pool_Laws
  imports Pool Session_Laws
begin

text \<open>
  What the pool promises: identifiers of checked-out connections are unique, a connection handed out is in autocommit
  mode. And what it does not: a recycled identifier inherits the results its previous holder left, and resizing
  forgets the options of the pool.
\<close>

section \<open>Identifiers\<close>

text \<open>
  The tables as maps: the pools of the checked-out connections, their wrappers, the free identifiers of each pool,
  and the counter. An identifier is free in at most one pool, once, and never while it is checked out.
\<close>

definition ids_ok :: "(u32 \<rightharpoonup> u32) \<Rightarrow> (u32 \<rightharpoonup> connection) \<Rightarrow> (u32 \<Rightarrow> u32 list) \<Rightarrow> u32 \<Rightarrow> bool" where
  "ids_ok P W F nxt \<longleftrightarrow>
     dom W = dom P \<and> (\<forall>p. distinct (F p)) \<and> (\<forall>p q i. i \<in> set (F p) \<longrightarrow> i \<in> set (F q) \<longrightarrow> p = q) \<and>
     (\<forall>p i. i \<in> set (F p) \<longrightarrow> P i = None \<and> i \<noteq> 0 \<and> i < nxt) \<and> (\<forall>i. P i \<noteq> None \<longrightarrow> i \<noteq> 0 \<and> i < nxt) \<and> nxt \<noteq> 0"

definition pool_inv :: "global_state \<times> pool_tables \<Rightarrow> bool" where
  "pool_inv st \<longleftrightarrow> distinct (map fst (gs_pooled (fst st))) \<and>
     ids_ok (map_of (gs_pooled (fst st))) (map_of (pt_wrappers (snd st))) (free_ids_of (snd st)) (pt_next_conn_id (snd st))"

text \<open>
  Calls of the pool's entry points in any order, with any answers, and between them calls that leave the table of pooled
  connections and their wrappers as they are. A fresh identifier needs a counter that has not come round.
\<close>

inductive pool_step :: "global_state \<times> pool_tables \<Rightarrow> global_state \<times> pool_tables \<Rightarrow> bool" where
  create: "pool_step st (snd (odbc_pool_create pb cs n st))"
| create_with_options: "pool_step st (snd (odbc_pool_create_with_options pb js cs n opts st))"
| lookup: "pool_step st (snd (pool_lookup p st))"
| install: "pt_next_conn_id (snd st) \<noteq> - 1 \<Longrightarrow> pool_step st (snd (pool_install p answer st))"
| release: "pool_step st (snd (odbc_pool_release_connection drv i st))"
| set_size: "pool_step st (snd (odbc_pool_set_size pb p n st))"
| close: "pool_step st (snd (odbc_pool_close drv p st))"
| other: "distinct (map fst (gs_pooled s')) \<Longrightarrow> map_of (gs_pooled s') = map_of (gs_pooled s) \<Longrightarrow>
    dom (map_of w') = dom (map_of (pt_wrappers t)) \<Longrightarrow> pool_step (s, t) (s', t\<lparr>pt_wrappers := w'\<rparr>)"

definition pool_start :: "disk \<Rightarrow> global_state \<times> pool_tables" where
  "pool_start d = (fresh_state d, pool_tables_new)"

lemma free_ids_of_simps [simp]:
  "free_ids_of (t\<lparr>pt_wrappers := w\<rparr>) = free_ids_of t" "free_ids_of (t\<lparr>pt_pools := ps\<rparr>) = free_ids_of t"
  "free_ids_of (t\<lparr>pt_next_conn_id := n\<rparr>) = free_ids_of t" "free_ids_of (t\<lparr>pt_next_pool_id := n\<rparr>) = free_ids_of t"
  "free_ids_of (t\<lparr>pt_returned := r\<rparr>) = free_ids_of t"
  "free_ids_of (t\<lparr>pt_free_ids := AList.update p ids (pt_free_ids t)\<rparr>) = (free_ids_of t)(p := ids)"
  "free_ids_of (t\<lparr>pt_free_ids := AList.delete p (pt_free_ids t)\<rparr>) = (free_ids_of t)(p := [])"
  by (auto simp: free_ids_of_def fun_eq_iff update_conv' delete_conv')

lemma drop_wrapper_simps [simp]:
  "free_ids_of (drop_wrapper drv p i t) = free_ids_of t" "pt_next_conn_id (drop_wrapper drv p i t) = pt_next_conn_id t"
  "pt_pools (drop_wrapper drv p i t) = pt_pools t" "pt_free_ids (drop_wrapper drv p i t) = pt_free_ids t"
  "free_ids_of (drop_wrapper drv p i t\<lparr>pt_free_ids := AList.update q ids (pt_free_ids t)\<rparr>) = (free_ids_of t)(q := ids)"
  "map_of (pt_wrappers (drop_wrapper drv p i t)) = (map_of (pt_wrappers t))(i := None)"
  by (auto simp: drop_wrapper_def delete_conv' free_ids_of_def update_conv' fun_eq_iff split: option.splits)

lemma ids_ok_release: "ids_ok P W F nxt \<Longrightarrow> P i = Some p \<Longrightarrow> ids_ok (P(i := None)) (W(i := None)) (F(p := F p @ [i])) nxt"
  by (auto simp: ids_ok_def)

lemma ids_ok_drop: "ids_ok P W F nxt \<Longrightarrow> ids_ok (P(i := None)) (W(i := None)) F nxt"
  by (auto simp: ids_ok_def)

lemma ids_ok_forget: "ids_ok P W F nxt \<Longrightarrow> ids_ok P W (F(p := [])) nxt"
  by (auto simp: ids_ok_def)

lemma last_not_butlast: "distinct xs \<Longrightarrow> xs \<noteq> [] \<Longrightarrow> last xs \<notin> set (butlast xs)"
  by (induction xs) auto

lemma ids_ok_recycle:
  assumes "ids_ok P W F nxt" "F p \<noteq> []"
  shows "P (last (F p)) = None" "last (F p) \<noteq> 0"
    "ids_ok (P(last (F p) \<mapsto> q)) (W(last (F p) \<mapsto> c)) (F(p := butlast (F p))) nxt"
proof -
  have l: "last (F p) \<in> set (F p)" "last (F p) \<notin> set (butlast (F p))" "set (butlast (F p)) \<subseteq> set (F p)"
    using assms by (auto simp: ids_ok_def last_not_butlast dest: in_set_butlastD)
  then show "P (last (F p)) = None" "last (F p) \<noteq> 0" using assms(1) by (auto simp: ids_ok_def)
  show "ids_ok (P(last (F p) \<mapsto> q)) (W(last (F p) \<mapsto> c)) (F(p := butlast (F p))) nxt"
    unfolding ids_ok_def
  proof (intro conjI allI impI)
    fix r i assume "i \<in> set ((F(p := butlast (F p))) r)"
    then have i: "i \<in> set (F r)" "i \<noteq> last (F p)" using l assms(1) by (auto simp: ids_ok_def split: if_splits)
    with assms(1) show "(P(last (F p) \<mapsto> q)) i = None" "i \<noteq> 0" "i < nxt" by (auto simp: ids_ok_def)
  next
    fix r r' i assume "i \<in> set ((F(p := butlast (F p))) r)" "i \<in> set ((F(p := butlast (F p))) r')"
    then have "i \<in> set (F r)" "i \<in> set (F r')" using l(3) by (auto split: if_splits)
    with assms(1) show "r = r'" by (auto simp: ids_ok_def)
  qed (use assms(1) l in \<open>auto simp: ids_ok_def distinct_butlast split: if_splits\<close>)
qed

lemma ids_ok_fresh:
  assumes "ids_ok P W F nxt" "nxt \<noteq> - 1"
  shows "P nxt = None" "nxt \<noteq> 0" "ids_ok (P(nxt \<mapsto> q)) (W(nxt \<mapsto> c)) F (nxt + 1)"
proof -
  have "1 + nxt \<noteq> 0" using assms(2) by (simp add: add_eq_0_iff)
  then have lt: "nxt < nxt + 1" by (simp add: word_less_nat_alt unatSuc add.commute)
  show "P nxt = None" "nxt \<noteq> 0" using assms(1) by (auto simp: ids_ok_def)
  show "ids_ok (P(nxt \<mapsto> q)) (W(nxt \<mapsto> c)) F (nxt + 1)"
    unfolding ids_ok_def
  proof (intro conjI allI impI)
    fix r i assume "i \<in> set (F r)"
    then have "P i = None" "i \<noteq> 0" "i < nxt" using assms(1) by (auto simp: ids_ok_def)
    then show "(P(nxt \<mapsto> q)) i = None" "i \<noteq> 0" "i < nxt + 1" using lt by auto
  next
    fix i assume "(P(nxt \<mapsto> q)) i \<noteq> None"
    then have "i = nxt \<or> (i \<noteq> 0 \<and> i < nxt)" using assms(1) by (auto simp: ids_ok_def split: if_splits)
    then show "i \<noteq> 0" "i < nxt + 1" using lt \<open>nxt \<noteq> 0\<close> by auto
  qed (use assms(1) lt in \<open>auto simp: ids_ok_def\<close>)
qed

lemma pool_install_fresh:
  assumes "pool_inv st" "pt_next_conn_id (snd st) \<noteq> - 1" "pool_install p answer st = (i, st')"
  shows "pool_inv st' \<and> (i \<noteq> 0 \<longrightarrow> map_of (gs_pooled (fst st)) i = None \<and>
    map_of (gs_pooled (fst st')) = (map_of (gs_pooled (fst st)))(i \<mapsto> p))"
proof -
  obtain s t where st: "st = (s, t)" by (cases st)
  have alloc: "alloc_conn_id MAX_ID_ALLOC_ATTEMPTS (map_of (gs_pooled s)) (pt_next_conn_id t) = (pt_next_conn_id t, pt_next_conn_id t + 1)"
    if "pool_inv (s, t)"
    using that alloc_first_free[of "pt_next_conn_id t" "map_of (gs_pooled s)"]
    by (fastforce simp: pool_inv_def ids_ok_def MAX_ID_ALLOC_ATTEMPTS_def MAX_CONN_ID_ALLOC_ATTEMPTS_def)
  note inv = assms(1)[unfolded st pool_inv_def fst_conv snd_conv]
  show ?thesis
  proof (cases "free_ids_of t p = []")
    case True
    with assms st alloc ids_ok_fresh[OF conjunct2[OF inv]] show ?thesis
      by (auto simp: pool_install_def pooled_conn_id_def pool_inv_def set_error_def update_conv' distinct_update Let_def
          split: if_splits outcome.splits)
  next
    case False
    with assms st ids_ok_recycle[OF conjunct2[OF inv]] show ?thesis
      by (auto simp: pool_install_def pooled_conn_id_def pool_inv_def set_error_def update_conv' distinct_update Let_def
          split: if_splits outcome.splits)
  qed
qed

lemma close_all_inv:
  "pool_inv st \<Longrightarrow> pool_inv (fold (close_checked_out drv p) cids st)"
proof (induction cids arbitrary: st)
  case (Cons c cs)
  have "pool_inv (close_checked_out drv p c st)"
    using Cons.prems ids_ok_drop by (auto simp: pool_inv_def close_checked_out_def delete_conv' distinct_delete split: prod.splits)
  with Cons.IH show ?case by simp
qed simp

lemma pool_step_inv: "pool_step st st' \<Longrightarrow> pool_inv st \<Longrightarrow> pool_inv st'"
proof (induction rule: pool_step.induct)
  case (create st pb cs n)
  then show ?case
    by (auto simp: odbc_pool_create_def pool_create_inner_def pool_inv_def set_error_def Let_def
        split: option.splits prod.splits outcome.splits if_splits)
next
  case (create_with_options st pb js cs n opts)
  then show ?case
    by (auto simp: odbc_pool_create_with_options_def pool_create_inner_def pool_inv_def set_error_def Let_def
        split: option.splits prod.splits outcome.splits if_splits)
next
  case (lookup st p)
  then show ?case by (auto simp: pool_lookup_def pool_inv_def set_error_def split: prod.splits option.splits if_splits)
next
  case (install st p answer)
  then show ?case using pool_install_fresh[of st p answer] by (metis prod.collapse)
next
  case (release st drv i)
  then show ?case
    by (auto simp: odbc_pool_release_connection_def pool_inv_def set_error_def Let_def delete_conv' distinct_delete ids_ok_release
        split: prod.splits option.splits if_splits)
next
  case (set_size st pb p n)
  then show ?case
    by (auto simp: odbc_pool_set_size_def pool_inv_def set_error_def Let_def split: prod.splits option.splits outcome.splits if_splits)
next
  case (close st drv p)
  obtain s t where st: "st = (s, t)" by (cases st)
  note all = close_all_inv[OF close, of drv p "map fst (filter (\<lambda>(_, pid). pid = p) (gs_pooled s))"]
  show ?case using close all ids_ok_forget
    by (auto simp: st odbc_pool_close_def pool_inv_def set_error_def Let_def split: prod.splits if_splits)
next
  case (other s' s w' t)
  then show ?case by (auto simp: pool_inv_def ids_ok_def)
qed

lemma pool_start_inv: "pool_inv (pool_start d)"
  by (simp add: pool_inv_def pool_start_def pool_tables_new_def fresh_state_def ids_ok_def free_ids_of_def)

lemma pool_reachable_inv: "pool_step\<^sup>*\<^sup>* (pool_start d) st \<Longrightarrow> pool_inv st"
  by (induction rule: rtranclp_induct) (auto intro: pool_start_inv pool_step_inv)

text \<open>
  C17. The identifiers of pooled connections are unique. On every sequence of calls of the pool's entry points, before the
  counter of identifiers comes round, the tables agree with each other, an identifier is never free and checked out at
  once, and a checkout answers with an identifier nobody holds, which then belongs to that pool while every other
  checked-out connection keeps its own.
\<close>

theorem pooled_ids_unique:
  assumes "pool_step\<^sup>*\<^sup>* (pool_start d) st" and "pt_next_conn_id (snd st) \<noteq> - 1"
    and "pool_install p answer st = (i, st')" and "i \<noteq> 0"
  shows "pool_inv st \<and> pool_inv st' \<and> map_of (gs_pooled (fst st)) i = None \<and>
    map_of (gs_pooled (fst st')) = (map_of (gs_pooled (fst st)))(i \<mapsto> p)"
  using pool_install_fresh[OF pool_reachable_inv[OF assms(1)] assms(2,3)] pool_reachable_inv[OF assms(1)] assms(4) by auto

definition idle_connection :: connection where
  "idle_connection = \<lparr>cn_str = ''DSN=d'', cn_poisoned = False, cn_log = []\<rparr>"

theorem pooled_ids_unique_witness:
  "\<exists>st'. pool_install 1 (Ok idle_connection) (pool_start (calm_disk [])) = (1000000, st') \<and> pool_inv st' \<and>
     map_of (gs_pooled (fst st')) = [1000000 \<mapsto> 1]"
proof -
  obtain st' where st': "pool_install 1 (Ok idle_connection) (pool_start (calm_disk [])) = (1000000, st')"
    using alloc_first_free[of "1000000 :: u32" "Map.empty :: u32 \<rightharpoonup> u32"]
    by (simp add: pool_install_def pool_start_def fresh_state_def pool_tables_new_def pool_get_def pooled_conn_id_def free_ids_of_def
        MAX_ID_ALLOC_ATTEMPTS_def MAX_CONN_ID_ALLOC_ATTEMPTS_def)
  from pooled_ids_unique[OF rtranclp.rtrancl_refl _ this] show ?thesis
    using st' by (simp add: pool_start_def pool_tables_new_def fresh_state_def)
qed

section \<open>Connections handed out\<close>

text \<open>
  The life of a connection in a pool of \<open>r2d2\<close>, as the crate documents it: \<open>on_acquire\<close> runs once, after \<open>connect\<close>;
  \<open>has_broken\<close> runs when a connection comes back, which is kept only if it is not broken; \<open>is_valid\<close> runs at a checkout
  if the pool tests on checkout. Between a checkout and the return its holder makes any calls.
\<close>

inductive idle_in_pool :: "driver \<Rightarrow> odbc_connection_manager \<Rightarrow> bool \<Rightarrow> connection \<Rightarrow> bool"
  and handed_out :: "driver \<Rightarrow> odbc_connection_manager \<Rightarrow> bool \<Rightarrow> connection \<Rightarrow> bool"
  for drv m test
where
  opened: "manager_connect drv m = Ok c \<Longrightarrow> on_acquire drv c = (Ok (), c') \<Longrightarrow> idle_in_pool drv m test c'"
| returned: "handed_out drv m test c \<Longrightarrow> has_broken drv m (c\<lparr>cn_log := cn_log c @ calls\<rparr>) = (False, c') \<Longrightarrow>
    idle_in_pool drv m test c'"
| untested: "idle_in_pool drv m test c \<Longrightarrow> \<not> test \<Longrightarrow> handed_out drv m test c"
| tested: "idle_in_pool drv m test c \<Longrightarrow> test \<Longrightarrow> is_valid drv m c = (Ok (), c') \<Longrightarrow> handed_out drv m test c'"

lemma autocommit_of_snoc: "autocommit_of (l @ [x]) = autocommit_step (autocommit_of l) x"
  by (simp add: autocommit_of_def)

lemma conn_call_Ok: "conn_call drv c conn = (Ok u, conn') \<longleftrightarrow> dv_call drv conn c = None \<and> conn' = conn\<lparr>cn_log := cn_log conn @ [(c, True)]\<rparr>"
  by (auto simp: conn_call_def split: option.splits)

lemma is_valid_autocommit: "is_valid drv m c = (Ok u, c') \<Longrightarrow> autocommit_of (cn_log c')"
  by (auto simp: is_valid_def conn_call_Ok autocommit_of_def split: prod.splits outcome.splits)

lemma on_acquire_autocommit: "on_acquire drv c = (Ok u, c') \<Longrightarrow> autocommit_of (cn_log c')"
  by (auto simp: on_acquire_def conn_call_Ok autocommit_of_snoc)

lemma life_autocommit:
  "idle_in_pool drv m test a \<Longrightarrow> autocommit_of (cn_log a)" "handed_out drv m test b \<Longrightarrow> autocommit_of (cn_log b)"
  by (induction rule: idle_in_pool_handed_out.inducts)
    (auto dest: on_acquire_autocommit is_valid_autocommit simp: has_broken_def split: prod.splits)

text \<open>
  C18. Whatever its previous holders did with it, and whether or not the pool tests on checkout, a connection that a pool hands
  out is in autocommit mode.
\<close>

theorem checkout_autocommit:
  assumes "handed_out drv m test c"
  shows "autocommit_of (cn_log c)"
  using assms life_autocommit(2) by blast

text \<open>A holder switched autocommit off and returned the connection without ending its transaction.\<close>

theorem checkout_autocommit_witness:
  "let m = \<lparr>om_connection_string = ''DSN=d'', om_health_check_query = ''SELECT 1''\<rparr>;
       c = \<lparr>cn_str = ''DSN=d'', cn_poisoned = False,
            cn_log = [(RollbackCall, True), (SetAutocommit True, True), (SetAutocommit False, True), (Exec ''INSERT'', True),
                      (SetAutocommit True, True), (Exec ''SELECT 1'', True)]\<rparr>
   in handed_out (accepting_driver ''SQLite'') m False c \<and> autocommit_of (cn_log c)"
proof -
  let ?m = "\<lparr>om_connection_string = ''DSN=d'', om_health_check_query = ''SELECT 1''\<rparr>"
  let ?c0 = "\<lparr>cn_str = ''DSN=d'', cn_poisoned = False, cn_log = [(RollbackCall, True), (SetAutocommit True, True)]\<rparr>"
  let ?used = "?c0\<lparr>cn_log := cn_log ?c0 @ [(SetAutocommit False, True), (Exec ''INSERT'', True)]\<rparr>"
  let ?c1 = "?used\<lparr>cn_log := cn_log ?used @ [(SetAutocommit True, True), (Exec ''SELECT 1'', True)]\<rparr>"
  have "idle_in_pool (accepting_driver ''SQLite'') ?m False ?c0"
    by (rule opened[of _ _ "\<lparr>cn_str = ''DSN=d'', cn_poisoned = False, cn_log = []\<rparr>"])
      (simp_all add: manager_connect_def on_acquire_def conn_call_def accepting_driver_def)
  then have "handed_out (accepting_driver ''SQLite'') ?m False ?c0" by (rule untested) simp
  then have "idle_in_pool (accepting_driver ''SQLite'') ?m False ?c1"
    by (rule returned[where calls = "[(SetAutocommit False, True), (Exec ''INSERT'', True)]"])
      (simp add: has_broken_def is_valid_def conn_call_def accepting_driver_def)
  then have out: "handed_out (accepting_driver ''SQLite'') ?m False ?c1" by (rule untested) simp
  with checkout_autocommit[OF out] show ?thesis by (simp add: Let_def)
qed

section \<open>Results left behind\<close>

lemma released_id_recycled:
  assumes "\<not> gs_poisoned s" "map_of (gs_pooled s) c = Some pool" "map_of (pt_pools t) pool = Some p" "answer p = Ok conn"
  shows "\<exists>s1 t1 s2 t2. odbc_pool_release_connection drv c (s, t) = (0, s1, t1) \<and>
    odbc_pool_get_connection pool answer (s1, t1) = (c, s2, t2) \<and> map_of (gs_pooled s2) c = Some pool \<and>
    gs_poisoned s2 = gs_poisoned s \<and> gs_pending_results s2 = gs_pending_results s"
  using assms
  by (simp add: odbc_pool_release_connection_def odbc_pool_get_connection_def pool_lookup_def pool_install_def pool_get_def
      pooled_conn_id_def Let_def update_conv')

text \<open>
  C19. A recycled identifier inherits results. When a statement's result did not fit the buffer of one holder of a pooled
  connection, that holder releases it and another client checks a connection out of the same pool, the second client
  gets the same identifier; and running a statement with the same text within two seconds answers the second client with
  the first one's result, without asking the database, whatever that would answer.
\<close>

theorem recycled_id_leaks_result:
  assumes run: "exec_run be now later (ExecQuery c q) n s = (- 2, out, s')"
    and new: "map_of (gs_pending_results s) (exec_key (be_hash be) (ExecQuery c q)) = None"
    and pooled: "map_of (gs_pooled s') c = Some pool" "map_of (pt_pools t) pool = Some p" "answer p = Ok conn"
  shows "\<exists>data s1 t1 s2 t2. exec_result be s (ExecQuery c q) = Ok data \<and>
    odbc_pool_release_connection drv c (s', t) = (0, s1, t1) \<and> odbc_pool_get_connection pool answer (s1, t1) = (c, s2, t2) \<and>
    (\<forall>be' now' later' n'. be_hash be' = be_hash be \<and> now' - later \<le> PENDING_RESULT_TTL \<and> length data \<le> unat n' \<longrightarrow>
       (\<exists>s3. exec_run be' now' later' (ExecQuery c q) n' s2 = (0, Some data, s3)))"
proof -
  obtain data where data: "exec_result be s (ExecQuery c q) = Ok data"
    "map_of (gs_pending_results s') (exec_key (be_hash be) (ExecQuery c q)) = Some \<lparr>pb_data = data, pb_created_at = later\<rparr>"
    using exec_stashes[OF run new] by blast
  obtain x where x: "c_str q = Some x" "\<not> gs_poisoned s"
    using run by (auto simp: exec_defs split: option.splits if_splits)
  have frame: "\<not> gs_poisoned s'" using exec_too_small[OF run] x(2) by (simp add: exec_frame_def)
  from released_id_recycled[where answer = answer and drv = drv, OF frame pooled] obtain s1 t1 s2 t2 where
    s2: "odbc_pool_release_connection drv c (s', t) = (0, s1, t1)" "odbc_pool_get_connection pool answer (s1, t1) = (c, s2, t2)"
    "gs_poisoned s2 = gs_poisoned s'" "gs_pending_results s2 = gs_pending_results s'" by blast
  have "\<exists>s3. exec_run be' now' later' (ExecQuery c q) n' s2 = (0, Some data, s3)"
    if "be_hash be' = be_hash be" "now' - later \<le> PENDING_RESULT_TTL" "length data \<le> unat n'" for be' now' later' n'
    using unless_pending_hit[of s2 "PK_ExecQuery c (be_hash be q)" "\<lparr>pb_data = data, pb_created_at = later\<rparr>" now' n'] that s2(3,4) data(2) x frame
    by (simp add: odbc_exec_query_def Let_def c_str_bytes)
  with data(1) s2(1,2) show ?thesis by blast
qed

definition pooled_session :: global_state where
  "pooled_session = (fresh_state (calm_disk []))\<lparr>gs_env := Some False, gs_pooled := [(1000000, 1)]\<rparr>"

definition example_pool :: connection_pool where
  "example_pool =
     \<lparr>cp_manager = \<lparr>om_connection_string = ''DSN=d'', om_health_check_query = ''SELECT 1''\<rparr>,
      cp_settings = \<lparr>rs_max_size = 4, rs_connection_timeout = 30000, rs_test_on_check_out = True, rs_idle_timeout = None, rs_max_lifetime = None\<rparr>,
      cp_connection_string = ''DSN=d'', cp_max_size = 4, cp_test_on_check_out = True\<rparr>"

definition pooled_tables :: pool_tables where
  "pooled_tables = pool_tables_new\<lparr>pt_pools := [(1, example_pool)], pt_wrappers := [(1000000, idle_connection)], pt_next_conn_id := 1000001\<rparr>"

lemma example_direct_result: "execute_direct rle engine_new (example_conn (Inr None) []) ''SELECT'' = Ok example_message"
proof -
  have "try_encode \<lparr>rb_columns = [], rb_rows = []\<rparr> = Ok example_message"
    by (subst try_encode_Ok) (simp_all add: wf_buffer_def column_count_def row_count_def payload_bytes_def example_message_def decoder_limits)
  then show ?thesis
    by (simp add: execute_direct_def execute_query_inner_def encode_body_def engine_new_def
        example_conn_def api_def parse_sql_def example_table_ok(4) optimize_query_def result_buffer_def row_buffer_new_def encode_def coalesce_for_json_rows_def is_for_json_result_def)
qed

theorem recycled_id_leaks_result_witness:
  "\<exists>s' s1 t1 s2 t2 s3. exec_run example_backend 0 5 (ExecQuery 1000000 (as_bytes ''SELECT'')) 4 pooled_session = (- 2, Some [], s') \<and>
     odbc_pool_release_connection (accepting_driver ''SQLite'') 1000000 (s', pooled_tables) = (0, s1, t1) \<and>
     odbc_pool_get_connection 1 (\<lambda>_. Ok idle_connection) (s1, t1) = (1000000, s2, t2) \<and>
     exec_run example_backend 6 7 (ExecQuery 1000000 (as_bytes ''SELECT'')) 20 s2 = (0, Some example_message, s3)"
proof -
  let ?req = "ExecQuery 1000000 (as_bytes ''SELECT'')"
  have q: "c_str (as_bytes ''SELECT'') = Some ''SELECT''" by (rule c_str_ascii) (simp add: ascii_def)
  have none: "map_of (gs_pending_results pooled_session) k = None" for k by (simp add: pooled_session_def fresh_state_def)
  obtain s' where run: "exec_run example_backend 0 5 ?req 4 pooled_session = (- 2, Some [], s')"
      and pooled: "map_of (gs_pooled s') 1000000 = Some 1"
    using example_direct_result q
    by (simp add: odbc_exec_query_def Let_def unless_pending_miss none pooled_session_def fresh_state_def example_backend_def deliver_def stash_pending_result_def)
  have pool: "map_of (pt_pools pooled_tables) 1 = Some example_pool" by (simp add: pooled_tables_def)
  have res: "exec_result example_backend pooled_session ?req = Ok example_message"
    using example_direct_result by (simp add: pooled_session_def fresh_state_def example_backend_def)
  from recycled_id_leaks_result[where answer = "\<lambda>_. Ok idle_connection" and drv = "accepting_driver ''SQLite''", OF run none pooled pool refl]
  obtain s1 t1 s2 t2 where r: "odbc_pool_release_connection (accepting_driver ''SQLite'') 1000000 (s', pooled_tables) = (0, s1, t1)"
    "odbc_pool_get_connection 1 (\<lambda>_. Ok idle_connection) (s1, t1) = (1000000, s2, t2)"
    "\<forall>be' now' later' n'. be_hash be' = be_hash example_backend \<and> now' - 5 \<le> PENDING_RESULT_TTL \<and> length example_message \<le> unat n' \<longrightarrow>
       (\<exists>s3. exec_run be' now' later' ?req n' s2 = (0, Some example_message, s3))"
    unfolding res outcome.inject by (elim exE conjE) (rule that; simp)
  from r(3)[rule_format, of example_backend 6 20 7] have "\<exists>s3. exec_run example_backend 6 7 ?req 20 s2 = (0, Some example_message, s3)"
    by (simp add: PENDING_RESULT_TTL_def)
  with run r(1,2) show ?thesis by blast
qed

section \<open>Options of a pool\<close>

text \<open>
  The depth a part leaves, and whether it has a separator outside braces. A part that splitting yields has none, and all
  but the last leave the depth at zero.
\<close>

fun depth_after :: "nat \<Rightarrow> string \<Rightarrow> nat" where
  "depth_after d [] = d"
| "depth_after d (c # s) =
     depth_after (if c = CHR 0x7B then min (d + 1) MAX_DEPTH else if c = CHR 0x7D then d - 1 else d) s"

fun no_separator :: "nat \<Rightarrow> string \<Rightarrow> bool" where
  "no_separator d [] = True"
| "no_separator d (c # s) \<longleftrightarrow> \<not> (c = CHR '';'' \<and> d = 0) \<and> no_separator (depth_after d [c]) s"

lemma depth_after_append: "depth_after d (p @ q) = depth_after (depth_after d p) q"
  by (induction p arbitrary: d) auto

lemma no_separator_append: "no_separator d (p @ q) \<longleftrightarrow> no_separator d p \<and> no_separator (depth_after d p) q"
  by (induction p arbitrary: d) auto

lemma split_parts_append:
  "no_separator d q \<Longrightarrow> split_parts d p (q @ s) = split_parts (depth_after d q) (p @ q) s"
  by (induction q arbitrary: d p) auto

definition parts_ok :: "string list \<Rightarrow> bool" where
  "parts_ok ps \<longleftrightarrow> (\<forall>p \<in> set ps. no_separator 0 p) \<and> (\<forall>p \<in> set (butlast ps). depth_after 0 p = 0)"

lemma split_parts_ok:
  "no_separator 0 p \<Longrightarrow> depth_after 0 p = d \<Longrightarrow> parts_ok (split_parts d p s) \<and> split_parts d p s \<noteq> []"
proof (induction d p s rule: split_parts.induct)
  case (2 d p c s)
  consider "c = CHR '';''" "d = 0" | "\<not> (c = CHR '';'' \<and> d = 0)" by blast
  then show ?case
  proof cases
    case 1
    with 2 show ?thesis by (auto simp: parts_ok_def)
  next
    case 2
    then have "split_parts d p (c # s) = split_parts (depth_after d [c]) (p @ [c]) s" by auto
    with 2 \<open>no_separator 0 p\<close> \<open>depth_after 0 p = d\<close> "2.IH" show ?thesis
      by (auto simp: no_separator_append depth_after_append split: if_splits)
  qed
qed (auto simp: parts_ok_def)

lemma split_parts_join:
  assumes "parts_ok ps" "ps \<noteq> []"
  shows "set (split_parts 0 [] (join_with '';'' ps @ e)) \<subseteq>
     (if e = [] then set ps else set ps \<union> set (split_parts (depth_after 0 (last ps)) (last ps) e))"
  using assms
proof (induction ps rule: induct_list012)
  case (2 p)
  then show ?case using split_parts_append[of 0 p "[]" e] by (auto simp: parts_ok_def)
next
  case (3 p q ps)
  have "no_separator 0 p" "depth_after 0 p = 0" "parts_ok (q # ps)" using 3(3) by (auto simp: parts_ok_def)
  then show ?case
    using 3(2) split_parts_append[of 0 p "[]" "'';'' @ join_with '';'' (q # ps) @ e"] by (auto split: if_splits)
qed simp

text \<open>Trimming and the key of a part, for ASCII text.\<close>

definition is_ws :: "char \<Rightarrow> bool" where "is_ws c \<longleftrightarrow> is_whitespace (of_char c)"

lemma str_trim_ws:
  assumes "ascii s"
  shows "str_trim s = rev (dropWhile is_ws (rev (dropWhile is_ws s)))"
proof -
  have m: "trim_chars (map of_char s) = map of_char (rev (dropWhile is_ws (rev (dropWhile is_ws s))))"
    by (simp add: trim_chars_def dropWhile_map rev_map comp_def is_ws_def[abs_def])
  have "ascii (rev (dropWhile is_ws (rev (dropWhile is_ws s))))"
    using assms by (auto simp: ascii_def list_all_iff) (metis set_dropWhileD set_rev)
  from encode_ascii[OF this] show ?thesis using assms by (simp only: str_trim_def chars_ascii m) simp
qed

lemma str_trim_end_ws:
  assumes "ascii s"
  shows "str_trim_end s = rev (dropWhile is_ws (rev s))"
proof -
  have m: "rev (dropWhile is_whitespace (rev (map of_char s))) = map of_char (rev (dropWhile is_ws (rev s)))"
    by (simp add: dropWhile_map rev_map comp_def is_ws_def[abs_def])
  have "ascii (rev (dropWhile is_ws (rev s)))" using assms by (auto simp: ascii_def list_all_iff) (metis set_dropWhileD set_rev)
  from encode_ascii[OF this] show ?thesis using assms by (simp only: str_trim_end_def chars_ascii m) simp
qed

lemma trim_split: "\<exists>a b. s = a @ rev (dropWhile P (rev (dropWhile P s))) @ b \<and> list_all P a \<and> list_all P b"
proof (intro exI conjI)
  show "s = takeWhile P s @ rev (dropWhile P (rev (dropWhile P s))) @ rev (takeWhile P (rev (dropWhile P s)))"
    by (metis rev_append rev_rev_ident takeWhile_dropWhile_id)
qed (auto simp: list_all_iff dest: set_takeWhileD)

lemma str_trim_split: "ascii s \<Longrightarrow> \<exists>a b. s = a @ str_trim s @ b \<and> list_all is_ws a \<and> list_all is_ws b"
  using trim_split[of s is_ws] by (simp add: str_trim_ws)

lemma ws_quiet: "list_all is_ws a \<Longrightarrow> depth_after d a = d \<and> no_separator d a \<and> CHR ''='' \<notin> set a"
  by (induction a arbitrary: d) (auto simp: is_ws_def is_whitespace_def)

lemma trim_part_ok:
  assumes "ascii p"
  shows "no_separator 0 p \<Longrightarrow> no_separator 0 (str_trim p)" "depth_after 0 (str_trim p) = depth_after 0 p"
  using str_trim_split[OF assms] ws_quiet by (metis depth_after_append no_separator_append)+

definition is_option :: "string \<Rightarrow> bool" where
  "is_option part \<longleftrightarrow> (case split_once (CHR ''='') part of
     None \<Rightarrow> False
   | Some (key, _) \<Rightarrow> is_pool_checkout_option (option_key key) \<or> is_pool_health_check_option (option_key key))"

lemma split_once_SomeD: "split_once d s = Some (a, b) \<Longrightarrow> s = a @ d # b \<and> d \<notin> set a"
  by (induction s arbitrary: a b) (auto split: option.splits if_splits)

lemma split_once_Some_iff: "split_once d s = Some (a, b) \<longleftrightarrow> s = a @ d # b \<and> d \<notin> set a"
  using split_once_SomeD split_once_append by metis

lemma dropWhile_ws_append: "list_all is_ws a \<Longrightarrow> dropWhile is_ws (a @ k) = dropWhile is_ws k"
  by (induction a) auto

lemma is_option_trim:
  assumes "ascii p" "is_option (str_trim p @ e)" "CHR ''='' \<notin> set e"
  shows "is_option p"
proof -
  obtain a b where ab: "p = a @ str_trim p @ b" "list_all is_ws a" "list_all is_ws b" using str_trim_split[OF assms(1)] by blast
  obtain k v where kv: "str_trim p @ e = k @ CHR ''='' # v" "CHR ''='' \<notin> set k"
    and opt: "is_pool_checkout_option (option_key k) \<or> is_pool_health_check_option (option_key k)"
    using assms(2) by (auto simp: is_option_def split_once_Some_iff split: option.splits)
  have "CHR ''='' \<in> set (str_trim p)" using kv assms(3) by (metis Un_iff in_set_conv_decomp set_append)
  then obtain k' v' where k': "str_trim p = k' @ CHR ''='' # v'" "CHR ''='' \<notin> set k'" by (metis split_list_first)
  then have "split_once (CHR ''='') (str_trim p @ e) = Some (k', v' @ e)" by (simp add: split_once_append)
  moreover have "split_once (CHR ''='') (str_trim p @ e) = Some (k, v)" using kv by (simp add: split_once_append)
  ultimately have v': "str_trim p = k @ CHR ''='' # v'" using k' by simp
  have p: "p = (a @ k) @ CHR ''='' # (v' @ b)" using ab(1) v' by simp
  have "ascii (a @ k)" using assms(1) p by (metis ascii_def list_all_append)
  moreover from this have "ascii k" by (simp add: ascii_def)
  ultimately have "str_trim (a @ k) = str_trim k" using ab(2) by (simp add: str_trim_ws dropWhile_ws_append)
  then have "option_key (a @ k) = option_key k" by (simp add: option_key_def)
  moreover have "split_once (CHR ''='') p = Some (a @ k, v' @ b)"
    using p kv(2) ws_quiet[OF ab(2)] by (simp add: split_once_Some_iff)
  ultimately show ?thesis using opt by (simp add: is_option_def)
qed

lemma take_part_fields:
  "pp_sanitized (take_part p a) = pp_sanitized a @ (if str_trim p = [] \<or> is_option p then [] else [str_trim p])"
  "\<not> is_option p \<Longrightarrow> pp_override (take_part p a) = pp_override a \<and> pp_health_query (take_part p a) = pp_health_query a"
  by (auto simp: take_part_def is_option_def Let_def split: option.splits)

lemma fold_take_part:
  "pp_sanitized (fold take_part ps a) = pp_sanitized a @ map str_trim (filter (\<lambda>p. str_trim p \<noteq> [] \<and> \<not> is_option p) ps)"
  "list_all (\<lambda>p. \<not> is_option p) ps \<Longrightarrow>
   pp_override (fold take_part ps a) = pp_override a \<and> pp_health_query (fold take_part ps a) = pp_health_query a"
  by (induction ps arbitrary: a) (auto simp: take_part_fields)

lemma butlast_filter: "set (butlast (filter P xs)) \<subseteq> set (butlast xs)"
  by (induction xs rule: rev_induct) (auto dest: in_set_butlastD)

lemma split_parts_chars: "q \<in> set (split_parts d p s) \<Longrightarrow> set q \<subseteq> set p \<union> set s"
  by (induction d p s rule: split_parts.induct) (auto split: if_splits)

lemma if_cases_append: "(if b then x @ y else x) = x @ (if b then y else [])"
  by simp

lemma sanitized_has_no_options:
  assumes "ascii cs"
  shows "snd (parse_pool_options_from_connection_string (fst (parse_pool_options_from_connection_string cs))) = (None, None)"
proof -
  let ?ps = "split_connection_string_parts cs"
  let ?qs = "filter (\<lambda>p. str_trim p \<noteq> [] \<and> \<not> is_option p) ?ps"
  have ascii: "ascii q" if "q \<in> set ?ps" for q
    using split_parts_chars[of q 0 "[]" cs] that assms by (auto simp: split_connection_string_parts_def ascii_def list_all_iff)
  have ok: "parts_ok ?ps" using split_parts_ok[of "[]" 0 cs] by (simp add: split_connection_string_parts_def)
  have no_opt: "list_all (\<lambda>p. \<not> is_option p) (split_connection_string_parts s)"
    if s: "s = join_with '';'' (map str_trim ?qs) @ e" "e = [] \<or> e = '';'' \<and> ?qs \<noteq> []" for s e
  proof (cases "?qs = []")
    case True
    with s show ?thesis by (auto simp: split_connection_string_parts_def is_option_def)
  next
    case False
    have "set (butlast (map str_trim ?qs)) \<subseteq> str_trim ` set (butlast ?ps)"
      using butlast_filter[of _ ?ps] by (auto simp: map_butlast[symmetric])
    moreover have "no_separator 0 (str_trim q)" if "q \<in> set ?ps" for q
      using that ok ascii trim_part_ok(1) by (auto simp: parts_ok_def)
    moreover have "depth_after 0 (str_trim q) = 0" if "q \<in> set (butlast ?ps)" for q
      using that ok trim_part_ok(2)[OF ascii[OF in_set_butlastD[OF that]]] by (auto simp: parts_ok_def)
    ultimately have "parts_ok (map str_trim ?qs)" unfolding parts_ok_def by (auto 0 3)
    from split_parts_join[OF this, of e] False
    have parts: "set (split_connection_string_parts s) \<subseteq> (if e = [] then set (map str_trim ?qs) else set (map str_trim ?qs) \<union>
        set (split_parts (depth_after 0 (last (map str_trim ?qs))) (last (map str_trim ?qs)) e))"
      by (simp add: s(1) split_connection_string_parts_def)
    have kept: "\<not> is_option (str_trim q @ e')" if "q \<in> set ?qs" "e' \<in> {[], '';''}" for q e'
      using that is_option_trim[of q e'] ascii by auto
    have "last (map str_trim ?qs) \<in> str_trim ` set ?qs" using False last_in_set[of "map str_trim ?qs"] by simp
    then obtain q where q: "last (map str_trim ?qs) = str_trim q" "q \<in> set ?qs" by blast
    show ?thesis
      unfolding list_all_iff
    proof
      fix r assume "r \<in> set (split_connection_string_parts s)"
      with parts s(2) q have "r \<in> str_trim ` set ?qs \<or> r = [] \<or> r = str_trim q @ '';''" by (auto split: if_splits)
      moreover have "\<not> is_option []" by (simp add: is_option_def)
      ultimately show "\<not> is_option r" using kept[of _ "[]"] kept[OF q(2), of "'';''"] by auto
    qed
  qed
  define J where "J = join_with '';'' (map str_trim ?qs)"
  let ?C = "str_trim_end cs \<noteq> [] \<and> last (str_trim_end cs) = CHR '';'' \<and> J \<noteq> []"
  let ?e = "if ?C then '';'' else []"
  have "fst (parse_pool_options_from_connection_string cs) = J @ ?e"
    unfolding parse_pool_options_from_connection_string_def Let_def fold_take_part(1) pool_parts.simps append_Nil J_def[symmetric] fst_conv
    by (rule if_cases_append)
  moreover have "?e = [] \<or> ?e = '';'' \<and> ?qs \<noteq> []" by (auto simp: J_def)
  ultimately have e: "fst (parse_pool_options_from_connection_string cs) = join_with '';'' (map str_trim ?qs) @ ?e"
    "?e = [] \<or> ?e = '';'' \<and> ?qs \<noteq> []" by (simp_all only: J_def)
  from fold_take_part(2)[OF no_opt[OF e]] show ?thesis
    unfolding parse_pool_options_from_connection_string_def[of "fst _"] by (simp add: Let_def)
qed

text \<open>
  C20. Resizing a pool forgets how it was configured: the pool that replaces it has the default timeouts, and validates a
  checkout and checks its health as the environment or the defaults say, whatever options its creator gave in JSON or in
  the connection string; and when the replacement cannot be built, the pool is gone.
\<close>

theorem resize_forgets_options:
  assumes "new_with_options pb cs n opts = Ok p" and "ascii cs" and "map_of (pt_pools t) pool = Some p"
    and "\<not> gs_poisoned s" and "m \<noteq> 0" and "pool \<notin> snd ` set (gs_pooled s)"
  shows "case odbc_pool_set_size pb pool m (s, t) of (rc, s', t') \<Rightarrow>
    (if rc = 0 then
       (\<exists>p'. map_of (pt_pools t') pool = Some p' \<and> cp_max_size p' = m \<and>
          cp_test_on_check_out p' = resolve_checkout_validation None (read_checkout_validation_from_env (pb_var pb)) \<and>
          om_health_check_query (cp_manager p') = resolve_health_check_query None (read_health_check_query_from_env (pb_var pb)) \<and>
          rs_connection_timeout (cp_settings p') = 30000 \<and> rs_idle_timeout (cp_settings p') = None \<and>
          rs_max_lifetime (cp_settings p') = None)
     else map_of (pt_pools t') pool = None)"
proof -
  have cs: "cp_connection_string p = fst (parse_pool_options_from_connection_string cs)"
    using assms(1) by (auto simp: new_with_options_def from_connection_string_def Let_def split: prod.splits)
  obtain x where "parse_pool_options_from_connection_string (cp_connection_string p) = (x, None, None)"
    using sanitized_has_no_options[OF assms(2)] unfolding cs by (metis prod.collapse)
  then show ?thesis
    using assms(3-)
    by (auto simp: odbc_pool_set_size_def pool_new_def new_with_options_def from_connection_string_def default_pool_options_def Let_def
        update_conv' delete_conv' FFI_PANIC_def manager_new_def split: outcome.splits option.splits)
qed

definition example_pool_backend :: pool_backend where
  "example_pool_backend = \<lparr>pb_environment = None, pb_var = \<lambda>_. None, pb_build = \<lambda>_ _. Ok ()\<rparr>"

definition example_options :: pool_options where
  "example_options = \<lparr>po_idle_timeout = Some 5000, po_max_lifetime = None, po_connection_timeout = Some 1000\<rparr>"

lemma example_pool_string:
  "parse_pool_options_from_connection_string ''DSN=d;TestOnCheckout=no'' = (''DSN=d'', Some False, None)"
  by (simp add: parse_pool_options_from_connection_string_def split_connection_string_parts_def take_part_def option_key_def option_value_def
      parse_bool_flag_def str_trim_ws str_trim_end_ws ascii_def is_ws_def is_whitespace_def to_ascii_lowercase_def to_ascii_lower_char_def
      is_pool_checkout_option_def is_pool_health_check_option_def trim_braces_def is_brace_def Let_def)
    code_simp

theorem resize_forgets_options_witness:
  "\<exists>p p' s' t'. new_with_options example_pool_backend ''DSN=d;TestOnCheckout=no'' 4 example_options = Ok p \<and>
     \<not> cp_test_on_check_out p \<and> rs_connection_timeout (cp_settings p) = 1000 \<and>
     odbc_pool_set_size example_pool_backend 1 8 (fresh_state (calm_disk []), pool_tables_new\<lparr>pt_pools := [(1, p)]\<rparr>) = (0, s', t') \<and>
     map_of (pt_pools t') 1 = Some p' \<and> cp_test_on_check_out p' \<and> rs_connection_timeout (cp_settings p') = 30000"
proof -
  obtain p where p: "new_with_options example_pool_backend ''DSN=d;TestOnCheckout=no'' 4 example_options = Ok p"
    "\<not> cp_test_on_check_out p" "rs_connection_timeout (cp_settings p) = 1000"
    by (simp add: new_with_options_def from_connection_string_def example_pool_string example_pool_backend_def example_options_def
        manager_new_def resolve_checkout_validation_def Let_def)
  let ?st = "(fresh_state (calm_disk []), pool_tables_new\<lparr>pt_pools := [(1, p)]\<rparr>)"
  obtain s' t' where rc: "odbc_pool_set_size example_pool_backend 1 8 ?st = (0, s', t')"
    by (simp add: odbc_pool_set_size_def fresh_state_def pool_new_def new_with_options_def example_pool_backend_def manager_new_def Let_def)
  have "ascii ''DSN=d;TestOnCheckout=no''" by (simp add: ascii_def)
  from resize_forgets_options[OF p(1) this, of "pool_tables_new\<lparr>pt_pools := [(1, p)]\<rparr>" 1 "fresh_state (calm_disk [])" 8] rc p show ?thesis
    by (auto simp: fresh_state_def example_pool_backend_def resolve_checkout_validation_def read_checkout_validation_from_env_def)
qed

end
