(* ===== verification/Parallel_Insert.thy ===== *)
theory Parallel_Insert
  imports Array_Binding Pool
begin

text \<open>
  The parallel inserts: the slicing of a payload and the entry points \<open>odbc_bulk_insert_array\<close> and
  \<open>odbc_bulk_insert_parallel\<close> of \<open>ffi/mod.rs\<close>, and \<open>engine/core/parallel_insert.rs\<close>. The workers of \<open>rayon\<close> are state
  machines that share the database; a schedule says which of them moves next, one statement at a time, so that the
  theorems hold for every interleaving.
\<close>

section \<open>Slicing a payload\<close>

text \<open>\<open>(0..n).step_by(k)\<close> is \<open>starts_from n k 0\<close> for a positive step.\<close>

definition row_chunk_ranges :: "usize \<Rightarrow> usize \<Rightarrow> (usize \<times> usize) list" where
  "row_chunk_ranges n_rows parallelism =
     (if n_rows = 0 then []
      else
        let workers = min (max parallelism 1) n_rows; chunk_size = max ((n_rows + workers - 1) div workers) 1 in
        map (\<lambda>start. (start, min (start + chunk_size) n_rows)) (starts_from n_rows chunk_size 0))"

definition slice_null_bitmap :: "bytes \<Rightarrow> usize \<Rightarrow> usize \<Rightarrow> bytes" where
  "slice_null_bitmap bitmap start len =
     fold (\<lambda>i out. if is_null bitmap (start + i) then out[i div 8 := out ! (i div 8) OR push_bit (i mod 8) 1] else out)
       [0..<len] (replicate ((len + 7) div 8) 0)"

definition slice_column :: "usize \<Rightarrow> usize \<Rightarrow> bulk_column_data \<Rightarrow> bulk_column_data result" where
  "slice_column start stop col =
     (let bitmap = map_option (\<lambda>bm. slice_null_bitmap bm start (stop - start)) in
      case col of
        BD_I32 values bm \<Rightarrow> obind (range_of values start stop) (\<lambda>vs. Ok (BD_I32 vs (bitmap bm)))
      | BD_I64 values bm \<Rightarrow> obind (range_of values start stop) (\<lambda>vs. Ok (BD_I64 vs (bitmap bm)))
      | BD_Text rows max_len bm \<Rightarrow> obind (range_of rows start stop) (\<lambda>vs. Ok (BD_Text vs max_len (bitmap bm)))
      | BD_Binary rows max_len bm \<Rightarrow> obind (range_of rows start stop) (\<lambda>vs. Ok (BD_Binary vs max_len (bitmap bm)))
      | BD_Timestamp values bm \<Rightarrow> obind (range_of values start stop) (\<lambda>vs. Ok (BD_Timestamp vs (bitmap bm))))"

definition slice_payload_rows :: "bulk_insert_payload \<Rightarrow> usize \<Rightarrow> usize \<Rightarrow> bulk_insert_payload result" where
  "slice_payload_rows payload start stop =
     (if start > stop \<or> stop > unat (bp_row_count payload) then Err (ValidationError ''Invalid bulk insert chunk range'')
      else
        obind (omapM (slice_column start stop) (bp_column_data payload)) (\<lambda>chunk_data.
        Ok \<lparr>bp_table = bp_table payload, bp_columns = bp_columns payload, bp_row_count = of_nat (stop - start),
            bp_column_data = chunk_data\<rparr>))"

section \<open>Workers\<close>

text \<open>
  What the closure of a chunk does: take a connection and prepare it (\<open>ct_begin\<close>), everything up to the insert loop
  (\<open>ct_open\<close>), and what follows the insert, given its result (\<open>ct_close\<close>).
\<close>

record ('i, 'db) chunk_task =
  ct_begin :: "usize \<Rightarrow> 'db \<Rightarrow> unit result \<times> 'db"
  ct_open :: "usize \<Rightarrow> usize \<times> usize \<Rightarrow> (('i, 'db) insert_job \<times> usize list) option result"
  ct_close :: "usize \<Rightarrow> usize result \<Rightarrow> 'db \<Rightarrow> usize result \<times> 'db"

datatype ('i, 'db) worker =
    Waiting "usize \<times> usize"
  | Running "('i, 'db) insert_job" "usize list" usize
  | Finished "usize result"

definition finish :: "('i, 'db) chunk_task \<Rightarrow> usize \<Rightarrow> usize result \<Rightarrow> 'db \<Rightarrow> ('i, 'db) worker \<times> 'db" where
  "finish task k r db = (case ct_close task k r db of (r, db) \<Rightarrow> (Finished r, db))"

fun worker_step :: "('i, 'db) chunk_task \<Rightarrow> usize \<Rightarrow> ('i, 'db) worker \<Rightarrow> 'db \<Rightarrow> ('i, 'db) worker \<times> 'db" where
  "worker_step task k (Waiting rng) db =
     (case ct_begin task k db of
        (Ok _, db) \<Rightarrow>
          (case ct_open task k rng of
             Ok None \<Rightarrow> finish task k (Ok 0) db
           | Ok (Some (job, starts)) \<Rightarrow> (Running job starts 0, db)
           | Err e \<Rightarrow> finish task k (Err e) db
           | Panic \<Rightarrow> (Finished Panic, db))
      | (Err e, db) \<Rightarrow> (Finished (Err e), db)
      | (Panic, db) \<Rightarrow> (Finished Panic, db))"
| "worker_step task k (Running job [] inserted) db = finish task k (Ok inserted) db"
| "worker_step task k (Running job (start # starts) inserted) db =
     (case insert_chunk job start db of
        (Ok (n, job), db) \<Rightarrow> (Running job starts (inserted + n), db)
      | (Err e, db) \<Rightarrow> finish task k (Err e) db
      | (Panic, db) \<Rightarrow> (Finished Panic, db))"
| "worker_step task k (Finished r) db = (Finished r, db)"

fun run_schedule ::
  "('i, 'db) chunk_task \<Rightarrow> usize list \<Rightarrow> ('i, 'db) worker list \<Rightarrow> 'db \<Rightarrow> ('i, 'db) worker list \<times> 'db"
where
  "run_schedule task [] ws db = (ws, db)"
| "run_schedule task (k # ks) ws db =
     (if k < length ws then
        (case worker_step task k (ws ! k) db of (w, db) \<Rightarrow> run_schedule task ks (ws[k := w]) db)
      else run_schedule task ks ws db)"

fun worker_result :: "('i, 'db) worker \<Rightarrow> usize result option" where
  "worker_result (Finished r) = Some r"
| "worker_result _ = None"

text \<open>\<open>into_par_iter().map(..).collect()\<close>: the results in the order of the chunks, \<open>None\<close> while a worker is not done.\<close>

definition par_map ::
  "('i, 'db) chunk_task \<Rightarrow> (usize \<times> usize) list \<Rightarrow> usize list \<Rightarrow> 'db \<Rightarrow> (usize result list \<times> 'db) option"
where
  "par_map task ranges schedule db =
     (case run_schedule task schedule (map Waiting ranges) db of (ws, db) \<Rightarrow>
        if list_all (\<lambda>w. worker_result w \<noteq> None) ws then Some (map (the \<circ> worker_result) ws, db) else None)"

text \<open>The loop over the results: the sum of the successes and the failures with their chunk; a panic is propagated.\<close>

fun gather_from :: "usize \<Rightarrow> usize result list \<Rightarrow> usize \<times> (usize \<times> string) list" where
  "gather_from k [] = (0, [])"
| "gather_from k (r # rs) =
     (case gather_from (Suc k) rs of (inserted, errors) \<Rightarrow>
        (case r of
           Ok n \<Rightarrow> (n + inserted, errors)
         | Err e \<Rightarrow> (inserted, (k, error_display e) # errors)
         | Panic \<Rightarrow> (inserted, errors)))"

definition error_detail :: "(usize \<times> string) list \<Rightarrow> string" where
  "error_detail errors = join_with ''; '' (map (\<lambda>(i, err). ''chunk['' @ show_nat i @ '']: '' @ err) errors)"

text \<open>The closure of a chunk of the payload, on the connection \<open>get k\<close> of the pool.\<close>

definition payload_task :: "(usize \<Rightarrow> ('i, 'db) bulk_conn result) \<Rightarrow> bulk_insert_payload \<Rightarrow> ('i, 'db) chunk_task" where
  "payload_task get payload =
     \<lparr>ct_begin = \<lambda>k db. (omap (\<lambda>_. ()) (get k), db),
      ct_open = \<lambda>k (start, stop).
        obind (get k) (\<lambda>conn. obind (slice_payload_rows payload start stop)
          (open_generic conn (array_binding_new DEFAULT_PARAMSET_SIZE))),
      ct_close = \<lambda>k r db. (r, db)\<rparr>"

definition bulk_insert_parallel_with_pool ::
  "(usize \<Rightarrow> ('i, 'db) bulk_conn result) \<Rightarrow> bulk_insert_payload \<Rightarrow> usize \<Rightarrow> usize list \<Rightarrow> 'db \<Rightarrow> (usize result \<times> 'db) option"
where
  "bulk_insert_parallel_with_pool get payload parallelism schedule db =
     (let n_rows = unat (bp_row_count payload) in
      if n_rows = 0 then Some (Ok 0, db)
      else
        map_option (\<lambda>(results, db).
          (if Panic \<in> set results then Panic
           else case gather_from 0 results of (inserted, errors) \<Rightarrow>
             if errors = [] then Ok inserted
             else Err (InternalError (''Parallel bulk insert: '' @ show_nat (length errors) @ '' failed chunk(s) ('' @
                    show_nat inserted @ '' rows inserted before failure): '' @ error_detail errors)), db))
          (par_map (payload_task get payload) (row_chunk_ranges n_rows parallelism) schedule db))"

section \<open>Parallel insert of integers\<close>

definition chunk_ranges :: "usize \<Rightarrow> usize \<Rightarrow> (usize \<times> usize) list" where
  "chunk_ranges n_rows parallelism =
     (if n_rows = 0 then []
      else
        let chunk_size = min (max ((n_rows + max parallelism 1 - 1) div max parallelism 1) 1) n_rows in
        map (\<lambda>start. (start, min (start + chunk_size) n_rows)) (starts_from n_rows chunk_size 0))"

text \<open>The source repeats the checks of \<open>validate_i32_bulk_data\<close>.\<close>

definition validate_i32_parallel_input :: "string list \<Rightarrow> i32 list list \<Rightarrow> unit result" where
  "validate_i32_parallel_input columns data = validate_i32_bulk_data columns data"

definition build_i32_chunk :: "i32 list list \<Rightarrow> usize \<times> usize \<Rightarrow> i32 list list result" where
  "build_i32_chunk data rng = omapM (\<lambda>col. range_of col (fst rng) (snd rng)) data"

definition collect_partial_failure :: "usize \<Rightarrow> (usize \<times> string) list \<Rightarrow> usize result" where
  "collect_partial_failure inserted errors =
     (if errors = [] then Ok inserted else Err (BulkPartialFailure inserted (length errors) (error_detail errors)))"

datatype parallel_mode = Independent | PerChunkTransactional

record ('i, 'db) parallel_bulk_insert =
  pi_get :: "usize \<Rightarrow> ('i, 'db) bulk_conn result"
  pi_batch_size :: usize
  pi_parallelism :: usize
  pi_mode :: parallel_mode

definition parallel_bulk_insert_new :: "(usize \<Rightarrow> ('i, 'db) bulk_conn result) \<Rightarrow> usize \<Rightarrow> ('i, 'db) parallel_bulk_insert" where
  "parallel_bulk_insert_new get parallelism =
     \<lparr>pi_get = get, pi_batch_size = 10000, pi_parallelism = max parallelism 1, pi_mode = Independent\<rparr>"

definition with_batch_size :: "usize \<Rightarrow> ('i, 'db) parallel_bulk_insert \<Rightarrow> ('i, 'db) parallel_bulk_insert" where
  "with_batch_size batch_size p = p\<lparr>pi_batch_size := max batch_size 1\<rparr>"

definition with_mode :: "parallel_mode \<Rightarrow> ('i, 'db) parallel_bulk_insert \<Rightarrow> ('i, 'db) parallel_bulk_insert" where
  "with_mode mode p = p\<lparr>pi_mode := mode\<rparr>"

text \<open>The two modes of a chunk. A connection that cannot leave autocommit, or a commit that fails, returns at once.\<close>

definition begin_chunk :: "('i, 'db) parallel_bulk_insert \<Rightarrow> usize \<Rightarrow> 'db \<Rightarrow> unit result \<times> 'db" where
  "begin_chunk p k db =
     (case pi_get p k of
        Ok conn \<Rightarrow>
          (case pi_mode p of
             Independent \<Rightarrow> (Ok (), db)
           | PerChunkTransactional \<Rightarrow> bc_set_autocommit conn False db)
      | Err e \<Rightarrow> (Err e, db)
      | Panic \<Rightarrow> (Panic, db))"

definition close_chunk :: "('i, 'db) parallel_bulk_insert \<Rightarrow> usize \<Rightarrow> usize result \<Rightarrow> 'db \<Rightarrow> usize result \<times> 'db" where
  "close_chunk p k r db =
     (case (pi_mode p, pi_get p k) of
        (PerChunkTransactional, Ok conn) \<Rightarrow>
          (case r of
             Ok n \<Rightarrow>
               (case bc_commit conn db of
                  (Ok _, db) \<Rightarrow> (Ok n, snd (bc_set_autocommit conn True db))
                | (Err e, db) \<Rightarrow> (Err e, db)
                | (Panic, db) \<Rightarrow> (Panic, db))
           | Err e \<Rightarrow> (Err e, snd (bc_set_autocommit conn True (snd (bc_rollback conn db))))
           | Panic \<Rightarrow> (Panic, db))
      | _ \<Rightarrow> (r, db))"

definition i32_task :: "('i, 'db) parallel_bulk_insert \<Rightarrow> string \<Rightarrow> string list \<Rightarrow> i32 list list \<Rightarrow> ('i, 'db) chunk_task" where
  "i32_task p table columns data =
     \<lparr>ct_begin = begin_chunk p,
      ct_open = \<lambda>k rng. obind (build_i32_chunk data rng) (\<lambda>chunk.
        obind (pi_get p k) (\<lambda>conn. open_i32 conn (array_binding_new (pi_batch_size p)) table columns chunk)),
      ct_close = close_chunk p\<rparr>"

definition insert_i32_parallel ::
  "('i, 'db) parallel_bulk_insert \<Rightarrow> string \<Rightarrow> string list \<Rightarrow> i32 list list \<Rightarrow> usize list \<Rightarrow> 'db \<Rightarrow> (usize result \<times> 'db) option"
where
  "insert_i32_parallel p table columns data schedule db =
     (case validate_i32_parallel_input columns data of
        Err e \<Rightarrow> Some (Err e, db)
      | Panic \<Rightarrow> Some (Panic, db)
      | Ok _ \<Rightarrow>
          (case data of
             [] \<Rightarrow> Some (Ok 0, db)
           | col0 # _ \<Rightarrow>
               if col0 = [] then Some (Ok 0, db)
               else
                 map_option (\<lambda>(results, db).
                      (if Panic \<in> set results then Panic
                       else case gather_from 0 results of (inserted, errors) \<Rightarrow> collect_partial_failure inserted errors, db))
                      (par_map (i32_task p table columns data) (chunk_ranges (length col0) (pi_parallelism p)) schedule db)))"

section \<open>Entry points\<close>

text \<open>
  \<open>conn\<close> is what a handle gives for bulk operations. A panic happens with the global lock and the connection locked; the
  build is the one without the feature \<open>sqlserver-bcp\<close>.
\<close>

definition insert_payload :: "('i, 'db) bulk_conn \<Rightarrow> bulk_insert_payload \<Rightarrow> 'db \<Rightarrow> usize result \<times> 'db" where
  "insert_payload conn payload = bulk_insert_generic (array_binding_new DEFAULT_PARAMSET_SIZE) conn payload"

definition odbc_bulk_insert_array ::
  "(u32 \<Rightarrow> ('i, 'db) bulk_conn) \<Rightarrow> u32 \<Rightarrow> bool \<Rightarrow> bytes \<Rightarrow> global_state \<Rightarrow> 'db \<Rightarrow> int \<times> u32 option \<times> global_state \<times> 'db"
where
  "odbc_bulk_insert_array conns conn_id null data s db =
     (if null \<or> data = [] then
        (- 1, None, if gs_poisoned s then s
         else set_error ''odbc_bulk_insert_array: data_buffer and rows_inserted must be non-null, buffer_len > 0'' s, db)
      else
        (case parse_bulk_insert_payload data of
           Err e \<Rightarrow> (- 1, None, if gs_poisoned s then s else set_error (error_display e) s, db)
         | Panic \<Rightarrow> (FFI_PANIC, None, s, db)
         | Ok payload \<Rightarrow>
             if gs_poisoned s then (- 1, None, s, db)
             else if map_of (gs_connections s) conn_id = None then
               (- 1, None, set_connection_error conn_id (invalid_connection conn_id) s, db)
             else
               (case conn_problem conn_id s of
                  Some m \<Rightarrow> (- 1, None, set_error m s, db)
                | None \<Rightarrow>
                    (case insert_payload (conns conn_id) payload db of
                       (Ok inserted, db) \<Rightarrow> (0, Some (of_nat inserted), s, db)
                     | (Err e, db) \<Rightarrow> (- 1, None, set_connection_structured_error conn_id (to_structured e) s, db)
                     | (Panic, db) \<Rightarrow> (FFI_PANIC, None, poison_connection conn_id (s\<lparr>gs_poisoned := True\<rparr>), db)))))"

text \<open>\<open>get\<close> is \<open>pool.get()\<close> for the worker of a chunk.\<close>

definition odbc_bulk_insert_parallel ::
  "(connection_pool \<Rightarrow> usize \<Rightarrow> ('i, 'db) bulk_conn result) \<Rightarrow> u32 \<Rightarrow> bool \<Rightarrow> bytes \<Rightarrow> u32 \<Rightarrow> usize list \<Rightarrow>
   global_state \<times> pool_tables \<Rightarrow> 'db \<Rightarrow> (int \<times> u32 option \<times> (global_state \<times> pool_tables) \<times> 'db) option"
where
  "odbc_bulk_insert_parallel get pool_id null data parallelism schedule st db =
     (let (s, t) = st; failed = (\<lambda>m. Some (- 1, None, (if gs_poisoned s then s else set_error m s, t), db)) in
      if null \<or> data = [] then
        failed ''odbc_bulk_insert_parallel: data_buffer and rows_inserted must be non-null, buffer_len > 0''
      else if parallelism = 0 then failed ''odbc_bulk_insert_parallel: parallelism must be >= 1''
      else
        (case parse_bulk_insert_payload data of
           Err e \<Rightarrow> failed (error_display e)
         | Panic \<Rightarrow> Some (FFI_PANIC, None, (s, t), db)
         | Ok payload \<Rightarrow>
             if gs_poisoned s then Some (- 1, None, (s, t), db)
             else
               (case map_of (pt_pools t) pool_id of
                  None \<Rightarrow> failed (''Invalid pool ID: '' @ show_nat (unat pool_id))
                | Some pool \<Rightarrow>
                    map_option (\<lambda>(r, db).
                      (case r of
                         Ok inserted \<Rightarrow> (0, Some (of_nat inserted), (s, t), db)
                       | Err e \<Rightarrow> (- 1, None, (set_structured_error (to_structured e) s, t), db)
                       | Panic \<Rightarrow> (FFI_PANIC, None, (s, t), db)))
                      (bulk_insert_parallel_with_pool (get pool) payload (unat parallelism) schedule db))))"

end
