(* ===== verification/Parallel_Laws.thy ===== *)
theory Parallel_Laws
  imports Parallel_Insert
begin

text \<open>
  The parallel insert against the serial one: the chunks partition the rows, slicing keeps a payload well typed and its
  rows, every fair schedule ends, and whatever the schedule, the table ends up with the rows of the payload.
\<close>

section \<open>Slices\<close>

lemma is_null_bit: "is_null bm r \<longleftrightarrow> r div 8 < length bm \<and> bit (bm ! (r div 8)) (r mod 8)"
  by (auto simp: is_null_def bit_iff_and_push_bit_not_eq_0)

lemma slice_null_bitmap_fold:
  fixes bm :: bytes and start m len :: usize
  assumes "m \<le> len"
  defines "out \<equiv> fold (\<lambda>i out. if is_null bm (start + i) then out[i div 8 := out ! (i div 8) OR push_bit (i mod 8) 1] else out)
       [0..<m] (replicate ((len + 7) div 8) (0 :: u8))"
  shows "length out = (len + 7) div 8 \<and> (\<forall>i < len. is_null out i \<longleftrightarrow> i < m \<and> is_null bm (start + i))"
  using assms(1) unfolding out_def
proof (induction m)
  case 0
  then show ?case by (auto simp: is_null_bit)
next
  case (Suc m)
  define o1 where "o1 = fold (\<lambda>i out. if is_null bm (start + i) then out[i div 8 := out ! (i div 8) OR push_bit (i mod 8) 1] else out)
       [0..<m] (replicate ((len + 7) div 8) (0 :: u8))"
  have IH: "length o1 = (len + 7) div 8" "\<forall>i < len. is_null o1 i \<longleftrightarrow> i < m \<and> is_null bm (start + i)"
    using Suc by (simp_all add: o1_def)
  show ?case
  proof (cases "is_null bm (start + m)")
    case False
    then show ?thesis using IH by (auto simp: o1_def[symmetric] less_Suc_eq)
  next
    case True
    have m8: "m div 8 < length o1" using Suc.prems IH(1) by auto
    let ?o2 = "o1[m div 8 := o1 ! (m div 8) OR push_bit (m mod 8) 1]"
    have "is_null ?o2 i \<longleftrightarrow> is_null o1 i \<or> i = m" if "i < len" for i
    proof (cases "i div 8 = m div 8")
      case True
      have "i = m \<longleftrightarrow> m mod 8 = i mod 8" using True by (metis div_mult_mod_eq)
      then show ?thesis using True m8 by (auto simp: is_null_bit bit_or_iff push_bit_eq_mult bit_exp_iff possible_bit_word)
    next
      case False
      then show ?thesis using m8 by (auto simp: is_null_bit)
    qed
    then show ?thesis using IH True by (auto simp: o1_def[symmetric] less_Suc_eq)
  qed
qed

lemma slice_null_bitmap:
  "length (slice_null_bitmap bm start len) = null_bitmap_size len"
  "i < len \<Longrightarrow> is_null (slice_null_bitmap bm start len) i \<longleftrightarrow> is_null bm (start + i)"
  using slice_null_bitmap_fold[of len len bm start] by (auto simp: slice_null_bitmap_def null_bitmap_size_def)

lemma null_at_slice:
  "i < len \<Longrightarrow> null_at (map_option (\<lambda>bm. slice_null_bitmap bm start len) bm) i \<longleftrightarrow> null_at bm (start + i)"
  by (auto simp: null_at_def slice_null_bitmap split: option.splits)

lemma nullable_slice:
  "start + i < length vs \<Longrightarrow> i < stop - start \<Longrightarrow> stop \<le> length vs \<Longrightarrow>
   nullable_cell (map_option (\<lambda>bm. slice_null_bitmap bm start (stop - start)) bm) f (take (stop - start) (drop start vs)) i =
     nullable_cell bm f vs (start + i)"
  by (simp add: nullable_cell_def null_at_slice)

lemma wf_bitmap_slice:
  "wf_bitmap n rc bm \<Longrightarrow> wf_bitmap n len (map_option (\<lambda>bm. slice_null_bitmap bm start len) bm)"
  by (auto simp: wf_bitmap_def slice_null_bitmap split: option.splits)

lemma slice_column_ok:
  assumes "wf_col rc spec d" "cells_fit d" "start \<le> stop" "stop \<le> rc"
  shows "\<exists>d'. slice_column start stop d = Ok d' \<and> wf_col (stop - start) spec d' \<and> cells_fit d' \<and>
    (\<forall>i < stop - start. cell_of d' i = cell_of d (start + i))"
  using assms by (cases d) (auto simp: slice_column_def Let_def nullable_slice wf_bitmap_slice list_all_iff dest!: in_set_takeD in_set_dropD)

text \<open>Slicing keeps the types and the rows.\<close>

lemma slice_payload_ok:
  assumes p: "payload_typed p" and r: "start \<le> stop" "stop \<le> unat (bp_row_count p)"
  shows "\<exists>c. slice_payload_rows p start stop = Ok c \<and> payload_typed c \<and> unat (bp_row_count c) = stop - start \<and>
    (\<forall>i < stop - start. payload_row c i = payload_row p (start + i))"
proof -
  let ?rc = "unat (bp_row_count p)"
  have "list_all2 (wf_col ?rc) specs ds \<Longrightarrow> list_all cells_fit ds \<Longrightarrow>
      \<exists>ds'. omapM (slice_column start stop) ds = Ok ds' \<and> list_all2 (wf_col (stop - start)) specs ds' \<and> list_all cells_fit ds' \<and>
        (\<forall>i < stop - start. map (\<lambda>d. cell_of d i) ds' = map (\<lambda>d. cell_of d (start + i)) ds)" for specs ds
  proof (induction specs ds rule: list_all2_induct)
    case (Cons spec specs d ds)
    with slice_column_ok[OF Cons.hyps(1) _ r] show ?case by fastforce
  qed simp
  then obtain ds' where ds': "omapM (slice_column start stop) (bp_column_data p) = Ok ds'"
    "list_all2 (wf_col (stop - start)) (bp_columns p) ds'" "list_all cells_fit ds'"
    "\<forall>i < stop - start. map (\<lambda>d. cell_of d i) ds' = map (\<lambda>d. cell_of d (start + i)) (bp_column_data p)"
    using p unfolding payload_typed_def by blast
  have "stop - start < 2 ^ 32" 
  proof -
    have "unat (bp_row_count p) < 2 ^ 32" by (rule order_less_le_trans[OF unsigned_less]) simp
    with r show ?thesis by linarith
  qed
  then have len: "unat (of_nat (stop - start) :: u32) = stop - start" by (simp add: unat_of_nat)
  with ds' r show ?thesis by (simp add: slice_payload_rows_def payload_typed_def payload_row_def not_less)
qed

section \<open>Ranges\<close>

lemma starts_partition:
  assumes "k > 0" "a * k \<le> n"
  shows "concat (map (\<lambda>s. [s..<min (s + k) n]) (starts_from n k a)) = [a * k..<n]"
  using assms(2)
proof (induction "n - a * k" arbitrary: a rule: less_induct)
  case less
  show ?case
  proof (cases "a * k < n")
    case False
    then show ?thesis using less.prems assms(1) by (simp add: starts_from_rec)
  next
    case True
    show ?thesis
    proof (cases "Suc a * k \<le> n")
      case True
      then have "n - Suc a * k < n - a * k" using \<open>a * k < n\<close> assms(1) by simp
      from less.hyps[OF this True] have
        "concat (map (\<lambda>s. [s..<min (s + k) n]) (starts_from n k a)) = [a * k..<a * k + k] @ [a * k + k..<n]"
        using True \<open>a * k < n\<close> assms(1) by (subst starts_from_rec) (auto simp: add.commute)
      also have "\<dots> = [a * k..<n]" using True upt_add_eq_append[of "a * k" "a * k + k" "n - (a * k + k)"] by (simp add: add.commute)
      finally show ?thesis .
    next
      case False
      then have "starts_from n k (Suc a) = []" using assms(1) by (simp add: starts_from_rec)
      with False \<open>a * k < n\<close> assms(1) show ?thesis by (subst starts_from_rec) (auto simp: min_def add.commute)
    qed
  qed
qed

lemma starts_less:
  assumes "k > 0" "s \<in> set (starts_from n k a)"
  shows "s < n"
proof -
  obtain j where j: "j \<in> set [a..<(n + k - 1) div k]" "s = j * k" using assms(2) unfolding starts_from_def set_map by blast
  then have "j < (n + k - 1) div k" by simp
  then show ?thesis using less_ceil_iff[OF assms(1)] j(2) by simp
qed

definition covers :: "usize \<Rightarrow> (usize \<times> usize) list \<Rightarrow> bool" where
  "covers n rs \<longleftrightarrow> concat (map (\<lambda>(s, e). [s..<e]) rs) = [0..<n] \<and> list_all (\<lambda>(s, e). s < e \<and> e \<le> n) rs"

lemma covers_starts: "k > 0 \<Longrightarrow> covers n (map (\<lambda>s. (s, min (s + k) n)) (starts_from n k 0))"
  using starts_partition[of k 0 n] starts_less[of k _ n 0] by (auto simp: covers_def comp_def list_all_iff)

text \<open>The ranges of the chunks partition the rows into non-empty intervals, no more than the degree of parallelism.\<close>

lemma row_chunk_ranges_covers: "covers n (row_chunk_ranges n par)"
  by (auto simp: row_chunk_ranges_def Let_def covers_starts) (simp add: covers_def)

lemma chunk_ranges_covers: "covers n (chunk_ranges n par)"
  by (auto simp: chunk_ranges_def Let_def covers_starts) (simp add: covers_def)

section \<open>Workers\<close>

text \<open>What the tasks of the chunks have to provide, and what a worker has contributed to the table.\<close>

definition task_ok ::
  "'i inserter_view \<Rightarrow> ('db \<Rightarrow> sql_row multiset) \<Rightarrow> (usize \<Rightarrow> sql_row) \<Rightarrow> (usize \<times> usize) list \<Rightarrow> ('i, 'db) chunk_task \<Rightarrow> bool"
where
  "task_ok v table row rs task \<longleftrightarrow>
     (\<forall>k db r db'. ct_begin task k db = (r, db') \<longrightarrow> r \<noteq> Panic \<and> table db' = table db) \<and>
     (\<forall>k r db. ct_close task k r db = (r, db)) \<and>
     (\<forall>k. \<forall>(s, e) \<in> set rs. ct_open task k (s, e) \<noteq> Panic \<and> ct_open task k (s, e) \<noteq> Ok None \<and>
        (\<forall>job starts. ct_open task k (s, e) = Ok (Some (job, starts)) \<longrightarrow>
           bulk_table (jb_conn job) v table \<and> job_ok v (\<lambda>i. row (s + i)) job \<and> jb_rows job = e - s \<and>
           starts = starts_from (e - s) (jb_capacity job) 0))"

fun worker_ok ::
  "'i inserter_view \<Rightarrow> ('db \<Rightarrow> sql_row multiset) \<Rightarrow> (usize \<Rightarrow> sql_row) \<Rightarrow> usize \<times> usize \<Rightarrow> ('i, 'db) worker \<Rightarrow> sql_row multiset \<Rightarrow> bool"
where
  "worker_ok v table row se (Waiting r) C \<longleftrightarrow> r = se \<and> C = {#}"
| "worker_ok v table row (s, e) (Running job starts t) C \<longleftrightarrow>
     bulk_table (jb_conn job) v table \<and> job_ok v (\<lambda>i. row (s + i)) job \<and> jb_rows job = e - s \<and>
     (\<exists>a. starts = starts_from (e - s) (jb_capacity job) a \<and> t = min (a * jb_capacity job) (e - s)) \<and>
     C = mset (map row [s..<s + t])"
| "worker_ok v table row (s, e) (Finished (Ok n)) C \<longleftrightarrow> n = e - s \<and> C = mset (map row [s..<e])"
| "worker_ok v table row (s, e) (Finished (Err x)) C \<longleftrightarrow> C \<subseteq># mset (map row [s..<e])"
| "worker_ok v table row (s, e) (Finished Panic) C \<longleftrightarrow> False"

lemma map_shift_upt: "map (\<lambda>i. f (s + i)) [a..<b] = map f [s + a..<s + b]"
  by (intro nth_equalityI) (auto simp: add.assoc)

lemma mset_upt_split: "a \<le> b \<Longrightarrow> b \<le> c \<Longrightarrow> mset (map f [a..<c]) = mset (map f [a..<b]) + mset (map f [b..<c])"
proof -
  assume "a \<le> b" "b \<le> c"
  then have "[a..<c] = [a..<b] @ [b..<c]" using upt_add_eq_append[of a b "c - b"] by simp
  then show ?thesis by (simp only: map_append mset_append)
qed

lemma running_step:
  assumes ok: "worker_ok v table row (s, e) (Running job (st # ss) t) C" and se: "s < e"
    and close: "\<forall>k r db. ct_close task k r db = (r, db)"
    and step: "worker_step task k (Running job (st # ss) t) db = (w', db')"
  shows "\<exists>C'. worker_ok v table row (s, e) w' C' \<and> table db' + C = table db + C'"
proof -
  let ?n = "e - s" and ?k = "jb_capacity job"
  from ok obtain a where a: "st # ss = starts_from ?n ?k a" "t = min (a * ?k) ?n" and
    job: "bulk_table (jb_conn job) v table" "job_ok v (\<lambda>i. row (s + i)) job" "jb_rows job = ?n" and C: "C = mset (map row [s..<s + t])" by auto
  have k: "?k > 0" using job(2) by (simp add: job_ok_def)
  with a have st: "st = a * ?k" "st < ?n" "ss = starts_from ?n ?k (Suc a)" "t = st"
    by (auto simp: starts_from_rec[of ?k ?n a] split: if_splits)
  let ?stop = "min (st + ?k) ?n"
  have "st < jb_rows job" using st job(3) by simp
  note chunk = bulk_table.insert_chunk_ok[OF job(1,2) refl this, of db, unfolded job(3) map_shift_upt]
  have all: "mset (map row [s..<e]) = C + mset (map row [s + st..<s + ?stop]) + mset (map row [s + ?stop..<e])"
    using mset_upt_split[of s "s + st" e row] mset_upt_split[of "s + st" "s + ?stop" e row] st se unfolding C st(4) by simp
  have grow: "C + mset (map row [s + st..<s + ?stop]) = mset (map row [s..<s + ?stop])"
    using mset_upt_split[of s "s + st" "s + ?stop" row] st unfolding C st(4) by simp
  obtain r db1 where r: "insert_chunk job st db = (r, db1)" by fastforce
  show ?thesis
  proof (cases r)
    case (Ok x)
    obtain n job1 where x: "x = (n, job1)" by (cases x)
    with chunk r Ok have c: "n = ?stop - st" "job_ok v (\<lambda>i. row (s + i)) job1" "jb_conn job1 = jb_conn job" "jb_rows job1 = ?n"
      "jb_capacity job1 = ?k" "table db1 = table db + mset (map row [s + st..<s + ?stop])" by auto
    have w: "w' = Running job1 ss (t + n)" "db' = db1" using step r Ok x by auto
    have tn: "t + n = ?stop" using c(1) st by simp
    have "?stop = min (Suc a * ?k) ?n" using st by (simp add: add.commute)
    then have "worker_ok v table row (s, e) w' (mset (map row [s..<s + ?stop]))"
      using c(2-5) job(1,3) st(3) unfolding w tn worker_ok.simps by (intro conjI exI[of _ "Suc a"]) simp_all
    moreover have "table db' + C = table db + mset (map row [s..<s + ?stop])" unfolding w(2) c(6) grow[symmetric] by (simp only: ac_simps)
    ultimately show ?thesis by blast
  next
    case (Err x)
    with chunk r obtain B where B: "B \<subseteq># mset (map row [s + st..<s + ?stop])" "table db1 = table db + B" by auto
    have w: "w' = Finished (Err x)" "db' = db1" using step r Err close by (auto simp: finish_def)
    have "C + B \<subseteq># mset (map row [s..<e])" unfolding all using B(1) by (simp add: subset_mset.add_increasing2 add.assoc)
    then show ?thesis using B(2) w by (intro exI[of _ "C + B"]) (simp add: ac_simps)
  next
    case Panic
    then show ?thesis using chunk r by simp
  qed
qed

lemma worker_step_ok:
  assumes task: "task_ok v table row rs task" and se: "(s, e) \<in> set rs" "s < e" and ok: "worker_ok v table row (s, e) w C"
    and step: "worker_step task k w db = (w', db')"
  shows "\<exists>C'. worker_ok v table row (s, e) w' C' \<and> table db' + C = table db + C'"
proof -
  have close: "\<forall>k r db. ct_close task k r db = (r, db)" using task by (simp add: task_ok_def)
  show ?thesis
  proof (cases w)
    case (Waiting r)
    obtain b db1 where b: "ct_begin task k db = (b, db1)" by fastforce
    have begin_ok: "b \<noteq> Panic" "table db1 = table db" using task b by (auto simp: task_ok_def)
    have opened: "ct_open task k (s, e) \<noteq> Panic" "ct_open task k (s, e) \<noteq> Ok None"
      "\<And>job starts. ct_open task k (s, e) = Ok (Some (job, starts)) \<Longrightarrow> bulk_table (jb_conn job) v table \<and>
         job_ok v (\<lambda>i. row (s + i)) job \<and> jb_rows job = e - s \<and> starts = starts_from (e - s) (jb_capacity job) 0"
      using task se(1) unfolding task_ok_def by blast+
    from ok Waiting have w: "r = (s, e)" "C = {#}" by auto
    show ?thesis
    proof (cases b)
      case (Ok u)
      show ?thesis
      proof (cases "ct_open task k (s, e)")
        case (Ok j)
        then obtain job starts where j: "j = Some (job, starts)" using opened(2) by (cases j) auto
        with Ok b \<open>b = Ok u\<close> step Waiting w have "w' = Running job starts 0" "db' = db1" by auto
        with opened(3)[OF Ok[unfolded j]] begin_ok w show ?thesis by (auto intro!: exI[of _ "{#}"] exI[of _ 0])
      next
        case (Err x)
        with b \<open>b = Ok u\<close> step Waiting w close have "w' = Finished (Err x)" "db' = db1" by (auto simp: finish_def)
        with begin_ok w show ?thesis by (auto intro!: exI[of _ "{#}"])
      qed (use opened in simp)
    next
      case (Err x)
      with b step Waiting have "w' = Finished (Err x)" "db' = db1" by auto
      with begin_ok w show ?thesis by (auto intro!: exI[of _ "{#}"])
    qed (use begin_ok in simp)
  next
    case (Running job starts t)
    show ?thesis
    proof (cases starts)
      case Nil
      with ok Running obtain a where a: "[] = starts_from (e - s) (jb_capacity job) a" "t = min (a * jb_capacity job) (e - s)"
        "job_ok v (\<lambda>i. row (s + i)) job" "C = mset (map row [s..<s + t])" by auto
      then have "t = e - s" by (auto simp: job_ok_def starts_from_rec split: if_splits)
      with a se step close Running Nil show ?thesis by (auto simp: finish_def)
    next
      case (Cons st ss)
      with running_step[OF ok[unfolded Running Cons] se(2) close] step Running show ?thesis by blast
    qed
  next
    case (Finished r)
    with ok step show ?thesis by auto
  qed
qed

section \<open>Schedules\<close>

text \<open>The workers with their ranges and contributions.\<close>

definition all_ok ::
  "'i inserter_view \<Rightarrow> ('db \<Rightarrow> sql_row multiset) \<Rightarrow> (usize \<Rightarrow> sql_row) \<Rightarrow> ((usize \<times> usize) \<times> sql_row multiset) list \<Rightarrow>
   ('i, 'db) worker list \<Rightarrow> bool"
where
  "all_ok v table row P ws = list_all2 (\<lambda>(r, C) w. worker_ok v table row r w C) P ws"

lemma sum_list_replace: "k < length xs \<Longrightarrow> sum_list (xs[k := x]) + xs ! k = sum_list xs + (x :: 'a multiset)"
  by (induction xs arbitrary: k) (auto split: nat.splits simp: ac_simps)

lemma sum_list_empty [simp]: "sum_list (replicate n {#}) = {#}"
  by (induction n) auto

lemma mset_balance:
  fixes T :: "'a multiset"
  assumes "T' + S1 = T1 + S'" "S1 + C = S + C'" "T1 + C = T + C'"
  shows "T' + S = T + S'"
proof -
  have "(T' + S) + C' = T' + (S1 + C)" unfolding assms(2) by (simp only: ac_simps)
  also have "\<dots> = (T1 + S') + C" unfolding assms(1)[symmetric] by (simp only: ac_simps)
  also have "\<dots> = (T1 + C) + S'" by (simp only: ac_simps)
  also have "\<dots> = (T + S') + C'" unfolding assms(3) by (simp only: ac_simps)
  finally show ?thesis by simp
qed

lemma run_schedule_ok:
  assumes task: "task_ok v table row rs task" "list_all (\<lambda>(s, e). s < e) rs"
  shows "all_ok v table row P ws \<Longrightarrow> map fst P = rs \<Longrightarrow> run_schedule task ks ws db = (ws', db') \<Longrightarrow>
    \<exists>P'. all_ok v table row P' ws' \<and> map fst P' = rs \<and> table db' + sum_list (map snd P) = table db + sum_list (map snd P')"
proof (induction ks arbitrary: P ws db)
  case Nil
  then show ?case by auto
next
  case (Cons k ks)
  show ?case
  proof (cases "k < length ws")
    case False
    with Cons show ?thesis by auto
  next
    case True
    have len: "length P = length ws" using Cons.prems(1) by (simp add: all_ok_def list_all2_lengthD)
    obtain s e C where P: "P ! k = ((s, e), C)" by (metis prod.collapse)
    have w: "worker_ok v table row (s, e) (ws ! k) C"
      using list_all2_nthD2[of _ P ws k] Cons.prems(1) True P by (auto simp: all_ok_def)
    have "(s, e) \<in> set rs" using Cons.prems(2) P True len by (metis fst_conv nth_map nth_mem length_map)
    moreover then have "s < e" using task(2) by (auto simp: list_all_iff)
    moreover obtain w' db1 where step: "worker_step task k (ws ! k) db = (w', db1)" by fastforce
    ultimately obtain C' where C': "worker_ok v table row (s, e) w' C'" "table db1 + C = table db + C'"
      using worker_step_ok[OF task(1) _ _ w] by blast
    let ?P = "P[k := ((s, e), C')]"
    have "all_ok v table row ?P (ws[k := w'])"
      using Cons.prems(1) C'(1) unfolding all_ok_def by (intro list_all2_update_cong) auto
    moreover have "map fst ?P = rs" using Cons.prems(2) P True len by (metis fst_conv list_update_id map_update)
    moreover have "run_schedule task ks (ws[k := w']) db1 = (ws', db')" using Cons.prems(3) True step by simp
    ultimately obtain P' where P': "all_ok v table row P' ws'" "map fst P' = rs"
      "table db' + sum_list (map snd ?P) = table db1 + sum_list (map snd P')" using Cons.IH by blast
    have "sum_list (map snd ?P) + C = sum_list (map snd P) + C'"
      using sum_list_replace[of k "map snd P" C'] P True len by (simp add: map_update)
    from mset_balance[OF P'(3) this C'(2)] P'(1,2) show ?thesis by blast
  qed
qed

lemma gather_ok:
  "all_ok v table row P ws \<Longrightarrow> list_all (\<lambda>w. worker_result w \<noteq> None) ws \<Longrightarrow>
   let rs = map (the \<circ> worker_result) ws; (inserted, errors) = gather_from k rs; whole = mset (map row (concat (map (\<lambda>((s, e), _). [s..<e]) P))) in
   Panic \<notin> set rs \<and> sum_list (map snd P) \<subseteq># whole \<and> inserted \<le> size (sum_list (map snd P)) \<and>
   (errors = [] \<longrightarrow> sum_list (map snd P) = whole \<and> inserted = size whole)"
  unfolding all_ok_def
proof (induction P ws arbitrary: k rule: list_all2_induct)
  case Nil
  then show ?case by simp
next
  case (Cons x P w ws)
  obtain s e C where x: "x = ((s, e), C)" by (metis prod.collapse)
  obtain r where r: "w = Finished r" using Cons.prems by (cases w) auto
  obtain inserted errors where g: "gather_from (Suc k) (map (the \<circ> worker_result) ws) = (inserted, errors)" by fastforce
  note IH = Cons.IH[of "Suc k", unfolded g Let_def prod.case]
  note g' = g[unfolded comp_def]
  have w: "worker_ok v table row (s, e) (Finished r) C" using Cons.hyps(1) x r by simp
  show ?case
  proof (cases r)
    case (Ok n)
    with w have "n = size C" "C = mset (map row [s..<e])" by auto
    with IH g' Ok r x Cons.prems show ?thesis by (simp add: Let_def comp_def subset_mset.add_mono del: mset_map)
  next
    case (Err y)
    with w have "C \<subseteq># mset (map row [s..<e])" by simp
    with IH g' Err r x Cons.prems show ?thesis by (simp add: Let_def comp_def subset_mset.add_mono le_add2 trans_le_add2 del: mset_map)
  qed (use w in simp)
qed

section \<open>The parallel insert\<close>

lemma job_ok_cong:
  assumes "\<And>i. i < jb_rows job \<Longrightarrow> row i = row' i" "job_ok v row job"
  shows "job_ok v row' job"
proof -
  have "map row [start..<start + len] = map row' [start..<start + len]" if "start + len \<le> jb_rows job" for start len
    using assms(1) that by (intro map_cong) auto
  then show ?thesis using assms(2) unfolding job_ok_def by metis
qed

lemma payload_task_ok:
  assumes p: "payload_typed p" and get: "\<And>k. get k \<noteq> Panic" "\<And>k conn. get k = Ok conn \<Longrightarrow> bulk_table conn v table"
    and rs: "list_all (\<lambda>(s, e). s < e \<and> e \<le> unat (bp_row_count p)) rs"
  shows "task_ok v table (payload_row p) rs (payload_task get p)"
proof -
  have opened: "ct_open (payload_task get p) k (s, e) \<noteq> Panic \<and> ct_open (payload_task get p) k (s, e) \<noteq> Ok None \<and>
      (\<forall>job starts. ct_open (payload_task get p) k (s, e) = Ok (Some (job, starts)) \<longrightarrow>
         bulk_table (jb_conn job) v table \<and> job_ok v (\<lambda>i. payload_row p (s + i)) job \<and> jb_rows job = e - s \<and>
         starts = starts_from (e - s) (jb_capacity job) 0)"
    if se: "s < e" "e \<le> unat (bp_row_count p)" for k s e
  proof (cases "get k")
    case (Ok conn)
    note bt = get(2)[OF Ok]
    obtain c where c: "slice_payload_rows p s e = Ok c" "payload_typed c" "unat (bp_row_count c) = e - s"
      "\<forall>i < e - s. payload_row c i = payload_row p (s + i)" using slice_payload_ok[OF p] se by (meson less_imp_le_nat)
    let ?o = "open_generic conn (array_binding_new DEFAULT_PARAMSET_SIZE) c"
    have o: "ct_open (payload_task get p) k (s, e) = ?o" using Ok c(1) by (simp add: payload_task_def)
    have ps: "array_binding_new DEFAULT_PARAMSET_SIZE > 0" by (simp add: array_binding_new_def)
    have "?o \<noteq> Ok None" using c(3) se by (auto simp: open_generic_def Let_def split: if_splits)
    moreover have "?o \<noteq> Panic" by (rule bulk_table.open_generic_not_Panic[OF bt ps])
    moreover have "bulk_table (jb_conn job) v table \<and> job_ok v (\<lambda>i. payload_row p (s + i)) job \<and> jb_rows job = e - s \<and>
         starts = starts_from (e - s) (jb_capacity job) 0" if "?o = Ok (Some (job, starts))" for job starts
    proof -
      note j = bulk_table.open_generic_job[OF bt c(2) that ps]
      have "job_ok v (\<lambda>i. payload_row p (s + i)) job" by (rule job_ok_cong[of _ "payload_row c"]) (use j c in auto)
      with j bt c(3) show ?thesis by auto
    qed
    ultimately show ?thesis unfolding o by blast
  next
    case (Err x)
    then show ?thesis by (simp add: payload_task_def)
  qed (use get in auto)
  show ?thesis
    unfolding task_ok_def
  proof (intro conjI allI impI ballI)
    fix k x assume "x \<in> set rs"
    then obtain s e where "x = (s, e)" "s < e" "e \<le> unat (bp_row_count p)" using rs by (auto simp: list_all_iff)
    with opened[of s e k] show "case x of (s, e) \<Rightarrow> ct_open (payload_task get p) k (s, e) \<noteq> Panic \<and>
        ct_open (payload_task get p) k (s, e) \<noteq> Ok None \<and> (\<forall>job starts. ct_open (payload_task get p) k (s, e) = Ok (Some (job, starts)) \<longrightarrow>
         bulk_table (jb_conn job) v table \<and> job_ok v (\<lambda>i. payload_row p (s + i)) job \<and> jb_rows job = e - s \<and>
         starts = starts_from (e - s) (jb_capacity job) 0)" by simp
  qed (use get(1) in \<open>auto simp: payload_task_def\<close>)
qed

lemma all_waiting: "all_ok v table row (map (\<lambda>r. (r, {#})) rs) (map Waiting rs)"
  by (simp add: all_ok_def list_all2_conv_all_nth)

lemma par_map_ok:
  assumes task: "task_ok v table row rs task" and cov: "covers n rs" and run: "par_map task rs schedule db = Some (results, db')"
  shows "let (inserted, errors) = gather_from 0 results in Panic \<notin> set results \<and>
    (\<exists>B. B \<subseteq># mset (map row [0..<n]) \<and> table db' = table db + B \<and> inserted \<le> size B \<and>
       (errors = [] \<longrightarrow> B = mset (map row [0..<n]) \<and> inserted = n))"
proof -
  obtain ws where ws: "run_schedule task schedule (map Waiting rs) db = (ws, db')" "list_all (\<lambda>w. worker_result w \<noteq> None) ws"
    "results = map (the \<circ> worker_result) ws"
    using run by (auto simp: par_map_def split: prod.splits if_splits)
  have "list_all (\<lambda>(s, e). s < e) rs" using cov by (auto simp: covers_def list_all_iff)
  from run_schedule_ok[OF task this all_waiting _ ws(1)] obtain P where P: "all_ok v table row P ws" "map fst P = rs"
    "table db' = table db + sum_list (map snd P)" by (auto simp: comp_def map_replicate_const sum_list_replicate)
  have whole: "concat (map (\<lambda>((s, e), _). [s..<e]) P) = [0..<n]"
  proof -
    have "map (\<lambda>((s, e), _). [s..<e]) P = map (\<lambda>(s, e). [s..<e]) (map fst P)" by (auto simp: case_prod_beta)
    then show ?thesis using cov P(2) by (simp only: covers_def)
  qed
  from gather_ok[OF P(1) ws(2), of 0, folded ws(3), unfolded whole Let_def] P(3) show ?thesis
    by (auto simp: Let_def split: prod.splits)
qed

text \<open>
  C14. The parallel insert equals the serial one. For every payload the parser accepts, every degree of parallelism and every
  schedule under which the workers finish, on connections whose buffers and server keep their contracts: the call does
  not panic; when it reports success it reports the number of rows, and the table has received exactly the rows of the
  payload, as after a successful serial insert on any of the connections; when it reports failure, some of them, and
  at least as many as it says.
\<close>

theorem parallel_equals_serial:
  assumes "parse_bulk_insert_payload data = Ok p"
    and "\<forall>k. get k \<noteq> Panic" and "\<forall>k conn. get k = Ok conn \<longrightarrow> bulk_table conn v table"
    and "bulk_insert_parallel_with_pool get p parallelism schedule db = Some (r, db')"
  shows "case r of
      Ok n \<Rightarrow> n = unat (bp_row_count p) \<and> table db' = table db + mset (payload_rows p) \<and>
        (\<forall>k conn m db''. get k = Ok conn \<longrightarrow> insert_payload conn p db = (Ok m, db'') \<longrightarrow> m = n \<and> table db'' = table db')
    | Err e \<Rightarrow> (\<exists>B inserted errors. B \<subseteq># mset (payload_rows p) \<and> table db' = table db + B \<and> inserted \<le> size B \<and> errors \<noteq> [] \<and>
        e = InternalError (''Parallel bulk insert: '' @ show_nat (length errors) @ '' failed chunk(s) ('' @ show_nat inserted @
              '' rows inserted before failure): '' @ error_detail errors))
    | Panic \<Rightarrow> False"
proof -
  let ?n = "unat (bp_row_count p)"
  note typed = parse_bulk_typed[OF assms(1)]
  have ps: "array_binding_new DEFAULT_PARAMSET_SIZE > 0" by (simp add: array_binding_new_def)
  have serial: "m = ?n \<and> table db'' = table db + mset (payload_rows p)"
    if "get k = Ok conn" "insert_payload conn p db = (Ok m, db'')" for k conn m db''
    using bulk_table.bulk_insert_ok[OF assms(3)[rule_format, OF that(1)] typed ps, of db] that(2) by (simp add: insert_payload_def)
  show ?thesis
  proof (cases "?n = 0")
    case True
    with assms(4) serial show ?thesis by (auto simp: bulk_insert_parallel_with_pool_def payload_rows_def Let_def)
  next
    case False
    obtain results where run: "par_map (payload_task get p) (row_chunk_ranges ?n parallelism) schedule db = Some (results, db')"
      and r: "r = (if Panic \<in> set results then Panic
           else case gather_from 0 results of (inserted, errors) \<Rightarrow>
             if errors = [] then Ok inserted
             else Err (InternalError (''Parallel bulk insert: '' @ show_nat (length errors) @ '' failed chunk(s) ('' @
                    show_nat inserted @ '' rows inserted before failure): '' @ error_detail errors)))"
      using assms(4) False unfolding bulk_insert_parallel_with_pool_def Let_def by auto
    note cov = row_chunk_ranges_covers[of ?n parallelism]
    have "task_ok v table (payload_row p) (row_chunk_ranges ?n parallelism) (payload_task get p)"
      using payload_task_ok[OF typed] assms(2,3) cov by (auto simp: covers_def)
    note ok = par_map_ok[OF this cov run, folded payload_rows_def]
    obtain inserted errors where g: "gather_from 0 results = (inserted, errors)" by fastforce
    show ?thesis
    proof (cases "errors = []")
      case True
      with ok g r have "r = Ok ?n" "table db' = table db + mset (payload_rows p)" by auto
      with serial show ?thesis by simp
    next
      case False
      from ok g obtain B where "B \<subseteq># mset (payload_rows p)" "table db' = table db + B" "inserted \<le> size B" "Panic \<notin> set results"
        by auto
      with r g False show ?thesis by auto
    qed
  qed
qed

theorem parallel_equals_serial_witness:
  "\<exists>db'. bulk_insert_parallel_with_pool (\<lambda>_. Ok (list_conn (\<lambda>_. True))) small_payload 2 [0, 1, 1, 0, 0, 1] [] = Some (Ok 2, db') \<and>
     mset db' = {#[Some (SC_I32 7)], [None]#}"
proof -
  have "map_option fst (bulk_insert_parallel_with_pool (\<lambda>_. Ok (list_conn (\<lambda>_. True))) small_payload 2 [0, 1, 1, 0, 0, 1] []) = Some (Ok 2)"
    by code_simp
  then obtain db' where run: "bulk_insert_parallel_with_pool (\<lambda>_. Ok (list_conn (\<lambda>_. True))) small_payload 2 [0, 1, 1, 0, 0, 1] [] =
      Some (Ok 2, db')" by auto
  have rows: "payload_rows small_payload = [[Some (SC_I32 7)], [None]]"
    by (simp add: payload_rows_def payload_row_def small_payload_def nullable_cell_def null_at_def is_null_def upt_rec)
  have "\<forall>k conn. Ok (list_conn (\<lambda>_. True)) = (Ok conn :: _ result) \<longrightarrow> bulk_table conn list_view mset"
    using list_table.bulk_table_axioms by auto
  from parallel_equals_serial[OF small_payload_parses _ this run] have "mset db' = mset (payload_rows small_payload)" by simp
  then show ?thesis using run rows by (simp add: add_mset_commute)
qed

section \<open>Termination\<close>

text \<open>The turns a worker still needs at most, when the opened jobs have at most \<open>b\<close> chunks.\<close>

fun turns_left :: "usize \<Rightarrow> ('i, 'db) worker \<Rightarrow> nat" where
  "turns_left b (Waiting r) = b + 2"
| "turns_left b (Running job starts t) = length starts + 1"
| "turns_left b (Finished r) = 0"

lemma turns_left_0: "turns_left b w = 0 \<longleftrightarrow> (\<exists>r. worker_result w = Some r)"
  by (cases w) auto

lemma worker_step_turns:
  assumes "\<forall>k r job starts. ct_open task k r = Ok (Some (job, starts)) \<longrightarrow> length starts \<le> b"
  shows "turns_left b (fst (worker_step task k w db)) \<le> turns_left b w - 1"
  using assms
  by (cases "(task, k, w, db)" rule: worker_step.cases) (auto simp: finish_def split: prod.splits outcome.splits option.splits)

lemma run_schedule_turns:
  assumes "\<forall>k r job starts. ct_open task k r = Ok (Some (job, starts)) \<longrightarrow> length starts \<le> b"
  shows "length (fst (run_schedule task ks ws db)) = length ws \<and>
    (\<forall>k < length ws. turns_left b (fst (run_schedule task ks ws db) ! k) \<le> turns_left b (ws ! k) - count_list ks k)"
proof (induction ks arbitrary: ws db)
  case (Cons j ks)
  show ?case
  proof (cases "j < length ws")
    case True
    obtain w db1 where w: "worker_step task j (ws ! j) db = (w, db1)" by fastforce
    have "turns_left b w \<le> turns_left b (ws ! j) - 1" using worker_step_turns[OF assms, of j "ws ! j" db] w by simp
    then show ?thesis using Cons.IH[of "ws[j := w]" db1] w True by (auto simp: nth_list_update split: if_splits)
  next
    case False
    then show ?thesis using Cons.IH[of ws db] by auto
  qed
qed simp

lemma starts_length: "k > 0 \<Longrightarrow> length (starts_from n k 0) \<le> n"
  using less_ceil_iff[of k n n] by (auto simp: starts_from_def not_less)

lemma payload_task_chunks:
  assumes "ct_open (payload_task get p) k r = Ok (Some (job, starts))"
  shows "length starts \<le> unat (bp_row_count p)"
proof -
  obtain s e where r: "r = (s, e)" by (cases r)
  from assms obtain conn c where c: "slice_payload_rows p s e = Ok c"
    "open_generic conn (array_binding_new DEFAULT_PARAMSET_SIZE) c = Ok (Some (job, starts))"
    by (auto simp: payload_task_def r)
  have "bp_row_count c = of_nat (e - s)" "e - s \<le> unat (bp_row_count p)"
    using c(1) by (auto simp del: of_nat_diff simp: slice_payload_rows_def split: if_splits)
  then have rows: "unat (bp_row_count c) \<le> unat (bp_row_count p)"
    by (simp only: unat_of_nat) (rule order_trans[OF mod_less_eq_dividend])
  have "length starts \<le> unat (bp_row_count c)"
    using c(2) starts_length by (auto simp: open_generic_def open_job_def Let_def step_by_def starts_from_def split: if_splits)
  with rows show ?thesis by simp
qed

text \<open>
  C15. The parallel insert terminates under every fair schedule: when each of the workers gets as many turns as the payload has
  rows, and two more, the call returns, whatever the pool, the buffers and the server answer.
\<close>

theorem parallel_insert_terminates:
  assumes "\<forall>k < length (row_chunk_ranges (unat (bp_row_count p)) parallelism). count_list schedule k \<ge> unat (bp_row_count p) + 2"
  shows "\<exists>r db'. bulk_insert_parallel_with_pool get p parallelism schedule db = Some (r, db')"
proof (cases "unat (bp_row_count p) = 0")
  case True
  then show ?thesis by (simp add: bulk_insert_parallel_with_pool_def Let_def)
next
  case False
  let ?n = "unat (bp_row_count p)" and ?rs = "row_chunk_ranges (unat (bp_row_count p)) parallelism"
  obtain ws db' where run: "run_schedule (payload_task get p) schedule (map Waiting ?rs) db = (ws, db')" by fastforce
  have b: "\<forall>k r job starts. ct_open (payload_task get p) k r = Ok (Some (job, starts)) \<longrightarrow> length starts \<le> ?n"
    using payload_task_chunks by blast
  have "turns_left ?n w = 0" if w: "w \<in> set ws" for w
  proof -
    obtain k where k: "k < length ws" "ws ! k = w" using w unfolding in_set_conv_nth by blast
    note turns = run_schedule_turns[OF b, of schedule "map Waiting ?rs" db, unfolded run fst_conv length_map]
    then have len: "length ws = length ?rs" by blast
    with turns k(1) have "turns_left ?n (ws ! k) \<le> ?n + 2 - count_list schedule k" by (metis nth_map turns_left.simps(1))
    moreover have "count_list schedule k \<ge> ?n + 2" using assms k(1) len by auto
    ultimately show ?thesis using k(2) by simp
  qed
  then have "list_all (\<lambda>w. worker_result w \<noteq> None) ws" by (simp add: list_all_iff turns_left_0)
  then show ?thesis using run False by (auto simp: bulk_insert_parallel_with_pool_def par_map_def Let_def)
qed

theorem parallel_insert_terminates_witness:
  "\<exists>r db'. bulk_insert_parallel_with_pool (\<lambda>k. if k = 0 then Err (PoolError ''exhausted'') else Ok (list_conn (\<lambda>_. True)))
     small_payload 2 [0, 1, 0, 0, 1, 1, 1, 0] [] = Some (r, db')"
proof -
  have "length (row_chunk_ranges (unat (bp_row_count small_payload)) 2) = 2" by code_simp
  then show ?thesis
    by (intro parallel_insert_terminates) (auto simp: small_payload_def less_Suc_eq numeral_2_eq_2)
qed

section \<open>What a failure reports\<close>

text \<open>
  A partial failure can report fewer rows than it left behind: with batches of one row, a chunk whose second row is
  refused has inserted its first row, which stays in the table, and the error says that no row was inserted.
\<close>

theorem partial_failure_underreports:
  "insert_i32_parallel
     (with_batch_size 1 (parallel_bulk_insert_new (\<lambda>_. Ok (list_conn (\<lambda>row. row \<noteq> [Some (SC_I32 2)]))) 1))
     ''t'' [''a''] [[1, 2]] [0, 0, 0] [] =
   Some (Err (BulkPartialFailure 0 1 ''chunk[0]: ODBC error: row refused''), [[Some (SC_I32 1)]])"
  by code_simp

end
