(* ===== verification/Engine_Runs.thy ===== *)
theory Engine_Runs
  imports Session_Tables Pool_Laws Catalog Parallel_Insert
begin

text \<open>
  Runs of the whole library: the entry points of \<open>Session_Tables\<close> together with those of the pool, the catalog and the
  bulk inserts, on the global state and the tables of the pool, and the consistency of the tables over every
  sequence of them.
\<close>

section \<open>What a call leaves alone\<close>

text \<open>All the tables of the global state apart from the statements and the pooled connections.\<close>

definition same_rest :: "global_state \<Rightarrow> global_state \<Rightarrow> bool" where
  "same_rest s s' \<longleftrightarrow>
     gs_connections s' = gs_connections s \<and> gs_transactions s' = gs_transactions s \<and> gs_streams s' = gs_streams s \<and>
     gs_stream_connections s' = gs_stream_connections s \<and> gs_pending_chunks s' = gs_pending_chunks s \<and>
     gs_pending_results s' = gs_pending_results s \<and> gs_async s' = gs_async s \<and>
     gs_xa_active s' = gs_xa_active s \<and> gs_xa_preparing s' = gs_xa_preparing s \<and> gs_xa_prepared s' = gs_xa_prepared s"

definition same_tables :: "global_state \<Rightarrow> global_state \<Rightarrow> bool" where
  "same_tables s s' \<longleftrightarrow> same_rest s s' \<and> gs_statements s' = gs_statements s"

text \<open>Nothing happens but that some statements go, with the pooled connections that had them.\<close>

definition statements_dropped :: "global_state \<Rightarrow> global_state \<Rightarrow> bool" where
  "statements_dropped s s' \<longleftrightarrow> same_rest s s' \<and> (\<exists>P. gs_statements s' = filter P (gs_statements s))"

text \<open>The statements that are gone after a call.\<close>

definition removed_statements :: "global_state \<Rightarrow> global_state \<Rightarrow> u32 set" where
  "removed_statements s s' = dom (map_of (gs_statements s)) - dom (map_of (gs_statements s'))"

lemma same_rest_refl [simp]: "same_rest s s" and same_tables_refl [simp]: "same_tables s s"
  by (simp_all add: same_rest_def same_tables_def)

lemma same_tables_errors [simp]:
  "same_tables s (set_connection_error c m s')  = same_tables s s'" "same_tables s (set_error m s') = same_tables s s'"
  "same_tables s (set_connection_structured_error c e s') = same_tables s s'"
  "same_tables s (set_structured_error e s') = same_tables s s'" "same_tables s (poison_connection c s') = same_tables s s'"
  "same_tables s (s'\<lparr>gs_poisoned := b\<rparr>) = same_tables s s'" "same_tables s (s'\<lparr>gs_pooled := p\<rparr>) = same_tables s s'"
  by (simp_all add: same_tables_def same_rest_def set_connection_error_def set_error_def set_connection_structured_error_def
      set_structured_error_def poison_connection_def split: option.splits)

lemma statements_dropped_trans: "statements_dropped s s' \<Longrightarrow> statements_dropped s' s'' \<Longrightarrow> statements_dropped s s''"
  by (auto simp: statements_dropped_def same_rest_def)

lemma same_tables_dropped: "same_tables s s' \<Longrightarrow> statements_dropped s s'"
  unfolding statements_dropped_def same_tables_def by (auto intro: exI[of _ "\<lambda>_. True"])

lemma same_tables_ok: "session_ok L s \<Longrightarrow> same_tables s s' \<Longrightarrow> session_ok L s'"
  by (simp add: session_ok_def tables_ok_def same_tables_def same_rest_def)

lemma statements_dropped_ok:
  assumes "session_ok L s" and "statements_dropped s s'"
  shows "session_ok (L \<union> removed_statements s s') s'"
proof -
  obtain P where st: "gs_statements s' = filter P (gs_statements s)" and rest: "same_rest s s'"
    using assms(2) by (auto simp: statements_dropped_def)
  have "map_of (gs_statements s') 0 = None"
    using assms(1) st by (auto simp: session_ok_def pending_ok_def map_of_eq_None_iff)
  then have "pending_ok (L \<union> removed_statements s s') (map_of (gs_statements s')) (map_of (gs_pending_results s))"
    using assms(1) unfolding session_ok_def pending_ok_def removed_statements_def by blast
  then show ?thesis
    using assms(1) rest st by (simp add: session_ok_def tables_ok_def same_rest_def distinct_keys_filter)
qed

section \<open>The entry points of the pool, the catalog and the bulk inserts\<close>

lemma pool_calls_keep:
  "same_tables s (fst (snd (odbc_pool_create pb cs n (s, t))))"
  "same_tables s (fst (snd (odbc_pool_create_with_options pb js cs n opts (s, t))))"
  "same_tables s (fst (snd (odbc_pool_get_connection p answer (s, t))))"
  "same_tables s (fst (snd (odbc_pool_set_size pb p n (s, t))))"
  by (simp_all add: odbc_pool_create_def odbc_pool_create_with_options_def pool_create_inner_def odbc_pool_get_connection_def
      pool_lookup_def pool_install_def odbc_pool_set_size_def Let_def split: option.split outcome.split prod.split)

lemma pool_release_drops: "statements_dropped s (fst (snd (odbc_pool_release_connection drv i (s, t))))"
proof (cases "gs_poisoned s")
  case True
  then show ?thesis by (simp add: odbc_pool_release_connection_def same_tables_dropped)
next
  case False
  show ?thesis
  proof (cases "map_of (gs_pooled s) i")
    case None
    with False show ?thesis by (simp add: odbc_pool_release_connection_def same_tables_dropped)
  next
    case (Some p)
    with False show ?thesis
      by (auto simp: odbc_pool_release_connection_def Let_def statements_dropped_def same_rest_def statements_of_others_def)
  qed
qed

lemma close_checked_out_drops: "statements_dropped (fst st) (fst (close_checked_out drv p c st))"
  by (auto simp: close_checked_out_def statements_dropped_def same_rest_def statements_of_others_def split: prod.split)

lemma close_all_drops: "statements_dropped (fst st) (fst (fold (close_checked_out drv p) cs st))"
proof (induction cs arbitrary: st)
  case Nil
  then show ?case by (simp add: same_tables_dropped)
next
  case (Cons c cs)
  from statements_dropped_trans[OF close_checked_out_drops Cons.IH] show ?case by simp
qed

lemma pool_close_drops: "statements_dropped s (fst (snd (odbc_pool_close drv p (s, t))))"
proof -
  let ?r = "fold (close_checked_out drv p) (map fst (filter (\<lambda>(_, pid). pid = p) (gs_pooled s))) (s, t)"
  have "statements_dropped s (fst ?r)" using close_all_drops[of "(s, t)"] by simp
  moreover have "fst (snd (odbc_pool_close drv p (s, t))) \<in> {s, set_error (''Invalid pool ID: '' @ show_nat (unat p)) s, fst ?r}"
    by (simp add: odbc_pool_close_def Let_def split: prod.split)
  ultimately show ?thesis by (auto simp: same_tables_dropped)
qed

lemma catalog_call_keeps: "same_tables s (snd (snd (catalog_call c n r s)))" "same_tables s (snd (snd (catalog_answer c n r s)))"
  by (auto simp: catalog_call_def catalog_answer_def split: option.split outcome.split)

lemma table_entry_keeps: "same_tables s (snd (snd (table_entry run nl c tab n s)))"
  by (simp add: table_entry_def catalog_call_keeps split: option.split)

text \<open>Neither the catalog nor a bulk insert touches a table: they record errors, and a panic poisons.\<close>

lemma catalog_calls_keep:
  "same_tables s (snd (snd (odbc_catalog_tables env nl c cat sch n s)))"
  "same_tables s (snd (snd (odbc_catalog_type_info env nl c n s)))"
  "same_tables s (snd (snd (odbc_catalog_primary_keys env nl c tab n s)))"
  "same_tables s (snd (snd (odbc_catalog_foreign_keys env nl c tab n s)))"
  "same_tables s (snd (snd (odbc_catalog_indexes env nl c tab n s)))"
  by (simp_all add: odbc_catalog_tables_def odbc_catalog_type_info_def odbc_catalog_primary_keys_def odbc_catalog_foreign_keys_def
      odbc_catalog_indexes_def catalog_call_keeps table_entry_keeps)

lemma catalog_columns_keeps: "same_tables s (fst (snd (snd (odbc_catalog_columns env pl now later nl c tab n s m))))"
  using catalog_call_keeps(2)[of s c n]
  by (auto simp: odbc_catalog_columns_def Let_def split: option.split prod.split) (metis snd_conv)

lemma bulk_calls_keep:
  "same_tables s (fst (snd (snd (odbc_bulk_insert_array conns c nl data s db))))"
  "odbc_bulk_insert_parallel get p nl data k schedule (s, t) db = Some (code, out, (s', t'), db') \<Longrightarrow> same_tables s s'"
proof -
  show "same_tables s (fst (snd (snd (odbc_bulk_insert_array conns c nl data s db))))"
    by (simp add: odbc_bulk_insert_array_def split: option.split outcome.split prod.split)
  assume run: "odbc_bulk_insert_parallel get p nl data k schedule (s, t) db = Some (code, out, (s', t'), db')"
  then have "s' = s \<or> (\<exists>m. s' = set_error m s) \<or> (\<exists>e. s' = set_structured_error e s)"
    by (auto simp: odbc_bulk_insert_parallel_def Let_def split: option.splits outcome.splits if_splits)
      (metis outcome.exhaust)
  then show "same_tables s s'" by auto
qed

section \<open>Runs\<close>

text \<open>
  A state of a run: the global state, the tables of the pool, and the statements that calls of the pool have removed
  since the start. The last component is not part of the program; it records what \<open>odbc_pool_release_connection\<close> and
  \<open>odbc_pool_close\<close> did. The calls that run on a pooled connection change that connection (\<open>pt_wrappers\<close>).
  The rule \<open>reporting\<close> is for the calls of the catalog and the bulk inserts, which keep all tables
  (\<open>catalog_calls_keep\<close>, \<open>catalog_columns_keeps\<close>, \<open>bulk_calls_keep\<close>). The calls not listed read the state only.
\<close>

type_synonym run_state = "(global_state \<times> pool_tables) \<times> u32 set"

inductive engine_step :: "run_state \<Rightarrow> run_state \<Rightarrow> bool" where
  call: "ffi_step s s' \<Longrightarrow> engine_step ((s, t), L) ((s', t\<lparr>pt_wrappers := w\<rparr>), L)"
| reporting: "same_tables s s' \<Longrightarrow> engine_step ((s, t), L) ((s', t), L)"
| pool_create: "odbc_pool_create pb cs n (s, t) = (i, s', t') \<Longrightarrow> engine_step ((s, t), L) ((s', t'), L)"
| pool_create_with_options:
    "odbc_pool_create_with_options pb js cs n opts (s, t) = (i, s', t') \<Longrightarrow> engine_step ((s, t), L) ((s', t'), L)"
| pool_get_connection: "odbc_pool_get_connection p answer (s, t) = (i, s', t') \<Longrightarrow> engine_step ((s, t), L) ((s', t'), L)"
| pool_set_size: "odbc_pool_set_size pb p n (s, t) = (code, s', t') \<Longrightarrow> engine_step ((s, t), L) ((s', t'), L)"
| pool_release_connection:
    "odbc_pool_release_connection drv i (s, t) = (code, s', t') \<Longrightarrow>
     engine_step ((s, t), L) ((s', t'), L \<union> removed_statements s s')"
| pool_close:
    "odbc_pool_close drv p (s, t) = (code, s', t') \<Longrightarrow> engine_step ((s, t), L) ((s', t'), L \<union> removed_statements s s')"

lemma engine_step_ok: "engine_step r r' \<Longrightarrow> session_ok (snd r) (fst (fst r)) \<Longrightarrow> session_ok (snd r') (fst (fst r'))"
proof (induction rule: engine_step.induct)
  case (call s s' t L w)
  then show ?case using ffi_step_ok by simp
next
  case (reporting s s' t L)
  then show ?case using same_tables_ok by simp
next
  case (pool_create pb cs n s t i s' t' L)
  then show ?case using same_tables_ok[OF _ pool_calls_keep(1)] by (metis fst_conv snd_conv)
next
  case (pool_create_with_options pb js cs n opts s t i s' t' L)
  then show ?case using same_tables_ok[OF _ pool_calls_keep(2)] by (metis fst_conv snd_conv)
next
  case (pool_get_connection p answer s t i s' t' L)
  then show ?case using same_tables_ok[OF _ pool_calls_keep(3)] by (metis fst_conv snd_conv)
next
  case (pool_set_size pb p n s t code s' t' L)
  then show ?case using same_tables_ok[OF _ pool_calls_keep(4)] by (metis fst_conv snd_conv)
next
  case (pool_release_connection drv i s t code s' t' L)
  then show ?case using statements_dropped_ok pool_release_drops[of s drv i t] by simp
next
  case (pool_close drv p s t code s' t' L)
  then show ?case using statements_dropped_ok pool_close_drops[of s drv p t] by simp
qed

text \<open>
  C10. Whatever calls a client makes, one after the other, of the session, the pool, the catalog and the bulk inserts, the
  tables stay consistent: every transaction, stream and asynchronous request belongs to a registered connection, a
  connection has at most one transaction, a waiting chunk has its stream, an XA branch is in one phase, and no entry has
  the identifier 0 that stands for failure. A kept result of a prepared statement has its statement, with one
  exception: the results of statements that \<open>odbc_pool_release_connection\<close> and \<open>odbc_pool_close\<close> removed stay
  behind (\<open>L\<close> is the set of these statements; it is empty in a run that has not called the two).
\<close>

theorem session_invariant:
  assumes "engine_step\<^sup>*\<^sup>* ((fresh_state d, pool_tables_new), {}) ((s, t), L)"
  shows "session_ok L s"
proof -
  have "session_ok (snd r) (fst (fst r))" if "engine_step\<^sup>*\<^sup>* ((fresh_state d, pool_tables_new), {}) r" for r
    using that by (induction rule: rtranclp_induct) (simp add: session_ok_fresh, blast intro: engine_step_ok)
  from this[OF assms] show ?thesis by simp
qed

theorem session_invariant_witness:
  "\<exists>t. session_ok {} (snd (odbc_connect (accepting_driver []) (Some (as_bytes ''DSN=a''))
     (snd (odbc_init (accepting_driver []) (fresh_state (calm_disk [])))))) \<and>
   engine_step\<^sup>*\<^sup>* ((fresh_state (calm_disk []), pool_tables_new), {})
     ((snd (odbc_connect (accepting_driver []) (Some (as_bytes ''DSN=a''))
        (snd (odbc_init (accepting_driver []) (fresh_state (calm_disk []))))), t), {})"
proof -
  let ?s = "snd (odbc_init (accepting_driver []) (fresh_state (calm_disk [])))"
  let ?s' = "snd (odbc_connect (accepting_driver []) (Some (as_bytes ''DSN=a'')) ?s)"
  have "engine_step ((fresh_state (calm_disk []), pool_tables_new), {}) ((?s, pool_tables_new\<lparr>pt_wrappers := []\<rparr>), {})"
    by (rule engine_step.call[OF ffi_step.init])
  moreover have "engine_step ((?s, pool_tables_new\<lparr>pt_wrappers := []\<rparr>), {})
      ((?s', pool_tables_new\<lparr>pt_wrappers := []\<rparr>\<lparr>pt_wrappers := []\<rparr>), {})"
    by (rule engine_step.call[OF ffi_step.connect])
  ultimately have "engine_step\<^sup>*\<^sup>* ((fresh_state (calm_disk []), pool_tables_new), {})
      ((?s', pool_tables_new\<lparr>pt_wrappers := []\<rparr>\<lparr>pt_wrappers := []\<rparr>), {})"
    by (rule rtranclp.rtrancl_into_rtrancl[OF r_into_rtranclp])
  with session_invariant[OF this] show ?thesis by blast
qed

end
