(* ===== verification/Security.thy ===== *)
theory Security
  imports Pool_Laws
begin

text \<open>
  \<open>security/sanitize.rs\<close>, \<open>security/audit.rs\<close> and \<open>security/secret_manager.rs\<close>, with the entry points \<open>odbc_audit_*\<close> of
  \<open>ffi/mod.rs\<close>: what of a connection string reaches the audit log, which events the log keeps, and the store of secrets.
  The serializer of events (\<open>serde_json\<close>) is an argument.
\<close>

section \<open>Redaction of connection strings\<close>

definition SECRET_KEYS :: "string list" where
  "SECRET_KEYS =
     [''pwd'', ''password'', ''passwd'', ''secret'', ''token'', ''apikey'', ''api_key'', ''accesstoken'', ''access_token'',
      ''authorization'', ''auth'', ''sas'', ''sastoken'', ''sas_token'', ''connectionstring'', ''primarykey'', ''secondarykey'']"

definition is_secret_key :: "string \<Rightarrow> bool" where
  "is_secret_key key \<longleftrightarrow> to_ascii_lowercase (str_trim key) \<in> set SECRET_KEYS"

definition not_key_end :: "char \<Rightarrow> bool" where
  "not_key_end c \<longleftrightarrow> c \<noteq> CHR ''='' \<and> c \<noteq> CHR '';''"

text \<open>The value at the start of the rest of the string, and what follows it: braces protect a semicolon.\<close>

definition read_value :: "string \<Rightarrow> string \<times> string" where
  "read_value s =
     (if s \<noteq> [] \<and> hd s = CHR ''{'' then
        let inner = takeWhile (\<lambda>c. c \<noteq> CHR ''}'') (tl s); after = dropWhile (\<lambda>c. c \<noteq> CHR ''}'') (tl s);
            closing = take 1 after; rest = drop 1 after in
        (CHR ''{'' # inner @ closing @ takeWhile (\<lambda>c. c \<noteq> CHR '';'') rest, dropWhile (\<lambda>c. c \<noteq> CHR '';'') rest)
      else (takeWhile (\<lambda>c. c \<noteq> CHR '';'') s, dropWhile (\<lambda>c. c \<noteq> CHR '';'') s))"

lemma read_value_split: "fst (read_value s) @ snd (read_value s) = s"
  by (cases s) (auto simp: read_value_def Let_def)

lemma read_value_shrinks: "length (snd (read_value s)) \<le> length s"
  using arg_cong[OF read_value_split[of s], of length] by simp

text \<open>The loop over the pairs: \<open>first\<close> is false once a pair has been written.\<close>

function sanitize_pairs :: "bool \<Rightarrow> string \<Rightarrow> string" where
  "sanitize_pairs first s =
     (if s = [] then []
      else
        let key = takeWhile not_key_end s; rest = dropWhile not_key_end s; sep = (if first then [] else '';'') in
        if rest = [] then sep @ key
        else if hd rest = CHR '';'' then sep @ key @ sanitize_pairs False (tl rest)
        else
          let value = fst (read_value (tl rest)); after = snd (read_value (tl rest)) in
          sep @ key @ ''='' @ (if is_secret_key key then ''***'' else value) @ sanitize_pairs False (tl after))"
  by auto
termination
proof (relation "measure (\<lambda>(first, s). length s)", goal_cases)
  case (2 first s key rest sep)
  then have "length rest \<le> length s" "0 < length s" using length_dropWhile_le[of not_key_end s] by auto
  then show ?case by (cases "length rest") auto
next
  case (3 first s key rest sep v after)
  then have "length rest \<le> length s" "0 < length s" using length_dropWhile_le[of not_key_end s] by auto
  moreover have "length after \<le> length (tl rest)" using 3 read_value_shrinks[of "tl rest"] by simp
  ultimately show ?case by (cases "length after") auto
qed simp

declare sanitize_pairs.simps [simp del]

definition sanitize_connection_string :: "string \<Rightarrow> string" where
  "sanitize_connection_string s = sanitize_pairs True s"

section \<open>What redaction promises\<close>

text \<open>
  A connection string as a list of pairs: a bare token has no value. A value in braces may hold semicolons; the closing
  brace may be missing only at the end of the string.
\<close>

type_synonym pair = "string \<times> string option"

definition plain_value :: "string \<Rightarrow> bool" where
  "plain_value v \<longleftrightarrow> CHR '';'' \<notin> set v \<and> (v = [] \<or> hd v \<noteq> CHR ''{'')"

definition braced_value :: "string \<Rightarrow> bool" where
  "braced_value v \<longleftrightarrow>
     v \<noteq> [] \<and> hd v = CHR ''{'' \<and> CHR ''}'' \<in> set (tl v) \<and> CHR '';'' \<notin> set (dropWhile (\<lambda>c. c \<noteq> CHR ''}'') (tl v))"

definition open_value :: "string \<Rightarrow> bool" where
  "open_value v \<longleftrightarrow> v \<noteq> [] \<and> hd v = CHR ''{'' \<and> CHR ''}'' \<notin> set (tl v)"

fun pairs_ok :: "bool \<Rightarrow> pair list \<Rightarrow> bool" where
  "pairs_ok trailing [] \<longleftrightarrow> True"
| "pairs_ok trailing ((k, v) # ps) \<longleftrightarrow>
     list_all not_key_end k \<and> (ps = [] \<and> \<not> trailing \<longrightarrow> k \<noteq> [] \<or> v \<noteq> None) \<and>
     (case v of None \<Rightarrow> True | Some v \<Rightarrow> plain_value v \<or> braced_value v \<or> open_value v \<and> ps = [] \<and> \<not> trailing) \<and>
     pairs_ok trailing ps"

definition pair_text :: "pair \<Rightarrow> string" where
  "pair_text p = fst p @ (case snd p of None \<Rightarrow> [] | Some v \<Rightarrow> ''='' @ v)"

definition redact :: "pair \<Rightarrow> pair" where
  "redact p = (case snd p of Some v \<Rightarrow> (fst p, Some (if is_secret_key (fst p) then ''***'' else v)) | None \<Rightarrow> p)"

text \<open>Every pair ends with its semicolon, the last one may do without; an empty last pair needs it.\<close>

fun pairs_text :: "bool \<Rightarrow> pair list \<Rightarrow> string" where
  "pairs_text trailing [] = []"
| "pairs_text trailing [p] = pair_text p @ (if trailing then '';'' else [])"
| "pairs_text trailing (p # q # ps) = pair_text p @ '';'' @ pairs_text trailing (q # ps)"

lemma pairs_text_Cons:
  "pairs_text trailing (p # ps) = pair_text p @ (if ps = [] \<and> \<not> trailing then [] else '';'' @ pairs_text trailing ps)"
  by (cases ps) auto

lemma dropWhile_hit: "dropWhile P (xs @ ys) = ys" if "list_all P xs" "ys = [] \<or> \<not> P (hd ys)"
  using that by (cases ys) (induction xs, auto)+

lemma takeWhile_hit: "takeWhile P (xs @ ys) = xs" if "list_all P xs" "ys = [] \<or> \<not> P (hd ys)"
  using that by (cases ys) (induction xs, auto)+

lemma read_value_ok:
  assumes "plain_value v \<or> braced_value v \<or> open_value v \<and> rest = []" and "rest = [] \<or> hd rest = CHR '';''"
  shows "read_value (v @ rest) = (v, rest)"
  using assms(1)
proof (elim disjE)
  assume v: "plain_value v"
  then have "list_all (\<lambda>c. c \<noteq> CHR '';'') v" by (auto simp: plain_value_def list_all_iff)
  moreover have "\<not> (v @ rest \<noteq> [] \<and> hd (v @ rest) = CHR ''{'')" using v assms(2) by (cases v) (auto simp: plain_value_def)
  ultimately show ?thesis using assms(2) unfolding read_value_def by (simp only: if_False) (simp add: takeWhile_hit dropWhile_hit)
next
  assume v: "braced_value v"
  then obtain a b where ab: "v = CHR ''{'' # a @ CHR ''}'' # b" "CHR ''}'' \<notin> set a"
    by (cases v) (auto simp: braced_value_def dest: split_list_first)
  have a: "list_all (\<lambda>c. c \<noteq> CHR ''}'') a" using ab(2) by (auto simp: list_all_iff)
  have "dropWhile (\<lambda>c. c \<noteq> CHR ''}'') (a @ CHR ''}'' # b) = CHR ''}'' # b" using a by (subst dropWhile_hit) auto
  with v have b: "list_all (\<lambda>c. c \<noteq> CHR '';'') b" unfolding ab by (auto simp: braced_value_def list_all_iff)
  show ?thesis
    using a b assms(2) by (simp add: read_value_def ab takeWhile_hit dropWhile_hit)
next
  assume v: "open_value v \<and> rest = []"
  then obtain a where a: "v = CHR ''{'' # a" "CHR ''}'' \<notin> set a" by (cases v) (auto simp: open_value_def)
  then have "list_all (\<lambda>c. c \<noteq> CHR ''}'') a" by (auto simp: list_all_iff)
  then have "takeWhile (\<lambda>c. c \<noteq> CHR ''}'') a = a" "dropWhile (\<lambda>c. c \<noteq> CHR ''}'') a = []" by (auto simp: list_all_iff)
  then show ?thesis using a(1) v unfolding read_value_def Let_def by (simp only: append_Nil2 list.sel) simp
qed

lemma read_value_class:
  assumes "read_value s = (v, rest)"
  shows "(plain_value v \<or> braced_value v \<or> open_value v \<and> rest = []) \<and> (rest = [] \<or> hd rest = CHR '';'')"
proof -
  have semi: "t = [] \<or> hd t = CHR '';''" if "t = dropWhile (\<lambda>c. c \<noteq> CHR '';'') u" for t u
    using that hd_dropWhile[of "\<lambda>c. c \<noteq> CHR '';''" u] by auto
  show ?thesis
  proof (cases "s \<noteq> [] \<and> hd s = CHR ''{''")
    case False
    then have v: "v = takeWhile (\<lambda>c. c \<noteq> CHR '';'') s" "rest = dropWhile (\<lambda>c. c \<noteq> CHR '';'') s"
      using assms by (auto simp: read_value_def split: if_splits)
    moreover have "v = [] \<or> hd v \<noteq> CHR ''{''" using False v by (cases s) auto
    ultimately show ?thesis using semi[of rest s] by (auto simp: plain_value_def dest: set_takeWhileD)
  next
    case True
    define inner after where d: "inner = takeWhile (\<lambda>c. c \<noteq> CHR ''}'') (tl s)" "after = dropWhile (\<lambda>c. c \<noteq> CHR ''}'') (tl s)"
    then have v: "v = CHR ''{'' # inner @ take 1 after @ takeWhile (\<lambda>c. c \<noteq> CHR '';'') (drop 1 after)"
      "rest = dropWhile (\<lambda>c. c \<noteq> CHR '';'') (drop 1 after)"
      using assms True by (simp_all add: read_value_def Let_def)
    have inner: "list_all (\<lambda>c. c \<noteq> CHR ''}'') inner" by (auto simp: d list_all_iff dest: set_takeWhileD)
    show ?thesis
    proof (cases after)
      case Nil
      then show ?thesis using v inner by (auto simp: open_value_def list_all_iff)
    next
      case (Cons c b)
      then have c: "c = CHR ''}''" using d(2) hd_dropWhile[of "\<lambda>c. c \<noteq> CHR ''}''" "tl s"] by auto
      have "dropWhile (\<lambda>c. c \<noteq> CHR ''}'') (inner @ c # takeWhile (\<lambda>c. c \<noteq> CHR '';'') b) = c # takeWhile (\<lambda>c. c \<noteq> CHR '';'') b"
        using inner c by (subst dropWhile_hit) auto
      then have "braced_value v" using v Cons c by (auto simp: braced_value_def dest: set_takeWhileD)
      then show ?thesis using semi[OF v(2)] by blast
    qed
  qed
qed

lemma sanitize_Nil [simp]: "sanitize_pairs first [] = []"
  by (simp add: sanitize_pairs.simps)

lemma sanitize_bare:
  assumes "list_all not_key_end k" and "left = [] \<or> hd left = CHR '';''" and "k @ left \<noteq> []"
  shows "sanitize_pairs first (k @ left) = (if first then [] else '';'') @ k @ sanitize_pairs False (tl left)"
proof -
  have "takeWhile not_key_end (k @ left) = k" "dropWhile not_key_end (k @ left) = left"
    using assms by (intro takeWhile_hit dropWhile_hit; auto simp: not_key_end_def)+
  with assms(2,3) show ?thesis by (subst sanitize_pairs.simps) (auto simp: Let_def)
qed

lemma sanitize_value:
  assumes "list_all not_key_end k" and "read_value t = (v, left)"
  shows "sanitize_pairs first (k @ CHR ''='' # t) = (if first then [] else '';'') @ k @ ''='' @
    (if is_secret_key k then ''***'' else v) @ sanitize_pairs False (tl left)"
proof -
  let ?s = "k @ CHR ''='' # t"
  have "takeWhile not_key_end ?s = k" "dropWhile not_key_end ?s = CHR ''='' # t"
    using assms(1) by (intro takeWhile_hit dropWhile_hit; auto simp: not_key_end_def)+
  with assms(2) show ?thesis by (subst sanitize_pairs.simps) (simp add: Let_def)
qed

lemma sanitize_pairs_text:
  assumes "pairs_ok trailing ps"
  shows "sanitize_pairs first (pairs_text trailing ps) =
    (if first \<or> ps = [] then [] else '';'') @ pairs_text False (map redact ps)"
  using assms
proof (induction ps arbitrary: first)
  case (Cons p ps)
  obtain k v where p: "p = (k, v)" by (cases p)
  define left where "left = (if ps = [] \<and> \<not> trailing then [] else '';'' @ pairs_text trailing ps)"
  have s: "pairs_text trailing (p # ps) = pair_text p @ left" unfolding left_def by (rule pairs_text_Cons)
  have left: "left = [] \<or> hd left = CHR '';''" "tl left = pairs_text trailing ps" by (auto simp: left_def)
  have ih: "sanitize_pairs False (tl left) = (if ps = [] then [] else '';'') @ pairs_text False (map redact ps)"
    using Cons.IH[of False] Cons.prems p unfolding left by (auto split: if_splits)
  have out: "pairs_text False (map redact (p # ps)) = pair_text (redact p) @ (if ps = [] then [] else '';'' @ pairs_text False (map redact ps))"
    by (simp only: list.map pairs_text_Cons) (simp add: map_is_Nil_conv)
  show ?case
  proof (cases v)
    case None
    have "k @ left \<noteq> []" using Cons.prems p None by (auto simp: left_def)
    with Cons.prems left(1) show ?thesis
      unfolding out s using ih by (simp add: p None pair_text_def redact_def sanitize_bare)
  next
    case (Some w)
    have "read_value (w @ left) = (w, left)"
      using Cons.prems left(1) unfolding p Some by (intro read_value_ok) (auto simp: left_def)
    with Cons.prems show ?thesis
      unfolding out s using ih by (simp add: p Some pair_text_def redact_def sanitize_value)
  qed
qed simp

text \<open>Every string is the text of its pairs.\<close>

lemma string_has_pairs:
  "\<exists>ps trailing. s = pairs_text trailing ps \<and> pairs_ok trailing ps"
proof (induction "length s" arbitrary: s rule: less_induct)
  case less
  define k rest where d: "k = takeWhile not_key_end s" "rest = dropWhile not_key_end s"
  have k: "list_all not_key_end k" by (auto simp: d list_all_iff dest: set_takeWhileD)
  have s: "s = k @ rest" by (simp add: d)
  have hd: "rest = [] \<or> hd rest = CHR '';'' \<or> hd rest = CHR ''=''"
    using hd_dropWhile[of not_key_end s] by (auto simp: d not_key_end_def)
  show ?case
  proof (cases "s = []")
    case True
    then show ?thesis by (intro exI[of _ "[]"]) simp
  next
    case False
    obtain v left where p: "s = pair_text (k, v) @ left" "left = [] \<or> hd left = CHR '';''"
      "case v of None \<Rightarrow> True | Some v \<Rightarrow> plain_value v \<or> braced_value v \<or> open_value v \<and> left = []" "length (tl left) < length s"
    proof (cases "rest = [] \<or> hd rest = CHR '';''")
      case True
      then show thesis using s False by (intro that[of None rest]) (cases rest; auto simp: pair_text_def)+
    next
      case eq: False
      then obtain t where t: "rest = CHR ''='' # t" using hd by (cases rest) auto
      obtain v left where v: "read_value t = (v, left)" by fastforce
      from read_value_split[of t] read_value_class[OF v] v show thesis
        using s t by (intro that[of "Some v" left]) (auto simp: pair_text_def)
    qed
    from less[OF p(4)] obtain ps trailing where ih: "tl left = pairs_text trailing ps" "pairs_ok trailing ps" by blast
    show ?thesis
    proof (cases "left = []")
      case True
      then show ?thesis using p k False by (intro exI[of _ "[(k, v)]"] exI[of _ False]) (auto simp: pair_text_def split: option.splits)
    next
      case semi: False
      then have "left = '';'' @ tl left" using p(2) by (cases left) auto
      moreover have "pairs_ok (ps = [] \<or> trailing) ps" using ih(2) by (cases ps) auto
      moreover have "pairs_text (ps = [] \<or> trailing) ps = pairs_text trailing ps" by (cases ps) auto
      ultimately show ?thesis using semi ih p(1,3) k
        by (intro exI[of _ "(k, v) # ps"] exI[of _ "ps = [] \<or> trailing"]) (auto simp: pairs_text_Cons split: option.splits)
    qed
  qed
qed

text \<open>
  Redaction hides secrets and nothing else. Every string is the text of some pairs, where a value in braces may hold
  semicolons; sanitizing gives the text of the same pairs with the values of secret keys replaced, every other value as it
  was. So two connection strings that differ only in the values of secret keys are sanitized to the same text.
\<close>

theorem sanitize_redacts:
  assumes "pairs_ok t ps" and "pairs_ok t' ps'" and "map redact ps = map redact ps'"
  shows "sanitize_connection_string (pairs_text t ps) = pairs_text False (map redact ps) \<and>
    sanitize_connection_string (pairs_text t' ps') = sanitize_connection_string (pairs_text t ps) \<and>
    (\<forall>s. \<exists>qs u. s = pairs_text u qs \<and> pairs_ok u qs)"
  using assms string_has_pairs by (simp add: sanitize_connection_string_def sanitize_pairs_text)

lemma secret_key_pwd [simp]: "is_secret_key ''PWD''" "\<not> is_secret_key ''DSN''" "\<not> is_secret_key ''UID''"
proof -
  have "str_trim ''PWD'' = ''PWD''" "str_trim ''DSN'' = ''DSN''" "str_trim ''UID'' = ''UID''"
    by (simp_all add: str_trim_ws ascii_def is_ws_def is_whitespace_def)
  moreover have "to_ascii_lowercase ''PWD'' = ''pwd''" "to_ascii_lowercase ''DSN'' = ''dsn''" "to_ascii_lowercase ''UID'' = ''uid''"
    by code_simp+
  ultimately show "is_secret_key ''PWD''" "\<not> is_secret_key ''DSN''" "\<not> is_secret_key ''UID''"
    by (simp_all add: is_secret_key_def SECRET_KEYS_def)
qed

theorem sanitize_redacts_witness:
  "sanitize_connection_string ''DSN=d;PWD={a;b};UID=u;'' = ''DSN=d;PWD=***;UID=u'' \<and>
   sanitize_connection_string ''DSN=d;PWD=x;UID=u'' = ''DSN=d;PWD=***;UID=u''"
proof -
  let ?ps = "\<lambda>w. [(''DSN'', Some ''d''), (''PWD'', Some w), (''UID'', Some ''u'')]"
  have "pairs_ok True (?ps ''{a;b}'')" "pairs_ok False (?ps ''x'')"
    by (simp_all add: plain_value_def braced_value_def not_key_end_def)
  moreover have "map redact (?ps ''{a;b}'') = map redact (?ps ''x'')" by (simp add: redact_def)
  ultimately show ?thesis using sanitize_redacts[of True "?ps ''{a;b}''" False "?ps ''x''"]
    by (simp add: pair_text_def redact_def)
qed

text \<open>
  A closing brace that is doubled, as ODBC escapes it, ends the value: what follows the next semicolon is read as a
  key, and that part of the password is written out.
\<close>

lemma escaped_brace_leaks:
  assumes "CHR ''}'' \<notin> set a" and "list_all not_key_end b"
  shows "sanitize_connection_string (''PWD={'' @ a @ ''}};'' @ b @ ''}'') = ''PWD=***;'' @ b @ ''}''"
proof -
  let ?ps = "[(''PWD'', Some (''{'' @ a @ ''}}'')), (b @ ''}'', None)]"
  have "dropWhile (\<lambda>c. c \<noteq> CHR ''}'') (a @ ''}}'') = ''}}''" using assms(1) by (intro dropWhile_hit) (auto simp: list_all_iff)
  then have "braced_value (''{'' @ a @ ''}}'')" by (simp add: braced_value_def)
  then have "pairs_ok False ?ps" using assms(2) by (simp add: not_key_end_def)
  from sanitize_pairs_text[OF this, of True] show ?thesis
    by (simp add: sanitize_connection_string_def pair_text_def redact_def)
qed

section \<open>The audit log\<close>

text \<open>Times are milliseconds since the epoch, negative before it.\<close>

record audit_event =
  ae_timestamp :: int
  ae_event_type :: string
  ae_user :: "string option"
  ae_connection_id :: "u32 option"
  ae_query :: "string option"
  ae_metadata :: "(string \<times> string) list"

record audit_logger =
  al_poisoned :: bool
  al_events :: "audit_event list"
  al_enabled :: bool

definition logger_new :: "bool \<Rightarrow> audit_logger" where
  "logger_new enabled = \<lparr>al_poisoned = False, al_events = [], al_enabled = enabled\<rparr>"

definition MAX_EVENTS :: nat where "MAX_EVENTS = 10000"

definition push_event :: "audit_event \<Rightarrow> audit_logger \<Rightarrow> audit_logger" where
  "push_event event l =
     (if al_poisoned l then l
      else
        let events = al_events l @ [event] in
        l\<lparr>al_events := if length events > MAX_EVENTS then tl events else events\<rparr>)"

definition connection_event :: "int \<Rightarrow> u32 \<Rightarrow> string \<Rightarrow> audit_event" where
  "connection_event now connection_id connection_string =
     \<lparr>ae_timestamp = now, ae_event_type = ''connection'', ae_user = None, ae_connection_id = Some connection_id, ae_query = None,
      ae_metadata = [(''connection_string'', sanitize_connection_string connection_string)]\<rparr>"

definition log_connection :: "int \<Rightarrow> u32 \<Rightarrow> string \<Rightarrow> audit_logger \<Rightarrow> audit_logger" where
  "log_connection now connection_id connection_string l =
     (if \<not> al_enabled l then l else push_event (connection_event now connection_id connection_string) l)"

definition query_event :: "int \<Rightarrow> u32 \<Rightarrow> string \<Rightarrow> audit_event" where
  "query_event now connection_id query =
     \<lparr>ae_timestamp = now, ae_event_type = ''query'', ae_user = None, ae_connection_id = Some connection_id, ae_query = Some query,
      ae_metadata = []\<rparr>"

definition log_query :: "int \<Rightarrow> u32 \<Rightarrow> string \<Rightarrow> audit_logger \<Rightarrow> audit_logger" where
  "log_query now connection_id query l = (if \<not> al_enabled l then l else push_event (query_event now connection_id query) l)"

definition error_event :: "int \<Rightarrow> u32 option \<Rightarrow> string \<Rightarrow> audit_event" where
  "error_event now connection_id error =
     \<lparr>ae_timestamp = now, ae_event_type = ''error'', ae_user = None, ae_connection_id = connection_id, ae_query = None,
      ae_metadata = [(''error'', error)]\<rparr>"

definition log_error :: "int \<Rightarrow> u32 option \<Rightarrow> string \<Rightarrow> audit_logger \<Rightarrow> audit_logger" where
  "log_error now connection_id error l = (if \<not> al_enabled l then l else push_event (error_event now connection_id error) l)"

definition get_events :: "usize \<Rightarrow> audit_logger \<Rightarrow> audit_event list" where
  "get_events limit l = (if al_poisoned l then [] else take limit (rev (al_events l)))"

definition clear_events :: "audit_logger \<Rightarrow> audit_logger" where
  "clear_events l = (if al_poisoned l then l else l\<lparr>al_events := []\<rparr>)"

definition set_enabled :: "bool \<Rightarrow> audit_logger \<Rightarrow> audit_logger" where
  "set_enabled enabled l = l\<lparr>al_enabled := enabled\<rparr>"

definition event_count :: "audit_logger \<Rightarrow> usize" where
  "event_count l = (if al_poisoned l then 0 else length (al_events l))"

text \<open>The entry points. \<open>to_vec\<close> stands for \<open>serde_json::to_vec\<close> of the values the code builds.\<close>

type_synonym audit_value = "u64 \<times> string \<times> u32 option \<times> string option \<times> (string \<times> string) list"

definition audit_value_of :: "audit_event \<Rightarrow> audit_value" where
  "audit_value_of e =
     (if ae_timestamp e < 0 then 0 else of_int (ae_timestamp e), ae_event_type e, ae_connection_id e, ae_query e, ae_metadata e)"

definition serialize_audit_events :: "(audit_value list \<Rightarrow> string + bytes) \<Rightarrow> audit_event list \<Rightarrow> bytes result" where
  "serialize_audit_events to_vec events =
     (case to_vec (map audit_value_of events) of
        Inl e \<Rightarrow> Err (InternalError (''Failed to serialize audit events: '' @ e))
      | Inr data \<Rightarrow> Ok data)"

definition serialize_audit_status :: "audit_logger \<Rightarrow> bytes" where
  "serialize_audit_status l =
     as_bytes (CHR ''{'' # [char_of (34 :: nat)] @ ''enabled'' @ [char_of (34 :: nat)] @ '':'' @ (if al_enabled l then ''true'' else ''false'') @ '','' @
       [char_of (34 :: nat)] @ ''event_count'' @ [char_of (34 :: nat)] @ '':'' @ show_nat (event_count l) @ ''}'')"

definition odbc_audit_enable :: "int \<Rightarrow> global_state \<Rightarrow> audit_logger \<Rightarrow> int \<times> audit_logger" where
  "odbc_audit_enable enabled s l = (if gs_poisoned s then (- 1, l) else (0, set_enabled (enabled \<noteq> 0) l))"

definition write_sized :: "u32 \<Rightarrow> bytes \<Rightarrow> int \<times> bytes option" where
  "write_sized buffer_len data = (if length data > unat buffer_len then (- 2, Some []) else (0, Some data))"

definition odbc_audit_get_events ::
  "(audit_value list \<Rightarrow> string + bytes) \<Rightarrow> bool \<Rightarrow> u32 \<Rightarrow> u32 \<Rightarrow> global_state \<Rightarrow> audit_logger \<Rightarrow> int \<times> bytes option"
where
  "odbc_audit_get_events to_vec null buffer_len limit s l =
     (if null then (- 1, None)
      else if buffer_len = 0 \<or> gs_poisoned s then (- 1, Some [])
      else
        case serialize_audit_events to_vec (get_events (if limit = 0 then usize_max else unat limit) l) of
          Ok data \<Rightarrow> write_sized buffer_len data
        | _ \<Rightarrow> (- 1, Some []))"

definition odbc_audit_clear :: "global_state \<Rightarrow> audit_logger \<Rightarrow> int \<times> audit_logger" where
  "odbc_audit_clear s l = (if gs_poisoned s then (- 1, l) else (0, clear_events l))"

definition odbc_audit_get_status :: "bool \<Rightarrow> u32 \<Rightarrow> global_state \<Rightarrow> audit_logger \<Rightarrow> int \<times> bytes option" where
  "odbc_audit_get_status null buffer_len s l =
     (if null then (- 1, None)
      else if buffer_len = 0 \<or> gs_poisoned s then (- 1, Some [])
      else write_sized buffer_len (serialize_audit_status l))"

section \<open>What the log keeps\<close>

datatype audit_op =
    Op_Connection int u32 string | Op_Query int u32 string | Op_Error int "u32 option" string | Op_Clear | Op_Enable bool

fun audit_step :: "audit_op \<Rightarrow> audit_logger \<Rightarrow> audit_logger" where
  "audit_step (Op_Connection now c cs) l = log_connection now c cs l"
| "audit_step (Op_Query now c q) l = log_query now c q l"
| "audit_step (Op_Error now c e) l = log_error now c e l"
| "audit_step Op_Clear l = clear_events l"
| "audit_step (Op_Enable b) l = set_enabled b l"

definition audit_run :: "audit_op list \<Rightarrow> audit_logger \<Rightarrow> audit_logger" where
  "audit_run ops l = fold audit_step ops l"

text \<open>The specification: everything that happened while the log was enabled, since it was last cleared.\<close>

fun history_step :: "audit_op \<Rightarrow> bool \<times> audit_event list \<Rightarrow> bool \<times> audit_event list" where
  "history_step (Op_Connection now c cs) (enabled, h) = (enabled, if enabled then h @ [connection_event now c cs] else h)"
| "history_step (Op_Query now c q) (enabled, h) = (enabled, if enabled then h @ [query_event now c q] else h)"
| "history_step (Op_Error now c e) (enabled, h) = (enabled, if enabled then h @ [error_event now c e] else h)"
| "history_step Op_Clear (enabled, h) = (enabled, [])"
| "history_step (Op_Enable b) (enabled, h) = (b, h)"

definition audit_history :: "audit_op list \<Rightarrow> bool \<Rightarrow> audit_event list" where
  "audit_history ops enabled = snd (fold history_step ops (enabled, []))"

definition latest :: "'a list \<Rightarrow> 'a list" where
  "latest h = drop (length h - MAX_EVENTS) h"

fun audit_rel :: "audit_logger \<Rightarrow> bool \<times> audit_event list \<Rightarrow> bool" where
  "audit_rel l (enabled, h) \<longleftrightarrow> \<not> al_poisoned l \<and> al_enabled l = enabled \<and> al_events l = latest h"

lemma latest_snoc:
  "(if length (latest h @ [e]) > MAX_EVENTS then tl (latest h @ [e]) else latest h @ [e]) = latest (h @ [e])"
proof (cases "length h < MAX_EVENTS")
  case False
  then have "tl (latest h @ [e]) = drop (Suc (length h - MAX_EVENTS)) h @ [e]"
    by (simp add: latest_def MAX_EVENTS_def drop_Suc flip: tl_drop)
  moreover have "Suc (length h - MAX_EVENTS) = Suc (length h) - MAX_EVENTS" "Suc 0 - MAX_EVENTS = 0"
    using False by (simp_all add: Suc_diff_le MAX_EVENTS_def)
  ultimately show ?thesis using False by (simp add: latest_def)
qed (simp add: latest_def)

lemma push_event_rel: "audit_rel l (enabled, h) \<Longrightarrow> audit_rel (push_event e l) (enabled, h @ [e])"
  using latest_snoc[of h e] by (simp only: audit_rel.simps push_event_def Let_def if_False) simp

lemma audit_step_rel: "audit_rel l s \<Longrightarrow> audit_rel (audit_step op l) (history_step op s)"
proof (cases s)
  case (Pair enabled h)
  assume rel: "audit_rel l s"
  then have "al_enabled l = enabled" "\<not> al_poisoned l" by (simp_all add: Pair)
  with rel push_event_rel[of l enabled h] show ?thesis unfolding Pair
    by (cases op)
      (simp_all add: log_connection_def log_query_def log_error_def clear_events_def set_enabled_def latest_def[of "[]"]
        del: audit_rel.simps, simp_all add: latest_def)
qed

lemma audit_run_rel: "audit_rel l s \<Longrightarrow> audit_rel (fold audit_step ops l) (fold history_step ops s)"
  by (induction ops arbitrary: l s) (simp_all add: audit_step_rel)

text \<open>Two runs that differ only in secrets of connection strings.\<close>

fun same_but_secrets :: "audit_op \<Rightarrow> audit_op \<Rightarrow> bool" where
  "same_but_secrets (Op_Connection now c cs) op \<longleftrightarrow>
     (\<exists>cs' t ps t' ps'. op = Op_Connection now c cs' \<and> cs = pairs_text t ps \<and> cs' = pairs_text t' ps' \<and> pairs_ok t ps \<and> pairs_ok t' ps' \<and>
        map redact ps = map redact ps')"
| "same_but_secrets op op' \<longleftrightarrow> op = op'"

lemma audit_step_same: "same_but_secrets op op' \<Longrightarrow> audit_step op l = audit_step op' l"
  by (cases op) (auto simp: log_connection_def connection_event_def sanitize_connection_string_def sanitize_pairs_text)

lemma audit_run_same:
  assumes "list_all2 same_but_secrets ops ops'"
  shows "audit_run ops l = audit_run ops' l"
  using assms unfolding audit_run_def
  by (induction ops ops' arbitrary: l rule: list_all2_induct) (simp_all add: audit_step_same[symmetric])

text \<open>
  The audit log refines the history of events: whatever is logged, cleared, enabled and disabled, in any order, the log
  holds the last ten thousand events that happened while it was enabled since it was cleared, and a reader gets the most
  recent ones, newest first, as many as asked for. The secrets of connection strings leave no trace in it: two runs that
  differ only in such secrets leave the same log.
\<close>

theorem audit_log_refines:
  assumes "list_all2 same_but_secrets ops ops'"
  shows "event_count (audit_run ops (logger_new enabled)) = min (length (audit_history ops enabled)) MAX_EVENTS \<and>
    get_events limit (audit_run ops (logger_new enabled)) = take (min limit MAX_EVENTS) (rev (audit_history ops enabled)) \<and>
    audit_run ops (logger_new enabled) = audit_run ops' (logger_new enabled)"
proof -
  let ?h = "audit_history ops enabled"
  have "audit_rel (logger_new enabled) (enabled, [])" by (simp add: logger_new_def latest_def)
  from audit_run_rel[OF this, of ops] have "\<not> al_poisoned (audit_run ops (logger_new enabled)) \<and>
      al_events (audit_run ops (logger_new enabled)) = latest ?h"
    unfolding audit_run_def audit_history_def by (metis audit_rel.simps prod.collapse)
  moreover have "rev (latest ?h) = take MAX_EVENTS (rev ?h)" by (simp add: latest_def take_rev)
  moreover have "length (latest ?h) = min (length ?h) MAX_EVENTS" by (simp add: latest_def)
  ultimately show ?thesis using audit_run_same[OF assms] by (simp add: event_count_def get_events_def min.commute)
qed

theorem audit_log_refines_witness:
  "get_events 1 (audit_run [Op_Query 1 7 ''SELECT 1'', Op_Connection 2 7 ''PWD=x''] (logger_new True)) =
     [connection_event 2 7 ''PWD=y''] \<and>
   ae_metadata (connection_event 2 7 ''PWD=y'') = [(''connection_string'', ''PWD=***'')]"
proof -
  let ?ps = "\<lambda>w. [(''PWD'', Some w)]"
  have ps: "''PWD=x'' = pairs_text False (?ps ''x'')" "''PWD=y'' = pairs_text False (?ps ''y'')"
    "pairs_ok False (?ps ''x'')" "pairs_ok False (?ps ''y'')" "map redact (?ps ''x'') = map redact (?ps ''y'')"
    by (simp_all add: pair_text_def redact_def plain_value_def not_key_end_def)
  have "same_but_secrets (Op_Connection 2 7 ''PWD=y'') (Op_Connection 2 7 ''PWD=x'')"
    unfolding same_but_secrets.simps using ps(1-4) ps(5)[symmetric] by blast
  then have "list_all2 same_but_secrets [Op_Query 1 7 ''SELECT 1'', Op_Connection 2 7 ''PWD=y'']
      [Op_Query 1 7 ''SELECT 1'', Op_Connection 2 7 ''PWD=x'']"
    by (simp del: same_but_secrets.simps(1))
  note audit_log_refines[OF this, of True 1]
  moreover have "sanitize_connection_string ''PWD=y'' = ''PWD=***''"
    using sanitize_pairs_text[OF ps(4), of True] unfolding ps(2)[symmetric] sanitize_connection_string_def
    by (simp add: redact_def pair_text_def)
  ultimately show ?thesis
    by (simp add: connection_event_def audit_history_def MAX_EVENTS_def) metis
qed

section \<open>The store of secrets\<close>

record secret_manager =
  sm_poisoned :: bool
  sm_secrets :: "(string, bytes) table"

definition secret_manager_new :: secret_manager where
  "secret_manager_new = \<lparr>sm_poisoned = False, sm_secrets = []\<rparr>"

definition secrets_locked :: "(secret_manager \<Rightarrow> 'a result \<times> secret_manager) \<Rightarrow> secret_manager \<Rightarrow> 'a result \<times> secret_manager" where
  "secrets_locked f m = (if sm_poisoned m then (Err (InternalError ''Lock poisoned''), m) else f m)"

definition secret_store :: "string \<Rightarrow> bytes \<Rightarrow> secret_manager \<Rightarrow> unit result \<times> secret_manager" where
  "secret_store key v = secrets_locked (\<lambda>m. (Ok (), m\<lparr>sm_secrets := AList.update key v (sm_secrets m)\<rparr>))"

definition secret_find :: "string \<Rightarrow> secret_manager \<Rightarrow> bytes result" where
  "secret_find key m = ok_or (map_of (sm_secrets m) key) (InternalError (''Secret not found: '' @ key))"

definition secret_retrieve :: "string \<Rightarrow> secret_manager \<Rightarrow> bytes result \<times> secret_manager" where
  "secret_retrieve key = secrets_locked (\<lambda>m. (secret_find key m, m))"

text \<open>The closure runs under the lock: when it panics (\<open>None\<close>) the lock is poisoned.\<close>

definition with_secret :: "string \<Rightarrow> (bytes \<Rightarrow> 'a option) \<Rightarrow> secret_manager \<Rightarrow> 'a result \<times> secret_manager" where
  "with_secret key f = secrets_locked (\<lambda>m.
     case secret_find key m of
       Ok v \<Rightarrow> (case f v of None \<Rightarrow> (Panic, m\<lparr>sm_poisoned := True\<rparr>) | Some r \<Rightarrow> (Ok r, m))
     | Err e \<Rightarrow> (Err e, m)
     | Panic \<Rightarrow> (Panic, m))"

definition secret_remove :: "string \<Rightarrow> secret_manager \<Rightarrow> unit result \<times> secret_manager" where
  "secret_remove key = secrets_locked (\<lambda>m. (Ok (), m\<lparr>sm_secrets := AList.delete key (sm_secrets m)\<rparr>))"

definition secrets_clear :: "secret_manager \<Rightarrow> secret_manager" where
  "secrets_clear m = (if sm_poisoned m then m else m\<lparr>sm_secrets := []\<rparr>)"

text \<open>A secret can be retrieved exactly between storing it and removing it, and reading it by either method gives the same.\<close>

lemma secret_manager_laws:
  assumes "\<not> sm_poisoned m"
  shows "fst (secret_retrieve k (snd (secret_store k' v m))) = (if k = k' then Ok v else fst (secret_retrieve k m))"
    and "fst (secret_retrieve k (snd (secret_remove k' m))) =
      (if k = k' then Err (InternalError (''Secret not found: '' @ k)) else fst (secret_retrieve k m))"
    and "fst (secret_retrieve k (secrets_clear m)) = Err (InternalError (''Secret not found: '' @ k))"
    and "fst (with_secret k f m) = obind (fst (secret_retrieve k m)) (\<lambda>v. case f v of Some r \<Rightarrow> Ok r | None \<Rightarrow> Panic)"
  using assms
  by (auto simp: secrets_locked_def secret_store_def secret_retrieve_def secret_remove_def secrets_clear_def with_secret_def secret_find_def
      update_conv' delete_conv' split: option.splits outcome.splits)

end
