(* ===== verification/Observability.thy ===== *)
theory Observability
  imports Security "HOL-Library.Multiset"
begin

text \<open>
  \<open>observability/metrics.rs\<close> with the entry point \<open>odbc_get_metrics\<close>, \<open>observability/tracing.rs\<close> and
  \<open>observability/logging.rs\<close>: latency statistics, spans that end with their guard, and SQL without its literals.
  Durations and instants are nanoseconds. The division of two \<open>f64\<close> in \<open>throughput\<close> is left out; \<open>percentile\<close> is
  modelled at integral percentages, where the product is exact and the quotient is rounded by less than its distance to
  the next integer.
\<close>

section \<open>Latency statistics\<close>

type_synonym duration = nat

definition DURATION_MAX :: duration where "DURATION_MAX = (2 ^ 64 - 1) * 1000000000 + 999999999"

definition MAX_LATENCY_SAMPLES :: nat where "MAX_LATENCY_SAMPLES = 1000"

text \<open>\<open>slice::binary_search\<close> of the standard library: \<open>n\<close> is the size of the part that is left.\<close>

function search_base :: "nat list \<Rightarrow> nat \<Rightarrow> nat \<Rightarrow> nat \<Rightarrow> nat" where
  "search_base xs x base n =
     (if n > 1 then search_base xs x (if xs ! (base + n div 2) > x then base else base + n div 2) (n - n div 2) else base)"
  by auto
termination by (relation "measure (\<lambda>(xs, x, base, n). n)") auto

declare search_base.simps [simp del]

definition binary_search :: "nat list \<Rightarrow> nat \<Rightarrow> (nat, nat) outcome" where
  "binary_search xs x =
     (if xs = [] then Err 0
      else
        let base = search_base xs x 0 (length xs) in
        if xs ! base = x then Ok base else Err (if xs ! base < x then base + 1 else base))"

record query_metrics =
  qm_query_count :: u64
  qm_total_latency :: duration
  qm_min_latency :: duration
  qm_max_latency :: duration
  qm_latency_samples :: "duration list"
  qm_sorted_latency_samples :: "duration list"

definition query_metrics_new :: query_metrics where
  "query_metrics_new =
     \<lparr>qm_query_count = 0, qm_total_latency = 0, qm_min_latency = DURATION_MAX, qm_max_latency = 0,
      qm_latency_samples = [], qm_sorted_latency_samples = []\<rparr>"

definition insert_latency_sample :: "duration \<Rightarrow> query_metrics \<Rightarrow> query_metrics" where
  "insert_latency_sample latency q =
     (let xs = qm_sorted_latency_samples q;
          index = (case binary_search xs latency of Ok i \<Rightarrow> i | Err i \<Rightarrow> i | Panic \<Rightarrow> 0) in
      q\<lparr>qm_latency_samples := qm_latency_samples q @ [latency],
        qm_sorted_latency_samples := take index xs @ latency # drop index xs\<rparr>)"

definition remove_sorted_latency_sample :: "duration \<Rightarrow> query_metrics \<Rightarrow> query_metrics" where
  "remove_sorted_latency_sample latency q =
     (let xs = qm_sorted_latency_samples q in
      case binary_search xs latency of
        Ok index \<Rightarrow> q\<lparr>qm_sorted_latency_samples := take index xs @ drop (index + 1) xs\<rparr>
      | _ \<Rightarrow> q)"

text \<open>The sum of two durations panics beyond the largest one, after the counter was advanced.\<close>

definition record_query :: "duration \<Rightarrow> query_metrics \<Rightarrow> unit result \<times> query_metrics" where
  "record_query latency q =
     (let q = q\<lparr>qm_query_count := qm_query_count q + 1\<rparr> in
      if qm_total_latency q + latency > DURATION_MAX then (Panic, q)
      else
        let q = q\<lparr>qm_total_latency := qm_total_latency q + latency\<rparr>;
            q = (if latency < qm_min_latency q then q\<lparr>qm_min_latency := latency\<rparr> else q);
            q = (if latency > qm_max_latency q then q\<lparr>qm_max_latency := latency\<rparr> else q);
            q = insert_latency_sample latency q in
        (Ok (),
         if length (qm_latency_samples q) > MAX_LATENCY_SAMPLES then
           remove_sorted_latency_sample (hd (qm_latency_samples q)) (q\<lparr>qm_latency_samples := tl (qm_latency_samples q)\<rparr>)
         else q))"

text \<open>The counter is narrowed to 32 bits before the division, which panics on zero.\<close>

definition average_latency :: "query_metrics \<Rightarrow> duration result" where
  "average_latency q =
     (if qm_query_count q = 0 then Ok 0
      else
        let n = (ucast (qm_query_count q) :: u32) in
        if n = 0 then Panic else Ok (qm_total_latency q div unat n))"

definition percentile :: "nat \<Rightarrow> query_metrics \<Rightarrow> duration result" where
  "percentile p q =
     (let xs = qm_sorted_latency_samples q in
      if xs = [] then Ok 0 else idx xs ((length xs - 1) * p div 100))"

definition p50 :: "query_metrics \<Rightarrow> duration result" where "p50 q = percentile 50 q"
definition p95 :: "query_metrics \<Rightarrow> duration result" where "p95 q = percentile 95 q"
definition p99 :: "query_metrics \<Rightarrow> duration result" where "p99 q = percentile 99 q"

section \<open>The binary search\<close>

lemma search_base_spec:
  assumes "sorted xs" and "0 < n" and "base + n \<le> length xs"
    and "base = 0 \<or> xs ! base \<le> x" and "\<forall>i. base + n \<le> i \<longrightarrow> i < length xs \<longrightarrow> x < xs ! i"
  shows "search_base xs x base n < length xs \<and> (search_base xs x base n = 0 \<or> xs ! search_base xs x base n \<le> x) \<and>
    (\<forall>i. search_base xs x base n < i \<longrightarrow> i < length xs \<longrightarrow> x < xs ! i)"
  using assms
proof (induction xs x base n rule: search_base.induct)
  case (1 xs x base n)
  show ?case
  proof (cases "n > 1")
    case False
    then have "search_base xs x base n = base" by (subst search_base.simps) simp
    with False 1 show ?thesis by auto
  next
    case True
    let ?mid = "base + n div 2"
    have half: "n div 2 \<le> n - n div 2" "0 < n - n div 2" using True by auto
    have mid: "?mid < length xs" "base + (n - n div 2) \<le> length xs" "?mid + (n - n div 2) = base + n"
      using True 1(4) by auto
    have step: "search_base xs x base n = search_base xs x (if xs ! ?mid > x then base else ?mid) (n - n div 2)"
      using True by (subst search_base.simps) simp
    show ?thesis
    proof (cases "xs ! ?mid > x")
      case gt: True
      have up: "x < xs ! i" if "base + (n - n div 2) \<le> i" "i < length xs" for i
        using gt sorted_nth_mono[OF 1(2), of ?mid i] that half by auto
      show ?thesis unfolding step if_P[OF gt] using 1(1)[OF True 1(2)] gt mid half up 1(5) by simp
    next
      case le: False
      show ?thesis unfolding step if_not_P[OF le] using 1(1)[OF True 1(2)] le mid half 1(4,6) by simp
    qed
  qed
qed

text \<open>A hit is an occurrence; otherwise the index splits the list into what is smaller and what is larger.\<close>

lemma binary_search_spec:
  assumes "sorted xs"
  shows "case binary_search xs x of
      Ok i \<Rightarrow> i < length xs \<and> xs ! i = x
    | Err i \<Rightarrow> i \<le> length xs \<and> x \<notin> set xs \<and> (\<forall>y \<in> set (take i xs). y < x) \<and> (\<forall>y \<in> set (drop i xs). x < y)
    | Panic \<Rightarrow> False"
proof (cases "xs = []")
  case False
  define b where "b = search_base xs x 0 (length xs)"
  have b: "b < length xs" "b = 0 \<or> xs ! b \<le> x" "\<And>i. b < i \<Longrightarrow> i < length xs \<Longrightarrow> x < xs ! i"
    using search_base_spec[OF assms, of "length xs" 0 x] False by (simp_all add: b_def)
  have bs: "binary_search xs x = (if xs ! b = x then Ok b else Err (if xs ! b < x then b + 1 else b))"
    using False by (simp add: binary_search_def Let_def b_def)
  show ?thesis
  proof (cases "xs ! b = x")
    case True
    then show ?thesis using b(1) by (simp add: bs)
  next
    case ne: False
    define i where "i = (if xs ! b < x then b + 1 else b)"
    have lt: "xs ! j < x" if "j < i" for j
    proof (cases "xs ! b < x")
      case True
      then have "j \<le> b" using that by (simp add: i_def)
      from sorted_nth_mono[OF assms this b(1)] True show ?thesis by simp
    next
      case False
      with ne b(2) have "b = 0" by auto
      with that False show ?thesis by (simp add: i_def)
    qed
    have gt: "x < xs ! j" if "i \<le> j" "j < length xs" for j
    proof (cases "j = b")
      case True
      with that ne show ?thesis by (simp add: i_def split: if_splits)
    next
      case False
      with that b(3) show ?thesis by (simp add: i_def split: if_splits)
    qed
    have i: "i \<le> length xs" using b(1) by (simp add: i_def)
    have "\<forall>y \<in> set (take i xs). y < x" using lt i by (fastforce simp: in_set_conv_nth)
    moreover have "\<forall>y \<in> set (drop i xs). x < y" using gt i by (fastforce simp: in_set_conv_nth)
    moreover have "x \<notin> set xs"
    proof
      assume "x \<in> set xs"
      then obtain j where "j < length xs" "xs ! j = x" unfolding in_set_conv_nth by blast
      with lt[of j] gt[of j] show False by (cases "j < i") auto
    qed
    ultimately show ?thesis unfolding bs i_def[symmetric] using ne i by simp
  qed
qed (simp add: binary_search_def)

section \<open>Exact statistics\<close>

lemma insert_sample_sorted:
  assumes "sorted (qm_sorted_latency_samples q)"
  shows "qm_sorted_latency_samples (insert_latency_sample x q) = insort x (qm_sorted_latency_samples q)"
proof -
  define xs where "xs = qm_sorted_latency_samples q"
  define i where "i = (case binary_search xs x of Ok i \<Rightarrow> i | Err i \<Rightarrow> i | Panic \<Rightarrow> 0)"
  have "(\<forall>y \<in> set (take i xs). y \<le> x) \<and> (\<forall>y \<in> set (drop i xs). x \<le> y)"
  proof (cases "binary_search xs x")
    case (Ok j)
    then have j: "j < length xs" "xs ! j = x" using binary_search_spec[of xs x] assms by (simp_all add: xs_def)
    then show ?thesis
      using Ok sorted_nth_mono[OF assms[folded xs_def]] by (auto simp: i_def in_set_conv_nth)
  qed (use binary_search_spec[of xs x] assms in \<open>auto simp: i_def xs_def dest: order.strict_implies_order\<close>)
  then have "sorted (take i xs @ x # drop i xs)"
    using assms sorted_wrt_take[of "(\<le>)" xs i] sorted_wrt_drop[of "(\<le>)" xs i] by (auto simp: sorted_append xs_def dest: order_trans)
  moreover have "mset (take i xs) + mset (drop i xs) = mset xs" by (metis append_take_drop_id mset_append)
  then have "mset (take i xs @ x # drop i xs) = mset (insort x xs)" by simp
  ultimately have "take i xs @ x # drop i xs = insort x xs"
    using assms by (metis properties_for_sort sorted_insort xs_def)
  then show ?thesis by (simp add: insert_latency_sample_def xs_def i_def Let_def)
qed

lemma remove_sample_sorted:
  assumes "sorted (qm_sorted_latency_samples q)" and "x \<in> set (qm_sorted_latency_samples q)"
  shows "qm_sorted_latency_samples (remove_sorted_latency_sample x q) = remove1 x (qm_sorted_latency_samples q)"
proof -
  define xs where "xs = qm_sorted_latency_samples q"
  obtain i where i: "binary_search xs x = Ok i" "i < length xs" "xs ! i = x"
    using binary_search_spec[of xs x] assms by (cases "binary_search xs x") (auto simp: xs_def)
  have "xs = take i xs @ x # drop (i + 1) xs" using i by (metis Suc_eq_plus1 id_take_nth_drop)
  then have "mset (take i xs @ drop (i + 1) xs) = mset (remove1 x xs)"
    by (metis add_mset_remove_trivial mset.simps(2) mset_append mset_remove1 union_mset_add_mset_right)
  moreover have "sorted (take i xs @ drop (i + 1) xs)"
    using assms(1) \<open>xs = take i xs @ x # drop (i + 1) xs\<close> unfolding xs_def[symmetric] by (metis sorted_append list.set_intros(2) sorted_simps(2))
  ultimately have "take i xs @ drop (i + 1) xs = remove1 x xs"
    using assms(1) by (metis properties_for_sort sorted_remove1 xs_def)
  then show ?thesis using i(1) by (simp add: remove_sorted_latency_sample_def xs_def)
qed

text \<open>Recording a list of latencies, one query after the other.\<close>

definition record_all :: "duration list \<Rightarrow> query_metrics \<Rightarrow> query_metrics" where
  "record_all ls q = fold (\<lambda>l q. snd (record_query l q)) ls q"

definition recent :: "duration list \<Rightarrow> duration list" where
  "recent ls = drop (length ls - MAX_LATENCY_SAMPLES) ls"

definition statistics_of :: "duration list \<Rightarrow> query_metrics" where
  "statistics_of ls =
     \<lparr>qm_query_count = of_nat (length ls), qm_total_latency = sum_list ls, qm_min_latency = Min (insert DURATION_MAX (set ls)),
      qm_max_latency = Max (insert 0 (set ls)), qm_latency_samples = recent ls, qm_sorted_latency_samples = sort (recent ls)\<rparr>"

lemma sort_snoc: "sort (xs @ [x]) = insort x (sort (xs :: nat list))"
  by (rule properties_for_sort) (simp_all add: sorted_insort)

lemma sort_tl: "ys \<noteq> [] \<Longrightarrow> remove1 (hd ys) (sort ys) = sort (tl (ys :: nat list))"
  by (cases ys) (simp_all add: remove1_insort_key)

lemma recent_snoc:
  "recent (ls @ [x]) = (if length (recent ls @ [x]) > MAX_LATENCY_SAMPLES then tl (recent ls @ [x]) else recent ls @ [x])"
proof (cases "length ls < MAX_LATENCY_SAMPLES")
  case False
  then have "tl (recent ls @ [x]) = drop (Suc (length ls - MAX_LATENCY_SAMPLES)) ls @ [x]"
    by (simp add: recent_def MAX_LATENCY_SAMPLES_def drop_Suc flip: tl_drop)
  moreover have "Suc (length ls - MAX_LATENCY_SAMPLES) = Suc (length ls) - MAX_LATENCY_SAMPLES" "Suc 0 - MAX_LATENCY_SAMPLES = 0"
    using False by (simp_all add: Suc_diff_le MAX_LATENCY_SAMPLES_def)
  ultimately show ?thesis using False by (simp add: recent_def)
qed (simp add: recent_def)

lemma record_query_eq:
  assumes "qm_total_latency q + x \<le> DURATION_MAX"
  shows "record_query x q = (Ok (),
    let q' = insert_latency_sample x (q\<lparr>qm_query_count := qm_query_count q + 1, qm_total_latency := qm_total_latency q + x,
          qm_min_latency := min x (qm_min_latency q), qm_max_latency := max x (qm_max_latency q)\<rparr>) in
    if length (qm_latency_samples q') > MAX_LATENCY_SAMPLES then
      remove_sorted_latency_sample (hd (qm_latency_samples q')) (q'\<lparr>qm_latency_samples := tl (qm_latency_samples q')\<rparr>)
    else q')"
proof -
  have "(if x < qm_min_latency r then r\<lparr>qm_min_latency := x\<rparr> else r) = r\<lparr>qm_min_latency := min x (qm_min_latency r)\<rparr>"
    "(if x > qm_max_latency r then r\<lparr>qm_max_latency := x\<rparr> else r) = r\<lparr>qm_max_latency := max x (qm_max_latency r)\<rparr>" for r :: query_metrics
    by (simp_all add: min_def max_def)
  then show ?thesis using assms unfolding record_query_def Let_def by simp
qed

lemma record_query_step:
  assumes "sum_list (ls @ [x]) \<le> DURATION_MAX"
  shows "record_query x (statistics_of ls) = (Ok (), statistics_of (ls @ [x]))"
proof -
  let ?ys = "recent ls @ [x]"
  define q where "q = \<lparr>qm_query_count = of_nat (Suc (length ls)), qm_total_latency = sum_list ls + x, qm_min_latency = Min (insert DURATION_MAX (set (ls @ [x]))),
      qm_max_latency = Max (insert 0 (set (ls @ [x]))), qm_latency_samples = recent ls, qm_sorted_latency_samples = sort (recent ls)\<rparr>"
  define q' where "q' = insert_latency_sample x q"
  have q': "q' = q\<lparr>qm_latency_samples := ?ys, qm_sorted_latency_samples := sort ?ys\<rparr>"
    using insert_sample_sorted[of q x] by (simp add: q'_def q_def sort_snoc insert_latency_sample_def Let_def)
  have mm: "Min (insert DURATION_MAX (set (ls @ [x]))) = min x (Min (insert DURATION_MAX (set ls)))"
    "Max (insert 0 (set (ls @ [x]))) = max x (Max (insert 0 (set ls)))"
    using Min_insert[of "insert DURATION_MAX (set ls)" x] Max_insert[of "insert 0 (set ls)" x]
    by (simp_all only: set_append list.set Un_insert_right Un_empty_right insert_commute[of _ x] finite_insert finite_set insert_not_empty simp_thms)
  have step: "record_query x (statistics_of ls) =
     (Ok (), if length ?ys > MAX_LATENCY_SAMPLES then remove_sorted_latency_sample (hd ?ys) (q'\<lparr>qm_latency_samples := tl ?ys\<rparr>) else q')"
  proof -
    have "statistics_of ls\<lparr>qm_query_count := qm_query_count (statistics_of ls) + 1, qm_total_latency := qm_total_latency (statistics_of ls) + x,
          qm_min_latency := min x (qm_min_latency (statistics_of ls)), qm_max_latency := max x (qm_max_latency (statistics_of ls))\<rparr> = q"
      unfolding q_def mm by (simp add: statistics_of_def)
    moreover have "qm_latency_samples q' = ?ys" by (simp add: q')
    ultimately show ?thesis
      using assms by (subst record_query_eq) (simp_all add: statistics_of_def flip: q'_def)
  qed
  show ?thesis
  proof (cases "length ?ys > MAX_LATENCY_SAMPLES")
    case True
    let ?q = "q'\<lparr>qm_latency_samples := tl ?ys\<rparr>"
    have "qm_sorted_latency_samples (remove_sorted_latency_sample (hd ?ys) ?q) = sort (tl ?ys)"
      using remove_sample_sorted[of ?q "hd ?ys"] sort_tl[of ?ys] hd_in_set[of ?ys] by (simp add: q' del: hd_append)
    moreover have "remove_sorted_latency_sample (hd ?ys) ?q =
        ?q\<lparr>qm_sorted_latency_samples := qm_sorted_latency_samples (remove_sorted_latency_sample (hd ?ys) ?q)\<rparr>"
      by (simp add: remove_sorted_latency_sample_def Let_def split: outcome.split)
    ultimately show ?thesis unfolding step using True by (simp add: q' q_def statistics_of_def recent_snoc)
  next
    case False
    then show ?thesis unfolding step by (simp add: q' q_def statistics_of_def recent_snoc)
  qed
qed

lemma record_all_statistics: "sum_list ls \<le> DURATION_MAX \<Longrightarrow> record_all ls query_metrics_new = statistics_of ls"
proof (induction ls rule: rev_induct)
  case Nil
  then show ?case by (simp add: record_all_def query_metrics_new_def statistics_of_def recent_def)
next
  case (snoc x ls)
  then have "record_all ls query_metrics_new = statistics_of ls" by simp
  with record_query_step[OF snoc.prems] show ?case by (simp add: record_all_def)
qed

text \<open>
  The latency statistics are exact: after any queries whose latencies add up to a representable duration, the sorted array,
  maintained by binary search, holds the sorted last thousand latencies; a percentile is the sample of that rank among
  them; total, minimum and maximum are those of all queries, and the average is theirs while there are fewer than
  \<open>2\<^sup>3\<^sup>2\<close> queries.
\<close>

theorem latency_statistics_exact:
  assumes "sum_list ls \<le> DURATION_MAX" and "ls \<noteq> []" and "p \<le> 100"
  shows "let q = record_all ls query_metrics_new in
    qm_sorted_latency_samples q = sort (recent ls) \<and>
    percentile p q = Ok (sort (recent ls) ! ((length (recent ls) - 1) * p div 100)) \<and>
    qm_total_latency q = sum_list ls \<and> qm_min_latency q = Min (set ls) \<and> qm_max_latency q = Max (set ls) \<and>
    (length ls < 2 ^ 32 \<longrightarrow> average_latency q = Ok (sum_list ls div length ls))"
proof -
  have "length ls - MAX_LATENCY_SAMPLES < length ls" using assms(2) by (intro diff_less) (simp_all add: MAX_LATENCY_SAMPLES_def)
  then have r: "recent ls \<noteq> []" by (simp add: recent_def)
  then have r': "sort (recent ls) \<noteq> []" by (metis length_0_conv length_sort)
  have le: "x \<le> DURATION_MAX" if "x \<in> set ls" for x using assms(1) member_le_sum_list[OF that] by simp
  have "(length (recent ls) - 1) * p div 100 \<le> length (recent ls) - 1" using assms(3) by (simp add: div_le_mono[of _ "_ * 100" 100, simplified])
  then have i: "(length (recent ls) - 1) * p div 100 < length (recent ls)" using r by (cases "recent ls") auto
  have "Min (insert DURATION_MAX (set ls)) = Min (set ls)"
    using assms(2) le by (simp add: min_absorb2)
  moreover have "Max (insert 0 (set ls)) = Max (set ls)" using assms(2) by simp
  moreover have "average_latency (statistics_of ls) = Ok (sum_list ls div length ls)" if "length ls < 2 ^ 32"
  proof -
    let ?w = "of_nat (length ls) :: u64"
    have w: "unat ?w = length ls" using that by (simp add: unsigned_of_nat take_bit_nat_eq_self)
    then have "unat (ucast ?w :: u32) = length ls" using that by (simp add: unsigned_ucast_eq take_bit_nat_eq_self)
    moreover from this have "(ucast ?w :: u32) \<noteq> 0" using assms(2) by (metis length_0_conv unsigned_0)
    moreover have "?w \<noteq> 0" using w assms(2) by (metis length_0_conv unsigned_0)
    ultimately show ?thesis by (simp add: average_latency_def statistics_of_def)
  qed
  ultimately show ?thesis
    using r' i record_all_statistics[OF assms(1)] by (simp add: Let_def statistics_of_def percentile_def)
qed

theorem latency_statistics_exact_witness:
  "p95 (record_all [30, 10, 20] query_metrics_new) = Ok 20 \<and> p99 (record_all [30, 10, 20] query_metrics_new) = Ok 20 \<and>
   average_latency (record_all [30, 10, 20] query_metrics_new) = Ok 20"
proof -
  have "sum_list [30, 10, 20] \<le> DURATION_MAX" by (simp add: DURATION_MAX_def)
  from latency_statistics_exact[OF this, of 95] latency_statistics_exact[OF this, of 99] show ?thesis
    by (simp add: Let_def p95_def p99_def recent_def MAX_LATENCY_SAMPLES_def)
qed

section \<open>The metrics of the engine\<close>

record pool_metrics =
  pm_pool_id :: u32
  pm_total_connections :: u32
  pm_active_connections :: u32
  pm_idle_connections :: u32
  pm_connection_requests :: u64
  pm_connection_errors :: u64

definition pool_metrics_new :: "u32 \<Rightarrow> pool_metrics" where
  "pool_metrics_new pool_id =
     \<lparr>pm_pool_id = pool_id, pm_total_connections = 0, pm_active_connections = 0, pm_idle_connections = 0,
      pm_connection_requests = 0, pm_connection_errors = 0\<rparr>"

text \<open>A poison flag for each mutex. The reference to the statement cache belongs to \<open>Caches\<close>.\<close>

record metrics =
  mt_query_poisoned :: bool
  mt_query_metrics :: query_metrics
  mt_pools_poisoned :: bool
  mt_pool_metrics :: "(u32, pool_metrics) table"
  mt_errors_poisoned :: bool
  mt_error_count :: u64
  mt_start_time :: nat

definition metrics_new :: "nat \<Rightarrow> metrics" where
  "metrics_new now =
     \<lparr>mt_query_poisoned = False, mt_query_metrics = query_metrics_new, mt_pools_poisoned = False, mt_pool_metrics = [],
      mt_errors_poisoned = False, mt_error_count = 0, mt_start_time = now\<rparr>"

definition metrics_record_query :: "duration \<Rightarrow> metrics \<Rightarrow> unit result \<times> metrics" where
  "metrics_record_query latency m =
     (if mt_query_poisoned m then (Ok (), m)
      else
        case record_query latency (mt_query_metrics m) of
          (Panic, q) \<Rightarrow> (Panic, m\<lparr>mt_query_metrics := q, mt_query_poisoned := True\<rparr>)
        | (r, q) \<Rightarrow> (r, m\<lparr>mt_query_metrics := q\<rparr>))"

definition metrics_record_error :: "metrics \<Rightarrow> metrics" where
  "metrics_record_error m = (if mt_errors_poisoned m then m else m\<lparr>mt_error_count := mt_error_count m + 1\<rparr>)"

definition update_pool_metrics :: "u32 \<Rightarrow> pool_metrics \<Rightarrow> metrics \<Rightarrow> metrics" where
  "update_pool_metrics pool_id pm m =
     (if mt_pools_poisoned m then m else m\<lparr>mt_pool_metrics := AList.update pool_id pm (mt_pool_metrics m)\<rparr>)"

definition get_query_metrics :: "metrics \<Rightarrow> query_metrics" where
  "get_query_metrics m = (if mt_query_poisoned m then query_metrics_new else mt_query_metrics m)"

definition get_pool_metrics :: "u32 \<Rightarrow> metrics \<Rightarrow> pool_metrics option" where
  "get_pool_metrics pool_id m = (if mt_pools_poisoned m then None else map_of (mt_pool_metrics m) pool_id)"

definition get_error_count :: "metrics \<Rightarrow> u64" where
  "get_error_count m = (if mt_errors_poisoned m then 0 else mt_error_count m)"

definition uptime :: "nat \<Rightarrow> metrics \<Rightarrow> duration" where
  "uptime now m = now - mt_start_time m"

text \<open>\<open>as_millis().min(u64::MAX as u128) as u64\<close>\<close>

definition millis_u64 :: "duration \<Rightarrow> u64" where
  "millis_u64 d = of_nat (min (d div 1000000) (2 ^ 64 - 1))"

text \<open>The average is computed while the global lock is held.\<close>

definition odbc_get_metrics :: "bool \<Rightarrow> u32 \<Rightarrow> nat \<Rightarrow> metrics \<Rightarrow> global_state \<Rightarrow> (int \<times> bytes option) \<times> global_state" where
  "odbc_get_metrics null buffer_len now m s =
     (if null then ((- 1, None), s)
      else if buffer_len < 40 then ((- 2, None), s)
      else if gs_poisoned s then ((- 1, None), s)
      else
        let q = get_query_metrics m in
        case average_latency q of
          Ok avg \<Rightarrow>
            ((0, Some (u64_le (qm_query_count q) @ u64_le (get_error_count m) @ u64_le (of_nat (uptime now m div 1000000000)) @
                u64_le (millis_u64 (qm_total_latency q)) @ u64_le (millis_u64 avg))), s)
        | _ \<Rightarrow> (case panicked True s of (rc, s') \<Rightarrow> ((rc, None), s')))"

lemma record_query_count: "qm_query_count (snd (record_query l q)) = qm_query_count q + 1"
  by (auto simp: record_query_def insert_latency_sample_def remove_sorted_latency_sample_def Let_def split: outcome.splits)

lemma record_all_count: "qm_query_count (record_all ls q) = qm_query_count q + of_nat (length ls)"
  by (induction ls arbitrary: q) (simp_all add: record_all_def record_query_count add.assoc)

text \<open>
  Asking for metrics can stop the engine: after \<open>2\<^sup>3\<^sup>2\<close> queries, or any positive multiple below \<open>2\<^sup>6\<^sup>4\<close>, the division by the
  narrowed counter panics while the global lock is held; the call is answered with the code of a panic, the lock stays
  poisoned, and from then on no connection can be closed and no error read.
\<close>

theorem metrics_poison_engine:
  assumes "length ls = k * 2 ^ 32" and "0 < k" and "k < 2 ^ 32" and "mt_query_metrics m = record_all ls query_metrics_new"
    and "\<not> mt_query_poisoned m" and "\<not> gs_poisoned s" and "40 \<le> n"
  shows "case odbc_get_metrics False n now m s of (r, s') \<Rightarrow>
    r = (FFI_PANIC, None) \<and> gs_poisoned s' \<and> (\<forall>c. fst (odbc_disconnect drv c s') = - 1) \<and>
    (\<forall>null len. fst (odbc_get_error null len s') = - 1)"
proof -
  let ?w = "of_nat (length ls) :: u64"
  have "length ls < 2 ^ 64" "length ls mod 2 ^ 32 = 0" "length ls \<noteq> 0" using assms(1-3) by auto
  then have "unat ?w = length ls" "?w \<noteq> 0" "unat (ucast ?w :: u32) = 0"
    by (simp_all add: unsigned_ucast_eq unsigned_of_nat take_bit_eq_mod flip: unat_eq_zero)
  then have "average_latency (record_all ls query_metrics_new) = Panic"
    by (simp add: average_latency_def record_all_count query_metrics_new_def unat_eq_zero)
  then show ?thesis using assms(4-)
    by (auto simp: odbc_get_metrics_def get_query_metrics_def panicked_def odbc_disconnect_def odbc_get_error_def Let_def)
qed

text \<open>The statistics after \<open>2\<^sup>3\<^sup>2\<close> queries that took no time.\<close>

theorem metrics_poison_engine_witness:
  "\<exists>m. mt_query_metrics m = record_all (replicate (2 ^ 32) 0) query_metrics_new \<and>
     fst (odbc_get_metrics False 40 0 m (fresh_state (calm_disk []))) = (FFI_PANIC, None)"
proof -
  let ?m = "(metrics_new 0)\<lparr>mt_query_metrics := record_all (replicate (2 ^ 32) 0) query_metrics_new\<rparr>"
  have "case odbc_get_metrics False 40 0 ?m (fresh_state (calm_disk [])) of (r, s') \<Rightarrow> r = (FFI_PANIC, None) \<and> gs_poisoned s' \<and>
      (\<forall>c. fst (odbc_disconnect (accepting_driver []) c s') = - 1) \<and> (\<forall>null len. fst (odbc_get_error null len s') = - 1)"
    by (rule metrics_poison_engine[of "replicate (2 ^ 32) 0" 1]) (simp_all add: metrics_new_def fresh_state_def)
  then show ?thesis by (intro exI[of _ ?m]) (auto simp: metrics_new_def split: prod.splits)
qed

end
