(* ===== verification/Tracing.thy ===== *)
theory Tracing
  imports Security
begin

text \<open>
  \<open>observability/tracing.rs\<close> and \<open>observability/logging.rs\<close>: spans that end with their guard, and log messages whose
  SQL has lost its literals. Instants are nanoseconds.
\<close>

section \<open>Spans\<close>

record query_span =
  sp_span_id :: u64
  sp_query :: string
  sp_start_time :: nat
  sp_end_time :: "nat option"
  sp_metadata :: "(string, string) table"

definition span_new :: "nat \<Rightarrow> u64 \<Rightarrow> string \<Rightarrow> query_span" where
  "span_new now span_id query =
     \<lparr>sp_span_id = span_id, sp_query = query, sp_start_time = now, sp_end_time = None, sp_metadata = []\<rparr>"

definition span_finish :: "nat \<Rightarrow> query_span \<Rightarrow> query_span" where
  "span_finish now span = span\<lparr>sp_end_time := Some now\<rparr>"

definition span_duration :: "query_span \<Rightarrow> nat option" where
  "span_duration span = map_option (\<lambda>stop. stop - sp_start_time span) (sp_end_time span)"

definition span_add_metadata :: "string \<Rightarrow> string \<Rightarrow> query_span \<Rightarrow> query_span" where
  "span_add_metadata key v span = span\<lparr>sp_metadata := AList.update key v (sp_metadata span)\<rparr>"

text \<open>The lock of the counter is recovered when poisoned, so its flag has no effect and is left out.\<close>

record tracer =
  tr_poisoned :: bool
  tr_spans :: "(u64, query_span) table"
  tr_next_span_id :: u64

definition tracer_new :: tracer where
  "tracer_new = \<lparr>tr_poisoned = False, tr_spans = [], tr_next_span_id = 1\<rparr>"

definition start_span :: "nat \<Rightarrow> string \<Rightarrow> tracer \<Rightarrow> u64 \<times> tracer" where
  "start_span now query t =
     (let span_id = tr_next_span_id t; t = t\<lparr>tr_next_span_id := span_id + 1\<rparr> in
      (span_id, if tr_poisoned t then t else t\<lparr>tr_spans := AList.update span_id (span_new now span_id query) (tr_spans t)\<rparr>))"

definition finish_span :: "nat \<Rightarrow> u64 \<Rightarrow> tracer \<Rightarrow> query_span option \<times> tracer" where
  "finish_span now span_id t =
     (case map_of (tr_spans t) span_id of
        Some span \<Rightarrow> (Some (span_finish now span), t\<lparr>tr_spans := AList.delete span_id (tr_spans t)\<rparr>)
      | None \<Rightarrow> (None, t))"

definition tracer_add_metadata :: "u64 \<Rightarrow> string \<Rightarrow> string \<Rightarrow> tracer \<Rightarrow> tracer" where
  "tracer_add_metadata span_id key v t =
     (if tr_poisoned t then t
      else
        case map_of (tr_spans t) span_id of
          Some span \<Rightarrow> t\<lparr>tr_spans := AList.update span_id (span_add_metadata key v span) (tr_spans t)\<rparr>
        | None \<Rightarrow> t)"

definition active_span_count :: "tracer \<Rightarrow> usize" where
  "active_span_count t = length (tr_spans t)"

record span_guard =
  sg_span_id :: u64
  sg_finished :: bool

definition guard_new :: "nat \<Rightarrow> string \<Rightarrow> tracer \<Rightarrow> span_guard \<times> tracer" where
  "guard_new now query t =
     (case start_span now query t of (span_id, t) \<Rightarrow> (\<lparr>sg_span_id = span_id, sg_finished = False\<rparr>, t))"

definition guard_add_metadata :: "span_guard \<Rightarrow> string \<Rightarrow> string \<Rightarrow> tracer \<Rightarrow> tracer" where
  "guard_add_metadata g key v t = tracer_add_metadata (sg_span_id g) key v t"

definition guard_drop :: "nat \<Rightarrow> span_guard \<Rightarrow> tracer \<Rightarrow> tracer" where
  "guard_drop now g t = (if sg_finished g then t else snd (finish_span now (sg_span_id g) t))"

text \<open>\<open>finish\<close> consumes the guard, which is then dropped.\<close>

definition guard_finish :: "nat \<Rightarrow> span_guard \<Rightarrow> tracer \<Rightarrow> query_span option \<times> tracer" where
  "guard_finish now g t =
     (let g = g\<lparr>sg_finished := True\<rparr> in
      case finish_span now (sg_span_id g) t of (span, t) \<Rightarrow> (span, guard_drop now g t))"

text \<open>
  Clients that hold guards: they open, annotate, finish and drop them in any order. The counter is assumed not to come
  round.
\<close>

inductive guard_step :: "tracer \<times> (span_guard \<times> string) list \<Rightarrow> tracer \<times> (span_guard \<times> string) list \<Rightarrow> bool" where
  Open: "tr_next_span_id t \<noteq> - 1 \<Longrightarrow> guard_new now query t = (g, t') \<Longrightarrow> guard_step (t, gs) (t', (g, query) # gs)"
| Annotate: "(g, query) \<in> set gs \<Longrightarrow> guard_step (t, gs) (guard_add_metadata g key v t, gs)"
| Finish: "(g, query) \<in> set gs \<Longrightarrow> guard_step (t, gs) (snd (guard_finish now g t), remove1 (g, query) gs)"
| Drop: "(g, query) \<in> set gs \<Longrightarrow> guard_step (t, gs) (guard_drop now g t, remove1 (g, query) gs)"

definition guard_ok :: "(u64 \<rightharpoonup> query_span) \<Rightarrow> u64 \<Rightarrow> span_guard \<times> string \<Rightarrow> bool" where
  "guard_ok m nxt gq \<longleftrightarrow> (case gq of (g, query) \<Rightarrow>
     \<not> sg_finished g \<and> sg_span_id g < nxt \<and>
     (\<exists>span. m (sg_span_id g) = Some span \<and> sp_query span = query \<and> sp_end_time span = None))"

definition span_inv :: "tracer \<times> (span_guard \<times> string) list \<Rightarrow> bool" where
  "span_inv st \<longleftrightarrow> (case st of (t, gs) \<Rightarrow>
     \<not> tr_poisoned t \<and> distinct (map fst (tr_spans t)) \<and> distinct (map (sg_span_id \<circ> fst) gs) \<and>
     dom (map_of (tr_spans t)) = (sg_span_id \<circ> fst) ` set gs \<and>
     (\<forall>gq \<in> set gs. guard_ok (map_of (tr_spans t)) (tr_next_span_id t) gq))"

lemma span_invI:
  assumes "\<not> tr_poisoned t" and "distinct (map fst (tr_spans t))" and "distinct (map (sg_span_id \<circ> fst) gs)"
    and "map_of (tr_spans t) = m" and "dom m = (sg_span_id \<circ> fst) ` set gs" and "\<And>gq. gq \<in> set gs \<Longrightarrow> guard_ok m (tr_next_span_id t) gq"
  shows "span_inv (t, gs)"
  using assms by (simp add: span_inv_def)

lemma span_inv_start: "span_inv (tracer_new, [])"
  by (simp add: span_inv_def tracer_new_def)

lemma next_id_grows: "(n :: u64) \<noteq> - 1 \<Longrightarrow> n < n + 1"
proof -
  assume "n \<noteq> - 1"
  then have "1 + n \<noteq> 0" by (metis add.commute eq_neg_iff_add_eq_0)
  then show ?thesis by (simp add: word_less_nat_alt unatSuc add.commute)
qed

lemma guard_ok_mono:
  assumes "guard_ok m n gq" and "m' (sg_span_id (fst gq)) = m (sg_span_id (fst gq))" and "n \<le> n'"
  shows "guard_ok m' n' gq"
  using assms by (cases gq) (auto simp: guard_ok_def intro: less_le_trans)

lemma span_inv_open:
  assumes "span_inv (t, gs)" and "tr_next_span_id t \<noteq> - 1" and "guard_new now query t = (g, t')"
  shows "span_inv (t', (g, query) # gs)"
proof -
  let ?n = "tr_next_span_id t" and ?span = "span_new now (tr_next_span_id t) query"
  note less = next_id_grows[OF assms(2)]
  have inv: "\<not> tr_poisoned t" "distinct (map fst (tr_spans t))" "distinct (map (sg_span_id \<circ> fst) gs)"
    "dom (map_of (tr_spans t)) = (sg_span_id \<circ> fst) ` set gs" "\<forall>gq \<in> set gs. guard_ok (map_of (tr_spans t)) ?n gq"
    using assms(1) by (simp_all add: span_inv_def)
  have g: "g = \<lparr>sg_span_id = ?n, sg_finished = False\<rparr>"
    "t' = t\<lparr>tr_next_span_id := ?n + 1, tr_spans := AList.update ?n ?span (tr_spans t)\<rparr>"
    using inv(1) assms(3) by (simp_all add: guard_new_def start_span_def Let_def)
  have old: "sg_span_id (fst gq) < ?n" if "gq \<in> set gs" for gq
    using inv(5) that by (cases gq) (auto simp: guard_ok_def)
  have "guard_ok ((map_of (tr_spans t))(?n \<mapsto> ?span)) (?n + 1) gq" if "gq \<in> set gs" for gq
  proof (rule guard_ok_mono[OF bspec[OF inv(5) that]])
    show "((map_of (tr_spans t))(?n \<mapsto> ?span)) (sg_span_id (fst gq)) = map_of (tr_spans t) (sg_span_id (fst gq))"
      using old[OF that] by (metis fun_upd_other less_irrefl)
  qed (rule less_imp_le[OF less])
  moreover have "guard_ok ((map_of (tr_spans t))(?n \<mapsto> ?span)) (?n + 1) (g, query)"
    using less by (simp add: guard_ok_def g span_new_def)
  moreover have "?n \<notin> (sg_span_id \<circ> fst) ` set gs" using old by (metis (no_types, lifting) comp_apply imageE less_irrefl)
  ultimately show ?thesis
    using inv unfolding g by (intro span_invI[where m = "(map_of (tr_spans t))(?n \<mapsto> ?span)"]) (auto simp: update_conv' distinct_update)
qed

lemma span_inv_close:
  assumes "span_inv (t, gs)" and "(g, query) \<in> set gs"
  shows "\<exists>span. finish_span now (sg_span_id g) t = (Some span, t\<lparr>tr_spans := AList.delete (sg_span_id g) (tr_spans t)\<rparr>) \<and>
      sp_query span = query \<and> sp_end_time span = Some now"
    and "span_inv (t\<lparr>tr_spans := AList.delete (sg_span_id g) (tr_spans t)\<rparr>, remove1 (g, query) gs)"
proof -
  let ?id = "sg_span_id g"
  have inv: "\<not> tr_poisoned t" "distinct (map fst (tr_spans t))" "distinct (map (sg_span_id \<circ> fst) gs)"
    "dom (map_of (tr_spans t)) = (sg_span_id \<circ> fst) ` set gs" "\<forall>gq \<in> set gs. guard_ok (map_of (tr_spans t)) (tr_next_span_id t) gq"
    using assms(1) by (simp_all add: span_inv_def)
  from bspec[OF inv(5) assms(2)] show "\<exists>span. finish_span now ?id t = (Some span, t\<lparr>tr_spans := AList.delete ?id (tr_spans t)\<rparr>) \<and>
      sp_query span = query \<and> sp_end_time span = Some now"
    by (auto simp: guard_ok_def finish_span_def span_finish_def)
  have rest: "sg_span_id (fst gq) \<noteq> ?id" "gq \<in> set gs" if "gq \<in> set (remove1 (g, query) gs)" for gq
  proof -
    have "distinct gs" using inv(3) by (simp add: distinct_map)
    then have gq: "gq \<in> set gs" "gq \<noteq> (g, query)" using that by auto
    then show "gq \<in> set gs" "sg_span_id (fst gq) \<noteq> ?id"
      using inj_onD[OF distinct_map[THEN iffD1, OF inv(3), THEN conjunct2] _ gq(1) assms(2)] by auto
  qed
  have "guard_ok ((map_of (tr_spans t))(?id := None)) (tr_next_span_id t) gq" if "gq \<in> set (remove1 (g, query) gs)" for gq
    using rest[OF that] by (intro guard_ok_mono[OF bspec[OF inv(5)]]) simp_all
  moreover have "dom (map_of (tr_spans t)) - {?id} = (sg_span_id \<circ> fst) ` set (remove1 (g, query) gs)"
  proof -
    have "set gs = insert (g, query) (set (remove1 (g, query) gs))"
      using assms(2) inv(3) by (auto simp: distinct_map)
    then have "(sg_span_id \<circ> fst) ` set gs = insert ?id ((sg_span_id \<circ> fst) ` set (remove1 (g, query) gs))" by simp
    moreover have "?id \<notin> (sg_span_id \<circ> fst) ` set (remove1 (g, query) gs)" using rest(1) by (metis (no_types, lifting) comp_apply imageE)
    ultimately show ?thesis unfolding inv(4) by simp
  qed
  moreover have "distinct (map (sg_span_id \<circ> fst) (remove1 (g, query) gs))"
    using inv(3) inj_on_subset[of "sg_span_id \<circ> fst" "set gs" "set (remove1 (g, query) gs)"] set_remove1_subset[of "(g, query)" gs]
    by (metis distinct_map distinct_remove1)
  ultimately show "span_inv (t\<lparr>tr_spans := AList.delete ?id (tr_spans t)\<rparr>, remove1 (g, query) gs)"
    using inv(1,2) by (intro span_invI[where m = "(map_of (tr_spans t))(?id := None)"]) (simp_all add: delete_conv' distinct_delete)
qed

lemma guard_step_inv: "guard_step st st' \<Longrightarrow> span_inv st \<Longrightarrow> span_inv st'"
proof (induction rule: guard_step.induct)
  case (Open t now query g t' gs)
  then show ?case using span_inv_open by blast
next
  case (Annotate g query gs t key v)
  then obtain span where span: "map_of (tr_spans t) (sg_span_id g) = Some span" "sp_query span = query" "sp_end_time span = None"
    "\<not> tr_poisoned t" by (auto simp: span_inv_def guard_ok_def)
  have inv: "distinct (map fst (tr_spans t))" "distinct (map (sg_span_id \<circ> fst) gs)"
    "dom (map_of (tr_spans t)) = (sg_span_id \<circ> fst) ` set gs" "\<forall>gq \<in> set gs. guard_ok (map_of (tr_spans t)) (tr_next_span_id t) gq"
    using Annotate(2) by (simp_all add: span_inv_def)
  define m where "m = (map_of (tr_spans t))(sg_span_id g \<mapsto> span_add_metadata key v span)"
  have "guard_ok m (tr_next_span_id t) gq" if "gq \<in> set gs" for gq
    using bspec[OF inv(4) that] span by (cases gq) (auto simp: guard_ok_def m_def span_add_metadata_def)
  moreover have "dom m = (sg_span_id \<circ> fst) ` set gs" using inv(3) span(1) by (auto simp: m_def)
  ultimately have "span_inv (t\<lparr>tr_spans := AList.update (sg_span_id g) (span_add_metadata key v span) (tr_spans t)\<rparr>, gs)"
    using inv span(4) by (intro span_invI[where m = m]) (simp_all add: m_def update_conv' distinct_update)
  then show ?case using span by (simp add: guard_add_metadata_def tracer_add_metadata_def)
next
  case (Finish g query gs t now)
  then have "sg_finished (g\<lparr>sg_finished := True\<rparr>)" by simp
  with Finish span_inv_close(1)[of t gs g query now] span_inv_close(2)[of t gs g query] show ?case
    by (auto simp: guard_finish_def guard_drop_def)
next
  case (Drop g query gs t now)
  then have "\<not> sg_finished g" by (auto simp: span_inv_def guard_ok_def)
  with Drop span_inv_close(1)[of t gs g query now] span_inv_close(2)[of t gs g query] show ?case by (auto simp: guard_drop_def)
qed

text \<open>
  Spans do not leak. Whatever clients do with their guards, in any order, the tracer holds exactly one open span for each
  guard that is alive, with the query it was opened for; finishing a guard returns that span, ended; and when the last guard
  is gone no span is left.
\<close>

theorem spans_end_with_guards:
  assumes "guard_step\<^sup>*\<^sup>* (tracer_new, []) (t, gs)"
  shows "active_span_count t = length gs \<and>
    (\<forall>(g, query) \<in> set gs. \<exists>span. fst (guard_finish now g t) = Some span \<and> sp_query span = query \<and> sp_end_time span = Some now)"
proof -
  have inv: "span_inv (t, gs)"
    using assms by (induction rule: rtranclp_induct) (auto intro: span_inv_start guard_step_inv)
  then have d: "distinct (map fst (tr_spans t))" "distinct (map (sg_span_id \<circ> fst) gs)"
    "dom (map_of (tr_spans t)) = (sg_span_id \<circ> fst) ` set gs" by (simp_all add: span_inv_def)
  have "card (dom (map_of (tr_spans t))) = length (tr_spans t)"
    using distinct_card[OF d(1)] by (simp add: dom_map_of_conv_image_fst)
  moreover have "card (dom (map_of (tr_spans t))) = length gs"
    using distinct_card[OF d(2)] unfolding d(3) by simp
  ultimately have "active_span_count t = length gs" by (simp add: active_span_count_def)
  moreover have "\<exists>span. fst (guard_finish now g t) = Some span \<and> sp_query span = query \<and> sp_end_time span = Some now"
    if "(g, query) \<in> set gs" for g query
    using span_inv_close(1)[OF inv that, of now] by (auto simp: guard_finish_def Let_def)
  ultimately show ?thesis by blast
qed

theorem spans_end_with_guards_witness:
  "\<exists>t g. guard_step\<^sup>*\<^sup>* (tracer_new, []) (t, [(g, ''SELECT 1'')]) \<and> active_span_count t = 1 \<and>
     map_option sp_query (fst (guard_finish 9 g t)) = Some ''SELECT 1''"
proof -
  obtain g t where g: "guard_new 5 ''SELECT 1'' tracer_new = (g, t)" by fastforce
  have run: "guard_step\<^sup>*\<^sup>* (tracer_new, []) (t, [(g, ''SELECT 1'')])"
    by (rule r_into_rtranclp, rule Open[OF _ g]) (simp add: tracer_new_def)
  from spans_end_with_guards[OF run, of 9] run show ?thesis by auto
qed

section \<open>Literals in log messages\<close>

text \<open>The rest of the text after the quote that ends a literal; a doubled quote is part of it.\<close>

fun skip_literal :: "string \<Rightarrow> string" where
  "skip_literal [] = []"
| "skip_literal [c] = []"
| "skip_literal (c # d # s) =
     (if c = CHR 0x27 then if d = CHR 0x27 then skip_literal s else d # s else skip_literal (d # s))"

definition is_number_char :: "char \<Rightarrow> bool" where
  "is_number_char c \<longleftrightarrow> is_digit_char c \<or> c \<in> {CHR ''.'', CHR ''e'', CHR ''E'', CHR ''+'', CHR ''-''}"

text \<open>\<open>push(b as char)\<close>: a byte above 127 becomes the two bytes of the code point with its number.\<close>

definition push_byte :: "char \<Rightarrow> string" where
  "push_byte c = (let n = of_char c :: nat in if n < 128 then [c] else [char_of (192 + n div 64), char_of (128 + n mod 64)])"

lemma skip_literal_shrinks: "length (skip_literal s) \<le> length s"
  by (induction s rule: skip_literal.induct) auto

function scan_sql :: "string \<Rightarrow> string" where
  "scan_sql [] = []"
| "scan_sql (c # s) =
     (if c = CHR 0x27 then CHR ''?'' # scan_sql (skip_literal s)
      else if is_digit_char c then CHR ''?'' # scan_sql (dropWhile is_number_char s)
      else push_byte c @ scan_sql s)"
  by pat_completeness auto
termination
  by (relation "measure length") (auto simp: le_imp_less_Suc skip_literal_shrinks length_dropWhile_le)

text \<open>\<open>var\<close> is the environment.\<close>

definition sanitize_sql_for_log :: "(string \<Rightarrow> string option) \<Rightarrow> string \<Rightarrow> string" where
  "sanitize_sql_for_log var sql = (if var ''ODBC_FAST_LOG_RAW_SQL'' = Some ''1'' then sql else scan_sql sql)"

definition with_metadata :: "string \<Rightarrow> (string \<times> string) list \<Rightarrow> string" where
  "with_metadata msg metadata = msg @ concat (map (\<lambda>(key, v). '', '' @ key @ ''='' @ v) metadata)"

text \<open>What the logger hands to the crate \<open>log\<close>; the metadata in the order of its iteration.\<close>

definition structured_log_query ::
  "bool \<Rightarrow> (string \<Rightarrow> string option) \<Rightarrow> string \<Rightarrow> (string \<times> string) list \<Rightarrow> string option"
where
  "structured_log_query enabled var query metadata =
     (if \<not> enabled then None else Some (with_metadata (''Query: '' @ sanitize_sql_for_log var query) metadata))"

definition structured_log_connection :: "bool \<Rightarrow> string \<Rightarrow> string \<Rightarrow> string option" where
  "structured_log_connection enabled connection_string action =
     (if \<not> enabled then None else Some (''Connection '' @ action @ '': '' @ sanitize_connection_string connection_string))"

definition structured_log_error :: "bool \<Rightarrow> string \<Rightarrow> (string \<times> string) list \<Rightarrow> string option" where
  "structured_log_error enabled error metadata =
     (if \<not> enabled then None else Some (with_metadata (''Error: '' @ error) metadata))"

text \<open>
  A statement as a sequence of plain text, string literals and numbers. Text holds neither quotes nor digits, nor what
  would prolong a number it follows; two literals do not touch, since that reads as one.
\<close>

datatype sql_piece = Plain string | Text_Literal string | Number string

fun piece_text :: "sql_piece \<Rightarrow> string" where
  "piece_text (Plain t) = t"
| "piece_text (Text_Literal v) = CHR 0x27 # concat (map (\<lambda>c. if c = CHR 0x27 then [c, c] else [c]) v) @ [CHR 0x27]"
| "piece_text (Number n) = n"

fun piece_logged :: "sql_piece \<Rightarrow> string" where
  "piece_logged (Plain t) = concat (map push_byte t)"
| "piece_logged (Text_Literal v) = ''?''"
| "piece_logged (Number n) = ''?''"

fun pieces_ok :: "sql_piece list \<Rightarrow> bool" where
  "pieces_ok [] \<longleftrightarrow> True"
| "pieces_ok (p # ps) \<longleftrightarrow>
     (case p of
        Plain t \<Rightarrow> list_all (\<lambda>c. c \<noteq> CHR 0x27 \<and> \<not> is_digit_char c) t
      | Text_Literal v \<Rightarrow> (let s = concat (map piece_text ps) in s = [] \<or> hd s \<noteq> CHR 0x27)
      | Number n \<Rightarrow> n \<noteq> [] \<and> is_digit_char (hd n) \<and> list_all is_number_char n \<and>
          (let s = concat (map piece_text ps) in s = [] \<or> \<not> is_number_char (hd s))) \<and>
     pieces_ok ps"

lemma skip_literal_text:
  assumes "s = [] \<or> hd s \<noteq> CHR 0x27"
  shows "skip_literal (concat (map (\<lambda>c. if c = CHR 0x27 then [c, c] else [c]) v) @ CHR 0x27 # s) = s"
proof (induction v)
  case Nil
  then show ?case using assms by (cases s) auto
next
  case (Cons c v)
  then show ?case by (cases v) auto
qed

lemma scan_plain: "list_all (\<lambda>c. c \<noteq> CHR 0x27 \<and> \<not> is_digit_char c) t \<Longrightarrow> scan_sql (t @ s) = concat (map push_byte t) @ scan_sql s"
  by (induction t) auto

lemma scan_pieces: "pieces_ok ps \<Longrightarrow> scan_sql (concat (map piece_text ps)) = concat (map piece_logged ps)"
proof (induction ps)
  case (Cons p ps)
  then show ?case
  proof (cases p)
    case (Plain t)
    with Cons show ?thesis by (simp add: scan_plain)
  next
    case (Text_Literal v)
    with Cons show ?thesis by (simp add: skip_literal_text Let_def)
  next
    case (Number n)
    then obtain c n' where n: "n = c # n'" using Cons.prems by (cases n) auto
    have "dropWhile is_number_char (n' @ concat (map piece_text ps)) = concat (map piece_text ps)"
      using Cons.prems Number n by (intro dropWhile_hit) (auto simp: Let_def)
    moreover have "c \<noteq> CHR 0x27" using Cons.prems Number n by (auto simp: is_digit_char_def)
    ultimately show ?thesis using Cons Number n by (simp add: Let_def)
  qed
qed simp

text \<open>
  Logged statements carry no literals: for a statement made of text, string literals and numbers the message has the text
  as it is and a question mark for each literal and number, whatever they are; so statements that differ only in
  their values give the same message.
\<close>

theorem log_hides_literals:
  assumes "pieces_ok ps" and "pieces_ok ps'" and "map piece_logged ps = map piece_logged ps'"
    and "var ''ODBC_FAST_LOG_RAW_SQL'' \<noteq> Some ''1''"
  shows "structured_log_query True var (concat (map piece_text ps)) metadata =
      Some (with_metadata (''Query: '' @ concat (map piece_logged ps)) metadata) \<and>
    structured_log_query True var (concat (map piece_text ps')) metadata = structured_log_query True var (concat (map piece_text ps)) metadata"
  using assms by (simp add: structured_log_query_def sanitize_sql_for_log_def scan_pieces)

theorem log_hides_literals_witness:
  "structured_log_query True (\<lambda>_. None) (''SELECT f('' @ [CHR 0x27] @ ''secret'' @ [CHR 0x27] @ '', 42)'') [] = Some ''Query: SELECT f(?, ?)''"
proof -
  let ?ps = "\<lambda>v. [Plain ''SELECT f('', Text_Literal v, Plain '', '', Number ''42'', Plain '')'']"
  have "pieces_ok (?ps ''secret'')" "pieces_ok (?ps ''x'')" by (simp_all add: Let_def is_digit_char_def is_number_char_def)
  from log_hides_literals[OF this, of "\<lambda>_. None" "[]"] show ?thesis by (simp add: push_byte_def with_metadata_def)
qed

text \<open>
  A quote inside a quoted identifier (or a comment) is taken for the start of a literal, and the literal that follows is
  logged.
\<close>

lemma quoted_identifier_leaks:
  "scan_sql ([CHR 0x22] @ ''o'' @ [CHR 0x27] @ ''b'' @ [CHR 0x22] @ '' = '' @ [CHR 0x27] @ ''secret'' @ [CHR 0x27]) =
   [CHR 0x22] @ ''o?secret?''"
  by code_simp

text \<open>Text that is not ASCII is garbled: each byte of a character is encoded again.\<close>

lemma log_garbles_text: "length (scan_sql (of_bytes [195, 169])) = 4"
  by code_simp

end
