(* ===== verification/Arena.thy ===== *)
theory Arena
  imports Prelude
begin

text \<open>
  \<open>protocol/arena.rs\<close>: a bump allocator over chunks of a fixed size. A pointer is a chunk and an offset in it; chunks are
  numbered in the order they are made, the last one is the current one. Offsets are 64-bit words that wrap around, as
  \<open>usize\<close> does. \<open>allocate_aligned\<close> calls itself after it opened a chunk and is a partial function.
\<close>

unbundle bit_operations_syntax

record arena =
  ar_chunks :: nat
  ar_chunk_size :: u64
  ar_current_offset :: u64

type_synonym pointer = "nat \<times> u64"

definition arena_new :: "u64 \<Rightarrow> arena" where
  "arena_new chunk_size = \<lparr>ar_chunks = 0, ar_chunk_size = chunk_size, ar_current_offset = 0\<rparr>"

definition arena_default :: arena where "arena_default = arena_new (64 * 1024)"

definition allocate_new_chunk :: "arena \<Rightarrow> arena" where
  "allocate_new_chunk a = a\<lparr>ar_chunks := ar_chunks a + 1, ar_current_offset := 0\<rparr>"

definition arena_allocate :: "u64 \<Rightarrow> arena \<Rightarrow> pointer \<times> arena" where
  "arena_allocate n a =
     (let a = (if ar_current_offset a + n > ar_chunk_size a then allocate_new_chunk a else a) in
      ((ar_chunks a, ar_current_offset a), a\<lparr>ar_current_offset := ar_current_offset a + n\<rparr>))"

definition aligned_offset :: "u64 \<Rightarrow> u64 \<Rightarrow> u64" where
  "aligned_offset align offset = (offset + align - 1) AND NOT (align - 1)"

partial_function (option) allocate_aligned :: "u64 \<Rightarrow> u64 \<Rightarrow> arena \<Rightarrow> (pointer \<times> arena) option" where
  "allocate_aligned n align a =
     (let offset = aligned_offset align (ar_current_offset a) in
      if offset + n > ar_chunk_size a then allocate_aligned n align (allocate_new_chunk a)
      else Some ((ar_chunks a, offset), a\<lparr>ar_current_offset := offset + n\<rparr>))"

section \<open>Rounding up\<close>

lemma aligned_offset_0 [simp]: "aligned_offset align 0 = 0"
  by (simp add: aligned_offset_def)

lemma and_not_mask: "unat (w AND NOT (mask k)) = unat (w :: u64) - unat w mod 2 ^ k"
proof -
  have "w AND NOT (mask k) = w - take_bit k w"
  proof -
    have "(w AND NOT (mask k)) + take_bit k w = (w AND NOT (mask k)) OR take_bit k w"
      by (rule disjunctive_add) (auto simp: bit_simps)
    also have "\<dots> = w" by (rule bit_eqI) (auto simp: bit_simps)
    finally show ?thesis by (simp add: eq_diff_eq)
  qed
  moreover have "unat (take_bit k w) = unat w mod 2 ^ k" 
    by (simp only: unsigned_take_bit_eq take_bit_eq_mod[of k "unat w"])
  moreover from this have "take_bit k w \<le> w" by (simp add: word_le_nat_alt)
  ultimately show ?thesis by (simp add: unat_sub)
qed

lemma exp_word: "k < 62 \<Longrightarrow> unat (2 ^ k :: u64) = 2 ^ k"
proof -
  assume k: "k < 62"
  then have "(2 :: nat) ^ k < 2 ^ 64" by (intro power_strict_increasing) auto
  moreover have "(2 ^ k :: u64) = of_nat (2 ^ k)" by simp
  ultimately show ?thesis using k by (simp only: unsigned_of_nat) (simp add: take_bit_nat_eq_self)
qed

text \<open>For a power of two the offset is rounded up to the next multiple.\<close>

lemma aligned_offset_up:
  assumes "k < 62" and "unat offset < 2 ^ 62"
  shows "2 ^ k dvd unat (aligned_offset (2 ^ k) offset)"
    and "unat offset \<le> unat (aligned_offset (2 ^ k) offset)"
    and "unat (aligned_offset (2 ^ k) offset) < unat offset + 2 ^ k"
proof -
  let ?y = "offset + 2 ^ k - 1"
  have "(2 :: nat) ^ k < 2 ^ 62" using assms(1) by (rule power_strict_increasing) simp
  then have y: "unat ?y = unat offset + 2 ^ k - 1"
  proof -
    have "unat offset + unat (2 ^ k :: u64) < 2 ^ LENGTH(64)"
      using \<open>2 ^ k < 2 ^ 62\<close> assms exp_word[OF assms(1)] by simp
    then have sum: "unat (offset + 2 ^ k) = unat offset + 2 ^ k"
      using unat_add_lem[of offset "2 ^ k"] exp_word[OF assms(1)] by simp
    then have "1 \<le> offset + 2 ^ k" by (simp add: word_le_nat_alt Suc_le_eq)
    then show ?thesis using sum by (simp add: unat_sub)
  qed
  have "aligned_offset (2 ^ k) offset = ?y AND NOT (mask k)" by (simp add: aligned_offset_def mask_eq_exp_minus_1)
  then have u: "unat (aligned_offset (2 ^ k) offset) = unat ?y - unat ?y mod 2 ^ k" by (simp add: and_not_mask)
  show "2 ^ k dvd unat (aligned_offset (2 ^ k) offset)" unfolding u by (simp add: dvd_minus_mod)
  have "unat ?y mod 2 ^ k < 2 ^ k" by simp
  then show "unat offset \<le> unat (aligned_offset (2 ^ k) offset)" unfolding u y by linarith
  show "unat (aligned_offset (2 ^ k) offset) < unat offset + 2 ^ k" unfolding u y using zero_less_power[of "2 :: nat" k] by linarith
qed

section \<open>Requests\<close>

datatype request = Plain_Request u64 | Aligned_Request u64 nat

text \<open>An aligned request names the exponent of its alignment.\<close>

fun request_size :: "request \<Rightarrow> u64" where
  "request_size (Plain_Request n) = n"
| "request_size (Aligned_Request n k) = n"

fun serve :: "request \<Rightarrow> arena \<Rightarrow> (pointer \<times> arena) option" where
  "serve (Plain_Request n) a = Some (arena_allocate n a)"
| "serve (Aligned_Request n k) a = allocate_aligned n (2 ^ k) a"

fun serve_all :: "request list \<Rightarrow> arena \<Rightarrow> (pointer list \<times> arena) option" where
  "serve_all [] a = Some ([], a)"
| "serve_all (r # rs) a =
     (case serve r a of
        None \<Rightarrow> None
      | Some (p, a) \<Rightarrow> (case serve_all rs a of None \<Rightarrow> None | Some (ps, a) \<Rightarrow> Some (p # ps, a)))"

text \<open>A request is legal in an arena when it is no larger than a chunk and its alignment no larger than \<open>2\<^sup>6\<^sup>1\<close>.\<close>

fun legal :: "u64 \<Rightarrow> request \<Rightarrow> bool" where
  "legal c (Plain_Request n) \<longleftrightarrow> n \<le> c"
| "legal c (Aligned_Request n k) \<longleftrightarrow> n \<le> c \<and> k < 62"

text \<open>The bytes a pointer stands for, and the position of the arena: a chunk and an offset.\<close>

definition region :: "pointer \<Rightarrow> u64 \<Rightarrow> (nat \<times> nat) set" where
  "region p n = {(fst p, i) | i. unat (snd p) \<le> i \<and> i < unat (snd p) + unat n}"

definition before :: "nat \<times> nat \<Rightarrow> arena \<Rightarrow> bool" where
  "before b a \<longleftrightarrow> fst b < ar_chunks a \<or> fst b = ar_chunks a \<and> snd b < unat (ar_current_offset a)"

definition arena_ok :: "u64 \<Rightarrow> arena \<Rightarrow> bool" where
  "arena_ok c a \<longleftrightarrow> ar_chunk_size a = c \<and> unat c < 2 ^ 62 \<and> ar_current_offset a \<le> c"

definition served :: "u64 \<Rightarrow> request \<Rightarrow> arena \<Rightarrow> pointer \<Rightarrow> arena \<Rightarrow> bool" where
  "served c r a p a' \<longleftrightarrow> arena_ok c a' \<and> ar_chunks a' \<le> ar_chunks a + 1 \<and>
     (\<forall>b. before b a \<longrightarrow> before b a') \<and>
     (\<forall>b \<in> region p (request_size r). snd b < unat c \<and> \<not> before b a \<and> before b a') \<and>
     (case r of Plain_Request _ \<Rightarrow> True | Aligned_Request _ k \<Rightarrow> 2 ^ k dvd unat (snd p))"

text \<open>A bump from \<open>offset\<close> by \<open>n\<close> in a chunk with room for it.\<close>

lemma served_bump:
  assumes "arena_ok c a" and "unat (ar_current_offset a) \<le> unat offset" and "unat offset + unat (request_size r) \<le> unat c"
    and "case r of Plain_Request _ \<Rightarrow> True | Aligned_Request _ k \<Rightarrow> 2 ^ k dvd unat offset"
  shows "served c r a (ar_chunks a, offset) (a\<lparr>ar_current_offset := offset + request_size r\<rparr>)"
proof -
  have c: "unat c < 2 ^ 62" using assms(1) by (simp add: arena_ok_def)
  have "unat offset + unat (request_size r) < 2 ^ LENGTH(64)" using assms(3) c by simp
  then have "unat (offset + request_size r) = unat offset + unat (request_size r)"
    using unat_add_lem[of offset "request_size r"] by simp
  then show ?thesis
    using assms by (auto simp: served_def arena_ok_def region_def before_def word_le_nat_alt split: request.splits)
qed

lemma new_chunk_ok: "arena_ok c a \<Longrightarrow> arena_ok c (allocate_new_chunk a)"
  by (simp add: arena_ok_def allocate_new_chunk_def)

lemma served_new_chunk:
  assumes "served c r (allocate_new_chunk a) p a'" and "ar_chunks a' \<le> ar_chunks a + 1"
  shows "served c r a p a'"
  using assms by (auto simp: served_def before_def allocate_new_chunk_def)

lemma word_sum_le:
  assumes "unat (x :: u64) < 2 ^ 63" and "unat y < 2 ^ 63"
  shows "x + y > c \<longleftrightarrow> unat x + unat y > unat c"
proof -
  have "unat (x + y) = unat x + unat y" using unat_add_lem[of x y] assms by simp
  then show ?thesis by (simp add: word_less_nat_alt)
qed

lemma legal_bounds:
  assumes "arena_ok c a" and "legal c r"
  shows "unat (request_size r) \<le> unat c" "unat c < 2 ^ 62" "unat (ar_current_offset a) \<le> unat c" "ar_chunk_size a = c"
  using assms by (cases r; simp add: arena_ok_def word_le_nat_alt)+

lemma served_fresh:
  assumes "arena_ok c a" and "legal c r"
  shows "served c r a (ar_chunks (allocate_new_chunk a), 0) ((allocate_new_chunk a)\<lparr>ar_current_offset := request_size r\<rparr>)"
proof (rule served_new_chunk)
  have "case r of Plain_Request _ \<Rightarrow> True | Aligned_Request _ k \<Rightarrow> 2 ^ k dvd unat (0 :: u64)" by (cases r) simp_all
  then show "served c r (allocate_new_chunk a) (ar_chunks (allocate_new_chunk a), 0) ((allocate_new_chunk a)\<lparr>ar_current_offset := request_size r\<rparr>)"
    using served_bump[OF new_chunk_ok[OF assms(1)], of 0 r] legal_bounds[OF assms] by (simp add: allocate_new_chunk_def)
qed (simp add: allocate_new_chunk_def)

lemma serve_ok:
  assumes "arena_ok c a" and "legal c r"
  shows "\<exists>p a'. serve r a = Some (p, a') \<and> served c r a p a'"
proof -
  note n = legal_bounds(1)[OF assms] and c = legal_bounds(2)[OF assms] and off = legal_bounds(3,4)[OF assms]
  let ?b = "allocate_new_chunk a"
  note fresh = served_fresh[OF assms]
  show ?thesis
  proof (cases r)
    case (Plain_Request m)
    have "ar_current_offset a + m > ar_chunk_size a \<longleftrightarrow> unat (ar_current_offset a) + unat m > unat c"
      unfolding off(2) using n c off(1) Plain_Request by (intro word_sum_le) auto
    note fits = this
    show ?thesis
    proof (cases "ar_current_offset a + m > ar_chunk_size a")
      case True
      then have "serve r a = Some ((ar_chunks ?b, 0), ?b\<lparr>ar_current_offset := request_size r\<rparr>)"
        by (simp add: Plain_Request arena_allocate_def allocate_new_chunk_def)
      with fresh show ?thesis by blast
    next
      case False
      with fits have "unat (ar_current_offset a) + unat (request_size r) \<le> unat c" by (simp add: Plain_Request)
      from served_bump[OF assms(1) order.refl this] have "served c r a (ar_chunks a, ar_current_offset a) (a\<lparr>ar_current_offset := ar_current_offset a + request_size r\<rparr>)"
        by (simp add: Plain_Request)
      moreover have "serve r a = Some ((ar_chunks a, ar_current_offset a), a\<lparr>ar_current_offset := ar_current_offset a + request_size r\<rparr>)"
        using False by (simp add: Plain_Request arena_allocate_def)
      ultimately show ?thesis by blast
    qed
  next
    case (Aligned_Request m k)
    let ?o = "aligned_offset (2 ^ k) (ar_current_offset a)"
    have k: "k < 62" using assms(2) Aligned_Request by simp
    then have "(2 :: nat) ^ k < 2 ^ 62" by (intro power_strict_increasing) simp_all
    moreover have offset: "unat (ar_current_offset a) < 2 ^ 62" using off c by simp
    ultimately have fits: "?o + m > ar_chunk_size a \<longleftrightarrow> unat ?o + unat m > unat c"
      unfolding off(2) using n c Aligned_Request aligned_offset_up(3)[OF k offset] by (intro word_sum_le) auto
    show ?thesis
    proof (cases "?o + m > ar_chunk_size a")
      case True
      have "allocate_aligned m (2 ^ k) ?b = Some ((ar_chunks ?b, 0), ?b\<lparr>ar_current_offset := m\<rparr>)"
        using n off(2) by (subst allocate_aligned.simps) (simp add: Aligned_Request allocate_new_chunk_def word_less_nat_alt not_less)
      with True have "serve r a = Some ((ar_chunks ?b, 0), ?b\<lparr>ar_current_offset := request_size r\<rparr>)"
        unfolding Aligned_Request serve.simps by (subst allocate_aligned.simps) simp
      with fresh show ?thesis by blast
    next
      case False
      with fits have "unat ?o + unat (request_size r) \<le> unat c" by (simp add: Aligned_Request)
      from served_bump[OF assms(1) aligned_offset_up(2)[OF k offset] this] aligned_offset_up(1)[OF k offset]
      have "served c r a (ar_chunks a, ?o) (a\<lparr>ar_current_offset := ?o + request_size r\<rparr>)" by (simp add: Aligned_Request)
      moreover have "serve r a = Some ((ar_chunks a, ?o), a\<lparr>ar_current_offset := ?o + request_size r\<rparr>)"
        using False unfolding Aligned_Request serve.simps by (subst allocate_aligned.simps) (simp add: Let_def)
      ultimately show ?thesis by blast
    qed
  qed
qed

text \<open>The regions of a run: pairwise disjoint, all inside their chunks, and none where the arena had already been.\<close>

fun regions_ok :: "u64 \<Rightarrow> request list \<Rightarrow> pointer list \<Rightarrow> bool" where
  "regions_ok c [] [] \<longleftrightarrow> True"
| "regions_ok c (r # rs) (p # ps) \<longleftrightarrow>
     (\<forall>b \<in> region p (request_size r). snd b < unat c) \<and>
     (case r of Plain_Request _ \<Rightarrow> True | Aligned_Request _ k \<Rightarrow> 2 ^ k dvd unat (snd p)) \<and>
     (\<forall>(q, r') \<in> set (zip ps rs). region p (request_size r) \<inter> region q (request_size r') = {}) \<and> regions_ok c rs ps"
| "regions_ok c _ _ \<longleftrightarrow> False"

lemma serve_all_ok:
  assumes "arena_ok c a" and "list_all (legal c) rs"
  shows "\<exists>ps a'. serve_all rs a = Some (ps, a') \<and> regions_ok c rs ps \<and> ar_chunks a' \<le> ar_chunks a + length rs \<and>
    (\<forall>(q, r) \<in> set (zip ps rs). \<forall>b \<in> region q (request_size r). \<not> before b a)"
  using assms
proof (induction rs arbitrary: a)
  case (Cons r rs)
  obtain p a1 where one: "serve r a = Some (p, a1)" "served c r a p a1" 
    using serve_ok[OF Cons.prems(1), of r] Cons.prems(2) unfolding list.pred_inject by blast
  then have "arena_ok c a1" by (simp add: served_def)
  with Cons obtain ps a' where more: "serve_all rs a1 = Some (ps, a')" "regions_ok c rs ps" "ar_chunks a' \<le> ar_chunks a1 + length rs"
    "\<forall>(q, r) \<in> set (zip ps rs). \<forall>b \<in> region q (request_size r). \<not> before b a1" by fastforce
  have "region p (request_size r) \<inter> region q (request_size r') = {}" if "(q, r') \<in> set (zip ps rs)" for q r'
    using more(4) that one(2) by (fastforce simp: served_def)
  moreover have "\<not> before b a" if "(q, r') \<in> set (zip ps rs)" "b \<in> region q (request_size r')" for q r' b
    using bspec[OF more(4) that(1)] that(2) one(2) unfolding served_def case_prod_conv by blast
  ultimately show ?case using one more by (auto simp: served_def)
qed simp

lemma regions_ok_length: "regions_ok c rs ps \<Longrightarrow> length ps = length rs"
  by (induction c rs ps rule: regions_ok.induct) auto

text \<open>
  Allocations do not overlap. In an arena with chunks of less than \<open>2\<^sup>6\<^sup>2\<close> bytes every sequence of requests no larger
  than a chunk is served: each gets bytes inside a chunk, disjoint from those of every other request, at an offset that is
  a multiple of the alignment it asked for, and each opens at most one chunk.
\<close>

theorem arena_allocations_disjoint:
  assumes "unat c < 2 ^ 62" and "list_all (legal c) rs"
  shows "\<exists>ps a. serve_all rs (arena_new c) = Some (ps, a) \<and> regions_ok c rs ps \<and> ar_chunks a \<le> length rs"
  using serve_all_ok[OF _ assms(2), of "arena_new c"] assms(1) by (force simp: arena_new_def arena_ok_def)

theorem arena_allocations_disjoint_witness:
  "\<exists>p q a. serve_all [Plain_Request 3, Aligned_Request 4 3] (arena_new 16) = Some ([p, q], a) \<and>
     region p 3 \<inter> region q 4 = {} \<and> 8 dvd unat (snd q)"
proof -
  from arena_allocations_disjoint[of 16 "[Plain_Request 3, Aligned_Request 4 3]"] obtain ps a where
    ps: "serve_all [Plain_Request 3, Aligned_Request 4 3] (arena_new 16) = Some (ps, a)"
      "regions_ok 16 [Plain_Request 3, Aligned_Request 4 3] ps" by auto
  then obtain p q where "ps = [p, q]" using regions_ok_length[OF ps(2)] by (auto simp: length_Suc_conv)
  with ps show ?thesis by auto
qed

section \<open>Requests larger than a chunk\<close>

text \<open>
  A plain request larger than a chunk is handed a pointer into a fresh chunk that is too small for it, so that its last
  byte lies outside; an aligned one never returns.
\<close>

lemma aligned_too_large: "ar_current_offset b = 0 \<Longrightarrow> ar_chunk_size b < n \<Longrightarrow> allocate_aligned n align b = None"
proof -
  have *: "\<not> (ar_current_offset b = 0 \<and> ar_chunk_size b < n)" if "allocate_aligned n align b = Some r" for b r
  proof (rule allocate_aligned.raw_induct[where P = "\<lambda>n align b r. \<not> (ar_current_offset b = 0 \<and> ar_chunk_size b < n)", OF _ that])
    fix f n align b r
    assume ih: "\<And>n align b r. f n align b = Some r \<Longrightarrow> \<not> (ar_current_offset b = 0 \<and> ar_chunk_size b < n)"
      and run: "(let offset = aligned_offset align (ar_current_offset b) in
          if ar_chunk_size b < offset + n then f n align (allocate_new_chunk b)
          else Some ((ar_chunks b, offset), b\<lparr>ar_current_offset := offset + n\<rparr>)) = Some r"
    show "\<not> (ar_current_offset b = 0 \<and> ar_chunk_size b < n)"
    proof
      assume b: "ar_current_offset b = 0 \<and> ar_chunk_size b < n"
      with run have "f n align (allocate_new_chunk b) = Some r" by (simp add: Let_def)
      from ih[OF this] b show False by (simp add: allocate_new_chunk_def)
    qed
  qed
  assume "ar_current_offset b = 0" "ar_chunk_size b < n"
  with * show ?thesis by (cases "allocate_aligned n align b") auto
qed

theorem oversized_requests:
  assumes "arena_ok c a" and "c < n" and "unat n < 2 ^ 62" and "k < 62"
  shows "(\<exists>b \<in> region (fst (arena_allocate n a)) n. unat c \<le> snd b) \<and> allocate_aligned n (2 ^ k) a = None"
proof -
  have a: "ar_chunk_size a = c" "unat (ar_current_offset a) < 2 ^ 62"
    using assms(1) by (auto simp: arena_ok_def word_le_nat_alt)
  have cn: "unat c < unat n" using assms(2) by (simp add: word_less_nat_alt)
  have "ar_current_offset a + n > ar_chunk_size a" unfolding a(1) using a(2) assms(3) cn by (subst word_sum_le) auto
  then have "fst (arena_allocate n a) = (ar_chunks a + 1, 0)" by (simp add: arena_allocate_def allocate_new_chunk_def)
  then have "(ar_chunks a + 1, unat c) \<in> region (fst (arena_allocate n a)) n" using cn by (simp add: region_def)
  moreover have "allocate_aligned n (2 ^ k) a = None"
  proof -
    have "(2 :: nat) ^ k < 2 ^ 62" using assms(4) by (intro power_strict_increasing) simp_all
    then have "aligned_offset (2 ^ k) (ar_current_offset a) + n > ar_chunk_size a"
      unfolding a(1) using aligned_offset_up(3)[OF assms(4) a(2)] a(2) assms(3) cn by (subst word_sum_le) auto
    moreover have "allocate_aligned n (2 ^ k) (allocate_new_chunk a) = None"
      using a(1) assms(2) by (intro aligned_too_large) (simp_all add: allocate_new_chunk_def)
    ultimately show ?thesis by (subst allocate_aligned.simps) simp
  qed
  ultimately show ?thesis by force
qed

end
