(* ===== verification/Spec2Isabelle.thy ===== *)
theory Spec2Isabelle
  imports Prelude Rust_Text Errors Params Row_Codec Multi_Result Bulk_Insert Identifier Engines Handles
    Transaction Xa Cells Columnar Query Calls Spill Streaming
    Session Requests Session_Laws Session_Tables
    Plugin_Sql Plugins Plugin_Laws Plugin_Catalog Caches Catalog Catalog_Laws
    Array_Binding Pool Pool_Laws Parallel_Insert Parallel_Laws Engine_Runs
    Security Observability Tracing Arena
begin

text \<open>
  Verification of the native engine of \<open>dart_odbc_fast\<close>: the Rust crate \<open>odbc_engine\<close> under
  \<open>src/native/odbc_engine/src\<close>. A Dart application loads the crate through a C interface, sends it
  SQL, parameter buffers and bulk-insert payloads as bytes, and receives results as bytes; the crate
  reaches databases through the \<open>odbc_api\<close> crate. Paths below are relative to that directory.

  \<^bold>\<open>The parts of the program and how they interact.\<close>
  The Dart side encodes the parameters of a request (\<open>protocol/param_value.rs\<close>,
  \<open>protocol/bound_param.rs\<close>) or a columnar insert (\<open>protocol/bulk_insert.rs\<close>); the engine decodes
  them, runs the statement, collects rows into a \<open>RowBuffer\<close> (\<open>protocol/row_buffer.rs\<close>), encodes it
  (\<open>protocol/encoder.rs\<close>), possibly several of them in an envelope (\<open>protocol/multi_result.rs\<close>), and
  appends output parameters and cursors as footers. Errors travel as structured errors
  (\<open>error/mod.rs\<close>). A result may instead be column-major and compressed
  (\<open>protocol/columnar_encoder.rs\<close>), or be streamed in chunks from memory, from a spill file or from a
  worker thread (\<open>engine/streaming.rs\<close>, \<open>engine/core/disk_spill.rs\<close>). Connections live in a table of handles (\<open>handles/mod.rs\<close>); the engine behind a
  connection is found out by name (\<open>engine/core/driver_capabilities.rs\<close>, \<open>engine/dbms_info.rs\<close>) and
  selects the dialect of local transactions (\<open>engine/transaction.rs\<close>) and of distributed ones
  (\<open>engine/xa_transaction.rs\<close>); both quote names by \<open>engine/identifier.rs\<close>.

  \<^bold>\<open>Theories, definitions and sources.\<close>
  \<^item> \<open>Prelude\<close>: the result type \<open>outcome\<close> (\<open>Ok\<close>, \<open>Err\<close>, and \<open>Panic\<close> for a failed index, slice, \<open>expect\<close>
    or addition), checked and saturating \<open>usize\<close> arithmetic, little-endian words, slices that panic out
    of range, the loop \<open>read_n\<close>, and the locales \<open>offset_reader\<close>, \<open>offset_codec\<close> and \<open>prefix_codec\<close>: what a
    reader and a writer of one element promise (no panic, progress within the buffer, decode after
    encode) and what then holds of a sequence of elements. Every codec below interprets them.
  \<^item> \<open>Rust_Text\<close>: Rust strings as the list of their UTF-8 bytes, UTF-8 validation, decimal printing and
    parsing, ASCII case mapping, \<open>Debug\<close> formatting.
  \<^item> \<open>Errors\<close> (\<open>error/mod.rs\<close>): \<open>odbc_error\<close> with its messages and categories, \<open>StructuredError\<close>.
  \<^item> \<open>Params\<close> (\<open>param_value.rs\<close>, \<open>bound_param.rs\<close>): \<open>param_value\<close>, \<open>try_serialize\<close>, \<open>deserialize\<close>, the list
    codec, and the directed request with its \<open>DRT1\<close> magic.
  \<^item> \<open>Row_Codec\<close> (\<open>types.rs\<close>, \<open>row_buffer.rs\<close>, \<open>encoder.rs\<close>, \<open>decoder.rs\<close>): the row message and both footers.
  \<^item> \<open>Multi_Result\<close> (\<open>multi_result.rs\<close>): both versions of the envelope.
  \<^item> \<open>Bulk_Insert\<close> (\<open>bulk_insert.rs\<close>): parser and serializer of the insert payload.
  \<^item> \<open>Identifier\<close>, \<open>Engines\<close>: name validation and quoting; engine detection and capabilities.
  \<^item> \<open>Handles\<close> (\<open>handles/mod.rs\<close>, \<open>dbms_info.rs\<close>): the handle manager as a record (environment flag, map from
    identifiers to connections, next identifier). A connection is its connection string, the poison
    flag of its mutex and the history of the driver calls made on it with their outcome; the record
    \<open>driver\<close> holds what \<open>odbc_api\<close> and the server answer, as functions of that history. The locale
    \<open>handle_table\<close> states the laws of the table.
  \<^item> \<open>Transaction\<close> (\<open>transaction.rs\<close>): begin with isolation, access mode and lock timeout in the dialect of
    the engine, commit, rollback, the destructor, \<open>execute\<close>, savepoints. The world (handle manager and
    poison flags) is passed explicitly; an operation that consumes its transaction ends with the
    destructor. The locale \<open>conn_step\<close> collects what every settings step keeps of a connection.
  \<^item> \<open>Xa\<close> (\<open>xa_transaction.rs\<close>): identifiers of branches and their spellings for PostgreSQL, MySQL and
    Oracle, the handles \<open>XaTransaction\<close>, \<open>PreparingXa\<close> and \<open>PreparedXa\<close> with the methods that turn one into
    the next, the destructor, and recovery. The step relation \<open>xa_step\<close> lets a client call any method
    in any order with any driver.
  \<^item> \<open>Cells\<close> (\<open>cell_reader.rs\<close>): from the text or binary data of a cursor to the bytes of a cell.
  \<^item> \<open>Columnar\<close> (\<open>columnar.rs\<close>, \<open>converter.rs\<close>, \<open>columnar_encoder.rs\<close>, \<open>compression.rs\<close>,
    \<open>ffi/columnar_decompress.rs\<close>, and the parser \<open>_parseColumnarV2\<close> of the Dart client): the column-major
    message, and the decompression entry points with the table of what they handed out. The
    compressors are the record \<open>compressors\<close>, the documented law the predicate \<open>lossless\<close>.
  \<^item> \<open>Query\<close> (\<open>execution_engine.rs\<close>, \<open>pipeline.rs\<close>, \<open>sqlserver_json.rs\<close>, part of \<open>cached_connection.rs\<close>): running
    a statement and a batch. A statement of \<open>odbc_api\<close> is the record \<open>stmt_run\<close>: what executing it,
    asking for the row count and each \<open>SQLMoreResults\<close> answer; a cursor gives its columns and rows.
  \<^item> \<open>Calls\<close> (\<open>output_aware_params.rs\<close>, \<open>ref_cursor_oracle.rs\<close>, the bound path of \<open>execution_engine.rs\<close>, \<open>query.rs\<close>):
    directed parameters, output values, reference cursors.
  \<^item> \<open>Spill\<close> (\<open>disk_spill.rs\<close>, \<open>memory_engine.rs\<close>): the spill stream over a disk with faults and a clock; the
    locales \<open>byte_sink\<close> and \<open>reliable_sink\<close> are the contract of what is written to.
  \<^item> \<open>Streaming\<close> (\<open>streaming.rs\<close>): the streams and their producers. A channel is the list of messages it will
    still deliver. The locale \<open>chunk_stream\<close> states what a fetch promises; all five kinds of stream
    interpret it, so draining is proved once.
  \<^item> \<open>Session\<close>, \<open>Requests\<close> (\<open>ffi/mod.rs\<close>, with \<open>ffi/guard.rs\<close>, \<open>engine/connection.rs\<close>, \<open>engine/statement.rs\<close>): the C
    interface. \<open>global_state\<close> is the struct of that name, its hash maps as association lists and its
    mutexes as poison flags; each entry point is a function of its arguments and the state with the
    return code, what it writes to the client's buffers, and the new state. What the databases answer is
    the record \<open>backend\<close>.
  \<^item> \<open>Session_Laws\<close>, \<open>Session_Tables\<close>: what the interface promises its client. The step relation \<open>ffi_step\<close>
    has a rule for each entry point of \<open>Session\<close> and \<open>Requests\<close>; \<open>session_ok\<close> is the consistency of the tables, up to
    the kept results of a set of statements.
  \<^item> \<open>Plugin_Sql\<close>, \<open>Plugins\<close> (\<open>plugins/\<close>): the statements each vendor's plugin builds (upserts, returning
    clauses, session initialisation, query hints), the registry that finds the plugin of a connection
    string, and the entry points that dispatch to it. \<open>Plugin_Laws\<close> reads the statements with the tokenizer
    \<open>lex_sql\<close>, a scanner of quoted names, literals and symbols with the rules of each server's default
    settings: double quotes enclose a literal on MySQL and MariaDB, backslashes escape in the literals of
    MySQL, MariaDB and Snowflake.
  \<^item> \<open>Plugin_Catalog\<close>, \<open>Catalog\<close>, \<open>Catalog_Laws\<close> (the catalog queries of \<open>plugins/\<close>, \<open>engine/catalog.rs\<close> and the
    entry points \<open>odbc_catalog_*\<close>): the text of every catalog query with its parameters, running it, and
    the cached answer for columns.
  \<^item> \<open>Caches\<close> (\<open>engine/core/metadata_cache.rs\<close>, \<open>engine/core/prepared_cache.rs\<close> and their entry points): the
    crate \<open>lru\<close> is the record \<open>lru_api\<close>, its documented behaviour the locale \<open>lru\<close>.
  \<^item> \<open>Array_Binding\<close> (\<open>engine/core/array_binding.rs\<close>): bulk inserts with arrays of parameters. The column buffers
    of \<open>odbc_api\<close> and the execution of a batch are the record \<open>bulk_conn\<close>, their contracts the locales
    \<open>column_inserter\<close> and \<open>bulk_table\<close>.
  \<^item> \<open>Pool\<close>, \<open>Pool_Laws\<close> (\<open>pool/mod.rs\<close> and the entry points \<open>odbc_pool_*\<close>): options, construction, the hooks of
    the connection manager, checkout and release with recycled identifiers. \<open>pool_step\<close> lets clients call
    the entry points in any order, \<open>handed_out\<close> is the life of a pooled connection.
  \<^item> \<open>Parallel_Insert\<close>, \<open>Parallel_Laws\<close> (\<open>engine/core/parallel_insert.rs\<close> and \<open>odbc_bulk_insert_array\<close>,
    \<open>odbc_bulk_insert_parallel\<close>): slicing a payload and inserting the slices from several workers. A worker is a
    state machine that sends one statement per step; a schedule interleaves them.
  \<^item> \<open>Engine_Runs\<close>: the calls of the session, the pool, the catalog and the bulk inserts in one step relation
    \<open>engine_step\<close>, with the statements whose results a release of pooled connections leaves behind.
  \<^item> \<open>Security\<close> (\<open>security/sanitize.rs\<close>, \<open>security/audit.rs\<close>, \<open>security/secret_manager.rs\<close>, the entry points
    \<open>odbc_audit_*\<close>): redaction of connection strings, the audit log, the store of secrets.
  \<^item> \<open>Observability\<close>, \<open>Tracing\<close> (\<open>observability/metrics.rs\<close> with \<open>odbc_get_metrics\<close>, \<open>observability/tracing.rs\<close>,
    \<open>observability/logging.rs\<close>): latency statistics, spans with their guards, redaction of SQL for the log.
  \<^item> \<open>Arena\<close> (\<open>protocol/arena.rs\<close>): the bump allocator; a pointer is a chunk and an offset.

  \<^bold>\<open>What the theorems show.\<close>
  \<^item> Two-phase commit: phase 2 is never sent without a successful phase 1 on any run; phase 1 is decided by
    the engine's answer alone; a complete run goes through; recovery finds what was prepared; branch
    identifiers survive their spellings and cannot inject SQL.
  \<^item> Local transactions: autocommit is off exactly while a transaction is open and on again after every
    way of ending it; \<open>execute\<close> ends what it began; begin sends exactly the statements of the vendor
    matrix, which departs from the documented one in never sending \<open>READ WRITE\<close>; savepoint names cannot inject SQL; lock timeouts never shrink when rounded to seconds.
  \<^item> Codecs: decode after encode is the identity within the limits, for each format and across the layers
    (this theory: result sets through the envelope, output parameters behind it); every decoder is
    total and panic-free on arbitrary bytes and respects its limits; accepted input is canonical.
  \<^item> Execution, end to end: what the client decodes from the bytes of a query, a batch or a procedure call
    is the table, the sequence of results and the output values the driver delivered (for tables of nulls,
    integers and ASCII text within the decoder's limits; the fragments of a \<open>FOR JSON\<close> result arrive joined,
    and the update count of a call that yields nothing else is lost); a stream
    delivers, chunk by chunk and in chunks of the requested size, the message the buffered path builds,
    spilled or not; the streamed batch equals the envelope; the cached path agrees with the pipeline
    exactly when joining \<open>FOR JSON\<close> fragments leaves the result alone; a column comes back from the
    columnar message with its name if and only if the name is ASCII; the memory of a spilling stream stays
    bounded as long as the threshold does not wrap.
  \<^item> Handles: identifiers are never 0, never reused while open, also after the 32-bit counter wraps,
    and stay valid until closed; quoting is safe; engine identifiers are stable; errors keep their
    fields and are classified as documented.
  \<^item> The interface: a stream reaches its client complete and in order whatever its buffer sizes; a result that
    did not fit is kept, delivered once and not computed again; errors reach the connection they belong
    to, with SQLSTATE and native code except from \<open>odbc_exec_query_params\<close> with parameters; an asynchronous result is delivered exactly once; disconnecting releases exactly what belongs to
    the connection; the tables stay consistent on every sequence of calls, up to the results that a release
    of pooled connections leaves behind.
  \<^item> Vendor statements: upserts and catalog queries cannot be injected into, and neither can session
    statements outside MySQL, MariaDB and Snowflake, each read back as tokens by the rules of its server; the plugin of a connection string is the one its driver names; the metadata cache
    is a bounded, expiring view of what was put into it, and a catalog answer that did not fit is
    delivered from it.
  \<^item> Bulk inserts: what the parser accepts is well typed, and a well-typed payload is inserted without panic or
    type error, exactly its rows; the parallel insert ends under every fair schedule and leaves the table as
    the serial one does.
  \<^item> Pools: identifiers of pooled connections are unique on every sequence of calls; a connection is in autocommit
    mode whenever it is handed out.
  \<^item> Secrets and measurements: redaction replaces exactly the values of secret keys; the audit log is the latest
    events of its history, whatever the secrets were; latency statistics are exact over the window; spans
    end with their guards; the log hides the literals of a statement; regions of the arena are disjoint.
  \<^item> Further theorems record behaviour the code does not intend (oversized output values panic, binary
    bulk cells are cut at a zero byte, a failed XA start leaves autocommit off, \<open>SET LOCAL\<close> is sent
    outside the transaction, polling hides a crashed worker, two spilling streams may share a file, two
    threads can begin two transactions on one connection, a cancelled request can become ready, a batch
    can be answered with a row message, the character set of a MySQL session is sent unescaped, catalog
    queries of keys ignore the schema, the statement cache evicts the statement in use, a
    recycled pooled identifier delivers the previous holder's result, resizing a pool forgets its options,
    a partly failed insert reports fewer rows than it left behind, a spill threshold wraps to zero, a
    Snowflake session value with a backslash closes its literal, a doubled brace shows part of a password,
    asking for metrics after \<open>2\<^sup>3\<^sup>2\<close> queries poisons the engine, an arena hands out memory beyond its chunk).

  \<^bold>\<open>Bounds, fuel and arithmetic.\<close>
  Wire fields are words of their width. \<open>usize\<close> is a natural number with the bound \<open>usize_max\<close> (64 bits)
  written out in checked operations and the wrap-around where a release build wraps (the spill threshold,
  the arena's offsets); a Rust slice is never longer than that, which the theorems on
  long inputs state as a hypothesis. Loops over a count are structural (\<open>read_n\<close>); the parameter loop
  terminates because every value consumes at least its five header bytes, the batch loop because a
  batch that is not the last takes a row, the spill writer because a round takes 64 KiB; the 1000
  attempts of the identifier allocation are the source's own, and
  \<open>create_connection_succeeds\<close> shows when they suffice. Draining a stream is a client's loop and
  takes fuel: more than the number of remaining bytes and batches is enough, which the theorems on
  streams state.

  \<^bold>\<open>What is not modelled.\<close>
  The internals of \<open>odbc_api\<close>, of the servers, of the compressors and of the crates \<open>lru\<close> and \<open>r2d2\<close> (parameters of the
  model), the entry points for versions and driver metadata, raw pointers (a buffer is its bytes, a
  null pointer \<open>None\<close>), threads (a poisoned mutex, a worker's messages and the places where an entry point
  gives up the lock are modelled, contention is not), the MSDTC and OCI features of XA, bulk
  copy with the native BCP library, the telemetry exporters, zeroized buffers, and the Dart package apart
  from the columnar parser.
\<close>

section \<open>Result sets through the envelope\<close>

text \<open>The wire form of a result set that fits the limits of both layers.\<close>

definition wf_result_set :: "row_buffer \<Rightarrow> bool" where
  "wf_result_set b \<longleftrightarrow> wf_buffer b \<and> length (header_bytes b @ payload_bytes b) \<le> MAX_MULTI_RESULT_PAYLOAD"

text \<open>
  A query result survives both layers of the protocol: result sets encoded as row messages, put
  into a multi-result envelope, decoded by the envelope decoder and then parsed one by one come out
  with their columns and rows, in order.
\<close>

theorem result_sets_through_envelope:
  assumes "list_all wf_result_set bs" and "length bs \<le> MAX_MULTI_RESULT_ITEMS"
    and "omapM encode bs = (Ok msgs :: (odbc_error, bytes list) outcome)" and "length (encode_multi (map MR_ResultSet msgs)) \<le> usize_max"
  shows "decode_multi (encode_multi (map MR_ResultSet msgs)) = Ok (map MR_ResultSet msgs) \<and>
    omapM parse msgs = Ok (map (\<lambda>b. \<lparr>dr_columns = map info_of (rb_columns b), dr_rows = rb_rows b,
      dr_row_count = row_count b, dr_column_count = column_count b\<rparr>) bs)"
proof -
  have "omapM encode bs = (Ok (map (\<lambda>b. header_bytes b @ payload_bytes b) bs) :: (odbc_error, bytes list) outcome)"
    using assms(1) by (intro omapM_Ok_map) (auto simp: list_all_iff wf_result_set_def encode_def try_encode_Ok)
  with assms(3) have msgs: "msgs = map (\<lambda>b. header_bytes b @ payload_bytes b) bs" by simp
  have "list_all wf_item (map MR_ResultSet msgs)"
    using assms(1) by (auto simp: msgs list_all_iff wf_result_set_def)
  moreover have "length (map MR_ResultSet msgs) \<le> MAX_MULTI_RESULT_ITEMS" using assms(2) by (simp add: msgs)
  ultimately have "decode_multi (encode_multi (map MR_ResultSet msgs) @ []) = Ok (map MR_ResultSet msgs)"
    using assms(4) by (intro decode_encode_multi) simp_all
  moreover have "omapM parse msgs = Ok (map (\<lambda>b. \<lparr>dr_columns = map info_of (rb_columns b), dr_rows = rb_rows b,
      dr_row_count = row_count b, dr_column_count = column_count b\<rparr>) bs)"
    using assms(1) unfolding msgs by (induction bs) (simp_all add: wf_result_set_def parse_layout)
  ultimately show ?thesis by simp
qed

theorem result_sets_through_envelope_witness:
  "let b = add_row [Some [7]] (add_column ''n'' Integer row_buffer_new)
   in \<exists>msgs. omapM encode [b, b] = (Ok msgs :: (odbc_error, bytes list) outcome) \<and>
      decode_multi (encode_multi (map MR_ResultSet msgs)) = Ok (map MR_ResultSet msgs)"
proof -
  define b where "b = add_row [Some [7]] (add_column ''n'' Integer row_buffer_new)"
  have len: "length (header_bytes b @ payload_bytes b) = 27"
    by (simp add: b_def add_row_def add_column_def row_buffer_new_def payload_bytes_def row_bytes_def byte_simps info_of_def)
  have wf: "wf_result_set b"
    using len
    by (simp add: wf_result_set_def MAX_MULTI_RESULT_PAYLOAD_def)
      (simp add: b_def wf_buffer_def add_row_def add_column_def row_buffer_new_def column_count_def row_count_def
        payload_bytes_def row_bytes_def byte_simps info_of_def wf_info_def wf_cell_def valid_str_ascii ascii_def
        decoder_limits)
  let ?m = "header_bytes b @ payload_bytes b"
  have e: "omapM encode [b, b] = (Ok [?m, ?m] :: (odbc_error, bytes list) outcome)"
    using wf by (simp add: wf_result_set_def encode_def try_encode_Ok)
  moreover have "length (encode_multi (map MR_ResultSet [?m, ?m])) \<le> usize_max"
    using len by (simp add: encode_multi_def encode_items_concat)
  ultimately show ?thesis
    unfolding Let_def b_def[symmetric]
    using result_sets_through_envelope[OF _ _ e] wf by (auto simp: MAX_MULTI_RESULT_ITEMS_def)
qed

section \<open>Output parameters behind the envelope\<close>

text \<open>
  Output parameters travel behind the results without disturbing them: when the \<open>OUT1\<close> footer is
  appended to an envelope, the envelope decoder still returns exactly the items, and the parameter
  decoder finds exactly the output values behind the magic and the count.
\<close>

theorem envelope_with_output_footer:
  assumes "list_all wf_item items" and "length items \<le> MAX_MULTI_RESULT_ITEMS"
    and "list_all wf_param ps" and "ps \<noteq> []" and "length ps \<le> MAX_PARAM_COUNT"
    and "try_append_output_footer (encode_multi items) ps = Ok msg" and "length msg \<le> usize_max"
  shows "decode_multi msg = Ok items \<and> deserialize_params (drop (length (encode_multi items) + 8) msg) = Ok ps"
proof -
  have "length ps < 2 ^ 32" using assms(5) by (simp add: MAX_PARAM_COUNT_def)
  note out = output_footer_layout[OF assms(3,4) this, of "encode_multi items"]
  let ?footer = "OUTPUT_FOOTER_MAGIC @ u32_le (of_nat (length ps)) @ concat (map param_bytes ps)"
  have msg: "msg = encode_multi items @ ?footer" using out assms(6) by simp
  have "is_known_footer ?footer"
    by (auto simp: is_known_footer_def starts_with_iff)
  then have "decode_multi msg = Ok items"
    unfolding msg using assms(1,2,7) by (intro decode_encode_multi) (simp_all add: msg)
  moreover have "deserialize_params (concat (map param_bytes ps)) = Ok ps"
    using params_loop_roundtrip[of ps "[]" "[]"] assms(3,5) by (simp add: deserialize_params_def)
  then have "deserialize_params (drop (length (encode_multi items) + 8) msg) = Ok ps"
    by (simp add: msg OUTPUT_FOOTER_MAGIC_def)
  ultimately show ?thesis by simp
qed

theorem envelope_with_output_footer_witness:
  "\<exists>msg. try_append_output_footer (encode_multi [MR_RowCount 3]) [PV_BigInt 9] = Ok msg \<and>
    decode_multi msg = Ok [MR_RowCount 3] \<and>
    deserialize_params (drop (length (encode_multi [MR_RowCount 3]) + 8) msg) = Ok [PV_BigInt 9]"
proof -
  let ?msg = "encode_multi [MR_RowCount 3] @ OUTPUT_FOOTER_MAGIC @ u32_le 1 @ param_bytes (PV_BigInt 9)"
  have m: "try_append_output_footer (encode_multi [MR_RowCount 3]) [PV_BigInt 9] = Ok ?msg"
    using output_footer_layout[of "[PV_BigInt 9]" "encode_multi [MR_RowCount 3]"] by simp
  moreover have "length ?msg \<le> usize_max"
    by (simp add: encode_multi_def encode_items_concat OUTPUT_FOOTER_MAGIC_def byte_simps)
  ultimately show ?thesis
    using envelope_with_output_footer[OF _ _ _ _ _ m] by (auto simp: MAX_MULTI_RESULT_ITEMS_def MAX_PARAM_COUNT_def)
qed

end
